(* ===== verification/Prelude.thy ===== *)
theory Prelude
  imports Main "HOL-Library.Word" "HOL-Library.While_Combinator" "HOL-Library.AList"
begin

text \<open>
  What the components of the development share: the machine integers of the
  32-bit little-endian target, the outcomes a call can have besides returning
  (\<open>fault\<close>), sequencing of such calls, byte-addressed memory with 32-bit
  accesses, arrays of 32-bit words in it, handle tables, and the lemma
  collections the component proofs use.
\<close>

unbundle bit_operations_syntax

named_theorems run_simps "equations that unfold one call of a modelled function"

section \<open>Machine integers\<close>

text \<open>The SoC is a 32-bit MIPS: \<open>size_t\<close>, \<open>unsigned long\<close>, pointers and
  \<open>dma_addr_t\<close> are 32 bits wide.\<close>

type_synonym u8 = "8 word"
type_synonym u32 = "32 word"
type_synonym u64 = "64 word"

lemma unat_of_nat_u32: "n < 2 ^ 32 \<Longrightarrow> unat (of_nat n :: u32) = n"
  by (simp add: unat_of_nat)

lemma unat_plus_one:
  fixes x :: "'a::len word"
  shows "x \<noteq> - 1 \<Longrightarrow> unat (x + 1) = Suc (unat x)"
  using unatSuc [of x] by (simp add: add.commute eq_neg_iff_add_eq_0)

lemma unat_max_word: "unat (- 1 :: 'a::len word) = 2 ^ LENGTH('a) - 1"
  by (simp add: unsigned_minus_1_eq_mask mask_eq_exp_minus_1)

lemma word_less_succ:
  fixes x :: "'a::len word"
  shows "x \<noteq> - 1 \<Longrightarrow> x < x + 1"
  by (simp add: word_less_nat_alt unat_plus_one)

lemma sint_neg_u32:
  fixes x :: u32
  assumes "0x80000000 \<le> x"
  shows "sint x < 0"
proof -
  have lo: "2147483648 \<le> uint x" using assms by (simp add: word_le_def)
  have hi: "uint x < 4294967296" using uint_lt2p [of x] by simp
  have "uint x div 2147483648 = 1" using lo hi by simp
  then have "bit (uint x) 31" by (simp add: bit_iff_odd)
  then have "sint x = take_bit 32 (uint x) - 4294967296"
    by (simp add: sint_uint signed_take_bit_eq_take_bit_minus)
  also have "take_bit 32 (uint x) = uint x" using lo hi by (simp add: take_bit_eq_mod)
  finally show ?thesis using hi by simp
qed
lemma sint_pos_u32:
  fixes x :: u32
  assumes "x < 0x80000000"
  shows "sint x = uint x"
proof -
  have hi: "uint x < 2147483648" using assms by (simp add: word_less_def)
  have lo: "0 \<le> uint x" by simp
  have "uint x div 2147483648 = 0" using lo hi by simp
  then have "\<not> bit (uint x) 31" by (simp add: bit_iff_odd)
  then have "sint x = take_bit 32 (uint x)"
    by (simp add: sint_uint signed_take_bit_eq_take_bit_minus)
  also have "take_bit 32 (uint x) = uint x" using lo hi by (simp add: take_bit_eq_mod)
  finally show ?thesis .
qed
section \<open>Calls that do not return\<close>

text \<open>
  A C function either returns, or ends in one of these: it dereferences a NULL
  pointer (a kernel oops or a segmentation fault), it runs into \<open>BUG()\<close>, it
  spins for ever on a condition nothing will change, it sleeps on a lock or a
  queue and cannot go on from the present state, it touches an object that was
  freed, or it writes outside the buffer it was given to write to (what the
  kernel keeps there is not modelled).
\<close>

datatype fault = Null_deref | Kernel_bug | Spins | Sleeps | Use_after_free | Out_of_buffer

fun res_bind :: "'e + 'a \<Rightarrow> ('a \<Rightarrow> 'e + 'b) \<Rightarrow> 'e + 'b" where
  "res_bind (Inl e) f = Inl e"
| "res_bind (Inr x) f = f x"

lemma res_bind_Inr_iff:
  "res_bind m f = Inr y \<longleftrightarrow> (\<exists>x. m = Inr x \<and> f x = Inr y)"
  by (cases m) auto

lemma res_bindE:
  assumes "res_bind m f = Inr y"
  obtains x where "m = Inr x" and "f x = Inr y"
  using assms by (auto simp: res_bind_Inr_iff)

lemma res_bind_cong [fundef_cong]:
  "m = m' \<Longrightarrow> (\<And>x. m' = Inr x \<Longrightarrow> f x = g x) \<Longrightarrow> res_bind m f = res_bind m' g"
  by (cases m') auto

section \<open>Byte memory\<close>

text \<open>
  Memory is a map from 32-bit addresses to bytes; 32-bit accesses are
  little-endian and addresses wrap around.
\<close>

type_synonym mem = "u32 \<Rightarrow> u8"

definition store32 :: "mem \<Rightarrow> u32 \<Rightarrow> u32 \<Rightarrow> mem" where
  "store32 m a v = m(a := ucast v,
                     a + 1 := ucast (drop_bit 8 v),
                     a + 2 := ucast (drop_bit 16 v),
                     a + 3 := ucast (drop_bit 24 v))"

definition load32 :: "mem \<Rightarrow> u32 \<Rightarrow> u32" where
  "load32 m a = ucast (m a) OR push_bit 8 (ucast (m (a + 1)))
     OR push_bit 16 (ucast (m (a + 2))) OR push_bit 24 (ucast (m (a + 3)))"

lemma join_bytes:
  fixes v :: u32
  shows "(ucast (ucast v :: u8) :: u32) OR push_bit 8 (ucast (ucast (drop_bit 8 v) :: u8))
     OR push_bit 16 (ucast (ucast (drop_bit 16 v) :: u8))
     OR push_bit 24 (ucast (ucast (drop_bit 24 v) :: u8)) = v"
proof (rule bit_word_eqI)
  fix n
  assume n: "n < LENGTH(32)"
  consider "n < 8" | "8 \<le> n" "n < 16" | "16 \<le> n" "n < 24" | "24 \<le> n" "n < 32"
    using n by fastforce
  then show "bit ((ucast (ucast v :: u8) :: u32) OR push_bit 8 (ucast (ucast (drop_bit 8 v) :: u8))
     OR push_bit 16 (ucast (ucast (drop_bit 16 v) :: u8))
     OR push_bit 24 (ucast (ucast (drop_bit 24 v) :: u8))) n = bit v n"
    using n by cases (auto simp: bit_simps)
qed

lemma load32_store32_same [simp]: "load32 (store32 m a v) a = v"
  by (simp add: load32_def store32_def join_bytes)

lemma store32_other:
  "b \<noteq> a \<Longrightarrow> b \<noteq> a + 1 \<Longrightarrow> b \<noteq> a + 2 \<Longrightarrow> b \<noteq> a + 3 \<Longrightarrow> store32 m a v b = m b"
  by (simp add: store32_def)

section \<open>Arrays of 32-bit words\<close>

text \<open>The address of word \<open>k\<close> of an array at \<open>base\<close>, and a sequence of writes
  to such words, given by their indices.\<close>

definition word_at :: "u32 \<Rightarrow> nat \<Rightarrow> u32" where
  "word_at base k = base + of_nat (4 * k)"

definition store_words :: "u32 \<Rightarrow> (nat \<times> u32) list \<Rightarrow> mem \<Rightarrow> mem" where
  "store_words base ws m = fold (\<lambda>(k, v) m. store32 m (word_at base k) v) ws m"

lemma store_words_Nil [simp]: "store_words base [] m = m"
  by (simp add: store_words_def)

lemma store_words_Cons [simp]:
  "store_words base ((k, v) # ws) m = store_words base ws (store32 m (word_at base k) v)"
  by (simp add: store_words_def)

lemma store_words_append:
  "store_words base (xs @ ys) m = store_words base ys (store_words base xs m)"
  by (simp add: store_words_def)

lemma of_nat_byte_inj:
  assumes "(of_nat (4 * x) :: u32) + of_nat i = of_nat (4 * y) + of_nat j"
    and "x < 2 ^ 30" "y < 2 ^ 30" "i < 4" "j < 4"
  shows "x = y \<and> i = j"
proof -
  have "(of_nat (4 * x + i) :: u32) = of_nat (4 * y + j)"
    using assms(1) by simp
  then have "4 * x + i = 4 * y + j"
    using assms(2-5) by (simp only: of_nat_eq_iff word_unat_eq_iff unat_of_nat) simp
  then show ?thesis using assms(4,5) by presburger
qed

lemma word_at_bytes_distinct:
  assumes "x \<noteq> y" "x < 2 ^ 30" "y < 2 ^ 30" "i < 4" "j < 4"
  shows "word_at base x + of_nat i \<noteq> word_at base y + of_nat j"
  using of_nat_byte_inj [of x i y j] assms by (auto simp: word_at_def add.assoc)

lemma load32_store32_word_at:
  assumes "x < 2 ^ 30" "y < 2 ^ 30"
  shows "load32 (store32 m (word_at base x) v) (word_at base y) =
    (if x = y then v else load32 m (word_at base y))"
proof (cases "x = y")
  case False
  have ne: "word_at base y + of_nat i \<noteq> word_at base x + of_nat j" if "i < 4" "j < 4" for i j
    using word_at_bytes_distinct [of y x i j base] False assms that by auto
  have "store32 m (word_at base x) v (word_at base y + of_nat i) = m (word_at base y + of_nat i)"
    if "i < 4" for i
    using ne [of i 0] ne [of i 1] ne [of i 2] ne [of i 3] that
    by (intro store32_other) auto
  from this [of 0] this [of 1] this [of 2] this [of 3] False show ?thesis
    by (simp add: load32_def)
qed simp

lemma load32_store_words:
  assumes "\<forall>(k, v) \<in> set ws. k < 2 ^ 30" "y < 2 ^ 30"
  shows "load32 (store_words base ws m) (word_at base y) =
    (case map_of (rev ws) y of None \<Rightarrow> load32 m (word_at base y) | Some v \<Rightarrow> v)"
  using assms(1)
proof (induction ws rule: rev_induct)
  case (snoc w ws)
  obtain k v where w: "w = (k, v)" by (cases w)
  with snoc show ?case
    using assms(2) by (auto simp: store_words_append load32_store32_word_at)
qed simp

text \<open>Bytes outside the first \<open>n\<close> words of the array are not touched.\<close>

lemma store_words_frame:
  assumes "\<forall>(k, v) \<in> set ws. k < n" "n \<le> 2 ^ 30" "4 * n \<le> unat (a - base)"
  shows "store_words base ws m a = m a"
  using assms(1)
proof (induction ws rule: rev_induct)
  case (snoc w ws)
  obtain k v where w: "w = (k, v)" by (cases w)
  have k: "k < n" using snoc.prems w by simp
  have ne: "a \<noteq> word_at base k + of_nat i" if "i < 4" for i
  proof
    assume "a = word_at base k + of_nat i"
    then have "unat (a - base) = unat (of_nat (4 * k + i) :: u32)"
      by (simp add: word_at_def algebra_simps)
    also have "\<dots> = 4 * k + i"
      using k assms(2) that by (intro unat_of_nat_u32) simp
    finally show False using assms(3) k that by simp
  qed
  have "store32 m' (word_at base k) v a = m' a" for m'
    using ne [of 0] ne [of 1] ne [of 2] ne [of 3] by (intro store32_other) auto
  with snoc show ?case by (simp add: store_words_append w)
qed simp

text \<open>An array of nodes of \<open>w\<close> words each, the same words written in each of the
  first \<open>n\<close> nodes: \<open>fx\<close> gives their offsets in the node and the values.\<close>

definition node_words :: "nat \<Rightarrow> (nat \<times> u32) list \<Rightarrow> nat \<Rightarrow> (nat \<times> u32) list" where
  "node_words w fx i = map (\<lambda>(k, v). (w * i + k, v)) fx"

definition chain_words :: "nat \<Rightarrow> (nat \<times> u32) list \<Rightarrow> nat \<Rightarrow> (nat \<times> u32) list" where
  "chain_words w fx n = concat (map (node_words w fx) [0 ..< n])"

lemma node_index_inj:
  fixes w :: nat
  assumes "k < w" "k' < w"
  shows "w * i + k = w * i' + k' \<longleftrightarrow> i = i' \<and> k = k'"
proof
  assume eq: "w * i + k = w * i' + k'"
  have "(w * i + k) div w = i" "(w * i' + k') div w = i'" using assms by auto
  with eq show "i = i' \<and> k = k'" by auto
qed simp

lemma map_of_node_words:
  assumes "\<forall>(k', v) \<in> set fx. k' < w" "k < w"
  shows "map_of (node_words w fx i') (w * i + k) = (if i = i' then map_of fx k else None)"
  using assms by (induction fx) (auto simp: node_words_def node_index_inj split: if_splits)

lemma rev_node_words: "rev (node_words w fx i) = node_words w (rev fx) i"
  by (simp add: node_words_def rev_map)

lemma chain_words_Suc: "chain_words w fx (Suc n) = chain_words w fx n @ node_words w fx n"
  by (simp add: chain_words_def)

lemma map_of_chain_words:
  assumes "\<forall>(k', v) \<in> set fx. k' < w" "k < w"
  shows "map_of (rev (chain_words w fx n)) (w * i + k) =
    (if i < n then map_of (rev fx) k else None)"
proof (induction n)
  case (Suc n)
  have "\<forall>(k', v) \<in> set (rev fx). k' < w" using assms(1) by simp
  from map_of_node_words [OF this assms(2), of n i] Suc show ?case
    by (auto simp: chain_words_Suc rev_node_words map_add_def split: option.splits)
qed (simp add: chain_words_def)

lemma chain_words_bound:
  assumes "\<forall>(k', v) \<in> set fx. k' < w"
  shows "\<forall>(k, v) \<in> set (chain_words w fx n). k < w * n"
proof (induction n)
  case (Suc n)
  then show ?case using assms
    by (auto simp: chain_words_Suc node_words_def)
qed (simp add: chain_words_def)

text \<open>Nodes whose fields are pairs of words: word \<open>j\<close> of field \<open>f\<close> is number
  \<open>2 * ix f + j\<close> of the node.\<close>

definition pair_words :: "('f \<Rightarrow> nat) \<Rightarrow> ('f \<times> nat \<times> u32) list \<Rightarrow> (nat \<times> u32) list" where
  "pair_words ix fx = map (\<lambda>(f, j, v). (2 * ix f + j, v)) fx"

text \<open>A chain of \<open>n\<close> nodes, and one more node with other words when \<open>b\<close> holds.\<close>

definition chain_patch :: "nat \<Rightarrow> (nat \<times> u32) list \<Rightarrow> (nat \<times> u32) list \<Rightarrow> nat \<Rightarrow> bool \<Rightarrow> (nat \<times> u32) list" where
  "chain_patch w fx fin n b = chain_words w fx n @ (if b then node_words w fin n else [])"

definition chain_nodes :: "nat \<Rightarrow> bool \<Rightarrow> nat" where
  "chain_nodes n b = (if b then Suc n else n)"

text \<open>\<open>fx\<close> and \<open>fin\<close> both write the last word of their node.\<close>

locale node_chain =
  fixes w :: nat and fx fin :: "(nat \<times> u32) list"
  assumes fx_bound: "\<forall>(k, v) \<in> set fx. k < w"
    and fin_bound: "\<forall>(k, v) \<in> set fin. k < w"
    and fx_top: "w - 1 \<in> fst ` set fx"
    and fin_top: "w - 1 \<in> fst ` set fin"
begin

lemma w_pos: "0 < w"
  using fx_bound fx_top by fastforce

lemma patch_bound: "\<forall>(k, v) \<in> set (chain_patch w fx fin n b). k < w * chain_nodes n b"
proof -
  have "\<forall>(k, v) \<in> set (node_words w fin n). k < w * Suc n"
    using fin_bound by (auto simp: node_words_def)
  moreover have "\<forall>(k, v) \<in> set (chain_words w fx n). k < w * n \<and> k < w * Suc n"
    using chain_words_bound [OF fx_bound, of n] by fastforce
  ultimately show ?thesis
    unfolding chain_patch_def chain_nodes_def set_append ball_Un by auto
qed

text \<open>The words lie below a limit exactly when all nodes do.\<close>

lemma patch_fits:
  "(\<forall>(k, v) \<in> set (chain_patch w fx fin n b). s + 4 * k + 4 \<le> limit) \<longleftrightarrow>
   chain_nodes n b = 0 \<or> s + 4 * (w * chain_nodes n b) \<le> limit"
proof
  assume all: "\<forall>(k, v) \<in> set (chain_patch w fx fin n b). s + 4 * k + 4 \<le> limit"
  show "chain_nodes n b = 0 \<or> s + 4 * (w * chain_nodes n b) \<le> limit"
  proof (cases "chain_nodes n b")
    case (Suc i)
    obtain v v' where v: "(w - 1, v) \<in> set fx" "(w - 1, v') \<in> set fin"
      using fx_top fin_top by auto
    have "b \<Longrightarrow> (w * i + (w - 1), v') \<in> set (chain_patch w fx fin n b)"
      using Suc v(2) by (auto simp: chain_patch_def chain_nodes_def node_words_def intro!: image_eqI)
    moreover have "\<not> b \<Longrightarrow> (w * i + (w - 1), v) \<in> set (chain_patch w fx fin n b)"
      using Suc v(1)
      by (auto simp: chain_patch_def chain_nodes_def chain_words_Suc node_words_def intro!: image_eqI)
    ultimately have "s + 4 * (w * i + (w - 1)) + 4 \<le> limit" using all by (cases b) blast+
    moreover have "w * i + (w - 1) + 1 = w * Suc i" using w_pos by simp
    ultimately show ?thesis using Suc by (simp del: mult_Suc_right)
  qed simp
next
  assume fits: "chain_nodes n b = 0 \<or> s + 4 * (w * chain_nodes n b) \<le> limit"
  have "s + 4 * k + 4 \<le> limit" if "(k, v) \<in> set (chain_patch w fx fin n b)" for k v
  proof -
    have "k < w * chain_nodes n b" using patch_bound [of n b] that by blast
    with fits show ?thesis by auto
  qed
  then show "\<forall>(k, v) \<in> set (chain_patch w fx fin n b). s + 4 * k + 4 \<le> limit" by blast
qed

lemma patch_lookup:
  assumes "i < chain_nodes n b" "k < w"
  shows "map_of (rev (chain_patch w fx fin n b)) (w * i + k) = map_of (rev (if i < n then fx else fin)) k"
proof -
  have "\<forall>(k', v) \<in> set (rev fin). k' < w" using fin_bound by simp
  from map_of_node_words [OF this assms(2), of n i] map_of_chain_words [OF fx_bound assms(2), of n i]
    assms(1) show ?thesis
    by (auto simp: chain_patch_def chain_nodes_def rev_node_words map_add_def
        split: if_splits option.splits)
qed

text \<open>What the memory holds after the chain was patched, inside and outside of it.\<close>

lemma load32_patched:
  assumes "w * chain_nodes n b \<le> 2 ^ 30" "i < chain_nodes n b" "k < w"
  shows "load32 (store_words base (chain_patch w fx fin n b) m) (word_at base (w * i + k)) =
    (case map_of (rev (if i < n then fx else fin)) k of
       None \<Rightarrow> load32 m (word_at base (w * i + k)) | Some v \<Rightarrow> v)"
proof -
  have all: "\<forall>(k, v) \<in> set (chain_patch w fx fin n b). k < 2 ^ 30"
    using patch_bound [of n b] assms(1) by fastforce
  have "w * Suc i \<le> w * chain_nodes n b" using assms(2) by (intro mult_le_mono2) simp
  then have "w * i + k < 2 ^ 30" using assms(1,3) by simp
  from load32_store_words [OF all this] patch_lookup [OF assms(2,3)] show ?thesis by simp
qed

lemma patched_frame:
  "w * chain_nodes n b \<le> 2 ^ 30 \<Longrightarrow> 4 * (w * chain_nodes n b) \<le> unat (a - base) \<Longrightarrow>
   store_words base (chain_patch w fx fin n b) m a = m a"
  by (rule store_words_frame [OF patch_bound])

end

section \<open>Handle tables\<close>

text \<open>
  The kernel's \<open>idr\<close> maps small integer ids to objects. It is an association
  list here, in the order of insertion; which id an insertion gets is the
  kernel's choice, a parameter of the calls that insert.
\<close>

type_synonym 'a idr = "(int \<times> 'a) list"

definition idr_find :: "'a idr \<Rightarrow> int \<Rightarrow> 'a option" where
  "idr_find t i = map_of t i"

definition idr_insert :: "int \<Rightarrow> 'a \<Rightarrow> 'a idr \<Rightarrow> 'a idr" where
  "idr_insert i x t = t @ [(i, x)]"

definition idr_remove :: "int \<Rightarrow> 'a idr \<Rightarrow> 'a idr" where
  "idr_remove i t = filter (\<lambda>(j, _). j \<noteq> i) t"

text \<open>What \<open>idr_alloc(idr, ptr, 1, 0, gfp)\<close> documents: a negative error, or an
  id of at least 1 that is not in use.\<close>

definition idr_alloc_ok :: "('a idr \<Rightarrow> int) \<Rightarrow> bool" where
  "idr_alloc_ok alloc \<longleftrightarrow> (\<forall>t. alloc t < 0 \<or> (1 \<le> alloc t \<and> idr_find t (alloc t) = None))"

definition idr_wf :: "'a idr \<Rightarrow> bool" where
  "idr_wf t \<longleftrightarrow> distinct (map fst t) \<and> (\<forall>i \<in> fst ` set t. 1 \<le> i)"

lemma idr_find_insert:
  "idr_find t i = None \<Longrightarrow> idr_find (idr_insert i x t) j = (if j = i then Some x else idr_find t j)"
  by (auto simp: idr_find_def idr_insert_def map_add_def split: option.splits)

lemma idr_find_remove:
  "idr_find (idr_remove i t) j = (if j = i then None else idr_find t j)"
  by (induction t) (auto simp: idr_find_def idr_remove_def)

lemma idr_wf_Nil [simp]: "idr_wf []"
  by (simp add: idr_wf_def)

lemma idr_wf_insert:
  "idr_wf t \<Longrightarrow> idr_find t i = None \<Longrightarrow> 1 \<le> i \<Longrightarrow> idr_wf (idr_insert i x t)"
  by (auto simp: idr_wf_def idr_insert_def idr_find_def map_of_eq_None_iff)

lemma idr_wf_filter: "idr_wf t \<Longrightarrow> idr_wf (filter P t)"
  by (auto simp: idr_wf_def distinct_map_filter)

lemma idr_wf_remove: "idr_wf t \<Longrightarrow> idr_wf (idr_remove i t)"
  by (simp add: idr_remove_def idr_wf_filter)

lemma idr_find_filter:
  "idr_wf t \<Longrightarrow>
   idr_find (filter P t) i = (case idr_find t i of None \<Rightarrow> None
     | Some x \<Rightarrow> if P (i, x) then Some x else None)"
proof (induction t)
  case (Cons a t)
  then show ?case
    by (cases a) (auto simp: idr_find_def idr_wf_def map_of_eq_None_iff image_iff
        split: option.splits dest: map_of_SomeD)
qed (simp add: idr_find_def)

lemma idr_remove_unknown: "idr_find t i = None \<Longrightarrow> idr_remove i t = t"
  by (induction t) (auto simp: idr_find_def idr_remove_def split: if_splits)

lemma length_idr_remove:
  "idr_wf t \<Longrightarrow> idr_find t i = Some x \<Longrightarrow> Suc (length (idr_remove i t)) = length t"
proof (induction t)
  case (Cons a t)
  obtain j y where a: "a = (j, y)" by (cases a)
  show ?case
  proof (cases "j = i")
    case True
    with Cons.prems a have "idr_find t i = None"
      by (simp add: idr_wf_def idr_find_def map_of_eq_None_iff)
    then show ?thesis using a True idr_remove_unknown [of t i] by (simp add: idr_remove_def)
  next
    case False
    then show ?thesis using Cons a by (simp add: idr_find_def idr_remove_def idr_wf_def)
  qed
qed (simp add: idr_find_def)

text \<open>The first id that is free, as the kernel chooses it.\<close>

definition first_id :: "'a idr \<Rightarrow> int" where
  "first_id t = Max (insert 0 (fst ` set t)) + 1"

lemma first_id_ok: "idr_alloc_ok first_id"
proof -
  have "1 \<le> first_id t" for t :: "'a idr" by (simp add: first_id_def)
  moreover have "first_id t \<notin> fst ` set t" for t :: "'a idr"
  proof
    assume "first_id t \<in> fst ` set t"
    then have "first_id t \<le> Max (insert 0 (fst ` set t))" by simp
    then show False by (simp add: first_id_def)
  qed
  ultimately show ?thesis by (auto simp: idr_alloc_ok_def idr_find_def map_of_eq_None_iff)
qed

end
