(* ===== verification/Regs.thy ===== *)
theory Regs
  imports Prelude
begin

text \<open>
  The register map of the AIP v2.0 block, \<open>drive/jz_aip_v20_regs.h\<close>: one constant
  per register offset, one \<open>reg_field\<close> per bit field (its \<open>_WIDTH\<close> and
  \<open>_SHIFT\<close>; \<open>_MASK\<close> and \<open>_FIELD\<close> are \<open>fmask\<close> and \<open>ffield\<close> of it), and per
  register the list of its fields. The locale \<open>reg_layout\<close> is what the driver
  relies on when it builds a register value with \<open>(v & MASK) << SHIFT\<close>
  and \<open>|=\<close>: fields that do not overlap. It is interpreted on the configuration
  and offset registers of the three channels.
  (\<open>AIP_V20_P_MODE_BW_MASK\<close> is left out: its macro names an undefined one.)
\<close>

named_theorems aip_regs "register offsets"
named_theorems aip_fields "bit fields"
named_theorems aip_layouts "field lists of the registers"

section \<open>Bit fields\<close>

record reg_field =
  fwidth :: nat
  fshift :: nat

definition fmask :: "reg_field \<Rightarrow> u32" where
  "fmask f = push_bit (fwidth f) 1 - 1"

definition ffield :: "reg_field \<Rightarrow> u32" where
  "ffield f = push_bit (fshift f) (fmask f)"

text \<open>\<open>(v & MASK) << SHIFT\<close>, and the value the field has in a register.\<close>

definition fput :: "reg_field \<Rightarrow> u32 \<Rightarrow> u32" where
  "fput f v = push_bit (fshift f) (v AND fmask f)"

definition fget :: "reg_field \<Rightarrow> u32 \<Rightarrow> u32" where
  "fget f r = drop_bit (fshift f) r AND fmask f"

text \<open>A register value put together field by field with \<open>|=\<close>.\<close>

definition encode_fields :: "(reg_field \<times> u32) list \<Rightarrow> u32" where
  "encode_fields fvs = fold (\<lambda>(f, v) r. r OR fput f v) fvs 0"

definition field_before :: "reg_field \<Rightarrow> reg_field \<Rightarrow> bool" where
  "field_before f g \<longleftrightarrow> fshift f + fwidth f \<le> fshift g"

lemma fmask_eq: "fmask f = mask (fwidth f)"
  by (simp add: fmask_def mask_eq_decr_exp push_bit_eq_mult)

lemma ffield_fput: "ffield f = fput f (- 1)"
  by (simp add: ffield_def fput_def)

lemma bit_fput:
  "bit (fput f v) n \<longleftrightarrow> fshift f \<le> n \<and> n < 32 \<and> n - fshift f < fwidth f \<and> bit v (n - fshift f)"
  by (auto simp: fput_def fmask_eq bit_simps)

lemma bit_fget: "bit (fget f r) n \<longleftrightarrow> n < fwidth f \<and> bit r (fshift f + n)"
  by (auto simp: fget_def fmask_eq bit_simps dest: bit_imp_le_length)

lemma bit_encode_aux:
  "bit (fold (\<lambda>(f, v) r. r OR fput f v) fvs r0) n \<longleftrightarrow>
     bit r0 n \<or> (\<exists>(f, v) \<in> set fvs. bit (fput f v) n)"
  by (induction fvs arbitrary: r0) (auto simp: bit_or_iff)

lemma bit_encode_fields:
  "bit (encode_fields fvs) n \<longleftrightarrow> (\<exists>(f, v) \<in> set fvs. bit (fput f v) n)"
  by (simp add: encode_fields_def bit_encode_aux)

section \<open>Layouts\<close>

locale reg_layout =
  fixes fields :: "reg_field list"
  assumes ordered: "sorted_wrt field_before fields"
    and in_word: "f \<in> set fields \<Longrightarrow> 0 < fwidth f \<and> fshift f + fwidth f \<le> 32"
begin

lemma disjoint:
  assumes "f \<in> set fields" "g \<in> set fields" "f \<noteq> g"
  shows "field_before f g \<or> field_before g f"
  using ordered assms
proof (induction fields)
  case (Cons h fs)
  then show ?case by auto
qed simp

lemma fields_distinct: "distinct fields"
proof -
  have "sorted_wrt (\<lambda>f g. f \<noteq> g) fields"
  proof (rule sorted_wrt_mono_rel [OF _ ordered])
    fix f g
    assume "f \<in> set fields" "g \<in> set fields" "field_before f g"
    then show "f \<noteq> g" using in_word [of f] by (auto simp: field_before_def)
  qed
  then show ?thesis by (induction fields) auto
qed

text \<open>Every field of a register built with \<open>|=\<close> reads back as the value put there,
  cut to the field's width; a field that was not written reads 0.\<close>

lemma fget_encode:
  assumes "fst ` set fvs \<subseteq> set fields" "distinct (map fst fvs)" "(f, v) \<in> set fvs"
  shows "fget f (encode_fields fvs) = v AND fmask f"
proof (rule bit_word_eqI)
  fix n
  assume "n < LENGTH(32)"
  have f: "f \<in> set fields" using assms(1,3) by force
  show "bit (fget f (encode_fields fvs)) n = bit (v AND fmask f) n"
  proof (cases "n < fwidth f")
    case n: True
    have same: "bit (fput g w) (fshift f + n) \<longleftrightarrow> g = f \<and> w = v \<and> bit v n" if "(g, w) \<in> set fvs" for g w
    proof (cases "g = f")
      case True
      with that assms(2,3) have "w = v" by (meson eq_key_imp_eq_value)
      then show ?thesis using True n in_word [OF f] by (simp add: bit_fput)
    next
      case False
      have "g \<in> set fields" using that assms(1) by force
      with disjoint [OF f, of g] False n show ?thesis
        by (auto simp: bit_fput field_before_def)
    qed
    have "bit (fget f (encode_fields fvs)) n \<longleftrightarrow> bit v n"
      using n same assms(3) by (auto simp: bit_fget bit_encode_fields)
    with n \<open>n < LENGTH(32)\<close> show ?thesis by (simp add: fmask_eq bit_simps)
  next
    case False
    then show ?thesis by (simp add: bit_fget fmask_eq bit_simps)
  qed
qed

lemma fget_encode_unset:
  assumes "fst ` set fvs \<subseteq> set fields" "f \<in> set fields" "f \<notin> fst ` set fvs"
  shows "fget f (encode_fields fvs) = 0"
proof (rule bit_word_eqI)
  fix n
  assume "n < LENGTH(32)"
  have "\<not> bit (fput g w) (fshift f + n)" if "(g, w) \<in> set fvs" "n < fwidth f" for g w
  proof -
    have "g \<noteq> f" "g \<in> set fields" using that(1) assms(1,3) by force+
    with disjoint [OF assms(2), of g] that(2) show ?thesis
      by (force simp: bit_fput field_before_def)
  qed
  then show "bit (fget f (encode_fields fvs)) n = bit (0 :: u32) n"
    by (auto simp: bit_fget bit_encode_fields)
qed

lemma fget_encode_fields:
  assumes "fst ` set fvs \<subseteq> set fields" "distinct (map fst fvs)" "f \<in> set fields"
  shows "fget f (encode_fields fvs) = (case map_of fvs f of None \<Rightarrow> 0 | Some v \<Rightarrow> v AND fmask f)"
proof (cases "map_of fvs f")
  case None
  then have "f \<notin> fst ` set fvs" by (simp add: map_of_eq_None_iff)
  with fget_encode_unset [OF assms(1,3)] None show ?thesis by simp
next
  case (Some v)
  with fget_encode [OF assms(1,2)] show ?thesis by (simp add: map_of_SomeD)
qed

end

section \<open>The register map\<close>

subsection \<open>Channel F\<close>

definition AIP_V20_F_CTL :: u32 where [aip_regs]:
  "AIP_V20_F_CTL = 0x200"

definition AIP_V20_F_CTL_BUSY :: reg_field where [aip_fields]:
  "AIP_V20_F_CTL_BUSY = \<lparr>fwidth = 1, fshift = 0\<rparr>"

definition AIP_V20_F_CTL_SOFT_RESET :: reg_field where [aip_fields]:
  "AIP_V20_F_CTL_SOFT_RESET = \<lparr>fwidth = 1, fshift = 1\<rparr>"

definition AIP_V20_F_CTL_CHAIN_BUSY :: reg_field where [aip_fields]:
  "AIP_V20_F_CTL_CHAIN_BUSY = \<lparr>fwidth = 1, fshift = 2\<rparr>"

definition AIP_V20_F_CTL_AXI_EMPTY :: reg_field where [aip_fields]:
  "AIP_V20_F_CTL_AXI_EMPTY = \<lparr>fwidth = 1, fshift = 3\<rparr>"

definition AIP_V20_F_CTL_DONE_R :: reg_field where [aip_fields]:
  "AIP_V20_F_CTL_DONE_R = \<lparr>fwidth = 1, fshift = 31\<rparr>"

definition AIP_V20_F_IRQ :: u32 where [aip_regs]:
  "AIP_V20_F_IRQ = 0x204"

definition AIP_V20_F_IRQ_IRQ :: reg_field where [aip_fields]:
  "AIP_V20_F_IRQ_IRQ = \<lparr>fwidth = 1, fshift = 0\<rparr>"

definition AIP_V20_F_IRQ_CHAIN_IRQ :: reg_field where [aip_fields]:
  "AIP_V20_F_IRQ_CHAIN_IRQ = \<lparr>fwidth = 1, fshift = 1\<rparr>"

definition AIP_V20_F_IRQ_TIMEOUT_IRQ :: reg_field where [aip_fields]:
  "AIP_V20_F_IRQ_TIMEOUT_IRQ = \<lparr>fwidth = 1, fshift = 2\<rparr>"

definition AIP_V20_F_CFG :: u32 where [aip_regs]:
  "AIP_V20_F_CFG = 0x208"

definition AIP_V20_F_CFG_IBUS :: reg_field where [aip_fields]:
  "AIP_V20_F_CFG_IBUS = \<lparr>fwidth = 1, fshift = 0\<rparr>"

definition AIP_V20_F_CFG_OBUS :: reg_field where [aip_fields]:
  "AIP_V20_F_CFG_OBUS = \<lparr>fwidth = 1, fshift = 1\<rparr>"

definition AIP_V20_F_CFG_CKG_MASK :: reg_field where [aip_fields]:
  "AIP_V20_F_CFG_CKG_MASK = \<lparr>fwidth = 1, fshift = 2\<rparr>"

definition AIP_V20_F_CFG_IRQ_MASK :: reg_field where [aip_fields]:
  "AIP_V20_F_CFG_IRQ_MASK = \<lparr>fwidth = 1, fshift = 3\<rparr>"

definition AIP_V20_F_CFG_CHAIN_IRQ_MASK :: reg_field where [aip_fields]:
  "AIP_V20_F_CFG_CHAIN_IRQ_MASK = \<lparr>fwidth = 1, fshift = 4\<rparr>"

definition AIP_V20_F_CFG_TIMEOUT_IRQ_MASK :: reg_field where [aip_fields]:
  "AIP_V20_F_CFG_TIMEOUT_IRQ_MASK = \<lparr>fwidth = 1, fshift = 5\<rparr>"

definition AIP_V20_F_CFG_TIMEOUT_ENABLE :: reg_field where [aip_fields]:
  "AIP_V20_F_CFG_TIMEOUT_ENABLE = \<lparr>fwidth = 1, fshift = 6\<rparr>"

definition AIP_V20_F_CFG_BW :: reg_field where [aip_fields]:
  "AIP_V20_F_CFG_BW = \<lparr>fwidth = 3, fshift = 7\<rparr>"

definition AIP_V20_F_CFG_ISUM_CLR :: reg_field where [aip_fields]:
  "AIP_V20_F_CFG_ISUM_CLR = \<lparr>fwidth = 1, fshift = 10\<rparr>"

definition AIP_V20_F_CFG_OSUM_CLR :: reg_field where [aip_fields]:
  "AIP_V20_F_CFG_OSUM_CLR = \<lparr>fwidth = 1, fshift = 11\<rparr>"

definition AIP_V20_F_TIME_CNT :: u32 where [aip_regs]:
  "AIP_V20_F_TIME_CNT = 0x20c"

definition AIP_V20_F_SCALEX :: u32 where [aip_regs]:
  "AIP_V20_F_SCALEX = 0x210"

definition AIP_V20_F_SCALEY :: u32 where [aip_regs]:
  "AIP_V20_F_SCALEY = 0x214"

definition AIP_V20_F_TRANSX :: u32 where [aip_regs]:
  "AIP_V20_F_TRANSX = 0x218"

definition AIP_V20_F_TRANSY :: u32 where [aip_regs]:
  "AIP_V20_F_TRANSY = 0x21c"

definition AIP_V20_F_SRC_BASE :: u32 where [aip_regs]:
  "AIP_V20_F_SRC_BASE = 0x220"

definition AIP_V20_F_SRC_BASE_C :: u32 where [aip_regs]:
  "AIP_V20_F_SRC_BASE_C = 0x224"

definition AIP_V20_F_DST_BASE :: u32 where [aip_regs]:
  "AIP_V20_F_DST_BASE = 0x228"

definition AIP_V20_F_DST_BASE_C :: u32 where [aip_regs]:
  "AIP_V20_F_DST_BASE_C = 0x22c"

definition AIP_V20_F_SRC_SIZE :: u32 where [aip_regs]:
  "AIP_V20_F_SRC_SIZE = 0x230"

definition AIP_V20_F_DST_SIZE :: u32 where [aip_regs]:
  "AIP_V20_F_DST_SIZE = 0x234"

definition AIP_V20_F_STRD :: u32 where [aip_regs]:
  "AIP_V20_F_STRD = 0x238"

definition AIP_V20_F_CHAIN_BASE :: u32 where [aip_regs]:
  "AIP_V20_F_CHAIN_BASE = 0x23c"

definition AIP_V20_F_CHAIN_SIZE :: u32 where [aip_regs]:
  "AIP_V20_F_CHAIN_SIZE = 0x240"

subsection \<open>Channel P\<close>

definition AIP_V20_P_CTL :: u32 where [aip_regs]:
  "AIP_V20_P_CTL = 0x300"

definition AIP_V20_P_CTL_BUSY :: reg_field where [aip_fields]:
  "AIP_V20_P_CTL_BUSY = \<lparr>fwidth = 1, fshift = 0\<rparr>"

definition AIP_V20_P_CTL_SOFT_RESET :: reg_field where [aip_fields]:
  "AIP_V20_P_CTL_SOFT_RESET = \<lparr>fwidth = 1, fshift = 1\<rparr>"

definition AIP_V20_P_CTL_CHAIN_BUSY :: reg_field where [aip_fields]:
  "AIP_V20_P_CTL_CHAIN_BUSY = \<lparr>fwidth = 1, fshift = 2\<rparr>"

definition AIP_V20_P_CTL_AXI_EMPTY :: reg_field where [aip_fields]:
  "AIP_V20_P_CTL_AXI_EMPTY = \<lparr>fwidth = 1, fshift = 3\<rparr>"

definition AIP_V20_P_IRQ :: u32 where [aip_regs]:
  "AIP_V20_P_IRQ = 0x304"

definition AIP_V20_P_IRQ_IRQ :: reg_field where [aip_fields]:
  "AIP_V20_P_IRQ_IRQ = \<lparr>fwidth = 1, fshift = 0\<rparr>"

definition AIP_V20_P_IRQ_CHAIN_IRQ :: reg_field where [aip_fields]:
  "AIP_V20_P_IRQ_CHAIN_IRQ = \<lparr>fwidth = 1, fshift = 1\<rparr>"

definition AIP_V20_P_IRQ_TIMEOUT_IRQ :: reg_field where [aip_fields]:
  "AIP_V20_P_IRQ_TIMEOUT_IRQ = \<lparr>fwidth = 1, fshift = 2\<rparr>"

definition AIP_V20_P_CFG :: u32 where [aip_regs]:
  "AIP_V20_P_CFG = 0x308"

definition AIP_V20_P_CFG_IBUS :: reg_field where [aip_fields]:
  "AIP_V20_P_CFG_IBUS = \<lparr>fwidth = 1, fshift = 0\<rparr>"

definition AIP_V20_P_CFG_OBUS :: reg_field where [aip_fields]:
  "AIP_V20_P_CFG_OBUS = \<lparr>fwidth = 1, fshift = 1\<rparr>"

definition AIP_V20_P_CFG_CKG_MASK :: reg_field where [aip_fields]:
  "AIP_V20_P_CFG_CKG_MASK = \<lparr>fwidth = 1, fshift = 2\<rparr>"

definition AIP_V20_P_CFG_IRQ_MASK :: reg_field where [aip_fields]:
  "AIP_V20_P_CFG_IRQ_MASK = \<lparr>fwidth = 1, fshift = 3\<rparr>"

definition AIP_V20_P_CFG_CHAIN_IRQ_MASK :: reg_field where [aip_fields]:
  "AIP_V20_P_CFG_CHAIN_IRQ_MASK = \<lparr>fwidth = 1, fshift = 4\<rparr>"

definition AIP_V20_P_CFG_TIMEOUT_IRQ_MASK :: reg_field where [aip_fields]:
  "AIP_V20_P_CFG_TIMEOUT_IRQ_MASK = \<lparr>fwidth = 1, fshift = 5\<rparr>"

definition AIP_V20_P_CFG_TIMEOUT_ENABLE :: reg_field where [aip_fields]:
  "AIP_V20_P_CFG_TIMEOUT_ENABLE = \<lparr>fwidth = 1, fshift = 6\<rparr>"

definition AIP_V20_P_CFG_ISUM_CLR :: reg_field where [aip_fields]:
  "AIP_V20_P_CFG_ISUM_CLR = \<lparr>fwidth = 1, fshift = 7\<rparr>"

definition AIP_V20_P_CFG_OSUM_CLR :: reg_field where [aip_fields]:
  "AIP_V20_P_CFG_OSUM_CLR = \<lparr>fwidth = 1, fshift = 8\<rparr>"

definition AIP_V20_P_TIME_CNT :: u32 where [aip_regs]:
  "AIP_V20_P_TIME_CNT = 0x30c"

definition AIP_V20_P_MODE :: u32 where [aip_regs]:
  "AIP_V20_P_MODE = 0x310"

definition AIP_V20_P_SRC_YBASE :: u32 where [aip_regs]:
  "AIP_V20_P_SRC_YBASE = 0x314"

definition AIP_V20_P_SRC_CBASE :: u32 where [aip_regs]:
  "AIP_V20_P_SRC_CBASE = 0x318"

definition AIP_V20_P_SRC_STRIDE :: u32 where [aip_regs]:
  "AIP_V20_P_SRC_STRIDE = 0x31c"

definition AIP_V20_P_DST_BASE :: u32 where [aip_regs]:
  "AIP_V20_P_DST_BASE = 0x320"

definition AIP_V20_P_DST_STRIDE :: u32 where [aip_regs]:
  "AIP_V20_P_DST_STRIDE = 0x324"

definition AIP_V20_P_DWH :: u32 where [aip_regs]:
  "AIP_V20_P_DWH = 0x328"

definition AIP_V20_P_SWH :: u32 where [aip_regs]:
  "AIP_V20_P_SWH = 0x32c"

definition AIP_V20_P_DUMMT_VAL :: u32 where [aip_regs]:
  "AIP_V20_P_DUMMT_VAL = 0x330"

definition AIP_V20_P_COEF0 :: u32 where [aip_regs]:
  "AIP_V20_P_COEF0 = 0x334"

definition AIP_V20_P_COEF1 :: u32 where [aip_regs]:
  "AIP_V20_P_COEF1 = 0x338"

definition AIP_V20_P_COEF2 :: u32 where [aip_regs]:
  "AIP_V20_P_COEF2 = 0x33c"

definition AIP_V20_P_COEF3 :: u32 where [aip_regs]:
  "AIP_V20_P_COEF3 = 0x340"

definition AIP_V20_P_COEF4 :: u32 where [aip_regs]:
  "AIP_V20_P_COEF4 = 0x344"

definition AIP_V20_P_COEF5 :: u32 where [aip_regs]:
  "AIP_V20_P_COEF5 = 0x348"

definition AIP_V20_P_COEF6 :: u32 where [aip_regs]:
  "AIP_V20_P_COEF6 = 0x34c"

definition AIP_V20_P_COEF7 :: u32 where [aip_regs]:
  "AIP_V20_P_COEF7 = 0x350"

definition AIP_V20_P_COEF8 :: u32 where [aip_regs]:
  "AIP_V20_P_COEF8 = 0x354"

definition AIP_V20_P_COEF9 :: u32 where [aip_regs]:
  "AIP_V20_P_COEF9 = 0x358"

definition AIP_V20_P_COEF10 :: u32 where [aip_regs]:
  "AIP_V20_P_COEF10 = 0x35c"

definition AIP_V20_P_COEF11 :: u32 where [aip_regs]:
  "AIP_V20_P_COEF11 = 0x360"

definition AIP_V20_P_COEF12 :: u32 where [aip_regs]:
  "AIP_V20_P_COEF12 = 0x364"

definition AIP_V20_P_COEF13 :: u32 where [aip_regs]:
  "AIP_V20_P_COEF13 = 0x368"

definition AIP_V20_P_COEF14 :: u32 where [aip_regs]:
  "AIP_V20_P_COEF14 = 0x36c"

definition AIP_V20_P_PARAM0 :: u32 where [aip_regs]:
  "AIP_V20_P_PARAM0 = 0x370"

definition AIP_V20_P_PARAM1 :: u32 where [aip_regs]:
  "AIP_V20_P_PARAM1 = 0x374"

definition AIP_V20_P_PARAM2 :: u32 where [aip_regs]:
  "AIP_V20_P_PARAM2 = 0x378"

definition AIP_V20_P_PARAM3 :: u32 where [aip_regs]:
  "AIP_V20_P_PARAM3 = 0x37c"

definition AIP_V20_P_PARAM4 :: u32 where [aip_regs]:
  "AIP_V20_P_PARAM4 = 0x380"

definition AIP_V20_P_PARAM5 :: u32 where [aip_regs]:
  "AIP_V20_P_PARAM5 = 0x384"

definition AIP_V20_P_PARAM6 :: u32 where [aip_regs]:
  "AIP_V20_P_PARAM6 = 0x388"

definition AIP_V20_P_PARAM7 :: u32 where [aip_regs]:
  "AIP_V20_P_PARAM7 = 0x38c"

definition AIP_V20_P_PARAM8 :: u32 where [aip_regs]:
  "AIP_V20_P_PARAM8 = 0x390"

definition AIP_V20_P_OFST :: u32 where [aip_regs]:
  "AIP_V20_P_OFST = 0x394"

definition AIP_V20_P_OFST_NV2BGR_OFSET0 :: reg_field where [aip_fields]:
  "AIP_V20_P_OFST_NV2BGR_OFSET0 = \<lparr>fwidth = 8, fshift = 0\<rparr>"

definition AIP_V20_P_OFST_NV2BGR_OFSET1 :: reg_field where [aip_fields]:
  "AIP_V20_P_OFST_NV2BGR_OFSET1 = \<lparr>fwidth = 8, fshift = 8\<rparr>"

definition AIP_V20_P_OFST_NV2BGR_ALPHA :: reg_field where [aip_fields]:
  "AIP_V20_P_OFST_NV2BGR_ALPHA = \<lparr>fwidth = 8, fshift = 16\<rparr>"

definition AIP_V20_P_OFST_NV2BGR_ORDER :: reg_field where [aip_fields]:
  "AIP_V20_P_OFST_NV2BGR_ORDER = \<lparr>fwidth = 4, fshift = 24\<rparr>"

definition AIP_V20_P_CHAIN_BASE :: u32 where [aip_regs]:
  "AIP_V20_P_CHAIN_BASE = 0x398"

definition AIP_V20_P_CHAIN_SIZE :: u32 where [aip_regs]:
  "AIP_V20_P_CHAIN_SIZE = 0x39c"

definition AIP_V20_P_ISUM :: u32 where [aip_regs]:
  "AIP_V20_P_ISUM = 0x3a0"

definition AIP_V20_P_OSUM :: u32 where [aip_regs]:
  "AIP_V20_P_OSUM = 0x3a4"

subsection \<open>Channel T\<close>

definition AIP_V20_T_CTL :: u32 where [aip_regs]:
  "AIP_V20_T_CTL = 0x0"

definition AIP_V20_T_CTL_BUSY :: reg_field where [aip_fields]:
  "AIP_V20_T_CTL_BUSY = \<lparr>fwidth = 1, fshift = 0\<rparr>"

definition AIP_V20_T_CTL_SOFT_RESET :: reg_field where [aip_fields]:
  "AIP_V20_T_CTL_SOFT_RESET = \<lparr>fwidth = 1, fshift = 1\<rparr>"

definition AIP_V20_T_CTL_CHAIN_BUSY :: reg_field where [aip_fields]:
  "AIP_V20_T_CTL_CHAIN_BUSY = \<lparr>fwidth = 1, fshift = 2\<rparr>"

definition AIP_V20_T_CTL_AXI_EMPTY :: reg_field where [aip_fields]:
  "AIP_V20_T_CTL_AXI_EMPTY = \<lparr>fwidth = 1, fshift = 3\<rparr>"

definition AIP_V20_T_CTL_TASK :: reg_field where [aip_fields]:
  "AIP_V20_T_CTL_TASK = \<lparr>fwidth = 1, fshift = 4\<rparr>"

definition AIP_V20_T_IRQ :: u32 where [aip_regs]:
  "AIP_V20_T_IRQ = 0x4"

definition AIP_V20_T_IRQ_IRQ :: reg_field where [aip_fields]:
  "AIP_V20_T_IRQ_IRQ = \<lparr>fwidth = 1, fshift = 0\<rparr>"

definition AIP_V20_T_IRQ_CHAIN_IRQ :: reg_field where [aip_fields]:
  "AIP_V20_T_IRQ_CHAIN_IRQ = \<lparr>fwidth = 1, fshift = 1\<rparr>"

definition AIP_V20_T_IRQ_TIMEOUT_IRQ :: reg_field where [aip_fields]:
  "AIP_V20_T_IRQ_TIMEOUT_IRQ = \<lparr>fwidth = 1, fshift = 2\<rparr>"

definition AIP_V20_T_IRQ_TASK :: reg_field where [aip_fields]:
  "AIP_V20_T_IRQ_TASK = \<lparr>fwidth = 1, fshift = 3\<rparr>"

definition AIP_V20_T_CFG :: u32 where [aip_regs]:
  "AIP_V20_T_CFG = 0x8"

definition AIP_V20_T_CFG_IBUS :: reg_field where [aip_fields]:
  "AIP_V20_T_CFG_IBUS = \<lparr>fwidth = 1, fshift = 0\<rparr>"

definition AIP_V20_T_CFG_OBUS :: reg_field where [aip_fields]:
  "AIP_V20_T_CFG_OBUS = \<lparr>fwidth = 1, fshift = 1\<rparr>"

definition AIP_V20_T_CFG_CKG_MASK :: reg_field where [aip_fields]:
  "AIP_V20_T_CFG_CKG_MASK = \<lparr>fwidth = 1, fshift = 2\<rparr>"

definition AIP_V20_T_CFG_IRQ_MASK :: reg_field where [aip_fields]:
  "AIP_V20_T_CFG_IRQ_MASK = \<lparr>fwidth = 1, fshift = 3\<rparr>"

definition AIP_V20_T_CFG_CHAIN_IRQ_MASK :: reg_field where [aip_fields]:
  "AIP_V20_T_CFG_CHAIN_IRQ_MASK = \<lparr>fwidth = 1, fshift = 4\<rparr>"

definition AIP_V20_T_CFG_TIMEOUT_IRQ_MASK :: reg_field where [aip_fields]:
  "AIP_V20_T_CFG_TIMEOUT_IRQ_MASK = \<lparr>fwidth = 1, fshift = 5\<rparr>"

definition AIP_V20_T_CFG_TIMEOUT_ENABLE :: reg_field where [aip_fields]:
  "AIP_V20_T_CFG_TIMEOUT_ENABLE = \<lparr>fwidth = 1, fshift = 6\<rparr>"

definition AIP_V20_T_CFG_TASK_IRQ :: reg_field where [aip_fields]:
  "AIP_V20_T_CFG_TASK_IRQ = \<lparr>fwidth = 1, fshift = 7\<rparr>"

definition AIP_V20_T_CFG_ISUM_CLR :: reg_field where [aip_fields]:
  "AIP_V20_T_CFG_ISUM_CLR = \<lparr>fwidth = 1, fshift = 8\<rparr>"

definition AIP_V20_T_CFG_OSUM_CLR :: reg_field where [aip_fields]:
  "AIP_V20_T_CFG_OSUM_CLR = \<lparr>fwidth = 1, fshift = 9\<rparr>"

definition AIP_V20_T_CFG_IRQ_SELECT :: reg_field where [aip_fields]:
  "AIP_V20_T_CFG_IRQ_SELECT = \<lparr>fwidth = 1, fshift = 10\<rparr>"

definition AIP_V20_T_TIMEOUT :: u32 where [aip_regs]:
  "AIP_V20_T_TIMEOUT = 0xc"

definition AIP_V20_T_TASK_LEN :: u32 where [aip_regs]:
  "AIP_V20_T_TASK_LEN = 0x10"

definition AIP_V20_T_TASK_LEN_RES1 :: reg_field where [aip_fields]:
  "AIP_V20_T_TASK_LEN_RES1 = \<lparr>fwidth = 1, fshift = 0\<rparr>"

definition AIP_V20_T_TASK_LEN_VALUE :: reg_field where [aip_fields]:
  "AIP_V20_T_TASK_LEN_VALUE = \<lparr>fwidth = 15, fshift = 1\<rparr>"

definition AIP_V20_T_TASK_LEN_RES2 :: reg_field where [aip_fields]:
  "AIP_V20_T_TASK_LEN_RES2 = \<lparr>fwidth = 1, fshift = 16\<rparr>"

definition AIP_V20_T_TASK_LEN_SKIP :: reg_field where [aip_fields]:
  "AIP_V20_T_TASK_LEN_SKIP = \<lparr>fwidth = 15, fshift = 17\<rparr>"

definition AIP_V20_T_YBASE_SRC :: u32 where [aip_regs]:
  "AIP_V20_T_YBASE_SRC = 0x14"

definition AIP_V20_T_CBASE_SRC :: u32 where [aip_regs]:
  "AIP_V20_T_CBASE_SRC = 0x18"

definition AIP_V20_T_BASE_DST :: u32 where [aip_regs]:
  "AIP_V20_T_BASE_DST = 0x1c"

definition AIP_V20_T_STRIDE :: u32 where [aip_regs]:
  "AIP_V20_T_STRIDE = 0x20"

definition AIP_V20_T_WH :: u32 where [aip_regs]:
  "AIP_V20_T_WH = 0x24"

definition AIP_V20_T_PARAM0 :: u32 where [aip_regs]:
  "AIP_V20_T_PARAM0 = 0x28"

definition AIP_V20_T_PARAM1 :: u32 where [aip_regs]:
  "AIP_V20_T_PARAM1 = 0x2c"

definition AIP_V20_T_PARAM2 :: u32 where [aip_regs]:
  "AIP_V20_T_PARAM2 = 0x30"

definition AIP_V20_T_PARAM3 :: u32 where [aip_regs]:
  "AIP_V20_T_PARAM3 = 0x34"

definition AIP_V20_T_PARAM4 :: u32 where [aip_regs]:
  "AIP_V20_T_PARAM4 = 0x38"

definition AIP_V20_T_PARAM5 :: u32 where [aip_regs]:
  "AIP_V20_T_PARAM5 = 0x3c"

definition AIP_V20_T_PARAM6 :: u32 where [aip_regs]:
  "AIP_V20_T_PARAM6 = 0x40"

definition AIP_V20_T_PARAM7 :: u32 where [aip_regs]:
  "AIP_V20_T_PARAM7 = 0x44"

definition AIP_V20_T_PARAM8 :: u32 where [aip_regs]:
  "AIP_V20_T_PARAM8 = 0x48"

definition AIP_V20_T_OFST :: u32 where [aip_regs]:
  "AIP_V20_T_OFST = 0x4c"

definition AIP_V20_T_OFST_NV2BGR_OFSET0 :: reg_field where [aip_fields]:
  "AIP_V20_T_OFST_NV2BGR_OFSET0 = \<lparr>fwidth = 8, fshift = 0\<rparr>"

definition AIP_V20_T_OFST_NV2BGR_OFSET1 :: reg_field where [aip_fields]:
  "AIP_V20_T_OFST_NV2BGR_OFSET1 = \<lparr>fwidth = 8, fshift = 8\<rparr>"

definition AIP_V20_T_OFST_NV2BGR_ALPHA :: reg_field where [aip_fields]:
  "AIP_V20_T_OFST_NV2BGR_ALPHA = \<lparr>fwidth = 8, fshift = 16\<rparr>"

definition AIP_V20_T_OFST_NV2BGR_ORDER :: reg_field where [aip_fields]:
  "AIP_V20_T_OFST_NV2BGR_ORDER = \<lparr>fwidth = 4, fshift = 24\<rparr>"

definition AIP_V20_T_CHAIN_BASE :: u32 where [aip_regs]:
  "AIP_V20_T_CHAIN_BASE = 0x50"

definition AIP_V20_T_CHAIN_SIZE :: u32 where [aip_regs]:
  "AIP_V20_T_CHAIN_SIZE = 0x54"

definition AIP_V20_T_TASK_SKIP_BASE :: u32 where [aip_regs]:
  "AIP_V20_T_TASK_SKIP_BASE = 0x58"

definition AIP_V20_T_ISUM :: u32 where [aip_regs]:
  "AIP_V20_T_ISUM = 0x5c"

definition AIP_V20_T_OSUM :: u32 where [aip_regs]:
  "AIP_V20_T_OSUM = 0x60"

section \<open>The fields of each register\<close>

definition AIP_V20_F_CTL_layout :: "reg_field list" where [aip_layouts]:
  "AIP_V20_F_CTL_layout =
     [AIP_V20_F_CTL_BUSY,
      AIP_V20_F_CTL_SOFT_RESET,
      AIP_V20_F_CTL_CHAIN_BUSY,
      AIP_V20_F_CTL_AXI_EMPTY,
      AIP_V20_F_CTL_DONE_R]"

definition AIP_V20_F_IRQ_layout :: "reg_field list" where [aip_layouts]:
  "AIP_V20_F_IRQ_layout =
     [AIP_V20_F_IRQ_IRQ,
      AIP_V20_F_IRQ_CHAIN_IRQ,
      AIP_V20_F_IRQ_TIMEOUT_IRQ]"

definition AIP_V20_F_CFG_layout :: "reg_field list" where [aip_layouts]:
  "AIP_V20_F_CFG_layout =
     [AIP_V20_F_CFG_IBUS,
      AIP_V20_F_CFG_OBUS,
      AIP_V20_F_CFG_CKG_MASK,
      AIP_V20_F_CFG_IRQ_MASK,
      AIP_V20_F_CFG_CHAIN_IRQ_MASK,
      AIP_V20_F_CFG_TIMEOUT_IRQ_MASK,
      AIP_V20_F_CFG_TIMEOUT_ENABLE,
      AIP_V20_F_CFG_BW,
      AIP_V20_F_CFG_ISUM_CLR,
      AIP_V20_F_CFG_OSUM_CLR]"

definition AIP_V20_P_CTL_layout :: "reg_field list" where [aip_layouts]:
  "AIP_V20_P_CTL_layout =
     [AIP_V20_P_CTL_BUSY,
      AIP_V20_P_CTL_SOFT_RESET,
      AIP_V20_P_CTL_CHAIN_BUSY,
      AIP_V20_P_CTL_AXI_EMPTY]"

definition AIP_V20_P_IRQ_layout :: "reg_field list" where [aip_layouts]:
  "AIP_V20_P_IRQ_layout =
     [AIP_V20_P_IRQ_IRQ,
      AIP_V20_P_IRQ_CHAIN_IRQ,
      AIP_V20_P_IRQ_TIMEOUT_IRQ]"

definition AIP_V20_P_CFG_layout :: "reg_field list" where [aip_layouts]:
  "AIP_V20_P_CFG_layout =
     [AIP_V20_P_CFG_IBUS,
      AIP_V20_P_CFG_OBUS,
      AIP_V20_P_CFG_CKG_MASK,
      AIP_V20_P_CFG_IRQ_MASK,
      AIP_V20_P_CFG_CHAIN_IRQ_MASK,
      AIP_V20_P_CFG_TIMEOUT_IRQ_MASK,
      AIP_V20_P_CFG_TIMEOUT_ENABLE,
      AIP_V20_P_CFG_ISUM_CLR,
      AIP_V20_P_CFG_OSUM_CLR]"

definition AIP_V20_P_OFST_layout :: "reg_field list" where [aip_layouts]:
  "AIP_V20_P_OFST_layout =
     [AIP_V20_P_OFST_NV2BGR_OFSET0,
      AIP_V20_P_OFST_NV2BGR_OFSET1,
      AIP_V20_P_OFST_NV2BGR_ALPHA,
      AIP_V20_P_OFST_NV2BGR_ORDER]"

definition AIP_V20_T_CTL_layout :: "reg_field list" where [aip_layouts]:
  "AIP_V20_T_CTL_layout =
     [AIP_V20_T_CTL_BUSY,
      AIP_V20_T_CTL_SOFT_RESET,
      AIP_V20_T_CTL_CHAIN_BUSY,
      AIP_V20_T_CTL_AXI_EMPTY,
      AIP_V20_T_CTL_TASK]"

definition AIP_V20_T_IRQ_layout :: "reg_field list" where [aip_layouts]:
  "AIP_V20_T_IRQ_layout =
     [AIP_V20_T_IRQ_IRQ,
      AIP_V20_T_IRQ_CHAIN_IRQ,
      AIP_V20_T_IRQ_TIMEOUT_IRQ,
      AIP_V20_T_IRQ_TASK]"

definition AIP_V20_T_CFG_layout :: "reg_field list" where [aip_layouts]:
  "AIP_V20_T_CFG_layout =
     [AIP_V20_T_CFG_IBUS,
      AIP_V20_T_CFG_OBUS,
      AIP_V20_T_CFG_CKG_MASK,
      AIP_V20_T_CFG_IRQ_MASK,
      AIP_V20_T_CFG_CHAIN_IRQ_MASK,
      AIP_V20_T_CFG_TIMEOUT_IRQ_MASK,
      AIP_V20_T_CFG_TIMEOUT_ENABLE,
      AIP_V20_T_CFG_TASK_IRQ,
      AIP_V20_T_CFG_ISUM_CLR,
      AIP_V20_T_CFG_OSUM_CLR,
      AIP_V20_T_CFG_IRQ_SELECT]"

definition AIP_V20_T_TASK_LEN_layout :: "reg_field list" where [aip_layouts]:
  "AIP_V20_T_TASK_LEN_layout =
     [AIP_V20_T_TASK_LEN_RES1,
      AIP_V20_T_TASK_LEN_VALUE,
      AIP_V20_T_TASK_LEN_RES2,
      AIP_V20_T_TASK_LEN_SKIP]"

definition AIP_V20_T_OFST_layout :: "reg_field list" where [aip_layouts]:
  "AIP_V20_T_OFST_layout =
     [AIP_V20_T_OFST_NV2BGR_OFSET0,
      AIP_V20_T_OFST_NV2BGR_OFSET1,
      AIP_V20_T_OFST_NV2BGR_ALPHA,
      AIP_V20_T_OFST_NV2BGR_ORDER]"

section \<open>The layouts are sound\<close>

lemmas layout_simps = aip_layouts aip_fields field_before_def

interpretation f_ctl: reg_layout AIP_V20_F_CTL_layout
  by unfold_locales (auto simp: layout_simps)

interpretation f_irq: reg_layout AIP_V20_F_IRQ_layout
  by unfold_locales (auto simp: layout_simps)

interpretation f_cfg: reg_layout AIP_V20_F_CFG_layout
  by unfold_locales (auto simp: layout_simps)

interpretation p_ctl: reg_layout AIP_V20_P_CTL_layout
  by unfold_locales (auto simp: layout_simps)

interpretation p_irq: reg_layout AIP_V20_P_IRQ_layout
  by unfold_locales (auto simp: layout_simps)

interpretation p_cfg: reg_layout AIP_V20_P_CFG_layout
  by unfold_locales (auto simp: layout_simps)

interpretation p_ofst: reg_layout AIP_V20_P_OFST_layout
  by unfold_locales (auto simp: layout_simps)

interpretation t_ctl: reg_layout AIP_V20_T_CTL_layout
  by unfold_locales (auto simp: layout_simps)

interpretation t_irq: reg_layout AIP_V20_T_IRQ_layout
  by unfold_locales (auto simp: layout_simps)

interpretation t_cfg: reg_layout AIP_V20_T_CFG_layout
  by unfold_locales (auto simp: layout_simps)

interpretation t_task_len: reg_layout AIP_V20_T_TASK_LEN_layout
  by unfold_locales (auto simp: layout_simps)

interpretation t_ofst: reg_layout AIP_V20_T_OFST_layout
  by unfold_locales (auto simp: layout_simps)

end
