(* ===== verification/JobQueue.thy ===== *)
theory JobQueue
  imports Prelude
begin

text \<open>
  The job queue every AIP channel keeps (the \<open>f_\<close>, \<open>p_\<close> and \<open>t_\<close> groups of fields of
  \<open>struct jz_aip_v20_dev\<close> in \<open>drive/jz_aip_v20_drv.h\<close>): two sequence numbers, the
  list of jobs (the first one is the job on the hardware) and the list of
  finished jobs a work item frees. This theory holds the queue, its
  transitions as the driver makes them under the channel's spinlock, and the
  abstract contract of a channel: the step relation \<open>jobq_step\<close> with the
  invariants of all its runs. The channel theories show that their handlers
  implement it (locale \<open>job_channel\<close>).
\<close>

section \<open>Jobs and queues\<close>

datatype job_state = AIP_JOB_INITIAL | AIP_JOB_RUNNING | AIP_JOB_FINISH

text \<open>The fields the three \<open>jz_aip_v20_*_exec_info\<close> have in common.\<close>

record exec_info =
  e_pid :: int
  e_state :: job_state
  submit_time :: int
  start_time :: int
  end_time :: int
  hw_time :: u32
  e_name :: string
  e_seqno :: u64
  node_size :: u32
  cfg_reg :: u32

record 'e jobq =
  submited_seqno :: u64
  finished_seqno :: u64
  job_list :: "'e list"
  job_done_list :: "'e list"
  work_queued :: bool

definition q_first :: "'e jobq \<Rightarrow> 'e option" where
  "q_first q = (case job_list q of [] \<Rightarrow> None | e # _ \<Rightarrow> Some e)"

definition q_init :: "'e jobq" where
  "q_init = \<lparr>submited_seqno = 0, finished_seqno = 0, job_list = [], job_done_list = [],
     work_queued = False\<rparr>"

text \<open>The end of \<open>submit_next\<close>: the first job is on the hardware.\<close>

definition q_start :: "int \<Rightarrow> 'x exec_info_scheme jobq \<Rightarrow> 'x exec_info_scheme jobq" where
  "q_start now q = (case job_list q of [] \<Rightarrow> q
     | e # es \<Rightarrow> q\<lparr>job_list := e\<lparr>start_time := now, e_state := AIP_JOB_RUNNING\<rparr> # es\<rparr>)"

text \<open>The critical section of a submission: next sequence number, tail of the list.\<close>

definition q_push :: "'x exec_info_scheme \<Rightarrow> 'x exec_info_scheme jobq \<Rightarrow> 'x exec_info_scheme jobq" where
  "q_push e q = q\<lparr>submited_seqno := submited_seqno q + 1,
     job_list := job_list q @ [e\<lparr>e_seqno := submited_seqno q + 1\<rparr>]\<rparr>"

text \<open>A finished job moves to the done list, and the work item is scheduled.\<close>

definition q_retire :: "int \<Rightarrow> u32 \<Rightarrow> 'x exec_info_scheme jobq \<Rightarrow> 'x exec_info_scheme jobq" where
  "q_retire now hwt q = (case job_list q of [] \<Rightarrow> q
     | e # es \<Rightarrow> q\<lparr>finished_seqno := e_seqno e, job_list := es,
         job_done_list := job_done_list q @ [e\<lparr>end_time := now, hw_time := hwt\<rparr>],
         work_queued := True\<rparr>)"

text \<open>The work item frees every finished job.\<close>

definition q_drain :: "'e jobq \<Rightarrow> 'e jobq" where
  "q_drain q = q\<lparr>job_done_list := [], work_queued := False\<rparr>"

text \<open>Closing the device file drops the jobs of one process.\<close>

definition q_cancel :: "int \<Rightarrow> 'x exec_info_scheme jobq \<Rightarrow> 'x exec_info_scheme jobq" where
  "q_cancel p q = q\<lparr>job_list := filter (\<lambda>e. e_pid e \<noteq> p) (job_list q)\<rparr>"

definition q_cancels_running :: "int \<Rightarrow> 'x exec_info_scheme jobq \<Rightarrow> bool" where
  "q_cancels_running p q \<longleftrightarrow> (\<exists>e \<in> set (job_list q). e_pid e = p \<and> e_state e = AIP_JOB_RUNNING)"

section \<open>The contract of a channel\<close>

datatype jobq_event = Submitted | Finished | Drained | Cancelled int

inductive jobq_step :: "'x exec_info_scheme jobq \<Rightarrow> jobq_event \<Rightarrow> 'x exec_info_scheme jobq \<Rightarrow> bool" where
  submit_idle: "job_list q = [] \<Longrightarrow> e_state e = AIP_JOB_INITIAL \<Longrightarrow>
     jobq_step q Submitted (q_start now (q_push e q))"
| submit_busy: "job_list q \<noteq> [] \<Longrightarrow> e_state e = AIP_JOB_INITIAL \<Longrightarrow>
     jobq_step q Submitted (q_push e q)"
| finish: "job_list q \<noteq> [] \<Longrightarrow> e_state (hd (job_list q)) = AIP_JOB_RUNNING \<Longrightarrow>
     jobq_step q Finished (q_start now' (q_retire now hwt q))"
| drain: "jobq_step q Drained (q_drain q)"
| cancel_running: "q_cancels_running p q \<Longrightarrow> jobq_step q (Cancelled p) (q_start now (q_cancel p q))"
| cancel_waiting: "\<not> q_cancels_running p q \<Longrightarrow> jobq_step q (Cancelled p) (q_cancel p q)"

inductive_cases jobq_stepE: "jobq_step q ev q'"

inductive jobq_run :: "'x exec_info_scheme jobq \<Rightarrow> jobq_event list \<Rightarrow> 'x exec_info_scheme jobq \<Rightarrow> bool" where
  run_Nil: "jobq_run q [] q"
| run_snoc: "jobq_run q evs q' \<Longrightarrow> jobq_step q' ev q'' \<Longrightarrow> jobq_run q (evs @ [ev]) q''"

definition submissions :: "jobq_event list \<Rightarrow> nat" where
  "submissions evs = length (filter (\<lambda>ev. ev = Submitted) evs)"

definition finishes :: "jobq_event list \<Rightarrow> nat" where
  "finishes evs = length (filter (\<lambda>ev. ev = Finished) evs)"

text \<open>
  What holds between the steps: exactly the first job is on the hardware, the
  waiting jobs have increasing numbers after the last finished one and up to
  the last one given out, and finished jobs wait for a scheduled work item.
\<close>

definition head_running :: "'x exec_info_scheme list \<Rightarrow> bool" where
  "head_running es \<longleftrightarrow> (case es of [] \<Rightarrow> True
     | e # es' \<Rightarrow> e_state e = AIP_JOB_RUNNING \<and> (\<forall>x \<in> set es'. e_state x = AIP_JOB_INITIAL))"

definition jobq_inv :: "'x exec_info_scheme jobq \<Rightarrow> bool" where
  "jobq_inv q \<longleftrightarrow>
     head_running (job_list q) \<and>
     sorted_wrt (<) (map e_seqno (job_list q)) \<and>
     (\<forall>e \<in> set (job_list q). finished_seqno q < e_seqno e \<and> e_seqno e \<le> submited_seqno q) \<and>
     finished_seqno q \<le> submited_seqno q \<and>
     (\<forall>e \<in> set (job_done_list q). e_seqno e \<le> finished_seqno q) \<and>
     (job_done_list q \<noteq> [] \<longrightarrow> work_queued q)"

text \<open>Without a cancellation no number is missing from the list.\<close>

definition jobq_dense :: "'x exec_info_scheme jobq \<Rightarrow> bool" where
  "jobq_dense q \<longleftrightarrow> map (unat \<circ> e_seqno) (job_list q) =
     [Suc (unat (finished_seqno q)) ..< Suc (unat (submited_seqno q))]"

lemma job_list_q_start [simp]:
  "map e_seqno (job_list (q_start now q)) = map e_seqno (job_list q)"
  "length (job_list (q_start now q)) = length (job_list q)"
  "job_list (q_start now q) = [] \<longleftrightarrow> job_list q = []"
  by (auto simp: q_start_def split: list.splits)

lemma q_start_other [simp]:
  "submited_seqno (q_start now q) = submited_seqno q"
  "finished_seqno (q_start now q) = finished_seqno q"
  "job_done_list (q_start now q) = job_done_list q"
  "work_queued (q_start now q) = work_queued q"
  by (auto simp: q_start_def split: list.splits)

lemma seqnos_q_start: "e_seqno ` set (job_list (q_start now q)) = e_seqno ` set (job_list q)"
  by (simp only: set_map [symmetric] job_list_q_start)

lemma ball_seqno_q_start:
  "(\<forall>e \<in> set (job_list (q_start now q)). P (e_seqno e)) \<longleftrightarrow> (\<forall>e \<in> set (job_list q). P (e_seqno e))"
proof -
  have "(\<forall>s \<in> e_seqno ` set (job_list (q_start now q)). P s) \<longleftrightarrow>
      (\<forall>s \<in> e_seqno ` set (job_list q). P s)"
    by (simp only: seqnos_q_start)
  then show ?thesis by simp
qed

text \<open>What the invariant says without the marks of the running job.\<close>

definition jobq_order :: "'x exec_info_scheme jobq \<Rightarrow> bool" where
  "jobq_order q \<longleftrightarrow>
     sorted_wrt (<) (map e_seqno (job_list q)) \<and>
     (\<forall>e \<in> set (job_list q). finished_seqno q < e_seqno e \<and> e_seqno e \<le> submited_seqno q) \<and>
     finished_seqno q \<le> submited_seqno q \<and>
     (\<forall>e \<in> set (job_done_list q). e_seqno e \<le> finished_seqno q) \<and>
     (job_done_list q \<noteq> [] \<longrightarrow> work_queued q)"

lemma jobq_inv_alt: "jobq_inv q \<longleftrightarrow> head_running (job_list q) \<and> jobq_order q"
  by (simp add: jobq_inv_def jobq_order_def)

lemma jobq_order_start [simp]: "jobq_order (q_start now q) \<longleftrightarrow> jobq_order q"
  using ball_seqno_q_start [of now q "\<lambda>s. finished_seqno q < s \<and> s \<le> submited_seqno q"]
  by (simp add: jobq_order_def)

lemma jobq_order_push:
  assumes "jobq_order q" "submited_seqno q \<noteq> - 1"
  shows "jobq_order (q_push e q)"
proof -
  have lt: "submited_seqno q < submited_seqno q + 1"
    using assms(2) by (rule word_less_succ)
  with assms(1) show ?thesis
    by (fastforce simp: jobq_order_def q_push_def sorted_wrt_append)
qed

lemma jobq_order_retire: "jobq_order q \<Longrightarrow> jobq_order (q_retire now hwt q)"
  by (cases "job_list q") (fastforce simp: jobq_order_def q_retire_def)+

lemma jobq_order_cancel: "jobq_order q \<Longrightarrow> jobq_order (q_cancel p q)"
  by (auto simp: jobq_order_def q_cancel_def sorted_wrt_map intro: sorted_wrt_filter)

lemma jobq_order_drain: "jobq_order q \<Longrightarrow> jobq_order (q_drain q)"
  by (simp add: jobq_order_def q_drain_def)

lemma head_running_q_start:
  "\<forall>x \<in> set (tl (job_list q)). e_state x = AIP_JOB_INITIAL \<Longrightarrow>
   head_running (job_list (q_start now q))"
  by (cases "job_list q") (auto simp: q_start_def head_running_def)

lemma head_running_tl:
  "head_running es \<Longrightarrow> x \<in> set (tl es) \<Longrightarrow> e_state x = AIP_JOB_INITIAL"
  by (cases es) (auto simp: head_running_def)

lemma head_running_snoc:
  "es \<noteq> [] \<Longrightarrow> head_running es \<Longrightarrow> e_state x = AIP_JOB_INITIAL \<Longrightarrow> head_running (es @ [x])"
  by (cases es) (auto simp: head_running_def)

lemma head_running_filter:
  assumes "head_running es" "\<forall>e \<in> set es. \<not> P e \<longrightarrow> e_state e \<noteq> AIP_JOB_RUNNING"
  shows "head_running (filter P es)"
  using assms by (cases es) (auto simp: head_running_def)

lemma q_cancels_running_tl:
  assumes "head_running (job_list q)" "q_cancels_running p q"
    "x \<in> set (job_list (q_cancel p q))"
  shows "e_state x = AIP_JOB_INITIAL"
  using assms by (cases "job_list q")
    (auto simp: head_running_def q_cancels_running_def q_cancel_def split: if_splits)

lemma jobq_step_inv:
  assumes "jobq_step q ev q'" "jobq_inv q" "ev = Submitted \<Longrightarrow> submited_seqno q \<noteq> - 1"
  shows "jobq_inv q'"
  using assms
proof (induction rule: jobq_step.induct)
  case (submit_idle q e now)
  then show ?case
    by (simp add: jobq_inv_alt jobq_order_push)
       (rule head_running_q_start, simp add: q_push_def)
next
  case (submit_busy q e)
  then show ?case
    by (simp add: jobq_inv_alt jobq_order_push) (simp add: q_push_def head_running_snoc)
next
  case (finish q now' now hwt)
  obtain e es where q: "job_list q = e # es"
    using finish.hyps(1) by (cases "job_list q") auto
  have "\<forall>x \<in> set (tl es). e_state x = AIP_JOB_INITIAL"
    using finish.prems(1) q by (cases es) (auto simp: jobq_inv_alt head_running_def)
  with finish.prems(1) q show ?case
    by (simp add: jobq_inv_alt jobq_order_retire) (simp add: q_retire_def head_running_q_start)
next
  case (drain q)
  then show ?case
    by (simp add: jobq_inv_alt jobq_order_drain) (simp add: q_drain_def)
next
  case (cancel_running p q now)
  then show ?case
    by (simp add: jobq_inv_alt jobq_order_cancel)
       (metis head_running_q_start list.sel(2) list.set_sel(2) q_cancels_running_tl)
next
  case (cancel_waiting p q)
  have "head_running (job_list (q_cancel p q))"
    using cancel_waiting by (auto simp: jobq_inv_alt q_cancel_def q_cancels_running_def
        intro!: head_running_filter)
  with cancel_waiting show ?case
    by (simp add: jobq_inv_alt jobq_order_cancel)
qed

lemma jobq_inv_init: "jobq_inv q_init"
  by (simp add: jobq_inv_def q_init_def head_running_def)

section \<open>Runs\<close>

lemma jobq_run_single: "jobq_step q ev q' \<Longrightarrow> jobq_run q [ev] q'"
  using jobq_run.run_snoc [OF jobq_run.run_Nil, of q ev q'] by simp

lemma submissions_snoc [simp]:
  "submissions (evs @ [ev]) = submissions evs + (if ev = Submitted then 1 else 0)"
  by (simp add: submissions_def)

lemma finishes_snoc [simp]:
  "finishes (evs @ [ev]) = finishes evs + (if ev = Finished then 1 else 0)"
  by (simp add: finishes_def)

lemma submissions_Nil [simp]: "submissions [] = 0"
  by (simp add: submissions_def)

lemma finishes_Nil [simp]: "finishes [] = 0"
  by (simp add: finishes_def)

lemma submited_q_retire [simp]: "submited_seqno (q_retire now hwt q) = submited_seqno q"
  by (simp add: q_retire_def split: list.split)

lemma submited_other [simp]:
  "submited_seqno (q_push e q) = submited_seqno q + 1"
  "submited_seqno (q_drain q) = submited_seqno q"
  "submited_seqno (q_cancel p q) = submited_seqno q"
  by (simp_all add: q_push_def q_drain_def q_cancel_def)

lemma jobq_step_submited:
  "jobq_step q ev q' \<Longrightarrow>
   submited_seqno q' = submited_seqno q + (if ev = Submitted then 1 else 0)"
  by (induction rule: jobq_step.induct) simp_all

text \<open>As long as the 64-bit counter does not wrap, every run keeps the invariant.\<close>

lemma jobq_run_inv:
  assumes "jobq_run q evs q'" "jobq_inv q" "unat (submited_seqno q) + submissions evs < 2 ^ 64"
  shows "jobq_inv q' \<and> unat (submited_seqno q') = unat (submited_seqno q) + submissions evs"
  using assms
proof (induction rule: jobq_run.induct)
  case (run_snoc q evs q' ev q'')
  have IH: "jobq_inv q'" "unat (submited_seqno q') = unat (submited_seqno q) + submissions evs"
    using run_snoc.IH run_snoc.prems by (auto split: if_splits)
  have nmax: "submited_seqno q' \<noteq> - 1" if "ev = Submitted"
    using that IH(2) run_snoc.prems(2) by (auto simp: unat_max_word)
  show ?case
    using jobq_step_inv [OF run_snoc.hyps(2) IH(1) nmax] jobq_step_submited [OF run_snoc.hyps(2)]
      nmax IH(2) by (auto simp: unat_plus_one)
qed simp

lemma jobq_dense_init: "jobq_dense q_init"
  by (simp add: jobq_dense_def q_init_def)

lemma map_unat_q_start [simp]:
  "map (unat \<circ> e_seqno) (job_list (q_start now q)) = map (unat \<circ> e_seqno) (job_list q)"
  by (simp only: list.map_comp [symmetric] job_list_q_start)

lemma jobq_dense_start [simp]: "jobq_dense (q_start now q) \<longleftrightarrow> jobq_dense q"
  by (simp add: jobq_dense_def)

lemma jobq_step_dense:
  assumes "jobq_step q ev q'" "jobq_dense q" "finished_seqno q \<le> submited_seqno q"
    "\<forall>p. ev \<noteq> Cancelled p" "ev = Submitted \<Longrightarrow> submited_seqno q \<noteq> - 1"
  shows "jobq_dense q' \<and>
    unat (finished_seqno q') = unat (finished_seqno q) + (if ev = Finished then 1 else 0)"
  using assms
proof (induction rule: jobq_step.induct)
  case (submit_idle q e now)
  then show ?case
    by (auto simp: jobq_dense_def q_push_def unat_plus_one word_le_nat_alt)
next
  case (submit_busy q e)
  then show ?case
    by (auto simp: jobq_dense_def q_push_def unat_plus_one word_le_nat_alt)
next
  case (finish q now' now hwt)
  then obtain e es where q: "job_list q = e # es" by (cases "job_list q") auto
  let ?f = "unat (finished_seqno q)" and ?s = "unat (submited_seqno q)"
  have eq: "map (unat \<circ> e_seqno) (e # es) = [Suc ?f ..< Suc ?s]"
    using finish.prems(1) q by (simp only: jobq_dense_def)
  then have "Suc ?f < Suc ?s" by (metis list.distinct(1) list.simps(9) upt_conv_Nil not_less)
  then have "[Suc ?f ..< Suc ?s] = Suc ?f # [Suc (Suc ?f) ..< Suc ?s]"
    by (rule upt_conv_Cons)
  with eq have "unat (e_seqno e) = Suc ?f" "map (unat \<circ> e_seqno) es = [Suc (Suc ?f) ..< Suc ?s]"
    by (simp_all only: list.map o_apply list.inject)
  with q show ?case
    by (simp add: jobq_dense_def q_retire_def del: upt_Suc)
qed (auto simp: jobq_dense_def q_drain_def)

text \<open>
  First come, first served, and nothing is lost: in a run without cancellations
  the numbers still in the list are exactly those after the last finished one,
  and the count of finished jobs is that number.
\<close>

lemma jobq_run_dense:
  assumes "jobq_run q evs q'" "jobq_inv q" "jobq_dense q"
    "unat (submited_seqno q) + submissions evs < 2 ^ 64" "\<forall>p. Cancelled p \<notin> set evs"
  shows "jobq_dense q' \<and> unat (finished_seqno q') = unat (finished_seqno q) + finishes evs"
  using assms
proof (induction rule: jobq_run.induct)
  case (run_snoc q evs q' ev q'')
  have lt: "unat (submited_seqno q) + submissions evs < 2 ^ 64"
    using run_snoc.prems(3) by (simp split: if_splits)
  have IH: "jobq_dense q'" "unat (finished_seqno q') = unat (finished_seqno q) + finishes evs"
    using run_snoc.IH run_snoc.prems lt by auto
  have inv: "jobq_inv q'" "unat (submited_seqno q') = unat (submited_seqno q) + submissions evs"
    using jobq_run_inv [OF run_snoc.hyps(1) run_snoc.prems(1) lt] by auto
  have nmax: "submited_seqno q' \<noteq> - 1" if "ev = Submitted"
    using that inv(2) run_snoc.prems(3) by (auto simp: unat_max_word)
  have "finished_seqno q' \<le> submited_seqno q'" "\<forall>p. ev \<noteq> Cancelled p"
    using inv(1) run_snoc.prems(4) by (auto simp: jobq_inv_def)
  from jobq_step_dense [OF run_snoc.hyps(2) IH(1) this nmax] IH(2) show ?case
    by auto
qed simp

section \<open>The interface of a channel\<close>

text \<open>
  What a channel's handlers promise about their queue \<open>q d\<close> of the device state
  \<open>d\<close>: each of them makes one step of the contract, or leaves the queue alone.
  \<open>submit\<close> returns the status the ioctl returns.
\<close>

locale job_channel =
  fixes q :: "'d \<Rightarrow> 'x exec_info_scheme jobq"
    and submit :: "'r \<Rightarrow> 'd \<Rightarrow> fault + (int \<times> 'd)"
    and finish :: "'i \<Rightarrow> 'd \<Rightarrow> fault + 'd"
    and work :: "'d \<Rightarrow> 'd"
    and release :: "int \<Rightarrow> 't \<Rightarrow> 'd \<Rightarrow> fault + 'd"
  assumes submit_ok: "submit r d = Inr (0, d') \<Longrightarrow> jobq_step (q d) Submitted (q d')"
    and submit_err: "submit r d = Inr (n, d') \<Longrightarrow> n \<noteq> 0 \<Longrightarrow> q d' = q d"
    and finish_idle: "job_list (q d) = [] \<Longrightarrow> finish i d = Inr d' \<Longrightarrow> q d' = q d"
    and finish_busy: "job_list (q d) \<noteq> [] \<Longrightarrow> e_state (hd (job_list (q d))) = AIP_JOB_RUNNING \<Longrightarrow>
          finish i d = Inr d' \<Longrightarrow> jobq_step (q d) Finished (q d')"
    and work_step: "q (work d) = q_drain (q d)"
    and release_step: "release p t d = Inr d' \<Longrightarrow> jobq_step (q d) (Cancelled p) (q d')"
begin

lemma submit_step:
  assumes "submit r d = Inr (n, d')" "jobq_inv (q d)"
  shows "\<exists>evs. jobq_run (q d) evs (q d') \<and> submissions evs \<le> 1 \<and> finishes evs = 0 \<and>
    (\<forall>p. Cancelled p \<notin> set evs)"
proof (cases "n = 0")
  case True
  with submit_ok assms(1) have "jobq_run (q d) [Submitted] (q d')"
    by (blast intro: jobq_run_single)
  then show ?thesis by (intro exI [of _ "[Submitted]"]) (simp add: submissions_def finishes_def)
next
  case False
  with submit_err assms(1) have "q d' = q d" by blast
  then show ?thesis by (auto intro!: exI [of _ "[]"] intro: jobq_run.intros)
qed

text \<open>Under the invariant an interrupt always finds the first job running: the
  branch for a job in another state is never taken.\<close>

lemma finish_step:
  assumes "finish i d = Inr d'" "jobq_inv (q d)"
  shows "\<exists>evs. jobq_run (q d) evs (q d') \<and> submissions evs = 0 \<and>
    finishes evs = (if job_list (q d) = [] then 0 else 1) \<and> (\<forall>p. Cancelled p \<notin> set evs)"
proof (cases "job_list (q d)")
  case Nil
  with finish_idle assms(1) have "q d' = q d" by blast
  with Nil show ?thesis by (auto intro!: exI [of _ "[]"] intro: jobq_run.intros)
next
  case (Cons e es)
  with assms(2) have "e_state (hd (job_list (q d))) = AIP_JOB_RUNNING"
    by (simp add: jobq_inv_def head_running_def)
  then have "jobq_run (q d) [Finished] (q d')"
    using finish_busy [OF _ _ assms(1)] Cons by (auto intro: jobq_run_single)
  with Cons show ?thesis
    by (intro exI [of _ "[Finished]"]) (simp add: submissions_def finishes_def)
qed

lemma work_run: "jobq_run (q d) [Drained] (q (work d))"
  using jobq_run_single [OF jobq_step.drain] work_step by simp

lemma release_run: "release p t d = Inr d' \<Longrightarrow> jobq_run (q d) [Cancelled p] (q d')"
  by (rule jobq_run_single [OF release_step])

end

section \<open>Sequences of handler calls\<close>

datatype ('r, 'i, 't) chan_call =
  Call_submit 'r | Call_finish 'i | Call_work | Call_release int 't

fun run_calls :: "('r \<Rightarrow> 'd \<Rightarrow> fault + (int \<times> 'd)) \<Rightarrow> ('i \<Rightarrow> 'd \<Rightarrow> fault + 'd) \<Rightarrow> ('d \<Rightarrow> 'd) \<Rightarrow>
    (int \<Rightarrow> 't \<Rightarrow> 'd \<Rightarrow> fault + 'd) \<Rightarrow> ('r, 'i, 't) chan_call list \<Rightarrow> 'd \<Rightarrow> fault + 'd" where
  "run_calls sub fin wrk rel [] d = Inr d"
| "run_calls sub fin wrk rel (Call_submit r # cs) d =
     res_bind (sub r d) (\<lambda>(_, d'). run_calls sub fin wrk rel cs d')"
| "run_calls sub fin wrk rel (Call_finish i # cs) d =
     res_bind (fin i d) (run_calls sub fin wrk rel cs)"
| "run_calls sub fin wrk rel (Call_work # cs) d = run_calls sub fin wrk rel cs (wrk d)"
| "run_calls sub fin wrk rel (Call_release p t # cs) d =
     res_bind (rel p t d) (run_calls sub fin wrk rel cs)"

definition submit_calls :: "('r, 'i, 't) chan_call list \<Rightarrow> nat" where
  "submit_calls cs = length (filter (\<lambda>c. case c of Call_submit _ \<Rightarrow> True | _ \<Rightarrow> False) cs)"

definition has_release :: "('r, 'i, 't) chan_call list \<Rightarrow> bool" where
  "has_release cs \<longleftrightarrow> (\<exists>p t. Call_release p t \<in> set cs)"

lemma submit_calls_simps [simp]:
  "submit_calls [] = 0"
  "submit_calls (Call_submit r # cs) = Suc (submit_calls cs)"
  "submit_calls (Call_finish i # cs) = submit_calls cs"
  "submit_calls (Call_work # cs) = submit_calls cs"
  "submit_calls (Call_release p t # cs) = submit_calls cs"
  by (simp_all add: submit_calls_def)

lemma has_release_simps [simp]:
  "\<not> has_release []"
  "has_release (Call_submit r # cs) \<longleftrightarrow> has_release cs"
  "has_release (Call_finish i # cs) \<longleftrightarrow> has_release cs"
  "has_release (Call_work # cs) \<longleftrightarrow> has_release cs"
  "has_release (Call_release p t # cs)"
  by (auto simp: has_release_def)

lemma jobq_run_trans:
  assumes "jobq_run q' evs' q''" "jobq_run q evs q'"
  shows "jobq_run q (evs @ evs') q''"
  using assms
proof (induction rule: jobq_run.induct)
  case (run_snoc q0 evs0 q1 ev q2)
  have "jobq_run q ((evs @ evs0) @ [ev]) q2"
    by (rule jobq_run.run_snoc) (use run_snoc in auto)
  then show ?case by simp
qed simp

context job_channel begin

text \<open>A sequence of handler calls that all return is a run of the contract, from any
  state that satisfies the invariant.\<close>

lemma run_calls_refine:
  assumes "run_calls submit finish work release cs d = Inr d'" "jobq_inv (q d)"
    "unat (submited_seqno (q d)) + submit_calls cs < 2 ^ 64"
  shows "\<exists>evs. jobq_run (q d) evs (q d') \<and> submissions evs \<le> submit_calls cs \<and>
    (\<not> has_release cs \<longrightarrow> (\<forall>p. Cancelled p \<notin> set evs))"
  using assms
proof (induction cs arbitrary: d)
  case Nil
  then show ?case by (auto intro!: exI [of _ "[]"] intro: jobq_run.intros)
next
  case (Cons c cs)
  obtain d1 evs1 where run1: "jobq_run (q d) evs1 (q d1)"
    and rest: "run_calls submit finish work release cs d1 = Inr d'"
    and sub1: "submissions evs1 + submit_calls cs \<le> submit_calls (c # cs)"
    and rel1: "\<not> has_release (c # cs) \<longrightarrow> (\<forall>p. Cancelled p \<notin> set evs1) \<and> \<not> has_release cs"
  proof (cases c)
    case (Call_submit r)
    then obtain n d1 where "submit r d = Inr (n, d1)"
      and rest: "run_calls submit finish work release cs d1 = Inr d'"
      using Cons.prems(1) by (auto simp: res_bind_Inr_iff)
    from submit_step [OF this(1) Cons.prems(2)] Call_submit rest that show ?thesis by auto
  next
    case (Call_finish i)
    then obtain d1 where "finish i d = Inr d1"
      and rest: "run_calls submit finish work release cs d1 = Inr d'"
      using Cons.prems(1) by (auto simp: res_bind_Inr_iff)
    from finish_step [OF this(1) Cons.prems(2)] Call_finish rest that show ?thesis by auto
  next
    case Call_work
    then show ?thesis using work_run [of d] Cons.prems(1) that by (auto simp: submissions_def)
  next
    case (Call_release p t)
    then obtain d1 where "release p t d = Inr d1"
      and rest: "run_calls submit finish work release cs d1 = Inr d'"
      using Cons.prems(1) by (auto simp: res_bind_Inr_iff)
    from release_run [OF this(1)] Call_release rest that show ?thesis by (auto simp: submissions_def)
  qed
  have b1: "unat (submited_seqno (q d)) + submissions evs1 < 2 ^ 64"
    using sub1 Cons.prems(3) by simp
  note inv1 = jobq_run_inv [OF run1 Cons.prems(2) b1]
  have "unat (submited_seqno (q d1)) + submit_calls cs < 2 ^ 64"
    using inv1 sub1 Cons.prems(3) by simp
  from Cons.IH [OF rest _ this] inv1 obtain evs2 where "jobq_run (q d1) evs2 (q d')"
    "submissions evs2 \<le> submit_calls cs"
    "\<not> has_release cs \<longrightarrow> (\<forall>p. Cancelled p \<notin> set evs2)" by blast
  with run1 sub1 rel1 show ?case
    by (intro exI [of _ "evs1 @ evs2"]) (auto intro: jobq_run_trans simp: submissions_def)
qed

lemma run_calls_inv:
  assumes "run_calls submit finish work release cs d = Inr d'" "jobq_inv (q d)"
    "unat (submited_seqno (q d)) + submit_calls cs < 2 ^ 64"
  shows "jobq_inv (q d')"
  using run_calls_refine [OF assms] jobq_run_inv assms(2,3) by (meson add_left_mono le_less_trans)

lemma run_calls_dense:
  assumes "run_calls submit finish work release cs d = Inr d'" "jobq_inv (q d)"
    "jobq_dense (q d)" "\<not> has_release cs"
    "unat (submited_seqno (q d)) + submit_calls cs < 2 ^ 64"
  shows "jobq_dense (q d')"
  using run_calls_refine [OF assms(1,2,5)] jobq_run_dense assms(2-5)
  by (meson add_left_mono le_less_trans)

end

section \<open>Channels that always return\<close>

text \<open>
  The same contract with a condition \<open>ok\<close> under which every handler returns
  (the hardware becomes idle and completes its resets, the jobs' buffer objects
  are alive) and which every handler keeps, for requests that satisfy \<open>req_ok\<close>.
\<close>

locale total_channel = job_channel q submit finish work release
  for q :: "'d \<Rightarrow> 'x exec_info_scheme jobq"
    and submit :: "'r \<Rightarrow> 'd \<Rightarrow> fault + (int \<times> 'd)"
    and finish :: "'i \<Rightarrow> 'd \<Rightarrow> fault + 'd"
    and work :: "'d \<Rightarrow> 'd"
    and release :: "int \<Rightarrow> 't \<Rightarrow> 'd \<Rightarrow> fault + 'd" +
  fixes ok :: "'d \<Rightarrow> bool"
    and req_ok :: "'r \<Rightarrow> bool"
  assumes submit_total: "ok d \<Longrightarrow> req_ok r \<Longrightarrow> \<exists>n d'. submit r d = Inr (n, d') \<and> ok d'"
    and finish_total: "ok d \<Longrightarrow> \<exists>d'. finish i d = Inr d' \<and> ok d'"
    and work_total: "ok d \<Longrightarrow> ok (work d)"
    and release_total: "ok d \<Longrightarrow> \<exists>d'. release p t d = Inr d' \<and> ok d'"
begin

lemma run_calls_total:
  "ok d \<Longrightarrow> \<forall>r. Call_submit r \<in> set cs \<longrightarrow> req_ok r \<Longrightarrow>
   \<exists>d'. run_calls submit finish work release cs d = Inr d' \<and> ok d'"
proof (induction cs arbitrary: d)
  case (Cons c cs)
  show ?case
  proof (cases c)
    case (Call_submit r)
    with Cons.prems submit_total [of d r] obtain n d1 where "submit r d = Inr (n, d1)" "ok d1"
      by auto
    with Call_submit Cons.IH [of d1] Cons.prems(2) show ?thesis by simp
  next
    case (Call_finish i)
    from finish_total [OF Cons.prems(1), of i] obtain d1 where "finish i d = Inr d1" "ok d1" by blast
    with Call_finish Cons.IH [of d1] Cons.prems(2) show ?thesis by simp
  next
    case Call_work
    with Cons.IH [of "work d"] work_total [OF Cons.prems(1)] Cons.prems(2) show ?thesis by simp
  next
    case (Call_release p t)
    from release_total [OF Cons.prems(1), of p t] obtain d1 where "release p t d = Inr d1" "ok d1"
      by blast
    with Call_release Cons.IH [of d1] Cons.prems(2) show ?thesis by simp
  qed
qed simp

text \<open>As many completion interrupts as there are jobs serve all of them, in the order
  of the list.\<close>

lemma finish_all:
  assumes "ok d" "jobq_inv (q d)" "length is = length (job_list (q d))"
  shows "\<exists>d'. run_calls submit finish work release (map Call_finish is) d = Inr d' \<and>
    job_list (q d') = [] \<and>
    map e_seqno (job_done_list (q d')) = map e_seqno (job_done_list (q d) @ job_list (q d))"
  using assms
proof (induction "is" arbitrary: d)
  case (Cons i js)
  from finish_total [OF Cons.prems(1), of i] obtain d1 where d1: "finish i d = Inr d1" "ok d1"
    by blast
  obtain e es where q: "job_list (q d) = e # es" using Cons.prems(3) by (cases "job_list (q d)") auto
  have run: "e_state (hd (job_list (q d))) = AIP_JOB_RUNNING"
    using Cons.prems(2) q by (simp add: jobq_inv_def head_running_def)
  have step: "jobq_step (q d) Finished (q d1)"
    using finish_busy [OF _ run d1(1)] q by simp
  then obtain now now' hwt where q1: "q d1 = q_start now' (q_retire now hwt (q d))"
    by (auto elim: jobq_stepE)
  have "jobq_inv (q d1)" using jobq_step_inv [OF step Cons.prems(2)] by simp
  moreover have "length js = length (job_list (q d1))"
    using Cons.prems(3) q by (simp add: q1) (simp add: q_retire_def)
  ultimately obtain d' where d': "run_calls submit finish work release (map Call_finish js) d1 = Inr d'"
    "job_list (q d') = []"
    "map e_seqno (job_done_list (q d')) = map e_seqno (job_done_list (q d1) @ job_list (q d1))"
    using Cons.IH [OF d1(2)] by blast
  have "map e_seqno (job_done_list (q d1) @ job_list (q d1)) =
      map e_seqno (job_done_list (q d) @ job_list (q d))"
    using q by (simp add: q1) (simp add: q_retire_def)
  with d' d1(1) show ?case by auto
qed auto

end

end
