(* ===== verification/Device.thy ===== *)
theory Device
  imports Regs JobQueue
begin

text \<open>
  The state of the driver, \<open>struct jz_aip_v20_dev\<close> and the structures it points
  to (\<open>drive/jz_aip_v20_drv.h\<close>), the ioctl arguments (\<open>drive/jz_aip_v20_ioctl.h\<close>), and
  register access. The hardware block is not code: it is the parameter \<open>soc\<close>,
  which says how the registers change while the CPU waits (\<open>tick\<close>) and how
  they react to a write (\<open>on_write\<close>); \<open>repair_a1\<close> is the build option
  \<open>CONFIG_AIP_V20_REPAIR_A1\<close>. The writes themselves are recorded in order in
  \<open>bus\<close>, so what the driver sends to the block is part of its state.
\<close>

section \<open>Registers\<close>

type_synonym regs = "u32 \<Rightarrow> u32"

record soc =
  repair_a1 :: bool
  tick :: "regs \<Rightarrow> regs"
  on_write :: "u32 \<Rightarrow> u32 \<Rightarrow> regs \<Rightarrow> regs"

record io =
  io_regs :: regs
  bus :: "(u32 \<times> u32) list"

text \<open>\<open>AIP_V20_READL\<close> and \<open>AIP_V20_WRITEL\<close>.\<close>

definition readl :: "io \<Rightarrow> u32 \<Rightarrow> u32" where
  "readl s a = io_regs s a"

definition writel :: "soc \<Rightarrow> u32 \<Rightarrow> u32 \<Rightarrow> io \<Rightarrow> io" where
  "writel soc a v s = s\<lparr>io_regs := on_write soc a v (io_regs s), bus := bus s @ [(a, v)]\<rparr>"

definition writel_all :: "soc \<Rightarrow> (u32 \<times> u32) list \<Rightarrow> io \<Rightarrow> io" where
  "writel_all soc ws s = fold (\<lambda>(a, v). writel soc a v) ws s"

text \<open>A busy-wait loop on the registers: it ends in the first state where the
  condition holds, or it spins for ever.\<close>

definition poll :: "soc \<Rightarrow> (regs \<Rightarrow> bool) \<Rightarrow> io \<Rightarrow> fault + io" where
  "poll soc c s = (case while_option (\<lambda>r. \<not> c r) (tick soc) (io_regs s) of
     None \<Rightarrow> Inl Spins | Some r \<Rightarrow> Inr (s\<lparr>io_regs := r\<rparr>))"

lemma bus_writel [simp]: "bus (writel soc a v s) = bus s @ [(a, v)]"
  by (simp add: writel_def)

lemma bus_writel_all [simp]: "bus (writel_all soc ws s) = bus s @ ws"
  by (induction ws arbitrary: s) (auto simp: writel_all_def)

lemma poll_Inr:
  assumes "poll soc c s = Inr s'"
  shows "bus s' = bus s \<and> c (io_regs s')"
  using assms by (auto simp: poll_def split: option.splits dest: while_option_stop)

lemma poll_now: "c (io_regs s) \<Longrightarrow> poll soc c s = Inr s"
  by (simp add: poll_def while_option_unfold)

text \<open>The loop ends when the hardware satisfies the condition after some number of ticks.\<close>

lemma poll_returns:
  assumes "c ((tick soc ^^ n) (io_regs s))"
  shows "\<exists>s'. poll soc c s = Inr s'"
proof -
  define k where "k = (LEAST k. c ((tick soc ^^ k) (io_regs s)))"
  have "c ((tick soc ^^ k) (io_regs s))" and "\<forall>j < k. \<not> c ((tick soc ^^ j) (io_regs s))"
    using assms by (auto simp: k_def intro: LeastI dest: not_less_Least)
  then have "while_option (\<lambda>r. \<not> c r) (tick soc) (io_regs s) \<noteq> None"
    by (auto simp: while_option_def)
  then show ?thesis by (auto simp: poll_def)
qed

text \<open>Hardware that reaches the condition from every state after some number of ticks.\<close>

definition quiesces :: "soc \<Rightarrow> (regs \<Rightarrow> bool) \<Rightarrow> bool" where
  "quiesces soc c \<longleftrightarrow> (\<forall>r. \<exists>n. c ((tick soc ^^ n) r))"

lemma poll_quiesces: "quiesces soc c \<Longrightarrow> \<exists>s'. poll soc c s = Inr s'"
  unfolding quiesces_def using poll_returns by blast

section \<open>ioctl arguments\<close>

text \<open>The \<open>name\<close> a caller passes: NULL, a pointer the kernel cannot read to the
  end (with the part it read), or a string.\<close>

datatype user_name = Null_name | Bad_name string | User_name string

definition JZ_AIP_JOB_NAME_LEN :: nat where
  "JZ_AIP_JOB_NAME_LEN = 8"

definition JZ_AIP_V20_SET_JOB_NAME :: "user_name \<Rightarrow> string" where
  "JZ_AIP_V20_SET_JOB_NAME n = (case n of
     Null_name \<Rightarrow> ''nul''
   | Bad_name s \<Rightarrow> take (JZ_AIP_JOB_NAME_LEN - 1) s
   | User_name s \<Rightarrow> take (JZ_AIP_JOB_NAME_LEN - 1) s)"

record nv2bgr_offset =
  order :: u32
  alpha :: u32
  offset0 :: u32
  offset1 :: u32

record submit_f =
  f_format :: u32
  f_pos_in :: u32
  f_pos_out :: u32
  f_node_handle :: int
  f_node_num :: u32
  f_paddr :: u32
  f_name :: user_name

text \<open>\<open>p_param\<close> and \<open>t_param\<close> are user pointers to nine words, \<open>t_node\<close> one to a
  node: \<open>None\<close> when \<open>copy_from_user\<close> fails.\<close>

record submit_p =
  p_mode :: u32
  p_offset :: nv2bgr_offset
  p_pos_in :: u32
  p_pos_out :: u32
  p_node_handle :: int
  p_node_num :: u32
  p_paddr :: u32
  p_param :: "(nat \<Rightarrow> u32) option"
  p_name :: user_name

record aip_v20_t_node =
  src_ybase :: u32
  src_cbase :: u32
  dst_base :: u32
  src_h :: u32
  src_w :: u32
  src_stride :: u32
  dst_stride :: u32
  task_len :: u32

record submit_t =
  t_offset :: nv2bgr_offset
  t_pos_in :: u32
  t_pos_out :: u32
  t_param :: "(nat \<Rightarrow> u32) option"
  t_node :: "aip_v20_t_node option"
  t_name :: user_name

datatype submit_arg = AIP_CH_OP_F submit_f | AIP_CH_OP_P submit_p | AIP_CH_OP_T submit_t
  | AIP_CH_OP_T_TASK submit_t | AIP_CH_OP_other u32

section \<open>Driver objects\<close>

text \<open>A buffer object. Objects are named by numbers that are never used twice, so a
  pointer to a freed one is seen as such.\<close>

type_synonym bo_ptr = nat

record bo_info =
  bo_pid :: int
  bo_vaddr :: u32
  bo_dma :: u32
  bo_size :: u32

record f_exec_info = exec_info +
  f_node :: bo_ptr
  f_mem_ofst :: u32
  f_nodes :: u32

record p_exec_info = exec_info +
  p_node :: bo_ptr
  p_mem_ofst :: u32
  p_nodes :: u32
  p_params :: "nat \<Rightarrow> u32"

record t_exec_info = exec_info +
  t_params :: "nat \<Rightarrow> u32"
  t_ofst :: u32
  t_hwnode :: aip_v20_t_node

record oram_info =
  o_pid :: int
  o_kvaddr :: u32
  o_size :: u32

record nna_exec_info =
  n_pid :: int
  n_submit_time :: int
  n_start_time :: int
  n_name :: string

text \<open>The NNA part; \<open>'p\<close> is the kernel's \<open>gen_pool\<close>. \<open>nna_orphans\<close> is not in the code:
  it counts the job and ORAM records that were unlinked and not freed.\<close>

record 'p nna_state =
  nna_seqno :: u64
  nna_job_list :: "nna_exec_info list"
  nna_oram_handles :: "oram_info idr"
  nna_mutex :: bool
  nna_job_lock :: bool
  nna_pid :: int
  oram_pool :: "'p option"
  total_l2c_size :: u32
  curr_l2c_size :: u32
  oram_size :: u32
  oram_pbase :: u32
  dma_size :: u32
  dma_pbase :: u32
  dma_desram_size :: u32
  dma_desram_pbase :: u32
  nna_orphans :: nat

record bo_state =
  bo_handles :: "bo_ptr idr"
  bo_objs :: "bo_ptr \<rightharpoonup> bo_info"
  bo_next :: bo_ptr
  kmem :: mem

text \<open>
  The device. \<open>orphans\<close> is not in the code: it counts job records that were
  allocated, are not freed and that nothing points to any more. \<open>ccu_cscr\<close> and
  \<open>ccu_mscr\<close> are the two clock registers outside the block.
\<close>

record 'p aip_dev =
  dev_io :: io
  is_ok :: bool
  ref_count :: nat
  ccu_cscr :: u32
  ccu_mscr :: u32
  bos :: bo_state
  f_ch :: "f_exec_info jobq"
  p_ch :: "p_exec_info jobq"
  t_ch :: "t_exec_info jobq"
  t_job_mutex :: bool
  nna :: "'p nna_state"
  orphans :: nat

text \<open>What one call gets from the kernel around it: whether \<open>kcalloc\<close> succeeds,
  the caller's process as its own namespace numbers it (\<open>task_tgid_vnr\<close>) and as
  the kernel does (\<open>task_tgid_nr\<close>), and the values \<open>ktime_get_boottime\<close> returns first and
  last in the call.\<close>

record env =
  kmalloc_ok :: bool
  cur_pid :: int
  cur_tgid :: int
  t_enter :: int
  t_later :: int

section \<open>Initial state\<close>

text \<open>\<open>jz_aip_v20_core_init\<close>: all three queues are empty, no number has been given out,
  no lock is held.\<close>

definition jz_aip_v20_core_init :: "'p aip_dev \<Rightarrow> 'p aip_dev" where
  "jz_aip_v20_core_init d = d\<lparr>f_ch := q_init, p_ch := q_init, t_ch := q_init,
     t_job_mutex := False\<rparr>"

section \<open>Error codes\<close>

definition EINTR :: int where [run_simps]: "EINTR = 4"
definition ENOMEM :: int where [run_simps]: "ENOMEM = 12"
definition EFAULT :: int where [run_simps]: "EFAULT = 14"
definition EINVAL :: int where [run_simps]: "EINVAL = 22"
definition ETIME :: int where [run_simps]: "ETIME = 62"
definition ERESTARTSYS :: int where [run_simps]: "ERESTARTSYS = 512"

definition JZ_AIP_V20_IOBASE :: "soc \<Rightarrow> u32" where
  "JZ_AIP_V20_IOBASE soc = (if repair_a1 soc then 0x13090000 else 0x12b00000)"

definition bo_ref :: "bo_state \<Rightarrow> bo_ptr \<Rightarrow> fault + bo_info" where
  "bo_ref b p = (case bo_objs b p of None \<Rightarrow> Inl Use_after_free | Some bo \<Rightarrow> Inr bo)"

text \<open>Stores to words of a buffer object, counted from the byte offset \<open>ofst\<close>: the object
  ends at its size, and a store beyond it is a fault.\<close>

definition bo_holds :: "bo_info \<Rightarrow> u32 \<Rightarrow> (nat \<times> u32) list \<Rightarrow> bool" where
  "bo_holds bo ofst ws \<longleftrightarrow> list_all (\<lambda>(k, v). unat ofst + 4 * k + 4 \<le> unat (bo_size bo)) ws"

definition bo_store :: "bo_info \<Rightarrow> u32 \<Rightarrow> (nat \<times> u32) list \<Rightarrow> mem \<Rightarrow> fault + mem" where
  "bo_store bo ofst ws m =
     (if bo_holds bo ofst ws then Inr (store_words (bo_vaddr bo + ofst) ws m) else Inl Out_of_buffer)"

text \<open>The handle table and the objects of two states are the same (their memory may differ).\<close>

definition same_bos :: "bo_state \<Rightarrow> bo_state \<Rightarrow> bool" where
  "same_bos b b' \<longleftrightarrow> bo_handles b' = bo_handles b \<and> bo_objs b' = bo_objs b"

lemma same_bos_refl [intro, simp]: "same_bos b b" "same_bos b (b\<lparr>kmem := m\<rparr>)"
  by (simp_all add: same_bos_def)

text \<open>The walk of \<open>list_for_each_entry_safe\<close> in the three \<open>_release\<close> functions: the
  jobs of the process are unlinked and freed; a running one makes the engine
  be reset and the next job be submitted afterwards.\<close>

fun release_scan :: "(io \<Rightarrow> fault + io) \<Rightarrow> int \<Rightarrow> 'x exec_info_scheme list \<Rightarrow> io \<Rightarrow>
    fault + ('x exec_info_scheme list \<times> bool \<times> io)" where
  "release_scan reset p [] s = Inr ([], False, s)"
| "release_scan reset p (e # es) s =
    (if e_pid e = p then
       (if e_state e = AIP_JOB_RUNNING then
          res_bind (reset s) (\<lambda>s.
          res_bind (release_scan reset p es s) (\<lambda>(ks, _, s). Inr (ks, True, s)))
        else release_scan reset p es s)
     else res_bind (release_scan reset p es s) (\<lambda>(ks, re, s). Inr (e # ks, re, s)))"

lemma release_scan_Inr:
  "release_scan reset p es s = Inr (ks, re, s') \<Longrightarrow>
   ks = filter (\<lambda>e. e_pid e \<noteq> p) es \<and>
   re = (\<exists>e \<in> set es. e_pid e = p \<and> e_state e = AIP_JOB_RUNNING)"
  by (induction es arbitrary: s ks re s')
     (force simp: res_bind_Inr_iff split: if_splits)+

text \<open>Nothing is reset when no running job goes.\<close>

lemma release_scan_quiet:
  "release_scan reset p es s = Inr (ks, re, s') \<Longrightarrow>
   \<not> (\<exists>e \<in> set es. e_pid e = p \<and> e_state e = AIP_JOB_RUNNING) \<Longrightarrow> s' = s"
  by (induction es arbitrary: s ks re s') (auto simp: res_bind_Inr_iff split: if_splits)

text \<open>The walk returns when the reset does.\<close>

lemma release_scan_returns:
  assumes "\<And>s. \<exists>s'. reset s = Inr s'"
  shows "\<exists>ks re s'. release_scan reset p es s = Inr (ks, re, s')"
proof (induction es arbitrary: s)
  case (Cons e es)
  obtain s1 where s1: "reset s = Inr s1" using assms by blast
  obtain ks re s2 ks' re' s2' where "release_scan reset p es s = Inr (ks, re, s2)"
    "release_scan reset p es s1 = Inr (ks', re', s2')"
    using Cons by blast
  with s1 show ?case by auto
qed auto

text \<open>Hardware for the witnesses: it is idle from the start, its registers keep
  their values, and a write has no effect on them.\<close>

definition still_soc :: "bool \<Rightarrow> soc" where
  "still_soc a1 = \<lparr>repair_a1 = a1, tick = id, on_write = (\<lambda>_ _ r. r)\<rparr>"

text \<open>Hardware that clears every register at each tick, and keeps what is written.\<close>

definition clearing_soc :: "bool \<Rightarrow> soc" where
  "clearing_soc a1 = \<lparr>repair_a1 = a1, tick = (\<lambda>r _. 0), on_write = (\<lambda>a v r. r(a := v))\<rparr>"

lemma clearing_soc_quiesces: "c (\<lambda>_. 0) \<Longrightarrow> quiesces (clearing_soc a1) c"
  unfolding quiesces_def by (intro allI exI [of _ 1]) (simp add: clearing_soc_def)

text \<open>A device with one buffer object of process 7, for the witnesses.\<close>

definition sample_bos :: bo_state where
  "sample_bos = \<lparr>bo_handles = [(1, 0)],
     bo_objs = [0 \<mapsto> \<lparr>bo_pid = 7, bo_vaddr = 0x81000000, bo_dma = 0x1000, bo_size = 0x1000\<rparr>],
     bo_next = 1, kmem = (\<lambda>_. 0)\<rparr>"

definition sample_nna :: "unit nna_state" where
  "sample_nna = \<lparr>nna_seqno = 0, nna_job_list = [], nna_oram_handles = [], nna_mutex = False,
     nna_job_lock = False, nna_pid = 0, oram_pool = None, total_l2c_size = 0, curr_l2c_size = 0,
     oram_size = 0, oram_pbase = 0, dma_size = 0, dma_pbase = 0, dma_desram_size = 0,
     dma_desram_pbase = 0, nna_orphans = 0\<rparr>"

definition sample_dev :: "unit aip_dev" where
  "sample_dev = \<lparr>dev_io = \<lparr>io_regs = (\<lambda>_. 0), bus = []\<rparr>, is_ok = True, ref_count = 1,
     ccu_cscr = 0, ccu_mscr = 0, bos = sample_bos, f_ch = q_init, p_ch = q_init, t_ch = q_init,
     t_job_mutex = False, nna = sample_nna, orphans = 0\<rparr>"

definition sample_env :: env where
  "sample_env = \<lparr>kmalloc_ok = True, cur_pid = 7, cur_tgid = 7, t_enter = 10, t_later = 20\<rparr>"

lemma sample_dev_simps [simp]:
  "bos sample_dev = sample_bos" "f_ch sample_dev = q_init" "p_ch sample_dev = q_init"
  "t_ch sample_dev = q_init" "io_regs (dev_io sample_dev) = (\<lambda>_. 0)" "bus (dev_io sample_dev) = []"
  "is_ok sample_dev" "ref_count sample_dev = 1" "nna sample_dev = sample_nna"
  "bo_handles sample_bos = [(1, 0)]" "bo_objs sample_bos 0 =
     Some \<lparr>bo_pid = 7, bo_vaddr = 0x81000000, bo_dma = 0x1000, bo_size = 0x1000\<rparr>"
  by (simp_all add: sample_dev_def sample_bos_def)

lemma q_init_simps [simp]:
  "job_list q_init = []" "job_done_list q_init = []" "submited_seqno q_init = 0"
  "finished_seqno q_init = 0"
  by (simp_all add: q_init_def)

end
