(* ===== verification/Bo.thy ===== *)
theory Bo
  imports Device
begin

text \<open>
  Buffer objects, \<open>drive/jz_aip_v20_bo.c\<close>: contiguous memory the user asks for with
  an ioctl, kept in a table from handles to objects. The kernel's DMA allocator
  and \<open>idr_alloc\<close> are parameters: \<open>dma\<close> is the allocator's answer (\<open>None\<close> when
  it fails, kernel and bus address otherwise), \<open>alloc\<close> the id chosen for a table.
  An object that was allocated and that no handle names is a leak; it stays in
  \<open>bo_objs\<close>. Every operation runs under \<open>bo_mutex\<close>, which it releases on every path.
\<close>

section \<open>Operations\<close>

datatype bo_op = AIP_BO_OP_APPEND | AIP_BO_OP_DESTROY | AIP_BO_OP_other u32

text \<open>\<open>aip_v20_ioctl_bo_t\<close>, argument and result of the ioctl.\<close>

record ioctl_bo =
  bo_op :: bo_op
  io_size :: u32
  io_handle :: int
  io_paddr :: u32

text \<open>\<open>round_up(x, 4096)\<close> of the kernel, \<open>((x - 1) | 4095) + 1\<close>.\<close>

definition page_round_up :: "u32 \<Rightarrow> u32" where
  "page_round_up x = ((x - 1) OR 0xfff) + 1"

definition jz_aip_v20_bo_init :: "bo_state \<Rightarrow> bo_state" where
  "jz_aip_v20_bo_init b = b\<lparr>bo_handles := []\<rparr>"

definition jz_aip_v20_bo_create :: "env \<Rightarrow> (u32 \<times> u32) option \<Rightarrow> u32 \<Rightarrow> bo_state \<Rightarrow>
    (int + bo_ptr) \<times> bo_state" where
  "jz_aip_v20_bo_create ev dma sz b =
     (let sz = page_round_up sz; p = bo_next b;
          new = (\<lambda>va pa. b\<lparr>bo_objs := (bo_objs b)(p \<mapsto>
            \<lparr>bo_pid = cur_tgid ev, bo_vaddr = va, bo_dma = pa, bo_size = sz\<rparr>), bo_next := p + 1\<rparr>)
      in if \<not> kmalloc_ok ev then (Inl (- ENOMEM), b)
         else case dma of
           None \<Rightarrow> (Inl (- ENOMEM), new 0 0)
         | Some (va, pa) \<Rightarrow> (Inr p, new va pa))"

definition jz_aip_v20_bo_remove :: "bo_ptr \<Rightarrow> bo_state \<Rightarrow> bo_state" where
  "jz_aip_v20_bo_remove p b = b\<lparr>bo_objs := (bo_objs b)(p := None)\<rparr>"

definition jz_aip_v20_bo_append :: "env \<Rightarrow> (u32 \<times> u32) option \<Rightarrow> (bo_ptr idr \<Rightarrow> int) \<Rightarrow> ioctl_bo \<Rightarrow>
    bo_state \<Rightarrow> fault + (int \<times> ioctl_bo \<times> bo_state)" where
  "jz_aip_v20_bo_append ev dma alloc dat b =
     (case jz_aip_v20_bo_create ev dma (io_size dat) b of
       (Inl _, b) \<Rightarrow> Inr (- EINVAL, dat, b)
     | (Inr p, b) \<Rightarrow>
         let r = alloc (bo_handles b) in
         if r < 0 then Inr (- EINVAL, dat, jz_aip_v20_bo_remove p b)
         else res_bind (bo_ref b p) (\<lambda>bo.
           Inr (0, dat\<lparr>io_paddr := bo_dma bo, io_handle := r\<rparr>,
                b\<lparr>bo_handles := idr_insert r p (bo_handles b)\<rparr>)))"

text \<open>The debug message after the unlock reads the object that was just freed, or NULL
  when the handle was not found; its arguments are evaluated in debug builds only.\<close>

definition jz_aip_v20_bo_destroy :: "bool \<Rightarrow> ioctl_bo \<Rightarrow> bo_state \<Rightarrow> fault + (int \<times> bo_state)" where
  "jz_aip_v20_bo_destroy debug dat b = (let i = io_handle dat in
     case idr_find (bo_handles b) i of
       None \<Rightarrow> if debug then Inl Null_deref else Inr (0, b)
     | Some p \<Rightarrow>
         let b = (jz_aip_v20_bo_remove p b)\<lparr>bo_handles := idr_remove i (bo_handles b)\<rparr>
         in if debug then Inl Use_after_free else Inr (0, b))"

definition jz_aip_v20_bo :: "bool \<Rightarrow> env \<Rightarrow> (u32 \<times> u32) option \<Rightarrow> (bo_ptr idr \<Rightarrow> int) \<Rightarrow> ioctl_bo \<Rightarrow>
    bo_state \<Rightarrow> fault + (int \<times> ioctl_bo \<times> bo_state)" where
  "jz_aip_v20_bo debug ev dma alloc dat b = (case bo_op dat of
     AIP_BO_OP_APPEND \<Rightarrow> jz_aip_v20_bo_append ev dma alloc dat b
   | AIP_BO_OP_DESTROY \<Rightarrow> res_bind (jz_aip_v20_bo_destroy debug dat b) (\<lambda>(r, b). Inr (r, dat, b))
   | AIP_BO_OP_other _ \<Rightarrow> Inr (- EINVAL, dat, b))"

text \<open>\<open>jz_aip_v20_bo_release\<close>: the walk over the table visits every entry once.\<close>

fun bo_release_walk :: "int \<Rightarrow> bo_ptr idr \<Rightarrow> bo_state \<Rightarrow> fault + bo_state" where
  "bo_release_walk pid [] b = Inr b"
| "bo_release_walk pid ((i, p) # es) b =
     res_bind (bo_ref b p) (\<lambda>bo.
       bo_release_walk pid es
         (if bo_pid bo = pid
          then (jz_aip_v20_bo_remove p b)\<lparr>bo_handles := idr_remove i (bo_handles b)\<rparr> else b))"

definition jz_aip_v20_bo_release :: "int \<Rightarrow> bo_state \<Rightarrow> fault + bo_state" where
  "jz_aip_v20_bo_release pid b = bo_release_walk pid (bo_handles b) b"

section \<open>The invariant\<close>

text \<open>Handles are distinct and at least 1, every one names its own live object, and
  the numbers of objects were all given out.\<close>

definition bo_inv :: "bo_state \<Rightarrow> bool" where
  "bo_inv b \<longleftrightarrow> idr_wf (bo_handles b) \<and> distinct (map snd (bo_handles b)) \<and>
     snd ` set (bo_handles b) \<subseteq> dom (bo_objs b) \<and> dom (bo_objs b) \<subseteq> {..< bo_next b}"

text \<open>The process that owns a handle.\<close>

definition bo_owner :: "bo_state \<Rightarrow> int \<Rightarrow> int option" where
  "bo_owner b h = (case idr_find (bo_handles b) h of None \<Rightarrow> None
     | Some p \<Rightarrow> map_option bo_pid (bo_objs b p))"

text \<open>Objects nobody can free any more.\<close>

definition bo_leaked :: "bo_state \<Rightarrow> bo_ptr set" where
  "bo_leaked b = dom (bo_objs b) - snd ` set (bo_handles b)"

lemma bo_remove_simps [simp]:
  "bo_handles (jz_aip_v20_bo_remove p b) = bo_handles b"
  "bo_objs (jz_aip_v20_bo_remove p b) = (bo_objs b)(p := None)"
  "bo_next (jz_aip_v20_bo_remove p b) = bo_next b"
  "kmem (jz_aip_v20_bo_remove p b) = kmem b"
  by (simp_all add: jz_aip_v20_bo_remove_def)

lemma bo_inv_find:
  "bo_inv b \<Longrightarrow> idr_find (bo_handles b) h = Some p \<Longrightarrow> \<exists>bo. bo_objs b p = Some bo \<and> p < bo_next b"
  by (force simp: bo_inv_def idr_find_def dest: map_of_SomeD)

lemma bo_next_fresh:
  "bo_inv b \<Longrightarrow> bo_next b \<notin> dom (bo_objs b) \<and> bo_next b \<notin> snd ` set (bo_handles b)"
  unfolding bo_inv_def by (meson lessThan_iff less_irrefl subsetD)

lemma bo_inv_insert:
  assumes "bo_inv b" "idr_find (bo_handles b) i = None" "1 \<le> i"
  shows "bo_inv (b\<lparr>bo_objs := (bo_objs b)(bo_next b \<mapsto> bo), bo_next := bo_next b + 1,
    bo_handles := idr_insert i (bo_next b) (bo_handles b)\<rparr>)"
  using assms idr_wf_insert [of "bo_handles b" i "bo_next b"]
  by (force simp: bo_inv_def idr_insert_def)

lemma snd_idr_remove: "snd ` set (idr_remove i t) \<subseteq> snd ` set t"
  by (auto simp: idr_remove_def)

lemma idr_remove_notin:
  assumes "distinct (map snd t)" "idr_find t i = Some p" "distinct (map fst t)"
  shows "p \<notin> snd ` set (idr_remove i t)"
proof
  assume "p \<in> snd ` set (idr_remove i t)"
  then obtain j where "(j, p) \<in> set t" "j \<noteq> i" by (auto simp: idr_remove_def)
  moreover have "(i, p) \<in> set t" using assms(2) by (simp add: idr_find_def map_of_SomeD)
  ultimately show False using assms(1) by (fastforce simp: distinct_map inj_on_def)
qed

lemma bo_inv_remove:
  assumes "bo_inv b" "idr_find (bo_handles b) i = Some p"
  shows "bo_inv ((jz_aip_v20_bo_remove p b)\<lparr>bo_handles := idr_remove i (bo_handles b)\<rparr>)"
proof -
  have notin: "p \<notin> snd ` set (idr_remove i (bo_handles b))"
    using assms by (intro idr_remove_notin) (auto simp: bo_inv_def idr_wf_def)
  have "distinct (map snd (idr_remove i (bo_handles b)))"
    using assms(1) by (simp add: bo_inv_def idr_remove_def distinct_map_filter)
  moreover have "snd ` set (idr_remove i (bo_handles b)) \<subseteq> dom (bo_objs b) - {p}"
    using notin by (rule subset_Diff_insert [THEN iffD2, OF conjI, rotated])
      (rule subset_trans [OF snd_idr_remove], use assms(1) in \<open>simp add: bo_inv_def\<close>)
  moreover have "idr_wf (idr_remove i (bo_handles b))" "dom (bo_objs b) - {p} \<subseteq> {..< bo_next b}"
    using assms(1) by (auto simp: bo_inv_def idr_wf_remove)
  ultimately show ?thesis
    by (simp add: bo_inv_def)
qed

lemma bo_inv_leak:
  "bo_inv b \<Longrightarrow> bo_inv (b\<lparr>bo_objs := (bo_objs b)(bo_next b \<mapsto> bo), bo_next := bo_next b + 1\<rparr>)"
  by (auto simp: bo_inv_def)

lemma bo_append_inv:
  assumes "bo_inv b" "idr_alloc_ok alloc" "jz_aip_v20_bo_append ev dma alloc dat b = Inr (r, dat', b')"
  shows "bo_inv b'"
proof -
  have "bo_inv ((jz_aip_v20_bo_remove (bo_next b) (b\<lparr>bo_objs := (bo_objs b)(bo_next b \<mapsto> bo),
      bo_next := bo_next b + 1\<rparr>)))" for bo
    using assms(1) bo_next_fresh [OF assms(1)] by (auto simp: bo_inv_def)
  moreover have "alloc (bo_handles b) < 0 \<or>
      1 \<le> alloc (bo_handles b) \<and> idr_find (bo_handles b) (alloc (bo_handles b)) = None"
    using assms(2) by (auto simp: idr_alloc_ok_def)
  ultimately show ?thesis
    using assms(1,3) bo_inv_insert [OF assms(1), of "alloc (bo_handles b)"] bo_inv_leak [OF assms(1)]
    by (auto simp: jz_aip_v20_bo_append_def jz_aip_v20_bo_create_def Let_def bo_ref_def
        split: if_splits option.splits prod.splits)
qed

lemma bo_destroy_inv:
  "bo_inv b \<Longrightarrow> jz_aip_v20_bo_destroy debug dat b = Inr (r, b') \<Longrightarrow> bo_inv b'"
  by (auto simp: jz_aip_v20_bo_destroy_def Let_def intro: bo_inv_remove split: if_splits option.splits)

text \<open>What a walk over the entries \<open>es\<close> removes.\<close>

definition bo_gone :: "int \<Rightarrow> bo_ptr idr \<Rightarrow> bo_state \<Rightarrow> (int \<times> bo_ptr) set" where
  "bo_gone pid es b = {(i, p) \<in> set es. map_option bo_pid (bo_objs b p) = Some pid}"

lemma bo_release_walk_Inr:
  assumes "distinct (map snd es)" "snd ` set es \<subseteq> dom (bo_objs b)"
  shows "\<exists>b'. bo_release_walk pid es b = Inr b' \<and>
    bo_handles b' = filter (\<lambda>(i, _). i \<notin> fst ` bo_gone pid es b) (bo_handles b) \<and>
    bo_objs b' = bo_objs b |` (- snd ` bo_gone pid es b) \<and> bo_next b' = bo_next b \<and> kmem b' = kmem b"
  using assms
proof (induction es arbitrary: b)
  case Nil
  show ?case by (simp add: bo_gone_def restrict_map_def)
next
  case (Cons e es)
  obtain i p where e: "e = (i, p)" by (cases e)
  obtain bo where bo: "bo_objs b p = Some bo" using Cons.prems(2) e by auto
  define b1 where "b1 = (if bo_pid bo = pid
    then (jz_aip_v20_bo_remove p b)\<lparr>bo_handles := idr_remove i (bo_handles b)\<rparr> else b)"
  have p: "p \<notin> snd ` set es" using Cons.prems(1) e by simp
  have b1: "bo_objs b1 = (if bo_pid bo = pid then (bo_objs b)(p := None) else bo_objs b)"
    "bo_handles b1 = (if bo_pid bo = pid then idr_remove i (bo_handles b) else bo_handles b)"
    "bo_next b1 = bo_next b" "kmem b1 = kmem b"
    by (simp_all add: b1_def)
  have same: "bo_objs b1 q = bo_objs b q" if "q \<in> snd ` set es" for q
    using that p by (auto simp: b1)
  then have gone: "bo_gone pid (e # es) b = (if bo_pid bo = pid then {(i, p)} else {}) \<union> bo_gone pid es b1"
    using bo e by (force simp: bo_gone_def)
  have "snd ` set es \<subseteq> dom (bo_objs b1)"
    using Cons.prems(2) same by (force simp: dom_def)
  with Cons.IH [of b1] Cons.prems(1) obtain b' where b': "bo_release_walk pid es b1 = Inr b'"
    "bo_handles b' = filter (\<lambda>(i, _). i \<notin> fst ` bo_gone pid es b1) (bo_handles b1)"
    "bo_objs b' = bo_objs b1 |` (- snd ` bo_gone pid es b1)" "bo_next b' = bo_next b1" "kmem b' = kmem b1"
    by auto
  have "bo_release_walk pid (e # es) b = Inr b'"
    using e bo b'(1) by (simp add: bo_ref_def b1_def)
  moreover have "bo_handles b' = filter (\<lambda>(i, _). i \<notin> fst ` bo_gone pid (e # es) b) (bo_handles b)"
    unfolding b'(2) b1 gone idr_remove_def
    by (cases "bo_pid bo = pid") (auto intro!: filter_cong)
  moreover have "bo_objs b' = bo_objs b |` (- snd ` bo_gone pid (e # es) b)"
    unfolding b'(3) b1 gone by (cases "bo_pid bo = pid") (auto simp: restrict_map_def fun_eq_iff)
  ultimately show ?case using b' b1 by auto
qed

lemma unat_or_page: fixes y :: u32 shows "unat (y OR 0xfff) = unat y div 4096 * 4096 + 4095"
proof -
  have m: "(4095 :: nat) = mask 12" by (simp add: mask_eq_exp_minus_1)
  have "unat (y OR 0xfff) = unat y OR 4095" by (simp add: unsigned_or_eq)
  also have "\<dots> = push_bit 12 (drop_bit 12 (unat y)) OR mask 12"
    unfolding m by (rule bit_eqI) (auto simp: bit_simps not_less)
  also have "\<dots> = push_bit 12 (drop_bit 12 (unat y)) + mask 12"
    by (rule disjunctive_add_eq_or [symmetric], rule bit_eqI) (auto simp: bit_simps)
  also have "\<dots> = unat y div 4096 * 4096 + 4095"
    by (simp add: push_bit_eq_mult drop_bit_eq_div mask_eq_exp_minus_1)
  finally show ?thesis .
qed
lemma unat_page_round_up: "unat (page_round_up x) = (unat x + 4095) div 4096 * 4096 mod 2 ^ 32"
proof (cases "x = 0")
  case True
  then show ?thesis by (simp add: page_round_up_def)
next
  case False
  then have "unat (x - 1) = unat x - 1" "0 < unat x" by (simp_all add: unat_minus_one unat_gt_0)
  then have "unat ((x - 1) OR 0xfff) + 1 = ((unat x - 1) + 1 * 4096) div 4096 * 4096"
    unfolding unat_or_page by (simp only: div_mult_self1) simp
  also have "(unat x - 1) + 1 * 4096 = unat x + 4095" using \<open>0 < unat x\<close> by simp
  finally have "unat ((x - 1) OR 0xfff) + 1 = (unat x + 4095) div 4096 * 4096" .
  then show ?thesis unfolding page_round_up_def unat_word_ariths(1) by simp
qed

lemma bo_leaked_iff: "p \<in> bo_leaked b \<longleftrightarrow> bo_objs b p \<noteq> None \<and> (\<forall>i. (i, p) \<notin> set (bo_handles b))"
  by (force simp: bo_leaked_def)

lemma bo_release_inv:
  assumes "bo_inv b"
  shows "\<exists>b'. jz_aip_v20_bo_release pid b = Inr b' \<and> bo_inv b' \<and>
    (\<forall>h. bo_owner b' h = (if bo_owner b h = Some pid then None else bo_owner b h)) \<and>
    bo_leaked b' = bo_leaked b"
proof -
  let ?h = "bo_handles b" and ?gone = "bo_gone pid (bo_handles b) b"
  have wf: "idr_wf ?h" "distinct (map snd ?h)" "distinct (map fst ?h)" "snd ` set ?h \<subseteq> dom (bo_objs b)"
    "dom (bo_objs b) \<subseteq> {..< bo_next b}"
    using assms by (auto simp: bo_inv_def idr_wf_def)
  from bo_release_walk_Inr [OF wf(2,4), of pid] obtain b' where
    b': "jz_aip_v20_bo_release pid b = Inr b'"
    and h': "bo_handles b' = filter (\<lambda>(i, _). i \<notin> fst ` ?gone) ?h"
    and o': "bo_objs b' = bo_objs b |` (- snd ` ?gone)" and next_eq: "bo_next b' = bo_next b"
    unfolding jz_aip_v20_bo_release_def by blast
  have gone_h: "?gone \<subseteq> set ?h" by (auto simp: bo_gone_def)
  have by_id: "i \<in> fst ` ?gone \<longleftrightarrow> (i, p) \<in> ?gone" if "(i, p) \<in> set ?h" for i p
  proof
    assume "i \<in> fst ` ?gone"
    then obtain q where q: "(i, q) \<in> ?gone" by auto
    with gone_h have "(i, q) \<in> set ?h" by blast
    from eq_key_imp_eq_value [OF wf(3) that this] have "q = p" by simp
    with q show "(i, p) \<in> ?gone" by simp
  qed force
  have by_ptr: "p \<in> snd ` ?gone \<longleftrightarrow> (i, p) \<in> ?gone" if "(i, p) \<in> set ?h" for i p
  proof
    assume "p \<in> snd ` ?gone"
    then obtain j where "(j, p) \<in> ?gone" by auto
    moreover have "j = i"
      using calculation gone_h that wf(2) by (fastforce simp: distinct_map inj_on_def)
    ultimately show "(i, p) \<in> ?gone" by simp
  qed force
  have set_h': "set (bo_handles b') = set ?h - ?gone"
    unfolding h' using by_id by auto
  have "bo_inv b'"
    unfolding bo_inv_def next_eq
  proof (intro conjI)
    show "idr_wf (bo_handles b')" unfolding h' using wf(1) by (rule idr_wf_filter)
    show "distinct (map snd (bo_handles b'))" unfolding h' using wf(2) by (rule distinct_map_filter)
    show "snd ` set (bo_handles b') \<subseteq> dom (bo_objs b')"
      unfolding set_h' o' using wf(4) by_ptr by force
    show "dom (bo_objs b') \<subseteq> {..< bo_next b}" unfolding o' using wf(5) by auto
  qed
  moreover have "bo_owner b' h = (if bo_owner b h = Some pid then None else bo_owner b h)" for h
  proof (cases "idr_find ?h h")
    case None
    then have "idr_find (bo_handles b') h = None" unfolding h' by (simp add: idr_find_filter wf(1))
    with None show ?thesis by (simp add: bo_owner_def)
  next
    case (Some p)
    then have hp: "(h, p) \<in> set ?h" by (simp add: idr_find_def map_of_SomeD)
    then have mem: "(h, p) \<in> ?gone \<longleftrightarrow> bo_owner b h = Some pid"
      using Some by (simp add: bo_gone_def bo_owner_def)
    show ?thesis
      using Some by_id [OF hp] by_ptr [OF hp] mem
      by (auto simp: bo_owner_def h' o' idr_find_filter wf(1))
  qed
  moreover have "bo_leaked b' = bo_leaked b"
  proof (rule set_eqI)
    fix p
    show "p \<in> bo_leaked b' \<longleftrightarrow> p \<in> bo_leaked b"
    proof (cases "\<exists>i. (i, p) \<in> set ?h")
      case True
      then obtain i where i: "(i, p) \<in> set ?h" by blast
      then have "p \<notin> bo_leaked b" by (auto simp: bo_leaked_iff)
      moreover have "p \<notin> bo_leaked b'"
        using i by_ptr [OF i] set_h' by (auto simp: bo_leaked_iff o' restrict_map_def)
      ultimately show ?thesis by simp
    next
      case False
      then have "p \<notin> snd ` ?gone" using gone_h by auto
      with False set_h' show ?thesis by (simp add: bo_leaked_iff o' restrict_map_def)
    qed
  qed
  ultimately show ?thesis using b' by blast
qed

section \<open>Sequences of calls\<close>

datatype bo_call = Bo_ioctl env "(u32 \<times> u32) option" ioctl_bo | Bo_release int

fun run_bo :: "bool \<Rightarrow> (bo_ptr idr \<Rightarrow> int) \<Rightarrow> bo_call list \<Rightarrow> bo_state \<Rightarrow> fault + bo_state" where
  "run_bo debug alloc [] b = Inr b"
| "run_bo debug alloc (Bo_ioctl ev dma dat # cs) b =
     res_bind (jz_aip_v20_bo debug ev dma alloc dat b) (\<lambda>(_, _, b). run_bo debug alloc cs b)"
| "run_bo debug alloc (Bo_release pid # cs) b =
     res_bind (jz_aip_v20_bo_release pid b) (run_bo debug alloc cs)"

lemma bo_ioctl_inv:
  assumes "bo_inv b" "idr_alloc_ok alloc" "jz_aip_v20_bo debug ev dma alloc dat b = Inr (r, dat', b')"
  shows "bo_inv b'"
  using assms by (auto simp: jz_aip_v20_bo_def res_bind_Inr_iff split: bo_op.splits
      intro: bo_append_inv bo_destroy_inv)

lemma bo_append_returns:
  "bo_inv b \<Longrightarrow> \<exists>x. jz_aip_v20_bo_append ev dma alloc dat b = Inr x"
  by (auto simp: jz_aip_v20_bo_append_def jz_aip_v20_bo_create_def Let_def bo_ref_def split: option.splits)

lemma bo_ioctl_returns: "bo_inv b \<Longrightarrow> \<exists>x. jz_aip_v20_bo False ev dma alloc dat b = Inr x"
  using bo_append_returns [of b ev dma alloc dat]
  by (auto simp: jz_aip_v20_bo_def jz_aip_v20_bo_destroy_def Let_def split: bo_op.splits option.splits)

lemma run_bo_inv:
  assumes "bo_inv b" "idr_alloc_ok alloc"
  shows "\<exists>b'. run_bo False alloc cs b = Inr b' \<and> bo_inv b'"
  using assms(1)
proof (induction cs arbitrary: b)
  case (Cons c cs)
  show ?case
  proof (cases c)
    case (Bo_ioctl ev dma dat)
    from bo_ioctl_returns [OF Cons.prems] obtain r dat' b1
      where b1: "jz_aip_v20_bo False ev dma alloc dat b = Inr (r, dat', b1)" by (metis prod_cases3)
    with Cons.IH [OF bo_ioctl_inv [OF Cons.prems assms(2) b1]] Bo_ioctl show ?thesis by simp
  next
    case (Bo_release pid)
    obtain b1 where "jz_aip_v20_bo_release pid b = Inr b1" "bo_inv b1"
      using bo_release_inv [OF Cons.prems] by blast
    with Bo_release Cons.IH [of b1] show ?thesis by simp
  qed
qed simp

text \<open>A leaked object stays leaked: no call can reach it.\<close>

lemma bo_append_keeps_leak:
  assumes "bo_inv b" "p \<in> bo_leaked b" "jz_aip_v20_bo_append ev dma alloc dat b = Inr (r, dat', b')"
  shows "p \<in> bo_leaked b'"
proof -
  have "p \<noteq> bo_next b" using assms(2) bo_next_fresh [OF assms(1)] by (auto simp: bo_leaked_iff)
  with assms(2,3) show ?thesis
    by (auto simp: jz_aip_v20_bo_append_def jz_aip_v20_bo_create_def Let_def bo_ref_def bo_leaked_iff
        idr_insert_def split: if_splits option.splits)
qed

lemma bo_destroy_keeps_leak:
  assumes "p \<in> bo_leaked b" "jz_aip_v20_bo_destroy debug dat b = Inr (r, b')"
  shows "p \<in> bo_leaked b'"
proof -
  have "p \<noteq> q" if "idr_find (bo_handles b) i = Some q" for i q
    using that assms(1) by (auto simp: bo_leaked_iff idr_find_def dest: map_of_SomeD)
  with assms show ?thesis
    by (auto simp: jz_aip_v20_bo_destroy_def Let_def bo_leaked_iff idr_remove_def
        split: if_splits option.splits)
qed

lemma run_bo_keeps_leak:
  assumes "bo_inv b" "idr_alloc_ok alloc" "p \<in> bo_leaked b" "run_bo debug alloc cs b = Inr b'"
  shows "p \<in> bo_leaked b'"
  using assms(1,3,4)
proof (induction cs arbitrary: b)
  case (Cons c cs)
  show ?case
  proof (cases c)
    case (Bo_ioctl ev dma dat)
    with Cons.prems(3) obtain r dat' b1
      where b1: "jz_aip_v20_bo debug ev dma alloc dat b = Inr (r, dat', b1)"
        and rest: "run_bo debug alloc cs b1 = Inr b'"
      by (auto simp: res_bind_Inr_iff)
    have "p \<in> bo_leaked b1"
      using b1 Cons.prems(2) by (auto simp: jz_aip_v20_bo_def res_bind_Inr_iff split: bo_op.splits
          intro: bo_append_keeps_leak [OF Cons.prems(1)] bo_destroy_keeps_leak)
    with Cons.IH [OF bo_ioctl_inv [OF Cons.prems(1) assms(2) b1]] rest show ?thesis by blast
  next
    case (Bo_release pid)
    obtain b1 where b1: "jz_aip_v20_bo_release pid b = Inr b1" "bo_inv b1" "bo_leaked b1 = bo_leaked b"
      using bo_release_inv [OF Cons.prems(1)] by blast
    with Bo_release Cons.prems(2,3) Cons.IH [of b1] show ?thesis by simp
  qed
qed simp

section \<open>Properties\<close>

lemma sample_bos_inv: "bo_inv sample_bos"
  by (simp add: bo_inv_def sample_bos_def idr_wf_def)

definition sample_append :: ioctl_bo where
  "sample_append = \<lparr>bo_op = AIP_BO_OP_APPEND, io_size = 5000, io_handle = 0, io_paddr = 0\<rparr>"

text \<open>C32. The table of buffer objects stays well formed whatever is called, and (with
  debug messages off) every call returns: handles stay distinct and positive,
  each names its own live object, and no object number is used twice.\<close>

theorem bo_table_invariant:
  assumes "bo_inv b" "idr_alloc_ok alloc"
  shows "\<exists>b'. run_bo False alloc cs b = Inr b' \<and> bo_inv b'"
  using assms by (rule run_bo_inv)

theorem bo_table_invariant_witness:
  "\<exists>b'. run_bo False first_id [Bo_ioctl sample_env (Some (0x82000000, 0x2000)) sample_append,
     Bo_release 7] sample_bos = Inr b' \<and> bo_inv b'"
  by (rule bo_table_invariant [OF sample_bos_inv first_id_ok])

text \<open>The kernel's rounding of a requested size: the next multiple of a page, with
  32-bit wrap-around; so exactly the requests of more than \<open>0xfffff000\<close> bytes get a
  smaller object than they ask for, one of 0 bytes.\<close>

theorem page_round_up_spec:
  "unat (page_round_up x) = (unat x + 4095) div 4096 * 4096 mod 2 ^ 32 \<and>
   (page_round_up x < x \<longleftrightarrow> 0xfffff000 < x) \<and>
   (page_round_up x = 0 \<longleftrightarrow> x = 0 \<or> 0xfffff000 < x)"
proof -
  have fits: "unat (page_round_up x) = (unat x + 4095) div 4096 * 4096" if "x \<le> 0xfffff000"
  proof -
    have "unat x \<le> 0xfffff000" using that by (simp add: word_le_nat_alt)
    then have "(unat x + 4095) div 4096 * 4096 < 2 ^ 32" by simp
    then show ?thesis unfolding unat_page_round_up by (rule mod_less)
  qed
  have big: "page_round_up x = 0" if "0xfffff000 < x"
  proof -
    have "0xfffff000 < unat x" using that by (simp add: word_less_nat_alt)
    moreover have "unat x < 2 ^ 32" using unsigned_less [of x] by simp
    ultimately have "(unat x + 4095) div 4096 = 1048576" by simp
    then have "unat (page_round_up x) = 0" unfolding unat_page_round_up by simp
    then show ?thesis by (simp add: unat_eq_0)
  qed
  have "page_round_up x < x \<longleftrightarrow> 0xfffff000 < x"
  proof (cases "0xfffff000 < x")
    case True
    moreover from True have "0 < x" by (rule le_less_trans [OF word_zero_le])
    ultimately show ?thesis using big by simp
  next
    case False
    then have "unat x \<le> unat (page_round_up x)" using fits by (simp add: not_less)
    with False show ?thesis by (simp add: word_less_nat_alt)
  qed
  moreover have "page_round_up x = 0 \<longleftrightarrow> x = 0 \<or> 0xfffff000 < x"
  proof (cases "0xfffff000 < x")
    case False
    then have "unat (page_round_up x) = 0 \<longleftrightarrow> unat x = 0" using fits by (simp add: not_less div_eq_0_iff)
    with False show ?thesis by (simp add: unat_eq_0)
  qed (simp add: big)
  ultimately show ?thesis using unat_page_round_up by blast
qed

lemma bo_append_then_destroy:
  assumes "bo_inv b" "idr_alloc_ok alloc"
    "jz_aip_v20_bo_append ev (Some (va, pa)) alloc dat b = Inr (0, dat', b1)"
  shows "1 \<le> io_handle dat' \<and> bo_owner b (io_handle dat') = None \<and>
    io_paddr dat' = pa \<and>
    idr_find (bo_handles b1) (io_handle dat') = Some (bo_next b) \<and>
    bo_objs b1 (bo_next b) = Some \<lparr>bo_pid = cur_tgid ev, bo_vaddr = va, bo_dma = pa,
      bo_size = page_round_up (io_size dat)\<rparr> \<and>
    (\<forall>h. h \<noteq> io_handle dat' \<longrightarrow> bo_owner b1 h = bo_owner b h) \<and>
    (\<exists>b2. jz_aip_v20_bo_destroy False dat' b1 = Inr (0, b2) \<and> bo_handles b2 = bo_handles b \<and>
       bo_objs b2 = bo_objs b)"
proof -
  let ?h = "alloc (bo_handles b)"
  have r: "\<not> ?h < 0" and dat': "dat' = dat\<lparr>io_paddr := pa, io_handle := ?h\<rparr>"
    and b1: "bo_handles b1 = idr_insert ?h (bo_next b) (bo_handles b)"
      "bo_objs b1 = (bo_objs b)(bo_next b \<mapsto> \<lparr>bo_pid = cur_tgid ev, bo_vaddr = va, bo_dma = pa,
        bo_size = page_round_up (io_size dat)\<rparr>)"
    using assms(3) by (auto simp: jz_aip_v20_bo_append_def jz_aip_v20_bo_create_def Let_def
        bo_ref_def EINVAL_def split: if_splits option.splits)
  have fresh: "1 \<le> ?h" "idr_find (bo_handles b) ?h = None"
    using assms(2) r by (auto simp: idr_alloc_ok_def)
  have find: "idr_find (bo_handles b1) h = (if h = ?h then Some (bo_next b) else idr_find (bo_handles b) h)" for h
    by (simp add: b1 idr_find_insert [OF fresh(2)])
  have other: "bo_owner b1 h = bo_owner b h" if "h \<noteq> ?h" for h
  proof -
    have "p \<noteq> bo_next b" if "idr_find (bo_handles b) h = Some p" for p
      using bo_inv_find [OF assms(1) that] by auto
    with that show ?thesis by (auto simp: bo_owner_def find b1(2) split: option.splits)
  qed
  have "idr_remove ?h (bo_handles b1) = bo_handles b"
    using fresh(2) idr_remove_unknown [OF fresh(2)] by (simp add: b1 idr_insert_def idr_remove_def)
  moreover have "(bo_objs b1)(bo_next b := None) = bo_objs b"
    using bo_next_fresh [OF assms(1)] by (auto simp: b1(2) dom_def)
  ultimately have "\<exists>b2. jz_aip_v20_bo_destroy False dat' b1 = Inr (0, b2) \<and>
      bo_handles b2 = bo_handles b \<and> bo_objs b2 = bo_objs b"
    by (simp add: jz_aip_v20_bo_destroy_def dat' find)
  with fresh other find b1(2) dat' show ?thesis by (simp add: bo_owner_def)
qed

text \<open>A buffer object's life: a successful append returns a fresh positive handle
  owned by the calling process, for a live object of the rounded size at the
  allocator's address, and leaves every other handle alone; destroying that
  handle puts table and objects back to what they were.\<close>

theorem bo_append_destroy:
  assumes "bo_inv b" "idr_alloc_ok alloc"
    "jz_aip_v20_bo_append ev (Some (va, pa)) alloc dat b = Inr (0, dat', b1)"
  shows "1 \<le> io_handle dat' \<and> bo_owner b (io_handle dat') = None \<and>
    io_paddr dat' = pa \<and>
    idr_find (bo_handles b1) (io_handle dat') = Some (bo_next b) \<and>
    bo_objs b1 (bo_next b) = Some \<lparr>bo_pid = cur_tgid ev, bo_vaddr = va, bo_dma = pa,
      bo_size = page_round_up (io_size dat)\<rparr> \<and>
    (\<forall>h. h \<noteq> io_handle dat' \<longrightarrow> bo_owner b1 h = bo_owner b h) \<and>
    (\<exists>b2. jz_aip_v20_bo_destroy False dat' b1 = Inr (0, b2) \<and> bo_handles b2 = bo_handles b \<and>
       bo_objs b2 = bo_objs b)"
  by (rule bo_append_then_destroy [OF assms])

theorem bo_append_destroy_witness:
  "\<exists>dat' b1. jz_aip_v20_bo_append sample_env (Some (0x82000000, 0x2000)) first_id sample_append
      sample_bos = Inr (0, dat', b1) \<and> io_handle dat' = 2 \<and>
    (\<exists>b2. jz_aip_v20_bo_destroy False dat' b1 = Inr (0, b2) \<and> bo_handles b2 = [(1, 0)])"
proof -
  let ?dat = "sample_append\<lparr>io_paddr := 0x2000, io_handle := 2\<rparr>"
  let ?bo = "\<lparr>bo_pid = 7, bo_vaddr = 0x82000000, bo_dma = 0x2000, bo_size = page_round_up 5000\<rparr>"
  have run: "jz_aip_v20_bo_append sample_env (Some (0x82000000, 0x2000)) first_id sample_append
      sample_bos = Inr (0, ?dat, sample_bos\<lparr>bo_objs := (bo_objs sample_bos)(1 \<mapsto> ?bo), bo_next := 2,
        bo_handles := [(1, 0), (2, 1)]\<rparr>)"
    by (simp add: jz_aip_v20_bo_append_def jz_aip_v20_bo_create_def Let_def sample_env_def bo_ref_def
        sample_append_def first_id_def idr_insert_def sample_bos_def)
  from bo_append_destroy [OF sample_bos_inv first_id_ok run] run show ?thesis by auto
qed

text \<open>Closing the device frees exactly the process's own buffer objects: every
  handle of another owner still names its object, and nothing is leaked by it.\<close>

theorem bo_release_own_only:
  assumes "bo_inv b"
  shows "\<exists>b'. jz_aip_v20_bo_release pid b = Inr b' \<and> bo_inv b' \<and>
    (\<forall>h. bo_owner b' h = (if bo_owner b h = Some pid then None else bo_owner b h)) \<and>
    bo_leaked b' = bo_leaked b"
  by (rule bo_release_inv [OF assms])

theorem bo_release_own_only_witness:
  "\<exists>b'. jz_aip_v20_bo_release 7 sample_bos = Inr b' \<and> bo_owner b' 1 = None"
proof -
  have "bo_owner sample_bos 1 = Some 7" by (simp add: bo_owner_def idr_find_def)
  with bo_release_own_only [OF sample_bos_inv, of 7] show ?thesis by auto
qed

text \<open>When the DMA allocator fails, the object's record is leaked: the append fails,
  and whatever is called afterwards, no call ever frees it.\<close>

theorem bo_create_leaks:
  assumes "bo_inv b" "idr_alloc_ok alloc" "kmalloc_ok ev"
  shows "\<exists>b1. jz_aip_v20_bo_append ev None alloc dat b = Inr (- EINVAL, dat, b1) \<and>
    bo_next b \<in> bo_leaked b1 \<and>
    (\<forall>debug cs b2. run_bo debug alloc cs b1 = Inr b2 \<longrightarrow> bo_next b \<in> bo_leaked b2)"
proof -
  let ?bo = "\<lparr>bo_pid = cur_tgid ev, bo_vaddr = 0, bo_dma = 0, bo_size = page_round_up (io_size dat)\<rparr>"
  let ?b1 = "b\<lparr>bo_objs := (bo_objs b)(bo_next b \<mapsto> ?bo), bo_next := bo_next b + 1\<rparr>"
  have run: "jz_aip_v20_bo_append ev None alloc dat b = Inr (- EINVAL, dat, ?b1)"
    using assms(3) by (simp add: jz_aip_v20_bo_append_def jz_aip_v20_bo_create_def Let_def)
  moreover have "bo_next b \<in> bo_leaked ?b1"
    using bo_next_fresh [OF assms(1)] by (force simp: bo_leaked_iff)
  ultimately show ?thesis
    using run_bo_keeps_leak [OF bo_append_inv [OF assms(1,2) run] assms(2)] by blast
qed

theorem bo_create_leaks_witness:
  "\<exists>b1. jz_aip_v20_bo_append sample_env None first_id sample_append sample_bos =
      Inr (- EINVAL, sample_append, b1) \<and> 1 \<in> bo_leaked b1"
proof -
  have "kmalloc_ok sample_env" "bo_next sample_bos = 1" by (simp_all add: sample_env_def sample_bos_def)
  with bo_create_leaks [OF sample_bos_inv first_id_ok, of sample_env sample_append] show ?thesis by auto
qed

text \<open>In a debug build no destroy call survives: the message after it reads the
  object that was freed, or a NULL pointer for an unknown handle.\<close>

theorem bo_destroy_debug_faults:
  "jz_aip_v20_bo_destroy True dat b =
     Inl (if idr_find (bo_handles b) (io_handle dat) = None then Null_deref else Use_after_free)"
  by (simp add: jz_aip_v20_bo_destroy_def Let_def split: option.split)

end
