(* ===== verification/IaicBo.thy ===== *)
theory IaicBo
  imports Bo
begin

text \<open>
  The user library's memory, \<open>lib/src/iaic_bo.c\<close> with \<open>lib/include/iaic_core.h\<close> and
  \<open>lib/include/iaic_list.h\<close>: buffer objects of the driver cut into blocks. The pool is
  the list \<open>bo_list\<close> of block pointers and the heap \<open>blocks\<close> they point to; a pointer
  whose block was freed is not in the heap any more. The system calls are a parameter
  (\<open>sys\<close>), and what the pool needs of the driver is the contract \<open>bo_driver\<close>, which
  the buffer objects of \<open>drive/jz_aip_v20_bo.c\<close> satisfy.
\<close>

section \<open>Types\<close>

datatype iaic_ret_code = IAIC_CODE_OK | IAIC_CODE_NO_AIP_DEVICE | IAIC_CODE_NO_MEM_DEVICE
  | IAIC_CODE_CTX_DEINIT | IAIC_CODE_CTX_DESTROY_FAIL | IAIC_CODE_BO_CREATE_FAIL
  | IAIC_CODE_BO_CREATE_MMAP_FAIL | IAIC_CODE_BO_CREATE_EXT_FAIL | IAIC_CODE_BO_DESTROY_FAIL
  | IAIC_CODE_NNA_STATUS_FAIL | IAIC_CODE_NNA_ORAM_INIT_FAIL | IAIC_CODE_NNA_DMA_INIT_FAIL
  | IAIC_CODE_NNA_DMA_DESRAM_INIT_FAIL | IAIC_CODE_NNA_ORAM_ALLOC_FAIL
  | IAIC_CODE_NNA_ORAM_FREE_FAIL | IAIC_CODE_NNA_MUTEX_LOCK_FAIL
  | IAIC_CODE_NNA_MUTEX_UNLOCK_FAIL | IAIC_CODE_AIP_F_SUBMIT_FAIL | IAIC_CODE_AIP_P_SUBMIT_FAIL
  | IAIC_CODE_AIP_T_SUBMIT_FAIL | IAIC_CODE_AIP_WAIT_FAIL | IAIC_CODE_AIP_T_CLOSE_FAIL
  | IAIC_CODE_DRV_VERSION_NOMATCH | IAIC_CODE_LIB_VERSION_NOMATCH
  | IAIC_CODE_AIP_CACHE_FLUSH_FAIL | IAIC_CODE_CPU_FAST_IOB_INIT_FAIL | IAIC_CODE_INIT_FAIL
  | IAIC_CODE_SPIN_LOCK_FAIL | IAIC_CODE_SPIN_UNLOCK_FAIL | IAIC_CODE_other int

text \<open>\<open>block_t\<close>; its place in the list is the list's business, and \<open>brother\<close> is never read.\<close>

record block =
  blk_size :: u32
  idle :: bool
  is_bo :: bool
  blk_handle :: int
  blk_paddr :: u32
  blk_vaddr :: u32

record iaic_bo =
  ib_size :: u32
  ib_esize :: u32
  ib_handle :: int
  ib_paddr :: u32
  ib_vaddr :: u32
  ib_evaddr :: u32

text \<open>
  The part of \<open>iaic_ctx_t\<close> the pool uses. \<open>lock_word\<close> is the first word of
  \<open>mutex_lock\<close>, nonzero while the mutex is held. The list's head is the field \<open>bo_list\<close>
  of the context; taken for a block, as the loops below sometimes do, its \<open>idle\<close>
  lies behind \<open>bo_list\<close> (two words) and \<open>thread\<close> (one word): it is \<open>lock_word\<close>.
\<close>

record iaic_pool =
  max_mem_size :: u32
  bo_list :: "nat list"
  blocks :: "nat \<rightharpoonup> block"
  blk_next :: nat
  lock_word :: bool

text \<open>The system calls: the ioctl of the driver, \<open>mmap\<close> of a physical address through
  \<open>/dev/mem\<close>, and whether \<open>malloc\<close> succeeds.\<close>

record 'd sys =
  sys_bo :: "ioctl_bo \<Rightarrow> 'd \<Rightarrow> fault + (int \<times> ioctl_bo \<times> 'd)"
  sys_mmap :: "u32 \<Rightarrow> u32 \<Rightarrow> u32"
  sys_malloc :: bool

definition MAP_FAILED :: u32 where "MAP_FAILED = - 1"

definition EAGAIN :: int where "EAGAIN = 11"

text \<open>\<open>iaic_ioctl\<close> repeats a call that was interrupted; \<open>fuel\<close> bounds the repetitions.\<close>

fun iaic_ioctl :: "nat \<Rightarrow> ('a \<Rightarrow> 'd \<Rightarrow> fault + (int \<times> 'a \<times> 'd)) \<Rightarrow> 'a \<Rightarrow> 'd \<Rightarrow> fault + (int \<times> 'a \<times> 'd)" where
  "iaic_ioctl 0 call arg d = Inl Spins"
| "iaic_ioctl (Suc fuel) call arg d = res_bind (call arg d) (\<lambda>(r, arg, d).
     if r = - EINTR \<or> r = - EAGAIN then iaic_ioctl fuel call arg d else Inr (r, arg, d))"

lemma iaic_ioctl_once:
  "call arg d = Inr (r, arg', d') \<Longrightarrow> r \<noteq> - EINTR \<Longrightarrow> r \<noteq> - EAGAIN \<Longrightarrow> 0 < fuel \<Longrightarrow>
   iaic_ioctl fuel call arg d = Inr (r, arg', d')"
  by (cases fuel) simp_all

text \<open>More repetitions do not change a result.\<close>

lemma iaic_ioctl_mono:
  "iaic_ioctl fuel call arg d = Inr x \<Longrightarrow> fuel \<le> fuel' \<Longrightarrow> iaic_ioctl fuel' call arg d = Inr x"
proof (induction fuel arbitrary: fuel' arg d)
  case (Suc fuel)
  from Suc.prems(2) obtain k where k: "fuel' = Suc k" "fuel \<le> k" by (cases fuel') auto
  show ?case
  proof (cases "call arg d")
    case (Inr y)
    obtain r arg1 d1 where y: "y = (r, arg1, d1)" by (cases y)
    show ?thesis
    proof (cases "r = - EINTR \<or> r = - EAGAIN")
      case True
      with Inr y Suc.prems(1) have "iaic_ioctl fuel call arg1 d1 = Inr x" by auto
      with Suc.IH k(2) True Inr y show ?thesis by (simp add: k(1))
    qed (use Inr y Suc.prems(1) in \<open>auto simp: k(1)\<close>)
  qed (use Suc.prems(1) in simp)
qed simp

section \<open>The pool\<close>

definition pool_lock :: "iaic_pool \<Rightarrow> fault + iaic_pool" where
  "pool_lock c = (if lock_word c then Inl Sleeps else Inr (c\<lparr>lock_word := True\<rparr>))"

definition pool_unlock :: "iaic_pool \<Rightarrow> iaic_pool" where
  "pool_unlock c = c\<lparr>lock_word := False\<rparr>"

definition create_bo_node :: "nat \<Rightarrow> 'd sys \<Rightarrow> u32 \<Rightarrow> iaic_pool \<Rightarrow> 'd \<Rightarrow>
    fault + (iaic_ret_code \<times> iaic_pool \<times> 'd)" where
  "create_bo_node fuel sys sz c d =
     res_bind (iaic_ioctl fuel (sys_bo sys)
         \<lparr>bo_op = AIP_BO_OP_APPEND, io_size = sz, io_handle = 0, io_paddr = 0\<rparr> d) (\<lambda>(_, io, d).
     if io_handle io = 0 then Inr (IAIC_CODE_other (- 1), c, d)
     else if \<not> sys_malloc sys then Inl Null_deref
     else
       let new = \<lparr>blk_size = io_size io, idle = True, is_bo = True, blk_handle = io_handle io,
                  blk_paddr = io_paddr io, blk_vaddr = sys_mmap sys sz (io_paddr io)\<rparr>;
           p = blk_next c
       in res_bind (pool_lock c) (\<lambda>c.
          Inr (IAIC_CODE_OK, pool_unlock (c\<lparr>bo_list := bo_list c @ [p],
            blocks := (blocks c)(p \<mapsto> new), blk_next := p + 1\<rparr>), d)))"

text \<open>The loop of \<open>iaic_fast_alloc_bo\<close>: the first idle block that is large enough.\<close>

fun find_fit :: "(nat \<rightharpoonup> block) \<Rightarrow> u32 \<Rightarrow> nat list \<Rightarrow> fault + (nat \<times> block) option" where
  "find_fit h n [] = Inr None"
| "find_fit h n (p # ps) = (case h p of
     None \<Rightarrow> Inl Use_after_free
   | Some b \<Rightarrow> if idle b \<and> n \<le> blk_size b then Inr (Some (p, b)) else find_fit h n ps)"

text \<open>\<open>aip_list_add\<close>: \<open>q\<close> comes right after \<open>p\<close>.\<close>

fun add_after :: "nat \<Rightarrow> nat \<Rightarrow> nat list \<Rightarrow> nat list" where
  "add_after p q [] = []"
| "add_after p q (r # rs) = (if r = p then r # q # rs else r # add_after p q rs)"

definition split_block :: "u32 \<Rightarrow> nat \<Rightarrow> block \<Rightarrow> iaic_pool \<Rightarrow> iaic_pool" where
  "split_block n p b c = (let q = blk_next c;
       rest = \<lparr>blk_size = blk_size b - n, idle = True, is_bo = False, blk_handle = blk_handle b,
               blk_paddr = blk_paddr b + n, blk_vaddr = blk_vaddr b + n\<rparr>
     in c\<lparr>bo_list := add_after p q (bo_list c),
          blocks := (blocks c)(p \<mapsto> b\<lparr>blk_size := n\<rparr>, q \<mapsto> rest), blk_next := q + 1\<rparr>)"

text \<open>\<open>iaic_get_bo_free\<close>: the size of the last idle block; when there is none it is the
  \<open>thread\<close> field of the context, read as a size.\<close>

fun last_idle :: "(nat \<rightharpoonup> block) \<Rightarrow> nat list \<Rightarrow> fault + u32 option" where
  "last_idle h [] = Inr None"
| "last_idle h (p # ps) = (case h p of
     None \<Rightarrow> Inl Use_after_free
   | Some b \<Rightarrow> if idle b then Inr (Some (blk_size b)) else last_idle h ps)"

definition iaic_get_bo_free :: "u32 \<Rightarrow> iaic_pool \<Rightarrow> fault + u32" where
  "iaic_get_bo_free thread c = res_bind (last_idle (blocks c) (rev (bo_list c)))
     (\<lambda>r. Inr (case r of None \<Rightarrow> thread | Some n \<Rightarrow> n))"

definition align_64 :: "u32 \<Rightarrow> u32" where
  "align_64 sz = (sz + 63) AND NOT 63"

definition bo_of_block :: "u32 \<Rightarrow> block \<Rightarrow> iaic_bo" where
  "bo_of_block sz b = \<lparr>ib_size = sz, ib_esize = blk_size b, ib_handle = blk_handle b,
     ib_paddr = blk_paddr b, ib_vaddr = blk_vaddr b, ib_evaddr = blk_vaddr b\<rparr>"

text \<open>When the loop finds nothing, the list's head is taken for a block and marked as
  used: that clears the word of the mutex.\<close>

definition iaic_fast_alloc_bo :: "nat \<Rightarrow> 'd sys \<Rightarrow> u32 \<Rightarrow> u32 \<Rightarrow> iaic_pool \<Rightarrow> 'd \<Rightarrow>
    fault + (iaic_ret_code \<times> iaic_bo option \<times> iaic_pool \<times> 'd)" where
  "iaic_fast_alloc_bo fuel sys thread sz c d = (let align_size = align_64 sz in
     res_bind (pool_lock c) (\<lambda>c.
     res_bind (find_fit (blocks c) align_size (bo_list c)) (\<lambda>found. case found of
       Some (p, b) \<Rightarrow>
         if blk_size b - align_size < 0x200 then
           Inr (IAIC_CODE_OK, Some (bo_of_block sz b),
                pool_unlock (c\<lparr>blocks := (blocks c)(p \<mapsto> b\<lparr>idle := False\<rparr>)\<rparr>), d)
         else if \<not> sys_malloc sys then Inl Null_deref
         else
           let c = split_block align_size p b c; b = b\<lparr>blk_size := align_size\<rparr>
           in Inr (IAIC_CODE_OK, Some (bo_of_block sz b),
                   pool_unlock (c\<lparr>blocks := (blocks c)(p \<mapsto> b\<lparr>idle := False\<rparr>)\<rparr>), d)
     | None \<Rightarrow>
         let c = c\<lparr>lock_word := False\<rparr> in
         res_bind (iaic_get_bo_free thread c) (\<lambda>_.
         res_bind (create_bo_node fuel sys sz c d) (\<lambda>(r, c, d).
         if r \<noteq> IAIC_CODE_OK then Inr (IAIC_CODE_BO_CREATE_FAIL, None, c, d)
         else case blocks c (last (bo_list c)) of
           None \<Rightarrow> Inl Use_after_free
         | Some b \<Rightarrow> Inr (IAIC_CODE_OK, Some (bo_of_block sz b),
             pool_unlock (c\<lparr>blocks := (blocks c)(last (bo_list c) \<mapsto> b\<lparr>idle := False\<rparr>)\<rparr>), d))))))"

text \<open>The two loops of \<open>iaic_fast_free_bo\<close>, with the blocks before the current one
  nearest first. The list's head counts as idle in the first loop (the mutex is held),
  which then ends at it. A merged block is unlinked and freed.\<close>

fun merge_prev :: "(nat \<rightharpoonup> block) \<Rightarrow> nat list \<Rightarrow> nat \<Rightarrow> block \<Rightarrow>
    fault + ((nat \<rightharpoonup> block) \<times> nat list \<times> nat \<times> block)" where
  "merge_prev h [] p b = Inr (h, [], p, b)"
| "merge_prev h (q # qs) p b = (case h q of
     None \<Rightarrow> Inl Use_after_free
   | Some bq \<Rightarrow>
       if idle bq \<and> \<not> is_bo b
       then let bq = bq\<lparr>blk_size := blk_size bq + blk_size b\<rparr>
            in merge_prev (h(q \<mapsto> bq, p := None)) qs q bq
       else Inr (h, q # qs, p, b))"

fun merge_next :: "(nat \<rightharpoonup> block) \<Rightarrow> nat list \<Rightarrow> nat \<Rightarrow> block \<Rightarrow>
    fault + ((nat \<rightharpoonup> block) \<times> nat list \<times> block)" where
  "merge_next h [] p b = Inr (h, [], b)"
| "merge_next h (q # qs) p b = (case h q of
     None \<Rightarrow> Inl Use_after_free
   | Some bq \<Rightarrow>
       if idle bq
       then let b = b\<lparr>blk_size := blk_size b + blk_size bq\<rparr>
            in merge_next (h(p \<mapsto> b, q := None)) qs p b
       else Inr (h, q # qs, b))"

text \<open>The search by physical address: the blocks before (nearest first), the block, the
  blocks after.\<close>

fun find_paddr :: "(nat \<rightharpoonup> block) \<Rightarrow> u32 \<Rightarrow> nat list \<Rightarrow> nat list \<Rightarrow>
    fault + (nat list \<times> nat \<times> block \<times> nat list) option" where
  "find_paddr h a pre [] = Inr None"
| "find_paddr h a pre (p # ps) = (case h p of
     None \<Rightarrow> Inl Use_after_free
   | Some b \<Rightarrow> if blk_paddr b = a then Inr (Some (pre, p, b, ps)) else find_paddr h a (p # pre) ps)"

text \<open>\<open>next_bo\<close> is taken before the merging, from the unmerged block. A block that starts
  a buffer object gives it back to the driver; the block is freed and stays in the list.\<close>

definition iaic_fast_free_bo :: "nat \<Rightarrow> 'd sys \<Rightarrow> iaic_bo \<Rightarrow> iaic_pool \<Rightarrow> 'd \<Rightarrow>
    fault + (iaic_ret_code \<times> iaic_pool \<times> 'd)" where
  "iaic_fast_free_bo fuel sys bo c d =
     (if ib_handle bo = 0 then Inr (IAIC_CODE_OK, c, d)
      else
        res_bind (pool_lock c) (\<lambda>c.
        res_bind (find_paddr (blocks c) (ib_paddr bo) [] (bo_list c)) (\<lambda>found. case found of
          None \<Rightarrow> Inr (IAIC_CODE_other (- 1), pool_unlock c, d)
        | Some (pre, p, b, post) \<Rightarrow>
            let b = b\<lparr>idle := True\<rparr> in
            res_bind (merge_prev ((blocks c)(p \<mapsto> b)) pre p b) (\<lambda>(h, pre, p, b).
            res_bind (merge_next h post p b) (\<lambda>(h, post, b).
            let c = pool_unlock (c\<lparr>blocks := h, bo_list := rev pre @ p # post\<rparr>) in
            if \<not> is_bo b then Inr (IAIC_CODE_OK, c, d)
            else
              res_bind (iaic_ioctl fuel (sys_bo sys) \<lparr>bo_op = AIP_BO_OP_DESTROY, io_size = max_mem_size c,
                  io_handle = blk_handle b, io_paddr = blk_paddr b\<rparr> d) (\<lambda>(r, io, d).
              if io_handle io = 0 \<or> r \<noteq> 0 then Inr (IAIC_CODE_BO_DESTROY_FAIL, c, d)
              else Inr (IAIC_CODE_OK, c\<lparr>blocks := (blocks c)(p := None)\<rparr>, d)))))))"

section \<open>Buffer objects without the pool\<close>

definition PAGE_SIZE :: u32 where "PAGE_SIZE = 4096"

text \<open>Both functions also change the caller's \<open>iaic_bo_t\<close>; before the first call its
  fields are \<open>bo\<close>. The failure paths of \<open>iaic_alloc_bo\<close> go through \<open>iaic_destroy_bo\<close>,
  which frees without the pool because a pool is not in use.\<close>

definition iaic_free_bo :: "nat \<Rightarrow> 'd sys \<Rightarrow> iaic_bo \<Rightarrow> 'd \<Rightarrow>
    fault + (iaic_ret_code \<times> iaic_bo \<times> 'd)" where
  "iaic_free_bo fuel sys bo d =
     (if ib_handle bo = 0 then Inr (IAIC_CODE_OK, bo, d)
      else
        res_bind (iaic_ioctl fuel (sys_bo sys) \<lparr>bo_op = AIP_BO_OP_DESTROY, io_size = ib_size bo,
            io_handle = ib_handle bo, io_paddr = ib_paddr bo\<rparr> d) (\<lambda>(_, io, d).
        if io_handle io = 0 then Inr (IAIC_CODE_BO_DESTROY_FAIL, bo, d)
        else Inr (IAIC_CODE_OK, bo\<lparr>ib_handle := 0, ib_vaddr := MAP_FAILED\<rparr>, d)))"

definition iaic_alloc_bo :: "nat \<Rightarrow> 'd sys \<Rightarrow> u32 \<Rightarrow> iaic_bo \<Rightarrow> 'd \<Rightarrow>
    fault + (iaic_ret_code \<times> iaic_bo \<times> 'd)" where
  "iaic_alloc_bo fuel sys sz bo d =
     res_bind (iaic_ioctl fuel (sys_bo sys)
         \<lparr>bo_op = AIP_BO_OP_APPEND, io_size = sz, io_handle = 0, io_paddr = 0\<rparr> d) (\<lambda>(_, io, d).
     if io_handle io = 0 then Inr (IAIC_CODE_BO_CREATE_FAIL, bo, d)
     else
       let bo = bo\<lparr>ib_size := sz, ib_handle := io_handle io, ib_paddr := io_paddr io\<rparr> in
       if sint (ib_paddr bo) < sint PAGE_SIZE
       then res_bind (iaic_free_bo fuel sys bo d) (\<lambda>(_, bo, d). Inr (IAIC_CODE_BO_CREATE_EXT_FAIL, bo, d))
       else
         let bo = bo\<lparr>ib_esize := ib_size bo + PAGE_SIZE * 2\<rparr>;
             bo = bo\<lparr>ib_evaddr := sys_mmap sys (ib_esize bo) (ib_paddr bo - PAGE_SIZE)\<rparr>;
             bo = bo\<lparr>ib_vaddr := ib_evaddr bo + PAGE_SIZE\<rparr>
         in if ib_vaddr bo = MAP_FAILED
            then res_bind (iaic_free_bo fuel sys bo d) (\<lambda>(_, bo, d). Inr (IAIC_CODE_BO_CREATE_MMAP_FAIL, bo, d))
            else Inr (IAIC_CODE_OK, bo, d))"

section \<open>The pool as a list of blocks\<close>

text \<open>The abstract view of a pool: its blocks in the order of the list.\<close>

definition pool_blocks :: "iaic_pool \<Rightarrow> block list" where
  "pool_blocks c = map (\<lambda>p. the (blocks c p)) (bo_list c)"

text \<open>The pointers are sound: every one in the list is alive and occurs once.\<close>

definition pool_wf :: "iaic_pool \<Rightarrow> bool" where
  "pool_wf c \<longleftrightarrow> distinct (bo_list c) \<and> set (bo_list c) \<subseteq> dom (blocks c) \<and> dom (blocks c) \<subseteq> {..< blk_next c}"

text \<open>What the operations do to that list.\<close>

definition carve :: "u32 \<Rightarrow> block \<Rightarrow> block list" where
  "carve n b = (if blk_size b - n < 0x200 then [b\<lparr>idle := False\<rparr>]
     else [b\<lparr>blk_size := n, idle := False\<rparr>,
           \<lparr>blk_size = blk_size b - n, idle = True, is_bo = False, blk_handle = blk_handle b,
            blk_paddr = blk_paddr b + n, blk_vaddr = blk_vaddr b + n\<rparr>])"

fun absorb_prev :: "block list \<Rightarrow> block \<Rightarrow> block list \<times> block" where
  "absorb_prev [] b = ([], b)"
| "absorb_prev (q # qs) b = (if idle q \<and> \<not> is_bo b
     then absorb_prev qs (q\<lparr>blk_size := blk_size q + blk_size b\<rparr>) else (q # qs, b))"

fun absorb_next :: "block list \<Rightarrow> block \<Rightarrow> block list \<times> block" where
  "absorb_next [] b = ([], b)"
| "absorb_next (q # qs) b = (if idle q
     then absorb_next qs (b\<lparr>blk_size := blk_size b + blk_size q\<rparr>) else (q # qs, b))"

lemma find_fit_spec:
  assumes "set ps \<subseteq> dom h"
  shows "(find_fit h n ps = Inr None \<and> (\<forall>p \<in> set ps. \<not> (idle (the (h p)) \<and> n \<le> blk_size (the (h p))))) \<or>
    (\<exists>pre p b post. find_fit h n ps = Inr (Some (p, b)) \<and> ps = pre @ p # post \<and> h p = Some b \<and>
       idle b \<and> n \<le> blk_size b \<and> (\<forall>q \<in> set pre. \<not> (idle (the (h q)) \<and> n \<le> blk_size (the (h q)))))"
  using assms
proof (induction ps)
  case (Cons p ps)
  obtain b where b: "h p = Some b" using Cons.prems by auto
  show ?case
  proof (cases "idle b \<and> n \<le> blk_size b")
    case True
    with b show ?thesis by (intro disjI2 exI [of _ "[]"]) auto
  next
    case False
    have "set ps \<subseteq> dom h" using Cons.prems by simp
    from Cons.IH [OF this] show ?thesis
    proof (elim disjE exE conjE)
      fix pre p' b' post
      assume "find_fit h n ps = Inr (Some (p', b'))" "ps = pre @ p' # post" "h p' = Some b'" "idle b'"
        "n \<le> blk_size b'" "\<forall>q \<in> set pre. \<not> (idle (the (h q)) \<and> n \<le> blk_size (the (h q)))"
      with b False show ?thesis by (intro disjI2 exI [of _ "p # pre"]) auto
    qed (use b False in auto)
  qed
qed simp

lemma find_paddr_spec:
  assumes "set ps \<subseteq> dom h" "p \<in> set ps" "h p = Some b"
    "\<And>q. q \<in> set ps \<Longrightarrow> blk_paddr (the (h q)) = blk_paddr b \<Longrightarrow> q = p" "distinct ps"
  shows "\<exists>pre post. find_paddr h (blk_paddr b) acc ps = Inr (Some (rev pre @ acc, p, b, post)) \<and> ps = pre @ p # post"
  using assms
proof (induction ps arbitrary: acc)
  case (Cons q ps)
  obtain bq where bq: "h q = Some bq" using Cons.prems(1) by auto
  show ?case
  proof (cases "q = p")
    case True
    then show ?thesis using Cons.prems(3) by (intro exI [of _ "[]"] exI [of _ ps]) simp
  next
    case False
    with Cons.prems(4) [of q] bq have "blk_paddr bq \<noteq> blk_paddr b" by auto
    moreover have "\<exists>pre post. find_paddr h (blk_paddr b) (q # acc) ps =
        Inr (Some (rev pre @ q # acc, p, b, post)) \<and> ps = pre @ p # post"
      using Cons.prems False by (intro Cons.IH) simp_all
    then obtain pre post where
      "find_paddr h (blk_paddr b) (q # acc) ps = Inr (Some (rev pre @ q # acc, p, b, post))" "ps = pre @ p # post"
      by blast
    ultimately show ?thesis using bq by (intro exI [of _ "q # pre"] exI [of _ post]) auto
  qed
qed simp

lemma merge_prev_refines:
  assumes "distinct (p # pre)" "set pre \<subseteq> dom h" "h p = Some b"
  shows "\<exists>h' pre' p' b'. merge_prev h pre p b = Inr (h', pre', p', b') \<and>
    absorb_prev (map (\<lambda>q. the (h q)) pre) b = (map (\<lambda>q. the (h' q)) pre', b') \<and> h' p' = Some b' \<and>
    distinct (p' # pre') \<and> set (p' # pre') \<subseteq> set (p # pre) \<and> set pre' \<subseteq> dom h' \<and> dom h' \<subseteq> dom h \<and>
    (\<forall>q. q \<notin> set (p # pre) \<longrightarrow> h' q = h q)"
  using assms
proof (induction pre arbitrary: h p b)
  case (Cons q qs)
  obtain bq where bq: "h q = Some bq" using Cons.prems(2) by auto
  show ?case
  proof (cases "idle bq \<and> \<not> is_bo b")
    case True
    let ?b = "bq\<lparr>blk_size := blk_size bq + blk_size b\<rparr>" and ?h = "h(q \<mapsto> bq\<lparr>blk_size := blk_size bq + blk_size b\<rparr>, p := None)"
    have "distinct (q # qs)" "set qs \<subseteq> dom ?h" "?h q = Some ?b"
      using Cons.prems by auto
    from Cons.IH [OF this] obtain h' pre' p' b' where r: "merge_prev ?h qs q ?b = Inr (h', pre', p', b')"
      "absorb_prev (map (\<lambda>q. the (?h q)) qs) ?b = (map (\<lambda>q. the (h' q)) pre', b')" "h' p' = Some b'"
      "distinct (p' # pre')" "set (p' # pre') \<subseteq> set (q # qs)" "set pre' \<subseteq> dom h'" "dom h' \<subseteq> dom ?h"
      "\<forall>r. r \<notin> set (q # qs) \<longrightarrow> h' r = ?h r" by blast
    have same: "map (\<lambda>q. the (?h q)) qs = map (\<lambda>q. the (h q)) qs" using Cons.prems(1) by auto
    have "merge_prev h (q # qs) p b = Inr (h', pre', p', b')" using r(1) True bq by (simp add: Let_def)
    moreover have "absorb_prev (map (\<lambda>q. the (h q)) (q # qs)) b = (map (\<lambda>q. the (h' q)) pre', b')"
      using r(2) [unfolded same] True bq by simp
    moreover have "dom h' \<subseteq> dom h" using r(7) Cons.prems(2) by auto
    moreover have "set (p' # pre') \<subseteq> set (p # q # qs)" "\<forall>r. r \<notin> set (p # q # qs) \<longrightarrow> h' r = h r"
      using r(5,8) by auto
    ultimately show ?thesis using r(3,4,6) by (intro exI conjI)
  qed (use Cons.prems bq in auto)
qed auto

lemma merge_next_refines:
  assumes "distinct (p # post)" "set post \<subseteq> dom h" "h p = Some b"
  shows "\<exists>h' post' b'. merge_next h post p b = Inr (h', post', b') \<and>
    absorb_next (map (\<lambda>q. the (h q)) post) b = (map (\<lambda>q. the (h' q)) post', b') \<and> h' p = Some b' \<and>
    distinct (p # post') \<and> set post' \<subseteq> set post \<and> set post' \<subseteq> dom h' \<and> dom h' \<subseteq> dom h \<and>
    (\<forall>q. q \<notin> set (p # post) \<longrightarrow> h' q = h q)"
  using assms
proof (induction post arbitrary: h b)
  case (Cons q qs)
  obtain bq where bq: "h q = Some bq" using Cons.prems(2) by auto
  show ?case
  proof (cases "idle bq")
    case True
    let ?b = "b\<lparr>blk_size := blk_size b + blk_size bq\<rparr>" and ?h = "h(p \<mapsto> b\<lparr>blk_size := blk_size b + blk_size bq\<rparr>, q := None)"
    have "distinct (p # qs)" "set qs \<subseteq> dom ?h" "?h p = Some ?b"
      using Cons.prems by auto
    from Cons.IH [OF this] obtain h' post' b' where r: "merge_next ?h qs p ?b = Inr (h', post', b')"
      "absorb_next (map (\<lambda>q. the (?h q)) qs) ?b = (map (\<lambda>q. the (h' q)) post', b')" "h' p = Some b'"
      "distinct (p # post')" "set post' \<subseteq> set qs" "set post' \<subseteq> dom h'" "dom h' \<subseteq> dom ?h"
      "\<forall>r. r \<notin> set (p # qs) \<longrightarrow> h' r = ?h r" by blast
    have same: "map (\<lambda>q. the (?h q)) qs = map (\<lambda>q. the (h q)) qs" using Cons.prems(1) by auto
    have "merge_next h (q # qs) p b = Inr (h', post', b')" using r(1) True bq by (simp add: Let_def)
    moreover have "absorb_next (map (\<lambda>q. the (h q)) (q # qs)) b = (map (\<lambda>q. the (h' q)) post', b')"
      using r(2) [unfolded same] True bq by simp
    moreover have "dom h' \<subseteq> dom h" using r(7) Cons.prems(3) by auto
    moreover have "set post' \<subseteq> set (q # qs)" "\<forall>r. r \<notin> set (p # q # qs) \<longrightarrow> h' r = h r"
      using r(5,8) by auto
    ultimately show ?thesis using r(3,4,6) by (intro exI conjI)
  qed (use Cons.prems bq in auto)
qed auto

text \<open>The calls follow the abstract ones.\<close>

lemma split_map_eq: "map f (pre @ p # post) = map f pre @ f p # map f post"
  by simp

lemma add_after_split: "p \<notin> set pre \<Longrightarrow> add_after p q (pre @ p # post) = pre @ p # q # post"
  by (induction pre) auto

lemma distinct_split_unique:
  "xs @ a # ys = xs' @ a # ys' \<Longrightarrow> distinct (xs @ a # ys) \<Longrightarrow> xs = xs' \<and> ys = ys'"
proof (induction xs arbitrary: xs')
  case Nil
  then show ?case by (cases xs') auto
next
  case (Cons x xs)
  then show ?case by (cases xs') auto
qed

lemma pool_blocks_upd:
  assumes "bo_list c = pre @ p # post" "distinct (bo_list c)"
  shows "map (\<lambda>r. the (((blocks c)(p \<mapsto> b)) r)) (pre @ p # post) =
    map (\<lambda>r. the (blocks c r)) pre @ b # map (\<lambda>r. the (blocks c r)) post"
  using assms by auto

lemma fast_alloc_refines:
  assumes "pool_wf c" "\<not> lock_word c" "sys_malloc sys" "n = align_64 sz"
  shows "(\<forall>b \<in> set (pool_blocks c). \<not> (idle b \<and> n \<le> blk_size b)) \<or>
    (\<exists>pre b post c'. pool_blocks c = pre @ b # post \<and> idle b \<and> n \<le> blk_size b \<and>
       (\<forall>q \<in> set pre. \<not> (idle q \<and> n \<le> blk_size q)) \<and>
       iaic_fast_alloc_bo fuel sys thread sz c d = Inr (IAIC_CODE_OK, Some (bo_of_block sz (hd (carve n b))), c', d) \<and>
       pool_wf c' \<and> \<not> lock_word c' \<and> pool_blocks c' = pre @ carve n b @ post)"
proof -
  have live: "set (bo_list c) \<subseteq> dom (blocks c)" and dist: "distinct (bo_list c)"
    and fresh: "dom (blocks c) \<subseteq> {..< blk_next c}" using assms(1) by (auto simp: pool_wf_def)
  from find_fit_spec [OF live, of n] show ?thesis
  proof (elim disjE exE conjE)
    fix pre p b post
    assume find: "find_fit (blocks c) n (bo_list c) = Inr (Some (p, b))" and l: "bo_list c = pre @ p # post"
      and b: "blocks c p = Some b" "idle b" "n \<le> blk_size b"
      and first: "\<forall>q \<in> set pre. \<not> (idle (the (blocks c q)) \<and> n \<le> blk_size (the (blocks c q)))"
    let ?pre = "map (\<lambda>r. the (blocks c r)) pre" and ?post = "map (\<lambda>r. the (blocks c r)) post"
    have pb: "pool_blocks c = ?pre @ b # ?post" using b by (simp add: pool_blocks_def l)
    have "\<exists>c'. iaic_fast_alloc_bo fuel sys thread sz c d =
        Inr (IAIC_CODE_OK, Some (bo_of_block sz (hd (carve n b))), c', d) \<and>
      pool_wf c' \<and> \<not> lock_word c' \<and> pool_blocks c' = ?pre @ carve n b @ ?post"
    proof (cases "blk_size b - n < 0x200")
      case True
      let ?c = "pool_unlock (c\<lparr>lock_word := True, blocks := (blocks c)(p \<mapsto> b\<lparr>idle := False\<rparr>)\<rparr>)"
      have "iaic_fast_alloc_bo fuel sys thread sz c d =
          Inr (IAIC_CODE_OK, Some (bo_of_block sz (hd (carve n b))), ?c, d)"
        using find True assms(2,4) by (simp add: iaic_fast_alloc_bo_def pool_lock_def carve_def bo_of_block_def Let_def)
      moreover have "pool_wf ?c"
        using live dist fresh b(1) by (auto simp: pool_wf_def pool_unlock_def)
      moreover have "pool_blocks ?c = ?pre @ carve n b @ ?post"
        using pool_blocks_upd [OF l dist] True by (simp add: pool_blocks_def pool_unlock_def carve_def l)
      ultimately show ?thesis by (intro exI conjI) (auto simp: pool_unlock_def)
    next
      case False
      let ?q = "blk_next c"
      let ?rest = "\<lparr>blk_size = blk_size b - n, idle = True, is_bo = False, blk_handle = blk_handle b,
        blk_paddr = blk_paddr b + n, blk_vaddr = blk_vaddr b + n\<rparr>"
      let ?busy = "b\<lparr>blk_size := n, idle := False\<rparr>"
      let ?c = "pool_unlock (c\<lparr>lock_word := True, bo_list := add_after p ?q (bo_list c),
        blocks := (blocks c)(p \<mapsto> b\<lparr>blk_size := n\<rparr>, ?q \<mapsto> ?rest, p \<mapsto> ?busy), blk_next := ?q + 1\<rparr>)"
      have q: "?q \<notin> set (bo_list c)" using live fresh by (meson lessThan_iff less_irrefl subsetD)
      then have l': "bo_list ?c = pre @ p # ?q # post"
        using dist by (simp add: pool_unlock_def l add_after_split)
      have "iaic_fast_alloc_bo fuel sys thread sz c d =
          Inr (IAIC_CODE_OK, Some (bo_of_block sz (hd (carve n b))), ?c, d)"
        using find False assms(2-4)
        by (simp add: iaic_fast_alloc_bo_def pool_lock_def carve_def bo_of_block_def split_block_def Let_def pool_unlock_def)
      moreover have "pool_wf ?c"
        unfolding pool_wf_def l' using q dist live fresh b(1) by (auto simp: pool_unlock_def l)
      moreover have "pool_blocks ?c = ?pre @ carve n b @ ?post"
        unfolding pool_blocks_def l' using q dist False by (auto simp: pool_unlock_def carve_def l)
      ultimately show ?thesis by (intro exI conjI) (auto simp: pool_unlock_def)
    qed
    then show ?thesis using pb b(2,3) first by (intro disjI2) (auto intro!: exI)
  next
    assume "\<forall>p \<in> set (bo_list c). \<not> (idle (the (blocks c p)) \<and> n \<le> blk_size (the (blocks c p)))"
    then show ?thesis by (auto simp: pool_blocks_def)
  qed
qed

lemma fast_free_refines:
  assumes "pool_wf c" "\<not> lock_word c" "ib_handle bo \<noteq> 0" "ib_paddr bo = blk_paddr b"
    "pool_blocks c = pre @ b # post" "distinct (map blk_paddr (pool_blocks c))"
    "absorb_prev (rev pre) (b\<lparr>idle := True\<rparr>) = (rpre, b1)" "absorb_next post b1 = (post', b2)" "\<not> is_bo b2"
  shows "\<exists>c'. iaic_fast_free_bo fuel sys bo c d = Inr (IAIC_CODE_OK, c', d) \<and> pool_wf c' \<and>
    \<not> lock_word c' \<and> pool_blocks c' = rev rpre @ b2 # post'"
proof -
  have live: "set (bo_list c) \<subseteq> dom (blocks c)" and dist: "distinct (bo_list c)"
    and fresh: "dom (blocks c) \<subseteq> {..< blk_next c}" using assms(1) by (auto simp: pool_wf_def)
  from assms(5) obtain ppre p ppost where l: "bo_list c = ppre @ p # ppost"
    and pre: "pre = map (\<lambda>r. the (blocks c r)) ppre" and post: "post = map (\<lambda>r. the (blocks c r)) ppost"
    and bp: "b = the (blocks c p)"
    unfolding pool_blocks_def map_eq_append_conv map_eq_Cons_conv by auto
  have b: "blocks c p = Some b" using live bp l by auto
  have inj: "inj_on (\<lambda>r. blk_paddr (the (blocks c r))) (set (bo_list c))"
    using assms(6) by (simp add: pool_blocks_def distinct_map comp_def)
  have uniq: "q = p" if "q \<in> set (bo_list c)" "blk_paddr (the (blocks c q)) = blk_paddr b" for q
    using inj_onD [OF inj, of q p] that l bp by simp
  have "p \<in> set (bo_list c)" by (simp add: l)
  from find_paddr_spec [OF live this b uniq dist, of "[]"] obtain pre0 post0
    where find: "find_paddr (blocks c) (blk_paddr b) [] (bo_list c) = Inr (Some (rev pre0, p, b, post0))"
      and l0: "bo_list c = pre0 @ p # post0" by auto
  have same: "pre0 = ppre" "post0 = ppost"
    using distinct_split_unique [of pre0 p post0 ppre ppost] l l0 dist by auto
  let ?b = "b\<lparr>idle := True\<rparr>" and ?h = "(blocks c)(p \<mapsto> b\<lparr>idle := True\<rparr>)"
  have "distinct (p # rev ppre)" "set (rev ppre) \<subseteq> dom ?h" "?h p = Some ?b"
    using dist live l by auto
  from merge_prev_refines [OF this] obtain h1 rpre1 p1 b1' where
    m: "merge_prev ?h (rev ppre) p ?b = Inr (h1, rpre1, p1, b1')"
    "absorb_prev (map (\<lambda>q. the (?h q)) (rev ppre)) ?b = (map (\<lambda>q. the (h1 q)) rpre1, b1')"
    "h1 p1 = Some b1'" "distinct (p1 # rpre1)" "set (p1 # rpre1) \<subseteq> set (p # rev ppre)"
    "set rpre1 \<subseteq> dom h1" "dom h1 \<subseteq> dom ?h" "\<forall>q. q \<notin> set (p # rev ppre) \<longrightarrow> h1 q = ?h q"
    by blast
  have "map (\<lambda>q. the (?h q)) (rev ppre) = rev pre" using dist l by (auto simp: pre rev_map)
  then have a1: "rpre = map (\<lambda>q. the (h1 q)) rpre1" "b1' = b1" using m(2) assms(7) by simp_all
  have off: "q \<notin> set (p # rev ppre)" if "q \<in> set ppost" for q using that dist l by auto
  have keep: "h1 q = blocks c q" if "q \<in> set ppost" for q
    using m(8) off [OF that] by simp
  have "distinct (p1 # ppost)" "set ppost \<subseteq> dom h1" "h1 p1 = Some b1"
    using m(3,5) a1 off dist l live keep by (auto simp: subset_iff domIff)
  from merge_next_refines [OF this] obtain h2 ppost2 b2' where
    n: "merge_next h1 ppost p1 b1 = Inr (h2, ppost2, b2')"
    "absorb_next (map (\<lambda>q. the (h1 q)) ppost) b1 = (map (\<lambda>q. the (h2 q)) ppost2, b2')" "h2 p1 = Some b2'"
    "distinct (p1 # ppost2)" "set ppost2 \<subseteq> set ppost" "set ppost2 \<subseteq> dom h2" "dom h2 \<subseteq> dom h1"
    "\<forall>q. q \<notin> set (p1 # ppost) \<longrightarrow> h2 q = h1 q" by blast
  have "map (\<lambda>q. the (h1 q)) ppost = post" using keep by (simp add: post)
  then have a2: "post' = map (\<lambda>q. the (h2 q)) ppost2" "b2' = b2" using n(2) assms(8) by simp_all
  have keep2: "h2 q = h1 q" if "q \<in> set rpre1" for q
  proof -
    have "q \<notin> set ppost" "q \<noteq> p1" using that m(4,5) off [of q] by auto
    then show ?thesis using n(8) by simp
  qed
  let ?c = "pool_unlock (c\<lparr>lock_word := True, blocks := h2, bo_list := rev rpre1 @ p1 # ppost2\<rparr>)"
  have "iaic_fast_free_bo fuel sys bo c d = Inr (IAIC_CODE_OK, ?c, d)"
    using find same m(1) n(1) a1(2) a2(2) assms(2-4,9)
    by (simp add: iaic_fast_free_bo_def pool_lock_def Let_def)
  moreover have "pool_wf ?c"
  proof -
    have "distinct (rev rpre1 @ p1 # ppost2)" using m(4,5) n(4,5) off by auto
    moreover have "set (rev rpre1 @ p1 # ppost2) \<subseteq> dom h2"
      using m(6) n(3,6) keep2 by (auto simp: subset_iff domIff)
    moreover have "dom h2 \<subseteq> {..< blk_next c}"
      using n(7) m(7) fresh live l by auto
    ultimately show ?thesis by (simp add: pool_wf_def pool_unlock_def)
  qed
  moreover have "pool_blocks ?c = rev rpre @ b2 # post'"
    using n(3) keep2 by (simp add: pool_blocks_def pool_unlock_def a1 a2 rev_map)
  ultimately show ?thesis by (intro exI conjI) (auto simp: pool_unlock_def)
qed

end
