(* ===== verification/IaicPool.thy ===== *)
theory IaicPool
  imports IaicBo "HOL-Library.Multiset"
begin

text \<open>
  What the pool of \<open>lib/src/iaic_bo.c\<close> promises. The invariant \<open>blocks_inv\<close> says that
  blocks are disjoint, that blocks of one buffer object tile it without gaps, and
  that a buffer object nothing was cut off yet is one block. An allocation turns one
  idle block into a used one (and a rest), a free gives back exactly that block's
  bytes; both keep the invariant, and so does any sequence of them by any number of
  callers (the locale \<open>lending\<close>). What the pool does not get right is in \<open>IaicFaults\<close>.
\<close>

section \<open>Lists of blocks\<close>

definition extent :: "block \<Rightarrow> nat set" where
  "extent b = {unat (blk_paddr b) ..< unat (blk_paddr b) + unat (blk_size b)}"

definition fits :: "block \<Rightarrow> bool" where
  "fits b \<longleftrightarrow> 0 < blk_size b \<and> blk_handle b \<noteq> 0 \<and> unat (blk_paddr b) + unat (blk_size b) < 2 ^ 32"

text \<open>Neighbours in the list: the second starts a buffer object, or it begins where the
  first ends, in the same buffer object and the same mapping, and the first is not an
  unused buffer object.\<close>

definition next_ok :: "block \<Rightarrow> block \<Rightarrow> bool" where
  "next_ok x y \<longleftrightarrow> is_bo y \<or>
     unat (blk_paddr y) = unat (blk_paddr x) + unat (blk_size x) \<and> blk_handle y = blk_handle x \<and>
     blk_vaddr y - blk_paddr y = blk_vaddr x - blk_paddr x \<and> \<not> (is_bo x \<and> idle x)"

definition apart :: "block \<Rightarrow> block \<Rightarrow> bool" where
  "apart x y \<longleftrightarrow> extent x \<inter> extent y = {}"

definition blocks_inv :: "block list \<Rightarrow> bool" where
  "blocks_inv bs \<longleftrightarrow> (\<forall>b \<in> set bs. fits b) \<and> successively next_ok bs \<and>
     sorted_wrt apart bs \<and> (bs \<noteq> [] \<longrightarrow> is_bo (hd bs))"

definition used_blocks :: "block list \<Rightarrow> block list" where
  "used_blocks bs = filter (\<lambda>b. \<not> idle b) bs"

definition bytes_of :: "block list \<Rightarrow> nat" where
  "bytes_of bs = (\<Sum>b\<leftarrow>bs. unat (blk_size b))"

definition idle_bytes :: "block list \<Rightarrow> nat" where
  "idle_bytes bs = bytes_of (filter idle bs)"

lemma used_append [simp]: "used_blocks (xs @ ys) = used_blocks xs @ used_blocks ys"
  by (simp add: used_blocks_def)

lemma used_simps [simp]:
  "used_blocks [] = []" "used_blocks (b # bs) = (if idle b then used_blocks bs else b # used_blocks bs)"
  by (simp_all add: used_blocks_def)

lemma bytes_append [simp]: "bytes_of (xs @ ys) = bytes_of xs + bytes_of ys"
  by (simp add: bytes_of_def)

lemma bytes_simps [simp]: "bytes_of [] = 0" "bytes_of (b # bs) = unat (blk_size b) + bytes_of bs"
  by (simp_all add: bytes_of_def)

lemma idle_plus_used: "idle_bytes bs + bytes_of (used_blocks bs) = bytes_of bs"
  by (induction bs) (auto simp: idle_bytes_def)

lemma apart_mono: "apart x y \<Longrightarrow> extent x' \<subseteq> extent x \<Longrightarrow> apart x' y \<and> apart y x'"
  by (auto simp: apart_def)

lemma apart_sym: "apart x y \<Longrightarrow> apart y x"
  by (auto simp: apart_def)

text \<open>Some neighbouring blocks are replaced by others on the same bytes.\<close>

lemma blocks_inv_replace:
  assumes "blocks_inv (pre @ os @ post)" "os \<noteq> []" "ms \<noteq> []"
    "\<forall>m \<in> set ms. fits m \<and> extent m \<subseteq> (\<Union>x \<in> set os. extent x)" "successively next_ok ms" "sorted_wrt apart ms"
    "is_bo (hd ms) = is_bo (hd os)" "\<And>x. next_ok x (hd os) \<Longrightarrow> next_ok x (hd ms)"
    "\<And>x. next_ok (last os) x \<Longrightarrow> next_ok (last ms) x"
  shows "blocks_inv (pre @ ms @ post)"
proof -
  have far: "apart x m" if "\<forall>o' \<in> set os. apart x o'" "m \<in> set ms" for x m
    using that assms(4) by (fastforce simp: apart_def)
  have "sorted_wrt apart (pre @ os @ post)" using assms(1) by (simp add: blocks_inv_def)
  then have w: "sorted_wrt apart pre" "sorted_wrt apart post" "\<forall>x \<in> set pre. \<forall>y \<in> set post. apart x y"
    "\<forall>x \<in> set pre. \<forall>o' \<in> set os. apart x o'" "\<forall>y \<in> set post. \<forall>o' \<in> set os. apart y o'"
    by (auto simp: sorted_wrt_append intro: apart_sym)
  then have "\<forall>x \<in> set pre. \<forall>m \<in> set ms. apart x m" "\<forall>m \<in> set ms. \<forall>y \<in> set post. apart m y"
    using far apart_sym by blast+
  with w assms(6) have "sorted_wrt apart (pre @ ms @ post)" by (auto simp: sorted_wrt_append)
  moreover have "successively next_ok (pre @ ms @ post)"
    using assms(1-3,5,8,9) by (auto simp: blocks_inv_def successively_append_iff)
  moreover have "is_bo (hd (pre @ ms @ post))"
    using assms(1-3,7) by (cases pre) (auto simp: blocks_inv_def)
  ultimately show ?thesis using assms(1,4) by (auto simp: blocks_inv_def)
qed

lemma blocks_inv_distinct_paddr:
  assumes "blocks_inv bs"
  shows "distinct (map blk_paddr bs)"
proof -
  have "\<forall>b \<in> set bs. unat (blk_paddr b) \<in> extent b"
    using assms by (auto simp: blocks_inv_def extent_def fits_def word_less_nat_alt)
  moreover have "sorted_wrt apart bs" using assms by (simp add: blocks_inv_def)
  ultimately show ?thesis
  proof (induction bs)
    case (Cons b bs)
    have "blk_paddr b \<noteq> blk_paddr x" if "x \<in> set bs" for x
    proof
      assume "blk_paddr b = blk_paddr x"
      with that Cons.prems(1) have "unat (blk_paddr b) \<in> extent b \<inter> extent x" by auto
      moreover have "apart b x" using that Cons.prems(2) by simp
      ultimately show False by (auto simp: apart_def)
    qed
    with Cons show ?case by auto
  qed simp
qed

text \<open>Cutting an idle block.\<close>

lemma carve_inv:
  assumes "blocks_inv (pre @ b # post)" "idle b" "0 < n" "n \<le> blk_size b"
  shows "blocks_inv (pre @ carve n b @ post)"
    "used_blocks (carve n b) = [hd (carve n b)]" "bytes_of (carve n b) = unat (blk_size b)"
proof -
  have le: "unat n \<le> unat (blk_size b)" and pos: "0 < unat n"
    using assms(3,4) by (simp_all add: word_le_nat_alt word_less_nat_alt)
  have diff: "unat (blk_size b - n) = unat (blk_size b) - unat n" using assms(4) by (simp add: unat_sub)
  have b: "fits b" using assms(1) by (simp add: blocks_inv_def)
  have inv: "blocks_inv (pre @ [b] @ post)" using assms(1) by simp
  show "used_blocks (carve n b) = [hd (carve n b)]" by (simp add: carve_def)
  show "bytes_of (carve n b) = unat (blk_size b)" using le diff by (simp add: carve_def)
  show "blocks_inv (pre @ carve n b @ post)"
  proof (cases "blk_size b - n < 0x200")
    case True
    show ?thesis
      using True b by (intro blocks_inv_replace [OF inv])
        (auto simp: carve_def extent_def fits_def next_ok_def)
  next
    case False
    let ?r = "\<lparr>blk_size = blk_size b - n, idle = True, is_bo = False, blk_handle = blk_handle b,
      blk_paddr = blk_paddr b + n, blk_vaddr = blk_vaddr b + n\<rparr>"
    let ?u = "b\<lparr>blk_size := n, idle := False\<rparr>"
    have carve: "carve n b = [?u, ?r]" using False by (simp add: carve_def)
    have "\<not> unat (blk_size b) - unat n < 512" using False diff by (simp add: word_less_nat_alt)
    then have big: "unat n + 512 \<le> unat (blk_size b)" by simp
    have addr: "unat (blk_paddr b + n) = unat (blk_paddr b) + unat n"
      using b big by (intro unat_add_lem [THEN iffD1]) (simp add: fits_def)
    have ext: "extent ?u \<subseteq> extent b" "extent ?r \<subseteq> extent b" "apart ?u ?r"
      using le diff addr by (auto simp: extent_def apart_def)
    have fit: "fits ?u" "fits ?r" using b big diff addr pos by (auto simp: fits_def word_less_nat_alt)
    have nxt: "next_ok ?u ?r" "next_ok x b \<Longrightarrow> next_ok x ?u" "next_ok b x \<Longrightarrow> next_ok ?r x" for x
      using le diff addr by (auto simp: next_ok_def)
    show ?thesis
      by (intro blocks_inv_replace [OF inv]) (use ext fit nxt in \<open>auto simp: carve\<close>)
  qed
qed

text \<open>Joining two idle neighbours of one buffer object.\<close>

lemma merge_inv:
  assumes "blocks_inv (pre @ q # b # post)" "idle q" "idle b" "\<not> is_bo b"
  defines "m \<equiv> q\<lparr>blk_size := blk_size q + blk_size b\<rparr>"
  shows "blocks_inv (pre @ m # post)" "\<not> is_bo m" "idle m"
    "unat (blk_size m) = unat (blk_size q) + unat (blk_size b)"
proof -
  have inv: "blocks_inv (pre @ [q, b] @ post)" using assms(1) by simp
  then have nx: "next_ok q b" and fq: "fits q" and fb: "fits b"
    by (auto simp: blocks_inv_def successively_append_iff)
  then have adj: "unat (blk_paddr b) = unat (blk_paddr q) + unat (blk_size q)" "\<not> is_bo q"
    "blk_handle b = blk_handle q" "blk_vaddr b - blk_paddr b = blk_vaddr q - blk_paddr q"
    using assms(2,4) by (auto simp: next_ok_def)
  show sz: "unat (blk_size m) = unat (blk_size q) + unat (blk_size b)"
    unfolding m_def using fb adj by (simp add: fits_def) (intro unat_add_lem [THEN iffD1], simp)
  show "\<not> is_bo m" "idle m" using adj(2) assms(2) by (simp_all add: m_def)
  have "extent m \<subseteq> extent q \<union> extent b" using adj sz by (auto simp: extent_def m_def)
  moreover have "fits m" using fb fq adj sz by (auto simp: fits_def m_def word_less_nat_alt)
  moreover have "next_ok x q \<Longrightarrow> next_ok x m" "next_ok b x \<Longrightarrow> next_ok m x" for x
    using adj sz by (auto simp: next_ok_def m_def)
  ultimately have "blocks_inv (pre @ [m] @ post)"
    by (intro blocks_inv_replace [OF inv]) (auto simp: m_def)
  then show "blocks_inv (pre @ m # post)" by simp
qed

lemma absorb_prev_inv:
  assumes "blocks_inv (rev qs @ b # post)" "idle b" "\<not> is_bo b" "absorb_prev qs b = (qs', b')"
  shows "blocks_inv (rev qs' @ b' # post) \<and> idle b' \<and> \<not> is_bo b' \<and> used_blocks (rev qs') = used_blocks (rev qs) \<and>
    bytes_of (rev qs') + unat (blk_size b') = bytes_of (rev qs) + unat (blk_size b)"
  using assms
proof (induction qs arbitrary: b)
  case (Cons q qs)
  show ?case
  proof (cases "idle q")
    case True
    note m = merge_inv [of "rev qs" q b post]
    have "blocks_inv (rev qs @ q # b # post)" using Cons.prems(1) by simp
    note m = m [OF this True Cons.prems(2,3)]
    from Cons.IH [OF m(1) m(3) m(2)] Cons.prems(3,4) True m(4) show ?thesis by auto
  next
    case False
    with Cons.prems show ?thesis by auto
  qed
qed simp

lemma absorb_next_inv:
  assumes "blocks_inv (pre @ b # qs)" "idle b" "\<not> is_bo b" "absorb_next qs b = (qs', b')"
    "\<forall>q \<in> set (takeWhile idle qs). \<not> is_bo q"
  shows "blocks_inv (pre @ b' # qs') \<and> idle b' \<and> \<not> is_bo b' \<and> used_blocks qs' = used_blocks qs \<and>
    bytes_of qs' + unat (blk_size b') = bytes_of qs + unat (blk_size b)"
  using assms
proof (induction qs arbitrary: b)
  case (Cons q qs)
  show ?case
  proof (cases "idle q")
    case True
    then have "\<not> is_bo q" "\<forall>q \<in> set (takeWhile idle qs). \<not> is_bo q" using Cons.prems(5) by auto
    note m = merge_inv [OF Cons.prems(1,2) True this(1)]
    from Cons.IH [OF m(1) m(3) m(2)] Cons.prems(4) True m(4) \<open>\<forall>q \<in> set (takeWhile idle qs). \<not> is_bo q\<close>
    show ?thesis by auto
  next
    case False
    with Cons.prems show ?thesis by auto
  qed
qed simp

section \<open>Rounding\<close>

lemma unat_align_64: "unat (align_64 sz) = (unat sz + 63) mod 2 ^ 32 div 64 * 64"
proof -
  have eq: "align_64 sz = push_bit 6 (drop_bit 6 (sz + 63))"
  proof -
    have mask: "(63 :: u32) = mask 6" by (simp add: mask_eq_exp_minus_1)
    show ?thesis unfolding align_64_def by (rule bit_word_eqI) (auto simp: mask bit_simps)
  qed
  have "unat (align_64 sz) = take_bit 32 (unat (drop_bit 6 (sz + 63)) * 64)"
    unfolding eq unsigned_push_bit_eq by (simp add: push_bit_eq_mult)
  also have "unat (drop_bit 6 (sz + 63)) = unat (sz + 63) div 64"
    by (simp add: drop_bit_eq_div unat_div)
  also have "unat (sz + 63) = (unat sz + 63) mod 2 ^ 32"
    by (simp add: unat_word_ariths)
  finally show ?thesis by (simp add: take_bit_eq_mod)
qed

text \<open>Rounding never shrinks a size it does not round to zero.\<close>

lemma align_64_le: "0 < align_64 sz \<Longrightarrow> sz \<le> align_64 sz"
proof -
  assume "0 < align_64 sz"
  then have pos: "0 < (unat sz + 63) mod 2 ^ 32 div 64 * 64"
    by (metis unat_align_64 word_less_nat_alt unat_0)
  have "unat sz < 2 ^ 32" using unsigned_less [of sz] by simp
  have "unat sz + 63 < 2 ^ 32"
  proof (rule ccontr)
    assume "\<not> unat sz + 63 < 2 ^ 32"
    then have "(unat sz + 63) mod 2 ^ 32 = unat sz + 63 - 2 ^ 32"
      using \<open>unat sz < 2 ^ 32\<close> by (simp add: mod_if)
    then have "(unat sz + 63) mod 2 ^ 32 div 64 = 0" using \<open>unat sz < 2 ^ 32\<close> by simp
    with pos show False by simp
  qed
  then have "unat sz \<le> (unat sz + 63) mod 2 ^ 32 div 64 * 64" by simp
  then show ?thesis by (simp add: word_le_nat_alt unat_align_64)
qed

section \<open>The pool's operations\<close>

definition pool_inv :: "iaic_pool \<Rightarrow> bool" where
  "pool_inv c \<longleftrightarrow> pool_wf c \<and> \<not> lock_word c \<and> blocks_inv (pool_blocks c)"

text \<open>\<open>iaic_ctx_init\<close> takes the first block of the pool for the shared buffer and keeps
  it: a block that starts a buffer object is in use.\<close>

definition first_used :: "block list \<Rightarrow> bool" where
  "first_used bs \<longleftrightarrow> (\<forall>b \<in> set bs. is_bo b \<longrightarrow> \<not> idle b)"

text \<open>Free neighbours are joined, unless the second starts a buffer object.\<close>

definition coalesced :: "block list \<Rightarrow> bool" where
  "coalesced bs \<longleftrightarrow> successively (\<lambda>x y. idle x \<and> idle y \<longrightarrow> is_bo y) bs"

text \<open>What a caller gets of a block, and what it holds of one.\<close>

definition blk_key :: "block \<Rightarrow> u32 \<times> u32 \<times> int \<times> u32" where
  "blk_key b = (blk_paddr b, blk_size b, blk_handle b, blk_vaddr b)"

definition bo_key :: "iaic_bo \<Rightarrow> u32 \<times> u32 \<times> int \<times> u32" where
  "bo_key bo = (ib_paddr bo, ib_esize bo, ib_handle bo, ib_vaddr bo)"

lemma bo_key_of_block [simp]: "bo_key (bo_of_block sz b) = blk_key b"
  by (simp add: bo_key_def bo_of_block_def blk_key_def)

text \<open>The blocks a caller of the pool holds: those in use that do not start a buffer object.\<close>

definition lent :: "iaic_pool \<Rightarrow> (u32 \<times> u32 \<times> int \<times> u32) multiset" where
  "lent c = image_mset blk_key (mset (filter (\<lambda>b. \<not> is_bo b) (used_blocks (pool_blocks c))))"

text \<open>The bytes the callers share: the free ones and the lent ones.\<close>

definition pool_bytes :: "iaic_pool \<Rightarrow> nat" where
  "pool_bytes c = idle_bytes (pool_blocks c) + (\<Sum>(a, n, h, v)\<in>#lent c. unat n)"

lemma idle_bytes_append [simp]: "idle_bytes (xs @ ys) = idle_bytes xs + idle_bytes ys"
  by (simp add: idle_bytes_def)

lemma idle_bytes_simps [simp]: "idle_bytes [] = 0"
  "idle_bytes (b # bs) = (if idle b then unat (blk_size b) else 0) + idle_bytes bs"
  by (simp_all add: idle_bytes_def)

lemma takeWhile_idle: "first_used bs \<Longrightarrow> \<forall>q \<in> set (takeWhile idle bs). \<not> is_bo q"
  by (auto simp: first_used_def dest: set_takeWhileD)

lemma first_used_append [simp]: "first_used (xs @ ys) \<longleftrightarrow> first_used xs \<and> first_used ys"
  by (auto simp: first_used_def)

lemma first_used_simps [simp]:
  "first_used []" "first_used (b # bs) \<longleftrightarrow> (is_bo b \<longrightarrow> \<not> idle b) \<and> first_used bs"
  by (auto simp: first_used_def)

text \<open>The loops of the free stop at a used block, and take only idle ones.\<close>

lemma absorb_prev_keeps:
  assumes "absorb_prev qs b = (qs', b')" "first_used qs" "\<not> is_bo b"
  shows "\<exists>ds. qs = ds @ qs' \<and> (\<forall>d \<in> set ds. idle d \<and> \<not> is_bo d) \<and> (qs' = [] \<or> \<not> idle (hd qs'))"
  using assms
proof (induction qs arbitrary: b)
  case (Cons q qs)
  show ?case
  proof (cases "idle q")
    case True
    with Cons.prems have "\<not> is_bo q" by simp
    with Cons True obtain ds where "qs = ds @ qs'" "\<forall>d \<in> set ds. idle d \<and> \<not> is_bo d" "qs' = [] \<or> \<not> idle (hd qs')"
      by fastforce
    with True \<open>\<not> is_bo q\<close> show ?thesis by (intro exI [of _ "q # ds"]) simp
  qed (use Cons.prems in auto)
qed simp

lemma absorb_next_keeps:
  assumes "absorb_next qs b = (qs', b')" "first_used qs"
  shows "\<exists>ds. qs = ds @ qs' \<and> (\<forall>d \<in> set ds. idle d \<and> \<not> is_bo d) \<and> (qs' = [] \<or> \<not> idle (hd qs'))"
  using assms
proof (induction qs arbitrary: b)
  case (Cons q qs)
  show ?case
  proof (cases "idle q")
    case True
    with Cons.prems have "\<not> is_bo q" by simp
    with Cons True obtain ds where "qs = ds @ qs'" "\<forall>d \<in> set ds. idle d \<and> \<not> is_bo d" "qs' = [] \<or> \<not> idle (hd qs')"
      by fastforce
    with True \<open>\<not> is_bo q\<close> show ?thesis by (intro exI [of _ "q # ds"]) simp
  qed (use Cons.prems in auto)
qed simp

lemma coalesced_carve:
  assumes "coalesced (pre @ b # post)" "idle b" "\<not> is_bo b"
  shows "coalesced (pre @ carve n b @ post)"
  using assms by (cases post) (auto simp: coalesced_def carve_def successively_append_iff)

lemma filter_none: "\<forall>d \<in> set ds. \<not> P d \<Longrightarrow> filter P ds = []"
  by (induction ds) auto

text \<open>What an operation keeps: the blocks that start buffer objects stay.\<close>

definition kept :: "iaic_pool \<Rightarrow> iaic_pool \<Rightarrow> bool" where
  "kept c c' \<longleftrightarrow> filter is_bo (pool_blocks c') = filter is_bo (pool_blocks c) \<and>
     (coalesced (pool_blocks c) \<longrightarrow> coalesced (pool_blocks c'))"

lemma first_used_subset: "first_used xs \<Longrightarrow> set ys \<subseteq> set xs \<Longrightarrow> first_used ys"
  by (auto simp: first_used_def)

lemma first_used_rev [simp]: "first_used (rev bs) \<longleftrightarrow> first_used bs"
  by (simp add: first_used_def)

text \<open>An allocation that finds a block.\<close>

lemma pool_alloc_step:
  assumes "pool_inv c" "first_used (pool_blocks c)" "sys_malloc sys" "0 < align_64 sz"
    "\<exists>b \<in> set (pool_blocks c). idle b \<and> align_64 sz \<le> blk_size b"
  shows "\<exists>bo c'. iaic_fast_alloc_bo fuel sys thread sz c d = Inr (IAIC_CODE_OK, Some bo, c', d) \<and>
    pool_inv c' \<and> first_used (pool_blocks c') \<and> lent c' = add_mset (bo_key bo) (lent c) \<and>
    pool_bytes c' = pool_bytes c \<and> kept c c' \<and> ib_size bo = sz \<and> sz \<le> ib_esize bo"
proof -
  have wf: "pool_wf c" "\<not> lock_word c" using assms(1) by (simp_all add: pool_inv_def)
  from fast_alloc_refines [OF wf assms(3) refl, of sz fuel thread d] assms(5)
  obtain pre b post c' where pb: "pool_blocks c = pre @ b # post" "idle b" "align_64 sz \<le> blk_size b"
    and run: "iaic_fast_alloc_bo fuel sys thread sz c d =
      Inr (IAIC_CODE_OK, Some (bo_of_block sz (hd (carve (align_64 sz) b))), c', d)"
    and c': "pool_wf c'" "\<not> lock_word c'" "pool_blocks c' = pre @ carve (align_64 sz) b @ post"
    by blast
  let ?b = "hd (carve (align_64 sz) b)"
  have inv: "blocks_inv (pre @ b # post)" using assms(1) pb(1) by (simp add: pool_inv_def)
  note carved = carve_inv [OF inv pb(2) assms(4) pb(3)]
  have nb: "\<not> is_bo b" using assms(2) pb(1,2) by auto
  then have first: "first_used (carve (align_64 sz) b)" "\<not> is_bo ?b" by (auto simp: carve_def)
  have sz: "sz \<le> blk_size ?b"
    using align_64_le [OF assms(4)] pb(3) by (auto simp: carve_def)
  have lent: "lent c' = add_mset (blk_key ?b) (lent c)"
    using pb(1,2) c'(3) carved(2) first(2) by (simp add: lent_def)
  moreover have "idle_bytes (carve (align_64 sz) b) + unat (blk_size ?b) = unat (blk_size b)"
    using idle_plus_used [of "carve (align_64 sz) b"] carved(2,3) by simp
  ultimately have "pool_bytes c' = pool_bytes c"
    using pb(1,2) c'(3) by (simp add: pool_bytes_def blk_key_def)
  moreover have "first_used (pool_blocks c')" using first(1) assms(2) pb(1) c'(3) by simp
  moreover have "pool_inv c'" using c' carved(1) by (simp add: pool_inv_def)
  moreover have "kept c c'"
    using pb(1) c'(3) nb coalesced_carve [of pre b post] pb(2) by (auto simp: kept_def carve_def)
  ultimately show ?thesis using run sz lent
    by (intro exI [of _ "bo_of_block sz ?b"] exI [of _ c'] conjI) (simp_all, simp_all add: bo_of_block_def)
qed

text \<open>Giving a block back.\<close>

lemma pool_free_step:
  assumes "pool_inv c" "first_used (pool_blocks c)" "bo_key bo \<in># lent c"
  shows "\<exists>c'. iaic_fast_free_bo fuel sys bo c d = Inr (IAIC_CODE_OK, c', d) \<and>
    pool_inv c' \<and> first_used (pool_blocks c') \<and> lent c = add_mset (bo_key bo) (lent c') \<and>
    pool_bytes c' = pool_bytes c \<and> kept c c'"
proof -
  have wf: "pool_wf c" "\<not> lock_word c" and inv: "blocks_inv (pool_blocks c)"
    using assms(1) by (simp_all add: pool_inv_def)
  from assms(3) obtain b where b: "b \<in> set (pool_blocks c)" "\<not> idle b" "\<not> is_bo b" "bo_key bo = blk_key b"
    by (auto simp: lent_def used_blocks_def)
  then have key: "ib_paddr bo = blk_paddr b" "ib_handle bo = blk_handle b" by (simp_all add: bo_key_def blk_key_def)
  have "blk_handle b \<noteq> 0" using inv b(1) by (auto simp: blocks_inv_def fits_def)
  with key have h: "ib_handle bo \<noteq> 0" by simp
  from b(1) obtain pre post where pb: "pool_blocks c = pre @ b # post" by (meson split_list)
  let ?b = "b\<lparr>idle := True\<rparr>"
  obtain rpre b1 where prev: "absorb_prev (rev pre) ?b = (rpre, b1)" by (cases "absorb_prev (rev pre) ?b")
  obtain post' b2 where nxt: "absorb_next post b1 = (post', b2)" by (cases "absorb_next post b1")
  have idle: "blocks_inv (pre @ ?b # post)"
  proof -
    have fb: "fits b" using inv b(1) by (auto simp: blocks_inv_def)
    have "blocks_inv (pre @ [b] @ post)" using inv pb by simp
    then have "blocks_inv (pre @ [?b] @ post)"
      by (rule blocks_inv_replace)
        (use fb b(3) in \<open>auto simp: fits_def extent_def next_ok_def\<close>)
    then show ?thesis by simp
  qed
  have p: "blocks_inv (rev rpre @ b1 # post) \<and> idle b1 \<and> \<not> is_bo b1 \<and>
      used_blocks (rev rpre) = used_blocks pre \<and>
      bytes_of (rev rpre) + unat (blk_size b1) = bytes_of pre + unat (blk_size b)"
    using absorb_prev_inv [of "rev pre" ?b post rpre b1] idle b(3) prev by simp
  have "\<forall>q \<in> set (takeWhile idle post). \<not> is_bo q"
    using assms(2) pb by (intro takeWhile_idle) simp
  with p have n: "blocks_inv (rev rpre @ b2 # post') \<and> idle b2 \<and> \<not> is_bo b2 \<and> used_blocks post' = used_blocks post \<and>
      bytes_of post' + unat (blk_size b2) = bytes_of post + unat (blk_size b1)"
    by (intro absorb_next_inv [OF _ _ _ nxt]) simp_all
  from fast_free_refines [OF wf h key(1) pb blocks_inv_distinct_paddr [OF inv] prev nxt, of fuel sys d] n
  obtain c' where run: "iaic_fast_free_bo fuel sys bo c d = Inr (IAIC_CODE_OK, c', d)"
    and c': "pool_wf c'" "\<not> lock_word c'" "pool_blocks c' = rev rpre @ b2 # post'" by blast
  have inv': "pool_inv c'" using c' n by (simp add: pool_inv_def)
  have fu: "first_used (rev pre)" "first_used post" using assms(2) pb by simp_all
  from absorb_prev_keeps [OF prev fu(1)] b(3) obtain ds where
    ds: "rev pre = ds @ rpre" "\<forall>d \<in> set ds. idle d \<and> \<not> is_bo d" "rpre = [] \<or> \<not> idle (hd rpre)" by auto
  from absorb_next_keeps [OF nxt fu(2)] obtain es where
    es: "post = es @ post'" "\<forall>d \<in> set es. idle d \<and> \<not> is_bo d" "post' = [] \<or> \<not> idle (hd post')" by auto
  have pre: "pre = rev rpre @ rev ds" using arg_cong [OF ds(1), of rev] by simp
  have "first_used (pool_blocks c')"
    using c'(3) n assms(2) pb pre es(1) by simp
  moreover have "kept c c'"
  proof -
    have "filter is_bo ds = []" "filter is_bo es = []" using ds(2) es(2) by (auto intro: filter_none)
    moreover have "coalesced (pool_blocks c')" if "coalesced (pool_blocks c)"
      using that ds(3) es(3) c'(3) unfolding pb pre es(1) coalesced_def
      by (auto simp: successively_append_iff last_rev successively_Cons)
    ultimately show ?thesis using c'(3) pb pre es(1) b(3) n by (simp add: kept_def rev_filter [symmetric])
  qed
  moreover have lent: "lent c = add_mset (bo_key bo) (lent c')"
    using c'(3) n p b pb by (simp add: lent_def)
  moreover have "idle_bytes (pool_blocks c') = idle_bytes (pool_blocks c) + unat (blk_size b)"
    using c'(3) n p pb b(2) idle_plus_used [of pre] idle_plus_used [of "rev rpre"]
      idle_plus_used [of post] idle_plus_used [of post'] by simp
  then have "pool_bytes c' = pool_bytes c"
    by (simp add: pool_bytes_def lent b(4) blk_key_def)
  ultimately show ?thesis using run inv' by (intro exI conjI)
qed

text \<open>First fit on the list of blocks: what an allocation is.\<close>

fun spec_alloc :: "u32 \<Rightarrow> block list \<Rightarrow> (block \<times> block list) option" where
  "spec_alloc n [] = None"
| "spec_alloc n (b # bs) = (if idle b \<and> n \<le> blk_size b then Some (hd (carve n b), carve n b @ bs)
     else map_option (\<lambda>(x, ys). (x, b # ys)) (spec_alloc n bs))"

lemma spec_alloc_fit:
  "\<forall>q \<in> set pre. \<not> (idle q \<and> n \<le> blk_size q) \<Longrightarrow> idle b \<Longrightarrow> n \<le> blk_size b \<Longrightarrow>
   spec_alloc n (pre @ b # post) = Some (hd (carve n b), pre @ carve n b @ post)"
  by (induction pre) auto

lemma spec_alloc_none: "spec_alloc n bs = None \<longleftrightarrow> (\<forall>b \<in> set bs. \<not> (idle b \<and> n \<le> blk_size b))"
  by (induction bs) auto

lemma alloc_implements_spec:
  assumes "pool_wf c" "\<not> lock_word c" "sys_malloc sys"
    "spec_alloc (align_64 sz) (pool_blocks c) = Some (b, bs)"
  shows "\<exists>c'. iaic_fast_alloc_bo fuel sys thread sz c d = Inr (IAIC_CODE_OK, Some (bo_of_block sz b), c', d) \<and>
    pool_wf c' \<and> \<not> lock_word c' \<and> pool_blocks c' = bs"
proof -
  have "\<not> (\<forall>b \<in> set (pool_blocks c). \<not> (idle b \<and> align_64 sz \<le> blk_size b))"
    using assms(4) spec_alloc_none [of "align_64 sz" "pool_blocks c"] by auto
  with fast_alloc_refines [OF assms(1-3) refl, of sz fuel thread d]
  obtain pre b0 post c' where pb: "pool_blocks c = pre @ b0 # post" "idle b0" "align_64 sz \<le> blk_size b0"
    "\<forall>q \<in> set pre. \<not> (idle q \<and> align_64 sz \<le> blk_size q)"
    and run: "iaic_fast_alloc_bo fuel sys thread sz c d =
      Inr (IAIC_CODE_OK, Some (bo_of_block sz (hd (carve (align_64 sz) b0))), c', d)"
    and c': "pool_wf c'" "\<not> lock_word c'" "pool_blocks c' = pre @ carve (align_64 sz) b0 @ post" by blast
  from spec_alloc_fit [OF pb(4,2,3), of post] assms(4) pb(1)
  have "b = hd (carve (align_64 sz) b0)" "bs = pre @ carve (align_64 sz) b0 @ post" by simp_all
  with run c' show ?thesis by (intro exI [of _ c']) simp
qed

section \<open>Callers of the pool\<close>

text \<open>A caller asks for blocks and gives back blocks it holds, in any order; an allocation
  may fail, which it sees.\<close>

datatype pool_call = Alloc u32 | Free nat

fun run_pool_calls :: "(u32 \<Rightarrow> 's \<Rightarrow> fault + ('h option \<times> 's)) \<Rightarrow> ('h \<Rightarrow> 's \<Rightarrow> fault + 's) \<Rightarrow>
    pool_call list \<Rightarrow> 's \<Rightarrow> 'h list \<Rightarrow> fault + ('s \<times> 'h list)" where
  "run_pool_calls alloc free [] s held = Inr (s, held)"
| "run_pool_calls alloc free (Alloc n # cs) s held = res_bind (alloc n s) (\<lambda>(h, s).
     run_pool_calls alloc free cs s (case h of None \<Rightarrow> held | Some x \<Rightarrow> held @ [x]))"
| "run_pool_calls alloc free (Free i # cs) s held =
     (if i < length held
      then res_bind (free (held ! i) s) (\<lambda>s. run_pool_calls alloc free cs s (take i held @ drop (Suc i) held))
      else run_pool_calls alloc free cs s held)"

text \<open>What a caller relies on: what is lent out is what was asked for and not given back,
  and the bytes the allocator manages stay the same.\<close>

locale lending =
  fixes good :: "'s \<Rightarrow> bool" and out :: "'s \<Rightarrow> 'k multiset" and total :: "'s \<Rightarrow> 't"
    and wants :: "u32 \<Rightarrow> bool" and key :: "'h \<Rightarrow> 'k" and serves :: "u32 \<Rightarrow> 'h \<Rightarrow> bool"
    and alloc :: "u32 \<Rightarrow> 's \<Rightarrow> fault + ('h option \<times> 's)" and free :: "'h \<Rightarrow> 's \<Rightarrow> fault + 's"
  assumes alloc_law: "good s \<Longrightarrow> wants n \<Longrightarrow> \<exists>h s'. alloc n s = Inr (h, s') \<and> good s' \<and> total s' = total s \<and>
      (case h of None \<Rightarrow> out s' = out s | Some x \<Rightarrow> out s' = add_mset (key x) (out s) \<and> serves n x)"
    and free_law: "good s \<Longrightarrow> key h \<in># out s \<Longrightarrow> \<exists>s'. free h s = Inr s' \<and> good s' \<and> total s' = total s \<and>
      out s = add_mset (key h) (out s')"
begin

lemma mset_drop_nth:
  "i < length xs \<Longrightarrow> mset xs = add_mset (xs ! i) (mset (take i xs @ drop (Suc i) xs))"
  by (metis id_take_nth_drop mset.simps(2) mset_append union_mset_add_mset_right)

lemma ledger:
  assumes "good s" "image_mset key (mset held) = out s" "\<forall>n. Alloc n \<in> set cs \<longrightarrow> wants n"
  shows "\<exists>s' held'. run_pool_calls alloc free cs s held = Inr (s', held') \<and> good s' \<and>
    image_mset key (mset held') = out s' \<and> total s' = total s"
  using assms
proof (induction cs arbitrary: s held)
  case (Cons cl cs)
  have rest: "\<forall>n. Alloc n \<in> set cs \<longrightarrow> wants n" using Cons.prems(3) by simp
  show ?case
  proof (cases cl)
    case (Alloc n)
    then have "wants n" using Cons.prems(3) by simp
    from alloc_law [OF Cons.prems(1) this] obtain h s1 where a: "alloc n s = Inr (h, s1)" "good s1" "total s1 = total s"
      "case h of None \<Rightarrow> out s1 = out s | Some x \<Rightarrow> out s1 = add_mset (key x) (out s) \<and> serves n x" by blast
    let ?held = "case h of None \<Rightarrow> held | Some x \<Rightarrow> held @ [x]"
    have "image_mset key (mset ?held) = out s1" using a(4) Cons.prems(2) by (cases h) simp_all
    from Cons.IH [OF a(2) this rest] a(1,3) Alloc show ?thesis by simp
  next
    case (Free i)
    show ?thesis
    proof (cases "i < length held")
      case True
      let ?held = "take i held @ drop (Suc i) held"
      have m: "out s = add_mset (key (held ! i)) (image_mset key (mset ?held))"
        unfolding Cons.prems(2) [symmetric] by (subst mset_drop_nth [OF True]) simp
      then have "key (held ! i) \<in># out s" by simp
      from free_law [OF Cons.prems(1) this] obtain s1 where f: "free (held ! i) s = Inr s1" "good s1"
        "total s1 = total s" "out s = add_mset (key (held ! i)) (out s1)" by blast
      have "image_mset key (mset ?held) = out s1" using m f(4) by simp
      from Cons.IH [OF f(2) this rest] f(1,3) Free True show ?thesis by simp
    next
      case False
      with Cons.IH [OF Cons.prems(1,2) rest] Free show ?thesis by simp
    qed
  qed
qed simp

end

text \<open>A driver that has no memory left: the append fails and the library sees handle 0.\<close>

definition out_of_memory :: "'d sys \<Rightarrow> bool" where
  "out_of_memory sys \<longleftrightarrow> (\<forall>n d. \<exists>r d'. r \<noteq> - EINTR \<and> r \<noteq> - EAGAIN \<and>
     sys_bo sys \<lparr>bo_op = AIP_BO_OP_APPEND, io_size = n, io_handle = 0, io_paddr = 0\<rparr> d =
       Inr (r, \<lparr>bo_op = AIP_BO_OP_APPEND, io_size = n, io_handle = 0, io_paddr = 0\<rparr>, d'))"

lemma last_idle_returns: "set ps \<subseteq> dom h \<Longrightarrow> \<exists>r. last_idle h ps = Inr r"
proof (induction ps)
  case (Cons p ps)
  then show ?case by (cases "h p") (auto simp: domIff)
qed simp

lemma pool_alloc_fails:
  assumes "pool_inv c" "out_of_memory sys" "0 < fuel"
    "\<forall>b \<in> set (pool_blocks c). \<not> (idle b \<and> align_64 sz \<le> blk_size b)"
  shows "\<exists>d'. iaic_fast_alloc_bo fuel sys thread sz c d = Inr (IAIC_CODE_BO_CREATE_FAIL, None, c, d')"
proof -
  have live: "set (bo_list c) \<subseteq> dom (blocks c)" and free: "\<not> lock_word c"
    using assms(1) by (auto simp: pool_inv_def pool_wf_def)
  have find: "find_fit (blocks c) (align_64 sz) (bo_list c) = Inr None"
    using find_fit_spec [OF live, of "align_64 sz"] assms(4) by (auto simp: pool_blocks_def)
  obtain t where t: "last_idle (blocks c) (rev (bo_list c)) = Inr t"
    using last_idle_returns [of "rev (bo_list c)" "blocks c"] live by auto
  let ?io = "\<lparr>bo_op = AIP_BO_OP_APPEND, io_size = sz, io_handle = 0, io_paddr = 0\<rparr>"
  obtain r d' where "sys_bo sys ?io d = Inr (r, ?io, d')" "r \<noteq> - EINTR" "r \<noteq> - EAGAIN"
    using assms(2) unfolding out_of_memory_def by blast
  then have "iaic_ioctl fuel (sys_bo sys) ?io d = Inr (r, ?io, d')" using assms(3) by (intro iaic_ioctl_once)
  then have "create_bo_node fuel sys sz c' d = Inr (IAIC_CODE_other (- 1), c', d')" for c'
    by (simp add: create_bo_node_def)
  moreover have "c\<lparr>lock_word := False\<rparr> = c" using free by simp
  ultimately show ?thesis
    using find t free by (simp add: iaic_fast_alloc_bo_def pool_lock_def iaic_get_bo_free_def Let_def)
qed

definition client_alloc :: "nat \<Rightarrow> 'd sys \<Rightarrow> u32 \<Rightarrow> u32 \<Rightarrow> iaic_pool \<times> 'd \<Rightarrow>
    fault + (iaic_bo option \<times> iaic_pool \<times> 'd)" where
  "client_alloc fuel sys thread n s =
     res_bind (iaic_fast_alloc_bo fuel sys thread n (fst s) (snd s)) (\<lambda>(r, bo, c, d). Inr (bo, c, d))"

definition client_free :: "nat \<Rightarrow> 'd sys \<Rightarrow> iaic_bo \<Rightarrow> iaic_pool \<times> 'd \<Rightarrow> fault + (iaic_pool \<times> 'd)" where
  "client_free fuel sys bo s =
     res_bind (iaic_fast_free_bo fuel sys bo (fst s) (snd s)) (\<lambda>(r, c, d). Inr (c, d))"

definition pool_good :: "nat \<Rightarrow> 'd sys \<Rightarrow> iaic_pool \<times> 'd \<Rightarrow> bool" where
  "pool_good fuel sys s \<longleftrightarrow> pool_inv (fst s) \<and> first_used (pool_blocks (fst s)) \<and> coalesced (pool_blocks (fst s)) \<and>
     out_of_memory sys \<and> sys_malloc sys \<and> 0 < fuel"

interpretation pool: lending "pool_good fuel sys" "\<lambda>s. lent (fst s)" "\<lambda>s. (pool_bytes (fst s), filter is_bo (pool_blocks (fst s)))"
    "\<lambda>n. 0 < align_64 n" bo_key "\<lambda>n bo. ib_size bo = n \<and> n \<le> ib_esize bo"
    "client_alloc fuel sys thread" "client_free fuel sys" for fuel sys thread
proof
  fix s :: "iaic_pool \<times> 'a" and n
  assume good: "pool_good fuel sys s" and n: "0 < align_64 n"
  then have g: "pool_inv (fst s)" "first_used (pool_blocks (fst s))" "coalesced (pool_blocks (fst s))" "out_of_memory sys" "sys_malloc sys" "0 < fuel"
    by (simp_all add: pool_good_def)
  show "\<exists>h s'. client_alloc fuel sys thread n s = Inr (h, s') \<and> pool_good fuel sys s' \<and>
      (pool_bytes (fst s'), filter is_bo (pool_blocks (fst s'))) =
        (pool_bytes (fst s), filter is_bo (pool_blocks (fst s))) \<and> (case h of None \<Rightarrow> lent (fst s') = lent (fst s)
      | Some x \<Rightarrow> lent (fst s') = add_mset (bo_key x) (lent (fst s)) \<and> ib_size x = n \<and> n \<le> ib_esize x)"
  proof (cases "\<exists>b \<in> set (pool_blocks (fst s)). idle b \<and> align_64 n \<le> blk_size b")
    case True
    from pool_alloc_step [OF g(1,2,5) n True, of fuel thread "snd s"] g(3-6) show ?thesis
      by (auto simp: client_alloc_def pool_good_def kept_def)
  next
    case False
    then obtain d' where "iaic_fast_alloc_bo fuel sys thread n (fst s) (snd s) =
        Inr (IAIC_CODE_BO_CREATE_FAIL, None, fst s, d')"
      using g pool_alloc_fails [of "fst s" sys fuel n thread "snd s"] by auto
    then show ?thesis using good by (simp add: client_alloc_def pool_good_def)
  qed
next
  fix s :: "iaic_pool \<times> 'a" and bo
  assume "pool_good fuel sys s" "bo_key bo \<in># lent (fst s)"
  then show "\<exists>s'. client_free fuel sys bo s = Inr s' \<and> pool_good fuel sys s' \<and>
      (pool_bytes (fst s'), filter is_bo (pool_blocks (fst s'))) =
        (pool_bytes (fst s), filter is_bo (pool_blocks (fst s))) \<and> lent (fst s) = add_mset (bo_key bo) (lent (fst s'))"
    using pool_free_step [of "fst s" bo fuel sys "snd s"] by (fastforce simp: client_free_def pool_good_def kept_def)
qed

lemma sorted_wrt_mset_eq:
  assumes "sorted_wrt R xs" "mset xs = mset ys" "\<And>x y. R x y \<Longrightarrow> R y x"
  shows "sorted_wrt R ys"
  using assms(1,2)
proof (induction ys arbitrary: xs)
  case (Cons y ys)
  have "y \<in> set xs" using Cons.prems(2) by (metis list.set_intros(1) mset_eq_setD)
  then obtain pre post where xs: "xs = pre @ y # post" by (meson split_list)
  have m: "mset (pre @ post) = mset ys" using Cons.prems(2) xs by simp
  have "sorted_wrt R (pre @ post)" using Cons.prems(1) xs by (simp add: sorted_wrt_append)
  from Cons.IH [OF this m] have "sorted_wrt R ys" .
  moreover have "\<forall>x \<in> set (pre @ post). R y x" using Cons.prems(1) xs assms(3) by (auto simp: sorted_wrt_append)
  then have "\<forall>x \<in> set ys. R y x" using mset_eq_setD [OF m] by simp
  ultimately show ?case by simp
qed simp

definition ranges_apart :: "iaic_bo \<Rightarrow> iaic_bo \<Rightarrow> bool" where
  "ranges_apart x y \<longleftrightarrow> unat (ib_paddr x) + unat (ib_esize x) \<le> unat (ib_paddr y) \<or>
     unat (ib_paddr y) + unat (ib_esize y) \<le> unat (ib_paddr x)"

definition keys_apart :: "u32 \<times> u32 \<times> int \<times> u32 \<Rightarrow> u32 \<times> u32 \<times> int \<times> u32 \<Rightarrow> bool" where
  "keys_apart x y \<longleftrightarrow> unat (fst x) + unat (fst (snd x)) \<le> unat (fst y) \<or>
     unat (fst y) + unat (fst (snd y)) \<le> unat (fst x)"

lemma apart_keys: "apart x y \<Longrightarrow> fits x \<Longrightarrow> fits y \<Longrightarrow> keys_apart (blk_key x) (blk_key y)"
  by (auto simp: apart_def extent_def keys_apart_def blk_key_def fits_def word_less_nat_alt)

text \<open>What callers hold does not overlap.\<close>

lemma lent_apart:
  assumes "blocks_inv (pool_blocks c)" "image_mset bo_key (mset held) = lent c"
  shows "sorted_wrt ranges_apart held"
proof -
  let ?bs = "filter (\<lambda>b. \<not> is_bo b) (used_blocks (pool_blocks c))"
  have "sorted_wrt apart ?bs" "\<forall>b \<in> set ?bs. fits b"
    using assms(1) by (auto simp: blocks_inv_def used_blocks_def sorted_wrt_filter)
  then have "sorted_wrt keys_apart (map blk_key ?bs)"
    unfolding sorted_wrt_map by (elim sorted_wrt_mono_rel [rotated]) (auto intro: apart_keys)
  moreover have "mset (map blk_key ?bs) = mset (map bo_key held)"
    using assms(2) by (simp add: lent_def)
  ultimately have "sorted_wrt keys_apart (map bo_key held)"
    by (rule sorted_wrt_mset_eq) (auto simp: keys_apart_def)
  then have "sorted_wrt (\<lambda>x y. keys_apart (bo_key x) (bo_key y)) held" by (simp add: sorted_wrt_map)
  then show ?thesis by (rule sorted_wrt_mono_rel [rotated]) (simp add: keys_apart_def ranges_apart_def bo_key_def)
qed

text \<open>A pool as \<open>iaic_ctx_init\<close> leaves it: one buffer object, its first block in use.\<close>

definition fresh_pool :: "iaic_pool \<Rightarrow> block \<Rightarrow> block \<Rightarrow> bool" where
  "fresh_pool c f r \<longleftrightarrow> pool_inv c \<and> pool_blocks c = [f, r] \<and> \<not> idle f \<and> idle r \<and> \<not> is_bo r"

lemma fresh_pool_good:
  assumes "fresh_pool c f r"
  shows "is_bo f" "first_used (pool_blocks c)" "coalesced (pool_blocks c)" "lent c = {#}"
    "pool_bytes c = unat (blk_size r)" "filter is_bo (pool_blocks c) = [f]"
proof -
  show f: "is_bo f" using assms by (auto simp: fresh_pool_def pool_inv_def blocks_inv_def)
  show "first_used (pool_blocks c)" "coalesced (pool_blocks c)" "filter is_bo (pool_blocks c) = [f]"
    using assms f by (auto simp: fresh_pool_def coalesced_def)
  show "lent c = {#}" using assms f by (simp add: fresh_pool_def lent_def)
  then show "pool_bytes c = unat (blk_size r)" using assms by (simp add: fresh_pool_def pool_bytes_def)
qed

text \<open>When everything came back, the pool is what it was.\<close>

lemma all_idle_alone:
  "coalesced xs \<Longrightarrow> \<forall>x \<in> set xs. idle x \<and> \<not> is_bo x \<Longrightarrow> xs = [] \<or> (\<exists>x. xs = [x])"
  by (cases xs; cases "tl xs") (auto simp: coalesced_def)

lemma returned_pool:
  assumes c: "fresh_pool c f r" and c': "pool_inv c'" "coalesced (pool_blocks c')" "lent c' = {#}"
    "pool_bytes c' = pool_bytes c" "filter is_bo (pool_blocks c') = filter is_bo (pool_blocks c)"
  shows "pool_blocks c' = [f, r]"
proof -
  note g = fresh_pool_good [OF c]
  have inv': "blocks_inv (pool_blocks c')" using c'(1) by (simp add: pool_inv_def)
  have f': "filter is_bo (pool_blocks c') = [f]" using c'(5) g(6) by simp
  then obtain x xs where bs: "pool_blocks c' = x # xs" by (cases "pool_blocks c'") auto
  have "is_bo x" using inv' bs by (simp add: blocks_inv_def)
  with f' bs have x: "x = f" and nb: "\<forall>y \<in> set xs. \<not> is_bo y" by (auto simp: filter_empty_conv)
  have "\<forall>y \<in> set (pool_blocks c'). \<not> idle y \<longrightarrow> is_bo y"
    using c'(3) by (auto simp: lent_def used_blocks_def filter_empty_conv)
  then have "\<forall>y \<in> set xs. idle y" using nb bs by auto
  moreover have "coalesced xs" using c'(2) bs by (cases xs) (auto simp: coalesced_def)
  ultimately have alone: "xs = [] \<or> (\<exists>y. xs = [y])" using nb by (intro all_idle_alone) auto
  have rf: "fits r" "next_ok f r" and r: "idle r" "\<not> is_bo r" "\<not> idle f"
    using c by (auto simp: fresh_pool_def pool_inv_def blocks_inv_def)
  have sz: "idle_bytes (pool_blocks c') = unat (blk_size r)"
    using c'(3,4) g(5) by (simp add: pool_bytes_def)
  with rf r x bs have "xs \<noteq> []" by (auto simp: fits_def word_less_nat_alt)
  with alone obtain y where y: "xs = [y]" by blast
  then have yi: "idle y" "\<not> is_bo y" "next_ok f y" using \<open>\<forall>y \<in> set xs. idle y\<close> nb inv' bs x by (auto simp: blocks_inv_def)
  then have "unat (blk_size y) = unat (blk_size r)" using sz bs y x r by simp
  moreover have "unat (blk_paddr y) = unat (blk_paddr r)" "blk_handle y = blk_handle r"
    using yi rf r by (auto simp: next_ok_def)
  moreover have "blk_vaddr y - blk_paddr y = blk_vaddr r - blk_paddr r"
    using yi rf r by (auto simp: next_ok_def)
  ultimately have "blk_size y = blk_size r" "blk_paddr y = blk_paddr r" "blk_handle y = blk_handle r"
    "blk_vaddr y - blk_paddr y = blk_vaddr r - blk_paddr r" by (simp_all add: word_unat_eq_iff)
  then have "y = r" using yi r by (auto intro!: block.equality)
  then show ?thesis using bs y x by simp
qed

section \<open>What the pool promises\<close>

text \<open>A pool of 64 kB behind a shared first block, and a driver without memory.\<close>

definition sample_first :: block where
  "sample_first = \<lparr>blk_size = 0x100000, idle = False, is_bo = True, blk_handle = 1,
     blk_paddr = 0x6000000, blk_vaddr = 0x70000000\<rparr>"

definition sample_rest :: block where
  "sample_rest = \<lparr>blk_size = 0x10000, idle = True, is_bo = False, blk_handle = 1,
     blk_paddr = 0x6100000, blk_vaddr = 0x70100000\<rparr>"

definition started_pool :: iaic_pool where
  "started_pool = \<lparr>max_mem_size = 0x110000, bo_list = [0, 1],
     blocks = [0 \<mapsto> sample_first, 1 \<mapsto> sample_rest], blk_next = 2, lock_word = False\<rparr>"

definition no_mem_sys :: "unit sys" where
  "no_mem_sys = \<lparr>sys_bo = (\<lambda>io d. Inr (- EINVAL, io, d)), sys_mmap = (\<lambda>_ _. MAP_FAILED), sys_malloc = True\<rparr>"

lemma started_pool_fresh: "fresh_pool started_pool sample_first sample_rest"
  by (auto simp: fresh_pool_def pool_inv_def pool_wf_def pool_blocks_def started_pool_def blocks_inv_def
      sample_first_def sample_rest_def fits_def next_ok_def apart_def extent_def)

lemma no_mem_sys_ok: "out_of_memory no_mem_sys" "sys_malloc no_mem_sys"
  by (simp_all add: out_of_memory_def no_mem_sys_def EINVAL_def EINTR_def EAGAIN_def)

text \<open>C6. On a freshly started pool that cannot grow (\<open>out_of_memory\<close>: the driver refuses every further
  node, as when its memory is used up), whatever the callers do, every call returns, what they hold never
  overlaps, and together with the free bytes it is the memory there was. Sizes are those that do
  not become 0 when rounded up to 64 bytes. On a pool that grows the statement is false: see
  \<open>pool_grown_then_freed_dangles\<close> in \<open>IaicFaults\<close>.\<close>

theorem pool_ledger:
  assumes "fresh_pool c f r" "out_of_memory sys" "sys_malloc sys" "0 < fuel"
    "\<forall>n. Alloc n \<in> set cs \<longrightarrow> 0 < align_64 n"
  shows "\<exists>c' d' held. run_pool_calls (client_alloc fuel sys thread) (client_free fuel sys) cs (c, d) [] = Inr ((c', d'), held) \<and>
    sorted_wrt ranges_apart held \<and>
    idle_bytes (pool_blocks c') + (\<Sum>bo\<leftarrow>held. unat (ib_esize bo)) = unat (blk_size r)"
proof -
  note g = fresh_pool_good [OF assms(1)]
  have "pool_good fuel sys (c, d)" using assms(1-4) g(2,3) by (simp add: pool_good_def fresh_pool_def)
  from pool.ledger [OF this, of "[]" cs thread] g(4) assms(5) obtain s' held where
    run: "run_pool_calls (client_alloc fuel sys thread) (client_free fuel sys) cs (c, d) [] = Inr (s', held)"
    and s': "pool_good fuel sys s'" "image_mset bo_key (mset held) = lent (fst s')" "pool_bytes (fst s') = pool_bytes c"
    by auto
  have inv: "blocks_inv (pool_blocks (fst s'))" using s'(1) by (simp add: pool_good_def pool_inv_def)
  have "(\<Sum>(a, n, h, v)\<in>#lent (fst s'). unat n) = (\<Sum>bo\<leftarrow>held. unat (ib_esize bo))"
    unfolding s'(2) [symmetric] by (simp add: bo_key_def sum_mset_sum_list [symmetric] image_mset.compositionality comp_def del: sum_mset_sum_list)
  with s'(3) g(5) have "idle_bytes (pool_blocks (fst s')) + (\<Sum>bo\<leftarrow>held. unat (ib_esize bo)) = unat (blk_size r)"
    by (simp add: pool_bytes_def)
  with run lent_apart [OF inv s'(2)] show ?thesis
    by (intro exI [of _ "fst s'"] exI [of _ "snd s'"] exI [of _ held]) simp
qed

theorem pool_ledger_witness:
  "\<exists>c' d' held. run_pool_calls (client_alloc 1 no_mem_sys 0) (client_free 1 no_mem_sys)
      [Alloc 100, Alloc 0x8000, Free 0, Alloc 0x20000, Alloc 64] (started_pool, ()) [] = Inr ((c', d'), held) \<and>
    sorted_wrt ranges_apart held \<and>
    idle_bytes (pool_blocks c') + (\<Sum>bo\<leftarrow>held. unat (ib_esize bo)) = 0x10000"
proof -
  have "\<forall>n. Alloc n \<in> set [Alloc 100, Alloc 0x8000, Free 0, Alloc 0x20000, Alloc 64] \<longrightarrow> 0 < align_64 n"
    by (auto simp: align_64_def)
  from pool_ledger [OF started_pool_fresh no_mem_sys_ok _ this, of 1 0 "()"] show ?thesis
    by (simp add: sample_rest_def)
qed

text \<open>C27. When the callers have given everything back, the pool is exactly what
  it was: blocks were joined again, whatever the order of the calls. As in C6 the pool cannot grow
  (\<open>out_of_memory\<close>) and no size becomes 0 when it is rounded up to 64 bytes.\<close>

theorem pool_all_returned:
  assumes "fresh_pool c f r" "out_of_memory sys" "sys_malloc sys" "0 < fuel"
    "\<forall>n. Alloc n \<in> set cs \<longrightarrow> 0 < align_64 n"
    "run_pool_calls (client_alloc fuel sys thread) (client_free fuel sys) cs (c, d) [] = Inr ((c', d'), [])"
  shows "pool_blocks c' = [f, r]"
proof -
  note g = fresh_pool_good [OF assms(1)]
  have "pool_good fuel sys (c, d)" using assms(1-4) g(2,3) by (simp add: pool_good_def fresh_pool_def)
  from pool.ledger [OF this, of "[]" cs thread] g(4) assms(5,6)
  have "pool_good fuel sys (c', d')" "lent c' = {#}" "pool_bytes c' = pool_bytes c"
    "filter is_bo (pool_blocks c') = filter is_bo (pool_blocks c)" by auto
  then show ?thesis by (intro returned_pool [OF assms(1)]) (simp_all add: pool_good_def)
qed

theorem pool_all_returned_witness:
  "\<exists>c'. run_pool_calls (client_alloc 1 no_mem_sys 0) (client_free 1 no_mem_sys)
      [Alloc 0x1000, Free 0] (started_pool, ()) [] = Inr ((c', ()), []) \<and> pool_blocks c' = [sample_first, sample_rest]"
proof -
  have n: "\<forall>n. Alloc n \<in> set [Alloc 0x1000, Free 0] \<longrightarrow> 0 < align_64 n" by (auto simp: align_64_def)
  obtain c' where run: "run_pool_calls (client_alloc 1 no_mem_sys 0) (client_free 1 no_mem_sys)
      [Alloc 0x1000, Free 0] (started_pool, ()) [] = Inr ((c', ()), [])"
    by (simp add: client_alloc_def client_free_def iaic_fast_alloc_bo_def iaic_fast_free_bo_def pool_lock_def
        pool_unlock_def started_pool_def sample_first_def sample_rest_def align_64_def split_block_def
        bo_of_block_def no_mem_sys_def Let_def)
  from pool_all_returned [OF started_pool_fresh no_mem_sys_ok _ n run] run show ?thesis by auto
qed

text \<open>C26. An allocation from the pool is first fit on the list of its blocks: the
  pointer manipulation implements \<open>spec_alloc\<close>, and it touches no driver.\<close>

theorem pool_alloc_refines:
  assumes "pool_wf c" "\<not> lock_word c" "sys_malloc sys"
    "spec_alloc (align_64 sz) (pool_blocks c) = Some (b, bs)"
  shows "\<exists>c'. iaic_fast_alloc_bo fuel sys thread sz c d = Inr (IAIC_CODE_OK, Some (bo_of_block sz b), c', d) \<and>
    pool_wf c' \<and> \<not> lock_word c' \<and> pool_blocks c' = bs"
  by (rule alloc_implements_spec [OF assms])

theorem pool_alloc_refines_witness:
  "\<exists>c'. iaic_fast_alloc_bo 1 no_mem_sys 0 100 started_pool () = Inr (IAIC_CODE_OK,
      Some \<lparr>ib_size = 100, ib_esize = 128, ib_handle = 1, ib_paddr = 0x6100000,
        ib_vaddr = 0x70100000, ib_evaddr = 0x70100000\<rparr>, c', ()) \<and>
    map blk_size (pool_blocks c') = [0x100000, 128, 0xff80]"
proof -
  have "pool_wf started_pool" "\<not> lock_word started_pool"
    using started_pool_fresh by (simp_all add: fresh_pool_def pool_inv_def)
  moreover have "spec_alloc (align_64 100) (pool_blocks started_pool) =
      Some (sample_rest\<lparr>blk_size := 128, idle := False\<rparr>,
        [sample_first, sample_rest\<lparr>blk_size := 128, idle := False\<rparr>,
         sample_rest\<lparr>blk_size := 0xff80, blk_paddr := 0x6100080, blk_vaddr := 0x70100080\<rparr>])"
    by (simp add: pool_blocks_def started_pool_def sample_first_def sample_rest_def align_64_def carve_def)
  ultimately show ?thesis
    using pool_alloc_refines [of started_pool no_mem_sys 100 _ _ 1 0 "()"] no_mem_sys_ok
    by (fastforce simp: bo_of_block_def sample_first_def sample_rest_def)
qed

text \<open>A request so large that rounding it up wraps to 0 is granted: the caller
  gets a block of no bytes from the first idle block of 512 bytes or more, with
  \<open>IAIC_CODE_OK\<close>.\<close>

theorem pool_huge_request_granted:
  assumes "pool_wf c" "\<not> lock_word c" "sys_malloc sys" "0xffffffc0 < sz"
    "pool_blocks c = pre @ b # post" "\<forall>q \<in> set pre. \<not> idle q" "idle b" "0x200 \<le> blk_size b"
  shows "\<exists>bo c'. iaic_fast_alloc_bo fuel sys thread sz c d = Inr (IAIC_CODE_OK, Some bo, c', d) \<and>
    ib_size bo = sz \<and> ib_esize bo = 0 \<and> ib_paddr bo = blk_paddr b"
proof -
  have "unat sz < 2 ^ 32" using unsigned_less [of sz] by simp
  moreover have "0xffffffc0 < unat sz" using assms(4) by (simp add: word_less_nat_alt)
  ultimately have "(unat sz + 63) mod 2 ^ 32 div 64 = 0" by (simp add: mod_if)
  then have "unat (align_64 sz) = 0" by (simp add: unat_align_64)
  then have z: "align_64 sz = 0" by (simp add: unat_eq_0)
  have "carve 0 b = [b\<lparr>blk_size := 0, idle := False\<rparr>, b\<lparr>is_bo := False\<rparr>]"
    using assms(7,8) by (auto simp: carve_def word_less_nat_alt word_le_nat_alt intro!: block.equality)
  with assms(5-7) z have "spec_alloc (align_64 sz) (pool_blocks c) =
      Some (b\<lparr>blk_size := 0, idle := False\<rparr>, pre @ [b\<lparr>blk_size := 0, idle := False\<rparr>, b\<lparr>is_bo := False\<rparr>] @ post)"
    by (simp add: spec_alloc_fit)
  from alloc_implements_spec [OF assms(1-3) this, of fuel thread d] show ?thesis
    by (auto simp: bo_of_block_def)
qed

theorem pool_huge_request_granted_witness:
  "\<exists>bo c'. iaic_fast_alloc_bo 1 no_mem_sys 0 0xfffffff0 started_pool () = Inr (IAIC_CODE_OK, Some bo, c', ()) \<and>
    ib_size bo = 0xfffffff0 \<and> ib_esize bo = 0 \<and> ib_paddr bo = 0x6100000"
proof -
  have "pool_wf started_pool" "\<not> lock_word started_pool" "pool_blocks started_pool = [sample_first] @ sample_rest # []"
    using started_pool_fresh by (simp_all add: fresh_pool_def pool_inv_def)
  from pool_huge_request_granted [OF this(1,2) no_mem_sys_ok(2) _ this(3), where sz = "0xfffffff0" and fuel = "1" and thread = "0" and d = "()"] show ?thesis
    by (simp add: sample_first_def sample_rest_def)
qed

end
