(* ===== verification/IaicFaults.thy ===== *)
theory IaicFaults
  imports IaicPool
begin

text \<open>
  The library's memory on the driver of \<open>drive/jz_aip_v20_bo.c\<close>: what an allocation
  without the pool gives and gives back (the locale \<open>bo_driver\<close>, interpreted on the
  driver's calls), how the pool grows, and the cases \<open>lib/src/iaic_bo.c\<close> does not get
  right: the block that starts a buffer object, a failed \<open>mmap\<close>.
\<close>

section \<open>The contract of the driver\<close>

definition append_arg :: "u32 \<Rightarrow> ioctl_bo" where
  "append_arg n = \<lparr>bo_op = AIP_BO_OP_APPEND, io_size = n, io_handle = 0, io_paddr = 0\<rparr>"

definition destroy_arg :: "u32 \<Rightarrow> int \<Rightarrow> u32 \<Rightarrow> ioctl_bo" where
  "destroy_arg n h a = \<lparr>bo_op = AIP_BO_OP_DESTROY, io_size = n, io_handle = h, io_paddr = a\<rparr>"

text \<open>An append either fails and leaves handle 0, or gives a handle whose destruction
  brings back a state that is as good as the one before.\<close>

locale bo_driver =
  fixes call :: "ioctl_bo \<Rightarrow> 'd \<Rightarrow> fault + (int \<times> ioctl_bo \<times> 'd)"
    and good :: "'d \<Rightarrow> bool" and same :: "'d \<Rightarrow> 'd \<Rightarrow> bool"
  assumes append_law: "good d \<Longrightarrow> \<exists>r io d'. call (append_arg n) d = Inr (r, io, d') \<and> r \<noteq> - EINTR \<and> r \<noteq> - EAGAIN \<and>
      good d' \<and> (io_handle io \<noteq> 0 \<longrightarrow> (\<forall>m a. \<exists>d''. call (destroy_arg m (io_handle io) a) d' =
        Inr (0, destroy_arg m (io_handle io) a, d'') \<and> same d d''))"
    and same_good: "good d \<Longrightarrow> same d d' \<Longrightarrow> good d'"
begin

lemma alloc_bo_cases:
  assumes "good d" "0 < fuel" "sys_bo sys = call"
  shows "\<exists>r bo' d'. iaic_alloc_bo fuel sys n bo d = Inr (r, bo', d') \<and> good d' \<and>
    (r = IAIC_CODE_OK \<longrightarrow> ib_size bo' = n \<and> ib_handle bo' \<noteq> 0 \<and>
       (\<exists>d''. iaic_free_bo fuel sys bo' d' = Inr (IAIC_CODE_OK, bo'\<lparr>ib_handle := 0, ib_vaddr := MAP_FAILED\<rparr>, d'') \<and> same d d'')) \<and>
    (r = IAIC_CODE_BO_CREATE_EXT_FAIL \<or> r = IAIC_CODE_BO_CREATE_MMAP_FAIL \<longrightarrow> same d d' \<and> ib_handle bo' = 0) \<and>
    r \<in> {IAIC_CODE_OK, IAIC_CODE_BO_CREATE_FAIL, IAIC_CODE_BO_CREATE_EXT_FAIL, IAIC_CODE_BO_CREATE_MMAP_FAIL}"
proof -
  obtain q io d1 where call: "call (append_arg n) d = Inr (q, io, d1)" "q \<noteq> - EINTR" "q \<noteq> - EAGAIN" "good d1"
    and destroy: "io_handle io \<noteq> 0 \<longrightarrow> (\<forall>m a. \<exists>d''. call (destroy_arg m (io_handle io) a) d1 =
        Inr (0, destroy_arg m (io_handle io) a, d'') \<and> same d d'')"
    using append_law [OF assms(1)] by blast
  have append: "iaic_ioctl fuel (sys_bo sys) (append_arg n) d = Inr (q, io, d1)"
    using call assms(2,3) by (auto intro: iaic_ioctl_once)
  show ?thesis
  proof (cases "io_handle io = 0")
    case True
    with append call(4) show ?thesis by (simp add: iaic_alloc_bo_def append_arg_def)
  next
    case False
    have free: "\<exists>d''. iaic_free_bo fuel sys b d1 = Inr (IAIC_CODE_OK, b\<lparr>ib_handle := 0, ib_vaddr := MAP_FAILED\<rparr>, d'') \<and> same d d''"
      if b: "ib_handle b = io_handle io" for b
    proof -
      obtain d'' where "call (destroy_arg (ib_size b) (io_handle io) (ib_paddr b)) d1 =
          Inr (0, destroy_arg (ib_size b) (io_handle io) (ib_paddr b), d'')" "same d d''"
        using destroy False by blast
      then have "iaic_ioctl fuel (sys_bo sys) (destroy_arg (ib_size b) (io_handle io) (ib_paddr b)) d1 =
          Inr (0, destroy_arg (ib_size b) (io_handle io) (ib_paddr b), d'')" "same d d''"
        using assms(2,3) by (auto intro!: iaic_ioctl_once simp: EINTR_def EAGAIN_def)
      with b False show ?thesis by (simp add: iaic_free_bo_def destroy_arg_def)
    qed
    let ?b = "bo\<lparr>ib_size := n, ib_handle := io_handle io, ib_paddr := io_paddr io\<rparr>"
    let ?e = "sys_mmap sys (n + PAGE_SIZE * 2) (io_paddr io - PAGE_SIZE)"
    let ?m = "?b\<lparr>ib_esize := n + PAGE_SIZE * 2, ib_evaddr := ?e, ib_vaddr := ?e + PAGE_SIZE\<rparr>"
    obtain d2 where f1: "iaic_free_bo fuel sys ?b d1 = Inr (IAIC_CODE_OK, ?b\<lparr>ib_handle := 0, ib_vaddr := MAP_FAILED\<rparr>, d2)" "same d d2"
      using free [of ?b] by auto
    obtain d3 where f2: "iaic_free_bo fuel sys ?m d1 = Inr (IAIC_CODE_OK, ?m\<lparr>ib_handle := 0, ib_vaddr := MAP_FAILED\<rparr>, d3)" "same d d3"
      using free [of ?m] by auto
    have g: "good d2" "good d3" using same_good assms(1) f1(2) f2(2) by blast+
    consider "sint (io_paddr io) < sint PAGE_SIZE" | "\<not> sint (io_paddr io) < sint PAGE_SIZE" "?e + PAGE_SIZE = MAP_FAILED"
      | "\<not> sint (io_paddr io) < sint PAGE_SIZE" "?e + PAGE_SIZE \<noteq> MAP_FAILED" by blast
    then show ?thesis
    proof cases
      case 1
      then show ?thesis using append False f1 g by (simp add: iaic_alloc_bo_def append_arg_def Let_def)
    next
      case 2
      then show ?thesis using append False f2 g by (simp add: iaic_alloc_bo_def append_arg_def Let_def)
    next
      case 3
      then have "iaic_alloc_bo fuel sys n bo d = Inr (IAIC_CODE_OK, ?m, d1)"
        using append False by (simp add: iaic_alloc_bo_def append_arg_def Let_def)
      with False call(4) f2 show ?thesis by (intro exI conjI) auto
    qed
  qed
qed

end

text \<open>The driver's own calls keep it: whatever the DMA allocator answers.\<close>

definition same_bos :: "bo_state \<Rightarrow> bo_state \<Rightarrow> bool" where
  "same_bos b b' \<longleftrightarrow> bo_inv b' \<and> bo_handles b' = bo_handles b \<and> bo_objs b' = bo_objs b"

interpretation jz: bo_driver "jz_aip_v20_bo False ev dma alloc"
    "\<lambda>b. bo_inv b \<and> idr_alloc_ok alloc" same_bos for ev dma alloc
proof
  fix d :: bo_state and n
  assume good: "bo_inv d \<and> idr_alloc_ok alloc"
  obtain r io d' where run: "jz_aip_v20_bo_append ev dma alloc (append_arg n) d = Inr (r, io, d')"
    using bo_append_returns [of d ev dma alloc "append_arg n"] good by auto
  have inv: "bo_inv d'" using bo_append_inv [OF _ _ run] good by blast
  have r: "(r = 0 \<and> (\<exists>va pa. dma = Some (va, pa))) \<or> (r = - EINVAL \<and> io = append_arg n)"
    using run good by (auto simp: jz_aip_v20_bo_append_def jz_aip_v20_bo_create_def Let_def bo_ref_def
        split: if_splits option.splits)
  have destroy: "\<exists>d''. jz_aip_v20_bo False ev dma alloc (destroy_arg m (io_handle io) a) d' =
      Inr (0, destroy_arg m (io_handle io) a, d'') \<and> same_bos d d''" if h: "io_handle io \<noteq> 0" for m a
  proof -
    have "r = 0" using r h by (auto simp: append_arg_def)
    with r obtain va pa where "dma = Some (va, pa)" by (auto simp: EINVAL_def)
    from bo_append_then_destroy [of d alloc ev va pa "append_arg n" io d'] run good this \<open>r = 0\<close>
    obtain b2 where b2: "jz_aip_v20_bo_destroy False io d' = Inr (0, b2)" "bo_handles b2 = bo_handles d" "bo_objs b2 = bo_objs d"
      by blast
    have "jz_aip_v20_bo_destroy False (destroy_arg m (io_handle io) a) d' = jz_aip_v20_bo_destroy False io d'"
      by (simp add: jz_aip_v20_bo_destroy_def destroy_arg_def)
    with b2 have "jz_aip_v20_bo False ev dma alloc (destroy_arg m (io_handle io) a) d' =
        Inr (0, destroy_arg m (io_handle io) a, b2)"
      by (simp add: jz_aip_v20_bo_def destroy_arg_def)
    moreover have "same_bos d b2" using b2 bo_destroy_inv [OF inv b2(1)] by (simp add: same_bos_def)
    ultimately show ?thesis by blast
  qed
  have "jz_aip_v20_bo False ev dma alloc (append_arg n) d = Inr (r, io, d')"
    using run by (simp add: jz_aip_v20_bo_def append_arg_def)
  moreover have "r \<noteq> - EINTR" "r \<noteq> - EAGAIN" using r by (auto simp: EINVAL_def EINTR_def EAGAIN_def)
  ultimately show "\<exists>r io d'. jz_aip_v20_bo False ev dma alloc (append_arg n) d = Inr (r, io, d') \<and>
      r \<noteq> - EINTR \<and> r \<noteq> - EAGAIN \<and> (bo_inv d' \<and> idr_alloc_ok alloc) \<and>
      (io_handle io \<noteq> 0 \<longrightarrow> (\<forall>m a. \<exists>d''. jz_aip_v20_bo False ev dma alloc (destroy_arg m (io_handle io) a) d' =
        Inr (0, destroy_arg m (io_handle io) a, d'') \<and> same_bos d d''))"
    using inv good destroy by blast
next
  fix d d' :: bo_state
  assume "bo_inv d \<and> idr_alloc_ok alloc" "same_bos d d'"
  then show "bo_inv d' \<and> idr_alloc_ok alloc" by (simp add: same_bos_def)
qed

text \<open>The library on this driver.\<close>

definition jz_sys :: "env \<Rightarrow> (u32 \<times> u32) option \<Rightarrow> (bo_ptr idr \<Rightarrow> int) \<Rightarrow> (u32 \<Rightarrow> u32 \<Rightarrow> u32) \<Rightarrow> bo_state sys" where
  "jz_sys ev dma alloc mm = \<lparr>sys_bo = jz_aip_v20_bo False ev dma alloc, sys_mmap = mm, sys_malloc = True\<rparr>"

text \<open>An allocation without the pool, on the driver: it returns one of four codes;
  when it reports success the buffer has the size asked for and freeing it gives the
  driver back the handles and objects it had; a failure of the mapping has already
  given them back.\<close>

theorem iaic_alloc_bo_spec:
  assumes "bo_inv b" "idr_alloc_ok alloc" "0 < fuel"
  shows "\<exists>r bo' b'. iaic_alloc_bo fuel (jz_sys ev dma alloc mm) n bo b = Inr (r, bo', b') \<and> bo_inv b' \<and>
    (r = IAIC_CODE_OK \<longrightarrow> ib_size bo' = n \<and> ib_handle bo' \<noteq> 0 \<and>
       (\<exists>b''. iaic_free_bo fuel (jz_sys ev dma alloc mm) bo' b' =
          Inr (IAIC_CODE_OK, bo'\<lparr>ib_handle := 0, ib_vaddr := MAP_FAILED\<rparr>, b'') \<and> same_bos b b'')) \<and>
    (r = IAIC_CODE_BO_CREATE_EXT_FAIL \<or> r = IAIC_CODE_BO_CREATE_MMAP_FAIL \<longrightarrow> same_bos b b' \<and> ib_handle bo' = 0) \<and>
    r \<in> {IAIC_CODE_OK, IAIC_CODE_BO_CREATE_FAIL, IAIC_CODE_BO_CREATE_EXT_FAIL, IAIC_CODE_BO_CREATE_MMAP_FAIL}"
  using jz.alloc_bo_cases [of b alloc fuel "jz_sys ev dma alloc mm" ev dma n bo] assms
  by (auto simp: jz_sys_def)

definition sample_sys :: "bo_state sys" where
  "sample_sys = jz_sys sample_env (Some (0x82000000, 0x2000)) first_id (\<lambda>_ _. 0x70200000)"

definition sample_bo :: iaic_bo where
  "sample_bo = \<lparr>ib_size = 0, ib_esize = 0, ib_handle = 0, ib_paddr = 0, ib_vaddr = 0, ib_evaddr = 0\<rparr>"

lemma sample_sys_malloc: "sys_malloc sample_sys"
  by (simp add: sample_sys_def jz_sys_def)

lemma sample_append_call:
  "jz_aip_v20_bo False sample_env (Some (0x82000000, 0x2000)) first_id
      \<lparr>bo_op = AIP_BO_OP_APPEND, io_size = n, io_handle = 0, io_paddr = 0\<rparr> sample_bos =
   Inr (0, \<lparr>bo_op = AIP_BO_OP_APPEND, io_size = n, io_handle = 2, io_paddr = 0x2000\<rparr>,
     sample_bos\<lparr>bo_objs := (bo_objs sample_bos)(1 \<mapsto> \<lparr>bo_pid = 7, bo_vaddr = 0x82000000, bo_dma = 0x2000,
       bo_size = page_round_up n\<rparr>), bo_next := 2, bo_handles := [(1, 0), (2, 1)]\<rparr>)"
  by (simp add: jz_aip_v20_bo_def jz_aip_v20_bo_append_def jz_aip_v20_bo_create_def Let_def sample_env_def
      bo_ref_def first_id_def idr_insert_def sample_bos_def)

theorem iaic_alloc_bo_spec_witness:
  "\<exists>bo' b' b''. iaic_alloc_bo 1 sample_sys 0x1000 sample_bo sample_bos = Inr (IAIC_CODE_OK, bo', b') \<and>
    ib_size bo' = 0x1000 \<and> ib_handle bo' = 2 \<and>
    iaic_free_bo 1 sample_sys bo' b' = Inr (IAIC_CODE_OK, bo'\<lparr>ib_handle := 0, ib_vaddr := MAP_FAILED\<rparr>, b'') \<and>
    same_bos sample_bos b''"
proof -
  have "\<exists>bo' b'. iaic_alloc_bo 1 sample_sys 0x1000 sample_bo sample_bos = Inr (IAIC_CODE_OK, bo', b') \<and>
      ib_handle bo' = 2"
    by (simp add: iaic_alloc_bo_def sample_sys_def jz_sys_def sample_append_call PAGE_SIZE_def
        EINTR_def EAGAIN_def MAP_FAILED_def Let_def sample_bo_def)
  then obtain bo' b' where "iaic_alloc_bo 1 sample_sys 0x1000 sample_bo sample_bos = Inr (IAIC_CODE_OK, bo', b')"
    "ib_handle bo' = 2" by blast
  with iaic_alloc_bo_spec [OF sample_bos_inv first_id_ok, where fuel = "1" and ev = sample_env
      and dma = "Some (0x82000000, 0x2000)" and mm = "\<lambda>_ _. 0x70200000" and n = "0x1000" and bo = sample_bo] show ?thesis
    unfolding sample_sys_def by auto
qed

text \<open>A mapping that fails goes unnoticed: the address of the failure is moved up
  by a page before it is compared with \<open>MAP_FAILED\<close>, so the caller gets \<open>IAIC_CODE_OK\<close>
  and a buffer at address 0xfff.\<close>

theorem iaic_alloc_bo_misses_mmap_failure:
  assumes "iaic_ioctl fuel (sys_bo sys) (append_arg n) d = Inr (r, io, d')" "io_handle io \<noteq> 0"
    "\<not> sint (io_paddr io) < sint PAGE_SIZE" "\<And>len off. sys_mmap sys len off = MAP_FAILED"
  shows "\<exists>bo'. iaic_alloc_bo fuel sys n bo d = Inr (IAIC_CODE_OK, bo', d') \<and>
    ib_evaddr bo' = MAP_FAILED \<and> ib_vaddr bo' = 0xfff \<and> ib_vaddr bo' \<noteq> MAP_FAILED"
  using assms by (simp add: iaic_alloc_bo_def append_arg_def Let_def MAP_FAILED_def PAGE_SIZE_def)

theorem iaic_alloc_bo_misses_mmap_failure_witness:
  "\<exists>bo' b'. iaic_alloc_bo 1 (jz_sys sample_env (Some (0x82000000, 0x2000)) first_id (\<lambda>_ _. MAP_FAILED))
      0x1000 sample_bo sample_bos = Inr (IAIC_CODE_OK, bo', b') \<and> ib_vaddr bo' = 0xfff"
proof -
  let ?sys = "jz_sys sample_env (Some (0x82000000, 0x2000)) first_id (\<lambda>_ _. MAP_FAILED)"
  have "\<exists>d'. iaic_ioctl 1 (sys_bo ?sys) (append_arg 0x1000) sample_bos =
      Inr (0, \<lparr>bo_op = AIP_BO_OP_APPEND, io_size = 0x1000, io_handle = 2, io_paddr = 0x2000\<rparr>, d')"
    by (simp add: jz_sys_def append_arg_def sample_append_call EINTR_def EAGAIN_def)
  then obtain d' where "iaic_ioctl 1 (sys_bo ?sys) (append_arg 0x1000) sample_bos =
      Inr (0, \<lparr>bo_op = AIP_BO_OP_APPEND, io_size = 0x1000, io_handle = 2, io_paddr = 0x2000\<rparr>, d')" by blast
  from iaic_alloc_bo_misses_mmap_failure [OF this, of sample_bo] show ?thesis
    by (auto simp: jz_sys_def PAGE_SIZE_def)
qed

section \<open>The pool grows\<close>

definition grown_block :: "'d sys \<Rightarrow> u32 \<Rightarrow> ioctl_bo \<Rightarrow> block" where
  "grown_block sys sz io = \<lparr>blk_size = io_size io, idle = False, is_bo = True, blk_handle = io_handle io,
     blk_paddr = io_paddr io, blk_vaddr = sys_mmap sys sz (io_paddr io)\<rparr>"

text \<open>When the pool has no fitting block it grows by a buffer object of the driver, and the
  caller gets all of it.\<close>

lemma pool_grows:
  assumes "pool_wf c" "\<not> lock_word c" "sys_malloc sys" "spec_alloc (align_64 sz) (pool_blocks c) = None"
    "iaic_ioctl fuel (sys_bo sys) (append_arg sz) d = Inr (r, io, d')" "io_handle io \<noteq> 0"
  shows "\<exists>c'. iaic_fast_alloc_bo fuel sys thread sz c d =
      Inr (IAIC_CODE_OK, Some (bo_of_block sz (grown_block sys sz io)), c', d') \<and>
    pool_wf c' \<and> \<not> lock_word c' \<and> pool_blocks c' = pool_blocks c @ [grown_block sys sz io] \<and>
    max_mem_size c' = max_mem_size c"
proof -
  have live: "set (bo_list c) \<subseteq> dom (blocks c)" and dist: "distinct (bo_list c)"
    and fresh: "dom (blocks c) \<subseteq> {..< blk_next c}" using assms(1) by (auto simp: pool_wf_def)
  have find: "find_fit (blocks c) (align_64 sz) (bo_list c) = Inr None"
    using find_fit_spec [OF live, of "align_64 sz"] assms(4) unfolding spec_alloc_none
    by (auto simp: pool_blocks_def)
  obtain t where t: "last_idle (blocks c) (rev (bo_list c)) = Inr t"
    using last_idle_returns [of "rev (bo_list c)" "blocks c"] live by auto
  have q: "blk_next c \<notin> set (bo_list c)" using live fresh by (meson lessThan_iff less_irrefl subsetD)
  let ?c = "c\<lparr>lock_word := False, bo_list := bo_list c @ [blk_next c],
    blocks := (blocks c)(blk_next c \<mapsto> grown_block sys sz io), blk_next := blk_next c + 1\<rparr>"
  have "iaic_fast_alloc_bo fuel sys thread sz c d =
      Inr (IAIC_CODE_OK, Some (bo_of_block sz (grown_block sys sz io)), ?c, d')"
    using find t assms(2,3,5,6)
    by (simp add: iaic_fast_alloc_bo_def create_bo_node_def append_arg_def pool_lock_def pool_unlock_def
        iaic_get_bo_free_def Let_def bo_of_block_def grown_block_def)
  moreover have "pool_wf ?c" using live dist fresh q by (auto simp: pool_wf_def)
  moreover have "pool_blocks ?c = pool_blocks c @ [grown_block sys sz io]"
    using q by (auto simp: pool_blocks_def)
  ultimately show ?thesis by (intro exI [of _ ?c]) simp
qed

text \<open>Freeing a block that starts a buffer object: it goes back to the driver, its record
  is freed, and the list still holds the pointer.\<close>

lemma free_first_block:
  assumes "pool_wf c" "\<not> lock_word c" "ib_handle bo \<noteq> 0" "ib_paddr bo = blk_paddr b"
    "pool_blocks c = pre @ b # post" "distinct (map blk_paddr (pool_blocks c))" "is_bo b"
    "iaic_ioctl fuel (sys_bo sys) (destroy_arg (max_mem_size c) (blk_handle b) (blk_paddr b)) d = Inr (0, io, d')"
    "io_handle io \<noteq> 0"
  shows "\<exists>c' ppre p ppost. iaic_fast_free_bo fuel sys bo c d = Inr (IAIC_CODE_OK, c', d') \<and>
    bo_list c' = ppre @ p # ppost \<and> blocks c' p = None \<and> map (blocks c') ppre = map Some pre \<and> \<not> lock_word c'"
proof -
  have live: "set (bo_list c) \<subseteq> dom (blocks c)" and dist: "distinct (bo_list c)"
    using assms(1) by (auto simp: pool_wf_def)
  from assms(5) obtain ppre p ppost where l: "bo_list c = ppre @ p # ppost"
    and pre: "pre = map (\<lambda>r. the (blocks c r)) ppre" and bp: "b = the (blocks c p)"
    unfolding pool_blocks_def map_eq_append_conv map_eq_Cons_conv by auto
  have b: "blocks c p = Some b" using live bp l by auto
  have inj: "inj_on (\<lambda>r. blk_paddr (the (blocks c r))) (set (bo_list c))"
    using assms(6) by (simp add: pool_blocks_def distinct_map comp_def)
  have uniq: "q = p" if "q \<in> set (bo_list c)" "blk_paddr (the (blocks c q)) = blk_paddr b" for q
    using inj_onD [OF inj, of q p] that l bp by simp
  have "p \<in> set (bo_list c)" by (simp add: l)
  from find_paddr_spec [OF live this b uniq dist, of "[]"] obtain pre0 post0
    where find: "find_paddr (blocks c) (blk_paddr b) [] (bo_list c) = Inr (Some (rev pre0, p, b, post0))"
      and l0: "bo_list c = pre0 @ p # post0" by auto
  have same: "pre0 = ppre" "post0 = ppost"
    using distinct_split_unique [of pre0 p post0 ppre ppost] l l0 dist by auto
  let ?b = "b\<lparr>idle := True\<rparr>" and ?h = "(blocks c)(p \<mapsto> b\<lparr>idle := True\<rparr>)"
  have prev: "merge_prev ?h (rev ppre) p ?b = Inr (?h, rev ppre, p, ?b)"
  proof (cases "rev ppre")
    case (Cons q qs)
    then have "q \<in> set (bo_list c)" "q \<noteq> p" using l dist by (auto simp: rev_swap)
    then obtain bq where "?h q = Some bq" using live by auto
    with Cons assms(7) show ?thesis by simp
  qed simp
  have "distinct (p # ppost)" "set ppost \<subseteq> dom ?h" "?h p = Some ?b" using dist l live by auto
  from merge_next_refines [OF this] obtain h2 ppost2 b2 where
    n: "merge_next ?h ppost p ?b = Inr (h2, ppost2, b2)" "set ppost2 \<subseteq> set ppost"
    "absorb_next (map (\<lambda>q. the (?h q)) ppost) ?b = (map (\<lambda>q. the (h2 q)) ppost2, b2)"
    "\<forall>q. q \<notin> set (p # ppost) \<longrightarrow> h2 q = ?h q" by blast
  have keep: "is_bo y = is_bo x \<and> blk_handle y = blk_handle x \<and> blk_paddr y = blk_paddr x"
    if "absorb_next zs x = (zs', y)" for zs zs' x y
    using that by (induction zs arbitrary: x) (auto split: if_splits)
  have b2: "is_bo b2" "blk_handle b2 = blk_handle b" "blk_paddr b2 = blk_paddr b"
    using keep [OF n(3)] assms(7) by simp_all
  let ?c = "(pool_unlock (c\<lparr>lock_word := True, blocks := h2, bo_list := ppre @ p # ppost2\<rparr>))\<lparr>blocks := h2(p := None)\<rparr>"
  have "iaic_fast_free_bo fuel sys bo c d = Inr (IAIC_CODE_OK, ?c, d')"
    using find same prev n(1) b2 assms(2-4,8,9)
    by (simp add: iaic_fast_free_bo_def pool_lock_def Let_def destroy_arg_def pool_unlock_def)
  moreover have "blocks ?c q = Some (the (blocks c q))" if "q \<in> set ppre" for q
  proof -
    have "q \<notin> set (p # ppost)" "q \<noteq> p" "q \<in> dom (blocks c)" using that l dist live by auto
    with n(4) show ?thesis by auto
  qed
  then have "map (blocks ?c) ppre = map Some pre" by (simp add: pre)
  ultimately show ?thesis by (intro exI [of _ ?c] exI [of _ ppre] exI [of _ p] exI [of _ ppost2])
    (simp add: pool_unlock_def)
qed

lemma find_fit_dangling:
  "map h ppre = map Some pre \<Longrightarrow> spec_alloc n pre = None \<Longrightarrow> h p = None \<Longrightarrow>
   find_fit h n (ppre @ p # ppost) = Inl Use_after_free"
proof (induction ppre arbitrary: pre)
  case (Cons q qs)
  then show ?case by (cases pre) auto
qed simp

text \<open>A buffer the pool grew by cannot be given back: the driver's object is destroyed, the
  block's record is freed, but its pointer stays in the list. The next allocation that
  no earlier block can serve reads freed memory.\<close>

theorem pool_grown_then_freed_dangles:
  assumes "pool_wf c" "\<not> lock_word c" "sys_malloc sys" "distinct (map blk_paddr (pool_blocks c))"
    "iaic_ioctl fuel (sys_bo sys) (append_arg sz) d = Inr (r, io, d1)" "io_handle io \<noteq> 0"
    "io_paddr io \<notin> set (map blk_paddr (pool_blocks c))"
    "iaic_ioctl fuel (sys_bo sys) (destroy_arg (max_mem_size c) (io_handle io) (io_paddr io)) d1 = Inr (0, io2, d2)"
    "io_handle io2 \<noteq> 0"
    "spec_alloc (align_64 sz) (pool_blocks c) = None" "spec_alloc (align_64 sz') (pool_blocks c) = None"
  shows "\<exists>bo c1 c2. iaic_fast_alloc_bo fuel sys thread sz c d = Inr (IAIC_CODE_OK, Some bo, c1, d1) \<and>
    iaic_fast_free_bo fuel sys bo c1 d1 = Inr (IAIC_CODE_OK, c2, d2) \<and>
    (\<forall>d'. iaic_fast_alloc_bo fuel sys thread sz' c2 d' = Inl Use_after_free)"
proof -
  let ?g = "grown_block sys sz io"
  from pool_grows [OF assms(1-3,10,5,6), of thread] obtain c1 where
    run1: "iaic_fast_alloc_bo fuel sys thread sz c d = Inr (IAIC_CODE_OK, Some (bo_of_block sz ?g), c1, d1)"
    and c1: "pool_wf c1" "\<not> lock_word c1" "pool_blocks c1 = pool_blocks c @ ?g # []" "max_mem_size c1 = max_mem_size c"
    by auto
  have d: "distinct (map blk_paddr (pool_blocks c1))"
    using assms(4,7) c1(3) by (simp add: grown_block_def)
  have "\<exists>c2 ppre p ppost. iaic_fast_free_bo fuel sys (bo_of_block sz ?g) c1 d1 = Inr (IAIC_CODE_OK, c2, d2) \<and>
    bo_list c2 = ppre @ p # ppost \<and> blocks c2 p = None \<and> map (blocks c2) ppre = map Some (pool_blocks c) \<and> \<not> lock_word c2"
    by (rule free_first_block [OF c1(1,2) _ _ c1(3) d, where io = io2])
      (use assms(6,8,9) c1(4) in \<open>simp_all add: grown_block_def bo_of_block_def\<close>)
  then obtain c2 ppre p ppost where
    run2: "iaic_fast_free_bo fuel sys (bo_of_block sz ?g) c1 d1 = Inr (IAIC_CODE_OK, c2, d2)"
    and c2: "bo_list c2 = ppre @ p # ppost" "blocks c2 p = None" "map (blocks c2) ppre = map Some (pool_blocks c)" "\<not> lock_word c2"
    by blast
  have "find_fit (blocks c2) (align_64 sz') (bo_list c2) = Inl Use_after_free"
    using find_fit_dangling [OF c2(3) assms(11) c2(2)] by (simp add: c2(1))
  then have "iaic_fast_alloc_bo fuel sys thread sz' c2 d' = Inl Use_after_free" for d'
    using c2(4) by (simp add: iaic_fast_alloc_bo_def pool_lock_def)
  with run1 run2 show ?thesis by blast
qed

text \<open>On the driver itself, with the sample pool and a request of 1 MB.\<close>

theorem pool_grown_then_freed_dangles_witness:
  "\<exists>bo c1 c2 d1 d2. iaic_fast_alloc_bo 1 sample_sys 0 0x100000 started_pool sample_bos = Inr (IAIC_CODE_OK, Some bo, c1, d1) \<and>
    iaic_fast_free_bo 1 sample_sys bo c1 d1 = Inr (IAIC_CODE_OK, c2, d2) \<and>
    iaic_fast_alloc_bo 1 sample_sys 0 0x20000 c2 d2 = Inl Use_after_free"
proof -
  let ?io = "\<lparr>bo_op = AIP_BO_OP_APPEND, io_size = 0x100000, io_handle = 2, io_paddr = 0x2000\<rparr>"
  let ?d1 = "sample_bos\<lparr>bo_objs := (bo_objs sample_bos)(1 \<mapsto> \<lparr>bo_pid = 7, bo_vaddr = 0x82000000, bo_dma = 0x2000,
       bo_size = page_round_up 0x100000\<rparr>), bo_next := 2, bo_handles := [(1, 0), (2, 1)]\<rparr>"
  have pool: "pool_wf started_pool" "\<not> lock_word started_pool" "pool_blocks started_pool = [sample_first, sample_rest]"
    using started_pool_fresh by (simp_all add: fresh_pool_def pool_inv_def)
  have app: "iaic_ioctl 1 (sys_bo sample_sys) (append_arg 0x100000) sample_bos = Inr (0, ?io, ?d1)"
    by (simp add: sample_sys_def jz_sys_def append_arg_def sample_append_call EINTR_def EAGAIN_def)
  have "\<exists>d2. iaic_ioctl 1 (sys_bo sample_sys) (destroy_arg (max_mem_size started_pool) 2 0x2000) ?d1 =
      Inr (0, destroy_arg (max_mem_size started_pool) 2 0x2000, d2)"
    by (simp add: sample_sys_def jz_sys_def destroy_arg_def jz_aip_v20_bo_def jz_aip_v20_bo_destroy_def
        idr_find_def Let_def EINTR_def EAGAIN_def)
  then obtain d2 where des: "iaic_ioctl 1 (sys_bo sample_sys) (destroy_arg (max_mem_size started_pool) 2 0x2000) ?d1 =
      Inr (0, destroy_arg (max_mem_size started_pool) 2 0x2000, d2)" by blast
  then have des: "iaic_ioctl 1 (sys_bo sample_sys) (destroy_arg (max_mem_size started_pool) (io_handle ?io) (io_paddr ?io)) ?d1 =
      Inr (0, destroy_arg (max_mem_size started_pool) 2 0x2000, d2)" by simp
  have none: "spec_alloc (align_64 0x100000) (pool_blocks started_pool) = None"
    "spec_alloc (align_64 0x20000) (pool_blocks started_pool) = None"
    and far: "distinct (map blk_paddr (pool_blocks started_pool))" "io_paddr ?io \<notin> set (map blk_paddr (pool_blocks started_pool))"
    by (simp_all add: pool(3) sample_first_def sample_rest_def align_64_def)
  have h: "io_handle ?io \<noteq> 0" "io_handle (destroy_arg (max_mem_size started_pool) 2 0x2000) \<noteq> 0"
    by (simp_all add: destroy_arg_def)
  from pool_grown_then_freed_dangles [OF pool(1,2) sample_sys_malloc far(1) app h(1) far(2) des h(2) none, of 0]
  show ?thesis by blast
qed

end
