(* ===== verification/Engine.thy ===== *)
theory Engine
  imports Device
begin

text \<open>
  What the F, P and T engines have in common below the channel contract: the
  queue is a component of the device, \<open>next_job\<close> (\<open>submit_next_*_job\<close>) starts
  the first job and does nothing else to the queue, and it returns whenever
  \<open>ok\<close> holds. The completion and release handlers of the three channels have the
  same shape over it; their effect on the queue and their totality are proved
  once here.
\<close>

text \<open>What the done work reports for a job, with the kernel's \<open>ktime_us_delta\<close>.\<close>

definition job_trace :: "(int \<Rightarrow> int \<Rightarrow> int) \<Rightarrow> 'x exec_info_scheme \<Rightarrow> string \<times> u64 \<times> int \<times> int \<times> u32" where
  "job_trace us_delta e = (e_name e, e_seqno e, us_delta (end_time e) (submit_time e),
     us_delta (end_time e) (start_time e), hw_time e)"

locale engine =
  fixes q :: "'d \<Rightarrow> 'x exec_info_scheme jobq"
    and upd :: "('x exec_info_scheme jobq \<Rightarrow> 'x exec_info_scheme jobq) \<Rightarrow> 'd \<Rightarrow> 'd"
    and put_io :: "io \<Rightarrow> 'd \<Rightarrow> 'd"
    and next_job :: "int \<Rightarrow> 'd \<Rightarrow> fault + 'd"
    and reset :: "io \<Rightarrow> fault + io"
    and ok :: "'d \<Rightarrow> bool"
  assumes q_upd: "q (upd g d) = g (q d)"
    and q_put_io: "q (put_io s d) = q d"
    and next_q: "next_job now d = Inr d' \<Longrightarrow> q d' = q_start now (q d)"
    and next_total: "ok d \<Longrightarrow> \<exists>d'. next_job now d = Inr d' \<and> ok d'"
    and reset_total: "ok d \<Longrightarrow> \<exists>s'. reset s = Inr s'"
    and ok_put_io: "ok d \<Longrightarrow> ok (put_io s d)"
    and ok_upd: "ok d \<Longrightarrow> set (job_list (g (q d))) \<subseteq> set (job_list (q d)) \<Longrightarrow> ok (upd g d)"
begin

text \<open>A submission's critical section.\<close>

definition enqueue :: "int \<Rightarrow> 'x exec_info_scheme \<Rightarrow> 'd \<Rightarrow> fault + 'd" where
  "enqueue now e d = (let d' = upd (q_push e) d in
     if job_list (q d) = [] then next_job now d' else Inr d')"

lemma enqueue_q:
  assumes "enqueue now e d = Inr d'"
  shows "q d' = (if job_list (q d) = [] then q_start now (q_push e (q d)) else q_push e (q d))"
  using assms by (auto simp: enqueue_def Let_def q_upd split: if_splits dest: next_q)

lemma enqueue_step:
  "enqueue now e d = Inr d' \<Longrightarrow> e_state e = AIP_JOB_INITIAL \<Longrightarrow> jobq_step (q d) Submitted (q d')"
  by (auto dest!: enqueue_q intro: jobq_step.submit_idle jobq_step.submit_busy)

lemma enqueue_ok:
  "ok (upd (q_push e) d) \<Longrightarrow> \<exists>d'. enqueue now e d = Inr d' \<and> ok d'"
  using next_total by (auto simp: enqueue_def Let_def)

text \<open>A completion; \<open>guard\<close> is the test of the job's state, which the T channel lacks.\<close>

definition finish :: "bool \<Rightarrow> int \<Rightarrow> int \<Rightarrow> u32 \<Rightarrow> 'd \<Rightarrow> fault + 'd" where
  "finish guard now now' hwt d = (case job_list (q d) of
     [] \<Rightarrow> Inr d
   | e # _ \<Rightarrow> if guard \<and> e_state e \<noteq> AIP_JOB_RUNNING then next_job now' d
       else next_job now' (upd (q_retire now hwt) d))"

lemma finish_q:
  assumes "finish guard now now' hwt d = Inr d'"
  shows "q d' = (if job_list (q d) = [] then q d
    else if guard \<and> e_state (hd (job_list (q d))) \<noteq> AIP_JOB_RUNNING then q_start now' (q d)
    else q_start now' (q_retire now hwt (q d)))"
  using assms by (auto simp: finish_def q_upd split: list.splits if_splits dest!: next_q)

lemma finish_idle_q: "job_list (q d) = [] \<Longrightarrow> finish guard now now' hwt d = Inr d' \<Longrightarrow> q d' = q d"
  by (drule finish_q) simp

lemma finish_busy_step:
  assumes "finish guard now now' hwt d = Inr d'" "job_list (q d) \<noteq> []"
    "e_state (hd (job_list (q d))) = AIP_JOB_RUNNING"
  shows "jobq_step (q d) Finished (q d')"
  using finish_q [OF assms(1)] assms(2,3) by (auto intro: jobq_step.finish)

lemma retire_ok: "ok d \<Longrightarrow> ok (upd (q_retire now hwt) d)"
  by (rule ok_upd) (auto simp: q_retire_def split: list.splits)

lemma finish_ok: "ok d \<Longrightarrow> \<exists>d'. finish guard now now' hwt d = Inr d' \<and> ok d'"
  using next_total retire_ok by (auto simp: finish_def split: list.splits)

text \<open>A release.\<close>

definition release :: "int \<Rightarrow> int \<Rightarrow> io \<Rightarrow> 'd \<Rightarrow> fault + 'd" where
  "release p now s d = res_bind (release_scan reset p (job_list (q d)) s) (\<lambda>(ks, re_submit, s).
     let d = upd (\<lambda>q. q\<lparr>job_list := ks\<rparr>) (put_io s d) in
     if re_submit then next_job now d else Inr d)"

lemma release_q:
  assumes "release p now s d = Inr d'"
  shows "q d' = (if q_cancels_running p (q d) then q_start now (q_cancel p (q d))
    else q_cancel p (q d))"
  using assms
  by (auto simp: release_def res_bind_Inr_iff Let_def q_cancels_running_def q_cancel_def
      q_upd q_put_io split: if_splits dest!: release_scan_Inr next_q)

lemma release_step: "release p now s d = Inr d' \<Longrightarrow> jobq_step (q d) (Cancelled p) (q d')"
  by (auto dest!: release_q intro: jobq_step.cancel_running jobq_step.cancel_waiting)

lemma release_ok:
  assumes "ok d"
  shows "\<exists>d'. release p now s d = Inr d' \<and> ok d'"
proof -
  have "\<And>s. \<exists>s'. reset s = Inr s'" using assms reset_total by blast
  from release_scan_returns [of reset, OF this] obtain ks re s'
    where scan: "release_scan reset p (job_list (q d)) s = Inr (ks, re, s')" by blast
  then have "ok (upd (\<lambda>q. q\<lparr>job_list := ks\<rparr>) (put_io s' d))"
    using assms by (intro ok_upd ok_put_io) (auto simp: q_put_io dest!: release_scan_Inr)
  with scan next_total show ?thesis by (auto simp: release_def Let_def)
qed

end

end
