(* ===== verification/FChannel.thy ===== *)
theory FChannel
  imports Engine
begin

text \<open>
  The AIP-F (resize) channel: \<open>jz_aip_v20_f_reset\<close>, \<open>jz_aip_v20_submit_next_f_job\<close>,
  \<open>jz_aip_v20_f_op\<close> and the done work of \<open>drive/jz_aip_v20_core.c\<close>, the interrupt
  handler of \<open>drive/jz_aip_v20_irq.c\<close> and \<open>jz_aip_v20_f_release\<close> of
  \<open>drive/jz_aip_v20_drv.c\<close>. The channel implements the contract \<open>job_channel\<close>; the
  chain of nodes in the buffer object is patched with register addresses only,
  and the hardware is started with the job's configuration.
\<close>

section \<open>Reset\<close>

definition f_idle :: "regs \<Rightarrow> bool" where
  "f_idle r \<longleftrightarrow> r AIP_V20_F_CTL AND ffield AIP_V20_F_CTL_BUSY = 0 \<and>
     r AIP_V20_F_CTL AND ffield AIP_V20_F_CTL_CHAIN_BUSY = 0"

definition f_reset_done :: "regs \<Rightarrow> bool" where
  "f_reset_done r \<longleftrightarrow> r AIP_V20_F_CTL AND ffield AIP_V20_F_CTL_SOFT_RESET = 0"

definition jz_aip_v20_f_reset :: "soc \<Rightarrow> io \<Rightarrow> fault + io" where
  "jz_aip_v20_f_reset soc s =
     res_bind (poll soc f_idle s) (\<lambda>s.
     poll soc f_reset_done (writel soc AIP_V20_F_CTL (ffield AIP_V20_F_CTL_SOFT_RESET) s))"

section \<open>Starting the first job\<close>

definition f_start_cfg :: "soc \<Rightarrow> f_exec_info \<Rightarrow> u32" where
  "f_start_cfg soc exec = cfg_reg exec
     OR ffield AIP_V20_F_CFG_TIMEOUT_ENABLE
     OR ffield AIP_V20_F_CFG_IRQ_MASK
     OR ffield AIP_V20_F_CFG_CKG_MASK
     OR (if repair_a1 soc then ffield AIP_V20_F_CFG_CHAIN_IRQ_MASK else 0)"

definition jz_aip_v20_submit_next_f_job :: "soc \<Rightarrow> int \<Rightarrow> 'p aip_dev \<Rightarrow> fault + 'p aip_dev" where
  "jz_aip_v20_submit_next_f_job soc now d = (case q_first (f_ch d) of
     None \<Rightarrow> Inr d
   | Some exec \<Rightarrow>
       res_bind (jz_aip_v20_f_reset soc (dev_io d)) (\<lambda>s.
       let s = writel soc AIP_V20_F_CFG (f_start_cfg soc exec) s in
       res_bind (bo_ref (bos d) (f_node exec)) (\<lambda>bo.
       let s = writel soc AIP_V20_F_CHAIN_BASE (bo_dma bo + f_mem_ofst exec) s;
           s = writel soc AIP_V20_F_CHAIN_SIZE (node_size exec) s;
           f_ctrl = readl s AIP_V20_F_CTL OR ffield AIP_V20_F_CTL_CHAIN_BUSY;
           s = writel soc AIP_V20_F_CTL f_ctrl s
       in Inr (d\<lparr>dev_io := s, f_ch := q_start now (f_ch d)\<rparr>))))"

section \<open>The chain of nodes\<close>

text \<open>\<open>aip_v20_f_node_t\<close>: thirteen pairs of words, a value and the address of the
  register it goes to.\<close>

datatype f_node_field = Nf_timeout | Nf_scale_x | Nf_scale_y | Nf_trans_x | Nf_trans_y
  | Nf_src_base_y | Nf_src_base_uv | Nf_dst_base_y | Nf_dst_base_uv | Nf_src_size
  | Nf_dst_size | Nf_stride | Nf_f_ctrl

primrec f_field_ix :: "f_node_field \<Rightarrow> nat" where
  "f_field_ix Nf_timeout = 0"
| "f_field_ix Nf_scale_x = 1"
| "f_field_ix Nf_scale_y = 2"
| "f_field_ix Nf_trans_x = 3"
| "f_field_ix Nf_trans_y = 4"
| "f_field_ix Nf_src_base_y = 5"
| "f_field_ix Nf_src_base_uv = 6"
| "f_field_ix Nf_dst_base_y = 7"
| "f_field_ix Nf_dst_base_uv = 8"
| "f_field_ix Nf_src_size = 9"
| "f_field_ix Nf_dst_size = 10"
| "f_field_ix Nf_stride = 11"
| "f_field_ix Nf_f_ctrl = 12"

text \<open>Word index of \<open>chain[i].field[j]\<close>; a node has 26 words.\<close>

definition f_word :: "nat \<Rightarrow> f_node_field \<Rightarrow> nat \<Rightarrow> nat" where
  "f_word i f j = 26 * i + 2 * f_field_ix f + j"

definition f_node_fixup :: "soc \<Rightarrow> (f_node_field \<times> nat \<times> u32) list" where
  "f_node_fixup soc = (let base = JZ_AIP_V20_IOBASE soc in
     [(Nf_timeout, 1, base + AIP_V20_F_TIME_CNT),
      (Nf_scale_x, 1, base + AIP_V20_F_SCALEX),
      (Nf_scale_y, 1, base + AIP_V20_F_SCALEY),
      (Nf_trans_x, 1, base + AIP_V20_F_TRANSX),
      (Nf_trans_y, 1, base + AIP_V20_F_TRANSY),
      (Nf_src_base_y, 1, base + AIP_V20_F_SRC_BASE),
      (Nf_src_base_uv, 1, base + AIP_V20_F_SRC_BASE_C),
      (Nf_dst_base_y, 1, base + AIP_V20_F_DST_BASE),
      (Nf_dst_base_uv, 1, base + AIP_V20_F_DST_BASE_C),
      (Nf_src_size, 1, base + AIP_V20_F_SRC_SIZE),
      (Nf_dst_size, 1, base + AIP_V20_F_DST_SIZE),
      (Nf_stride, 1, base + AIP_V20_F_STRD),
      (Nf_f_ctrl, 0, 0x1),
      (Nf_f_ctrl, 1, (base + AIP_V20_F_CTL) OR push_bit 31 1)])"

text \<open>The extra last node of the A1 workaround.\<close>

definition f_last_fixup :: "soc \<Rightarrow> (f_node_field \<times> nat \<times> u32) list" where
  "f_last_fixup soc = (let base = JZ_AIP_V20_IOBASE soc in
     [(Nf_timeout, 0, 0x2),
      (Nf_timeout, 1, base + AIP_V20_F_TIME_CNT),
      (Nf_f_ctrl, 0, 0x1),
      (Nf_f_ctrl, 1, (base + AIP_V20_F_CTL) OR push_bit 31 1)])"

text \<open>The loop bound is a signed \<open>int\<close>: nothing is written when it is negative.\<close>

definition f_node_count :: "soc \<Rightarrow> u32 \<Rightarrow> nat" where
  "f_node_count soc num = nat (sint (if repair_a1 soc then num - 1 else num))"

definition f_node_writes :: "(f_node_field \<times> nat \<times> u32) list \<Rightarrow> nat \<Rightarrow> (nat \<times> u32) list" where
  "f_node_writes fx i = map (\<lambda>(f, j, v). (f_word i f j, v)) fx"

definition f_chain_writes :: "soc \<Rightarrow> u32 \<Rightarrow> (nat \<times> u32) list" where
  "f_chain_writes soc num =
     concat (map (f_node_writes (f_node_fixup soc)) [0 ..< f_node_count soc num]) @
     (if repair_a1 soc then f_node_writes (f_last_fixup soc) (f_node_count soc num) else [])"

section \<open>Submission\<close>

definition f_op_cfg :: "submit_f \<Rightarrow> u32" where
  "f_op_cfg dat_f = fput AIP_V20_F_CFG_BW (f_format dat_f)
     OR fput AIP_V20_F_CFG_IBUS (f_pos_in dat_f)
     OR fput AIP_V20_F_CFG_OBUS (f_pos_out dat_f)"

definition f_exec_new :: "env \<Rightarrow> submit_f \<Rightarrow> bo_ptr \<Rightarrow> u32 \<Rightarrow> f_exec_info" where
  "f_exec_new ev dat_f p ofst =
     \<lparr>e_pid = cur_pid ev, e_state = AIP_JOB_INITIAL, submit_time = t_enter ev,
      start_time = 0, end_time = 0, hw_time = 0,
      e_name = JZ_AIP_V20_SET_JOB_NAME (f_name dat_f), e_seqno = 0,
      node_size = f_node_num dat_f * 104, cfg_reg = f_op_cfg dat_f,
      f_node = p, f_mem_ofst = ofst, f_nodes = f_node_num dat_f\<rparr>"

text \<open>The part under \<open>f_job_lock\<close>: the new job is started when the list was empty
  (then it is the first one), and waits otherwise.\<close>

definition f_enqueue :: "soc \<Rightarrow> int \<Rightarrow> f_exec_info \<Rightarrow> 'p aip_dev \<Rightarrow> fault + 'p aip_dev" where
  "f_enqueue soc now exec d =
     (let d' = d\<lparr>f_ch := q_push exec (f_ch d)\<rparr> in
      if job_list (f_ch d) = [] then jz_aip_v20_submit_next_f_job soc now d' else Inr d')"

text \<open>Neither \<open>paddr\<close> nor \<open>node_num\<close> is compared with the buffer object the chain is
  written to.\<close>

definition jz_aip_v20_f_op :: "soc \<Rightarrow> env \<Rightarrow> submit_f \<Rightarrow> 'p aip_dev \<Rightarrow> fault + (int \<times> 'p aip_dev)" where
  "jz_aip_v20_f_op soc ev dat_f d =
     (if \<not> kmalloc_ok ev then Inr (- EFAULT, d)
      else case idr_find (bo_handles (bos d)) (f_node_handle dat_f) of
        None \<Rightarrow> Inr (- EFAULT, d)
      | Some p \<Rightarrow>
          res_bind (bo_ref (bos d) p) (\<lambda>bo.
          let ofst = f_paddr dat_f - bo_dma bo in
          res_bind (bo_store bo ofst (f_chain_writes soc (f_node_num dat_f)) (kmem (bos d))) (\<lambda>m.
          let d = d\<lparr>bos := (bos d)\<lparr>kmem := m\<rparr>\<rparr>
          in res_bind (f_enqueue soc (t_later ev) (f_exec_new ev dat_f p ofst) d)
               (\<lambda>d. Inr (0, d)))))"

section \<open>Completion\<close>

definition jz_aip_v20_f_irq_finish_job :: "soc \<Rightarrow> int \<Rightarrow> int \<Rightarrow> 'p aip_dev \<Rightarrow> fault + 'p aip_dev" where
  "jz_aip_v20_f_irq_finish_job soc now now' d = (case q_first (f_ch d) of
     None \<Rightarrow> Inr d
   | Some exec \<Rightarrow>
       if e_state exec \<noteq> AIP_JOB_RUNNING then jz_aip_v20_submit_next_f_job soc now' d
       else
         let hw_timecnt = readl (dev_io d) AIP_V20_F_TIME_CNT in
         jz_aip_v20_submit_next_f_job soc now'
           (d\<lparr>f_ch := q_retire now (0xffffffff - hw_timecnt) (f_ch d)\<rparr>))"

definition jz_aip_v20_f_irq_handler :: "soc \<Rightarrow> int \<Rightarrow> int \<Rightarrow> int \<Rightarrow> 'p aip_dev \<Rightarrow> fault + 'p aip_dev" where
  "jz_aip_v20_f_irq_handler soc now now' now'' d =
     (let irq_status = readl (dev_io d) AIP_V20_F_IRQ;
          d = d\<lparr>dev_io := writel soc AIP_V20_F_IRQ irq_status (dev_io d)\<rparr>
      in res_bind
           (if irq_status AND ffield AIP_V20_F_IRQ_CHAIN_IRQ \<noteq> 0
            then jz_aip_v20_f_irq_finish_job soc now now' d else Inr d) (\<lambda>d.
         if irq_status AND ffield AIP_V20_F_IRQ_TIMEOUT_IRQ \<noteq> 0 \<and> repair_a1 soc
         then jz_aip_v20_f_irq_finish_job soc now now'' d else Inr d))"

definition jz_aip_v20_f_job_handle_completed ::
    "(int \<Rightarrow> int \<Rightarrow> int) \<Rightarrow> 'p aip_dev \<Rightarrow> (string \<times> u64 \<times> int \<times> int \<times> u32) list \<times> 'p aip_dev" where
  "jz_aip_v20_f_job_handle_completed us_delta d =
     (map (job_trace us_delta) (job_done_list (f_ch d)), d\<lparr>f_ch := q_drain (f_ch d)\<rparr>)"

definition jz_aip_v20_f_job_done_work :: "'p aip_dev \<Rightarrow> 'p aip_dev" where
  "jz_aip_v20_f_job_done_work d = snd (jz_aip_v20_f_job_handle_completed (\<lambda>_ _. 0) d)"

definition jz_aip_v20_f_release :: "soc \<Rightarrow> int \<Rightarrow> int \<Rightarrow> 'p aip_dev \<Rightarrow> fault + 'p aip_dev" where
  "jz_aip_v20_f_release soc p now d =
     res_bind (release_scan (jz_aip_v20_f_reset soc) p (job_list (f_ch d)) (dev_io d))
       (\<lambda>(ks, re_submit, s).
         let d = d\<lparr>dev_io := s, f_ch := (f_ch d)\<lparr>job_list := ks\<rparr>\<rparr> in
         if re_submit then jz_aip_v20_submit_next_f_job soc now d else Inr d)"

section \<open>The handlers implement the channel contract\<close>

lemma jz_aip_v20_f_reset_Inr:
  "jz_aip_v20_f_reset soc s = Inr s' \<Longrightarrow>
   bus s' = bus s @ [(AIP_V20_F_CTL, ffield AIP_V20_F_CTL_SOFT_RESET)] \<and> f_reset_done (io_regs s')"
  by (auto simp: jz_aip_v20_f_reset_def res_bind_Inr_iff dest!: poll_Inr)

lemma submit_next_f_Inr:
  assumes "jz_aip_v20_submit_next_f_job soc now d = Inr d'"
  shows "d' = d\<lparr>dev_io := dev_io d', f_ch := q_start now (f_ch d)\<rparr>"
  using assms
  by (cases "job_list (f_ch d)")
     (auto simp: jz_aip_v20_submit_next_f_job_def q_first_def q_start_def res_bind_Inr_iff Let_def)

lemma submit_next_f_ch:
  "jz_aip_v20_submit_next_f_job soc now d = Inr d' \<Longrightarrow> f_ch d' = q_start now (f_ch d)"
  by (drule submit_next_f_Inr, drule arg_cong [where f = f_ch]) simp

lemma submit_next_f_bos:
  "jz_aip_v20_submit_next_f_job soc now d = Inr d' \<Longrightarrow> bos d' = bos d"
  by (drule submit_next_f_Inr, drule arg_cong [where f = bos]) simp

lemma f_op_cases:
  assumes "jz_aip_v20_f_op soc ev dat_f d = Inr (n, d')"
  shows "(n = - EFAULT \<and> d' = d) \<or> (n = 0 \<and> (\<exists>p bo.
     idr_find (bo_handles (bos d)) (f_node_handle dat_f) = Some p \<and> bo_objs (bos d) p = Some bo \<and>
     bo_holds bo (f_paddr dat_f - bo_dma bo) (f_chain_writes soc (f_node_num dat_f)) \<and>
     f_enqueue soc (t_later ev) (f_exec_new ev dat_f p (f_paddr dat_f - bo_dma bo))
       (d\<lparr>bos := (bos d)\<lparr>kmem := store_words (bo_vaddr bo + (f_paddr dat_f - bo_dma bo))
          (f_chain_writes soc (f_node_num dat_f)) (kmem (bos d))\<rparr>\<rparr>) = Inr d'))"
  using assms
  by (auto simp: jz_aip_v20_f_op_def bo_ref_def bo_store_def res_bind_Inr_iff Let_def
      split: if_splits option.splits)

lemma f_exec_new_initial: "e_state (f_exec_new ev dat_f p ofst) = AIP_JOB_INITIAL"
  by (simp add: f_exec_new_def)

lemma f_work_ch: "f_ch (jz_aip_v20_f_job_done_work d) = q_drain (f_ch d)"
  by (simp add: jz_aip_v20_f_job_done_work_def jz_aip_v20_f_job_handle_completed_def)

text \<open>When the handlers return: the engine becomes idle and completes resets, and the
  buffer objects of the handle table and of the waiting jobs are alive.\<close>

definition f_live :: "'p aip_dev \<Rightarrow> bool" where
  "f_live d \<longleftrightarrow> (\<forall>p \<in> snd ` set (bo_handles (bos d)) \<union> f_node ` set (job_list (f_ch d)).
     bo_objs (bos d) p \<noteq> None)"

definition f_ok :: "soc \<Rightarrow> 'p aip_dev \<Rightarrow> bool" where
  "f_ok soc d \<longleftrightarrow> quiesces soc f_idle \<and> quiesces soc f_reset_done \<and> f_live d"

lemma f_reset_returns:
  "quiesces soc f_idle \<Longrightarrow> quiesces soc f_reset_done \<Longrightarrow> \<exists>s'. jz_aip_v20_f_reset soc s = Inr s'"
  unfolding jz_aip_v20_f_reset_def by (metis poll_quiesces res_bind.simps(2))

lemma f_live_job:
  "f_live d \<Longrightarrow> e \<in> set (job_list (f_ch d)) \<Longrightarrow> \<exists>bo. bo_objs (bos d) (f_node e) = Some bo"
  by (auto simp: f_live_def)

lemma f_live_handle:
  "f_live d \<Longrightarrow> idr_find (bo_handles (bos d)) h = Some p \<Longrightarrow> \<exists>bo. bo_objs (bos d) p = Some bo"
  by (force simp: f_live_def idr_find_def dest: map_of_SomeD)

lemma f_ok_mono:
  assumes "f_ok soc d" "bo_handles (bos d') = bo_handles (bos d)" "bo_objs (bos d') = bo_objs (bos d)"
    "f_node ` set (job_list (f_ch d')) \<subseteq> f_node ` set (job_list (f_ch d))"
  shows "f_ok soc d'"
  using assms unfolding f_ok_def f_live_def by auto

lemma f_nodes_q_start: "f_node ` set (job_list (q_start now q)) = f_node ` set (job_list q)"
  by (auto simp: q_start_def split: list.splits)

lemma submit_next_f_total:
  assumes "f_ok soc d"
  shows "\<exists>d'. jz_aip_v20_submit_next_f_job soc now d = Inr d' \<and> f_ok soc d'"
proof -
  obtain s where s: "jz_aip_v20_f_reset soc (dev_io d) = Inr s"
    using f_reset_returns assms unfolding f_ok_def by blast
  have "\<exists>d'. jz_aip_v20_submit_next_f_job soc now d = Inr d'"
  proof (cases "job_list (f_ch d)")
    case (Cons e es)
    then obtain bo where "bo_objs (bos d) (f_node e) = Some bo"
      using assms f_live_job [of d e] by (auto simp: f_ok_def)
    with Cons s show ?thesis
      by (simp add: jz_aip_v20_submit_next_f_job_def q_first_def bo_ref_def Let_def)
  qed (simp add: jz_aip_v20_submit_next_f_job_def q_first_def)
  then obtain d' where d': "jz_aip_v20_submit_next_f_job soc now d = Inr d'" by blast
  then have "f_ok soc d'"
    by (intro f_ok_mono [OF assms])
       (simp_all add: submit_next_f_bos submit_next_f_ch f_nodes_q_start)
  with d' show ?thesis by blast
qed

interpretation f_engine: engine f_ch "\<lambda>g d. d\<lparr>f_ch := g (f_ch d)\<rparr>" "\<lambda>s d. d\<lparr>dev_io := s\<rparr>"
  "jz_aip_v20_submit_next_f_job soc" "jz_aip_v20_f_reset soc" "f_ok soc" for soc
proof (unfold_locales, goal_cases)
  case (3 now d d')
  then show ?case by (rule submit_next_f_ch)
next
  case (4 d now)
  then show ?case by (rule submit_next_f_total)
next
  case (5 d s)
  then show ?case by (simp add: f_reset_returns f_ok_def)
next
  case (7 d g)
  then show ?case by (intro f_ok_mono [OF 7(1)]) auto
qed (simp_all add: f_ok_def f_live_def)

lemma f_enqueue_engine: "f_enqueue soc now e d = f_engine.enqueue soc now e d"
  by (simp add: f_enqueue_def f_engine.enqueue_def)

lemma f_irq_finish_engine:
  "jz_aip_v20_f_irq_finish_job soc now now' d =
     f_engine.finish soc True now now' (0xffffffff - readl (dev_io d) AIP_V20_F_TIME_CNT) d"
  by (simp add: jz_aip_v20_f_irq_finish_job_def f_engine.finish_def q_first_def Let_def
      split: list.split)

lemma f_release_engine:
  "jz_aip_v20_f_release soc p now d = f_engine.release soc p now (dev_io d) d"
  by (simp add: jz_aip_v20_f_release_def f_engine.release_def)

lemma f_irq_finish_total:
  "f_ok soc d \<Longrightarrow> \<exists>d'. jz_aip_v20_f_irq_finish_job soc now now' d = Inr d' \<and> f_ok soc d'"
  by (simp add: f_irq_finish_engine f_engine.finish_ok)

lemma f_release_total:
  "f_ok soc d \<Longrightarrow> \<exists>d'. jz_aip_v20_f_release soc p now d = Inr d' \<and> f_ok soc d'"
  by (simp add: f_release_engine f_engine.release_ok)

text \<open>The chain of a request lies in the buffer object its handle names.\<close>

definition f_fits :: "soc \<Rightarrow> bo_state \<Rightarrow> submit_f \<Rightarrow> bool" where
  "f_fits soc b dat \<longleftrightarrow> (case idr_find (bo_handles b) (f_node_handle dat) of
     None \<Rightarrow> True
   | Some p \<Rightarrow> (case bo_objs b p of
       None \<Rightarrow> True
     | Some bo \<Rightarrow> bo_holds bo (f_paddr dat - bo_dma bo) (f_chain_writes soc (f_node_num dat))))"

lemma f_fits_same: "same_bos b b' \<Longrightarrow> f_fits soc b' dat = f_fits soc b dat"
  by (simp add: same_bos_def f_fits_def cong: option.case_cong)

lemma f_op_total:
  assumes "f_ok soc d" "f_fits soc (bos d) dat"
  shows "\<exists>n d'. jz_aip_v20_f_op soc ev dat d = Inr (n, d') \<and> f_ok soc d'"
proof (cases "kmalloc_ok ev \<and> idr_find (bo_handles (bos d)) (f_node_handle dat) \<noteq> None")
  case True
  then obtain p bo where p: "idr_find (bo_handles (bos d)) (f_node_handle dat) = Some p"
    and bo: "bo_objs (bos d) p = Some bo"
    using assms f_live_handle [of d "f_node_handle dat"] by (auto simp: f_ok_def)
  let ?ofst = "f_paddr dat - bo_dma bo"
  let ?e = "f_exec_new ev dat p ?ofst"
  let ?d = "d\<lparr>bos := (bos d)\<lparr>kmem := store_words (bo_vaddr bo + ?ofst)
    (f_chain_writes soc (f_node_num dat)) (kmem (bos d))\<rparr>\<rparr>"
  have fits: "bo_holds bo ?ofst (f_chain_writes soc (f_node_num dat))"
    using assms(2) p bo by (simp add: f_fits_def)
  have "f_ok soc (?d\<lparr>f_ch := q_push ?e (f_ch ?d)\<rparr>)"
    using assms bo by (auto simp: f_ok_def f_live_def f_exec_new_def q_push_def)
  from f_engine.enqueue_ok [OF this, of "t_later ev"] True p bo fits show ?thesis
    by (auto simp: jz_aip_v20_f_op_def f_enqueue_engine bo_ref_def bo_store_def Let_def)
next
  case False
  with assms show ?thesis by (auto simp: jz_aip_v20_f_op_def)
qed

text \<open>The calls of the channel leave the handle table and the objects alone.\<close>

lemma f_enqueue_bos: "f_enqueue soc now e d = Inr d' \<Longrightarrow> bos d' = bos d"
  by (auto simp: f_enqueue_def Let_def split: if_splits dest: submit_next_f_bos)

lemma f_op_bos: "jz_aip_v20_f_op soc ev dat d = Inr (n, d') \<Longrightarrow> same_bos (bos d) (bos d')"
  by (auto dest!: f_op_cases f_enqueue_bos)

lemma f_irq_finish_bos: "jz_aip_v20_f_irq_finish_job soc now now' d = Inr d' \<Longrightarrow> bos d' = bos d"
  by (auto simp: jz_aip_v20_f_irq_finish_job_def Let_def split: option.splits if_splits
      dest: submit_next_f_bos)

lemma f_release_bos: "jz_aip_v20_f_release soc p now d = Inr d' \<Longrightarrow> bos d' = bos d"
  by (auto simp: jz_aip_v20_f_release_def res_bind_Inr_iff Let_def split: if_splits
      dest: submit_next_f_bos)

lemma f_work_bos: "bos (jz_aip_v20_f_job_done_work d) = bos d"
  by (simp add: jz_aip_v20_f_job_done_work_def jz_aip_v20_f_job_handle_completed_def)

lemma f_op_step:
  assumes "jz_aip_v20_f_op soc ev dat d = Inr (0, d')"
  shows "jobq_step (f_ch d) Submitted (f_ch d')"
  using f_op_cases [OF assms]
  by (auto simp: EFAULT_def f_enqueue_engine dest!: f_engine.enqueue_step [OF _ f_exec_new_initial])

interpretation f: job_channel f_ch
  "\<lambda>(ev, dat). jz_aip_v20_f_op soc ev dat"
  "\<lambda>(now, now'). jz_aip_v20_f_irq_finish_job soc now now'"
  jz_aip_v20_f_job_done_work
  "\<lambda>p now. jz_aip_v20_f_release soc p now" for soc
proof (unfold_locales, goal_cases)
  case (2 r d n d')
  then show ?case by (cases r) (auto dest!: f_op_cases)
qed (auto simp: f_op_step f_irq_finish_engine f_release_engine f_work_ch
      dest: f_engine.finish_idle_q f_engine.finish_busy_step f_engine.release_step)

interpretation f_total: total_channel f_ch
  "\<lambda>(ev, dat). jz_aip_v20_f_op soc ev dat"
  "\<lambda>(now, now'). jz_aip_v20_f_irq_finish_job soc now now'"
  jz_aip_v20_f_job_done_work
  "\<lambda>p now. jz_aip_v20_f_release soc p now"
  "\<lambda>d. f_ok soc d \<and> same_bos b (bos d)" "\<lambda>(ev, dat). f_fits soc b dat" for soc b
proof (unfold_locales, goal_cases)
  case (1 d r)
  obtain ev dat where r: "r = (ev, dat)" by (cases r)
  from 1 r have ok: "f_ok soc d" "f_fits soc (bos d) dat" "same_bos b (bos d)"
    using f_fits_same [of b "bos d"] by auto
  from f_op_total [OF ok(1,2), of ev] obtain n d' where
    "jz_aip_v20_f_op soc ev dat d = Inr (n, d')" "f_ok soc d'" by blast
  with ok(3) f_op_bos show ?case unfolding r same_bos_def by fastforce
next
  case (2 d i)
  then show ?case using f_irq_finish_total [of soc d] f_irq_finish_bos
    by (fastforce split: prod.splits)
next
  case (3 d)
  then show ?case
    by (simp add: f_ok_def f_live_def jz_aip_v20_f_job_done_work_def
        jz_aip_v20_f_job_handle_completed_def q_drain_def)
next
  case (4 d p t)
  then show ?case using f_release_total [of soc d] f_release_bos by fastforce
qed

section \<open>The patched chain\<close>

lemma f_chain_writes_patch:
  "f_chain_writes soc num = chain_patch 26 (pair_words f_field_ix (f_node_fixup soc))
     (pair_words f_field_ix (f_last_fixup soc)) (f_node_count soc num) (repair_a1 soc)"
proof -
  have "f_node_writes fx i = node_words 26 (pair_words f_field_ix fx) i" for fx i
    by (auto simp: f_node_writes_def node_words_def pair_words_def f_word_def)
  then show ?thesis by (simp add: f_chain_writes_def chain_patch_def chain_words_def cong: map_cong)
qed

text \<open>The register each field of a node is for.\<close>

primrec f_field_reg :: "f_node_field \<Rightarrow> u32" where
  "f_field_reg Nf_timeout = AIP_V20_F_TIME_CNT"
| "f_field_reg Nf_scale_x = AIP_V20_F_SCALEX"
| "f_field_reg Nf_scale_y = AIP_V20_F_SCALEY"
| "f_field_reg Nf_trans_x = AIP_V20_F_TRANSX"
| "f_field_reg Nf_trans_y = AIP_V20_F_TRANSY"
| "f_field_reg Nf_src_base_y = AIP_V20_F_SRC_BASE"
| "f_field_reg Nf_src_base_uv = AIP_V20_F_SRC_BASE_C"
| "f_field_reg Nf_dst_base_y = AIP_V20_F_DST_BASE"
| "f_field_reg Nf_dst_base_uv = AIP_V20_F_DST_BASE_C"
| "f_field_reg Nf_src_size = AIP_V20_F_SRC_SIZE"
| "f_field_reg Nf_dst_size = AIP_V20_F_DST_SIZE"
| "f_field_reg Nf_stride = AIP_V20_F_STRD"
| "f_field_reg Nf_f_ctrl = AIP_V20_F_CTL"

text \<open>What a word of a node holds after the patch: the address half of every pair is
  the field's register (bit 31 marks the control register, which ends the
  node), the value half is left as the user wrote it, except the one of the
  control register.\<close>

definition f_patched :: "soc \<Rightarrow> f_node_field \<Rightarrow> nat \<Rightarrow> u32 \<Rightarrow> u32" where
  "f_patched soc f j old =
     (if j = 1 then JZ_AIP_V20_IOBASE soc + f_field_reg f OR (if f = Nf_f_ctrl then 0x80000000 else 0)
      else if f = Nf_f_ctrl then 1 else old)"

lemma f_field_ix_lt: "f_field_ix f < 13"
  by (cases f) simp_all

text \<open>What a word of the extra last node of the A1 workaround holds: only the time-out
  and the control register are written.\<close>

definition f_last_patched :: "soc \<Rightarrow> f_node_field \<Rightarrow> nat \<Rightarrow> u32 \<Rightarrow> u32" where
  "f_last_patched soc f j old =
     (if f = Nf_timeout then (if j = 1 then JZ_AIP_V20_IOBASE soc + AIP_V20_F_TIME_CNT else 2)
      else if f = Nf_f_ctrl then
        (if j = 1 then JZ_AIP_V20_IOBASE soc + AIP_V20_F_CTL OR 0x80000000 else 1)
      else old)"

interpretation f_chain: node_chain 26 "pair_words f_field_ix (f_node_fixup soc)"
  "pair_words f_field_ix (f_last_fixup soc)" for soc
  by unfold_locales (simp_all add: pair_words_def f_node_fixup_def f_last_fixup_def Let_def)

text \<open>The nodes a submission writes, with the extra one.\<close>

definition f_chain_nodes :: "soc \<Rightarrow> u32 \<Rightarrow> nat" where
  "f_chain_nodes soc num = chain_nodes (f_node_count soc num) (repair_a1 soc)"

lemma f_chain_fits:
  "bo_holds bo ofst (f_chain_writes soc num) \<longleftrightarrow>
   f_chain_nodes soc num = 0 \<or> unat ofst + 104 * f_chain_nodes soc num \<le> unat (bo_size bo)"
  using f_chain.patch_fits [of soc "f_node_count soc num" "repair_a1 soc" "unat ofst" "unat (bo_size bo)"]
  by (simp add: bo_holds_def list_all_iff f_chain_writes_patch f_chain_nodes_def split_beta)

lemma f_last_lookup:
  "j < 2 \<Longrightarrow> (case map_of (rev (pair_words f_field_ix (f_last_fixup soc))) (2 * f_field_ix f + j) of
     None \<Rightarrow> old | Some v \<Rightarrow> v) = f_last_patched soc f j old"
  by (cases f; cases "j = 0")
     (simp_all add: pair_words_def f_last_fixup_def Let_def f_last_patched_def less_2_cases_iff)

lemma f_fixup_lookup:
  "j < 2 \<Longrightarrow> (case map_of (rev (pair_words f_field_ix (f_node_fixup soc))) (2 * f_field_ix f + j) of
     None \<Rightarrow> old | Some v \<Rightarrow> v) = f_patched soc f j old"
  by (cases f; cases "j = 0")
     (simp_all add: pair_words_def f_node_fixup_def Let_def f_patched_def less_2_cases_iff)

section \<open>The engine's programming\<close>

text \<open>The writes that put a job on the engine; \<open>ctl\<close> is what the control register
  reads after the reset.\<close>

definition f_start_writes :: "soc \<Rightarrow> f_exec_info \<Rightarrow> bo_info \<Rightarrow> u32 \<Rightarrow> (u32 \<times> u32) list" where
  "f_start_writes soc exec bo ctl =
     [(AIP_V20_F_CTL, ffield AIP_V20_F_CTL_SOFT_RESET),
      (AIP_V20_F_CFG, f_start_cfg soc exec),
      (AIP_V20_F_CHAIN_BASE, bo_dma bo + f_mem_ofst exec),
      (AIP_V20_F_CHAIN_SIZE, node_size exec),
      (AIP_V20_F_CTL, ctl OR ffield AIP_V20_F_CTL_CHAIN_BUSY)]"

lemma submit_next_f_bus:
  assumes "jz_aip_v20_submit_next_f_job soc now d = Inr d'" "job_list (f_ch d) = exec # es"
    "bo_objs (bos d) (f_node exec) = Some bo"
  shows "\<exists>ctl. bus (dev_io d') = bus (dev_io d) @ f_start_writes soc exec bo ctl"
  using assms by (auto simp: jz_aip_v20_submit_next_f_job_def q_first_def bo_ref_def
      res_bind_Inr_iff Let_def f_start_writes_def dest!: jz_aip_v20_f_reset_Inr)

text \<open>The configuration a job runs with, as a register layout.\<close>

definition f_start_fields :: "soc \<Rightarrow> submit_f \<Rightarrow> (reg_field \<times> u32) list" where
  "f_start_fields soc dat =
     [(AIP_V20_F_CFG_BW, f_format dat), (AIP_V20_F_CFG_IBUS, f_pos_in dat),
      (AIP_V20_F_CFG_OBUS, f_pos_out dat), (AIP_V20_F_CFG_TIMEOUT_ENABLE, - 1),
      (AIP_V20_F_CFG_IRQ_MASK, - 1), (AIP_V20_F_CFG_CKG_MASK, - 1)] @
     (if repair_a1 soc then [(AIP_V20_F_CFG_CHAIN_IRQ_MASK, - 1)] else [])"

lemma f_start_cfg_encode:
  "f_start_cfg soc (f_exec_new ev dat p ofst) = encode_fields (f_start_fields soc dat)"
  by (simp add: f_start_cfg_def f_exec_new_def f_op_cfg_def f_start_fields_def encode_fields_def
      ffield_fput or.assoc)

lemma f_irq_finish_running:
  assumes "jz_aip_v20_f_irq_finish_job soc now now' d = Inr d'" "job_list (f_ch d) = e # e2 # es"
    "e_state e = AIP_JOB_RUNNING" "bo_objs (bos d) (f_node e2) = Some bo"
  shows "\<exists>ctl. bus (dev_io d') = bus (dev_io d) @ f_start_writes soc e2 bo ctl"
    and "job_list (f_ch d') = e2\<lparr>start_time := now', e_state := AIP_JOB_RUNNING\<rparr> # es"
    and "job_done_list (f_ch d') = job_done_list (f_ch d) @
      [e\<lparr>end_time := now, hw_time := 0xffffffff - readl (dev_io d) AIP_V20_F_TIME_CNT\<rparr>]"
    and "finished_seqno (f_ch d') = e_seqno e" "work_queued (f_ch d')"
proof -
  let ?q = "q_retire now (0xffffffff - readl (dev_io d) AIP_V20_F_TIME_CNT) (f_ch d)"
  have next_job: "jz_aip_v20_submit_next_f_job soc now' (d\<lparr>f_ch := ?q\<rparr>) = Inr d'"
    using assms(1-3) by (simp add: jz_aip_v20_f_irq_finish_job_def q_first_def Let_def)
  have q: "job_list ?q = e2 # es" using assms(2) by (simp add: q_retire_def)
  show "\<exists>ctl. bus (dev_io d') = bus (dev_io d) @ f_start_writes soc e2 bo ctl"
    using submit_next_f_bus [OF next_job, of e2 es bo] q assms(4) by simp
  have "f_ch d' = q_start now' ?q" using submit_next_f_ch [OF next_job] by simp
  with assms(2) show "job_list (f_ch d') = e2\<lparr>start_time := now', e_state := AIP_JOB_RUNNING\<rparr> # es"
    "job_done_list (f_ch d') = job_done_list (f_ch d) @
      [e\<lparr>end_time := now, hw_time := 0xffffffff - readl (dev_io d) AIP_V20_F_TIME_CNT\<rparr>]"
    "finished_seqno (f_ch d') = e_seqno e" "work_queued (f_ch d')"
    by (simp_all add: q_retire_def q_start_def)
qed

lemma f_release_frame:
  assumes "jz_aip_v20_f_release soc pid now d = Inr d'"
  shows "\<exists>s q. d' = d\<lparr>dev_io := s, f_ch := q\<rparr>"
proof -
  obtain ks re s where "(if re then jz_aip_v20_submit_next_f_job soc now
      (d\<lparr>dev_io := s, f_ch := (f_ch d)\<lparr>job_list := ks\<rparr>\<rparr>)
    else Inr (d\<lparr>dev_io := s, f_ch := (f_ch d)\<lparr>job_list := ks\<rparr>\<rparr>)) = Inr d'"
    using assms by (auto simp: jz_aip_v20_f_release_def res_bind_Inr_iff Let_def)
  then show ?thesis
  proof (cases re)
    case True
    with \<open>(if re then _ else _) = Inr d'\<close> show ?thesis
      using submit_next_f_Inr by fastforce
  next
    case False
    with \<open>(if re then _ else _) = Inr d'\<close> show ?thesis by auto
  qed
qed

section \<open>Properties\<close>

text \<open>Any sequence of submissions, completions, done works and releases.\<close>

definition f_calls :: "soc \<Rightarrow> (env \<times> submit_f, int \<times> int, int) chan_call list \<Rightarrow> 'p aip_dev \<Rightarrow>
    fault + 'p aip_dev" where
  "f_calls soc = run_calls (\<lambda>(ev, dat). jz_aip_v20_f_op soc ev dat)
     (\<lambda>(now, now'). jz_aip_v20_f_irq_finish_job soc now now')
     jz_aip_v20_f_job_done_work (\<lambda>p now. jz_aip_v20_f_release soc p now)"

definition sample_f :: submit_f where
  "sample_f = \<lparr>f_format = 2, f_pos_in = 0, f_pos_out = 1, f_node_handle = 1, f_node_num = 3,
     f_paddr = 0x1100, f_name = User_name ''resize''\<rparr>"

definition sample_f_exec :: "int \<Rightarrow> u64 \<Rightarrow> job_state \<Rightarrow> f_exec_info" where
  "sample_f_exec p n st = (f_exec_new sample_env sample_f 0 0x100)\<lparr>e_pid := p, e_seqno := n, e_state := st\<rparr>"

text \<open>Job 4 of process 7 is running, job 5 of process 8 waits.\<close>

definition sample_f_dev :: "unit aip_dev" where
  "sample_f_dev = sample_dev\<lparr>f_ch := \<lparr>submited_seqno = 5, finished_seqno = 3,
     job_list = [sample_f_exec 7 4 AIP_JOB_RUNNING, sample_f_exec 8 5 AIP_JOB_INITIAL],
     job_done_list = [], work_queued = False\<rparr>\<rparr>"

lemma sample_f_ok: "f_ok (clearing_soc a1) sample_dev" "f_ok (clearing_soc a1) sample_f_dev"
  "f_ok (clearing_soc a1) (jz_aip_v20_core_init sample_dev)"
  by (simp_all add: f_ok_def f_live_def clearing_soc_quiesces f_idle_def f_reset_done_def
      sample_f_dev_def sample_f_exec_def f_exec_new_def jz_aip_v20_core_init_def)

lemma sample_f_inv: "jobq_inv (f_ch sample_f_dev)" "jobq_dense (f_ch sample_f_dev)"
  by (simp_all add: jobq_inv_def jobq_dense_def head_running_def sample_f_dev_def sample_f_exec_def
      upt_rec f_exec_new_def)

text \<open>C3. Whatever the order of submissions, completion interrupts, done works and
  releases, the AIP-F queue stays well formed from the driver's start: exactly the
  first job is on the hardware, numbers increase along the list, lie after the
  last finished one and up to the last one given out, and finished jobs are
  always covered by a scheduled work item (as long as fewer than 2^64 jobs are
  submitted).\<close>

theorem f_queue_invariant:
  assumes "f_calls soc cs (jz_aip_v20_core_init d) = Inr d'" "submit_calls cs < 2 ^ 64"
  shows "jobq_inv (f_ch d')"
  using f.run_calls_inv [of soc cs "jz_aip_v20_core_init d" d'] assms jobq_inv_init
  by (simp add: f_calls_def jz_aip_v20_core_init_def)

text \<open>C4. First come, first served, and nothing is lost: without a release, the numbers
  in the AIP-F list are exactly those after the last finished one up to the last
  one given out, in this order.\<close>

theorem f_first_come_first_served:
  assumes "f_calls soc cs (jz_aip_v20_core_init d) = Inr d'" "submit_calls cs < 2 ^ 64"
    "\<not> has_release cs"
  shows "map (unat \<circ> e_seqno) (job_list (f_ch d')) =
    [Suc (unat (finished_seqno (f_ch d'))) ..< Suc (unat (submited_seqno (f_ch d')))]"
  using f.run_calls_dense [of soc cs "jz_aip_v20_core_init d" d'] assms jobq_inv_init jobq_dense_init
  by (simp add: f_calls_def jz_aip_v20_core_init_def flip: jobq_dense_def del: upt_Suc)

text \<open>C5. No call hangs or crashes: when the engine becomes idle and completes resets,
  the buffer objects in use are alive, and every chain that is submitted lies in the
  buffer object its handle names, every sequence of AIP-F calls returns and leaves
  such a state.\<close>

theorem f_calls_return:
  assumes "f_ok soc d" "\<forall>ev dat. Call_submit (ev, dat) \<in> set cs \<longrightarrow> f_fits soc (bos d) dat"
  shows "\<exists>d'. f_calls soc cs d = Inr d' \<and> f_ok soc d'"
  using f_total.run_calls_total [of soc d "bos d" cs] assms by (auto simp: f_calls_def)

text \<open>The last condition is needed, for the driver does not check it: a submission whose
  nodes do not end within the buffer object is written beyond it.\<close>

theorem f_op_overruns_buffer:
  assumes "kmalloc_ok ev" "idr_find (bo_handles (bos d)) (f_node_handle dat) = Some p"
    "bo_objs (bos d) p = Some bo" "f_chain_nodes soc (f_node_num dat) \<noteq> 0"
    "unat (bo_size bo) < unat (f_paddr dat - bo_dma bo) + 104 * f_chain_nodes soc (f_node_num dat)"
  shows "jz_aip_v20_f_op soc ev dat d = Inl Out_of_buffer"
  using assms f_chain_fits [of bo "f_paddr dat - bo_dma bo" soc "f_node_num dat"]
  by (simp add: jz_aip_v20_f_op_def bo_ref_def bo_store_def Let_def)

text \<open>Every AIP-F job is served: as many completions as there are jobs empty the
  list, and the jobs arrive in the done list in the order of the list.\<close>

theorem f_jobs_served:
  assumes "f_ok soc d" "jobq_inv (f_ch d)" "length nows = length (job_list (f_ch d))"
  shows "\<exists>d'. f_calls soc (map Call_finish nows) d = Inr d' \<and> job_list (f_ch d') = [] \<and>
    map e_seqno (job_done_list (f_ch d')) =
      map e_seqno (job_done_list (f_ch d) @ job_list (f_ch d))"
  using f_total.finish_all [of soc d "bos d" nows] assms by (simp add: f_calls_def)

definition sample_f_calls :: "(env \<times> submit_f, int \<times> int, int) chan_call list" where
  "sample_f_calls = [Call_submit (sample_env, sample_f), Call_submit (sample_env, sample_f),
     Call_finish (30, 31), Call_work, Call_submit (sample_env, sample_f)]"

lemma sample_f_fits: "f_fits (clearing_soc a1) sample_bos sample_f"
  by (cases a1) (simp_all add: f_fits_def sample_f_def idr_find_def f_chain_fits f_chain_nodes_def
      chain_nodes_def f_node_count_def clearing_soc_def)

lemma sample_f_calls_fit:
  "\<forall>ev dat. Call_submit (ev, dat) \<in> set sample_f_calls \<longrightarrow> f_fits (clearing_soc a1) sample_bos dat"
  by (auto simp: sample_f_calls_def sample_f_fits)

lemma sample_f_calls_run:
  "\<exists>d'. f_calls (clearing_soc True) sample_f_calls (jz_aip_v20_core_init sample_dev) = Inr d'"
  using f_total.run_calls_total [of "clearing_soc True" "jz_aip_v20_core_init sample_dev" sample_bos sample_f_calls]
    sample_f_ok(3) [of True] sample_f_calls_fit [of True]
  by (auto simp: f_calls_def jz_aip_v20_core_init_def)

theorem f_queue_invariant_witness:
  "\<exists>d'. f_calls (clearing_soc True) sample_f_calls (jz_aip_v20_core_init sample_dev) = Inr d' \<and>
     jobq_inv (f_ch d')"
  using sample_f_calls_run f_queue_invariant [of "clearing_soc True" sample_f_calls sample_dev]
  by (auto simp: sample_f_calls_def)

theorem f_first_come_first_served_witness:
  "\<exists>d'. f_calls (clearing_soc True) sample_f_calls (jz_aip_v20_core_init sample_dev) = Inr d' \<and>
     map (unat \<circ> e_seqno) (job_list (f_ch d')) =
       [Suc (unat (finished_seqno (f_ch d'))) ..< Suc (unat (submited_seqno (f_ch d')))]"
  using sample_f_calls_run f_first_come_first_served [of "clearing_soc True" sample_f_calls sample_dev]
  by (auto simp: sample_f_calls_def simp del: upt_Suc)

theorem f_calls_return_witness:
  "\<exists>d'. f_calls (clearing_soc True) sample_f_calls sample_dev = Inr d' \<and>
     f_ok (clearing_soc True) d'"
  by (rule f_calls_return [OF sample_f_ok(1)]) (use sample_f_calls_fit in simp)

theorem f_jobs_served_witness:
  "\<exists>d'. f_calls (clearing_soc True) (map Call_finish [(1, 2), (3, 4)]) sample_f_dev = Inr d' \<and>
     job_list (f_ch d') = [] \<and> map e_seqno (job_done_list (f_ch d')) = [4, 5]"
  using f_jobs_served [OF sample_f_ok(2) sample_f_inv(1), of "[(1, 2), (3, 4)]" True]
  by (simp add: sample_f_dev_def sample_f_exec_def)

text \<open>C9. The node chain is patched with register addresses only, and in its place: after a
  successful submission the chain ends within the buffer object its handle names;
  every address word of every node names its field's register (bit 31 set on the
  control register, whose value is 1) and the user's value words are kept; on A1 the
  node after them has its time-out and control register written and nothing else; and
  no byte outside these nodes changes.\<close>

theorem f_op_patches_chain:
  assumes "jz_aip_v20_f_op soc ev dat d = Inr (0, d')"
    "idr_find (bo_handles (bos d)) (f_node_handle dat) = Some p" "bo_objs (bos d) p = Some bo"
    "base = bo_vaddr bo + (f_paddr dat - bo_dma bo)"
    "n = f_node_count soc (f_node_num dat)" "N = (if repair_a1 soc then n + 1 else n)"
  shows "(0 < N \<longrightarrow> unat (f_paddr dat - bo_dma bo) + 104 * N \<le> unat (bo_size bo)) \<and>
    (\<forall>i f j. i < N \<and> j < 2 \<longrightarrow> load32 (kmem (bos d')) (word_at base (f_word i f j)) =
      (if i < n then f_patched else f_last_patched) soc f j
        (load32 (kmem (bos d)) (word_at base (f_word i f j)))) \<and>
    (\<forall>a. 104 * N \<le> unat (a - base) \<longrightarrow> kmem (bos d') a = kmem (bos d) a)"
proof -
  let ?ws = "f_chain_writes soc (f_node_num dat)"
  have N: "chain_nodes n (repair_a1 soc) = N" using assms(6) by (simp add: chain_nodes_def)
  have m: "kmem (bos d') = store_words base ?ws (kmem (bos d))"
    and holds: "bo_holds bo (f_paddr dat - bo_dma bo) ?ws"
    using f_op_cases [OF assms(1)] assms(2-4) by (auto simp: EFAULT_def dest: f_enqueue_bos)
  have fits: "N = 0 \<or> unat (f_paddr dat - bo_dma bo) + 104 * N \<le> unat (bo_size bo)"
    using holds by (simp add: f_chain_fits f_chain_nodes_def N assms(5) [symmetric])
  moreover have "unat (bo_size bo) < 2 ^ 32" using unsigned_less [of "bo_size bo"] by simp
  ultimately have lim: "26 * chain_nodes n (repair_a1 soc) \<le> 2 ^ 30" using N by auto
  have words: "load32 (kmem (bos d')) (word_at base (f_word i f j)) =
      (if i < n then f_patched else f_last_patched) soc f j
        (load32 (kmem (bos d)) (word_at base (f_word i f j)))"
    if "i < N" "j < 2" for i f j
  proof -
    have k: "2 * f_field_ix f + j < 26" using that(2) f_field_ix_lt [of f] by simp
    have w: "f_word i f j = 26 * i + (2 * f_field_ix f + j)" by (simp add: f_word_def)
    show ?thesis
      using f_chain.load32_patched [OF lim _ k, of i] that(1) f_fixup_lookup [OF that(2)]
        f_last_lookup [OF that(2)]
      by (simp add: m f_chain_writes_patch w N assms(5) [symmetric])
  qed
  have "kmem (bos d') a = kmem (bos d) a" if "104 * N \<le> unat (a - base)" for a
    using f_chain.patched_frame [OF lim, of a base] that N
    by (simp add: m f_chain_writes_patch assms(5) [symmetric])
  with words fits show ?thesis by blast
qed

text \<open>C10. The completion interrupt of a busy AIP-F channel: it acknowledges the status
  it read, retires the running job with its times, schedules the done work, and
  programs the engine with the next job's configuration, chain address and size.\<close>

theorem f_irq_starts_next:
  assumes "jz_aip_v20_f_irq_handler soc now now' now'' d = Inr d'"
    "st = readl (dev_io d) AIP_V20_F_IRQ" "st AND ffield AIP_V20_F_IRQ_CHAIN_IRQ \<noteq> 0"
    "st AND ffield AIP_V20_F_IRQ_TIMEOUT_IRQ = 0"
    "job_list (f_ch d) = e # e2 # es" "e_state e = AIP_JOB_RUNNING"
    "bo_objs (bos d) (f_node e2) = Some bo"
  shows "\<exists>ctl hwt. bus (dev_io d') =
      bus (dev_io d) @ (AIP_V20_F_IRQ, st) # f_start_writes soc e2 bo ctl \<and>
    job_list (f_ch d') = e2\<lparr>start_time := now', e_state := AIP_JOB_RUNNING\<rparr> # es \<and>
    job_done_list (f_ch d') = job_done_list (f_ch d) @ [e\<lparr>end_time := now, hw_time := hwt\<rparr>] \<and>
    finished_seqno (f_ch d') = e_seqno e \<and> work_queued (f_ch d')"
proof -
  let ?d = "d\<lparr>dev_io := writel soc AIP_V20_F_IRQ st (dev_io d)\<rparr>"
  have fin: "jz_aip_v20_f_irq_finish_job soc now now' ?d = Inr d'"
    using assms(1-4) by (simp add: jz_aip_v20_f_irq_handler_def Let_def res_bind_Inr_iff)
  show ?thesis
    using f_irq_finish_running [OF fin, of e e2 es bo] assms(5-7) by auto
qed

text \<open>The configuration register a job is started with decodes to what its caller
  asked for: format, input and output position, each cut to its field, with the
  time-out, the interrupt and the clock gate switched on and every other field 0.\<close>

theorem f_start_cfg_decodes:
  "\<forall>fld \<in> set AIP_V20_F_CFG_layout. fget fld (f_start_cfg soc (f_exec_new ev dat p ofst)) =
     (if fld = AIP_V20_F_CFG_BW then f_format dat AND fmask fld
      else if fld = AIP_V20_F_CFG_IBUS then f_pos_in dat AND fmask fld
      else if fld = AIP_V20_F_CFG_OBUS then f_pos_out dat AND fmask fld
      else if fld \<in> {AIP_V20_F_CFG_TIMEOUT_ENABLE, AIP_V20_F_CFG_IRQ_MASK, AIP_V20_F_CFG_CKG_MASK} \<or>
          fld = AIP_V20_F_CFG_CHAIN_IRQ_MASK \<and> repair_a1 soc then fmask fld
      else 0)"
proof -
  have sub: "fst ` set (f_start_fields soc dat) \<subseteq> set AIP_V20_F_CFG_layout"
    "distinct (map fst (f_start_fields soc dat))"
    by (cases "repair_a1 soc"; simp add: f_start_fields_def AIP_V20_F_CFG_layout_def aip_fields)+
  show ?thesis
    unfolding f_start_cfg_encode
    using f_cfg.fget_encode_fields [OF sub]
    by (auto simp: f_start_fields_def AIP_V20_F_CFG_layout_def aip_fields)
qed

text \<open>Closing a file cancels exactly the process's own AIP-F jobs: the others stay
  in their order, the sequence counters do not move, and the engine is not
  touched unless the job on it was cancelled.\<close>

theorem f_release_own_jobs_only:
  assumes "jz_aip_v20_f_release soc pid now d = Inr d'"
  shows "map e_seqno (job_list (f_ch d')) =
      map e_seqno (filter (\<lambda>e. e_pid e \<noteq> pid) (job_list (f_ch d))) \<and>
    submited_seqno (f_ch d') = submited_seqno (f_ch d) \<and>
    finished_seqno (f_ch d') = finished_seqno (f_ch d) \<and>
    (\<not> q_cancels_running pid (f_ch d) \<longrightarrow> dev_io d' = dev_io d)"
proof -
  have "dev_io d' = dev_io d" if "\<not> q_cancels_running pid (f_ch d)"
    using that assms by (auto simp: jz_aip_v20_f_release_def res_bind_Inr_iff Let_def
        q_cancels_running_def dest: release_scan_quiet release_scan_Inr split: if_splits)
  then show ?thesis
    using f_engine.release_q [OF assms [unfolded f_release_engine]] by (simp add: q_cancel_def)
qed

text \<open>Witnesses.\<close>

theorem f_op_overruns_buffer_witness:
  "jz_aip_v20_f_op (clearing_soc False) sample_env (sample_f\<lparr>f_node_num := 37\<rparr>) sample_dev =
     Inl Out_of_buffer"
  by (rule f_op_overruns_buffer [of _ _ _ 0
        "\<lparr>bo_pid = 7, bo_vaddr = 0x81000000, bo_dma = 0x1000, bo_size = 0x1000\<rparr>"])
     (simp_all add: sample_env_def sample_f_def idr_find_def f_chain_nodes_def chain_nodes_def
        f_node_count_def clearing_soc_def)

theorem f_op_patches_chain_witness:
  "\<exists>d'. jz_aip_v20_f_op (clearing_soc True) sample_env sample_f sample_dev = Inr (0, d') \<and>
     load32 (kmem (bos d')) (word_at 0x81000100 (f_word 1 Nf_scale_x 1)) = 0x13090000 + AIP_V20_F_SCALEX"
proof -
  obtain n d' where d': "jz_aip_v20_f_op (clearing_soc True) sample_env sample_f sample_dev = Inr (n, d')"
    using f_op_total [OF sample_f_ok(1)] sample_f_fits by fastforce
  then have n: "n = 0"
    using f_op_cases [OF d'] by (auto simp: jz_aip_v20_f_op_def sample_env_def sample_f_def
        idr_find_def bo_ref_def res_bind_Inr_iff Let_def)
  note patched = f_op_patches_chain [OF d' [unfolded n], of 0
      "\<lparr>bo_pid = 7, bo_vaddr = 0x81000000, bo_dma = 0x1000, bo_size = 0x1000\<rparr>" "0x81000100" 2 3]
  have "f_node_count (clearing_soc True) (f_node_num sample_f) = 2"
    by (simp add: f_node_count_def clearing_soc_def sample_f_def)
  with patched have "load32 (kmem (bos d')) (word_at 0x81000100 (f_word 1 Nf_scale_x 1)) =
      f_patched (clearing_soc True) Nf_scale_x 1
        (load32 (kmem (bos sample_dev)) (word_at 0x81000100 (f_word 1 Nf_scale_x 1)))"
    by (simp add: sample_f_def idr_find_def clearing_soc_def)
  with d' n show ?thesis
    by (simp add: f_patched_def JZ_AIP_V20_IOBASE_def clearing_soc_def)
qed

text \<open>The device of the witnesses with a completion pending.\<close>

definition sample_f_irq :: "unit aip_dev" where
  "sample_f_irq = sample_f_dev\<lparr>dev_io := \<lparr>io_regs = (\<lambda>a. if a = AIP_V20_F_IRQ then 2 else 0), bus = []\<rparr>\<rparr>"

theorem f_irq_starts_next_witness:
  "\<exists>d'. jz_aip_v20_f_irq_handler (clearing_soc False) 30 31 32 sample_f_irq = Inr d' \<and>
     finished_seqno (f_ch d') = 4 \<and> map e_seqno (job_list (f_ch d')) = [5]"
proof -
  let ?soc = "clearing_soc False"
  have "f_ok ?soc (sample_f_irq\<lparr>dev_io := writel ?soc AIP_V20_F_IRQ 2 (dev_io sample_f_irq)\<rparr>)"
    using sample_f_ok(2) [of False] by (simp add: f_ok_def f_live_def sample_f_irq_def)
  from f_irq_finish_total [OF this, of 30 31] obtain d' where
    d': "jz_aip_v20_f_irq_handler ?soc 30 31 32 sample_f_irq = Inr d'"
    by (auto simp: jz_aip_v20_f_irq_handler_def Let_def readl_def sample_f_irq_def aip_fields
        ffield_def fmask_def clearing_soc_def)
  have st: "2 = readl (dev_io sample_f_irq) AIP_V20_F_IRQ"
    "(2 :: u32) AND ffield AIP_V20_F_IRQ_CHAIN_IRQ \<noteq> 0"
    "(2 :: u32) AND ffield AIP_V20_F_IRQ_TIMEOUT_IRQ = 0"
    by (simp_all add: readl_def sample_f_irq_def aip_fields ffield_def fmask_def)
  have jobs: "job_list (f_ch sample_f_irq) =
      sample_f_exec 7 4 AIP_JOB_RUNNING # sample_f_exec 8 5 AIP_JOB_INITIAL # []"
    "e_state (sample_f_exec 7 4 AIP_JOB_RUNNING) = AIP_JOB_RUNNING"
    "bo_objs (bos sample_f_irq) (f_node (sample_f_exec 8 5 AIP_JOB_INITIAL)) =
      Some \<lparr>bo_pid = 7, bo_vaddr = 0x81000000, bo_dma = 0x1000, bo_size = 0x1000\<rparr>"
    by (simp_all add: sample_f_irq_def sample_f_dev_def sample_f_exec_def f_exec_new_def)
  from f_irq_starts_next [OF d' st jobs] have
    "job_list (f_ch d') =
       (sample_f_exec 8 5 AIP_JOB_INITIAL)\<lparr>start_time := 31, e_state := AIP_JOB_RUNNING\<rparr> # []"
    "finished_seqno (f_ch d') = e_seqno (sample_f_exec 7 4 AIP_JOB_RUNNING)"
    by blast+
  then have "finished_seqno (f_ch d') = 4 \<and> map e_seqno (job_list (f_ch d')) = [5]"
    by (simp add: sample_f_exec_def)
  with d' show ?thesis by (intro exI [of _ d'] conjI) simp_all
qed

theorem f_release_own_jobs_only_witness:
  "\<exists>d'. jz_aip_v20_f_release (clearing_soc True) 8 50 sample_f_dev = Inr d' \<and>
     map e_seqno (job_list (f_ch d')) = [4] \<and> dev_io d' = dev_io sample_f_dev"
proof -
  obtain d' where d': "jz_aip_v20_f_release (clearing_soc True) 8 50 sample_f_dev = Inr d'"
    using f_release_total [OF sample_f_ok(2)] by blast
  from f_release_own_jobs_only [OF d'] d' show ?thesis
    by (simp add: sample_f_dev_def sample_f_exec_def q_cancels_running_def)
qed

end
