(* ===== verification/PChannel.thy ===== *)
theory PChannel
  imports Engine
begin

text \<open>
  The AIP-P (affine and perspective) channel: \<open>jz_aip_v20_p_reset\<close>,
  \<open>jz_aip_v20_submit_next_p_job\<close>, \<open>jz_aip_v20_p_op\<close> and the done work of
  \<open>drive/jz_aip_v20_core.c\<close>, the interrupt handler of \<open>drive/jz_aip_v20_irq.c\<close> and
  \<open>jz_aip_v20_p_release\<close> of \<open>drive/jz_aip_v20_drv.c\<close>. Beside the chain the engine
  gets nine conversion parameters, two of them negated. Two error paths differ
  from AIP-F: the test for an unknown buffer handle compares a pointer with
  \<open>< 0\<close> and never succeeds, and a failing copy of the parameters leaks the job.
\<close>

section \<open>Reset\<close>

definition p_idle :: "regs \<Rightarrow> bool" where
  "p_idle r \<longleftrightarrow> r AIP_V20_P_CTL AND ffield AIP_V20_P_CTL_BUSY = 0 \<and>
     r AIP_V20_P_CTL AND ffield AIP_V20_P_CTL_CHAIN_BUSY = 0"

definition p_reset_done :: "regs \<Rightarrow> bool" where
  "p_reset_done r \<longleftrightarrow> r AIP_V20_P_CTL AND ffield AIP_V20_P_CTL_SOFT_RESET = 0"

definition jz_aip_v20_p_reset :: "soc \<Rightarrow> io \<Rightarrow> fault + io" where
  "jz_aip_v20_p_reset soc s =
     res_bind (poll soc p_idle s) (\<lambda>s.
     poll soc p_reset_done (writel soc AIP_V20_P_CTL (ffield AIP_V20_P_CTL_SOFT_RESET) s))"

section \<open>Starting the first job\<close>

definition p_start_cfg :: "soc \<Rightarrow> p_exec_info \<Rightarrow> u32" where
  "p_start_cfg soc exec = cfg_reg exec
     OR ffield AIP_V20_P_CFG_TIMEOUT_ENABLE
     OR ffield AIP_V20_P_CFG_IRQ_MASK
     OR ffield AIP_V20_P_CFG_CKG_MASK
     OR (if repair_a1 soc then ffield AIP_V20_P_CFG_CHAIN_IRQ_MASK else 0)"

text \<open>The nine parameter registers.\<close>

definition p_param_writes :: "(nat \<Rightarrow> u32) \<Rightarrow> (u32 \<times> u32) list" where
  "p_param_writes param =
     [(AIP_V20_P_PARAM0, param 0), (AIP_V20_P_PARAM1, param 1), (AIP_V20_P_PARAM2, param 2),
      (AIP_V20_P_PARAM3, param 3), (AIP_V20_P_PARAM4, - param 4), (AIP_V20_P_PARAM5, - param 5),
      (AIP_V20_P_PARAM6, param 6), (AIP_V20_P_PARAM7, param 7), (AIP_V20_P_PARAM8, param 8)]"

definition jz_aip_v20_submit_next_p_job :: "soc \<Rightarrow> int \<Rightarrow> 'p aip_dev \<Rightarrow> fault + 'p aip_dev" where
  "jz_aip_v20_submit_next_p_job soc now d = (case q_first (p_ch d) of
     None \<Rightarrow> Inr d
   | Some exec \<Rightarrow>
       res_bind (jz_aip_v20_p_reset soc (dev_io d)) (\<lambda>s.
       let s = writel_all soc (p_param_writes (p_params exec)) s;
           s = writel soc AIP_V20_P_CFG (p_start_cfg soc exec) s in
       res_bind (bo_ref (bos d) (p_node exec)) (\<lambda>bo.
       let s = writel soc AIP_V20_P_CHAIN_BASE (bo_dma bo + p_mem_ofst exec) s;
           s = writel soc AIP_V20_P_CHAIN_SIZE (node_size exec) s;
           p_ctrl = readl s AIP_V20_P_CTL OR ffield AIP_V20_P_CTL_CHAIN_BUSY;
           s = writel soc AIP_V20_P_CTL p_ctrl s
       in Inr (d\<lparr>dev_io := s, p_ch := q_start now (p_ch d)\<rparr>))))"

section \<open>The chain of nodes\<close>

text \<open>\<open>aip_v20_p_node_t\<close>: twenty-seven pairs of words, a value and the address of the
  register it goes to.\<close>

datatype p_node_field = Np_timeout | Np_mode | Np_src_base_y | Np_src_base_uv
  | Np_src_stride | Np_dst_base | Np_dst_stride | Np_dst_size | Np_src_size | Np_dummy_val
  | Np_coef0 | Np_coef1 | Np_coef2 | Np_coef3 | Np_coef4 | Np_coef5 | Np_coef6 | Np_coef7
  | Np_coef8 | Np_coef9 | Np_coef10 | Np_coef11 | Np_coef12 | Np_coef13 | Np_coef14
  | Np_offset | Np_p_ctrl

primrec p_field_ix :: "p_node_field \<Rightarrow> nat" where
  "p_field_ix Np_timeout = 0"
| "p_field_ix Np_mode = 1"
| "p_field_ix Np_src_base_y = 2"
| "p_field_ix Np_src_base_uv = 3"
| "p_field_ix Np_src_stride = 4"
| "p_field_ix Np_dst_base = 5"
| "p_field_ix Np_dst_stride = 6"
| "p_field_ix Np_dst_size = 7"
| "p_field_ix Np_src_size = 8"
| "p_field_ix Np_dummy_val = 9"
| "p_field_ix Np_coef0 = 10"
| "p_field_ix Np_coef1 = 11"
| "p_field_ix Np_coef2 = 12"
| "p_field_ix Np_coef3 = 13"
| "p_field_ix Np_coef4 = 14"
| "p_field_ix Np_coef5 = 15"
| "p_field_ix Np_coef6 = 16"
| "p_field_ix Np_coef7 = 17"
| "p_field_ix Np_coef8 = 18"
| "p_field_ix Np_coef9 = 19"
| "p_field_ix Np_coef10 = 20"
| "p_field_ix Np_coef11 = 21"
| "p_field_ix Np_coef12 = 22"
| "p_field_ix Np_coef13 = 23"
| "p_field_ix Np_coef14 = 24"
| "p_field_ix Np_offset = 25"
| "p_field_ix Np_p_ctrl = 26"

text \<open>Word index of \<open>chain[i].field[j]\<close>; a node has 54 words.\<close>

definition p_word :: "nat \<Rightarrow> p_node_field \<Rightarrow> nat \<Rightarrow> nat" where
  "p_word i f j = 54 * i + 2 * p_field_ix f + j"

text \<open>The loop body: \<open>mode\<close> is the caller's mode and \<open>ofst\<close> the offset register's value.\<close>

definition p_node_fixup :: "soc \<Rightarrow> u32 \<Rightarrow> u32 \<Rightarrow> (p_node_field \<times> nat \<times> u32) list" where
  "p_node_fixup soc mode ofst = (let base = JZ_AIP_V20_IOBASE soc in
     [(Np_timeout, 1, base + AIP_V20_P_TIME_CNT),
      (Np_mode, 0, mode),
      (Np_mode, 1, base + AIP_V20_P_MODE),
      (Np_src_base_y, 1, base + AIP_V20_P_SRC_YBASE),
      (Np_src_base_uv, 1, base + AIP_V20_P_SRC_CBASE),
      (Np_src_stride, 1, base + AIP_V20_P_SRC_STRIDE),
      (Np_dst_base, 1, base + AIP_V20_P_DST_BASE),
      (Np_dst_stride, 1, base + AIP_V20_P_DST_STRIDE),
      (Np_dst_size, 1, base + AIP_V20_P_DWH),
      (Np_src_size, 1, base + AIP_V20_P_SWH),
      (Np_dummy_val, 1, base + AIP_V20_P_DUMMT_VAL),
      (Np_coef0, 1, base + AIP_V20_P_COEF0),
      (Np_coef1, 1, base + AIP_V20_P_COEF1),
      (Np_coef2, 1, base + AIP_V20_P_COEF2),
      (Np_coef3, 1, base + AIP_V20_P_COEF3),
      (Np_coef4, 1, base + AIP_V20_P_COEF4),
      (Np_coef5, 1, base + AIP_V20_P_COEF5),
      (Np_coef6, 1, base + AIP_V20_P_COEF6),
      (Np_coef7, 1, base + AIP_V20_P_COEF7),
      (Np_coef8, 1, base + AIP_V20_P_COEF8),
      (Np_coef9, 1, base + AIP_V20_P_COEF9),
      (Np_coef10, 1, base + AIP_V20_P_COEF10),
      (Np_coef11, 1, base + AIP_V20_P_COEF11),
      (Np_coef12, 1, base + AIP_V20_P_COEF12),
      (Np_coef13, 1, base + AIP_V20_P_COEF13),
      (Np_coef14, 1, base + AIP_V20_P_COEF14),
      (Np_offset, 0, ofst),
      (Np_offset, 1, base + AIP_V20_P_OFST),
      (Np_p_ctrl, 0, 0x1),
      (Np_p_ctrl, 1, (base + AIP_V20_P_CTL) OR push_bit 31 1)])"

text \<open>The extra last node of the A1 workaround.\<close>

definition p_last_fixup :: "soc \<Rightarrow> (p_node_field \<times> nat \<times> u32) list" where
  "p_last_fixup soc = (let base = JZ_AIP_V20_IOBASE soc in
     [(Np_timeout, 0, 0x2),
      (Np_timeout, 1, base + AIP_V20_P_TIME_CNT),
      (Np_p_ctrl, 0, 0x1),
      (Np_p_ctrl, 1, (base + AIP_V20_P_CTL) OR push_bit 31 1)])"

text \<open>The loop bound is a signed \<open>int\<close>: nothing is written when it is negative.\<close>

definition p_node_count :: "soc \<Rightarrow> u32 \<Rightarrow> nat" where
  "p_node_count soc num = nat (sint (if repair_a1 soc then num - 1 else num))"

definition p_node_writes :: "(p_node_field \<times> nat \<times> u32) list \<Rightarrow> nat \<Rightarrow> (nat \<times> u32) list" where
  "p_node_writes fx i = map (\<lambda>(f, j, v). (p_word i f j, v)) fx"

definition p_chain_writes :: "soc \<Rightarrow> u32 \<Rightarrow> u32 \<Rightarrow> u32 \<Rightarrow> (nat \<times> u32) list" where
  "p_chain_writes soc mode ofst num =
     concat (map (p_node_writes (p_node_fixup soc mode ofst)) [0 ..< p_node_count soc num]) @
     (if repair_a1 soc then p_node_writes (p_last_fixup soc) (p_node_count soc num) else [])"

section \<open>Submission\<close>

definition p_op_cfg :: "submit_p \<Rightarrow> u32" where
  "p_op_cfg dat_p = fput AIP_V20_P_CFG_IBUS (p_pos_in dat_p)
     OR fput AIP_V20_P_CFG_OBUS (p_pos_out dat_p)"

definition p_op_ofst :: "submit_p \<Rightarrow> u32" where
  "p_op_ofst dat_p = fput AIP_V20_P_OFST_NV2BGR_ORDER (order (p_offset dat_p))
     OR fput AIP_V20_P_OFST_NV2BGR_ALPHA (alpha (p_offset dat_p))
     OR fput AIP_V20_P_OFST_NV2BGR_OFSET1 (offset1 (p_offset dat_p))
     OR fput AIP_V20_P_OFST_NV2BGR_OFSET0 (offset0 (p_offset dat_p))"

definition p_exec_new :: "env \<Rightarrow> submit_p \<Rightarrow> (nat \<Rightarrow> u32) \<Rightarrow> bo_ptr \<Rightarrow> u32 \<Rightarrow> p_exec_info" where
  "p_exec_new ev dat_p param p ofst =
     \<lparr>e_pid = cur_pid ev, e_state = AIP_JOB_INITIAL, submit_time = t_enter ev,
      start_time = 0, end_time = 0, hw_time = 0,
      e_name = JZ_AIP_V20_SET_JOB_NAME (p_name dat_p), e_seqno = 0,
      node_size = p_node_num dat_p * 216, cfg_reg = p_op_cfg dat_p,
      p_node = p, p_mem_ofst = ofst, p_nodes = p_node_num dat_p, p_params = param\<rparr>"

text \<open>The part under \<open>p_job_lock\<close>: the new job is started when the list was empty
  (then it is the first one), and waits otherwise.\<close>

definition p_enqueue :: "soc \<Rightarrow> int \<Rightarrow> p_exec_info \<Rightarrow> 'p aip_dev \<Rightarrow> fault + 'p aip_dev" where
  "p_enqueue soc now exec d =
     (let d' = d\<lparr>p_ch := q_push exec (p_ch d)\<rparr> in
      if job_list (p_ch d) = [] then jz_aip_v20_submit_next_p_job soc now d' else Inr d')"

text \<open>A parameter copy that fails returns without freeing the job. An unknown handle
  makes \<open>exec->node\<close> NULL, which the test \<open>exec->node < 0\<close> does not see; neither
  \<open>paddr\<close> nor \<open>node_num\<close> is compared with the object the chain is written to.\<close>

definition jz_aip_v20_p_op :: "soc \<Rightarrow> env \<Rightarrow> submit_p \<Rightarrow> 'p aip_dev \<Rightarrow> fault + (int \<times> 'p aip_dev)" where
  "jz_aip_v20_p_op soc ev dat_p d =
     (if \<not> kmalloc_ok ev then Inr (- EFAULT, d)
      else case p_param dat_p of
        None \<Rightarrow> Inr (- EFAULT, d\<lparr>orphans := orphans d + 1\<rparr>)
      | Some param \<Rightarrow>
        (case idr_find (bo_handles (bos d)) (p_node_handle dat_p) of
          None \<Rightarrow> Inl Null_deref
        | Some p \<Rightarrow>
            res_bind (bo_ref (bos d) p) (\<lambda>bo.
            let ofst = p_paddr dat_p - bo_dma bo in
            res_bind (bo_store bo ofst
                (p_chain_writes soc (p_mode dat_p) (p_op_ofst dat_p) (p_node_num dat_p))
                (kmem (bos d))) (\<lambda>m.
            let d = d\<lparr>bos := (bos d)\<lparr>kmem := m\<rparr>\<rparr>
            in res_bind (p_enqueue soc (t_later ev) (p_exec_new ev dat_p param p ofst) d)
                 (\<lambda>d. Inr (0, d))))))"

section \<open>Completion\<close>

definition jz_aip_v20_p_irq_finish_job :: "soc \<Rightarrow> int \<Rightarrow> int \<Rightarrow> 'p aip_dev \<Rightarrow> fault + 'p aip_dev" where
  "jz_aip_v20_p_irq_finish_job soc now now' d = (case q_first (p_ch d) of
     None \<Rightarrow> Inr d
   | Some exec \<Rightarrow>
       if e_state exec \<noteq> AIP_JOB_RUNNING then jz_aip_v20_submit_next_p_job soc now' d
       else
         let hw_timecnt = readl (dev_io d) AIP_V20_P_TIME_CNT in
         jz_aip_v20_submit_next_p_job soc now'
           (d\<lparr>p_ch := q_retire now (0xffffffff - hw_timecnt) (p_ch d)\<rparr>))"

definition jz_aip_v20_p_irq_handler :: "soc \<Rightarrow> int \<Rightarrow> int \<Rightarrow> int \<Rightarrow> 'p aip_dev \<Rightarrow> fault + 'p aip_dev" where
  "jz_aip_v20_p_irq_handler soc now now' now'' d =
     (let irq_status = readl (dev_io d) AIP_V20_P_IRQ;
          d = d\<lparr>dev_io := writel soc AIP_V20_P_IRQ irq_status (dev_io d)\<rparr>
      in res_bind
           (if irq_status AND ffield AIP_V20_P_IRQ_CHAIN_IRQ \<noteq> 0
            then jz_aip_v20_p_irq_finish_job soc now now' d else Inr d) (\<lambda>d.
         if irq_status AND ffield AIP_V20_P_IRQ_TIMEOUT_IRQ \<noteq> 0 \<and> repair_a1 soc
         then jz_aip_v20_p_irq_finish_job soc now now'' d else Inr d))"

definition jz_aip_v20_p_job_handle_completed ::
    "(int \<Rightarrow> int \<Rightarrow> int) \<Rightarrow> 'p aip_dev \<Rightarrow> (string \<times> u64 \<times> int \<times> int \<times> u32) list \<times> 'p aip_dev" where
  "jz_aip_v20_p_job_handle_completed us_delta d =
     (map (job_trace us_delta) (job_done_list (p_ch d)), d\<lparr>p_ch := q_drain (p_ch d)\<rparr>)"

definition jz_aip_v20_p_job_done_work :: "'p aip_dev \<Rightarrow> 'p aip_dev" where
  "jz_aip_v20_p_job_done_work d = snd (jz_aip_v20_p_job_handle_completed (\<lambda>_ _. 0) d)"

definition jz_aip_v20_p_release :: "soc \<Rightarrow> int \<Rightarrow> int \<Rightarrow> 'p aip_dev \<Rightarrow> fault + 'p aip_dev" where
  "jz_aip_v20_p_release soc p now d =
     res_bind (release_scan (jz_aip_v20_p_reset soc) p (job_list (p_ch d)) (dev_io d))
       (\<lambda>(ks, re_submit, s).
         let d = d\<lparr>dev_io := s, p_ch := (p_ch d)\<lparr>job_list := ks\<rparr>\<rparr> in
         if re_submit then jz_aip_v20_submit_next_p_job soc now d else Inr d)"

section \<open>The handlers implement the channel contract\<close>

lemma jz_aip_v20_p_reset_Inr:
  "jz_aip_v20_p_reset soc s = Inr s' \<Longrightarrow>
   bus s' = bus s @ [(AIP_V20_P_CTL, ffield AIP_V20_P_CTL_SOFT_RESET)] \<and> p_reset_done (io_regs s')"
  by (auto simp: jz_aip_v20_p_reset_def res_bind_Inr_iff dest!: poll_Inr)

lemma submit_next_p_Inr:
  assumes "jz_aip_v20_submit_next_p_job soc now d = Inr d'"
  shows "d' = d\<lparr>dev_io := dev_io d', p_ch := q_start now (p_ch d)\<rparr>"
  using assms
  by (cases "job_list (p_ch d)")
     (auto simp: jz_aip_v20_submit_next_p_job_def q_first_def q_start_def res_bind_Inr_iff Let_def)

lemma submit_next_p_ch:
  "jz_aip_v20_submit_next_p_job soc now d = Inr d' \<Longrightarrow> p_ch d' = q_start now (p_ch d)"
  by (drule submit_next_p_Inr, drule arg_cong [where f = p_ch]) simp

lemma submit_next_p_bos:
  "jz_aip_v20_submit_next_p_job soc now d = Inr d' \<Longrightarrow> bos d' = bos d"
  by (drule submit_next_p_Inr, drule arg_cong [where f = bos]) simp

lemma p_op_cases:
  assumes "jz_aip_v20_p_op soc ev dat_p d = Inr (n, d')"
  shows "(n = - EFAULT \<and> d' \<in> {d, d\<lparr>orphans := orphans d + 1\<rparr>}) \<or> (n = 0 \<and> (\<exists>p bo param.
     p_param dat_p = Some param \<and>
     idr_find (bo_handles (bos d)) (p_node_handle dat_p) = Some p \<and> bo_objs (bos d) p = Some bo \<and>
     bo_holds bo (p_paddr dat_p - bo_dma bo)
       (p_chain_writes soc (p_mode dat_p) (p_op_ofst dat_p) (p_node_num dat_p)) \<and>
     p_enqueue soc (t_later ev) (p_exec_new ev dat_p param p (p_paddr dat_p - bo_dma bo))
       (d\<lparr>bos := (bos d)\<lparr>kmem := store_words (bo_vaddr bo + (p_paddr dat_p - bo_dma bo))
          (p_chain_writes soc (p_mode dat_p) (p_op_ofst dat_p) (p_node_num dat_p))
          (kmem (bos d))\<rparr>\<rparr>) = Inr d'))"
  using assms
  by (auto simp: jz_aip_v20_p_op_def bo_ref_def bo_store_def res_bind_Inr_iff Let_def
      split: if_splits option.splits)

lemma p_exec_new_initial: "e_state (p_exec_new ev dat_p param p ofst) = AIP_JOB_INITIAL"
  by (simp add: p_exec_new_def)

lemma p_work_ch: "p_ch (jz_aip_v20_p_job_done_work d) = q_drain (p_ch d)"
  by (simp add: jz_aip_v20_p_job_done_work_def jz_aip_v20_p_job_handle_completed_def)

text \<open>When the handlers return: the engine becomes idle and completes resets, and the
  buffer objects of the handle table \<open>h\<close> and of the waiting jobs are alive.\<close>

definition p_live :: "'p aip_dev \<Rightarrow> bool" where
  "p_live d \<longleftrightarrow> (\<forall>p \<in> snd ` set (bo_handles (bos d)) \<union> p_node ` set (job_list (p_ch d)).
     bo_objs (bos d) p \<noteq> None)"

definition p_ok :: "soc \<Rightarrow> bo_ptr idr \<Rightarrow> 'p aip_dev \<Rightarrow> bool" where
  "p_ok soc h d \<longleftrightarrow> bo_handles (bos d) = h \<and> quiesces soc p_idle \<and> quiesces soc p_reset_done \<and> p_live d"

lemma p_reset_returns:
  "quiesces soc p_idle \<Longrightarrow> quiesces soc p_reset_done \<Longrightarrow> \<exists>s'. jz_aip_v20_p_reset soc s = Inr s'"
  unfolding jz_aip_v20_p_reset_def by (metis poll_quiesces res_bind.simps(2))

lemma p_live_job:
  "p_live d \<Longrightarrow> e \<in> set (job_list (p_ch d)) \<Longrightarrow> \<exists>bo. bo_objs (bos d) (p_node e) = Some bo"
  by (auto simp: p_live_def)

lemma p_live_handle:
  "p_live d \<Longrightarrow> idr_find (bo_handles (bos d)) h = Some p \<Longrightarrow> \<exists>bo. bo_objs (bos d) p = Some bo"
  by (force simp: p_live_def idr_find_def dest: map_of_SomeD)

lemma p_ok_mono:
  assumes "p_ok soc h d" "bo_handles (bos d') = bo_handles (bos d)" "bo_objs (bos d') = bo_objs (bos d)"
    "p_node ` set (job_list (p_ch d')) \<subseteq> p_node ` set (job_list (p_ch d))"
  shows "p_ok soc h d'"
proof -
  have "p_live d'"
    unfolding p_live_def assms(2,3)
    using assms(1,4) by (intro ballI) (auto simp: p_ok_def p_live_def)
  with assms(1,2) show ?thesis by (simp add: p_ok_def)
qed

lemma p_nodes_q_start: "p_node ` set (job_list (q_start now q)) = p_node ` set (job_list q)"
  by (auto simp: q_start_def split: list.splits)

lemma submit_next_p_total:
  assumes "p_ok soc h d"
  shows "\<exists>d'. jz_aip_v20_submit_next_p_job soc now d = Inr d' \<and> p_ok soc h d'"
proof -
  obtain s where s: "jz_aip_v20_p_reset soc (dev_io d) = Inr s"
    using p_reset_returns assms unfolding p_ok_def by blast
  have "\<exists>d'. jz_aip_v20_submit_next_p_job soc now d = Inr d'"
  proof (cases "job_list (p_ch d)")
    case (Cons e es)
    then obtain bo where "bo_objs (bos d) (p_node e) = Some bo"
      using assms p_live_job [of d e] by (auto simp: p_ok_def)
    with Cons s show ?thesis
      by (simp add: jz_aip_v20_submit_next_p_job_def q_first_def bo_ref_def Let_def)
  qed (simp add: jz_aip_v20_submit_next_p_job_def q_first_def)
  then obtain d' where d': "jz_aip_v20_submit_next_p_job soc now d = Inr d'" by blast
  then have "p_ok soc h d'"
    by (intro p_ok_mono [OF assms])
       (simp_all add: submit_next_p_bos submit_next_p_ch p_nodes_q_start)
  with d' show ?thesis by blast
qed

interpretation p_engine: engine p_ch "\<lambda>g d. d\<lparr>p_ch := g (p_ch d)\<rparr>" "\<lambda>s d. d\<lparr>dev_io := s\<rparr>"
  "jz_aip_v20_submit_next_p_job soc" "jz_aip_v20_p_reset soc" "p_ok soc h" for soc h
proof (unfold_locales, goal_cases)
  case (3 now d d')
  then show ?case by (rule submit_next_p_ch)
next
  case (4 d now)
  then show ?case by (rule submit_next_p_total)
next
  case (5 d s)
  then show ?case by (simp add: p_reset_returns p_ok_def)
next
  case (7 d g)
  then show ?case by (intro p_ok_mono [OF 7(1)]) auto
qed (simp_all add: p_ok_def p_live_def)

lemma p_enqueue_engine: "p_enqueue soc now e d = p_engine.enqueue soc now e d"
  by (simp add: p_enqueue_def p_engine.enqueue_def)

lemma p_irq_finish_engine:
  "jz_aip_v20_p_irq_finish_job soc now now' d =
     p_engine.finish soc True now now' (0xffffffff - readl (dev_io d) AIP_V20_P_TIME_CNT) d"
  by (simp add: jz_aip_v20_p_irq_finish_job_def p_engine.finish_def q_first_def Let_def
      split: list.split)

lemma p_release_engine:
  "jz_aip_v20_p_release soc p now d = p_engine.release soc p now (dev_io d) d"
  by (simp add: jz_aip_v20_p_release_def p_engine.release_def)

lemma p_irq_finish_total:
  "p_ok soc h d \<Longrightarrow> \<exists>d'. jz_aip_v20_p_irq_finish_job soc now now' d = Inr d' \<and> p_ok soc h d'"
  by (simp add: p_irq_finish_engine p_engine.finish_ok)

lemma p_release_total:
  "p_ok soc h d \<Longrightarrow> \<exists>d'. jz_aip_v20_p_release soc p now d = Inr d' \<and> p_ok soc h d'"
  by (simp add: p_release_engine p_engine.release_ok)

text \<open>The chain of a request lies in the buffer object its handle names.\<close>

definition p_fits :: "soc \<Rightarrow> bo_state \<Rightarrow> submit_p \<Rightarrow> bool" where
  "p_fits soc b dat \<longleftrightarrow> (case idr_find (bo_handles b) (p_node_handle dat) of
     None \<Rightarrow> True
   | Some p \<Rightarrow> (case bo_objs b p of
       None \<Rightarrow> True
     | Some bo \<Rightarrow> bo_holds bo (p_paddr dat - bo_dma bo)
         (p_chain_writes soc (p_mode dat) (p_op_ofst dat) (p_node_num dat))))"

text \<open>The requests that run into neither the unknown-handle case nor a buffer that is too
  small.\<close>

definition p_req_ok :: "soc \<Rightarrow> bo_state \<Rightarrow> env \<times> submit_p \<Rightarrow> bool" where
  "p_req_ok soc b = (\<lambda>(ev, dat). kmalloc_ok ev \<longrightarrow> p_param dat \<noteq> None \<longrightarrow>
     idr_find (bo_handles b) (p_node_handle dat) \<noteq> None \<and> p_fits soc b dat)"

lemma p_req_ok_same: "same_bos b b' \<Longrightarrow> p_req_ok soc b' = p_req_ok soc b"
  by (simp add: same_bos_def p_req_ok_def p_fits_def cong: option.case_cong)

lemma p_op_total:
  assumes "p_ok soc h d" "p_req_ok soc (bos d) (ev, dat)"
  shows "\<exists>n d'. jz_aip_v20_p_op soc ev dat d = Inr (n, d') \<and> p_ok soc h d'"
proof (cases "kmalloc_ok ev \<and> p_param dat \<noteq> None")
  case True
  then obtain p bo param where p: "idr_find (bo_handles (bos d)) (p_node_handle dat) = Some p"
    and bo: "bo_objs (bos d) p = Some bo" and param: "p_param dat = Some param"
    using assms p_live_handle [of d "p_node_handle dat"] by (auto simp: p_ok_def p_req_ok_def)
  let ?ofst = "p_paddr dat - bo_dma bo"
  let ?e = "p_exec_new ev dat param p ?ofst"
  let ?d = "d\<lparr>bos := (bos d)\<lparr>kmem := store_words (bo_vaddr bo + ?ofst)
    (p_chain_writes soc (p_mode dat) (p_op_ofst dat) (p_node_num dat)) (kmem (bos d))\<rparr>\<rparr>"
  have fits: "bo_holds bo ?ofst (p_chain_writes soc (p_mode dat) (p_op_ofst dat) (p_node_num dat))"
    using assms(2) True p bo by (simp add: p_req_ok_def p_fits_def)
  have "p_ok soc h (?d\<lparr>p_ch := q_push ?e (p_ch ?d)\<rparr>)"
    using assms bo by (auto simp: p_ok_def p_live_def p_exec_new_def q_push_def)
  from p_engine.enqueue_ok [OF this, of "t_later ev"] True p bo param fits show ?thesis
    by (auto simp: jz_aip_v20_p_op_def p_enqueue_engine bo_ref_def bo_store_def Let_def)
next
  case False
  with assms show ?thesis
    by (auto simp: jz_aip_v20_p_op_def p_ok_def p_live_def split: option.splits)
qed

text \<open>The calls of the channel leave the handle table and the objects alone.\<close>

lemma p_enqueue_bos: "p_enqueue soc now e d = Inr d' \<Longrightarrow> bos d' = bos d"
  by (auto simp: p_enqueue_def Let_def split: if_splits dest: submit_next_p_bos)

lemma p_op_bos: "jz_aip_v20_p_op soc ev dat d = Inr (n, d') \<Longrightarrow> same_bos (bos d) (bos d')"
  by (auto dest!: p_op_cases p_enqueue_bos)

lemma p_irq_finish_bos: "jz_aip_v20_p_irq_finish_job soc now now' d = Inr d' \<Longrightarrow> bos d' = bos d"
  by (auto simp: jz_aip_v20_p_irq_finish_job_def Let_def split: option.splits if_splits
      dest: submit_next_p_bos)

lemma p_release_bos: "jz_aip_v20_p_release soc p now d = Inr d' \<Longrightarrow> bos d' = bos d"
  by (auto simp: jz_aip_v20_p_release_def res_bind_Inr_iff Let_def split: if_splits
      dest: submit_next_p_bos)

lemma p_op_step:
  assumes "jz_aip_v20_p_op soc ev dat d = Inr (0, d')"
  shows "jobq_step (p_ch d) Submitted (p_ch d')"
  using p_op_cases [OF assms]
  by (auto simp: EFAULT_def p_enqueue_engine dest!: p_engine.enqueue_step [OF _ p_exec_new_initial])

interpretation p: job_channel p_ch
  "\<lambda>(ev, dat). jz_aip_v20_p_op soc ev dat"
  "\<lambda>(now, now'). jz_aip_v20_p_irq_finish_job soc now now'"
  jz_aip_v20_p_job_done_work
  "\<lambda>p now. jz_aip_v20_p_release soc p now" for soc
proof (unfold_locales, goal_cases)
  case (2 r d n d')
  then show ?case by (cases r) (auto dest!: p_op_cases)
qed (auto simp: p_op_step p_irq_finish_engine p_release_engine p_work_ch
      dest: p_engine.finish_idle_q p_engine.finish_busy_step p_engine.release_step)

interpretation p_total: total_channel p_ch
  "\<lambda>(ev, dat). jz_aip_v20_p_op soc ev dat"
  "\<lambda>(now, now'). jz_aip_v20_p_irq_finish_job soc now now'"
  jz_aip_v20_p_job_done_work
  "\<lambda>p now. jz_aip_v20_p_release soc p now"
  "\<lambda>d. p_ok soc h d \<and> same_bos b (bos d)" "p_req_ok soc b" for soc h b
proof (unfold_locales, goal_cases)
  case (1 d r)
  obtain ev dat where r: "r = (ev, dat)" by (cases r)
  from 1 r have ok: "p_ok soc h d" "p_req_ok soc (bos d) (ev, dat)" "same_bos b (bos d)"
    using p_req_ok_same [of b "bos d"] by auto
  from p_op_total [OF ok(1,2)] obtain n d' where
    "jz_aip_v20_p_op soc ev dat d = Inr (n, d')" "p_ok soc h d'" by blast
  with ok(3) p_op_bos show ?case unfolding r same_bos_def by fastforce
next
  case (2 d i)
  then show ?case using p_irq_finish_total [of soc h d] p_irq_finish_bos
    by (fastforce split: prod.splits)
next
  case (3 d)
  then show ?case
    by (simp add: p_ok_def p_live_def jz_aip_v20_p_job_done_work_def
        jz_aip_v20_p_job_handle_completed_def q_drain_def)
next
  case (4 d p t)
  then show ?case using p_release_total [of soc h d] p_release_bos by fastforce
qed

section \<open>The patched chain\<close>

lemma p_chain_writes_patch:
  "p_chain_writes soc mode ofst num = chain_patch 54 (pair_words p_field_ix (p_node_fixup soc mode ofst))
     (pair_words p_field_ix (p_last_fixup soc)) (p_node_count soc num) (repair_a1 soc)"
proof -
  have "p_node_writes fx i = node_words 54 (pair_words p_field_ix fx) i" for fx i
    by (auto simp: p_node_writes_def node_words_def pair_words_def p_word_def)
  then show ?thesis by (simp add: p_chain_writes_def chain_patch_def chain_words_def cong: map_cong)
qed

text \<open>The register each field of a node is for.\<close>

primrec p_field_reg :: "p_node_field \<Rightarrow> u32" where
  "p_field_reg Np_timeout = AIP_V20_P_TIME_CNT"
| "p_field_reg Np_mode = AIP_V20_P_MODE"
| "p_field_reg Np_src_base_y = AIP_V20_P_SRC_YBASE"
| "p_field_reg Np_src_base_uv = AIP_V20_P_SRC_CBASE"
| "p_field_reg Np_src_stride = AIP_V20_P_SRC_STRIDE"
| "p_field_reg Np_dst_base = AIP_V20_P_DST_BASE"
| "p_field_reg Np_dst_stride = AIP_V20_P_DST_STRIDE"
| "p_field_reg Np_dst_size = AIP_V20_P_DWH"
| "p_field_reg Np_src_size = AIP_V20_P_SWH"
| "p_field_reg Np_dummy_val = AIP_V20_P_DUMMT_VAL"
| "p_field_reg Np_coef0 = AIP_V20_P_COEF0"
| "p_field_reg Np_coef1 = AIP_V20_P_COEF1"
| "p_field_reg Np_coef2 = AIP_V20_P_COEF2"
| "p_field_reg Np_coef3 = AIP_V20_P_COEF3"
| "p_field_reg Np_coef4 = AIP_V20_P_COEF4"
| "p_field_reg Np_coef5 = AIP_V20_P_COEF5"
| "p_field_reg Np_coef6 = AIP_V20_P_COEF6"
| "p_field_reg Np_coef7 = AIP_V20_P_COEF7"
| "p_field_reg Np_coef8 = AIP_V20_P_COEF8"
| "p_field_reg Np_coef9 = AIP_V20_P_COEF9"
| "p_field_reg Np_coef10 = AIP_V20_P_COEF10"
| "p_field_reg Np_coef11 = AIP_V20_P_COEF11"
| "p_field_reg Np_coef12 = AIP_V20_P_COEF12"
| "p_field_reg Np_coef13 = AIP_V20_P_COEF13"
| "p_field_reg Np_coef14 = AIP_V20_P_COEF14"
| "p_field_reg Np_offset = AIP_V20_P_OFST"
| "p_field_reg Np_p_ctrl = AIP_V20_P_CTL"

text \<open>What a word of a node holds after the patch: the address half of every pair is
  the field's register (bit 31 marks the control register, which ends the
  node), the value half is left as the user wrote it, except the mode, the
  offset register and the control register.\<close>

definition p_patched :: "soc \<Rightarrow> u32 \<Rightarrow> u32 \<Rightarrow> p_node_field \<Rightarrow> nat \<Rightarrow> u32 \<Rightarrow> u32" where
  "p_patched soc mode ofst f j old =
     (if j = 1 then JZ_AIP_V20_IOBASE soc + p_field_reg f OR (if f = Np_p_ctrl then 0x80000000 else 0)
      else if f = Np_p_ctrl then 1 else if f = Np_mode then mode else if f = Np_offset then ofst
      else old)"

lemma p_field_ix_lt: "p_field_ix f < 27"
  by (cases f) simp_all

text \<open>What a word of the extra last node of the A1 workaround holds: only the time-out
  and the control register are written.\<close>

definition p_last_patched :: "soc \<Rightarrow> p_node_field \<Rightarrow> nat \<Rightarrow> u32 \<Rightarrow> u32" where
  "p_last_patched soc f j old =
     (if f = Np_timeout then (if j = 1 then JZ_AIP_V20_IOBASE soc + AIP_V20_P_TIME_CNT else 2)
      else if f = Np_p_ctrl then
        (if j = 1 then JZ_AIP_V20_IOBASE soc + AIP_V20_P_CTL OR 0x80000000 else 1)
      else old)"

interpretation p_chain: node_chain 54 "pair_words p_field_ix (p_node_fixup soc mode ofst)"
  "pair_words p_field_ix (p_last_fixup soc)" for soc mode ofst
  by unfold_locales (simp_all add: pair_words_def p_node_fixup_def p_last_fixup_def Let_def)

text \<open>The nodes a submission writes, with the extra one.\<close>

definition p_chain_nodes :: "soc \<Rightarrow> u32 \<Rightarrow> nat" where
  "p_chain_nodes soc num = chain_nodes (p_node_count soc num) (repair_a1 soc)"

lemma p_chain_fits:
  "bo_holds bo at (p_chain_writes soc mode ofst num) \<longleftrightarrow>
   p_chain_nodes soc num = 0 \<or> unat at + 216 * p_chain_nodes soc num \<le> unat (bo_size bo)"
  using p_chain.patch_fits [of soc mode ofst "p_node_count soc num" "repair_a1 soc" "unat at" "unat (bo_size bo)"]
  by (simp add: bo_holds_def list_all_iff p_chain_writes_patch p_chain_nodes_def split_beta)

lemma p_last_lookup:
  "j < 2 \<Longrightarrow> (case map_of (rev (pair_words p_field_ix (p_last_fixup soc))) (2 * p_field_ix f + j) of
     None \<Rightarrow> old | Some v \<Rightarrow> v) = p_last_patched soc f j old"
  by (cases f; cases "j = 0")
     (simp_all add: pair_words_def p_last_fixup_def Let_def p_last_patched_def less_2_cases_iff)

lemma p_fixup_lookup:
  "j < 2 \<Longrightarrow> (case map_of (rev (pair_words p_field_ix (p_node_fixup soc mode ofst)))
     (2 * p_field_ix f + j) of None \<Rightarrow> old | Some v \<Rightarrow> v) = p_patched soc mode ofst f j old"
  by (cases f; cases "j = 0")
     (simp_all add: pair_words_def p_node_fixup_def Let_def p_patched_def less_2_cases_iff)

section \<open>The engine's programming\<close>

text \<open>The writes that put a job on the engine; \<open>ctl\<close> is what the control register
  reads after the reset.\<close>

definition p_start_writes :: "soc \<Rightarrow> p_exec_info \<Rightarrow> bo_info \<Rightarrow> u32 \<Rightarrow> (u32 \<times> u32) list" where
  "p_start_writes soc exec bo ctl =
     (AIP_V20_P_CTL, ffield AIP_V20_P_CTL_SOFT_RESET) # p_param_writes (p_params exec) @
     [(AIP_V20_P_CFG, p_start_cfg soc exec),
      (AIP_V20_P_CHAIN_BASE, bo_dma bo + p_mem_ofst exec),
      (AIP_V20_P_CHAIN_SIZE, node_size exec),
      (AIP_V20_P_CTL, ctl OR ffield AIP_V20_P_CTL_CHAIN_BUSY)]"

lemma submit_next_p_bus:
  assumes "jz_aip_v20_submit_next_p_job soc now d = Inr d'" "job_list (p_ch d) = exec # es"
    "bo_objs (bos d) (p_node exec) = Some bo"
  shows "\<exists>ctl. bus (dev_io d') = bus (dev_io d) @ p_start_writes soc exec bo ctl"
  using assms by (auto simp: jz_aip_v20_submit_next_p_job_def q_first_def bo_ref_def
      res_bind_Inr_iff Let_def p_start_writes_def dest!: jz_aip_v20_p_reset_Inr)

text \<open>The configuration a job runs with, as a register layout.\<close>

definition p_start_fields :: "soc \<Rightarrow> submit_p \<Rightarrow> (reg_field \<times> u32) list" where
  "p_start_fields soc dat =
     [(AIP_V20_P_CFG_IBUS, p_pos_in dat),
      (AIP_V20_P_CFG_OBUS, p_pos_out dat), (AIP_V20_P_CFG_TIMEOUT_ENABLE, - 1),
      (AIP_V20_P_CFG_IRQ_MASK, - 1), (AIP_V20_P_CFG_CKG_MASK, - 1)] @
     (if repair_a1 soc then [(AIP_V20_P_CFG_CHAIN_IRQ_MASK, - 1)] else [])"

lemma p_start_cfg_encode:
  "p_start_cfg soc (p_exec_new ev dat param p ofst) = encode_fields (p_start_fields soc dat)"
  by (simp add: p_start_cfg_def p_exec_new_def p_op_cfg_def p_start_fields_def encode_fields_def
      ffield_fput or.assoc)

text \<open>The offset register of a request, as a register layout.\<close>

definition p_ofst_fields :: "nv2bgr_offset \<Rightarrow> (reg_field \<times> u32) list" where
  "p_ofst_fields o' =
     [(AIP_V20_P_OFST_NV2BGR_ORDER, order o'), (AIP_V20_P_OFST_NV2BGR_ALPHA, alpha o'),
      (AIP_V20_P_OFST_NV2BGR_OFSET1, offset1 o'), (AIP_V20_P_OFST_NV2BGR_OFSET0, offset0 o')]"

lemma p_op_ofst_encode: "p_op_ofst dat = encode_fields (p_ofst_fields (p_offset dat))"
  by (simp add: p_op_ofst_def p_ofst_fields_def encode_fields_def or.assoc)

lemma p_irq_finish_running:
  assumes "jz_aip_v20_p_irq_finish_job soc now now' d = Inr d'" "job_list (p_ch d) = e # e2 # es"
    "e_state e = AIP_JOB_RUNNING" "bo_objs (bos d) (p_node e2) = Some bo"
  shows "\<exists>ctl. bus (dev_io d') = bus (dev_io d) @ p_start_writes soc e2 bo ctl"
    and "job_list (p_ch d') = e2\<lparr>start_time := now', e_state := AIP_JOB_RUNNING\<rparr> # es"
    and "job_done_list (p_ch d') = job_done_list (p_ch d) @
      [e\<lparr>end_time := now, hw_time := 0xffffffff - readl (dev_io d) AIP_V20_P_TIME_CNT\<rparr>]"
    and "finished_seqno (p_ch d') = e_seqno e" "work_queued (p_ch d')"
proof -
  let ?q = "q_retire now (0xffffffff - readl (dev_io d) AIP_V20_P_TIME_CNT) (p_ch d)"
  have next_job: "jz_aip_v20_submit_next_p_job soc now' (d\<lparr>p_ch := ?q\<rparr>) = Inr d'"
    using assms(1-3) by (simp add: jz_aip_v20_p_irq_finish_job_def q_first_def Let_def)
  have q: "job_list ?q = e2 # es" using assms(2) by (simp add: q_retire_def)
  show "\<exists>ctl. bus (dev_io d') = bus (dev_io d) @ p_start_writes soc e2 bo ctl"
    using submit_next_p_bus [OF next_job, of e2 es bo] q assms(4) by simp
  have "p_ch d' = q_start now' ?q" using submit_next_p_ch [OF next_job] by simp
  with assms(2) show "job_list (p_ch d') = e2\<lparr>start_time := now', e_state := AIP_JOB_RUNNING\<rparr> # es"
    "job_done_list (p_ch d') = job_done_list (p_ch d) @
      [e\<lparr>end_time := now, hw_time := 0xffffffff - readl (dev_io d) AIP_V20_P_TIME_CNT\<rparr>]"
    "finished_seqno (p_ch d') = e_seqno e" "work_queued (p_ch d')"
    by (simp_all add: q_retire_def q_start_def)
qed

lemma p_release_frame:
  assumes "jz_aip_v20_p_release soc pid now d = Inr d'"
  shows "\<exists>s q. d' = d\<lparr>dev_io := s, p_ch := q\<rparr>"
proof -
  obtain ks re s where "(if re then jz_aip_v20_submit_next_p_job soc now
      (d\<lparr>dev_io := s, p_ch := (p_ch d)\<lparr>job_list := ks\<rparr>\<rparr>)
    else Inr (d\<lparr>dev_io := s, p_ch := (p_ch d)\<lparr>job_list := ks\<rparr>\<rparr>)) = Inr d'"
    using assms by (auto simp: jz_aip_v20_p_release_def res_bind_Inr_iff Let_def)
  then show ?thesis
  proof (cases re)
    case True
    with \<open>(if re then _ else _) = Inr d'\<close> show ?thesis
      using submit_next_p_Inr by fastforce
  next
    case False
    with \<open>(if re then _ else _) = Inr d'\<close> show ?thesis by auto
  qed
qed

section \<open>Properties\<close>

text \<open>Any sequence of submissions, completions, done works and releases.\<close>

definition p_calls :: "soc \<Rightarrow> (env \<times> submit_p, int \<times> int, int) chan_call list \<Rightarrow> 'p aip_dev \<Rightarrow>
    fault + 'p aip_dev" where
  "p_calls soc = run_calls (\<lambda>(ev, dat). jz_aip_v20_p_op soc ev dat)
     (\<lambda>(now, now'). jz_aip_v20_p_irq_finish_job soc now now')
     jz_aip_v20_p_job_done_work (\<lambda>p now. jz_aip_v20_p_release soc p now)"

definition sample_p :: submit_p where
  "sample_p = \<lparr>p_mode = 2, p_offset = \<lparr>order = 0, alpha = 0, offset0 = 0, offset1 = 128\<rparr>,
     p_pos_in = 0, p_pos_out = 1, p_node_handle = 1, p_node_num = 3,
     p_paddr = 0x1100, p_param = Some of_nat, p_name = User_name ''affine''\<rparr>"

definition sample_p_exec :: "int \<Rightarrow> u64 \<Rightarrow> job_state \<Rightarrow> p_exec_info" where
  "sample_p_exec p n st = (p_exec_new sample_env sample_p of_nat 0 0x100)\<lparr>e_pid := p, e_seqno := n, e_state := st\<rparr>"

text \<open>Job 4 of process 7 is running, job 5 of process 8 waits.\<close>

definition sample_p_dev :: "unit aip_dev" where
  "sample_p_dev = sample_dev\<lparr>p_ch := \<lparr>submited_seqno = 5, finished_seqno = 3,
     job_list = [sample_p_exec 7 4 AIP_JOB_RUNNING, sample_p_exec 8 5 AIP_JOB_INITIAL],
     job_done_list = [], work_queued = False\<rparr>\<rparr>"

lemma sample_p_ok: "p_ok (clearing_soc a1) [(1, 0)] sample_dev"
  "p_ok (clearing_soc a1) [(1, 0)] sample_p_dev"
  "p_ok (clearing_soc a1) [(1, 0)] (jz_aip_v20_core_init sample_dev)"
  by (simp_all add: p_ok_def p_live_def clearing_soc_quiesces p_idle_def p_reset_done_def
      sample_p_dev_def sample_p_exec_def p_exec_new_def jz_aip_v20_core_init_def)

lemma sample_p_req_ok: "p_req_ok (clearing_soc a1) sample_bos (sample_env, sample_p)"
  by (cases a1) (simp_all add: p_req_ok_def p_fits_def sample_p_def idr_find_def p_chain_fits
      p_chain_nodes_def chain_nodes_def p_node_count_def clearing_soc_def)

lemma sample_p_inv: "jobq_inv (p_ch sample_p_dev)" "jobq_dense (p_ch sample_p_dev)"
  by (simp_all add: jobq_inv_def jobq_dense_def head_running_def sample_p_dev_def sample_p_exec_def
      upt_rec p_exec_new_def)

text \<open>Whatever the order of submissions, completion interrupts, done works and
  releases, the AIP-P queue stays well formed from the driver's start: exactly the
  first job is on the hardware, numbers increase along the list, lie after the
  last finished one and up to the last one given out, and finished jobs are
  always covered by a scheduled work item (as long as fewer than 2^64 jobs are
  submitted).\<close>

theorem p_queue_invariant:
  assumes "p_calls soc cs (jz_aip_v20_core_init d) = Inr d'" "submit_calls cs < 2 ^ 64"
  shows "jobq_inv (p_ch d')"
  using p.run_calls_inv [of soc cs "jz_aip_v20_core_init d" d'] assms jobq_inv_init
  by (simp add: p_calls_def jz_aip_v20_core_init_def)

text \<open>First come, first served, and nothing is lost: without a release, the numbers
  in the AIP-P list are exactly those after the last finished one up to the last
  one given out, in this order.\<close>

theorem p_first_come_first_served:
  assumes "p_calls soc cs (jz_aip_v20_core_init d) = Inr d'" "submit_calls cs < 2 ^ 64"
    "\<not> has_release cs"
  shows "map (unat \<circ> e_seqno) (job_list (p_ch d')) =
    [Suc (unat (finished_seqno (p_ch d'))) ..< Suc (unat (submited_seqno (p_ch d')))]"
  using p.run_calls_dense [of soc cs "jz_aip_v20_core_init d" d'] assms jobq_inv_init jobq_dense_init
  by (simp add: p_calls_def jz_aip_v20_core_init_def flip: jobq_dense_def del: upt_Suc)

text \<open>When the engine becomes idle and completes resets, and the buffer objects in
  use are alive, every sequence of AIP-P calls whose submissions name known
  handles and chains that lie in their objects returns and leaves such a state.\<close>

theorem p_calls_return:
  assumes "p_ok soc h d" "\<forall>r. Call_submit r \<in> set cs \<longrightarrow> p_req_ok soc (bos d) r"
  shows "\<exists>d'. p_calls soc cs d = Inr d' \<and> p_ok soc h d'"
  using p_total.run_calls_total [of soc h d "bos d" cs] assms by (auto simp: p_calls_def)

definition sample_p_calls :: "(env \<times> submit_p, int \<times> int, int) chan_call list" where
  "sample_p_calls = [Call_submit (sample_env, sample_p), Call_submit (sample_env, sample_p),
     Call_finish (30, 31), Call_work, Call_submit (sample_env, sample_p)]"

lemma sample_p_calls_ok: "Call_submit r \<in> set sample_p_calls \<Longrightarrow> p_req_ok (clearing_soc a1) sample_bos r"
  using sample_p_req_ok by (auto simp: sample_p_calls_def)

lemma sample_p_calls_run:
  "\<exists>d'. p_calls (clearing_soc True) sample_p_calls (jz_aip_v20_core_init sample_dev) = Inr d'"
  using p_total.run_calls_total [of "clearing_soc True" "[(1, 0)]" "jz_aip_v20_core_init sample_dev"
      sample_bos sample_p_calls] sample_p_ok(3) [of True] sample_p_calls_ok
  by (auto simp: p_calls_def jz_aip_v20_core_init_def)

theorem p_queue_invariant_witness:
  "\<exists>d'. p_calls (clearing_soc True) sample_p_calls (jz_aip_v20_core_init sample_dev) = Inr d' \<and>
     jobq_inv (p_ch d')"
  using sample_p_calls_run p_queue_invariant [of "clearing_soc True" sample_p_calls sample_dev]
  by (auto simp: sample_p_calls_def)

theorem p_first_come_first_served_witness:
  "\<exists>d'. p_calls (clearing_soc True) sample_p_calls (jz_aip_v20_core_init sample_dev) = Inr d' \<and>
     map (unat \<circ> e_seqno) (job_list (p_ch d')) =
       [Suc (unat (finished_seqno (p_ch d'))) ..< Suc (unat (submited_seqno (p_ch d')))]"
  using sample_p_calls_run p_first_come_first_served [of "clearing_soc True" sample_p_calls sample_dev]
  by (auto simp: sample_p_calls_def simp del: upt_Suc)

theorem p_calls_return_witness:
  "\<exists>d'. p_calls (clearing_soc True) sample_p_calls sample_dev = Inr d' \<and>
     p_ok (clearing_soc True) [(1, 0)] d'"
  using p_calls_return [OF sample_p_ok(1), of sample_p_calls] sample_p_calls_ok by simp

text \<open>A submission to AIP-P that names an unknown buffer handle dereferences a NULL
  pointer in the kernel: the code's test of the lookup never fails. (AIP-F
  answers the same request with an error and keeps its state.)\<close>

theorem p_op_unknown_handle_oops:
  assumes "kmalloc_ok ev" "p_param dat = Some param"
    "idr_find (bo_handles (bos d)) (p_node_handle dat) = None"
  shows "jz_aip_v20_p_op soc ev dat d = Inl Null_deref"
  using assms by (simp add: jz_aip_v20_p_op_def)

theorem p_op_unknown_handle_oops_witness:
  "jz_aip_v20_p_op (clearing_soc True) sample_env (sample_p\<lparr>p_node_handle := 9\<rparr>) sample_dev =
     Inl Null_deref"
  by (rule p_op_unknown_handle_oops [of _ _ of_nat])
     (simp_all add: sample_env_def sample_p_def idr_find_def)

text \<open>The AIP-P node chain: after a successful submission it ends within the buffer
  object its handle names; every address word of every node names its field's
  register (bit 31 set on the control register, whose value is 1), mode and offset
  are the caller's, the other value words are kept; on A1 the node after them has its
  time-out and control register written and nothing else; and no byte outside these
  nodes changes.\<close>

theorem p_op_patches_chain:
  assumes "jz_aip_v20_p_op soc ev dat d = Inr (0, d')"
    "idr_find (bo_handles (bos d)) (p_node_handle dat) = Some p" "bo_objs (bos d) p = Some bo"
    "base = bo_vaddr bo + (p_paddr dat - bo_dma bo)"
    "n = p_node_count soc (p_node_num dat)" "N = (if repair_a1 soc then n + 1 else n)"
  shows "(0 < N \<longrightarrow> unat (p_paddr dat - bo_dma bo) + 216 * N \<le> unat (bo_size bo)) \<and>
    (\<forall>i f j. i < N \<and> j < 2 \<longrightarrow> load32 (kmem (bos d')) (word_at base (p_word i f j)) =
      (if i < n then p_patched soc (p_mode dat) (p_op_ofst dat) else p_last_patched soc) f j
        (load32 (kmem (bos d)) (word_at base (p_word i f j)))) \<and>
    (\<forall>a. 216 * N \<le> unat (a - base) \<longrightarrow> kmem (bos d') a = kmem (bos d) a)"
proof -
  let ?ws = "p_chain_writes soc (p_mode dat) (p_op_ofst dat) (p_node_num dat)"
  have N: "chain_nodes n (repair_a1 soc) = N" using assms(6) by (simp add: chain_nodes_def)
  have m: "kmem (bos d') = store_words base ?ws (kmem (bos d))"
    and holds: "bo_holds bo (p_paddr dat - bo_dma bo) ?ws"
    using p_op_cases [OF assms(1)] assms(2-4) by (auto simp: EFAULT_def dest: p_enqueue_bos)
  have fits: "N = 0 \<or> unat (p_paddr dat - bo_dma bo) + 216 * N \<le> unat (bo_size bo)"
    using holds by (simp add: p_chain_fits p_chain_nodes_def N assms(5) [symmetric])
  moreover have "unat (bo_size bo) < 2 ^ 32" using unsigned_less [of "bo_size bo"] by simp
  ultimately have lim: "54 * chain_nodes n (repair_a1 soc) \<le> 2 ^ 30" using N by auto
  have words: "load32 (kmem (bos d')) (word_at base (p_word i f j)) =
      (if i < n then p_patched soc (p_mode dat) (p_op_ofst dat) else p_last_patched soc) f j
        (load32 (kmem (bos d)) (word_at base (p_word i f j)))"
    if "i < N" "j < 2" for i f j
  proof -
    have k: "2 * p_field_ix f + j < 54" using that(2) p_field_ix_lt [of f] by simp
    have w: "p_word i f j = 54 * i + (2 * p_field_ix f + j)" by (simp add: p_word_def)
    show ?thesis
      using p_chain.load32_patched [OF lim _ k, of i] that(1) p_fixup_lookup [OF that(2)]
        p_last_lookup [OF that(2)]
      by (simp add: m p_chain_writes_patch w N assms(5) [symmetric])
  qed
  have "kmem (bos d') a = kmem (bos d) a" if "216 * N \<le> unat (a - base)" for a
    using p_chain.patched_frame [OF lim, of a base] that N
    by (simp add: m p_chain_writes_patch assms(5) [symmetric])
  with words fits show ?thesis by blast
qed

text \<open>The completion interrupt of a busy AIP-P channel: it acknowledges the status
  it read, retires the running job with its times, schedules the done work, and
  programs the engine with the next job's nine parameters (the fifth and sixth
  negated), configuration, chain address and size.\<close>

theorem p_irq_starts_next:
  assumes "jz_aip_v20_p_irq_handler soc now now' now'' d = Inr d'"
    "st = readl (dev_io d) AIP_V20_P_IRQ" "st AND ffield AIP_V20_P_IRQ_CHAIN_IRQ \<noteq> 0"
    "st AND ffield AIP_V20_P_IRQ_TIMEOUT_IRQ = 0"
    "job_list (p_ch d) = e # e2 # es" "e_state e = AIP_JOB_RUNNING"
    "bo_objs (bos d) (p_node e2) = Some bo"
  shows "\<exists>ctl hwt. bus (dev_io d') =
      bus (dev_io d) @ (AIP_V20_P_IRQ, st) # p_start_writes soc e2 bo ctl \<and>
    job_list (p_ch d') = e2\<lparr>start_time := now', e_state := AIP_JOB_RUNNING\<rparr> # es \<and>
    job_done_list (p_ch d') = job_done_list (p_ch d) @ [e\<lparr>end_time := now, hw_time := hwt\<rparr>] \<and>
    finished_seqno (p_ch d') = e_seqno e \<and> work_queued (p_ch d')"
proof -
  let ?d = "d\<lparr>dev_io := writel soc AIP_V20_P_IRQ st (dev_io d)\<rparr>"
  have fin: "jz_aip_v20_p_irq_finish_job soc now now' ?d = Inr d'"
    using assms(1-4) by (simp add: jz_aip_v20_p_irq_handler_def Let_def res_bind_Inr_iff)
  show ?thesis
    using p_irq_finish_running [OF fin, of e e2 es bo] assms(5-7) by auto
qed

text \<open>The configuration and offset registers of an AIP-P job decode to what its
  caller asked for, each value cut to its field, with the time-out, the interrupt
  and the clock gate switched on and every other field 0.\<close>

theorem p_start_cfg_decodes:
  "(\<forall>fld \<in> set AIP_V20_P_CFG_layout. fget fld (p_start_cfg soc (p_exec_new ev dat param p ofst)) =
     (if fld = AIP_V20_P_CFG_IBUS then p_pos_in dat AND fmask fld
      else if fld = AIP_V20_P_CFG_OBUS then p_pos_out dat AND fmask fld
      else if fld \<in> {AIP_V20_P_CFG_TIMEOUT_ENABLE, AIP_V20_P_CFG_IRQ_MASK, AIP_V20_P_CFG_CKG_MASK} \<or>
          fld = AIP_V20_P_CFG_CHAIN_IRQ_MASK \<and> repair_a1 soc then fmask fld
      else 0)) \<and>
   (\<forall>(fld, v) \<in> set (p_ofst_fields (p_offset dat)). fget fld (p_op_ofst dat) = v AND fmask fld)"
proof -
  have sub: "fst ` set (p_start_fields soc dat) \<subseteq> set AIP_V20_P_CFG_layout"
    "distinct (map fst (p_start_fields soc dat))"
    by (cases "repair_a1 soc"; simp add: p_start_fields_def AIP_V20_P_CFG_layout_def aip_fields)+
  have ofst: "fst ` set (p_ofst_fields (p_offset dat)) \<subseteq> set AIP_V20_P_OFST_layout"
    "distinct (map fst (p_ofst_fields (p_offset dat)))"
    by (simp_all add: p_ofst_fields_def AIP_V20_P_OFST_layout_def aip_fields)
  have "\<forall>(fld, v) \<in> set (p_ofst_fields (p_offset dat)). fget fld (p_op_ofst dat) = v AND fmask fld"
    using p_ofst.fget_encode [OF ofst] by (auto simp: p_op_ofst_encode)
  then show ?thesis
    unfolding p_start_cfg_encode
    using p_cfg.fget_encode_fields [OF sub]
    by (auto simp: p_start_fields_def AIP_V20_P_CFG_layout_def aip_fields)
qed

text \<open>Witnesses.\<close>

theorem p_op_patches_chain_witness:
  "\<exists>d'. jz_aip_v20_p_op (clearing_soc True) sample_env sample_p sample_dev = Inr (0, d') \<and>
     load32 (kmem (bos d')) (word_at 0x81000100 (p_word 1 Np_mode 0)) = 2"
proof -
  obtain n d' where d': "jz_aip_v20_p_op (clearing_soc True) sample_env sample_p sample_dev = Inr (n, d')"
    using p_op_total [OF sample_p_ok(1)] sample_p_req_ok by fastforce
  then have n: "n = 0"
    using p_op_cases [OF d'] by (auto simp: jz_aip_v20_p_op_def sample_env_def sample_p_def
        idr_find_def bo_ref_def res_bind_Inr_iff Let_def)
  note patched = p_op_patches_chain [OF d' [unfolded n], of 0
      "\<lparr>bo_pid = 7, bo_vaddr = 0x81000000, bo_dma = 0x1000, bo_size = 0x1000\<rparr>" "0x81000100" 2 3]
  have "p_node_count (clearing_soc True) (p_node_num sample_p) = 2"
    by (simp add: p_node_count_def clearing_soc_def sample_p_def)
  with patched have "load32 (kmem (bos d')) (word_at 0x81000100 (p_word 1 Np_mode 0)) =
      p_patched (clearing_soc True) (p_mode sample_p) (p_op_ofst sample_p) Np_mode 0
        (load32 (kmem (bos sample_dev)) (word_at 0x81000100 (p_word 1 Np_mode 0)))"
    by (simp add: sample_p_def idr_find_def clearing_soc_def)
  with d' n show ?thesis
    by (simp add: p_patched_def sample_p_def)
qed

text \<open>The device of the witnesses with a completion pending.\<close>

definition sample_p_irq :: "unit aip_dev" where
  "sample_p_irq = sample_p_dev\<lparr>dev_io := \<lparr>io_regs = (\<lambda>a. if a = AIP_V20_P_IRQ then 2 else 0), bus = []\<rparr>\<rparr>"

theorem p_irq_starts_next_witness:
  "\<exists>d'. jz_aip_v20_p_irq_handler (clearing_soc False) 30 31 32 sample_p_irq = Inr d' \<and>
     finished_seqno (p_ch d') = 4 \<and> map e_seqno (job_list (p_ch d')) = [5]"
proof -
  let ?soc = "clearing_soc False"
  have "p_ok ?soc [(1, 0)] (sample_p_irq\<lparr>dev_io := writel ?soc AIP_V20_P_IRQ 2 (dev_io sample_p_irq)\<rparr>)"
    using sample_p_ok(2) [of False] by (simp add: p_ok_def p_live_def sample_p_irq_def)
  from p_irq_finish_total [OF this, of 30 31] obtain d' where
    d': "jz_aip_v20_p_irq_handler ?soc 30 31 32 sample_p_irq = Inr d'"
    by (auto simp: jz_aip_v20_p_irq_handler_def Let_def readl_def sample_p_irq_def aip_fields
        ffield_def fmask_def clearing_soc_def)
  have st: "2 = readl (dev_io sample_p_irq) AIP_V20_P_IRQ"
    "(2 :: u32) AND ffield AIP_V20_P_IRQ_CHAIN_IRQ \<noteq> 0"
    "(2 :: u32) AND ffield AIP_V20_P_IRQ_TIMEOUT_IRQ = 0"
    by (simp_all add: readl_def sample_p_irq_def aip_fields ffield_def fmask_def)
  have jobs: "job_list (p_ch sample_p_irq) =
      sample_p_exec 7 4 AIP_JOB_RUNNING # sample_p_exec 8 5 AIP_JOB_INITIAL # []"
    "e_state (sample_p_exec 7 4 AIP_JOB_RUNNING) = AIP_JOB_RUNNING"
    "bo_objs (bos sample_p_irq) (p_node (sample_p_exec 8 5 AIP_JOB_INITIAL)) =
      Some \<lparr>bo_pid = 7, bo_vaddr = 0x81000000, bo_dma = 0x1000, bo_size = 0x1000\<rparr>"
    by (simp_all add: sample_p_irq_def sample_p_dev_def sample_p_exec_def p_exec_new_def)
  from p_irq_starts_next [OF d' st jobs] have
    "job_list (p_ch d') =
       (sample_p_exec 8 5 AIP_JOB_INITIAL)\<lparr>start_time := 31, e_state := AIP_JOB_RUNNING\<rparr> # []"
    "finished_seqno (p_ch d') = e_seqno (sample_p_exec 7 4 AIP_JOB_RUNNING)"
    by blast+
  then have "finished_seqno (p_ch d') = 4 \<and> map e_seqno (job_list (p_ch d')) = [5]"
    by (simp add: sample_p_exec_def)
  with d' show ?thesis by (intro exI [of _ d'] conjI) simp_all
qed

end
