(* ===== verification/TChannel.thy ===== *)
theory TChannel
  imports Engine
begin

text \<open>
  The AIP-T (format conversion) channel: \<open>jz_aip_v20_t_reset\<close>,
  \<open>jz_aip_v20_submit_next_t_job\<close>, \<open>jz_aip_v20_t_op\<close>, \<open>jz_aip_v20_t_task_op\<close>, the
  done work and the \<open>AIP_CH_OP_T_TASK\<close> branch of \<open>jz_aip_v20_wait\<close> of
  \<open>drive/jz_aip_v20_core.c\<close>, the interrupt handler of \<open>drive/jz_aip_v20_irq.c\<close> and
  \<open>jz_aip_v20_t_release\<close> of \<open>drive/jz_aip_v20_drv.c\<close>. A queued job is programmed
  completely into registers, there is no chain in memory. A task is driven by
  the user: \<open>t_task_op\<close> takes \<open>t_job_mutex\<close>, waits until the list is empty and
  starts the engine, step by step beside the other handlers; the wait call takes the job off again and releases the mutex.
\<close>

section \<open>Reset\<close>

definition t_idle :: "regs \<Rightarrow> bool" where
  "t_idle r \<longleftrightarrow> r AIP_V20_T_CTL AND ffield AIP_V20_T_CTL_AXI_EMPTY \<noteq> 0"

definition t_reset_done :: "regs \<Rightarrow> bool" where
  "t_reset_done r \<longleftrightarrow> r AIP_V20_T_CTL AND ffield AIP_V20_T_CTL_SOFT_RESET = 0"

definition jz_aip_v20_t_reset :: "soc \<Rightarrow> io \<Rightarrow> fault + io" where
  "jz_aip_v20_t_reset soc s =
     res_bind (poll soc t_idle s) (\<lambda>s.
     poll soc t_reset_done (writel soc AIP_V20_T_CTL (ffield AIP_V20_T_CTL_SOFT_RESET) s))"

section \<open>Starting the first job\<close>

definition t_start_cfg :: "t_exec_info \<Rightarrow> u32" where
  "t_start_cfg exec = cfg_reg exec
     OR ffield AIP_V20_T_CFG_IRQ_SELECT
     OR ffield AIP_V20_T_CFG_TIMEOUT_ENABLE
     OR ffield AIP_V20_T_CFG_CHAIN_IRQ_MASK
     OR ffield AIP_V20_T_CFG_IRQ_MASK
     OR ffield AIP_V20_T_CFG_CKG_MASK
     OR ffield AIP_V20_T_CFG_TIMEOUT_IRQ_MASK"

definition t_param_writes :: "(nat \<Rightarrow> u32) \<Rightarrow> (u32 \<times> u32) list" where
  "t_param_writes param =
     [(AIP_V20_T_PARAM0, param 0), (AIP_V20_T_PARAM1, param 1), (AIP_V20_T_PARAM2, param 2),
      (AIP_V20_T_PARAM3, param 3), (AIP_V20_T_PARAM4, - param 4), (AIP_V20_T_PARAM5, - param 5),
      (AIP_V20_T_PARAM6, param 6), (AIP_V20_T_PARAM7, param 7), (AIP_V20_T_PARAM8, param 8)]"

definition t_geometry :: "t_exec_info \<Rightarrow> (u32 \<times> u32) list" where
  "t_geometry exec = (let n = t_hwnode exec in
     [(AIP_V20_T_OFST, t_ofst exec),
      (AIP_V20_T_WH, push_bit 16 (src_h n) OR src_w n),
      (AIP_V20_T_STRIDE, push_bit 16 (dst_stride n) OR src_stride n)])"

definition t_job_writes :: "t_exec_info \<Rightarrow> (u32 \<times> u32) list" where
  "t_job_writes exec = (let n = t_hwnode exec in
     t_param_writes (t_params exec) @
     [(AIP_V20_T_TIMEOUT, 0xffffffff),
      (AIP_V20_T_YBASE_SRC, src_ybase n),
      (AIP_V20_T_CBASE_SRC, src_cbase n),
      (AIP_V20_T_BASE_DST, dst_base n),
      (AIP_V20_T_TASK_LEN, task_len n)] @
     t_geometry exec @
     [(AIP_V20_T_CFG, t_start_cfg exec),
      (AIP_V20_T_CTL, ffield AIP_V20_T_CTL_BUSY),
      (AIP_V20_T_CTL, ffield AIP_V20_T_CTL_TASK)])"

definition jz_aip_v20_submit_next_t_job :: "soc \<Rightarrow> int \<Rightarrow> 'p aip_dev \<Rightarrow> fault + 'p aip_dev" where
  "jz_aip_v20_submit_next_t_job soc now d = (case q_first (t_ch d) of
     None \<Rightarrow> Inr d
   | Some exec \<Rightarrow>
       res_bind (jz_aip_v20_t_reset soc (dev_io d)) (\<lambda>s.
       Inr (d\<lparr>dev_io := writel_all soc (t_job_writes exec) s, t_ch := q_start now (t_ch d)\<rparr>)))"

section \<open>Submission\<close>

definition t_op_cfg :: "submit_t \<Rightarrow> u32" where
  "t_op_cfg dat_t = fput AIP_V20_T_CFG_IBUS (t_pos_in dat_t)
     OR fput AIP_V20_T_CFG_OBUS (t_pos_out dat_t)"

definition t_op_ofst :: "submit_t \<Rightarrow> u32" where
  "t_op_ofst dat_t = fput AIP_V20_T_OFST_NV2BGR_ORDER (order (t_offset dat_t))
     OR fput AIP_V20_T_OFST_NV2BGR_ALPHA (alpha (t_offset dat_t))
     OR fput AIP_V20_T_OFST_NV2BGR_OFSET1 (offset1 (t_offset dat_t))
     OR fput AIP_V20_T_OFST_NV2BGR_OFSET0 (offset0 (t_offset dat_t))"

definition t_exec_new :: "env \<Rightarrow> submit_t \<Rightarrow> (nat \<Rightarrow> u32) \<Rightarrow> aip_v20_t_node \<Rightarrow> t_exec_info" where
  "t_exec_new ev dat_t param node =
     \<lparr>e_pid = cur_pid ev, e_state = AIP_JOB_INITIAL, submit_time = t_enter ev,
      start_time = 0, end_time = 0, hw_time = 0,
      e_name = JZ_AIP_V20_SET_JOB_NAME (t_name dat_t), e_seqno = 0,
      node_size = 32, cfg_reg = t_op_cfg dat_t,
      t_params = param, t_ofst = t_op_ofst dat_t, t_hwnode = node\<rparr>"

text \<open>What \<open>t_op\<close> and \<open>t_task_op\<close> do before they touch the device: allocate the job,
  and copy parameters and node from the caller. When a copy fails the job is freed.\<close>

definition t_fetch :: "env \<Rightarrow> submit_t \<Rightarrow> t_exec_info option" where
  "t_fetch ev dat_t =
     (if \<not> kmalloc_ok ev then None
      else case t_param dat_t of None \<Rightarrow> None
      | Some param \<Rightarrow> map_option (t_exec_new ev dat_t param) (t_node dat_t))"

definition t_enqueue :: "soc \<Rightarrow> int \<Rightarrow> t_exec_info \<Rightarrow> 'p aip_dev \<Rightarrow> fault + 'p aip_dev" where
  "t_enqueue soc now exec d =
     (let d' = d\<lparr>t_ch := q_push exec (t_ch d)\<rparr> in
      if job_list (t_ch d) = [] then jz_aip_v20_submit_next_t_job soc now d' else Inr d')"

definition jz_aip_v20_t_op :: "soc \<Rightarrow> env \<Rightarrow> submit_t \<Rightarrow> 'p aip_dev \<Rightarrow> fault + (int \<times> 'p aip_dev)" where
  "jz_aip_v20_t_op soc ev dat_t d = (case t_fetch ev dat_t of
     None \<Rightarrow> Inr (- EFAULT, d)
   | Some exec \<Rightarrow> res_bind (t_enqueue soc (t_later ev) exec d) (\<lambda>d. Inr (0, d)))"

section \<open>Completion and release\<close>

text \<open>Unlike F and P, the state of the first job is not looked at.\<close>

definition jz_aip_v20_t_irq_finish_job :: "soc \<Rightarrow> int \<Rightarrow> int \<Rightarrow> 'p aip_dev \<Rightarrow> fault + 'p aip_dev" where
  "jz_aip_v20_t_irq_finish_job soc now now' d = (case q_first (t_ch d) of
     None \<Rightarrow> Inr d
   | Some exec \<Rightarrow>
       let hw_timecnt = readl (dev_io d) AIP_V20_T_TIMEOUT in
       jz_aip_v20_submit_next_t_job soc now'
         (d\<lparr>t_ch := q_retire now (0xffffffff - hw_timecnt) (t_ch d)\<rparr>))"

definition jz_aip_v20_t_irq_handler :: "soc \<Rightarrow> int \<Rightarrow> int \<Rightarrow> 'p aip_dev \<Rightarrow> fault + 'p aip_dev" where
  "jz_aip_v20_t_irq_handler soc now now' d =
     (let irq_status = readl (dev_io d) AIP_V20_T_IRQ;
          d = d\<lparr>dev_io := writel soc AIP_V20_T_IRQ irq_status (dev_io d)\<rparr>
      in if irq_status AND ffield AIP_V20_T_IRQ_TASK \<noteq> 0
         then jz_aip_v20_t_irq_finish_job soc now now' d else Inr d)"

definition jz_aip_v20_t_job_handle_completed ::
    "(int \<Rightarrow> int \<Rightarrow> int) \<Rightarrow> 'p aip_dev \<Rightarrow> (string \<times> u64 \<times> int \<times> int \<times> u32) list \<times> 'p aip_dev" where
  "jz_aip_v20_t_job_handle_completed us_delta d =
     (map (job_trace us_delta) (job_done_list (t_ch d)), d\<lparr>t_ch := q_drain (t_ch d)\<rparr>)"

definition jz_aip_v20_t_job_done_work :: "'p aip_dev \<Rightarrow> 'p aip_dev" where
  "jz_aip_v20_t_job_done_work d = snd (jz_aip_v20_t_job_handle_completed (\<lambda>_ _. 0) d)"

definition jz_aip_v20_t_release :: "soc \<Rightarrow> int \<Rightarrow> int \<Rightarrow> 'p aip_dev \<Rightarrow> fault + 'p aip_dev" where
  "jz_aip_v20_t_release soc p now d =
     res_bind (release_scan (jz_aip_v20_t_reset soc) p (job_list (t_ch d)) (dev_io d))
       (\<lambda>(ks, re_submit, s).
         let d = d\<lparr>dev_io := s, t_ch := (t_ch d)\<lparr>job_list := ks\<rparr>\<rparr> in
         if re_submit then jz_aip_v20_submit_next_t_job soc now d else Inr d)"

section \<open>Tasks\<close>

definition t_task_cfg :: "t_exec_info \<Rightarrow> u32" where
  "t_task_cfg exec = t_start_cfg exec OR ffield AIP_V20_T_CFG_TASK_IRQ"

definition t_task_writes :: "t_exec_info \<Rightarrow> (u32 \<times> u32) list" where
  "t_task_writes exec = (let n = t_hwnode exec in
     t_param_writes (t_params exec) @
     [(AIP_V20_T_TIMEOUT, 0xffffffff),
      (AIP_V20_T_YBASE_SRC, src_ybase n),
      (AIP_V20_T_CBASE_SRC, src_cbase n)] @
     t_geometry exec @
     [(AIP_V20_T_CFG, t_task_cfg exec),
      (AIP_V20_T_CTL, ffield AIP_V20_T_CTL_BUSY)])"

text \<open>
  \<open>t_task_op\<close> holds the mutex only, which neither \<open>t_op\<close> nor the interrupt takes: everything
  from the wait for an empty list on runs side by side with the other handlers. It
  is therefore cut into steps, and others can act between any two of them: a look at
  the list (\<open>Tp_poll\<close>, which is repeated until the list was seen empty), the entry into the list
  (\<open>Tp_add\<close>), the reset (\<open>Tp_reset\<close>), each register write (\<open>Tp_write\<close> with those to come),
  and last the two assignments to the job. What was seen at one step need not hold at
  the next.
\<close>

datatype t_phase = Tp_poll | Tp_add | Tp_reset | Tp_write "(u32 \<times> u32) list"

type_synonym t_task = "t_exec_info \<times> t_phase"

text \<open>Up to the loop. A caller that finds the mutex held sleeps; \<open>None\<close> is a failed copy. The
  increment of the number is one step (in the code it is under the mutex here and
  under \<open>t_job_lock\<close> in \<open>t_op\<close>).\<close>

definition t_task_enter :: "env \<Rightarrow> submit_t \<Rightarrow> 'p aip_dev \<Rightarrow> fault + (t_task option \<times> 'p aip_dev)" where
  "t_task_enter ev dat_t d = (case t_fetch ev dat_t of
     None \<Rightarrow> Inr (None, d)
   | Some exec \<Rightarrow>
       if t_job_mutex d then Inl Sleeps
       else
         let seqno = submited_seqno (t_ch d) + 1
         in Inr (Some (exec\<lparr>e_seqno := seqno\<rparr>, Tp_poll),
                 d\<lparr>t_job_mutex := True, t_ch := (t_ch d)\<lparr>submited_seqno := seqno\<rparr>\<rparr>))"

text \<open>The job is still there: in the list, or in the done list.\<close>

definition listed :: "u64 \<Rightarrow> t_exec_info list \<Rightarrow> bool" where
  "listed n es \<longleftrightarrow> n \<in> e_seqno ` set es"

definition t_mark :: "u64 \<Rightarrow> int \<Rightarrow> t_exec_info list \<Rightarrow> t_exec_info list" where
  "t_mark n now es =
     map (\<lambda>e. if e_seqno e = n then e\<lparr>start_time := now, e_state := AIP_JOB_RUNNING\<rparr> else e) es"

definition t_mark_job :: "u64 \<Rightarrow> int \<Rightarrow> t_exec_info jobq \<Rightarrow> t_exec_info jobq" where
  "t_mark_job n now q =
     (if listed n (job_list q) then q\<lparr>job_list := t_mark n now (job_list q)\<rparr>
      else q\<lparr>job_done_list := t_mark n now (job_done_list q)\<rparr>)"

text \<open>One step; \<open>None\<close> is the return. From the reset on the job is read and written without a
  lock: when it was taken off and freed in the meantime, freed memory is used.\<close>

definition t_task_step :: "soc \<Rightarrow> int \<Rightarrow> t_task \<Rightarrow> 'p aip_dev \<Rightarrow> fault + (t_task option \<times> 'p aip_dev)" where
  "t_task_step soc now t d = (case t of (exec, ph) \<Rightarrow>
     let q = t_ch d;
         gone = \<not> listed (e_seqno exec) (job_list q @ job_done_list q)
     in (case ph of
       Tp_poll \<Rightarrow> Inr (Some (exec, if job_list q = [] then Tp_add else Tp_poll), d)
     | Tp_add \<Rightarrow> Inr (Some (exec, Tp_reset), d\<lparr>t_ch := q\<lparr>job_list := job_list q @ [exec]\<rparr>\<rparr>)
     | Tp_reset \<Rightarrow>
         if gone then Inl Use_after_free
         else res_bind (jz_aip_v20_t_reset soc (dev_io d)) (\<lambda>s.
              Inr (Some (exec, Tp_write (t_task_writes exec)), d\<lparr>dev_io := s\<rparr>))
     | Tp_write ws \<Rightarrow>
         if gone then Inl Use_after_free
         else case ws of
           [] \<Rightarrow> Inr (None, d\<lparr>t_ch := t_mark_job (e_seqno exec) now q\<rparr>)
         | (a, v) # ws \<Rightarrow>
             Inr (Some (exec, Tp_write ws), d\<lparr>dev_io := writel soc a v (dev_io d)\<rparr>)))"

text \<open>The steps when nobody else acts any more: a list that is not empty then stays so, and
  the loop goes on for ever.\<close>

primrec t_rank :: "t_phase \<Rightarrow> nat" where
  "t_rank Tp_poll = 30" | "t_rank Tp_add = 29" | "t_rank Tp_reset = 28" | "t_rank (Tp_write ws) = length ws"

lemma length_t_task_writes: "length (t_task_writes e) = 17"
  by (simp add: t_task_writes_def t_geometry_def t_param_writes_def Let_def)

lemma t_task_step_rank:
  "t_task_step soc now t d = Inr (Some t', d') \<Longrightarrow> \<not> (snd t = Tp_poll \<and> job_list (t_ch d) \<noteq> []) \<Longrightarrow>
   t_rank (snd t') < t_rank (snd t)"
  by (cases t) (auto simp: t_task_step_def Let_def res_bind_Inr_iff length_t_task_writes
      split: t_phase.splits if_splits list.splits)

function t_task_alone :: "soc \<Rightarrow> int \<Rightarrow> t_task \<Rightarrow> 'p aip_dev \<Rightarrow> fault + 'p aip_dev" where
  "t_task_alone soc now t d =
     (if snd t = Tp_poll \<and> job_list (t_ch d) \<noteq> [] then Inl Spins
      else res_bind (t_task_step soc now t d) (\<lambda>(t', d').
        case t' of None \<Rightarrow> Inr d' | Some t' \<Rightarrow> t_task_alone soc now t' d'))"
  by pat_completeness auto
termination
  by (relation "measure (\<lambda>(soc, now, t, d). t_rank (snd t))") (auto dest: t_task_step_rank)

declare t_task_alone.simps [simp del]

text \<open>The steps with others in between: what they do, each a change of the device, happens in
  turn with the steps, as long as the list \<open>others\<close> lasts.\<close>

fun t_task_run :: "soc \<Rightarrow> int \<Rightarrow> ('p aip_dev \<Rightarrow> fault + 'p aip_dev) list \<Rightarrow> t_task \<Rightarrow> 'p aip_dev \<Rightarrow>
    fault + 'p aip_dev" where
  "t_task_run soc now [] t d = t_task_alone soc now t d"
| "t_task_run soc now (other # others) t d =
     res_bind (t_task_step soc now t d) (\<lambda>(t', d).
       case t' of None \<Rightarrow> Inr d
       | Some t' \<Rightarrow> res_bind (other d) (t_task_run soc now others t'))"

text \<open>On success the mutex stays held.\<close>

definition jz_aip_v20_t_task_op :: "soc \<Rightarrow> ('p aip_dev \<Rightarrow> fault + 'p aip_dev) list \<Rightarrow> env \<Rightarrow> submit_t \<Rightarrow>
    'p aip_dev \<Rightarrow> fault + (int \<times> 'p aip_dev)" where
  "jz_aip_v20_t_task_op soc others ev dat_t d = res_bind (t_task_enter ev dat_t d) (\<lambda>(t, d).
     case t of None \<Rightarrow> Inr (- EFAULT, d)
     | Some t \<Rightarrow> res_bind (t_task_run soc (t_later ev) others t d) (\<lambda>d. Inr (0, d)))"

text \<open>The \<open>AIP_CH_OP_T_TASK\<close> branch of \<open>jz_aip_v20_wait\<close>: whatever job is first is
  taken off the list and freed; \<open>exec\<close> is used without a test for NULL.\<close>

definition jz_aip_v20_wait_t_task :: "soc \<Rightarrow> 'p aip_dev \<Rightarrow> fault + 'p aip_dev" where
  "jz_aip_v20_wait_t_task soc d = (case job_list (t_ch d) of
     [] \<Rightarrow> Inl Null_deref
   | exec # rest \<Rightarrow>
       Inr (d\<lparr>dev_io := writel soc AIP_V20_T_CTL (ffield AIP_V20_T_CTL_SOFT_RESET) (dev_io d),
              t_ch := (t_ch d)\<lparr>job_list := rest\<rparr>, t_job_mutex := False\<rparr>))"

section \<open>The handlers implement the channel contract\<close>

lemma jz_aip_v20_t_reset_Inr:
  "jz_aip_v20_t_reset soc s = Inr s' \<Longrightarrow>
   bus s' = bus s @ [(AIP_V20_T_CTL, ffield AIP_V20_T_CTL_SOFT_RESET)] \<and> t_reset_done (io_regs s')"
  by (auto simp: jz_aip_v20_t_reset_def res_bind_Inr_iff dest!: poll_Inr)

lemma submit_next_t_Inr:
  assumes "jz_aip_v20_submit_next_t_job soc now d = Inr d'"
  shows "d' = d\<lparr>dev_io := dev_io d', t_ch := q_start now (t_ch d)\<rparr>"
  using assms
  by (cases "job_list (t_ch d)")
     (auto simp: jz_aip_v20_submit_next_t_job_def q_first_def q_start_def res_bind_Inr_iff)

lemma submit_next_t_ch:
  "jz_aip_v20_submit_next_t_job soc now d = Inr d' \<Longrightarrow> t_ch d' = q_start now (t_ch d)"
  by (drule submit_next_t_Inr, drule arg_cong [where f = t_ch]) simp

lemma t_fetch_initial: "t_fetch ev dat = Some e \<Longrightarrow> e_state e = AIP_JOB_INITIAL"
  by (auto simp: t_fetch_def t_exec_new_def split: if_splits option.splits)

text \<open>No buffer object is involved: the hardware alone decides whether a call returns.\<close>

definition t_ok :: "soc \<Rightarrow> 'p aip_dev \<Rightarrow> bool" where
  "t_ok soc d \<longleftrightarrow> quiesces soc t_idle \<and> quiesces soc t_reset_done"

lemma t_reset_returns:
  "quiesces soc t_idle \<Longrightarrow> quiesces soc t_reset_done \<Longrightarrow> \<exists>s'. jz_aip_v20_t_reset soc s = Inr s'"
  unfolding jz_aip_v20_t_reset_def by (metis poll_quiesces res_bind.simps(2))

lemma submit_next_t_total:
  assumes "t_ok soc d"
  shows "\<exists>d'. jz_aip_v20_submit_next_t_job soc now d = Inr d' \<and> t_ok soc d'"
proof -
  obtain s where "jz_aip_v20_t_reset soc (dev_io d) = Inr s"
    using t_reset_returns assms unfolding t_ok_def by blast
  with assms show ?thesis
    by (cases "job_list (t_ch d)")
       (simp_all add: jz_aip_v20_submit_next_t_job_def q_first_def t_ok_def)
qed

interpretation t_engine: engine t_ch "\<lambda>g d. d\<lparr>t_ch := g (t_ch d)\<rparr>" "\<lambda>s d. d\<lparr>dev_io := s\<rparr>"
  "jz_aip_v20_submit_next_t_job soc" "jz_aip_v20_t_reset soc" "t_ok soc" for soc
proof (unfold_locales, goal_cases)
  case (3 now d d')
  then show ?case by (rule submit_next_t_ch)
next
  case (4 d now)
  then show ?case by (rule submit_next_t_total)
next
  case (5 d s)
  then show ?case by (simp add: t_reset_returns t_ok_def)
qed (simp_all add: t_ok_def)

lemma t_enqueue_engine: "t_enqueue soc now e d = t_engine.enqueue soc now e d"
  by (simp add: t_enqueue_def t_engine.enqueue_def)

lemma t_irq_finish_engine:
  "jz_aip_v20_t_irq_finish_job soc now now' d =
     t_engine.finish soc False now now' (0xffffffff - readl (dev_io d) AIP_V20_T_TIMEOUT) d"
  by (simp add: jz_aip_v20_t_irq_finish_job_def t_engine.finish_def q_first_def Let_def
      split: list.split)

lemma t_release_engine:
  "jz_aip_v20_t_release soc p now d = t_engine.release soc p now (dev_io d) d"
  by (simp add: jz_aip_v20_t_release_def t_engine.release_def)

lemma t_work_ch: "t_ch (jz_aip_v20_t_job_done_work d) = q_drain (t_ch d)"
  by (simp add: jz_aip_v20_t_job_done_work_def jz_aip_v20_t_job_handle_completed_def)

lemma t_op_step:
  "jz_aip_v20_t_op soc ev dat d = Inr (0, d') \<Longrightarrow> jobq_step (t_ch d) Submitted (t_ch d')"
  by (auto simp: jz_aip_v20_t_op_def EFAULT_def res_bind_Inr_iff t_enqueue_engine split: option.splits
      intro: t_engine.enqueue_step t_fetch_initial)

lemma t_op_error: "jz_aip_v20_t_op soc ev dat d = Inr (n, d') \<Longrightarrow> n \<noteq> 0 \<Longrightarrow> t_ch d' = t_ch d"
  by (auto simp: jz_aip_v20_t_op_def res_bind_Inr_iff split: option.splits)

lemma t_op_total:
  assumes "t_ok soc d"
  shows "\<exists>n d'. jz_aip_v20_t_op soc ev dat d = Inr (n, d') \<and> t_ok soc d'"
proof (cases "t_fetch ev dat")
  case (Some e)
  have "t_ok soc (d\<lparr>t_ch := q_push e (t_ch d)\<rparr>)" using assms by (simp add: t_ok_def)
  from t_engine.enqueue_ok [OF this, of "t_later ev"] Some show ?thesis
    by (auto simp: jz_aip_v20_t_op_def t_enqueue_engine)
qed (use assms in \<open>simp add: jz_aip_v20_t_op_def\<close>)

interpretation t: job_channel t_ch
  "\<lambda>(ev, dat). jz_aip_v20_t_op soc ev dat"
  "\<lambda>(now, now'). jz_aip_v20_t_irq_finish_job soc now now'"
  jz_aip_v20_t_job_done_work
  "\<lambda>p now. jz_aip_v20_t_release soc p now" for soc
  by unfold_locales (auto simp: t_op_step t_irq_finish_engine t_release_engine t_work_ch
      dest: t_op_error t_engine.finish_idle_q t_engine.finish_busy_step t_engine.release_step)

lemma t_ok_work: "t_ok soc d \<Longrightarrow> t_ok soc (jz_aip_v20_t_job_done_work d)"
  by (simp add: t_ok_def)

interpretation t_total: total_channel t_ch
  "\<lambda>(ev, dat). jz_aip_v20_t_op soc ev dat"
  "\<lambda>(now, now'). jz_aip_v20_t_irq_finish_job soc now now'"
  jz_aip_v20_t_job_done_work
  "\<lambda>p now. jz_aip_v20_t_release soc p now"
  "t_ok soc" "\<lambda>_. True" for soc
  by unfold_locales (auto simp: t_op_total t_irq_finish_engine t_release_engine t_ok_work
      t_engine.finish_ok t_engine.release_ok split: prod.splits)

lemma t_release_frame:
  assumes "jz_aip_v20_t_release soc pid now d = Inr d'"
  shows "\<exists>s q. d' = d\<lparr>dev_io := s, t_ch := q\<rparr>"
proof -
  obtain ks re s where "(if re then jz_aip_v20_submit_next_t_job soc now
      (d\<lparr>dev_io := s, t_ch := (t_ch d)\<lparr>job_list := ks\<rparr>\<rparr>)
    else Inr (d\<lparr>dev_io := s, t_ch := (t_ch d)\<lparr>job_list := ks\<rparr>\<rparr>)) = Inr d'"
    using assms by (auto simp: jz_aip_v20_t_release_def res_bind_Inr_iff Let_def)
  then show ?thesis
  proof (cases re)
    case True
    with \<open>(if re then _ else _) = Inr d'\<close> show ?thesis
      using submit_next_t_Inr by fastforce
  next
    case False
    with \<open>(if re then _ else _) = Inr d'\<close> show ?thesis by auto
  qed
qed

section \<open>Properties\<close>

definition t_calls :: "soc \<Rightarrow> (env \<times> submit_t, int \<times> int, int) chan_call list \<Rightarrow> 'p aip_dev \<Rightarrow>
    fault + 'p aip_dev" where
  "t_calls soc = run_calls (\<lambda>(ev, dat). jz_aip_v20_t_op soc ev dat)
     (\<lambda>(now, now'). jz_aip_v20_t_irq_finish_job soc now now')
     jz_aip_v20_t_job_done_work (\<lambda>p now. jz_aip_v20_t_release soc p now)"

definition sample_t_node :: aip_v20_t_node where
  "sample_t_node = \<lparr>src_ybase = 0x1000, src_cbase = 0x2000, dst_base = 0x3000, src_h = 8, src_w = 16,
     src_stride = 16, dst_stride = 64, task_len = 8\<rparr>"

definition sample_t :: submit_t where
  "sample_t = \<lparr>t_offset = \<lparr>order = 0, alpha = 255, offset0 = 16, offset1 = 128\<rparr>,
     t_pos_in = 0, t_pos_out = 1, t_param = Some of_nat, t_node = Some sample_t_node,
     t_name = Null_name\<rparr>"

text \<open>Hardware with an empty write queue, whose reset bit clears at each tick.\<close>

definition sample_t_soc :: soc where
  "sample_t_soc = \<lparr>repair_a1 = False, tick = (\<lambda>_ a. if a = AIP_V20_T_CTL then 8 else 0),
     on_write = (\<lambda>a v r. r(a := v))\<rparr>"

lemma sample_t_ok: "t_ok sample_t_soc d"
proof -
  have "quiesces sample_t_soc c" if "c (\<lambda>a. if a = AIP_V20_T_CTL then 8 else 0)" for c
    unfolding quiesces_def using that by (intro allI exI [of _ 1]) (simp add: sample_t_soc_def)
  moreover have "t_idle (\<lambda>a. if a = AIP_V20_T_CTL then 8 else 0)"
    "t_reset_done (\<lambda>a. if a = AIP_V20_T_CTL then 8 else 0)"
    by (simp_all add: t_idle_def t_reset_done_def aip_fields ffield_def fmask_def)
  ultimately show ?thesis by (simp add: t_ok_def)
qed

text \<open>Whatever the order of submissions, completion interrupts, done works and
  releases, the AIP-T queue stays well formed from the driver's start (tasks,
  which go around the queue's rules, apart).\<close>

theorem t_queue_invariant:
  assumes "t_calls soc cs (jz_aip_v20_core_init d) = Inr d'" "submit_calls cs < 2 ^ 64"
  shows "jobq_inv (t_ch d')"
  using t.run_calls_inv [of soc cs "jz_aip_v20_core_init d" d'] assms jobq_inv_init
  by (simp add: t_calls_def jz_aip_v20_core_init_def)

definition sample_t_calls :: "(env \<times> submit_t, int \<times> int, int) chan_call list" where
  "sample_t_calls = [Call_submit (sample_env, sample_t), Call_submit (sample_env, sample_t),
     Call_finish (30, 31), Call_release 8 40, Call_work]"

theorem t_queue_invariant_witness:
  "\<exists>d'. t_calls sample_t_soc sample_t_calls (jz_aip_v20_core_init sample_dev) = Inr d' \<and>
     jobq_inv (t_ch d')"
proof -
  obtain d' where d': "t_calls sample_t_soc sample_t_calls (jz_aip_v20_core_init sample_dev) = Inr d'"
    using t_total.run_calls_total [OF sample_t_ok, of sample_t_calls] unfolding t_calls_def by blast
  from t_queue_invariant [OF this] d' show ?thesis by (simp add: sample_t_calls_def)
qed

text \<open>Every AIP-T job is served, and no call hangs: on hardware that drains and
  completes resets, as many completions as there are jobs empty the list, in its
  order.\<close>

theorem t_jobs_served:
  assumes "t_ok soc d" "jobq_inv (t_ch d)" "length nows = length (job_list (t_ch d))"
  shows "\<exists>d'. t_calls soc (map Call_finish nows) d = Inr d' \<and> job_list (t_ch d') = [] \<and>
    map e_seqno (job_done_list (t_ch d')) =
      map e_seqno (job_done_list (t_ch d) @ job_list (t_ch d))"
  using t_total.finish_all [OF assms] by (simp add: t_calls_def)

definition sample_t_exec :: "u64 \<Rightarrow> job_state \<Rightarrow> t_exec_info" where
  "sample_t_exec n st = (t_exec_new sample_env sample_t of_nat sample_t_node)\<lparr>e_seqno := n, e_state := st\<rparr>"

definition sample_t_dev :: "unit aip_dev" where
  "sample_t_dev = sample_dev\<lparr>t_ch := \<lparr>submited_seqno = 5, finished_seqno = 3,
     job_list = [sample_t_exec 4 AIP_JOB_RUNNING, sample_t_exec 5 AIP_JOB_INITIAL],
     job_done_list = [], work_queued = False\<rparr>\<rparr>"

theorem t_jobs_served_witness:
  "\<exists>d'. t_calls sample_t_soc (map Call_finish [(1, 2), (3, 4)]) sample_t_dev = Inr d' \<and>
     job_list (t_ch d') = [] \<and> map e_seqno (job_done_list (t_ch d')) = [4, 5]"
proof -
  have "jobq_inv (t_ch sample_t_dev)"
    by (simp add: jobq_inv_def head_running_def sample_t_dev_def sample_t_exec_def)
  from t_jobs_served [OF sample_t_ok this, of "[(1, 2), (3, 4)]"] show ?thesis
    by (simp add: sample_t_dev_def sample_t_exec_def)
qed

text \<open>A conversion submitted to an idle AIP-T channel resets the engine and programs
  it completely: nine parameters (fifth and sixth negated), the time-out, source
  and destination addresses, task length, offset, size and strides, the
  configuration, and at last the two start commands, in this order; the job is
  the running one and carries the next number.\<close>

theorem t_op_programs_engine:
  assumes "t_ok soc d" "t_fetch ev dat = Some e" "job_list (t_ch d) = []"
  shows "\<exists>d'. jz_aip_v20_t_op soc ev dat d = Inr (0, d') \<and>
    bus (dev_io d') = bus (dev_io d) @
      (AIP_V20_T_CTL, ffield AIP_V20_T_CTL_SOFT_RESET) # t_job_writes e \<and>
    job_list (t_ch d') = [e\<lparr>e_seqno := submited_seqno (t_ch d) + 1, start_time := t_later ev,
      e_state := AIP_JOB_RUNNING\<rparr>]"
proof -
  obtain s where s: "jz_aip_v20_t_reset soc (dev_io d) = Inr s"
    using t_reset_returns assms(1) unfolding t_ok_def by blast
  have "t_job_writes (e\<lparr>e_seqno := n\<rparr>) = t_job_writes e" for n
    by (simp add: t_job_writes_def t_geometry_def t_start_cfg_def)
  with s assms(2,3) jz_aip_v20_t_reset_Inr [OF s] show ?thesis
    by (simp add: jz_aip_v20_t_op_def t_enqueue_def jz_aip_v20_submit_next_t_job_def q_first_def
        q_push_def q_start_def)
qed

lemma sample_t_fetch: "t_fetch sample_env sample_t = Some (t_exec_new sample_env sample_t of_nat sample_t_node)"
  by (simp add: t_fetch_def sample_env_def sample_t_def)

theorem t_op_programs_engine_witness:
  "\<exists>d'. jz_aip_v20_t_op sample_t_soc sample_env sample_t sample_dev = Inr (0, d') \<and>
     (AIP_V20_T_WH, 0x80010) \<in> set (bus (dev_io d'))"
proof -
  from t_op_programs_engine [OF sample_t_ok sample_t_fetch, of sample_dev] obtain d' where
    d': "jz_aip_v20_t_op sample_t_soc sample_env sample_t sample_dev = Inr (0, d')"
    "bus (dev_io d') = (AIP_V20_T_CTL, ffield AIP_V20_T_CTL_SOFT_RESET) #
      t_job_writes (t_exec_new sample_env sample_t of_nat sample_t_node)"
    by auto
  then show ?thesis
    by (auto simp: t_job_writes_def t_geometry_def Let_def t_exec_new_def sample_t_node_def)
qed

text \<open>The fields of a conversion's configuration and offset registers.\<close>

definition t_start_fields :: "submit_t \<Rightarrow> (reg_field \<times> u32) list" where
  "t_start_fields dat =
     [(AIP_V20_T_CFG_IBUS, t_pos_in dat), (AIP_V20_T_CFG_OBUS, t_pos_out dat),
      (AIP_V20_T_CFG_IRQ_SELECT, - 1), (AIP_V20_T_CFG_TIMEOUT_ENABLE, - 1),
      (AIP_V20_T_CFG_CHAIN_IRQ_MASK, - 1), (AIP_V20_T_CFG_IRQ_MASK, - 1),
      (AIP_V20_T_CFG_CKG_MASK, - 1), (AIP_V20_T_CFG_TIMEOUT_IRQ_MASK, - 1)]"

definition t_ofst_fields :: "nv2bgr_offset \<Rightarrow> (reg_field \<times> u32) list" where
  "t_ofst_fields o' =
     [(AIP_V20_T_OFST_NV2BGR_ORDER, order o'), (AIP_V20_T_OFST_NV2BGR_ALPHA, alpha o'),
      (AIP_V20_T_OFST_NV2BGR_OFSET1, offset1 o'), (AIP_V20_T_OFST_NV2BGR_OFSET0, offset0 o')]"

lemma t_fetch_encode:
  assumes "t_fetch ev dat = Some e"
  shows "t_start_cfg e = encode_fields (t_start_fields dat)"
    and "t_task_cfg e = encode_fields (t_start_fields dat @ [(AIP_V20_T_CFG_TASK_IRQ, - 1)])"
    and "t_ofst e = encode_fields (t_ofst_fields (t_offset dat))"
  using assms
  by (auto simp: t_fetch_def t_exec_new_def t_start_cfg_def t_task_cfg_def t_op_cfg_def
      t_op_ofst_def t_start_fields_def t_ofst_fields_def encode_fields_def ffield_fput or.assoc
      split: if_splits option.splits)

text \<open>The configuration of a conversion and of a task differ in one field: both
  decode to the caller's positions with time-out, interrupt masks and clock gate
  on, and only the task's masks the task interrupt; the offset register decodes
  to the caller's order, alpha and offsets, each cut to its field.\<close>

theorem t_cfg_decodes:
  assumes "t_fetch ev dat = Some e"
  shows "(\<forall>(fld, v) \<in> set (t_start_fields dat).
      fget fld (t_start_cfg e) = v AND fmask fld \<and> fget fld (t_task_cfg e) = v AND fmask fld) \<and>
    fget AIP_V20_T_CFG_TASK_IRQ (t_start_cfg e) = 0 \<and>
    fget AIP_V20_T_CFG_TASK_IRQ (t_task_cfg e) = fmask AIP_V20_T_CFG_TASK_IRQ \<and>
    (\<forall>(fld, v) \<in> set (t_ofst_fields (t_offset dat)). fget fld (t_ofst e) = v AND fmask fld)"
proof -
  let ?fs = "t_start_fields dat" and ?ts = "t_start_fields dat @ [(AIP_V20_T_CFG_TASK_IRQ, - 1)]"
  have sub: "fst ` set ?ts \<subseteq> set AIP_V20_T_CFG_layout" "distinct (map fst ?ts)"
    by (simp_all add: t_start_fields_def AIP_V20_T_CFG_layout_def aip_fields)
  have fs: "fst ` set ?fs \<subseteq> set AIP_V20_T_CFG_layout" "distinct (map fst ?fs)"
    using sub by simp_all
  have os: "fst ` set (t_ofst_fields (t_offset dat)) \<subseteq> set AIP_V20_T_OFST_layout"
    "distinct (map fst (t_ofst_fields (t_offset dat)))"
    by (simp_all add: t_ofst_fields_def AIP_V20_T_OFST_layout_def aip_fields)
  have "AIP_V20_T_CFG_TASK_IRQ \<in> set AIP_V20_T_CFG_layout" "AIP_V20_T_CFG_TASK_IRQ \<notin> fst ` set ?fs"
    using sub by auto
  note task = t_cfg.fget_encode_unset [OF fs(1) this]
    t_cfg.fget_encode [OF sub, of AIP_V20_T_CFG_TASK_IRQ "- 1"]
  from t_cfg.fget_encode [OF fs] t_cfg.fget_encode [OF sub] task t_ofst.fget_encode [OF os]
  show ?thesis by (auto simp: t_fetch_encode [OF assms])
qed

theorem t_cfg_decodes_witness:
  "fget AIP_V20_T_CFG_OBUS (t_start_cfg (t_exec_new sample_env sample_t of_nat sample_t_node)) = 1"
proof -
  have "(AIP_V20_T_CFG_OBUS, 1) \<in> set (t_start_fields sample_t)"
    by (simp add: t_start_fields_def sample_t_def)
  with t_cfg_decodes [OF sample_t_fetch] show ?thesis by (auto simp: aip_fields fmask_def)
qed

section \<open>Properties of tasks\<close>

text \<open>The device after a task was started on an idle channel.\<close>

definition t_task_started :: "io \<Rightarrow> int \<Rightarrow> t_exec_info \<Rightarrow> 'p aip_dev \<Rightarrow> 'p aip_dev" where
  "t_task_started s now e d = d\<lparr>t_job_mutex := True, dev_io := s,
    t_ch := (t_ch d)\<lparr>submited_seqno := submited_seqno (t_ch d) + 1,
      job_list := [e\<lparr>e_seqno := submited_seqno (t_ch d) + 1, start_time := now,
        e_state := AIP_JOB_RUNNING\<rparr>]\<rparr>\<rparr>"

lemma t_task_alone_writes:
  assumes "listed (e_seqno e) (job_list (t_ch d))"
  shows "t_task_alone soc now (e, Tp_write ws) d =
    Inr (d\<lparr>dev_io := writel_all soc ws (dev_io d), t_ch := t_mark_job (e_seqno e) now (t_ch d)\<rparr>)"
  using assms
proof (induction ws arbitrary: d)
  case Nil
  then show ?case
    by (subst t_task_alone.simps) (auto simp: t_task_step_def listed_def writel_all_def Let_def)
next
  case (Cons w ws)
  obtain a v where "w = (a, v)" by (cases w)
  with Cons.prems Cons.IH [of "d\<lparr>dev_io := writel soc a v (dev_io d)\<rparr>"] show ?case
    by (subst t_task_alone.simps) (auto simp: t_task_step_def listed_def writel_all_def Let_def)
qed

text \<open>On an idle channel, with nobody acting in between.\<close>

lemma t_task_op_idle:
  assumes "t_ok soc d" "t_fetch ev dat = Some e" "job_list (t_ch d) = []" "\<not> t_job_mutex d"
  shows "\<exists>s. jz_aip_v20_t_task_op soc [] ev dat d = Inr (0, t_task_started s (t_later ev) e d)"
proof -
  let ?e = "e\<lparr>e_seqno := submited_seqno (t_ch d) + 1\<rparr>"
  let ?d = "d\<lparr>t_job_mutex := True, t_ch := (t_ch d)\<lparr>submited_seqno := submited_seqno (t_ch d) + 1\<rparr>\<rparr>"
  let ?d1 = "?d\<lparr>t_ch := (t_ch ?d)\<lparr>job_list := [?e]\<rparr>\<rparr>"
  obtain s where s: "jz_aip_v20_t_reset soc (dev_io d) = Inr s"
    using t_reset_returns assms(1) unfolding t_ok_def by blast
  have "t_task_alone soc now (?e, Tp_poll) ?d = t_task_alone soc now (?e, Tp_add) ?d" for now
    using assms(3) by (subst t_task_alone.simps) (simp add: t_task_step_def)
  also have "\<dots> now = t_task_alone soc now (?e, Tp_reset) ?d1" for now
    using assms(3) by (subst t_task_alone.simps) (simp add: t_task_step_def)
  also have "\<dots> now = t_task_alone soc now (?e, Tp_write (t_task_writes ?e)) (?d1\<lparr>dev_io := s\<rparr>)" for now
    using s by (subst t_task_alone.simps) (simp add: t_task_step_def listed_def)
  finally have "t_task_alone soc now (?e, Tp_poll) ?d =
      t_task_alone soc now (?e, Tp_write (t_task_writes ?e)) (?d1\<lparr>dev_io := s\<rparr>)" for now .
  with assms(2-4) show ?thesis
    by (simp add: jz_aip_v20_t_task_op_def t_task_enter_def Let_def t_task_alone_writes t_task_started_def
        listed_def t_mark_job_def t_mark_def)
       (rule exI, rule refl)
qed

lemma t_task_op_sleeps:
  "t_fetch ev dat = Some e \<Longrightarrow> t_job_mutex d \<Longrightarrow> jz_aip_v20_t_task_op soc others ev dat d = Inl Sleeps"
  by (simp add: jz_aip_v20_t_task_op_def t_task_enter_def)

text \<open>A task's life: on an idle channel \<open>t_task_op\<close> succeeds, holds the mutex so that
  the next task sleeps, and the task is the only job; the wait call takes it off
  again and frees the mutex. The task used up a sequence number that is never
  reported as finished: afterwards the list is empty and yet the last number
  given out is one more than before, the last finished one the same.\<close>

theorem t_task_then_wait:
  assumes "t_ok soc d" "t_fetch ev dat = Some e" "job_list (t_ch d) = []" "\<not> t_job_mutex d"
  shows "\<exists>d1 d2. jz_aip_v20_t_task_op soc [] ev dat d = Inr (0, d1) \<and>
    map e_state (job_list (t_ch d1)) = [AIP_JOB_RUNNING] \<and>
    jz_aip_v20_t_task_op soc [] ev dat d1 = Inl Sleeps \<and>
    jz_aip_v20_wait_t_task soc d1 = Inr d2 \<and> \<not> t_job_mutex d2 \<and>
    t_ch d2 = (t_ch d)\<lparr>submited_seqno := submited_seqno (t_ch d) + 1\<rparr>"
proof -
  obtain s where "jz_aip_v20_t_task_op soc [] ev dat d = Inr (0, t_task_started s (t_later ev) e d)"
    using t_task_op_idle [OF assms] by blast
  with assms(2,3) show ?thesis
    by (intro exI conjI) (auto simp: jz_aip_v20_wait_t_task_def t_task_started_def
        intro: t_task_op_sleeps)
qed

theorem t_task_then_wait_witness:
  "\<exists>d1 d2. jz_aip_v20_t_task_op sample_t_soc [] sample_env sample_t sample_dev = Inr (0, d1) \<and>
    jz_aip_v20_wait_t_task sample_t_soc d1 = Inr d2 \<and>
    submited_seqno (t_ch d2) = 1 \<and> finished_seqno (t_ch d2) = 0 \<and> job_list (t_ch d2) = []"
proof -
  have "\<not> t_job_mutex sample_dev" by (simp add: sample_dev_def)
  from t_task_then_wait [OF sample_t_ok sample_t_fetch _ this] show ?thesis by fastforce
qed

lemma t_op_busy:
  "t_fetch ev dat = Some e \<Longrightarrow> job_list (t_ch d) \<noteq> [] \<Longrightarrow>
   jz_aip_v20_t_op soc ev dat d = Inr (0, d\<lparr>t_ch := q_push e (t_ch d)\<rparr>)"
  by (simp add: jz_aip_v20_t_op_def t_enqueue_def)

text \<open>A conversion queued while a task runs is stranded: the wait call that ends the
  task does not start it, so it stays first in the list without having been put
  on the engine, the queue's invariant is lost, and later conversions only queue
  up behind it without touching the engine.\<close>

theorem t_task_strands_jobs:
  assumes "t_ok soc d" "t_fetch ev dat = Some e" "job_list (t_ch d) = []" "\<not> t_job_mutex d"
    "t_fetch ev' dat' = Some e'" "t_fetch ev'' dat'' = Some e''"
  shows "\<exists>d1 d2 d3 d4. jz_aip_v20_t_task_op soc [] ev dat d = Inr (0, d1) \<and>
    jz_aip_v20_t_op soc ev' dat' d1 = Inr (0, d2) \<and>
    jz_aip_v20_wait_t_task soc d2 = Inr d3 \<and>
    map e_state (job_list (t_ch d3)) = [AIP_JOB_INITIAL] \<and> \<not> jobq_inv (t_ch d3) \<and>
    jz_aip_v20_t_op soc ev'' dat'' d3 = Inr (0, d4) \<and> dev_io d4 = dev_io d3"
proof -
  obtain s where "jz_aip_v20_t_task_op soc [] ev dat d = Inr (0, t_task_started s (t_later ev) e d)"
    using t_task_op_idle [OF assms(1-4)] by blast
  moreover define d1 where "d1 = t_task_started s (t_later ev) e d"
  moreover have "jz_aip_v20_t_op soc ev' dat' d1 = Inr (0, d1\<lparr>t_ch := q_push e' (t_ch d1)\<rparr>)"
    by (rule t_op_busy [OF assms(5)]) (simp add: d1_def t_task_started_def)
  moreover define d2 where "d2 = d1\<lparr>t_ch := q_push e' (t_ch d1)\<rparr>"
  moreover obtain d3 where "jz_aip_v20_wait_t_task soc d2 = Inr d3"
    and jobs: "map e_state (job_list (t_ch d3)) = [AIP_JOB_INITIAL]"
    using t_fetch_initial [OF assms(5)]
    by (simp add: jz_aip_v20_wait_t_task_def d2_def d1_def t_task_started_def q_push_def)
  moreover have "\<not> jobq_inv (t_ch d3)"
    using jobs by (auto simp: jobq_inv_def head_running_def)
  moreover have "jz_aip_v20_t_op soc ev'' dat'' d3 = Inr (0, d3\<lparr>t_ch := q_push e'' (t_ch d3)\<rparr>)"
    by (rule t_op_busy [OF assms(6)]) (use jobs in auto)
  ultimately show ?thesis
    by (rule_tac x = d1 in exI, rule_tac x = d2 in exI, rule_tac x = d3 in exI) simp
qed

theorem t_task_strands_jobs_witness:
  "\<exists>d1 d2 d3. jz_aip_v20_t_task_op sample_t_soc [] sample_env sample_t sample_dev = Inr (0, d1) \<and>
    jz_aip_v20_t_op sample_t_soc sample_env sample_t d1 = Inr (0, d2) \<and>
    jz_aip_v20_wait_t_task sample_t_soc d2 = Inr d3 \<and> \<not> jobq_inv (t_ch d3)"
proof -
  have "\<not> t_job_mutex sample_dev" by (simp add: sample_dev_def)
  from t_task_strands_jobs [OF sample_t_ok sample_t_fetch _ this sample_t_fetch sample_t_fetch]
  show ?thesis by auto
qed

text \<open>A process that closes the device while its task is on the engine leaves the
  task mutex held: the list is emptied, but every later task sleeps for ever.\<close>

theorem t_release_keeps_task_mutex:
  assumes "t_ok soc d" "t_fetch ev dat = Some e" "job_list (t_ch d) = []" "\<not> t_job_mutex d"
    "t_fetch ev' dat' = Some e'"
  shows "\<exists>d1 d2. jz_aip_v20_t_task_op soc [] ev dat d = Inr (0, d1) \<and>
    jz_aip_v20_t_release soc (cur_pid ev) now d1 = Inr d2 \<and> job_list (t_ch d2) = [] \<and>
    jz_aip_v20_t_task_op soc [] ev' dat' d2 = Inl Sleeps"
proof -
  obtain s where s: "jz_aip_v20_t_task_op soc [] ev dat d = Inr (0, t_task_started s (t_later ev) e d)"
    using t_task_op_idle [OF assms(1-4)] by blast
  obtain s' where s': "jz_aip_v20_t_reset soc s = Inr s'"
    using t_reset_returns assms(1) unfolding t_ok_def by blast
  have "e_pid e = cur_pid ev"
    using assms(2) by (auto simp: t_fetch_def t_exec_new_def split: if_splits option.splits)
  with s' have "jz_aip_v20_t_release soc (cur_pid ev) now (t_task_started s (t_later ev) e d) =
      Inr ((t_task_started s (t_later ev) e d)\<lparr>dev_io := s', t_ch := (t_ch d)\<lparr>
        submited_seqno := submited_seqno (t_ch d) + 1, job_list := []\<rparr>\<rparr>)"
    by (simp add: jz_aip_v20_t_release_def t_task_started_def jz_aip_v20_submit_next_t_job_def
        q_first_def)
  with s assms(5) show ?thesis
    by (intro exI conjI) (auto simp: t_task_started_def intro: t_task_op_sleeps)
qed

theorem t_release_keeps_task_mutex_witness:
  "\<exists>d1 d2. jz_aip_v20_t_task_op sample_t_soc [] sample_env sample_t sample_dev = Inr (0, d1) \<and>
    jz_aip_v20_t_release sample_t_soc 7 40 d1 = Inr d2 \<and>
    jz_aip_v20_t_task_op sample_t_soc [] sample_env sample_t d2 = Inl Sleeps"
proof -
  have "\<not> t_job_mutex sample_dev" "cur_pid sample_env = 7"
    by (simp_all add: sample_dev_def sample_env_def)
  with t_release_keeps_task_mutex [OF sample_t_ok sample_t_fetch _ this(1) sample_t_fetch, of 40]
  show ?thesis by auto
qed

text \<open>A conversion that another process submits after the task saw the list empty, and before
  it enters the list, is started; the task then resets the engine under it, and two
  jobs are marked as running, in the wrong order.\<close>

definition others_t_op :: "soc \<Rightarrow> env \<Rightarrow> submit_t \<Rightarrow> 'p aip_dev \<Rightarrow> fault + 'p aip_dev" where
  "others_t_op soc ev dat d = res_bind (jz_aip_v20_t_op soc ev dat d) (\<lambda>(n, d). Inr d)"

theorem t_task_overtaken:
  assumes "t_ok soc d" "t_fetch ev dat = Some e" "job_list (t_ch d) = []" "\<not> t_job_mutex d"
    "t_fetch ev' dat' = Some e'" "s = submited_seqno (t_ch d)"
  shows "\<exists>d'. jz_aip_v20_t_task_op soc [others_t_op soc ev' dat'] ev dat d = Inr (0, d') \<and>
    map e_seqno (job_list (t_ch d')) = [s + 2, s + 1] \<and>
    map e_state (job_list (t_ch d')) = [AIP_JOB_RUNNING, AIP_JOB_RUNNING]"
proof -
  let ?e = "e\<lparr>e_seqno := s + 1\<rparr>"
  let ?d = "d\<lparr>t_job_mutex := True, t_ch := (t_ch d)\<lparr>submited_seqno := s + 1\<rparr>\<rparr>"
  have "t_ok soc ?d" using assms(1) by (simp add: t_ok_def)
  from t_op_programs_engine [OF this assms(5)] assms(3) obtain d1 where
    op: "jz_aip_v20_t_op soc ev' dat' ?d = Inr (0, d1)" and
    jobs: "job_list (t_ch d1) = [e'\<lparr>e_seqno := s + 2, start_time := t_later ev', e_state := AIP_JOB_RUNNING\<rparr>]"
    by auto
  obtain io where io: "jz_aip_v20_t_reset soc (dev_io d1) = Inr io"
    using t_reset_returns assms(1) unfolding t_ok_def by blast
  let ?d2 = "d1\<lparr>t_ch := (t_ch d1)\<lparr>job_list := job_list (t_ch d1) @ [?e]\<rparr>\<rparr>"
  have "t_task_alone soc now (?e, Tp_add) d1 = t_task_alone soc now (?e, Tp_reset) ?d2" for now
    by (subst t_task_alone.simps) (simp add: t_task_step_def Let_def)
  also have "\<dots> now = t_task_alone soc now (?e, Tp_write (t_task_writes ?e)) (?d2\<lparr>dev_io := io\<rparr>)" for now
    using io by (subst t_task_alone.simps) (simp add: t_task_step_def listed_def Let_def)
  also have "\<dots> now = Inr (?d2\<lparr>dev_io := writel_all soc (t_task_writes ?e) io,
      t_ch := t_mark_job (s + 1) now (t_ch ?d2)\<rparr>)" for now
    by (subst t_task_alone_writes) (simp_all add: listed_def)
  finally have alone: "t_task_alone soc now (?e, Tp_add) d1 = Inr (?d2\<lparr>dev_io := writel_all soc (t_task_writes ?e) io,
      t_ch := t_mark_job (s + 1) now (t_ch ?d2)\<rparr>)" for now .
  have "s + 2 \<noteq> s + 1" by simp
  with assms(2-4) op jobs show ?thesis
    by (simp add: jz_aip_v20_t_task_op_def t_task_enter_def Let_def t_task_step_def others_t_op_def
        alone assms(6) [symmetric])
       (simp add: t_mark_job_def t_mark_def listed_def)
qed

theorem t_task_overtaken_witness:
  "\<exists>d'. jz_aip_v20_t_task_op sample_t_soc [others_t_op sample_t_soc sample_env sample_t] sample_env sample_t
      sample_dev = Inr (0, d') \<and> map e_seqno (job_list (t_ch d')) = [2, 1]"
proof -
  have "\<not> t_job_mutex sample_dev" by (simp add: sample_dev_def)
  from t_task_overtaken [OF sample_t_ok sample_t_fetch _ this sample_t_fetch refl] show ?thesis
    by auto
qed

end
