(* ===== verification/Nna.thy ===== *)
theory Nna
  imports Device
begin

text \<open>
  The neural-network accelerator's part of the driver, \<open>drive/jz_nna_v20_core.c\<close>:
  a mutex user processes hold while they use the accelerator, and the on-chip
  RAM they allocate from. The kernel's \<open>gen_pool\<close> is a parameter: a record of its
  operations on an abstract pool state \<open>'p\<close>, and \<open>gen_pool_ok\<close> states what its
  documentation promises of them.
\<close>

section \<open>The pool\<close>

record 'p gen_pool =
  gp_avail :: "'p \<Rightarrow> u32"
  gp_size :: "'p \<Rightarrow> u32"
  gp_dma_alloc :: "u32 \<Rightarrow> 'p \<Rightarrow> (u32 \<times> u32 \<times> 'p) option"
  gp_free :: "u32 \<Rightarrow> u32 \<Rightarrow> 'p \<Rightarrow> 'p"
  gp_add_virt :: "u32 \<Rightarrow> u32 \<Rightarrow> u32 \<Rightarrow> 'p \<Rightarrow> int \<times> 'p"

text \<open>An allocation takes the request's bytes, rounded up to the pool's granules
  (\<open>grain\<close>), off the free ones, and freeing the same size gives them back; the
  pool's size does not change.\<close>

definition gen_pool_ok :: "'p gen_pool \<Rightarrow> (u32 \<Rightarrow> nat) \<Rightarrow> bool" where
  "gen_pool_ok gp grain \<longleftrightarrow>
     (\<forall>n p va pa p'. gp_dma_alloc gp n p = Some (va, pa, p') \<longrightarrow>
        unat (gp_avail gp p') + grain n = unat (gp_avail gp p) \<and> gp_size gp p' = gp_size gp p) \<and>
     (\<forall>va n p. unat (gp_avail gp p) + grain n \<le> unat (gp_size gp p) \<longrightarrow>
        unat (gp_avail gp (gp_free gp va n p)) = unat (gp_avail gp p) + grain n \<and>
        gp_size gp (gp_free gp va n p) = gp_size gp p)"

section \<open>Initialisation\<close>

definition JZ_NNA_DMA_DESRAM_IOBASE :: u32 where "JZ_NNA_DMA_DESRAM_IOBASE = 0x12500000"
definition JZ_NNA_DMA_DESRAM_IOSIZE :: u32 where "JZ_NNA_DMA_DESRAM_IOSIZE = 16 * 1024"
definition JZ_NNA_DMA_IOBASE :: u32 where "JZ_NNA_DMA_IOBASE = 0x12508000"
definition JZ_NNA_DMA_IOSIZE :: u32 where "JZ_NNA_DMA_IOSIZE = 0x20"
definition JZ_NNA_ORAM_IOBASE :: u32 where "JZ_NNA_ORAM_IOBASE = 0x12600000"

text \<open>\<open>IS_ERR\<close> and \<open>PTR_ERR\<close> of a pointer.\<close>

definition IS_ERR :: "u32 \<Rightarrow> bool" where
  "IS_ERR ptr \<longleftrightarrow> 0xfffff001 \<le> ptr"

definition PTR_ERR :: "u32 \<Rightarrow> int" where
  "PTR_ERR ptr = sint ptr"

text \<open>The share of the second-level cache that is in use as cache, by \<open>oram_cfg\<close>.\<close>

definition l2c_size_of_cfg :: "u32 \<Rightarrow> u32 option" where
  "l2c_size_of_cfg cfg =
     (if cfg = 0 then Some 0
      else if cfg = 1 then Some (128 * 1024)
      else if cfg = 2 then Some (256 * 1024)
      else if cfg = 3 then Some (512 * 1024)
      else None)"

text \<open>\<open>create\<close> is what \<open>devm_gen_pool_create\<close> answers (an error or a pool), \<open>virt\<close> the
  pointer of \<open>devm_ioremap_wc\<close>, \<open>mscr\<close> the clock register.\<close>

definition jz_nna_v20_core_init :: "'p gen_pool \<Rightarrow> u32 \<Rightarrow> (int + 'p) \<Rightarrow> u32 \<Rightarrow> 'p nna_state \<Rightarrow>
    int \<times> 'p nna_state" where
  "jz_nna_v20_core_init gp mscr create virt n =
     (let oram_cfg = drop_bit 10 (mscr AND 0x1c00);
          n = n\<lparr>total_l2c_size := 512 * 1024\<rparr>
      in case l2c_size_of_cfg oram_cfg of
        None \<Rightarrow> (- 1, n)
      | Some l2c \<Rightarrow>
          let n = n\<lparr>curr_l2c_size := l2c, oram_size := total_l2c_size n - l2c, nna_job_list := [],
                    nna_job_lock := False, nna_oram_handles := [], nna_mutex := False,
                    oram_pool := None\<rparr>
          in if oram_size n = 0 then (0, n)
             else
               let n = n\<lparr>dma_size := JZ_NNA_DMA_IOSIZE, dma_pbase := JZ_NNA_DMA_IOBASE,
                         dma_desram_size := JZ_NNA_DMA_DESRAM_IOSIZE,
                         dma_desram_pbase := JZ_NNA_DMA_DESRAM_IOBASE,
                         oram_pbase := JZ_NNA_ORAM_IOBASE\<rparr>
               in case create of
                 Inl err \<Rightarrow> (err, n)
               | Inr pool \<Rightarrow>
                   if IS_ERR virt then (PTR_ERR virt, n\<lparr>oram_pool := Some pool\<rparr>)
                   else (let (ret, pool) = gp_add_virt gp virt (oram_pbase n + curr_l2c_size n)
                                             (oram_size n) pool
                         in (if ret < 0 then ret else 0, n\<lparr>oram_pool := Some pool\<rparr>)))"

section \<open>The mutex\<close>

text \<open>\<open>spin_lock(&nna_job_lock)\<close>: the lock is only ever found held when an earlier call
  returned without releasing it.\<close>

definition nna_spin_lock :: "'p nna_state \<Rightarrow> fault + 'p nna_state" where
  "nna_spin_lock n = (if nna_job_lock n then Inl Spins else Inr (n\<lparr>nna_job_lock := True\<rparr>))"

definition nna_spin_unlock :: "'p nna_state \<Rightarrow> 'p nna_state" where
  "nna_spin_unlock n = n\<lparr>nna_job_lock := False\<rparr>"

definition jz_nna_lock :: "env \<Rightarrow> user_name \<Rightarrow> 'p nna_state \<Rightarrow> fault + (int \<times> 'p nna_state)" where
  "jz_nna_lock ev name n =
     (if nna_mutex n then Inl Sleeps
      else
        let n = n\<lparr>nna_mutex := True\<rparr> in
        if \<not> kmalloc_ok ev then Inr (- EFAULT, n)
        else
          let exec = \<lparr>n_pid = cur_pid ev, n_submit_time = t_enter ev, n_start_time = t_later ev,
                      n_name = JZ_AIP_V20_SET_JOB_NAME name\<rparr>
          in res_bind (nna_spin_lock n) (\<lambda>n.
             Inr (0, nna_spin_unlock (n\<lparr>nna_seqno := nna_seqno n + 1, nna_pid := n_pid exec,
               nna_job_list := nna_job_list n @ [exec]\<rparr>))))"

text \<open>Unlinking the first job of a process from the list.\<close>

fun nna_take :: "int \<Rightarrow> nna_exec_info list \<Rightarrow> (nna_exec_info \<times> nna_exec_info list) option" where
  "nna_take pid [] = None"
| "nna_take pid (e # es) = (if n_pid e \<noteq> pid then map_option (\<lambda>(x, r). (x, e # r)) (nna_take pid es)
     else Some (e, es))"

definition jz_nna_unlock :: "env \<Rightarrow> bool \<Rightarrow> 'p nna_state \<Rightarrow> fault + (int \<times> 'p nna_state)" where
  "jz_nna_unlock ev force n =
     (if \<not> force \<and> nna_pid n \<noteq> cur_pid ev then Inr (- EFAULT, n)
      else res_bind (nna_spin_lock n) (\<lambda>n.
        if nna_mutex n then
          (case nna_take (nna_pid n) (nna_job_list n) of
             None \<Rightarrow> Inr (0, nna_spin_unlock n)
           | Some (_, rest) \<Rightarrow> Inr (0, nna_spin_unlock (n\<lparr>nna_job_list := rest, nna_mutex := False\<rparr>)))
        else if \<not> force then Inr (- EFAULT, n)
        else Inr (0, nna_spin_unlock n)))"

section \<open>The ioctl\<close>

datatype nna_arg = NNA_OP_STATUS | NNA_OP_MUTEX_LOCK user_name | NNA_OP_MUTEX_TRYLOCK user_name
  | NNA_OP_MUTEX_UNLOCK bool | NNA_OP_ORAM_ALLOC u32 | NNA_OP_ORAM_FREE int | NNA_OP_other u32

record nna_status =
  st_total_l2c_size :: u32
  st_curr_l2c_size :: u32
  st_oram_size :: u32
  st_oram_pbase :: u32
  st_dma_size :: u32
  st_dma_pbase :: u32
  st_dma_desram_size :: u32
  st_dma_desram_pbase :: u32

text \<open>What the call writes back to its argument.\<close>

datatype nna_out = Out_nothing | Out_status nna_status | Out_oram int u32

text \<open>\<open>round_up(x, 64)\<close> of the kernel.\<close>

definition round_up_64 :: "u32 \<Rightarrow> u32" where
  "round_up_64 x = ((x - 1) OR 0x3f) + 1"

definition nna_oram_alloc :: "'p gen_pool \<Rightarrow> env \<Rightarrow> (oram_info idr \<Rightarrow> int) \<Rightarrow> u32 \<Rightarrow> 'p nna_state \<Rightarrow>
    int \<times> nna_out \<times> 'p nna_state" where
  "nna_oram_alloc gp ev alloc req n =
     (let size = round_up_64 req in
      case oram_pool n of
        None \<Rightarrow> (- EFAULT, Out_nothing, n)
      | Some p \<Rightarrow>
          if gp_avail gp p < size then (- EFAULT, Out_nothing, n)
          else if \<not> kmalloc_ok ev then (- EFAULT, Out_nothing, n)
          else case gp_dma_alloc gp size p of
            None \<Rightarrow> (- EFAULT, Out_nothing, n)
          | Some (va, pa, p) \<Rightarrow>
              let oram_info = \<lparr>o_pid = cur_pid ev, o_kvaddr = va, o_size = size\<rparr>;
                  handle = alloc (nna_oram_handles n)
              in if handle < 0
                 then (0, Out_oram handle pa, n\<lparr>oram_pool := Some (gp_free gp va size p)\<rparr>)
                 else (0, Out_oram handle pa, n\<lparr>oram_pool := Some p,
                        nna_oram_handles := idr_insert handle oram_info (nna_oram_handles n)\<rparr>))"

text \<open>The record of the freed block is unlinked and never freed itself.\<close>

definition nna_oram_free :: "'p gen_pool \<Rightarrow> int \<Rightarrow> 'p nna_state \<Rightarrow> int \<times> 'p nna_state" where
  "nna_oram_free gp handle n = (case oram_pool n of
     None \<Rightarrow> (0, n)
   | Some p \<Rightarrow>
       if gp_avail gp p < gp_size gp p then
         (case idr_find (nna_oram_handles n) handle of
            None \<Rightarrow> (0, n)
          | Some o' \<Rightarrow> (0, n\<lparr>oram_pool := Some (gp_free gp (o_kvaddr o') (o_size o') p),
              nna_oram_handles := idr_remove handle (nna_oram_handles n),
              nna_orphans := nna_orphans n + 1\<rparr>))
       else (0, n))"

definition nna_get_status :: "'p nna_state \<Rightarrow> nna_status" where
  "nna_get_status n = \<lparr>st_total_l2c_size = total_l2c_size n, st_curr_l2c_size = curr_l2c_size n,
     st_oram_size = oram_size n, st_oram_pbase = oram_pbase n, st_dma_size = dma_size n,
     st_dma_pbase = dma_pbase n, st_dma_desram_size = dma_desram_size n,
     st_dma_desram_pbase = dma_desram_pbase n\<rparr>"

definition jz_nna_v20_op :: "'p gen_pool \<Rightarrow> env \<Rightarrow> (oram_info idr \<Rightarrow> int) \<Rightarrow> nna_arg \<Rightarrow> 'p nna_state \<Rightarrow>
    fault + (int \<times> nna_out \<times> 'p nna_state)" where
  "jz_nna_v20_op gp ev alloc arg n = (case arg of
     NNA_OP_MUTEX_LOCK name \<Rightarrow>
       res_bind (jz_nna_lock ev name n) (\<lambda>(r, n). Inr (r, Out_nothing, n))
   | NNA_OP_MUTEX_TRYLOCK name \<Rightarrow>
       if nna_mutex n then Inr (- EFAULT, Out_nothing, n)
       else res_bind (jz_nna_lock ev name (n\<lparr>nna_mutex := True\<rparr>)) (\<lambda>(r, n). Inr (r, Out_nothing, n))
   | NNA_OP_MUTEX_UNLOCK force \<Rightarrow>
       res_bind (jz_nna_unlock ev force n) (\<lambda>(r, n). Inr (r, Out_nothing, n))
   | NNA_OP_STATUS \<Rightarrow> Inr (0, Out_status (nna_get_status n), n)
   | NNA_OP_ORAM_ALLOC req \<Rightarrow> Inr (nna_oram_alloc gp ev alloc req n)
   | NNA_OP_ORAM_FREE handle \<Rightarrow> (let (r, n) = nna_oram_free gp handle n in Inr (r, Out_nothing, n))
   | NNA_OP_other _ \<Rightarrow> Inr (- EFAULT, Out_nothing, n))"

section \<open>Release\<close>

fun nna_oram_release :: "'p gen_pool \<Rightarrow> int \<Rightarrow> oram_info idr \<Rightarrow> 'p nna_state \<Rightarrow> fault + 'p nna_state" where
  "nna_oram_release gp pid [] n = Inr n"
| "nna_oram_release gp pid ((i, o') # es) n =
     (if o_pid o' = pid then
        (case oram_pool n of
           None \<Rightarrow> Inl Null_deref
         | Some p \<Rightarrow> nna_oram_release gp pid es
             (n\<lparr>oram_pool := Some (gp_free gp (o_kvaddr o') (o_size o') p),
                nna_oram_handles := idr_remove i (nna_oram_handles n),
                nna_orphans := nna_orphans n + 1\<rparr>))
      else nna_oram_release gp pid es n)"

definition jz_nna_v20_release :: "'p gen_pool \<Rightarrow> int \<Rightarrow> 'p nna_state \<Rightarrow> fault + 'p nna_state" where
  "jz_nna_v20_release gp pid n =
     res_bind (nna_spin_lock n) (\<lambda>n.
     let n = nna_spin_unlock (case nna_take pid (nna_job_list n) of
               None \<Rightarrow> n
             | Some (_, rest) \<Rightarrow> n\<lparr>nna_job_list := rest, nna_mutex := False,
                 nna_orphans := nna_orphans n + 1\<rparr>)
     in nna_oram_release gp pid (nna_oram_handles n) n)"

section \<open>The mutex's invariant\<close>

text \<open>A job in the list means that the mutex is held, by the process whose number
  \<open>nna_pid\<close> is; there is at most one.\<close>

definition nna_mutex_inv :: "'p nna_state \<Rightarrow> bool" where
  "nna_mutex_inv n \<longleftrightarrow> (case nna_job_list n of [] \<Rightarrow> True
     | e # es \<Rightarrow> es = [] \<and> nna_mutex n \<and> n_pid e = nna_pid n)"

lemma nna_mutex_inv_cong:
  "nna_job_list n' = nna_job_list n \<Longrightarrow> nna_mutex n' = nna_mutex n \<Longrightarrow> nna_pid n' = nna_pid n \<Longrightarrow>
   nna_mutex_inv n' \<longleftrightarrow> nna_mutex_inv n"
  by (simp add: nna_mutex_inv_def split: list.split)

lemma nna_mutex_inv_free: "nna_mutex_inv n \<Longrightarrow> \<not> nna_mutex n \<Longrightarrow> nna_job_list n = []"
  by (simp add: nna_mutex_inv_def split: list.splits)

lemma nna_mutex_inv_cases:
  assumes "nna_mutex_inv n"
  obtains "nna_job_list n = []" | e where "nna_job_list n = [e]" "nna_mutex n" "n_pid e = nna_pid n"
  using assms by (cases "nna_job_list n") (auto simp: nna_mutex_inv_def)

lemma jz_nna_lock_inv:
  assumes "nna_mutex_inv n" "jz_nna_lock ev name n = Inr (r, n')"
  shows "nna_mutex_inv n'"
  using assms nna_mutex_inv_free [OF assms(1)]
  by (auto simp: jz_nna_lock_def Let_def nna_spin_lock_def nna_spin_unlock_def nna_mutex_inv_def
      split: if_splits)

lemma jz_nna_unlock_inv:
  assumes "nna_mutex_inv n" "jz_nna_unlock ev force n = Inr (r, n')"
  shows "nna_mutex_inv n'"
  using assms(1)
proof (cases rule: nna_mutex_inv_cases)
  case 1
  with assms(2) show ?thesis
    by (auto simp: jz_nna_unlock_def nna_spin_lock_def nna_spin_unlock_def nna_mutex_inv_def
        res_bind_Inr_iff split: if_splits)
next
  case (2 e)
  with assms(2) show ?thesis
    by (auto simp: jz_nna_unlock_def nna_spin_lock_def nna_spin_unlock_def nna_mutex_inv_def
        res_bind_Inr_iff split: if_splits)
qed

lemma nna_oram_alloc_mutex:
  assumes "nna_oram_alloc gp ev alloc req n = (r, out, n')"
  shows "nna_job_list n' = nna_job_list n" "nna_mutex n' = nna_mutex n" "nna_pid n' = nna_pid n"
    "nna_job_lock n' = nna_job_lock n"
  using assms by (auto simp: nna_oram_alloc_def Let_def split: if_splits option.splits)

lemma nna_oram_free_mutex:
  assumes "nna_oram_free gp h n = (r, n')"
  shows "nna_job_list n' = nna_job_list n" "nna_mutex n' = nna_mutex n" "nna_pid n' = nna_pid n"
    "nna_job_lock n' = nna_job_lock n"
  using assms by (auto simp: nna_oram_free_def Let_def split: if_splits option.splits)

lemma nna_oram_release_mutex:
  assumes "nna_oram_release gp pid es n = Inr n'"
  shows "nna_job_list n' = nna_job_list n \<and> nna_mutex n' = nna_mutex n \<and> nna_pid n' = nna_pid n \<and>
    nna_job_lock n' = nna_job_lock n"
  using assms
proof (induction es arbitrary: n)
  case (Cons e es)
  obtain i o' where "e = (i, o')" by (cases e)
  with Cons show ?case by (fastforce split: if_splits option.splits)
qed simp

lemma nna_op_mutex_inv:
  assumes "nna_mutex_inv n" "jz_nna_v20_op gp ev alloc arg n = Inr (r, out, n')"
  shows "nna_mutex_inv n'"
proof (cases arg)
  case (NNA_OP_MUTEX_LOCK name)
  with assms show ?thesis by (auto simp: jz_nna_v20_op_def res_bind_Inr_iff intro: jz_nna_lock_inv)
next
  case (NNA_OP_MUTEX_TRYLOCK name)
  with assms show ?thesis by (auto simp: jz_nna_v20_op_def jz_nna_lock_def split: if_splits)
next
  case (NNA_OP_MUTEX_UNLOCK force)
  with assms show ?thesis by (auto simp: jz_nna_v20_op_def res_bind_Inr_iff intro: jz_nna_unlock_inv)
next
  case (NNA_OP_ORAM_ALLOC req)
  then have "nna_oram_alloc gp ev alloc req n = (r, out, n')"
    using assms(2) by (simp add: jz_nna_v20_op_def)
  from nna_mutex_inv_cong [OF nna_oram_alloc_mutex(1-3) [OF this]] assms(1) show ?thesis by simp
next
  case (NNA_OP_ORAM_FREE h)
  obtain r1 n1 where "nna_oram_free gp h n = (r1, n1)" by (cases "nna_oram_free gp h n")
  with NNA_OP_ORAM_FREE assms nna_mutex_inv_cong [OF nna_oram_free_mutex(1-3) [OF this]] show ?thesis
    by (simp add: jz_nna_v20_op_def)
qed (use assms in \<open>auto simp: jz_nna_v20_op_def\<close>)

lemma nna_release_mutex_inv:
  assumes "nna_mutex_inv n" "jz_nna_v20_release gp pid n = Inr n'"
  shows "nna_mutex_inv n'"
  using assms(1)
proof (cases rule: nna_mutex_inv_cases)
  case 1
  with assms(2) show ?thesis
    by (auto simp: jz_nna_v20_release_def nna_spin_lock_def nna_spin_unlock_def nna_mutex_inv_def
        res_bind_Inr_iff Let_def split: if_splits dest!: nna_oram_release_mutex)
next
  case (2 e)
  with assms(2) show ?thesis
    by (auto simp: jz_nna_v20_release_def nna_spin_lock_def nna_spin_unlock_def nna_mutex_inv_def
        res_bind_Inr_iff Let_def split: if_splits dest!: nna_oram_release_mutex)
qed

section \<open>Accounting of the on-chip RAM\<close>

definition nna_used :: "(u32 \<Rightarrow> nat) \<Rightarrow> oram_info idr \<Rightarrow> nat" where
  "nna_used grain t = sum_list (map (\<lambda>(_, o'). grain (o_size o')) t)"

definition nna_acct :: "'p gen_pool \<Rightarrow> (u32 \<Rightarrow> nat) \<Rightarrow> 'p nna_state \<Rightarrow> bool" where
  "nna_acct gp grain n \<longleftrightarrow> idr_wf (nna_oram_handles n) \<and> (case oram_pool n of
     None \<Rightarrow> nna_oram_handles n = []
   | Some p \<Rightarrow> unat (gp_avail gp p) + nna_used grain (nna_oram_handles n) = unat (gp_size gp p))"

lemma nna_used_remove:
  "idr_wf t \<Longrightarrow> idr_find t i = Some o' \<Longrightarrow>
   nna_used grain t = grain (o_size o') + nna_used grain (idr_remove i t)"
proof (induction t)
  case (Cons a t)
  obtain j x where a: "a = (j, x)" by (cases a)
  show ?case
  proof (cases "j = i")
    case True
    with Cons.prems a have "idr_find t i = None"
      by (simp add: idr_wf_def idr_find_def map_of_eq_None_iff)
    then show ?thesis using a True Cons.prems idr_remove_unknown [of t i]
      by (simp add: idr_remove_def idr_find_def nna_used_def)
  next
    case False
    then show ?thesis using Cons a by (simp add: idr_find_def idr_remove_def idr_wf_def nna_used_def)
  qed
qed (simp add: idr_find_def)

lemma nna_acct_free:
  assumes "gen_pool_ok gp grain" "nna_acct gp grain n" "oram_pool n = Some p"
    "idr_find (nna_oram_handles n) i = Some o'"
  shows "nna_acct gp grain (n\<lparr>oram_pool := Some (gp_free gp va (o_size o') p),
    nna_oram_handles := idr_remove i (nna_oram_handles n), nna_orphans := k\<rparr>)"
proof -
  have used: "nna_used grain (nna_oram_handles n) =
      grain (o_size o') + nna_used grain (idr_remove i (nna_oram_handles n))"
    using assms(2,4) by (intro nna_used_remove) (simp_all add: nna_acct_def)
  then have le: "unat (gp_avail gp p) + grain (o_size o') \<le> unat (gp_size gp p)"
    using assms(2,3) by (simp add: nna_acct_def)
  have "unat (gp_avail gp (gp_free gp va (o_size o') p)) = unat (gp_avail gp p) + grain (o_size o')"
    "gp_size gp (gp_free gp va (o_size o') p) = gp_size gp p"
    using assms(1) le unfolding gen_pool_ok_def by blast+
  then show ?thesis using assms(2,3) used by (simp add: nna_acct_def idr_wf_remove)
qed

lemma nna_acct_cong:
  "oram_pool n' = oram_pool n \<Longrightarrow> nna_oram_handles n' = nna_oram_handles n \<Longrightarrow>
   nna_acct gp grain n' \<longleftrightarrow> nna_acct gp grain n"
  by (cases "oram_pool n") (simp_all add: nna_acct_def)

lemma nna_oram_alloc_acct:
  assumes "gen_pool_ok gp grain" "idr_alloc_ok alloc" "nna_acct gp grain n"
    "nna_oram_alloc gp ev alloc req n = (r, out, n')"
  shows "nna_acct gp grain n'"
proof (cases "n' = n")
  case False
  with assms(4) obtain p va pa p' where p: "oram_pool n = Some p"
    and al: "gp_dma_alloc gp (round_up_64 req) p = Some (va, pa, p')"
    and n': "n' = (if alloc (nna_oram_handles n) < 0
        then n\<lparr>oram_pool := Some (gp_free gp va (round_up_64 req) p')\<rparr>
        else n\<lparr>oram_pool := Some p', nna_oram_handles := idr_insert (alloc (nna_oram_handles n))
          \<lparr>o_pid = cur_pid ev, o_kvaddr = va, o_size = round_up_64 req\<rparr> (nna_oram_handles n)\<rparr>)"
    by (auto simp: nna_oram_alloc_def Let_def split: if_splits option.splits)
  have av: "unat (gp_avail gp p') + grain (round_up_64 req) = unat (gp_avail gp p)"
    "gp_size gp p' = gp_size gp p"
    using assms(1) al unfolding gen_pool_ok_def by blast+
  have acct: "unat (gp_avail gp p) + nna_used grain (nna_oram_handles n) = unat (gp_size gp p)"
    "idr_wf (nna_oram_handles n)" using assms(3) p by (simp_all add: nna_acct_def)
  then have le: "unat (gp_avail gp p') + grain (round_up_64 req) \<le> unat (gp_size gp p')"
    using av by simp
  then have given_back: "unat (gp_avail gp (gp_free gp va (round_up_64 req) p')) =
      unat (gp_avail gp p') + grain (round_up_64 req)"
    "gp_size gp (gp_free gp va (round_up_64 req) p') = gp_size gp p'"
    using assms(1) unfolding gen_pool_ok_def by blast+
  show ?thesis
  proof (cases "alloc (nna_oram_handles n) < 0")
    case True
    then show ?thesis using n' acct av given_back p by (simp add: nna_acct_def)
  next
    case False
    then have "1 \<le> alloc (nna_oram_handles n)"
      "idr_find (nna_oram_handles n) (alloc (nna_oram_handles n)) = None"
      using assms(2) by (auto simp: idr_alloc_ok_def)
    with False show ?thesis using n' acct av
      by (simp add: nna_acct_def idr_wf_insert) (simp add: nna_used_def idr_insert_def)
  qed
qed (use assms(3) in simp)

lemma nna_oram_free_acct:
  assumes "gen_pool_ok gp grain" "nna_acct gp grain n" "nna_oram_free gp h n = (r, n')"
  shows "nna_acct gp grain n'"
  using assms nna_acct_free [OF assms(1,2)]
  by (auto simp: nna_oram_free_def split: option.splits if_splits)

lemma nna_oram_release_acct:
  assumes "gen_pool_ok gp grain" "nna_acct gp grain n" "distinct (map fst es)"
    "set es \<subseteq> set (nna_oram_handles n)"
  shows "\<exists>n'. nna_oram_release gp pid es n = Inr n' \<and> nna_acct gp grain n' \<and>
    nna_oram_handles n' = filter (\<lambda>(i, o'). \<not> ((i, o') \<in> set es \<and> o_pid o' = pid)) (nna_oram_handles n)"
  using assms(2-4)
proof (induction es arbitrary: n)
  case (Cons e es)
  obtain i o' where e: "e = (i, o')" by (cases e)
  have wf: "idr_wf (nna_oram_handles n)" "distinct (map fst (nna_oram_handles n))"
    using Cons.prems(1) by (simp_all add: nna_acct_def idr_wf_def)
  show ?case
  proof (cases "o_pid o' = pid")
    case True
    have mem: "(i, o') \<in> set (nna_oram_handles n)" using Cons.prems(3) e by simp
    then have find: "idr_find (nna_oram_handles n) i = Some o'"
      using wf(2) by (simp add: idr_find_def)
    obtain p where p: "oram_pool n = Some p"
      using Cons.prems(1) mem by (auto simp: nna_acct_def split: option.splits)
    let ?n1 = "n\<lparr>oram_pool := Some (gp_free gp (o_kvaddr o') (o_size o') p),
      nna_oram_handles := idr_remove i (nna_oram_handles n), nna_orphans := nna_orphans n + 1\<rparr>"
    have acct1: "nna_acct gp grain ?n1" by (rule nna_acct_free [OF assms(1) Cons.prems(1) p find])
    have "set es \<subseteq> set (nna_oram_handles ?n1)"
      using Cons.prems(2,3) e by (force simp: idr_remove_def)
    with Cons.IH [OF acct1] Cons.prems(2) obtain n' where n': "nna_oram_release gp pid es ?n1 = Inr n'"
      "nna_acct gp grain n'" "nna_oram_handles n' =
        filter (\<lambda>(i, o'). \<not> ((i, o') \<in> set es \<and> o_pid o' = pid)) (idr_remove i (nna_oram_handles n))"
      by auto
    have only: "j = i \<Longrightarrow> x = o'" if "(j, x) \<in> set (nna_oram_handles n)" for j x
      using that mem wf(2) by (auto dest: eq_key_imp_eq_value)
    have "nna_oram_handles n' =
        filter (\<lambda>(i, o'). \<not> ((i, o') \<in> set (e # es) \<and> o_pid o' = pid)) (nna_oram_handles n)"
      unfolding n'(3) idr_remove_def filter_filter using e True only by (auto intro!: filter_cong)
    with n' e True p show ?thesis by simp
  next
    case False
    with Cons.IH [OF Cons.prems(1)] Cons.prems(2,3) obtain n' where
      n': "nna_oram_release gp pid es n = Inr n'" "nna_acct gp grain n'" "nna_oram_handles n' =
        filter (\<lambda>(i, o'). \<not> ((i, o') \<in> set es \<and> o_pid o' = pid)) (nna_oram_handles n)"
      by auto
    have "nna_oram_handles n' =
        filter (\<lambda>(i, o'). \<not> ((i, o') \<in> set (e # es) \<and> o_pid o' = pid)) (nna_oram_handles n)"
      unfolding n'(3) using e False by (auto intro!: filter_cong)
    with n' e False show ?thesis by simp
  qed
qed simp

lemma nna_op_acct:
  assumes "gen_pool_ok gp grain" "idr_alloc_ok alloc" "nna_acct gp grain n"
    "jz_nna_v20_op gp ev alloc arg n = Inr (r, out, n')"
  shows "nna_acct gp grain n'"
proof (cases arg)
  case (NNA_OP_MUTEX_LOCK name)
  with assms(3,4) show ?thesis
    by (auto simp: jz_nna_v20_op_def jz_nna_lock_def nna_spin_lock_def nna_spin_unlock_def Let_def
        res_bind_Inr_iff split: if_splits cong: nna_acct_cong)
next
  case (NNA_OP_MUTEX_TRYLOCK name)
  with assms(3,4) show ?thesis by (auto simp: jz_nna_v20_op_def jz_nna_lock_def split: if_splits)
next
  case (NNA_OP_MUTEX_UNLOCK force)
  with assms(3,4) show ?thesis
    by (auto simp: jz_nna_v20_op_def jz_nna_unlock_def nna_spin_lock_def nna_spin_unlock_def
        res_bind_Inr_iff split: if_splits option.splits cong: nna_acct_cong)
next
  case (NNA_OP_ORAM_ALLOC req)
  then show ?thesis
    using nna_oram_alloc_acct [OF assms(1-3), of ev req r out n'] assms(4) by (simp add: jz_nna_v20_op_def)
next
  case (NNA_OP_ORAM_FREE h)
  then show ?thesis
    using nna_oram_free_acct [OF assms(1,3), of h r n'] assms(4)
    by (auto simp: jz_nna_v20_op_def split: prod.splits)
qed (use assms in \<open>auto simp: jz_nna_v20_op_def\<close>)

lemma nna_release_acct:
  assumes "gen_pool_ok gp grain" "nna_acct gp grain n" "\<not> nna_job_lock n"
  shows "\<exists>n'. jz_nna_v20_release gp pid n = Inr n' \<and> nna_acct gp grain n' \<and> \<not> nna_job_lock n' \<and>
    nna_oram_handles n' = filter (\<lambda>(_, o'). o_pid o' \<noteq> pid) (nna_oram_handles n)"
proof -
  define n0 where "n0 = n\<lparr>nna_job_lock := True\<rparr>"
  define n1 where "n1 = nna_spin_unlock (case nna_take pid (nna_job_list n0) of
      None \<Rightarrow> n0
    | Some (_, rest) \<Rightarrow> n0\<lparr>nna_job_list := rest, nna_mutex := False,
        nna_orphans := nna_orphans n0 + 1\<rparr>)"
  have n1: "oram_pool n1 = oram_pool n" "nna_oram_handles n1 = nna_oram_handles n" "\<not> nna_job_lock n1"
    by (simp_all add: n1_def n0_def nna_spin_unlock_def split: option.split prod.split)
  then have acct1: "nna_acct gp grain n1" using assms(2) nna_acct_cong by blast
  have "distinct (map fst (nna_oram_handles n))" using assms(2) by (simp add: nna_acct_def idr_wf_def)
  with nna_oram_release_acct [OF assms(1) acct1, of "nna_oram_handles n1" pid] n1 obtain n' where
    n': "nna_oram_release gp pid (nna_oram_handles n1) n1 = Inr n'" "nna_acct gp grain n'"
    "nna_oram_handles n' = filter (\<lambda>(i, o'). \<not> ((i, o') \<in> set (nna_oram_handles n) \<and> o_pid o' = pid))
      (nna_oram_handles n)" by auto
  have "jz_nna_v20_release gp pid n = Inr n'"
    using n'(1) assms(3)
    by (simp only: jz_nna_v20_release_def nna_spin_lock_def n1_def n0_def Let_def res_bind.simps if_False)
  moreover have "nna_oram_handles n' = filter (\<lambda>(_, o'). o_pid o' \<noteq> pid) (nna_oram_handles n)"
    unfolding n'(3) by (auto intro!: filter_cong)
  moreover have "\<not> nna_job_lock n'" using nna_oram_release_mutex [OF n'(1)] n1 by simp
  ultimately show ?thesis using n'(2) by blast
qed

section \<open>Sequences of calls\<close>

datatype nna_call = Nna_ioctl env nna_arg | Nna_release int

fun run_nna :: "'p gen_pool \<Rightarrow> (oram_info idr \<Rightarrow> int) \<Rightarrow> nna_call list \<Rightarrow> 'p nna_state \<Rightarrow>
    fault + 'p nna_state" where
  "run_nna gp alloc [] n = Inr n"
| "run_nna gp alloc (Nna_ioctl ev arg # cs) n =
     res_bind (jz_nna_v20_op gp ev alloc arg n) (\<lambda>(_, _, n). run_nna gp alloc cs n)"
| "run_nna gp alloc (Nna_release pid # cs) n =
     res_bind (jz_nna_v20_release gp pid n) (run_nna gp alloc cs)"

lemma run_nna_mutex_inv:
  "nna_mutex_inv n \<Longrightarrow> run_nna gp alloc cs n = Inr n' \<Longrightarrow> nna_mutex_inv n'"
proof (induction cs arbitrary: n)
  case (Cons c cs)
  then show ?case
    by (cases c) (auto simp: res_bind_Inr_iff dest: nna_op_mutex_inv nna_release_mutex_inv)
qed simp

lemma nna_release_acct_Inr:
  assumes "gen_pool_ok gp grain" "nna_acct gp grain n" "jz_nna_v20_release gp pid n = Inr n'"
  shows "nna_acct gp grain n'"
proof -
  have "\<not> nna_job_lock n"
    using assms(3) by (auto simp: jz_nna_v20_release_def nna_spin_lock_def)
  with nna_release_acct [OF assms(1,2), of pid] assms(3) show ?thesis by auto
qed

lemma run_nna_acct:
  assumes "gen_pool_ok gp grain" "idr_alloc_ok alloc"
  shows "nna_acct gp grain n \<Longrightarrow> run_nna gp alloc cs n = Inr n' \<Longrightarrow> nna_acct gp grain n'"
proof (induction cs arbitrary: n)
  case (Cons c cs)
  then show ?case
    by (cases c) (auto simp: res_bind_Inr_iff dest: nna_op_acct [OF assms] nna_release_acct_Inr [OF assms(1)])
qed simp

section \<open>Properties\<close>

text \<open>A pool for the witnesses: the free bytes and the size, granules of one byte.\<close>

definition sample_pool :: "(u32 \<times> u32) gen_pool" where
  "sample_pool = \<lparr>gp_avail = fst, gp_size = snd,
     gp_dma_alloc = (\<lambda>n (a, s). if n \<le> a then Some (0x90000000 + a, 0x12600000 + a, (a - n, s)) else None),
     gp_free = (\<lambda>va n (a, s). (a + n, s)),
     gp_add_virt = (\<lambda>va pa n (a, s). (0, (a + n, s + n)))\<rparr>"

lemma sample_pool_ok: "gen_pool_ok sample_pool unat"
proof -
  have "unat (a - n) + unat n = unat a" if "n \<le> a" for a n :: u32
    using that by (simp add: unat_sub word_le_nat_alt)
  moreover have "unat (a + n) = unat a + unat n" if "unat a + unat n \<le> unat s" for a n s :: u32
  proof -
    have "unat s < 2 ^ 32" using unsigned_less [of s] by simp
    then have "unat a + unat n < 2 ^ 32" using that by (rule le_less_trans [rotated])
    then show ?thesis unfolding unat_word_ariths(1) by simp
  qed
  ultimately show ?thesis
    by (auto simp: gen_pool_ok_def sample_pool_def split: prod.splits if_splits)
qed

definition sample_nna_pool :: "(u32 \<times> u32) nna_state" where
  "sample_nna_pool = \<lparr>nna_seqno = 0, nna_job_list = [], nna_oram_handles = [], nna_mutex = False,
     nna_job_lock = False, nna_pid = 0, oram_pool = Some (0x60000, 0x60000), total_l2c_size = 0x80000,
     curr_l2c_size = 0x20000, oram_size = 0x60000, oram_pbase = JZ_NNA_ORAM_IOBASE, dma_size = 32,
     dma_pbase = 0, dma_desram_size = 0, dma_desram_pbase = 0, nna_orphans = 0\<rparr>"

lemma sample_nna_acct: "nna_acct sample_pool unat sample_nna_pool"
  by (simp add: nna_acct_def sample_nna_pool_def sample_pool_def nna_used_def)

text \<open>The cache configuration fixes the on-chip RAM: after a successful start the L2
  cache and the RAM together are the 512 kB there are, the RAM's window ends where
  the memory ends, and there is a pool exactly when there is RAM left.\<close>

theorem nna_core_init_sizes:
  assumes "jz_nna_v20_core_init gp mscr create virt n = (0, n')"
    "case create of Inl err \<Rightarrow> err < 0 | Inr p \<Rightarrow> True"
  shows "unat (curr_l2c_size n') + unat (oram_size n') = 512 * 1024 \<and>
    (oram_pool n' = None \<longleftrightarrow> oram_size n' = 0) \<and>
    (oram_size n' \<noteq> 0 \<longrightarrow>
      oram_pbase n' + curr_l2c_size n' + oram_size n' = JZ_NNA_ORAM_IOBASE + 512 * 1024) \<and>
    nna_job_list n' = [] \<and> \<not> nna_mutex n' \<and> nna_oram_handles n' = []"
proof -
  have "PTR_ERR virt \<noteq> 0" if "IS_ERR virt"
    using sint_neg_u32 [of virt] that by (auto simp: IS_ERR_def PTR_ERR_def word_le_nat_alt)
  with assms show ?thesis
    by (auto simp: jz_nna_v20_core_init_def Let_def l2c_size_of_cfg_def
        split: if_splits sum.splits prod.splits)
qed

theorem nna_core_init_sizes_witness:
  "\<exists>n'. jz_nna_v20_core_init sample_pool 0x800 (Inr (0, 0)) 0x90000000 sample_nna_pool = (0, n') \<and>
     oram_size n' = 256 * 1024 \<and> unat (curr_l2c_size n') + unat (oram_size n') = 512 * 1024"
proof -
  obtain n' where n': "jz_nna_v20_core_init sample_pool 0x800 (Inr (0, 0)) 0x90000000 sample_nna_pool = (0, n')"
    "oram_size n' = 256 * 1024"
    by (simp add: jz_nna_v20_core_init_def Let_def l2c_size_of_cfg_def IS_ERR_def sample_pool_def)
  from nna_core_init_sizes [OF n'(1)] n' show ?thesis by auto
qed

text \<open>Mutual exclusion: from a successful start on, whatever is called and in
  whatever order, at most one job is registered; while one is, the mutex is held
  and \<open>nna_pid\<close> is its process.\<close>

theorem nna_mutual_exclusion:
  assumes "jz_nna_v20_core_init gp mscr create virt n0 = (0, n)"
    "case create of Inl err \<Rightarrow> err < 0 | Inr p \<Rightarrow> True" "run_nna gp alloc cs n = Inr n'"
  shows "nna_mutex_inv n'"
proof -
  have "PTR_ERR virt \<noteq> 0" if "IS_ERR virt"
    using sint_neg_u32 [of virt] that by (auto simp: IS_ERR_def PTR_ERR_def word_le_nat_alt)
  with assms(1,2) have "nna_mutex_inv n"
    by (auto simp: jz_nna_v20_core_init_def Let_def nna_mutex_inv_def split: option.splits if_splits
        sum.splits prod.splits)
  then show ?thesis using assms(3) by (rule run_nna_mutex_inv)
qed

lemma sample_nna_started:
  "jz_nna_v20_core_init sample_pool 0x400 (Inr (0, 0)) 0x90000000 sample_nna_pool = (0, sample_nna_pool
     \<lparr>dma_pbase := JZ_NNA_DMA_IOBASE, dma_desram_size := JZ_NNA_DMA_DESRAM_IOSIZE,
      dma_desram_pbase := JZ_NNA_DMA_DESRAM_IOBASE\<rparr>)"
  by (simp add: jz_nna_v20_core_init_def Let_def l2c_size_of_cfg_def IS_ERR_def sample_pool_def
      sample_nna_pool_def JZ_NNA_DMA_IOSIZE_def)

theorem nna_mutual_exclusion_witness:
  "\<exists>n n'. jz_nna_v20_core_init sample_pool 0x400 (Inr (0, 0)) 0x90000000 sample_nna_pool = (0, n) \<and>
     run_nna sample_pool (\<lambda>_. 1) [Nna_ioctl sample_env (NNA_OP_MUTEX_LOCK Null_name),
       Nna_ioctl sample_env (NNA_OP_ORAM_ALLOC 100), Nna_release 7] n = Inr n' \<and> nna_mutex_inv n'"
proof -
  obtain n' where "run_nna sample_pool (\<lambda>_. 1) [Nna_ioctl sample_env (NNA_OP_MUTEX_LOCK Null_name),
       Nna_ioctl sample_env (NNA_OP_ORAM_ALLOC 100), Nna_release 7] (sample_nna_pool
     \<lparr>dma_pbase := JZ_NNA_DMA_IOBASE, dma_desram_size := JZ_NNA_DMA_DESRAM_IOSIZE,
      dma_desram_pbase := JZ_NNA_DMA_DESRAM_IOBASE\<rparr>) = Inr n'"
    by (simp add: jz_nna_v20_op_def jz_nna_lock_def Let_def nna_spin_lock_def nna_spin_unlock_def
        sample_nna_pool_def sample_env_def nna_oram_alloc_def round_up_64_def sample_pool_def
        jz_nna_v20_release_def idr_insert_def)
  with nna_mutual_exclusion [OF sample_nna_started _ this] sample_nna_started show ?thesis by auto
qed

text \<open>A lock and its unlock: on a free accelerator the lock succeeds; until the
  unlock another process's lock sleeps, its trylock and its unlock fail and change
  nothing; the owner's unlock frees the mutex and restores everything but the
  sequence number and the owner's name.\<close>

theorem nna_lock_unlock:
  assumes "\<not> nna_mutex n" "\<not> nna_job_lock n" "nna_job_list n = []" "kmalloc_ok ev"
    "cur_pid ev' \<noteq> cur_pid ev"
  shows "\<exists>n1. jz_nna_v20_op gp ev alloc (NNA_OP_MUTEX_LOCK name) n = Inr (0, Out_nothing, n1) \<and>
    jz_nna_v20_op gp ev' alloc (NNA_OP_MUTEX_LOCK name') n1 = Inl Sleeps \<and>
    jz_nna_v20_op gp ev' alloc (NNA_OP_MUTEX_TRYLOCK name') n1 = Inr (- EFAULT, Out_nothing, n1) \<and>
    jz_nna_v20_op gp ev' alloc (NNA_OP_MUTEX_UNLOCK False) n1 = Inr (- EFAULT, Out_nothing, n1) \<and>
    jz_nna_v20_op gp ev alloc (NNA_OP_MUTEX_UNLOCK False) n1 =
      Inr (0, Out_nothing, n\<lparr>nna_seqno := nna_seqno n + 1, nna_pid := cur_pid ev\<rparr>)"
  using assms
  by (simp add: jz_nna_v20_op_def jz_nna_lock_def jz_nna_unlock_def nna_spin_lock_def
      nna_spin_unlock_def Let_def)

theorem nna_lock_unlock_witness:
  "\<exists>n1. jz_nna_v20_op sample_pool sample_env first_id (NNA_OP_MUTEX_LOCK Null_name) sample_nna_pool =
      Inr (0, Out_nothing, n1) \<and>
    jz_nna_v20_op sample_pool (sample_env\<lparr>cur_pid := 8\<rparr>) first_id (NNA_OP_MUTEX_LOCK Null_name) n1 = Inl Sleeps"
  using nna_lock_unlock [of sample_nna_pool sample_env "sample_env\<lparr>cur_pid := 8\<rparr>" sample_pool first_id
      Null_name Null_name]
  by (auto simp: sample_nna_pool_def sample_env_def)

text \<open>The trylock never succeeds: on a free mutex it takes the mutex and then waits
  for it again, so the caller sleeps for ever; on a held one it fails.\<close>

theorem nna_trylock_deadlocks:
  "jz_nna_v20_op gp ev alloc (NNA_OP_MUTEX_TRYLOCK name) n =
     (if nna_mutex n then Inr (- EFAULT, Out_nothing, n) else Inl Sleeps)"
  by (simp add: jz_nna_v20_op_def jz_nna_lock_def)

text \<open>A second unlock by the last owner hangs the driver: it fails, but leaves the
  job spin lock held, and then every lock, every unlock by that process and every
  release spins for ever.\<close>

theorem nna_double_unlock_hangs:
  assumes "\<not> nna_mutex n" "\<not> nna_job_lock n" "nna_pid n = cur_pid ev"
  shows "\<exists>n1. jz_nna_v20_op gp ev alloc (NNA_OP_MUTEX_UNLOCK False) n = Inr (- EFAULT, Out_nothing, n1) \<and>
    (\<forall>ev'. kmalloc_ok ev' \<longrightarrow> jz_nna_lock ev' name n1 = Inl Spins) \<and>
    jz_nna_unlock ev False n1 = Inl Spins \<and> jz_nna_unlock ev True n1 = Inl Spins \<and>
    (\<forall>pid. jz_nna_v20_release gp pid n1 = Inl Spins)"
  using assms
  by (simp add: jz_nna_v20_op_def jz_nna_lock_def jz_nna_unlock_def nna_spin_lock_def Let_def
      jz_nna_v20_release_def)

theorem nna_double_unlock_hangs_witness:
  "\<exists>n1. jz_nna_v20_op sample_pool sample_env first_id (NNA_OP_MUTEX_UNLOCK False)
      (sample_nna_pool\<lparr>nna_pid := 7\<rparr>) = Inr (- EFAULT, Out_nothing, n1) \<and>
    jz_nna_v20_release sample_pool 7 n1 = Inl Spins"
  using nna_double_unlock_hangs [of "sample_nna_pool\<lparr>nna_pid := 7\<rparr>" sample_env sample_pool first_id Null_name]
  by (auto simp: sample_nna_pool_def sample_env_def)

text \<open>A lock that runs out of memory fails with the mutex held and no job to show
  for it: no unlock, forced or not, and no release frees it, so the accelerator
  is lost for every process.\<close>

theorem nna_failed_lock_keeps_mutex:
  assumes "\<not> nna_mutex n" "\<not> nna_job_lock n" "nna_job_list n = []" "\<not> kmalloc_ok ev"
  shows "\<exists>n1. jz_nna_v20_op gp ev alloc (NNA_OP_MUTEX_LOCK name) n = Inr (- EFAULT, Out_nothing, n1) \<and>
    (\<forall>ev' force. \<exists>r. jz_nna_unlock ev' force n1 = Inr (r, n1)) \<and>
    (\<forall>pid n2. jz_nna_v20_release gp pid n1 = Inr n2 \<longrightarrow> nna_mutex n2) \<and>
    (\<forall>ev'. jz_nna_lock ev' name n1 = Inl Sleeps)"
proof -
  let ?n1 = "n\<lparr>nna_mutex := True\<rparr>"
  have "nna_mutex n2" if "jz_nna_v20_release gp pid ?n1 = Inr n2" for pid n2
    using that assms by (auto simp: jz_nna_v20_release_def nna_spin_lock_def nna_spin_unlock_def Let_def
        dest!: nna_oram_release_mutex)
  moreover have "\<exists>r. jz_nna_unlock ev' force ?n1 = Inr (r, ?n1)" for ev' force
    using assms by (simp add: jz_nna_unlock_def nna_spin_lock_def nna_spin_unlock_def)
  ultimately show ?thesis
    using assms by (simp add: jz_nna_v20_op_def jz_nna_lock_def Let_def)
qed

theorem nna_failed_lock_keeps_mutex_witness:
  "\<exists>n1. jz_nna_v20_op sample_pool (sample_env\<lparr>kmalloc_ok := False\<rparr>) first_id (NNA_OP_MUTEX_LOCK Null_name)
      sample_nna_pool = Inr (- EFAULT, Out_nothing, n1) \<and> jz_nna_lock sample_env Null_name n1 = Inl Sleeps"
  using nna_failed_lock_keeps_mutex [of sample_nna_pool "sample_env\<lparr>kmalloc_ok := False\<rparr>" sample_pool
      first_id Null_name]
  by (auto simp: sample_nna_pool_def sample_env_def)

text \<open>C33. On-chip RAM is conserved: through every sequence of calls the free bytes and
  the blocks of the handle table add up to the pool's size, and a release gives
  back exactly the process's blocks; when no block of another process is left,
  the pool is whole again.\<close>

theorem nna_oram_conserved:
  assumes "gen_pool_ok gp grain" "idr_alloc_ok alloc" "nna_acct gp grain n"
    "run_nna gp alloc cs n = Inr n1" "\<not> nna_job_lock n1"
  shows "nna_acct gp grain n1 \<and>
    (\<exists>n2. jz_nna_v20_release gp pid n1 = Inr n2 \<and> nna_acct gp grain n2 \<and>
      nna_oram_handles n2 = filter (\<lambda>(_, o'). o_pid o' \<noteq> pid) (nna_oram_handles n1) \<and>
      ((\<forall>(i, o') \<in> set (nna_oram_handles n1). o_pid o' = pid) \<longrightarrow>
        (\<forall>p. oram_pool n2 = Some p \<longrightarrow> gp_avail gp p = gp_size gp p)))"
proof -
  have acct: "nna_acct gp grain n1" by (rule run_nna_acct [OF assms(1-4)])
  from nna_release_acct [OF assms(1) acct assms(5), of pid] obtain n2 where
    n2: "jz_nna_v20_release gp pid n1 = Inr n2" "nna_acct gp grain n2"
    "nna_oram_handles n2 = filter (\<lambda>(_, o'). o_pid o' \<noteq> pid) (nna_oram_handles n1)" by blast
  have "gp_avail gp p = gp_size gp p"
    if "\<forall>(i, o') \<in> set (nna_oram_handles n1). o_pid o' = pid" "oram_pool n2 = Some p" for p
  proof -
    have "nna_oram_handles n2 = []" unfolding n2(3) filter_empty_conv using that(1) by auto
    with n2(2) that(2) show ?thesis by (simp add: nna_acct_def nna_used_def word_unat_eq_iff)
  qed
  with acct n2 show ?thesis by blast
qed

theorem nna_oram_conserved_witness:
  "\<exists>n1. run_nna sample_pool first_id [Nna_ioctl sample_env (NNA_OP_ORAM_ALLOC 100)] sample_nna_pool = Inr n1 \<and>
     nna_acct sample_pool unat n1 \<and> map fst (nna_oram_handles n1) = [1]"
proof -
  obtain n1 where n1: "run_nna sample_pool first_id [Nna_ioctl sample_env (NNA_OP_ORAM_ALLOC 100)]
      sample_nna_pool = Inr n1" "\<not> nna_job_lock n1" "map fst (nna_oram_handles n1) = [1]"
    by (simp add: jz_nna_v20_op_def nna_oram_alloc_def Let_def sample_nna_pool_def sample_env_def
        round_up_64_def sample_pool_def first_id_def idr_insert_def)
  from nna_oram_conserved [OF sample_pool_ok first_id_ok sample_nna_acct n1(1,2), of 7]
  have "nna_acct sample_pool unat n1" by (rule conjunct1)
  with n1(1,3) show ?thesis by (intro exI conjI)
qed

text \<open>When no handle can be allocated, the allocation of on-chip RAM reports success:
  the call returns 0 with a negative handle and the address of a block that is
  already free again.\<close>

theorem nna_oram_alloc_silent_failure:
  assumes "oram_pool n = Some p" "round_up_64 req \<le> gp_avail gp p" "kmalloc_ok ev"
    "gp_dma_alloc gp (round_up_64 req) p = Some (va, pa, p')" "alloc (nna_oram_handles n) < 0"
  shows "jz_nna_v20_op gp ev alloc (NNA_OP_ORAM_ALLOC req) n =
    Inr (0, Out_oram (alloc (nna_oram_handles n)) pa,
      n\<lparr>oram_pool := Some (gp_free gp va (round_up_64 req) p')\<rparr>)"
  using assms by (simp add: jz_nna_v20_op_def nna_oram_alloc_def Let_def not_less)

theorem nna_oram_alloc_silent_failure_witness:
  "jz_nna_v20_op sample_pool sample_env (\<lambda>_. - 12) (NNA_OP_ORAM_ALLOC 100) sample_nna_pool =
     Inr (0, Out_oram (- 12) 0x12660000, sample_nna_pool)"
proof -
  have r: "round_up_64 100 = 128" by (simp add: round_up_64_def)
  have "jz_nna_v20_op sample_pool sample_env (\<lambda>_. - 12) (NNA_OP_ORAM_ALLOC 100) sample_nna_pool =
    Inr (0, Out_oram (- 12) 0x12660000, sample_nna_pool\<lparr>oram_pool :=
      Some (gp_free sample_pool 0x90060000 (round_up_64 100) (0x5ff80, 0x60000))\<rparr>)"
    by (rule nna_oram_alloc_silent_failure [of _ "(0x60000, 0x60000)"])
       (simp_all add: sample_nna_pool_def sample_pool_def r sample_env_def)
  then show ?thesis by (simp add: r sample_pool_def sample_nna_pool_def)
qed

end
