(* ===== verification/Core.thy ===== *)
theory Core
  imports FChannel PChannel TChannel Nna
begin

text \<open>
  The rest of \<open>drive/jz_aip_v20_core.c\<close>: the dispatch of submissions, waiting for a
  sequence number, and the actions. Time and scheduling are parameters: a wait
  gets the list of what its loop reads at each wake-up (is a signal pending, the
  last finished number, the clock).
\<close>

section \<open>Submission\<close>

text \<open>The caller gets back the status and the channel's last number, whether the
  submission succeeded or not; an unknown operation is reported as a success. \<open>others\<close> is
  what other callers and interrupts do between the steps of a task.\<close>

definition jz_aip_v20_submit :: "soc \<Rightarrow> ('p aip_dev \<Rightarrow> fault + 'p aip_dev) list \<Rightarrow> env \<Rightarrow> submit_arg \<Rightarrow> 'p aip_dev \<Rightarrow>
    fault + (int \<times> u64 option \<times> 'p aip_dev)" where
  "jz_aip_v20_submit soc others ev arg d = (case arg of
     AIP_CH_OP_F dat \<Rightarrow> res_bind (jz_aip_v20_f_op soc ev dat d)
       (\<lambda>(r, d). Inr (r, Some (submited_seqno (f_ch d)), d))
   | AIP_CH_OP_P dat \<Rightarrow> res_bind (jz_aip_v20_p_op soc ev dat d)
       (\<lambda>(r, d). Inr (r, Some (submited_seqno (p_ch d)), d))
   | AIP_CH_OP_T dat \<Rightarrow> res_bind (jz_aip_v20_t_op soc ev dat d)
       (\<lambda>(r, d). Inr (r, Some (submited_seqno (t_ch d)), d))
   | AIP_CH_OP_T_TASK dat \<Rightarrow> res_bind (jz_aip_v20_t_task_op soc others ev dat d)
       (\<lambda>(r, d). Inr (r, Some (submited_seqno (t_ch d)), d))
   | AIP_CH_OP_other _ \<Rightarrow> Inr (0, None, d))"

section \<open>Waiting\<close>

datatype ch_op = CH_P | CH_T | CH_F | CH_T_TASK | CH_other u32

definition jz_aip_v20_get_finished_seqno :: "ch_op \<Rightarrow> 'p aip_dev \<Rightarrow> u64" where
  "jz_aip_v20_get_finished_seqno op d = (case op of
     CH_F \<Rightarrow> finished_seqno (f_ch d)
   | CH_P \<Rightarrow> finished_seqno (p_ch d)
   | CH_T \<Rightarrow> finished_seqno (t_ch d)
   | _ \<Rightarrow> - 1)"

definition submited_seqno_of :: "ch_op \<Rightarrow> 'p aip_dev \<Rightarrow> u64 option" where
  "submited_seqno_of op d = (case op of
     CH_F \<Rightarrow> Some (submited_seqno (f_ch d))
   | CH_P \<Rightarrow> Some (submited_seqno (p_ch d))
   | CH_T \<Rightarrow> Some (submited_seqno (t_ch d))
   | _ \<Rightarrow> None)"

record wake_up =
  signalled :: bool
  seen_finished :: u64
  seen_jiffies :: u32

text \<open>\<open>time_after_eq\<close>: the sign of the wrapped difference.\<close>

definition time_after_eq :: "u32 \<Rightarrow> u32 \<Rightarrow> bool" where
  "time_after_eq a b \<longleftrightarrow> 0 \<le> sint (a - b)"

text \<open>The loop of \<open>jz_aip_v20_wait_for_seqno\<close>; when the list of wake-ups ends the
  caller is asleep.\<close>

fun wait_loop :: "bool \<Rightarrow> u64 \<Rightarrow> u64 \<Rightarrow> u32 \<Rightarrow> wake_up list \<Rightarrow> fault + int" where
  "wait_loop interruptible seqno timeout_ns expire [] = Inl Sleeps"
| "wait_loop interruptible seqno timeout_ns expire (w # ws) =
     (if interruptible \<and> signalled w then Inr (- ERESTARTSYS)
      else if seqno \<le> seen_finished w then Inr 0
      else if timeout_ns \<noteq> - 1 \<and> time_after_eq (seen_jiffies w) expire then Inr (- ETIME)
      else wait_loop interruptible seqno timeout_ns expire ws)"

text \<open>\<open>to_jiffies\<close> is the kernel's \<open>nsecs_to_jiffies\<close>, \<open>now\<close> the clock when it is called.\<close>

definition jz_aip_v20_wait_for_seqno :: "(u64 \<Rightarrow> u32) \<Rightarrow> u32 \<Rightarrow> wake_up list \<Rightarrow> ch_op \<Rightarrow> u64 \<Rightarrow> u64 \<Rightarrow>
    bool \<Rightarrow> 'p aip_dev \<Rightarrow> fault + int" where
  "jz_aip_v20_wait_for_seqno to_jiffies now ws op seqno timeout_ns interruptible d =
     (case submited_seqno_of op d of
        None \<Rightarrow> Inr (- 1)
      | Some submited \<Rightarrow>
          if submited < seqno then Inr (- 1)
          else if seqno \<le> jz_aip_v20_get_finished_seqno op d then Inr 0
          else if timeout_ns = 0 then Inr (- ETIME)
          else
            let timeout_jiffies = to_jiffies timeout_ns;
                timeout_jiffies = (if timeout_jiffies < 2 then 2 else timeout_jiffies);
                timeout_expire = now + timeout_jiffies
            in wait_loop interruptible seqno timeout_ns timeout_expire ws)"

record ioctl_wait =
  w_op :: ch_op
  w_seqno :: u64
  timeout_ns :: u64
  wait_time :: int

text \<open>The clocks of a wait call: \<open>nsecs_to_jiffies\<close>, \<open>jiffies_to_nsecs\<close>, \<open>jiffies\<close> at the
  start and at the end, and the measured \<open>ktime_us_delta\<close>.\<close>

record wait_env =
  ns_to_j :: "u64 \<Rightarrow> u32"
  j_to_ns :: "u32 \<Rightarrow> u64"
  j_start :: u32
  j_end :: u32
  waited_us :: int

definition jz_aip_v20_wait :: "soc \<Rightarrow> wait_env \<Rightarrow> wake_up list \<Rightarrow> ioctl_wait \<Rightarrow> 'p aip_dev \<Rightarrow>
    fault + (int \<times> ioctl_wait \<times> 'p aip_dev)" where
  "jz_aip_v20_wait soc we ws dat d =
     (if w_op dat = CH_T_TASK then
        res_bind (jz_aip_v20_wait_t_task soc d) (\<lambda>d. Inr (0, dat, d))
      else
        res_bind (jz_aip_v20_wait_for_seqno (ns_to_j we) (j_start we) ws (w_op dat) (w_seqno dat)
                    (timeout_ns dat) True d) (\<lambda>ret.
        let delta = j_to_ns we (j_end we - j_start we);
            dat = (if (ret = - EINTR \<or> ret = - ERESTARTSYS) \<and> timeout_ns dat \<noteq> - 1 \<and>
                       delta \<le> timeout_ns dat
                   then dat\<lparr>timeout_ns := timeout_ns dat - delta\<rparr> else dat)
        in Inr (ret, dat\<lparr>wait_time := waited_us we\<rparr>, d)))"

section \<open>Actions\<close>

text \<open>What \<open>si_meminfo\<close> and the kernel's counters say, in pages.\<close>

record sysinfo =
  totalram :: u32
  freeram :: u32
  totalcma_pages :: u32
  nr_free_cma_pages :: u32

record action_meminfo =
  mem_total :: u32
  mem_free :: u32
  cma_total :: u32
  cma_free :: u32

datatype action_arg = AIP_ACTION_STATUS | AIP_ACTION_CACHE_FLUSH u32 u32 int
  | AIP_ACTION_SET_PROC_NICE int | AIP_ACTION_GET_MEMINFO | AIP_ACTION_CTX_LOCK
  | AIP_ACTION_CTX_UNLOCK | AIP_ACTION_other u32

datatype action_out = Act_nothing | Act_status u32 u32 | Act_meminfo action_meminfo
  | Act_nice int | Act_cache_sync u32 u32 int

definition AIP_V20_DRV_VERSION :: u32 where
  "AIP_V20_DRV_VERSION = push_bit 16 0x2 OR push_bit 8 0x0 OR 0x1"

definition jz_aip_v20_set_status :: "soc \<Rightarrow> action_out" where
  "jz_aip_v20_set_status soc = Act_status AIP_V20_DRV_VERSION (if repair_a1 soc then 0xa1 else 0x41)"

text \<open>\<open><< (PAGE_SHIFT - 10)\<close>: pages of 4 kB counted in kB; \<open>copy_ok\<close> says whether the
  result could be copied to the caller.\<close>

definition jz_aip_v20_get_meminfo :: "sysinfo \<Rightarrow> bool \<Rightarrow> int \<times> action_out" where
  "jz_aip_v20_get_meminfo si copy_ok =
     (let meminfo = \<lparr>mem_total = push_bit 2 (totalram si), mem_free = push_bit 2 (freeram si),
                     cma_total = push_bit 2 (totalcma_pages si),
                     cma_free = push_bit 2 (nr_free_cma_pages si)\<rparr>
      in if copy_ok then (0, Act_meminfo meminfo) else (- EFAULT, Act_nothing))"

definition jz_aip_v20_action :: "soc \<Rightarrow> sysinfo \<Rightarrow> bool \<Rightarrow> action_arg \<Rightarrow> 'p aip_dev \<Rightarrow>
    fault + (int \<times> action_out \<times> 'p aip_dev)" where
  "jz_aip_v20_action soc si copy_ok arg d = (case arg of
     AIP_ACTION_STATUS \<Rightarrow> Inr (0, jz_aip_v20_set_status soc, d)
   | AIP_ACTION_SET_PROC_NICE v \<Rightarrow> Inr (0, Act_nice v, d)
   | AIP_ACTION_CACHE_FLUSH va sz dir \<Rightarrow> Inr (0, Act_cache_sync va sz dir, d)
   | AIP_ACTION_GET_MEMINFO \<Rightarrow> (let (r, out) = jz_aip_v20_get_meminfo si copy_ok in Inr (r, out, d))
   | AIP_ACTION_CTX_LOCK \<Rightarrow>
       if nna_mutex (nna d) then Inl Sleeps
       else Inr (0, Act_nothing, d\<lparr>nna := (nna d)\<lparr>nna_mutex := True\<rparr>\<rparr>)
   | AIP_ACTION_CTX_UNLOCK \<Rightarrow> Inr (0, Act_nothing, d\<lparr>nna := (nna d)\<lparr>nna_mutex := False\<rparr>\<rparr>)
   | AIP_ACTION_other _ \<Rightarrow> Inr (- 1, Act_nothing, d))"

section \<open>Properties\<close>

text \<open>What the wait loop returns is one of three, decided at the first wake-up where
  something decides.\<close>

lemma wait_loop_result:
  "wait_loop intr seqno tmo expire ws = Inr r \<Longrightarrow>
   (r = 0 \<and> (\<exists>w \<in> set ws. seqno \<le> seen_finished w)) \<or>
   (r = - ETIME \<and> tmo \<noteq> - 1 \<and> (\<exists>w \<in> set ws. time_after_eq (seen_jiffies w) expire \<and> seen_finished w < seqno)) \<or>
   (r = - ERESTARTSYS \<and> intr \<and> (\<exists>w \<in> set ws. signalled w))"
proof (induction ws)
  case (Cons w ws)
  then show ?case by (auto split: if_splits simp: not_le)
qed simp

lemma wait_loop_returns:
  assumes "\<exists>w \<in> set ws. (intr \<and> signalled w) \<or> seqno \<le> seen_finished w \<or>
    (tmo \<noteq> - 1 \<and> time_after_eq (seen_jiffies w) expire)"
  shows "\<exists>r. wait_loop intr seqno tmo expire ws = Inr r"
  using assms by (induction ws) auto

text \<open>C34. A wait that reports success is right: the number had been given out, and the
  channel's last finished number was seen to have reached it; and in every
  well-formed queue with that last finished number, the job is not in the list
  any more.\<close>

theorem wait_success_means_finished:
  assumes "jz_aip_v20_wait_for_seqno to_j now ws op seqno tmo intr d = Inr 0"
  shows "\<exists>sub fin. submited_seqno_of op d = Some sub \<and> seqno \<le> sub \<and> seqno \<le> fin \<and>
    fin \<in> insert (jz_aip_v20_get_finished_seqno op d) (seen_finished ` set ws) \<and>
    (\<forall>q :: f_exec_info jobq. jobq_inv q \<and> finished_seqno q = fin \<longrightarrow>
      (\<forall>e \<in> set (job_list q). e_seqno e \<noteq> seqno))"
proof -
  from assms obtain sub where sub: "submited_seqno_of op d = Some sub" "seqno \<le> sub"
    by (auto simp: jz_aip_v20_wait_for_seqno_def split: option.splits if_splits)
  have "\<exists>fin \<in> insert (jz_aip_v20_get_finished_seqno op d) (seen_finished ` set ws). seqno \<le> fin"
  proof (cases "seqno \<le> jz_aip_v20_get_finished_seqno op d")
    case False
    with assms sub obtain expire where "wait_loop intr seqno tmo expire ws = Inr 0"
      by (auto simp: jz_aip_v20_wait_for_seqno_def Let_def ETIME_def split: if_splits)
    from wait_loop_result [OF this] show ?thesis by (auto simp: ETIME_def ERESTARTSYS_def)
  qed blast
  then obtain fin where fin: "seqno \<le> fin"
    "fin \<in> insert (jz_aip_v20_get_finished_seqno op d) (seen_finished ` set ws)" by blast
  have "\<forall>e \<in> set (job_list q). e_seqno e \<noteq> seqno"
    if "jobq_inv q" "finished_seqno q = fin" for q :: "f_exec_info jobq"
    using that fin(1) by (fastforce simp: jobq_inv_def)
  with sub fin show ?thesis by blast
qed

definition sample_wake :: "bool \<Rightarrow> u64 \<Rightarrow> u32 \<Rightarrow> wake_up" where
  "sample_wake s f j = \<lparr>signalled = s, seen_finished = f, seen_jiffies = j\<rparr>"

theorem wait_success_means_finished_witness:
  "\<exists>sub fin. submited_seqno_of CH_F sample_f_dev = Some sub \<and> 5 \<le> sub \<and> 5 \<le> fin \<and>
    fin \<in> insert 3 (seen_finished ` set [sample_wake False 4 10, sample_wake False 5 11])"
proof -
  have "jz_aip_v20_wait_for_seqno (\<lambda>_. 100) 10 [sample_wake False 4 10, sample_wake False 5 11] CH_F 5
      1000000 True sample_f_dev = Inr 0"
    by (simp add: jz_aip_v20_wait_for_seqno_def submited_seqno_of_def jz_aip_v20_get_finished_seqno_def
        sample_f_dev_def Let_def sample_wake_def time_after_eq_def sint_neg_u32)
  from wait_success_means_finished [OF this] show ?thesis
    by (auto simp: jz_aip_v20_get_finished_seqno_def sample_f_dev_def)
qed

text \<open>A wait with a finite time-out ends: once it is woken at a time that is at
  least the time-out (and at least two ticks) after the call, and less than half
  the clock's range later, it returns 0, \<open>- ETIME\<close> or \<open>- ERESTARTSYS\<close>, whether or not
  the 32-bit clock wraps around in between.\<close>

theorem wait_times_out:
  assumes "submited_seqno_of op d = Some sub" "seqno \<le> sub" "tmo \<noteq> - 1"
    "w \<in> set ws" "seen_jiffies w = now + k" "max 2 (to_j tmo) \<le> k" "k - max 2 (to_j tmo) < 0x80000000"
  shows "jz_aip_v20_wait_for_seqno to_j now ws op seqno tmo intr d \<in>
    {Inr 0, Inr (- ETIME), Inr (- ERESTARTSYS)}"
proof -
  let ?tj = "if to_j tmo < 2 then 2 else to_j tmo"
  have tj: "?tj = max 2 (to_j tmo)" by (auto simp: max_def not_less)
  have "time_after_eq (seen_jiffies w) (now + ?tj)"
    unfolding time_after_eq_def assms(5) tj using sint_pos_u32 [OF assms(7)] by simp
  then obtain r where r: "wait_loop intr seqno tmo (now + ?tj) ws = Inr r"
    using wait_loop_returns [of ws intr seqno tmo "now + ?tj"] assms(3,4) by blast
  have "r \<in> {0, - ETIME, - ERESTARTSYS}" using wait_loop_result [OF r] by auto
  with r assms(1,2) show ?thesis
    by (auto simp: jz_aip_v20_wait_for_seqno_def Let_def not_less)
qed

theorem wait_times_out_witness:
  "jz_aip_v20_wait_for_seqno (\<lambda>_. 100) 0xfffffff0 [sample_wake False 3 0x70] CH_F 5 1000000 True sample_f_dev
     \<in> {Inr 0, Inr (- ETIME), Inr (- ERESTARTSYS)}"
  by (rule wait_times_out [where sub = 5 and w = "sample_wake False 3 0x70" and k = "0x80"])
     (simp_all add: submited_seqno_of_def sample_f_dev_def sample_wake_def max_def)

text \<open>Waiting for a task with no job on the T channel dereferences a NULL pointer.\<close>

theorem wait_task_without_job_oops:
  assumes "job_list (t_ch d) = []" "w_op dat = CH_T_TASK"
  shows "jz_aip_v20_wait soc we ws dat d = Inl Null_deref"
  using assms by (simp add: jz_aip_v20_wait_def jz_aip_v20_wait_t_task_def)

theorem wait_task_without_job_oops_witness:
  "jz_aip_v20_wait (still_soc False) \<lparr>ns_to_j = (\<lambda>_. 1), j_to_ns = (\<lambda>_. 1), j_start = 0, j_end = 0, waited_us = 0\<rparr>
     [] \<lparr>w_op = CH_T_TASK, w_seqno = 0, timeout_ns = 0, wait_time = 0\<rparr> sample_dev = Inl Null_deref"
  by (rule wait_task_without_job_oops) simp_all

text \<open>The context lock is the accelerator's mutex: an \<open>AIP_ACTION_CTX_UNLOCK\<close> of any
  process takes the mutex away from the job that holds it, and a second process
  can then lock the accelerator too; the registered jobs are two.\<close>

theorem ctx_unlock_breaks_exclusion:
  assumes "nna_job_list (nna d) = [e]" "nna_mutex (nna d)" "\<not> nna_job_lock (nna d)" "kmalloc_ok ev"
  shows "\<exists>d1 n2. jz_aip_v20_action soc si copy_ok AIP_ACTION_CTX_UNLOCK d = Inr (0, Act_nothing, d1) \<and>
    jz_nna_lock ev name (nna d1) = Inr (0, n2) \<and> length (nna_job_list n2) = 2 \<and> \<not> nna_mutex_inv n2"
  using assms by (simp add: jz_aip_v20_action_def jz_nna_lock_def nna_spin_lock_def
      nna_spin_unlock_def Let_def nna_mutex_inv_def)

definition sample_held_dev :: "unit aip_dev" where
  "sample_held_dev = sample_dev\<lparr>nna := sample_nna\<lparr>nna_mutex := True, nna_pid := 8, nna_job_list :=
     [\<lparr>n_pid = 8, n_submit_time = 1, n_start_time = 2, n_name = ''net''\<rparr>]\<rparr>\<rparr>"

theorem ctx_unlock_breaks_exclusion_witness:
  "\<exists>d1 n2. jz_aip_v20_action (still_soc False) \<lparr>totalram = 1, freeram = 1, totalcma_pages = 1, nr_free_cma_pages = 1\<rparr>
      True AIP_ACTION_CTX_UNLOCK sample_held_dev = Inr (0, Act_nothing, d1) \<and>
    jz_nna_lock sample_env Null_name (nna d1) = Inr (0, n2) \<and> length (nna_job_list n2) = 2"
proof -
  have "nna_job_list (nna sample_held_dev) =
      [\<lparr>n_pid = 8, n_submit_time = 1, n_start_time = 2, n_name = ''net''\<rparr>]"
    "nna_mutex (nna sample_held_dev)" "\<not> nna_job_lock (nna sample_held_dev)" "kmalloc_ok sample_env"
    by (simp_all add: sample_held_dev_def sample_env_def sample_nna_def)
  from ctx_unlock_breaks_exclusion [OF this, of "still_soc False"
      "\<lparr>totalram = 1, freeram = 1, totalcma_pages = 1, nr_free_cma_pages = 1\<rparr>" True Null_name]
  show ?thesis by (elim exE conjE) (intro exI conjI)
qed

end
