(* ===== verification/Drv.thy ===== *)
theory Drv
  imports Core Bo
begin

text \<open>
  The driver's file operations and its start, \<open>drive/jz_aip_v20_drv.c\<close> and
  \<open>jz_aip_v20_irq_init\<close> of \<open>drive/jz_aip_v20_irq.c\<close>: clocks, the reference count of the
  open files, what a closing process leaves behind, mappings, and the dispatch of
  the five ioctls.
\<close>

section \<open>Clocks, open and close\<close>

definition jz_aip_v20_clk :: "bool \<Rightarrow> 'p aip_dev \<Rightarrow> 'p aip_dev" where
  "jz_aip_v20_clk on d =
     (if on then
        let d = d\<lparr>ccu_cscr := 0\<rparr>;
            d = d\<lparr>ccu_mscr := ccu_mscr d OR push_bit 25 1\<rparr>
        in d\<lparr>ccu_mscr := ccu_mscr d OR push_bit 5 1\<rparr>
      else
        let d = d\<lparr>ccu_cscr := - 1\<rparr>;
            d = d\<lparr>ccu_mscr := ccu_mscr d AND NOT (push_bit 25 1)\<rparr>
        in d\<lparr>ccu_mscr := ccu_mscr d AND NOT (push_bit 5 1)\<rparr>)"

definition jz_aip_v20_open :: "'p aip_dev \<Rightarrow> int \<times> 'p aip_dev" where
  "jz_aip_v20_open d =
     (if \<not> is_ok d then (0, (jz_aip_v20_clk True d)\<lparr>is_ok := True, ref_count := 1\<rparr>)
      else (0, d\<lparr>ref_count := ref_count d + 1\<rparr>))"

text \<open>The last reference went away.\<close>

definition jz_aip_v20_close :: "'p aip_dev \<Rightarrow> fault + 'p aip_dev" where
  "jz_aip_v20_close d =
     (if job_list (f_ch d) \<noteq> [] \<or> job_list (t_ch d) \<noteq> [] \<or> job_list (p_ch d) \<noteq> [] \<or>
         bo_handles (bos d) \<noteq> [] \<or> nna_oram_handles (nna d) \<noteq> [] \<or> nna_mutex (nna d)
      then Inl Kernel_bug
      else Inr (jz_aip_v20_clk False d))"

text \<open>\<open>kref_put_mutex\<close>.\<close>

definition aip_ref_put :: "'p aip_dev \<Rightarrow> fault + 'p aip_dev" where
  "aip_ref_put d = (let d = d\<lparr>ref_count := ref_count d - 1\<rparr> in
     if ref_count d = 0 then res_bind (jz_aip_v20_close d) (\<lambda>d. Inr (d\<lparr>is_ok := False\<rparr>))
     else Inr d)"

text \<open>Closing a file: the process's jobs of the three channels, its buffer objects and
  its part of the accelerator go first, in this order.\<close>

definition jz_aip_v20_release :: "soc \<Rightarrow> 'p gen_pool \<Rightarrow> int \<Rightarrow> int \<Rightarrow> 'p aip_dev \<Rightarrow> fault + 'p aip_dev" where
  "jz_aip_v20_release soc gp pid now d =
     res_bind (jz_aip_v20_f_release soc pid now d) (\<lambda>d.
     res_bind (jz_aip_v20_p_release soc pid now d) (\<lambda>d.
     res_bind (jz_aip_v20_t_release soc pid now d) (\<lambda>d.
     res_bind (jz_aip_v20_bo_release pid (bos d)) (\<lambda>b.
     let d = d\<lparr>bos := b\<rparr> in
     res_bind (jz_nna_v20_release gp pid (nna d)) (\<lambda>n.
     aip_ref_put (d\<lparr>nna := n\<rparr>))))))"

definition jz_aip_v20_read :: "u32 \<Rightarrow> int" where "jz_aip_v20_read count = 0"
definition jz_aip_v20_write :: "u32 \<Rightarrow> int" where "jz_aip_v20_write count = 0"

section \<open>Mappings\<close>

datatype page_prot = Uncached | Uncached_accelerated

text \<open>\<open>struct vm_area_struct\<close>, as far as it is used, and what is asked of the kernel:
  first page frame, bytes, caching.\<close>

record vma =
  vm_start :: u32
  vm_end :: u32
  vm_pgoff :: u32

definition jz_aip_v20_mmap :: "vma \<Rightarrow> int + (u32 \<times> u32 \<times> page_prot)" where
  "jz_aip_v20_mmap v =
     (if vm_pgoff v = 0 then Inr (0, 4096, Uncached)
      else if push_bit 12 (vm_pgoff v) = 0x12620000
      then Inr (vm_pgoff v, vm_end v - vm_start v, Uncached_accelerated)
      else Inl (- EFAULT))"

section \<open>The ioctl\<close>

datatype ioctl_cmd =
    IOCTL_AIP_V20_SUBMIT submit_arg
  | IOCTL_AIP_V20_WAIT ioctl_wait
  | IOCTL_AIP_V20_BO ioctl_bo
  | IOCTL_NNA_V20_OP nna_arg
  | IOCTL_AIP_V20_ACTION action_arg
  | IOCTL_other u32

datatype ioctl_out = Io_nothing | Io_seqno "u64 option" | Io_wait ioctl_wait | Io_bo ioctl_bo
  | Io_nna nna_out | Io_action action_out

text \<open>Everything the kernel contributes to one ioctl.\<close>

record 'p ioctl_env =
  ie_soc :: soc
  ie_env :: env
  ie_others :: "('p aip_dev \<Rightarrow> fault + 'p aip_dev) list"
  ie_wait :: wait_env
  ie_wakes :: "wake_up list"
  ie_debug :: bool
  ie_dma :: "(u32 \<times> u32) option"
  ie_bo_alloc :: "bo_ptr idr \<Rightarrow> int"
  ie_pool :: "'p gen_pool"
  ie_oram_alloc :: "oram_info idr \<Rightarrow> int"
  ie_sysinfo :: sysinfo
  ie_copy_ok :: bool

definition jz_aip_v20_ioctl :: "'p ioctl_env \<Rightarrow> ioctl_cmd \<Rightarrow> 'p aip_dev \<Rightarrow>
    fault + (int \<times> ioctl_out \<times> 'p aip_dev)" where
  "jz_aip_v20_ioctl ie cmd d = (case cmd of
     IOCTL_AIP_V20_SUBMIT arg \<Rightarrow>
       res_bind (jz_aip_v20_submit (ie_soc ie) (ie_others ie) (ie_env ie) arg d)
         (\<lambda>(r, s, d). Inr (r, Io_seqno s, d))
   | IOCTL_AIP_V20_WAIT dat \<Rightarrow>
       res_bind (jz_aip_v20_wait (ie_soc ie) (ie_wait ie) (ie_wakes ie) dat d)
         (\<lambda>(r, dat, d). Inr (r, Io_wait dat, d))
   | IOCTL_AIP_V20_BO dat \<Rightarrow>
       res_bind (jz_aip_v20_bo (ie_debug ie) (ie_env ie) (ie_dma ie) (ie_bo_alloc ie) dat (bos d))
         (\<lambda>(r, dat, b). Inr (r, Io_bo dat, d\<lparr>bos := b\<rparr>))
   | IOCTL_NNA_V20_OP arg \<Rightarrow>
       res_bind (jz_nna_v20_op (ie_pool ie) (ie_env ie) (ie_oram_alloc ie) arg (nna d))
         (\<lambda>(r, out, n). Inr (r, Io_nna out, d\<lparr>nna := n\<rparr>))
   | IOCTL_AIP_V20_ACTION arg \<Rightarrow>
       res_bind (jz_aip_v20_action (ie_soc ie) (ie_sysinfo ie) (ie_copy_ok ie) arg d)
         (\<lambda>(r, out, d). Inr (r, Io_action out, d))
   | IOCTL_other _ \<Rightarrow> Inr (- 1, Io_nothing, d))"

section \<open>Start\<close>

text \<open>The three interrupt requests; every one is made, and their results are OR-ed.\<close>

definition jz_aip_v20_irq_init :: "int \<Rightarrow> int \<Rightarrow> int \<Rightarrow> int" where
  "jz_aip_v20_irq_init t_ret f_ret p_ret = t_ret OR f_ret OR p_ret"

text \<open>What the kernel answers to a probe: the zeroed device or a failure, the clock's
  pointer (A1), the pointer to the mapped registers, the interrupt requests, the
  registration, and the parameters of the accelerator's start.\<close>

record 'p probe_env =
  pe_kzalloc :: "'p aip_dev option"
  pe_clk_gate :: u32
  pe_io_regs :: u32
  pe_irqs :: "int \<times> int \<times> int"
  pe_misc_register :: int
  pe_pool :: "'p gen_pool"
  pe_pool_create :: "int + 'p"
  pe_ioremap_wc :: u32

text \<open>When the clock is missing, the error returned is that of \<open>io_regs\<close>, which is
  still NULL. The result of the accelerator's start is not looked at.\<close>

definition jz_aip_v20_probe :: "soc \<Rightarrow> 'p probe_env \<Rightarrow> int \<times> 'p aip_dev option" where
  "jz_aip_v20_probe soc pe = (case pe_kzalloc pe of
     None \<Rightarrow> (- ENOMEM, None)
   | Some d \<Rightarrow>
       if repair_a1 soc \<and> IS_ERR (pe_clk_gate pe) then (PTR_ERR 0, Some d)
       else if IS_ERR (pe_io_regs pe) then (PTR_ERR (pe_io_regs pe), Some d)
       else
         let (t_ret, f_ret, p_ret) = pe_irqs pe; ret = jz_aip_v20_irq_init t_ret f_ret p_ret in
         if ret \<noteq> 0 then (ret, Some d)
         else if pe_misc_register pe < 0 then (- ENOMEM, Some d)
         else
           let d = jz_aip_v20_core_init (d\<lparr>bos := jz_aip_v20_bo_init (bos d)\<rparr>);
               (_, n) = jz_nna_v20_core_init (pe_pool pe) (ccu_mscr d) (pe_pool_create pe)
                          (pe_ioremap_wc pe) (nna d)
           in (0, Some (d\<lparr>nna := n\<rparr>)))"

definition jz_aip_v20_suspend :: "'p aip_dev \<Rightarrow> int \<times> 'p aip_dev" where
  "jz_aip_v20_suspend d = (0, jz_aip_v20_clk False d)"

definition jz_aip_v20_resume :: "'p aip_dev \<Rightarrow> int \<times> 'p aip_dev" where
  "jz_aip_v20_resume d = (0, jz_aip_v20_clk True d)"

section \<open>The reference count\<close>

text \<open>The clock bits the driver switches.\<close>

definition clk_on :: "'p aip_dev \<Rightarrow> bool" where
  "clk_on d \<longleftrightarrow> ccu_cscr d = 0 \<and> bit (ccu_mscr d) 5 \<and> bit (ccu_mscr d) 25"

definition drv_inv :: "'p aip_dev \<Rightarrow> bool" where
  "drv_inv d \<longleftrightarrow> (is_ok d \<longleftrightarrow> 0 < ref_count d) \<and> (is_ok d \<longrightarrow> clk_on d)"

lemma clk_frame:
  "is_ok (jz_aip_v20_clk b d) = is_ok d" "ref_count (jz_aip_v20_clk b d) = ref_count d"
  by (simp_all add: jz_aip_v20_clk_def Let_def)

lemma clk_on_set: "clk_on (jz_aip_v20_clk True d)"
  by (simp add: clk_on_def jz_aip_v20_clk_def Let_def bit_simps)

lemma drv_inv_cong:
  "is_ok d' = is_ok d \<Longrightarrow> ref_count d' = ref_count d \<Longrightarrow> ccu_cscr d' = ccu_cscr d \<Longrightarrow>
   ccu_mscr d' = ccu_mscr d \<Longrightarrow> drv_inv d' \<longleftrightarrow> drv_inv d"
  by (simp add: drv_inv_def clk_on_def)

text \<open>What a release does before it drops the reference.\<close>

lemma release_frame:
  assumes "jz_aip_v20_release soc gp pid now d = Inr d'"
  shows "\<exists>d1. is_ok d1 = is_ok d \<and> ref_count d1 = ref_count d \<and> ccu_cscr d1 = ccu_cscr d \<and>
    ccu_mscr d1 = ccu_mscr d \<and> aip_ref_put d1 = Inr d'"
proof -
  obtain d1 d2 d3 b n where f: "jz_aip_v20_f_release soc pid now d = Inr d1"
    and p: "jz_aip_v20_p_release soc pid now d1 = Inr d2"
    and t: "jz_aip_v20_t_release soc pid now d2 = Inr d3"
    and put: "aip_ref_put (d3\<lparr>bos := b, nna := n\<rparr>) = Inr d'"
    using assms by (auto simp: jz_aip_v20_release_def res_bind_Inr_iff Let_def)
  show ?thesis
    using f_release_frame [OF f] p_release_frame [OF p] t_release_frame [OF t] put
    by (intro exI [of _ "d3\<lparr>bos := b, nna := n\<rparr>"]) auto
qed

lemma release_drv_inv:
  assumes "drv_inv d" "is_ok d" "jz_aip_v20_release soc gp pid now d = Inr d'"
  shows "drv_inv d' \<and> ref_count d' = ref_count d - 1"
proof -
  obtain d1 where d1: "is_ok d1 = is_ok d" "ref_count d1 = ref_count d" "ccu_cscr d1 = ccu_cscr d"
    "ccu_mscr d1 = ccu_mscr d" "aip_ref_put d1 = Inr d'" using release_frame [OF assms(3)] by blast
  from d1(5) assms(1,2) show ?thesis
    by (auto simp: aip_ref_put_def Let_def res_bind_Inr_iff jz_aip_v20_close_def drv_inv_def clk_frame
        clk_on_def d1(1-4) split: if_splits)
qed

lemma open_drv_inv:
  "drv_inv d \<Longrightarrow> jz_aip_v20_open d = (r, d') \<Longrightarrow> drv_inv d' \<and> ref_count d' = ref_count d + 1 \<and> is_ok d' \<and> r = 0"
  using clk_on_set [of d] by (auto simp: jz_aip_v20_open_def drv_inv_def clk_on_def clk_frame split: if_splits)

text \<open>Opens and releases, a release only of a file that is open.\<close>

datatype file_call = File_open | File_release int int

fun run_files :: "soc \<Rightarrow> 'p gen_pool \<Rightarrow> file_call list \<Rightarrow> 'p aip_dev \<Rightarrow> fault + 'p aip_dev" where
  "run_files soc gp [] d = Inr d"
| "run_files soc gp (File_open # cs) d = run_files soc gp cs (snd (jz_aip_v20_open d))"
| "run_files soc gp (File_release pid now # cs) d =
     res_bind (jz_aip_v20_release soc gp pid now d) (run_files soc gp cs)"

text \<open>The number of files that stay open, or \<open>None\<close> if one is released that is not open.\<close>

fun open_files :: "file_call list \<Rightarrow> nat \<Rightarrow> nat option" where
  "open_files [] k = Some k"
| "open_files (File_open # cs) k = open_files cs (k + 1)"
| "open_files (File_release pid now # cs) k = (if k = 0 then None else open_files cs (k - 1))"

lemma run_files_count:
  assumes "run_files soc gp cs d = Inr d'" "drv_inv d" "open_files cs (ref_count d) = Some k"
  shows "drv_inv d' \<and> ref_count d' = k"
  using assms
proof (induction cs arbitrary: d)
  case (Cons c cs)
  show ?case
  proof (cases c)
    case File_open
    obtain r d1 where "jz_aip_v20_open d = (r, d1)" by (cases "jz_aip_v20_open d")
    with File_open Cons.prems open_drv_inv [OF Cons.prems(2) this] Cons.IH [of d1] show ?thesis by simp
  next
    case (File_release pid now)
    with Cons.prems obtain d1 where d1: "jz_aip_v20_release soc gp pid now d = Inr d1"
      "run_files soc gp cs d1 = Inr d'" by (auto simp: res_bind_Inr_iff)
    have "ref_count d \<noteq> 0" "open_files cs (ref_count d - 1) = Some k"
      using Cons.prems(3) File_release by (auto split: if_splits)
    moreover from this(1) Cons.prems(2) have "is_ok d" by (simp add: drv_inv_def)
    ultimately show ?thesis
      using release_drv_inv [OF Cons.prems(2) _ d1(1)] Cons.IH [OF d1(2)] by simp
  qed
qed simp

lemma clk_bit:
  "bit (w OR push_bit k 1 :: u32) n \<longleftrightarrow> bit w n \<or> n = k \<and> n < 32"
  "bit (w AND NOT (push_bit k 1) :: u32) n \<longleftrightarrow> bit w n \<and> n \<noteq> k"
  using bit_imp_le_length [of w n] by (auto simp: bit_simps bit_1_iff)

lemma clk_mscr:
  "ccu_mscr (jz_aip_v20_clk True d) = (ccu_mscr d OR push_bit 25 1) OR push_bit 5 1"
  "ccu_mscr (jz_aip_v20_clk False d) = (ccu_mscr d AND NOT (push_bit 25 1)) AND NOT (push_bit 5 1)"
  by (simp_all add: jz_aip_v20_clk_def Let_def)

lemma clk_mscr_bit:
  "bit (ccu_mscr (jz_aip_v20_clk True d)) n \<longleftrightarrow> bit (ccu_mscr d) n \<or> (n = 5 \<or> n = 25)"
  "bit (ccu_mscr (jz_aip_v20_clk False d)) n \<longleftrightarrow> bit (ccu_mscr d) n \<and> n \<noteq> 5 \<and> n \<noteq> 25"
  unfolding clk_mscr clk_bit by auto

section \<open>What the last process leaves\<close>















lemma shift_page_eq: "push_bit 12 w = (0x12620000 :: u32) \<longleftrightarrow> w AND 0xfffff = 0x12620"
proof -
  have "unat (push_bit 12 w) = unat w * 4096 mod 2 ^ 32"
    by (simp add: push_bit_eq_mult unat_word_ariths(2))
  also have "\<dots> = unat w mod 2 ^ 20 * 4096"
    using mult_mod_left [of "unat w" "2 ^ 20" 4096] by simp
  also have "unat w mod 2 ^ 20 = unat (w AND mask 20)"
    unfolding take_bit_eq_mask [symmetric] by (simp only: unsigned_take_bit_eq) (simp add: take_bit_eq_mod)
  finally have eq: "unat (push_bit 12 w) = unat (w AND 0xfffff) * 4096" by (simp add: mask_eq_exp_minus_1)
  have "push_bit 12 w = (0x12620000 :: u32) \<longleftrightarrow> unat (push_bit 12 w) = 0x12620 * 4096"
    by (simp add: word_unat_eq_iff)
  also have "\<dots> \<longleftrightarrow> w AND 0xfffff = 0x12620" unfolding eq by (simp add: word_unat_eq_iff)
  finally show ?thesis .
qed

section \<open>Properties\<close>

text \<open>Switching the clocks on and off sets and clears bits 5 and 25 of the clock
  register and nothing else of it.\<close>

theorem clk_bits:
  "bit (ccu_mscr (jz_aip_v20_clk on d)) n \<longleftrightarrow>
     (if n = 5 \<or> n = 25 then on else bit (ccu_mscr d) n) \<and> n < 32"
  using bit_imp_le_length [of "ccu_mscr d" n] clk_mscr_bit [of d n] by (cases on) auto

text \<open>The reference count: after any sequence of opens and closes that returns, the
  count is the number of files that are open, the device is marked ready exactly
  when there is one, and then its clocks are on.\<close>

theorem drv_files_counted:
  assumes "run_files soc gp cs d = Inr d'" "drv_inv d" "open_files cs (ref_count d) = Some k"
  shows "ref_count d' = k \<and> (is_ok d' \<longleftrightarrow> 0 < k) \<and> (0 < k \<longrightarrow> clk_on d')"
  using run_files_count [OF assms] by (auto simp: drv_inv_def)

definition sample_closed :: "unit aip_dev" where
  "sample_closed = sample_dev\<lparr>is_ok := False, ref_count := 0, bos := sample_bos\<lparr>bo_handles := []\<rparr>\<rparr>"

definition no_pool :: "unit gen_pool" where
  "no_pool = \<lparr>gp_avail = (\<lambda>_. 0), gp_size = (\<lambda>_. 0), gp_dma_alloc = (\<lambda>_ _. None),
     gp_free = (\<lambda>_ _ p. p), gp_add_virt = (\<lambda>_ _ _ p. (0, p))\<rparr>"

lemma job_list_same: "job_list q = js \<Longrightarrow> q\<lparr>job_list := js\<rparr> = q"
  by (cases q) simp

lemma dev_same:
  "d\<lparr>dev_io := dev_io d, f_ch := f_ch d\<rparr> = d" "d\<lparr>dev_io := dev_io d, p_ch := p_ch d\<rparr> = d"
  "d\<lparr>dev_io := dev_io d, t_ch := t_ch d\<rparr> = d" "d\<lparr>bos := bos d, nna := nna d\<rparr> = d"
  by (cases d, simp)+

lemma f_release_idle:
  "job_list (f_ch d) = [] \<Longrightarrow> jz_aip_v20_f_release soc pid now d = Inr d"
  by (simp add: jz_aip_v20_f_release_def job_list_same dev_same)

lemma p_release_idle:
  "job_list (p_ch d) = [] \<Longrightarrow> jz_aip_v20_p_release soc pid now d = Inr d"
  by (simp add: jz_aip_v20_p_release_def job_list_same dev_same)

lemma t_release_idle:
  "job_list (t_ch d) = [] \<Longrightarrow> jz_aip_v20_t_release soc pid now d = Inr d"
  by (simp add: jz_aip_v20_t_release_def job_list_same dev_same)

lemma nna_release_idle:
  "nna_job_list n = [] \<Longrightarrow> nna_oram_handles n = [] \<Longrightarrow> \<not> nna_job_lock n \<Longrightarrow>
   jz_nna_v20_release gp pid n = Inr n"
  by (cases n) (simp add: jz_nna_v20_release_def nna_spin_lock_def nna_spin_unlock_def)

lemma release_idle:
  assumes "job_list (f_ch d) = []" "job_list (p_ch d) = []" "job_list (t_ch d) = []"
    "bo_handles (bos d) = []" "nna_job_list (nna d) = []" "nna_oram_handles (nna d) = []"
    "\<not> nna_job_lock (nna d)"
  shows "jz_aip_v20_release soc gp pid now d = aip_ref_put d"
  using assms
  by (simp add: jz_aip_v20_release_def f_release_idle p_release_idle t_release_idle
      jz_aip_v20_bo_release_def nna_release_idle dev_same Let_def)

theorem drv_files_counted_witness:
  "\<exists>d'. run_files (still_soc False) no_pool [File_open, File_open, File_release 7 1] sample_closed = Inr d' \<and>
     ref_count d' = 1 \<and> is_ok d' \<and> clk_on d'"
proof -
  let ?d2 = "snd (jz_aip_v20_open (snd (jz_aip_v20_open sample_closed)))"
  have "jz_aip_v20_release (still_soc False) no_pool 7 1 ?d2 = aip_ref_put ?d2"
    by (rule release_idle) (simp_all add: jz_aip_v20_open_def jz_aip_v20_clk_def Let_def
        sample_closed_def sample_nna_def)
  then obtain d' where d': "run_files (still_soc False) no_pool [File_open, File_open, File_release 7 1]
      sample_closed = Inr d'"
    by (simp add: aip_ref_put_def Let_def jz_aip_v20_open_def clk_frame sample_closed_def)
  have "drv_inv sample_closed" by (simp add: drv_inv_def sample_closed_def)
  from drv_files_counted [OF d' this, of 1] d' show ?thesis by (simp add: sample_closed_def)
qed

text \<open>A process that takes the context lock and then closes the last file crashes
  the kernel: no job record says who holds the mutex, the release does not give
  it back, and the close of the last reference finds it locked and calls \<open>BUG\<close>.\<close>

theorem ctx_lock_then_last_close_bugs:
  assumes "jz_aip_v20_action soc si copy_ok AIP_ACTION_CTX_LOCK d = Inr (r, out, d1)"
    "nna_job_list (nna d) = []" "ref_count d = 1"
    "job_list (f_ch d) = []" "job_list (p_ch d) = []" "job_list (t_ch d) = []"
    "bo_handles (bos d) = []" "nna_oram_handles (nna d) = []" "\<not> nna_job_lock (nna d)"
  shows "r = 0 \<and> jz_aip_v20_release soc gp pid now d1 = Inl Kernel_bug"
proof -
  have d1: "r = 0" "d1 = d\<lparr>nna := (nna d)\<lparr>nna_mutex := True\<rparr>\<rparr>"
    using assms(1) by (auto simp: jz_aip_v20_action_def split: if_splits)
  then have "jz_aip_v20_release soc gp pid now d1 = aip_ref_put d1"
    using assms by (intro release_idle) simp_all
  with d1 assms(3) show ?thesis by (simp add: aip_ref_put_def jz_aip_v20_close_def Let_def)
qed

definition sample_opened :: "unit aip_dev" where
  "sample_opened = snd (jz_aip_v20_open sample_closed)"

lemma sample_opened_simps:
  "ref_count sample_opened = 1" "nna sample_opened = sample_nna" "f_ch sample_opened = q_init"
  "p_ch sample_opened = q_init" "t_ch sample_opened = q_init" "bo_handles (bos sample_opened) = []"
  by (simp_all add: sample_opened_def jz_aip_v20_open_def sample_closed_def jz_aip_v20_clk_def Let_def)

theorem ctx_lock_then_last_close_bugs_witness:
  "\<exists>d1. jz_aip_v20_action (still_soc False) \<lparr>totalram = 1, freeram = 1, totalcma_pages = 1, nr_free_cma_pages = 1\<rparr>
      True AIP_ACTION_CTX_LOCK sample_opened = Inr (0, Act_nothing, d1) \<and>
    jz_aip_v20_release (still_soc False) no_pool 7 1 d1 = Inl Kernel_bug"
proof -
  let ?d1 = "sample_opened\<lparr>nna := (nna sample_opened)\<lparr>nna_mutex := True\<rparr>\<rparr>"
  have lock: "jz_aip_v20_action (still_soc False)
      \<lparr>totalram = 1, freeram = 1, totalcma_pages = 1, nr_free_cma_pages = 1\<rparr>
      True AIP_ACTION_CTX_LOCK sample_opened = Inr (0, Act_nothing, ?d1)"
    by (simp add: jz_aip_v20_action_def sample_opened_simps sample_nna_def)
  have "jz_aip_v20_release (still_soc False) no_pool 7 1 ?d1 = Inl Kernel_bug"
    using ctx_lock_then_last_close_bugs [OF lock]
    by (simp add: sample_opened_simps sample_nna_def)
  with lock show ?thesis by blast
qed





text \<open>What can be mapped: page frame 0 gives the first page of physical memory
  whatever the mapping's length, any other frame but the one of the on-chip RAM is
  refused; a mapping of the on-chip RAM is as long as the caller likes, and its
  frame is compared after a 32-bit shift, so that frames beyond the address space
  pass.\<close>

theorem mmap_spec:
  "jz_aip_v20_mmap v = Inr (f, n, c) \<longleftrightarrow>
     (vm_pgoff v = 0 \<and> f = 0 \<and> n = 4096 \<and> c = Uncached) \<or>
     (vm_pgoff v AND 0xfffff = 0x12620 \<and> f = vm_pgoff v \<and> n = vm_end v - vm_start v \<and>
      c = Uncached_accelerated)"
proof -
  show ?thesis
    by (cases "vm_pgoff v = 0") (auto simp: jz_aip_v20_mmap_def shift_page_eq)
qed

text \<open>On an A1 part without the clock the probe reports success with nothing set up:
  it returns the error code of the register pointer, which is still NULL, and the
  device is as it was allocated.\<close>

theorem probe_missing_clock_succeeds:
  assumes "pe_kzalloc pe = Some d" "repair_a1 soc" "IS_ERR (pe_clk_gate pe)"
  shows "jz_aip_v20_probe soc pe = (0, Some d)"
  using assms by (simp add: jz_aip_v20_probe_def PTR_ERR_def)

theorem probe_missing_clock_succeeds_witness:
  "jz_aip_v20_probe (still_soc True) \<lparr>pe_kzalloc = Some sample_dev, pe_clk_gate = 0xfffffffe,
     pe_io_regs = 0xb3090000, pe_irqs = (0, 0, 0), pe_misc_register = 0, pe_pool = no_pool,
     pe_pool_create = Inl (- ENOMEM), pe_ioremap_wc = 0\<rparr> = (0, Some sample_dev)"
  by (rule probe_missing_clock_succeeds) (simp_all add: still_soc_def IS_ERR_def)

end
