(* ===== verification/IaicApi.thy ===== *)
theory IaicApi
  imports IaicFaults Drv
begin

text \<open>
  The calls of the user library, \<open>lib/src/iaic_api.c\<close> with the macros of
  \<open>lib/include/iaic.h\<close>: status, locks, cache, buffer objects, on-chip RAM, submission,
  waiting, conversion tasks and the accelerator's DMA. The kernel behind the file
  descriptor is a parameter with the type of the driver's own ioctl; \<open>jz_kernel\<close> is
  the driver of \<open>Drv\<close>. A call a signal interrupts comes back with \<open>EINTR\<close>, or the
  kernel restarts it: both repeat it with the argument as the driver left it.
\<close>

section \<open>The context\<close>

type_synonym 'd kernel = "ioctl_cmd \<Rightarrow> 'd \<Rightarrow> fault + (int \<times> ioctl_out \<times> 'd)"

definition ioctl_again :: "ioctl_cmd \<Rightarrow> ioctl_out \<Rightarrow> ioctl_cmd" where
  "ioctl_again cmd out = (case out of Io_wait w \<Rightarrow> IOCTL_AIP_V20_WAIT w | Io_bo b \<Rightarrow> IOCTL_AIP_V20_BO b | _ \<Rightarrow> cmd)"

definition lib_ioctl :: "nat \<Rightarrow> 'd kernel \<Rightarrow> 'd kernel" where
  "lib_ioctl fuel k cmd d =
     res_bind (iaic_ioctl fuel (\<lambda>(cmd, _) d. res_bind (k cmd d) (\<lambda>(r, out, d). Inr (r, (ioctl_again cmd out, out), d)))
       (cmd, Io_nothing) d) (\<lambda>(r, (_, out), d). Inr (r, out, d))"

definition jz_kernel :: "'p ioctl_env \<Rightarrow> 'p aip_dev kernel" where
  "jz_kernel ie cmd d = res_bind (jz_aip_v20_ioctl ie cmd d)
     (\<lambda>(r, out, d). Inr (if r = - ERESTARTSYS then - EINTR else r, out, d))"

record iaic_status =
  drv_version :: u32
  lib_version :: u32
  chip_version :: u32

record iaic_nna_status_t =
  ns_total_l2c_size :: u32
  ns_curr_l2c_size :: u32
  ns_oram_size :: u32
  ns_oram_vbase :: u32
  ns_oram_pbase :: u32
  ns_dma_size :: u32
  ns_dma_vbase :: u32
  ns_dma_pbase :: u32
  ns_dma_desram_size :: u32
  ns_dma_desram_vbase :: u32
  ns_dma_desram_pbase :: u32

record iaic_oram =
  or_offset :: u32
  or_size :: u32
  or_handle :: int
  or_vaddr :: u32
  or_paddr :: u32

record iaic_ctx =
  aip_fd :: int
  mem_fd :: int
  shm_id :: int
  c_status :: iaic_status
  c_nna :: iaic_nna_status_t
  shared_bo :: iaic_bo
  cpu_fast_iob :: u32
  aip_iob :: u32
  c_shm :: u32
  c_pool :: iaic_pool
  c_thread :: u32

definition AIP_V20_LIB_VERSION :: u32 where
  "AIP_V20_LIB_VERSION = push_bit 16 0x2 OR push_bit 8 0x0 OR 0x1"

section \<open>Status, lock, cache\<close>

text \<open>The versions the ioctl does not write are 0.\<close>

definition iaic_get_status :: "nat \<Rightarrow> 'd kernel \<Rightarrow> 'd \<Rightarrow> fault + (iaic_ret_code \<times> iaic_status \<times> 'd)" where
  "iaic_get_status fuel k d =
     res_bind (lib_ioctl fuel k (IOCTL_AIP_V20_ACTION AIP_ACTION_STATUS) d) (\<lambda>(_, out, d).
     let (drv, chip) = (case out of Io_action (Act_status drv chip) \<Rightarrow> (drv, chip) | _ \<Rightarrow> (0, 0));
         st = \<lparr>drv_version = drv, lib_version = AIP_V20_LIB_VERSION, chip_version = chip\<rparr>
     in Inr (if drv < AIP_V20_DRV_VERSION then IAIC_CODE_DRV_VERSION_NOMATCH else IAIC_CODE_OK, st, d))"

definition iaic_mutex_lock :: "nat \<Rightarrow> 'd kernel \<Rightarrow> 'd \<Rightarrow> fault + (iaic_ret_code \<times> 'd)" where
  "iaic_mutex_lock fuel k d =
     res_bind (lib_ioctl fuel k (IOCTL_AIP_V20_ACTION AIP_ACTION_CTX_LOCK) d) (\<lambda>(r, _, d).
     Inr (if r \<noteq> 0 then IAIC_CODE_SPIN_LOCK_FAIL else IAIC_CODE_OK, d))"

definition iaic_mutex_unlock :: "nat \<Rightarrow> 'd kernel \<Rightarrow> 'd \<Rightarrow> fault + (iaic_ret_code \<times> 'd)" where
  "iaic_mutex_unlock fuel k d =
     res_bind (lib_ioctl fuel k (IOCTL_AIP_V20_ACTION AIP_ACTION_CTX_UNLOCK) d) (\<lambda>(r, _, d).
     Inr (if r \<noteq> 0 then IAIC_CODE_SPIN_UNLOCK_FAIL else IAIC_CODE_OK, d))"

definition iaic_cacheflush :: "nat \<Rightarrow> 'd kernel \<Rightarrow> u32 \<Rightarrow> u32 \<Rightarrow> int \<Rightarrow> 'd \<Rightarrow> fault + (iaic_ret_code \<times> 'd)" where
  "iaic_cacheflush fuel k va sz dir d =
     res_bind (lib_ioctl fuel k (IOCTL_AIP_V20_ACTION (AIP_ACTION_CACHE_FLUSH va sz dir)) d) (\<lambda>(r, _, d).
     Inr (if r < 0 then IAIC_CODE_AIP_CACHE_FLUSH_FAIL else IAIC_CODE_OK, d))"

definition iaic_set_proc_nice :: "nat \<Rightarrow> 'd kernel \<Rightarrow> int \<Rightarrow> 'd \<Rightarrow> fault + (int \<times> 'd)" where
  "iaic_set_proc_nice fuel k v d =
     res_bind (lib_ioctl fuel k (IOCTL_AIP_V20_ACTION (AIP_ACTION_SET_PROC_NICE v)) d) (\<lambda>(r, _, d). Inr (r, d))"

text \<open>The counters are in kB, as the driver computes them; an unknown mode returns the ioctl's 0.\<close>

definition iaic_get_meminfo :: "nat \<Rightarrow> 'd kernel \<Rightarrow> int \<Rightarrow> 'd \<Rightarrow> fault + (int \<times> 'd)" where
  "iaic_get_meminfo fuel k mode d =
     res_bind (lib_ioctl fuel k (IOCTL_AIP_V20_ACTION AIP_ACTION_GET_MEMINFO) d) (\<lambda>(r, out, d).
     if r < 0 then Inr (- 1, d)
     else case out of
       Io_action (Act_meminfo m) \<Rightarrow>
         Inr (if mode = 0 then sint (mem_total m) else if mode = 1 then sint (mem_free m)
              else if mode = 2 then sint (cma_total m) else if mode = 3 then sint (cma_free m) else r, d)
     | _ \<Rightarrow> Inr (r, d))"

section \<open>Buffer objects\<close>

text \<open>The buffer-object ioctl of a kernel, as the pool uses it.\<close>

definition lib_bo_call :: "'d kernel \<Rightarrow> ioctl_bo \<Rightarrow> 'd \<Rightarrow> fault + (int \<times> ioctl_bo \<times> 'd)" where
  "lib_bo_call k io d = res_bind (k (IOCTL_AIP_V20_BO io) d)
     (\<lambda>(r, out, d). Inr (r, case out of Io_bo io' \<Rightarrow> io' | _ \<Rightarrow> io, d))"

definition bo_sys :: "'d kernel \<Rightarrow> (u32 \<Rightarrow> u32 \<Rightarrow> u32) \<Rightarrow> bool \<Rightarrow> 'd sys" where
  "bo_sys k mm malloc = \<lparr>sys_bo = lib_bo_call k, sys_mmap = mm, sys_malloc = malloc\<rparr>"

text \<open>\<open>iaic_create_bo\<close> and \<open>iaic_destroy_bo\<close> use the pool when the context has one; a
  failed pool allocation leaves the caller's \<open>iaic_bo_t\<close> alone.\<close>

definition iaic_create_bo :: "nat \<Rightarrow> 'd sys \<Rightarrow> u32 \<Rightarrow> iaic_bo \<Rightarrow> iaic_ctx \<Rightarrow> 'd \<Rightarrow>
    fault + (iaic_ret_code \<times> iaic_bo \<times> iaic_ctx \<times> 'd)" where
  "iaic_create_bo fuel sys sz bo ctx d =
     (if 1 < max_mem_size (c_pool ctx) then
        res_bind (iaic_fast_alloc_bo fuel sys (c_thread ctx) sz (c_pool ctx) d) (\<lambda>(r, b, p, d).
        Inr (r, case b of None \<Rightarrow> bo | Some b \<Rightarrow> b, ctx\<lparr>c_pool := p\<rparr>, d))
      else res_bind (iaic_alloc_bo fuel sys sz bo d) (\<lambda>(r, bo, d). Inr (r, bo, ctx, d)))"

definition iaic_destroy_bo :: "nat \<Rightarrow> 'd sys \<Rightarrow> iaic_bo \<Rightarrow> iaic_ctx \<Rightarrow> 'd \<Rightarrow>
    fault + (iaic_ret_code \<times> iaic_bo \<times> iaic_ctx \<times> 'd)" where
  "iaic_destroy_bo fuel sys bo ctx d =
     (if 1 < max_mem_size (c_pool ctx) then
        res_bind (iaic_fast_free_bo fuel sys bo (c_pool ctx) d) (\<lambda>(r, p, d). Inr (r, bo, ctx\<lparr>c_pool := p\<rparr>, d))
      else res_bind (iaic_free_bo fuel sys bo d) (\<lambda>(r, bo, d). Inr (r, bo, ctx, d)))"

text \<open>Buffers for node chains: on A1 there is one node more. \<open>num\<close> is an \<open>int\<close>.\<close>

definition iaic_create_fnode :: "nat \<Rightarrow> 'd sys \<Rightarrow> u32 \<Rightarrow> iaic_bo \<Rightarrow> iaic_ctx \<Rightarrow> 'd \<Rightarrow>
    fault + (iaic_ret_code \<times> iaic_bo \<times> iaic_ctx \<times> 'd)" where
  "iaic_create_fnode fuel sys num bo ctx d =
     (if sint num < 1 then Inr (IAIC_CODE_OK, bo, ctx, d)
      else let num = (if chip_version (c_status ctx) = 0xa1 then num + 1 else num)
           in iaic_create_bo fuel sys (num * 104) bo ctx d)"

definition iaic_create_pnode :: "nat \<Rightarrow> 'd sys \<Rightarrow> u32 \<Rightarrow> iaic_bo \<Rightarrow> iaic_ctx \<Rightarrow> 'd \<Rightarrow>
    fault + (iaic_ret_code \<times> iaic_bo \<times> iaic_ctx \<times> 'd)" where
  "iaic_create_pnode fuel sys num bo ctx d =
     (if sint num < 1 then Inr (IAIC_CODE_OK, bo, ctx, d)
      else let num = (if chip_version (c_status ctx) = 0xa1 then num + 1 else num)
           in iaic_create_bo fuel sys (num * 216) bo ctx d)"

section \<open>The accelerator\<close>

text \<open>What the status ioctl writes to its argument; the driver always writes it.\<close>

definition nna_written :: "ioctl_out \<Rightarrow> nna_status" where
  "nna_written out = (case out of Io_nna (Out_status s) \<Rightarrow> s
     | _ \<Rightarrow> \<lparr>st_total_l2c_size = 0, st_curr_l2c_size = 0, st_oram_size = 0, st_oram_pbase = 0,
            st_dma_size = 0, st_dma_pbase = 0, st_dma_desram_size = 0, st_dma_desram_pbase = 0\<rparr>)"

definition iaic_nna_status :: "nat \<Rightarrow> 'd kernel \<Rightarrow> iaic_nna_status_t \<Rightarrow> 'd \<Rightarrow>
    fault + (iaic_ret_code \<times> iaic_nna_status_t \<times> 'd)" where
  "iaic_nna_status fuel k st d =
     res_bind (lib_ioctl fuel k (IOCTL_NNA_V20_OP NNA_OP_STATUS) d) (\<lambda>(r, out, d).
     if r < 0 then Inr (IAIC_CODE_NNA_STATUS_FAIL, st, d)
     else let nna = nna_written out in
       Inr (IAIC_CODE_OK,
         \<lparr>ns_total_l2c_size = st_total_l2c_size nna, ns_curr_l2c_size = st_curr_l2c_size nna,
          ns_oram_size = st_oram_size nna, ns_oram_vbase = 0,
          ns_oram_pbase = st_oram_pbase nna + st_curr_l2c_size nna,
          ns_dma_size = st_dma_size nna, ns_dma_vbase = 0, ns_dma_pbase = st_dma_pbase nna,
          ns_dma_desram_size = st_dma_desram_size nna, ns_dma_desram_vbase = 0,
          ns_dma_desram_pbase = st_dma_desram_pbase nna\<rparr>, d))"

definition iaic_nna_oram_alloc :: "nat \<Rightarrow> 'd kernel \<Rightarrow> iaic_ctx \<Rightarrow> u32 \<Rightarrow> iaic_oram \<Rightarrow> 'd \<Rightarrow>
    fault + (iaic_ret_code \<times> iaic_oram \<times> 'd)" where
  "iaic_nna_oram_alloc fuel k ctx sz oram d =
     res_bind (lib_ioctl fuel k (IOCTL_NNA_V20_OP (NNA_OP_ORAM_ALLOC sz)) d) (\<lambda>(r, out, d).
     if r < 0 then Inr (IAIC_CODE_NNA_ORAM_ALLOC_FAIL, oram, d)
     else let (h, pa) = (case out of Io_nna (Out_oram h pa) \<Rightarrow> (h, pa) | _ \<Rightarrow> (0, 0));
              ofst = pa - ns_oram_pbase (c_nna ctx) + ns_curr_l2c_size (c_nna ctx)
          in Inr (IAIC_CODE_OK, \<lparr>or_offset = ofst, or_size = sz, or_handle = h,
               or_vaddr = ns_oram_vbase (c_nna ctx) - ns_curr_l2c_size (c_nna ctx) + ofst, or_paddr = pa\<rparr>, d))"

definition iaic_nna_oram_free :: "nat \<Rightarrow> 'd kernel \<Rightarrow> iaic_oram \<Rightarrow> 'd \<Rightarrow>
    fault + (iaic_ret_code \<times> iaic_oram \<times> 'd)" where
  "iaic_nna_oram_free fuel k oram d =
     res_bind (lib_ioctl fuel k (IOCTL_NNA_V20_OP (NNA_OP_ORAM_FREE (or_handle oram))) d) (\<lambda>(r, _, d).
     if r < 0 then Inr (IAIC_CODE_NNA_ORAM_FREE_FAIL, oram, d)
     else Inr (IAIC_CODE_OK, oram\<lparr>or_handle := 0\<rparr>, d))"

definition iaic_nna_mutex_lock_internal :: "nat \<Rightarrow> 'd kernel \<Rightarrow> bool \<Rightarrow> user_name \<Rightarrow> 'd \<Rightarrow>
    fault + (iaic_ret_code \<times> 'd)" where
  "iaic_nna_mutex_lock_internal fuel k is_try name d =
     res_bind (lib_ioctl fuel k (IOCTL_NNA_V20_OP
       (if is_try then NNA_OP_MUTEX_TRYLOCK name else NNA_OP_MUTEX_LOCK name)) d) (\<lambda>(r, _, d).
     Inr (if r < 0 then IAIC_CODE_NNA_MUTEX_LOCK_FAIL else IAIC_CODE_OK, d))"

text \<open>The CPU mask the call also passes has no part in the driver's model.\<close>

definition iaic_nna_mutex_unlock_internal :: "nat \<Rightarrow> 'd kernel \<Rightarrow> bool \<Rightarrow> 'd \<Rightarrow>
    fault + (iaic_ret_code \<times> 'd)" where
  "iaic_nna_mutex_unlock_internal fuel k is_force d =
     res_bind (lib_ioctl fuel k (IOCTL_NNA_V20_OP (NNA_OP_MUTEX_UNLOCK is_force)) d) (\<lambda>(r, _, d).
     Inr (if r < 0 then IAIC_CODE_NNA_MUTEX_UNLOCK_FAIL else IAIC_CODE_OK, d))"

section \<open>Submitting and waiting\<close>

text \<open>The number a submission gives back, \<open>None\<close> when nothing was written.\<close>

definition seqno_written :: "ioctl_out \<Rightarrow> u64 option" where
  "seqno_written out = (case out of Io_seqno s \<Rightarrow> s | _ \<Rightarrow> None)"

definition iaic_aip_f_chain_submit :: "nat \<Rightarrow> 'd kernel \<Rightarrow> iaic_ctx \<Rightarrow> submit_f \<Rightarrow> 'd \<Rightarrow>
    fault + (iaic_ret_code \<times> submit_f \<times> u64 option \<times> 'd)" where
  "iaic_aip_f_chain_submit fuel k ctx submit d =
     (let submit = (if chip_version (c_status ctx) = 0xa1
                    then submit\<lparr>f_node_num := f_node_num submit + 1\<rparr> else submit)
      in res_bind (lib_ioctl fuel k (IOCTL_AIP_V20_SUBMIT (AIP_CH_OP_F submit)) d) (\<lambda>(r, out, d).
         Inr (if r < 0 then IAIC_CODE_AIP_F_SUBMIT_FAIL else IAIC_CODE_OK, submit, seqno_written out, d)))"

definition iaic_aip_p_chain_submit :: "nat \<Rightarrow> 'd kernel \<Rightarrow> iaic_ctx \<Rightarrow> submit_p \<Rightarrow> 'd \<Rightarrow>
    fault + (iaic_ret_code \<times> submit_p \<times> u64 option \<times> 'd)" where
  "iaic_aip_p_chain_submit fuel k ctx submit d =
     (let submit = (if chip_version (c_status ctx) = 0xa1
                    then submit\<lparr>p_node_num := p_node_num submit + 1\<rparr> else submit)
      in res_bind (lib_ioctl fuel k (IOCTL_AIP_V20_SUBMIT (AIP_CH_OP_P submit)) d) (\<lambda>(r, out, d).
         Inr (if r < 0 then IAIC_CODE_AIP_P_SUBMIT_FAIL else IAIC_CODE_OK, submit, seqno_written out, d)))"

text \<open>A node the caller does not give is a NULL pointer that is read.\<close>

definition iaic_aip_t_submit :: "nat \<Rightarrow> 'd kernel \<Rightarrow> submit_t \<Rightarrow> 'd \<Rightarrow>
    fault + (iaic_ret_code \<times> u64 option \<times> 'd)" where
  "iaic_aip_t_submit fuel k submit d = (case t_node submit of
     None \<Rightarrow> Inl Null_deref
   | Some node \<Rightarrow>
       if task_len node < 2 \<or> src_h node < 2 then Inr (IAIC_CODE_AIP_T_SUBMIT_FAIL, None, d)
       else res_bind (lib_ioctl fuel k (IOCTL_AIP_V20_SUBMIT (AIP_CH_OP_T submit)) d) (\<lambda>(r, out, d).
         Inr (if r < 0 then IAIC_CODE_AIP_T_SUBMIT_FAIL else IAIC_CODE_OK, seqno_written out, d)))"

text \<open>The macros \<open>iaic_aip_f_chain\<close>, \<open>iaic_aip_p_chain\<close> and \<open>iaic_aip_t\<close>.\<close>

definition iaic_aip_f_chain :: "nat \<Rightarrow> 'd kernel \<Rightarrow> iaic_ctx \<Rightarrow> u32 \<Rightarrow> u32 \<Rightarrow> u32 \<Rightarrow> iaic_bo \<Rightarrow> u32 \<Rightarrow>
    user_name \<Rightarrow> 'd \<Rightarrow> fault + (iaic_ret_code \<times> u64 option \<times> 'd)" where
  "iaic_aip_f_chain fuel k ctx format pos_in pos_out bo node_num name d =
     res_bind (iaic_aip_f_chain_submit fuel k ctx
       \<lparr>f_format = format, f_pos_in = pos_in, f_pos_out = pos_out, f_node_handle = ib_handle bo,
        f_node_num = node_num, f_paddr = ib_paddr bo, f_name = name\<rparr> d) (\<lambda>(r, _, s, d). Inr (r, s, d))"

definition iaic_aip_p_chain :: "nat \<Rightarrow> 'd kernel \<Rightarrow> iaic_ctx \<Rightarrow> u32 \<Rightarrow> u32 \<Rightarrow> u32 \<Rightarrow> nv2bgr_offset \<Rightarrow>
    (nat \<Rightarrow> u32) option \<Rightarrow> iaic_bo \<Rightarrow> u32 \<Rightarrow> user_name \<Rightarrow> 'd \<Rightarrow> fault + (iaic_ret_code \<times> u64 option \<times> 'd)" where
  "iaic_aip_p_chain fuel k ctx mode pos_in pos_out ofst param bo node_num name d =
     res_bind (iaic_aip_p_chain_submit fuel k ctx
       \<lparr>p_mode = mode, p_offset = ofst, p_pos_in = pos_in, p_pos_out = pos_out,
        p_node_handle = ib_handle bo, p_node_num = node_num, p_paddr = ib_paddr bo,
        p_param = param, p_name = name\<rparr> d) (\<lambda>(r, _, s, d). Inr (r, s, d))"

definition iaic_aip_t :: "nat \<Rightarrow> 'd kernel \<Rightarrow> u32 \<Rightarrow> u32 \<Rightarrow> nv2bgr_offset \<Rightarrow> (nat \<Rightarrow> u32) option \<Rightarrow>
    aip_v20_t_node option \<Rightarrow> user_name \<Rightarrow> 'd \<Rightarrow> fault + (iaic_ret_code \<times> u64 option \<times> 'd)" where
  "iaic_aip_t fuel k pos_in pos_out ofst param node name d =
     iaic_aip_t_submit fuel k \<lparr>t_offset = ofst, t_pos_in = pos_in, t_pos_out = pos_out, t_param = param,
       t_node = node, t_name = name\<rparr> d"

text \<open>The macro \<open>iaic_aip_wait\<close>: the code and the time the driver reports. The
  argument's \<open>wait_time\<close> is not set before the call.\<close>

definition iaic_aip_wait :: "nat \<Rightarrow> 'd kernel \<Rightarrow> ch_op \<Rightarrow> u64 \<Rightarrow> u64 \<Rightarrow> 'd \<Rightarrow>
    fault + (iaic_ret_code \<times> int \<times> 'd)" where
  "iaic_aip_wait fuel k op seqno tmo d =
     res_bind (lib_ioctl fuel k (IOCTL_AIP_V20_WAIT \<lparr>w_op = op, w_seqno = seqno, timeout_ns = tmo, wait_time = 0\<rparr>) d)
       (\<lambda>(r, out, d). Inr (if r < 0 then IAIC_CODE_AIP_WAIT_FAIL else IAIC_CODE_OK,
          case out of Io_wait w \<Rightarrow> wait_time w | _ \<Rightarrow> 0, d))"

definition iaic_aip_f_wait :: "nat \<Rightarrow> 'd kernel \<Rightarrow> u64 \<Rightarrow> u64 \<Rightarrow> 'd \<Rightarrow> fault + (iaic_ret_code \<times> int \<times> 'd)" where
  "iaic_aip_f_wait fuel k = iaic_aip_wait fuel k CH_F"

definition iaic_aip_p_wait :: "nat \<Rightarrow> 'd kernel \<Rightarrow> u64 \<Rightarrow> u64 \<Rightarrow> 'd \<Rightarrow> fault + (iaic_ret_code \<times> int \<times> 'd)" where
  "iaic_aip_p_wait fuel k = iaic_aip_wait fuel k CH_P"

definition iaic_aip_t_wait :: "nat \<Rightarrow> 'd kernel \<Rightarrow> u64 \<Rightarrow> u64 \<Rightarrow> 'd \<Rightarrow> fault + (iaic_ret_code \<times> int \<times> 'd)" where
  "iaic_aip_t_wait fuel k = iaic_aip_wait fuel k CH_T"

section \<open>Conversion tasks\<close>

definition iaic_convert_config :: "nat \<Rightarrow> 'd kernel \<Rightarrow> u32 \<Rightarrow> u32 \<Rightarrow> nv2bgr_offset \<Rightarrow> (nat \<Rightarrow> u32) option \<Rightarrow>
    aip_v20_t_node option \<Rightarrow> user_name \<Rightarrow> 'd \<Rightarrow> fault + (iaic_ret_code \<times> u64 option \<times> 'd)" where
  "iaic_convert_config fuel k pos_in pos_out ofst param node name d = (case node of
     None \<Rightarrow> Inl Null_deref
   | Some n \<Rightarrow>
       if task_len n < 2 \<or> src_h n < 2 then Inr (IAIC_CODE_AIP_T_SUBMIT_FAIL, None, d)
       else res_bind (lib_ioctl fuel k (IOCTL_AIP_V20_SUBMIT (AIP_CH_OP_T_TASK
           \<lparr>t_offset = ofst, t_pos_in = pos_in, t_pos_out = pos_out, t_param = param,
            t_node = Some n, t_name = name\<rparr>)) d) (\<lambda>(r, out, d).
         Inr (if r < 0 then IAIC_CODE_AIP_T_SUBMIT_FAIL else IAIC_CODE_OK, seqno_written out, d)))"

text \<open>The engine's registers are mapped into the process: \<open>iaic_readl\<close>, \<open>iaic_writel\<close>.\<close>

definition iaic_readl :: "io \<Rightarrow> u32 \<Rightarrow> u32" where
  "iaic_readl s ofst = readl s ofst"

definition iaic_writel :: "soc \<Rightarrow> u32 \<Rightarrow> u32 \<Rightarrow> io \<Rightarrow> io" where
  "iaic_writel soc ofst v s = writel soc ofst v s"

definition iaic_aip_task_start :: "soc \<Rightarrow> io \<Rightarrow> fault + io" where
  "iaic_aip_task_start soc s =
     poll soc (\<lambda>r. r 0 AND 0x10 = 0x10) (iaic_writel soc 0 (push_bit 4 0x1) s)"

definition iaic_convert_start :: "soc \<Rightarrow> u32 \<Rightarrow> u32 \<Rightarrow> io \<Rightarrow> fault + io" where
  "iaic_convert_start soc dst len s =
     iaic_aip_task_start soc (iaic_writel soc 0x10 len (iaic_writel soc 0x1c dst s))"

definition iaic_convert_wait :: "soc \<Rightarrow> io \<Rightarrow> fault + io" where
  "iaic_convert_wait soc s =
     res_bind (poll soc (\<lambda>r. 0x10 \<noteq> r 0 AND 0x10) s) (poll soc (\<lambda>r. 0x08 = r 0 AND 0x08))"

definition iaic_convert_exit :: "nat \<Rightarrow> 'd kernel \<Rightarrow> 'd \<Rightarrow> fault + (iaic_ret_code \<times> 'd)" where
  "iaic_convert_exit fuel k d =
     res_bind (lib_ioctl fuel k (IOCTL_AIP_V20_WAIT
       \<lparr>w_op = CH_T_TASK, w_seqno = 0, timeout_ns = - 1, wait_time = 0\<rparr>) d) (\<lambda>(r, _, d).
     Inr (if r < 0 then IAIC_CODE_AIP_WAIT_FAIL else IAIC_CODE_OK, d))"

section \<open>The accelerator's DMA\<close>

text \<open>A transfer: two descriptor words in the descriptor RAM, then the start bit in the
  channel's register at \<open>dma_oft\<close>. \<open>None\<close> when the request is refused.\<close>

record nndma_cmd =
  desc0 :: u32
  desc1 :: u32
  doorbell :: u32

definition iaic_nndma_start :: "u32 \<Rightarrow> u32 \<Rightarrow> u32 \<Rightarrow> u32 \<Rightarrow> iaic_ret_code \<times> nndma_cmd option" where
  "iaic_nndma_start bo_paddr oram_paddr sz dma_oft =
     (if sz AND 0x3f \<noteq> 0 then (IAIC_CODE_other (- 1), None)
      else if oram_paddr AND 0x12000000 = 0 then (IAIC_CODE_other (- 1), None)
      else
        let sz = drop_bit 6 sz;
            sz = sz - 1
        in if 0x20000 < sz then (IAIC_CODE_other (- 1), None)
           else
             let (dma_size1, dma_size2) =
                   (if 0x1000 < sz then (sz AND 0xfff, push_bit 1 (drop_bit 12 sz AND 0x1f)) else (sz, 0));
                 oram_oft = oram_paddr - 0x12600000
             in (IAIC_CODE_OK, Some \<lparr>desc0 = bo_paddr OR dma_size2,
                  desc1 = push_bit 20 dma_size1 OR drop_bit 6 oram_oft, doorbell = dma_oft\<rparr>))"

section \<open>The DMA's length\<close>

text \<open>The length field as the two descriptor words hold it: five bits of the first word
  above twelve of the second.\<close>

definition nndma_len :: "nndma_cmd \<Rightarrow> u32" where
  "nndma_len c = push_bit 12 (drop_bit 1 (desc0 c) AND 0x1f) OR drop_bit 20 (desc1 c)"

lemma small_word_bit: "unat w < 2 ^ k \<Longrightarrow> bit w j \<Longrightarrow> j < k" for w :: "'a::len word"
proof (rule ccontr)
  assume "unat w < 2 ^ k" "bit w j" "\<not> j < k"
  then have "unat w < 2 ^ j" by (meson le_less_trans not_le_imp_less order_less_le_trans power_increasing one_le_numeral leI)
  moreover have "odd (unat w div 2 ^ j)" using \<open>bit w j\<close> by (simp add: bit_unsigned_iff bit_iff_odd [of "unat w", symmetric])
  ultimately show False by simp
qed

lemma masks: "(0x3f :: u32) = mask 6" "(0x1f :: u32) = mask 5" "(0xfff :: u32) = mask 12"
  by (simp_all add: mask_eq_exp_minus_1)

lemma aligned_bit:
  fixes p :: u32
  assumes "p AND 0x3f = 0" "j < 6"
  shows "\<not> bit p j"
proof
  assume "bit p j"
  then have "bit (p AND mask 6) j" using assms(2) by (simp add: bit_simps)
  then show False using assms(1) by (simp add: masks)
qed

lemma nndma_len_packs:
  assumes "unat n < 2 ^ 17" "n \<noteq> 0x1000" "p AND 0x3f = 0" "unat q < 2 ^ 26"
    "(s1, s2) = (if 0x1000 < n then (n AND 0xfff, push_bit 1 (drop_bit 12 n AND 0x1f)) else (n, 0 :: u32))"
  shows "nndma_len \<lparr>desc0 = p OR s2, desc1 = push_bit 20 s1 OR drop_bit 6 q, doorbell = db\<rparr> = n"
proof (rule bit_word_eqI)
  fix i
  assume i: "i < LENGTH(32)"
  have hi: "\<not> bit n j" if "17 \<le> j" for j using small_word_bit [OF assms(1), of j] that by auto
  have qhi: "\<not> bit q j" if "26 \<le> j" for j using small_word_bit [OF assms(4), of j] that by auto
  note plo = aligned_bit [OF assms(3)]
  show "bit (nndma_len \<lparr>desc0 = p OR s2, desc1 = push_bit 20 s1 OR drop_bit 6 q, doorbell = db\<rparr>) i = bit n i"
  proof (cases "0x1000 < n")
    case True
    then have s: "s1 = n AND mask 12" "s2 = push_bit 1 (drop_bit 12 n AND mask 5)" using assms(5) by (simp_all add: masks)
    have s2: "bit s2 (Suc j) \<longleftrightarrow> bit n (12 + j) \<and> j < 5" if "j < 31" for j
      unfolding s(2) using that by (simp only: bit_push_bit_iff bit_and_iff bit_drop_bit_eq bit_mask_iff) auto
    consider "i < 12" | "12 \<le> i \<and> i < 17" | "17 \<le> i" by linarith
    then show ?thesis
    proof cases
      case 2
      then obtain j where j: "i = 12 + j" "j < 5" using le_Suc_ex [of 12 i] by auto
      with i hi qhi plo s2 [of j] show ?thesis by (auto simp: nndma_len_def s(1) masks bit_simps)
    qed (use i hi qhi in \<open>auto simp: nndma_len_def s(1) masks bit_simps\<close>)
  next
    case False
    then have s: "s1 = n" "s2 = 0" using assms(5) by simp_all
    have "unat n \<le> 4096" "unat n \<noteq> 4096"
      using False assms(2) by (simp_all add: word_less_nat_alt word_unat_eq_iff)
    then have "unat n < 2 ^ 12" by simp
    then have lo: "\<not> bit n j" if "12 \<le> j" for j using small_word_bit [of n 12 j] that by auto
    consider "i < 12" | "12 \<le> i" "i < 17" | "17 \<le> i" by linarith
    then show ?thesis
      using i lo qhi plo by cases (auto simp: nndma_len_def s masks bit_simps)
  qed
qed

text \<open>Addresses of the on-chip RAM pass the test of the address.\<close>

lemma oram_check:
  assumes "0x12600000 \<le> a" "a < 0x12800000"
  shows "a AND 0x12000000 \<noteq> (0 :: u32)" "unat (a - 0x12600000) < 2 ^ 26"
proof -
  have r: "0x12600000 \<le> unat a" "unat a < 0x12800000"
    using assms by (simp_all add: word_le_nat_alt word_less_nat_alt)
  then have "unat a div 2 ^ 28 = 1" by simp
  then have "bit (unat a) 28" by (simp add: bit_iff_odd)
  then have "bit a 28" by (simp add: bit_unsigned_iff)
  then have "bit (a AND 0x12000000) 28" by (simp add: bit_and_iff)
  then show "a AND 0x12000000 \<noteq> 0" by (metis bit_0_eq bot_apply bot_bool_def)
  show "unat (a - 0x12600000) < 2 ^ 26" using r assms(1) by (simp add: unat_sub)
qed

text \<open>The accelerator's DMA is told the length it was asked for: for a 64-byte aligned
  buffer and an address in the on-chip RAM, the descriptor's length field is the number
  of 64-byte units less one, except for one length.\<close>

theorem nndma_length_roundtrip:
  assumes "sz AND 0x3f = 0" "0 < sz" "sz \<le> 0x800000" "sz \<noteq> 0x40040"
    "bo_paddr AND 0x3f = 0" "0x12600000 \<le> oram_paddr" "oram_paddr < 0x12800000"
  shows "\<exists>c. iaic_nndma_start bo_paddr oram_paddr sz dma_oft = (IAIC_CODE_OK, Some c) \<and>
    nndma_len c = drop_bit 6 sz - 1 \<and> doorbell c = dma_oft"
proof -
  define n where "n = drop_bit 6 sz - 1"
  have "take_bit 6 sz = 0" using assms(1) by (simp add: masks take_bit_eq_mask)
  then have "unat (take_bit 6 sz) = 0" by simp
  then have m: "unat sz mod 64 = 0" unfolding unsigned_take_bit_eq by (simp add: take_bit_eq_mod)
  have d: "unat (drop_bit 6 sz) = unat sz div 64" by (simp add: drop_bit_eq_div unat_div)
  have b: "0 < unat sz" "unat sz \<le> 0x800000" "unat sz \<noteq> 0x40040"
    using assms(2-4) by (simp_all add: word_less_nat_alt word_le_nat_alt word_unat_eq_iff)
  have "unat (drop_bit 6 sz) \<noteq> 0" using b(1) m d by auto
  then have "1 \<le> drop_bit 6 sz" by (simp add: word_le_nat_alt)
  then have n: "unat n = unat sz div 64 - 1" by (simp add: n_def unat_sub d)
  have small: "unat n < 2 ^ 17" using n b by simp
  have "unat n \<noteq> 0x1000"
  proof
    assume "unat n = 0x1000"
    then have "unat sz div 64 = 0x1001" using n by simp
    moreover have "unat sz = unat sz div 64 * 64" using m by (metis mult_div_mod_eq add_0_right mult.commute)
    ultimately show False using b(3) by simp
  qed
  then have ne: "n \<noteq> 0x1000" by auto
  note q = oram_check(2) [OF assms(6,7)]
  note o' = oram_check [OF assms(6,7)]
  have lim: "\<not> 0x20000 < n" using small by (simp add: word_less_nat_alt)
  obtain s1 s2 where sp: "(if 0x1000 < n then (n AND 0xfff, push_bit 1 (drop_bit 12 n AND 0x1f)) else (n, 0)) = (s1, s2)"
    by (metis surj_pair)
  have "iaic_nndma_start bo_paddr oram_paddr sz dma_oft = (IAIC_CODE_OK,
      Some \<lparr>desc0 = bo_paddr OR s2, desc1 = push_bit 20 s1 OR drop_bit 6 (oram_paddr - 0x12600000), doorbell = dma_oft\<rparr>)"
    using assms(1) o'(1) lim sp unfolding iaic_nndma_start_def Let_def n_def by simp
  moreover have "nndma_len \<lparr>desc0 = bo_paddr OR s2, desc1 = push_bit 20 s1 OR drop_bit 6 (oram_paddr - 0x12600000), doorbell = dma_oft\<rparr> = n"
    by (rule nndma_len_packs [OF small ne assms(5) q sp [symmetric]])
  ultimately show ?thesis by (simp add: n_def)
qed

theorem nndma_length_roundtrip_witness:
  "\<exists>c. iaic_nndma_start 0x6000000 0x12620000 0x80000 0x10 = (IAIC_CODE_OK, Some c) \<and>
    nndma_len c = 0x1fff \<and> doorbell c = 0x10"
  using nndma_length_roundtrip [of "0x80000" "0x6000000" "0x12620000" "0x10"] by simp

text \<open>The two lengths at the edges of the length field are accepted and lost: the
  transfer of 0x40040 bytes and the longest one, of 0x800040 bytes, are programmed with
  the length of a single unit.\<close>

theorem nndma_lengths_lost:
  assumes "sz \<in> {0x40040, 0x800040}" "bo_paddr AND 0x3f = 0" "0x12600000 \<le> oram_paddr" "oram_paddr < 0x12800000"
  shows "\<exists>c. iaic_nndma_start bo_paddr oram_paddr sz dma_oft = (IAIC_CODE_OK, Some c) \<and> nndma_len c = 0"
proof -
  note o' = oram_check [OF assms(3,4)]
  have "nndma_len \<lparr>desc0 = bo_paddr OR 0, desc1 = push_bit 20 0 OR drop_bit 6 (oram_paddr - 0x12600000), doorbell = dma_oft\<rparr> = 0"
    by (rule nndma_len_packs [OF _ _ assms(2) o'(2)]) simp_all
  then have z: "nndma_len \<lparr>desc0 = bo_paddr, desc1 = drop_bit 6 (oram_paddr - 0x12600000), doorbell = dma_oft\<rparr> = 0"
    by simp
  from assms(1) show ?thesis
  proof (elim insertE emptyE)
    assume "sz = 0x40040"
    have wrap: "(4294967296 :: u32) = 0" by (subst word_unat_eq_iff) simp
    from \<open>sz = 0x40040\<close> have "iaic_nndma_start bo_paddr oram_paddr sz dma_oft = (IAIC_CODE_OK,
      Some \<lparr>desc0 = bo_paddr, desc1 = drop_bit 6 (oram_paddr - 0x12600000), doorbell = dma_oft\<rparr>)"
      using o'(1) by (simp add: iaic_nndma_start_def Let_def wrap)
    with z show ?thesis by blast
  next
    assume "sz = 0x800040"
    with o'(1) have "iaic_nndma_start bo_paddr oram_paddr sz dma_oft = (IAIC_CODE_OK,
      Some \<lparr>desc0 = bo_paddr, desc1 = drop_bit 6 (oram_paddr - 0x12600000), doorbell = dma_oft\<rparr>)"
      by (simp add: iaic_nndma_start_def Let_def)
    with z show ?thesis by blast
  qed
qed

theorem nndma_lengths_lost_witness:
  "\<exists>c. iaic_nndma_start 0x6000000 0x12620000 0x40040 0 = (IAIC_CODE_OK, Some c) \<and> nndma_len c = 0"
  using nndma_lengths_lost [of "0x40040" "0x6000000" "0x12620000" 0] by simp

end
