(* ===== verification/IaicJobs.thy ===== *)
theory IaicJobs
  imports IaicApi
begin

text \<open>
  The library on the driver: the buffers it sizes for node chains hold everything the
  driver writes into them, and a job submitted through the library, completed by the
  engine and waited for through the library is reported as done.
\<close>

section \<open>Node buffers\<close>

lemma words_bound_f:
  "(k, v) \<in> set (f_chain_writes soc num) \<Longrightarrow>
   k < 26 * (f_node_count soc num + (if repair_a1 soc then 1 else 0))"
  using f_chain.patch_bound [of soc "f_node_count soc num" "repair_a1 soc"]
  by (fastforce simp: f_chain_writes_patch chain_nodes_def)

lemma words_bound_p:
  "(k, v) \<in> set (p_chain_writes soc mode ofst num) \<Longrightarrow>
   k < 54 * (p_node_count soc num + (if repair_a1 soc then 1 else 0))"
  using p_chain.patch_bound [of soc mode ofst "p_node_count soc num" "repair_a1 soc"]
  by (fastforce simp: p_chain_writes_patch chain_nodes_def)

text \<open>The number of nodes the library submits, and the buffer it makes for them.\<close>

lemma node_num_sums:
  assumes "num < (0x1000000 :: u32)" "one \<in> {0, 1 :: u32}"
  shows "unat (num + one) = unat num + unat one" "sint num = int (unat num)"
    "c \<le> 216 \<Longrightarrow> unat ((num + one) * of_nat c) = (unat num + unat one) * c"
proof -
  have u: "unat num < 0x1000000" using assms(1) by (simp add: word_less_nat_alt)
  show un: "unat (num + one) = unat num + unat one"
    using u assms(2) by (subst unat_add_lem [THEN iffD1]) auto
  show "sint num = int (unat num)" using u by (simp add: sint_pos_u32 word_less_nat_alt)
  assume c: "c \<le> 216"
  have "(unat num + unat one) * c \<le> (0x1000000 + 1) * 216"
    using u assms(2) c by (intro mult_le_mono) auto
  then show "unat ((num + one) * of_nat c) = (unat num + unat one) * c"
    using c by (subst unat_mult_lem [THEN iffD1]) (auto simp: un unat_of_nat)
qed

text \<open>A buffer of \<open>iaic_create_fnode\<close> for \<open>num\<close> nodes holds the chain that is submitted with
  \<open>num\<close>: the driver's writes stay inside it, on A1 the extra node included, and the
  size the engine is told is the size of the buffer.\<close>

theorem fnode_buffer_holds_chain:
  assumes "1 \<le> sint num" "num < 0x1000000" "chip_version (c_status ctx) = (if repair_a1 soc then 0xa1 else 0x41)"
  shows "\<exists>sz n. iaic_create_fnode fuel sys num bo ctx d = iaic_create_bo fuel sys sz bo ctx d \<and>
    (\<forall>k dat d. f_node_num dat = num \<longrightarrow> iaic_aip_f_chain_submit fuel' k ctx dat d =
       res_bind (lib_ioctl fuel' k (IOCTL_AIP_V20_SUBMIT (AIP_CH_OP_F (dat\<lparr>f_node_num := n\<rparr>))) d) (\<lambda>(r, out, d).
         Inr (if r < 0 then IAIC_CODE_AIP_F_SUBMIT_FAIL else IAIC_CODE_OK, dat\<lparr>f_node_num := n\<rparr>, seqno_written out, d))) \<and>
    (\<forall>(k, v) \<in> set (f_chain_writes soc n). 4 * k + 4 \<le> unat sz) \<and> n * 104 = sz"
proof -
  let ?one = "if repair_a1 soc then 1 else 0 :: u32"
  have one: "?one \<in> {0, 1}" by simp
  note n = node_num_sums [OF assms(2) one]
  have sz: "unat ((num + ?one) * 104) = (unat num + unat ?one) * 104" using n(3) [of 104] by simp
  have cnt: "f_node_count soc (num + ?one) = unat num" by (simp add: f_node_count_def n(2))
  have w: "4 * k + 4 \<le> unat ((num + ?one) * 104)" if "(k, v) \<in> set (f_chain_writes soc (num + ?one))" for k v
  proof -
    have "k < 26 * (unat num + unat ?one)" using words_bound_f [OF that] cnt by auto
    then show ?thesis unfolding sz by simp
  qed
  show ?thesis
    by (intro exI [of _ "(num + ?one) * 104"] exI [of _ "num + ?one"] conjI)
      (use assms(1,3) w in \<open>auto simp: iaic_create_fnode_def iaic_aip_f_chain_submit_def Let_def\<close>)
qed

text \<open>The same for the nodes of the P channel.\<close>

theorem pnode_buffer_holds_chain:
  assumes "1 \<le> sint num" "num < 0x1000000" "chip_version (c_status ctx) = (if repair_a1 soc then 0xa1 else 0x41)"
  shows "\<exists>sz n. iaic_create_pnode fuel sys num bo ctx d = iaic_create_bo fuel sys sz bo ctx d \<and>
    (\<forall>k dat d. p_node_num dat = num \<longrightarrow> iaic_aip_p_chain_submit fuel' k ctx dat d =
       res_bind (lib_ioctl fuel' k (IOCTL_AIP_V20_SUBMIT (AIP_CH_OP_P (dat\<lparr>p_node_num := n\<rparr>))) d) (\<lambda>(r, out, d).
         Inr (if r < 0 then IAIC_CODE_AIP_P_SUBMIT_FAIL else IAIC_CODE_OK, dat\<lparr>p_node_num := n\<rparr>, seqno_written out, d))) \<and>
    (\<forall>mode ofst. \<forall>(k, v) \<in> set (p_chain_writes soc mode ofst n). 4 * k + 4 \<le> unat sz) \<and> n * 216 = sz"
proof -
  let ?one = "if repair_a1 soc then 1 else 0 :: u32"
  have one: "?one \<in> {0, 1}" by simp
  note n = node_num_sums [OF assms(2) one]
  have sz: "unat ((num + ?one) * 216) = (unat num + unat ?one) * 216" using n(3) [of 216] by simp
  have cnt: "p_node_count soc (num + ?one) = unat num" by (simp add: p_node_count_def n(2))
  have w: "4 * k + 4 \<le> unat ((num + ?one) * 216)" if "(k, v) \<in> set (p_chain_writes soc mode ofst (num + ?one))" for k v mode ofst
  proof -
    have "k < 54 * (unat num + unat ?one)" using words_bound_p [OF that] cnt by auto
    then show ?thesis unfolding sz by simp
  qed
  show ?thesis
    by (intro exI [of _ "(num + ?one) * 216"] exI [of _ "num + ?one"] conjI)
      (use assms(1,3) w in \<open>auto simp: iaic_create_pnode_def iaic_aip_p_chain_submit_def Let_def\<close>)
qed

section \<open>A job's way through the library\<close>

definition sample_ctx :: iaic_ctx where
  "sample_ctx = \<lparr>aip_fd = 3, mem_fd = 4, shm_id = 0,
     c_status = \<lparr>drv_version = AIP_V20_DRV_VERSION, lib_version = AIP_V20_LIB_VERSION, chip_version = 0xa1\<rparr>,
     c_nna = \<lparr>ns_total_l2c_size = 0x80000, ns_curr_l2c_size = 0x20000, ns_oram_size = 0x60000,
       ns_oram_vbase = 0x71000000, ns_oram_pbase = 0x12620000, ns_dma_size = 0x20, ns_dma_vbase = 0x72000000,
       ns_dma_pbase = 0x12508000, ns_dma_desram_size = 0x4000, ns_dma_desram_vbase = 0x73000000,
       ns_dma_desram_pbase = 0x12500000\<rparr>,
     shared_bo = sample_bo, cpu_fast_iob = 0x74000000, aip_iob = 0x75000000, c_shm = 0x76000000,
     c_pool = started_pool, c_thread = 0\<rparr>"

theorem fnode_buffer_holds_chain_witness:
  "\<exists>sz n. iaic_create_fnode 1 no_mem_sys 5 sample_bo sample_ctx () = iaic_create_bo 1 no_mem_sys sz sample_bo sample_ctx () \<and>
    (\<forall>(k, v) \<in> set (f_chain_writes (still_soc True) n). 4 * k + 4 \<le> unat sz) \<and> n * 104 = sz"
proof -
  have num: "1 \<le> sint (5 :: u32)" "(5 :: u32) < 0x1000000" by simp_all
  have "chip_version (c_status sample_ctx) = (if repair_a1 (still_soc True) then 0xa1 else 0x41)"
    by (simp add: sample_ctx_def still_soc_def)
  from fnode_buffer_holds_chain [OF num this, of 1 no_mem_sys sample_bo "()" 0] show ?thesis
    by - (elim exE conjE, intro exI conjI)
qed

theorem pnode_buffer_holds_chain_witness:
  "\<exists>sz n. iaic_create_pnode 1 no_mem_sys 5 sample_bo sample_ctx () = iaic_create_bo 1 no_mem_sys sz sample_bo sample_ctx () \<and>
    (\<forall>mode ofst. \<forall>(k, v) \<in> set (p_chain_writes (still_soc True) mode ofst n). 4 * k + 4 \<le> unat sz) \<and> n * 216 = sz"
proof -
  have num: "1 \<le> sint (5 :: u32)" "(5 :: u32) < 0x1000000" by simp_all
  have "chip_version (c_status sample_ctx) = (if repair_a1 (still_soc True) then 0xa1 else 0x41)"
    by (simp add: sample_ctx_def still_soc_def)
  from pnode_buffer_holds_chain [OF num this, of 1 no_mem_sys sample_bo "()" 0] show ?thesis
    by - (elim exE conjE, intro exI conjI)
qed

text \<open>What the library sees of one call to the driver that was not interrupted.\<close>

lemma lib_ioctl_once:
  "k cmd d = Inr (r, out, d') \<Longrightarrow> r \<noteq> - EINTR \<Longrightarrow> r \<noteq> - EAGAIN \<Longrightarrow> 0 < fuel \<Longrightarrow>
   lib_ioctl fuel k cmd d = Inr (r, out, d')"
  unfolding lib_ioctl_def by (subst iaic_ioctl_once) auto

text \<open>C7. A chain submitted to the idle AIP-F channel through the library, in a buffer that
  holds its nodes, gets a number; when the engine has completed it, the wait for that
  number through the library returns \<open>IAIC_CODE_OK\<close>, whatever the time-out.\<close>

theorem lib_f_job_completes:
  assumes "f_ok (ie_soc ie) d" "job_list (f_ch d) = []" "kmalloc_ok (ie_env ie)"
    "idr_find (bo_handles (bos d)) (ib_handle bo) = Some ptr" "bo_objs (bos d) ptr = Some obj"
    "N = f_chain_nodes (ie_soc ie) (if chip_version (c_status ctx) = 0xa1 then num + 1 else num)"
    "unat (ib_paddr bo - bo_dma obj) + 104 * N \<le> unat (bo_size obj)" "0 < fuel"
  shows "\<exists>s d1 d2. iaic_aip_f_chain fuel (jz_kernel ie) ctx format pos_in pos_out bo num name d =
      Inr (IAIC_CODE_OK, Some s, d1) \<and>
    jz_aip_v20_f_irq_finish_job (ie_soc ie) now now' d1 = Inr d2 \<and> job_list (f_ch d2) = [] \<and>
    (\<exists>us. iaic_aip_f_wait fuel (jz_kernel ie') s tmo d2 = Inr (IAIC_CODE_OK, us, d2))"
proof -
  let ?num = "if chip_version (c_status ctx) = 0xa1 then num + 1 else num"
  define dat where "dat = \<lparr>f_format = format, f_pos_in = pos_in, f_pos_out = pos_out, f_node_handle = ib_handle bo,
    f_node_num = ?num, f_paddr = ib_paddr bo, f_name = name\<rparr>"
  have "f_fits (ie_soc ie) (bos d) dat"
    using assms(4-7) by (simp add: f_fits_def dat_def f_chain_fits)
  from f_op_total [OF assms(1) this, of "ie_env ie"] obtain n d1 where
    op: "jz_aip_v20_f_op (ie_soc ie) (ie_env ie) dat d = Inr (n, d1)" and ok: "f_ok (ie_soc ie) d1" by blast
  have n: "n = 0"
    using op assms(3,4) by (auto simp: jz_aip_v20_f_op_def res_bind_Inr_iff Let_def dat_def)
  from f_op_cases [OF op] n obtain p and bo' :: bo_info where
    enq: "f_enqueue (ie_soc ie) (t_later (ie_env ie)) (f_exec_new (ie_env ie) dat p (f_paddr dat - bo_dma bo'))
       (d\<lparr>bos := (bos d)\<lparr>kmem := store_words (bo_vaddr bo' + (f_paddr dat - bo_dma bo'))
          (f_chain_writes (ie_soc ie) (f_node_num dat)) (kmem (bos d))\<rparr>\<rparr>) = Inr d1"
    by (auto simp: EFAULT_def)
  let ?e = "f_exec_new (ie_env ie) dat p (f_paddr dat - bo_dma bo')" and ?s = "submited_seqno (f_ch d) + 1"
  have ch: "f_ch d1 = q_start (t_later (ie_env ie)) (q_push ?e (f_ch d))"
    using f_engine.enqueue_q [OF enq [unfolded f_enqueue_engine]] assms(2) by simp
  have jobs: "job_list (f_ch d1) = [?e\<lparr>e_seqno := ?s, start_time := t_later (ie_env ie), e_state := AIP_JOB_RUNNING\<rparr>]"
    "submited_seqno (f_ch d1) = ?s"
    unfolding ch by (simp_all add: q_push_def q_start_def assms(2))
  have "jz_kernel ie (IOCTL_AIP_V20_SUBMIT (AIP_CH_OP_F dat)) d = Inr (0, Io_seqno (Some ?s), d1)"
    using op n jobs(2) by (simp add: jz_kernel_def jz_aip_v20_ioctl_def jz_aip_v20_submit_def ERESTARTSYS_def)
  then have "lib_ioctl fuel (jz_kernel ie) (IOCTL_AIP_V20_SUBMIT (AIP_CH_OP_F dat)) d = Inr (0, Io_seqno (Some ?s), d1)"
    using assms(8) by (intro lib_ioctl_once) (simp_all add: EINTR_def EAGAIN_def)
  then have submit: "iaic_aip_f_chain fuel (jz_kernel ie) ctx format pos_in pos_out bo num name d = Inr (IAIC_CODE_OK, Some ?s, d1)"
    by (auto simp: iaic_aip_f_chain_def iaic_aip_f_chain_submit_def seqno_written_def Let_def dat_def)
  obtain d2 where fin: "jz_aip_v20_f_irq_finish_job (ie_soc ie) now now' d1 = Inr d2"
    using f_irq_finish_total [OF ok] by blast
  then have ch2: "f_ch d2 = q_start now' (q_retire now (0xffffffff - readl (dev_io d1) AIP_V20_F_TIME_CNT) (f_ch d1))"
    using jobs(1) by (auto simp: jz_aip_v20_f_irq_finish_job_def q_first_def Let_def dest!: submit_next_f_ch)
  have q2: "job_list (f_ch d2) = []" "finished_seqno (f_ch d2) = ?s" "submited_seqno (f_ch d2) = ?s"
    using jobs unfolding ch2 by (simp_all add: q_retire_def q_start_def)
  let ?w = "\<lparr>w_op = CH_F, w_seqno = ?s, timeout_ns = tmo, wait_time = 0\<rparr>"
  have "jz_kernel ie' (IOCTL_AIP_V20_WAIT ?w) d2 = Inr (0, Io_wait (?w\<lparr>wait_time := waited_us (ie_wait ie')\<rparr>), d2)"
    using q2 by (simp add: jz_kernel_def jz_aip_v20_ioctl_def jz_aip_v20_wait_def jz_aip_v20_wait_for_seqno_def
        submited_seqno_of_def jz_aip_v20_get_finished_seqno_def ERESTARTSYS_def EINTR_def Let_def)
  then have "lib_ioctl fuel (jz_kernel ie') (IOCTL_AIP_V20_WAIT ?w) d2 =
      Inr (0, Io_wait (?w\<lparr>wait_time := waited_us (ie_wait ie')\<rparr>), d2)"
    using assms(8) by (intro lib_ioctl_once) (simp_all add: EINTR_def EAGAIN_def)
  then have "iaic_aip_f_wait fuel (jz_kernel ie') ?s tmo d2 = Inr (IAIC_CODE_OK, waited_us (ie_wait ie'), d2)"
    by (simp add: iaic_aip_f_wait_def iaic_aip_wait_def)
  with submit fin q2(1) show ?thesis by blast
qed

lemma sample_idr_1: "idr_find [(1, 0 :: bo_ptr)] 1 = Some 0"
  by (simp add: idr_find_def)

definition sample_ie :: "soc \<Rightarrow> unit ioctl_env" where
  "sample_ie soc = \<lparr>ie_soc = soc, ie_env = sample_env, ie_others = [],
     ie_wait = \<lparr>ns_to_j = (\<lambda>_. 2), j_to_ns = (\<lambda>_. 0), j_start = 0, j_end = 0, waited_us = 0\<rparr>, ie_wakes = [],
     ie_debug = False, ie_dma = Some (0x82000000, 0x2000), ie_bo_alloc = first_id,
     ie_pool = \<lparr>gp_avail = (\<lambda>_. 0), gp_size = (\<lambda>_. 0), gp_dma_alloc = (\<lambda>_ _. None),
       gp_free = (\<lambda>_ _ p. p), gp_add_virt = (\<lambda>_ _ _ p. (0, p))\<rparr>,
     ie_oram_alloc = first_id, ie_sysinfo = \<lparr>totalram = 0, freeram = 0, totalcma_pages = 0, nr_free_cma_pages = 0\<rparr>,
     ie_copy_ok = True\<rparr>"

theorem lib_f_job_completes_witness:
  "\<exists>s d1 d2. iaic_aip_f_chain 1 (jz_kernel (sample_ie (clearing_soc True))) sample_ctx 7 0 0
      (sample_bo\<lparr>ib_handle := 1, ib_paddr := 0x1000\<rparr>) 2 Null_name sample_dev = Inr (IAIC_CODE_OK, Some s, d1) \<and>
    jz_aip_v20_f_irq_finish_job (clearing_soc True) 5 6 d1 = Inr d2 \<and>
    (\<exists>us. iaic_aip_f_wait 1 (jz_kernel (sample_ie (clearing_soc True))) s (- 1) d2 = Inr (IAIC_CODE_OK, us, d2))"
proof -
  let ?ie = "sample_ie (clearing_soc True)" and ?bo = "sample_bo\<lparr>ib_handle := 1, ib_paddr := 0x1000\<rparr>"
  have "f_ok (ie_soc ?ie) sample_dev" "job_list (f_ch sample_dev) = []" "kmalloc_ok (ie_env ?ie)"
    "idr_find (bo_handles (bos sample_dev)) (ib_handle ?bo) = Some 0"
    "bo_objs (bos sample_dev) 0 = Some \<lparr>bo_pid = 7, bo_vaddr = 0x81000000, bo_dma = 0x1000, bo_size = 0x1000\<rparr>"
    by (simp_all add: sample_ie_def sample_f_ok sample_env_def sample_idr_1)
  note job = lib_f_job_completes [OF this, of 3 sample_ctx 2 1 7 0 0 Null_name 5 6 ?ie "- 1"]
  have "3 = f_chain_nodes (ie_soc ?ie) (if chip_version (c_status sample_ctx) = 0xa1 then 2 + 1 else 2)"
    by (simp add: sample_ie_def sample_ctx_def f_chain_nodes_def chain_nodes_def f_node_count_def clearing_soc_def)
  from job [OF this] show ?thesis
    by (simp add: sample_ie_def) blast
qed

text \<open>A conversion task through the library: configured on the idle AIP-T channel while nobody
  else uses the device, started and waited for on the mapped registers, and ended. On hardware that raises the
  start bit, lowers it and reports the end, every one of the four calls returns; the
  start writes exactly destination, length and start bit; and afterwards the
  channel is empty and the next task can be configured.\<close>

theorem lib_convert_cycle:
  assumes "t_ok (ie_soc ie) d" "job_list (t_ch d) = []" "\<not> t_job_mutex d" "0 < fuel"
    "kmalloc_ok (ie_env ie)" "2 \<le> task_len node" "2 \<le> src_h node"
    "quiesces (ie_soc ie) (\<lambda>r. r 0 AND 0x10 = 0x10)" "quiesces (ie_soc ie) (\<lambda>r. 0x10 \<noteq> r 0 AND 0x10)"
    "quiesces (ie_soc ie) (\<lambda>r. 0x08 = r 0 AND 0x08)" "ie_others ie = []"
  shows "\<exists>s d1 io1 io2 d2.
    iaic_convert_config fuel (jz_kernel ie) pos_in pos_out ofst (Some param) (Some node) name d = Inr (IAIC_CODE_OK, Some s, d1) \<and>
    iaic_convert_start (ie_soc ie) dst len (dev_io d1) = Inr io1 \<and>
    bus io1 = bus (dev_io d1) @ [(0x1c, dst), (0x10, len), (0, 0x10)] \<and>
    iaic_convert_wait (ie_soc ie) io1 = Inr io2 \<and> bus io2 = bus io1 \<and>
    iaic_convert_exit fuel (jz_kernel ie) (d1\<lparr>dev_io := io2\<rparr>) = Inr (IAIC_CODE_OK, d2) \<and>
    job_list (t_ch d2) = [] \<and> \<not> t_job_mutex d2"
proof -
  let ?dat = "\<lparr>t_offset = ofst, t_pos_in = pos_in, t_pos_out = pos_out, t_param = Some param,
    t_node = Some node, t_name = name\<rparr>"
  have fetch: "t_fetch (ie_env ie) ?dat = Some (t_exec_new (ie_env ie) ?dat param node)"
    using assms(5) by (simp add: t_fetch_def)
  let ?s = "submited_seqno (t_ch d) + 1"
  obtain s where op: "jz_aip_v20_t_task_op (ie_soc ie) (ie_others ie) (ie_env ie) ?dat d =
      Inr (0, t_task_started s (t_later (ie_env ie)) (t_exec_new (ie_env ie) ?dat param node) d)"
    using t_task_op_idle [OF assms(1) fetch assms(2,3)] assms(11) by auto
  define d1 where "d1 = t_task_started s (t_later (ie_env ie)) (t_exec_new (ie_env ie) ?dat param node) d"
  have "jz_kernel ie (IOCTL_AIP_V20_SUBMIT (AIP_CH_OP_T_TASK ?dat)) d = Inr (0, Io_seqno (Some ?s), d1)"
    using op by (simp add: jz_kernel_def jz_aip_v20_ioctl_def jz_aip_v20_submit_def ERESTARTSYS_def d1_def
        t_task_started_def)
  then have "lib_ioctl fuel (jz_kernel ie) (IOCTL_AIP_V20_SUBMIT (AIP_CH_OP_T_TASK ?dat)) d = Inr (0, Io_seqno (Some ?s), d1)"
    using assms(4) by (intro lib_ioctl_once) (simp_all add: EINTR_def EAGAIN_def)
  then have config: "iaic_convert_config fuel (jz_kernel ie) pos_in pos_out ofst (Some param) (Some node) name d =
      Inr (IAIC_CODE_OK, Some ?s, d1)"
    using assms(6,7) by (simp add: iaic_convert_config_def seqno_written_def not_less [symmetric])
  obtain io1 where io1: "iaic_convert_start (ie_soc ie) dst len (dev_io d1) = Inr io1"
    using poll_quiesces [OF assms(8)] unfolding iaic_convert_start_def iaic_aip_task_start_def by blast
  then have bus1: "bus io1 = bus (dev_io d1) @ [(0x1c, dst), (0x10, len), (0, 0x10)]"
    using poll_Inr unfolding iaic_convert_start_def iaic_aip_task_start_def iaic_writel_def by fastforce
  obtain io' where w1: "poll (ie_soc ie) (\<lambda>r. 0x10 \<noteq> r 0 AND 0x10) io1 = Inr io'"
    using poll_quiesces [OF assms(9)] by blast
  obtain io2 where w2: "poll (ie_soc ie) (\<lambda>r. 0x08 = r 0 AND 0x08) io' = Inr io2"
    using poll_quiesces [OF assms(10)] by blast
  have wait: "iaic_convert_wait (ie_soc ie) io1 = Inr io2" "bus io2 = bus io1"
    using w1 w2 poll_Inr [OF w1] poll_Inr [OF w2] by (simp_all add: iaic_convert_wait_def)
  define d2 where "d2 = d1\<lparr>dev_io := writel (ie_soc ie) AIP_V20_T_CTL (ffield AIP_V20_T_CTL_SOFT_RESET) io2,
    t_ch := (t_ch d1)\<lparr>job_list := []\<rparr>, t_job_mutex := False\<rparr>"
  let ?w = "\<lparr>w_op = CH_T_TASK, w_seqno = 0, timeout_ns = - 1, wait_time = 0\<rparr>"
  have "jz_kernel ie (IOCTL_AIP_V20_WAIT ?w) (d1\<lparr>dev_io := io2\<rparr>) = Inr (0, Io_wait ?w, d2)"
    by (simp add: jz_kernel_def jz_aip_v20_ioctl_def jz_aip_v20_wait_def jz_aip_v20_wait_t_task_def
        ERESTARTSYS_def d1_def d2_def t_task_started_def)
  then have "lib_ioctl fuel (jz_kernel ie) (IOCTL_AIP_V20_WAIT ?w) (d1\<lparr>dev_io := io2\<rparr>) = Inr (0, Io_wait ?w, d2)"
    using assms(4) by (intro lib_ioctl_once) (simp_all add: EINTR_def EAGAIN_def)
  then have "iaic_convert_exit fuel (jz_kernel ie) (d1\<lparr>dev_io := io2\<rparr>) = Inr (IAIC_CODE_OK, d2)"
    by (simp add: iaic_convert_exit_def)
  moreover have "job_list (t_ch d2) = []" "\<not> t_job_mutex d2" by (simp_all add: d2_def)
  ultimately show ?thesis using config io1 bus1 wait by (intro exI conjI)
qed

text \<open>Hardware whose control register goes back and forth between started and done.\<close>

definition flip_soc :: soc where
  "flip_soc = \<lparr>repair_a1 = False, tick = (\<lambda>r a. if a = 0 then (if r 0 = 0x10 then 0x08 else 0x10) else 0),
     on_write = (\<lambda>a v r. r(a := v))\<rparr>"

lemma flip_soc_quiesces:
  assumes "c (\<lambda>a. if a = 0 then 0x10 else 0) \<or> c (\<lambda>a. if a = 0 then 0x08 else 0)"
  shows "quiesces flip_soc c"
  unfolding quiesces_def
proof
  fix r
  have t: "tick flip_soc r = (if r 0 = 0x10 then (\<lambda>a. if a = 0 then 0x08 else 0) else (\<lambda>a. if a = 0 then 0x10 else 0))"
    "tick flip_soc (\<lambda>a. if a = 0 then 0x10 else 0) = (\<lambda>a. if a = 0 then 0x08 else 0)"
    "tick flip_soc (\<lambda>a. if a = 0 then 0x08 else 0) = (\<lambda>a. if a = 0 then 0x10 else 0)" for r
    by (auto simp: flip_soc_def fun_eq_iff)
  have two: "(f ^^ 2) x = f (f x)" for f :: "regs \<Rightarrow> regs" and x by (simp add: numeral_2_eq_2)
  have "c ((tick flip_soc ^^ 1) r) \<or> c ((tick flip_soc ^^ 2) r)"
    unfolding two using assms by (cases "r 0 = 0x10") (auto simp: t(2,3) t(1) [of r])
  then show "\<exists>n. c ((tick flip_soc ^^ n) r)" by blast
qed

theorem lib_convert_cycle_witness:
  "\<exists>s d1 io1 io2 d2.
    iaic_convert_config 1 (jz_kernel (sample_ie flip_soc)) 0 0 \<lparr>order = 0, alpha = 255, offset0 = 16, offset1 = 128\<rparr>
      (Some of_nat) (Some sample_t_node) Null_name sample_dev = Inr (IAIC_CODE_OK, Some s, d1) \<and>
    iaic_convert_start flip_soc 0x6000000 16 (dev_io d1) = Inr io1 \<and>
    iaic_convert_wait flip_soc io1 = Inr io2 \<and>
    iaic_convert_exit 1 (jz_kernel (sample_ie flip_soc)) (d1\<lparr>dev_io := io2\<rparr>) = Inr (IAIC_CODE_OK, d2)"
proof -
  let ?ie = "sample_ie flip_soc"
  have soc: "ie_soc ?ie = flip_soc" by (simp add: sample_ie_def)
  have "t_ok (ie_soc ?ie) sample_dev" "job_list (t_ch sample_dev) = []" "\<not> t_job_mutex sample_dev" "(0 :: nat) < 1"
    "kmalloc_ok (ie_env ?ie)" "2 \<le> task_len sample_t_node" "2 \<le> src_h sample_t_node"
    "quiesces (ie_soc ?ie) (\<lambda>r. r 0 AND 0x10 = 0x10)" "quiesces (ie_soc ?ie) (\<lambda>r. 0x10 \<noteq> r 0 AND 0x10)"
    "quiesces (ie_soc ?ie) (\<lambda>r. 0x08 = r 0 AND 0x08)"
    "ie_others ?ie = []"
    unfolding soc by (auto simp: t_ok_def t_idle_def t_reset_done_def aip_regs aip_fields ffield_def fmask_def
        sample_ie_def sample_env_def sample_t_node_def sample_dev_def intro!: flip_soc_quiesces)
  from lib_convert_cycle [OF this, of 0 0 "\<lparr>order = 0, alpha = 255, offset0 = 16, offset1 = 128\<rparr>" of_nat Null_name "0x6000000" 16]
  show ?thesis unfolding soc by (elim exE conjE) (intro exI conjI)
qed

end
