(* ===== verification/IaicCtx.thy ===== *)
theory IaicCtx
  imports IaicJobs
begin

text \<open>
  The life of a library context, \<open>iaic_ctx_init_internal\<close> and \<open>iaic_ctx_destroy\<close> of
  \<open>lib/src/iaic_api.c\<close>: file descriptors, the five windows the context maps, the
  shared-memory segment, the pool with its first block. What the operating system
  answers is the parameter \<open>os\<close>; the process's own descriptors and mapped pages are
  state. The mappings of buffer objects belong to \<open>IaicBo\<close> and are not counted here.
\<close>

section \<open>The process\<close>

record os =
  os_open_aip :: int
  os_ftok :: int
  os_shmget_excl :: int
  os_shmget :: int
  os_shmat :: u32
  os_mutex_init_ok :: bool
  os_open_mem :: int
  os_mmap :: "int \<Rightarrow> u32 \<Rightarrow> u32 \<Rightarrow> u32"
  os_malloc :: bool

record proc =
  fds :: "int list"
  mapped :: "nat set"
  shm_attached :: bool

text \<open>The pages of a mapping; \<open>munmap\<close> takes away whatever is mapped there.\<close>

definition pages_of :: "u32 \<Rightarrow> u32 \<Rightarrow> nat set" where
  "pages_of a n = {unat a div 4096 ..< (unat a + unat n + 4095) div 4096}"

definition p_open :: "int \<Rightarrow> proc \<Rightarrow> proc" where
  "p_open fd p = (if fd < 0 then p else p\<lparr>fds := fd # fds p\<rparr>)"

definition p_close :: "int \<Rightarrow> proc \<Rightarrow> proc" where
  "p_close fd p = p\<lparr>fds := remove1 fd (fds p)\<rparr>"

definition p_mmap :: "u32 \<Rightarrow> u32 \<Rightarrow> proc \<Rightarrow> proc" where
  "p_mmap a n p = (if a = MAP_FAILED then p else p\<lparr>mapped := mapped p \<union> pages_of a n\<rparr>)"

definition p_munmap :: "u32 \<Rightarrow> u32 \<Rightarrow> proc \<Rightarrow> proc" where
  "p_munmap a n p = p\<lparr>mapped := mapped p - pages_of a n\<rparr>"

section \<open>The exits of the start\<close>

text \<open>The labels \<open>err\<close> to \<open>aip_iobase_fail\<close>: each falls through to the one before it.\<close>

definition init_err :: "iaic_ctx \<times> proc \<Rightarrow> iaic_ctx \<times> proc" where
  "init_err = (\<lambda>(ctx, p). (ctx\<lparr>aip_fd := 0\<rparr>, p_close (aip_fd ctx) p))"

definition init_fail :: "iaic_ctx \<times> proc \<Rightarrow> iaic_ctx \<times> proc" where
  "init_fail = (\<lambda>(ctx, p). init_err (ctx\<lparr>mem_fd := 0\<rparr>, p_close (mem_fd ctx) p))"

definition init_nna_dma_fail :: "iaic_ctx \<times> proc \<Rightarrow> iaic_ctx \<times> proc" where
  "init_nna_dma_fail = (\<lambda>(ctx, p). init_fail
     (ctx\<lparr>c_nna := (c_nna ctx)\<lparr>ns_oram_vbase := MAP_FAILED\<rparr>\<rparr>,
      p_munmap (ns_oram_vbase (c_nna ctx) - ns_curr_l2c_size (c_nna ctx)) (ns_oram_size (c_nna ctx)) p))"

definition init_nna_dma_desram_fail :: "iaic_ctx \<times> proc \<Rightarrow> iaic_ctx \<times> proc" where
  "init_nna_dma_desram_fail = (\<lambda>(ctx, p). init_nna_dma_fail
     (ctx\<lparr>c_nna := (c_nna ctx)\<lparr>ns_dma_vbase := MAP_FAILED\<rparr>\<rparr>,
      p_munmap (ns_dma_vbase (c_nna ctx)) (ns_dma_size (c_nna ctx)) p))"

definition init_cpu_fast_iob_fail :: "iaic_ctx \<times> proc \<Rightarrow> iaic_ctx \<times> proc" where
  "init_cpu_fast_iob_fail = (\<lambda>(ctx, p). init_nna_dma_desram_fail
     (ctx\<lparr>c_nna := (c_nna ctx)\<lparr>ns_dma_desram_vbase := MAP_FAILED\<rparr>\<rparr>,
      p_munmap (ns_dma_desram_vbase (c_nna ctx)) (ns_dma_desram_size (c_nna ctx)) p))"

definition init_aip_iobase_fail :: "iaic_ctx \<times> proc \<Rightarrow> iaic_ctx \<times> proc" where
  "init_aip_iobase_fail = (\<lambda>(ctx, p). init_cpu_fast_iob_fail
     (ctx\<lparr>cpu_fast_iob := MAP_FAILED\<rparr>, p_munmap (cpu_fast_iob ctx) PAGE_SIZE p))"

section \<open>The start\<close>

text \<open>The shared-memory segment, under the driver's context lock; \<open>False\<close> sends the caller
  to \<open>err\<close> with \<open>IAIC_CODE_INIT_FAIL\<close>. What the unlock returns is not looked at.\<close>

definition init_shm :: "nat \<Rightarrow> 'd kernel \<Rightarrow> os \<Rightarrow> iaic_ctx \<Rightarrow> proc \<Rightarrow> 'd \<Rightarrow>
    fault + (bool \<times> iaic_ctx \<times> proc \<times> 'd)" where
  "init_shm fuel k os ctx p d =
     res_bind (iaic_mutex_lock fuel k d) (\<lambda>(r, d).
     if r \<noteq> IAIC_CODE_OK then Inr (False, ctx, p, d)
     else
       let done = (\<lambda>ok ctx p d. res_bind (iaic_mutex_unlock fuel k d) (\<lambda>(_, d). Inr (ok, ctx, p, d))) in
       if os_ftok os < 0 then done False ctx p d
       else
         let is_existing = os_shmget_excl os < 0;
             ctx = ctx\<lparr>shm_id := if is_existing then os_shmget os else os_shmget_excl os\<rparr>
         in if shm_id ctx < 0 then done False ctx p d
            else
              let ctx = ctx\<lparr>c_shm := os_shmat os\<rparr> in
              if c_shm ctx = - 1 then done False ctx p d
              else
                let p = p\<lparr>shm_attached := True\<rparr> in
                if \<not> is_existing \<and> \<not> os_mutex_init_ok os then done False ctx p d
                else done True ctx p d)"

text \<open>The five windows, in the order of the code; \<open>Inl\<close> is the code and the state the exit
  labels leave.\<close>

definition init_windows :: "os \<Rightarrow> u32 \<Rightarrow> iaic_ctx \<Rightarrow> proc \<Rightarrow>
    iaic_ret_code \<times> (iaic_ctx \<times> proc) + iaic_ctx \<times> proc" where
  "init_windows os aip_iobase ctx p =
     (let n = c_nna ctx;
          a = os_mmap os (aip_fd ctx) (ns_oram_size n) (ns_oram_pbase n);
          ctx = ctx\<lparr>c_nna := n\<lparr>ns_oram_vbase := a\<rparr>\<rparr>; p = p_mmap a (ns_oram_size n) p
      in if a = MAP_FAILED then Inl (IAIC_CODE_NNA_ORAM_INIT_FAIL, init_fail (ctx, p)) else
      let n = c_nna ctx;
          a = os_mmap os (mem_fd ctx) (ns_dma_size n) (ns_dma_pbase n);
          ctx = ctx\<lparr>c_nna := n\<lparr>ns_dma_vbase := a\<rparr>\<rparr>; p = p_mmap a (ns_dma_size n) p
      in if a = MAP_FAILED then Inl (IAIC_CODE_NNA_DMA_INIT_FAIL, init_nna_dma_fail (ctx, p)) else
      let n = c_nna ctx;
          a = os_mmap os (mem_fd ctx) (ns_dma_desram_size n) (ns_dma_desram_pbase n);
          ctx = ctx\<lparr>c_nna := n\<lparr>ns_dma_desram_vbase := a\<rparr>\<rparr>; p = p_mmap a (ns_dma_desram_size n) p
      in if a = MAP_FAILED then Inl (IAIC_CODE_NNA_DMA_DESRAM_INIT_FAIL, init_nna_dma_desram_fail (ctx, p)) else
      let a = os_mmap os (aip_fd ctx) PAGE_SIZE 0;
          ctx = ctx\<lparr>cpu_fast_iob := a\<rparr>; p = p_mmap a PAGE_SIZE p
      in if a = MAP_FAILED then Inl (IAIC_CODE_CPU_FAST_IOB_INIT_FAIL, init_cpu_fast_iob_fail (ctx, p)) else
      let a = os_mmap os (mem_fd ctx) PAGE_SIZE aip_iobase;
          ctx = ctx\<lparr>aip_iob := a\<rparr>; p = p_mmap a PAGE_SIZE p
      in if a = MAP_FAILED then Inl (IAIC_CODE_CPU_FAST_IOB_INIT_FAIL, init_aip_iobase_fail (ctx, p))
         else Inr (ctx, p))"

text \<open>The pool: a node of \<open>mem_size\<close> bytes and the shared buffer cut from it. When the node
  cannot be had, the exit returns the code of the last call that set it, the
  accelerator's status: \<open>IAIC_CODE_OK\<close>.\<close>

definition init_pool :: "nat \<Rightarrow> 'd sys \<Rightarrow> u32 \<Rightarrow> iaic_ctx \<Rightarrow> proc \<Rightarrow> 'd \<Rightarrow>
    fault + (iaic_ret_code \<times> iaic_ctx \<times> proc \<times> 'd)" where
  "init_pool fuel sys mem_size ctx p d =
     (let ctx = ctx\<lparr>c_pool := (c_pool ctx)\<lparr>max_mem_size := mem_size, bo_list := [], lock_word := False\<rparr>\<rparr>;
          shared = (\<lambda>ctx d. res_bind (iaic_create_bo fuel sys 0x10 (shared_bo ctx) ctx d) (\<lambda>(r, bo, ctx, d).
            Inr (r, ctx\<lparr>shared_bo := bo\<rparr>, p, d)))
      in if 1 < mem_size then
           res_bind (create_bo_node fuel sys mem_size (c_pool ctx) d) (\<lambda>(r, pool, d).
           let ctx = ctx\<lparr>c_pool := pool\<rparr> in
           if r \<noteq> IAIC_CODE_OK then (let (ctx, p) = init_aip_iobase_fail (ctx, p) in Inr (IAIC_CODE_OK, ctx, p, d))
           else shared ctx d)
         else shared ctx d)"

text \<open>The part with both devices open, and the part before it: versions, the limit on the
  pool's size, \<open>/dev/mem\<close>. A size above the limit leaves with the code of the status, \<open>IAIC_CODE_OK\<close>.\<close>

definition init_leave :: "iaic_ret_code \<Rightarrow> iaic_ctx \<times> proc \<Rightarrow> 'd \<Rightarrow>
    fault + (iaic_ret_code \<times> iaic_ctx \<times> proc \<times> 'd)" where
  "init_leave r cp d = Inr (r, fst cp, snd cp, d)"

definition init_opened :: "nat \<Rightarrow> 'd kernel \<Rightarrow> os \<Rightarrow> 'd sys \<Rightarrow> u32 \<Rightarrow> u32 \<Rightarrow> iaic_ctx \<Rightarrow> proc \<Rightarrow> 'd \<Rightarrow>
    fault + (iaic_ret_code \<times> iaic_ctx \<times> proc \<times> 'd)" where
  "init_opened fuel k os sys mem_size aip_iobase ctx p d =
     res_bind (iaic_nna_status fuel k (c_nna ctx) d) (\<lambda>(r, n, d).
     let ctx = ctx\<lparr>c_nna := n\<rparr> in
     if r \<noteq> IAIC_CODE_OK then init_leave r (init_fail (ctx, p)) d
     else case init_windows os aip_iobase ctx p of
       Inl (r, cp) \<Rightarrow> init_leave r cp d
     | Inr (ctx, p) \<Rightarrow>
         res_bind (iaic_set_proc_nice fuel k (- 19) d) (\<lambda>(_, d). init_pool fuel sys mem_size ctx p d))"

definition init_checked :: "nat \<Rightarrow> 'd kernel \<Rightarrow> os \<Rightarrow> 'd sys \<Rightarrow> u32 \<Rightarrow> iaic_ctx \<Rightarrow> proc \<Rightarrow> 'd \<Rightarrow>
    fault + (iaic_ret_code \<times> iaic_ctx \<times> proc \<times> 'd)" where
  "init_checked fuel k os sys mem_size ctx p d =
     res_bind (iaic_get_status fuel k d) (\<lambda>(r, st, d).
     let ctx = ctx\<lparr>c_status := st\<rparr>;
         max_size = (if chip_version st = 0xa1 then 0x10000000 else 0x8000000);
         aip_iobase = (if chip_version st = 0xa1 then 0x13090000 else 0x12b00000)
     in if r \<noteq> IAIC_CODE_OK then init_leave r (init_err (ctx, p)) d
        else if max_size < mem_size then init_leave r (init_err (ctx, p)) d
        else
          let ctx = ctx\<lparr>mem_fd := os_open_mem os\<rparr> in
          if mem_fd ctx < 0 then init_leave IAIC_CODE_NO_MEM_DEVICE (init_err (ctx, p)) d
          else init_opened fuel k os sys mem_size aip_iobase ctx (p_open (mem_fd ctx) p) d)"

definition iaic_ctx_init_internal :: "nat \<Rightarrow> 'd kernel \<Rightarrow> os \<Rightarrow> 'd sys \<Rightarrow> u32 \<Rightarrow> iaic_ctx \<Rightarrow> proc \<Rightarrow> 'd \<Rightarrow>
    fault + (iaic_ret_code \<times> iaic_ctx \<times> proc \<times> 'd)" where
  "iaic_ctx_init_internal fuel k os sys mem_size ctx p d =
     (let ctx = ctx\<lparr>aip_fd := os_open_aip os\<rparr> in
      if aip_fd ctx < 0 then Inr (IAIC_CODE_NO_AIP_DEVICE, ctx, p, d)
      else
        res_bind (init_shm fuel k os ctx (p_open (aip_fd ctx) p) d) (\<lambda>(ok, ctx, p, d).
        if \<not> ok then init_leave IAIC_CODE_INIT_FAIL (init_err (ctx, p)) d
        else init_checked fuel k os sys mem_size ctx p d))"

text \<open>The macro \<open>iaic_ctx_init\<close>.\<close>

definition iaic_ctx_init :: "nat \<Rightarrow> 'd kernel \<Rightarrow> os \<Rightarrow> 'd sys \<Rightarrow> u32 \<Rightarrow> iaic_ctx \<Rightarrow> proc \<Rightarrow> 'd \<Rightarrow>
    fault + (iaic_ret_code \<times> iaic_ctx \<times> proc \<times> 'd)" where
  "iaic_ctx_init fuel k os sys mem_size ctx p d =
     res_bind (iaic_ctx_init_internal fuel k os sys mem_size ctx p d) (\<lambda>(r, ctx, p, d).
     Inr (if r = IAIC_CODE_OK \<and> lib_version (c_status ctx) \<noteq> AIP_V20_LIB_VERSION
          then IAIC_CODE_LIB_VERSION_NOMATCH else r, ctx, p, d))"

section \<open>The end\<close>

definition iaic_ctx_destroy :: "nat \<Rightarrow> 'd sys \<Rightarrow> iaic_ctx \<Rightarrow> proc \<Rightarrow> 'd \<Rightarrow>
    fault + (iaic_ret_code \<times> iaic_ctx \<times> proc \<times> 'd)" where
  "iaic_ctx_destroy fuel sys ctx p d =
     res_bind (iaic_destroy_bo fuel sys (shared_bo ctx) ctx d) (\<lambda>(_, bo, ctx, d).
     let ctx = ctx\<lparr>shared_bo := bo\<rparr>;
         unmap = (\<lambda>a n p. if a \<noteq> MAP_FAILED then p_munmap a n p else p);
         nna = c_nna ctx;
         p = unmap (aip_iob ctx) PAGE_SIZE p;
         p = unmap (cpu_fast_iob ctx) PAGE_SIZE p;
         p = unmap (ns_oram_vbase nna) (ns_oram_size nna) p;
         p = unmap (ns_dma_vbase nna) (ns_dma_size nna) p;
         p = unmap (ns_dma_desram_vbase nna) (ns_dma_desram_size nna) p;
         ctx = ctx\<lparr>aip_iob := MAP_FAILED, cpu_fast_iob := MAP_FAILED,
           c_nna := nna\<lparr>ns_oram_vbase := MAP_FAILED, ns_dma_vbase := MAP_FAILED, ns_dma_desram_vbase := MAP_FAILED\<rparr>\<rparr>;
         (ctx, p) = (if 0 < mem_fd ctx then (ctx\<lparr>mem_fd := - 1\<rparr>, p_close (mem_fd ctx) p) else (ctx, p));
         (ctx, p) = (if 0 < aip_fd ctx then (ctx\<lparr>aip_fd := - 1\<rparr>, p_close (aip_fd ctx) (p\<lparr>shm_attached := False\<rparr>))
                     else (ctx, p))
     in Inr (IAIC_CODE_OK, ctx, p, d))"

section \<open>Descriptors\<close>

lemma fds_simps [simp]:
  "fds (p_close fd p) = remove1 fd (fds p)" "fds (p_mmap a n p) = fds p" "fds (p_munmap a n p) = fds p"
  "fds (p_open fd p) = (if fd < 0 then fds p else fd # fds p)"
  by (simp_all add: p_close_def p_mmap_def p_munmap_def p_open_def)

text \<open>The exit labels from \<open>fail\<close> on close both descriptors.\<close>

lemma label_fds [simp]:
  "fds (snd (init_fail (ctx, p))) = remove1 (aip_fd ctx) (remove1 (mem_fd ctx) (fds p))"
  "fds (snd (init_nna_dma_fail (ctx, p))) = remove1 (aip_fd ctx) (remove1 (mem_fd ctx) (fds p))"
  "fds (snd (init_nna_dma_desram_fail (ctx, p))) = remove1 (aip_fd ctx) (remove1 (mem_fd ctx) (fds p))"
  "fds (snd (init_cpu_fast_iob_fail (ctx, p))) = remove1 (aip_fd ctx) (remove1 (mem_fd ctx) (fds p))"
  "fds (snd (init_aip_iobase_fail (ctx, p))) = remove1 (aip_fd ctx) (remove1 (mem_fd ctx) (fds p))"
  by (simp_all add: init_err_def init_fail_def init_nna_dma_fail_def
      init_nna_dma_desram_fail_def init_cpu_fast_iob_fail_def init_aip_iobase_fail_def)

lemma label_aip_fd [simp]:
  "aip_fd (fst (init_fail (ctx, p))) = 0"
  "aip_fd (fst (init_nna_dma_fail (ctx, p))) = 0"
  "aip_fd (fst (init_nna_dma_desram_fail (ctx, p))) = 0"
  "aip_fd (fst (init_cpu_fast_iob_fail (ctx, p))) = 0"
  "aip_fd (fst (init_aip_iobase_fail (ctx, p))) = 0"
  by (simp_all add: init_err_def init_fail_def init_nna_dma_fail_def
      init_nna_dma_desram_fail_def init_cpu_fast_iob_fail_def init_aip_iobase_fail_def)

lemma init_windows_Inl:
  assumes "fds p = mem_fd ctx # aip_fd ctx # rest" "init_windows os base ctx p = Inl (r, cp)"
  shows "r \<noteq> IAIC_CODE_OK \<and> fds (snd cp) = rest \<and> aip_fd (fst cp) = 0"
  using assms by (auto simp: init_windows_def Let_def split: if_splits)

lemma init_windows_Inr:
  assumes "init_windows os base ctx p = Inr (ctx', p')"
  shows "fds p' = fds p \<and> mem_fd ctx' = mem_fd ctx \<and> aip_fd ctx' = aip_fd ctx"
  using assms by (auto simp: init_windows_def Let_def split: if_splits)

lemma create_bo_fds: "iaic_create_bo fuel sys sz bo ctx d = Inr (r, bo', ctx', d') \<Longrightarrow>
    mem_fd ctx' = mem_fd ctx \<and> aip_fd ctx' = aip_fd ctx"
  by (auto simp: iaic_create_bo_def res_bind_Inr_iff split: if_splits)

lemma init_shm_fds:
  assumes "init_shm fuel k os ctx p d = Inr (ok, ctx', p', d')"
  shows "fds p' = fds p \<and> aip_fd ctx' = aip_fd ctx"
  using assms by (auto simp: init_shm_def res_bind_Inr_iff Let_def split: if_splits)

lemma init_pool_fds:
  assumes "fds p = mem_fd ctx # aip_fd ctx # rest" "init_pool fuel sys n ctx p d = Inr (r, ctx', p', d')"
  shows "(fds p' = rest \<and> aip_fd ctx' = 0) \<or> fds p' = mem_fd ctx' # aip_fd ctx' # rest"
proof -
  have lbl: "fds p'' = rest \<and> aip_fd ctx'' = 0"
    if "init_aip_iobase_fail (ctx0, p0) = (ctx'', p'')" "fds p0 = mem_fd ctx0 # aip_fd ctx0 # rest" for ctx0 p0 ctx'' p''
    using label_fds(5) [of ctx0 p0] label_aip_fd(5) [of ctx0 p0] that by simp
  show ?thesis
    using assms by (auto simp: init_pool_def res_bind_Inr_iff Let_def
        dest!: create_bo_fds dest: lbl split: if_splits prod.splits)
qed

lemma init_opened_fds:
  assumes "fds p = mem_fd ctx # aip_fd ctx # rest"
    "init_opened fuel k os sys n base ctx p d = Inr (r, ctx', p', d')"
  shows "(fds p' = rest \<and> aip_fd ctx' \<le> 0) \<or> fds p' = mem_fd ctx' # aip_fd ctx' # rest"
proof -
  from assms(2) obtain r0 nn d0 where st: "iaic_nna_status fuel k (c_nna ctx) d = Inr (r0, nn, d0)"
    by (auto simp: init_opened_def res_bind_Inr_iff)
  let ?ctx = "ctx\<lparr>c_nna := nn\<rparr>"
  have p: "fds p = mem_fd ?ctx # aip_fd ?ctx # rest" using assms(1) by simp
  show ?thesis
  proof (cases "r0 = IAIC_CODE_OK")
    case True
    show ?thesis
    proof (cases "init_windows os base ?ctx p")
      case (Inl x)
      then obtain r1 cp where x: "init_windows os base ?ctx p = Inl (r1, cp)" by (cases x) auto
      with init_windows_Inl [OF p x] assms(2) st True show ?thesis
        by (simp add: init_opened_def init_leave_def)
    next
      case (Inr x)
      then obtain c1 p1 where x: "init_windows os base ?ctx p = Inr (c1, p1)" by (cases x) auto
      with init_windows_Inr [OF x] p have "fds p1 = mem_fd c1 # aip_fd c1 # rest" by simp
      moreover from assms(2) st True x obtain d1 where "init_pool fuel sys n c1 p1 d1 = Inr (r, ctx', p', d')"
        by (auto simp: init_opened_def res_bind_Inr_iff)
      ultimately show ?thesis using init_pool_fds by fastforce
    qed
  next
    case False
    with assms(2) st have "ctx' = fst (init_fail (?ctx, p))" "p' = snd (init_fail (?ctx, p))"
      by (simp_all add: init_opened_def init_leave_def Let_def)
    then show ?thesis using assms(1) by simp
  qed
qed

lemma init_checked_fds:
  assumes "fds p = aip_fd ctx # rest" "init_checked fuel k os sys n ctx p d = Inr (r, ctx', p', d')"
  shows "(fds p' = rest \<and> aip_fd ctx' \<le> 0) \<or> fds p' = mem_fd ctx' # aip_fd ctx' # rest"
proof -
  from assms(2) obtain r0 st d0 where st: "iaic_get_status fuel k d = Inr (r0, st, d0)"
    by (auto simp: init_checked_def res_bind_Inr_iff)
  let ?ctx = "ctx\<lparr>c_status := st, mem_fd := os_open_mem os\<rparr>"
  let ?base = "if chip_version st = 0xa1 then 0x13090000 else (0x12b00000 :: u32)"
  consider (leave) "fds p' = rest" "aip_fd ctx' = 0"
    | (opened) "\<not> os_open_mem os < 0"
        "init_opened fuel k os sys n ?base ?ctx (p_open (os_open_mem os) p) d0 = Inr (r, ctx', p', d')"
    using assms st by (auto simp: init_checked_def init_leave_def init_err_def Let_def split: if_splits)
  then show ?thesis
  proof cases
    case leave
    then show ?thesis by simp
  next
    case opened
    from opened(1) assms(1)
    have "fds (p_open (os_open_mem os) p) = mem_fd ?ctx # aip_fd ?ctx # rest" by simp
    then show ?thesis using opened(2) by (rule init_opened_fds)
  qed
qed

text \<open>No descriptor is leaked by a start, whatever fails: either the process has
  the descriptors it had, and the context none, or the two new ones are open and in the context.\<close>

theorem ctx_init_descriptors:
  assumes "iaic_ctx_init_internal fuel k os sys mem_size ctx p d = Inr (r, ctx', p', d')"
  shows "(fds p' = fds p \<and> aip_fd ctx' \<le> 0) \<or> fds p' = mem_fd ctx' # aip_fd ctx' # fds p"
proof (cases "os_open_aip os < 0")
  case True
  with assms show ?thesis by (auto simp: iaic_ctx_init_internal_def Let_def)
next
  case False
  let ?ctx = "ctx\<lparr>aip_fd := os_open_aip os\<rparr>" and ?p = "p_open (os_open_aip os) p"
  from assms False obtain ok c1 p1 d1 where shm: "init_shm fuel k os ?ctx ?p d = Inr (ok, c1, p1, d1)"
    and rest: "(if \<not> ok then init_leave IAIC_CODE_INIT_FAIL (init_err (c1, p1)) d1
        else init_checked fuel k os sys mem_size c1 p1 d1) = Inr (r, ctx', p', d')"
    by (auto simp: iaic_ctx_init_internal_def Let_def res_bind_Inr_iff)
  from init_shm_fds [OF shm] False have f: "fds p1 = aip_fd c1 # fds p" by simp
  show ?thesis
  proof (cases ok)
    case True
    with rest init_checked_fds [OF f] show ?thesis by simp
  next
    case False
    with rest f show ?thesis by (auto simp: init_leave_def init_err_def)
  qed
qed

text \<open>A system where everything works.\<close>

definition sample_os :: os where
  "sample_os = \<lparr>os_open_aip = 3, os_ftok = 77, os_shmget_excl = 5, os_shmget = 5, os_shmat = 0x76000000,
     os_mutex_init_ok = True, os_open_mem = 4, os_mmap = (\<lambda>_ n _. if n = 0x1000 then 0x71000000 else 0x70000000), os_malloc = True\<rparr>"

definition sample_proc :: proc where
  "sample_proc = \<lparr>fds = [0, 1, 2], mapped = {}, shm_attached = False\<rparr>"

lemma jz_mutex_lock:
  assumes "\<not> nna_mutex (nna d)" "0 < fuel"
  shows "iaic_mutex_lock fuel (jz_kernel ie) d = Inr (IAIC_CODE_OK, d\<lparr>nna := (nna d)\<lparr>nna_mutex := True\<rparr>\<rparr>)"
proof -
  have "jz_kernel ie (IOCTL_AIP_V20_ACTION AIP_ACTION_CTX_LOCK) d =
      Inr (0, Io_action Act_nothing, d\<lparr>nna := (nna d)\<lparr>nna_mutex := True\<rparr>\<rparr>)"
    using assms(1) by (simp add: jz_kernel_def jz_aip_v20_ioctl_def jz_aip_v20_action_def ERESTARTSYS_def)
  from lib_ioctl_once [of "jz_kernel ie", OF this _ _ assms(2)] show ?thesis
    by (simp add: iaic_mutex_lock_def EINTR_def EAGAIN_def)
qed

lemma jz_mutex_unlock:
  assumes "0 < fuel"
  shows "iaic_mutex_unlock fuel (jz_kernel ie) d = Inr (IAIC_CODE_OK, d\<lparr>nna := (nna d)\<lparr>nna_mutex := False\<rparr>\<rparr>)"
proof -
  have "jz_kernel ie (IOCTL_AIP_V20_ACTION AIP_ACTION_CTX_UNLOCK) d =
      Inr (0, Io_action Act_nothing, d\<lparr>nna := (nna d)\<lparr>nna_mutex := False\<rparr>\<rparr>)"
    by (simp add: jz_kernel_def jz_aip_v20_ioctl_def jz_aip_v20_action_def ERESTARTSYS_def)
  from lib_ioctl_once [of "jz_kernel ie", OF this _ _ assms] show ?thesis
    by (simp add: iaic_mutex_unlock_def EINTR_def EAGAIN_def)
qed

lemma free_mutex_same: "\<not> nna_mutex n \<Longrightarrow> n\<lparr>nna_mutex := True, nna_mutex := False\<rparr> = (n :: 'p nna_state)"
  by (cases n) simp

theorem ctx_init_descriptors_witness:
  "\<exists>ctx'. iaic_ctx_init_internal 1 (jz_kernel (sample_ie (clearing_soc True))) (sample_os\<lparr>os_ftok := - 1\<rparr>)
      (bo_sys (jz_kernel (sample_ie (clearing_soc True))) (\<lambda>_ _. 0x60000000) True) 0x100000
      sample_ctx sample_proc sample_dev = Inr (IAIC_CODE_INIT_FAIL, ctx', sample_proc, sample_dev) \<and> aip_fd ctx' \<le> 0"
proof -
  have "\<not> nna_mutex (nna sample_dev)" by (simp add: sample_nna_def)
  then have run: "\<exists>ctx'. iaic_ctx_init_internal 1 (jz_kernel (sample_ie (clearing_soc True)))
      (sample_os\<lparr>os_ftok := - 1\<rparr>)
      (bo_sys (jz_kernel (sample_ie (clearing_soc True))) (\<lambda>_ _. 0x60000000) True) 0x100000 sample_ctx sample_proc sample_dev =
      Inr (IAIC_CODE_INIT_FAIL, ctx', sample_proc, sample_dev)"
    by (simp add: iaic_ctx_init_internal_def init_shm_def jz_mutex_lock jz_mutex_unlock free_mutex_same sample_os_def
        sample_proc_def p_open_def p_close_def init_err_def init_leave_def Let_def)
  then obtain ctx' where *: "iaic_ctx_init_internal 1 (jz_kernel (sample_ie (clearing_soc True)))
      (sample_os\<lparr>os_ftok := - 1\<rparr>)
      (bo_sys (jz_kernel (sample_ie (clearing_soc True))) (\<lambda>_ _. 0x60000000) True) 0x100000 sample_ctx sample_proc sample_dev =
      Inr (IAIC_CODE_INIT_FAIL, ctx', sample_proc, sample_dev)" by blast
  from ctx_init_descriptors [OF this] have "aip_fd ctx' \<le> 0" by (auto dest: arg_cong [where f = "length"])
  with * show ?thesis by blast
qed

end
