(* ===== verification/IaicStart.thy ===== *)
theory IaicStart
  imports IaicCtx
begin

text \<open>
  The start and the end of a library context on the driver of \<open>Drv\<close>: where a start
  leads when everything works (a pool of two blocks, ready for \<open>IaicPool\<close>), that ending
  the context gives everything back, and the starts that fail and report success.
\<close>

section \<open>The calls of the start on the driver\<close>

definition jz_status :: "soc \<Rightarrow> iaic_status" where
  "jz_status soc = \<lparr>drv_version = AIP_V20_DRV_VERSION, lib_version = AIP_V20_LIB_VERSION,
     chip_version = (if repair_a1 soc then 0xa1 else 0x41)\<rparr>"

definition pool_limit :: "soc \<Rightarrow> u32" where
  "pool_limit soc = (if repair_a1 soc then 0x10000000 else 0x8000000)"

lemma jz_get_status:
  assumes "0 < fuel"
  shows "iaic_get_status fuel (jz_kernel ie) d = Inr (IAIC_CODE_OK, jz_status (ie_soc ie), d)"
proof -
  have "jz_kernel ie (IOCTL_AIP_V20_ACTION AIP_ACTION_STATUS) d = Inr (0, Io_action (jz_aip_v20_set_status (ie_soc ie)), d)"
    by (simp add: jz_kernel_def jz_aip_v20_ioctl_def jz_aip_v20_action_def ERESTARTSYS_def)
  from lib_ioctl_once [of "jz_kernel ie", OF this _ _ assms] show ?thesis
    by (simp add: iaic_get_status_def jz_aip_v20_set_status_def jz_status_def EINTR_def EAGAIN_def)
qed

lemma jz_set_nice:
  assumes "0 < fuel"
  shows "iaic_set_proc_nice fuel (jz_kernel ie) v d = Inr (0, d)"
proof -
  have "jz_kernel ie (IOCTL_AIP_V20_ACTION (AIP_ACTION_SET_PROC_NICE v)) d = Inr (0, Io_action (Act_nice v), d)"
    by (simp add: jz_kernel_def jz_aip_v20_ioctl_def jz_aip_v20_action_def ERESTARTSYS_def)
  from lib_ioctl_once [of "jz_kernel ie", OF this _ _ assms] show ?thesis
    by (simp add: iaic_set_proc_nice_def EINTR_def EAGAIN_def)
qed

lemma jz_nna_status:
  assumes "0 < fuel"
  shows "\<exists>st'. iaic_nna_status fuel (jz_kernel ie) st d = Inr (IAIC_CODE_OK, st', d)"
proof -
  have "jz_kernel ie (IOCTL_NNA_V20_OP NNA_OP_STATUS) d = Inr (0, Io_nna (Out_status (nna_get_status (nna d))), d)"
    by (simp add: jz_kernel_def jz_aip_v20_ioctl_def jz_nna_v20_op_def ERESTARTSYS_def)
  from lib_ioctl_once [of "jz_kernel ie", OF this _ _ assms] show ?thesis
    by (simp add: iaic_nna_status_def Let_def EINTR_def EAGAIN_def)
qed

text \<open>The driver's append, as the pool calls it: it gives the memory the DMA allocator
  found, or no handle.\<close>

lemma jz_append_gives:
  assumes "kmalloc_ok (ie_env ie)" "ie_dma ie = Some (va, pa)" "0 \<le> ie_bo_alloc ie (bo_handles (bos d))" "0 < fuel"
  shows "\<exists>b. iaic_ioctl fuel (lib_bo_call (jz_kernel ie)) (append_arg n) d =
      Inr (0, (append_arg n)\<lparr>io_paddr := pa, io_handle := ie_bo_alloc ie (bo_handles (bos d))\<rparr>, d\<lparr>bos := b\<rparr>) \<and>
    jz_aip_v20_bo_append (ie_env ie) (Some (va, pa)) (ie_bo_alloc ie) (append_arg n) (bos d) =
      Inr (0, (append_arg n)\<lparr>io_paddr := pa, io_handle := ie_bo_alloc ie (bo_handles (bos d))\<rparr>, b)"
proof -
  obtain b where b: "jz_aip_v20_bo_append (ie_env ie) (Some (va, pa)) (ie_bo_alloc ie) (append_arg n) (bos d) =
      Inr (0, (append_arg n)\<lparr>io_paddr := pa, io_handle := ie_bo_alloc ie (bo_handles (bos d))\<rparr>, b)"
    using assms(1,3) by (simp add: jz_aip_v20_bo_append_def jz_aip_v20_bo_create_def bo_ref_def Let_def not_less [symmetric])
  then have "lib_bo_call (jz_kernel ie) (append_arg n) d =
      Inr (0, (append_arg n)\<lparr>io_paddr := pa, io_handle := ie_bo_alloc ie (bo_handles (bos d))\<rparr>, d\<lparr>bos := b\<rparr>)"
    using assms(2) by (simp add: lib_bo_call_def jz_kernel_def jz_aip_v20_ioctl_def jz_aip_v20_bo_def ERESTARTSYS_def append_arg_def)
  then have "iaic_ioctl fuel (lib_bo_call (jz_kernel ie)) (append_arg n) d =
      Inr (0, (append_arg n)\<lparr>io_paddr := pa, io_handle := ie_bo_alloc ie (bo_handles (bos d))\<rparr>, d\<lparr>bos := b\<rparr>)"
    using assms(4) by (intro iaic_ioctl_once) (simp_all add: EINTR_def EAGAIN_def)
  with b show ?thesis by blast
qed

lemma jz_append_refuses:
  assumes "ie_dma ie = None" "0 < fuel"
  shows "\<exists>b. iaic_ioctl fuel (lib_bo_call (jz_kernel ie)) (append_arg n) d = Inr (- EINVAL, append_arg n, d\<lparr>bos := b\<rparr>)"
proof -
  obtain b where "jz_aip_v20_bo_append (ie_env ie) None (ie_bo_alloc ie) (append_arg n) (bos d) =
      Inr (- EINVAL, append_arg n, b)"
    by (cases "kmalloc_ok (ie_env ie)") (auto simp: jz_aip_v20_bo_append_def jz_aip_v20_bo_create_def Let_def)
  then have "lib_bo_call (jz_kernel ie) (append_arg n) d = Inr (- EINVAL, append_arg n, d\<lparr>bos := b\<rparr>)"
    using assms(1) by (simp add: lib_bo_call_def jz_kernel_def jz_aip_v20_ioctl_def jz_aip_v20_bo_def ERESTARTSYS_def
        EINVAL_def append_arg_def)
  then have "iaic_ioctl fuel (lib_bo_call (jz_kernel ie)) (append_arg n) d = Inr (- EINVAL, append_arg n, d\<lparr>bos := b\<rparr>)"
    using assms(2) by (intro iaic_ioctl_once) (simp_all add: EINVAL_def EINTR_def EAGAIN_def)
  then show ?thesis by blast
qed

section \<open>The way to the pool\<close>

text \<open>Nothing the process asks of the system fails, and no window it gets lies on
  pages the process has already mapped.\<close>

definition os_works :: "os \<Rightarrow> bool" where
  "os_works os \<longleftrightarrow> 0 < os_open_aip os \<and> 0 \<le> os_ftok os \<and> 0 \<le> os_shmget_excl os \<and> os_shmat os \<noteq> - 1 \<and>
     os_mutex_init_ok os \<and> 0 < os_open_mem os \<and> (\<forall>fd n off. os_mmap os fd n off \<noteq> MAP_FAILED)"

definition fresh_windows :: "os \<Rightarrow> proc \<Rightarrow> bool" where
  "fresh_windows os p \<longleftrightarrow> (\<forall>fd n off. pages_of (os_mmap os fd n off) n \<inter> mapped p = {})"

text \<open>The windows a context has mapped, as \<open>iaic_ctx_destroy\<close> sees them.\<close>

definition windows_of :: "iaic_ctx \<Rightarrow> nat set" where
  "windows_of ctx = (let n = c_nna ctx in pages_of (aip_iob ctx) PAGE_SIZE \<union> pages_of (cpu_fast_iob ctx) PAGE_SIZE \<union>
     pages_of (ns_oram_vbase n) (ns_oram_size n) \<union> pages_of (ns_dma_vbase n) (ns_dma_size n) \<union>
     pages_of (ns_dma_desram_vbase n) (ns_dma_desram_size n))"

definition has_windows :: "iaic_ctx \<Rightarrow> bool" where
  "has_windows ctx \<longleftrightarrow> aip_iob ctx \<noteq> MAP_FAILED \<and> cpu_fast_iob ctx \<noteq> MAP_FAILED \<and> ns_oram_vbase (c_nna ctx) \<noteq> MAP_FAILED \<and>
     ns_dma_vbase (c_nna ctx) \<noteq> MAP_FAILED \<and> ns_dma_desram_vbase (c_nna ctx) \<noteq> MAP_FAILED"

lemma windows_opened:
  assumes "os_works os"
  shows "\<exists>ctx' p'. init_windows os base ctx p = Inr (ctx', p') \<and> has_windows ctx' \<and>
    mapped p' = mapped p \<union> windows_of ctx' \<and> (fresh_windows os p \<longrightarrow> windows_of ctx' \<inter> mapped p = {}) \<and>
    fds p' = fds p \<and> shm_attached p' = shm_attached p \<and> c_pool ctx' = c_pool ctx \<and> shared_bo ctx' = shared_bo ctx \<and>
    c_status ctx' = c_status ctx \<and> c_thread ctx' = c_thread ctx \<and> aip_fd ctx' = aip_fd ctx \<and> mem_fd ctx' = mem_fd ctx"
  using assms unfolding os_works_def
  by (simp add: init_windows_def has_windows_def p_mmap_def windows_of_def fresh_windows_def Let_def Int_Un_distrib2 Un_ac)

text \<open>Up to the pool the driver's state does not change.\<close>

lemma start_reaches_pool:
  assumes "os_works os" "\<not> nna_mutex (nna d)" "0 < fuel" "n \<le> pool_limit (ie_soc ie)"
  shows "\<exists>ctx' p'. iaic_ctx_init_internal fuel (jz_kernel ie) os sys n ctx p d = init_pool fuel sys n ctx' p' d \<and>
    has_windows ctx' \<and> mapped p' = mapped p \<union> windows_of ctx' \<and>
    (fresh_windows os p \<longrightarrow> windows_of ctx' \<inter> mapped p = {}) \<and> fds p' = mem_fd ctx' # aip_fd ctx' # fds p \<and>
    shm_attached p' \<and> c_pool ctx' = c_pool ctx \<and> c_thread ctx' = c_thread ctx \<and>
    c_status ctx' = jz_status (ie_soc ie) \<and> 0 < aip_fd ctx' \<and> 0 < mem_fd ctx'"
proof -
  let ?c1 = "ctx\<lparr>aip_fd := os_open_aip os\<rparr>" and ?p1 = "p_open (os_open_aip os) p"
  let ?c2 = "?c1\<lparr>shm_id := os_shmget_excl os, c_shm := os_shmat os\<rparr>" and ?p2 = "?p1\<lparr>shm_attached := True\<rparr>"
  let ?c3 = "?c2\<lparr>c_status := jz_status (ie_soc ie), mem_fd := os_open_mem os\<rparr>" and ?p3 = "p_open (os_open_mem os) ?p2"
  let ?base = "if repair_a1 (ie_soc ie) then 0x13090000 else (0x12b00000 :: u32)"
  note os = assms(1) [unfolded os_works_def]
  have shm: "init_shm fuel (jz_kernel ie) os ?c1 ?p1 d = Inr (True, ?c2, ?p2, d)"
    using os assms(2,3) by (simp add: init_shm_def jz_mutex_lock jz_mutex_unlock free_mutex_same Let_def)
  obtain st where st: "iaic_nna_status fuel (jz_kernel ie) (c_nna ?c3) d = Inr (IAIC_CODE_OK, st, d)"
    using jz_nna_status [OF assms(3)] by blast
  let ?c4 = "?c3\<lparr>c_nna := st\<rparr>"
  obtain c5 p5 where w: "init_windows os ?base ?c4 ?p3 = Inr (c5, p5)" "has_windows c5"
    "mapped p5 = mapped ?p3 \<union> windows_of c5" "fresh_windows os ?p3 \<longrightarrow> windows_of c5 \<inter> mapped ?p3 = {}"
    "fds p5 = fds ?p3" "shm_attached p5 = shm_attached ?p3" "c_pool c5 = c_pool ?c4" "c_status c5 = c_status ?c4"
    "c_thread c5 = c_thread ?c4" "aip_fd c5 = aip_fd ?c4" "mem_fd c5 = mem_fd ?c4"
    using windows_opened [OF assms(1), of ?base ?c4 ?p3] by blast
  have opened: "init_opened fuel (jz_kernel ie) os sys n ?base ?c3 ?p3 d = init_pool fuel sys n c5 p5 d"
    unfolding init_opened_def st using w(1) by (simp add: jz_set_nice [OF assms(3)])
  have checked: "init_checked fuel (jz_kernel ie) os sys n ?c2 ?p2 d = init_pool fuel sys n c5 p5 d"
    using opened os assms(4) jz_get_status [OF assms(3), of ie d]
    by (auto simp: init_checked_def jz_status_def pool_limit_def Let_def split: if_splits)
  have "iaic_ctx_init_internal fuel (jz_kernel ie) os sys n ctx p d = init_pool fuel sys n c5 p5 d"
    using os by (simp add: iaic_ctx_init_internal_def Let_def shm checked)
  with w os show ?thesis by (intro exI [of _ c5] exI [of _ p5]) (simp add: p_open_def fresh_windows_def)
qed

section \<open>The pool on the driver\<close>

text \<open>The first node and the shared buffer cut from it.\<close>

definition first_block :: "int \<Rightarrow> u32 \<Rightarrow> u32 \<Rightarrow> block" where
  "first_block h pa va = \<lparr>blk_size = 64, idle = False, is_bo = True, blk_handle = h, blk_paddr = pa, blk_vaddr = va\<rparr>"

definition rest_block :: "u32 \<Rightarrow> int \<Rightarrow> u32 \<Rightarrow> u32 \<Rightarrow> block" where
  "rest_block n h pa va = \<lparr>blk_size = n - 64, idle = True, is_bo = False, blk_handle = h,
     blk_paddr = pa + 64, blk_vaddr = va + 64\<rparr>"

lemma first_rest_inv:
  assumes "h \<noteq> 0" "0x240 \<le> n" "unat pa + unat n < 2 ^ 32"
  shows "blocks_inv [first_block h pa va, rest_block n h pa va]"
proof -
  have n: "64 \<le> unat n" "64 < n" using assms(2) by (auto simp: word_le_nat_alt word_less_nat_alt)
  have m: "unat (n - 64) = unat n - 64" using n by (simp add: unat_sub word_le_nat_alt)
  have a: "unat (pa + 64) = unat pa + 64" using assms(3) n(1) by (simp add: unat_word_ariths)
  have p: "0 < n - 64" using n m by (auto simp: word_less_nat_alt)
  show ?thesis
    using assms(1,3) n p by (auto simp: blocks_inv_def first_block_def rest_block_def fits_def next_ok_def apart_def
        extent_def m a)
qed

lemma init_pool_on_driver:
  assumes "kmalloc_ok (ie_env ie)" "ie_dma ie = Some (va, pa)" "0 \<le> ie_bo_alloc ie (bo_handles (bos d))"
    "idr_alloc_ok (ie_bo_alloc ie)" "0 < fuel" "0x240 \<le> n" "unat pa + unat n < 2 ^ 32"
    "dom (blocks (c_pool ctx)) \<subseteq> {..< blk_next (c_pool ctx)}"
  shows "\<exists>h pool b. init_pool fuel (bo_sys (jz_kernel ie) mm True) n ctx p d =
      Inr (IAIC_CODE_OK, ctx\<lparr>c_pool := pool, shared_bo := bo_of_block 0x10 (first_block h pa (mm n pa))\<rparr>, p, d\<lparr>bos := b\<rparr>) \<and>
    fresh_pool pool (first_block h pa (mm n pa)) (rest_block n h pa (mm n pa)) \<and> max_mem_size pool = n \<and>
    jz_aip_v20_bo_append (ie_env ie) (Some (va, pa)) (ie_bo_alloc ie) (append_arg n) (bos d) =
      Inr (0, (append_arg n)\<lparr>io_paddr := pa, io_handle := h\<rparr>, b)"
proof -
  let ?h = "ie_bo_alloc ie (bo_handles (bos d))" and ?q = "blk_next (c_pool ctx)"
  obtain b where b: "iaic_ioctl fuel (lib_bo_call (jz_kernel ie)) (append_arg n) d =
      Inr (0, (append_arg n)\<lparr>io_paddr := pa, io_handle := ?h\<rparr>, d\<lparr>bos := b\<rparr>)"
    "jz_aip_v20_bo_append (ie_env ie) (Some (va, pa)) (ie_bo_alloc ie) (append_arg n) (bos d) =
      Inr (0, (append_arg n)\<lparr>io_paddr := pa, io_handle := ?h\<rparr>, b)"
    using jz_append_gives [OF assms(1-3,5), of n] by blast
  have h: "1 \<le> ?h" using assms(3) assms(4) [unfolded idr_alloc_ok_def, rule_format, of "bo_handles (bos d)"] by linarith
  have n: "1 < n" "64 \<le> n" "\<not> n - 64 < 0x200" "\<not> n < 64"
  proof -
    have u: "0x240 \<le> unat n" using assms(6) by (simp add: word_le_nat_alt)
    then show "1 < n" "64 \<le> n" "\<not> n < 64" by (simp_all add: word_le_nat_alt word_less_nat_alt)
    from u have "unat (n - 64) = unat n - 64" by (simp add: unat_sub word_le_nat_alt)
    with u show "\<not> n - 64 < 0x200" by (simp add: word_less_nat_alt)
  qed
  define pool where "pool = \<lparr>max_mem_size = n, bo_list = [?q, ?q + 1],
    blocks = (blocks (c_pool ctx))(?q \<mapsto> first_block ?h pa (mm n pa), ?q + 1 \<mapsto> rest_block n ?h pa (mm n pa)),
    blk_next = ?q + 2, lock_word = False\<rparr>"
  let ?p1 = "\<lparr>max_mem_size = n, bo_list = [?q], blocks = (blocks (c_pool ctx))(?q \<mapsto>
     \<lparr>blk_size = n, idle = True, is_bo = True, blk_handle = ?h, blk_paddr = pa, blk_vaddr = mm n pa\<rparr>),
    blk_next = ?q + 1, lock_word = False\<rparr>"
  have node: "create_bo_node fuel (bo_sys (jz_kernel ie) mm True) n
      ((c_pool ctx)\<lparr>max_mem_size := n, bo_list := [], lock_word := False\<rparr>) d = Inr (IAIC_CODE_OK, ?p1, d\<lparr>bos := b\<rparr>)"
    using b(1) h by (cases "c_pool ctx") (simp add: create_bo_node_def append_arg_def bo_sys_def pool_lock_def pool_unlock_def Let_def)
  have cut: "iaic_fast_alloc_bo fuel (bo_sys (jz_kernel ie) mm True) t 0x10 ?p1 d1 =
      Inr (IAIC_CODE_OK, Some (bo_of_block 0x10 (first_block ?h pa (mm n pa))), pool, d1)" for t d1
    using n by (simp add: iaic_fast_alloc_bo_def pool_lock_def pool_unlock_def align_64_def Let_def bo_sys_def
        split_block_def pool_def first_block_def rest_block_def bo_of_block_def fun_upd_twist)
  have "init_pool fuel (bo_sys (jz_kernel ie) mm True) n ctx p d =
      Inr (IAIC_CODE_OK, ctx\<lparr>c_pool := pool, shared_bo := bo_of_block 0x10 (first_block ?h pa (mm n pa))\<rparr>, p, d\<lparr>bos := b\<rparr>)"
    using n(1) node cut by (simp add: init_pool_def iaic_create_bo_def Let_def)
  moreover have "pool_wf pool" using assms(8) by (auto simp: pool_def pool_wf_def)
  then have "fresh_pool pool (first_block ?h pa (mm n pa)) (rest_block n ?h pa (mm n pa))"
    using first_rest_inv [of ?h n pa] h assms(6,7)
    by (simp add: fresh_pool_def pool_inv_def pool_blocks_def) (simp add: pool_def first_block_def rest_block_def)
  moreover have "max_mem_size pool = n" by (simp add: pool_def)
  ultimately show ?thesis using b(2) by blast
qed

section \<open>A start that works\<close>

text \<open>C8. When the system and the driver give what is asked for, the library starts: the
  versions match, both descriptors are open, the shared buffer has its 16 bytes, and
  the pool is the one \<open>IaicPool\<close> works on, with all but the first 64 bytes to give out.\<close>

theorem ctx_init_starts_pool:
  assumes "os_works os" "\<not> nna_mutex (nna d)" "0 < fuel" "0x240 \<le> n" "n \<le> pool_limit (ie_soc ie)"
    "kmalloc_ok (ie_env ie)" "ie_dma ie = Some (va, pa)" "unat pa + unat n < 2 ^ 32"
    "idr_alloc_ok (ie_bo_alloc ie)" "0 \<le> ie_bo_alloc ie (bo_handles (bos d))"
    "dom (blocks (c_pool ctx)) \<subseteq> {..< blk_next (c_pool ctx)}"
  shows "\<exists>ctx' p' d' f r. iaic_ctx_init fuel (jz_kernel ie) os (bo_sys (jz_kernel ie) mm True) n ctx p d =
      Inr (IAIC_CODE_OK, ctx', p', d') \<and>
    fresh_pool (c_pool ctx') f r \<and> unat (blk_size r) = unat n - 64 \<and> ib_size (shared_bo ctx') = 0x10 \<and>
    fds p' = mem_fd ctx' # aip_fd ctx' # fds p \<and> mapped p' = mapped p \<union> windows_of ctx'"
proof -
  obtain ctx1 p1 where init: "iaic_ctx_init_internal fuel (jz_kernel ie) os (bo_sys (jz_kernel ie) mm True) n ctx p d =
      init_pool fuel (bo_sys (jz_kernel ie) mm True) n ctx1 p1 d"
    and c1: "mapped p1 = mapped p \<union> windows_of ctx1" "fds p1 = mem_fd ctx1 # aip_fd ctx1 # fds p"
      "c_pool ctx1 = c_pool ctx" "c_status ctx1 = jz_status (ie_soc ie)"
    using start_reaches_pool [OF assms(1-3,5)] by blast
  have "dom (blocks (c_pool ctx1)) \<subseteq> {..< blk_next (c_pool ctx1)}" using assms(11) c1(3) by simp
  from init_pool_on_driver [OF assms(6,7,10,9,3,4,8) this] obtain h pool b where
    run: "init_pool fuel (bo_sys (jz_kernel ie) mm True) n ctx1 p1 d =
      Inr (IAIC_CODE_OK, ctx1\<lparr>c_pool := pool, shared_bo := bo_of_block 0x10 (first_block h pa (mm n pa))\<rparr>, p1, d\<lparr>bos := b\<rparr>)"
    and pool: "fresh_pool pool (first_block h pa (mm n pa)) (rest_block n h pa (mm n pa))" by blast
  have "0x40 \<le> unat n" using assms(4) by (simp add: word_le_nat_alt)
  then have "unat (blk_size (rest_block n h pa (mm n pa))) = unat n - 64"
    by (simp add: rest_block_def unat_sub word_le_nat_alt)
  moreover have "iaic_ctx_init fuel (jz_kernel ie) os (bo_sys (jz_kernel ie) mm True) n ctx p d =
      Inr (IAIC_CODE_OK, ctx1\<lparr>c_pool := pool, shared_bo := bo_of_block 0x10 (first_block h pa (mm n pa))\<rparr>, p1, d\<lparr>bos := b\<rparr>)"
    by (simp add: iaic_ctx_init_def init run c1(4) jz_status_def)
  ultimately show ?thesis using pool c1 by (auto simp: bo_of_block_def windows_of_def)
qed

lemma sample_starts:
  "os_works sample_os" "\<not> nna_mutex (nna sample_dev)" "kmalloc_ok (ie_env (sample_ie soc))"
  "ie_dma (sample_ie soc) = Some (0x82000000, 0x2000)" "idr_alloc_ok (ie_bo_alloc (sample_ie soc))"
  "0 \<le> ie_bo_alloc (sample_ie soc) (bo_handles (bos sample_dev))" "ie_soc (sample_ie soc) = soc"
  "dom (blocks (c_pool sample_ctx)) \<subseteq> {..< blk_next (c_pool sample_ctx)}"
  by (auto simp: os_works_def sample_os_def MAP_FAILED_def sample_nna_def sample_ie_def sample_env_def first_id_ok
      first_id_def sample_ctx_def started_pool_def)

theorem ctx_init_starts_pool_witness:
  "\<exists>ctx' p' d' f r. iaic_ctx_init 1 (jz_kernel (sample_ie (clearing_soc True))) sample_os
      (bo_sys (jz_kernel (sample_ie (clearing_soc True))) (\<lambda>_ _. 0x60000000) True) 0x100000 sample_ctx sample_proc sample_dev =
      Inr (IAIC_CODE_OK, ctx', p', d') \<and> fresh_pool (c_pool ctx') f r \<and> unat (blk_size r) = 0xfffc0"
proof -
  have lim: "(0x100000 :: u32) \<le> pool_limit (ie_soc (sample_ie (clearing_soc True)))"
    by (simp add: sample_starts pool_limit_def clearing_soc_def)
  from ctx_init_starts_pool [OF sample_starts(1,2) _ _ lim sample_starts(3,4) _ sample_starts(5,6,8),
      of 1 "\<lambda>_ _. 0x60000000" sample_proc] show ?thesis by auto
qed

section \<open>The end of a context\<close>

lemma jz_destroy_first:
  assumes "bo_inv (bos d)" "idr_alloc_ok (ie_bo_alloc ie)" "0 < fuel"
    "jz_aip_v20_bo_append (ie_env ie) (Some (va, pa)) (ie_bo_alloc ie) (append_arg n) (bos d) =
      Inr (0, (append_arg n)\<lparr>io_paddr := pa, io_handle := h\<rparr>, b)" "\<not> ie_debug ie"
  shows "\<exists>b2. iaic_ioctl fuel (lib_bo_call (jz_kernel ie)) (destroy_arg m h a) (d\<lparr>bos := b\<rparr>) =
      Inr (0, destroy_arg m h a, d\<lparr>bos := b2\<rparr>) \<and> same_bos (bos d) b2 \<and> h \<noteq> 0"
proof -
  from bo_append_then_destroy [OF assms(1,2,4)] obtain b2 where
    d: "jz_aip_v20_bo_destroy False ((append_arg n)\<lparr>io_paddr := pa, io_handle := h\<rparr>) b = Inr (0, b2)"
      "bo_handles b2 = bo_handles (bos d)" "bo_objs b2 = bo_objs (bos d)" "1 \<le> h" by auto
  have "jz_aip_v20_bo_destroy False (destroy_arg m h a) b = Inr (0, b2)"
    using d(1) by (simp add: jz_aip_v20_bo_destroy_def destroy_arg_def)
  then have "lib_bo_call (jz_kernel ie) (destroy_arg m h a) (d\<lparr>bos := b\<rparr>) = Inr (0, destroy_arg m h a, d\<lparr>bos := b2\<rparr>)"
    using assms(5) by (simp add: lib_bo_call_def jz_kernel_def jz_aip_v20_ioctl_def jz_aip_v20_bo_def ERESTARTSYS_def destroy_arg_def)
  then have "iaic_ioctl fuel (lib_bo_call (jz_kernel ie)) (destroy_arg m h a) (d\<lparr>bos := b\<rparr>) =
      Inr (0, destroy_arg m h a, d\<lparr>bos := b2\<rparr>)"
    using assms(3) by (intro iaic_ioctl_once) (simp_all add: EINTR_def EAGAIN_def)
  moreover have "bo_inv b2"
    by (rule bo_destroy_inv [OF bo_append_inv [OF assms(1,2,4)] d(1)])
  ultimately show ?thesis using d(2-4) by (auto simp: same_bos_def)
qed

lemma destroy_unmaps:
  assumes "has_windows ctx" "0 < mem_fd ctx" "0 < aip_fd ctx" "fds p = mem_fd ctx # aip_fd ctx # rest"
    "iaic_destroy_bo fuel sys (shared_bo ctx) ctx d = Inr (r, bo, ctx\<lparr>c_pool := pool\<rparr>, d')"
  shows "\<exists>ctx'. iaic_ctx_destroy fuel sys ctx p d =
      Inr (IAIC_CODE_OK, ctx', \<lparr>fds = rest, mapped = mapped p - windows_of ctx, shm_attached = False\<rparr>, d') \<and>
    aip_fd ctx' = - 1 \<and> mem_fd ctx' = - 1 \<and> \<not> has_windows ctx' \<and> c_pool ctx' = pool"
proof -
  have "mapped p - a - b - c - e - f = mapped p - (a \<union> b \<union> c \<union> e \<union> f)" for a b c e f by blast
  with assms show ?thesis
    by (cases p) (simp add: iaic_ctx_destroy_def has_windows_def windows_of_def p_munmap_def p_close_def Let_def)
qed

text \<open>A context without a pool allocates the shared buffer from the driver and maps it with a page on
  either side; the mapping is refused when its address behind the first page is \<open>MAP_FAILED\<close>.\<close>

definition without_pool :: "(u32 \<Rightarrow> u32 \<Rightarrow> u32) \<Rightarrow> u32 \<Rightarrow> u32 \<Rightarrow> bool" where
  "without_pool mm pa n \<longleftrightarrow> \<not> 1 < n \<and> 4096 \<le> sint pa \<and> mm 0x2010 (pa - PAGE_SIZE) + PAGE_SIZE \<noteq> MAP_FAILED"

lemma shared_without_pool:
  assumes "kmalloc_ok (ie_env ie)" "ie_dma ie = Some (va, pa)" "0 \<le> ie_bo_alloc ie (bo_handles (bos d))"
    "idr_alloc_ok (ie_bo_alloc ie)" "0 < fuel" "without_pool mm pa n" "bo_inv (bos d)" "\<not> ie_debug ie"
  shows "\<exists>bo bo' b b2. init_pool fuel (bo_sys (jz_kernel ie) mm True) n ctx p d =
      Inr (IAIC_CODE_OK, ctx\<lparr>c_pool := (c_pool ctx)\<lparr>max_mem_size := n, bo_list := [], lock_word := False\<rparr>, shared_bo := bo\<rparr>, p, d\<lparr>bos := b\<rparr>) \<and>
    iaic_free_bo fuel (bo_sys (jz_kernel ie) mm True) bo (d\<lparr>bos := b\<rparr>) = Inr (IAIC_CODE_OK, bo', d\<lparr>bos := b2\<rparr>) \<and>
    same_bos (bos d) b2"
proof -
  let ?h = "ie_bo_alloc ie (bo_handles (bos d))"
  obtain b where b: "iaic_ioctl fuel (lib_bo_call (jz_kernel ie)) (append_arg 0x10) d =
      Inr (0, (append_arg 0x10)\<lparr>io_paddr := pa, io_handle := ?h\<rparr>, d\<lparr>bos := b\<rparr>)"
    "jz_aip_v20_bo_append (ie_env ie) (Some (va, pa)) (ie_bo_alloc ie) (append_arg 0x10) (bos d) =
      Inr (0, (append_arg 0x10)\<lparr>io_paddr := pa, io_handle := ?h\<rparr>, b)"
    using jz_append_gives [OF assms(1-3,5), of "0x10"] by blast
  obtain b2 where b2: "iaic_ioctl fuel (lib_bo_call (jz_kernel ie)) (destroy_arg 0x10 ?h pa) (d\<lparr>bos := b\<rparr>) =
      Inr (0, destroy_arg 0x10 ?h pa, d\<lparr>bos := b2\<rparr>)" "same_bos (bos d) b2" "?h \<noteq> 0"
    using jz_destroy_first [OF assms(7,4,5) b(2) assms(8)] by blast
  have n: "\<not> 1 < n" "\<not> sint pa < sint PAGE_SIZE" "mm 0x2010 (pa - PAGE_SIZE) + PAGE_SIZE \<noteq> MAP_FAILED"
    using assms(6) by (simp_all add: without_pool_def PAGE_SIZE_def)
  have sz: "(0x10 :: u32) + PAGE_SIZE * 2 = 0x2010" by (simp add: PAGE_SIZE_def)
  define bo where "bo = (shared_bo ctx)\<lparr>ib_size := 0x10, ib_handle := ?h, ib_paddr := pa, ib_esize := 0x2010,
    ib_evaddr := mm 0x2010 (pa - PAGE_SIZE), ib_vaddr := mm 0x2010 (pa - PAGE_SIZE) + PAGE_SIZE\<rparr>"
  have "iaic_alloc_bo fuel (bo_sys (jz_kernel ie) mm True) 0x10 (shared_bo ctx) d = Inr (IAIC_CODE_OK, bo, d\<lparr>bos := b\<rparr>)"
    using b(1) b2(3) n unfolding append_arg_def
    by (simp add: iaic_alloc_bo_def bo_sys_def bo_def sz Let_def)
  moreover have "iaic_free_bo fuel (bo_sys (jz_kernel ie) mm True) bo (d\<lparr>bos := b\<rparr>) =
      Inr (IAIC_CODE_OK, bo\<lparr>ib_handle := 0, ib_vaddr := MAP_FAILED\<rparr>, d\<lparr>bos := b2\<rparr>)"
    using b2(1,3) unfolding destroy_arg_def by (simp add: iaic_free_bo_def bo_sys_def bo_def)
  ultimately show ?thesis using b2(2) n(1) by (auto simp: init_pool_def iaic_create_bo_def)
qed

lemma destroy_after_pool:
  assumes "os_works os" "\<not> nna_mutex (nna d)" "0 < fuel" "0x240 \<le> n" "n \<le> pool_limit (ie_soc ie)"
    "kmalloc_ok (ie_env ie)" "ie_dma ie = Some (va, pa)" "unat pa + unat n < 2 ^ 32"
    "idr_alloc_ok (ie_bo_alloc ie)" "0 \<le> ie_bo_alloc ie (bo_handles (bos d))"
    "dom (blocks (c_pool ctx)) \<subseteq> {..< blk_next (c_pool ctx)}" "fresh_windows os p" "bo_inv (bos d)" "\<not> ie_debug ie"
  shows "\<exists>ctx1 p1 d1 ctx2 b2. iaic_ctx_init fuel (jz_kernel ie) os (bo_sys (jz_kernel ie) mm True) n ctx p d =
      Inr (IAIC_CODE_OK, ctx1, p1, d1) \<and>
    iaic_ctx_destroy fuel (bo_sys (jz_kernel ie) mm True) ctx1 p1 d1 =
      Inr (IAIC_CODE_OK, ctx2, p\<lparr>shm_attached := False\<rparr>, d\<lparr>bos := b2\<rparr>) \<and>
    same_bos (bos d) b2 \<and> aip_fd ctx2 = - 1 \<and> mem_fd ctx2 = - 1"
proof -
  let ?sys = "bo_sys (jz_kernel ie) mm True"
  obtain ctx1 p1 where init: "iaic_ctx_init_internal fuel (jz_kernel ie) os ?sys n ctx p d = init_pool fuel ?sys n ctx1 p1 d"
    and c1: "has_windows ctx1" "mapped p1 = mapped p \<union> windows_of ctx1" "windows_of ctx1 \<inter> mapped p = {}"
      "fds p1 = mem_fd ctx1 # aip_fd ctx1 # fds p" "c_pool ctx1 = c_pool ctx" "c_status ctx1 = jz_status (ie_soc ie)"
      "0 < aip_fd ctx1" "0 < mem_fd ctx1"
    using start_reaches_pool [OF assms(1-3,5)] assms(12) by blast
  have "dom (blocks (c_pool ctx1)) \<subseteq> {..< blk_next (c_pool ctx1)}" using assms(11) c1(5) by simp
  from init_pool_on_driver [OF assms(6,7,10,9,3,4,8) this] obtain h pool b where
    run: "init_pool fuel ?sys n ctx1 p1 d =
      Inr (IAIC_CODE_OK, ctx1\<lparr>c_pool := pool, shared_bo := bo_of_block 0x10 (first_block h pa (mm n pa))\<rparr>, p1, d\<lparr>bos := b\<rparr>)"
    and pool: "fresh_pool pool (first_block h pa (mm n pa)) (rest_block n h pa (mm n pa))" "max_mem_size pool = n"
    and app: "jz_aip_v20_bo_append (ie_env ie) (Some (va, pa)) (ie_bo_alloc ie) (append_arg n) (bos d) =
      Inr (0, (append_arg n)\<lparr>io_paddr := pa, io_handle := h\<rparr>, b)" by blast
  let ?f = "first_block h pa (mm n pa)" and ?r = "rest_block n h pa (mm n pa)"
  let ?ctx = "ctx1\<lparr>c_pool := pool, shared_bo := bo_of_block 0x10 ?f\<rparr>"
  obtain b2 where b2: "iaic_ioctl fuel (lib_bo_call (jz_kernel ie)) (destroy_arg n h pa) (d\<lparr>bos := b\<rparr>) =
      Inr (0, destroy_arg n h pa, d\<lparr>bos := b2\<rparr>)" "same_bos (bos d) b2" "h \<noteq> 0"
    using jz_destroy_first [OF assms(13,9,3) app assms(14)] by blast
  have wf: "pool_wf pool" "\<not> lock_word pool" and bs: "pool_blocks pool = [] @ ?f # [?r]"
    using pool(1) by (auto simp: fresh_pool_def pool_inv_def)
  have dist: "distinct (map blk_paddr (pool_blocks pool))" by (simp add: bs first_block_def rest_block_def)
  obtain pool' where free: "iaic_fast_free_bo fuel ?sys (bo_of_block 0x10 ?f) pool (d\<lparr>bos := b\<rparr>) =
      Inr (IAIC_CODE_OK, pool', d\<lparr>bos := b2\<rparr>)"
    using free_first_block [OF wf _ _ bs dist, of "bo_of_block 0x10 ?f" fuel ?sys "d\<lparr>bos := b\<rparr>" "destroy_arg n h pa" "d\<lparr>bos := b2\<rparr>"]
      b2 pool(2) by (auto simp: first_block_def bo_of_block_def bo_sys_def destroy_arg_def)
  have "1 < n" using assms(4) by (auto simp: word_le_nat_alt word_less_nat_alt)
  with free pool(2) have "iaic_destroy_bo fuel ?sys (shared_bo ?ctx) ?ctx (d\<lparr>bos := b\<rparr>) =
      Inr (IAIC_CODE_OK, bo_of_block 0x10 ?f, ?ctx\<lparr>c_pool := pool'\<rparr>, d\<lparr>bos := b2\<rparr>)"
    by (simp add: iaic_destroy_bo_def)
  from destroy_unmaps [OF _ _ _ _ this, of p1 "fds p"] c1 obtain ctx2 where
    "iaic_ctx_destroy fuel ?sys ?ctx p1 (d\<lparr>bos := b\<rparr>) =
      Inr (IAIC_CODE_OK, ctx2, \<lparr>fds = fds p, mapped = mapped p1 - windows_of ?ctx, shm_attached = False\<rparr>, d\<lparr>bos := b2\<rparr>)"
    "aip_fd ctx2 = - 1" "mem_fd ctx2 = - 1" by (auto simp: has_windows_def)
  moreover have "mapped p1 - windows_of ?ctx = mapped p" using c1(2,3) by (auto simp: windows_of_def)
  moreover have "iaic_ctx_init fuel (jz_kernel ie) os ?sys n ctx p d = Inr (IAIC_CODE_OK, ?ctx, p1, d\<lparr>bos := b\<rparr>)"
    by (simp add: iaic_ctx_init_def init run c1(6) jz_status_def)
  moreover have "\<lparr>fds = fds p, mapped = mapped p, shm_attached = False\<rparr> = p\<lparr>shm_attached := False\<rparr>" by (cases p) simp
  ultimately show ?thesis using b2(2) by auto
qed

lemma destroy_without_pool:
  assumes "os_works os" "\<not> nna_mutex (nna d)" "0 < fuel" "without_pool mm pa n" "n \<le> pool_limit (ie_soc ie)"
    "kmalloc_ok (ie_env ie)" "ie_dma ie = Some (va, pa)"
    "idr_alloc_ok (ie_bo_alloc ie)" "0 \<le> ie_bo_alloc ie (bo_handles (bos d))" "fresh_windows os p" "bo_inv (bos d)" "\<not> ie_debug ie"
  shows "\<exists>ctx1 p1 d1 ctx2 b2. iaic_ctx_init fuel (jz_kernel ie) os (bo_sys (jz_kernel ie) mm True) n ctx p d =
      Inr (IAIC_CODE_OK, ctx1, p1, d1) \<and>
    iaic_ctx_destroy fuel (bo_sys (jz_kernel ie) mm True) ctx1 p1 d1 =
      Inr (IAIC_CODE_OK, ctx2, p\<lparr>shm_attached := False\<rparr>, d\<lparr>bos := b2\<rparr>) \<and>
    same_bos (bos d) b2 \<and> aip_fd ctx2 = - 1 \<and> mem_fd ctx2 = - 1"
proof -
  let ?sys = "bo_sys (jz_kernel ie) mm True"
  obtain ctx1 p1 where init: "iaic_ctx_init_internal fuel (jz_kernel ie) os ?sys n ctx p d = init_pool fuel ?sys n ctx1 p1 d"
    and c1: "has_windows ctx1" "mapped p1 = mapped p \<union> windows_of ctx1" "windows_of ctx1 \<inter> mapped p = {}"
      "fds p1 = mem_fd ctx1 # aip_fd ctx1 # fds p" "c_status ctx1 = jz_status (ie_soc ie)"
      "0 < aip_fd ctx1" "0 < mem_fd ctx1"
    using start_reaches_pool [OF assms(1-3,5)] assms(10) by blast
  let ?pool = "(c_pool ctx1)\<lparr>max_mem_size := n, bo_list := [], lock_word := False\<rparr>"
  from shared_without_pool [OF assms(6,7,9,8,3,4,11,12)] obtain bo bo' b b2 where
    run: "init_pool fuel ?sys n ctx1 p1 d = Inr (IAIC_CODE_OK, ctx1\<lparr>c_pool := ?pool, shared_bo := bo\<rparr>, p1, d\<lparr>bos := b\<rparr>)"
    and free: "iaic_free_bo fuel ?sys bo (d\<lparr>bos := b\<rparr>) = Inr (IAIC_CODE_OK, bo', d\<lparr>bos := b2\<rparr>)" and same: "same_bos (bos d) b2"
    by blast
  let ?ctx = "ctx1\<lparr>c_pool := ?pool, shared_bo := bo\<rparr>"
  have "\<not> 1 < n" using assms(4) by (simp add: without_pool_def)
  with free have "iaic_destroy_bo fuel ?sys (shared_bo ?ctx) ?ctx (d\<lparr>bos := b\<rparr>) =
      Inr (IAIC_CODE_OK, bo', ?ctx\<lparr>c_pool := ?pool\<rparr>, d\<lparr>bos := b2\<rparr>)"
    by (simp add: iaic_destroy_bo_def)
  from destroy_unmaps [OF _ _ _ _ this, of p1 "fds p"] c1 obtain ctx2 where
    "iaic_ctx_destroy fuel ?sys ?ctx p1 (d\<lparr>bos := b\<rparr>) =
      Inr (IAIC_CODE_OK, ctx2, \<lparr>fds = fds p, mapped = mapped p1 - windows_of ?ctx, shm_attached = False\<rparr>, d\<lparr>bos := b2\<rparr>)"
    "aip_fd ctx2 = - 1" "mem_fd ctx2 = - 1" by (auto simp: has_windows_def)
  moreover have "mapped p1 - windows_of ?ctx = mapped p" using c1(2,3) by (auto simp: windows_of_def)
  moreover have "iaic_ctx_init fuel (jz_kernel ie) os ?sys n ctx p d = Inr (IAIC_CODE_OK, ?ctx, p1, d\<lparr>bos := b\<rparr>)"
    by (simp add: iaic_ctx_init_def init run c1(5) jz_status_def)
  moreover have "\<lparr>fds = fds p, mapped = mapped p, shm_attached = False\<rparr> = p\<lparr>shm_attached := False\<rparr>" by (cases p) simp
  ultimately show ?thesis using same by auto
qed

text \<open>C31. Ending a context that was just started gives the system back what it had: the
  descriptors, the pages of the five windows, the segment, and in the driver the buffer objects. The context
  has a pool of at least 0x240 bytes within the chip's limit, or no pool at all. The mapping of the pool or of the shared
  buffer itself is not among the pages counted.\<close>

theorem ctx_init_destroy:
  assumes "os_works os" "\<not> nna_mutex (nna d)" "0 < fuel" "0x240 \<le> n \<and> unat pa + unat n < 2 ^ 32 \<or> without_pool mm pa n"
    "n \<le> pool_limit (ie_soc ie)" "kmalloc_ok (ie_env ie)" "ie_dma ie = Some (va, pa)"
    "idr_alloc_ok (ie_bo_alloc ie)" "0 \<le> ie_bo_alloc ie (bo_handles (bos d))"
    "dom (blocks (c_pool ctx)) \<subseteq> {..< blk_next (c_pool ctx)}" "fresh_windows os p" "bo_inv (bos d)" "\<not> ie_debug ie"
  shows "\<exists>ctx1 p1 d1 ctx2 b2. iaic_ctx_init fuel (jz_kernel ie) os (bo_sys (jz_kernel ie) mm True) n ctx p d =
      Inr (IAIC_CODE_OK, ctx1, p1, d1) \<and>
    iaic_ctx_destroy fuel (bo_sys (jz_kernel ie) mm True) ctx1 p1 d1 =
      Inr (IAIC_CODE_OK, ctx2, p\<lparr>shm_attached := False\<rparr>, d\<lparr>bos := b2\<rparr>) \<and>
    same_bos (bos d) b2 \<and> aip_fd ctx2 = - 1 \<and> mem_fd ctx2 = - 1"
  using assms(4)
proof
  assume n: "0x240 \<le> n \<and> unat pa + unat n < 2 ^ 32"
  show ?thesis by (rule destroy_after_pool [OF assms(1-3) _ assms(5-7) _ assms(8-13)]) (use n in simp_all)
next
  assume "without_pool mm pa n"
  then show ?thesis by (rule destroy_without_pool [OF assms(1-3) _ assms(5-9,11-13)])
qed

theorem ctx_init_destroy_witness:
  "\<exists>ctx1 p1 d1 ctx2 b2. iaic_ctx_init 1 (jz_kernel (sample_ie (clearing_soc True))) sample_os
      (bo_sys (jz_kernel (sample_ie (clearing_soc True))) (\<lambda>_ _. 0x60000000) True) 0x100000 sample_ctx sample_proc sample_dev =
      Inr (IAIC_CODE_OK, ctx1, p1, d1) \<and>
    iaic_ctx_destroy 1 (bo_sys (jz_kernel (sample_ie (clearing_soc True))) (\<lambda>_ _. 0x60000000) True) ctx1 p1 d1 =
      Inr (IAIC_CODE_OK, ctx2, sample_proc, sample_dev\<lparr>bos := b2\<rparr>) \<and> same_bos sample_bos b2"
proof -
  have lim: "(0x100000 :: u32) \<le> pool_limit (ie_soc (sample_ie (clearing_soc True)))"
    by (simp add: sample_starts pool_limit_def clearing_soc_def)
  have "fresh_windows sample_os sample_proc" "bo_inv (bos sample_dev)" "\<not> ie_debug (sample_ie (clearing_soc True))"
    "sample_proc\<lparr>shm_attached := False\<rparr> = sample_proc"
    by (simp_all add: fresh_windows_def sample_proc_def sample_bos_inv sample_ie_def)
  with ctx_init_destroy [OF sample_starts(1,2) _ _ lim sample_starts(3-6,8),
      of 1 "\<lambda>_ _. 0x60000000" sample_proc] show ?thesis by (fastforce intro: exI)
qed

section \<open>Starts that fail\<close>

lemma label_status [simp]:
  "c_status (fst (init_aip_iobase_fail (ctx, p))) = c_status ctx"
  "shm_attached (snd (init_aip_iobase_fail (ctx, p))) = shm_attached p"
  by (simp_all add: init_err_def init_fail_def init_nna_dma_fail_def p_munmap_def p_close_def
      init_nna_dma_desram_fail_def init_cpu_fast_iob_fail_def init_aip_iobase_fail_def)

text \<open>Two failures are reported as success: a pool larger than the limit, and a driver that
  has no memory for the pool's first node. The descriptors are closed and the shared
  segment stays attached.\<close>

theorem ctx_init_failure_reports_success:
  assumes "os_works os" "\<not> nna_mutex (nna d)" "0 < fuel"
    "pool_limit (ie_soc ie) < n \<or> (1 < n \<and> ie_dma ie = None)"
  shows "\<exists>ctx' p' d'. iaic_ctx_init fuel (jz_kernel ie) os (bo_sys (jz_kernel ie) mm True) n ctx p d =
      Inr (IAIC_CODE_OK, ctx', p', d') \<and> aip_fd ctx' = 0 \<and> fds p' = fds p \<and> shm_attached p'"
proof (cases "pool_limit (ie_soc ie) < n")
  case True
  let ?c = "ctx\<lparr>aip_fd := os_open_aip os, shm_id := os_shmget_excl os, c_shm := os_shmat os\<rparr>"
  let ?p = "(p_open (os_open_aip os) p)\<lparr>shm_attached := True\<rparr>"
  note os = assms(1) [unfolded os_works_def]
  have shm: "init_shm fuel (jz_kernel ie) os (ctx\<lparr>aip_fd := os_open_aip os\<rparr>) (p_open (os_open_aip os) p) d = Inr (True, ?c, ?p, d)"
    using os assms(2,3) by (simp add: init_shm_def jz_mutex_lock jz_mutex_unlock free_mutex_same Let_def)
  have "init_checked fuel (jz_kernel ie) os (bo_sys (jz_kernel ie) mm True) n ?c ?p d =
      init_leave IAIC_CODE_OK (init_err (?c\<lparr>c_status := jz_status (ie_soc ie)\<rparr>, ?p)) d"
    using True jz_get_status [OF assms(3), of ie d]
    by (auto simp: init_checked_def jz_status_def pool_limit_def Let_def split: if_splits)
  with shm os show ?thesis
    by (simp add: iaic_ctx_init_def iaic_ctx_init_internal_def init_leave_def init_err_def jz_status_def
        p_open_def p_close_def Let_def)
next
  case False
  then have n: "1 < n" "n \<le> pool_limit (ie_soc ie)" and dma: "ie_dma ie = None" using assms(4) by auto
  obtain ctx1 p1 where init: "iaic_ctx_init_internal fuel (jz_kernel ie) os (bo_sys (jz_kernel ie) mm True) n ctx p d =
      init_pool fuel (bo_sys (jz_kernel ie) mm True) n ctx1 p1 d"
    and c1: "fds p1 = mem_fd ctx1 # aip_fd ctx1 # fds p" "shm_attached p1" "c_status ctx1 = jz_status (ie_soc ie)"
    using start_reaches_pool [OF assms(1-3) n(2)] by blast
  obtain b where "iaic_ioctl fuel (lib_bo_call (jz_kernel ie)) (append_arg n) d = Inr (- EINVAL, append_arg n, d\<lparr>bos := b\<rparr>)"
    using jz_append_refuses [OF dma assms(3)] by blast
  then have node: "create_bo_node fuel (bo_sys (jz_kernel ie) mm True) n c d = Inr (IAIC_CODE_other (- 1), c, d\<lparr>bos := b\<rparr>)" for c
    by (simp add: create_bo_node_def bo_sys_def append_arg_def)
  let ?cp = "init_aip_iobase_fail (ctx1\<lparr>c_pool := (c_pool ctx1)\<lparr>max_mem_size := n, bo_list := [], lock_word := False\<rparr>\<rparr>, p1)"
  have "init_pool fuel (bo_sys (jz_kernel ie) mm True) n ctx1 p1 d = Inr (IAIC_CODE_OK, fst ?cp, snd ?cp, d\<lparr>bos := b\<rparr>)"
    using n(1) node by (simp add: init_pool_def Let_def case_prod_beta)
  with init c1 show ?thesis by (simp add: iaic_ctx_init_def jz_status_def)
qed

theorem ctx_init_failure_reports_success_witness:
  "\<exists>ctx' p' d'. iaic_ctx_init 1 (jz_kernel (sample_ie (clearing_soc True))) sample_os
      (bo_sys (jz_kernel (sample_ie (clearing_soc True))) (\<lambda>_ _. 0x60000000) True) 0x10000001 sample_ctx sample_proc sample_dev =
      Inr (IAIC_CODE_OK, ctx', p', d') \<and> aip_fd ctx' = 0 \<and> fds p' = [0, 1, 2]"
proof -
  have "pool_limit (ie_soc (sample_ie (clearing_soc True))) < (0x10000001 :: u32)"
    by (simp add: sample_starts pool_limit_def clearing_soc_def)
  with ctx_init_failure_reports_success [OF sample_starts(1,2), of 1 "sample_ie (clearing_soc True)" "0x10000001"
      "\<lambda>_ _. 0x60000000" sample_ctx sample_proc] show ?thesis by (auto simp: sample_proc_def)
qed

lemma whole_pages:
  assumes "unat a = 4096 * x" "unat n = 4096 * y"
  shows "pages_of a n = {x ..< x + y}"
proof -
  have "unat a + unat n + 4095 = 4095 + 4096 * (x + y)" using assms by simp
  then have "(unat a + unat n + 4095) div 4096 = x + y" by simp
  then show ?thesis using assms(1) by (simp add: pages_of_def)
qed

text \<open>The exit \<open>nna_dma_fail\<close> unmaps the on-chip RAM at the wrong address: \<open>curr_l2c_size\<close>
  bytes lower than it was mapped. With whole pages the last \<open>curr_l2c_size\<close> bytes of the window
  stay mapped, and what the process had below the window is gone.\<close>

theorem oram_unmapped_too_low:
  assumes "os_mmap os (aip_fd ctx) len off = v" "ns_oram_size (c_nna ctx) = len" "ns_oram_pbase (c_nna ctx) = off"
    "ns_curr_l2c_size (c_nna ctx) = c" "v \<noteq> MAP_FAILED"
    "os_mmap os (mem_fd ctx) (ns_dma_size (c_nna ctx)) (ns_dma_pbase (c_nna ctx)) = MAP_FAILED"
    "4096 dvd unat c" "4096 dvd unat len" "4096 dvd unat v" "c \<le> len" "c \<le> v" "unat v + unat len < 2 ^ 32"
  shows "\<exists>ctx' p'. init_windows os base ctx p = Inl (IAIC_CODE_NNA_DMA_INIT_FAIL, ctx', p') \<and>
    ns_oram_vbase (c_nna ctx') = MAP_FAILED \<and> pages_of (v + (len - c)) c \<subseteq> mapped p' \<and>
    mapped p' \<inter> pages_of (v - c) c = {}"
proof -
  let ?n = "c_nna ctx"
  have "mapped (snd (init_fail (x, q))) = mapped q" for x q
    by (simp add: init_fail_def init_err_def p_close_def)
  moreover have "ns_oram_vbase (c_nna (fst (init_fail (x, q)))) = ns_oram_vbase (c_nna x)" for x q
    by (simp add: init_fail_def init_err_def)
  ultimately have run: "\<exists>ctx' p'. init_windows os base ctx p = Inl (IAIC_CODE_NNA_DMA_INIT_FAIL, ctx', p') \<and>
      ns_oram_vbase (c_nna ctx') = MAP_FAILED \<and> mapped p' = mapped p \<union> pages_of v len - pages_of (v - c) len"
    using assms(1-6) by (cases "init_nna_dma_fail (ctx\<lparr>c_nna := ?n\<lparr>ns_oram_vbase := v, ns_dma_vbase := MAP_FAILED\<rparr>\<rparr>,
        p_mmap v len p)") (auto simp: init_windows_def Let_def p_mmap_def p_munmap_def init_nna_dma_fail_def prod_eq_iff)
  obtain i j k where w: "unat c = 4096 * i" "unat len = 4096 * j" "unat v = 4096 * k" using assms(7-9) by (auto elim!: dvdE)
  have le: "i \<le> j" "i \<le> k" using assms(10,11) w by (simp_all add: word_le_nat_alt)
  have "unat (len - c) = unat len - unat c" "unat (v - c) = unat v - unat c"
    using assms(10,11) by (simp_all add: unat_sub)
  moreover have "unat (v + (len - c)) = unat v + unat (len - c)"
    using assms(12) assms(10) by (intro unat_add_lem [THEN iffD1]) (simp add: unat_sub)
  ultimately have u: "unat (v + (len - c)) = 4096 * (k + (j - i))" "unat (v - c) = 4096 * (k - i)"
    using w le by (simp_all add: diff_mult_distrib2 add_mult_distrib2)
  have "pages_of v len = {k ..< k + j}" "pages_of (v + (len - c)) c = {k + (j - i) ..< k + j}"
    "pages_of (v - c) len = {k - i ..< k - i + j}" "pages_of (v - c) c = {k - i ..< k}"
    using w u le by (simp_all add: whole_pages)
  with run le show ?thesis by fastforce
qed

theorem oram_unmapped_too_low_witness:
  "\<exists>ctx' p'. init_windows (sample_os\<lparr>os_mmap := \<lambda>_ n _. if n = 0x60000 then 0x70000000 else MAP_FAILED\<rparr>) 0x13090000
      sample_ctx sample_proc = Inl (IAIC_CODE_NNA_DMA_INIT_FAIL, ctx', p') \<and>
    pages_of 0x70040000 0x20000 \<subseteq> mapped p' \<and> mapped p' \<inter> pages_of 0x6ffe0000 0x20000 = {}"
  using oram_unmapped_too_low [of "sample_os\<lparr>os_mmap := \<lambda>_ n _. if n = 0x60000 then 0x70000000 else MAP_FAILED\<rparr>"
      sample_ctx "0x60000" "0x12620000" "0x70000000" "0x20000" "0x13090000" sample_proc]
  by (auto simp: sample_ctx_def MAP_FAILED_def dvd_def)

end
