(* ===== verification/IaicImage.thy ===== *)
theory IaicImage
  imports IaicStart "HOL-Library.Signed_Division"
begin

unbundle bit_operations_syntax

text \<open>
  The image calls of \<open>lib/src/iaic_api.c\<close> over the AIP-T and AIP-F channels: image
  formats and sizes, files, \<open>iaic_cvt_format\<close>, \<open>iaic_resize\<close>. The memory here is the
  process's own (\<open>mem\<close>, at user addresses); that the driver sees the same pages at
  other addresses is not modelled. What an uninitialised variable holds is a parameter.
\<close>

section \<open>Formats\<close>

definition IAIC_NV12 :: u32 where "IAIC_NV12 = push_bit 8 0x2 OR push_bit 4 0x7 OR 0xf"
definition IAIC_Y :: u32 where "IAIC_Y = push_bit 8 0x0 OR push_bit 4 0x0 OR 0xf"
definition IAIC_UV :: u32 where "IAIC_UV = push_bit 8 0x1 OR push_bit 4 0x1 OR 0xf"
definition IAIC_BGRA :: u32 where "IAIC_BGRA = push_bit 8 0x3 OR push_bit 4 0x2 OR 0x0"
definition IAIC_ARGB :: u32 where "IAIC_ARGB = push_bit 8 0x3 OR push_bit 4 0x2 OR 0xd"
definition IAIC_FEATURE2 :: u32 where "IAIC_FEATURE2 = push_bit 8 0xf OR push_bit 4 0x3 OR 0xf"
definition IAIC_FEATURE4 :: u32 where "IAIC_FEATURE4 = push_bit 8 0xf OR push_bit 4 0x4 OR 0xf"
definition IAIC_FEATURE8 :: u32 where "IAIC_FEATURE8 = push_bit 8 0xf OR push_bit 4 0x5 OR 0xf"
definition IAIC_FEATURE8_H :: u32 where "IAIC_FEATURE8_H = push_bit 8 0xf OR push_bit 4 0x6 OR 0xf"
definition IAIC_RGBA2BGRA :: u32 where "IAIC_RGBA2BGRA = push_bit 8 0xf OR push_bit 4 0xf OR 0xe"

lemmas iaic_formats = IAIC_NV12_def IAIC_Y_def IAIC_UV_def IAIC_BGRA_def IAIC_ARGB_def IAIC_FEATURE2_def
  IAIC_FEATURE4_def IAIC_FEATURE8_def IAIC_FEATURE8_H_def IAIC_RGBA2BGRA_def

text \<open>The arithmetic is in \<open>int\<close>, with an arithmetic shift; the results are bits per
  component, components, stride and size.\<close>

definition get_img_info :: "u32 \<Rightarrow> u32 \<Rightarrow> u32 \<Rightarrow> u32 \<times> u32 \<times> u32 \<times> u32" where
  "get_img_info format wdt hgt =
     (let format = (if IAIC_BGRA \<le> format \<and> format \<le> IAIC_ARGB then IAIC_BGRA else format);
          (bpp, chn) = (if format = IAIC_NV12 then (12, 1)
             else if format = IAIC_Y then (8, 1)
             else if format = IAIC_UV then (8, 2)
             else if format = IAIC_BGRA then (8, 4)
             else if format = IAIC_FEATURE2 then (2, 32)
             else if format = IAIC_FEATURE4 then (4, 32)
             else if format = IAIC_FEATURE8 then (8, 32)
             else if format = IAIC_FEATURE8_H then (8, 16)
             else (0, 0))
      in if format = IAIC_NV12 then (bpp, chn, wdt, signed_drop_bit 3 (wdt * hgt * bpp))
         else let stride = signed_drop_bit 3 (wdt * chn * bpp) in (bpp, chn, stride, stride * hgt))"

text \<open>The shift of a non-negative \<open>int\<close> is a division.\<close>

lemma asr_div: "x < 0x80000000 \<Longrightarrow> signed_drop_bit 3 x = (x :: u32) div 8"
proof -
  assume "x < 0x80000000"
  then have "sint (signed_drop_bit 3 x) = uint x div 8" by (simp add: sint_signed_drop_bit_eq sint_pos_u32 drop_bit_eq_div)
  then have "of_int (sint (signed_drop_bit 3 x)) = (of_int (uint x div 8) :: u32)" by simp
  then show ?thesis by (simp add: word_div_def)
qed

section \<open>Files\<close>

fun poke :: "u32 \<Rightarrow> u8 list \<Rightarrow> mem \<Rightarrow> mem" where
  "poke a [] m = m"
| "poke a (b # bs) m = poke (a + 1) bs (m(a := b))"

definition peek :: "u32 \<Rightarrow> nat \<Rightarrow> mem \<Rightarrow> u8 list" where
  "peek a n m = map (\<lambda>i. m (a + of_nat i)) [0 ..< n]"

text \<open>\<open>fread(p, 32, size / 32, f)\<close>; the division is of \<open>int\<close>s, its result a \<open>size_t\<close>.\<close>

definition items_32 :: "u32 \<Rightarrow> nat" where
  "items_32 sz = unat (of_int (sint sz sdiv 32) :: u32)"

definition iaic_img_read :: "nat \<Rightarrow> 'd sys \<Rightarrow> u8 list option \<Rightarrow> bool \<Rightarrow> u32 \<Rightarrow> u32 \<Rightarrow> u32 \<Rightarrow> iaic_bo \<Rightarrow>
    iaic_ctx \<Rightarrow> mem \<Rightarrow> 'd \<Rightarrow> fault + (iaic_bo \<times> iaic_ctx \<times> mem \<times> 'd)" where
  "iaic_img_read fuel sys file close_ok wdt hgt format undef ctx m d =
     (let (_, _, _, sz) = get_img_info format wdt hgt in
      res_bind (iaic_create_bo fuel sys sz undef ctx d) (\<lambda>(r, bo, ctx, d).
      if r \<noteq> IAIC_CODE_OK then Inr (bo\<lparr>ib_vaddr := 0\<rparr>, ctx, m, d)
      else case file of
        None \<Rightarrow> res_bind (iaic_destroy_bo fuel sys bo ctx d) (\<lambda>(_, bo, ctx, d). Inr (bo\<lparr>ib_vaddr := 0\<rparr>, ctx, m, d))
      | Some bytes \<Rightarrow>
          let m = poke (ib_vaddr bo) (take (32 * items_32 sz) bytes) m in
          if \<not> close_ok
          then res_bind (iaic_destroy_bo fuel sys bo ctx d) (\<lambda>(_, bo, ctx, d). Inr (bo\<lparr>ib_vaddr := 0\<rparr>, ctx, m, d))
          else Inr (bo, ctx, m, d)))"

text \<open>The code, and the file's new contents when it could be opened.\<close>

definition iaic_img_show :: "bool \<Rightarrow> bool \<Rightarrow> iaic_bo \<Rightarrow> mem \<Rightarrow> iaic_ret_code \<times> u8 list option" where
  "iaic_img_show open_ok close_ok bo m =
     (if \<not> open_ok then (IAIC_CODE_other (- 1), None)
      else (if close_ok then IAIC_CODE_OK else IAIC_CODE_other (- 1),
            Some (peek (ib_vaddr bo) (32 * (unat (ib_size bo) div 32)) m)))"

section \<open>Format conversion\<close>

definition nv2bgr_coef :: "nat \<Rightarrow> u32" where
  "nv2bgr_coef i = [1220542, 2116026, 0, 1220542, 409993, 852492, 1220542, 0, 1673527] ! i"

text \<open>The loop that swaps the first and third byte of every pixel, one byte after the
  other; \<open>i\<close> wraps around, so sizes above 0xfffffffc never end it.\<close>

definition swap_pixel :: "u32 \<Rightarrow> u32 \<Rightarrow> mem \<Rightarrow> mem" where
  "swap_pixel src dst m =
     (let m = m(dst := m (src + 2)); m = m(dst + 1 := m (src + 1)); m = m(dst + 2 := m src)
      in m(dst + 3 := m (src + 3)))"

fun swap_loop :: "nat \<Rightarrow> u32 \<Rightarrow> u32 \<Rightarrow> u32 \<Rightarrow> u32 \<Rightarrow> mem \<Rightarrow> fault + mem" where
  "swap_loop 0 i n src dst m = (if i < n then Inl Spins else Inr m)"
| "swap_loop (Suc fuel) i n src dst m =
     (if i < n then swap_loop fuel (i + 4) n src dst (swap_pixel (src + i) (dst + i) m) else Inr m)"

text \<open>The result of the submission is not looked at: \<open>ret\<close> is still the result of
  \<open>iaic_create_bo\<close>. When it failed, the wait is for whatever \<open>job_seqno\<close> held (\<open>junk\<close>).\<close>

definition iaic_cvt_format :: "nat \<Rightarrow> 'd kernel \<Rightarrow> 'd sys \<Rightarrow> iaic_bo \<Rightarrow> u32 \<Rightarrow> u32 \<Rightarrow> u32 \<Rightarrow> iaic_bo \<Rightarrow> u64 \<Rightarrow>
    iaic_ctx \<Rightarrow> mem \<Rightarrow> 'd \<Rightarrow> fault + (iaic_bo \<times> iaic_ctx \<times> mem \<times> 'd)" where
  "iaic_cvt_format fuel k sys src_bo wdt hgt format undef junk ctx m d =
     (let (_, _, src_strd, _) = get_img_info IAIC_NV12 wdt hgt;
          (_, _, dst_strd, dst_sz) = get_img_info format wdt hgt
      in res_bind (iaic_create_bo fuel sys dst_sz undef ctx d) (\<lambda>(r, dst_bo, ctx, d).
      if r \<noteq> IAIC_CODE_OK then Inr (dst_bo, ctx, m, d)
      else if format = IAIC_RGBA2BGRA
      then res_bind (swap_loop fuel 0 (ib_size src_bo) (ib_vaddr src_bo) (ib_vaddr dst_bo) m) (\<lambda>m. Inr (dst_bo, ctx, m, d))
      else
        let tnode = \<lparr>src_ybase = ib_paddr src_bo, src_cbase = ib_paddr src_bo + wdt * hgt, dst_base = ib_paddr dst_bo,
              src_h = hgt, src_w = wdt, src_stride = src_strd, dst_stride = dst_strd, task_len = hgt\<rparr>
        in res_bind (iaic_aip_t fuel k 0 0 \<lparr>order = format AND 0xf, alpha = 255, offset0 = 16, offset1 = 128\<rparr>
             (Some nv2bgr_coef) (Some tnode) Null_name d) (\<lambda>(_, s, d).
           res_bind (iaic_aip_t_wait fuel k (case s of None \<Rightarrow> junk | Some s \<Rightarrow> s) (- 1) d) (\<lambda>(r, _, d).
           if r \<noteq> IAIC_CODE_OK
           then res_bind (iaic_destroy_bo fuel sys dst_bo ctx d) (\<lambda>(_, dst_bo, ctx, d). Inr (dst_bo, ctx, m, d))
           else Inr (dst_bo, ctx, m, d)))))"

section \<open>Resizing\<close>

text \<open>The quotient of two \<open>float\<close>s made from integers, converted back: \<open>near_div\<close> rounds to
  the nearest integer, ties to even. The quotient has 24 significant bits; both
  operands are below \<open>2^24\<close>, where the conversion to \<open>float\<close> is exact.\<close>

definition near_div :: "nat \<Rightarrow> nat \<Rightarrow> nat" where
  "near_div a b = (let q = a div b; r = a mod b
     in if 2 * r < b then q else if b < 2 * r then q + 1 else q + q mod 2)"

definition float_shift :: "nat \<Rightarrow> nat \<Rightarrow> nat option" where
  "float_shift a b = find (\<lambda>s. 2 ^ 23 * b \<le> a * 2 ^ s) [0 ..< 48]"

definition float_quot :: "u32 \<Rightarrow> u32 \<Rightarrow> u32" where
  "float_quot a b = (case float_shift (unat a) (unat b) of
     None \<Rightarrow> 0
   | Some s \<Rightarrow> of_nat (near_div (unat a * 2 ^ s) (unat b) div 2 ^ s))"

text \<open>\<open>(int32_t)((scale * 0.5 - 0.5) * 65536) + 16\<close> for an unsigned \<open>scale\<close>: the \<open>double\<close>
  computation is exact.\<close>

definition resize_trans :: "u32 \<Rightarrow> u32" where
  "resize_trans scale = of_int ((int (unat scale) - 1) * 32768) + 16"

definition resize_node :: "iaic_bo \<Rightarrow> iaic_bo \<Rightarrow> u32 \<Rightarrow> u32 \<Rightarrow> u32 \<Rightarrow> u32 \<Rightarrow> u32 \<Rightarrow> u32 \<Rightarrow> (nat \<times> u32) list" where
  "resize_node src_bo dst_bo sw sh dw dh src_strd dst_strd =
     (let scale_x = float_quot sw dw; scale_y = float_quot sh dh in
     [(f_word 0 Nf_timeout 0, 0xffffffff),
      (f_word 0 Nf_scale_x 0, scale_x * 65536),
      (f_word 0 Nf_scale_y 0, scale_y * 65536),
      (f_word 0 Nf_trans_x 0, resize_trans scale_x),
      (f_word 0 Nf_trans_y 0, resize_trans scale_y),
      (f_word 0 Nf_src_base_y 0, ib_paddr src_bo),
      (f_word 0 Nf_src_base_uv 0, ib_paddr src_bo + sw * sh),
      (f_word 0 Nf_dst_base_y 0, ib_paddr dst_bo),
      (f_word 0 Nf_dst_base_uv 0, ib_paddr dst_bo + dw * dh),
      (f_word 0 Nf_src_size 0, push_bit 16 sh OR sw),
      (f_word 0 Nf_dst_size 0, push_bit 16 dh OR dw),
      (f_word 0 Nf_stride 0, push_bit 16 dst_strd OR src_strd)])"

text \<open>The number of nodes asked for is the size of one, 104.\<close>

definition iaic_resize :: "nat \<Rightarrow> 'd kernel \<Rightarrow> 'd sys \<Rightarrow> iaic_bo \<Rightarrow> u32 \<Rightarrow> u32 \<Rightarrow> u32 \<Rightarrow> u32 \<Rightarrow> u32 \<Rightarrow>
    iaic_bo \<Rightarrow> iaic_bo \<Rightarrow> u64 \<Rightarrow> iaic_ctx \<Rightarrow> mem \<Rightarrow> 'd \<Rightarrow> fault + (iaic_bo \<times> iaic_ctx \<times> mem \<times> 'd)" where
  "iaic_resize fuel k sys src_bo sw sh dw dh format undef undef_node junk ctx m d =
     (let (_, _, src_strd, _) = get_img_info format sw sh;
          (_, _, dst_strd, dst_sz) = get_img_info format dw dh;
          discard = (\<lambda>node_bo dst_bo ctx m d. res_bind (iaic_destroy_bo fuel sys node_bo ctx d) (\<lambda>(_, _, ctx, d).
            res_bind (iaic_destroy_bo fuel sys dst_bo ctx d) (\<lambda>(_, dst_bo, ctx, d). Inr (dst_bo, ctx, m, d))))
      in res_bind (iaic_create_bo fuel sys dst_sz undef ctx d) (\<lambda>(r, dst_bo, ctx, d).
      if r \<noteq> IAIC_CODE_OK then Inr (dst_bo, ctx, m, d)
      else
        res_bind (iaic_create_fnode fuel sys 104 undef_node ctx d) (\<lambda>(r, node_bo, ctx, d).
        if r \<noteq> IAIC_CODE_OK
        then res_bind (iaic_destroy_bo fuel sys dst_bo ctx d) (\<lambda>(_, dst_bo, ctx, d). Inr (dst_bo, ctx, m, d))
        else
          let m = store_words (ib_vaddr node_bo) (resize_node src_bo dst_bo sw sh dw dh src_strd dst_strd) m in
          res_bind (iaic_aip_f_chain fuel k ctx (drop_bit 4 format AND 0xf) 0 0 node_bo 1 Null_name d) (\<lambda>(r, s, d).
          if r \<noteq> IAIC_CODE_OK then discard node_bo dst_bo ctx m d
          else
            res_bind (iaic_aip_f_wait fuel k (case s of None \<Rightarrow> junk | Some s \<Rightarrow> s) (- 1) d) (\<lambda>(r, _, d).
            if r \<noteq> IAIC_CODE_OK then discard node_bo dst_bo ctx m d
            else res_bind (iaic_destroy_bo fuel sys node_bo ctx d) (\<lambda>(_, _, ctx, d). Inr (dst_bo, ctx, m, d)))))))"

section \<open>The scale of a resize\<close>

text \<open>Rounding the \<open>float\<close> quotient does not reach the next integer.\<close>

lemma near_div_between:
  assumes "0 < b" "k * b \<le> x" "x + t \<le> n * b" "b < 2 * t"
  shows "k \<le> near_div x b" "near_div x b < n"
proof -
  have q: "k \<le> x div b" using assms(1,2) by (simp add: less_eq_div_iff_mult_less_eq)
  then show "k \<le> near_div x b" by (auto simp: near_div_def Let_def)
  have t: "0 < t" using assms(4) by simp
  have lt: "x div b < n" using assms(1,3) t by (simp add: div_less_iff_less_mult)
  show "near_div x b < n"
  proof (cases "2 * (x mod b) < b")
    case True
    with lt show ?thesis by (simp add: near_div_def Let_def)
  next
    case False
    have "Suc (x div b) \<noteq> n"
    proof
      assume "Suc (x div b) = n"
      then have "n * b = x div b * b + b" by (metis add.commute mult_Suc)
      moreover have "x = x div b * b + x mod b" by simp
      ultimately have "x mod b + t \<le> b" using assms(3) by linarith
      with False assms(4) show False by linarith
    qed
    with lt have "Suc (x div b) < n" by simp
    then show ?thesis by (auto simp: near_div_def Let_def)
  qed
qed

lemma float_quot_div:
  assumes "a < 2 ^ 24" "b < 2 ^ 24" "0 < b"
  shows "float_quot a b = a div b"
proof (cases "a = 0")
  case True
  with assms(3) show ?thesis by (simp add: float_quot_def near_div_def word_less_nat_alt split: option.split)
next
  case False
  let ?a = "unat a" and ?b = "unat b"
  have a: "?a < 2 ^ 24" and b: "?b < 2 ^ 24" "0 < ?b" and a0: "0 < ?a"
    using assms False by (simp_all add: word_less_nat_alt unat_gt_0)
  have "2 ^ 23 * ?b \<le> ?a * 2 ^ 47" using a0 b by (simp add: mult_le_mono [of 1])
  then have "\<exists>s \<in> set [0 ..< 48]. 2 ^ 23 * ?b \<le> ?a * 2 ^ s" by (intro bexI [of _ 47]) simp_all
  then have "float_shift ?a ?b \<noteq> None" unfolding float_shift_def find_None_iff by blast
  then obtain s where s: "float_shift ?a ?b = Some s" by blast
  then have le: "2 ^ 23 * ?b \<le> ?a * 2 ^ s" by (auto simp: float_shift_def find_Some_iff)
  have "?a * 2 ^ s < 2 ^ 24 * 2 ^ s" using a by (intro mult_strict_right_mono) simp_all
  also have "(2 :: nat) ^ 24 * 2 ^ s = 2 ^ 23 * (2 * 2 ^ s)" by simp
  finally have "2 ^ 23 * ?b < 2 ^ 23 * (2 * 2 ^ s)" using le by (rule order_le_less_trans [rotated])
  then have bs: "?b < 2 * 2 ^ s" by (simp only: nat_mult_less_cancel_disj)
  have d: "?a = ?a div ?b * ?b + ?a mod ?b" by simp
  have m: "?a mod ?b < ?b" using b by simp
  have lo: "?a div ?b * 2 ^ s * ?b \<le> ?a * 2 ^ s" by (simp add: mult.commute mult.left_commute)
  have "?a + 1 \<le> (?a div ?b + 1) * ?b" using d m by (metis Suc_eq_plus1 Suc_leI add_mult_distrib mult_1 nat_add_left_cancel_less)
  then have "(?a + 1) * 2 ^ s \<le> (?a div ?b + 1) * ?b * 2 ^ s" by (rule mult_right_mono) simp
  then have hi: "?a * 2 ^ s + 2 ^ s \<le> (?a div ?b + 1) * 2 ^ s * ?b" by (simp add: algebra_simps)
  note nd = near_div_between [OF b(2) lo hi bs]
  have "near_div (?a * 2 ^ s) ?b div 2 ^ s = ?a div ?b"
    by (rule div_nat_eqI) (use nd in \<open>simp_all add: algebra_simps\<close>)
  then have "float_quot a b = of_nat (?a div ?b)" by (simp add: float_quot_def s)
  also have "\<dots> = of_nat (unat (a div b))" by (simp only: unat_div)
  also have "\<dots> = a div b" by simp
  finally show ?thesis .
qed

text \<open>The scale registers hold the quotient of the sizes without its fraction, in 16.16: an
  image that is enlarged gets scale 0, and a size that does not divide is lost.\<close>

theorem resize_scale_truncated:
  assumes "sw < 2 ^ 24" "dw < 2 ^ 24" "0 < dw" "sh < 2 ^ 24" "dh < 2 ^ 24" "0 < dh"
  shows "map_of (resize_node src_bo dst_bo sw sh dw dh ss ds) (f_word 0 Nf_scale_x 0) = Some (65536 * (sw div dw))"
    "map_of (resize_node src_bo dst_bo sw sh dw dh ss ds) (f_word 0 Nf_scale_y 0) = Some (65536 * (sh div dh))"
    "sw < dw \<longrightarrow> map_of (resize_node src_bo dst_bo sw sh dw dh ss ds) (f_word 0 Nf_scale_x 0) = Some 0"
proof -
  show x: "map_of (resize_node src_bo dst_bo sw sh dw dh ss ds) (f_word 0 Nf_scale_x 0) = Some (65536 * (sw div dw))"
    "map_of (resize_node src_bo dst_bo sw sh dw dh ss ds) (f_word 0 Nf_scale_y 0) = Some (65536 * (sh div dh))"
    using float_quot_div [OF assms(1-3)] float_quot_div [OF assms(4-6)]
    by (simp_all add: resize_node_def f_word_def Let_def mult.commute)
  show "sw < dw \<longrightarrow> map_of (resize_node src_bo dst_bo sw sh dw dh ss ds) (f_word 0 Nf_scale_x 0) = Some 0"
  proof
    assume "sw < dw"
    then have "unat (sw div dw) = 0" by (simp add: unat_div word_less_nat_alt)
    then have "sw div dw = 0" by (simp only: unsigned_eq_0_iff)
    then show "map_of (resize_node src_bo dst_bo sw sh dw dh ss ds) (f_word 0 Nf_scale_x 0) = Some 0"
      using x(1) by simp
  qed
qed

theorem resize_scale_truncated_witness:
  "map_of (resize_node sample_bo sample_bo 100 50 60 60 0 0) (f_word 0 Nf_scale_x 0) = Some 65536 \<and>
   map_of (resize_node sample_bo sample_bo 100 50 60 60 0 0) (f_word 0 Nf_scale_y 0) = Some 0"
  using resize_scale_truncated(1,2) [of 100 60 50 60 sample_bo sample_bo 0 0] by simp

section \<open>The pixel loop\<close>

text \<open>Where the byte at offset \<open>k\<close> of a converted image comes from.\<close>

definition swapped :: "nat \<Rightarrow> nat" where
  "swapped k = 4 * (k div 4) + [2, 1, 0, 3] ! (k mod 4)"

lemma swapped_at: "i < 4 \<Longrightarrow> swapped (4 * j + i) = 4 * j + [2, 1, 0, 3] ! i"
  by (simp add: swapped_def)

lemma below_4: "i < (4 :: nat) \<longleftrightarrow> i = 0 \<or> i = 1 \<or> i = 2 \<or> i = 3"
  by auto

lemma swapped_steps:
  "swapped (4 * j) = 4 * j + 2" "swapped (4 * j + 1) = 4 * j + 1" "swapped (4 * j + 2) = 4 * j" "swapped (4 * j + 3) = 4 * j + 3"
  using swapped_at [of 0 j] swapped_at [of 1 j] swapped_at [of 2 j] swapped_at [of 3 j] by simp_all

lemma four_cases:
  obtains j where "k = 4 * j" | j where "k = 4 * j + 1" | j where "k = 4 * j + 2" | j where "k = 4 * j + (3 :: nat)"
proof -
  have "k mod 4 = 0 \<or> k mod 4 = 1 \<or> k mod 4 = 2 \<or> k mod 4 = 3" by presburger
  moreover have "k = 4 * (k div 4) + k mod 4" by simp
  ultimately show thesis using that by (metis add_0_right)
qed

lemma swapped_twice [simp]: "swapped (swapped k) = k"
  by (cases k rule: four_cases) (simp_all only: swapped_steps)

lemma swapped_bound: "k < 4 * q \<Longrightarrow> swapped k < 4 * q"
proof -
  assume "k < 4 * q"
  then have "k div 4 < q" by auto
  moreover have "k mod 4 < 4" by simp
  then have "[2, 1, 0, 3] ! (k mod 4) < (4 :: nat)" unfolding below_4 by auto
  ultimately show "swapped k < 4 * q" unfolding swapped_def by linarith
qed

definition buffers_apart :: "u32 \<Rightarrow> u32 \<Rightarrow> nat \<Rightarrow> bool" where
  "buffers_apart src dst n \<longleftrightarrow> (\<forall>i < n. \<forall>j < n. src + of_nat i \<noteq> dst + of_nat j)"

lemma buffers_apartI:
  assumes "unat src + n \<le> unat dst" "unat dst + n < 2 ^ 32"
  shows "buffers_apart src dst n"
  unfolding buffers_apart_def
proof (intro allI impI)
  fix i j
  assume "i < n" "j < n"
  then have "unat (src + of_nat i) = unat src + i" "unat (dst + of_nat j) = unat dst + j"
    using assms by (simp_all add: unat_word_ariths unat_of_nat take_bit_nat_eq_self)
  with assms(1) \<open>i < n\<close> show "src + of_nat i \<noteq> dst + of_nat j" by auto
qed

lemma swap_pixel_apart:
  assumes "buffers_apart src dst 4"
  shows "swap_pixel src dst m = m(dst := m (src + 2), dst + 1 := m (src + 1), dst + 2 := m src, dst + 3 := m (src + 3))"
proof -
  have "src + of_nat i \<noteq> dst + of_nat j" if "i < 4" "j < 4" for i j
    using assms that by (simp add: buffers_apart_def)
  from this [of 1 0] this [of 0 0] this [of 0 1] this [of 3 0] this [of 3 1] this [of 3 2]
  show ?thesis by (simp add: swap_pixel_def Let_def)
qed

text \<open>The loop converts a whole number of pixels and writes nothing else.\<close>

lemma swap_loop_runs:
  assumes "buffers_apart src dst (4 * (j + q))" "4 * (j + q) < 2 ^ 32" "q \<le> fuel"
  shows "\<exists>m'. swap_loop fuel (of_nat (4 * j)) (of_nat (4 * (j + q))) src dst m = Inr m' \<and>
    (\<forall>k. 4 * j \<le> k \<and> k < 4 * (j + q) \<longrightarrow> m' (dst + of_nat k) = m (src + of_nat (swapped k))) \<and>
    (\<forall>a. (\<forall>k. 4 * j \<le> k \<and> k < 4 * (j + q) \<longrightarrow> a \<noteq> dst + of_nat k) \<longrightarrow> m' a = m a)"
  using assms
proof (induction q arbitrary: j m fuel)
  case 0
  then show ?case by (cases fuel) auto
next
  case (Suc q)
  then obtain f where f: "fuel = Suc f" "q \<le> f" by (cases fuel) auto
  let ?n = "4 * (j + Suc q)" and ?i = "of_nat (4 * j) :: u32"
  have lt: "?i < of_nat ?n"
    using Suc.prems(2) by (subst of_nat_word_less_iff) (simp add: take_bit_nat_eq_self)
  let ?m = "swap_pixel (src + ?i) (dst + ?i) m"
  have off: "src + of_nat x \<noteq> dst + of_nat y" if "x < ?n" "y < ?n" for x y
    using Suc.prems(1) that by (simp add: buffers_apart_def)
  have at: "p + ?i + of_nat x = p + of_nat (4 * j + x)" for p :: u32 and x by simp
  have "buffers_apart (src + ?i) (dst + ?i) 4"
    unfolding buffers_apart_def at
  proof (intro allI impI)
    fix x y :: nat
    assume "x < 4" "y < 4"
    then show "src + of_nat (4 * j + x) \<noteq> dst + of_nat (4 * j + y)" by (intro off) simp_all
  qed
  note px = swap_pixel_apart [OF this, of m]
  have eq: "Suc j + q = j + Suc q" by simp
  from Suc.IH [of "Suc j" f ?m, unfolded eq] Suc.prems(1,2) f(2) obtain m' where
    m': "swap_loop f (of_nat (4 * Suc j)) (of_nat ?n) src dst ?m = Inr m'"
      "\<And>k. 4 * Suc j \<le> k \<Longrightarrow> k < ?n \<Longrightarrow> m' (dst + of_nat k) = ?m (src + of_nat (swapped k))"
      "\<And>a. (\<forall>k. 4 * Suc j \<le> k \<and> k < ?n \<longrightarrow> a \<noteq> dst + of_nat k) \<Longrightarrow> m' a = ?m a" by blast
  have step: "?i + 4 = of_nat (4 * Suc j)" by simp
  have run: "swap_loop fuel ?i (of_nat ?n) src dst m = Inr m'"
    using lt m'(1) unfolding f(1) swap_loop.simps step by simp
  have d: "dst + ?i + 1 = dst + of_nat (4 * j + 1)" "dst + ?i + 2 = dst + of_nat (4 * j + 2)" "dst + ?i + 3 = dst + of_nat (4 * j + 3)"
    "src + ?i + 1 = src + of_nat (4 * j + 1)" "src + ?i + 2 = src + of_nat (4 * j + 2)" "src + ?i + 3 = src + of_nat (4 * j + 3)"
    by simp_all
  have keep: "?m a = m a" if "\<forall>k. 4 * j \<le> k \<and> k < ?n \<longrightarrow> a \<noteq> dst + of_nat k" for a
    using that [rule_format, of "4 * j"] that [rule_format, of "4 * j + 1"] that [rule_format, of "4 * j + 2"]
      that [rule_format, of "4 * j + 3"] unfolding px d by simp
  have src: "?m (src + of_nat x) = m (src + of_nat x)" if "x < ?n" for x
    using keep [of "src + of_nat x"] off that by simp
  have inj: "dst + of_nat x \<noteq> dst + of_nat y" if "x < ?n" "y < ?n" "x \<noteq> y" for x y
    using Suc.prems(2) that by (simp add: word_of_nat_eq_iff take_bit_nat_eq_self del: of_nat_mult of_nat_add)
  have here: "?m (dst + of_nat k) = m (src + of_nat (swapped k))" if "4 * j \<le> k" "k < 4 * j + 4" for k
  proof -
    have "k = 4 * j \<or> k = 4 * j + 1 \<or> k = 4 * j + 2 \<or> k = 4 * j + 3" using that by linarith
    then show ?thesis
      using inj [of "4 * j" "4 * j + 1"] inj [of "4 * j" "4 * j + 2"] inj [of "4 * j" "4 * j + 3"]
        inj [of "4 * j + 1" "4 * j + 2"] inj [of "4 * j + 1" "4 * j + 3"] inj [of "4 * j + 2" "4 * j + 3"]
      by (elim disjE) (simp_all only: swapped_steps, simp_all add: px d del: of_nat_mult of_nat_add)
  qed
  have "m' (dst + of_nat k) = m (src + of_nat (swapped k))" if k: "4 * j \<le> k" "k < ?n" for k
  proof (cases "4 * Suc j \<le> k")
    case True
    with m'(2) [of k] src [of "swapped k"] swapped_bound [of k "j + Suc q"] k show ?thesis by simp
  next
    case False
    have "dst + of_nat k \<noteq> dst + of_nat x" if "4 * Suc j \<le> x" "x < ?n" for x
      by (rule inj) (use k False that in simp_all)
    then have "m' (dst + of_nat k) = ?m (dst + of_nat k)" by (intro m'(3)) blast
    with here [of k] k False show ?thesis by simp
  qed
  moreover have "m' a = m a" if a: "\<forall>k. 4 * j \<le> k \<and> k < ?n \<longrightarrow> a \<noteq> dst + of_nat k" for a
    using m'(3) [of a] keep [OF a] a by auto
  ultimately show ?case using run by blast
qed

text \<open>Converting the converted image again gives back the first one: with enough fuel the
  loop ends, writes the image's bytes and no other, and undoes itself.\<close>

theorem swap_loop_involution:
  assumes "unat n = 4 * q" "q \<le> fuel" "buffers_apart src tmp (4 * q)" "buffers_apart tmp dst (4 * q)"
  shows "\<exists>m1 m2. swap_loop fuel 0 n src tmp m = Inr m1 \<and> swap_loop fuel 0 n tmp dst m1 = Inr m2 \<and>
    peek tmp (4 * q) m1 = map (\<lambda>k. m (src + of_nat (swapped k))) [0 ..< 4 * q] \<and>
    peek dst (4 * q) m2 = peek src (4 * q) m"
proof -
  have lt: "4 * (0 + q) < (2 :: nat) ^ 32" using unsigned_less [of n, where 'a = nat] assms(1) by simp
  have n: "n = of_nat (4 * (0 + q))" using arg_cong [OF assms(1), of "of_nat :: nat \<Rightarrow> u32"] by simp
  from swap_loop_runs [of src tmp 0 q fuel m] assms(2,3) lt obtain m1 where
    m1: "swap_loop fuel 0 n src tmp m = Inr m1" "\<And>k. k < 4 * q \<Longrightarrow> m1 (tmp + of_nat k) = m (src + of_nat (swapped k))"
    unfolding n by auto
  from swap_loop_runs [of tmp dst 0 q fuel m1] assms(2,4) lt obtain m2 where
    m2: "swap_loop fuel 0 n tmp dst m1 = Inr m2" "\<And>k. k < 4 * q \<Longrightarrow> m2 (dst + of_nat k) = m1 (tmp + of_nat (swapped k))"
    unfolding n by auto
  have "m2 (dst + of_nat k) = m (src + of_nat k)" if "k < 4 * q" for k
    using m2(2) [OF that] m1(2) [OF swapped_bound [OF that]] by simp
  with m1 m2(1) show ?thesis by (auto simp: peek_def)
qed

theorem swap_loop_involution_witness:
  "\<exists>m1 m2. swap_loop 2 0 8 0x1000 0x2000 m = Inr m1 \<and> swap_loop 2 0 8 0x2000 0x3000 m1 = Inr m2 \<and>
    peek 0x3000 8 m2 = peek 0x1000 8 m"
proof -
  have "buffers_apart 0x1000 0x2000 (4 * 2)" "buffers_apart 0x2000 0x3000 (4 * 2)"
    by (simp_all add: buffers_apartI)
  with swap_loop_involution [of 8 2 2 "0x1000" "0x2000" "0x3000" m] show ?thesis by auto
qed

section \<open>Files\<close>

lemma poke_at:
  assumes "length bs < 2 ^ 32"
  shows "i < length bs \<Longrightarrow> poke a bs m (a + of_nat i) = bs ! i"
    "(\<forall>i < length bs. x \<noteq> a + of_nat i) \<Longrightarrow> poke a bs m x = m x"
  using assms
proof (induction bs arbitrary: a m i x)
  case (Cons b bs)
  { case 1
    have other: "a \<noteq> a + 1 + of_nat k" if "k < length bs" for k
    proof -
      have "(of_nat (Suc k) :: u32) \<noteq> of_nat 0"
        using 1(2) that by (simp only: word_of_nat_eq_iff) (simp add: take_bit_nat_eq_self)
      then show ?thesis by (simp add: add.assoc)
    qed
    show ?case
    proof (cases i)
      case 0
      have "poke (a + 1) bs (m(a := b)) a = (m(a := b)) a"
        by (rule Cons.IH(2)) (use other 1 in auto)
      with 0 show ?thesis by simp
    next
      case (Suc k)
      then have "poke (a + 1) bs (m(a := b)) (a + 1 + of_nat k) = bs ! k"
        by (intro Cons.IH(1)) (use 1 in auto)
      with Suc show ?thesis by (simp add: add.assoc)
    qed }
  { case 2
    have here: "x \<noteq> a" using 2(1) [rule_format, of 0] by simp
    have "x \<noteq> a + 1 + of_nat i" if "i < length bs" for i
      using 2(1) [rule_format, of "Suc i"] that by (simp add: add.assoc)
    then have "poke (a + 1) bs (m(a := b)) x = (m(a := b)) x"
      using 2(2) by (intro Cons.IH(2)) simp_all
    with here show ?case by simp }
qed simp_all

lemma peek_poke: "length bs < 2 ^ 32 \<Longrightarrow> n \<le> length bs \<Longrightarrow> peek a n (poke a bs m) = take n bs"
  by (auto simp: peek_def poke_at(1) intro!: nth_equalityI)

lemma items_32_div:
  assumes "sz < 0x80000000"
  shows "items_32 sz = unat sz div 32"
proof -
  have "sint sz = int (unat sz)" using assms by (simp add: sint_pos_u32 word_less_nat_alt)
  moreover have "int (unat sz) sdiv 32 = int (unat sz div 32)"
    by (cases "sz = 0") (auto simp: signed_divide_int_def zdiv_int)
  moreover have "unat sz div 32 < 2 ^ 32" using unsigned_less [of sz, where 'a = nat] by (simp add: div_less_dividend less_imp_diff_less)
  ultimately show ?thesis by (simp add: items_32_def unat_of_nat take_bit_nat_eq_self)
qed

text \<open>An image that is read and shown again is the file it was read from, cut to whole
  items of 32 bytes: the last bytes of an image whose size is not a multiple of 32 are lost.\<close>

theorem img_read_show:
  assumes "snd (snd (snd (get_img_info format wdt hgt))) = sz" "sz < 0x80000000" "length bytes = unat sz"
    "iaic_create_bo fuel sys sz undef ctx d = Inr (IAIC_CODE_OK, bo, ctx', d')" "ib_size bo = sz"
  shows "\<exists>m'. iaic_img_read fuel sys (Some bytes) True wdt hgt format undef ctx m d = Inr (bo, ctx', m', d') \<and>
    iaic_img_show True True bo m' = (IAIC_CODE_OK, Some (take (32 * (unat sz div 32)) bytes)) \<and>
    (\<forall>a. (\<forall>i < unat sz. a \<noteq> ib_vaddr bo + of_nat i) \<longrightarrow> m' a = m a)"
proof -
  let ?n = "32 * (unat sz div 32)"
  have n: "?n \<le> length bytes" "length bytes < 2 ^ 32" using assms(3) unsigned_less [of sz, where 'a = nat] by simp_all
  let ?m = "poke (ib_vaddr bo) (take ?n bytes) m"
  have "iaic_img_read fuel sys (Some bytes) True wdt hgt format undef ctx m d = Inr (bo, ctx', ?m, d')"
    using assms(1,4) items_32_div [OF assms(2)]
    by (cases "get_img_info format wdt hgt") (auto simp: iaic_img_read_def Let_def)
  moreover have "peek (ib_vaddr bo) ?n ?m = take ?n bytes" using n by (subst peek_poke) simp_all
  then have "iaic_img_show True True bo ?m = (IAIC_CODE_OK, Some (take ?n bytes))"
    by (simp add: iaic_img_show_def assms(5))
  moreover have "?m a = m a" if "\<forall>i < unat sz. a \<noteq> ib_vaddr bo + of_nat i" for a
    by (rule poke_at(2)) (use that n assms(3) in auto)
  ultimately show ?thesis by blast
qed

text \<open>The file's contents for the witness: 40 bytes, of which 32 survive.\<close>

theorem img_read_show_witness:
  "\<exists>bo ctx' m'. iaic_img_read 1 no_mem_sys (Some (replicate 40 7)) True 10 4 IAIC_Y sample_bo sample_ctx (\<lambda>_. 0) () = Inr (bo, ctx', m', ()) \<and>
    iaic_img_show True True bo m' = (IAIC_CODE_OK, Some (replicate 32 7))"
proof -
  have sz: "snd (snd (snd (get_img_info IAIC_Y 10 4))) = 40"
    by (simp add: get_img_info_def iaic_formats asr_div Let_def)
  obtain bo ctx' where c: "iaic_create_bo 1 no_mem_sys 40 sample_bo sample_ctx () = Inr (IAIC_CODE_OK, bo, ctx', ())" "ib_size bo = 40"
    by (simp add: iaic_create_bo_def sample_ctx_def started_pool_def iaic_fast_alloc_bo_def pool_lock_def pool_unlock_def
        align_64_def sample_first_def sample_rest_def no_mem_sys_def Let_def bo_of_block_def split_block_def)
  from img_read_show [OF sz _ _ c, of "replicate 40 7" "\<lambda>_. 0"] show ?thesis by auto
qed

section \<open>Who holds which buffer\<close>

text \<open>A context whose pool is as \<open>IaicPool\<close> wants it, on a driver without more memory.\<close>

definition pool_ready :: "nat \<Rightarrow> 'd sys \<Rightarrow> iaic_ctx \<Rightarrow> bool" where
  "pool_ready fuel sys ctx \<longleftrightarrow> 1 < max_mem_size (c_pool ctx) \<and> pool_inv (c_pool ctx) \<and>
     first_used (pool_blocks (c_pool ctx)) \<and> out_of_memory sys \<and> sys_malloc sys \<and> 0 < fuel"

lemma create_node_max: "create_bo_node fuel sys sz c d = Inr (r, c', d') \<Longrightarrow> max_mem_size c' = max_mem_size c"
  by (auto simp: create_bo_node_def res_bind_Inr_iff pool_lock_def pool_unlock_def Let_def split: if_splits)

lemma fast_alloc_max:
  assumes "iaic_fast_alloc_bo fuel sys thread sz c d = Inr (r, bo, c', d')"
  shows "max_mem_size c' = max_mem_size c"
proof -
  have lock: "\<not> lock_word c" using assms by (auto simp: iaic_fast_alloc_bo_def pool_lock_def Let_def)
  then obtain found where found: "find_fit (blocks c) (align_64 sz) (bo_list c) = Inr found"
    using assms by (auto simp: iaic_fast_alloc_bo_def pool_lock_def res_bind_Inr_iff Let_def)
  show ?thesis
  proof (cases found)
    case None
    with assms lock found show ?thesis
      by (auto simp: iaic_fast_alloc_bo_def pool_lock_def pool_unlock_def res_bind_Inr_iff Let_def
          dest!: create_node_max split: if_splits option.splits)
  next
    case (Some x)
    obtain p b where "x = (p, b)" by (cases x)
    with Some assms lock found show ?thesis
      by (cases "blk_size b - align_64 sz < 0x200")
        (auto simp: iaic_fast_alloc_bo_def pool_lock_def pool_unlock_def split_block_def Let_def split: if_splits)
  qed
qed

lemma fast_free_max:
  "iaic_fast_free_bo fuel sys bo c d = Inr (r, c', d') \<Longrightarrow> max_mem_size c' = max_mem_size c"
  by (auto simp: iaic_fast_free_bo_def res_bind_Inr_iff pool_lock_def pool_unlock_def Let_def
      split: if_splits option.splits)

lemma create_cases:
  assumes "pool_ready fuel sys ctx" "0 < align_64 n"
  shows "\<exists>r bo' c' d'. iaic_create_bo fuel sys n bo ctx d = Inr (r, bo', ctx\<lparr>c_pool := c'\<rparr>, d') \<and>
    pool_ready fuel sys (ctx\<lparr>c_pool := c'\<rparr>) \<and>
    (if r = IAIC_CODE_OK then lent c' = add_mset (bo_key bo') (lent (c_pool ctx)) \<and> ib_size bo' = n \<and> n \<le> ib_esize bo'
     else bo' = bo \<and> lent c' = lent (c_pool ctx))"
proof -
  note g = assms(1) [unfolded pool_ready_def]
  show ?thesis
  proof (cases "\<exists>b \<in> set (pool_blocks (c_pool ctx)). idle b \<and> align_64 n \<le> blk_size b")
    case True
    from pool_alloc_step [OF _ _ _ assms(2) True, of sys fuel "c_thread ctx" d] g obtain b c' where
      run: "iaic_fast_alloc_bo fuel sys (c_thread ctx) n (c_pool ctx) d = Inr (IAIC_CODE_OK, Some b, c', d)"
      and b: "pool_inv c'" "first_used (pool_blocks c')" "lent c' = add_mset (bo_key b) (lent (c_pool ctx))"
        "ib_size b = n" "n \<le> ib_esize b" by blast
    then show ?thesis using g fast_alloc_max [OF run]
      by (intro exI [of _ IAIC_CODE_OK] exI [of _ b] exI [of _ c'] exI [of _ d]) (simp add: iaic_create_bo_def pool_ready_def)
  next
    case False
    with g pool_alloc_fails [of "c_pool ctx" sys fuel n "c_thread ctx" d] obtain d' where
      "iaic_fast_alloc_bo fuel sys (c_thread ctx) n (c_pool ctx) d = Inr (IAIC_CODE_BO_CREATE_FAIL, None, c_pool ctx, d')" by auto
    then show ?thesis using g by (intro exI [of _ IAIC_CODE_BO_CREATE_FAIL] exI [of _ bo] exI [of _ "c_pool ctx"])
      (simp add: iaic_create_bo_def pool_ready_def)
  qed
qed

lemma destroy_lent:
  assumes "pool_ready fuel sys ctx" "bo_key bo \<in># lent (c_pool ctx)"
  shows "\<exists>c'. iaic_destroy_bo fuel sys bo ctx d = Inr (IAIC_CODE_OK, bo, ctx\<lparr>c_pool := c'\<rparr>, d) \<and>
    pool_ready fuel sys (ctx\<lparr>c_pool := c'\<rparr>) \<and> lent (c_pool ctx) = add_mset (bo_key bo) (lent c')"
proof -
  note g = assms(1) [unfolded pool_ready_def]
  from pool_free_step [OF _ _ assms(2), of fuel sys d] g obtain c' where
    run: "iaic_fast_free_bo fuel sys bo (c_pool ctx) d = Inr (IAIC_CODE_OK, c', d)"
    and c': "pool_inv c'" "first_used (pool_blocks c')" "lent (c_pool ctx) = add_mset (bo_key bo) (lent c')" by blast
  then show ?thesis using g fast_free_max [OF run] by (intro exI [of _ c']) (simp add: iaic_destroy_bo_def pool_ready_def)
qed

text \<open>A kernel whose calls return.\<close>

definition answers :: "nat \<Rightarrow> 'd kernel \<Rightarrow> bool" where
  "answers fuel k \<longleftrightarrow> (\<forall>cmd d. \<exists>r out d'. lib_ioctl fuel k cmd d = Inr (r, out, d'))"

lemma res_bind_total: "\<exists>x. m = Inr x \<Longrightarrow> (\<And>x. \<exists>y. f x = Inr y) \<Longrightarrow> \<exists>y. res_bind m f = Inr y"
  by auto

lemma f_chain_answers:
  assumes "answers fuel k"
  shows "\<exists>r s d'. iaic_aip_f_chain fuel k ctx fmt pin pout bo num name d = Inr (r, s, d')"
proof -
  have a: "\<exists>x. lib_ioctl fuel k cmd d = Inr x" for cmd d using assms by (auto simp: answers_def)
  have "\<exists>x. iaic_aip_f_chain fuel k ctx fmt pin pout bo num name d = Inr x"
    unfolding iaic_aip_f_chain_def iaic_aip_f_chain_submit_def Let_def
    by (intro res_bind_total a) (simp_all add: case_prod_beta)
  then show ?thesis by auto
qed

lemma wait_answers:
  assumes "answers fuel k"
  shows "\<exists>r t d'. iaic_aip_wait fuel k op s tmo d = Inr (r, t, d')"
proof -
  obtain r out d' where "lib_ioctl fuel k (IOCTL_AIP_V20_WAIT \<lparr>w_op = op, w_seqno = s, timeout_ns = tmo, wait_time = 0\<rparr>) d = Inr (r, out, d')"
    using assms unfolding answers_def by blast
  then show ?thesis by (simp add: iaic_aip_wait_def)
qed

text \<open>Giving back the two buffers a call allocated.\<close>

lemma destroy_second:
  assumes "pool_ready fuel sys (ctx\<lparr>c_pool := p2\<rparr>)" "lent p2 = add_mset (bo_key nb) (add_mset (bo_key bo) L)"
  obtains p3 where "iaic_destroy_bo fuel sys nb (ctx\<lparr>c_pool := p2\<rparr>) d = Inr (IAIC_CODE_OK, nb, ctx\<lparr>c_pool := p3\<rparr>, d)"
    "pool_ready fuel sys (ctx\<lparr>c_pool := p3\<rparr>)" "lent p3 = add_mset (bo_key bo) L"
  using destroy_lent [OF assms(1), of nb d] assms(2) that by auto

lemma destroy_both:
  assumes "pool_ready fuel sys (ctx\<lparr>c_pool := p2\<rparr>)" "lent p2 = add_mset (bo_key nb) (add_mset (bo_key bo) L)"
  obtains p3 p4 where "iaic_destroy_bo fuel sys nb (ctx\<lparr>c_pool := p2\<rparr>) d = Inr (IAIC_CODE_OK, nb, ctx\<lparr>c_pool := p3\<rparr>, d)"
    "iaic_destroy_bo fuel sys bo (ctx\<lparr>c_pool := p3\<rparr>) d = Inr (IAIC_CODE_OK, bo, ctx\<lparr>c_pool := p4\<rparr>, d)"
    "pool_ready fuel sys (ctx\<lparr>c_pool := p4\<rparr>)" "lent p4 = L"
proof -
  obtain p3 where p3: "iaic_destroy_bo fuel sys nb (ctx\<lparr>c_pool := p2\<rparr>) d = Inr (IAIC_CODE_OK, nb, ctx\<lparr>c_pool := p3\<rparr>, d)"
    "pool_ready fuel sys (ctx\<lparr>c_pool := p3\<rparr>)" "lent p3 = add_mset (bo_key bo) L"
    by (rule destroy_second [OF assms])
  from destroy_lent [OF p3(2), of bo d] p3(3) obtain p4 where
    "iaic_destroy_bo fuel sys bo (ctx\<lparr>c_pool := p3\<rparr>) d = Inr (IAIC_CODE_OK, bo, ctx\<lparr>c_pool := p4\<rparr>, d)"
    "pool_ready fuel sys (ctx\<lparr>c_pool := p4\<rparr>)" "lent p4 = L" by auto
  with p3(1) show thesis by (rule that)
qed

text \<open>However a resize ends, the context's pool is as good as before, and of what the call
  allocated only the buffer it returns can still be out: the node is always given back.\<close>

theorem resize_returns_node:
  assumes "pool_ready fuel sys ctx" "answers fuel k" "0 < align_64 (snd (snd (snd (get_img_info format dw dh))))"
  shows "\<exists>bo c' m' d'. iaic_resize fuel k sys src_bo sw sh dw dh format undef undef_node junk ctx m d =
      Inr (bo, ctx\<lparr>c_pool := c'\<rparr>, m', d') \<and> pool_ready fuel sys (ctx\<lparr>c_pool := c'\<rparr>) \<and>
    (lent c' = lent (c_pool ctx) \<or> lent c' = add_mset (bo_key bo) (lent (c_pool ctx)))"
proof -
  obtain b1 c1 s1 z1 where i1: "get_img_info format sw sh = (b1, c1, s1, z1)" by (cases "get_img_info format sw sh")
  obtain b2 c2 s2 z2 where i2: "get_img_info format dw dh = (b2, c2, s2, z2)" by (cases "get_img_info format dw dh")
  have z: "0 < align_64 z2" using assms(3) i2 by simp
  from create_cases [OF assms(1) z, of undef d] obtain r bo p1 d1 where
    cr: "iaic_create_bo fuel sys z2 undef ctx d = Inr (r, bo, ctx\<lparr>c_pool := p1\<rparr>, d1)" "pool_ready fuel sys (ctx\<lparr>c_pool := p1\<rparr>)"
    and l1: "if r = IAIC_CODE_OK then lent p1 = add_mset (bo_key bo) (lent (c_pool ctx)) \<and> ib_size bo = z2 \<and> z2 \<le> ib_esize bo
     else bo = undef \<and> lent p1 = lent (c_pool ctx)" by blast
  show ?thesis
  proof (cases "r = IAIC_CODE_OK")
    case False
    with i1 i2 cr l1 show ?thesis by (simp add: iaic_resize_def) blast
  next
    case ok: True
    then have l1': "lent p1 = add_mset (bo_key bo) (lent (c_pool ctx))" using l1 by simp
    let ?ctx1 = "ctx\<lparr>c_pool := p1\<rparr>" and ?n = "(if chip_version (c_status ctx) = 0xa1 then 105 else 104) * 104 :: u32"
    have fn: "iaic_create_fnode fuel sys 104 undef_node ?ctx1 d1 = iaic_create_bo fuel sys ?n undef_node ?ctx1 d1"
      by (simp add: iaic_create_fnode_def Let_def)
    have n: "0 < align_64 ?n" by (simp add: align_64_def)
    from create_cases [OF cr(2) n, of undef_node d1] obtain r2 nb p2 d2 where
      cn: "iaic_create_bo fuel sys ?n undef_node ?ctx1 d1 = Inr (r2, nb, ctx\<lparr>c_pool := p2\<rparr>, d2)" "pool_ready fuel sys (ctx\<lparr>c_pool := p2\<rparr>)"
      and l2: "if r2 = IAIC_CODE_OK then lent p2 = add_mset (bo_key nb) (lent p1) \<and> ib_size nb = ?n \<and> ?n \<le> ib_esize nb
       else nb = undef_node \<and> lent p2 = lent p1" by auto
    show ?thesis
    proof (cases "r2 = IAIC_CODE_OK")
      case False
      then have "lent p2 = add_mset (bo_key bo) (lent (c_pool ctx))" using l1' l2 by simp
      moreover from this destroy_lent [OF cn(2), of bo d2] obtain p3 where
        "iaic_destroy_bo fuel sys bo (ctx\<lparr>c_pool := p2\<rparr>) d2 = Inr (IAIC_CODE_OK, bo, ctx\<lparr>c_pool := p3\<rparr>, d2)"
        "pool_ready fuel sys (ctx\<lparr>c_pool := p3\<rparr>)" "lent p2 = add_mset (bo_key bo) (lent p3)" by auto
      ultimately show ?thesis using i1 i2 cr(1) ok fn cn(1) False by (simp add: iaic_resize_def) blast
    next
      case ok2: True
      then have l2': "lent p2 = add_mset (bo_key nb) (add_mset (bo_key bo) (lent (c_pool ctx)))" using l1' l2 by simp
      obtain r3 s3 d3 where sub: "iaic_aip_f_chain fuel k (ctx\<lparr>c_pool := p2\<rparr>) (drop_bit 4 format AND 0xf) 0 0 nb 1 Null_name d2 = Inr (r3, s3, d3)"
        using f_chain_answers [OF assms(2)] by blast
      let ?s = "case s3 of None \<Rightarrow> junk | Some s \<Rightarrow> s"
      obtain r4 t4 d4 where wait: "iaic_aip_f_wait fuel k ?s (- 1) d3 = Inr (r4, t4, d4)"
        using wait_answers [OF assms(2)] unfolding iaic_aip_f_wait_def by blast
      note run = i1 i2 cr(1) ok fn cn(1) ok2 sub
      consider "r3 \<noteq> IAIC_CODE_OK" | "r3 = IAIC_CODE_OK" "r4 \<noteq> IAIC_CODE_OK" | "r3 = IAIC_CODE_OK" "r4 = IAIC_CODE_OK" by blast
      then show ?thesis
      proof cases
        case 1
        obtain p3 p4 where "iaic_destroy_bo fuel sys nb (ctx\<lparr>c_pool := p2\<rparr>) d3 = Inr (IAIC_CODE_OK, nb, ctx\<lparr>c_pool := p3\<rparr>, d3)"
          "iaic_destroy_bo fuel sys bo (ctx\<lparr>c_pool := p3\<rparr>) d3 = Inr (IAIC_CODE_OK, bo, ctx\<lparr>c_pool := p4\<rparr>, d3)"
          "pool_ready fuel sys (ctx\<lparr>c_pool := p4\<rparr>)" "lent p4 = lent (c_pool ctx)" by (rule destroy_both [OF cn(2) l2'])
        with run 1 show ?thesis by (simp add: iaic_resize_def) blast
      next
        case 2
        obtain p3 p4 where "iaic_destroy_bo fuel sys nb (ctx\<lparr>c_pool := p2\<rparr>) d4 = Inr (IAIC_CODE_OK, nb, ctx\<lparr>c_pool := p3\<rparr>, d4)"
          "iaic_destroy_bo fuel sys bo (ctx\<lparr>c_pool := p3\<rparr>) d4 = Inr (IAIC_CODE_OK, bo, ctx\<lparr>c_pool := p4\<rparr>, d4)"
          "pool_ready fuel sys (ctx\<lparr>c_pool := p4\<rparr>)" "lent p4 = lent (c_pool ctx)" by (rule destroy_both [OF cn(2) l2'])
        with run wait 2 show ?thesis by (simp add: iaic_resize_def) blast
      next
        case 3
        obtain p3 where "iaic_destroy_bo fuel sys nb (ctx\<lparr>c_pool := p2\<rparr>) d4 = Inr (IAIC_CODE_OK, nb, ctx\<lparr>c_pool := p3\<rparr>, d4)"
          "pool_ready fuel sys (ctx\<lparr>c_pool := p3\<rparr>)" "lent p3 = add_mset (bo_key bo) (lent (c_pool ctx))"
          by (rule destroy_second [OF cn(2) l2'])
        with run wait 3 show ?thesis by (simp add: iaic_resize_def) blast
      qed
    qed
  qed
qed

definition ready_kernel :: "unit kernel" where
  "ready_kernel cmd d = Inr (0, Io_seqno (Some 1), d)"

lemma sample_ready: "pool_ready 1 no_mem_sys sample_ctx" "answers 1 ready_kernel"
  using started_pool_fresh no_mem_sys_ok fresh_pool_good(2) [OF started_pool_fresh]
  by (auto simp: pool_ready_def sample_ctx_def fresh_pool_def answers_def ready_kernel_def lib_ioctl_def
      EINTR_def EAGAIN_def) (simp add: started_pool_def)

theorem resize_returns_node_witness:
  "\<exists>bo c' m' d'. iaic_resize 1 ready_kernel no_mem_sys sample_bo 32 32 16 16 IAIC_Y sample_bo sample_bo 0 sample_ctx (\<lambda>_. 0) () =
      Inr (bo, sample_ctx\<lparr>c_pool := c'\<rparr>, m', d') \<and>
    (lent c' = lent (c_pool sample_ctx) \<or> lent c' = add_mset (bo_key bo) (lent (c_pool sample_ctx)))"
proof -
  have "0 < align_64 (snd (snd (snd (get_img_info IAIC_Y 16 16))))"
    by (simp add: get_img_info_def iaic_formats asr_div align_64_def Let_def)
  from resize_returns_node [OF sample_ready this, of sample_bo 32 32 sample_bo sample_bo 0 "\<lambda>_. 0" "()"] show ?thesis by blast
qed

text \<open>A conversion of RGBA to BGRA is given a buffer of no bytes, because the format has no
  size, and writes the whole image to it: over the free block behind it.\<close>

theorem cvt_rgba_overruns:
  assumes "pool_inv (c_pool ctx)" "sys_malloc sys" "1 < max_mem_size (c_pool ctx)"
    "spec_alloc 0 (pool_blocks (c_pool ctx)) = Some (b, bs)" "blk_size b = 0"
    "unat (ib_size src_bo) = 4 * q" "q \<le> fuel" "buffers_apart (ib_vaddr src_bo) (blk_vaddr b) (4 * q)"
  shows "\<exists>c' m'. iaic_cvt_format fuel k sys src_bo wdt hgt IAIC_RGBA2BGRA undef junk ctx m d =
      Inr (bo_of_block 0 b, ctx\<lparr>c_pool := c'\<rparr>, m', d) \<and> ib_esize (bo_of_block 0 b) = 0 \<and>
    peek (blk_vaddr b) (4 * q) m' = map (\<lambda>i. m (ib_vaddr src_bo + of_nat (swapped i))) [0 ..< 4 * q] \<and>
    (\<exists>r \<in> set (pool_blocks c'). idle r \<and> blk_vaddr r = blk_vaddr b)"
proof -
  have wf: "pool_wf (c_pool ctx)" "\<not> lock_word (c_pool ctx)" and f: "\<forall>x \<in> set (pool_blocks (c_pool ctx)). fits x"
    using assms(1) by (simp_all add: pool_inv_def blocks_inv_def)
  have z: "align_64 0 = 0" by (simp add: align_64_def)
  from alloc_implements_spec [OF wf assms(2), of 0 b bs fuel "c_thread ctx" d] z assms(4) obtain c' where
    c': "iaic_fast_alloc_bo fuel sys (c_thread ctx) 0 (c_pool ctx) d = Inr (IAIC_CODE_OK, Some (bo_of_block 0 b), c', d)"
      "pool_blocks c' = bs" by auto
  have rest: "\<exists>r \<in> set ys. idle r \<and> blk_vaddr r = blk_vaddr b"
    if "spec_alloc 0 xs = Some (b, ys)" "\<forall>x \<in> set xs. fits x" for xs ys
    using that assms(5) by (induction xs arbitrary: ys) (auto simp: carve_def fits_def split: if_splits)
  have lt: "4 * (0 + q) < (2 :: nat) ^ 32" using unsigned_less [of "ib_size src_bo", where 'a = nat] assms(6) by simp
  have n: "ib_size src_bo = of_nat (4 * (0 + q))" using arg_cong [OF assms(6), of "of_nat :: nat \<Rightarrow> u32"] by simp
  from swap_loop_runs [of "ib_vaddr src_bo" "blk_vaddr b" 0 q fuel m] assms(7,8) lt obtain m' where
    m': "swap_loop fuel 0 (ib_size src_bo) (ib_vaddr src_bo) (blk_vaddr b) m = Inr m'"
      "\<And>k. k < 4 * q \<Longrightarrow> m' (blk_vaddr b + of_nat k) = m (ib_vaddr src_bo + of_nat (swapped k))"
    unfolding n by auto
  have info: "get_img_info IAIC_RGBA2BGRA wdt hgt = (0, 0, 0, 0)"
    by (simp add: get_img_info_def iaic_formats Let_def)
  have "iaic_create_bo fuel sys 0 undef ctx d = Inr (IAIC_CODE_OK, bo_of_block 0 b, ctx\<lparr>c_pool := c'\<rparr>, d)"
    using c'(1) assms(3) by (simp add: iaic_create_bo_def)
  then have "iaic_cvt_format fuel k sys src_bo wdt hgt IAIC_RGBA2BGRA undef junk ctx m d =
      Inr (bo_of_block 0 b, ctx\<lparr>c_pool := c'\<rparr>, m', d)"
    using info m'(1) by (simp add: iaic_cvt_format_def case_prod_beta) (simp add: bo_of_block_def)
  moreover have "peek (blk_vaddr b) (4 * q) m' = map (\<lambda>i. m (ib_vaddr src_bo + of_nat (swapped i))) [0 ..< 4 * q]"
    using m'(2) by (simp add: peek_def)
  ultimately show ?thesis using rest [OF assms(4) f] assms(5) c'(2)
    by (intro exI [of _ c'] exI [of _ m']) (simp add: bo_of_block_def)
qed

theorem cvt_rgba_overruns_witness:
  "\<exists>bo c' m'. iaic_cvt_format 2 ready_kernel no_mem_sys (sample_bo\<lparr>ib_size := 8, ib_vaddr := 0x1000\<rparr>) 2 1 IAIC_RGBA2BGRA
      sample_bo 0 sample_ctx (\<lambda>a. ucast a) () = Inr (bo, sample_ctx\<lparr>c_pool := c'\<rparr>, m', ()) \<and>
    ib_esize bo = 0 \<and> length (peek (ib_vaddr bo) 8 m') = 8"
proof -
  let ?b = "sample_rest\<lparr>blk_size := 0, idle := False\<rparr>" and ?src = "sample_bo\<lparr>ib_size := 8, ib_vaddr := 0x1000\<rparr>"
  have inv: "pool_inv (c_pool sample_ctx)" using started_pool_fresh by (simp add: fresh_pool_def sample_ctx_def)
  have pick: "\<exists>bs. spec_alloc 0 (pool_blocks (c_pool sample_ctx)) = Some (?b, bs)"
    by (simp add: sample_ctx_def started_pool_def pool_blocks_def sample_first_def sample_rest_def carve_def)
  then obtain bs where bs: "spec_alloc 0 (pool_blocks (c_pool sample_ctx)) = Some (?b, bs)" by blast
  have more: "sys_malloc no_mem_sys" "1 < max_mem_size (c_pool sample_ctx)" "blk_size ?b = 0" "unat (ib_size ?src) = 4 * 2"
    "(2 :: nat) \<le> 2" "buffers_apart (ib_vaddr ?src) (blk_vaddr ?b) (4 * 2)"
    by (simp_all add: no_mem_sys_ok sample_ctx_def started_pool_def sample_rest_def buffers_apartI)
  from cvt_rgba_overruns [OF inv more(1,2) bs more(3-6), of ready_kernel 2 1 sample_bo 0 "\<lambda>a. ucast a" "()"] show ?thesis
    by (auto simp: peek_def)
qed

end
