(* ===== verification/IaicWarp.thy ===== *)
theory IaicWarp
  imports Complex_Main IaicImage
begin

unbundle bit_operations_syntax

text \<open>
  \<open>iaic_perspective\<close> of \<open>lib/src/iaic_api.c\<close>: the inverse of the caller's matrix, its nine
  coefficients in 6.26 fixed point, their packing into the node of the AIP-P engine, and
  the job. The floating-point unit is a parameter: how it rounds a result to \<open>float\<close> and
  to \<open>double\<close>, and what it makes of a number that does not fit an \<open>int\<close>.
\<close>

section \<open>Floating point\<close>

record fpu =
  f32 :: "rat \<Rightarrow> rat"
  f64 :: "rat \<Rightarrow> rat"
  f_int :: "rat \<Rightarrow> u32"

definition to_int :: "fpu \<Rightarrow> rat \<Rightarrow> u32" where
  "to_int fp x = (let t = (if 0 \<le> x then \<lfloor>x\<rfloor> else \<lceil>x\<rceil>)
     in if - (2 ^ 31) \<le> t \<and> t < 2 ^ 31 then of_int t else f_int fp x)"

text \<open>The macro \<open>iaic_round\<close>; the sum with 0.5 is a \<open>double\<close>.\<close>

definition iaic_round :: "fpu \<Rightarrow> rat \<Rightarrow> u32" where
  "iaic_round fp x = (if 0 \<le> x then to_int fp (f64 fp (x + 1 / 2)) else to_int fp (f64 fp (x - 1 / 2)))"

section \<open>The matrix\<close>

text \<open>Products and differences of \<open>float\<close>s are \<open>float\<close>s; \<open>Dxx\<close>, \<open>A11\<close> and \<open>A22\<close> are \<open>double\<close>s.\<close>

definition fmul :: "fpu \<Rightarrow> rat \<Rightarrow> rat \<Rightarrow> rat" where "fmul fp x y = f32 fp (x * y)"
definition fsub :: "fpu \<Rightarrow> rat \<Rightarrow> rat \<Rightarrow> rat" where "fsub fp x y = f32 fp (x - y)"
definition dmul :: "fpu \<Rightarrow> rat \<Rightarrow> rat \<Rightarrow> rat" where "dmul fp x y = f64 fp (x * y)"

text \<open>\<open>m[i] * m[j] - m[k] * m[l]\<close>\<close>

definition minor :: "fpu \<Rightarrow> (nat \<Rightarrow> rat) \<Rightarrow> nat \<Rightarrow> nat \<Rightarrow> nat \<Rightarrow> nat \<Rightarrow> rat" where
  "minor fp m i j k l = fsub fp (fmul fp (m i) (m j)) (fmul fp (m k) (m l))"

text \<open>The branch for affine matrices works in the caller's array.\<close>

definition affine_inverse :: "fpu \<Rightarrow> (nat \<Rightarrow> rat) \<Rightarrow> nat \<Rightarrow> rat" where
  "affine_inverse fp m =
     (let dxx = minor fp m 0 4 1 3;
          dxx = (if dxx \<noteq> 0 then f64 fp (1 / dxx) else 0);
          a11 = dmul fp (m 4) dxx; a22 = dmul fp (m 0) dxx;
          m = m(0 := f32 fp a11);
          m = m(1 := f32 fp (dmul fp (m 1) (- dxx)));
          m = m(3 := f32 fp (dmul fp (m 3) (- dxx)));
          m = m(4 := f32 fp a22);
          b1 = fsub fp (fmul fp (- m 0) (m 2)) (fmul fp (m 1) (m 5));
          b2 = fsub fp (fmul fp (- m 3) (m 2)) (fmul fp (m 4) (m 5))
      in m(2 := f32 fp b1, 5 := f32 fp b2))"

definition perspective_inverse :: "fpu \<Rightarrow> (nat \<Rightarrow> rat) \<Rightarrow> nat \<Rightarrow> rat" where
  "perspective_inverse fp m =
     (let t0 = fmul fp (m 0) (minor fp m 4 8 5 7);
          t1 = fmul fp (m 1) (minor fp m 3 8 5 6);
          t2 = fmul fp (m 2) (minor fp m 3 7 4 6);
          t3 = f64 fp (f64 fp (t0 - t1) + t2)
      in if t3 = 0 then (\<lambda>_. 0)
         else let def = f32 fp (f64 fp (1 / t3)) in
           (\<lambda>i. fmul fp ([minor fp m 4 8 5 7, minor fp m 2 7 1 8, minor fp m 1 5 2 4,
                          minor fp m 5 6 3 8, minor fp m 0 8 2 6, minor fp m 2 3 0 5,
                          minor fp m 3 7 4 6, minor fp m 1 6 0 7, minor fp m 0 4 1 3] ! i) def))"

text \<open>The coefficients \<open>ax\<close> to \<open>cz\<close> as 64-bit integers, and the caller's matrix afterwards. In the
  affine branch the scaling is in \<open>float\<close>, in the other in \<open>double\<close>.\<close>

definition is_affine :: "fpu \<Rightarrow> (nat \<Rightarrow> rat) \<Rightarrow> bool" where
  "is_affine fp m \<longleftrightarrow> \<bar>m 6\<bar> < f64 fp (1 / 10 ^ 10) \<and> \<bar>m 7\<bar> < f64 fp (1 / 10 ^ 10)"

definition warp_coefs :: "fpu \<Rightarrow> (nat \<Rightarrow> rat) \<Rightarrow> u64 list \<times> (nat \<Rightarrow> rat)" where
  "warp_coefs fp m =
     (if is_affine fp m
      then let m = affine_inverse fp m
           in (map (\<lambda>i. scast (iaic_round fp (fmul fp (fmul fp (m i) 65536) 1024))) [0 ..< 9], m)
      else let dst = perspective_inverse fp m
           in (map (\<lambda>i. scast (iaic_round fp (dmul fp (dmul fp (dst i) 65536) 1024))) [0 ..< 9], m))"

section \<open>The node\<close>

text \<open>Three coefficients in five words.\<close>

definition coef_words :: "u64 \<Rightarrow> u64 \<Rightarrow> u64 \<Rightarrow> u32 list" where
  "coef_words a b c =
     [ucast (a AND 0xffffffff),
      ucast (push_bit 16 (b AND 0xffff) OR drop_bit 32 (a AND 0xffff00000000)),
      ucast (drop_bit 16 (b AND 0xffffffff0000)),
      ucast (c AND 0xffffffff),
      ucast (drop_bit 32 (c AND 0x7ffffff00000000))]"

definition p_coef_fields :: "p_node_field list" where
  "p_coef_fields = [Np_coef0, Np_coef1, Np_coef2, Np_coef3, Np_coef4, Np_coef5, Np_coef6, Np_coef7,
     Np_coef8, Np_coef9, Np_coef10, Np_coef11, Np_coef12, Np_coef13, Np_coef14]"

definition warp_node :: "iaic_bo \<Rightarrow> iaic_bo \<Rightarrow> u32 \<Rightarrow> u32 \<Rightarrow> u32 \<Rightarrow> u32 \<Rightarrow> u32 \<Rightarrow> u32 \<Rightarrow> u64 list \<Rightarrow> (nat \<times> u32) list" where
  "warp_node src_bo dst_bo sw sh dw dh src_strd dst_strd cs =
     [(p_word 0 Np_timeout 0, 0xffffffff),
      (p_word 0 Np_src_base_y 0, ib_paddr src_bo),
      (p_word 0 Np_src_base_uv 0, ib_paddr src_bo + sw * sh),
      (p_word 0 Np_src_stride 0, src_strd),
      (p_word 0 Np_dst_base 0, ib_paddr dst_bo),
      (p_word 0 Np_dst_stride 0, dst_strd),
      (p_word 0 Np_dst_size 0, push_bit 16 dh OR dw),
      (p_word 0 Np_src_size 0, push_bit 16 sh OR sw),
      (p_word 0 Np_dummy_val 0, 0x80801010)] @
     zip (map (\<lambda>f. p_word 0 f 0) p_coef_fields)
       (coef_words (cs ! 0) (cs ! 1) (cs ! 2) @ coef_words (cs ! 3) (cs ! 4) (cs ! 5) @ coef_words (cs ! 6) (cs ! 7) (cs ! 8))"

text \<open>On success the node's buffer is not given back.\<close>

definition iaic_perspective :: "nat \<Rightarrow> 'd kernel \<Rightarrow> 'd sys \<Rightarrow> fpu \<Rightarrow> iaic_bo \<Rightarrow> u32 \<Rightarrow> u32 \<Rightarrow> u32 \<Rightarrow> u32 \<Rightarrow> u32 \<Rightarrow>
    (nat \<Rightarrow> rat) \<Rightarrow> iaic_bo \<Rightarrow> iaic_bo \<Rightarrow> u64 \<Rightarrow> iaic_ctx \<Rightarrow> mem \<Rightarrow> 'd \<Rightarrow>
    fault + (iaic_bo \<times> iaic_ctx \<times> (nat \<Rightarrow> rat) \<times> mem \<times> 'd)" where
  "iaic_perspective fuel k sys fp src_bo sw sh dw dh format matrix undef undef_node junk ctx m d =
     (let (_, _, src_strd, _) = get_img_info format sw sh;
          (_, _, dst_strd, dst_sz) = get_img_info (if format = IAIC_NV12 then IAIC_BGRA else format) dw dh;
          discard = (\<lambda>node_bo dst_bo ctx mat m d. res_bind (iaic_destroy_bo fuel sys node_bo ctx d) (\<lambda>(_, _, ctx, d).
            res_bind (iaic_destroy_bo fuel sys dst_bo ctx d) (\<lambda>(_, dst_bo, ctx, d). Inr (dst_bo, ctx, mat, m, d))))
      in res_bind (iaic_create_bo fuel sys dst_sz undef ctx d) (\<lambda>(r, dst_bo, ctx, d).
      if r \<noteq> IAIC_CODE_OK then Inr (dst_bo, ctx, matrix, m, d)
      else
        res_bind (iaic_create_pnode fuel sys 216 undef_node ctx d) (\<lambda>(r, node_bo, ctx, d).
        if r \<noteq> IAIC_CODE_OK
        then res_bind (iaic_destroy_bo fuel sys dst_bo ctx d) (\<lambda>(_, dst_bo, ctx, d). Inr (dst_bo, ctx, matrix, m, d))
        else
          let (cs, mat) = warp_coefs fp matrix;
              m = store_words (ib_vaddr node_bo) (warp_node src_bo dst_bo sw sh dw dh src_strd dst_strd cs) m
          in res_bind (iaic_aip_p_chain fuel k ctx (drop_bit 8 format AND 0xf) 0 0
               \<lparr>order = 0, alpha = 0, offset0 = 16, offset1 = 128\<rparr> (Some nv2bgr_coef) node_bo 1 Null_name d) (\<lambda>(r, s, d).
             if r \<noteq> IAIC_CODE_OK then discard node_bo dst_bo ctx mat m d
             else
               res_bind (iaic_aip_p_wait fuel k (case s of None \<Rightarrow> junk | Some s \<Rightarrow> s) (- 1) d) (\<lambda>(r, _, d).
               if r \<noteq> IAIC_CODE_OK then discard node_bo dst_bo ctx mat m d
               else Inr (dst_bo, ctx, mat, m, d))))))"

section \<open>The packing\<close>

lemma low_field: "a AND 0xffffffff = take_bit 32 (a :: u64)" "a AND 0xffff = take_bit 16 a"
  by (simp_all add: take_bit_eq_mask mask_eq_exp_minus_1)

lemma mid_field:
  "drop_bit 32 (a AND 0xffff00000000) = take_bit 16 (drop_bit 32 (a :: u64))"
  "drop_bit 16 (a AND 0xffffffff0000) = take_bit 32 (drop_bit 16 a)"
  "drop_bit 32 (a AND 0x7ffffff00000000) = take_bit 27 (drop_bit 32 a)"
  by (simp_all add: drop_bit_and take_bit_eq_mask mask_eq_exp_minus_1)

lemma unat_take_bit_64: "unat (take_bit n (a :: u64)) = unat a mod 2 ^ n"
  unfolding unsigned_take_bit_eq by (simp only: take_bit_eq_mod)

lemma unat_drop_bit_64: "unat (drop_bit n (a :: u64)) = unat a div 2 ^ n"
  unfolding unsigned_drop_bit_eq by (simp only: drop_bit_eq_div take_bit_nat_eq_self unsigned_less)

lemma unat_ucast_32: "unat (ucast (a :: u64) :: u32) = unat a mod 2 ^ 32"
  unfolding unsigned_ucast_eq by (simp add: take_bit_eq_mod)

text \<open>The number five words stand for, lowest first.\<close>

definition words_number :: "u32 list \<Rightarrow> nat" where
  "words_number ws = foldr (\<lambda>w n. unat w + 2 ^ 32 * n) ws 0"

lemma or_fields:
  assumes "x < 2 ^ 16" "y < 2 ^ 16"
  shows "unat (ucast (push_bit 16 (y :: u64) OR x) :: u32) = unat x + 2 ^ 16 * unat y"
proof -
  have b: "unat x < 2 ^ 16" "unat y < 2 ^ 16" using assms by (simp_all add: word_less_nat_alt)
  then have "unat (take_bit 16 x) = unat x" by (simp add: unat_take_bit_64)
  then have x: "take_bit 16 x = x" by (simp only: word_unat_eq_iff)
  have "push_bit 16 y AND take_bit 16 x = 0" by (rule bit_word_eqI) (auto simp: bit_simps)
  then have "push_bit 16 y OR x = push_bit 16 y + x" unfolding x by (simp add: disjunctive_add_eq_or)
  moreover have "push_bit 16 y + x = of_nat (unat x + 2 ^ 16 * unat y)" by (simp add: push_bit_eq_mult)
  moreover have "unat (of_nat (unat x + 2 ^ 16 * unat y) :: u64) = unat x + 2 ^ 16 * unat y"
    unfolding unat_of_nat using b by (intro mod_less) simp
  ultimately show ?thesis using b by (simp only: unat_ucast_32) simp
qed

text \<open>The node holds the three coefficients one after the other, in 48, 48 and 59 bits.\<close>

theorem coef_words_layout:
  "words_number (coef_words a b c) =
   unat a mod 2 ^ 48 + 2 ^ 48 * (unat b mod 2 ^ 48) + 2 ^ 96 * (unat c mod 2 ^ 59)"
proof -
  have split: "x mod 2 ^ (i + j) = x mod 2 ^ i + 2 ^ i * ((x div 2 ^ i) mod 2 ^ j)" for x i j :: nat
    by (simp add: power_add mod_mult2_eq)
  have small: "take_bit 16 x < 2 ^ 16" for x :: u64
    by (simp add: word_less_nat_alt unat_take_bit_64)
  have w1: "unat (ucast (push_bit 16 (b AND 0xffff) OR drop_bit 32 (a AND 0xffff00000000)) :: u32) =
      (unat a div 2 ^ 32) mod 2 ^ 16 + 2 ^ 16 * (unat b mod 2 ^ 16)"
    unfolding low_field mid_field by (subst or_fields [OF small small]) (simp add: unat_take_bit_64 unat_drop_bit_64)
  have ws: "map unat (coef_words a b c) = [unat a mod 2 ^ 32, (unat a div 2 ^ 32) mod 2 ^ 16 + 2 ^ 16 * (unat b mod 2 ^ 16),
      (unat b div 2 ^ 16) mod 2 ^ 32, unat c mod 2 ^ 32, (unat c div 2 ^ 32) mod 2 ^ 27]"
    unfolding coef_words_def list.map w1 unfolding low_field mid_field
    by (simp add: unat_ucast_32 unat_take_bit_64 unat_drop_bit_64)
  have "words_number (coef_words a b c) = foldr (\<lambda>w n. w + 2 ^ 32 * n) (map unat (coef_words a b c)) 0"
    by (simp add: words_number_def foldr_map comp_def)
  also have "\<dots> = unat a mod 2 ^ 48 + 2 ^ 48 * (unat b mod 2 ^ 48) + 2 ^ 96 * (unat c mod 2 ^ 59)"
    unfolding ws using split [of "unat a" 32 16] split [of "unat b" 16 32] split [of "unat c" 32 27] by simp
  finally show ?thesis .
qed

section \<open>The inverse\<close>

text \<open>Arithmetic without rounding.\<close>

definition exact_fpu :: "(rat \<Rightarrow> u32) \<Rightarrow> fpu" where
  "exact_fpu f = \<lparr>f32 = (\<lambda>x. x), f64 = (\<lambda>x. x), f_int = f\<rparr>"

lemma exact_simps [simp]: "f32 (exact_fpu f) x = x" "f64 (exact_fpu f) x = x"
  by (simp_all add: exact_fpu_def)

definition det3 :: "(nat \<Rightarrow> rat) \<Rightarrow> rat" where
  "det3 m = m 0 * (m 4 * m 8 - m 5 * m 7) - m 1 * (m 3 * m 8 - m 5 * m 6) + m 2 * (m 3 * m 7 - m 4 * m 6)"

definition mat_entry :: "(nat \<Rightarrow> rat) \<Rightarrow> (nat \<Rightarrow> rat) \<Rightarrow> nat \<Rightarrow> nat \<Rightarrow> rat" where
  "mat_entry x y i j = x (3 * i) * y j + x (3 * i + 1) * y (3 + j) + x (3 * i + 2) * y (6 + j)"

definition warp_inverse :: "fpu \<Rightarrow> (nat \<Rightarrow> rat) \<Rightarrow> nat \<Rightarrow> rat" where
  "warp_inverse fp m = (if is_affine fp m then affine_inverse fp m else perspective_inverse fp m)"

lemma below_3: "i < (3 :: nat) \<longleftrightarrow> i = 0 \<or> i = 1 \<or> i = 2"
  by auto

lemma perspective_inverse_entries:
  assumes "det3 m \<noteq> 0"
  shows "map (perspective_inverse (exact_fpu f) m) [0 ..< 9] = map (\<lambda>x. x / det3 m)
    [m 4 * m 8 - m 5 * m 7, m 2 * m 7 - m 1 * m 8, m 1 * m 5 - m 2 * m 4,
     m 5 * m 6 - m 3 * m 8, m 0 * m 8 - m 2 * m 6, m 2 * m 3 - m 0 * m 5,
     m 3 * m 7 - m 4 * m 6, m 1 * m 6 - m 0 * m 7, m 0 * m 4 - m 1 * m 3]"
  using assms by (simp add: perspective_inverse_def minor_def fmul_def fsub_def det3_def Let_def upt_rec numeral_nat)

lemma nine_entries:
  "map x [0 ..< 9] = [a0, a1, a2, a3, a4, a5, a6, a7, a8] \<longleftrightarrow>
   x 0 = a0 \<and> x (Suc 0) = a1 \<and> x 2 = a2 \<and> x 3 = a3 \<and> x 4 = a4 \<and> x 5 = a5 \<and> x 6 = a6 \<and> x 7 = a7 \<and> x 8 = a8"
  by (simp add: upt_rec numeral_nat)

lemma mat_entries:
  "mat_entry x y 0 0 = x 0 * y 0 + x 1 * y 3 + x 2 * y 6" "mat_entry x y 0 1 = x 0 * y 1 + x 1 * y 4 + x 2 * y 7"
  "mat_entry x y 0 2 = x 0 * y 2 + x 1 * y 5 + x 2 * y 8"
  "mat_entry x y 1 0 = x 3 * y 0 + x 4 * y 3 + x 5 * y 6" "mat_entry x y 1 1 = x 3 * y 1 + x 4 * y 4 + x 5 * y 7"
  "mat_entry x y 1 2 = x 3 * y 2 + x 4 * y 5 + x 5 * y 8"
  "mat_entry x y 2 0 = x 6 * y 0 + x 7 * y 3 + x 8 * y 6" "mat_entry x y 2 1 = x 6 * y 1 + x 7 * y 4 + x 8 * y 7"
  "mat_entry x y 2 2 = x 6 * y 2 + x 7 * y 5 + x 8 * y 8"
  by (simp_all add: mat_entry_def eval_nat_numeral)

lemma perspective_inverts:
  assumes "det3 m \<noteq> 0" "i < 3" "j < 3"
  shows "mat_entry (perspective_inverse (exact_fpu f) m) m i j = (if i = j then 1 else 0)"
proof -
  note e = perspective_inverse_entries [OF assms(1), of f, unfolded list.map nine_entries One_nat_def [symmetric]]
  have d: "x / det3 m * p + y / det3 m * q + z / det3 m * r = c" if "x * p + y * q + z * r = c * det3 m" for x y z p q r c
    using that assms(1) by (simp add: add_divide_distrib [symmetric] divide_eq_eq)
  have "i = 0 \<or> i = 1 \<or> i = 2" "j = 0 \<or> j = 1 \<or> j = 2" using assms(2,3) by (simp_all add: below_3)
  then show ?thesis
    by (elim disjE; simp only: mat_entries e; intro d; simp add: det3_def algebra_simps)
qed

lemma affine_inverts:
  assumes "m 0 * m 4 - m 1 * m 3 \<noteq> 0" "m 6 = 0" "m 7 = 0" "m 8 = 1" "i < 3" "j < 3"
  shows "mat_entry (affine_inverse (exact_fpu f) m) m i j = (if i = j then 1 else 0)"
proof -
  let ?d = "m 0 * m 4 - m 1 * m 3"
  have "map (affine_inverse (exact_fpu f) m) [0 ..< 9] =
      [m 4 / ?d, - m 1 / ?d, (m 1 * m 5 - m 4 * m 2) / ?d, - m 3 / ?d, m 0 / ?d, (m 3 * m 2 - m 0 * m 5) / ?d, 0, 0, 1]"
    using assms(1-4) by (simp add: affine_inverse_def minor_def fmul_def fsub_def dmul_def Let_def nine_entries diff_divide_distrib)
  note e = this [unfolded nine_entries One_nat_def [symmetric]]
  have d: "x / ?d * p + y / ?d * q + z / ?d * r = c" if "x * p + y * q + z * r = c * ?d" for x y z p q r c
    using that assms(1) by (simp add: add_divide_distrib [symmetric] divide_eq_eq)
  have "i = 0 \<or> i = 1 \<or> i = 2" "j = 0 \<or> j = 1 \<or> j = 2" using assms(5,6) by (simp_all add: below_3)
  then show ?thesis
    by (elim disjE; simp only: mat_entries e assms(2-4); (intro d)?; simp add: algebra_simps)
qed

text \<open>C35. Without rounding the matrix whose coefficients are sent to the engine is the inverse of the
  caller's: in the affine branch when the last row is 0, 0, 1, in the other always.\<close>

theorem warp_inverse_correct:
  assumes "det3 m \<noteq> 0" "is_affine (exact_fpu f) m \<longrightarrow> m 6 = 0 \<and> m 7 = 0 \<and> m 8 = 1" "i < 3" "j < 3"
  shows "mat_entry (warp_inverse (exact_fpu f) m) m i j = (if i = j then 1 else 0)"
proof (cases "is_affine (exact_fpu f) m")
  case True
  with assms have "m 0 * m 4 - m 1 * m 3 \<noteq> 0" "m 6 = 0" "m 7 = 0" "m 8 = 1" by (auto simp: det3_def)
  from affine_inverts [OF this assms(3,4)] True show ?thesis by (simp add: warp_inverse_def)
next
  case False
  with perspective_inverts [OF assms(1,3,4)] show ?thesis by (simp add: warp_inverse_def)
qed

definition shear :: "nat \<Rightarrow> rat" where
  "shear i = [1, 2, 3, 0, 1, 4, 0, 0, 1] ! i"

theorem warp_inverse_correct_witness:
  "mat_entry (warp_inverse (exact_fpu (\<lambda>_. 0)) shear) shear 0 2 = 0 \<and> warp_inverse (exact_fpu (\<lambda>_. 0)) shear 1 = - 2"
proof -
  have "det3 shear \<noteq> 0" "is_affine (exact_fpu (\<lambda>_. 0)) shear \<longrightarrow> shear 6 = 0 \<and> shear 7 = 0 \<and> shear 8 = 1"
    by (simp_all add: det3_def shear_def)
  from warp_inverse_correct [OF this, of 0 2] have "mat_entry (warp_inverse (exact_fpu (\<lambda>_. 0)) shear) shear 0 2 = 0" by simp
  moreover have "warp_inverse (exact_fpu (\<lambda>_. 0)) shear 1 = - 2"
    by (simp add: warp_inverse_def is_affine_def shear_def affine_inverse_def minor_def fmul_def fsub_def dmul_def Let_def)
  ultimately show ?thesis by blast
qed

section \<open>The coefficients\<close>

lemma round_in_range:
  assumes "\<bar>y\<bar> + 1 < 2 ^ 31"
  shows "\<bar>of_int (sint (iaic_round (exact_fpu f) y)) - y\<bar> \<le> 1 / 2"
proof -
  have s: "sint (of_int t :: u32) = t" if "- (2 ^ 31) \<le> t" "t < 2 ^ 31" for t :: int
    using that by (simp add: signed_of_int signed_take_bit_int_eq_self)
  show ?thesis
  proof (cases "0 \<le> y")
    case True
    let ?t = "\<lfloor>y + 1 / 2\<rfloor>"
    have b: "of_int ?t \<le> y + 1 / 2" "y + 1 / 2 < of_int ?t + 1" by linarith+
    have "0 \<le> ?t" using True by simp
    moreover have "?t < 2 ^ 31" using b(1) assms True by (simp add: floor_less_iff)
    ultimately have "sint (iaic_round (exact_fpu f) y) = ?t"
      using True s [of ?t] by (simp add: iaic_round_def to_int_def Let_def)
    moreover have "\<bar>of_int ?t - y\<bar> \<le> 1 / 2" using b by linarith
    ultimately show ?thesis by (simp only:)
  next
    case False
    let ?t = "\<lceil>y - 1 / 2\<rceil>"
    have b: "y - 1 / 2 \<le> of_int ?t" "of_int ?t < y - 1 / 2 + 1" by linarith+
    have "?t \<le> 0" using False by (simp add: ceiling_le_iff)
    moreover have "- (2 ^ 31) \<le> ?t" using assms False by (simp add: le_ceiling_iff)
    ultimately have "sint (iaic_round (exact_fpu f) y) = ?t"
      using False s [of ?t] by (simp add: iaic_round_def to_int_def Let_def)
    moreover have "\<bar>of_int ?t - y\<bar> \<le> 1 / 2" using b by linarith
    ultimately show ?thesis by (simp only:)
  qed
qed

lemma warp_coefs_nth:
  "i < 9 \<Longrightarrow> fst (warp_coefs (exact_fpu f) m) ! i =
   scast (iaic_round (exact_fpu f) (warp_inverse (exact_fpu f) m i * 67108864))"
  by (simp add: warp_coefs_def warp_inverse_def fmul_def dmul_def Let_def mult.assoc)

lemma sint_widen: "sint (scast (w :: u32) :: u64) = sint w"
  using sint_greater_eq [of w] sint_less [of w]
  by (simp add: signed_scast_eq signed_take_bit_int_eq_self)

text \<open>A coefficient below 31 in size is sent with an error of at most half a unit of 2^-26.\<close>

theorem warp_coefs_precise:
  assumes "i < 9" "\<bar>warp_inverse (exact_fpu f) m i\<bar> < 31"
  shows "\<bar>of_int (sint (fst (warp_coefs (exact_fpu f) m) ! i)) - warp_inverse (exact_fpu f) m i * 2 ^ 26\<bar> \<le> 1 / 2"
proof -
  let ?x = "warp_inverse (exact_fpu f) m i"
  have "\<bar>?x * 67108864\<bar> + 1 < 2 ^ 31" using assms(2) by (simp add: abs_mult)
  from round_in_range [OF this, of f] show ?thesis
    by (simp add: warp_coefs_nth [OF assms(1)] sint_widen)
qed

theorem warp_coefs_precise_witness:
  "\<bar>of_int (sint (fst (warp_coefs (exact_fpu (\<lambda>_. 0)) shear) ! 1)) + 2 * 2 ^ 26\<bar> \<le> (1 / 2 :: rat)"
proof -
  have i: "warp_inverse (exact_fpu (\<lambda>_. 0)) shear 1 = - 2"
    by (simp add: warp_inverse_def is_affine_def shear_def affine_inverse_def minor_def fmul_def fsub_def dmul_def Let_def)
  from warp_coefs_precise [of 1 "\<lambda>_. 0" shear, unfolded i] show ?thesis by simp
qed

definition translate :: "rat \<Rightarrow> rat \<Rightarrow> nat \<Rightarrow> rat" where
  "translate tx ty i = [1, 0, tx, 0, 1, ty, 0, 0, 1] ! i"

text \<open>The rounding goes through \<open>int\<close>: from 32 pixels on a translation does not fit, and what is
  sent is whatever the conversion gives. On a unit that saturates all such translations
  are the same.\<close>

theorem warp_translation_overflows:
  assumes "32 \<le> tx" "\<And>x. 2 ^ 31 \<le> x \<Longrightarrow> f x = sat"
  shows "fst (warp_coefs (exact_fpu f) (translate (- tx) ty)) ! 2 = scast sat"
proof -
  let ?m = "translate (- tx) ty"
  have "warp_inverse (exact_fpu f) ?m 2 = tx"
    by (simp add: warp_inverse_def is_affine_def translate_def affine_inverse_def minor_def fmul_def fsub_def dmul_def Let_def)
  moreover have "iaic_round (exact_fpu f) (tx * 67108864) = sat"
  proof -
    have "2 ^ 31 \<le> tx * 67108864 + 1 / 2" using assms(1) by simp
    moreover from this have "2 ^ 31 \<le> \<lfloor>tx * 67108864 + 1 / 2\<rfloor>" by (simp add: le_floor_iff)
    ultimately show ?thesis using assms by (simp add: iaic_round_def to_int_def Let_def exact_fpu_def)
  qed
  ultimately show ?thesis by (simp add: warp_coefs_nth)
qed

theorem warp_translation_overflows_witness:
  "fst (warp_coefs (exact_fpu (\<lambda>x. if x < 0 then 0x80000000 else 0x7fffffff)) (translate (- 32) 0)) ! 2 = 0x7fffffff \<and>
   fst (warp_coefs (exact_fpu (\<lambda>x. if x < 0 then 0x80000000 else 0x7fffffff)) (translate (- 500) 0)) ! 2 = 0x7fffffff"
  using warp_translation_overflows [of 32 "\<lambda>x. if x < 0 then 0x80000000 else 0x7fffffff" "0x7fffffff" 0]
    warp_translation_overflows [of 500 "\<lambda>x. if x < 0 then 0x80000000 else 0x7fffffff" "0x7fffffff" 0]
  by (simp add: signed_take_bit_eq_if_positive)

section \<open>The buffers of a warp\<close>

text \<open>A warp that succeeds keeps the buffer of its node: nobody can give it back, because only
  the image's buffer is returned.\<close>

theorem perspective_leaks_node:
  assumes "pool_ready fuel sys ctx" "0 < align_64 sz" "snd (snd (snd (get_img_info (if format = IAIC_NV12 then IAIC_BGRA else format) dw dh))) = sz"
    "iaic_create_bo fuel sys sz undef ctx d = Inr (IAIC_CODE_OK, bo, ctx1, d1)"
    "iaic_create_pnode fuel sys 216 undef_node ctx1 d1 = Inr (IAIC_CODE_OK, nb, ctx2, d2)"
    "\<And>cmd d. \<exists>r out d'. lib_ioctl fuel k cmd d = Inr (r, out, d') \<and> 0 \<le> r"
  shows "\<exists>mat m' d'. iaic_perspective fuel k sys fp src_bo sw sh dw dh format matrix undef undef_node junk ctx m d =
      Inr (bo, ctx2, mat, m', d') \<and>
    lent (c_pool ctx2) = add_mset (bo_key nb) (add_mset (bo_key bo) (lent (c_pool ctx)))"
proof -
  let ?fmt = "if format = IAIC_NV12 then IAIC_BGRA else format"
  obtain b1 c1 s1 z1 where i1: "get_img_info format sw sh = (b1, c1, s1, z1)" by (cases "get_img_info format sw sh")
  obtain b2 c2 s2 where i2: "get_img_info ?fmt dw dh = (b2, c2, s2, sz)"
    using assms(3) by (cases "get_img_info ?fmt dw dh") auto
  obtain cs mat where w: "warp_coefs fp matrix = (cs, mat)" by (cases "warp_coefs fp matrix")
  from create_cases [OF assms(1,2), of undef d] assms(4) obtain p1 where
    p1: "ctx1 = ctx\<lparr>c_pool := p1\<rparr>" "pool_ready fuel sys ctx1" "lent p1 = add_mset (bo_key bo) (lent (c_pool ctx))" by auto
  let ?n = "(if chip_version (c_status ctx1) = 0xa1 then 217 else 216) * 216 :: u32"
  have "iaic_create_pnode fuel sys 216 undef_node ctx1 d1 = iaic_create_bo fuel sys ?n undef_node ctx1 d1"
    by (simp add: iaic_create_pnode_def Let_def)
  moreover have "0 < align_64 ?n" by (simp add: align_64_def)
  ultimately obtain p2 where "ctx2 = ctx1\<lparr>c_pool := p2\<rparr>" "lent p2 = add_mset (bo_key nb) (lent p1)"
    using create_cases [OF p1(2), of ?n undef_node d1] assms(5) p1(1) by auto
  then have l2: "lent (c_pool ctx2) = add_mset (bo_key nb) (add_mset (bo_key bo) (lent (c_pool ctx)))" by (simp add: p1(3))
  have sub: "\<exists>s d'. iaic_aip_p_chain fuel k ctx2 md 0 0 ofst pr nb 1 nm d2 = Inr (IAIC_CODE_OK, s, d')" for md ofst pr nm
  proof -
    obtain r out d' where "lib_ioctl fuel k (IOCTL_AIP_V20_SUBMIT (AIP_CH_OP_P \<lparr>p_mode = md, p_offset = ofst, p_pos_in = 0,
        p_pos_out = 0, p_node_handle = ib_handle nb, p_node_num = (if chip_version (c_status ctx2) = 0xa1 then 2 else 1),
        p_paddr = ib_paddr nb, p_param = pr, p_name = nm\<rparr>)) d2 = Inr (r, out, d')" "0 \<le> r"
      using assms(6) by blast
    then show ?thesis by (auto simp: iaic_aip_p_chain_def iaic_aip_p_chain_submit_def Let_def split: if_splits)
  qed
  have wait: "\<exists>t d'. iaic_aip_p_wait fuel k s tmo d = Inr (IAIC_CODE_OK, t, d')" for s tmo d
  proof -
    obtain r out d' where "lib_ioctl fuel k (IOCTL_AIP_V20_WAIT \<lparr>w_op = CH_P, w_seqno = s, timeout_ns = tmo, wait_time = 0\<rparr>) d = Inr (r, out, d')"
      "0 \<le> r" using assms(6) by blast
    then show ?thesis by (simp add: iaic_aip_p_wait_def iaic_aip_wait_def)
  qed
  obtain s d3 where s: "iaic_aip_p_chain fuel k ctx2 (drop_bit 8 format AND 0xf) 0 0 \<lparr>order = 0, alpha = 0, offset0 = 16, offset1 = 128\<rparr>
      (Some nv2bgr_coef) nb 1 Null_name d2 = Inr (IAIC_CODE_OK, s, d3)" using sub by blast
  obtain t d4 where t: "iaic_aip_p_wait fuel k (case s of None \<Rightarrow> junk | Some s \<Rightarrow> s) (- 1) d3 = Inr (IAIC_CODE_OK, t, d4)"
    using wait by blast
  show ?thesis using i1 i2 w assms(4,5) s t l2 by (simp add: iaic_perspective_def)
qed

theorem perspective_leaks_node_witness:
  "\<exists>bo ctx' mat m'. iaic_perspective 1 ready_kernel no_mem_sys (exact_fpu (\<lambda>_. 0)) sample_bo 16 16 16 16 IAIC_Y shear
      sample_bo sample_bo 0 sample_ctx (\<lambda>_. 0) () = Inr (bo, ctx', mat, m', ()) \<and>
    size (lent (c_pool ctx')) = size (lent (c_pool sample_ctx)) + 2"
proof -
  have sz: "0 < align_64 (256 :: u32)" "snd (snd (snd (get_img_info (if IAIC_Y = IAIC_NV12 then IAIC_BGRA else IAIC_Y) 16 16))) = 256"
    by (simp_all add: get_img_info_def iaic_formats asr_div align_64_def Let_def)
  have "\<exists>bo ctx1 nb ctx2. iaic_create_bo 1 no_mem_sys 256 sample_bo sample_ctx () = Inr (IAIC_CODE_OK, bo, ctx1, ()) \<and>
      iaic_create_pnode 1 no_mem_sys 216 sample_bo ctx1 () = Inr (IAIC_CODE_OK, nb, ctx2, ())"
    by (simp add: iaic_create_bo_def iaic_create_pnode_def sample_ctx_def started_pool_def iaic_fast_alloc_bo_def
        pool_lock_def pool_unlock_def align_64_def sample_first_def sample_rest_def no_mem_sys_def Let_def
        bo_of_block_def split_block_def)
  then obtain bo ctx1 nb ctx2 where c: "iaic_create_bo 1 no_mem_sys 256 sample_bo sample_ctx () = Inr (IAIC_CODE_OK, bo, ctx1, ())"
    "iaic_create_pnode 1 no_mem_sys 216 sample_bo ctx1 () = Inr (IAIC_CODE_OK, nb, ctx2, ())" by blast
  have k: "\<exists>r out d'. lib_ioctl 1 ready_kernel cmd d = Inr (r, out, d') \<and> 0 \<le> r" for cmd d
    by (simp add: ready_kernel_def lib_ioctl_def EINTR_def EAGAIN_def)
  from perspective_leaks_node [OF sample_ready(1) sz c k, of "exact_fpu (\<lambda>_. 0)" sample_bo 16 16 shear 0 "\<lambda>_. 0"] show ?thesis
    by fastforce
qed

end
