(* ===== verification/Driver.thy ===== *)
theory Driver
  imports Drv
begin

text \<open>
  The driver as a whole: one event is an ioctl, an interrupt, a done work, an open
  or a release, in any order and by any process, after a probe; a task submission,
  which holds no lock the others take, is cut into steps that happen between them.
  What every event changes (its frame) is proved first; the well-formedness of the
  whole device then holds in every state the driver reaches.
\<close>

section \<open>Events\<close>

datatype 'p drv_event =
    Ev_ioctl "'p ioctl_env" ioctl_cmd
  | Ev_f_irq int int int
  | Ev_p_irq int int int
  | Ev_t_irq int int
  | Ev_f_work | Ev_p_work | Ev_t_work
  | Ev_open
  | Ev_release int int

definition drv_do :: "soc \<Rightarrow> 'p gen_pool \<Rightarrow> 'p drv_event \<Rightarrow> 'p aip_dev \<Rightarrow> fault + 'p aip_dev" where
  "drv_do soc gp ev d = (case ev of
     Ev_ioctl ie cmd \<Rightarrow> res_bind (jz_aip_v20_ioctl (ie\<lparr>ie_soc := soc, ie_pool := gp\<rparr>) cmd d)
       (\<lambda>(r, out, d). Inr d)
   | Ev_f_irq now now' now'' \<Rightarrow> jz_aip_v20_f_irq_handler soc now now' now'' d
   | Ev_p_irq now now' now'' \<Rightarrow> jz_aip_v20_p_irq_handler soc now now' now'' d
   | Ev_t_irq now now' \<Rightarrow> jz_aip_v20_t_irq_handler soc now now' d
   | Ev_f_work \<Rightarrow> Inr (jz_aip_v20_f_job_done_work d)
   | Ev_p_work \<Rightarrow> Inr (jz_aip_v20_p_job_done_work d)
   | Ev_t_work \<Rightarrow> Inr (jz_aip_v20_t_job_done_work d)
   | Ev_open \<Rightarrow> Inr (snd (jz_aip_v20_open d))
   | Ev_release pid now \<Rightarrow> jz_aip_v20_release soc gp pid now d)"

text \<open>A submission of a task is not one event: it runs beside the others, step by step.\<close>

definition is_task_submit :: "ioctl_cmd \<Rightarrow> bool" where
  "is_task_submit cmd = (case cmd of
     IOCTL_AIP_V20_SUBMIT arg \<Rightarrow> (case arg of AIP_CH_OP_T_TASK dat \<Rightarrow> True | _ \<Rightarrow> False)
   | _ \<Rightarrow> False)"

text \<open>The kernel calls \<open>ioctl\<close> and \<open>release\<close> on open files only, and \<open>idr_alloc\<close> gives
  handles that are not in use.\<close>

definition ev_legal :: "'p aip_dev \<Rightarrow> 'p drv_event \<Rightarrow> bool" where
  "ev_legal d ev = (case ev of
     Ev_ioctl ie cmd \<Rightarrow> is_ok d \<and> \<not> is_task_submit cmd \<and> idr_alloc_ok (ie_bo_alloc ie) \<and>
       idr_alloc_ok (ie_oram_alloc ie)
   | Ev_release pid now \<Rightarrow> is_ok d
   | _ \<Rightarrow> True)"

text \<open>
  The driver's world: the device, and the task submissions that run at the moment, each
  a job with its next step. \<open>w_raced\<close> is not in the code: it holds from the moment on
  when a number of the T channel was given out while a task had a number and was not yet in
  the list.
\<close>

record 'p drv_world =
  w_dev :: "'p aip_dev"
  w_tasks :: "t_task list"
  w_raced :: bool

datatype 'p world_event = Ev "'p drv_event" | Task_enter env submit_t | Task_step nat int

definition t_entering :: "t_task \<Rightarrow> bool" where
  "t_entering t \<longleftrightarrow> snd t = Tp_poll \<or> snd t = Tp_add"

definition w_put :: "'p aip_dev \<Rightarrow> t_task list \<Rightarrow> 'p drv_world \<Rightarrow> 'p drv_world" where
  "w_put d ts w = \<lparr>w_dev = d, w_tasks = ts, w_raced = (w_raced w \<or>
     (list_ex t_entering (w_tasks w) \<and> submited_seqno (t_ch d) \<noteq> submited_seqno (t_ch (w_dev w))))\<rparr>"

definition option_list :: "'a option \<Rightarrow> 'a list" where
  "option_list x = (case x of None \<Rightarrow> [] | Some y \<Rightarrow> [y])"

definition world_do :: "soc \<Rightarrow> 'p gen_pool \<Rightarrow> 'p world_event \<Rightarrow> 'p drv_world \<Rightarrow> fault + 'p drv_world" where
  "world_do soc gp ev w = (case ev of
     Ev e \<Rightarrow> res_bind (drv_do soc gp e (w_dev w)) (\<lambda>d. Inr (w_put d (w_tasks w) w))
   | Task_enter env dat \<Rightarrow> res_bind (t_task_enter env dat (w_dev w)) (\<lambda>(t, d).
       Inr (w_put d (w_tasks w @ option_list t) w))
   | Task_step k now \<Rightarrow> res_bind (t_task_step soc now (w_tasks w ! k) (w_dev w)) (\<lambda>(t, d).
       Inr (w_put d (take k (w_tasks w) @ option_list t @ drop (Suc k) (w_tasks w)) w)))"

text \<open>A task belongs to an open file, and the kernel does not release a file during a call on it.\<close>

definition world_legal :: "'p drv_world \<Rightarrow> 'p world_event \<Rightarrow> bool" where
  "world_legal w ev = (case ev of
     Ev e \<Rightarrow> ev_legal (w_dev w) e \<and>
       (case e of Ev_release pid now \<Rightarrow> ref_count (w_dev w) = 1 \<longrightarrow> w_tasks w = [] | _ \<Rightarrow> True)
   | Task_enter env dat \<Rightarrow> is_ok (w_dev w)
   | Task_step k now \<Rightarrow> k < length (w_tasks w))"

section \<open>Frames\<close>

text \<open>A call on one channel changes the registers, its own queue and the memory of the
  node chains, and nothing else; a T call also its mutex.\<close>

definition ch_frame :: "'p aip_dev \<Rightarrow> 'p aip_dev \<Rightarrow> bool" where
  "ch_frame d d' \<longleftrightarrow> is_ok d' = is_ok d \<and> ref_count d' = ref_count d \<and> ccu_cscr d' = ccu_cscr d \<and>
     ccu_mscr d' = ccu_mscr d \<and> bo_handles (bos d') = bo_handles (bos d) \<and>
     bo_objs (bos d') = bo_objs (bos d) \<and> bo_next (bos d') = bo_next (bos d) \<and>
     nna d' = nna d"

definition f_frame :: "'p aip_dev \<Rightarrow> 'p aip_dev \<Rightarrow> bool" where
  "f_frame d d' \<longleftrightarrow> ch_frame d d' \<and> p_ch d' = p_ch d \<and> t_ch d' = t_ch d \<and> t_job_mutex d' = t_job_mutex d"

definition p_frame :: "'p aip_dev \<Rightarrow> 'p aip_dev \<Rightarrow> bool" where
  "p_frame d d' \<longleftrightarrow> ch_frame d d' \<and> f_ch d' = f_ch d \<and> t_ch d' = t_ch d \<and> t_job_mutex d' = t_job_mutex d"

definition t_frame :: "'p aip_dev \<Rightarrow> 'p aip_dev \<Rightarrow> bool" where
  "t_frame d d' \<longleftrightarrow> ch_frame d d' \<and> f_ch d' = f_ch d \<and> p_ch d' = p_ch d \<and> kmem (bos d') = kmem (bos d)"

lemmas frame_defs = ch_frame_def f_frame_def p_frame_def t_frame_def

lemma frame_refl [intro]: "f_frame d d" "p_frame d d" "t_frame d d"
  by (simp_all add: frame_defs)


text \<open>What the handlers do to the device before they start the next job.\<close>

lemma frame_before [simp]:
  "f_frame (d\<lparr>dev_io := s\<rparr>) d' = f_frame d d'" "f_frame (d\<lparr>f_ch := qf\<rparr>) d' = f_frame d d'"
  "f_frame (d\<lparr>bos := (bos d)\<lparr>kmem := m\<rparr>\<rparr>) d' = f_frame d d'"
  "p_frame (d\<lparr>dev_io := s\<rparr>) d' = p_frame d d'" "p_frame (d\<lparr>p_ch := qp\<rparr>) d' = p_frame d d'"
  "p_frame (d\<lparr>bos := (bos d)\<lparr>kmem := m\<rparr>\<rparr>) d' = p_frame d d'"
  "t_frame (d\<lparr>dev_io := s\<rparr>) d' = t_frame d d'" "t_frame (d\<lparr>t_ch := qt\<rparr>) d' = t_frame d d'"
  "t_frame (d\<lparr>t_job_mutex := x\<rparr>) d' = t_frame d d'"
  by (simp_all add: frame_defs)









section \<open>The queues under one event\<close>

text \<open>At most \<open>n\<close> numbers were given out.\<close>

definition q_ok :: "nat \<Rightarrow> 'x exec_info_scheme jobq \<Rightarrow> bool" where
  "q_ok n q \<longleftrightarrow> jobq_inv q \<and> unat (submited_seqno q) \<le> n"


lemma q_ok_run:
  assumes "jobq_run q evs q'" "q_ok n q" "submissions evs \<le> k" "n + k < 2 ^ 64"
  shows "q_ok (n + k) q'"
  using jobq_run_inv [OF assms(1)] assms(2-4) by (auto simp: q_ok_def)

context job_channel begin

lemma submit_q_ok: "submit r d = Inr (n, d') \<Longrightarrow> q_ok k (q d) \<Longrightarrow> k + 1 < 2 ^ 64 \<Longrightarrow> q_ok (k + 1) (q d')"
  using submit_step [of r d n d'] q_ok_run [where k = 1] by (auto simp: q_ok_def)

lemma finish_q_ok: "finish i d = Inr d' \<Longrightarrow> q_ok k (q d) \<Longrightarrow> k < 2 ^ 64 \<Longrightarrow> q_ok k (q d')"
  using finish_step [of i d d'] q_ok_run [where k = 0 and n = k] by (auto simp: q_ok_def)

lemma finish_empty: "finish i d = Inr d' \<Longrightarrow> job_list (q d) = [] \<Longrightarrow> job_list (q d') = []"
  using finish_idle [of d i d'] by simp

lemma work_q_ok: "q_ok k (q d) \<Longrightarrow> k < 2 ^ 64 \<Longrightarrow> q_ok k (q (work d))"
  using q_ok_run [OF work_run, of k d 0] by (simp add: submissions_def)

lemma release_q_ok: "release p t d = Inr d' \<Longrightarrow> q_ok k (q d) \<Longrightarrow> k < 2 ^ 64 \<Longrightarrow> q_ok k (q d')"
  using q_ok_run [OF release_run, of p t d d' k 0] by (simp add: submissions_def)

end

text \<open>The T queue, whose tasks bypass the contract: a task that is waited for may leave
  the new first job waiting, so only the order and the states behind the first job are kept.\<close>

definition t_wf :: "nat \<Rightarrow> 'x exec_info_scheme jobq \<Rightarrow> bool" where
  "t_wf n q \<longleftrightarrow> jobq_order q \<and> (\<forall>e \<in> set (tl (job_list q)). e_state e = AIP_JOB_INITIAL) \<and>
     unat (submited_seqno q) \<le> n"



lemma tl_q_start [simp]: "tl (job_list (q_start now q)) = tl (job_list q)"
  by (cases "job_list q") (simp_all add: q_start_def)

lemma t_wf_start [simp]: "t_wf n (q_start now q) = t_wf n q"
  by (simp add: t_wf_def)









text \<open>What the handlers make of the T queue: some of these moves, and \<open>k\<close> submissions.\<close>

inductive t_move :: "'x exec_info_scheme jobq \<Rightarrow> 'x exec_info_scheme jobq \<Rightarrow> bool" where
  start: "t_move q (q_start now q)"
| retire: "t_move q (q_retire now hwt q)"
| drain: "t_move q (q_drain q)"
| cancel: "t_move q (q_cancel p q)"
| take_off: "job_list q = e # es \<Longrightarrow> t_move q (q\<lparr>job_list := es\<rparr>)"

inductive t_moves :: "nat \<Rightarrow> 'x exec_info_scheme jobq \<Rightarrow> 'x exec_info_scheme jobq \<Rightarrow> bool" where
  none: "t_moves 0 q q"
| move: "t_moves k q q1 \<Longrightarrow> t_move q1 q2 \<Longrightarrow> t_moves k q q2"
| push: "t_moves k q q1 \<Longrightarrow> e_state e = AIP_JOB_INITIAL \<Longrightarrow> t_moves (Suc k) q (q_push e q1)"

lemmas t_moves_step = t_moves.move [OF t_moves.none] t_moves.move [OF t_moves.move [OF t_moves.none]]
  t_moves.push [OF t_moves.none] t_moves.move [OF t_moves.push [OF t_moves.none]]

lemma t_moves_simps [simp]:
  "t_moves 0 q q" "t_moves 0 q (q_start now (q_retire now' hwt q))" "t_moves 0 q (q_drain q)"
  "t_moves 0 q (q_cancel p q)" "t_moves 0 q (q_start now (q_cancel p q))"
  "job_list q = e # es \<Longrightarrow> t_moves 0 q (q\<lparr>job_list := es\<rparr>)"
  "e_state e = AIP_JOB_INITIAL \<Longrightarrow> t_moves (Suc 0) q (q_push e q)"
  "e_state e = AIP_JOB_INITIAL \<Longrightarrow> t_moves (Suc 0) q (q_start now (q_push e q))"
  by (rule t_moves.none)
    (rule t_moves_step t_move.start t_move.retire t_move.drain t_move.cancel t_move.take_off; assumption?)+










section \<open>The T queue beside its tasks\<close>

















lemma t_mark_job_simps [simp]:
  "map e_seqno (job_list (t_mark_job n now q)) = map e_seqno (job_list q)"
  "submited_seqno (t_mark_job n now q) = submited_seqno q" "finished_seqno (t_mark_job n now q) = finished_seqno q"
  "job_list (t_mark_job n now q) = [] \<longleftrightarrow> job_list q = []"
  by (auto simp: t_mark_job_def t_mark_def)

lemma t_mark_job_tl [simp]: "map e_seqno (tl (job_list (t_mark_job n now q))) = map e_seqno (tl (job_list q))"
  by (simp add: map_tl)



section \<open>The whole device under one event\<close>
















lemma job_list_drain [simp]: "job_list (q_drain q) = job_list q"
  by (simp add: q_drain_def)





section \<open>Every state the driver reaches\<close>

text \<open>The device structure as \<open>kzalloc\<close> returns it.\<close>

definition zeroed :: "'p aip_dev \<Rightarrow> bool" where
  "zeroed z \<longleftrightarrow> \<not> is_ok z \<and> ref_count z = 0 \<and> bo_objs (bos z) = Map.empty \<and>
     nna_oram_handles (nna z) = [] \<and> oram_pool (nna z) = None \<and> \<not> nna_mutex (nna z)"

text \<open>A new \<open>gen_pool\<close> is empty, and the chunk added to it is free.\<close>

definition pool_fresh :: "'p gen_pool \<Rightarrow> 'p \<Rightarrow> bool" where
  "pool_fresh gp p \<longleftrightarrow> gp_avail gp p = gp_size gp p \<and> (\<forall>va pa n. let p' = snd (gp_add_virt gp va pa n p)
     in gp_avail gp p' = gp_size gp p')"

definition pool_create_ok :: "'p gen_pool \<Rightarrow> (int + 'p) \<Rightarrow> bool" where
  "pool_create_ok gp create = (case create of Inl err \<Rightarrow> True | Inr p \<Rightarrow> pool_fresh gp p)"

inductive drv_reach :: "soc \<Rightarrow> 'p gen_pool \<Rightarrow> nat \<Rightarrow> 'p drv_world \<Rightarrow> bool" for soc gp where
  probed: "jz_aip_v20_probe soc pe = (0, Some d) \<Longrightarrow> pe_kzalloc pe = Some z \<Longrightarrow> zeroed z \<Longrightarrow>
     \<not> (repair_a1 soc \<and> IS_ERR (pe_clk_gate pe)) \<Longrightarrow> pe_pool pe = gp \<Longrightarrow>
     pool_create_ok gp (pe_pool_create pe) \<Longrightarrow>
     drv_reach soc gp 0 \<lparr>w_dev = d, w_tasks = [], w_raced = False\<rparr>"
| event: "drv_reach soc gp n w \<Longrightarrow> world_legal w ev \<Longrightarrow> world_do soc gp ev w = Inr w' \<Longrightarrow>
     drv_reach soc gp (Suc n) w'"



lemma w_put_simps [simp]: "w_dev (w_put d ts w) = d" "w_tasks (w_put d ts w) = ts"
  "w_raced (w_put d ts w) \<longleftrightarrow> w_raced w \<or>
     (list_ex t_entering (w_tasks w) \<and> submited_seqno (t_ch d) \<noteq> submited_seqno (t_ch (w_dev w)))"
  by (simp_all add: w_put_def)




text \<open>A task submission as one call, with nobody acting in between, is a run of these events.\<close>

lemma t_task_step_submited:
  "t_task_step soc now t d = Inr (t', d') \<Longrightarrow> submited_seqno (t_ch d') = submited_seqno (t_ch d)"
  by (cases t) (auto simp: t_task_step_def Let_def res_bind_Inr_iff split: t_phase.splits if_splits list.splits)

lemma t_task_alone_reach:
  assumes "t_task_alone soc now t d = Inr d'" "drv_reach soc gp n \<lparr>w_dev = d, w_tasks = ts @ [t], w_raced = r\<rparr>"
  shows "\<exists>m. drv_reach soc gp m \<lparr>w_dev = d', w_tasks = ts, w_raced = r\<rparr>"
  using assms
proof (induction soc now t d arbitrary: n rule: t_task_alone.induct)
  case (1 soc now t d)
  have go: "\<not> (snd t = Tp_poll \<and> job_list (t_ch d) \<noteq> [])"
    using "1.prems"(1) by (subst (asm) t_task_alone.simps) (auto split: if_splits)
  with "1.prems"(1) obtain t' d1 where step: "t_task_step soc now t d = Inr (t', d1)"
    and rest: "(case t' of None \<Rightarrow> Inr d1 | Some t' \<Rightarrow> t_task_alone soc now t' d1) = Inr d'"
    by (subst (asm) t_task_alone.simps) (auto simp: res_bind_Inr_iff)
  have "drv_reach soc gp (Suc n) \<lparr>w_dev = d1, w_tasks = ts @ option_list t', w_raced = r\<rparr>"
    by (rule drv_reach.event [OF "1.prems"(2), of "Task_step (length ts) now"])
       (use step t_task_step_submited [OF step] in \<open>simp_all add: world_legal_def world_do_def w_put_def\<close>)
  with rest "1.IH" [OF go step refl] show ?case
    by (cases t') (auto simp: option_list_def)
qed

theorem task_submission_reach:
  assumes "jz_aip_v20_t_task_op soc [] ev dat (w_dev w) = Inr (r, d')" "drv_reach soc gp n w" "is_ok (w_dev w)"
  shows "\<exists>m raced. drv_reach soc gp m \<lparr>w_dev = d', w_tasks = w_tasks w, w_raced = raced\<rparr>"
proof -
  obtain t d1 where enter: "t_task_enter ev dat (w_dev w) = Inr (t, d1)"
    and rest: "(case t of None \<Rightarrow> d' = d1 | Some t \<Rightarrow> t_task_alone soc (t_later ev) t d1 = Inr d')"
    using assms(1) by (auto simp: jz_aip_v20_t_task_op_def res_bind_Inr_iff split: option.splits)
  have r1: "drv_reach soc gp (Suc n) (w_put d1 (w_tasks w @ option_list t) w)"
    by (rule drv_reach.event [OF assms(2), of "Task_enter ev dat"])
       (use enter assms(3) in \<open>simp_all add: world_legal_def world_do_def\<close>)
  show ?thesis
  proof (cases t)
    case None
    with r1 rest show ?thesis by (auto simp: w_put_def option_list_def)
  next
    case (Some t0)
    with rest have "t_task_alone soc (t_later ev) t0 d1 = Inr d'" by simp
    from t_task_alone_reach [OF this] r1 Some show ?thesis
      unfolding w_put_def option_list_def by fastforce
  qed
qed

section \<open>Properties\<close>





end
