(* ===== verification/HalRegs.thy ===== *)
theory HalRegs
  imports Regs
begin

text \<open>
  The register offsets of the previous generation's user-space library,
  \<open>aip/aip_t41/src/jz_aip_hal.h\<close>, with the offset of the engine's block added in. The
  blocks are the ones of \<open>Regs\<close>, under other names.
\<close>

named_theorems hal_regs "register offsets of the previous generation"

definition JZ_AIP_IOBASE :: u32 where [hal_regs]: "JZ_AIP_IOBASE = 0x12b00000"

definition AIP_P_CTRL :: u32 where [hal_regs]: "AIP_P_CTRL = 0x300"
definition AIP_P_CFG :: u32 where [hal_regs]: "AIP_P_CFG = 0x308"
definition AIP_P_TIMEOUT :: u32 where [hal_regs]: "AIP_P_TIMEOUT = 0x30c"
definition AIP_P_MODE :: u32 where [hal_regs]: "AIP_P_MODE = 0x310"
definition AIP_P_SRC_Y_BASE :: u32 where [hal_regs]: "AIP_P_SRC_Y_BASE = 0x314"
definition AIP_P_SRC_UV_BASE :: u32 where [hal_regs]: "AIP_P_SRC_UV_BASE = 0x318"
definition AIP_P_SRC_STRIDE :: u32 where [hal_regs]: "AIP_P_SRC_STRIDE = 0x31c"
definition AIP_P_DST_BASE :: u32 where [hal_regs]: "AIP_P_DST_BASE = 0x320"
definition AIP_P_DST_STRIDE :: u32 where [hal_regs]: "AIP_P_DST_STRIDE = 0x324"
definition AIP_P_DST_SIZE :: u32 where [hal_regs]: "AIP_P_DST_SIZE = 0x328"
definition AIP_P_SRC_SIZE :: u32 where [hal_regs]: "AIP_P_SRC_SIZE = 0x32c"
definition AIP_P_DUMMY_VAL :: u32 where [hal_regs]: "AIP_P_DUMMY_VAL = 0x330"
definition AIP_P_COEF0 :: u32 where [hal_regs]: "AIP_P_COEF0 = 0x334"
definition AIP_P_COEF1 :: u32 where [hal_regs]: "AIP_P_COEF1 = 0x338"
definition AIP_P_COEF2 :: u32 where [hal_regs]: "AIP_P_COEF2 = 0x33c"
definition AIP_P_COEF3 :: u32 where [hal_regs]: "AIP_P_COEF3 = 0x340"
definition AIP_P_COEF4 :: u32 where [hal_regs]: "AIP_P_COEF4 = 0x344"
definition AIP_P_COEF5 :: u32 where [hal_regs]: "AIP_P_COEF5 = 0x348"
definition AIP_P_COEF6 :: u32 where [hal_regs]: "AIP_P_COEF6 = 0x34c"
definition AIP_P_COEF7 :: u32 where [hal_regs]: "AIP_P_COEF7 = 0x350"
definition AIP_P_COEF8 :: u32 where [hal_regs]: "AIP_P_COEF8 = 0x354"
definition AIP_P_COEF9 :: u32 where [hal_regs]: "AIP_P_COEF9 = 0x358"
definition AIP_P_COEF10 :: u32 where [hal_regs]: "AIP_P_COEF10 = 0x35c"
definition AIP_P_COEF11 :: u32 where [hal_regs]: "AIP_P_COEF11 = 0x360"
definition AIP_P_COEF12 :: u32 where [hal_regs]: "AIP_P_COEF12 = 0x364"
definition AIP_P_COEF13 :: u32 where [hal_regs]: "AIP_P_COEF13 = 0x368"
definition AIP_P_COEF14 :: u32 where [hal_regs]: "AIP_P_COEF14 = 0x36c"
definition AIP_P_PARAM0 :: u32 where [hal_regs]: "AIP_P_PARAM0 = 0x370"
definition AIP_P_PARAM1 :: u32 where [hal_regs]: "AIP_P_PARAM1 = 0x374"
definition AIP_P_PARAM2 :: u32 where [hal_regs]: "AIP_P_PARAM2 = 0x378"
definition AIP_P_PARAM3 :: u32 where [hal_regs]: "AIP_P_PARAM3 = 0x37c"
definition AIP_P_PARAM4 :: u32 where [hal_regs]: "AIP_P_PARAM4 = 0x380"
definition AIP_P_PARAM5 :: u32 where [hal_regs]: "AIP_P_PARAM5 = 0x384"
definition AIP_P_PARAM6 :: u32 where [hal_regs]: "AIP_P_PARAM6 = 0x388"
definition AIP_P_PARAM7 :: u32 where [hal_regs]: "AIP_P_PARAM7 = 0x38c"
definition AIP_P_PARAM8 :: u32 where [hal_regs]: "AIP_P_PARAM8 = 0x390"
definition AIP_P_OFFSET :: u32 where [hal_regs]: "AIP_P_OFFSET = 0x394"
definition AIP_P_CHAIN_BASE :: u32 where [hal_regs]: "AIP_P_CHAIN_BASE = 0x398"
definition AIP_P_CHAIN_SIZE :: u32 where [hal_regs]: "AIP_P_CHAIN_SIZE = 0x39c"
definition AIP_T_CTRL :: u32 where [hal_regs]: "AIP_T_CTRL = 0x0"
definition AIP_T_CFG :: u32 where [hal_regs]: "AIP_T_CFG = 0x8"
definition AIP_T_TIMEOUT :: u32 where [hal_regs]: "AIP_T_TIMEOUT = 0xc"
definition AIP_T_TASK_LEN :: u32 where [hal_regs]: "AIP_T_TASK_LEN = 0x10"
definition AIP_T_SRC_Y_BASE :: u32 where [hal_regs]: "AIP_T_SRC_Y_BASE = 0x14"
definition AIP_T_SRC_UV_BASE :: u32 where [hal_regs]: "AIP_T_SRC_UV_BASE = 0x18"
definition AIP_T_DST_BASE :: u32 where [hal_regs]: "AIP_T_DST_BASE = 0x1c"
definition AIP_T_STRIDE :: u32 where [hal_regs]: "AIP_T_STRIDE = 0x20"
definition AIP_T_SRC_SIZE :: u32 where [hal_regs]: "AIP_T_SRC_SIZE = 0x24"
definition AIP_T_PARAM0 :: u32 where [hal_regs]: "AIP_T_PARAM0 = 0x28"
definition AIP_T_PARAM1 :: u32 where [hal_regs]: "AIP_T_PARAM1 = 0x2c"
definition AIP_T_PARAM2 :: u32 where [hal_regs]: "AIP_T_PARAM2 = 0x30"
definition AIP_T_PARAM3 :: u32 where [hal_regs]: "AIP_T_PARAM3 = 0x34"
definition AIP_T_PARAM4 :: u32 where [hal_regs]: "AIP_T_PARAM4 = 0x38"
definition AIP_T_PARAM5 :: u32 where [hal_regs]: "AIP_T_PARAM5 = 0x3c"
definition AIP_T_PARAM6 :: u32 where [hal_regs]: "AIP_T_PARAM6 = 0x40"
definition AIP_T_PARAM7 :: u32 where [hal_regs]: "AIP_T_PARAM7 = 0x44"
definition AIP_T_PARAM8 :: u32 where [hal_regs]: "AIP_T_PARAM8 = 0x48"
definition AIP_T_OFFSET :: u32 where [hal_regs]: "AIP_T_OFFSET = 0x4c"
definition AIP_F_CTRL :: u32 where [hal_regs]: "AIP_F_CTRL = 0x200"
definition AIP_F_CFG :: u32 where [hal_regs]: "AIP_F_CFG = 0x208"
definition AIP_F_TIMEOUT :: u32 where [hal_regs]: "AIP_F_TIMEOUT = 0x20c"
definition AIP_F_SCALE_X :: u32 where [hal_regs]: "AIP_F_SCALE_X = 0x210"
definition AIP_F_SCALE_Y :: u32 where [hal_regs]: "AIP_F_SCALE_Y = 0x214"
definition AIP_F_TRANS_X :: u32 where [hal_regs]: "AIP_F_TRANS_X = 0x218"
definition AIP_F_TRANS_Y :: u32 where [hal_regs]: "AIP_F_TRANS_Y = 0x21c"
definition AIP_F_SRC_Y_BASE :: u32 where [hal_regs]: "AIP_F_SRC_Y_BASE = 0x220"
definition AIP_F_SRC_UV_BASE :: u32 where [hal_regs]: "AIP_F_SRC_UV_BASE = 0x224"
definition AIP_F_DST_Y_BASE :: u32 where [hal_regs]: "AIP_F_DST_Y_BASE = 0x228"
definition AIP_F_DST_UV_BASE :: u32 where [hal_regs]: "AIP_F_DST_UV_BASE = 0x22c"
definition AIP_F_SRC_SIZE :: u32 where [hal_regs]: "AIP_F_SRC_SIZE = 0x230"
definition AIP_F_DST_SIZE :: u32 where [hal_regs]: "AIP_F_DST_SIZE = 0x234"
definition AIP_F_STRIDE :: u32 where [hal_regs]: "AIP_F_STRIDE = 0x238"
definition AIP_F_CHAIN_BASE :: u32 where [hal_regs]: "AIP_F_CHAIN_BASE = 0x23c"
definition AIP_F_CHAIN_SIZE :: u32 where [hal_regs]: "AIP_F_CHAIN_SIZE = 0x240"

end
