(* ===== verification/HalNodes.thy ===== *)
theory HalNodes
  imports Drv HalRegs
begin

text \<open>
  The node chains of the previous generation's user-space library,
  \<open>aip/aip_t41/src/jz_aip_hal.c\<close>: a job with one node is written to the registers, a job
  with more is written to memory as a chain of (value, register) pairs for the
  engine to read. The descriptors \<open>struct aip_p_chaindesc\<close> and
  \<open>struct aip_f_chaindesc\<close> have the fields of the nodes of \<open>PChannel\<close> and \<open>FChannel\<close>, in
  the same order; the members of the nodes that are never read (\<open>p_ctrl\<close>, \<open>f_ctrl\<close>,
  \<open>task_len\<close>, \<open>task_skip_base\<close>) are left out. Both ways program the same registers, and the chains are the ones the
  kernel driver of \<open>drive/\<close> would make of the same values.
\<close>

section \<open>Nodes\<close>

record aip_p_chainnode =
  hp_mode :: u32
  hp_src_base_y :: u32
  hp_src_base_uv :: u32
  hp_src_stride :: u32
  hp_dst_base :: u32
  hp_dst_stride :: u32
  hp_dst_width :: "16 word"
  hp_dst_height :: "16 word"
  hp_src_width :: "16 word"
  hp_src_height :: "16 word"
  hp_dummy_val :: u32
  hp_coef_parm :: "nat \<Rightarrow> u32"
  hp_offset :: u32

record aip_t_chainnode =
  ht_src_base_y :: u32
  ht_src_base_uv :: u32
  ht_dst_base :: u32
  ht_src_width :: "16 word"
  ht_src_height :: "16 word"
  ht_src_stride :: "16 word"
  ht_dst_stride :: "16 word"
  ht_t_ctrl :: u32

record aip_f_chainnode =
  hf_scale_x :: u32
  hf_scale_y :: u32
  hf_trans_x :: u32
  hf_trans_y :: u32
  hf_src_base_y :: u32
  hf_src_base_uv :: u32
  hf_dst_base_y :: u32
  hf_dst_base_uv :: u32
  hf_src_width :: "16 word"
  hf_src_height :: "16 word"
  hf_dst_width :: "16 word"
  hf_dst_height :: "16 word"
  hf_dst_stride :: "16 word"
  hf_src_stride :: "16 word"

text \<open>\<open>h << 16 | w\<close> of two 16-bit fields, as an \<open>int\<close>.\<close>

definition hw16 :: "16 word \<Rightarrow> 16 word \<Rightarrow> u32" where
  "hw16 h w = push_bit 16 (ucast h) OR ucast w"

section \<open>Registers and descriptors\<close>

text \<open>The two branches of \<open>aip_p_config_nodes\<close> and \<open>aip_f_config_nodes\<close> for one node:
  the register writes, and the pairs of words of the descriptor.\<close>

definition aip_p_reg_writes :: "aip_p_chainnode \<Rightarrow> (u32 \<times> u32) list" where
  "aip_p_reg_writes n =
     [(AIP_P_TIMEOUT, 0xffffffff),
      (AIP_P_MODE, hp_mode n),
      (AIP_P_SRC_Y_BASE, hp_src_base_y n),
      (AIP_P_SRC_UV_BASE, hp_src_base_uv n),
      (AIP_P_SRC_STRIDE, hp_src_stride n),
      (AIP_P_DST_BASE, hp_dst_base n),
      (AIP_P_DST_STRIDE, hp_dst_stride n),
      (AIP_P_DST_SIZE, hw16 (hp_dst_height n) (hp_dst_width n)),
      (AIP_P_SRC_SIZE, hw16 (hp_src_height n) (hp_src_width n)),
      (AIP_P_DUMMY_VAL, hp_dummy_val n),
      (AIP_P_COEF0, hp_coef_parm n 0),
      (AIP_P_COEF1, hp_coef_parm n 1),
      (AIP_P_COEF2, hp_coef_parm n 2),
      (AIP_P_COEF3, hp_coef_parm n 3),
      (AIP_P_COEF4, hp_coef_parm n 4),
      (AIP_P_COEF5, hp_coef_parm n 5),
      (AIP_P_COEF6, hp_coef_parm n 6),
      (AIP_P_COEF7, hp_coef_parm n 7),
      (AIP_P_COEF8, hp_coef_parm n 8),
      (AIP_P_COEF9, hp_coef_parm n 9),
      (AIP_P_COEF10, hp_coef_parm n 10),
      (AIP_P_COEF11, hp_coef_parm n 11),
      (AIP_P_COEF12, hp_coef_parm n 12),
      (AIP_P_COEF13, hp_coef_parm n 13),
      (AIP_P_COEF14, hp_coef_parm n 14),
      (AIP_P_OFFSET, hp_offset n)]"

definition aip_p_chaindesc :: "aip_p_chainnode \<Rightarrow> (p_node_field \<times> u32 \<times> u32) list" where
  "aip_p_chaindesc n =
     [(Np_timeout, 0xffffffff, JZ_AIP_IOBASE + AIP_P_TIMEOUT),
      (Np_mode, hp_mode n, JZ_AIP_IOBASE + AIP_P_MODE),
      (Np_src_base_y, hp_src_base_y n, JZ_AIP_IOBASE + AIP_P_SRC_Y_BASE),
      (Np_src_base_uv, hp_src_base_uv n, JZ_AIP_IOBASE + AIP_P_SRC_UV_BASE),
      (Np_src_stride, hp_src_stride n, JZ_AIP_IOBASE + AIP_P_SRC_STRIDE),
      (Np_dst_base, hp_dst_base n, JZ_AIP_IOBASE + AIP_P_DST_BASE),
      (Np_dst_stride, hp_dst_stride n, JZ_AIP_IOBASE + AIP_P_DST_STRIDE),
      (Np_dst_size, hw16 (hp_dst_height n) (hp_dst_width n), JZ_AIP_IOBASE + AIP_P_DST_SIZE),
      (Np_src_size, hw16 (hp_src_height n) (hp_src_width n), JZ_AIP_IOBASE + AIP_P_SRC_SIZE),
      (Np_dummy_val, hp_dummy_val n, JZ_AIP_IOBASE + AIP_P_DUMMY_VAL),
      (Np_coef0, hp_coef_parm n 0, JZ_AIP_IOBASE + AIP_P_COEF0),
      (Np_coef1, hp_coef_parm n 1, JZ_AIP_IOBASE + AIP_P_COEF1),
      (Np_coef2, hp_coef_parm n 2, JZ_AIP_IOBASE + AIP_P_COEF2),
      (Np_coef3, hp_coef_parm n 3, JZ_AIP_IOBASE + AIP_P_COEF3),
      (Np_coef4, hp_coef_parm n 4, JZ_AIP_IOBASE + AIP_P_COEF4),
      (Np_coef5, hp_coef_parm n 5, JZ_AIP_IOBASE + AIP_P_COEF5),
      (Np_coef6, hp_coef_parm n 6, JZ_AIP_IOBASE + AIP_P_COEF6),
      (Np_coef7, hp_coef_parm n 7, JZ_AIP_IOBASE + AIP_P_COEF7),
      (Np_coef8, hp_coef_parm n 8, JZ_AIP_IOBASE + AIP_P_COEF8),
      (Np_coef9, hp_coef_parm n 9, JZ_AIP_IOBASE + AIP_P_COEF9),
      (Np_coef10, hp_coef_parm n 10, JZ_AIP_IOBASE + AIP_P_COEF10),
      (Np_coef11, hp_coef_parm n 11, JZ_AIP_IOBASE + AIP_P_COEF11),
      (Np_coef12, hp_coef_parm n 12, JZ_AIP_IOBASE + AIP_P_COEF12),
      (Np_coef13, hp_coef_parm n 13, JZ_AIP_IOBASE + AIP_P_COEF13),
      (Np_coef14, hp_coef_parm n 14, JZ_AIP_IOBASE + AIP_P_COEF14),
      (Np_offset, hp_offset n, JZ_AIP_IOBASE + AIP_P_OFFSET),
      (Np_p_ctrl, 1, (JZ_AIP_IOBASE + AIP_P_CTRL) OR push_bit 31 1)]"

definition aip_f_reg_writes :: "aip_f_chainnode \<Rightarrow> (u32 \<times> u32) list" where
  "aip_f_reg_writes n =
     [(AIP_F_TIMEOUT, 0xffffffff),
      (AIP_F_SCALE_X, hf_scale_x n),
      (AIP_F_SCALE_Y, hf_scale_y n),
      (AIP_F_TRANS_X, hf_trans_x n + 16),
      (AIP_F_TRANS_Y, hf_trans_y n + 16),
      (AIP_F_SRC_Y_BASE, hf_src_base_y n),
      (AIP_F_SRC_UV_BASE, hf_src_base_uv n),
      (AIP_F_DST_Y_BASE, hf_dst_base_y n),
      (AIP_F_DST_UV_BASE, hf_dst_base_uv n),
      (AIP_F_SRC_SIZE, hw16 (hf_src_height n) (hf_src_width n)),
      (AIP_F_DST_SIZE, hw16 (hf_dst_height n) (hf_dst_width n)),
      (AIP_F_STRIDE, hw16 (hf_dst_stride n) (hf_src_stride n))]"

definition aip_f_chaindesc :: "aip_f_chainnode \<Rightarrow> (f_node_field \<times> u32 \<times> u32) list" where
  "aip_f_chaindesc n =
     [(Nf_timeout, 0xffffffff, JZ_AIP_IOBASE + AIP_F_TIMEOUT),
      (Nf_scale_x, hf_scale_x n, JZ_AIP_IOBASE + AIP_F_SCALE_X),
      (Nf_scale_y, hf_scale_y n, JZ_AIP_IOBASE + AIP_F_SCALE_Y),
      (Nf_trans_x, hf_trans_x n + 16, JZ_AIP_IOBASE + AIP_F_TRANS_X),
      (Nf_trans_y, hf_trans_y n + 16, JZ_AIP_IOBASE + AIP_F_TRANS_Y),
      (Nf_src_base_y, hf_src_base_y n, JZ_AIP_IOBASE + AIP_F_SRC_Y_BASE),
      (Nf_src_base_uv, hf_src_base_uv n, JZ_AIP_IOBASE + AIP_F_SRC_UV_BASE),
      (Nf_dst_base_y, hf_dst_base_y n, JZ_AIP_IOBASE + AIP_F_DST_Y_BASE),
      (Nf_dst_base_uv, hf_dst_base_uv n, JZ_AIP_IOBASE + AIP_F_DST_UV_BASE),
      (Nf_src_size, hw16 (hf_src_height n) (hf_src_width n), JZ_AIP_IOBASE + AIP_F_SRC_SIZE),
      (Nf_dst_size, hw16 (hf_dst_height n) (hf_dst_width n), JZ_AIP_IOBASE + AIP_F_DST_SIZE),
      (Nf_stride, hw16 (hf_dst_stride n) (hf_src_stride n), JZ_AIP_IOBASE + AIP_F_STRIDE),
      (Nf_f_ctrl, 1, (JZ_AIP_IOBASE + AIP_F_CTRL) OR push_bit 31 1)]"

text \<open>\<open>aip_t_config_nodes\<close>: the registers only; its chain branch is never taken
  (\<open>aip_t_init\<close> passes the count 0).\<close>

definition aip_t_reg_writes :: "aip_t_chainnode \<Rightarrow> (u32 \<times> u32) list" where
  "aip_t_reg_writes n =
     [(AIP_T_TIMEOUT, 0xffffffff),
      (AIP_T_SRC_Y_BASE, ht_src_base_y n),
      (AIP_T_SRC_UV_BASE, ht_src_base_uv n),
      (AIP_T_DST_BASE, ht_dst_base n),
      (AIP_T_SRC_SIZE, hw16 (ht_src_height n) (ht_src_width n)),
      (AIP_T_STRIDE, hw16 (ht_dst_stride n) (ht_src_stride n)),
      (AIP_T_SRC_Y_BASE, ht_src_base_y n)]"

text \<open>The words of one descriptor: \<open>memset\<close>, then the pairs in order.\<close>

definition desc_words :: "('f \<Rightarrow> nat) \<Rightarrow> nat \<Rightarrow> ('f \<times> u32 \<times> u32) list \<Rightarrow> (nat \<times> u32) list" where
  "desc_words ix w ds = map (\<lambda>k. (k, 0)) [0 ..< w] @
     concat (map (\<lambda>(f, v, a). [(2 * ix f, v), (2 * ix f + 1, a)]) ds)"

text \<open>The chain of a job: one descriptor for each node. \<open>nodes\<close> has \<open>chain_num\<close> nodes.\<close>

definition hal_chain :: "('n \<Rightarrow> (nat \<times> u32) list) \<Rightarrow> nat \<Rightarrow> 'n list \<Rightarrow> (nat \<times> u32) list" where
  "hal_chain words w nodes = concat (map (\<lambda>i. node_words w (words (nodes ! i)) i) [0 ..< length nodes])"

definition aip_p_config_nodes :: "soc \<Rightarrow> u32 \<Rightarrow> aip_p_chainnode list \<Rightarrow> u32 \<Rightarrow> io \<times> mem \<Rightarrow> io \<times> mem" where
  "aip_p_config_nodes soc vaddr nodes chain_num = (\<lambda>(s, m).
     if chain_num = 0 then (writel_all soc (aip_p_reg_writes (nodes ! 0)) s, m)
     else (s, store_words vaddr (hal_chain (desc_words p_field_ix 54 \<circ> aip_p_chaindesc) 54
                (take (unat chain_num) nodes)) m))"

definition aip_f_config_nodes :: "soc \<Rightarrow> u32 \<Rightarrow> aip_f_chainnode list \<Rightarrow> u32 \<Rightarrow> io \<times> mem \<Rightarrow> io \<times> mem" where
  "aip_f_config_nodes soc vaddr nodes chain_num = (\<lambda>(s, m).
     if chain_num = 0 then (writel_all soc (aip_f_reg_writes (nodes ! 0)) s, m)
     else (s, store_words vaddr (hal_chain (desc_words f_field_ix 26 \<circ> aip_f_chaindesc) 26
                (take (unat chain_num) nodes)) m))"

section \<open>What a chain holds\<close>

text \<open>What the engine reads from node \<open>i\<close>: for every pair the register's address and its value.\<close>

definition chain_pairs :: "u32 \<Rightarrow> nat \<Rightarrow> nat \<Rightarrow> mem \<Rightarrow> (u32 \<times> u32) list" where
  "chain_pairs base w i m = map (\<lambda>k. (load32 m (word_at base (w * i + (2 * k + 1))),
     load32 m (word_at base (w * i + 2 * k)))) [0 ..< w div 2]"

lemma map_of_hal_chain:
  assumes "\<forall>x \<in> set nodes. \<forall>(k', v) \<in> set (words x). k' < w" "k < w"
  shows "map_of (rev (hal_chain words w nodes)) (w * i + k) =
    (if i < length nodes then map_of (rev (words (nodes ! i))) k else None)"
  using assms(1)
proof (induction nodes rule: rev_induct)
  case (snoc x xs)
  have chain: "hal_chain words w (xs @ [x]) = hal_chain words w xs @ node_words w (words x) (length xs)"
    by (auto simp: hal_chain_def nth_append intro!: arg_cong [where f = concat])
  have "\<forall>(k', v) \<in> set (rev (words x)). k' < w" using snoc.prems by simp
  from map_of_node_words [OF this assms(2), of "length xs" i] snoc
  show ?case by (auto simp: chain rev_node_words map_add_def nth_append split: option.splits)
qed (simp add: hal_chain_def)

lemma hal_chain_bound:
  assumes "\<forall>x \<in> set nodes. \<forall>(k, v) \<in> set (words x). k < w"
  shows "\<forall>(k, v) \<in> set (hal_chain words w nodes). k < w * length nodes"
proof -
  have "w * i + k < w * length nodes" if "i < length nodes" "(k, v) \<in> set (words (nodes ! i))" for i k v
  proof -
    have "k < w" using assms that by (auto dest: nth_mem)
    moreover have "w * Suc i \<le> w * length nodes" using that(1) by (intro mult_le_mono2) simp
    ultimately show ?thesis by simp
  qed
  then show ?thesis by (auto simp: hal_chain_def node_words_def)
qed

text \<open>The keys of a descriptor's pairs.\<close>

definition pairs_of :: "('f \<Rightarrow> nat) \<Rightarrow> ('f \<times> u32 \<times> u32) list \<Rightarrow> (nat \<times> u32) list" where
  "pairs_of ix ds = concat (map (\<lambda>(f, v, a). [(2 * ix f, v), (2 * ix f + 1, a)]) ds)"

lemma pairs_of_keys: "k \<in> fst ` set (pairs_of ix ds) \<longleftrightarrow> k div 2 \<in> (ix \<circ> fst) ` set ds"
proof (induction ds)
  case (Cons d ds)
  obtain f v a where "d = (f, v, a)" by (cases d)
  then have "k \<in> fst ` set (pairs_of ix (d # ds)) \<longleftrightarrow> k = 2 * ix f \<or> k = Suc (2 * ix f) \<or>
      k \<in> fst ` set (pairs_of ix ds)" by (simp add: pairs_of_def)
  moreover have "k = 2 * x \<or> k = Suc (2 * x) \<longleftrightarrow> k div 2 = x" for x by presburger
  ultimately show ?case using Cons \<open>d = _\<close> by auto
qed (simp add: pairs_of_def)

lemma pairs_of_distinct: "distinct (map (ix \<circ> fst) ds) \<Longrightarrow> distinct (map fst (pairs_of ix ds))"
proof (induction ds)
  case (Cons d ds)
  obtain f v a where d: "d = (f, v, a)" by (cases d)
  have "k \<notin> fst ` set (pairs_of ix ds)" if "k div 2 = ix f" for k
    using Cons.prems that by (auto simp: pairs_of_keys d)
  from this [of "2 * ix f"] this [of "Suc (2 * ix f)"] Cons show ?case
    by (simp add: d pairs_of_def)
qed (simp add: pairs_of_def)

lemma map_of_rev_distinct: "distinct (map fst xs) \<Longrightarrow> map_of (rev xs) = map_of xs"
  by (rule ext) (metis map_of_eq_None_iff map_of_eq_Some_iff not_Some_eq rev_map distinct_rev set_rev)

text \<open>A descriptor that has every field once: its words are those of its pairs.\<close>

definition desc_ok :: "('f \<Rightarrow> nat) \<Rightarrow> nat \<Rightarrow> ('f \<times> u32 \<times> u32) list \<Rightarrow> bool" where
  "desc_ok ix w ds \<longleftrightarrow> map (ix \<circ> fst) ds = [0 ..< w div 2] \<and> even w"

lemma desc_lookup:
  assumes "desc_ok ix w ds" "k < w div 2"
  shows "map_of (rev (desc_words ix w ds)) (2 * k) = Some (fst (snd (ds ! k)))"
    "map_of (rev (desc_words ix w ds)) (Suc (2 * k)) = Some (snd (snd (ds ! k)))"
proof -
  have dist: "distinct (map (ix \<circ> fst) ds)" and len: "k < length ds"
    using assms by (auto simp: desc_ok_def dest: arg_cong [where f = length])
  have ix: "ix (fst (ds ! k)) = k"
    using assms len nth_map [OF len, of "ix \<circ> fst"] by (simp add: desc_ok_def)
  obtain f v a where d: "ds ! k = (f, v, a)" by (cases "ds ! k")
  then have "(f, v, a) \<in> set ds" using nth_mem [OF len] by simp
  then have mem: "(2 * k, v) \<in> set (pairs_of ix ds)" "(Suc (2 * k), a) \<in> set (pairs_of ix ds)"
    using ix d by (force simp: pairs_of_def)+
  have "map_of (rev (desc_words ix w ds)) = map_of (rev (map (\<lambda>k. (k, 0)) [0 ..< w])) ++ map_of (pairs_of ix ds)"
    using map_of_rev_distinct [OF pairs_of_distinct [OF dist]]
    by (simp add: desc_words_def pairs_of_def)
  with mem pairs_of_distinct [OF dist] show
    "map_of (rev (desc_words ix w ds)) (2 * k) = Some (fst (snd (ds ! k)))"
    "map_of (rev (desc_words ix w ds)) (Suc (2 * k)) = Some (snd (snd (ds ! k)))"
    by (simp_all add: d map_add_Some_iff)
qed

lemma desc_bound:
  assumes "desc_ok ix w ds"
  shows "\<forall>(k, v) \<in> set (desc_words ix w ds). k < w"
proof -
  have "k < w" if "k \<in> fst ` set (pairs_of ix ds)" for k
  proof -
    have "set (map (ix \<circ> fst) ds) = {0 ..< w div 2}" using assms by (simp add: desc_ok_def)
    with that have "k div 2 < w div 2" by (auto simp: pairs_of_keys)
    then show ?thesis using assms by (auto simp: desc_ok_def elim: evenE)
  qed
  then show ?thesis by (fastforce simp: desc_words_def pairs_of_def)
qed

text \<open>So what the engine reads from a node of a chain in memory is its descriptor.\<close>

lemma chain_load:
  assumes "\<forall>x \<in> set nodes. desc_ok ix w (desc x)" "w * length nodes \<le> 2 ^ 30" "i < length nodes" "k < w div 2"
  shows "load32 (store_words base (hal_chain (desc_words ix w \<circ> desc) w nodes) m) (word_at base (w * i + 2 * k)) =
      fst (snd (desc (nodes ! i) ! k))"
    "load32 (store_words base (hal_chain (desc_words ix w \<circ> desc) w nodes) m) (word_at base (w * i + Suc (2 * k))) =
      snd (snd (desc (nodes ! i) ! k))"
proof -
  let ?ws = "hal_chain (desc_words ix w \<circ> desc) w nodes"
  have b: "\<forall>x \<in> set nodes. \<forall>(k, v) \<in> set ((desc_words ix w \<circ> desc) x). k < w"
    using assms(1) desc_bound by (metis comp_apply)
  have all: "\<forall>(k, v) \<in> set ?ws. k < 2 ^ 30" using hal_chain_bound [OF b] assms(2) by fastforce
  have "w * Suc i \<le> w * length nodes" using assms(3) by (intro mult_le_mono2) simp
  then have lt: "w * i + 2 * k < 2 ^ 30" "w * i + Suc (2 * k) < 2 ^ 30" and kw: "2 * k < w" "Suc (2 * k) < w"
    using assms(2,4) by auto
  have d: "desc_ok ix w (desc (nodes ! i))" using assms(1,3) by simp
  show "load32 (store_words base ?ws m) (word_at base (w * i + 2 * k)) = fst (snd (desc (nodes ! i) ! k))"
    using load32_store_words [OF all lt(1)] map_of_hal_chain [OF b kw(1), of i] desc_lookup(1) [OF d assms(4)] assms(3)
    by (simp add: comp_def)
  show "load32 (store_words base ?ws m) (word_at base (w * i + Suc (2 * k))) = snd (snd (desc (nodes ! i) ! k))"
    using load32_store_words [OF all lt(2)] map_of_hal_chain [OF b kw(2), of i] desc_lookup(2) [OF d assms(4)] assms(3)
    by (simp add: comp_def)
qed

lemma chain_pairs_desc:
  assumes "\<forall>x \<in> set nodes. desc_ok ix w (desc x)" "w * length nodes \<le> 2 ^ 30" "i < length nodes"
  shows "chain_pairs base w i (store_words base (hal_chain (desc_words ix w \<circ> desc) w nodes) m) =
    map (\<lambda>(f, v, a). (a, v)) (desc (nodes ! i))"
proof -
  have "map (ix \<circ> fst) (desc (nodes ! i)) = [0 ..< w div 2]" using assms(1,3) by (simp add: desc_ok_def)
  from arg_cong [OF this, of length] have "length (desc (nodes ! i)) = w div 2" by simp
  then show ?thesis using chain_load [OF assms]
    by (intro nth_equalityI) (simp_all add: chain_pairs_def split_beta)
qed

lemma p_desc_ok: "desc_ok p_field_ix 54 (aip_p_chaindesc n)"
  by (simp add: desc_ok_def aip_p_chaindesc_def upt_rec)

lemma f_desc_ok: "desc_ok f_field_ix 26 (aip_f_chaindesc n)"
  by (simp add: desc_ok_def aip_f_chaindesc_def upt_rec)

lemma of_nat_len:
  assumes "length xs < 2 ^ 24" "i < length xs"
  shows "(of_nat (length xs) :: u32) \<noteq> 0" "unat (of_nat (length xs) :: u32) = length xs"
proof -
  show *: "unat (of_nat (length xs) :: u32) = length xs"
    using assms(1) by (simp add: unat_of_nat_u32)
  show "(of_nat (length xs) :: u32) \<noteq> 0"
  proof
    assume "(of_nat (length xs) :: u32) = 0"
    with * assms(2) show False by simp
  qed
qed

section \<open>Properties\<close>

text \<open>Nodes for the witnesses.\<close>

definition sample_fnode :: aip_f_chainnode where
  "sample_fnode = \<lparr>hf_scale_x = 0x10000, hf_scale_y = 0x10000, hf_trans_x = 0, hf_trans_y = 0, hf_src_base_y = 0x100000,
     hf_src_base_uv = 0, hf_dst_base_y = 0x200000, hf_dst_base_uv = 0, hf_src_width = 64, hf_src_height = 48,
     hf_dst_width = 64, hf_dst_height = 48, hf_dst_stride = 64, hf_src_stride = 64\<rparr>"

definition sample_pnode :: aip_p_chainnode where
  "sample_pnode = \<lparr>hp_mode = 2, hp_src_base_y = 0x100000, hp_src_base_uv = 0x110000, hp_src_stride = 64,
     hp_dst_base = 0x200000, hp_dst_stride = 256, hp_dst_width = 64, hp_dst_height = 48, hp_src_width = 64,
     hp_src_height = 48, hp_dummy_val = 0, hp_coef_parm = (\<lambda>_. 0), hp_offset = 0x8010\<rparr>"

text \<open>C12. A chain in memory makes the engine do for each node exactly the register writes that
  the library does itself for a job with that node alone, in the same order; then the
  pair that starts it.\<close>

theorem hal_chain_programs_registers:
  assumes "length ps < 2 ^ 24" "i < length ps" "length fs < 2 ^ 24" "j < length fs"
  shows "(\<exists>ws. bus (fst (aip_p_config_nodes soc base [ps ! i] 0 (s, m))) = bus s @ ws \<and>
      chain_pairs base 54 i (snd (aip_p_config_nodes soc base ps (of_nat (length ps)) (s, m))) =
        map (\<lambda>(r, v). (JZ_AIP_IOBASE + r, v)) ws @ [((JZ_AIP_IOBASE + AIP_P_CTRL) OR 0x80000000, 1)]) \<and>
    (\<exists>ws. bus (fst (aip_f_config_nodes soc base [fs ! j] 0 (s, m))) = bus s @ ws \<and>
      chain_pairs base 26 j (snd (aip_f_config_nodes soc base fs (of_nat (length fs)) (s, m))) =
        map (\<lambda>(r, v). (JZ_AIP_IOBASE + r, v)) ws @ [((JZ_AIP_IOBASE + AIP_F_CTRL) OR 0x80000000, 1)])"
proof (intro conjI)
  have "\<forall>x \<in> set ps. desc_ok p_field_ix 54 (aip_p_chaindesc x)"
    "\<forall>x \<in> set fs. desc_ok f_field_ix 26 (aip_f_chaindesc x)" by (simp_all add: p_desc_ok f_desc_ok)
  note pd = chain_pairs_desc [OF this(1) _ assms(2)] and fd = chain_pairs_desc [OF this(2) _ assms(4)]
  have "chain_pairs base 54 i (snd (aip_p_config_nodes soc base ps (of_nat (length ps)) (s, m))) =
      map (\<lambda>(f, v, a). (a, v)) (aip_p_chaindesc (ps ! i))"
    using pd assms(1) of_nat_len [OF assms(1,2)] by (simp add: aip_p_config_nodes_def)
  then show "\<exists>ws. bus (fst (aip_p_config_nodes soc base [ps ! i] 0 (s, m))) = bus s @ ws \<and>
      chain_pairs base 54 i (snd (aip_p_config_nodes soc base ps (of_nat (length ps)) (s, m))) =
        map (\<lambda>(r, v). (JZ_AIP_IOBASE + r, v)) ws @ [((JZ_AIP_IOBASE + AIP_P_CTRL) OR 0x80000000, 1)]"
    by (simp add: aip_p_config_nodes_def aip_p_chaindesc_def aip_p_reg_writes_def)
  have "chain_pairs base 26 j (snd (aip_f_config_nodes soc base fs (of_nat (length fs)) (s, m))) =
      map (\<lambda>(f, v, a). (a, v)) (aip_f_chaindesc (fs ! j))"
    using fd assms(3) of_nat_len [OF assms(3,4)] by (simp add: aip_f_config_nodes_def)
  then show "\<exists>ws. bus (fst (aip_f_config_nodes soc base [fs ! j] 0 (s, m))) = bus s @ ws \<and>
      chain_pairs base 26 j (snd (aip_f_config_nodes soc base fs (of_nat (length fs)) (s, m))) =
        map (\<lambda>(r, v). (JZ_AIP_IOBASE + r, v)) ws @ [((JZ_AIP_IOBASE + AIP_F_CTRL) OR 0x80000000, 1)]"
    by (simp add: aip_f_config_nodes_def aip_f_chaindesc_def aip_f_reg_writes_def)
qed

theorem hal_chain_programs_registers_witness:
  "\<exists>ws. bus (fst (aip_p_config_nodes (still_soc False) 0x30000000 [sample_pnode] 0 (\<lparr>io_regs = (\<lambda>_. 0), bus = []\<rparr>, \<lambda>_. 0))) = ws \<and>
    chain_pairs 0x30000000 54 1 (snd (aip_p_config_nodes (still_soc False) 0x30000000 [sample_pnode, sample_pnode] 2
      (\<lparr>io_regs = (\<lambda>_. 0), bus = []\<rparr>, \<lambda>_. 0))) = map (\<lambda>(r, v). (0x12b00000 + r, v)) ws @ [(0x92b00300, 1)]"
  using hal_chain_programs_registers [where ps = "[sample_pnode, sample_pnode]" and i = 1 and fs = "[sample_fnode]" and j = 0
      and soc = "still_soc False" and base = "0x30000000" and s = "\<lparr>io_regs = (\<lambda>_. 0), bus = []\<rparr>" and m = "\<lambda>_. 0"]
  by (simp add: hal_regs)

lemma chain_load_field:
  assumes "\<forall>x \<in> set nodes. desc_ok ix w (desc x)" "w * length nodes \<le> 2 ^ 30" "i < length nodes"
    "ix f < w div 2" "j < 2"
  shows "load32 (store_words base (hal_chain (desc_words ix w \<circ> desc) w nodes) m) (word_at base (w * i + 2 * ix f + j)) =
    (if j = 0 then fst (snd (desc (nodes ! i) ! ix f)) else snd (snd (desc (nodes ! i) ! ix f)))"
  using chain_load [OF assms(1-4), of base m] assms(5) by (cases "j = 0") (auto simp: less_2_cases_iff)

lemma node_count_of_nat:
  assumes "length xs < 2 ^ 24"
  shows "nat (sint (of_nat (length xs) :: u32)) = length xs"
proof -
  have "unat (of_nat (length xs) :: u32) = length xs" using assms by (simp add: unat_of_nat_u32)
  with assms sint_pos_u32 [of "of_nat (length xs)"] show ?thesis
    by (simp add: word_less_nat_alt flip: nat_uint_eq)
qed

lemma p_desc_patched:
  assumes "\<not> repair_a1 soc" "j < 2" "ds = aip_p_chaindesc n"
  shows "p_patched soc (hp_mode n) (hp_offset n) pf j
      (if j = 0 then fst (snd (ds ! p_field_ix pf)) else snd (snd (ds ! p_field_ix pf))) =
    (if j = 0 then fst (snd (ds ! p_field_ix pf)) else snd (snd (ds ! p_field_ix pf)))"
  using assms(1,2) unfolding assms(3)
  by (cases pf; cases "j = 0")
     (simp_all add: p_patched_def aip_p_chaindesc_def hal_regs aip_regs JZ_AIP_V20_IOBASE_def less_2_cases_iff)

lemma f_desc_patched:
  assumes "\<not> repair_a1 soc" "j < 2" "ds = aip_f_chaindesc n"
  shows "f_patched soc ff j (if j = 0 then fst (snd (ds ! f_field_ix ff)) else snd (snd (ds ! f_field_ix ff))) =
    (if j = 0 then fst (snd (ds ! f_field_ix ff)) else snd (snd (ds ! f_field_ix ff)))"
  using assms(1,2) unfolding assms(3)
  by (cases ff; cases "j = 0")
     (simp_all add: f_patched_def aip_f_chaindesc_def hal_regs aip_regs JZ_AIP_V20_IOBASE_def less_2_cases_iff)

text \<open>C13. The two generations agree on the format: when the kernel driver patches a chain that
  the previous library made, no word of it changes, if the nodes have the mode and the
  colour offset the job is submitted with.\<close>

theorem hal_chain_is_patched:
  assumes "\<not> repair_a1 soc" "length ps < 2 ^ 24" "i < length ps" "length fs < 2 ^ 24" "k < length fs" "j < 2"
    "\<forall>n \<in> set ps. hp_mode n = mode \<and> hp_offset n = ofst"
    "mp = snd (aip_p_config_nodes soc base ps (of_nat (length ps)) (s, m))"
    "mf = snd (aip_f_config_nodes soc base fs (of_nat (length fs)) (s, m))"
  shows "load32 (store_words base (p_chain_writes soc mode ofst (of_nat (length ps))) mp) (word_at base (p_word i pf j)) =
      load32 mp (word_at base (p_word i pf j)) \<and>
    load32 (store_words base (f_chain_writes soc (of_nat (length fs))) mf) (word_at base (f_word k ff j)) =
      load32 mf (word_at base (f_word k ff j))"
proof (intro conjI)
  have "p_field_ix pf < 27" "f_field_ix ff < 13" by (rule p_field_ix_lt f_field_ix_lt)+
  then have pk: "2 * p_field_ix pf + j < 54" and fk: "2 * f_field_ix ff + j < 26" using assms(6) by auto
  have np: "p_node_count soc (of_nat (length ps)) = length ps" and nf: "f_node_count soc (of_nat (length fs)) = length fs"
    using node_count_of_nat assms(1,2,4) by (simp_all add: p_node_count_def f_node_count_def)
  have mp: "mp = store_words base (hal_chain (desc_words p_field_ix 54 \<circ> aip_p_chaindesc) 54 ps) m"
    and mf: "mf = store_words base (hal_chain (desc_words f_field_ix 26 \<circ> aip_f_chaindesc) 26 fs) m"
    using of_nat_len [OF assms(2,3)] of_nat_len [OF assms(4,5)] assms(8,9)
    by (simp_all add: aip_p_config_nodes_def aip_f_config_nodes_def)
  have lp: "load32 mp (word_at base (54 * i + (2 * p_field_ix pf + j))) =
      (if j = 0 then fst (snd (aip_p_chaindesc (ps ! i) ! p_field_ix pf)) else snd (snd (aip_p_chaindesc (ps ! i) ! p_field_ix pf)))"
    unfolding mp add.assoc [symmetric]
    by (rule chain_load_field) (use assms(2,3,6) p_desc_ok p_field_ix_lt [of pf] in auto)
  have lf: "load32 mf (word_at base (26 * k + (2 * f_field_ix ff + j))) =
      (if j = 0 then fst (snd (aip_f_chaindesc (fs ! k) ! f_field_ix ff)) else snd (snd (aip_f_chaindesc (fs ! k) ! f_field_ix ff)))"
    unfolding mf add.assoc [symmetric]
    by (rule chain_load_field) (use assms(4,5,6) f_desc_ok f_field_ix_lt [of ff] in auto)
  have node: "hp_mode (ps ! i) = mode" "hp_offset (ps ! i) = ofst" using assms(3,7) by simp_all
  have bp: "54 * chain_nodes (length ps) (repair_a1 soc) \<le> 2 ^ 30" "i < chain_nodes (length ps) (repair_a1 soc)"
    and bf: "26 * chain_nodes (length fs) (repair_a1 soc) \<le> 2 ^ 30" "k < chain_nodes (length fs) (repair_a1 soc)"
    using assms(1-5) by (simp_all add: chain_nodes_def)
  have "load32 (store_words base (p_chain_writes soc mode ofst (of_nat (length ps))) mp) (word_at base (54 * i + (2 * p_field_ix pf + j))) =
      p_patched soc mode ofst pf j (load32 mp (word_at base (54 * i + (2 * p_field_ix pf + j))))"
    using p_chain.load32_patched [OF bp pk, where base = base and m = mp and soc = soc and mode = mode and ofst = ofst] assms(3)
      p_fixup_lookup [OF assms(6)] by (simp add: p_chain_writes_patch np)
  then show "load32 (store_words base (p_chain_writes soc mode ofst (of_nat (length ps))) mp) (word_at base (p_word i pf j)) =
      load32 mp (word_at base (p_word i pf j))"
    using p_desc_patched [OF assms(1,6) refl, of "ps ! i" pf] lp node by (simp add: p_word_def add.assoc)
  have "load32 (store_words base (f_chain_writes soc (of_nat (length fs))) mf) (word_at base (26 * k + (2 * f_field_ix ff + j))) =
      f_patched soc ff j (load32 mf (word_at base (26 * k + (2 * f_field_ix ff + j))))"
    using f_chain.load32_patched [OF bf fk, where base = base and m = mf and soc = soc] assms(5)
      f_fixup_lookup [OF assms(6)] by (simp add: f_chain_writes_patch nf)
  then show "load32 (store_words base (f_chain_writes soc (of_nat (length fs))) mf) (word_at base (f_word k ff j)) =
      load32 mf (word_at base (f_word k ff j))"
    using f_desc_patched [OF assms(1,6) refl, of ff "fs ! k"] lf by (simp add: f_word_def add.assoc)
qed

theorem hal_chain_is_patched_witness:
  "load32 (store_words 0x30000000 (f_chain_writes (still_soc False) 2)
      (snd (aip_f_config_nodes (still_soc False) 0x30000000 [sample_fnode, sample_fnode] 2 (\<lparr>io_regs = (\<lambda>_. 0), bus = []\<rparr>, \<lambda>_. 0))))
      (word_at 0x30000000 (f_word 1 Nf_dst_size 0)) =
    load32 (snd (aip_f_config_nodes (still_soc False) 0x30000000 [sample_fnode, sample_fnode] 2 (\<lparr>io_regs = (\<lambda>_. 0), bus = []\<rparr>, \<lambda>_. 0)))
      (word_at 0x30000000 (f_word 1 Nf_dst_size 0))"
  using hal_chain_is_patched [where soc = "still_soc False" and ps = "[sample_pnode]" and i = 0 and fs = "[sample_fnode, sample_fnode]"
      and k = 1 and j = 0 and mode = 2 and ofst = "0x8010" and base = "0x30000000" and pf = Np_mode and ff = Nf_dst_size
      and s = "\<lparr>io_regs = (\<lambda>_. 0), bus = []\<rparr>" and m = "\<lambda>_. 0", OF _ _ _ _ _ _ _ refl refl]
  by (simp add: still_soc_def sample_pnode_def)

end
