(* ===== verification/Hal.thy ===== *)
theory Hal
  imports HalNodes
begin

text \<open>
  The hardware layer of the previous generation's user-space library,
  \<open>aip/aip_t41/src/jz_aip_hal.c\<close>: one \<open>struct aip_manage\<close> per engine, allocated once and
  reached by three global pointers; the chain buffers the old kernel drivers give; and
  the programming of the engines on the mapped registers. The old kernel drivers
  are not part of the repository: what their calls return is a parameter.
\<close>

section \<open>State\<close>

datatype hal_chan = INDEX_AIP_T | INDEX_AIP_F | INDEX_AIP_P

text \<open>\<open>struct aip_manage\<close> with its \<open>struct jz_aip_chainbuf\<close>.\<close>

record aip_manage =
  fd_open_cnt :: nat
  am_fd :: int
  am_mem_fd :: int
  aip_io_vaddr :: u32
  cb_vaddr :: u32
  cb_paddr :: u32
  cb_size :: u32
  chain_num :: u32

text \<open>What one of the pointers \<open>manage_p\<close>, \<open>manage_t\<close>, \<open>manage_f\<close> is: NULL, the address of
  a structure, or of one that was freed.\<close>

datatype manage_ptr = No_manage | Manage aip_manage | Freed_manage

record hal =
  manages :: "hal_chan \<Rightarrow> manage_ptr"
  chain_buf_size :: u32
  hal_io :: io
  hal_mem :: mem
  hal_fds :: "int list"

text \<open>What the system and the old kernel drivers answer: \<open>mmap\<close> of the registers,
  \<open>open\<close>, \<open>malloc\<close> (and the bytes it returns), \<open>IOCTL_AIP_MALLOC\<close> for a size (address and size
  of the buffer), \<open>mmap\<close> of that buffer, \<open>IOCTL_AIP_IRQ_WAIT_CMP\<close>.\<close>

record hal_env =
  he_soc :: soc
  he_io_vaddr :: u32
  he_mem_fd :: int
  he_malloc :: bool
  he_junk :: aip_manage
  he_open :: "hal_chan \<Rightarrow> int"
  he_chainbuf :: "hal_chan \<Rightarrow> u32 \<Rightarrow> (u32 \<times> u32) option"
  he_mmap :: "hal_chan \<Rightarrow> u32 \<Rightarrow> u32 \<Rightarrow> u32"
  he_wait :: "hal_chan \<Rightarrow> int"

definition get_manage :: "hal_chan \<Rightarrow> hal \<Rightarrow> fault + aip_manage" where
  "get_manage c h = (case manages h c of
     No_manage \<Rightarrow> Inl Null_deref | Freed_manage \<Rightarrow> Inl Use_after_free | Manage m \<Rightarrow> Inr m)"

definition put_manage :: "hal_chan \<Rightarrow> aip_manage \<Rightarrow> hal \<Rightarrow> hal" where
  "put_manage c m h = h\<lparr>manages := (manages h)(c := Manage m)\<rparr>"

text \<open>Registers can be reached when the address of the window is not the failure of \<open>mmap\<close>.\<close>

definition hal_regs_io :: "aip_manage \<Rightarrow> (io \<Rightarrow> fault + io) \<Rightarrow> hal \<Rightarrow> fault + hal" where
  "hal_regs_io m f h = (if aip_io_vaddr m = - 1 then Inl Null_deref
     else res_bind (f (hal_io h)) (\<lambda>s. Inr (h\<lparr>hal_io := s\<rparr>)))"

definition hal_close :: "int \<Rightarrow> hal \<Rightarrow> hal" where
  "hal_close fd h = h\<lparr>hal_fds := remove1 fd (hal_fds h)\<rparr>"

section \<open>Chain buffers\<close>

text \<open>\<open>aip_chainbuf_alloc\<close>. The first call for an engine opens its device and allocates; a
  later call compares the wanted size with \<open>chain_buf_size\<close>, one variable for the
  three engines. A device that does not open frees the structure the global pointer
  still points to.\<close>

definition aip_chainbuf_alloc :: "hal_env \<Rightarrow> hal_chan \<Rightarrow> hal \<Rightarrow> fault + (int \<times> hal)" where
  "aip_chainbuf_alloc he c h = res_bind (get_manage c h) (\<lambda>m.
     let check = (\<lambda>m h. if chain_buf_size h < cb_size m then Inr (- 1, hal_close (am_fd m) h) else Inr (0, h)) in
     if fd_open_cnt m \<noteq> 0 then check m h
     else
       let m = m\<lparr>am_fd := he_open he c\<rparr> in
       if am_fd m < 0 then Inr (- 1, h\<lparr>manages := (manages h)(c := Freed_manage)\<rparr>)
       else
         let h = h\<lparr>hal_fds := am_fd m # hal_fds h\<rparr>;
             opened = (\<lambda>m. let m = m\<lparr>fd_open_cnt := fd_open_cnt m + 1\<rparr>
                           in check m ((put_manage c m h)\<lparr>chain_buf_size := cb_size m\<rparr>))
         in if chain_num m = 0 then opened m
            else case he_chainbuf he c (cb_size m + 4096) of
              None \<Rightarrow> Inr (- 1, hal_close (am_fd m) (put_manage c m h))
            | Some (paddr, sz) \<Rightarrow>
                let m = m\<lparr>cb_size := sz, cb_paddr := paddr, cb_vaddr := he_mmap he c sz paddr\<rparr> in
                if cb_vaddr m = 0 then Inr (- 1, hal_close (am_fd m) (put_manage c m h))
                else opened m)"

text \<open>\<open>aip_chainbuf_free\<close>: unmapping and \<open>IOCTL_AIP_FREE\<close> leave no trace here.\<close>

definition aip_chainbuf_free :: "aip_manage \<Rightarrow> hal \<Rightarrow> hal" where
  "aip_chainbuf_free m h = (if 0 < fd_open_cnt m then hal_close (am_fd m) h else h)"

section \<open>Start and end\<close>

definition get_aip_ioaddr :: "hal_env \<Rightarrow> u32" where
  "get_aip_ioaddr he = (if he_io_vaddr he = 0 then - 1 else he_io_vaddr he)"

text \<open>\<open>/dev/mem\<close> is opened for \<open>manage_p\<close>; that it does not open is only printed.\<close>

definition aip_mem_init :: "hal_env \<Rightarrow> hal \<Rightarrow> fault + (int \<times> hal)" where
  "aip_mem_init he h =
     (let new = (\<lambda>c h. if manages h c = No_manage then
                          (if he_malloc he then Some (put_manage c (he_junk he) h) else None) else Some h)
      in case new INDEX_AIP_P h of None \<Rightarrow> Inr (- 1, h) | Some h \<Rightarrow>
        (case new INDEX_AIP_F h of None \<Rightarrow> Inr (- 1, h) | Some h \<Rightarrow>
        (case new INDEX_AIP_T h of None \<Rightarrow> Inr (- 1, h) | Some h \<Rightarrow>
          res_bind (get_manage INDEX_AIP_P h) (\<lambda>p.
          res_bind (get_manage INDEX_AIP_T h) (\<lambda>t.
          res_bind (get_manage INDEX_AIP_F h) (\<lambda>f.
          let io = get_aip_ioaddr he; fd = he_mem_fd he;
              h = (if 0 \<le> fd then h\<lparr>hal_fds := fd # hal_fds h\<rparr> else h);
              h = (if 0 \<le> fd \<and> he_io_vaddr he = 0 then hal_close fd h else h);
              h = put_manage INDEX_AIP_P (p\<lparr>am_mem_fd := fd, aip_io_vaddr := io, fd_open_cnt := 0\<rparr>) h;
              h = put_manage INDEX_AIP_T (t\<lparr>aip_io_vaddr := io, fd_open_cnt := 0\<rparr>) h;
              h = put_manage INDEX_AIP_F (f\<lparr>aip_io_vaddr := io, fd_open_cnt := 0\<rparr>) h
          in Inr (0, h)))))))"

definition release_aip_ioaddr :: "aip_manage \<Rightarrow> hal \<Rightarrow> hal" where
  "release_aip_ioaddr m h = (if am_mem_fd m \<noteq> 0 then hal_close (am_mem_fd m) h else h)"

definition free_manage :: "hal_chan \<Rightarrow> hal \<Rightarrow> fault + hal" where
  "free_manage c h = (if manages h c = No_manage then Inr h
     else res_bind (get_manage c h) (\<lambda>m.
       Inr ((aip_chainbuf_free m h)\<lparr>manages := (manages h)(c := No_manage)\<rparr>)))"

definition aip_mem_free :: "hal \<Rightarrow> fault + (int \<times> hal)" where
  "aip_mem_free h = res_bind (get_manage INDEX_AIP_P h) (\<lambda>p.
     res_bind (free_manage INDEX_AIP_P (release_aip_ioaddr p h)) (\<lambda>h.
     res_bind (free_manage INDEX_AIP_F h) (\<lambda>h.
     res_bind (free_manage INDEX_AIP_T h) (\<lambda>h. Inr (0, h)))))"

section \<open>Programming an engine\<close>

text \<open>\<open>aip_p_reset\<close>, \<open>aip_t_reset\<close>, \<open>aip_f_reset\<close>.\<close>

definition hal_reset :: "soc \<Rightarrow> u32 \<Rightarrow> io \<Rightarrow> fault + io" where
  "hal_reset soc ctrl s = poll soc (\<lambda>r. r ctrl AND 0x2 = 0) (writel soc ctrl 0x2 s)"

definition hal_param_writes :: "u32 list \<Rightarrow> (nat \<Rightarrow> u32) \<Rightarrow> (u32 \<times> u32) list" where
  "hal_param_writes regs nv2rgb_parm = map (\<lambda>(i, r). (r, if i = 4 \<or> i = 5 then - nv2rgb_parm i else nv2rgb_parm i))
     (enumerate 0 regs)"

definition aip_p_params :: "u32 list" where
  "aip_p_params = [AIP_P_PARAM0, AIP_P_PARAM1, AIP_P_PARAM2, AIP_P_PARAM3, AIP_P_PARAM4, AIP_P_PARAM5,
     AIP_P_PARAM6, AIP_P_PARAM7, AIP_P_PARAM8]"

definition aip_t_params :: "u32 list" where
  "aip_t_params = [AIP_T_PARAM0, AIP_T_PARAM1, AIP_T_PARAM2, AIP_T_PARAM3, AIP_T_PARAM4, AIP_T_PARAM5,
     AIP_T_PARAM6, AIP_T_PARAM7, AIP_T_PARAM8]"

text \<open>What the three functions do first: set the engine's fields and get the buffer.\<close>

definition hal_enter :: "hal_env \<Rightarrow> hal_chan \<Rightarrow> u32 \<Rightarrow> u32 \<Rightarrow> hal \<Rightarrow> fault + (int \<times> hal)" where
  "hal_enter he c num chain_size h = res_bind (get_manage c h) (\<lambda>m.
     aip_chainbuf_alloc he c (put_manage c (m\<lparr>chain_num := num, cb_size := chain_size\<rparr>) h))"

definition aip_p_init :: "hal_env \<Rightarrow> aip_p_chainnode list \<Rightarrow> u32 \<Rightarrow> (nat \<Rightarrow> u32) \<Rightarrow> u32 \<Rightarrow> hal \<Rightarrow>
    fault + (int \<times> hal)" where
  "aip_p_init he chainnode num nv2rgb_parm cfg h =
     (let chain_size = 216 * num; soc = he_soc he in
      if manages h INDEX_AIP_P = No_manage then Inr (- 2, h)
      else res_bind (hal_enter he INDEX_AIP_P num chain_size h) (\<lambda>(ret, h).
      if ret \<noteq> 0 then Inr (- 1, h)
      else res_bind (get_manage INDEX_AIP_P h) (\<lambda>m.
        res_bind (hal_regs_io m (\<lambda>s. res_bind (hal_reset soc AIP_P_CTRL s)
          (\<lambda>s. Inr (writel_all soc (hal_param_writes aip_p_params nv2rgb_parm) s))) h) (\<lambda>h.
        if num = 1 then
          let (s, mm) = aip_p_config_nodes soc (cb_vaddr m) chainnode 0 (hal_io h, hal_mem h)
          in Inr (0, h\<lparr>hal_io := writel soc AIP_P_CFG (cfg OR 0x10 OR 0x4) s, hal_mem := mm\<rparr>)
        else if 1 < sint num then
          let (s, mm) = aip_p_config_nodes soc (cb_vaddr m) chainnode num (hal_io h, hal_mem h);
              s = writel soc AIP_P_CFG (cfg OR 0x8 OR 0x4) s;
              s = writel soc AIP_P_CHAIN_BASE (cb_paddr m) s;
              s = writel soc AIP_P_CHAIN_SIZE chain_size s
          in Inr (0, h\<lparr>hal_io := s, hal_mem := mm\<rparr>)
        else Inr (0, h)))))"

definition aip_f_init :: "hal_env \<Rightarrow> aip_f_chainnode list \<Rightarrow> u32 \<Rightarrow> u32 \<Rightarrow> hal \<Rightarrow> fault + (int \<times> hal)" where
  "aip_f_init he chainnode num cfg h =
     (let chain_size = 104 * num; soc = he_soc he in
      if manages h INDEX_AIP_F = No_manage then Inr (- 2, h)
      else res_bind (hal_enter he INDEX_AIP_F num chain_size h) (\<lambda>(ret, h).
      if ret \<noteq> 0 then Inr (ret, h)
      else res_bind (get_manage INDEX_AIP_F h) (\<lambda>m.
        res_bind (hal_regs_io m (hal_reset soc AIP_F_CTRL) h) (\<lambda>h.
        if num = 1 then
          let (s, mm) = aip_f_config_nodes soc (cb_vaddr m) chainnode 0 (hal_io h, hal_mem h)
          in Inr (0, h\<lparr>hal_io := writel soc AIP_F_CFG (cfg OR 0x10 OR 0x4) s, hal_mem := mm\<rparr>)
        else if 1 < sint num then
          let (s, mm) = aip_f_config_nodes soc (cb_vaddr m) chainnode num (hal_io h, hal_mem h);
              s = writel soc AIP_F_CFG (cfg OR 0x8 OR 0x4) s;
              s = writel soc AIP_F_CHAIN_BASE (cb_paddr m) s;
              s = writel soc AIP_F_CHAIN_SIZE chain_size s
          in Inr (0, h\<lparr>hal_io := s, hal_mem := mm\<rparr>)
        else Inr (0, h)))))"

definition aip_t_init :: "hal_env \<Rightarrow> aip_t_chainnode \<Rightarrow> u32 \<Rightarrow> (nat \<Rightarrow> u32) \<Rightarrow> u32 \<Rightarrow> u32 \<Rightarrow> hal \<Rightarrow>
    fault + (int \<times> hal)" where
  "aip_t_init he chainnode num nv2rgb_parm offset cfg h =
     (let soc = he_soc he in
      if manages h INDEX_AIP_T = No_manage then Inr (- 2, h)
      else res_bind (hal_enter he INDEX_AIP_T num (72 * num) h) (\<lambda>(ret, h).
      if ret \<noteq> 0 then Inr (- 1, h)
      else res_bind (get_manage INDEX_AIP_T h) (\<lambda>m.
        res_bind (hal_regs_io m (\<lambda>s. res_bind (hal_reset soc AIP_T_CTRL s) (\<lambda>s.
          Inr (writel_all soc (hal_param_writes aip_t_params nv2rgb_parm @ [(AIP_T_OFFSET, offset)] @
            aip_t_reg_writes chainnode @
            [(AIP_T_CFG, push_bit 10 1 OR cfg OR 0x20 OR 0x10 OR 0x8 OR 0x4), (AIP_T_CTRL, 1)]) s))) h) (\<lambda>h.
        Inr (0, h)))))"

text \<open>\<open>aip_p_start\<close> and \<open>aip_f_start\<close>.\<close>

definition hal_start :: "hal_env \<Rightarrow> hal_chan \<Rightarrow> u32 \<Rightarrow> u32 \<Rightarrow> hal \<Rightarrow> fault + hal" where
  "hal_start he c ctrl num h = res_bind (get_manage c h) (\<lambda>m.
     hal_regs_io m (\<lambda>s. Inr (writel (he_soc he) ctrl (readl s ctrl OR (if num = 1 then 0x1 else 0x4)) s)) h)"

definition aip_p_start :: "hal_env \<Rightarrow> u32 \<Rightarrow> hal \<Rightarrow> fault + hal" where
  "aip_p_start he num = hal_start he INDEX_AIP_P AIP_P_CTRL num"

definition aip_f_start :: "hal_env \<Rightarrow> u32 \<Rightarrow> hal \<Rightarrow> fault + hal" where
  "aip_f_start he num = hal_start he INDEX_AIP_F AIP_F_CTRL num"

definition aip_t_start :: "hal_env \<Rightarrow> u32 \<Rightarrow> u32 \<Rightarrow> hal \<Rightarrow> fault + hal" where
  "aip_t_start he len skip_dst_base h = res_bind (get_manage INDEX_AIP_T h) (\<lambda>m.
     hal_regs_io m (\<lambda>s. Inr (writel_all (he_soc he)
       [(AIP_T_TASK_LEN, len), (AIP_T_DST_BASE, skip_dst_base), (AIP_T_CTRL, 0x10)] s)) h)"

text \<open>\<open>aip_p_wait\<close>, \<open>aip_t_wait\<close>, \<open>aip_f_wait\<close>.\<close>

definition hal_wait :: "hal_env \<Rightarrow> hal_chan \<Rightarrow> hal \<Rightarrow> fault + int" where
  "hal_wait he c h = res_bind (get_manage c h) (\<lambda>m. Inr (if he_wait he c < 0 then he_wait he c else 0))"

section \<open>Small functions\<close>

text \<open>\<open>aip_cfg_ddr_oram\<close> and \<open>aip_set_timeout\<close>; and \<open>get_box_info\<close>, whose \<open>chainbuf\<close> is passed to the
  driver unset (\<open>junk\<close> is its size) and whose descriptor stays open when the call fails.\<close>

definition aip_cfg_ddr_oram :: "hal_env \<Rightarrow> aip_manage \<Rightarrow> u32 \<Rightarrow> u32 \<Rightarrow> hal \<Rightarrow> fault + hal" where
  "aip_cfg_ddr_oram he m bus_type reg = hal_regs_io m (\<lambda>s. Inr (writel (he_soc he) reg (readl s reg OR bus_type) s))"

definition aip_set_timeout :: "hal_env \<Rightarrow> aip_manage \<Rightarrow> u32 \<Rightarrow> u32 \<Rightarrow> hal \<Rightarrow> fault + hal" where
  "aip_set_timeout he m timeout reg = hal_regs_io m (\<lambda>s. Inr (writel (he_soc he) reg timeout s))"

definition box_type :: "int \<Rightarrow> (hal_chan \<times> u32) option" where
  "box_type t = map_of [(3, (INDEX_AIP_F, 104)), (2, (INDEX_AIP_T, 72)), (1, (INDEX_AIP_P, 216))] t"

definition get_box_info :: "hal_env \<Rightarrow> u32 \<Rightarrow> int \<Rightarrow> hal \<Rightarrow> int \<times> hal" where
  "get_box_info he junk t h = (case box_type t of
     None \<Rightarrow> (0, h)
   | Some (c, sz) \<Rightarrow>
       let fd = he_open he c in
       if fd < 0 then (fd, h)
       else let h = h\<lparr>hal_fds := fd # hal_fds h\<rparr> in
         (case he_chainbuf he c junk of
            None \<Rightarrow> (- 1, h)
          | Some (_, bytes) \<Rightarrow> (sint (bytes div sz), hal_close fd h)))"

section \<open>Jobs\<close>

text \<open>Entering a job: with the device open, and for the first time.\<close>

lemma hal_enter_again:
  assumes "manages h c = Manage m" "fd_open_cnt m \<noteq> 0" "sz \<le> chain_buf_size h"
  shows "hal_enter he c num sz h = Inr (0, put_manage c (m\<lparr>chain_num := num, cb_size := sz\<rparr>) h)"
  using assms by (simp add: hal_enter_def get_manage_def put_manage_def aip_chainbuf_alloc_def Let_def)

lemma hal_enter_first:
  assumes "manages h c = Manage m" "fd_open_cnt m = 0" "num \<noteq> 0" "0 \<le> he_open he c"
    "he_chainbuf he c (sz + 4096) = Some (pa, sz')" "he_mmap he c sz' pa \<noteq> 0"
  shows "hal_enter he c num sz h = Inr (0, h\<lparr>manages := (manages h)(c := Manage (m\<lparr>chain_num := num, am_fd := he_open he c,
      cb_size := sz', cb_paddr := pa, cb_vaddr := he_mmap he c sz' pa, fd_open_cnt := 1\<rparr>)),
    chain_buf_size := sz', hal_fds := he_open he c # hal_fds h\<rparr>)"
  using assms by (simp add: hal_enter_def get_manage_def put_manage_def aip_chainbuf_alloc_def Let_def)

lemma hal_reset_returns:
  assumes "quiesces soc (\<lambda>r. r ctrl AND 0x2 = 0)"
  shows "\<exists>s'. hal_reset soc ctrl s = Inr s' \<and> bus s' = bus s @ [(ctrl, 0x2)]"
proof -
  obtain s' where "poll soc (\<lambda>r. r ctrl AND 0x2 = 0) (writel soc ctrl 0x2 s) = Inr s'"
    using poll_quiesces [OF assms] by blast
  with poll_Inr [OF this] show ?thesis by (auto simp: hal_reset_def)
qed

definition hal_resets :: "soc \<Rightarrow> bool" where
  "hal_resets soc \<longleftrightarrow> (\<forall>ctrl \<in> {AIP_P_CTRL, AIP_T_CTRL, AIP_F_CTRL}. quiesces soc (\<lambda>r. r ctrl AND 0x2 = 0))"

text \<open>What a job writes, for one node and for a chain.\<close>

definition f_job_bus :: "aip_f_chainnode list \<Rightarrow> u32 \<Rightarrow> u32 \<Rightarrow> aip_manage \<Rightarrow> (u32 \<times> u32) list" where
  "f_job_bus nodes num cfg m = (AIP_F_CTRL, 0x2) #
     (if num = 1 then aip_f_reg_writes (nodes ! 0) @ [(AIP_F_CFG, cfg OR 0x14)]
      else [(AIP_F_CFG, cfg OR 0xc), (AIP_F_CHAIN_BASE, cb_paddr m), (AIP_F_CHAIN_SIZE, 104 * num)])"

definition p_job_bus :: "aip_p_chainnode list \<Rightarrow> u32 \<Rightarrow> (nat \<Rightarrow> u32) \<Rightarrow> u32 \<Rightarrow> aip_manage \<Rightarrow> (u32 \<times> u32) list" where
  "p_job_bus nodes num nv2rgb_parm cfg m = (AIP_P_CTRL, 0x2) # hal_param_writes aip_p_params nv2rgb_parm @
     (if num = 1 then aip_p_reg_writes (nodes ! 0) @ [(AIP_P_CFG, cfg OR 0x14)]
      else [(AIP_P_CFG, cfg OR 0xc), (AIP_P_CHAIN_BASE, cb_paddr m), (AIP_P_CHAIN_SIZE, 216 * num)])"

lemma or_bits: "(cfg :: u32) OR 0x10 OR 0x4 = cfg OR 0x14" "cfg OR 0x8 OR 0x4 = cfg OR 0xc"
  by simp_all

lemma num_cases:
  assumes "1 \<le> sint (num :: u32)"
  shows "num \<noteq> 0" "num \<noteq> 1 \<Longrightarrow> 1 < sint num"
proof -
  show "num \<noteq> 0" using assms by auto
  have "sint num = sint (1 :: u32) \<Longrightarrow> num = 1" by (rule signed_word_eqI)
  then show "num \<noteq> 1 \<Longrightarrow> 1 < sint num" using assms by fastforce
qed

lemma f_init_runs:
  assumes "manages h INDEX_AIP_F \<noteq> No_manage" "hal_enter he INDEX_AIP_F num (104 * num) h = Inr (0, h1)"
    "manages h1 INDEX_AIP_F = Manage m" "aip_io_vaddr m \<noteq> - 1" "hal_resets (he_soc he)" "1 \<le> sint num"
  shows "\<exists>s. aip_f_init he nodes num cfg h = Inr (0, h1\<lparr>hal_io := s,
      hal_mem := snd (aip_f_config_nodes (he_soc he) (cb_vaddr m) nodes (if num = 1 then 0 else num) (hal_io h1, hal_mem h1))\<rparr>) \<and>
    bus s = bus (hal_io h1) @ f_job_bus nodes num cfg m"
proof -
  obtain s1 where s1: "hal_reset (he_soc he) AIP_F_CTRL (hal_io h1) = Inr s1" "bus s1 = bus (hal_io h1) @ [(AIP_F_CTRL, 0x2)]"
    using assms(5) hal_reset_returns by (fastforce simp: hal_resets_def)
  have "num \<noteq> 1 \<Longrightarrow> 1 < sint num" "num \<noteq> 0"
    using num_cases [OF assms(6)] by auto
  with assms(1-4) s1 show ?thesis
    by (auto simp: aip_f_init_def get_manage_def hal_regs_io_def f_job_bus_def aip_f_config_nodes_def or_bits Let_def)
qed

lemma p_init_runs:
  assumes "manages h INDEX_AIP_P \<noteq> No_manage" "hal_enter he INDEX_AIP_P num (216 * num) h = Inr (0, h1)"
    "manages h1 INDEX_AIP_P = Manage m" "aip_io_vaddr m \<noteq> - 1" "hal_resets (he_soc he)" "1 \<le> sint num"
  shows "\<exists>s. aip_p_init he nodes num parm cfg h = Inr (0, h1\<lparr>hal_io := s,
      hal_mem := snd (aip_p_config_nodes (he_soc he) (cb_vaddr m) nodes (if num = 1 then 0 else num) (hal_io h1, hal_mem h1))\<rparr>) \<and>
    bus s = bus (hal_io h1) @ p_job_bus nodes num parm cfg m"
proof -
  obtain s1 where s1: "hal_reset (he_soc he) AIP_P_CTRL (hal_io h1) = Inr s1" "bus s1 = bus (hal_io h1) @ [(AIP_P_CTRL, 0x2)]"
    using assms(5) hal_reset_returns by (fastforce simp: hal_resets_def)
  have "num \<noteq> 1 \<Longrightarrow> 1 < sint num" "num \<noteq> 0"
    using num_cases [OF assms(6)] by auto
  with assms(1-4) s1 show ?thesis
    by (auto simp: aip_p_init_def get_manage_def hal_regs_io_def p_job_bus_def aip_p_config_nodes_def or_bits Let_def)
qed

text \<open>A system in which everything can be had: the registers are mapped, devices open, buffers
  have the size asked for.\<close>

definition hal_works :: "hal_env \<Rightarrow> bool" where
  "hal_works he \<longleftrightarrow> he_malloc he \<and> he_io_vaddr he \<noteq> 0 \<and> he_io_vaddr he \<noteq> - 1 \<and> 0 < he_mem_fd he \<and>
     (\<forall>c. 0 \<le> he_open he c \<and> (\<forall>sz. \<exists>pa. he_chainbuf he c sz = Some (pa, sz) \<and> he_mmap he c sz pa \<noteq> 0)) \<and>
     hal_resets (he_soc he)"

definition hal_fresh :: "hal \<Rightarrow> bool" where
  "hal_fresh h \<longleftrightarrow> manages h = (\<lambda>_. No_manage)"

text \<open>After the start: three structures, all with their device closed.\<close>

definition hal_started :: "hal_env \<Rightarrow> hal \<Rightarrow> bool" where
  "hal_started he h \<longleftrightarrow> (\<forall>c. \<exists>m. manages h c = Manage m \<and> fd_open_cnt m = 0 \<and> aip_io_vaddr m = he_io_vaddr he)"

lemma mem_init_works:
  assumes "hal_works he" "hal_fresh h"
  shows "\<exists>h'. aip_mem_init he h = Inr (0, h') \<and> hal_started he h' \<and> hal_fds h' = he_mem_fd he # hal_fds h \<and>
    hal_io h' = hal_io h \<and> hal_mem h' = hal_mem h \<and> (\<forall>p. manages h' INDEX_AIP_P = Manage p \<longrightarrow> am_mem_fd p = he_mem_fd he)"
proof -
  have all: "(\<forall>c :: hal_chan. P c) \<longleftrightarrow> P INDEX_AIP_T \<and> P INDEX_AIP_F \<and> P INDEX_AIP_P" for P
    by (metis hal_chan.exhaust)
  show ?thesis using assms
    by (simp add: aip_mem_init_def hal_works_def hal_fresh_def hal_started_def get_manage_def put_manage_def
        get_aip_ioaddr_def Let_def all)
qed

lemma f_init_first:
  assumes "hal_works he" "manages h INDEX_AIP_F = Manage m" "fd_open_cnt m = 0" "aip_io_vaddr m = he_io_vaddr he"
    "1 \<le> sint num"
  shows "\<exists>h' m'. aip_f_init he nodes num cfg h = Inr (0, h') \<and> manages h' = (manages h)(INDEX_AIP_F := Manage m') \<and>
    fd_open_cnt m' = 1 \<and> aip_io_vaddr m' = he_io_vaddr he \<and> am_fd m' = he_open he INDEX_AIP_F \<and>
    chain_buf_size h' = 104 * num + 4096 \<and> hal_fds h' = he_open he INDEX_AIP_F # hal_fds h \<and>
    bus (hal_io h') = bus (hal_io h) @ f_job_bus nodes num cfg m' \<and>
    (\<exists>pa. he_chainbuf he INDEX_AIP_F (104 * num + 4096) = Some (pa, 104 * num + 4096) \<and>
      cb_vaddr m' = he_mmap he INDEX_AIP_F (104 * num + 4096) pa)"
proof -
  obtain pa where pa: "he_chainbuf he INDEX_AIP_F (104 * num + 4096) = Some (pa, 104 * num + 4096)"
    "he_mmap he INDEX_AIP_F (104 * num + 4096) pa \<noteq> 0" using assms(1) by (auto simp: hal_works_def)
  have works: "0 \<le> he_open he INDEX_AIP_F" "he_io_vaddr he \<noteq> - 1" "hal_resets (he_soc he)"
    using assms(1) by (auto simp: hal_works_def)
  note enter = hal_enter_first [OF assms(2,3) num_cases(1) [OF assms(5)] works(1) pa]
  define m' where "m' = m\<lparr>chain_num := num, am_fd := he_open he INDEX_AIP_F, cb_size := 104 * num + 4096,
    cb_paddr := pa, cb_vaddr := he_mmap he INDEX_AIP_F (104 * num + 4096) pa, fd_open_cnt := 1\<rparr>"
  note enter = enter [folded m'_def]
  obtain s where s: "aip_f_init he nodes num cfg h = Inr (0, h\<lparr>manages := (manages h)(INDEX_AIP_F := Manage m'),
      chain_buf_size := 104 * num + 4096, hal_fds := he_open he INDEX_AIP_F # hal_fds h, hal_io := s,
      hal_mem := snd (aip_f_config_nodes (he_soc he) (cb_vaddr m') nodes (if num = 1 then 0 else num) (hal_io h, hal_mem h))\<rparr>)"
    "bus s = bus (hal_io h) @ f_job_bus nodes num cfg m'"
    using f_init_runs [OF _ enter _ _ works(3) assms(5), of m' nodes cfg] assms(2,4) works(2)
    by (auto simp: m'_def)
  show ?thesis unfolding s(1) using pa(1) s(2) assms(4)
    by (intro exI [of _ m'] exI conjI) (rule refl | simp add: m'_def)+
qed

lemma p_init_first:
  assumes "hal_works he" "manages h INDEX_AIP_P = Manage m" "fd_open_cnt m = 0" "aip_io_vaddr m = he_io_vaddr he"
    "1 \<le> sint num"
  shows "\<exists>h' m'. aip_p_init he nodes num parm cfg h = Inr (0, h') \<and> manages h' = (manages h)(INDEX_AIP_P := Manage m') \<and>
    fd_open_cnt m' = 1 \<and> aip_io_vaddr m' = he_io_vaddr he \<and> am_fd m' = he_open he INDEX_AIP_P \<and>
    am_mem_fd m' = am_mem_fd m \<and>
    chain_buf_size h' = 216 * num + 4096 \<and> hal_fds h' = he_open he INDEX_AIP_P # hal_fds h \<and>
    bus (hal_io h') = bus (hal_io h) @ p_job_bus nodes num parm cfg m'"
proof -
  obtain pa where pa: "he_chainbuf he INDEX_AIP_P (216 * num + 4096) = Some (pa, 216 * num + 4096)"
    "he_mmap he INDEX_AIP_P (216 * num + 4096) pa \<noteq> 0" using assms(1) by (auto simp: hal_works_def)
  have works: "0 \<le> he_open he INDEX_AIP_P" "he_io_vaddr he \<noteq> - 1" "hal_resets (he_soc he)"
    using assms(1) by (auto simp: hal_works_def)
  note enter = hal_enter_first [OF assms(2,3) num_cases(1) [OF assms(5)] works(1) pa]
  define m' where "m' = m\<lparr>chain_num := num, am_fd := he_open he INDEX_AIP_P, cb_size := 216 * num + 4096,
    cb_paddr := pa, cb_vaddr := he_mmap he INDEX_AIP_P (216 * num + 4096) pa, fd_open_cnt := 1\<rparr>"
  note enter = enter [folded m'_def]
  obtain s where s: "aip_p_init he nodes num parm cfg h = Inr (0, h\<lparr>manages := (manages h)(INDEX_AIP_P := Manage m'),
      chain_buf_size := 216 * num + 4096, hal_fds := he_open he INDEX_AIP_P # hal_fds h, hal_io := s,
      hal_mem := snd (aip_p_config_nodes (he_soc he) (cb_vaddr m') nodes (if num = 1 then 0 else num) (hal_io h, hal_mem h))\<rparr>)"
    "bus s = bus (hal_io h) @ p_job_bus nodes num parm cfg m'"
    using p_init_runs [OF _ enter _ _ works(3) assms(5), of m' nodes parm cfg] assms(2,4) works(2)
    by (auto simp: m'_def)
  show ?thesis unfolding s(1) using s(2) assms(4)
    by (intro exI [of _ m'] exI conjI) (rule refl | simp add: m'_def)+
qed

lemma f_init_again:
  assumes "hal_works he" "manages h INDEX_AIP_F = Manage m" "fd_open_cnt m \<noteq> 0" "aip_io_vaddr m = he_io_vaddr he"
    "1 \<le> sint num" "104 * num \<le> chain_buf_size h"
  shows "\<exists>s. aip_f_init he nodes num cfg h = Inr (0, (put_manage INDEX_AIP_F (m\<lparr>chain_num := num, cb_size := 104 * num\<rparr>) h)
      \<lparr>hal_io := s, hal_mem := snd (aip_f_config_nodes (he_soc he) (cb_vaddr m) nodes (if num = 1 then 0 else num) (hal_io h, hal_mem h))\<rparr>) \<and>
    bus s = bus (hal_io h) @ f_job_bus nodes num cfg m"
proof -
  have works: "he_io_vaddr he \<noteq> - 1" "hal_resets (he_soc he)" using assms(1) by (auto simp: hal_works_def)
  note enter = hal_enter_again [OF assms(2,3,6), of he num]
  from f_init_runs [OF _ enter _ _ works(2) assms(5), of "m\<lparr>chain_num := num, cb_size := 104 * num\<rparr>" nodes cfg] assms(2,4) works(1)
  show ?thesis by (auto simp: put_manage_def f_job_bus_def)
qed

end
