(* ===== verification/HalJobs.thy ===== *)
theory HalJobs
  imports Hal "HOL-Library.Multiset"
begin

text \<open>
  Whole jobs of the previous library's hardware layer, \<open>Hal\<close>, and sequences of them between its
  start and its end: what they write, which descriptors they leave open, and what
  becomes of the one variable that holds the size of three chain buffers.
\<close>

section \<open>Jobs\<close>

text \<open>A job as the functions of \<open>ingenic_aip.c\<close> do it: programming, start and wait.\<close>

datatype hal_job =
  Job_p "aip_p_chainnode list" u32 "nat \<Rightarrow> u32" u32
| Job_t aip_t_chainnode u32 "nat \<Rightarrow> u32" u32 u32 u32 u32
| Job_f "aip_f_chainnode list" u32 u32

primrec job_chan :: "hal_job \<Rightarrow> hal_chan" where
  "job_chan (Job_p nodes num parm cfg) = INDEX_AIP_P"
| "job_chan (Job_t node num parm offset cfg len skip) = INDEX_AIP_T"
| "job_chan (Job_f nodes num cfg) = INDEX_AIP_F"

primrec job_init :: "hal_env \<Rightarrow> hal_job \<Rightarrow> hal \<Rightarrow> fault + (int \<times> hal)" where
  "job_init he (Job_p nodes num parm cfg) h = aip_p_init he nodes num parm cfg h"
| "job_init he (Job_t node num parm offset cfg len skip) h = aip_t_init he node num parm offset cfg h"
| "job_init he (Job_f nodes num cfg) h = aip_f_init he nodes num cfg h"

primrec job_start :: "hal_env \<Rightarrow> hal_job \<Rightarrow> hal \<Rightarrow> fault + hal" where
  "job_start he (Job_p nodes num parm cfg) h = aip_p_start he num h"
| "job_start he (Job_t node num parm offset cfg len skip) h = aip_t_start he len skip h"
| "job_start he (Job_f nodes num cfg) h = aip_f_start he num h"

definition hal_job :: "hal_env \<Rightarrow> hal_job \<Rightarrow> hal \<Rightarrow> fault + (int \<times> hal)" where
  "hal_job he j h = res_bind (job_init he j h) (\<lambda>(ret, h).
     if ret \<noteq> 0 then Inr (ret, h)
     else res_bind (job_start he j h) (\<lambda>h.
       res_bind (hal_wait he (job_chan j) h) (\<lambda>ret. Inr (ret, h))))"

fun hal_jobs :: "hal_env \<Rightarrow> hal_job list \<Rightarrow> hal \<Rightarrow> fault + (int list \<times> hal)" where
  "hal_jobs he [] h = Inr ([], h)"
| "hal_jobs he (j # js) h = res_bind (hal_job he j h) (\<lambda>(r, h).
     res_bind (hal_jobs he js h) (\<lambda>(rs, h). Inr (r # rs, h)))"

section \<open>The invariant between start and end\<close>

definition chan_open :: "hal \<Rightarrow> hal_chan \<Rightarrow> bool" where
  "chan_open h c = (case manages h c of Manage m \<Rightarrow> fd_open_cnt m \<noteq> 0 | _ \<Rightarrow> False)"

definition hal_held :: "hal_env \<Rightarrow> hal \<Rightarrow> int list" where
  "hal_held he h = he_mem_fd he # map (he_open he)
     (filter (chan_open h) [INDEX_AIP_P, INDEX_AIP_F, INDEX_AIP_T])"

text \<open>An engine's structure: closed, or opened once with a buffer of its own.\<close>

definition manage_ok :: "hal_env \<Rightarrow> hal \<Rightarrow> hal_chan \<Rightarrow> aip_manage \<Rightarrow> bool" where
  "manage_ok he h c m \<longleftrightarrow> aip_io_vaddr m = he_io_vaddr he \<and> (c = INDEX_AIP_P \<longrightarrow> am_mem_fd m = he_mem_fd he) \<and>
     (fd_open_cnt m = 0 \<or> fd_open_cnt m = 1 \<and> am_fd m = he_open he c \<and> 4096 \<le> chain_buf_size h \<and>
       (\<exists>sz pa. he_chainbuf he c sz = Some (pa, sz) \<and> 4096 \<le> sz \<and> cb_vaddr m = he_mmap he c sz pa))"

definition hal_inv :: "hal_env \<Rightarrow> int multiset \<Rightarrow> hal \<Rightarrow> bool" where
  "hal_inv he base h \<longleftrightarrow> (\<forall>c. \<exists>m. manages h c = Manage m \<and> manage_ok he h c m) \<and>
     mset (hal_fds h) = mset (hal_held he h) + base"

text \<open>Jobs whose chain has at most 4096 bytes, the room every buffer has.\<close>

primrec small_job :: "hal_job \<Rightarrow> bool" where
  "small_job (Job_p nodes num parm cfg) \<longleftrightarrow> 0 < num \<and> num \<le> 18"
| "small_job (Job_t node num parm offset cfg len skip) \<longleftrightarrow> 0 < num \<and> num \<le> 56"
| "small_job (Job_f nodes num cfg) \<longleftrightarrow> 0 < num \<and> num \<le> 39"

text \<open>The bytes a small job may write: the first 4096 of the chain buffers that are mapped, those of
  the engines that are open and have chains. A job may map one, and writes nowhere else.\<close>

definition hal_windows :: "hal \<Rightarrow> u32 set" where
  "hal_windows h = {a. \<exists>c m. c \<noteq> INDEX_AIP_T \<and> manages h c = Manage m \<and> fd_open_cnt m \<noteq> 0 \<and> a - cb_vaddr m < 4096}"

definition stays_in_windows :: "hal \<Rightarrow> hal \<Rightarrow> bool" where
  "stays_in_windows h h1 \<longleftrightarrow> hal_windows h \<subseteq> hal_windows h1 \<and> (\<forall>a. a \<notin> hal_windows h1 \<longrightarrow> hal_mem h1 a = hal_mem h a)"

lemma stays_refl [simp]: "stays_in_windows h h"
  by (simp add: stays_in_windows_def)

lemma stays_trans: "stays_in_windows h h1 \<Longrightarrow> stays_in_windows h1 h2 \<Longrightarrow> stays_in_windows h h2"
  unfolding stays_in_windows_def by (metis subset_eq)

lemma hal_windows_frame [simp]:
  "hal_windows (h\<lparr>hal_io := s\<rparr>) = hal_windows h" "hal_windows (h\<lparr>hal_mem := mm\<rparr>) = hal_windows h"
  by (simp_all add: hal_windows_def)

lemma stays_io [simp]: "stays_in_windows h (h1\<lparr>hal_io := s\<rparr>) = stays_in_windows h h1"
  by (simp add: stays_in_windows_def)

lemma all_chans: "(\<forall>c :: hal_chan. P c) \<longleftrightarrow> P INDEX_AIP_T \<and> P INDEX_AIP_F \<and> P INDEX_AIP_P"
  by (metis hal_chan.exhaust)

lemma hal_inv_frame [simp]:
  "hal_inv he base (h\<lparr>hal_io := s\<rparr>) = hal_inv he base h"
  "hal_inv he base (h\<lparr>hal_io := s, hal_mem := mm\<rparr>) = hal_inv he base h"
  by (simp_all add: hal_inv_def manage_ok_def hal_held_def chan_open_def cong: filter_cong)

lemma small_sizes:
  "sz \<le> (4096 :: u32) \<Longrightarrow> 4096 \<le> sz + 4096"
  by (simp add: word_le_nat_alt unat_word_ariths)

lemma hal_inv_put:
  assumes "hal_inv he base h" "manages h c = Manage m" "manage_ok he h c m'" "fd_open_cnt m' = fd_open_cnt m"
  shows "hal_inv he base (put_manage c m' h)"
proof -
  have "chan_open (put_manage c m' h) = chan_open h"
    using assms(2,4) by (simp add: chan_open_def put_manage_def fun_eq_iff)
  then have "hal_held he (put_manage c m' h) = hal_held he h" by (simp add: hal_held_def)
  moreover have "\<exists>x. manages (put_manage c m' h) c' = Manage x \<and> manage_ok he (put_manage c m' h) c' x" for c'
  proof (cases "c' = c")
    case False
    obtain x where "manages h c' = Manage x" "manage_ok he h c' x" using assms(1) unfolding hal_inv_def by blast
    with False show ?thesis by (simp add: put_manage_def manage_ok_def)
  qed (use assms(3) in \<open>simp add: put_manage_def manage_ok_def\<close>)
  ultimately show ?thesis using assms(1) by (simp add: hal_inv_def put_manage_def)
qed

lemma hal_windows_put:
  assumes "manages h c = Manage m" "fd_open_cnt m \<noteq> 0 \<Longrightarrow> fd_open_cnt m' \<noteq> 0 \<and> cb_vaddr m' = cb_vaddr m"
  shows "hal_windows h \<subseteq> hal_windows (put_manage c m' h)"
proof
  fix a assume "a \<in> hal_windows h"
  then obtain c' x where x: "c' \<noteq> INDEX_AIP_T" "manages h c' = Manage x" "fd_open_cnt x \<noteq> 0" "a - cb_vaddr x < 4096"
    unfolding hal_windows_def by blast
  show "a \<in> hal_windows (put_manage c m' h)"
  proof (cases "c' = c")
    case True
    then show ?thesis using x assms unfolding hal_windows_def put_manage_def by (intro CollectI exI [of _ c] exI [of _ m']) simp
  next
    case False
    then show ?thesis using x unfolding hal_windows_def put_manage_def by (intro CollectI exI [of _ c'] exI [of _ x]) simp
  qed
qed

text \<open>Entering a small job.\<close>

lemma hal_enter_inv:
  assumes "hal_works he" "hal_inv he base h" "num \<noteq> 0" "sz \<le> 4096"
  shows "\<exists>m h1. hal_enter he c num sz h = Inr (0, h1) \<and> manages h1 c = Manage m \<and> manage_ok he h1 c m \<and>
    fd_open_cnt m = 1 \<and> hal_inv he base h1 \<and> hal_io h1 = hal_io h \<and> hal_mem h1 = hal_mem h \<and>
    hal_windows h \<subseteq> hal_windows h1"
proof -
  obtain m where m: "manages h c = Manage m" "manage_ok he h c m" using assms(2) by (auto simp: hal_inv_def)
  show ?thesis
  proof (cases "fd_open_cnt m = 0")
    case False
    define m' where "m' = m\<lparr>chain_num := num, cb_size := sz\<rparr>"
    have le: "sz \<le> chain_buf_size h" using False m(2) assms(4) by (auto simp: manage_ok_def)
    have ok: "manage_ok he h c m'" "fd_open_cnt m' = fd_open_cnt m" "fd_open_cnt m = 1"
      using m(2) False by (auto simp: manage_ok_def m'_def)
    have "hal_inv he base (put_manage c m' h)" by (rule hal_inv_put [OF assms(2) m(1) ok(1,2)])
    moreover have "manage_ok he (put_manage c m' h) c m'" using ok(1) by (simp add: manage_ok_def put_manage_def)
    moreover have "hal_windows h \<subseteq> hal_windows (put_manage c m' h)"
      by (rule hal_windows_put [OF m(1)]) (simp_all add: m'_def)
    moreover have "hal_enter he c num sz h = Inr (0, put_manage c m' h)"
      using hal_enter_again [OF m(1) False le, of he num] by (simp add: m'_def)
    ultimately show ?thesis using ok
      by (intro exI [of _ m'] exI [of _ "put_manage c m' h"]) (simp add: put_manage_def m'_def)
  next
    case True
    obtain pa where pa: "he_chainbuf he c (sz + 4096) = Some (pa, sz + 4096)" "he_mmap he c (sz + 4096) pa \<noteq> 0"
      using assms(1) by (auto simp: hal_works_def)
    have op: "0 \<le> he_open he c" using assms(1) by (simp add: hal_works_def)
    define m' where "m' = m\<lparr>chain_num := num, am_fd := he_open he c, cb_size := sz + 4096, cb_paddr := pa,
      cb_vaddr := he_mmap he c (sz + 4096) pa, fd_open_cnt := 1\<rparr>"
    define h1 where "h1 = h\<lparr>manages := (manages h)(c := Manage m'), chain_buf_size := sz + 4096,
      hal_fds := he_open he c # hal_fds h\<rparr>"
    have e: "hal_enter he c num sz h = Inr (0, h1)"
      using hal_enter_first [OF m(1) True assms(3) op pa] by (simp add: h1_def m'_def)
    have ok: "manage_ok he h1 c m'" using m(2) pa small_sizes [OF assms(4)]
      unfolding manage_ok_def by (auto simp: h1_def m'_def)
    have mono: "manage_ok he h1 c' x" if "manage_ok he h c' x" for c' x
      using that small_sizes [OF assms(4)] by (auto simp: manage_ok_def h1_def)
    have "\<exists>x. manages h1 c' = Manage x \<and> manage_ok he h1 c' x" if "c' \<noteq> c" for c'
    proof -
      obtain x where "manages h c' = Manage x" "manage_ok he h c' x" using assms(2) unfolding hal_inv_def by blast
      with that mono [of c' x] show ?thesis by (auto simp: h1_def)
    qed
    moreover have "manages h1 c = Manage m'" by (simp add: h1_def)
    moreover have "chan_open h1 = (chan_open h)(c := True)" "\<not> chan_open h c"
      using m(1) True by (simp_all add: chan_open_def h1_def m'_def fun_eq_iff)
    then have "mset (hal_held he h1) = add_mset (he_open he c) (mset (hal_held he h))"
      by (cases c) (simp_all add: hal_held_def)
    ultimately have "(\<forall>c. \<exists>x. manages h1 c = Manage x \<and> manage_ok he h1 c x)"
      "mset (hal_held he h1) = add_mset (he_open he c) (mset (hal_held he h))" using ok by metis+
    then have "hal_inv he base h1" using assms(2) by (simp add: hal_inv_def h1_def)
    moreover have "hal_windows (put_manage c m' h) = hal_windows h1" by (simp add: hal_windows_def h1_def put_manage_def)
    then have "hal_windows h \<subseteq> hal_windows h1" using hal_windows_put [OF m(1), of m'] True by simp
    ultimately show ?thesis using e ok by (intro exI [of _ m'] exI [of _ h1]) (simp add: h1_def m'_def)
  qed
qed

section \<open>Small jobs\<close>

lemma t_init_runs:
  assumes "manages h INDEX_AIP_T \<noteq> No_manage" "hal_enter he INDEX_AIP_T num (72 * num) h = Inr (0, h1)"
    "manages h1 INDEX_AIP_T = Manage m" "aip_io_vaddr m \<noteq> - 1" "hal_resets (he_soc he)"
  shows "\<exists>s. aip_t_init he node num parm offset cfg h = Inr (0, h1\<lparr>hal_io := s\<rparr>)"
proof -
  obtain s1 where s1: "hal_reset (he_soc he) AIP_T_CTRL (hal_io h1) = Inr s1"
    using assms(5) hal_reset_returns by (fastforce simp: hal_resets_def)
  with assms(1-4) show ?thesis
    by (auto simp: aip_t_init_def get_manage_def hal_regs_io_def Let_def)
qed

lemma chain_frame:
  assumes "\<forall>x. desc_ok ix w (desc x)" "w * n \<le> 1024" "\<not> a - base < 4096"
  shows "store_words base (hal_chain (desc_words ix w \<circ> desc) w (take n nodes)) m a = m a"
proof -
  have "\<forall>x \<in> set (take n nodes). \<forall>(k, v) \<in> set ((desc_words ix w \<circ> desc) x). k < w"
    using desc_bound assms(1) by fastforce
  note b = hal_chain_bound [OF this]
  have "4096 \<le> unat (a - base)" using assms(3) by (simp add: word_less_nat_alt)
  moreover have "w * length (take n nodes) \<le> 1024"
    using assms(2) by (rule order_trans [OF mult_le_mono2, rotated]) simp
  ultimately show ?thesis by (intro store_words_frame [OF b]) simp_all
qed

lemma small_num:
  assumes "0 < num" "num \<le> (56 :: u32)"
  shows "1 \<le> sint num" "num \<noteq> 0" "unat num \<le> 56" "w \<le> 216 \<Longrightarrow> unat (w * num) = unat w * unat num"
proof -
  show u: "unat num \<le> 56" using assms(2) by (simp add: word_le_nat_alt)
  show "num \<noteq> 0" using assms(1) by auto
  then have "0 < unat num" by (simp add: unat_gt_0)
  moreover have "num < 0x80000000" using u by (simp add: word_less_nat_alt)
  then have "sint num = uint num" by (rule sint_pos_u32)
  then have "sint num = int (unat num)" by (simp only: uint_nat)
  ultimately show "1 \<le> sint num" by linarith
  have "unat w * unat num \<le> 216 * 56" if "w \<le> 216" using that u by (intro mult_le_mono) (simp_all add: word_le_nat_alt)
  then show "w \<le> 216 \<Longrightarrow> unat (w * num) = unat w * unat num" by (fastforce simp: unat_word_ariths)
qed

lemma small_enter:
  assumes "hal_works he" "hal_inv he base h" "0 < num" "num \<le> 56" "w \<le> 216" "unat w * unat num \<le> 4096"
  obtains m h1 where "hal_enter he c num (w * num) h = Inr (0, h1)" "manages h1 c = Manage m" "manage_ok he h1 c m"
    "fd_open_cnt m = 1" "hal_inv he base h1" "hal_io h1 = hal_io h" "hal_mem h1 = hal_mem h"
    "hal_windows h \<subseteq> hal_windows h1"
proof -
  have "w * num \<le> 4096" using small_num(4) [OF assms(3,4,5)] assms(6) by (simp add: word_le_nat_alt)
  from hal_enter_inv [OF assms(1,2) small_num(2) [OF assms(3,4)] this, of c] that show thesis by blast
qed

lemma job_init_small:
  assumes "hal_works he" "hal_inv he base h" "small_job j"
  shows "\<exists>h1. job_init he j h = Inr (0, h1) \<and> hal_inv he base h1 \<and> stays_in_windows h h1"
proof -
  have works: "he_io_vaddr he \<noteq> - 1" "hal_resets (he_soc he)" using assms(1) by (simp_all add: hal_works_def)
  have some: "manages h c \<noteq> No_manage" for c using assms(2) by (auto simp: hal_inv_def dest: spec [of _ c])
  show ?thesis
  proof (cases j)
    case (Job_p nodes num parm cfg)
    then have n: "0 < num" "num \<le> 18" using assms(3) by simp_all
    then have n56: "num \<le> 56" and u: "unat num \<le> 18" by (simp_all add: word_le_nat_alt)
    obtain m h1 where e: "hal_enter he INDEX_AIP_P num (216 * num) h = Inr (0, h1)" "manages h1 INDEX_AIP_P = Manage m"
      "manage_ok he h1 INDEX_AIP_P m" "fd_open_cnt m = 1" "hal_inv he base h1" "hal_io h1 = hal_io h" "hal_mem h1 = hal_mem h"
      "hal_windows h \<subseteq> hal_windows h1"
      by (rule small_enter [OF assms(1,2) n(1) n56, of 216]) (use u in simp_all)
    have b: "a \<notin> hal_windows h1 \<Longrightarrow> \<not> a - cb_vaddr m < 4096" for a
      using e(2,4) by (auto simp: hal_windows_def)
    have io: "aip_io_vaddr m \<noteq> - 1" using e(3) works(1) by (simp add: manage_ok_def)
    note frame = chain_frame [of p_field_ix 54 aip_p_chaindesc, OF _ _ b]
    from p_init_runs [OF some e(1,2) io works(2) small_num(1) [OF n(1) n56], of nodes parm cfg] u
    show ?thesis using e(5,7,8) by (auto simp: Job_p aip_p_config_nodes_def stays_in_windows_def p_desc_ok intro!: frame)
  next
    case (Job_f nodes num cfg)
    then have n: "0 < num" "num \<le> 39" using assms(3) by simp_all
    then have n56: "num \<le> 56" and u: "unat num \<le> 39" by (simp_all add: word_le_nat_alt)
    obtain m h1 where e: "hal_enter he INDEX_AIP_F num (104 * num) h = Inr (0, h1)" "manages h1 INDEX_AIP_F = Manage m"
      "manage_ok he h1 INDEX_AIP_F m" "fd_open_cnt m = 1" "hal_inv he base h1" "hal_io h1 = hal_io h" "hal_mem h1 = hal_mem h"
      "hal_windows h \<subseteq> hal_windows h1"
      by (rule small_enter [OF assms(1,2) n(1) n56, of 104]) (use u in simp_all)
    have b: "a \<notin> hal_windows h1 \<Longrightarrow> \<not> a - cb_vaddr m < 4096" for a
      using e(2,4) by (auto simp: hal_windows_def)
    have io: "aip_io_vaddr m \<noteq> - 1" using e(3) works(1) by (simp add: manage_ok_def)
    note frame = chain_frame [of f_field_ix 26 aip_f_chaindesc, OF _ _ b]
    from f_init_runs [OF some e(1,2) io works(2) small_num(1) [OF n(1) n56], of nodes cfg] u
    show ?thesis using e(5,7,8) by (auto simp: Job_f aip_f_config_nodes_def stays_in_windows_def f_desc_ok intro!: frame)
  next
    case (Job_t node num parm offset cfg len skip)
    then have n: "0 < num" "num \<le> 56" using assms(3) by simp_all
    then have u: "unat num \<le> 56" by (simp add: word_le_nat_alt)
    obtain m h1 where e: "hal_enter he INDEX_AIP_T num (72 * num) h = Inr (0, h1)" "manages h1 INDEX_AIP_T = Manage m"
      "manage_ok he h1 INDEX_AIP_T m" "fd_open_cnt m = 1" "hal_inv he base h1" "hal_io h1 = hal_io h" "hal_mem h1 = hal_mem h"
      "hal_windows h \<subseteq> hal_windows h1"
      by (rule small_enter [OF assms(1,2) n, of 72]) (use u in simp_all)
    have io: "aip_io_vaddr m \<noteq> - 1" using e(3) works(1) by (simp add: manage_ok_def)
    from t_init_runs [OF some e(1,2) io works(2), of node parm offset cfg]
    show ?thesis using e(5,7,8) by (auto simp: Job_t stays_in_windows_def)
  qed
qed

lemma job_small:
  assumes "hal_works he" "hal_inv he base h" "small_job j"
  shows "\<exists>h1. hal_job he j h = Inr (min 0 (he_wait he (job_chan j)), h1) \<and> hal_inv he base h1 \<and>
    stays_in_windows h h1"
proof -
  obtain h1 where h1: "job_init he j h = Inr (0, h1)" "hal_inv he base h1" "stays_in_windows h h1"
    using job_init_small [OF assms] by blast
  obtain m where m: "manages h1 (job_chan j) = Manage m" "manage_ok he h1 (job_chan j) m"
    using h1(2) by (auto simp: hal_inv_def)
  then have io: "aip_io_vaddr m \<noteq> - 1" using assms(1) by (simp add: manage_ok_def hal_works_def)
  obtain s where "job_start he j h1 = Inr (h1\<lparr>hal_io := s\<rparr>)" using m io
    by (cases j) (auto simp: aip_p_start_def aip_f_start_def aip_t_start_def hal_start_def get_manage_def hal_regs_io_def)
  with h1 m show ?thesis
    by (auto simp: hal_job_def hal_wait_def get_manage_def min_def)
qed

section \<open>Properties\<close>

lemma started_inv:
  assumes "hal_works he" "hal_fresh h0" "aip_mem_init he h0 = Inr (0, h1)"
  shows "hal_inv he (mset (hal_fds h0)) h1" "hal_mem h1 = hal_mem h0" "hal_windows h1 = {}"
proof -
  note w = mem_init_works [OF assms(1,2), unfolded assms(3) hal_started_def]
  then show "hal_mem h1 = hal_mem h0" by simp
  have "\<exists>m. manages h1 c = Manage m \<and> manage_ok he h1 c m \<and> fd_open_cnt m = 0" for c
  proof -
    obtain m where "manages h1 c = Manage m" "fd_open_cnt m = 0" "aip_io_vaddr m = he_io_vaddr he" using w by blast
    with w show ?thesis by (auto simp: manage_ok_def)
  qed
  note ms = this
  have "fd_open_cnt m = 0" if "manages h1 c = Manage m" for c m using ms [of c] that by auto
  then show "hal_windows h1 = {}" by (auto simp: hal_windows_def)
  have "\<not> chan_open h1 c" for c using ms [of c] by (auto simp: chan_open_def)
  moreover have "\<exists>m. manages h1 c = Manage m \<and> manage_ok he h1 c m" for c using ms [of c] by blast
  ultimately show "hal_inv he (mset (hal_fds h0)) h1" using w by (simp add: hal_inv_def hal_held_def)
qed

lemma jobs_small:
  assumes "hal_works he" "hal_inv he base h" "\<forall>j \<in> set js. small_job j"
  shows "\<exists>h1. hal_jobs he js h = Inr (map (\<lambda>j. min 0 (he_wait he (job_chan j))) js, h1) \<and> hal_inv he base h1 \<and>
    stays_in_windows h h1"
  using assms(2,3)
proof (induction js arbitrary: h)
  case (Cons j js)
  obtain h1 where h1: "hal_job he j h = Inr (min 0 (he_wait he (job_chan j)), h1)" "hal_inv he base h1"
    "stays_in_windows h h1"
    using job_small [OF assms(1) Cons.prems(1), of j] Cons.prems(2) by auto
  obtain h2 where "hal_jobs he js h1 = Inr (map (\<lambda>j. min 0 (he_wait he (job_chan j))) js, h2)" "hal_inv he base h2"
    "stays_in_windows h1 h2"
    using Cons.IH [OF h1(2)] Cons.prems(2) by auto
  with h1 stays_trans [OF h1(3)] show ?case by simp
qed simp

lemma close_mset: "fd \<in># A \<Longrightarrow> A - {#fd#} = B \<Longrightarrow> A = add_mset fd B"
  by auto

lemma free_manage_inv:
  assumes "manages h c = Manage m" "fd_open_cnt m = 0 \<or> am_fd m = he_open he c"
  shows "free_manage c h = Inr (h\<lparr>manages := (manages h)(c := No_manage),
    hal_fds := (if fd_open_cnt m = 0 then hal_fds h else remove1 (he_open he c) (hal_fds h))\<rparr>)"
  using assms by (auto simp: free_manage_def get_manage_def aip_chainbuf_free_def hal_close_def)

lemma mem_free_inv:
  assumes "0 < he_mem_fd he" "hal_inv he base h"
  shows "\<exists>h1. aip_mem_free h = Inr (0, h1) \<and> hal_fresh h1 \<and> mset (hal_fds h1) = base \<and> hal_mem h1 = hal_mem h"
proof -
  obtain p f t where m: "manages h INDEX_AIP_P = Manage p" "manages h INDEX_AIP_F = Manage f" "manages h INDEX_AIP_T = Manage t"
    "manage_ok he h INDEX_AIP_P p" "manage_ok he h INDEX_AIP_F f" "manage_ok he h INDEX_AIP_T t"
    using assms(2) unfolding hal_inv_def by metis
  then have fd: "fd_open_cnt p = 0 \<or> am_fd p = he_open he INDEX_AIP_P" "fd_open_cnt f = 0 \<or> am_fd f = he_open he INDEX_AIP_F"
    "fd_open_cnt t = 0 \<or> am_fd t = he_open he INDEX_AIP_T" "am_mem_fd p = he_mem_fd he"
    by (auto simp: manage_ok_def)
  define fds where "fds = fold (\<lambda>fd xs. remove1 fd xs) (hal_held he h) (hal_fds h)"
  have "\<exists>h1. aip_mem_free h = Inr (0, h1) \<and> manages h1 = (manages h)(INDEX_AIP_P := No_manage, INDEX_AIP_F := No_manage, INDEX_AIP_T := No_manage) \<and>
      hal_fds h1 = fds \<and> hal_mem h1 = hal_mem h"
    using m(1-3) fd(4) assms(1) free_manage_inv [OF _ fd(1)] free_manage_inv [OF _ fd(2)] free_manage_inv [OF _ fd(3)]
    by (simp add: aip_mem_free_def get_manage_def release_aip_ioaddr_def hal_close_def fds_def hal_held_def chan_open_def)
  moreover have "(manages h)(INDEX_AIP_P := No_manage, INDEX_AIP_F := No_manage, INDEX_AIP_T := No_manage) = (\<lambda>_. No_manage)"
  proof
    fix c show "((manages h)(INDEX_AIP_P := No_manage, INDEX_AIP_F := No_manage, INDEX_AIP_T := No_manage)) c = No_manage"
      by (cases c) simp_all
  qed
  moreover have "mset (fold (\<lambda>fd xs. remove1 fd xs) held xs) = base" if "mset xs = mset held + base" for held xs
    using that by (induction held arbitrary: xs) simp_all
  ultimately show ?thesis using assms(2) by (auto simp: fds_def hal_inv_def hal_fresh_def)
qed

text \<open>Between start and end, jobs whose chain has at most 4096 bytes all run: each call returns and
  gives the result of the wait, no byte is written but in the first 4096 of the chain buffers that were mapped, and
  the end closes every descriptor the start and the jobs opened, and no other.\<close>

theorem hal_session_clean:
  assumes "hal_works he" "hal_fresh h0" "\<forall>j \<in> set jobs. small_job j"
  shows "\<exists>h1 h2 h3. aip_mem_init he h0 = Inr (0, h1) \<and>
    hal_jobs he jobs h1 = Inr (map (\<lambda>j. min 0 (he_wait he (job_chan j))) jobs, h2) \<and>
    aip_mem_free h2 = Inr (0, h3) \<and> hal_fresh h3 \<and> mset (hal_fds h3) = mset (hal_fds h0) \<and>
    (\<forall>a. a \<notin> hal_windows h2 \<longrightarrow> hal_mem h3 a = hal_mem h0 a)"
proof -
  obtain h1 where h1: "aip_mem_init he h0 = Inr (0, h1)" using mem_init_works [OF assms(1,2)] by blast
  note s = started_inv [OF assms(1,2) h1]
  obtain h2 where h2: "hal_jobs he jobs h1 = Inr (map (\<lambda>j. min 0 (he_wait he (job_chan j))) jobs, h2)"
    "hal_inv he (mset (hal_fds h0)) h2" "stays_in_windows h1 h2"
    using jobs_small [OF assms(1) s(1) assms(3)] by blast
  have "0 < he_mem_fd he" using assms(1) by (simp add: hal_works_def)
  from mem_free_inv [OF this h2(2)] h1 h2 s(2) show ?thesis by (auto simp: stays_in_windows_def)
qed

text \<open>A system for the witnesses.\<close>

definition sample_manage :: aip_manage where
  "sample_manage = \<lparr>fd_open_cnt = 0, am_fd = 0, am_mem_fd = 0, aip_io_vaddr = 0, cb_vaddr = 0, cb_paddr = 0,
     cb_size = 0, chain_num = 0\<rparr>"

definition sample_he :: hal_env where
  "sample_he = \<lparr>he_soc = clearing_soc False, he_io_vaddr = 0x70000000, he_mem_fd = 5, he_malloc = True,
     he_junk = sample_manage, he_open = (\<lambda>_. 6), he_chainbuf = (\<lambda>_ sz. Some (0x1000, sz)),
     he_mmap = (\<lambda>_ _ _. 0x30000000), he_wait = (\<lambda>_. 0)\<rparr>"

definition sample_hal :: hal where
  "sample_hal = \<lparr>manages = (\<lambda>_. No_manage), chain_buf_size = 0, hal_io = \<lparr>io_regs = (\<lambda>_. 0), bus = []\<rparr>,
     hal_mem = (\<lambda>_. 0), hal_fds = [0, 1, 2]\<rparr>"

lemma sample_works: "hal_works sample_he" "hal_fresh sample_hal"
  by (simp_all add: hal_works_def sample_he_def hal_fresh_def sample_hal_def hal_resets_def clearing_soc_quiesces)

theorem hal_session_clean_witness:
  "\<exists>h1 h2 h3. aip_mem_init sample_he sample_hal = Inr (0, h1) \<and>
    hal_jobs sample_he [Job_f [sample_fnode] 1 0, Job_p [sample_pnode, sample_pnode] 2 (\<lambda>_. 7) 1, Job_f [sample_fnode, sample_fnode] 2 0] h1 =
      Inr ([0, 0, 0], h2) \<and> aip_mem_free h2 = Inr (0, h3) \<and> mset (hal_fds h3) = {#0, 1, 2#}"
proof -
  have "\<forall>j \<in> set [Job_f [sample_fnode] 1 0, Job_p [sample_pnode, sample_pnode] 2 (\<lambda>_. 7) 1, Job_f [sample_fnode, sample_fnode] 2 0]. small_job j"
    by simp
  from hal_session_clean [OF sample_works this] show ?thesis
    by (auto simp: sample_he_def sample_hal_def)
qed

text \<open>C40. The size of the chain buffer is one variable for the three engines: after a first job of
  F with a small buffer, a first job of P makes room for its own chain, and a
  larger chain of F is then accepted and written past the end of the buffer of F.\<close>

theorem hal_chain_overruns_buffer:
  assumes "hal_works he" "hal_fresh h0" "aip_mem_init he h0 = Inr (0, h1)" "1 \<le> length fs1" "1 \<le> length ps" "length ps < 2 ^ 16"
    "104 * length fs1 + 4096 < 104 * length fs2" "104 * length fs2 \<le> 216 * length ps + 4096"
    "sz = 104 * of_nat (length fs1) + 4096"
  shows "\<exists>pa h2 h3 h4. he_chainbuf he INDEX_AIP_F sz = Some (pa, sz) \<and>
    aip_f_init he fs1 (of_nat (length fs1)) cfg1 h1 = Inr (0, h2) \<and>
    aip_p_init he ps (of_nat (length ps)) parm cfg2 h2 = Inr (0, h3) \<and>
    aip_f_init he fs2 (of_nat (length fs2)) cfg3 h3 = Inr (0, h4) \<and>
    unat sz \<le> 4 * (26 * length fs2 - 1) \<and>
    load32 (hal_mem h4) (word_at (he_mmap he INDEX_AIP_F sz pa) (26 * length fs2 - 1)) = (JZ_AIP_IOBASE + AIP_F_CTRL) OR 0x80000000"
proof -
  let ?n1 = "of_nat (length fs1) :: u32" and ?np = "of_nat (length ps) :: u32" and ?n2 = "of_nat (length fs2) :: u32"
  have fit: "length fs1 < 2 ^ 18" "length fs2 < 2 ^ 18" "1 < length fs2" using assms(4-8) by auto
  have u: "unat ?n1 = length fs1" "unat ?np = length ps" "unat ?n2 = length fs2"
    using fit assms(6) by (simp_all add: unat_of_nat_u32)
  have pos: "1 \<le> sint ?n1" "1 \<le> sint ?np" "1 \<le> sint ?n2"
    using node_count_of_nat [of fs1] node_count_of_nat [of ps] node_count_of_nat [of fs2] fit assms(4-6) by simp_all
  have st: "manages h1 INDEX_AIP_F = Manage m \<Longrightarrow> fd_open_cnt m = 0 \<and> aip_io_vaddr m = he_io_vaddr he"
    "manages h1 INDEX_AIP_P = Manage m \<Longrightarrow> fd_open_cnt m = 0 \<and> aip_io_vaddr m = he_io_vaddr he" for m
    using mem_init_works [OF assms(1,2)] assms(3) by (auto simp: hal_started_def dest: spec [of _ INDEX_AIP_F] spec [of _ INDEX_AIP_P])
  obtain f p where f: "manages h1 INDEX_AIP_F = Manage f" and p: "manages h1 INDEX_AIP_P = Manage p"
    using started_inv(1) [OF assms(1-3)] unfolding hal_inv_def by blast
  obtain h2 f2 pa where f2: "aip_f_init he fs1 ?n1 cfg1 h1 = Inr (0, h2)" "manages h2 = (manages h1)(INDEX_AIP_F := Manage f2)"
    "fd_open_cnt f2 = 1" "aip_io_vaddr f2 = he_io_vaddr he" "he_chainbuf he INDEX_AIP_F sz = Some (pa, sz)"
    "cb_vaddr f2 = he_mmap he INDEX_AIP_F sz pa"
    using f_init_first [OF assms(1) f st(1) [OF f, THEN conjunct1] st(1) [OF f, THEN conjunct2] pos(1), of fs1 cfg1,
      folded assms(9)] by (elim exE conjE) (rule that)
  have p2: "manages h2 INDEX_AIP_P = Manage p" using p f2(2) by simp
  obtain h3 p3 where h3: "aip_p_init he ps ?np parm cfg2 h2 = Inr (0, h3)" "manages h3 = (manages h2)(INDEX_AIP_P := Manage p3)"
    "chain_buf_size h3 = 216 * ?np + 4096"
    using p_init_first [OF assms(1) p2 st(2) [OF p, THEN conjunct1] st(2) [OF p, THEN conjunct2] pos(2), of ps parm cfg2]
    by (elim exE conjE) (rule that)
  have f3: "manages h3 INDEX_AIP_F = Manage f2" using f2(2) h3(2) by simp
  have "104 * ?n2 \<le> chain_buf_size h3"
    using u(2,3) assms(6,8) fit unfolding h3(3) by (simp add: word_le_nat_alt unat_word_ariths)
  from f_init_again [OF assms(1) f3 _ f2(4) pos(3) this, of fs2 cfg3] f2(3)
  obtain h4 where h4: "aip_f_init he fs2 ?n2 cfg3 h3 = Inr (0, h4)"
    "hal_mem h4 = snd (aip_f_config_nodes (he_soc he) (cb_vaddr f2) fs2 (if ?n2 = 1 then 0 else ?n2) (hal_io h3, hal_mem h3))"
    by auto
  have n2: "?n2 \<noteq> 1" "?n2 \<noteq> 0" using u(3) fit(3) by auto
  have ix: "26 * length fs2 - 1 = 26 * (length fs2 - 1) + Suc (2 * 12)" using fit(3) by simp
  have "load32 (hal_mem h4) (word_at (he_mmap he INDEX_AIP_F sz pa) (26 * length fs2 - 1)) =
      snd (snd (aip_f_chaindesc (fs2 ! (length fs2 - 1)) ! 12))"
    unfolding ix h4(2) using n2 u(3) fit(2,3) chain_load(2) [of fs2 f_field_ix 26 aip_f_chaindesc "length fs2 - 1" 12]
    by (simp add: aip_f_config_nodes_def f2(6) f_desc_ok)
  then have "load32 (hal_mem h4) (word_at (he_mmap he INDEX_AIP_F sz pa) (26 * length fs2 - 1)) = (JZ_AIP_IOBASE + AIP_F_CTRL) OR 0x80000000"
    by (simp add: aip_f_chaindesc_def)
  moreover have "unat sz = 104 * length fs1 + 4096" using fit u(1) by (simp add: assms(9) unat_word_ariths)
  then have "unat sz \<le> 4 * (26 * length fs2 - 1)" using assms(7) by presburger
  ultimately show ?thesis using f2(1,5) h3(1) h4(1) by blast
qed

theorem hal_chain_overruns_buffer_witness:
  "\<exists>h1 h2 h3 h4. aip_mem_init sample_he sample_hal = Inr (0, h1) \<and>
    aip_f_init sample_he [sample_fnode] 1 0 h1 = Inr (0, h2) \<and>
    aip_p_init sample_he (replicate 8 sample_pnode) 8 (\<lambda>_. 0) 0 h2 = Inr (0, h3) \<and>
    aip_f_init sample_he (replicate 42 sample_fnode) 42 0 h3 = Inr (0, h4) \<and>
    load32 (hal_mem h4) (0x30000000 + 4364) = 0x92b00200"
proof -
  obtain h1 where h1: "aip_mem_init sample_he sample_hal = Inr (0, h1)"
    using mem_init_works [OF sample_works] by blast
  from hal_chain_overruns_buffer [OF sample_works h1, of "[sample_fnode]" "replicate 8 sample_pnode"
      "replicate 42 sample_fnode" 4200 0 "\<lambda>_. 0" 0 0]
  show ?thesis using h1 by (simp add: sample_he_def word_at_def hal_regs)
qed

text \<open>A device that does not open is reported, but the freed structure stays in the global pointer:
  the next job of the engine, and the end, use it.\<close>

theorem hal_failed_open_dangles:
  assumes "manages h INDEX_AIP_F = Manage m" "fd_open_cnt m = 0" "he_open he INDEX_AIP_F < 0"
    "manages h INDEX_AIP_P = Manage p"
  shows "\<exists>h'. aip_f_init he nodes num cfg h = Inr (- 1, h') \<and>
    aip_f_init he nodes' num' cfg' h' = Inl Use_after_free \<and> aip_mem_free h' = Inl Use_after_free"
  using assms
  by (simp add: aip_f_init_def hal_enter_def get_manage_def put_manage_def aip_chainbuf_alloc_def Let_def
      aip_mem_free_def free_manage_def release_aip_ioaddr_def hal_close_def aip_chainbuf_free_def)

theorem hal_failed_open_dangles_witness:
  "\<exists>h1 h2. aip_mem_init sample_he sample_hal = Inr (0, h1) \<and>
    aip_f_init (sample_he\<lparr>he_open := \<lambda>_. - 2\<rparr>) [sample_fnode] 1 0 h1 = Inr (- 1, h2) \<and> aip_mem_free h2 = Inl Use_after_free"
proof -
  obtain h1 where h1: "aip_mem_init sample_he sample_hal = Inr (0, h1)" "hal_started sample_he h1"
    using mem_init_works [OF sample_works] by blast
  then obtain m p where "manages h1 INDEX_AIP_F = Manage m" "fd_open_cnt m = 0" "manages h1 INDEX_AIP_P = Manage p"
    unfolding hal_started_def by metis
  from hal_failed_open_dangles [OF this(1,2) _ this(3), of "sample_he\<lparr>he_open := \<lambda>_. - 2\<rparr>" "[sample_fnode]" 1 0 "[]" 0 0] h1(1)
  show ?thesis by auto
qed

end
