(* ===== verification/HalApi.thy ===== *)
theory HalApi
  imports HalJobs IaicWarp
begin

text \<open>
  The calls of the previous generation's user-space library, \<open>aip/aip_t41/src/ingenic_aip.c\<close>:
  start and end with their count of users, the jobs of the AIP-P engine (affine and
  perspective), of the AIP-F engine (resize), and the conversion of the AIP-T engine in
  four steps. Images, boxes and matrices are turned into the nodes of \<open>HalNodes\<close>; the
  jobs are those of \<open>HalJobs\<close>.
\<close>

section \<open>Images and boxes\<close>

named_theorems bs_data

definition BS_DATA_Y :: u32 where [bs_data]: "BS_DATA_Y = 0"
definition BS_DATA_BGRA :: u32 where [bs_data]: "BS_DATA_BGRA = 1"
definition BS_DATA_GBRA :: u32 where [bs_data]: "BS_DATA_GBRA = 3"
definition BS_DATA_RBGA :: u32 where [bs_data]: "BS_DATA_RBGA = 5"
definition BS_DATA_BRGA :: u32 where [bs_data]: "BS_DATA_BRGA = 7"
definition BS_DATA_GRBA :: u32 where [bs_data]: "BS_DATA_GRBA = 9"
definition BS_DATA_RGBA :: u32 where [bs_data]: "BS_DATA_RGBA = 11"
definition BS_DATA_ABGR :: u32 where [bs_data]: "BS_DATA_ABGR = 17"
definition BS_DATA_AGBR :: u32 where [bs_data]: "BS_DATA_AGBR = 19"
definition BS_DATA_ARBG :: u32 where [bs_data]: "BS_DATA_ARBG = 21"
definition BS_DATA_ABRG :: u32 where [bs_data]: "BS_DATA_ABRG = 23"
definition BS_DATA_AGRB :: u32 where [bs_data]: "BS_DATA_AGRB = 25"
definition BS_DATA_ARGB :: u32 where [bs_data]: "BS_DATA_ARGB = 27"
definition BS_DATA_FMU2 :: u32 where [bs_data]: "BS_DATA_FMU2 = 33"
definition BS_DATA_FMU4 :: u32 where [bs_data]: "BS_DATA_FMU4 = 65"
definition BS_DATA_FMU8 :: u32 where [bs_data]: "BS_DATA_FMU8 = 97"
definition BS_DATA_FMU8_H :: u32 where [bs_data]: "BS_DATA_FMU8_H = 98"
definition BS_DATA_NV12 :: u32 where [bs_data]: "BS_DATA_NV12 = 111"
definition BS_DATA_UV :: u32 where [bs_data]: "BS_DATA_UV = 112"

definition BS_DATA_NMEM :: u32 where [bs_data]: "BS_DATA_NMEM = 0"
definition BS_DATA_ORAM :: u32 where [bs_data]: "BS_DATA_ORAM = 1"
definition BS_DATA_RMEM :: u32 where [bs_data]: "BS_DATA_RMEM = 2"

record box_info =
  box_x :: u32
  box_y :: u32
  box_w :: u32
  box_h :: u32

record box_affine = box_info +
  box_matrix :: "nat \<Rightarrow> rat"
  zero_point :: u32

record data_info =
  di_base :: u32
  di_base1 :: u32
  di_format :: u32
  di_width :: u32
  di_height :: u32
  di_stride :: u32
  di_locate :: u32

text \<open>The \<open>switch\<close> statements: None is their default, which prints a message and leaves the
  variable as it is. The numbers are those of the enumerations of \<open>jz_aip_hal.h\<close>.\<close>

definition rgb_formats :: "(u32 \<times> u32) list" where
  "rgb_formats = [(BS_DATA_BGRA, 0), (BS_DATA_GBRA, 1), (BS_DATA_RBGA, 2), (BS_DATA_BRGA, 3), (BS_DATA_GRBA, 4),
     (BS_DATA_RGBA, 5), (BS_DATA_ABGR, 8), (BS_DATA_AGBR, 9), (BS_DATA_ARBG, 10), (BS_DATA_ABRG, 11),
     (BS_DATA_AGRB, 12), (BS_DATA_ARGB, 13)]"

definition t_dst_format :: "u32 \<Rightarrow> u32 option" where
  "t_dst_format = map_of rgb_formats"

definition p_dst_format :: "u32 \<Rightarrow> u32 option" where
  "p_dst_format = map_of ([(BS_DATA_Y, 0), (BS_DATA_UV, 0), (BS_DATA_NV12, 0)] @ rgb_formats)"

definition is_rgb :: "u32 \<Rightarrow> bool" where
  "is_rgb f \<longleftrightarrow> BS_DATA_BGRA \<le> f \<and> f \<le> BS_DATA_ARGB"

definition f_src_format :: "u32 \<Rightarrow> u32 option" where
  "f_src_format f = (if is_rgb f then Some 2
     else map_of [(BS_DATA_Y, 0), (BS_DATA_UV, 1), (BS_DATA_NV12, 7), (BS_DATA_FMU2, 3), (BS_DATA_FMU4, 4),
       (BS_DATA_FMU8, 5), (BS_DATA_FMU8_H, 6)] f)"

definition locate_of :: "u32 \<Rightarrow> u32 option" where
  "locate_of = map_of [(BS_DATA_NMEM, 0), (BS_DATA_ORAM, 1), (BS_DATA_RMEM, 0)]"

text \<open>A variable set in a loop by such a switch, from what it was before the loop.\<close>

definition or_keep :: "'a option \<Rightarrow> 'a \<Rightarrow> 'a" where
  "or_keep x old = (case x of None \<Rightarrow> old | Some v \<Rightarrow> v)"

primrec kept :: "'a \<Rightarrow> 'a option list \<Rightarrow> 'a list" where
  "kept old [] = []"
| "kept old (x # xs) = or_keep x old # kept (or_keep x old) xs"

text \<open>\<open>/ 2\<close> of an \<open>int\<close>.\<close>

definition half :: "u32 \<Rightarrow> u32" where
  "half w = of_int (if 0 \<le> sint w then sint w div 2 else - ((- sint w) div 2))"

text \<open>A source without a second plane gets it behind the first, in the caller's structure.\<close>

definition second_plane :: "data_info \<Rightarrow> data_info" where
  "second_plane src = (if di_base1 src = 0 then src\<lparr>di_base1 := di_base src + di_width src * di_height src\<rparr> else src)"

section \<open>Floating point\<close>

text \<open>Besides the unit of \<open>IaicWarp\<close>: conversions to \<open>uint32_t\<close> and \<open>int64_t\<close> of numbers that do not fit,
  and what scale and translation become when the quotient is by 0.\<close>

record hal_fpu =
  fp_unit :: fpu
  fp_uint :: "rat \<Rightarrow> u32"
  fp_int64 :: "rat \<Rightarrow> u64"
  fp_div0 :: "u32 \<times> u32"

definition to_uint :: "hal_fpu \<Rightarrow> rat \<Rightarrow> u32" where
  "to_uint fp x = (let t = (if 0 \<le> x then \<lfloor>x\<rfloor> else \<lceil>x\<rceil>)
     in if 0 \<le> t \<and> t < 2 ^ 32 then of_int t else fp_uint fp x)"

text \<open>\<open>(int64_t)round(x)\<close>: half away from zero.\<close>

definition hal_round :: "hal_fpu \<Rightarrow> rat \<Rightarrow> u64" where
  "hal_round fp x = (let t = (if 0 \<le> x then \<lfloor>x + 1 / 2\<rfloor> else \<lceil>x - 1 / 2\<rceil>)
     in if - (2 ^ 63) \<le> t \<and> t < 2 ^ 63 then of_int t else fp_int64 fp (of_int t))"

text \<open>The coefficients of the two functions. The inverses are those of \<open>IaicWarp\<close>.\<close>

definition affine_coefs :: "hal_fpu \<Rightarrow> (nat \<Rightarrow> rat) \<Rightarrow> u64 list" where
  "affine_coefs fp m = map (\<lambda>i. hal_round fp (fmul (fp_unit fp) (affine_inverse (fp_unit fp) m i) 65536)) [0 ..< 9]"

definition perspective_coefs :: "hal_fpu \<Rightarrow> (nat \<Rightarrow> rat) \<Rightarrow> u64 list" where
  "perspective_coefs fp m = map (\<lambda>i. hal_round fp (dmul (fp_unit fp)
     (dmul (fp_unit fp) (perspective_inverse (fp_unit fp) m i) 65536) 1024)) [0 ..< 9]"

section \<open>The nodes\<close>

text \<open>Mode, offset of the first plane, address and offset of the second.\<close>

definition p_src_place :: "data_info \<Rightarrow> u32 \<Rightarrow> u32 \<Rightarrow> u32 \<times> u32 \<times> u32 \<times> u32" where
  "p_src_place src x y =
     (if is_rgb (di_format src) then (3, di_stride src * y + x * 4, 0, 0)
      else if di_format src = BS_DATA_NV12
      then (2, di_stride src * y + x, di_base1 src, half (di_stride src * y) + x)
      else if di_format src = BS_DATA_UV then (1, di_stride src * y + x * 2, 0, 0)
      else if di_format src = BS_DATA_Y then (0, di_stride src * y + x, 0, 0)
      else (0, 0, 0, 0))"

definition hal_p_node :: "data_info \<Rightarrow> data_info \<Rightarrow> u32 \<Rightarrow> box_affine \<Rightarrow> u64 list \<Rightarrow> u32 \<Rightarrow> (nat \<Rightarrow> u32) \<Rightarrow> aip_p_chainnode" where
  "hal_p_node src dst stride box cs dst_format offset =
     (let (mode, offset_y, src_base_uv, offset_uv) = p_src_place src (box_x box) (box_y box);
          ws = coef_words (cs ! 0) (cs ! 1) (cs ! 2) @ coef_words (cs ! 3) (cs ! 4) (cs ! 5) @ coef_words (cs ! 6) (cs ! 7) (cs ! 8)
      in \<lparr>hp_mode = mode, hp_src_base_y = di_base src + offset_y, hp_src_base_uv = src_base_uv + offset_uv,
          hp_src_stride = di_stride src, hp_dst_base = di_base dst, hp_dst_stride = stride,
          hp_dst_width = ucast (di_width dst), hp_dst_height = ucast (di_height dst),
          hp_src_width = ucast (box_w box), hp_src_height = ucast (box_h box), hp_dummy_val = zero_point box,
          hp_coef_parm = (\<lambda>k. if k < 15 then ws ! k else 0),
          hp_offset = push_bit 24 dst_format OR push_bit 16 0 OR push_bit 8 (offset 1) OR offset 0\<rparr>)"

definition f_src_place :: "data_info \<Rightarrow> u32 \<Rightarrow> u32 \<Rightarrow> u32 \<times> u32 \<times> u32" where
  "f_src_place src x y =
     (if is_rgb (di_format src) then (di_stride src * y + x * 4, 0, 0)
      else if di_format src = BS_DATA_NV12 then (di_stride src * y + x, di_base1 src, half (di_stride src * y) + x)
      else if di_format src = BS_DATA_Y \<or> di_format src = BS_DATA_UV then (di_stride src * y + x, 0, 0)
      else if di_format src = BS_DATA_FMU2 then (di_stride src * y + 8 * x, 0, 0)
      else if di_format src = BS_DATA_FMU4 then (di_stride src * y + 16 * x, 0, 0)
      else if di_format src = BS_DATA_FMU8 then (di_stride src * y + 32 * x, 0, 0)
      else if di_format src = BS_DATA_FMU8_H then (di_stride src * y + 16 * x, 0, 0)
      else (0, 0, 0))"

text \<open>Scale and translation from the sizes of box and destination.\<close>

definition f_scale :: "hal_fpu \<Rightarrow> u32 \<Rightarrow> u32 \<Rightarrow> u32 \<times> u32" where
  "f_scale fp w dw = (if dw = 0 then fp_div0 fp
     else let u = fp_unit fp; s = f32 u (f32 u (of_int (sint w)) / f32 u (of_int (sint dw)))
       in (to_uint fp (fmul u s 65536),
           to_int u (dmul u (f64 u (dmul u s (1 / 2) - 1 / 2)) 65536)))"

definition hal_f_node :: "hal_fpu \<Rightarrow> data_info \<Rightarrow> data_info \<Rightarrow> 'a box_info_scheme \<Rightarrow> aip_f_chainnode" where
  "hal_f_node fp src dst box =
     (let (offset_y, src_base_uv, offset_uv) = f_src_place src (box_x box) (box_y box);
          (scale_x, trans_x) = f_scale fp (box_w box) (di_width dst);
          (scale_y, trans_y) = f_scale fp (box_h box) (di_height dst)
      in \<lparr>hf_scale_x = scale_x, hf_scale_y = scale_y, hf_trans_x = trans_x, hf_trans_y = trans_y,
          hf_src_base_y = di_base src + offset_y, hf_src_base_uv = src_base_uv + offset_uv,
          hf_dst_base_y = di_base dst, hf_dst_base_uv = (if di_format src = BS_DATA_NV12 then di_base1 dst else 0),
          hf_src_width = ucast (box_w box), hf_src_height = ucast (box_h box),
          hf_dst_width = ucast (di_width dst), hf_dst_height = ucast (di_height dst),
          hf_dst_stride = ucast (di_stride dst), hf_src_stride = ucast (di_stride src)\<rparr>)"

section \<open>The library\<close>

text \<open>The arrays of nodes kept between calls: \<open>pnode\<close>, \<open>anode\<close>, \<open>fnode\<close> and their sizes.\<close>

datatype node_buf = No_buf | Buf | Freed_buf

record hal_lib =
  lib_hal :: hal
  open_cnt :: u32
  pnode :: "node_buf \<times> u32"
  anode :: "node_buf \<times> u32"
  fnode :: "node_buf \<times> u32"
  mutex_f :: bool
  mutex_t :: bool
  mutex_p :: bool

text \<open>Making room for \<open>need\<close> bytes and clearing them; the flag is False when \<open>malloc\<close> fails.\<close>

definition node_room :: "hal_env \<Rightarrow> u32 \<Rightarrow> node_buf \<times> u32 \<Rightarrow> fault + (bool \<times> (node_buf \<times> u32))" where
  "node_room he need = (\<lambda>(p, size).
     if size < need
     then if p = Freed_buf then Inl Use_after_free
          else if he_malloc he then Inr (True, (Buf, need)) else Inr (False, (No_buf, 0))
     else if need = 0 \<or> p = Buf then Inr (True, (p, size))
     else if p = No_buf then Inl Null_deref else Inl Use_after_free)"

definition ingenic_aip_init :: "hal_env \<Rightarrow> hal_lib \<Rightarrow> fault + (int \<times> hal_lib)" where
  "ingenic_aip_init he l =
     (let l = l\<lparr>open_cnt := open_cnt l + 1\<rparr> in
      if 1 < open_cnt l then Inr (0, l)
      else res_bind (aip_mem_init he (lib_hal l)) (\<lambda>(ret, h).
        if ret < 0 then Inr (ret, l\<lparr>lib_hal := h\<rparr>)
        else Inr (ret, l\<lparr>lib_hal := h, pnode := (No_buf, 0), anode := (No_buf, 0), fnode := (No_buf, 0)\<rparr>)))"

definition free_buf :: "node_buf \<times> u32 \<Rightarrow> fault + (node_buf \<times> u32)" where
  "free_buf = (\<lambda>(p, size). case p of No_buf \<Rightarrow> Inr (No_buf, size) | Buf \<Rightarrow> Inr (Freed_buf, size)
     | Freed_buf \<Rightarrow> Inl Use_after_free)"

text \<open>The test \<open>open_cnt < 0\<close> of an unsigned count is never true.\<close>

definition ingenic_aip_deinit :: "hal_lib \<Rightarrow> fault + (int \<times> hal_lib)" where
  "ingenic_aip_deinit l =
     (let l = l\<lparr>open_cnt := open_cnt l - 1\<rparr> in
      if 1 < open_cnt l then Inr (0, l\<lparr>open_cnt := open_cnt l - 1\<rparr>)
      else res_bind (free_buf (pnode l)) (\<lambda>p. res_bind (free_buf (anode l)) (\<lambda>a. res_bind (free_buf (fnode l)) (\<lambda>f.
        res_bind (aip_mem_free (lib_hal l)) (\<lambda>(ret, h).
          Inr (ret, l\<lparr>lib_hal := h, pnode := p, anode := a, fnode := f\<rparr>))))))"

section \<open>The calls\<close>

text \<open>A function that holds a mutex from its first to its last line; every return unlocks.\<close>

definition locked_p :: "(hal_lib \<Rightarrow> fault + (int \<times> data_info \<times> hal_lib)) \<Rightarrow> hal_lib \<Rightarrow> fault + (int \<times> data_info \<times> hal_lib)" where
  "locked_p f l = (if mutex_p l then Inl Sleeps
     else res_bind (f (l\<lparr>mutex_p := True\<rparr>)) (\<lambda>(ret, src, l). Inr (ret, src, l\<lparr>mutex_p := False\<rparr>)))"

definition locked_f :: "(hal_lib \<Rightarrow> fault + (int \<times> data_info \<times> hal_lib)) \<Rightarrow> hal_lib \<Rightarrow> fault + (int \<times> data_info \<times> hal_lib)" where
  "locked_f f l = (if mutex_f l then Inl Sleeps
     else res_bind (f (l\<lparr>mutex_f := True\<rparr>)) (\<lambda>(ret, src, l). Inr (ret, src, l\<lparr>mutex_f := False\<rparr>)))"

text \<open>What \<open>dst_format\<close>, \<open>src_locate\<close> and \<open>dst_locate\<close> hold before they are set.\<close>

record unset =
  u_format :: u32
  u_src :: u32
  u_dst :: u32

definition last_kept :: "'a \<Rightarrow> 'a option list \<Rightarrow> 'a" where
  "last_kept old xs = (if xs = [] then old else last (kept old xs))"

text \<open>The nodes and the configuration of a job of the AIP-P engine: \<open>strides\<close> tells whose stride
  a node gets. A source of two planes is completed at the first box.\<close>

definition p_source :: "nat \<Rightarrow> data_info \<Rightarrow> data_info" where
  "p_source n src = (if 0 < n \<and> di_format src = BS_DATA_NV12 then second_plane src else src)"

definition p_nodes :: "((nat \<Rightarrow> rat) \<Rightarrow> u64 list) \<Rightarrow> (nat \<Rightarrow> u32) \<Rightarrow> unset \<Rightarrow> nat \<Rightarrow> data_info \<Rightarrow> data_info list \<Rightarrow>
    box_affine list \<Rightarrow> (nat \<Rightarrow> u32) \<Rightarrow> aip_p_chainnode list" where
  "p_nodes coefs strides u n src dst boxes offset =
     (let formats = kept (u_format u) (map (\<lambda>i. p_dst_format (di_format (dst ! i))) [0 ..< n])
      in map (\<lambda>i. hal_p_node (p_source n src) (dst ! i) (strides i) (boxes ! i) (coefs (box_matrix (boxes ! i)))
           (formats ! i) offset) [0 ..< n])"

definition p_cfg :: "unset \<Rightarrow> nat \<Rightarrow> data_info \<Rightarrow> data_info list \<Rightarrow> u32" where
  "p_cfg u n src dst = push_bit 1 (last_kept (u_dst u) (map (\<lambda>i. locate_of (di_locate (dst ! i))) [0 ..< n]))
     OR (if n = 0 then u_src u else or_keep (locate_of (di_locate src)) (u_src u))"

definition ingenic_aip_affine_process :: "hal_env \<Rightarrow> hal_fpu \<Rightarrow> unset \<Rightarrow> data_info \<Rightarrow> u32 \<Rightarrow> data_info list \<Rightarrow>
    box_affine list \<Rightarrow> (nat \<Rightarrow> u32) \<Rightarrow> (nat \<Rightarrow> u32) \<Rightarrow> hal_lib \<Rightarrow> fault + (int \<times> data_info \<times> hal_lib)" where
  "ingenic_aip_affine_process he fp u src box_num dst boxes coef offset = locked_p (\<lambda>l.
     let n = nat (sint box_num) in
     res_bind (node_room he (104 * box_num) (anode l)) (\<lambda>(ok, a).
     let l = l\<lparr>anode := a\<rparr> in
     if \<not> ok then Inr (- 1, src, l)
     else res_bind (hal_job he (Job_p (p_nodes (affine_coefs fp) (\<lambda>i. di_stride (dst ! i)) u n src dst boxes offset)
         box_num coef (p_cfg u n src dst)) (lib_hal l)) (\<lambda>(ret, h).
       Inr (ret, p_source n src, l\<lparr>lib_hal := h\<rparr>))))"

text \<open>Here every node gets the stride of the first destination.\<close>

definition ingenic_aip_perspective_process :: "hal_env \<Rightarrow> hal_fpu \<Rightarrow> unset \<Rightarrow> data_info \<Rightarrow> u32 \<Rightarrow> data_info list \<Rightarrow>
    box_affine list \<Rightarrow> (nat \<Rightarrow> u32) \<Rightarrow> (nat \<Rightarrow> u32) \<Rightarrow> hal_lib \<Rightarrow> fault + (int \<times> data_info \<times> hal_lib)" where
  "ingenic_aip_perspective_process he fp u src box_num dst boxes coef offset = locked_p (\<lambda>l.
     let n = nat (sint box_num) in
     res_bind (node_room he (104 * box_num) (pnode l)) (\<lambda>(ok, p).
     let l = l\<lparr>pnode := p\<rparr> in
     if \<not> ok then Inr (- 1, src, l)
     else res_bind (hal_job he (Job_p (p_nodes (perspective_coefs fp) (\<lambda>i. di_stride (dst ! 0)) u n src dst boxes offset)
         box_num coef (p_cfg u n src dst)) (lib_hal l)) (\<lambda>(ret, h).
       Inr (ret, p_source n src, l\<lparr>lib_hal := h\<rparr>))))"

definition f_cfg :: "unset \<Rightarrow> data_info \<Rightarrow> data_info \<Rightarrow> u32" where
  "f_cfg u src dst = push_bit 7 (or_keep (f_src_format (di_format src)) (u_format u)) OR
     push_bit 1 (or_keep (locate_of (di_locate dst)) (u_dst u)) OR or_keep (locate_of (di_locate src)) (u_src u)"

definition ingenic_aip_resize_process :: "hal_env \<Rightarrow> hal_fpu \<Rightarrow> unset \<Rightarrow> data_info \<Rightarrow> u32 \<Rightarrow> data_info list \<Rightarrow>
    box_info list \<Rightarrow> hal_lib \<Rightarrow> fault + (int \<times> data_info \<times> hal_lib)" where
  "ingenic_aip_resize_process he fp u src box_num dst boxes = locked_f (\<lambda>l.
     let n = nat (sint box_num) in
     res_bind (node_room he (48 * box_num) (fnode l)) (\<lambda>(ok, f).
     let l = l\<lparr>fnode := f\<rparr> in
     if \<not> ok then Inr (- 1, src, l)
     else res_bind (hal_job he (Job_f (map (\<lambda>i. hal_f_node fp (p_source n src) (dst ! i) (boxes ! i)) [0 ..< n])
         box_num (f_cfg u src (dst ! 0))) (lib_hal l)) (\<lambda>(ret, h).
       Inr (ret, p_source n src, l\<lparr>lib_hal := h\<rparr>))))"

text \<open>The conversion: \<open>bs_covert_cfg\<close> leaves the mutex locked for the steps that follow it.\<close>

definition hal_t_node :: "data_info \<Rightarrow> data_info \<Rightarrow> aip_t_chainnode" where
  "hal_t_node src dst = \<lparr>ht_src_base_y = di_base src, ht_src_base_uv = di_base1 src, ht_dst_base = di_base dst,
     ht_src_width = ucast (di_width src), ht_src_height = ucast (di_height src),
     ht_src_stride = ucast (di_stride src), ht_dst_stride = ucast (di_stride dst), ht_t_ctrl = 0\<rparr>"

definition bs_covert_step_exit :: "hal_lib \<Rightarrow> hal_lib" where
  "bs_covert_step_exit l = l\<lparr>mutex_t := False\<rparr>"

definition bs_covert_cfg :: "hal_env \<Rightarrow> unset \<Rightarrow> data_info \<Rightarrow> data_info \<Rightarrow> (nat \<Rightarrow> u32) \<Rightarrow> (nat \<Rightarrow> u32) \<Rightarrow> hal_lib \<Rightarrow>
    fault + (int \<times> data_info \<times> hal_lib)" where
  "bs_covert_cfg he u src dst coef offset l =
     (if mutex_t l then Inl Sleeps
      else let l = l\<lparr>mutex_t := True\<rparr>; src = second_plane src;
        ofst = push_bit 24 (or_keep (t_dst_format (di_format dst)) (u_format u)) OR push_bit 16 0 OR
          push_bit 8 (offset 1) OR offset 0;
        cfg = push_bit 1 (or_keep (locate_of (di_locate dst)) (u_dst u)) OR or_keep (locate_of (di_locate src)) (u_src u)
      in res_bind (aip_t_init he (hal_t_node src dst) 1 coef ofst cfg (lib_hal l)) (\<lambda>(ret, h).
        let l = l\<lparr>lib_hal := h\<rparr> in
        Inr (ret, src, if ret \<noteq> 0 then bs_covert_step_exit l else l)))"

definition bs_covert_step_start :: "hal_env \<Rightarrow> u32 \<Rightarrow> u32 \<Rightarrow> hal_lib \<Rightarrow> fault + (int \<times> hal_lib)" where
  "bs_covert_step_start he len dst_ptr l =
     res_bind (aip_t_start he len dst_ptr (lib_hal l)) (\<lambda>h. Inr (0, l\<lparr>lib_hal := h\<rparr>))"

definition bs_covert_step_wait :: "hal_env \<Rightarrow> hal_lib \<Rightarrow> fault + int" where
  "bs_covert_step_wait he l = hal_wait he INDEX_AIP_T (lib_hal l)"

end
