(* ===== verification/HalLib.thy ===== *)
theory HalLib
  imports HalApi
begin

text \<open>
  What the calls of \<open>HalApi\<close> do together: sessions from the first start to the last end, what
  the count of users makes of more than one, the addresses and scales sent to the
  engines, and the precision of the coefficients.
\<close>

section \<open>Sessions\<close>

text \<open>The calls of a client between start and end; the four steps of a conversion are one.\<close>

datatype lib_call =
  Affine data_info u32 "data_info list" "box_affine list"
| Perspective data_info u32 "data_info list" "box_affine list"
| Resize data_info u32 "data_info list" "box_info list"
| Convert data_info data_info u32 u32

record lib_env =
  le_hal :: hal_env
  le_fpu :: hal_fpu
  le_unset :: unset
  le_coef :: "nat \<Rightarrow> u32"
  le_offset :: "nat \<Rightarrow> u32"

text \<open>A call writes \<open>base1\<close> into the caller's description of the source, which is part of its result.\<close>

definition with_src :: "fault + (int \<times> data_info \<times> hal_lib) \<Rightarrow> fault + ((int \<times> data_info) \<times> hal_lib)" where
  "with_src r = res_bind r (\<lambda>(ret, src, l). Inr ((ret, src), l))"

primrec run_call :: "lib_env \<Rightarrow> lib_call \<Rightarrow> hal_lib \<Rightarrow> fault + ((int \<times> data_info) \<times> hal_lib)" where
  "run_call e (Affine src n dst boxes) l = with_src (ingenic_aip_affine_process (le_hal e) (le_fpu e) (le_unset e)
     src n dst boxes (le_coef e) (le_offset e) l)"
| "run_call e (Perspective src n dst boxes) l = with_src (ingenic_aip_perspective_process (le_hal e) (le_fpu e) (le_unset e)
     src n dst boxes (le_coef e) (le_offset e) l)"
| "run_call e (Resize src n dst boxes) l = with_src (ingenic_aip_resize_process (le_hal e) (le_fpu e) (le_unset e)
     src n dst boxes l)"
| "run_call e (Convert src dst len ptr) l =
     res_bind (bs_covert_cfg (le_hal e) (le_unset e) src dst (le_coef e) (le_offset e) l) (\<lambda>(ret, src, l).
     if ret \<noteq> 0 then Inr ((ret, src), l)
     else res_bind (bs_covert_step_start (le_hal e) len ptr l) (\<lambda>(ret, l).
       res_bind (bs_covert_step_wait (le_hal e) l) (\<lambda>ret. Inr ((ret, src), bs_covert_step_exit l))))"

text \<open>The description a call leaves: a second plane that is not given lies behind the first. A warp or a resize
  fills it in for NV12 only, a conversion always.\<close>

primrec call_src :: "lib_call \<Rightarrow> data_info" where
  "call_src (Affine src n dst boxes) = (if di_format src = BS_DATA_NV12 then second_plane src else src)"
| "call_src (Perspective src n dst boxes) = (if di_format src = BS_DATA_NV12 then second_plane src else src)"
| "call_src (Resize src n dst boxes) = (if di_format src = BS_DATA_NV12 then second_plane src else src)"
| "call_src (Convert src dst len ptr) = second_plane src"

primrec call_chan :: "lib_call \<Rightarrow> hal_chan" where
  "call_chan (Affine src n dst boxes) = INDEX_AIP_P"
| "call_chan (Perspective src n dst boxes) = INDEX_AIP_P"
| "call_chan (Resize src n dst boxes) = INDEX_AIP_F"
| "call_chan (Convert src dst len ptr) = INDEX_AIP_T"

primrec small_call :: "lib_call \<Rightarrow> bool" where
  "small_call (Affine src n dst boxes) \<longleftrightarrow> 0 < n \<and> n \<le> 18"
| "small_call (Perspective src n dst boxes) \<longleftrightarrow> 0 < n \<and> n \<le> 18"
| "small_call (Resize src n dst boxes) \<longleftrightarrow> 0 < n \<and> n \<le> 39"
| "small_call (Convert src dst len ptr) \<longleftrightarrow> True"

fun session_calls :: "lib_env \<Rightarrow> lib_call list \<Rightarrow> hal_lib \<Rightarrow> fault + ((int \<times> data_info) list \<times> hal_lib)" where
  "session_calls e [] l = Inr ([], l)"
| "session_calls e (c # cs) l = res_bind (run_call e c l) (\<lambda>(r, l).
     res_bind (session_calls e cs l) (\<lambda>(rs, l). Inr (r # rs, l)))"

text \<open>Between start and end.\<close>

definition buf_ok :: "node_buf \<times> u32 \<Rightarrow> bool" where
  "buf_ok b \<longleftrightarrow> (case fst b of No_buf \<Rightarrow> snd b = 0 | Buf \<Rightarrow> True | Freed_buf \<Rightarrow> False)"

definition lib_inv :: "hal_env \<Rightarrow> int multiset \<Rightarrow> hal_lib \<Rightarrow> bool" where
  "lib_inv he base l \<longleftrightarrow> hal_inv he base (lib_hal l) \<and> open_cnt l = 1 \<and> buf_ok (pnode l) \<and> buf_ok (anode l) \<and>
     buf_ok (fnode l) \<and> \<not> mutex_f l \<and> \<not> mutex_t l \<and> \<not> mutex_p l"

lemma node_room_ok:
  assumes "he_malloc he" "buf_ok b"
  shows "\<exists>b'. node_room he need b = Inr (True, b') \<and> buf_ok b'"
proof -
  obtain p size where b: "b = (p, size)" by (cases b)
  have "need \<noteq> 0 \<Longrightarrow> p = No_buf \<Longrightarrow> size < need"
    using assms(2) by (simp add: b buf_ok_def word_neq_0_conv)
  then show ?thesis using assms by (cases p) (auto simp: b node_room_def buf_ok_def not_less)
qed

text \<open>What a call does to the library: the result, the invariant kept, other memory untouched.\<close>

definition call_runs :: "hal_env \<Rightarrow> int multiset \<Rightarrow> 'r \<Rightarrow> (hal_lib \<Rightarrow> fault + ('r \<times> hal_lib)) \<Rightarrow> hal_lib \<Rightarrow> bool" where
  "call_runs he base r f l \<longleftrightarrow> (\<exists>l'. f l = Inr (r, l') \<and> lib_inv he base l' \<and>
     stays_in_windows (lib_hal l) (lib_hal l'))"

lemma room_and_job:
  assumes "hal_works he" "lib_inv he base l" "buf_ok b" "small_job j"
  obtains b' h where "node_room he need b = Inr (True, b')" "buf_ok b'"
    "hal_job he j (lib_hal l) = Inr (min 0 (he_wait he (job_chan j)), h)" "hal_inv he base h"
    "stays_in_windows (lib_hal l) h"
proof -
  have "he_malloc he" "hal_inv he base (lib_hal l)" using assms(1,2) by (simp_all add: hal_works_def lib_inv_def)
  with node_room_ok [OF _ assms(3), of he need] job_small [OF assms(1) _ assms(4), of base "lib_hal l"] that
  show thesis by blast
qed

lemma affine_runs:
  assumes "hal_works he" "lib_inv he base l" "0 < n" "n \<le> 18"
  shows "call_runs he base (min 0 (he_wait he INDEX_AIP_P), p_source (nat (sint n)) src)
    (\<lambda>l. with_src (ingenic_aip_affine_process he fp u src n dst boxes coef offset l)) l"
proof -
  let ?j = "Job_p (p_nodes (affine_coefs fp) (\<lambda>i. di_stride (dst ! i)) u (nat (sint n)) src dst boxes offset)
    n coef (p_cfg u (nat (sint n)) src dst)"
  have "buf_ok (anode l)" "small_job ?j" using assms by (simp_all add: lib_inv_def)
  from room_and_job [OF assms(1,2) this, of "104 * n"] obtain b h where "node_room he (104 * n) (anode l) = Inr (True, b)" "buf_ok b"
    "hal_job he ?j (lib_hal l) = Inr (min 0 (he_wait he INDEX_AIP_P), h)" "hal_inv he base h"
    "stays_in_windows (lib_hal l) h" by auto
  with assms(2) show ?thesis
    by (simp add: call_runs_def with_src_def ingenic_aip_affine_process_def locked_p_def lib_inv_def Let_def)
qed

lemma perspective_runs:
  assumes "hal_works he" "lib_inv he base l" "0 < n" "n \<le> 18"
  shows "call_runs he base (min 0 (he_wait he INDEX_AIP_P), p_source (nat (sint n)) src)
    (\<lambda>l. with_src (ingenic_aip_perspective_process he fp u src n dst boxes coef offset l)) l"
proof -
  let ?j = "Job_p (p_nodes (perspective_coefs fp) (\<lambda>i. di_stride (dst ! 0)) u (nat (sint n)) src dst boxes offset)
    n coef (p_cfg u (nat (sint n)) src dst)"
  have "buf_ok (pnode l)" "small_job ?j" using assms by (simp_all add: lib_inv_def)
  from room_and_job [OF assms(1,2) this, of "104 * n"] obtain b h where "node_room he (104 * n) (pnode l) = Inr (True, b)" "buf_ok b"
    "hal_job he ?j (lib_hal l) = Inr (min 0 (he_wait he INDEX_AIP_P), h)" "hal_inv he base h"
    "stays_in_windows (lib_hal l) h" by auto
  with assms(2) show ?thesis
    by (simp add: call_runs_def with_src_def ingenic_aip_perspective_process_def locked_p_def lib_inv_def Let_def)
qed

lemma resize_runs:
  assumes "hal_works he" "lib_inv he base l" "0 < n" "n \<le> 39"
  shows "call_runs he base (min 0 (he_wait he INDEX_AIP_F), p_source (nat (sint n)) src)
    (\<lambda>l. with_src (ingenic_aip_resize_process he fp u src n dst boxes l)) l"
proof -
  let ?j = "Job_f (map (\<lambda>i. hal_f_node fp (p_source (nat (sint n)) src) (dst ! i) (boxes ! i)) [0 ..< nat (sint n)])
    n (f_cfg u src (dst ! 0))"
  have "buf_ok (fnode l)" "small_job ?j" using assms by (simp_all add: lib_inv_def)
  from room_and_job [OF assms(1,2) this, of "48 * n"] obtain b h where "node_room he (48 * n) (fnode l) = Inr (True, b)" "buf_ok b"
    "hal_job he ?j (lib_hal l) = Inr (min 0 (he_wait he INDEX_AIP_F), h)" "hal_inv he base h"
    "stays_in_windows (lib_hal l) h" by auto
  with assms(2) show ?thesis
    by (simp add: call_runs_def with_src_def ingenic_aip_resize_process_def locked_f_def lib_inv_def Let_def)
qed

lemma convert_runs:
  assumes "hal_works (le_hal e)" "lib_inv (le_hal e) base l"
  shows "call_runs (le_hal e) base (min 0 (he_wait (le_hal e) INDEX_AIP_T), second_plane src) (run_call e (Convert src dst len ptr)) l"
proof -
  let ?he = "le_hal e" and ?u = "le_unset e"
  let ?j = "Job_t (hal_t_node (second_plane src) dst) 1 (le_coef e)
    (push_bit 24 (or_keep (t_dst_format (di_format dst)) (u_format ?u)) OR push_bit 16 0 OR push_bit 8 (le_offset e 1) OR le_offset e 0)
    (push_bit 1 (or_keep (locate_of (di_locate dst)) (u_dst ?u)) OR or_keep (locate_of (di_locate (second_plane src))) (u_src ?u)) len ptr"
  have inv: "hal_inv ?he base (lib_hal l)" and small: "small_job ?j" using assms(2) by (simp_all add: lib_inv_def)
  obtain h1 where h1: "job_init ?he ?j (lib_hal l) = Inr (0, h1)" using job_init_small [OF assms(1) inv small] by blast
  obtain h where h: "hal_job ?he ?j (lib_hal l) = Inr (min 0 (he_wait ?he INDEX_AIP_T), h)" "hal_inv ?he base h"
    "stays_in_windows (lib_hal l) h"
    using job_small [OF assms(1) inv small] by auto
  from h(1) h1 have "aip_t_start ?he len ptr h1 = Inr h" "hal_wait ?he INDEX_AIP_T h = Inr (min 0 (he_wait ?he INDEX_AIP_T))"
    by (auto simp: hal_job_def res_bind_Inr_iff)
  with h1 h(2,3) assms(2) show ?thesis
    by (simp add: call_runs_def bs_covert_cfg_def bs_covert_step_start_def bs_covert_step_wait_def bs_covert_step_exit_def
        lib_inv_def Let_def)
qed

definition call_result :: "lib_env \<Rightarrow> lib_call \<Rightarrow> int \<times> data_info" where
  "call_result e c = (min 0 (he_wait (le_hal e) (call_chan c)), call_src c)"

lemma p_source_small: "0 < (n :: u32) \<Longrightarrow> n \<le> 56 \<Longrightarrow> p_source (nat (sint n)) src = (if di_format src = BS_DATA_NV12 then second_plane src else src)"
  using small_num(1) [of n] by (simp add: p_source_def)

lemma small_n: "n \<le> 18 \<Longrightarrow> n \<le> (56 :: u32)" "n \<le> 39 \<Longrightarrow> n \<le> (56 :: u32)"
  by (simp_all add: word_le_nat_alt)

lemma calls_run:
  assumes "hal_works (le_hal e)" "lib_inv (le_hal e) base l" "\<forall>c \<in> set cs. small_call c"
  shows "\<exists>l'. session_calls e cs l = Inr (map (call_result e) cs, l') \<and> lib_inv (le_hal e) base l' \<and>
    stays_in_windows (lib_hal l) (lib_hal l')"
  using assms(2,3)
proof (induction cs arbitrary: l)
  case (Cons c cs)
  have "call_runs (le_hal e) base (call_result e c) (run_call e c) l"
    using affine_runs [OF assms(1) Cons.prems(1)] perspective_runs [OF assms(1) Cons.prems(1)]
      resize_runs [OF assms(1) Cons.prems(1)] convert_runs [OF assms(1) Cons.prems(1)] Cons.prems(2)
    by (cases c) (simp_all add: call_runs_def call_result_def p_source_small small_n)
  then obtain l1 where l1: "run_call e c l = Inr (call_result e c, l1)" "lib_inv (le_hal e) base l1"
    "stays_in_windows (lib_hal l) (lib_hal l1)" by (auto simp: call_runs_def)
  obtain l2 where "session_calls e cs l1 = Inr (map (call_result e) cs, l2)" "lib_inv (le_hal e) base l2"
    "stays_in_windows (lib_hal l1) (lib_hal l2)"
    using Cons.IH [OF l1(2)] Cons.prems(2) by auto
  with l1 stays_trans [OF l1(3)] show ?case by simp
qed simp

section \<open>Start and end\<close>

definition lib_fresh :: "hal_lib \<Rightarrow> bool" where
  "lib_fresh l \<longleftrightarrow> hal_fresh (lib_hal l) \<and> open_cnt l = 0 \<and> \<not> mutex_f l \<and> \<not> mutex_t l \<and> \<not> mutex_p l"

lemma init_inv:
  assumes "hal_works he" "lib_fresh l"
  shows "\<exists>l'. ingenic_aip_init he l = Inr (0, l') \<and> lib_inv he (mset (hal_fds (lib_hal l))) l' \<and>
    hal_mem (lib_hal l') = hal_mem (lib_hal l) \<and> hal_windows (lib_hal l') = {} \<and> pnode l' = (No_buf, 0) \<and> anode l' = (No_buf, 0) \<and> fnode l' = (No_buf, 0)"
proof -
  have fresh: "hal_fresh (lib_hal l)" using assms(2) by (simp add: lib_fresh_def)
  obtain h where h: "aip_mem_init he (lib_hal l) = Inr (0, h)" using mem_init_works [OF assms(1) fresh] by blast
  from started_inv [OF assms(1) fresh h] h assms(2) show ?thesis
    by (simp add: ingenic_aip_init_def lib_fresh_def lib_inv_def buf_ok_def Let_def)
qed

lemma deinit_inv:
  assumes "hal_works he" "lib_inv he base l"
  shows "\<exists>l'. ingenic_aip_deinit l = Inr (0, l') \<and> lib_fresh l' \<and> mset (hal_fds (lib_hal l')) = base \<and>
    hal_mem (lib_hal l') = hal_mem (lib_hal l)"
proof -
  have free: "\<exists>b'. free_buf b = Inr b'" if "buf_ok b" for b
    using that by (cases b) (auto simp: free_buf_def buf_ok_def split: node_buf.splits)
  obtain p a f where "free_buf (pnode l) = Inr p" "free_buf (anode l) = Inr a" "free_buf (fnode l) = Inr f"
    using free [of "pnode l"] free [of "anode l"] free [of "fnode l"] assms(2) unfolding lib_inv_def by blast
  moreover have "0 < he_mem_fd he" "hal_inv he base (lib_hal l)" using assms by (simp_all add: hal_works_def lib_inv_def)
  from mem_free_inv [OF this] obtain h where "aip_mem_free (lib_hal l) = Inr (0, h)" "hal_fresh h" "mset (hal_fds h) = base"
    "hal_mem h = hal_mem (lib_hal l)" by blast
  ultimately show ?thesis using assms(2)
    by (simp add: ingenic_aip_deinit_def lib_inv_def lib_fresh_def Let_def)
qed

text \<open>C11. A session of one user, with any calls of at most 18 boxes to the AIP-P engine and 39 to the
  AIP-F engine: the start succeeds, every call returns the result of its wait and leaves the description of the source
  with its second plane filled in as \<open>call_src\<close> says, no byte of memory is written but in the first 4096 of the
  chain buffers the session mapped, each of which the old driver gave with at least that size, and the end leaves the library as before the
  start, with the descriptors that were open then.\<close>

theorem hal_lib_session:
  assumes "hal_works (le_hal e)" "lib_fresh l0" "\<forall>c \<in> set cs. small_call c"
  shows "\<exists>l1 l2 l3. ingenic_aip_init (le_hal e) l0 = Inr (0, l1) \<and>
    session_calls e cs l1 = Inr (map (\<lambda>c. (min 0 (he_wait (le_hal e) (call_chan c)), call_src c)) cs, l2) \<and>
    ingenic_aip_deinit l2 = Inr (0, l3) \<and> lib_fresh l3 \<and> mset (hal_fds (lib_hal l3)) = mset (hal_fds (lib_hal l0)) \<and>
    (\<forall>a. a \<notin> hal_windows (lib_hal l2) \<longrightarrow> hal_mem (lib_hal l3) a = hal_mem (lib_hal l0) a) \<and>
    (\<forall>c m. manages (lib_hal l2) c = Manage m \<and> fd_open_cnt m \<noteq> 0 \<longrightarrow>
      (\<exists>sz pa. he_chainbuf (le_hal e) c sz = Some (pa, sz) \<and> 4096 \<le> sz \<and> cb_vaddr m = he_mmap (le_hal e) c sz pa))"
proof -
  obtain l1 where l1: "ingenic_aip_init (le_hal e) l0 = Inr (0, l1)" "lib_inv (le_hal e) (mset (hal_fds (lib_hal l0))) l1"
    "hal_mem (lib_hal l1) = hal_mem (lib_hal l0)" using init_inv [OF assms(1,2)] by blast
  obtain l2 where l2: "session_calls e cs l1 = Inr (map (call_result e) cs, l2)"
    "lib_inv (le_hal e) (mset (hal_fds (lib_hal l0))) l2" "stays_in_windows (lib_hal l1) (lib_hal l2)"
    using calls_run [OF assms(1) l1(2) assms(3)] by blast
  have "\<exists>sz pa. he_chainbuf (le_hal e) c sz = Some (pa, sz) \<and> 4096 \<le> sz \<and> cb_vaddr m = he_mmap (le_hal e) c sz pa"
    if "manages (lib_hal l2) c = Manage m" "fd_open_cnt m \<noteq> 0" for c m
  proof -
    have "manage_ok (le_hal e) (lib_hal l2) c m"
      using l2(2) that(1) unfolding lib_inv_def hal_inv_def by (metis manage_ptr.inject)
    then show ?thesis using that(2) by (auto simp: manage_ok_def)
  qed
  with deinit_inv [OF assms(1) l2(2)] l1 l2 show ?thesis by (auto simp: stays_in_windows_def call_result_def)
qed

text \<open>Data for the witnesses.\<close>

definition sample_fpu :: hal_fpu where
  "sample_fpu = \<lparr>fp_unit = exact_fpu (\<lambda>_. 0), fp_uint = (\<lambda>_. 0), fp_int64 = (\<lambda>_. 0), fp_div0 = (0, 0)\<rparr>"

definition sample_lib_env :: lib_env where
  "sample_lib_env = \<lparr>le_hal = sample_he, le_fpu = sample_fpu, le_unset = \<lparr>u_format = 0, u_src = 0, u_dst = 0\<rparr>,
     le_coef = (\<lambda>_. 0), le_offset = (\<lambda>_. 16)\<rparr>"

definition sample_lib :: hal_lib where
  "sample_lib = \<lparr>lib_hal = sample_hal, open_cnt = 0, pnode = (No_buf, 0), anode = (No_buf, 0), fnode = (No_buf, 0),
     mutex_f = False, mutex_t = False, mutex_p = False\<rparr>"

definition sample_img :: data_info where
  "sample_img = \<lparr>di_base = 0x100000, di_base1 = 0, di_format = BS_DATA_NV12, di_width = 64, di_height = 48,
     di_stride = 64, di_locate = BS_DATA_NMEM\<rparr>"

definition sample_box :: box_info where
  "sample_box = \<lparr>box_x = 2, box_y = 4, box_w = 32, box_h = 24\<rparr>"

definition sample_abox :: box_affine where
  "sample_abox = \<lparr>box_x = 2, box_y = 4, box_w = 32, box_h = 24, box_matrix = shear, zero_point = 0\<rparr>"

lemma sample_lib_ok: "hal_works (le_hal sample_lib_env)" "lib_fresh sample_lib"
  using sample_works by (simp_all add: sample_lib_env_def lib_fresh_def sample_lib_def)

theorem hal_lib_session_witness:
  "\<exists>l1 l2 l3. ingenic_aip_init sample_he sample_lib = Inr (0, l1) \<and>
    session_calls sample_lib_env [Resize sample_img 1 [sample_img] [sample_box],
      Affine sample_img 2 [sample_img, sample_img] [sample_abox, sample_abox], Convert sample_img sample_img 48 0x200000] l1 =
        Inr ([(0, sample_img\<lparr>di_base1 := 0x100c00\<rparr>), (0, sample_img\<lparr>di_base1 := 0x100c00\<rparr>), (0, sample_img\<lparr>di_base1 := 0x100c00\<rparr>)], l2) \<and>
    ingenic_aip_deinit l2 = Inr (0, l3) \<and> mset (hal_fds (lib_hal l3)) = {#0, 1, 2#}"
proof -
  have "\<forall>c \<in> set [Resize sample_img 1 [sample_img] [sample_box],
      Affine sample_img 2 [sample_img, sample_img] [sample_abox, sample_abox], Convert sample_img sample_img 48 0x200000]. small_call c"
    by simp
  moreover have "second_plane sample_img = sample_img\<lparr>di_base1 := 0x100c00\<rparr>" "di_format sample_img = BS_DATA_NV12"
    by (simp_all add: second_plane_def sample_img_def)
  ultimately show ?thesis using hal_lib_session [OF sample_lib_ok, of "[Resize sample_img 1 [sample_img] [sample_box],
      Affine sample_img 2 [sample_img, sample_img] [sample_abox, sample_abox], Convert sample_img sample_img 48 0x200000]"]
    by (auto simp: sample_lib_env_def sample_he_def sample_lib_def sample_hal_def)
qed

section \<open>The count of users\<close>

text \<open>With two users the first end frees everything: the other user's next call works on a freed array.\<close>

theorem hal_deinit_frees_other_user:
  assumes "hal_works (le_hal e)" "lib_fresh l0" "0 < n" "n \<le> 39"
  shows "\<exists>l1 r l2 l3 l4. ingenic_aip_init (le_hal e) l0 = Inr (0, l1) \<and>
    run_call e (Resize src n dst boxes) l1 = Inr (r, l2) \<and> ingenic_aip_init (le_hal e) l2 = Inr (0, l3) \<and> open_cnt l3 = 2 \<and>
    ingenic_aip_deinit l3 = Inr (0, l4) \<and> run_call e (Resize src n dst boxes) l4 = Inl Use_after_free"
proof -
  obtain l1 where l1: "ingenic_aip_init (le_hal e) l0 = Inr (0, l1)" "lib_inv (le_hal e) (mset (hal_fds (lib_hal l0))) l1"
    "fnode l1 = (No_buf, 0)" "pnode l1 = (No_buf, 0)" "anode l1 = (No_buf, 0)" using init_inv [OF assms(1,2)] by blast
  let ?j = "Job_f (map (\<lambda>i. hal_f_node (le_fpu e) (p_source (nat (sint n)) src) (dst ! i) (boxes ! i)) [0 ..< nat (sint n)])
    n (f_cfg (le_unset e) src (dst ! 0))"
  have "buf_ok (fnode l1)" "small_job ?j" using l1(2) assms(3,4) by (simp_all add: lib_inv_def)
  from room_and_job [OF assms(1) l1(2) this, of "48 * n"] obtain b h where
    b: "node_room (le_hal e) (48 * n) (fnode l1) = Inr (True, b)" "buf_ok b" and
    h: "hal_job (le_hal e) ?j (lib_hal l1) = Inr (min 0 (he_wait (le_hal e) INDEX_AIP_F), h)" "hal_inv (le_hal e) (mset (hal_fds (lib_hal l0))) h"
    "stays_in_windows (lib_hal l1) h" by auto
  have "unat (48 * n) = 48 * unat n" "0 < unat n"
    using assms(3,4) by (simp_all add: word_le_nat_alt word_less_nat_alt unat_word_ariths)
  then have need: "0 < 48 * n" "48 * n \<noteq> 0" by (auto simp: word_less_nat_alt)
  then have b': "b = (Buf, 48 * n)" using b(1) l1(3) by (auto simp: node_room_def split: if_splits)
  define l2 where "l2 = l1\<lparr>fnode := (Buf, 48 * n), lib_hal := h\<rparr>"
  have r: "run_call e (Resize src n dst boxes) l1 = Inr ((min 0 (he_wait (le_hal e) INDEX_AIP_F), p_source (nat (sint n)) src), l2)"
    using b(1) b' h(1) l1(2) by (simp add: with_src_def ingenic_aip_resize_process_def locked_f_def lib_inv_def l2_def Let_def)
  have i: "ingenic_aip_init (le_hal e) l2 = Inr (0, l2\<lparr>open_cnt := 2\<rparr>)"
    using l1(2) by (simp add: ingenic_aip_init_def lib_inv_def l2_def Let_def)
  have "0 < he_mem_fd (le_hal e)" using assms(1) by (simp add: hal_works_def)
  from mem_free_inv [OF this h(2)] obtain h' where h': "aip_mem_free h = Inr (0, h')" by blast
  define l4 where "l4 = l2\<lparr>open_cnt := 1, lib_hal := h', fnode := (Freed_buf, 48 * n)\<rparr>"
  have d: "ingenic_aip_deinit (l2\<lparr>open_cnt := 2\<rparr>) = Inr (0, l4)"
    using h' l1(4,5) by (simp add: ingenic_aip_deinit_def free_buf_def l2_def l4_def Let_def)
  have "run_call e (Resize src n dst boxes) l4 = Inl Use_after_free"
    using need l1(2) by (simp add: with_src_def ingenic_aip_resize_process_def locked_f_def node_room_def l2_def l4_def lib_inv_def Let_def)
  with l1(1) r i d show ?thesis by (intro exI conjI) (assumption | simp)+
qed

theorem hal_deinit_frees_other_user_witness:
  "\<exists>l1 r l2 l3 l4. ingenic_aip_init sample_he sample_lib = Inr (0, l1) \<and>
    run_call sample_lib_env (Resize sample_img 1 [sample_img] [sample_box]) l1 = Inr (r, l2) \<and>
    ingenic_aip_init sample_he l2 = Inr (0, l3) \<and> ingenic_aip_deinit l3 = Inr (0, l4) \<and>
    run_call sample_lib_env (Resize sample_img 1 [sample_img] [sample_box]) l4 = Inl Use_after_free"
proof -
  have "le_hal sample_lib_env = sample_he" by (simp add: sample_lib_env_def)
  with hal_deinit_frees_other_user [OF sample_lib_ok, of 1 sample_img "[sample_img]" "[sample_box]"]
  show ?thesis by auto
qed

text \<open>A start can report success without starting: after one end too many, because the count has
  wrapped around, and after a start that failed, because it was counted. Every call fails then.\<close>

lemma no_structures:
  assumes "hal_fresh (lib_hal l)" "buf_ok (fnode l)" "he_malloc (le_hal e)" "\<not> mutex_f l"
  shows "\<exists>l'. run_call e (Resize src n dst boxes) l = Inr ((- 2, p_source (nat (sint n)) src), l')"
proof -
  obtain b where "node_room (le_hal e) (48 * n) (fnode l) = Inr (True, b)" using node_room_ok [OF assms(3,2)] by blast
  with assms show ?thesis
    by (simp add: with_src_def ingenic_aip_resize_process_def locked_f_def hal_job_def aip_f_init_def hal_fresh_def Let_def)
qed

theorem hal_start_without_structures:
  assumes "hal_works (le_hal e)" "lib_fresh l0"
  shows "\<exists>l1 l2 l3 l4 l5. ingenic_aip_init (le_hal e) l0 = Inr (0, l1) \<and> ingenic_aip_deinit l1 = Inr (0, l2) \<and>
      ingenic_aip_deinit l2 = Inr (0, l3) \<and> ingenic_aip_init (le_hal e) l3 = Inr (0, l4) \<and>
      run_call e (Resize src n dst boxes) l4 = Inr ((- 2, p_source (nat (sint n)) src), l5)"
    "buf_ok (fnode l0) \<Longrightarrow> \<exists>l1 l2 l3. ingenic_aip_init (le_hal e\<lparr>he_malloc := False\<rparr>) l0 = Inr (- 1, l1) \<and>
      ingenic_aip_init (le_hal e) l1 = Inr (0, l2) \<and> run_call e (Resize src n dst boxes) l2 = Inr ((- 2, p_source (nat (sint n)) src), l3)"
proof -
  have m: "he_malloc (le_hal e)" using assms(1) by (simp add: hal_works_def)
  obtain l1 where l1: "ingenic_aip_init (le_hal e) l0 = Inr (0, l1)" "lib_inv (le_hal e) (mset (hal_fds (lib_hal l0))) l1"
    "fnode l1 = (No_buf, 0)" "pnode l1 = (No_buf, 0)" "anode l1 = (No_buf, 0)" using init_inv [OF assms] by blast
  obtain l2 where l2: "ingenic_aip_deinit l1 = Inr (0, l2)" "lib_fresh l2" using deinit_inv [OF assms(1) l1(2)] by blast
  have f2: "fnode l2 = (No_buf, 0)"
    using l1(2-5) l2(1) by (auto simp: ingenic_aip_deinit_def lib_inv_def free_buf_def Let_def res_bind_Inr_iff)
  have "(1 :: u32) < - 1" by (simp add: word_less_nat_alt unsigned_minus_1_eq_mask mask_eq_exp_minus_1)
  then have d: "ingenic_aip_deinit l2 = Inr (0, l2\<lparr>open_cnt := - 2\<rparr>)" and i: "ingenic_aip_init (le_hal e) (l2\<lparr>open_cnt := - 2\<rparr>) = Inr (0, l2\<lparr>open_cnt := - 1\<rparr>)"
    using l2(2) by (simp_all add: ingenic_aip_deinit_def ingenic_aip_init_def lib_fresh_def Let_def)
  have "\<exists>l5. run_call e (Resize src n dst boxes) (l2\<lparr>open_cnt := - 1\<rparr>) = Inr ((- 2, p_source (nat (sint n)) src), l5)"
    by (rule no_structures) (use l2(2) f2 m in \<open>simp_all add: lib_fresh_def buf_ok_def\<close>)
  with l1(1) l2(1) d i show "\<exists>l1 l2 l3 l4 l5. ingenic_aip_init (le_hal e) l0 = Inr (0, l1) \<and> ingenic_aip_deinit l1 = Inr (0, l2) \<and>
      ingenic_aip_deinit l2 = Inr (0, l3) \<and> ingenic_aip_init (le_hal e) l3 = Inr (0, l4) \<and>
      run_call e (Resize src n dst boxes) l4 = Inr ((- 2, p_source (nat (sint n)) src), l5)" by blast
  assume b: "buf_ok (fnode l0)"
  have f: "ingenic_aip_init (le_hal e\<lparr>he_malloc := False\<rparr>) l0 = Inr (- 1, l0\<lparr>open_cnt := 1, lib_hal := lib_hal l0\<rparr>)"
    using assms(2) by (simp add: ingenic_aip_init_def aip_mem_init_def lib_fresh_def hal_fresh_def Let_def)
  have s: "ingenic_aip_init (le_hal e) (l0\<lparr>open_cnt := 1, lib_hal := lib_hal l0\<rparr>) = Inr (0, l0\<lparr>open_cnt := 2, lib_hal := lib_hal l0\<rparr>)"
    by (simp add: ingenic_aip_init_def Let_def)
  have "\<exists>l3. run_call e (Resize src n dst boxes) (l0\<lparr>open_cnt := 2, lib_hal := lib_hal l0\<rparr>) = Inr ((- 2, p_source (nat (sint n)) src), l3)"
    by (rule no_structures) (use assms(2) b m in \<open>simp_all add: lib_fresh_def\<close>)
  with f s show "\<exists>l1 l2 l3. ingenic_aip_init (le_hal e\<lparr>he_malloc := False\<rparr>) l0 = Inr (- 1, l1) \<and>
      ingenic_aip_init (le_hal e) l1 = Inr (0, l2) \<and> run_call e (Resize src n dst boxes) l2 = Inr ((- 2, p_source (nat (sint n)) src), l3)" by blast
qed

theorem hal_start_without_structures_witness:
  "\<exists>l1 l2 l3. ingenic_aip_init (sample_he\<lparr>he_malloc := False\<rparr>) sample_lib = Inr (- 1, l1) \<and>
      ingenic_aip_init sample_he l1 = Inr (0, l2) \<and>
      run_call sample_lib_env (Resize sample_img 1 [sample_img] [sample_box]) l2 = Inr ((- 2, p_source 1 sample_img), l3)"
proof -
  have "buf_ok (fnode sample_lib)" "le_hal sample_lib_env = sample_he" by (simp_all add: sample_lib_def buf_ok_def sample_lib_env_def)
  with hal_start_without_structures(2) [OF sample_lib_ok, where n = 1 and src = sample_img and dst = "[sample_img]" and
      boxes = "[sample_box]"]
  show ?thesis by simp
qed

section \<open>Addresses and scales\<close>

text \<open>The crop of a source: resize and the warps read it at the same addresses, except for the
  format UV, where the resize forgets that a pixel has two bytes.\<close>

theorem crop_addresses_agree:
  assumes "is_rgb (di_format src) \<or> di_format src \<in> {BS_DATA_NV12, BS_DATA_UV, BS_DATA_Y}"
  shows "hf_src_base_uv (hal_f_node fp src dst box) = hp_src_base_uv (hal_p_node src dst stride box cs fmt offset) \<and>
    hp_src_base_y (hal_p_node src dst stride box cs fmt offset) =
      hf_src_base_y (hal_f_node fp src dst box) + (if di_format src = BS_DATA_UV then box_x box else 0)"
  using assms
  by (auto simp: hal_f_node_def hal_p_node_def f_src_place_def p_src_place_def is_rgb_def bs_data Let_def split: prod.splits)

theorem crop_addresses_agree_witness:
  "hp_src_base_y (hal_p_node (sample_img\<lparr>di_format := BS_DATA_UV\<rparr>) sample_img 64 sample_abox (replicate 9 0) 0 (\<lambda>_. 0)) =
    hf_src_base_y (hal_f_node sample_fpu (sample_img\<lparr>di_format := BS_DATA_UV\<rparr>) sample_img sample_abox) + 2"
  using crop_addresses_agree [where src = "sample_img\<lparr>di_format := BS_DATA_UV\<rparr>" and dst = sample_img and stride = 64 and
      box = sample_abox and cs = "replicate 9 0" and fmt = 0 and offset = "\<lambda>_. 0" and fp = sample_fpu]
  by (simp add: sample_abox_def sample_img_def)

end
