(* ===== verification/HalNumbers.thy ===== *)
theory HalNumbers
  imports HalApi
begin

text \<open>
  The numbers the previous library sends to the engines: the scale of a resize keeps its
  fraction, and coefficients of the warps are rounded through 64-bit integers.
\<close>

section \<open>The scale of a resize\<close>

text \<open>A \<open>float\<close> unit: results have a relative error of at most 2^-24, integers of 24 bits are exact.\<close>

definition float_unit :: "fpu \<Rightarrow> bool" where
  "float_unit u \<longleftrightarrow> (\<forall>x. \<bar>f32 u x - x\<bar> \<le> \<bar>x\<bar> / 2 ^ 24) \<and> (\<forall>n. \<bar>n\<bar> < 2 ^ 24 \<longrightarrow> f32 u (of_int n) = of_int n)"

lemma two_roundings:
  assumes "float_unit u" "0 \<le> q" "q \<le> 64"
  shows "0 \<le> f32 u (f32 u q * 65536)" "\<bar>f32 u (f32 u q * 65536) - 65536 * q\<bar> < 1"
proof -
  let ?s = "f32 u q" and ?p = "f32 u (f32 u q * 65536)"
  have e: "\<bar>f32 u x - x\<bar> \<le> \<bar>x\<bar> / 16777216" for x using assms(1) by (simp add: float_unit_def)
  have s: "\<bar>?s - q\<bar> \<le> q / 16777216" using e [of q] assms(2) by simp
  then have s0: "0 \<le> ?s" and s65: "?s \<le> 65" using assms(2,3) by linarith+
  have p: "\<bar>?p - ?s * 65536\<bar> \<le> ?s * 65536 / 16777216" using e [of "?s * 65536"] s0 by simp
  show "0 \<le> ?p" using p s0 by linarith
  show "\<bar>?p - 65536 * q\<bar> < 1" using p s s65 assms(3) by linarith
qed

lemma to_uint_floor:
  assumes "0 \<le> x" "x < 2 ^ 32"
  shows "x - 1 < of_int (uint (to_uint fp x))" "of_int (uint (to_uint fp x)) \<le> x"
proof -
  have "0 \<le> \<lfloor>x\<rfloor>" "\<lfloor>x\<rfloor> < 2 ^ 32" using assms by (simp_all add: floor_less_iff)
  then have "uint (of_int \<lfloor>x\<rfloor> :: u32) = \<lfloor>x\<rfloor>" by (simp add: unsigned_of_int take_bit_int_eq_self)
  then have "uint (to_uint fp x) = \<lfloor>x\<rfloor>" using assms \<open>\<lfloor>x\<rfloor> < 2 ^ 32\<close> by (simp add: to_uint_def)
  then show "x - 1 < of_int (uint (to_uint fp x))" "of_int (uint (to_uint fp x)) \<le> x" by (simp_all, linarith?)
qed

text \<open>For a box of at most 64 times the size of the destination, the scale sent to the engine is
  the quotient of the sizes in 16.16, with an error below 2 units of 2^-16.\<close>

theorem hal_scale_precise:
  assumes "float_unit (fp_unit fp)" "w < 2 ^ 24" "0 < dw" "dw < 2 ^ 24" "uint w \<le> 64 * uint dw"
  shows "\<bar>of_int (uint (fst (f_scale fp w dw))) - 65536 * (of_int (uint w) / of_int (uint dw))\<bar> < (2 :: rat)"
proof -
  let ?u = "fp_unit fp" and ?q = "of_int (uint w) / of_int (uint dw) :: rat"
  have b: "uint w < 2 ^ 24" "uint dw < 2 ^ 24" "0 < uint dw" using assms(2-4) by (simp_all add: word_less_def)
  have "w < 0x80000000" "dw < 0x80000000" using b by (simp_all add: word_less_def)
  then have s: "sint w = uint w" "sint dw = uint dw" by (simp_all add: sint_pos_u32)
  have ex: "f32 ?u (of_int n) = of_int n" if "\<bar>n\<bar> < 2 ^ 24" for n using assms(1) that by (simp add: float_unit_def)
  have "\<bar>uint w\<bar> < 2 ^ 24" "\<bar>uint dw\<bar> < 2 ^ 24" using b by simp_all
  note exact = this [THEN ex, simplified]
  have "0 \<le> (of_int x / of_int y :: rat) \<and> (of_int x / of_int y :: rat) \<le> 64" if "0 \<le> x" "0 < y" "x \<le> 64 * y" for x y :: int
  proof -
    have "of_int x \<le> (of_int (64 * y) :: rat)" using that(3) by (simp only: of_int_le_iff)
    then show ?thesis using that(1,2) by (simp add: divide_le_eq)
  qed
  from this [of "uint w" "uint dw"] have q: "0 \<le> ?q" "?q \<le> 64" using b(3) assms(5) by auto
  note r = two_roundings [OF assms(1) q]
  let ?p = "f32 ?u (f32 ?u ?q * 65536)"
  have "dw \<noteq> 0" using assms(3) by auto
  then have sc: "fst (f_scale fp w dw) = to_uint fp ?p" by (simp add: f_scale_def fmul_def s exact Let_def)
  have "?p < 2 ^ 32" using r(2) q(2) by simp
  from to_uint_floor [OF r(1) this, of fp] r(2) show ?thesis unfolding sc by linarith
qed

theorem hal_scale_precise_witness:
  "\<bar>of_int (uint (fst (f_scale \<lparr>fp_unit = exact_fpu (\<lambda>_. 0), fp_uint = (\<lambda>_. 0), fp_int64 = (\<lambda>_. 0), fp_div0 = (0, 0)\<rparr> 100 60))) -
    65536 * (100 / 60)\<bar> < (2 :: rat)"
proof -
  let ?fp = "\<lparr>fp_unit = exact_fpu (\<lambda>_. 0), fp_uint = (\<lambda>_. 0), fp_int64 = (\<lambda>_. 0), fp_div0 = (0, 0)\<rparr>"
  have "float_unit (fp_unit ?fp)" by (simp add: float_unit_def)
  from hal_scale_precise [OF this, of 100 60] show ?thesis by simp
qed

section \<open>The coefficients of the warps\<close>

lemma hal_round_precise:
  assumes "\<bar>y\<bar> + 1 < 2 ^ 63"
  shows "\<bar>of_int (sint (hal_round fp y)) - y\<bar> \<le> 1 / 2"
proof -
  let ?t = "if 0 \<le> y then \<lfloor>y + 1 / 2\<rfloor> else \<lceil>y - 1 / 2\<rceil>"
  have near: "\<bar>of_int ?t - y\<bar> \<le> 1 / 2"
  proof (cases "0 \<le> y")
    case True
    have "of_int \<lfloor>y + 1 / 2\<rfloor> \<le> y + 1 / 2" "y + 1 / 2 < of_int \<lfloor>y + 1 / 2\<rfloor> + 1" by linarith+
    with True show ?thesis unfolding if_P [OF True] by linarith
  next
    case False
    have "y - 1 / 2 \<le> of_int \<lceil>y - 1 / 2\<rceil>" "of_int \<lceil>y - 1 / 2\<rceil> < y - 1 / 2 + 1" by linarith+
    with False show ?thesis unfolding if_not_P [OF False] by linarith
  qed
  then have b: "of_int ?t < (2 ^ 63 :: rat)" "- (2 ^ 63) < (of_int ?t :: rat)" using assms by linarith+
  have "of_int ?t < (of_int (2 ^ 63) :: rat)" "(of_int (- (2 ^ 63)) :: rat) < of_int ?t" using b by simp_all
  then have t: "- (2 ^ 63) \<le> ?t" "?t < 2 ^ 63" unfolding of_int_less_iff by linarith+
  then have "sint (of_int ?t :: u64) = ?t" by (simp add: signed_of_int signed_take_bit_int_eq_self)
  then have "sint (hal_round fp y) = ?t" using t by (simp add: hal_round_def Let_def)
  with near show ?thesis by (simp only:)
qed

text \<open>Without rounding in the unit, the coefficients of both warps are the entries of the inverse
  matrix in 16.16 and 38.26, to the nearest, for every entry an image can have.\<close>

theorem hal_coefs_precise:
  assumes "fp_unit fp = exact_fpu f" "i < 9"
  shows "\<bar>affine_inverse (exact_fpu f) m i\<bar> < 2 ^ 32 \<Longrightarrow>
      \<bar>of_int (sint (affine_coefs fp m ! i)) - affine_inverse (exact_fpu f) m i * 2 ^ 16\<bar> \<le> 1 / 2"
    "\<bar>perspective_inverse (exact_fpu f) m i\<bar> < 2 ^ 32 \<Longrightarrow>
      \<bar>of_int (sint (perspective_coefs fp m ! i)) - perspective_inverse (exact_fpu f) m i * 2 ^ 26\<bar> \<le> 1 / 2"
proof -
  assume "\<bar>affine_inverse (exact_fpu f) m i\<bar> < 2 ^ 32"
  then have "\<bar>affine_inverse (exact_fpu f) m i * 65536\<bar> + 1 < 2 ^ 63" by (simp add: abs_mult)
  from hal_round_precise [OF this, of fp] show "\<bar>of_int (sint (affine_coefs fp m ! i)) - affine_inverse (exact_fpu f) m i * 2 ^ 16\<bar> \<le> 1 / 2"
    using assms by (simp add: affine_coefs_def fmul_def)
next
  assume "\<bar>perspective_inverse (exact_fpu f) m i\<bar> < 2 ^ 32"
  then have "\<bar>perspective_inverse (exact_fpu f) m i * 67108864\<bar> + 1 < 2 ^ 63" by (simp add: abs_mult)
  from hal_round_precise [OF this, of fp]
  show "\<bar>of_int (sint (perspective_coefs fp m ! i)) - perspective_inverse (exact_fpu f) m i * 2 ^ 26\<bar> \<le> 1 / 2"
    using assms by (simp add: perspective_coefs_def dmul_def mult.assoc)
qed

theorem hal_coefs_precise_witness:
  "\<bar>of_int (sint (affine_coefs \<lparr>fp_unit = exact_fpu (\<lambda>_. 0), fp_uint = (\<lambda>_. 0), fp_int64 = (\<lambda>_. 0), fp_div0 = (0, 0)\<rparr> (translate (- 500) 0) ! 2)) -
    500 * 2 ^ 16\<bar> \<le> (1 / 2 :: rat)"
proof -
  have "affine_inverse (exact_fpu (\<lambda>_. 0)) (translate (- 500) 0) 2 = 500"
    by (simp add: affine_inverse_def translate_def minor_def fmul_def fsub_def dmul_def Let_def)
  with hal_coefs_precise(1) [of "\<lparr>fp_unit = exact_fpu (\<lambda>_. 0), fp_uint = (\<lambda>_. 0), fp_int64 = (\<lambda>_. 0), fp_div0 = (0, 0)\<rparr>"
      "\<lambda>_. 0" 2 "translate (- 500) 0"] show ?thesis by simp
qed

end
