(* ===== verification/ImpAlloc.thy ===== *)
theory ImpAlloc
  imports Prelude "HOL-Library.Multiset"
begin

text \<open>
  The memory manager of the user-space drivers, \<open>aip/driver/src/mem_manager/imp_alloc_api.c\<close>
  (state in \<open>alloc_manager.h\<close>): a heap is tiled by units, kept in a list outside of the
  memory they describe; an allocation takes the first free unit in which the size fits
  behind the alignment, and a unit that is freed is joined with its free neighbours.
  Units come from a pool that grows by 256 when it is empty. The lists of
  \<open>duplex_list.h\<close> are lists here, in their order; a unit never has children of its own,
  so the tree below \<open>buf_root\<close> is the list of its children.
\<close>

section \<open>State\<close>

datatype alloc_buf_status = ALLOC_BUF_FREE | ALLOC_BUF_BUSY

record bufunit =
  bu_status :: alloc_buf_status
  bu_vaddr :: u32
  bu_length :: u32
  bu_offset :: u32

text \<open>\<open>struct Alloc\<close> with its \<open>unit_manager\<close>: the lengths of the lists \<open>free\<close>, \<open>memlist\<close> and
  \<open>user_root\<close>, and the children of \<open>buf_root\<close>.\<close>

record imp_alloc =
  ia_start :: u32
  ia_size :: u32
  ia_free_units :: nat
  ia_memlist :: nat
  ia_user :: nat
  ia_units :: "bufunit list"

definition BUF_MANAGER_NODE_CNT :: nat where
  "BUF_MANAGER_NODE_CNT = 256"

section \<open>Units\<close>

text \<open>\<open>IMP_alloc_unit\<close>; the flag is what \<open>malloc\<close> answers if the pool must grow.\<close>

definition IMP_alloc_unit :: "bool \<Rightarrow> imp_alloc \<Rightarrow> imp_alloc option" where
  "IMP_alloc_unit mal a =
     (if ia_free_units a = 0
      then if mal then Some (a\<lparr>ia_user := ia_user a + 1, ia_memlist := ia_memlist a + 1,
                              ia_free_units := BUF_MANAGER_NODE_CNT - 1\<rparr>)
           else None
      else Some (a\<lparr>ia_free_units := ia_free_units a - 1\<rparr>))"

definition IMP_free_unit :: "imp_alloc \<Rightarrow> imp_alloc" where
  "IMP_free_unit a = a\<lparr>ia_free_units := ia_free_units a + 1\<rparr>"

definition IMP_create_units :: "imp_alloc \<Rightarrow> imp_alloc" where
  "IMP_create_units a = a\<lparr>ia_user := ia_user a + 1, ia_memlist := 0, ia_free_units := BUF_MANAGER_NODE_CNT\<rparr>"

text \<open>\<open>imp_buf_alloc_init\<close>: two units are taken, the root and the one unit of the whole heap.\<close>

definition imp_buf_alloc_init :: "bool \<Rightarrow> imp_alloc \<Rightarrow> imp_alloc option" where
  "imp_buf_alloc_init mal a =
     (if \<not> mal then None
      else let a = IMP_create_units a in
        Some (a\<lparr>ia_free_units := ia_free_units a - 2,
               ia_units := [\<lparr>bu_status = ALLOC_BUF_FREE, bu_vaddr = ia_start a, bu_length = ia_size a, bu_offset = 0\<rparr>]\<rparr>))"

section \<open>Allocation\<close>

text \<open>The offset of an aligned address in a unit, when the size fits behind it.\<close>

definition fit_offset :: "u32 \<Rightarrow> u32 \<Rightarrow> bufunit \<Rightarrow> u32 option" where
  "fit_offset sz alignsize u =
     (if bu_status u = ALLOC_BUF_FREE \<and> sz \<le> bu_length u
      then if bu_vaddr u mod alignsize \<noteq> 0
           then let offset = alignsize - bu_vaddr u mod alignsize in
                if sz + offset \<le> bu_length u then Some offset else None
           else Some 0
      else None)"

fun find_free :: "u32 \<Rightarrow> u32 \<Rightarrow> bufunit list \<Rightarrow> (bufunit list \<times> bufunit \<times> u32 \<times> bufunit list) option" where
  "find_free sz alignsize [] = None"
| "find_free sz alignsize (u # us) = (case fit_offset sz alignsize u of
     Some offset \<Rightarrow> Some ([], u, offset, us)
   | None \<Rightarrow> (case find_free sz alignsize us of
       None \<Rightarrow> None | Some (xs, v, offset, ys) \<Rightarrow> Some (u # xs, v, offset, ys)))"

definition alloc_bufunit :: "bool \<Rightarrow> u32 \<Rightarrow> u32 \<Rightarrow> imp_alloc \<Rightarrow> bufunit option \<times> imp_alloc" where
  "alloc_bufunit mal sz alignsize a = (case find_free sz alignsize (ia_units a) of
     None \<Rightarrow> (None, a)
   | Some (xs, u, offset, ys) \<Rightarrow>
       let busy = u\<lparr>bu_vaddr := bu_vaddr u + offset, bu_length := sz + offset, bu_offset := offset,
                    bu_status := ALLOC_BUF_BUSY\<rparr> in
       if sz + offset < bu_length u
       then case IMP_alloc_unit mal a of
              None \<Rightarrow> (None, a)
            | Some a \<Rightarrow>
                let newunit = \<lparr>bu_status = ALLOC_BUF_FREE, bu_vaddr = bu_vaddr u + sz + offset,
                               bu_length = bu_length u - sz - offset, bu_offset = 0\<rparr>
                in (Some busy, a\<lparr>ia_units := xs @ busy # newunit # ys\<rparr>)
       else (Some busy, a\<lparr>ia_units := xs @ busy # ys\<rparr>))"

section \<open>Release\<close>

fun find_bufunit_byaddr :: "u32 \<Rightarrow> bufunit list \<Rightarrow> (bufunit list \<times> bufunit \<times> bufunit list) option" where
  "find_bufunit_byaddr addr [] = None"
| "find_bufunit_byaddr addr (u # us) =
     (if bu_vaddr u = addr then Some ([], u, us)
      else case find_bufunit_byaddr addr us of None \<Rightarrow> None | Some (xs, v, ys) \<Rightarrow> Some (u # xs, v, ys))"

text \<open>\<open>free_bufunit\<close>: the unit is between \<open>xs\<close> and \<open>ys\<close>. It takes in the next unit, then the one
  before takes it in.\<close>

definition is_free :: "bufunit \<Rightarrow> bool" where
  "is_free u \<longleftrightarrow> bu_status u = ALLOC_BUF_FREE"

definition free_bufunit :: "bufunit list \<Rightarrow> bufunit \<Rightarrow> bufunit list \<Rightarrow> imp_alloc \<Rightarrow> imp_alloc" where
  "free_bufunit xs u ys a =
     (let u = u\<lparr>bu_status := ALLOC_BUF_FREE, bu_vaddr := bu_vaddr u - bu_offset u\<rparr>;
          (u, ys, a) = (if ys \<noteq> [] \<and> is_free (hd ys)
                        then (u\<lparr>bu_length := bu_length u + bu_length (hd ys)\<rparr>, tl ys, IMP_free_unit a) else (u, ys, a))
      in if xs \<noteq> [] \<and> is_free (last xs)
         then (IMP_free_unit a)\<lparr>ia_units := butlast xs @ (last xs)\<lparr>bu_length := bu_length (last xs) + bu_length u\<rparr> # ys\<rparr>
         else a\<lparr>ia_units := xs @ u # ys\<rparr>)"

section \<open>The calls\<close>

text \<open>What the client keeps is the address of a \<open>struct Alloc\<close>, or 0. The flags are what the two
  calls of \<open>malloc\<close> answer. The bytes kept back are \<open>sizeof(alloc)\<close>, the size of a pointer.\<close>

definition Local_HeapInit :: "bool \<Rightarrow> bool \<Rightarrow> u32 \<Rightarrow> u32 \<Rightarrow> imp_alloc option \<Rightarrow> u32 \<times> imp_alloc option" where
  "Local_HeapInit mal1 mal2 heap sz list =
     (if heap = 0 then (0, list)
      else if heap mod 4 \<noteq> 0 then (0, list)
      else if \<not> mal1 then (0, list)
      else if sz < 4 then (0, list)
      else case imp_buf_alloc_init mal2 \<lparr>ia_start = heap + 4, ia_size = sz - 4, ia_free_units = 0, ia_memlist = 0,
                  ia_user = 0, ia_units = []\<rparr> of
             None \<Rightarrow> (0, list)
           | Some a \<Rightarrow> (1, Some a))"

text \<open>The end frees the pool, what is left of \<open>user_root\<close> and the structure.\<close>

definition Local_HeapDeInit :: "imp_alloc option \<Rightarrow> fault + (u32 \<times> imp_alloc option)" where
  "Local_HeapDeInit list = (case list of None \<Rightarrow> Inl Null_deref | Some a \<Rightarrow> Inr (1, None))"

definition Local_alignAlloc :: "bool \<Rightarrow> u32 \<Rightarrow> u32 \<Rightarrow> imp_alloc option \<Rightarrow> u32 \<times> imp_alloc option" where
  "Local_alignAlloc mal alignsize sz heap = (case heap of
     None \<Rightarrow> (0, heap)
   | Some a \<Rightarrow>
       if alignsize = 0 then (0, heap)
       else case alloc_bufunit mal sz alignsize a of
              (None, a) \<Rightarrow> (0, Some a)
            | (Some u, a) \<Rightarrow> (bu_vaddr u, Some a))"

definition Local_Alloc :: "bool \<Rightarrow> u32 \<Rightarrow> imp_alloc option \<Rightarrow> u32 \<times> imp_alloc option" where
  "Local_Alloc mal nbytes heap = Local_alignAlloc mal 1 nbytes heap"

text \<open>The bytes cleared are those of the product, which can wrap around.\<close>

definition Local_Calloc :: "bool \<Rightarrow> u32 \<Rightarrow> u32 \<Rightarrow> imp_alloc option \<Rightarrow> mem \<Rightarrow> u32 \<times> imp_alloc option \<times> mem" where
  "Local_Calloc mal sz n heap m =
     (let (addr, heap) = Local_alignAlloc mal 1 (sz * n) heap
      in (addr, heap, if addr \<noteq> 0 then (\<lambda>x. if x - addr < sz * n then 0 else m x) else m))"

definition Local_Dealloc :: "u32 \<Rightarrow> imp_alloc option \<Rightarrow> u32 \<times> imp_alloc option" where
  "Local_Dealloc addr heap = (case heap of
     None \<Rightarrow> (0, heap)
   | Some a \<Rightarrow>
       if addr = 0 then (0, heap)
       else case find_bufunit_byaddr addr (ia_units a) of
              None \<Rightarrow> (0, heap)
            | Some (xs, u, ys) \<Rightarrow> (bu_length u - bu_offset u, Some (free_bufunit xs u ys a)))"

section \<open>Tiling\<close>

text \<open>The address a unit begins at, its number, and units one after the other from \<open>s\<close> to \<open>e\<close>.\<close>

definition bu_base :: "bufunit \<Rightarrow> nat" where
  "bu_base u = (if is_free u then unat (bu_vaddr u) else unat (bu_vaddr u) - unat (bu_offset u))"

definition unit_ok :: "bufunit \<Rightarrow> bool" where
  "unit_ok u \<longleftrightarrow> 0 < bu_length u \<and>
     (\<not> is_free u \<longrightarrow> bu_offset u < bu_length u \<and> unat (bu_offset u) \<le> unat (bu_vaddr u))"

fun tiles :: "nat \<Rightarrow> bufunit list \<Rightarrow> nat \<Rightarrow> bool" where
  "tiles s [] e \<longleftrightarrow> s = e"
| "tiles s (u # us) e \<longleftrightarrow> bu_base u = s \<and> unit_ok u \<and> tiles (s + unat (bu_length u)) us e"

text \<open>No two free units are neighbours.\<close>

fun coalesced :: "bufunit list \<Rightarrow> bool" where
  "coalesced [] \<longleftrightarrow> True"
| "coalesced (u # us) \<longleftrightarrow> \<not> (is_free u \<and> us \<noteq> [] \<and> is_free (hd us)) \<and> coalesced us"

definition imp_inv :: "imp_alloc \<Rightarrow> bool" where
  "imp_inv a \<longleftrightarrow> unat (ia_start a) + unat (ia_size a) < 2 ^ 32 \<and> 0 < unat (ia_start a) \<and>
     tiles (unat (ia_start a)) (ia_units a) (unat (ia_start a) + unat (ia_size a)) \<and> ia_units a \<noteq> [] \<and> coalesced (ia_units a) \<and>
     ia_free_units a + length (ia_units a) + 1 = 256 * (ia_memlist a + 1) \<and> ia_user a = ia_memlist a + 1"

text \<open>What the client holds: address and size of every allocation.\<close>

definition live :: "bufunit list \<Rightarrow> (u32 \<times> u32) multiset" where
  "live us = mset (map (\<lambda>u. (bu_vaddr u, bu_length u - bu_offset u)) (filter (\<lambda>u. \<not> is_free u) us))"

lemma tiles_append: "tiles s (xs @ ys) e \<longleftrightarrow> (\<exists>k. tiles s xs k \<and> tiles k ys e)"
  by (induction xs arbitrary: s) auto

lemma tiles_le: "tiles s us e \<Longrightarrow> s \<le> e"
  by (induction us arbitrary: s) (auto dest: add_leD1)

lemma coalesced_append:
  "coalesced (xs @ ys) \<longleftrightarrow> coalesced xs \<and> coalesced ys \<and> \<not> (xs \<noteq> [] \<and> ys \<noteq> [] \<and> is_free (last xs) \<and> is_free (hd ys))"
  by (induction xs) (auto simp: hd_append)

lemma live_simps [simp]:
  "live [] = {#}" "live (xs @ ys) = live xs + live ys"
  "live (u # us) = (if is_free u then live us else add_mset (bu_vaddr u, bu_length u - bu_offset u) (live us))"
  by (simp_all add: live_def)

lemma tiles_bounds:
  assumes "tiles s us e" "u \<in> set us"
  shows "s \<le> bu_base u" "bu_base u + unat (bu_length u) \<le> e" "unit_ok u"
proof -
  obtain xs ys where "us = xs @ u # ys" using assms(2) by (auto dest: split_list)
  then obtain k where "tiles s xs k" "bu_base u = k" "unit_ok u" "tiles (k + unat (bu_length u)) ys e"
    using assms(1) by (auto simp: tiles_append)
  then show "s \<le> bu_base u" "bu_base u + unat (bu_length u) \<le> e" "unit_ok u" using tiles_le by auto
qed

section \<open>Allocation\<close>

lemma find_free_split:
  assumes "find_free sz al us = Some (xs, u, ofst, ys)"
  shows "us = xs @ u # ys" "fit_offset sz al u = Some ofst" "\<forall>x \<in> set xs. fit_offset sz al x = None"
  using assms by (induction us arbitrary: xs) (auto split: option.splits prod.splits)

lemma find_free_None: "find_free sz al us = None \<longleftrightarrow> (\<forall>x \<in> set us. fit_offset sz al x = None)"
  by (induction us) (auto split: option.splits)

text \<open>What a fit means, when size and alignment together do not wrap around.\<close>

lemma fit_offset_ok:
  assumes "fit_offset sz al u = Some ofst" "unat sz + unat al \<le> 2 ^ 32" "0 < al" "unat (bu_vaddr u) + unat (bu_length u) < 2 ^ 32"
  shows "is_free u" "unat (sz + ofst) = unat sz + unat ofst" "unat sz + unat ofst \<le> unat (bu_length u)"
    "unat (bu_vaddr u + ofst) = unat (bu_vaddr u) + unat ofst" "unat al dvd unat (bu_vaddr u + ofst)"
proof -
  define r where "r = bu_vaddr u mod al"
  have al: "0 < unat al" using assms(3) by (simp add: word_less_nat_alt)
  have r: "unat r = unat (bu_vaddr u) mod unat al" by (simp add: r_def unat_mod)
  then have rl: "unat r < unat al" using al by simp
  have free: "is_free u" "sz \<le> bu_length u" using assms(1) by (auto simp: fit_offset_def is_free_def split: if_splits)
  then show "is_free u" by simp
  have o: "ofst = 0 \<and> r = 0 \<or> r \<noteq> 0 \<and> ofst = al - r \<and> sz + ofst \<le> bu_length u"
    using assms(1) unfolding fit_offset_def r_def [symmetric] by (auto simp: Let_def split: if_splits)
  have uo: "unat ofst = (if r = 0 then 0 else unat al - unat r)"
    using o rl by (auto simp: unat_sub word_le_nat_alt)
  have "unat sz + unat ofst < 2 ^ 32"
  proof (cases "r = 0")
    case True
    then show ?thesis using uo unsigned_less [of sz] by simp
  next
    case False
    then have "0 < unat r" by (simp add: unat_gt_0)
    then show ?thesis using uo False assms(2) rl by simp
  qed
  then show s: "unat (sz + ofst) = unat sz + unat ofst" by (simp add: unat_word_ariths)
  show fit: "unat sz + unat ofst \<le> unat (bu_length u)" using o s free(2) by (auto simp: word_le_nat_alt)
  show v: "unat (bu_vaddr u + ofst) = unat (bu_vaddr u) + unat ofst"
    using fit assms(4) by (simp add: unat_word_ariths)
  show "unat al dvd unat (bu_vaddr u + ofst)"
  proof (cases "r = 0")
    case True
    then show ?thesis using uo r unfolding v by (simp add: dvd_eq_mod_eq_0 flip: unat_mod)
  next
    case False
    have dvd: "d dvd x + (d - x mod d)" if "0 < d" for d x :: nat
    proof -
      have "x = d * (x div d) + x mod d" by simp
      then have "x + (d - x mod d) = d * (x div d) + d" using mod_less_divisor [OF that, of x] by linarith
      then show ?thesis by simp
    qed
    have "unat ofst = unat al - unat (bu_vaddr u) mod unat al" using uo False r by simp
    then show ?thesis unfolding v by (simp only: dvd [OF al])
  qed
qed

lemma pool_unit:
  assumes "IMP_alloc_unit mal a = Some a'" "imp_inv a"
  shows "ia_start a' = ia_start a \<and> ia_size a' = ia_size a \<and> ia_units a' = ia_units a \<and>
    ia_free_units a' + length (ia_units a) + 2 = 256 * (ia_memlist a' + 1) \<and> ia_user a' = ia_memlist a' + 1"
  using assms by (auto simp: IMP_alloc_unit_def imp_inv_def BUF_MANAGER_NODE_CNT_def split: if_splits)

text \<open>What an allocation is after, said without the code's search: an address \<open>q\<close> is aligned and
  \<open>sz\<close> bytes from it on lie in one free unit.\<close>

definition unit_room :: "nat \<Rightarrow> nat \<Rightarrow> bufunit \<Rightarrow> nat \<Rightarrow> bool" where
  "unit_room sz al u q \<longleftrightarrow> is_free u \<and> al dvd q \<and> unat (bu_vaddr u) \<le> q \<and>
     q + sz \<le> unat (bu_vaddr u) + unat (bu_length u)"

definition room_at :: "u32 \<Rightarrow> u32 \<Rightarrow> bufunit list \<Rightarrow> nat \<Rightarrow> bool" where
  "room_at sz al us q \<longleftrightarrow> (\<exists>u \<in> set us. unit_room (unat sz) (unat al) u q)"

lemma aligned_above:
  fixes v q d :: nat
  assumes "d dvd q" "v \<le> q"
  shows "v + (if v mod d = 0 then 0 else d - v mod d) \<le> q"
proof (cases "d = 0 \<or> v mod d = 0")
  case False
  obtain k where k: "q = d * k" using assms(1) by (auto simp: dvd_def)
  have v: "v = d * (v div d) + v mod d" by simp
  have "d * (v div d) < d * k" using False assms(2) v k by linarith
  then have "v div d + 1 \<le> k" by (simp add: mult_less_cancel1)
  then have "d * (v div d + 1) \<le> d * k" by (rule mult_le_mono2)
  then have "d * (v div d) + d \<le> q" unfolding k by simp
  moreover have "v mod d < d" using False by simp
  then have "v + (d - v mod d) = d * (v div d) + d" using v by linarith
  ultimately show ?thesis using False by simp
qed (use assms in auto)

lemma fit_offset_least:
  assumes "fit_offset sz al u = Some ofst" "unat sz + unat al \<le> 2 ^ 32" "0 < al" "unat (bu_vaddr u) + unat (bu_length u) < 2 ^ 32"
  shows "unit_room (unat sz) (unat al) u (unat (bu_vaddr u) + unat ofst)"
    "unit_room (unat sz) (unat al) u q \<Longrightarrow> unat (bu_vaddr u) + unat ofst \<le> q"
proof -
  note ok = fit_offset_ok [OF assms]
  from ok show "unit_room (unat sz) (unat al) u (unat (bu_vaddr u) + unat ofst)" by (simp add: unit_room_def)
  have al: "0 < unat al" using assms(3) by (simp add: word_less_nat_alt)
  have r: "unat (bu_vaddr u mod al) = unat (bu_vaddr u) mod unat al" by (simp add: unat_mod)
  have "ofst = (if bu_vaddr u mod al = 0 then 0 else al - bu_vaddr u mod al)"
    using assms(1) by (auto simp: fit_offset_def Let_def split: if_splits)
  moreover have "bu_vaddr u mod al \<le> al" using r al by (simp add: word_le_nat_alt)
  ultimately have "unat ofst = (if unat (bu_vaddr u) mod unat al = 0 then 0 else unat al - unat (bu_vaddr u) mod unat al)"
    using r by (auto simp: unat_sub word_unat_eq_iff)
  then show "unit_room (unat sz) (unat al) u q \<Longrightarrow> unat (bu_vaddr u) + unat ofst \<le> q"
    using aligned_above [of "unat al" q "unat (bu_vaddr u)"] by (simp add: unit_room_def)
qed

lemma fit_offset_none:
  assumes "fit_offset sz al u = None" "unat sz + unat al \<le> 2 ^ 32" "0 < al"
  shows "\<not> unit_room (unat sz) (unat al) u q"
proof
  assume rm: "unit_room (unat sz) (unat al) u q"
  then have f: "bu_status u = ALLOC_BUF_FREE" "sz \<le> bu_length u" by (auto simp: unit_room_def is_free_def word_le_nat_alt)
  have al: "0 < unat al" using assms(3) by (simp add: word_less_nat_alt)
  have r: "unat (bu_vaddr u mod al) = unat (bu_vaddr u) mod unat al" by (simp add: unat_mod)
  then have le: "bu_vaddr u mod al \<le> al" using al by (simp add: word_le_nat_alt)
  have nz: "bu_vaddr u mod al \<noteq> 0" "\<not> sz + (al - bu_vaddr u mod al) \<le> bu_length u"
    using assms(1) f by (auto simp: fit_offset_def Let_def split: if_splits)
  have o: "unat (al - bu_vaddr u mod al) = unat al - unat (bu_vaddr u) mod unat al" using le r by (simp add: unat_sub)
  have pos: "0 < unat (bu_vaddr u) mod unat al" using nz(1) r by (metis unat_gt_0)
  have "unat (sz + (al - bu_vaddr u mod al)) = unat sz + unat (al - bu_vaddr u mod al)"
    unfolding unat_word_ariths(1) o using pos al assms(2) by (intro mod_less) simp
  then have "unat (bu_length u) < unat sz + (unat al - unat (bu_vaddr u) mod unat al)"
    using nz(2) o by (simp add: word_le_nat_alt not_le)
  moreover have "unat (bu_vaddr u) + (unat al - unat (bu_vaddr u) mod unat al) \<le> q"
    using aligned_above [of "unat al" q "unat (bu_vaddr u)"] rm pos by (simp add: unit_room_def)
  ultimately show False using rm by (simp add: unit_room_def)
qed

text \<open>The search finds the lowest address with room: the units are in the order of their addresses.\<close>

lemma find_free_least:
  assumes "imp_inv a" "0 < al" "unat sz + unat al \<le> 2 ^ 32" "find_free sz al (ia_units a) = Some (xs, u, ofst, ys)"
  shows "room_at sz al (ia_units a) (unat (bu_vaddr u) + unat ofst)"
    "room_at sz al (ia_units a) q \<Longrightarrow> unat (bu_vaddr u) + unat ofst \<le> q"
proof -
  let ?e = "unat (ia_start a) + unat (ia_size a)"
  note f = find_free_split [OF assms(4)]
  have tl: "tiles (unat (ia_start a)) (xs @ u # ys) ?e" and e: "?e < 2 ^ 32" using assms(1) f(1) by (simp_all add: imp_inv_def)
  then obtain k where k: "bu_base u = k" "unit_ok u" "tiles (k + unat (bu_length u)) ys ?e" by (auto simp: tiles_append)
  have "is_free u" using f(2) by (auto simp: fit_offset_def is_free_def split: if_splits)
  then have v: "unat (bu_vaddr u) = k" using k(1) by (simp add: bu_base_def)
  have "k + unat (bu_length u) \<le> ?e" using tiles_le k(3) by blast
  then have b: "unat (bu_vaddr u) + unat (bu_length u) < 2 ^ 32" using e v by simp
  note least = fit_offset_least [OF f(2) assms(3,2) b] and ok = fit_offset_ok [OF f(2) assms(3,2) b]
  show "room_at sz al (ia_units a) (unat (bu_vaddr u) + unat ofst)" using least(1) by (auto simp: room_at_def f(1))
  assume "room_at sz al (ia_units a) q"
  then obtain y where y: "y \<in> set (xs @ u # ys)" "unit_room (unat sz) (unat al) y q" by (auto simp: room_at_def f(1))
  have "y \<notin> set xs" using y(2) f(3) fit_offset_none [OF _ assms(3,2)] by blast
  then consider "y = u" | "y \<in> set ys" using y(1) by auto
  then show "unat (bu_vaddr u) + unat ofst \<le> q"
  proof cases
    case 1
    then show ?thesis using least(2) y(2) by blast
  next
    case 2
    then have "k + unat (bu_length u) \<le> bu_base y" using tiles_bounds(1) [OF k(3)] by blast
    moreover have "bu_base y \<le> q" using y(2) by (simp add: unit_room_def bu_base_def)
    ultimately show ?thesis using ok(3) v by simp
  qed
qed

text \<open>An allocation: the first unit in which it fits, cut in two if something is left.\<close>

lemma alloc_bufunit_ok:
  assumes "imp_inv a" "0 < sz" "0 < al" "unat sz + unat al \<le> 2 ^ 32" "find_free sz al (ia_units a) = Some (xs, u, ofst, ys)"
    "alloc_bufunit mal sz al a = (Some b, a')"
  shows "imp_inv a' \<and> bu_vaddr b = bu_vaddr u + ofst \<and> unat al dvd unat (bu_vaddr b) \<and> unat (bu_vaddr b) = unat (bu_vaddr u) + unat ofst \<and>
    ia_start a' = ia_start a \<and> ia_size a' = ia_size a \<and>
    live (ia_units a') = add_mset (bu_vaddr b, sz) (live (ia_units a))"
proof -
  let ?s = "unat (ia_start a)" and ?e = "unat (ia_start a) + unat (ia_size a)"
  note f = find_free_split [OF assms(5)]
  have tiles: "tiles ?s (xs @ u # ys) ?e" and e: "?e < 2 ^ 32" and co: "coalesced (xs @ u # ys)"
    using assms(1) f(1) by (simp_all add: imp_inv_def)
  then obtain k where k: "tiles ?s xs k" "bu_base u = k" "unit_ok u" "tiles (k + unat (bu_length u)) ys ?e"
    by (auto simp: tiles_append)
  have free: "is_free u" using f(2) by (auto simp: fit_offset_def is_free_def split: if_splits)
  then have v: "unat (bu_vaddr u) = k" using k(2) by (simp add: bu_base_def)
  have "k + unat (bu_length u) \<le> ?e" using tiles_le k(4) by blast
  then have "unat (bu_vaddr u) + unat (bu_length u) < 2 ^ 32" using e v by simp
  note fit = fit_offset_ok [OF f(2) assms(4,3) this]
  let ?b = "u\<lparr>bu_vaddr := bu_vaddr u + ofst, bu_length := sz + ofst, bu_offset := ofst, bu_status := ALLOC_BUF_BUSY\<rparr>"
  have pos: "0 < unat sz" using assms(2) by (simp add: word_less_nat_alt)
  have b: "\<not> is_free ?b" "bu_base ?b = k" "unit_ok ?b"
    using fit(2,4) pos v by (simp_all add: is_free_def bu_base_def unit_ok_def word_less_nat_alt)
  have bl: "sz + ofst - ofst = sz" by simp
  note dvd = fit(5)
  show ?thesis
  proof (cases "sz + ofst < bu_length u")
    case True
    then obtain a1 where a1: "IMP_alloc_unit mal a = Some a1" using assms(5,6)
      by (auto simp: alloc_bufunit_def Let_def split: option.splits)
    let ?n = "\<lparr>bu_status = ALLOC_BUF_FREE, bu_vaddr = bu_vaddr u + sz + ofst, bu_length = bu_length u - sz - ofst, bu_offset = 0\<rparr>"
    have r: "b = ?b" "a' = a1\<lparr>ia_units := xs @ ?b # ?n # ys\<rparr>"
      using assms(5,6) True a1 by (auto simp: alloc_bufunit_def Let_def)
    have lt: "unat sz + unat ofst < unat (bu_length u)" using True fit(2) by (simp add: word_less_nat_alt)
    have nl: "unat (bu_length u - sz - ofst) = unat (bu_length u) - (unat sz + unat ofst)"
      using True fit(2) lt by (simp add: diff_diff_eq unat_sub word_le_nat_alt)
    have "unat (bu_vaddr u + sz + ofst) = unat (bu_vaddr u) + unat (sz + ofst)"
      using lt fit(2) \<open>unat (bu_vaddr u) + unat (bu_length u) < 2 ^ 32\<close> by (simp add: add.assoc unat_word_ariths)
    then have n: "is_free ?n" "bu_base ?n = k + unat (sz + ofst)" "unit_ok ?n"
      using v nl lt by (simp_all add: is_free_def bu_base_def unit_ok_def word_less_nat_alt)
    have "tiles ?s (xs @ ?b # ?n # ys) ?e" unfolding tiles_append using k(1,4) b n nl fit(2) lt
      by (intro exI [of _ k]) simp
    moreover have "coalesced (xs @ ?b # ?n # ys)" using co b(1) n(1) free by (auto simp: coalesced_append)
    moreover have "live (xs @ ?b # ?n # ys) = add_mset (bu_vaddr ?b, sz) (live (ia_units a))"
      using b(1) n(1) free f(1) by simp
    ultimately show ?thesis using pool_unit [OF a1 assms(1)] assms(1) f(1) r dvd fit(4)
      by (simp add: imp_inv_def)
  next
    case False
    have r: "b = ?b" "a' = a\<lparr>ia_units := xs @ ?b # ys\<rparr>" using assms(5,6) False by (auto simp: alloc_bufunit_def Let_def)
    have "unat (sz + ofst) = unat (bu_length u)" using False fit(2,3) by (simp add: word_less_nat_alt)
    then have "tiles ?s (xs @ ?b # ys) ?e" unfolding tiles_append using k(1,4) b by (intro exI [of _ k]) simp
    moreover have "coalesced (xs @ ?b # ys)" using co b(1) by (auto simp: coalesced_append)
    moreover have "live (xs @ ?b # ys) = add_mset (bu_vaddr ?b, sz) (live (ia_units a))" using b(1) free f(1) by simp
    ultimately show ?thesis using assms(1) f(1) r dvd fit(4) by (simp add: imp_inv_def)
  qed
qed

section \<open>Release\<close>

lemma find_byaddr_split:
  assumes "find_bufunit_byaddr addr us = Some (xs, u, ys)"
  shows "us = xs @ u # ys" "bu_vaddr u = addr"
  using assms by (induction us arbitrary: xs) (auto split: if_splits option.splits prod.splits)

text \<open>The address of an allocation lies in its unit only, so that the unit found is the one that
  was allocated.\<close>

lemma unit_span:
  assumes "unit_ok u" "unat (bu_vaddr u) + unat (bu_length u) < 2 ^ 33"
  shows "bu_base u \<le> unat (bu_vaddr u)" "unat (bu_vaddr u) < bu_base u + unat (bu_length u)"
  using assms by (auto simp: unit_ok_def bu_base_def word_less_nat_alt)

lemma find_byaddr_live:
  assumes "tiles s us e" "u \<in> set us"
  shows "\<exists>xs ys. us = xs @ u # ys \<and> find_bufunit_byaddr (bu_vaddr u) us = Some (xs, u, ys)"
  using assms
proof (induction us arbitrary: s)
  case (Cons v us)
  show ?case
  proof (cases "v = u")
    case True
    then show ?thesis by (intro exI [of _ "[]"] exI [of _ us]) simp
  next
    case False
    then have u: "u \<in> set us" using Cons.prems(2) by simp
    have t: "tiles (s + unat (bu_length v)) us e" "bu_base v = s" "unit_ok v" using Cons.prems(1) by simp_all
    have "unat (bu_vaddr v) < s + unat (bu_length v)" using t(2,3) by (auto simp: unit_ok_def bu_base_def word_less_nat_alt split: if_splits)
    moreover have "s + unat (bu_length v) \<le> bu_base u" "unit_ok u" using tiles_bounds [OF t(1) u] by simp_all
    then have "s + unat (bu_length v) \<le> unat (bu_vaddr u)" by (auto simp: bu_base_def unit_ok_def split: if_splits)
    ultimately have "bu_vaddr v \<noteq> bu_vaddr u" by auto
    moreover obtain xs ys where "us = xs @ u # ys" "find_bufunit_byaddr (bu_vaddr u) us = Some (xs, u, ys)"
      using Cons.IH [OF t(1) u] by blast
    ultimately show ?thesis by (intro exI [of _ "v # xs"] exI [of _ ys]) simp
  qed
qed simp

text \<open>Joining two units that follow each other, the first of them free.\<close>

lemma tiles_join:
  assumes "tiles s (u # v # us) e" "is_free u" "is_free v" "e < 2 ^ 32"
  shows "tiles s (u\<lparr>bu_length := bu_length u + bu_length v\<rparr> # us) e"
proof -
  have t: "bu_base u = s" "unit_ok u" "bu_base v = s + unat (bu_length u)" "unit_ok v"
    "tiles (s + unat (bu_length u) + unat (bu_length v)) us e" using assms(1) by simp_all
  have "s + unat (bu_length u) + unat (bu_length v) < 2 ^ 32" using tiles_le [OF t(5)] assms(4) by simp
  then have l: "unat (bu_length u + bu_length v) = unat (bu_length u) + unat (bu_length v)" by (simp add: unat_word_ariths)
  moreover have "0 < unat (bu_length u)" using t(2) by (simp add: unit_ok_def word_less_nat_alt)
  ultimately have "0 < bu_length u + bu_length v" by (simp add: word_less_nat_alt)
  with t assms(2) l show ?thesis by (simp add: bu_base_def unit_ok_def is_free_def add.assoc)
qed

lemma free_bufunit_ok:
  assumes "imp_inv a" "ia_units a = xs @ u # ys" "\<not> is_free u"
  shows "imp_inv (free_bufunit xs u ys a)" "ia_start (free_bufunit xs u ys a) = ia_start a"
    "ia_size (free_bufunit xs u ys a) = ia_size a"
    "add_mset (bu_vaddr u, bu_length u - bu_offset u) (live (ia_units (free_bufunit xs u ys a))) = live (ia_units a)"
proof -
  let ?s = "unat (ia_start a)" and ?e = "unat (ia_start a) + unat (ia_size a)"
  define w where "w = u\<lparr>bu_status := ALLOC_BUF_FREE, bu_vaddr := bu_vaddr u - bu_offset u\<rparr>"
  define nx where "nx \<longleftrightarrow> ys \<noteq> [] \<and> is_free (hd ys)"
  define pv where "pv \<longleftrightarrow> xs \<noteq> [] \<and> is_free (last xs)"
  define w1 where "w1 = (if nx then w\<lparr>bu_length := bu_length w + bu_length (hd ys)\<rparr> else w)"
  define ys1 where "ys1 = (if nx then tl ys else ys)"
  define us1 where "us1 = (if pv then butlast xs @ (last xs)\<lparr>bu_length := bu_length (last xs) + bu_length w1\<rparr> # ys1 else xs @ w1 # ys1)"
  have e: "?e < 2 ^ 32" and tl: "tiles ?s (xs @ u # ys) ?e" and co: "coalesced (xs @ u # ys)"
    using assms(1,2) by (simp_all add: imp_inv_def)
  obtain k where k: "tiles ?s xs k" "bu_base u = k" "unit_ok u" "tiles (k + unat (bu_length u)) ys ?e"
    using tl by (auto simp: tiles_append)
  have fw: "is_free w" by (simp add: w_def is_free_def)
  have "bu_base w = k" using k(2,3) assms(3)
    by (simp add: bu_base_def w_def is_free_def unit_ok_def unat_sub word_le_nat_alt)
  moreover have "unit_ok w" using k(3) fw by (simp add: unit_ok_def) (simp add: w_def)
  moreover have "bu_length w = bu_length u" by (simp add: w_def)
  ultimately have "tiles k (w # ys) ?e" using k(4) by simp
  then have t1: "tiles k (w1 # ys1) ?e"
    using tiles_join [of k w "hd ys" "tl ys" ?e] fw e unfolding w1_def ys1_def nx_def by (cases ys) auto
  have f1: "is_free w1" using fw by (simp add: w1_def is_free_def)
  have c1: "coalesced ys1 \<and> \<not> (ys1 \<noteq> [] \<and> is_free (hd ys1))"
    using co unfolding coalesced_append ys1_def nx_def by (cases ys; cases "tl ys") auto
  have t2: "tiles ?s us1 ?e"
  proof (cases pv)
    case True
    then have xs: "xs = butlast xs @ [last xs]" "is_free (last xs)" by (simp_all add: pv_def)
    from k(1) obtain j where "tiles ?s (butlast xs) j" "tiles j [last xs] k" using tiles_append xs(1) by metis
    then have "tiles j (last xs # w1 # ys1) ?e" using t1 by simp
    from tiles_join [OF this xs(2) f1 e] \<open>tiles ?s (butlast xs) j\<close> True show ?thesis
      by (auto simp: us1_def tiles_append)
  qed (use k(1) t1 in \<open>auto simp: us1_def tiles_append\<close>)
  have c2: "coalesced us1"
  proof (cases pv)
    case True
    then have xs: "xs = butlast xs @ [last xs]" "is_free (last xs)" by (simp_all add: pv_def)
    have "coalesced (butlast xs @ [last xs])" using co xs(1) by (simp add: coalesced_append)
    then have "coalesced (butlast xs)" "\<not> (butlast xs \<noteq> [] \<and> is_free (last (butlast xs)))"
      using xs(2) unfolding coalesced_append by auto
    then show ?thesis using True c1 by (auto simp: us1_def coalesced_append)
  qed (use co c1 in \<open>auto simp: us1_def coalesced_append pv_def\<close>)
  have l2: "add_mset (bu_vaddr u, bu_length u - bu_offset u) (live us1) = live (ia_units a)"
  proof -
    have "live ys1 = live ys" by (cases ys) (auto simp: ys1_def nx_def)
    moreover have "live us1 = live xs + live ys1"
    proof (cases pv)
      case True
      then have xs: "xs = butlast xs @ [last xs]" "is_free (last xs)" by (simp_all add: pv_def)
      then have "live xs = live (butlast xs)" by (metis add.right_neutral live_simps)
      with True xs(2) show ?thesis by (simp add: us1_def is_free_def)
    qed (use f1 in \<open>simp add: us1_def\<close>)
    ultimately show ?thesis using assms(2,3) by simp
  qed
  have r: "ia_units (free_bufunit xs u ys a) = us1" "ia_start (free_bufunit xs u ys a) = ia_start a"
    "ia_size (free_bufunit xs u ys a) = ia_size a" "ia_memlist (free_bufunit xs u ys a) = ia_memlist a"
    "ia_user (free_bufunit xs u ys a) = ia_user a"
    "ia_free_units (free_bufunit xs u ys a) = ia_free_units a + (if nx then 1 else 0) + (if pv then 1 else 0)"
    unfolding free_bufunit_def us1_def ys1_def w1_def nx_def pv_def w_def by (simp_all add: IMP_free_unit_def Let_def)
  have "length us1 + (if nx then 1 else 0) + (if pv then 1 else 0) = length (ia_units a)"
    unfolding us1_def ys1_def using assms(2) by (cases xs; cases ys) (auto simp: nx_def pv_def)
  then show "imp_inv (free_bufunit xs u ys a)" using assms(1) t2 c2 r by (auto simp: imp_inv_def us1_def)
  show "ia_start (free_bufunit xs u ys a) = ia_start a" "ia_size (free_bufunit xs u ys a) = ia_size a"
    "add_mset (bu_vaddr u, bu_length u - bu_offset u) (live (ia_units (free_bufunit xs u ys a))) = live (ia_units a)"
    using r l2 by simp_all
qed

section \<open>Clients\<close>

text \<open>A client allocates, with any alignment, and gives back what it holds. It asks for at least one
  byte and keeps size and alignment together below 2^32.\<close>

datatype imp_op = Imp_alloc bool u32 u32 | Imp_free u32

definition legal_op :: "imp_op \<Rightarrow> imp_alloc option \<Rightarrow> bool" where
  "legal_op op h = (case op of
     Imp_alloc mal al sz \<Rightarrow> 0 < sz \<and> unat sz + unat al \<le> 2 ^ 32
   | Imp_free p \<Rightarrow> (case h of None \<Rightarrow> False | Some a \<Rightarrow> \<exists>n. (p, n) \<in># live (ia_units a)))"

definition imp_do :: "imp_op \<Rightarrow> imp_alloc option \<Rightarrow> u32 \<times> imp_alloc option" where
  "imp_do op h = (case op of Imp_alloc mal al sz \<Rightarrow> Local_alignAlloc mal al sz h | Imp_free p \<Rightarrow> Local_Dealloc p h)"

inductive imp_reach :: "u32 \<Rightarrow> u32 \<Rightarrow> imp_alloc option \<Rightarrow> bool" for heap n where
  imp_start: "Local_HeapInit mal1 mal2 heap n l = (1, h) \<Longrightarrow> imp_reach heap n h"
| imp_call: "imp_reach heap n h \<Longrightarrow> legal_op op h \<Longrightarrow> imp_reach heap n (snd (imp_do op h))"

lemma alloc_cases:
  assumes "imp_inv a" "0 < sz" "unat sz + unat al \<le> 2 ^ 32"
  obtains "Local_alignAlloc mal al sz (Some a) = (0, Some a)"
    "al = 0 \<or> (\<forall>q. \<not> room_at sz al (ia_units a) q) \<or> \<not> mal \<and> ia_free_units a = 0"
  | p a' where "Local_alignAlloc mal al sz (Some a) = (p, Some a')" "imp_inv a'" "p \<noteq> 0" "unat al dvd unat p"
    "live (ia_units a') = add_mset (p, sz) (live (ia_units a))" "ia_start a' = ia_start a" "ia_size a' = ia_size a"
    "room_at sz al (ia_units a) (unat p)" "\<forall>q. room_at sz al (ia_units a) q \<longrightarrow> unat p \<le> q"
proof (cases "find_free sz al (ia_units a)")
  case None
  then have "alloc_bufunit mal sz al a = (None, a)" by (simp add: alloc_bufunit_def)
  moreover have "al = 0 \<or> (\<forall>q. \<not> room_at sz al (ia_units a) q)"
    using None fit_offset_none [OF _ assms(3)] unfolding find_free_None room_at_def word_neq_0_conv [symmetric] by blast
  ultimately show ?thesis using that(1) by (auto simp: Local_alignAlloc_def)
next
  case (Some r)
  obtain xs u ofst ys where f: "find_free sz al (ia_units a) = Some (xs, u, ofst, ys)" using Some by (cases r) auto
  show ?thesis
  proof (cases "al = 0")
    case True
    then show ?thesis using that(1) by (simp add: Local_alignAlloc_def)
  next
    case False
    obtain b a' where ba: "alloc_bufunit mal sz al a = (b, a')" by (cases "alloc_bufunit mal sz al a")
    show ?thesis
    proof (cases b)
      case None
      with ba f have "a' = a" "\<not> mal \<and> ia_free_units a = 0" by (auto simp: alloc_bufunit_def IMP_alloc_unit_def Let_def split: if_splits option.splits)
      then show ?thesis using that(1) None ba False by (simp add: Local_alignAlloc_def)
    next
      case (Some v)
      have "0 < al" using False by (simp add: word_neq_0_conv)
      note ok' = alloc_bufunit_ok [OF assms(1,2) this assms(3) f ba [unfolded Some]]
      then have ok: "imp_inv a'" "unat al dvd unat (bu_vaddr v)" "unat (bu_vaddr v) = unat (bu_vaddr u) + unat ofst"
        "ia_start a' = ia_start a" "ia_size a' = ia_size a" "live (ia_units a') = add_mset (bu_vaddr v, sz) (live (ia_units a))" by blast+
      have "u \<in> set (ia_units a)" "is_free u" using find_free_split [OF f]
        by (auto simp: fit_offset_def is_free_def split: if_splits)
      then have "unat (ia_start a) \<le> unat (bu_vaddr u)"
        using tiles_bounds(1) [of _ "ia_units a" _ u] assms(1) by (auto simp: imp_inv_def bu_base_def)
      then have "0 < unat (bu_vaddr v)" using ok(3) assms(1) by (simp add: imp_inv_def)
      then have "bu_vaddr v \<noteq> 0" by auto
      then show ?thesis using that(2) ok ba Some False find_free_least [OF assms(1) \<open>0 < al\<close> assms(3) f]
        by (simp add: Local_alignAlloc_def)
    qed
  qed
qed

lemma live_unit:
  assumes "(p, n) \<in># live us"
  obtains u where "u \<in> set us" "\<not> is_free u" "bu_vaddr u = p" "bu_length u - bu_offset u = n"
  using assms by (auto simp: live_def)

lemma dealloc_ok:
  assumes "imp_inv a" "(p, n) \<in># live (ia_units a)"
  shows "\<exists>a'. Local_Dealloc p (Some a) = (n, Some a') \<and> imp_inv a' \<and> ia_start a' = ia_start a \<and> ia_size a' = ia_size a \<and>
    add_mset (p, n) (live (ia_units a')) = live (ia_units a)"
proof -
  obtain u where u: "u \<in> set (ia_units a)" "\<not> is_free u" "bu_vaddr u = p" "bu_length u - bu_offset u = n"
    using live_unit [OF assms(2)] .
  have t: "tiles (unat (ia_start a)) (ia_units a) (unat (ia_start a) + unat (ia_size a))" using assms(1) by (simp add: imp_inv_def)
  obtain xs ys where f: "ia_units a = xs @ u # ys" "find_bufunit_byaddr p (ia_units a) = Some (xs, u, ys)"
    using find_byaddr_live [OF t u(1)] u(3) by blast
  have "unat (ia_start a) \<le> unat p" using tiles_bounds(1) [OF t u(1)] u(2,3) by (simp add: bu_base_def)
  then have "p \<noteq> 0" using assms(1) by (auto simp: imp_inv_def)
  with free_bufunit_ok [OF assms(1) f(1) u(2)] f(2) u(3,4) show ?thesis by (simp add: Local_Dealloc_def)
qed

lemma init_ok:
  assumes "Local_HeapInit mal1 mal2 heap n l = (1, h)" "4 < n" "unat heap + unat n < 2 ^ 32"
  shows "\<exists>a. h = Some a \<and> imp_inv a \<and> ia_start a = heap + 4 \<and> ia_size a = n - 4 \<and>
    ia_units a = [\<lparr>bu_status = ALLOC_BUF_FREE, bu_vaddr = heap + 4, bu_length = n - 4, bu_offset = 0\<rparr>]"
proof -
  have "unat (n - 4) = unat n - 4" using assms(2) by (simp add: unat_sub word_le_nat_alt word_less_nat_alt)
  moreover have n4: "4 < unat n" using assms(2) by (simp add: word_less_nat_alt)
  moreover have "unat (heap + 4) = unat heap + 4" using assms(3) n4 by (simp add: unat_word_ariths)
  moreover have "0 < n - 4" using \<open>unat (n - 4) = unat n - 4\<close> n4 by (simp add: word_less_nat_alt)
  ultimately show ?thesis using assms(1,3)
    by (auto simp: Local_HeapInit_def imp_buf_alloc_init_def IMP_create_units_def BUF_MANAGER_NODE_CNT_def imp_inv_def
        bu_base_def unit_ok_def is_free_def Let_def split: if_splits option.splits)
qed

lemma imp_reach_inv:
  assumes "imp_reach heap n h" "4 < n" "unat heap + unat n < 2 ^ 32"
  shows "\<exists>a. h = Some a \<and> imp_inv a \<and> ia_start a = heap + 4 \<and> ia_size a = n - 4"
  using assms(1)
proof induction
  case (imp_start mal1 mal2 l h)
  from init_ok [OF this assms(2,3)] show ?case by auto
next
  case (imp_call h op)
  then obtain a where a: "h = Some a" "imp_inv a" "ia_start a = heap + 4" "ia_size a = n - 4" by blast
  show ?case
  proof (cases op)
    case (Imp_alloc mal al sz)
    then have "0 < sz" "unat sz + unat al \<le> 2 ^ 32" using imp_call.hyps by (simp_all add: legal_op_def)
    from alloc_cases [OF a(2) this, of mal] a show ?thesis by (cases) (auto simp: imp_do_def Imp_alloc)
  next
    case (Imp_free p)
    then obtain k where "(p, k) \<in># live (ia_units a)" using imp_call.hyps a(1) by (auto simp: legal_op_def)
    from dealloc_ok [OF a(2) this] a show ?thesis by (auto simp: imp_do_def Imp_free)
  qed
qed

section \<open>Properties\<close>

definition span :: "u32 \<times> u32 \<Rightarrow> nat set" where
  "span r = {unat (fst r) ..< unat (fst r) + unat (snd r)}"

lemma live_span:
  assumes "unit_ok u" "\<not> is_free u"
  shows "span (bu_vaddr u, bu_length u - bu_offset u) \<subseteq> {bu_base u ..< bu_base u + unat (bu_length u)}"
    "0 < unat (bu_length u - bu_offset u)"
proof -
  have "unat (bu_length u - bu_offset u) = unat (bu_length u) - unat (bu_offset u)" "unat (bu_offset u) < unat (bu_length u)"
    "unat (bu_offset u) \<le> unat (bu_vaddr u)"
    using assms by (simp_all add: unit_ok_def unat_sub word_le_nat_alt word_less_nat_alt)
  then show "span (bu_vaddr u, bu_length u - bu_offset u) \<subseteq> {bu_base u ..< bu_base u + unat (bu_length u)}"
    "0 < unat (bu_length u - bu_offset u)" using assms(2) by (auto simp: span_def bu_base_def)
qed

lemma live_disjoint:
  assumes "tiles s us e" "add_mset r (add_mset q M) = live us"
  shows "span r \<inter> span q = {}"
  using assms
proof (induction us arbitrary: s r q M)
  case (Cons u us)
  have t: "bu_base u = s" "unit_ok u" "tiles (s + unat (bu_length u)) us e" using Cons.prems(1) by simp_all
  show ?case
  proof (cases "is_free u")
    case True
    with Cons.prems(2) Cons.IH [OF t(3)] show ?thesis by simp
  next
    case False
    let ?x = "(bu_vaddr u, bu_length u - bu_offset u)"
    have later: "span ?x \<inter> span y = {}" if y: "y \<in># live us" for y
    proof -
      obtain v where v: "v \<in> set us" "\<not> is_free v" "y = (bu_vaddr v, bu_length v - bu_offset v)"
        using live_unit [of "fst y" "snd y" us] y by (metis prod.collapse)
      have "s + unat (bu_length u) \<le> bu_base v" "unit_ok v" using tiles_bounds [OF t(3) v(1)] by simp_all
      with live_span(1) [OF t(2) False] live_span(1) [OF _ v(2)] v(3) t(1) show ?thesis by fastforce
    qed
    have eq: "add_mset r (add_mset q M) = add_mset ?x (live us)" using Cons.prems(2) False by simp
    consider "r = ?x" "add_mset q M = live us" | "q = ?x" "add_mset r M = live us"
      | M' where "M = add_mset ?x M'" "add_mset r (add_mset q M') = live us"
      using eq unfolding add_eq_conv_ex by auto
    then show ?thesis
    proof cases
      case 1
      then show ?thesis using later by (metis union_single_eq_member)
    next
      case 2
      then show ?thesis using later by (metis inf_commute union_single_eq_member)
    next
      case 3
      then show ?thesis using Cons.IH [OF t(3)] by blast
    qed
  qed
qed simp

lemma tiles_sum: "tiles s us e \<Longrightarrow> s + sum_list (map (unat \<circ> bu_length) us) = e"
  by (induction us arbitrary: s) (simp_all add: add.assoc [symmetric])

text \<open>C28. Whatever a client allocates and gives back: what it holds lies in the heap and never overlaps,
  the units cover the heap without a gap, no two free ones are neighbours, and every unit
  of the pool is in the list, free, or the root.\<close>

theorem imp_heap_invariant:
  assumes "imp_reach heap n h" "4 < n" "unat heap + unat n < 2 ^ 32"
  shows "\<exists>a. h = Some a \<and>
    (\<forall>r \<in># live (ia_units a). span r \<noteq> {} \<and> span r \<subseteq> {unat heap + 4 ..< unat heap + unat n}) \<and>
    (\<forall>r q M. live (ia_units a) = add_mset r (add_mset q M) \<longrightarrow> span r \<inter> span q = {}) \<and>
    sum_list (map (unat \<circ> bu_length) (ia_units a)) = unat n - 4 \<and> coalesced (ia_units a) \<and>
    ia_free_units a + length (ia_units a) + 1 = 256 * (ia_memlist a + 1)"
proof -
  obtain a where a: "h = Some a" "imp_inv a" "ia_start a = heap + 4" "ia_size a = n - 4" using imp_reach_inv [OF assms] by blast
  have u: "unat (n - 4) = unat n - 4" "4 < unat n" "unat (heap + 4) = unat heap + 4"
    using assms(2,3) by (auto simp: unat_sub word_le_nat_alt word_less_nat_alt unat_word_ariths)
  then have e: "unat (ia_start a) + unat (ia_size a) = unat heap + unat n" using a(3,4) by simp
  have "tiles (unat (ia_start a)) (ia_units a) (unat (ia_start a) + unat (ia_size a))" using a(2) by (simp add: imp_inv_def)
  then have t: "tiles (unat heap + 4) (ia_units a) (unat heap + unat n)" by (simp only: e) (simp only: a(3) u(3))
  have "span r \<noteq> {} \<and> span r \<subseteq> {unat heap + 4 ..< unat heap + unat n}" if r: "r \<in># live (ia_units a)" for r
  proof -
    obtain v where v: "v \<in> set (ia_units a)" "\<not> is_free v" "r = (bu_vaddr v, bu_length v - bu_offset v)"
      using live_unit [of "fst r" "snd r"] r by (metis prod.collapse)
    from tiles_bounds [OF t v(1)] live_span [OF _ v(2)] v(3) show ?thesis by (fastforce simp: span_def)
  qed
  moreover have "span r \<inter> span q = {}" if "live (ia_units a) = add_mset r (add_mset q M)" for r q M
    using live_disjoint [OF t that [symmetric]] .
  moreover have "sum_list (map (unat \<circ> bu_length) (ia_units a)) = unat n - 4" using tiles_sum [OF t] by simp
  moreover have "coalesced (ia_units a)" "ia_free_units a + length (ia_units a) + 1 = 256 * (ia_memlist a + 1)"
    using a(2) by (simp_all add: imp_inv_def)
  ultimately show ?thesis using a(1) by (intro exI [of _ a] conjI ballI allI impI) blast+
qed

lemma sample_heap_init:
  "Local_HeapInit True True 0x1000 0x1000 None = (1, Some \<lparr>ia_start = 0x1004, ia_size = 0xffc, ia_free_units = 254, ia_memlist = 0,
     ia_user = 1, ia_units = [\<lparr>bu_status = ALLOC_BUF_FREE, bu_vaddr = 0x1004, bu_length = 0xffc, bu_offset = 0\<rparr>]\<rparr>)"
  by (simp add: Local_HeapInit_def imp_buf_alloc_init_def IMP_create_units_def BUF_MANAGER_NODE_CNT_def Let_def)

lemmas sample_heap = imp_start [OF sample_heap_init]

theorem imp_heap_invariant_witness:
  "\<exists>a. snd (imp_do (Imp_alloc True 64 100) (snd (Local_HeapInit True True 0x1000 0x1000 None))) = Some a \<and>
    sum_list (map (unat \<circ> bu_length) (ia_units a)) = 4092"
proof -
  from imp_heap_invariant [OF imp_call [OF sample_heap, of "Imp_alloc True 64 100"]]
  show ?thesis by (auto simp: legal_op_def sample_heap_init)
qed

text \<open>C29. An allocation answers the lowest aligned address from which on the size lies in one free
  unit, whatever the search does to find it, and adds it to what the client holds. It fails only
  when there is no such address, or when no unit is left for the rest and \<open>malloc\<close> fails
  (\<open>mal\<close> is its answer), and a failure changes nothing. The size is not zero and does not wrap around with the alignment.\<close>

theorem imp_alloc_spec:
  assumes "imp_reach heap n h" "4 < n" "unat heap + unat n < 2 ^ 32" "0 < sz" "0 < al" "unat sz + unat al \<le> 2 ^ 32"
  shows "\<exists>a p a'. h = Some a \<and> Local_alignAlloc mal al sz h = (p, Some a') \<and>
    (if p = 0
     then a' = a \<and> ((\<forall>q. \<not> room_at sz al (ia_units a) q) \<or> \<not> mal \<and> ia_free_units a = 0)
     else room_at sz al (ia_units a) (unat p) \<and> (\<forall>q. room_at sz al (ia_units a) q \<longrightarrow> unat p \<le> q) \<and>
       live (ia_units a') = add_mset (p, sz) (live (ia_units a)))"
proof -
  obtain a where a: "h = Some a" "imp_inv a" using imp_reach_inv [OF assms(1-3)] by blast
  have "al \<noteq> 0" using assms(5) by auto
  then show ?thesis using alloc_cases [OF a(2) assms(4,6), of mal] a(1)
    by (metis (full_types))
qed

theorem imp_alloc_spec_witness:
  "\<exists>a p a'. snd (Local_HeapInit True True 0x1000 0x1000 None) = Some a \<and> Local_alignAlloc True 64 100 (Some a) = (p, Some a') \<and>
    64 dvd unat p \<and> unat p \<le> 0x1040 \<and> live (ia_units a') = {#(p, 100)#}"
proof -
  let ?us = "[\<lparr>bu_status = ALLOC_BUF_FREE, bu_vaddr = 0x1004, bu_length = 0xffc, bu_offset = 0\<rparr>]"
  have "room_at 100 64 ?us 0x1040" by (simp add: room_at_def unit_room_def is_free_def dvd_eq_mod_eq_0)
  moreover have "64 dvd q" if "room_at 100 64 ?us q" for q using that by (simp add: room_at_def unit_room_def)
  ultimately show ?thesis
    using imp_alloc_spec [OF sample_heap, of 100 64 True] unfolding sample_heap_init
    by (auto simp: is_free_def split: if_splits)
qed

text \<open>Allocating and giving back at once restores the units, in any state: addresses, lengths and
  status are as before.\<close>

definition shape :: "bufunit list \<Rightarrow> (alloc_buf_status \<times> u32 \<times> u32) list" where
  "shape us = map (\<lambda>u. (bu_status u, bu_vaddr u, bu_length u)) us"

lemma find_byaddr_at:
  assumes "\<forall>x \<in> set xs. bu_vaddr x \<noteq> bu_vaddr b"
  shows "find_bufunit_byaddr (bu_vaddr b) (xs @ b # ys) = Some (xs, b, ys)"
  using assms by (induction xs) auto

theorem imp_alloc_free_restores:
  assumes "imp_reach heap n h" "4 < n" "unat heap + unat n < 2 ^ 32" "0 < sz" "0 < al" "unat sz + unat al \<le> 2 ^ 32"
    "Local_alignAlloc mal al sz h = (p, h1)" "p \<noteq> 0"
  shows "\<exists>a a'. h = Some a \<and> Local_Dealloc p h1 = (sz, Some a') \<and> shape (ia_units a') = shape (ia_units a)"
proof -
  obtain a where a: "h = Some a" "imp_inv a" using imp_reach_inv [OF assms(1-3)] by blast
  obtain b a1 where ab: "alloc_bufunit mal sz al a = (Some b, a1)" "p = bu_vaddr b" "h1 = Some a1"
    using assms(7,8) a(1) by (auto simp: Local_alignAlloc_def split: if_splits option.splits prod.splits)
  obtain xs u ofst ys where f: "find_free sz al (ia_units a) = Some (xs, u, ofst, ys)"
    using ab(1) by (auto simp: alloc_bufunit_def split: option.splits)
  note sp = find_free_split [OF f] and ok = alloc_bufunit_ok [OF a(2) assms(4,5,6) f ab(1)]
  have fu: "is_free u" using sp(2) by (auto simp: fit_offset_def is_free_def split: if_splits)
  have tl: "tiles (unat (ia_start a)) (xs @ u # ys) (unat (ia_start a) + unat (ia_size a))" "coalesced (xs @ u # ys)"
    using a(2) sp(1) by (simp_all add: imp_inv_def)
  then obtain k where k: "tiles (unat (ia_start a)) xs k" "bu_base u = k" by (auto simp: tiles_append)
  have "bu_vaddr x \<noteq> p" if x: "x \<in> set xs" for x
  proof -
    have "bu_base x + unat (bu_length x) \<le> k" "unit_ok x" using tiles_bounds [OF k(1) x] by simp_all
    then have "unat (bu_vaddr x) < k" by (auto simp: unit_ok_def bu_base_def word_less_nat_alt split: if_splits)
    moreover have "k \<le> unat p" using ok ab(2) k(2) fu by (metis (no_types) bu_base_def le_add1)
    ultimately show ?thesis by auto
  qed
  then have find: "find_bufunit_byaddr p (xs @ b # zs) = Some (xs, b, zs)" for zs
    using find_byaddr_at [of xs b zs] ab(2) by simp
  have pv: "\<not> (xs \<noteq> [] \<and> is_free (last xs))" using tl(2) fu by (auto simp: coalesced_append)
  have ny: "\<not> (ys \<noteq> [] \<and> is_free (hd ys))" using tl(2) fu by (auto simp: coalesced_append)
  have len: "sz + ofst = bu_length u" if "\<not> sz + ofst < bu_length u"
  proof -
    have "k + unat (bu_length u) \<le> unat (ia_start a) + unat (ia_size a)" using tiles_bounds(2) [OF tl(1), of u] k(2) by simp
    then have "unat (bu_vaddr u) + unat (bu_length u) < 2 ^ 32" using a(2) k(2) fu by (simp add: imp_inv_def bu_base_def)
    from fit_offset_ok(2,3) [OF sp(2) assms(6,5) this] that show ?thesis
      by (simp add: word_less_nat_alt word_unat_eq_iff)
  qed
  show ?thesis
  proof (cases "sz + ofst < bu_length u")
    case True
    obtain a2 where a2: "IMP_alloc_unit mal a = Some a2" using ab(1) f True by (auto simp: alloc_bufunit_def Let_def split: option.splits)
    with ab(1) f True have u1: "b = u\<lparr>bu_vaddr := bu_vaddr u + ofst, bu_length := sz + ofst, bu_offset := ofst, bu_status := ALLOC_BUF_BUSY\<rparr>"
      "ia_units a1 = xs @ b # \<lparr>bu_status = ALLOC_BUF_FREE, bu_vaddr = bu_vaddr u + sz + ofst, bu_length = bu_length u - sz - ofst, bu_offset = 0\<rparr> # ys"
      by (auto simp: alloc_bufunit_def Let_def)
    from find pv u1 fu ab(2,3) assms(8) a(1) sp(1) show ?thesis
      by (auto simp: Local_Dealloc_def free_bufunit_def shape_def is_free_def Let_def)
  next
    case False
    with ab(1) f have u1: "b = u\<lparr>bu_vaddr := bu_vaddr u + ofst, bu_length := sz + ofst, bu_offset := ofst, bu_status := ALLOC_BUF_BUSY\<rparr>"
      "ia_units a1 = xs @ b # ys" by (auto simp: alloc_bufunit_def Let_def)
    have "bu_length u - ofst = sz" using len [OF False] by (metis add_diff_cancel_right')
    with find pv ny u1 fu ab(2,3) assms(8) a(1) sp(1) len [OF False] show ?thesis
      by (auto simp: Local_Dealloc_def free_bufunit_def shape_def is_free_def Let_def)
  qed
qed

theorem imp_alloc_free_restores_witness:
  "\<exists>p a'. fst (Local_alignAlloc True 64 100 (snd (Local_HeapInit True True 0x1000 0x1000 None))) = p \<and>
    Local_Dealloc p (snd (Local_alignAlloc True 64 100 (snd (Local_HeapInit True True 0x1000 0x1000 None)))) = (100, Some a') \<and>
    shape (ia_units a') = [(ALLOC_BUF_FREE, 0x1004, 0xffc)]"
proof -
  let ?h = "snd (Local_HeapInit True True 0x1000 0x1000 None)"
  have reach: "imp_reach 0x1000 0x1000 ?h" using sample_heap by (simp add: sample_heap_init)
  have "fst (Local_alignAlloc True 64 100 ?h) \<noteq> 0"
    by (simp add: sample_heap_init Local_alignAlloc_def alloc_bufunit_def fit_offset_def IMP_alloc_unit_def Let_def)
  from imp_alloc_free_restores [OF reach _ _ _ _ _ prod.collapse [symmetric] this]
  show ?thesis by (auto simp: sample_heap_init shape_def)
qed

lemma coalesced_free:
  assumes "coalesced us" "live us = {#}" "us \<noteq> []"
  shows "\<exists>u. us = [u] \<and> is_free u"
proof (cases us)
  case (Cons u vs)
  then have "is_free u" "live vs = {#}" using assms(2) by (auto split: if_splits)
  then show ?thesis using assms(1) Cons by (cases vs) (auto split: if_splits)
qed (use assms(3) in simp)

text \<open>C30. Once everything is given back the heap is one free unit again, whatever happened before.\<close>

theorem imp_all_returned:
  assumes "imp_reach heap n (Some a)" "4 < n" "unat heap + unat n < 2 ^ 32" "live (ia_units a) = {#}"
  shows "shape (ia_units a) = [(ALLOC_BUF_FREE, heap + 4, n - 4)]"
proof -
  have a: "imp_inv a" "ia_start a = heap + 4" "ia_size a = n - 4" using imp_reach_inv [OF assms(1-3)] by auto
  then obtain u where u: "ia_units a = [u]" "is_free u" using coalesced_free [OF _ assms(4)] by (auto simp: imp_inv_def)
  then have "unat (bu_vaddr u) = unat (heap + 4)" "unat (bu_length u) = unat (n - 4)" using a by (simp_all add: imp_inv_def bu_base_def)
  then have "bu_vaddr u = heap + 4" "bu_length u = n - 4" by (simp_all only: word_unat_eq_iff)
  with u show ?thesis by (simp add: shape_def is_free_def)
qed

definition sample_round :: "imp_alloc option" where
  "sample_round = (let (p, h) = Local_alignAlloc True 64 100 (snd (Local_HeapInit True True 0x1000 0x1000 None))
     in snd (Local_Dealloc p h))"

theorem imp_all_returned_witness:
  "\<exists>a. sample_round = Some a \<and> shape (ia_units a) = [(ALLOC_BUF_FREE, 0x1004, 0xffc)]"
proof -
  let ?h = "snd (Local_HeapInit True True 0x1000 0x1000 None)"
  have "imp_reach 0x1000 0x1000 ?h" using sample_heap by (simp add: sample_heap_init)
  then have h1: "imp_reach 0x1000 0x1000 (snd (imp_do (Imp_alloc True 64 100) ?h))"
    by (rule imp_call) (simp add: legal_op_def)
  have l: "legal_op (Imp_free 0x1040) (snd (imp_do (Imp_alloc True 64 100) ?h))"
    by (auto simp: legal_op_def imp_do_def sample_heap_init Local_alignAlloc_def alloc_bufunit_def fit_offset_def IMP_alloc_unit_def is_free_def Let_def)
  have s: "sample_round = snd (imp_do (Imp_free 0x1040) (snd (imp_do (Imp_alloc True 64 100) ?h)))"
    by (simp add: sample_round_def imp_do_def sample_heap_init Local_alignAlloc_def alloc_bufunit_def fit_offset_def IMP_alloc_unit_def Let_def)
  obtain a where a: "sample_round = Some a" "live (ia_units a) = {#}"
    by (simp add: s imp_do_def sample_heap_init Local_alignAlloc_def alloc_bufunit_def fit_offset_def IMP_alloc_unit_def
        Local_Dealloc_def free_bufunit_def is_free_def Let_def)
  from imp_all_returned [OF imp_call [OF h1 l, folded s, unfolded a(1)]] a(2)
  have "shape (ia_units a) = [(ALLOC_BUF_FREE, 0x1004, 0xffc)]" by simp
  with a(1) show ?thesis by blast
qed

section \<open>What the calls let through\<close>

text \<open>An allocation of no byte where the first free unit is aligned is given the address that the
  next allocation gets as well. Giving back the one that holds memory frees the empty unit
  instead: the answer is 0 and what was allocated stays so.\<close>

theorem imp_zero_alloc_aliases:
  assumes "find_free 0 al (ia_units a) = Some (xs, u, 0, ys)" "1 < ia_free_units a" "al \<noteq> 0" "bu_vaddr u \<noteq> 0"
    "0 < sz" "sz < bu_length u" "\<forall>x \<in> set xs. \<not> is_free x \<and> bu_vaddr x \<noteq> bu_vaddr u" "bu_vaddr u mod al = 0"
  shows "fst (Local_alignAlloc mal al 0 (Some a)) = bu_vaddr u \<and>
    fst (Local_alignAlloc mal al sz (snd (Local_alignAlloc mal al 0 (Some a)))) = bu_vaddr u \<and>
    fst (Local_Dealloc (bu_vaddr u) (snd (Local_alignAlloc mal al sz (snd (Local_alignAlloc mal al 0 (Some a)))))) = 0"
proof -
  note f = find_free_split [OF assms(1)]
  have u: "is_free u" "0 < bu_length u" using f(2) assms(5,6) by (auto simp: fit_offset_def is_free_def split: if_splits)
  let ?b = "u\<lparr>bu_vaddr := bu_vaddr u, bu_length := 0, bu_offset := 0, bu_status := ALLOC_BUF_BUSY\<rparr>"
  let ?n = "\<lparr>bu_status = ALLOC_BUF_FREE, bu_vaddr = bu_vaddr u, bu_length = bu_length u, bu_offset = 0\<rparr>"
  obtain a1 where a1: "Local_alignAlloc mal al 0 (Some a) = (bu_vaddr u, Some a1)" "ia_units a1 = xs @ ?b # ?n # ys"
    "ia_free_units a1 = ia_free_units a - 1"
    using assms(1-3) u(2) by (simp add: Local_alignAlloc_def alloc_bufunit_def IMP_alloc_unit_def Let_def)
  have skip: "find_free sz al (xs @ zs) = (case find_free sz al zs of None \<Rightarrow> None | Some (ps, v, ofst, qs) \<Rightarrow> Some (xs @ ps, v, ofst, qs))"
    for zs using assms(7) by (induction xs) (auto simp: fit_offset_def is_free_def split: option.splits prod.splits)
  have "fit_offset sz al ?b = None" "fit_offset sz al ?n = Some 0" using assms(6,8) by (simp_all add: fit_offset_def)
  then have "find_free sz al (ia_units a1) = Some (xs @ [?b], ?n, 0, ys)" unfolding a1(2) skip by simp
  then obtain a2 zs where a2: "Local_alignAlloc mal al sz (Some a1) = (bu_vaddr u, Some a2)" "ia_units a2 = xs @ ?b # zs"
    using assms(2,3,6) a1(3) by (simp add: Local_alignAlloc_def alloc_bufunit_def IMP_alloc_unit_def Let_def)
  have "find_bufunit_byaddr (bu_vaddr u) (ia_units a2) = Some (xs, ?b, zs)"
    unfolding a2(2) using find_byaddr_at [of xs ?b zs] assms(7) by simp
  then show ?thesis using a1(1) a2(1) assms(4) by (simp add: Local_Dealloc_def)
qed

theorem imp_zero_alloc_aliases_witness:
  "let h = snd (Local_HeapInit True True 0x1000 0x1000 None); h1 = snd (Local_alignAlloc True 4 0 h);
       (p, h2) = Local_alignAlloc True 4 100 h1
   in p = 0x1004 \<and> fst (Local_Dealloc p h2) = 0"
proof -
  let ?a = "\<lparr>ia_start = 0x1004, ia_size = 0xffc, ia_free_units = 254, ia_memlist = 0,
     ia_user = 1, ia_units = [\<lparr>bu_status = ALLOC_BUF_FREE, bu_vaddr = 0x1004, bu_length = 0xffc, bu_offset = 0\<rparr>]\<rparr>"
  have "find_free 0 4 (ia_units ?a) = Some ([], hd (ia_units ?a), 0, [])" by (simp add: fit_offset_def)
  from imp_zero_alloc_aliases [OF this, of 100 True]
  show ?thesis by (simp add: sample_heap_init Let_def split_beta)
qed

text \<open>Giving back an address twice is not noticed when a free unit begins there: what an aligned
  allocation left in its offset is subtracted once more, and the next allocation begins below
  the heap. Here the heap begins at 0x1000, and 0x1004 is given back twice.\<close>

definition double_free_run :: "u32 list" where
  "double_free_run =
     (let h = snd (Local_HeapInit True True 0x1000 0x1000 None);
          (p, h) = Local_alignAlloc True 1 128 h;
          (n1, h) = Local_Dealloc p h;
          (q, h) = Local_alignAlloc True 64 64 h;
          (n2, h) = Local_Dealloc q h;
          (n3, h) = Local_Dealloc p h;
          (r, h) = Local_alignAlloc True 1 16 h
      in [p, n1, q, n2, r])"

theorem imp_double_free_escapes: "double_free_run = [0x1004, 128, 0x1040, 64, 0xfc8]"
  by (simp add: double_free_run_def sample_heap_init Local_alignAlloc_def alloc_bufunit_def fit_offset_def IMP_alloc_unit_def
      Local_Dealloc_def free_bufunit_def is_free_def IMP_free_unit_def Let_def)

end
