(* ===== verification/AieMmap.thy ===== *)
theory AieMmap
  imports IaicCtx ImpAlloc
begin

text \<open>
  The start and end of the earlier drivers, \<open>aip/driver/src/drivers/aie_mmap.c\<close>: three
  device files, the windows of the DMA and the on-chip RAM, the block of DDR memory the kernel command line
  or the drivers name, and the heap of \<open>ImpAlloc\<close> on it. A start that fails goes through labels that give
  back what was taken. Descriptors and mapped pages are those of a process (\<open>proc\<close>);
  the old kernel drivers are not part of the repository, and what they answer is the parameter \<open>aie_os\<close>.
\<close>

section \<open>The command line\<close>

text \<open>The library functions the parser uses. \<open>%d\<close> and \<open>%x\<close> skip blanks, take a sign, and need a
  digit; \<open>%x\<close> takes a leading 0x.\<close>

definition digit_val :: "nat \<Rightarrow> char \<Rightarrow> nat option" where
  "digit_val b c =
     (let n = of_char c :: nat;
          v = (if 48 \<le> n \<and> n \<le> 57 then n - 48 else if 97 \<le> n \<and> n \<le> 102 then n - 87
               else if 65 \<le> n \<and> n \<le> 70 then n - 55 else b)
      in if v < b then Some v else None)"

fun scan_digits :: "nat \<Rightarrow> nat \<Rightarrow> string \<Rightarrow> nat \<times> string" where
  "scan_digits b acc [] = (acc, [])"
| "scan_digits b acc (c # s) = (case digit_val b c of Some v \<Rightarrow> scan_digits b (b * acc + v) s | None \<Rightarrow> (acc, c # s))"

definition starts_digit :: "nat \<Rightarrow> string \<Rightarrow> bool" where
  "starts_digit b s \<longleftrightarrow> s \<noteq> [] \<and> digit_val b (hd s) \<noteq> None"

definition blank :: "char \<Rightarrow> bool" where
  "blank c \<longleftrightarrow> c \<in> set [CHR '' '', CHR 0x09, CHR 0x0A, CHR 0x0B, CHR 0x0C, CHR 0x0D]"

definition scan_number :: "nat \<Rightarrow> string \<Rightarrow> (int \<times> string) option" where
  "scan_number b s =
     (let s = dropWhile blank s;
          (neg, s) = (if s \<noteq> [] \<and> hd s = CHR ''-'' then (True, tl s) else if s \<noteq> [] \<and> hd s = CHR ''+'' then (False, tl s) else (False, s));
          s = (if b = 16 \<and> (take 2 s = ''0x'' \<or> take 2 s = ''0X'') \<and> starts_digit b (drop 2 s) then drop 2 s else s)
      in if starts_digit b s then let (n, r) = scan_digits b 0 s in Some (if neg then - int n else int n, r) else None)"

fun strstr :: "string \<Rightarrow> string \<Rightarrow> string option" where
  "strstr pat [] = (if pat = [] then Some [] else None)"
| "strstr pat (c # s) = (if take (length pat) (c # s) = pat then Some (c # s) else strstr pat s)"

text \<open>\<open>sscanf (p, ''nmem=%d<unit>@%x'', &size, &addr)\<close>: what is not reached keeps its 0.\<close>

definition scan_nmem :: "char \<Rightarrow> string \<Rightarrow> u32 \<times> u32" where
  "scan_nmem u p =
     (if take 5 p \<noteq> ''nmem='' then (0, 0)
      else case scan_number 10 (drop 5 p) of
        None \<Rightarrow> (0, 0)
      | Some (n, r) \<Rightarrow>
          if take 2 r \<noteq> [u, CHR ''@''] then (word_of_int n, 0)
          else case scan_number 16 (drop 2 r) of None \<Rightarrow> (word_of_int n, 0) | Some (a, _) \<Rightarrow> (word_of_int n, word_of_int a))"

text \<open>\<open>get_nmem_info\<close>. The buffer has 512 bytes: a longer file fills it, and the string runs on into what
  is behind it. The first \<open>@\<close> is looked for without asking if there is one. The results are what is
  returned, and size and address when they are written.\<close>

definition cmd_string :: "string \<Rightarrow> string \<Rightarrow> string" where
  "cmd_string text behind = takeWhile (\<lambda>c. c \<noteq> CHR 0x00) (if length text < 512 then text else take 512 text @ behind)"

definition get_nmem_info :: "string option \<Rightarrow> string \<Rightarrow> fault + int \<times> (u32 \<times> u32) option" where
  "get_nmem_info file behind = (case file of
     None \<Rightarrow> Inr (- 1, None)
   | Some text \<Rightarrow>
       if text = [] then Inr (- 1, None)
       else case strstr ''nmem'' (cmd_string text behind) of
         None \<Rightarrow> Inr (- 1, None)
       | Some p \<Rightarrow>
           let before = takeWhile (\<lambda>c. c \<noteq> CHR ''@'') p
           in if CHR ''@'' \<notin> set p then Inl Null_deref
              else
                let u = last before;
                    (sz, addr) = scan_nmem u p;
                    sz = (if u = CHR ''M'' then sz * 1024 * 1024 else sz * 1024)
                in if u \<noteq> CHR ''M'' \<and> u \<noteq> CHR ''K'' then Inr (- 1, None)
                   else Inr (if addr = 0 \<or> sz = 0 then - 1 else 0, Some (sz, addr)))"

section \<open>State\<close>

text \<open>The global variables of \<open>aie_mmap.c\<close> and of \<open>ddr_mem.cc\<close>, the process, and what the drivers hold for it:
  blocks of \<open>NMEM_INIT\<close> and of \<open>IOCTL_SOC_NNA_MALLOC\<close>.\<close>

record aie =
  memfd :: int
  nnafd :: int
  nnalockfd :: int
  b_use_rmem :: bool
  multiprocess_choose :: u32
  nndma_io_vbase :: u32
  nndma_desram_vbase :: u32
  oram_vbase :: u32
  ddr_vbase :: u32
  ddr_pbase :: u32
  nndma_fastio_vbase :: u32
  desram_attr :: u32
  oram_attr :: u32
  ddr_attr :: u32
  nna_buf_paddr :: u32
  nna_buf_size :: u32
  unmem_size :: u32
  unmem_paddr :: u32
  l2cache_vaddr :: u32
  l2cache_size :: u32
  oram_real_size :: u32
  oram_base :: u32
  ddr_list :: "imp_alloc option"
  aie_proc :: proc
  nmem_held :: nat
  soc_held :: nat

text \<open>What the system answers: \<open>open\<close> (of \<open>/dev/soc-nna\<close> with or without \<open>O_SYNC\<close>), \<open>mmap\<close> for the pages
  that are mapped, a descriptor, a length and an offset; the register of the cache's size; the command line; the
  requests to the drivers; \<open>malloc\<close> of the heap.\<close>

record aie_os =
  ao_mem :: int
  ao_nna :: "bool \<Rightarrow> int"
  ao_nna_lock :: int
  ao_mmap :: "nat set \<Rightarrow> int \<Rightarrow> u32 \<Rightarrow> u32 \<Rightarrow> u32"
  ao_l2c :: u32
  ao_cmdline :: "string option"
  ao_behind :: string
  ao_nmem_init :: "u32 \<Rightarrow> int \<times> u32 \<times> u32"
  ao_nmem_uninit :: int
  ao_soc_malloc :: "int \<times> u32 \<times> u32"
  ao_version :: int
  ao_heap_malloc :: bool
  ao_unit_malloc :: bool
  ao_head_malloc :: bool
  ao_request :: int

definition NNA_UNCACHED :: u32 where "NNA_UNCACHED = 0x1"
definition NNA_UNCACHED_ACCELERATED :: u32 where "NNA_UNCACHED_ACCELERATED = 0x2"
definition NNA_CACHED :: u32 where "NNA_CACHED = 0x4"
definition NNDMA_DESRAM_BASE :: u32 where "NNDMA_DESRAM_BASE = 0x12500000"
definition NNDMA_DESRAM_SIZE :: u32 where "NNDMA_DESRAM_SIZE = 16 * 1024"
definition NNDMA_IO_BASE :: u32 where "NNDMA_IO_BASE = 0x12508000"
definition NNDMA_IO_SIZE :: u32 where "NNDMA_IO_SIZE = 0x20"
definition FASTIO_SIZE :: u32 where "FASTIO_SIZE = 0x1000"

definition aie_close :: "int \<Rightarrow> aie \<Rightarrow> aie" where
  "aie_close fd a = a\<lparr>aie_proc := p_close fd (aie_proc a)\<rparr>"

definition aie_unmap :: "u32 \<Rightarrow> u32 \<Rightarrow> aie \<Rightarrow> aie" where
  "aie_unmap v n a = a\<lparr>aie_proc := p_munmap v n (aie_proc a)\<rparr>"

text \<open>A mapping: its address, or \<open>MAP_FAILED\<close>.\<close>

definition aie_window :: "aie_os \<Rightarrow> int \<Rightarrow> u32 \<Rightarrow> u32 \<Rightarrow> aie \<Rightarrow> u32 \<times> aie" where
  "aie_window os fd n off a =
     (let v = ao_mmap os (mapped (aie_proc a)) fd n off in (v, a\<lparr>aie_proc := p_mmap v n (aie_proc a)\<rparr>))"

section \<open>The exit labels\<close>

text \<open>Each falls through to the one before it. The branch that gives the DDR block back leaves the
  answers of the drivers unread.\<close>

definition err_open_soc_nna :: "aie \<Rightarrow> aie" where
  "err_open_soc_nna a = (aie_close (memfd a) a)\<lparr>memfd := - 1\<rparr>"

definition err_open_nna_lock :: "aie \<Rightarrow> aie" where
  "err_open_nna_lock a = err_open_soc_nna ((aie_close (nnafd a) a)\<lparr>nnafd := - 1\<rparr>)"

definition err_oram_real_size :: "aie \<Rightarrow> aie" where
  "err_oram_real_size a = err_open_nna_lock ((aie_close (nnalockfd a) a)\<lparr>nnalockfd := - 1\<rparr>)"

definition err_mmap_nndma_io :: "aie \<Rightarrow> aie" where
  "err_mmap_nndma_io a = err_oram_real_size (aie_unmap (l2cache_vaddr a) 0x1000 a)"

definition err_mmap_nndma_desram :: "aie \<Rightarrow> aie" where
  "err_mmap_nndma_desram a = err_mmap_nndma_io (aie_unmap (nndma_io_vbase a) NNDMA_IO_SIZE a)"

definition err_mmap_oram :: "aie \<Rightarrow> aie" where
  "err_mmap_oram a = err_mmap_nndma_desram (aie_unmap (nndma_desram_vbase a) NNDMA_DESRAM_SIZE a)"

definition err_get_rmem_info :: "aie \<Rightarrow> aie" where
  "err_get_rmem_info a = err_mmap_oram (aie_unmap (oram_vbase a) (oram_real_size a) a)"

definition nmem_uninit :: "aie_os \<Rightarrow> aie \<Rightarrow> aie" where
  "nmem_uninit os a = (if 0 \<le> ao_nmem_uninit os then a\<lparr>nmem_held := nmem_held a - 1\<rparr> else a)"

definition err_mmap_ddr_nna :: "aie_os \<Rightarrow> aie \<Rightarrow> aie" where
  "err_mmap_ddr_nna os a = err_get_rmem_info
     (if b_use_rmem a then if multiprocess_choose a \<noteq> 0 then nmem_uninit os a else a
      else a\<lparr>soc_held := soc_held a - 1\<rparr>)"

definition err_mmap_fastio :: "aie_os \<Rightarrow> u32 \<Rightarrow> aie \<Rightarrow> aie" where
  "err_mmap_fastio os ddr_mem_size a = err_mmap_ddr_nna os (aie_unmap (ddr_vbase a) ddr_mem_size a)"

definition err_ddr_memory_init :: "aie_os \<Rightarrow> u32 \<Rightarrow> aie \<Rightarrow> aie" where
  "err_ddr_memory_init os ddr_mem_size a = err_mmap_fastio os ddr_mem_size (aie_unmap (nndma_fastio_vbase a) FASTIO_SIZE a)"

section \<open>The start\<close>

text \<open>A step goes on with a state, leaves with one (\<open>Inr\<close> of the left side), or crashes.\<close>

type_synonym aie_run = "(fault + aie) + aie"

definition leave :: "aie \<Rightarrow> aie_run" where
  "leave a = Inl (Inr a)"

definition aie_open :: "aie_os \<Rightarrow> aie \<Rightarrow> aie_run" where
  "aie_open os a =
     (let fd = ao_mem os; a = a\<lparr>memfd := fd, aie_proc := p_open fd (aie_proc a)\<rparr> in
      if fd < 0 then leave a
      else let fd = ao_nna os (ddr_attr a AND NNA_CACHED = 0); a = a\<lparr>nnafd := fd, aie_proc := p_open fd (aie_proc a)\<rparr> in
      if fd < 0 then leave (err_open_soc_nna a)
      else if multiprocess_choose a = 0 then Inr a
      else let fd = ao_nna_lock os; a = a\<lparr>nnalockfd := fd, aie_proc := p_open fd (aie_proc a)\<rparr> in
      if fd < 0 then leave (err_open_nna_lock a) else Inr a)"

text \<open>\<open>get_oram_l2cache\<close> and the test of its result: the window is compared with NULL, not with
  \<open>MAP_FAILED\<close>, and \<open>oram_real_size\<close> is unsigned, so the test \<open>oram_real_size < 0\<close> never holds. A
  field of the register that is not 1 to 4 leaves the cache's size as it was.\<close>

definition get_oram_l2cache :: "aie_os \<Rightarrow> aie \<Rightarrow> fault + u32 \<times> aie" where
  "get_oram_l2cache os a =
     (let (v, a) = aie_window os (memfd a) 0x1000 0x12200000 (a\<lparr>oram_base := 0x12600000\<rparr>); a = a\<lparr>l2cache_vaddr := v\<rparr> in
      if v = 0 then Inr (- 1, aie_unmap v 0x1000 a)
      else if v = MAP_FAILED then Inl Null_deref
      else
        let f = drop_bit 10 (ao_l2c os AND 0x1c00);
            l2 = (if f = 1 then 128 * 1024 else if f = 2 then 256 * 1024 else if f = 3 then 512 * 1024
                  else if f = 4 then 1024 * 1024 else l2cache_size a)
        in Inr (512 * 1024 - l2, a\<lparr>l2cache_size := l2, oram_base := oram_base a + l2\<rparr>))"

definition mmap_fd :: "u32 \<Rightarrow> aie \<Rightarrow> int" where
  "mmap_fd attr a = (if attr AND NNA_UNCACHED_ACCELERATED \<noteq> 0 then nnafd a else memfd a)"

definition aie_windows :: "aie_os \<Rightarrow> aie \<Rightarrow> aie_run" where
  "aie_windows os a = (case get_oram_l2cache os a of
     Inl f \<Rightarrow> Inl (Inl f)
   | Inr (n, a) \<Rightarrow>
       let a = a\<lparr>oram_real_size := n\<rparr>;
           (v, a) = aie_window os (memfd a) NNDMA_IO_SIZE NNDMA_IO_BASE a; a = a\<lparr>nndma_io_vbase := v\<rparr> in
       if v = MAP_FAILED then leave (err_mmap_nndma_io a)
       else
         let (v, a) = aie_window os (mmap_fd (desram_attr a) a) NNDMA_DESRAM_SIZE NNDMA_DESRAM_BASE a; a = a\<lparr>nndma_desram_vbase := v\<rparr> in
         if v = MAP_FAILED then leave (err_mmap_nndma_desram a)
         else
           let (v, a) = aie_window os (mmap_fd (oram_attr a) a) (oram_real_size a) (oram_base a) a; a = a\<lparr>oram_vbase := v\<rparr> in
           if v = MAP_FAILED then leave (err_mmap_oram a) else Inr a)"

text \<open>The block of DDR memory: from the command line, from \<open>/dev/nna_lock\<close>, or from \<open>/dev/soc-nna\<close>. The last
  neither says how much is wanted nor keeps the address. The result has its size.\<close>

definition take_info :: "(u32 \<times> u32) option \<Rightarrow> aie \<Rightarrow> aie" where
  "take_info info a = (case info of None \<Rightarrow> a | Some (_, addr) \<Rightarrow> a\<lparr>nna_buf_paddr := addr\<rparr>)"

definition ddr_block :: "aie_os \<Rightarrow> u32 \<Rightarrow> u32 \<Rightarrow> aie \<Rightarrow> (fault + aie) + u32 \<times> aie" where
  "ddr_block os ddr_mem_size rmemSize a =
     (if b_use_rmem a then
        if ddr_mem_size = 0 then Inr (rmemSize, a\<lparr>nna_buf_size := rmemSize, ddr_pbase := nna_buf_paddr a\<rparr>)
        else let (ret, n, addr) = ao_nmem_init os ddr_mem_size in
          if ret < 0 then Inl (Inr (err_get_rmem_info (a\<lparr>unmem_size := ddr_mem_size\<rparr>)))
          else Inr (n, a\<lparr>unmem_size := n, unmem_paddr := addr, ddr_pbase := addr, nmem_held := nmem_held a + 1\<rparr>)
      else let (ret, addr, n) = ao_soc_malloc os in
        if ret < 0 then Inl (Inr (err_get_rmem_info a))
        else Inr (ddr_mem_size, a\<lparr>nna_buf_paddr := addr, nna_buf_size := n, soc_held := soc_held a + 1\<rparr>))"

definition aie_ddr :: "aie_os \<Rightarrow> u32 \<Rightarrow> aie \<Rightarrow> (fault + aie) + u32 \<times> aie" where
  "aie_ddr os ddr_mem_size a = (case get_nmem_info (ao_cmdline os) (ao_behind os) of
     Inl f \<Rightarrow> Inl (Inl f)
   | Inr (val, info) \<Rightarrow>
       let a = take_info info a
       in if val < 0 then Inl (Inr (err_get_rmem_info a))
          else ddr_block os ddr_mem_size (case info of None \<Rightarrow> 0 | Some (n, _) \<Rightarrow> n) a)"

text \<open>\<open>ddr_memory_init\<close> of \<open>ddr_mem.cc\<close>: the heap on the block. The head that points to it is allocated without
  a test.\<close>

definition ddr_memory_init :: "aie_os \<Rightarrow> u32 \<Rightarrow> u32 \<Rightarrow> aie \<Rightarrow> fault + u32 \<times> aie" where
  "ddr_memory_init os mp mp_size a =
     (let (r, l) = Local_HeapInit (ao_heap_malloc os) (ao_unit_malloc os) mp mp_size (ddr_list a) in
      if ao_head_malloc os then Inr (r, a\<lparr>ddr_list := l\<rparr>) else Inl Null_deref)"

text \<open>The rest. A refused version goes to the label behind all the others, which only returns.\<close>

definition aie_finish :: "aie_os \<Rightarrow> u32 \<Rightarrow> aie \<Rightarrow> aie_run" where
  "aie_finish os ddr_mem_size a =
     (if ao_version os < 0 then leave a
      else
        let fd = (if ddr_attr a AND NNA_UNCACHED \<noteq> 0 then memfd a else nnafd a);
            (v, a) = aie_window os fd ddr_mem_size (ddr_pbase a) a; a = a\<lparr>ddr_vbase := v\<rparr> in
        if v = MAP_FAILED then leave (err_mmap_ddr_nna os a)
        else
          let (v, a) = aie_window os (memfd a) FASTIO_SIZE (ddr_pbase a AND 0x0fffffff) a; a = a\<lparr>nndma_fastio_vbase := v\<rparr> in
          if v = MAP_FAILED then leave (err_mmap_fastio os ddr_mem_size a)
          else case ddr_memory_init os (ddr_vbase a) ddr_mem_size a of
            Inl f \<Rightarrow> Inl (Inl f)
          | Inr (r, a) \<Rightarrow> if r = 0 then leave (err_ddr_memory_init os ddr_mem_size a) else Inr a)"

definition aie_mmap :: "aie_os \<Rightarrow> u32 \<Rightarrow> bool \<Rightarrow> u32 \<Rightarrow> u32 \<Rightarrow> u32 \<Rightarrow> aie \<Rightarrow> fault + int \<times> aie" where
  "aie_mmap os ddr_mem_size use_rmem desram_cache_attr oram_cache_attr ddr_cache_attr a =
     (let a = a\<lparr>b_use_rmem := use_rmem, multiprocess_choose := ddr_mem_size, desram_attr := desram_cache_attr,
                oram_attr := oram_cache_attr, ddr_attr := ddr_cache_attr\<rparr>;
          run = res_bind (res_bind (aie_open os a) (\<lambda>a. res_bind (aie_windows os a) (aie_ddr os ddr_mem_size)))
                  (\<lambda>(n, a). aie_finish os n a)
      in case run of Inl (Inl f) \<Rightarrow> Inl f | Inl (Inr a) \<Rightarrow> Inr (- 1, a) | Inr a \<Rightarrow> Inr (0, a))"

section \<open>The end and the requests\<close>

text \<open>\<open>__aie_munmap\<close>. The window of the cache's size is not unmapped, and the DDR window is unmapped with
  the size in \<open>__ddr_nna_buf\<close>.\<close>

definition aie_munmap :: "aie_os \<Rightarrow> aie \<Rightarrow> fault + int \<times> aie" where
  "aie_munmap os a = res_bind (Local_HeapDeInit (ddr_list a)) (\<lambda>(_, l).
     let a = a\<lparr>ddr_list := l\<rparr>;
         a = aie_unmap (nndma_fastio_vbase a) FASTIO_SIZE a;
         a = aie_unmap (ddr_vbase a) (nna_buf_size a) a;
         lock = (b_use_rmem a \<and> multiprocess_choose a \<noteq> 0)
     in if lock \<and> ao_nmem_uninit os < 0 then Inr (- 1, a)
        else
          let a = (if lock then nmem_uninit os a else if b_use_rmem a then a else a\<lparr>soc_held := soc_held a - 1\<rparr>);
              a = aie_unmap (oram_vbase a) (oram_real_size a) a;
              a = aie_unmap (nndma_desram_vbase a) NNDMA_DESRAM_SIZE a;
              a = aie_unmap (nndma_io_vbase a) NNDMA_IO_SIZE a;
              a = (if multiprocess_choose a \<noteq> 0 then (aie_close (nnalockfd a) a)\<lparr>nnalockfd := - 1\<rparr> else a);
              a = (aie_close (nnafd a) a)\<lparr>nnafd := - 1\<rparr>;
              a = (aie_close (memfd a) a)\<lparr>memfd := - 1\<rparr>
          in Inr (0, a))"

text \<open>\<open>__aie_lock\<close>, \<open>__aie_unlock\<close>, \<open>__aie_flushcache\<close>: one request each.\<close>

definition aie_lock :: "aie_os \<Rightarrow> aie \<Rightarrow> int" where
  "aie_lock os a = (if nnalockfd a < 0 then - 1 else if ao_request os < 0 then - 1 else 0)"

definition aie_flushcache :: "aie_os \<Rightarrow> int" where
  "aie_flushcache os = (if ao_request os < 0 then - 1 else 0)"

text \<open>The address translations of \<open>aie_mmap.h\<close>.\<close>

definition aie_get_ddr_paddr :: "aie \<Rightarrow> u32 \<Rightarrow> u32" where
  "aie_get_ddr_paddr a v = ddr_pbase a + (v - ddr_vbase a)"

definition aie_get_oram_paddr :: "aie \<Rightarrow> u32 \<Rightarrow> u32" where
  "aie_get_oram_paddr a v = oram_base a + (v - oram_vbase a)"

section \<open>What the labels give back\<close>

lemma aie_proc_ops [simp]:
  "aie_proc (aie_close fd a) = p_close fd (aie_proc a)" "aie_proc (aie_unmap v n a) = p_munmap v n (aie_proc a)"
  "nmem_held (aie_close fd a) = nmem_held a" "nmem_held (aie_unmap v n a) = nmem_held a"
  "soc_held (aie_close fd a) = soc_held a" "soc_held (aie_unmap v n a) = soc_held a"
  by (simp_all add: aie_close_def aie_unmap_def)

lemma aie_fields [simp]:
  "memfd (aie_close fd a) = memfd a" "nnafd (aie_close fd a) = nnafd a" "nnalockfd (aie_close fd a) = nnalockfd a"
  "memfd (aie_unmap v n a) = memfd a" "nnafd (aie_unmap v n a) = nnafd a" "nnalockfd (aie_unmap v n a) = nnalockfd a"
  "l2cache_vaddr (aie_unmap v n a) = l2cache_vaddr a" "nndma_io_vbase (aie_unmap v n a) = nndma_io_vbase a"
  "nndma_desram_vbase (aie_unmap v n a) = nndma_desram_vbase a" "oram_vbase (aie_unmap v n a) = oram_vbase a"
  "oram_real_size (aie_unmap v n a) = oram_real_size a" "ddr_vbase (aie_unmap v n a) = ddr_vbase a"
  "nna_buf_size (aie_unmap v n a) = nna_buf_size a" "nndma_fastio_vbase (aie_unmap v n a) = nndma_fastio_vbase a"
  "b_use_rmem (aie_unmap v n a) = b_use_rmem a" "multiprocess_choose (aie_unmap v n a) = multiprocess_choose a"
  by (simp_all add: aie_close_def aie_unmap_def)

lemma mapped_simps [simp]:
  "mapped (p_close fd p) = mapped p" "mapped (p_open fd p) = mapped p" "mapped (p_munmap v n p) = mapped p - pages_of v n"
  "mapped (p_mmap v n p) = (if v = MAP_FAILED then mapped p else mapped p \<union> pages_of v n)"
  by (simp_all add: p_close_def p_open_def p_munmap_def p_mmap_def)

text \<open>The descriptors, pages and blocks that are held.\<close>

definition held :: "aie \<Rightarrow> int list \<times> nat set \<times> nat \<times> nat" where
  "held a = (fds (aie_proc a), mapped (aie_proc a), nmem_held a, soc_held a)"

definition shut :: "aie \<Rightarrow> int list" where
  "shut a = remove1 (memfd a) (remove1 (nnafd a) (remove1 (nnalockfd a) (fds (aie_proc a))))"

text \<open>What a label leaves, if the descriptors are the start's and the windows up to its own are the last that were mapped.\<close>

definition unmapped :: "(u32 \<times> u32) list \<Rightarrow> nat set \<Rightarrow> nat set" where
  "unmapped ws M = fold (\<lambda>(v, n) M. M - pages_of v n) ws M"

definition dev_windows :: "aie \<Rightarrow> (u32 \<times> u32) list" where
  "dev_windows a = [(nndma_desram_vbase a, NNDMA_DESRAM_SIZE), (nndma_io_vbase a, NNDMA_IO_SIZE), (l2cache_vaddr a, 0x1000)]"

lemma held_oram_size: "held (err_oram_real_size a) = (shut a, mapped (aie_proc a), nmem_held a, soc_held a)"
  by (simp add: held_def shut_def err_oram_real_size_def err_open_nna_lock_def err_open_soc_nna_def)

lemma shut_unmap [simp]: "shut (aie_unmap v n a) = shut a" by (simp add: shut_def)

lemma held_labels:
  "held (err_mmap_nndma_io a) = (shut a, unmapped (drop 2 (dev_windows a)) (mapped (aie_proc a)), nmem_held a, soc_held a)"
  "held (err_mmap_nndma_desram a) = (shut a, unmapped (drop 1 (dev_windows a)) (mapped (aie_proc a)), nmem_held a, soc_held a)"
  "held (err_mmap_oram a) = (shut a, unmapped (dev_windows a) (mapped (aie_proc a)), nmem_held a, soc_held a)"
  "held (err_get_rmem_info a) =
     (shut a, unmapped ((oram_vbase a, oram_real_size a) # dev_windows a) (mapped (aie_proc a)), nmem_held a, soc_held a)"
  by (simp_all add: err_mmap_nndma_io_def err_mmap_nndma_desram_def err_mmap_oram_def err_get_rmem_info_def held_oram_size
      unmapped_def dev_windows_def)

text \<open>\<open>mmap\<close> gives pages that are not mapped, and not the first. Windows taken one after the other are undone from the last on.\<close>

definition mmap_fresh :: "aie_os \<Rightarrow> bool" where
  "mmap_fresh os \<longleftrightarrow> (\<forall>M fd n off. let v = ao_mmap os M fd n off in v \<noteq> 0 \<and> (v = MAP_FAILED \<or> pages_of v n \<inter> M = {}))"

fun layered :: "(u32 \<times> u32) list \<Rightarrow> nat set \<Rightarrow> nat set \<Rightarrow> bool" where
  "layered [] M X \<longleftrightarrow> X = M"
| "layered ((v, n) # ws) M X \<longleftrightarrow> pages_of v n \<subseteq> X \<and> layered ws M (X - pages_of v n)"

lemma layered_unmapped: "layered ws M X \<Longrightarrow> unmapped ws X = M"
  by (induction ws M X rule: layered.induct) (auto simp: unmapped_def)

lemma layered_Cons: "layered ws M X \<Longrightarrow> pages_of v n \<inter> X = {} \<Longrightarrow> layered ((v, n) # ws) M (X \<union> pages_of v n)"
  by (simp add: Un_Diff Diff_triv inf_commute)

text \<open>The process after a successful open: the start's descriptors in front of the old ones.\<close>

definition start_fds :: "aie \<Rightarrow> int list" where
  "start_fds a = (if multiprocess_choose a \<noteq> 0 then [nnalockfd a] else []) @ [nnafd a, memfd a]"

definition opened :: "int list \<Rightarrow> aie \<Rightarrow> bool" where
  "opened fs a \<longleftrightarrow> fds (aie_proc a) = start_fds a @ fs \<and> (multiprocess_choose a \<noteq> 0 \<or> nnalockfd a \<notin> set (nnafd a # memfd a # fs))"

lemma opened_shut: "opened fs a \<Longrightarrow> shut a = fs"
  by (auto simp: opened_def shut_def start_fds_def remove1_idem split: if_splits)

text \<open>A state with the descriptors of a start over \<open>fs\<close>, whose windows \<open>ws\<close>, the last first, lie over the pages \<open>M\<close>.\<close>

definition stage :: "int list \<Rightarrow> nat set \<Rightarrow> nat \<times> nat \<Rightarrow> (u32 \<times> u32) list \<Rightarrow> aie \<Rightarrow> bool" where
  "stage fs M h ws a \<longleftrightarrow> opened fs a \<and> layered ws M (mapped (aie_proc a)) \<and> (nmem_held a, soc_held a) = h"

lemma stage_shut: "stage fs M h ws a \<Longrightarrow> (shut a, unmapped ws (mapped (aie_proc a)), nmem_held a, soc_held a) = (fs, M, h)"
  by (auto simp: stage_def opened_shut layered_unmapped)

lemma stage_fields [simp]:
  "stage fs M h ws (a\<lparr>oram_base := w\<rparr>) = stage fs M h ws a" "stage fs M h ws (a\<lparr>l2cache_vaddr := w\<rparr>) = stage fs M h ws a"
  "stage fs M h ws (a\<lparr>l2cache_size := w\<rparr>) = stage fs M h ws a" "stage fs M h ws (a\<lparr>oram_real_size := w\<rparr>) = stage fs M h ws a"
  "stage fs M h ws (a\<lparr>nndma_io_vbase := w\<rparr>) = stage fs M h ws a" "stage fs M h ws (a\<lparr>nndma_desram_vbase := w\<rparr>) = stage fs M h ws a"
  "stage fs M h ws (a\<lparr>oram_vbase := w\<rparr>) = stage fs M h ws a" "stage fs M h ws (a\<lparr>ddr_vbase := w\<rparr>) = stage fs M h ws a"
  "stage fs M h ws (a\<lparr>nndma_fastio_vbase := w\<rparr>) = stage fs M h ws a" "stage fs M h ws (a\<lparr>ddr_pbase := w\<rparr>) = stage fs M h ws a"
  "stage fs M h ws (a\<lparr>nna_buf_paddr := w\<rparr>) = stage fs M h ws a" "stage fs M h ws (a\<lparr>nna_buf_size := w\<rparr>) = stage fs M h ws a"
  "stage fs M h ws (a\<lparr>unmem_size := w\<rparr>) = stage fs M h ws a" "stage fs M h ws (a\<lparr>unmem_paddr := w\<rparr>) = stage fs M h ws a"
  "stage fs M h ws (a\<lparr>ddr_list := l\<rparr>) = stage fs M h ws a"
  by (simp_all add: stage_def opened_def start_fds_def)

lemma window_stage:
  assumes "mmap_fresh os" "aie_window os fd n off a = (v, a')" "stage fs M h ws a" "v \<noteq> MAP_FAILED"
  shows "stage fs M h ((v, n) # ws) a'" "v \<noteq> 0"
proof -
  have f: "v \<noteq> 0 \<and> pages_of v n \<inter> mapped (aie_proc a) = {}"
    using assms(1,2,4) by (metis aie_window_def fst_conv mmap_fresh_def)
  have "a' = a\<lparr>aie_proc := p_mmap v n (aie_proc a)\<rparr>" using assms(2) by (auto simp: aie_window_def Let_def)
  then show "stage fs M h ((v, n) # ws) a'" "v \<noteq> 0"
    using assms(3,4) f layered_Cons [of ws M] by (simp_all add: stage_def opened_def start_fds_def del: layered.simps)
qed

lemma window_fields:
  assumes "aie_window os fd n off a = (v, a')"
  shows "memfd a' = memfd a" "nnafd a' = nnafd a" "l2cache_vaddr a' = l2cache_vaddr a" "l2cache_size a' = l2cache_size a"
    "oram_real_size a' = oram_real_size a" "oram_base a' = oram_base a" "nndma_io_vbase a' = nndma_io_vbase a"
    "nndma_desram_vbase a' = nndma_desram_vbase a" "oram_vbase a' = oram_vbase a" "ddr_vbase a' = ddr_vbase a" "ddr_pbase a' = ddr_pbase a"
    "desram_attr a' = desram_attr a" "oram_attr a' = oram_attr a" "ddr_list a' = ddr_list a" "nna_buf_size a' = nna_buf_size a"
    "b_use_rmem a' = b_use_rmem a" "multiprocess_choose a' = multiprocess_choose a" "unmem_size a' = unmem_size a"
  using assms by (auto simp: aie_window_def Let_def)

lemma window_failed: "aie_window os fd n off a = (MAP_FAILED, a') \<Longrightarrow> a' = a"
  by (auto simp: aie_window_def Let_def p_mmap_def)

text \<open>The run of a part of the start: what it leaves when it fails, and the stage it reaches.\<close>

definition run_ok :: "int list \<Rightarrow> nat set \<Rightarrow> nat \<times> nat \<Rightarrow> ('a \<Rightarrow> bool) \<Rightarrow> (fault + aie) + 'a \<Rightarrow> bool" where
  "run_ok fs M h Q r \<longleftrightarrow> (case r of Inl (Inl f) \<Rightarrow> True | Inl (Inr a) \<Rightarrow> held a = (fs, M, h) | Inr a \<Rightarrow> Q a)"

lemma run_ok_bind: "run_ok fs M h Q r \<Longrightarrow> (\<And>a. Q a \<Longrightarrow> run_ok fs M h P (f a)) \<Longrightarrow> run_ok fs M h P (res_bind r f)"
  by (cases r) (simp_all add: run_ok_def)

definition config :: "aie \<Rightarrow> bool \<times> u32" where
  "config a = (b_use_rmem a, multiprocess_choose a)"

lemma open_run:
  assumes "nnalockfd a < 0" "\<forall>fd \<in> set (fds (aie_proc a)). 0 \<le> fd"
  shows "run_ok (fds (aie_proc a)) (mapped (aie_proc a)) (nmem_held a, soc_held a)
    (\<lambda>a'. stage (fds (aie_proc a)) (mapped (aie_proc a)) (nmem_held a, soc_held a) [] a' \<and> config a' = config a) (aie_open os a)"
  using assms by (auto simp: aie_open_def leave_def Let_def held_def err_open_soc_nna_def err_open_nna_lock_def opened_def start_fds_def
      run_ok_def stage_def config_def)

definition all_windows :: "aie \<Rightarrow> (u32 \<times> u32) list" where
  "all_windows a = (oram_vbase a, oram_real_size a) # dev_windows a"

lemma l2cache_run:
  assumes "mmap_fresh os" "stage fs M h [] a" "get_oram_l2cache os a = Inr (n, a')"
  shows "stage fs M h [(l2cache_vaddr a', 0x1000)] a' \<and> config a' = config a"
proof -
  obtain v a1 where w: "aie_window os (memfd a) 0x1000 0x12200000 (a\<lparr>oram_base := 0x12600000\<rparr>) = (v, a1)" by fastforce
  have "v \<noteq> 0" using assms(1) w by (metis aie_window_def fst_conv mmap_fresh_def)
  then have v: "v \<noteq> MAP_FAILED" using assms(3) w by (auto simp: get_oram_l2cache_def)
  from window_stage(1) [OF assms(1) w _ v, of fs M h "[]"] assms(2,3) w v \<open>v \<noteq> 0\<close> window_fields(16,17) [OF w]
  show ?thesis by (auto simp: get_oram_l2cache_def Let_def config_def split: if_splits)
qed

lemma windows_run:
  assumes "mmap_fresh os" "stage fs M h [] a"
  shows "run_ok fs M h (\<lambda>a'. stage fs M h (all_windows a') a' \<and> config a' = config a) (aie_windows os a)"
proof (cases "get_oram_l2cache os a")
  case (Inr r)
  obtain n a1 where r: "r = (n, a1)" by fastforce
  define b where "b = a1\<lparr>oram_real_size := n\<rparr>"
  have b: "stage fs M h [(l2cache_vaddr b, 0x1000)] b" "config b = config a"
    using l2cache_run [OF assms Inr [unfolded r]] by (simp_all add: b_def config_def)
  obtain v1 c where c: "aie_window os (memfd b) NNDMA_IO_SIZE NNDMA_IO_BASE b = (v1, c)" by fastforce
  obtain v2 d where d: "aie_window os (mmap_fd (desram_attr c) (c\<lparr>nndma_io_vbase := v1\<rparr>)) NNDMA_DESRAM_SIZE NNDMA_DESRAM_BASE (c\<lparr>nndma_io_vbase := v1\<rparr>) = (v2, d)" by fastforce
  obtain v3 e where e: "aie_window os (mmap_fd (oram_attr d) (d\<lparr>nndma_desram_vbase := v2\<rparr>)) (oram_real_size d) (oram_base d) (d\<lparr>nndma_desram_vbase := v2\<rparr>) = (v3, e)" by fastforce
  have run: "aie_windows os a =
      (if v1 = MAP_FAILED then leave (err_mmap_nndma_io (c\<lparr>nndma_io_vbase := v1\<rparr>))
       else if v2 = MAP_FAILED then leave (err_mmap_nndma_desram (d\<lparr>nndma_desram_vbase := v2\<rparr>))
       else if v3 = MAP_FAILED then leave (err_mmap_oram (e\<lparr>oram_vbase := v3\<rparr>)) else Inr (e\<lparr>oram_vbase := v3\<rparr>))"
    using Inr c d e by (simp add: aie_windows_def r Let_def b_def)
  show ?thesis
  proof (cases "v1 = MAP_FAILED")
    case True
    then have "c = b" using window_failed c by simp
    then show ?thesis using True stage_shut [of fs M h _ "b\<lparr>nndma_io_vbase := v1\<rparr>"] b by (simp add: run run_ok_def leave_def held_labels dev_windows_def)
  next
    case c_ok: False
    let ?c = "c\<lparr>nndma_io_vbase := v1\<rparr>"
    have c1: "stage fs M h (drop 1 (dev_windows ?c)) ?c" "config ?c = config a"
      using window_stage(1) [OF assms(1) c b(1) c_ok] b(2) window_fields [OF c] by (simp_all add: dev_windows_def config_def)
    show ?thesis
    proof (cases "v2 = MAP_FAILED")
      case True
      then have "d = ?c" using window_failed d by simp
      then show ?thesis using True c_ok stage_shut [of fs M h _ "d\<lparr>nndma_desram_vbase := v2\<rparr>"] c1
        by (simp add: run run_ok_def leave_def held_labels dev_windows_def)
    next
      case d_ok: False
      let ?d = "d\<lparr>nndma_desram_vbase := v2\<rparr>"
      have d1: "stage fs M h (dev_windows ?d) ?d" "config ?d = config a"
        using window_stage(1) [OF assms(1) d c1(1) d_ok] c1(2) window_fields [OF d] by (simp_all add: dev_windows_def config_def)
      show ?thesis
      proof (cases "v3 = MAP_FAILED")
        case True
        then have "e = ?d" using window_failed e by simp
        then show ?thesis using True c_ok d_ok stage_shut [of fs M h _ "e\<lparr>oram_vbase := v3\<rparr>"] d1
          by (simp add: run run_ok_def leave_def held_labels dev_windows_def)
      next
        case False
        then show ?thesis using window_stage(1) [OF assms(1) e d1(1) False] d1(2) window_fields [OF e] c_ok d_ok
          by (simp add: run run_ok_def all_windows_def dev_windows_def config_def)
      qed
    qed
  qed
qed (simp add: aie_windows_def run_ok_def)

text \<open>What is held besides, once the DDR block is there.\<close>

definition with_block :: "aie \<Rightarrow> nat \<times> nat \<Rightarrow> nat \<times> nat" where
  "with_block a = (\<lambda>(nm, sc). if \<not> b_use_rmem a then (nm, sc + 1) else if multiprocess_choose a \<noteq> 0 then (nm + 1, sc) else (nm, sc))"

definition block_size :: "aie \<Rightarrow> u32" where
  "block_size a = (if \<not> b_use_rmem a then multiprocess_choose a else if multiprocess_choose a = 0 then nna_buf_size a else unmem_size a)"

lemma all_windows_fields [simp]:
  "all_windows (a\<lparr>nna_buf_paddr := w\<rparr>) = all_windows a" "all_windows (a\<lparr>nna_buf_size := w\<rparr>) = all_windows a"
  "all_windows (a\<lparr>ddr_pbase := w\<rparr>) = all_windows a" "all_windows (a\<lparr>unmem_size := w\<rparr>) = all_windows a"
  "all_windows (a\<lparr>unmem_paddr := w\<rparr>) = all_windows a" "all_windows (a\<lparr>nmem_held := k\<rparr>) = all_windows a"
  "all_windows (a\<lparr>soc_held := k\<rparr>) = all_windows a" "all_windows (a\<lparr>ddr_vbase := w\<rparr>) = all_windows a"
  "all_windows (a\<lparr>nndma_fastio_vbase := w\<rparr>) = all_windows a" "all_windows (a\<lparr>ddr_list := l\<rparr>) = all_windows a"
  "all_windows (aie_unmap v n a) = all_windows a"
  by (simp_all add: all_windows_def dev_windows_def aie_unmap_def)

lemma stage_held [simp]:
  "stage fs M h ws (a\<lparr>nmem_held := k\<rparr>) \<longleftrightarrow> fst h = k \<and> stage fs M (nmem_held a, snd h) ws a"
  "stage fs M h ws (a\<lparr>soc_held := k\<rparr>) \<longleftrightarrow> snd h = k \<and> stage fs M (fst h, soc_held a) ws a"
  by (auto simp: stage_def opened_def start_fds_def)

lemma stage_counts: "stage fs M h ws a \<Longrightarrow> nmem_held a = fst h \<and> soc_held a = snd h"
  by (auto simp: stage_def)

lemma held_rmem_info: "stage fs M h (all_windows a) a \<Longrightarrow> held (err_get_rmem_info a) = (fs, M, h)"
  using stage_shut [of fs M h "all_windows a" a] by (simp add: held_labels all_windows_def)

lemma ddr_run:
  assumes "stage fs M h (all_windows a) a" "multiprocess_choose a = n"
  shows "run_ok fs M h (\<lambda>(w, a'). stage fs M (with_block a' h) (all_windows a') a' \<and> config a' = config a \<and> w = block_size a') (aie_ddr os n a)"
proof (cases "get_nmem_info (ao_cmdline os) (ao_behind os)")
  case (Inr r)
  obtain val info where r: "r = (val, info)" by fastforce
  define b where "b = take_info info a"
  have b: "stage fs M h (all_windows b) b" "config b = config a" "multiprocess_choose b = n"
    using assms by (auto simp: b_def take_info_def config_def split: option.splits)
  have out: "held (err_get_rmem_info b) = (fs, M, h)" "held (err_get_rmem_info (b\<lparr>unmem_size := w\<rparr>)) = (fs, M, h)" for w
    using b(1) by (simp_all add: held_rmem_info)
  have "run_ok fs M h (\<lambda>(w, a'). stage fs M (with_block a' h) (all_windows a') a' \<and> config a' = config b \<and> w = block_size a') (ddr_block os n w b)" for w
    using b(1,3) out stage_counts [OF b(1)]
    by (cases h) (auto simp: ddr_block_def Let_def run_ok_def with_block_def config_def block_size_def split: prod.splits)
  then show ?thesis using out b(2) by (simp add: aie_ddr_def Inr r b_def [symmetric] Let_def) (simp add: run_ok_def)
qed (simp add: aie_ddr_def run_ok_def)

lemma held_ddr_labels:
  assumes "stage fs M (with_block a h) (all_windows a) a" "b_use_rmem a \<longrightarrow> 0 \<le> ao_nmem_uninit os"
  shows "held (err_mmap_ddr_nna os a) = (fs, M, h)"
proof -
  let ?b = "if b_use_rmem a then if multiprocess_choose a \<noteq> 0 then nmem_uninit os a else a else a\<lparr>soc_held := soc_held a - 1\<rparr>"
  have "stage fs M h (all_windows ?b) ?b"
    using assms stage_counts [OF assms(1)] by (cases h) (auto simp: nmem_uninit_def with_block_def)
  from held_rmem_info [OF this] show ?thesis by (simp add: err_mmap_ddr_nna_def)
qed

lemma unmap_stage: "stage fs M h ((v, n) # ws) a \<Longrightarrow> stage fs M h ws (aie_unmap v n a)"
  by (simp add: stage_def opened_def start_fds_def)

lemma finish_run:
  assumes "mmap_fresh os" "0 \<le> ao_version os" "b_use_rmem a \<longrightarrow> 0 \<le> ao_nmem_uninit os" "stage fs M (with_block a h) (all_windows a) a"
  shows "run_ok fs M h (\<lambda>a'. stage fs M (with_block a' h) ((nndma_fastio_vbase a', FASTIO_SIZE) # (ddr_vbase a', n) # all_windows a') a' \<and>
    config a' = config a \<and> ddr_list a' \<noteq> None \<and> block_size a' = block_size a) (aie_finish os n a)"
proof -
  obtain v1 b where b: "aie_window os (if ddr_attr a AND NNA_UNCACHED \<noteq> 0 then memfd a else nnafd a) n (ddr_pbase a) a = (v1, b)" by fastforce
  obtain v2 c where c: "aie_window os (memfd b) FASTIO_SIZE (ddr_pbase b AND 0x0fffffff) (b\<lparr>ddr_vbase := v1\<rparr>) = (v2, c)" by fastforce
  let ?b = "b\<lparr>ddr_vbase := v1\<rparr>" and ?c = "c\<lparr>nndma_fastio_vbase := v2\<rparr>"
  have wb: "with_block x h = with_block a h" if "config x = config a" for x using that by (cases h) (simp add: with_block_def config_def)
  have labels: "held (err_mmap_ddr_nna os x) = (fs, M, h)"
    if "stage fs M (with_block a h) (all_windows x) x" "config x = config a" for x
    using held_ddr_labels [of fs M x h os] that assms(3) wb [of x] by (simp add: config_def)
  have uc [simp]: "config (aie_unmap v w x) = config x" for v w x by (simp add: config_def)
  show ?thesis
  proof (cases "v1 = MAP_FAILED")
    case True
    then have "b = a" using window_failed b by simp
    then show ?thesis using True b assms(2) labels [of ?b] assms(4)
      by (simp add: aie_finish_def Let_def run_ok_def leave_def config_def)
  next
    case b_ok: False
    have aw: "all_windows b = all_windows a" "config b = config a"
      using window_fields [OF b] by (simp_all add: all_windows_def dev_windows_def config_def)
    have b1: "stage fs M (with_block a h) ((ddr_vbase ?b, n) # all_windows ?b) ?b" "config ?b = config a"
      using window_stage(1) [OF assms(1) b assms(4) b_ok] aw by (simp_all add: config_def)
    show ?thesis
    proof (cases "v2 = MAP_FAILED")
      case True
      then have "c = ?b" using window_failed c by simp
      then have "aie_finish os n a = leave (err_mmap_fastio os n (?b\<lparr>nndma_fastio_vbase := v2\<rparr>))"
        using True b c assms(2) b_ok by (simp add: aie_finish_def Let_def)
      then show ?thesis using unmap_stage b1 labels by (simp add: run_ok_def leave_def err_mmap_fastio_def config_def)
    next
      case c_ok: False
      have c1: "stage fs M (with_block a h) ((nndma_fastio_vbase ?c, FASTIO_SIZE) # (ddr_vbase ?c, n) # all_windows ?c) ?c" "config ?c = config a"
        using window_stage(1) [OF assms(1) c b1(1) c_ok] window_fields [OF c] b1(2)
        by (simp_all add: all_windows_def dev_windows_def config_def)
      have run: "aie_finish os n a = (case ddr_memory_init os (ddr_vbase ?c) n ?c of Inl f \<Rightarrow> Inl (Inl f)
          | Inr (r, a) \<Rightarrow> if r = 0 then leave (err_ddr_memory_init os n a) else Inr a)"
        using b c assms(2) b_ok c_ok window_fields [OF b] by (simp add: aie_finish_def Let_def)
      obtain r l where hi: "Local_HeapInit (ao_heap_malloc os) (ao_unit_malloc os) (ddr_vbase c) n (ddr_list c) = (r, l)" by fastforce
      let ?d = "?c\<lparr>ddr_list := l\<rparr>"
      have d1: "stage fs M (with_block a h) ((nndma_fastio_vbase ?d, FASTIO_SIZE) # (ddr_vbase ?d, n) # all_windows ?d) ?d" "config ?d = config a"
        using c1 by (simp_all add: config_def)
      have "r \<noteq> 0 \<Longrightarrow> l \<noteq> None" using hi by (auto simp: Local_HeapInit_def split: if_splits option.splits) metis
      moreover have "held (err_ddr_memory_init os n ?d) = (fs, M, h)"
        using unmap_stage [OF unmap_stage [OF d1(1)]] d1(2) labels by (simp add: err_ddr_memory_init_def err_mmap_fastio_def)
      moreover have "block_size ?d = block_size a"
        using window_fields [OF b] window_fields [OF c] by (simp add: block_size_def)
      ultimately show ?thesis using d1 wb [of ?d]
        by (simp add: run ddr_memory_init_def hi run_ok_def leave_def)
    qed
  qed
qed

section \<open>Start and end\<close>

text \<open>A process that has not started the drivers: no lock device, and descriptors as the system gives them.\<close>

definition fresh_start :: "aie \<Rightarrow> bool" where
  "fresh_start a \<longleftrightarrow> nnalockfd a < 0 \<and> (\<forall>fd \<in> set (fds (aie_proc a)). 0 \<le> fd)"

definition configured :: "u32 \<Rightarrow> bool \<Rightarrow> u32 \<Rightarrow> u32 \<Rightarrow> u32 \<Rightarrow> aie \<Rightarrow> aie" where
  "configured n rm da oa dda a = a\<lparr>b_use_rmem := rm, multiprocess_choose := n, desram_attr := da, oram_attr := oa, ddr_attr := dda\<rparr>"

lemma start_to_block:
  assumes "mmap_fresh os" "fresh_start a"
  shows "run_ok (fds (aie_proc a)) (mapped (aie_proc a)) (nmem_held a, soc_held a)
    (\<lambda>(w, a'). stage (fds (aie_proc a)) (mapped (aie_proc a)) (with_block a' (nmem_held a, soc_held a)) (all_windows a') a' \<and>
      config a' = (rm, n) \<and> w = block_size a')
    (res_bind (aie_open os (configured n rm da oa dda a)) (\<lambda>a. res_bind (aie_windows os a) (aie_ddr os n)))"
proof (intro run_ok_bind)
  let ?a = "configured n rm da oa dda a" and ?fs = "fds (aie_proc a)" and ?M = "mapped (aie_proc a)" and ?h = "(nmem_held a, soc_held a)"
  show "run_ok ?fs ?M ?h (\<lambda>a'. stage ?fs ?M ?h [] a' \<and> config a' = (rm, n)) (aie_open os ?a)"
    using open_run [of ?a os] assms(2) by (simp add: fresh_start_def configured_def config_def)
  show "run_ok ?fs ?M ?h (\<lambda>a'. stage ?fs ?M ?h (all_windows a') a' \<and> config a' = (rm, n)) (aie_windows os b)"
    if "stage ?fs ?M ?h [] b \<and> config b = (rm, n)" for b
    using windows_run [OF assms(1)] that by force
  show "run_ok ?fs ?M ?h (\<lambda>(w, a'). stage ?fs ?M (with_block a' ?h) (all_windows a') a' \<and> config a' = (rm, n) \<and> w = block_size a') (aie_ddr os n c)"
    if "stage ?fs ?M ?h (all_windows c) c \<and> config c = (rm, n)" for c
    using ddr_run [of ?fs ?M ?h c n os] that by (simp add: config_def)
qed

lemma start_run:
  assumes "mmap_fresh os" "0 \<le> ao_version os" "rm \<longrightarrow> 0 \<le> ao_nmem_uninit os" "fresh_start a"
  shows "run_ok (fds (aie_proc a)) (mapped (aie_proc a)) (nmem_held a, soc_held a)
    (\<lambda>a'. stage (fds (aie_proc a)) (mapped (aie_proc a)) (with_block a' (nmem_held a, soc_held a))
        ((nndma_fastio_vbase a', FASTIO_SIZE) # (ddr_vbase a', block_size a') # all_windows a') a' \<and> config a' = (rm, n) \<and> ddr_list a' \<noteq> None)
    (res_bind (res_bind (aie_open os (configured n rm da oa dda a)) (\<lambda>a. res_bind (aie_windows os a) (aie_ddr os n)))
       (\<lambda>(n, a). aie_finish os n a))"
proof (rule run_ok_bind [OF start_to_block [OF assms(1,4)]])
  let ?fs = "fds (aie_proc a)" and ?M = "mapped (aie_proc a)" and ?h = "(nmem_held a, soc_held a)"
  fix d
  assume d: "case d of (w, a') \<Rightarrow> stage ?fs ?M (with_block a' ?h) (all_windows a') a' \<and> config a' = (rm, n) \<and> w = block_size a'"
  obtain w e where we: "d = (w, e)" by fastforce
  have "b_use_rmem e = rm" using d by (simp add: we config_def)
  then show "run_ok ?fs ?M ?h (\<lambda>a'. stage ?fs ?M (with_block a' ?h)
      ((nndma_fastio_vbase a', FASTIO_SIZE) # (ddr_vbase a', block_size a') # all_windows a') a' \<and> config a' = (rm, n) \<and> ddr_list a' \<noteq> None)
      (case d of (n, a) \<Rightarrow> aie_finish os n a)"
    using finish_run [OF assms(1,2), of e ?fs ?M ?h w] assms(3) d by (auto simp: we run_ok_def split: sum.splits)
qed

text \<open>C37. A start that fails gives back every descriptor, every page and every block it took, as long as the kernel's
  version is not refused.\<close>

theorem failed_start_gives_back:
  assumes "mmap_fresh os" "fresh_start a" "0 \<le> ao_version os" "rm \<longrightarrow> 0 \<le> ao_nmem_uninit os"
    "aie_mmap os n rm da oa dda a = Inr (r, a')" "r \<noteq> 0"
  shows "r = - 1 \<and> fds (aie_proc a') = fds (aie_proc a) \<and> mapped (aie_proc a') = mapped (aie_proc a) \<and>
    nmem_held a' = nmem_held a \<and> soc_held a' = soc_held a"
  using start_run [OF assms(1,3,4,2), of n da oa dda] assms(5,6)
  by (auto simp: aie_mmap_def configured_def [symmetric] run_ok_def held_def Let_def split: sum.splits)

lemma munmap_stage:
  assumes "stage fs M (with_block a h) ((nndma_fastio_vbase a, FASTIO_SIZE) # (ddr_vbase a, w) # all_windows a) a"
    "ddr_list a \<noteq> None" "b_use_rmem a \<longrightarrow> 0 \<le> ao_nmem_uninit os"
  shows "\<exists>a'. aie_munmap os a = Inr (0, a') \<and> fds (aie_proc a') = fs \<and> nmem_held a' = fst h \<and> soc_held a' = snd h \<and>
    mapped (aie_proc a') = (M \<union> pages_of (l2cache_vaddr a) 0x1000 \<union> pages_of (ddr_vbase a) w) - pages_of (ddr_vbase a) (nna_buf_size a)"
proof -
  have o: "opened fs a" and c: "nmem_held a = fst (with_block a h)" "soc_held a = snd (with_block a h)"
    and l: "layered ((nndma_fastio_vbase a, FASTIO_SIZE) # (ddr_vbase a, w) # all_windows a) M (mapped (aie_proc a))"
    using assms(1) stage_counts [OF assms(1)] by (simp_all add: stage_def)
  have m: "mapped (aie_proc a) - pages_of (nndma_fastio_vbase a) FASTIO_SIZE - pages_of (ddr_vbase a) (nna_buf_size a) - pages_of (oram_vbase a) (oram_real_size a) -
      pages_of (nndma_desram_vbase a) NNDMA_DESRAM_SIZE - pages_of (nndma_io_vbase a) NNDMA_IO_SIZE =
      (M \<union> pages_of (l2cache_vaddr a) 0x1000 \<union> pages_of (ddr_vbase a) w) - pages_of (ddr_vbase a) (nna_buf_size a)"
    using l unfolding all_windows_def dev_windows_def layered.simps by blast
  have f: "remove1 (memfd a) (remove1 (nnafd a) (if multiprocess_choose a \<noteq> 0 then remove1 (nnalockfd a) (fds (aie_proc a)) else fds (aie_proc a))) = fs"
    using o by (auto simp: opened_def start_fds_def)
  show ?thesis using assms(2,3) c f m unfolding aie_munmap_def Local_HeapDeInit_def with_block_def
    by (cases h) (force simp: Let_def nmem_uninit_def split: if_splits)
qed

text \<open>C38. After a start and its end no descriptor and no block is left. Of the pages, the window
  that showed the cache's size and the DDR window stay, and from all that is mapped the pages
  \<open>__ddr_nna_buf\<close> has a size for are taken away: those of the DDR window up to that size and, when the
  size is larger than the window, whatever else of the process lies there.\<close>

theorem start_then_end:
  assumes "mmap_fresh os" "fresh_start a" "0 \<le> ao_version os" "rm \<longrightarrow> 0 \<le> ao_nmem_uninit os"
    "aie_mmap os n rm da oa dda a = Inr (0, a1)"
  shows "\<exists>a2. aie_munmap os a1 = Inr (0, a2) \<and> fds (aie_proc a2) = fds (aie_proc a) \<and> nmem_held a2 = nmem_held a \<and> soc_held a2 = soc_held a \<and>
    mapped (aie_proc a2) = (mapped (aie_proc a) \<union> pages_of (l2cache_vaddr a1) 0x1000 \<union> pages_of (ddr_vbase a1) (block_size a1)) -
      pages_of (ddr_vbase a1) (nna_buf_size a1)"
proof -
  let ?fs = "fds (aie_proc a)" and ?M = "mapped (aie_proc a)" and ?h = "(nmem_held a, soc_held a)"
  have "stage ?fs ?M (with_block a1 ?h) ((nndma_fastio_vbase a1, FASTIO_SIZE) # (ddr_vbase a1, block_size a1) # all_windows a1) a1"
      "config a1 = (rm, n)" "ddr_list a1 \<noteq> None"
    using start_run [OF assms(1,3,4,2), of n da oa dda] assms(5)
    by (auto simp: aie_mmap_def configured_def [symmetric] run_ok_def Let_def split: sum.splits)
  with munmap_stage [of ?fs ?M a1 ?h "block_size a1" os] assms(4) show ?thesis by (simp add: config_def)
qed

text \<open>A refused version leaves everything behind: descriptors, windows and block.\<close>

theorem refused_version_leaks:
  assumes "mmap_fresh os" "fresh_start a" "ao_version os < 0" "aie_mmap os n rm da oa dda a = Inr (r, a')"
  shows "r = - 1 \<and> (held a' = held a \<or> fds (aie_proc a') = start_fds a' @ fds (aie_proc a) \<and>
    layered (all_windows a') (mapped (aie_proc a)) (mapped (aie_proc a')) \<and>
    (nmem_held a', soc_held a') = with_block a' (nmem_held a, soc_held a))"
proof -
  let ?fs = "fds (aie_proc a)" and ?M = "mapped (aie_proc a)" and ?h = "(nmem_held a, soc_held a)" and ?a = "configured n rm da oa dda a"
  have *: "run_ok ?fs ?M ?h (\<lambda>(w, a'). stage ?fs ?M (with_block a' ?h) (all_windows a') a' \<and> config a' = (rm, n) \<and> w = block_size a')
      (res_bind (aie_open os ?a) (\<lambda>a. res_bind (aie_windows os a) (aie_ddr os n)))" (is "run_ok _ _ _ ?Q ?r")
    by (rule start_to_block [OF assms(1,2)])
  have fin: "aie_finish os w x = leave x" for w x using assms(3) by (simp add: aie_finish_def)
  show ?thesis using * assms(4)
    by (cases ?r) (auto simp: aie_mmap_def configured_def [symmetric] fin run_ok_def leave_def held_def stage_def opened_def Let_def split: sum.splits prod.splits)
qed

section \<open>The command line is read back\<close>

definition digit_char :: "nat \<Rightarrow> char" where
  "digit_char v = char_of (if v < 10 then 48 + v else 87 + v)"

fun print_number :: "nat \<Rightarrow> nat \<Rightarrow> string" where
  "print_number b n = (if n < b \<or> b < 2 then [digit_char n] else print_number b (n div b) @ [digit_char (n mod b)])"

declare print_number.simps [simp del]

lemma digit_val_char: "v < b \<Longrightarrow> b \<le> 16 \<Longrightarrow> digit_val b (digit_char v) = Some v"
  by (simp add: digit_val_def digit_char_def Let_def)

lemma print_digits:
  assumes "2 \<le> b" "b \<le> 16" "c \<in> set (print_number b n)"
  shows "digit_val b c \<noteq> None"
  using assms
proof (induction b n rule: print_number.induct)
  case (1 b n)
  then show ?case
    by (subst (asm) (2) print_number.simps) (auto simp: digit_val_char split: if_splits)
qed

lemma print_not_Nil: "print_number b n \<noteq> []"
  by (subst print_number.simps) simp

lemma scan_print_step:
  assumes "2 \<le> b" "b \<le> 16"
  shows "scan_digits b acc (print_number b n @ s) = scan_digits b (b ^ length (print_number b n) * acc + n) s"
  using assms
proof (induction b n arbitrary: acc s rule: print_number.induct)
  case (1 b n)
  show ?case
  proof (cases "n < b")
    case True
    then show ?thesis using 1(2,3) by (subst (1 2) print_number.simps) (simp add: digit_val_char)
  next
    case False
    let ?l = "length (print_number b (n div b))"
    have p: "print_number b n = print_number b (n div b) @ [digit_char (n mod b)]"
      using False 1(2) by (subst print_number.simps) simp
    have "scan_digits b acc (print_number b n @ s) = scan_digits b (b ^ ?l * acc + n div b) (digit_char (n mod b) # s)"
      using 1 False by (simp add: p)
    also have "\<dots> = scan_digits b (b * (b ^ ?l * acc + n div b) + n mod b) s"
      using 1(2,3) by (simp add: digit_val_char)
    also have "b * (b ^ ?l * acc + n div b) + n mod b = b ^ length (print_number b n) * acc + n"
      by (simp add: p algebra_simps)
    finally show ?thesis .
  qed
qed

lemma scan_print:
  assumes "2 \<le> b" "b \<le> 16" "\<not> starts_digit b s"
  shows "scan_digits b 0 (print_number b n @ s) = (n, s)"
proof -
  have "scan_digits b k s = (k, s)" for k using assms(3) by (cases s) (auto simp: starts_digit_def)
  then show ?thesis using scan_print_step [OF assms(1,2), of 0 n s] by simp
qed

lemma digit_facts:
  assumes "digit_val b c = Some v" "b \<le> 16"
  shows "\<not> blank c" "c \<noteq> CHR ''-''" "c \<noteq> CHR ''+''" "c \<noteq> CHR ''@''" "c \<noteq> CHR ''x''" "c \<noteq> CHR ''X''"
  using assms by (auto simp: blank_def digit_val_def Let_def split: if_splits)

lemma starts_print:
  assumes "2 \<le> b" "b \<le> 16"
  obtains c cs v where "print_number b n = c # cs" "digit_val b c = Some v" "\<forall>x \<in> set cs. digit_val b x \<noteq> None"
proof (cases "print_number b n")
  case (Cons c cs)
  with print_digits [OF assms, of _ n] have "digit_val b c \<noteq> None" "\<forall>x \<in> set cs. digit_val b x \<noteq> None" by simp_all
  with that Cons show ?thesis by blast
qed (simp add: print_not_Nil)

lemma scan_number_plain:
  assumes "take 2 (c # w) \<noteq> ''0x''" "take 2 (c # w) \<noteq> ''0X''" "\<not> blank c" "c \<noteq> CHR ''-''" "c \<noteq> CHR ''+''" "digit_val b c = Some v"
  shows "scan_number b (c # w) = (let (n, r) = scan_digits b 0 (c # w) in Some (int n, r))"
proof -
  have "dropWhile blank (c # w) = c # w" "starts_digit b (c # w)" using assms(3,6) by (simp_all add: starts_digit_def)
  then show ?thesis using assms(1,2,4,5) unfolding scan_number_def Let_def by (auto simp del: scan_digits.simps dropWhile.simps)
qed

lemma scan_number_print:
  assumes "2 \<le> b" "b \<le> 16" "\<not> starts_digit b s" "s = [] \<or> hd s \<noteq> CHR ''x'' \<and> hd s \<noteq> CHR ''X''"
  shows "scan_number b (print_number b n @ s) = Some (int n, s)"
proof -
  obtain c cs v where p: "print_number b n = c # cs" and v: "digit_val b c = Some v" and d: "\<forall>x \<in> set cs. digit_val b x \<noteq> None"
    using starts_print [OF assms(1,2)] .
  note f = digit_facts [OF v assms(2)]
  have "cs @ s = [] \<or> hd (cs @ s) \<noteq> CHR ''x'' \<and> hd (cs @ s) \<noteq> CHR ''X''"
  proof (cases cs)
    case (Cons x xs)
    then obtain w where "digit_val b x = Some w" using d by auto
    from digit_facts(5,6) [OF this assms(2)] show ?thesis by (simp add: Cons)
  qed (use assms(4) in simp)
  then have "take 2 (c # cs @ s) \<noteq> ''0x'' \<and> take 2 (c # cs @ s) \<noteq> ''0X''"
    by (cases "cs @ s") auto
  with scan_number_plain [OF _ _ f(1-3) v, of "cs @ s"] scan_print [OF assms(1-3), of n]
  show ?thesis by (simp add: p del: scan_digits.simps)
qed

lemma strstr_first:
  assumes "strstr ''nmem'' (pre @ ''nme'') = None"
  shows "strstr ''nmem'' (pre @ ''nmem'' @ s) = Some (''nmem'' @ s)"
  using assms
proof (induction pre)
  case (Cons c pre)
  have "take 4 (c # pre @ ''nme'') \<noteq> ''nmem''" using Cons.prems by (auto simp: numeral_3_eq_3 split: if_splits)
  moreover have "take 4 (c # pre @ ''nmem'' @ s) = take 4 (c # pre @ ''nme'')"
    by (cases pre; cases "tl pre"; cases "tl (tl pre)") auto
  ultimately show ?case using Cons by (simp add: numeral_3_eq_3 split: if_splits)
qed simp

text \<open>A command line that names the block in the usual way is read as it was written: size times its unit, and
  address.\<close>

theorem nmem_read_back:
  assumes "strstr ''nmem'' (pre @ ''nme'') = None" "u = CHR ''M'' \<or> u = CHR ''K''" "\<not> starts_digit 16 post"
    "text = pre @ ''nmem='' @ print_number 10 k @ [u] @ ''@0x'' @ print_number 16 ad @ post"
    "length text < 512" "CHR 0x00 \<notin> set text"
  defines "sz \<equiv> of_nat k * (if u = CHR ''M'' then 1024 * 1024 else 1024) :: u32"
  shows "get_nmem_info (Some text) behind = Inr (if of_nat ad = (0 :: u32) \<or> sz = 0 then - 1 else 0, Some (sz, of_nat ad))"
proof -
  let ?r = "[u] @ ''@0x'' @ print_number 16 ad @ post" and ?p = "''nmem='' @ print_number 10 k @ [u] @ ''@0x'' @ print_number 16 ad @ post"
  have t: "text \<noteq> []" "cmd_string text behind = text"
    using assms(4-6) by (auto simp: cmd_string_def takeWhile_eq_all_conv)
  have find: "strstr ''nmem'' text = Some ?p"
    using strstr_first [OF assms(1), of "CHR ''='' # print_number 10 k @ ?r"] assms(4) by simp
  have noat: "CHR ''@'' \<notin> set (print_number 10 k)"
    using print_digits [of 10 "CHR ''@''" k] by (auto simp: digit_val_def)
  then have before: "takeWhile (\<lambda>c. c \<noteq> CHR ''@'') ?p = ''nmem='' @ print_number 10 k @ [u]"
    using assms(2) by (auto simp: takeWhile_append)
  have no_u: "\<not> starts_digit 10 ?r" using assms(2) by (auto simp: starts_digit_def digit_val_def)
  have n1: "scan_number 10 (print_number 10 k @ ?r) = Some (int k, ?r)"
    by (rule scan_number_print [OF _ _ no_u]) (use assms(2) in auto)
  have n2: "scan_number 16 (''0x'' @ print_number 16 ad @ post) = Some (int ad, post)"
  proof -
    obtain c cs v where p: "print_number 16 ad = c # cs" "digit_val 16 c = Some v" by (rule starts_print [of 16 ad]) simp_all
    then have "starts_digit 16 (print_number 16 ad @ post)" by (simp add: starts_digit_def)
    then show ?thesis using scan_print [of 16 post ad] assms(3) by (simp add: scan_number_def blank_def Let_def)
  qed
  have "scan_nmem u ?p = (of_nat k, of_nat ad)" using n1 n2 by (simp add: scan_nmem_def)
  moreover have "last (''nmem='' @ print_number 10 k @ [u]) = u" by simp
  moreover have "CHR ''@'' \<in> set ?p" by simp
  ultimately show ?thesis
    unfolding get_nmem_info_def option.case t(2) find before
    using assms(2) t(1) by (auto simp: sz_def Let_def mult.commute simp del: append.simps)
qed

section \<open>A run\<close>

text \<open>A system with 64 megabytes at 0x4000000 on the command line.\<close>

definition sample_aie_os :: aie_os where
  "sample_aie_os = \<lparr>ao_mem = 3, ao_nna = (\<lambda>_. 4), ao_nna_lock = 5,
     ao_mmap = (\<lambda>M fd n off.
       let v = (if off = 0x12200000 then 0x70000000 else if off = NNDMA_IO_BASE then 0x70010000 else if off = NNDMA_DESRAM_BASE then 0x70020000
                else if n = 0x1000 then 0x70030000 else if off = 0x4000000 then 0x72000000 else 0x71000000)
       in if pages_of v n \<inter> M = {} then v else MAP_FAILED),
     ao_l2c = 0x400, ao_cmdline = Some ''rw nmem=64M@0x4000000 quiet'', ao_behind = [], ao_nmem_init = (\<lambda>n. (0, n, 0x4000000)),
     ao_nmem_uninit = 0, ao_soc_malloc = (- 1, 0, 0), ao_version = 0, ao_heap_malloc = True, ao_unit_malloc = True,
     ao_head_malloc = True, ao_request = 0\<rparr>"

definition sample_aie :: aie where
  "sample_aie = \<lparr>memfd = - 1, nnafd = - 1, nnalockfd = - 1, b_use_rmem = False, multiprocess_choose = 0, nndma_io_vbase = 0,
     nndma_desram_vbase = 0, oram_vbase = 0, ddr_vbase = 0, ddr_pbase = 0, nndma_fastio_vbase = 0, desram_attr = 0, oram_attr = 0,
     ddr_attr = 0, nna_buf_paddr = 0, nna_buf_size = 0, unmem_size = 0, unmem_paddr = 0, l2cache_vaddr = 0, l2cache_size = 0,
     oram_real_size = 0, oram_base = 0, ddr_list = None, aie_proc = sample_proc, nmem_held = 0, soc_held = 0\<rparr>"

lemma sample_fresh: "mmap_fresh (sample_aie_os\<lparr>ao_nna_lock := w, ao_version := k\<rparr>)"
  by (auto simp: mmap_fresh_def sample_aie_os_def MAP_FAILED_def Let_def)

lemma sample_start: "fresh_start sample_aie"
  by (simp add: fresh_start_def sample_aie_def sample_proc_def)

theorem nmem_read_back_witness:
  "get_nmem_info (Some ''rw nmem=64M@0x4000000 quiet'') [] = Inr (0, Some (0x4000000, 0x4000000))"
proof -
  have "print_number 10 64 = ''64''" "print_number 16 0x4000000 = ''4000000''"
    by (simp_all add: print_number.simps digit_char_def char_of_def bit_0)
  then show ?thesis
    using nmem_read_back [of "''rw ''" "CHR ''M''" "'' quiet''" "''rw nmem=64M@0x4000000 quiet''" 64 "0x4000000" "[]"]
    by (simp add: starts_digit_def digit_val_def)
qed

theorem failed_start_gives_back_witness:
  "\<exists>a'. aie_mmap (sample_aie_os\<lparr>ao_nna_lock := - 1, ao_version := 0\<rparr>) 0x100000 True 1 1 1 sample_aie = Inr (- 1, a') \<and>
     fds (aie_proc a') = fds (aie_proc sample_aie)"
proof -
  have "\<exists>a'. aie_mmap (sample_aie_os\<lparr>ao_nna_lock := - 1, ao_version := 0\<rparr>) 0x100000 True 1 1 1 sample_aie = Inr (- 1, a')"
    by (simp add: aie_mmap_def aie_open_def sample_aie_os_def leave_def Let_def)
  then obtain a' where a: "aie_mmap (sample_aie_os\<lparr>ao_nna_lock := - 1, ao_version := 0\<rparr>) 0x100000 True 1 1 1 sample_aie = Inr (- 1, a')" ..
  from failed_start_gives_back [OF sample_fresh sample_start _ _ this] show ?thesis using a by (simp add: sample_aie_os_def)
qed

lemma sample_nmem: "get_nmem_info (Some ''rw nmem=64M@0x4000000 quiet'') [] = Inr (0, Some (0x4000000, 0x4000000))"
  by (simp add: get_nmem_info_def cmd_string_def scan_nmem_def scan_number_def starts_digit_def digit_val_def blank_def)

lemma sample_pages:
  "pages_of 0x70000000 0x1000 = {458752 ..< 458753}" "pages_of 0x70010000 0x20 = {458768 ..< 458769}"
  "pages_of 0x70020000 0x4000 = {458784 ..< 458788}" "pages_of 0x71000000 0x60000 = {462848 ..< 462944}"
  "pages_of 0x72000000 0x4000000 = {466944 ..< 483328}" "pages_of 0x70030000 0x1000 = {458800 ..< 458801}"
  "pages_of v 0 = {unat v div 4096 ..< (unat v + 4095) div 4096}"
  by (simp_all add: pages_of_def)

lemma sample_runs:
  assumes "0 \<le> k"
  shows "\<exists>a1. aie_mmap (sample_aie_os\<lparr>ao_nna_lock := 5, ao_version := k\<rparr>) 0 True 1 1 1 sample_aie = Inr (0, a1) \<and>
    l2cache_vaddr a1 = 0x70000000 \<and> nna_buf_size a1 = block_size a1 \<and> ddr_vbase a1 = 0x72000000 \<and> block_size a1 = 0x4000000"
  using assms
  by (simp add: aie_mmap_def aie_open_def aie_windows_def get_oram_l2cache_def aie_ddr_def ddr_block_def take_info_def aie_finish_def
      aie_window_def sample_aie_def sample_aie_os_def sample_proc_def sample_nmem mmap_fd_def MAP_FAILED_def
      NNDMA_IO_BASE_def NNDMA_IO_SIZE_def NNDMA_DESRAM_BASE_def NNDMA_DESRAM_SIZE_def FASTIO_SIZE_def
      NNA_CACHED_def NNA_UNCACHED_ACCELERATED_def NNA_UNCACHED_def p_mmap_def p_open_def Let_def sample_pages Int_Un_distrib
      ddr_memory_init_def Local_HeapInit_def imp_buf_alloc_init_def block_size_def)

theorem start_then_end_witness:
  "\<exists>a1 a2. aie_mmap (sample_aie_os\<lparr>ao_nna_lock := 5, ao_version := 0\<rparr>) 0 True 1 1 1 sample_aie = Inr (0, a1) \<and>
     aie_munmap (sample_aie_os\<lparr>ao_nna_lock := 5, ao_version := 0\<rparr>) a1 = Inr (0, a2) \<and>
     fds (aie_proc a2) = fds (aie_proc sample_aie) \<and> mapped (aie_proc a2) = {458752}"
proof -
  obtain a1 where a1: "aie_mmap (sample_aie_os\<lparr>ao_nna_lock := 5, ao_version := 0\<rparr>) 0 True 1 1 1 sample_aie = Inr (0, a1)"
      "l2cache_vaddr a1 = 0x70000000" "nna_buf_size a1 = block_size a1" "ddr_vbase a1 = 0x72000000" "block_size a1 = 0x4000000"
    using sample_runs [of 0] by auto
  have "458752 \<notin> pages_of 0x72000000 0x4000000" by (simp add: pages_of_def)
  with start_then_end [OF sample_fresh sample_start _ _ a1(1)] a1 show ?thesis
    by (auto simp: sample_aie_os_def sample_pages sample_aie_def sample_proc_def)
qed

theorem refused_version_leaks_witness:
  "\<exists>a'. aie_mmap (sample_aie_os\<lparr>ao_nna_lock := 5, ao_version := - 1\<rparr>) 0 True 1 1 1 sample_aie = Inr (- 1, a') \<and>
     fds (aie_proc a') = start_fds a' @ fds (aie_proc sample_aie)"
proof -
  have "\<exists>a'. aie_mmap (sample_aie_os\<lparr>ao_nna_lock := 5, ao_version := - 1\<rparr>) 0 True 1 1 1 sample_aie = Inr (- 1, a') \<and> held a' \<noteq> held sample_aie"
    by (simp add: aie_mmap_def aie_open_def aie_windows_def get_oram_l2cache_def aie_ddr_def ddr_block_def take_info_def aie_finish_def
      aie_window_def sample_aie_def sample_aie_os_def sample_proc_def sample_nmem mmap_fd_def MAP_FAILED_def leave_def held_def
      NNDMA_IO_BASE_def NNDMA_IO_SIZE_def NNDMA_DESRAM_BASE_def NNDMA_DESRAM_SIZE_def
      NNA_CACHED_def NNA_UNCACHED_ACCELERATED_def p_mmap_def p_open_def Let_def sample_pages Int_Un_distrib)
  then obtain a' where a: "aie_mmap (sample_aie_os\<lparr>ao_nna_lock := 5, ao_version := - 1\<rparr>) 0 True 1 1 1 sample_aie = Inr (- 1, a')"
    "held a' \<noteq> held sample_aie" by blast
  from refused_version_leaks [OF sample_fresh sample_start _ a(1)] a show ?thesis by auto
qed

end
