(* ===== verification/MdlMatrix.thy ===== *)
theory MdlMatrix
  imports IaicWarp
begin

text \<open>
  The matrix of a warp in the T40 library (\<open>bscaler/source/api/matrix.c\<close>, \<open>include/api/matrix.h\<close>): the caller gives
  the map from source to destination, the engine needs its inverse in fixed point with 16 bits behind the
  point. A \<open>float\<close> is a rational, rounded by the floating-point unit \<open>fpu\<close> of \<open>IaicWarp\<close>; the products
  \<open>scross\<close>, \<open>dcross\<close> are \<open>minor\<close> there. A division by 0, after which the code goes on with infinities, is
  \<open>None\<close>.
\<close>

section \<open>Classification\<close>

definition IS_ZERO :: "fpu \<Rightarrow> rat \<Rightarrow> bool" where
  "IS_ZERO fp a \<longleftrightarrow> \<bar>a\<bar> < f64 fp (1 / 10 ^ 6)"

definition IS_ONE :: "fpu \<Rightarrow> rat \<Rightarrow> bool" where
  "IS_ONE fp a \<longleftrightarrow> \<bar>fsub fp a 1\<bar> < f64 fp (1 / 10 ^ 6)"

definition mx_is_identity :: "fpu \<Rightarrow> (nat \<Rightarrow> rat) \<Rightarrow> bool" where
  "mx_is_identity fp m \<longleftrightarrow> (\<forall>i \<in> {0, 4, 8}. IS_ONE fp (m i)) \<and> (\<forall>i \<in> {1, 2, 3, 5, 6, 7}. IS_ZERO fp (m i))"

definition mx_is_scale_trans :: "fpu \<Rightarrow> (nat \<Rightarrow> rat) \<Rightarrow> bool" where
  "mx_is_scale_trans fp m \<longleftrightarrow> IS_ONE fp (m 8) \<and> (\<forall>i \<in> {1, 3, 6, 7}. IS_ZERO fp (m i))"

definition mx_is_perspective :: "fpu \<Rightarrow> (nat \<Rightarrow> rat) \<Rightarrow> bool" where
  "mx_is_perspective fp m \<longleftrightarrow> \<not> (IS_ZERO fp (m 6) \<and> IS_ZERO fp (m 7) \<and> IS_ONE fp (m 8))"

section \<open>The inverse\<close>

definition compute_inv :: "fpu \<Rightarrow> (nat \<Rightarrow> rat) \<Rightarrow> rat \<Rightarrow> bool \<Rightarrow> nat \<Rightarrow> rat" where
  "compute_inv fp m invd is_persp = (\<lambda>i.
     (if is_persp then map (\<lambda>c. fmul fp c invd)
        [minor fp m 4 8 5 7, minor fp m 2 7 1 8, minor fp m 1 5 2 4,
         minor fp m 5 6 3 8, minor fp m 0 8 2 6, minor fp m 2 3 0 5,
         minor fp m 3 7 4 6, minor fp m 1 6 0 7, minor fp m 0 4 1 3]
      else [fmul fp (m 4) invd, fmul fp (- m 1) invd, fmul fp (minor fp m 1 5 4 2) invd,
            fmul fp (- m 3) invd, fmul fp (m 0) invd, fmul fp (minor fp m 3 2 0 5) invd, 0, 0, 1]) ! i)"

text \<open>The branch for a translation is not reached: such a matrix is also a scaling with translation.\<close>

definition get_inverse_matrix :: "fpu \<Rightarrow> (nat \<Rightarrow> rat) \<Rightarrow> (nat \<Rightarrow> rat) option" where
  "get_inverse_matrix fp m =
     (if mx_is_identity fp m then Some (\<lambda>i. [1, 0, 0, 0, 1, 0, 0, 0, 1] ! i)
      else if mx_is_scale_trans fp m then
        (if m 0 = 0 \<or> m 4 = 0 then None
         else let sx = f32 fp (1 / m 0); sy = f32 fp (1 / m 4)
              in Some (\<lambda>i. [sx, 0, fmul fp (- m 2) sx, 0, sy, fmul fp (- m 5) sy, 0, 0, 1] ! i))
      else if mx_is_perspective fp m then
        let t0 = fmul fp (m 0) (minor fp m 4 8 5 7);
            t1 = fmul fp (m 1) (minor fp m 5 6 3 8);
            t2 = fmul fp (m 2) (minor fp m 3 7 4 6);
            t4 = f32 fp (f32 fp (t0 + t1) + t2)
        in if t4 = 0 then None else Some (compute_inv fp m (f32 fp (f64 fp (1 / t4))) True)
      else
        let t0 = minor fp m 0 4 1 3
        in if t0 = 0 then None else Some (compute_inv fp m (f32 fp (f64 fp (1 / t0))) False))"

text \<open>\<open>matrix_float_to_s32\<close>: clipped, scaled, and rounded away from 0 at one half.\<close>

definition mx_s32 :: "fpu \<Rightarrow> rat \<Rightarrow> int" where
  "mx_s32 fp x =
     (let s = (if x < - 32768 then - 32768 else if x > 32767 then 32767 else x); t = fmul fp s 65536
      in if 0 \<le> t then \<lfloor>t + 1 / 2\<rfloor> else \<lceil>t - 1 / 2\<rceil>)"

definition matrix_float_to_s32 :: "fpu \<Rightarrow> (nat \<Rightarrow> rat) \<Rightarrow> int list" where
  "matrix_float_to_s32 fp x = map (\<lambda>i. mx_s32 fp (x i)) [0 ..< 9]"

section \<open>It is the inverse\<close>

text \<open>A matrix in which nothing near 0 or near 1 is taken for it.\<close>

definition clear_cut :: "(nat \<Rightarrow> rat) \<Rightarrow> bool" where
  "clear_cut m \<longleftrightarrow> (\<forall>i \<in> {1, 2, 3, 5, 6, 7}. \<bar>m i\<bar> < 1 / 10 ^ 6 \<longrightarrow> m i = 0) \<and> (\<forall>i \<in> {0, 4, 8}. \<bar>m i - 1\<bar> < 1 / 10 ^ 6 \<longrightarrow> m i = 1)"

lemma clear_cut_tests:
  assumes "clear_cut m"
  shows "i \<in> {1, 2, 3, 5, 6, 7} \<Longrightarrow> IS_ZERO (exact_fpu f) (m i) \<longleftrightarrow> m i = 0" "i \<in> {0, 4, 8} \<Longrightarrow> IS_ONE (exact_fpu f) (m i) \<longleftrightarrow> m i = 1"
proof -
  assume "i \<in> {1, 2, 3, 5, 6, 7}"
  then have "\<bar>m i\<bar> < 1 / 10 ^ 6 \<longrightarrow> m i = 0" using assms unfolding clear_cut_def by blast
  then show "IS_ZERO (exact_fpu f) (m i) \<longleftrightarrow> m i = 0" unfolding IS_ZERO_def exact_simps by fastforce
next
  assume "i \<in> {0, 4, 8}"
  then have "\<bar>m i - 1\<bar> < 1 / 10 ^ 6 \<longrightarrow> m i = 1" using assms unfolding clear_cut_def by blast
  then show "IS_ONE (exact_fpu f) (m i) \<longleftrightarrow> m i = 1" unfolding IS_ONE_def fsub_def exact_simps by fastforce
qed

lemma scaled_inverts:
  assumes "d \<noteq> 0" "\<And>i. i < 9 \<Longrightarrow> invd i = c i / d" "i < 3" "j < 3" "mat_entry c m i j = (if i = j then d else 0)"
  shows "mat_entry invd m i j = (if i = j then 1 else (0 :: rat))"
proof -
  have "mat_entry invd m i j = mat_entry c m i j / d"
    using assms(2) [of "3 * i"] assms(2) [of "3 * i + 1"] assms(2) [of "3 * i + 2"] assms(3)
    by (simp add: mat_entry_def add_divide_distrib)
  then show ?thesis using assms(1,5) by simp
qed

text \<open>C36. Without rounding, the matrix the T40 library computes for a warp is the inverse of the caller's, in every branch: scaling
  with translation, affine and perspective.\<close>

theorem inverse_matrix_correct:
  assumes "det3 m \<noteq> 0" "clear_cut m" "i < 3" "j < 3"
  shows "\<exists>invd. get_inverse_matrix (exact_fpu f) m = Some invd \<and> mat_entry invd m i j = (if i = j then 1 else 0)"
proof -
  have ij: "i = 0 \<or> i = 1 \<or> i = 2" "j = 0 \<or> j = 1 \<or> j = 2" using assms(3,4) by (simp_all add: below_3)
  have tests: "mx_is_identity (exact_fpu f) m \<longleftrightarrow> m 0 = 1 \<and> m 4 = 1 \<and> m 8 = 1 \<and> m 1 = 0 \<and> m 2 = 0 \<and> m 3 = 0 \<and> m 5 = 0 \<and> m 6 = 0 \<and> m 7 = 0"
    "mx_is_scale_trans (exact_fpu f) m \<longleftrightarrow> m 8 = 1 \<and> m 1 = 0 \<and> m 3 = 0 \<and> m 6 = 0 \<and> m 7 = 0"
    "mx_is_perspective (exact_fpu f) m \<longleftrightarrow> \<not> (m 6 = 0 \<and> m 7 = 0 \<and> m 8 = 1)"
    using clear_cut_tests [OF assms(2), where f = f] by (auto simp: mx_is_identity_def mx_is_scale_trans_def mx_is_perspective_def)
  show ?thesis
  proof (cases "mx_is_identity (exact_fpu f) m \<or> mx_is_scale_trans (exact_fpu f) m")
    case True
    then have z: "m 8 = 1" "m 1 = 0" "m 3 = 0" "m 6 = 0" "m 7 = 0" using tests by auto
    then have nz: "m 0 \<noteq> 0" "m 4 \<noteq> 0" using assms(1) by (auto simp: det3_def)
    show ?thesis using ij z nz tests
      by (elim disjE) (simp_all add: get_inverse_matrix_def mat_entries [unfolded One_nat_def] fmul_def Let_def)
  next
    case False
    show ?thesis
    proof (cases "mx_is_perspective (exact_fpu f) m")
      case True
      have "m 0 * (m 4 * m 8 - m 5 * m 7) + m 1 * (m 5 * m 6 - m 3 * m 8) + m 2 * (m 3 * m 7 - m 4 * m 6) = det3 m"
        by (simp add: det3_def algebra_simps)
      then have g: "get_inverse_matrix (exact_fpu f) m = Some (compute_inv (exact_fpu f) m (1 / det3 m) True)"
        using False True assms(1) by (simp add: get_inverse_matrix_def minor_def fmul_def fsub_def Let_def)
      let ?c = "(!) [m 4 * m 8 - m 5 * m 7, m 2 * m 7 - m 1 * m 8, m 1 * m 5 - m 2 * m 4, m 5 * m 6 - m 3 * m 8, m 0 * m 8 - m 2 * m 6,
        m 2 * m 3 - m 0 * m 5, m 3 * m 7 - m 4 * m 6, m 1 * m 6 - m 0 * m 7, m 0 * m 4 - m 1 * m 3]"
      have "mat_entry (compute_inv (exact_fpu f) m (1 / det3 m) True) m i j = (if i = j then 1 else 0)"
      proof (rule scaled_inverts [OF assms(1) _ assms(3,4)])
        show "compute_inv (exact_fpu f) m (1 / det3 m) True k = ?c k / det3 m" if "k < 9" for k
        proof -
          have "compute_inv (exact_fpu f) m (1 / det3 m) True k = map (\<lambda>c. c / det3 m) [m 4 * m 8 - m 5 * m 7, m 2 * m 7 - m 1 * m 8,
            m 1 * m 5 - m 2 * m 4, m 5 * m 6 - m 3 * m 8, m 0 * m 8 - m 2 * m 6, m 2 * m 3 - m 0 * m 5, m 3 * m 7 - m 4 * m 6,
            m 1 * m 6 - m 0 * m 7, m 0 * m 4 - m 1 * m 3] ! k"
            by (simp add: compute_inv_def minor_def fmul_def fsub_def)
          then show ?thesis using that by (simp del: list.map)
        qed
        show "mat_entry ?c m i j = (if i = j then det3 m else 0)"
          using ij by (elim disjE) (simp_all add: mat_entries [unfolded One_nat_def] det3_def algebra_simps)
      qed
      with g show ?thesis by blast
    next
      case np: False
      then have z: "m 6 = 0" "m 7 = 0" "m 8 = 1" using tests by auto
      define d where "d = m 0 * m 4 - m 1 * m 3"
      have d: "d \<noteq> 0" using assms(1) z by (auto simp: det3_def d_def)
      have g: "get_inverse_matrix (exact_fpu f) m = Some (compute_inv (exact_fpu f) m (1 / d) False)"
        using False np d by (simp add: get_inverse_matrix_def minor_def fmul_def fsub_def d_def Let_def)
      let ?c = "(!) [m 4, - m 1, m 1 * m 5 - m 4 * m 2, - m 3, m 0, m 3 * m 2 - m 0 * m 5, 0, 0, d]"
      have "mat_entry (compute_inv (exact_fpu f) m (1 / d) False) m i j = (if i = j then 1 else 0)"
      proof (rule scaled_inverts [OF d _ assms(3,4)])
        show "compute_inv (exact_fpu f) m (1 / d) False k = ?c k / d" if "k < 9" for k
        proof -
          have "compute_inv (exact_fpu f) m (1 / d) False k =
              map (\<lambda>c. c / d) [m 4, - m 1, m 1 * m 5 - m 4 * m 2, - m 3, m 0, m 3 * m 2 - m 0 * m 5, 0, 0, d] ! k"
            using d by (simp add: compute_inv_def minor_def fmul_def fsub_def)
          then show ?thesis using that by (simp del: list.map)
        qed
        show "mat_entry ?c m i j = (if i = j then d else 0)"
          using ij z by (elim disjE) (simp_all add: mat_entries [unfolded One_nat_def] d_def algebra_simps)
      qed
      with g show ?thesis by blast
    qed
  qed
qed

definition quarter_turn :: "nat \<Rightarrow> rat" where
  "quarter_turn i = [0, - 2, 5, 2, 0, 7, 0, 0, 1] ! i"

theorem inverse_matrix_correct_witness:
  "\<exists>invd. get_inverse_matrix (exact_fpu (\<lambda>_. 0)) quarter_turn = Some invd \<and> mat_entry invd quarter_turn 0 2 = 0"
proof -
  have "det3 quarter_turn \<noteq> 0" "clear_cut quarter_turn" by (simp_all add: det3_def quarter_turn_def clear_cut_def)
  from inverse_matrix_correct [OF this, of 0 2] show ?thesis by simp
qed

text \<open>A coefficient up to 32767 is given to the engine with an error of at most 2^-17, half a unit.\<close>

theorem matrix_s32_precise:
  assumes "\<bar>x i\<bar> \<le> 32767" "i < 9"
  shows "\<bar>of_int (matrix_float_to_s32 (exact_fpu f) x ! i) / 65536 - x i\<bar> \<le> 1 / 2 ^ 17"
proof -
  define t where "t = x i * 65536"
  have m: "matrix_float_to_s32 (exact_fpu f) x ! i = (if 0 \<le> t then \<lfloor>t + 1 / 2\<rfloor> else \<lceil>t - 1 / 2\<rceil>)"
    using assms by (auto simp: matrix_float_to_s32_def mx_s32_def fmul_def t_def Let_def)
  have "\<bar>of_int (matrix_float_to_s32 (exact_fpu f) x ! i) - t\<bar> \<le> 1 / 2"
  proof (cases "0 \<le> t")
    case True
    define n where "n = \<lfloor>t + 1 / 2\<rfloor>"
    have "of_int n \<le> t + 1 / 2" "t + 1 / 2 < of_int n + 1" unfolding n_def by linarith+
    then have "\<bar>of_int n - t\<bar> \<le> 1 / 2" by linarith
    then show ?thesis unfolding m n_def using True by simp
  next
    case False
    define n where "n = \<lceil>t - 1 / 2\<rceil>"
    have "t - 1 / 2 \<le> of_int n" "of_int n < t - 1 / 2 + 1" unfolding n_def by linarith+
    then have "\<bar>of_int n - t\<bar> \<le> 1 / 2" by linarith
    then show ?thesis unfolding m n_def using False by simp
  qed
  then have "\<bar>(of_int (matrix_float_to_s32 (exact_fpu f) x ! i) - t) / 65536\<bar> \<le> 1 / 2 ^ 17" by simp
  then show ?thesis by (simp add: t_def diff_divide_distrib)
qed

theorem matrix_s32_precise_witness:
  "\<bar>of_int (matrix_float_to_s32 (exact_fpu (\<lambda>_. 0)) (\<lambda>_. 1 / 3) ! 4) / 65536 - 1 / 3 :: rat\<bar> \<le> 1 / 2 ^ 17"
  using matrix_s32_precise [of "\<lambda>_. 1 / 3" 4] by simp

end
