(* ===== verification/Paint.thy ===== *)
theory Paint
  imports Prelude
begin

text \<open>
  Loops that fill an image: each round writes some bytes, computed from bytes it reads. What such
  a loop leaves in memory does not depend on the order of its rounds when no round writes what
  another one reads or writes. The locale states this for any kind of round; the image routines
  of the T40 model are interpreted in it.
\<close>

definition rounds_apart :: "('c \<Rightarrow> u32 set) \<Rightarrow> ('c \<Rightarrow> u32 set) \<Rightarrow> 'c set \<Rightarrow> bool" where
  "rounds_apart W R cs \<longleftrightarrow> (\<forall>c \<in> cs. \<forall>d \<in> cs. c \<noteq> d \<longrightarrow> W c \<inter> W d = {}) \<and> (\<forall>c \<in> cs. \<forall>d \<in> cs. R c \<inter> W d = {})"

lemma rounds_apart_subset: "rounds_apart W R ds \<Longrightarrow> cs \<subseteq> ds \<Longrightarrow> rounds_apart W R cs"
  unfolding rounds_apart_def by blast

locale painter =
  fixes paint :: "'c \<Rightarrow> mem \<Rightarrow> mem" and W :: "'c \<Rightarrow> u32 set" and R :: "'c \<Rightarrow> u32 set"
  assumes frame: "a \<notin> W c \<Longrightarrow> paint c m a = m a"
    and local: "(\<And>b. b \<in> R c \<Longrightarrow> m b = m' b) \<Longrightarrow> a \<in> W c \<Longrightarrow> paint c m a = paint c m' a"
begin

lemma paint_frame:
  assumes "\<And>c. c \<in> set cs \<Longrightarrow> a \<notin> W c"
  shows "fold paint cs m a = m a"
  using assms by (induction cs arbitrary: m) (simp_all add: frame)

text \<open>What a round wrote stays as it would be in the memory the loop began with.\<close>

lemma paint_value:
  assumes "distinct cs" "rounds_apart W R (set cs)" "c \<in> set cs" "a \<in> W c"
  shows "fold paint cs m a = paint c m a"
  using assms
proof (induction cs arbitrary: m)
  case (Cons d cs)
  have ap: "rounds_apart W R (set cs)" using Cons.prems(2) by (rule rounds_apart_subset) auto
  show ?case
  proof (cases "d = c")
    case True
    then have "\<And>e. e \<in> set cs \<Longrightarrow> a \<notin> W e" using Cons.prems by (auto simp: rounds_apart_def)
    then show ?thesis using True by (simp add: paint_frame)
  next
    case False
    then have c: "c \<in> set cs" using Cons.prems(3) by simp
    have "paint d m b = m b" if "b \<in> R c" for b
      by (rule frame) (use that c Cons.prems(2) in \<open>auto simp: rounds_apart_def\<close>)
    then have "paint c (paint d m) a = paint c m a" using Cons.prems(4) by (intro local) auto
    with Cons.IH [OF _ ap c Cons.prems(4)] Cons.prems(1) show ?thesis by simp
  qed
qed simp

lemma paint_order:
  assumes "distinct cs" "distinct ds" "set cs = set ds" "rounds_apart W R (set cs)"
  shows "fold paint cs m = fold paint ds m"
proof
  fix a
  show "fold paint cs m a = fold paint ds m a"
  proof (cases "\<exists>c \<in> set cs. a \<in> W c")
    case True
    then obtain c where c: "c \<in> set cs" "a \<in> W c" by blast
    then show ?thesis using paint_value [OF assms(1,4) c] paint_value [OF assms(2), of c a m] assms(3,4) by simp
  next
    case False
    then have "fold paint cs m a = m a" "fold paint ds m a = m a" using assms(3) paint_frame [of cs a m] paint_frame [of ds a m] by auto
    then show ?thesis by simp
  qed
qed

end

text \<open>Rounds that do the same write the same.\<close>

lemma fold_paint_cong:
  assumes "\<And>c m. c \<in> set cs \<Longrightarrow> f c m = g c m"
  shows "fold f cs m = fold g cs m"
  using assms by (induction cs arbitrary: m) simp_all

section \<open>Index arithmetic\<close>

text \<open>Addresses of an image's bytes: row, column and byte give distinct numbers.\<close>

lemma row_col_inj:
  fixes i i' j j' s :: int
  assumes "j * s + i = j' * s + i'" "0 \<le> i" "i < s" "0 \<le> i'" "i' < s"
  shows "j = j' \<and> i = i'"
proof -
  have "j = (j * s + i) div s" "j' = (j' * s + i') div s" using assms(2-5) by simp_all
  then have "j = j'" using assms(1) by simp
  then show ?thesis using assms(1) by simp
qed

lemma of_int_u32_inj:
  assumes "(of_int x :: u32) = of_int y" "0 \<le> x" "x < 2 ^ 32" "0 \<le> y" "y < 2 ^ 32"
  shows "x = y"
proof -
  have "x mod 2 ^ 32 = y mod 2 ^ 32" using arg_cong [OF assms(1), of uint] by (simp add: take_bit_eq_mod unsigned_of_int)
  then show ?thesis using assms by simp
qed

text \<open>A C index is added to its base modulo 2^32.\<close>

definition at :: "u32 \<Rightarrow> int \<Rightarrow> u32" where
  "at base i = base + of_int i"

definition area :: "u32 \<Rightarrow> int \<Rightarrow> u32 set" where
  "area base n = {at base i | i. 0 \<le> i \<and> i < n}"

lemma at_inj:
  assumes "at b x = at b y" "0 \<le> x" "x < 2 ^ 32" "0 \<le> y" "y < 2 ^ 32"
  shows "x = y"
  using assms by (intro of_int_u32_inj [OF _ assms(2-5)]) (simp add: at_def)

lemma area_disjoint:
  assumes "uint a + n \<le> uint b" "uint b + m \<le> 2 ^ 32"
  shows "area a n \<inter> area b m = {}" "area b m \<inter> area a n = {}"
proof -
  have u: "uint (at c i) = uint c + i" if "0 \<le> i" "uint c + i < 2 ^ 32" for c i
  proof -
    have "uint (at c i) = (uint c + i) mod 2 ^ 32" by (simp add: at_def uint_word_ariths uint_word_of_int mod_simps)
    then show ?thesis using that by simp
  qed
  have "at a i \<noteq> at b j" if ij: "0 \<le> i" "i < n" "0 \<le> j" "j < m" for i j
  proof
    assume "at a i = at b j"
    then have "uint a + i = uint b + j" using u [of i a] u [of j b] ij assms by simp
    then show False using ij assms(1) by simp
  qed
  then have "x \<notin> area b m" if "x \<in> area a n" for x using that by (auto simp: area_def)
  then show "area a n \<inter> area b m = {}" "area b m \<inter> area a n = {}" by auto
qed

text \<open>The bytes of different pixels of an image are different bytes.\<close>

lemma pixel_gap:
  fixes x y x' y' s p w :: int
  assumes "(x, y) \<noteq> (x', y')" "0 \<le> x" "x < w" "0 \<le> x'" "x' < w" "p * w \<le> s" "0 < p"
  shows "y * s + x * p + p \<le> y' * s + x' * p \<or> y' * s + x' * p + p \<le> y * s + x * p"
proof -
  have row: "u * s + v * p + p \<le> u' * s + v' * p" if "u < u'" "v < w" "0 \<le> v'" "0 \<le> s" for u u' v v' :: int
  proof -
    have "(u + 1) * s \<le> u' * s" by (rule mult_right_mono) (use that in simp_all)
    moreover have "(v + 1) * p \<le> w * p" by (rule mult_right_mono) (use that assms(7) in simp_all)
    moreover have "0 \<le> v' * p" using that assms(7) by simp
    ultimately show ?thesis using assms(6) by (simp add: algebra_simps)
  qed
  have s: "0 \<le> s" using assms(2,3,6,7) by (smt (verit) mult_nonneg_nonneg)
  consider "y < y'" | "y' < y" | "y = y'" "x < x'" | "y = y'" "x' < x" using assms(1) by fastforce
  then show ?thesis
  proof cases
    case 1
    then show ?thesis using row [OF 1 assms(3,4) s] by simp
  next
    case 2
    then show ?thesis using row [OF 2 assms(5,2) s] by simp
  next
    case 3
    then have "(x + 1) * p \<le> x' * p" by (intro mult_right_mono) (use assms(7) in simp_all)
    then show ?thesis using 3 by (simp add: algebra_simps)
  next
    case 4
    then have "(x' + 1) * p \<le> x * p" by (intro mult_right_mono) (use assms(7) in simp_all)
    then show ?thesis using 4 by (simp add: algebra_simps)
  qed
qed

lemma pixel_room:
  fixes x y s p w h :: int
  assumes "0 \<le> x" "x < w" "0 \<le> y" "y < h" "p * w \<le> s" "0 < p"
  shows "0 \<le> y * s + x * p" "y * s + x * p + p \<le> h * s"
proof -
  have xp: "(x + 1) * p \<le> w * p" "0 \<le> x * p" using assms by (auto intro!: mult_right_mono)
  then have s: "0 \<le> s" using assms(5,6) by (simp add: algebra_simps)
  have "(y + 1) * s \<le> h * s" by (rule mult_right_mono) (use assms s in simp_all)
  then show "y * s + x * p + p \<le> h * s" using xp assms(5) by (simp add: algebra_simps)
  show "0 \<le> y * s + x * p" using xp assms(3) s by simp
qed

lemma at_at: "at (at b i) j = at b (i + j)"
  by (simp add: at_def)

lemma area_sub: "0 \<le> i \<Longrightarrow> i + n \<le> m \<Longrightarrow> area (at b i) n \<subseteq> area b m"
  unfolding area_def at_at by force

lemma area_at_disjoint:
  assumes "i + n \<le> j \<or> j + n \<le> i" "0 \<le> i" "i + n \<le> 2 ^ 32" "0 \<le> j" "j + n \<le> 2 ^ 32"
  shows "area (at b i) n \<inter> area (at b j) n = {}"
proof -
  have "at b (i + k) \<noteq> at b (j + l)" if "0 \<le> k" "k < n" "0 \<le> l" "l < n" for k l
    using at_inj [of b "i + k" "j + l"] assms that by auto
  then have "x \<notin> area (at b j) n" if "x \<in> area (at b i) n" for x using that by (auto simp: area_def at_at)
  then show ?thesis by auto
qed

lemma pixel_disjoint:
  assumes "(x, y) \<noteq> (x', y')" "0 \<le> x" "x < w" "0 \<le> x'" "x' < w" "0 \<le> y" "y < h" "0 \<le> y'" "y' < h"
    "p * w \<le> s" "0 < p" "h * s \<le> 2 ^ 32"
  shows "area (at b (y * s + x * p)) p \<inter> area (at b (y' * s + x' * p)) p = {}"
  using pixel_gap [OF assms(1-5,10,11)] pixel_room [OF assms(2,3,6,7,10,11)] pixel_room [OF assms(4,5,8,9,10,11)] assms(12)
  by (intro area_at_disjoint) auto

end
