(* ===== verification/MdlPixel.thy ===== *)
theory MdlPixel
  imports Paint "HOL-Library.Signed_Division"
begin

text \<open>
  The arithmetic of one pixel in the software model of the T40 scaler: interpolation, the
  bound check and the coordinate transforms of \<open>bscaler/include/model/mdl_common.h\<close>, \<open>affine_dst2src\<close> and
  \<open>yuv2rgb\<close> of \<open>bscaler/source/model/bscaler_mdl.c\<close>. C integers that cannot leave their type are \<open>int\<close>;
  where the code narrows a value, the narrowing is written out. A weight is a number below 2^16.
\<close>

section \<open>Narrowing\<close>

definition s16 :: "int \<Rightarrow> int" where "s16 x = signed_take_bit 15 x"
definition s32 :: "int \<Rightarrow> int" where "s32 x = signed_take_bit 31 x"
definition s64 :: "int \<Rightarrow> int" where "s64 x = signed_take_bit 63 x"
definition u16 :: "int \<Rightarrow> int" where "u16 x = x mod 2 ^ 16"

definition clip :: "int \<Rightarrow> int \<Rightarrow> int \<Rightarrow> int" where
  "clip v lo hi = (if v < lo then lo else if v > hi then hi else v)"

definition clip_s32 :: "int \<Rightarrow> int" where
  "clip_s32 v = clip v (- (2 ^ 31)) (2 ^ 31 - 1)"

lemma signed_take_bit_range:
  assumes "- (2 ^ n) \<le> x" "x < 2 ^ n"
  shows "signed_take_bit n (x::int) = x"
  using assms by (simp add: signed_take_bit_int_eq_self_iff)

lemma narrow_id:
  "- (2 ^ 15) \<le> x \<Longrightarrow> x < 2 ^ 15 \<Longrightarrow> s16 x = x" "- (2 ^ 31) \<le> x \<Longrightarrow> x < 2 ^ 31 \<Longrightarrow> s32 x = x"
  "- (2 ^ 63) \<le> x \<Longrightarrow> x < 2 ^ 63 \<Longrightarrow> s64 x = x" "0 \<le> x \<Longrightarrow> x < 2 ^ 16 \<Longrightarrow> u16 x = x"
  unfolding s16_def s32_def s64_def u16_def by (simp_all add: signed_take_bit_range)

lemma clip_s32_range: "- (2 ^ 31) \<le> clip_s32 v" "clip_s32 v < 2 ^ 31"
  by (auto simp: clip_s32_def clip_def)

lemma s32_range: "- (2 ^ 31) \<le> s32 v" "s32 v < 2 ^ 31"
  unfolding s32_def using signed_take_bit_int_less_exp [of 31 v] signed_take_bit_int_greater_eq_minus_exp [of 31 v]
  by simp_all

lemma clip_s32_id: "- (2 ^ 31) \<le> v \<Longrightarrow> v < 2 ^ 31 \<Longrightarrow> clip_s32 v = v"
  by (auto simp: clip_s32_def clip_def)

lemma div_2_16_range:
  assumes "- (2 ^ 31) \<le> x" "x < 2 ^ 31"
  shows "- (2 ^ 15) \<le> x div 2 ^ 16" "x div 2 ^ 16 < 2 ^ (15::nat)" "s16 (x div 2 ^ 16) = (x::int) div 2 ^ 16"
proof -
  show a: "- (2 ^ 15) \<le> x div 2 ^ 16" "x div 2 ^ 16 < 2 ^ 15" using assms by simp_all
  then show "s16 (x div 2 ^ 16) = x div 2 ^ 16" by (rule narrow_id)
qed

section \<open>Interpolation\<close>

definition MAT_ACC :: nat where "MAT_ACC = 16"
definition MAT_ONE :: int where "MAT_ONE = 2 ^ MAT_ACC - 1"
definition MAT_HALF_ONE :: int where "MAT_HALF_ONE = 2 ^ (MAT_ACC - 1)"

definition lerp :: "int \<Rightarrow> int \<Rightarrow> int \<Rightarrow> int" where
  "lerp p0 p1 w = (p0 * (MAT_ONE - w) + p1 * w + MAT_HALF_ONE) div 2 ^ MAT_ACC"

definition bilinear_u8 :: "u8 \<Rightarrow> u8 \<Rightarrow> u8 \<Rightarrow> u8 \<Rightarrow> int \<Rightarrow> int \<Rightarrow> u8" where
  "bilinear_u8 p0 p1 p2 p3 xw yw =
     (let v0 = lerp (uint p0) (uint p1) xw; v1 = lerp (uint p2) (uint p3) xw; v = lerp v0 v1 yw
      in word_of_int (if v > 255 then 255 else v))"

text \<open>The two and four packed values of a byte; each round of the code's loops is one lane.\<close>

definition bilinear_lane :: "u8 \<Rightarrow> nat \<Rightarrow> u8 \<Rightarrow> u8 \<Rightarrow> u8 \<Rightarrow> u8 \<Rightarrow> int \<Rightarrow> int \<Rightarrow> u8" where
  "bilinear_lane bn_sel shift p0 p1 p2 p3 xw yw =
     (let sel = (\<lambda>p. uint (drop_bit shift p AND bn_sel));
          val0 = word_of_int (lerp (sel p0) (sel p1) xw) :: u8;
          val1 = word_of_int (lerp (sel p2) (sel p3) xw) :: u8
      in word_of_int (lerp (uint val0) (uint val1) yw))"

definition bilinear_u4 :: "u8 \<Rightarrow> u8 \<Rightarrow> u8 \<Rightarrow> u8 \<Rightarrow> int \<Rightarrow> int \<Rightarrow> u8" where
  "bilinear_u4 p0 p1 p2 p3 xw yw =
     fold (\<lambda>shift val. val OR push_bit shift (bilinear_lane 0xF shift p0 p1 p2 p3 xw yw)) [0, 4] 0"

definition bilinear_u2 :: "u8 \<Rightarrow> u8 \<Rightarrow> u8 \<Rightarrow> u8 \<Rightarrow> int \<Rightarrow> int \<Rightarrow> u8" where
  "bilinear_u2 p0 p1 p2 p3 xw yw =
     fold (\<lambda>n val. val OR push_bit (n * 2) (bilinear_lane 3 (n * 2) p0 p1 p2 p3 xw yw)) [0, 1, 2, 3] 0"

lemma lerp_same: "0 \<le> a \<Longrightarrow> a \<le> 2 ^ 15 \<Longrightarrow> lerp a a w = a"
proof -
  assume a: "0 \<le> a" "a \<le> 2 ^ 15"
  have "a * (MAT_ONE - w) + a * w + MAT_HALF_ONE = a * 2 ^ 16 + (2 ^ 15 - a)"
    by (simp add: MAT_ONE_def MAT_HALF_ONE_def MAT_ACC_def algebra_simps)
  then show ?thesis using a by (simp add: lerp_def MAT_ACC_def)
qed

lemma lerp_mono:
  assumes "a \<le> a'" "b \<le> b'" "0 \<le> w" "w < 2 ^ 16"
  shows "lerp a b w \<le> lerp a' b' w"
proof -
  have "a * (MAT_ONE - w) \<le> a' * (MAT_ONE - w)" "b * w \<le> b' * w"
    using assms by (simp_all add: mult_right_mono MAT_ONE_def MAT_ACC_def)
  then show ?thesis by (simp add: lerp_def zdiv_mono1)
qed

text \<open>An interpolated value lies between the two values.\<close>

lemma lerp_between:
  assumes "lo \<le> a" "lo \<le> b" "a \<le> hi" "b \<le> hi" "0 \<le> lo" "hi \<le> 2 ^ 15" "0 \<le> w" "w < 2 ^ 16"
  shows "lo \<le> lerp a b w" "lerp a b w \<le> hi"
proof -
  have "lerp lo lo w = lo" "lerp hi hi w = hi" using assms lerp_same by simp_all
  then show "lo \<le> lerp a b w" "lerp a b w \<le> hi"
    using lerp_mono [of lo a lo b w] lerp_mono [of a hi b hi w] assms by simp_all
qed

lemma lerp_zero: "0 \<le> a \<Longrightarrow> a \<le> 2 ^ 15 \<Longrightarrow> lerp a b 0 = a"
  using lerp_same [of a 0] by (simp add: lerp_def)

lemma uint_le_mask: "uint (p AND (x::u8)) \<le> uint x"
  by (metis word_and_le1 word_le_def)

lemma bilinear_u8_value:
  assumes "0 \<le> xw" "xw < 2 ^ 16" "0 \<le> yw" "yw < 2 ^ 16"
    "\<And>p. p \<in> {p0, p1, p2, p3} \<Longrightarrow> lo \<le> uint p \<and> uint p \<le> hi" "0 \<le> lo" "hi \<le> 255"
  shows "uint (bilinear_u8 p0 p1 p2 p3 xw yw) = lerp (lerp (uint p0) (uint p1) xw) (lerp (uint p2) (uint p3) xw) yw"
    "lo \<le> uint (bilinear_u8 p0 p1 p2 p3 xw yw)" "uint (bilinear_u8 p0 p1 p2 p3 xw yw) \<le> hi"
proof -
  define v0 v1 where "v0 = lerp (uint p0) (uint p1) xw" and "v1 = lerp (uint p2) (uint p3) xw"
  have v: "lo \<le> v0" "v0 \<le> hi" "lo \<le> v1" "v1 \<le> hi"
    unfolding v0_def v1_def using lerp_between [of lo "uint p0" "uint p1" hi xw] lerp_between [of lo "uint p2" "uint p3" hi xw]
      assms(1,2,6,7) assms(5) [of p0] assms(5) [of p1] assms(5) [of p2] assms(5) [of p3] by simp_all
  then have r: "lo \<le> lerp v0 v1 yw" "lerp v0 v1 yw \<le> hi" using lerp_between [of lo v0 v1 hi yw] assms(3,4,6,7) by simp_all
  have "bilinear_u8 p0 p1 p2 p3 xw yw = word_of_int (lerp v0 v1 yw)"
    using r assms(7) by (simp add: bilinear_u8_def v0_def v1_def Let_def)
  then have "uint (bilinear_u8 p0 p1 p2 p3 xw yw) = lerp v0 v1 yw"
    using r assms(6,7) by (simp add: uint_word_of_int_eq take_bit_int_eq_self)
  then show "uint (bilinear_u8 p0 p1 p2 p3 xw yw) = lerp (lerp (uint p0) (uint p1) xw) (lerp (uint p2) (uint p3) xw) yw"
    "lo \<le> uint (bilinear_u8 p0 p1 p2 p3 xw yw)" "uint (bilinear_u8 p0 p1 p2 p3 xw yw) \<le> hi" using r by (simp_all add: v0_def v1_def)
qed

lemma bilinear_corner [simp]: "bilinear_u8 p0 p1 p2 p3 0 0 = p0"
proof -
  have "uint p0 \<le> 255" using uint_lt2p [of p0] by simp
  then show ?thesis by (simp add: bilinear_u8_def lerp_zero Let_def)
qed

text \<open>A lane is a byte of its own.\<close>

lemma lane_value:
  assumes "0 \<le> xw" "xw < 2 ^ 16" "0 \<le> yw" "yw < 2 ^ 16"
  shows "bilinear_lane sel sh p0 p1 p2 p3 xw yw =
      bilinear_u8 (drop_bit sh p0 AND sel) (drop_bit sh p1 AND sel) (drop_bit sh p2 AND sel) (drop_bit sh p3 AND sel) xw yw"
    "bilinear_lane sel sh p0 p1 p2 p3 xw yw \<le> sel"
proof -
  let ?s = "\<lambda>p. drop_bit sh p AND sel"
  have b: "0 \<le> uint p \<and> uint p \<le> uint sel" if "p \<in> {?s p0, ?s p1, ?s p2, ?s p3}" for p
    using that uint_le_mask [of _ sel] by auto
  have sel: "uint sel \<le> 255" using uint_lt2p [of sel] by simp
  note v = bilinear_u8_value [OF assms b _ sel, simplified]
  define v0 v1 where "v0 = lerp (uint (?s p0)) (uint (?s p1)) xw" and "v1 = lerp (uint (?s p2)) (uint (?s p3)) xw"
  have "0 \<le> v0" "v0 \<le> uint sel" "0 \<le> v1" "v1 \<le> uint sel"
    unfolding v0_def v1_def using lerp_between [of 0 "uint (?s p0)" "uint (?s p1)" "uint sel" xw]
      lerp_between [of 0 "uint (?s p2)" "uint (?s p3)" "uint sel" xw] assms(1,2) b sel by simp_all
  then have "uint (word_of_int v0 :: u8) = v0" "uint (word_of_int v1 :: u8) = v1"
    using sel by (simp_all add: uint_word_of_int_eq take_bit_int_eq_self)
  then have l: "bilinear_lane sel sh p0 p1 p2 p3 xw yw = word_of_int (lerp v0 v1 yw)"
    unfolding bilinear_lane_def Let_def v0_def [symmetric] v1_def [symmetric] by simp
  have e: "uint (bilinear_u8 (?s p0) (?s p1) (?s p2) (?s p3) xw yw) = lerp v0 v1 yw" using v(1) by (simp add: v0_def v1_def)
  show "bilinear_lane sel sh p0 p1 p2 p3 xw yw = bilinear_u8 (?s p0) (?s p1) (?s p2) (?s p3) xw yw"
    unfolding l e [symmetric] by simp
  then show "bilinear_lane sel sh p0 p1 p2 p3 xw yw \<le> sel" using v(3) by (simp add: word_le_def)
qed

lemma small_bits:
  assumes "(x::u8) \<le> mask n" "bit x i"
  shows "i < n"
proof (rule ccontr)
  assume "\<not> i < n"
  have "i < 8" using assms(2) bit_imp_le_length by fastforce
  have "bit (unat x) i" using assms(2) by (simp add: bit_unsigned_iff)
  then have "unat x div 2 ^ i \<noteq> 0" by (metis bit_iff_odd even_zero)
  then have "2 ^ i \<le> unat x" by (metis div_less linorder_not_less)
  moreover have "unat x < 2 ^ n"
  proof -
    have "n < 8" using \<open>\<not> i < n\<close> \<open>i < 8\<close> by simp
    then have "uint (mask n :: u8) = mask n" by transfer (simp add: min_def)
    then have "uint x < 2 ^ n" using assms(1) by (simp add: word_le_def mask_eq_exp_minus_1)
    then have "int (unat x) < int (2 ^ n)" by simp
    then show ?thesis by (simp only: of_nat_less_iff)
  qed
  moreover have "(2::nat) ^ n \<le> 2 ^ i" using \<open>\<not> i < n\<close> by simp
  ultimately show False by simp
qed

lemma lane_take_bit: "(x::u8) \<le> mask n \<Longrightarrow> take_bit n x = x"
  by (rule bit_word_eqI) (auto simp: bit_simps dest: small_bits)

lemma pack4:
  fixes a b :: u8
  assumes "k < 2" "take_bit 4 a = a" "take_bit 4 b = b"
  shows "drop_bit (4 * k) (0 OR push_bit 0 a OR push_bit 4 b) AND mask 4 = [a, b] ! k"
proof -
  have "drop_bit (4 * k) (0 OR push_bit 0 (take_bit 4 a) OR push_bit 4 (take_bit 4 b)) AND mask 4 = [take_bit 4 a, take_bit 4 b] ! k"
    using assms(1) by (cases k) (auto intro!: bit_word_eqI simp: bit_simps)
  then show ?thesis using assms(2,3) by simp
qed

lemma pack2:
  fixes a b c d :: u8
  assumes "k < 4" "take_bit 2 a = a" "take_bit 2 b = b" "take_bit 2 c = c" "take_bit 2 d = d"
  shows "drop_bit (2 * k) (0 OR push_bit 0 a OR push_bit 2 b OR push_bit 4 c OR push_bit 6 d) AND mask 2 = [a, b, c, d] ! k"
proof -
  consider "k = 0" | "k = 1" | "k = 2" | "k = 3" using assms(1) by linarith
  then have "drop_bit (2 * k) (0 OR push_bit 0 (take_bit 2 a) OR push_bit 2 (take_bit 2 b) OR push_bit 4 (take_bit 2 c) OR push_bit 6 (take_bit 2 d))
      AND mask 2 = [take_bit 2 a, take_bit 2 b, take_bit 2 c, take_bit 2 d] ! k"
    by cases (auto intro!: bit_word_eqI simp: bit_simps)
  then show ?thesis using assms(2-5) by simp
qed

text \<open>C25. The packed formats: each lane of the result is the interpolation of that lane alone. Nothing is
  carried from one lane to the next, so the clipping the code leaves out is not needed.\<close>

theorem bilinear_packed:
  assumes "0 \<le> xw" "xw < 2 ^ 16" "0 \<le> yw" "yw < 2 ^ 16"
  shows "(\<forall>n < 2. drop_bit (4 * n) (bilinear_u4 p0 p1 p2 p3 xw yw) AND 0xF =
       bilinear_u8 (drop_bit (4 * n) p0 AND 0xF) (drop_bit (4 * n) p1 AND 0xF) (drop_bit (4 * n) p2 AND 0xF) (drop_bit (4 * n) p3 AND 0xF) xw yw) \<and>
    (\<forall>n < 4. drop_bit (2 * n) (bilinear_u2 p0 p1 p2 p3 xw yw) AND 3 =
       bilinear_u8 (drop_bit (2 * n) p0 AND 3) (drop_bit (2 * n) p1 AND 3) (drop_bit (2 * n) p2 AND 3) (drop_bit (2 * n) p3 AND 3) xw yw)"
proof (intro conjI allI impI)
  let ?l = "\<lambda>sel sh. bilinear_lane sel sh p0 p1 p2 p3 xw yw"
  note lv = lane_value(1) [OF assms, symmetric] and tb = lane_take_bit [OF lane_value(2) [OF assms]]
  have m: "(0xF::u8) = mask 4" "(3::u8) = mask 2" by (simp_all add: mask_eq_exp_minus_1)
  fix n :: nat
  { assume n: "n < 2"
    have "drop_bit (4 * n) (bilinear_u4 p0 p1 p2 p3 xw yw) AND mask 4 = [?l (mask 4) 0, ?l (mask 4) 4] ! n"
      using pack4 [OF n tb tb] unfolding bilinear_u4_def m by simp
    also have "\<dots> = ?l (mask 4) (4 * n)" using n by (cases n) simp_all
    finally show "drop_bit (4 * n) (bilinear_u4 p0 p1 p2 p3 xw yw) AND 0xF =
       bilinear_u8 (drop_bit (4 * n) p0 AND 0xF) (drop_bit (4 * n) p1 AND 0xF) (drop_bit (4 * n) p2 AND 0xF) (drop_bit (4 * n) p3 AND 0xF) xw yw"
      unfolding lv m . }
  { assume n: "n < 4"
    have "drop_bit (2 * n) (bilinear_u2 p0 p1 p2 p3 xw yw) AND mask 2 = [?l (mask 2) 0, ?l (mask 2) 2, ?l (mask 2) 4, ?l (mask 2) 6] ! n"
      using pack2 [OF n tb tb tb tb, of 0 p0 p1 p2 p3 2 p0 p1 p2 p3 4 p0 p1 p2 p3 6 p0 p1 p2 p3] unfolding bilinear_u2_def m
      by (simp add: or.assoc)
    also have "\<dots> = ?l (mask 2) (2 * n)" using n by (auto simp: less_Suc_eq numeral_eq_Suc)
    finally show "drop_bit (2 * n) (bilinear_u2 p0 p1 p2 p3 xw yw) AND 3 =
       bilinear_u8 (drop_bit (2 * n) p0 AND 3) (drop_bit (2 * n) p1 AND 3) (drop_bit (2 * n) p2 AND 3) (drop_bit (2 * n) p3 AND 3) xw yw"
      unfolding lv m . }
qed

theorem bilinear_packed_witness:
  "drop_bit 4 (bilinear_u4 0x93 0x1F 0x00 0xF0 100 60000) AND 0xF = bilinear_u8 9 1 0 0xF 100 60000"
  using bilinear_packed [of 100 60000 "0x93" "0x1F" 0 "0xF0", THEN conjunct1, rule_format, of 1] by simp

section \<open>Coordinates\<close>

text \<open>\<open>bilinear_bound_check\<close>: which of the four neighbours lie outside the box.\<close>

definition bilinear_bound_check :: "int \<Rightarrow> int \<Rightarrow> int \<Rightarrow> int \<Rightarrow> int \<Rightarrow> int \<Rightarrow> bool \<times> bool \<times> bool \<times> bool" where
  "bilinear_bound_check x y w h cur_x cur_y =
     (let x0 = cur_x; x1 = s16 (cur_x + 1); y0 = cur_y; y1 = s16 (cur_y + 1);
          last_x = u16 (w + x - 1); last_y = u16 (h + y - 1)
      in (x0 < x \<or> x0 > last_x \<or> y0 < y \<or> y0 > last_y,
          x1 < x \<or> x1 > last_x \<or> y0 < y \<or> y0 > last_y,
          x0 < x \<or> x0 > last_x \<or> y1 < y \<or> y1 > last_y,
          x1 < x \<or> x1 > last_x \<or> y1 < y \<or> y1 > last_y))"

text \<open>The rows of a matrix are \<open>MSCALEX MSKEWX MTRANSX\<close>, \<open>MSKEWY MSCALEY MTRANSY\<close> and \<open>MPERSP0 MPERSP1 MPERSP2\<close>.
  The results are the position of the left upper neighbour and the two weights.\<close>

definition split_pos :: "int \<Rightarrow> int \<Rightarrow> int \<times> int \<times> int \<times> int" where
  "split_pos sx sy = (s16 (sx div 2 ^ MAT_ACC), s16 (sy div 2 ^ MAT_ACC), sx mod 2 ^ MAT_ACC, sy mod 2 ^ MAT_ACC)"

definition perspective_dst2src :: "int list \<Rightarrow> int \<Rightarrow> int \<Rightarrow> int \<times> int \<times> int \<times> int" where
  "perspective_dst2src M dx dy =
     (let sx = dx * M ! 0 + dy * M ! 1 + M ! 2;
          sy = dx * M ! 3 + dy * M ! 4 + M ! 5;
          sz = dx * M ! 6 + dy * M ! 7 + M ! 8
      in if sz \<noteq> 0
         then split_pos (clip_s32 (s64 (sx * 2 ^ MAT_ACC) sdiv sz)) (clip_s32 (s64 (sy * 2 ^ MAT_ACC) sdiv sz))
         else (- 2, - 2, 0, 0))"

definition affine_dst2src :: "int list \<Rightarrow> int \<Rightarrow> int \<Rightarrow> int \<times> int \<times> int \<times> int" where
  "affine_dst2src M dx dy =
     (let src_x = M ! 0 * dx + M ! 1 * dy + M ! 2;
          src_y = M ! 3 * dx + M ! 4 * dy + M ! 5
      in split_pos (clip_s32 src_x) (clip_s32 src_y))"

text \<open>A matrix is perspective unless its last row is 0 0 1.\<close>

definition is_perspective :: "int list \<Rightarrow> bool" where
  "is_perspective M \<longleftrightarrow> \<not> (M ! 6 = 0 \<and> M ! 7 = 0 \<and> M ! 8 = 2 ^ MAT_ACC)"

text \<open>On an affine matrix both transforms agree while the products stay within 64 bits.\<close>

lemma perspective_affine:
  assumes "\<not> is_perspective M" "0 \<le> dx" "dx < 2 ^ 15" "0 \<le> dy" "dy < 2 ^ 15" "\<And>i. i < 6 \<Longrightarrow> - (2 ^ 31) \<le> M ! i \<and> M ! i < 2 ^ 31"
  shows "perspective_dst2src M dx dy = affine_dst2src M dx dy"
proof -
  have bound: "\<bar>dx * a + dy * b + c\<bar> \<le> 2 ^ 47 - 1"
    if "- (2 ^ 31) \<le> a \<and> a < 2 ^ 31" "- (2 ^ 31) \<le> b \<and> b < 2 ^ 31" "- (2 ^ 31) \<le> c \<and> c < 2 ^ 31" for a b c :: int
  proof -
    have "\<bar>dx * a\<bar> \<le> (2 ^ 15 - 1) * 2 ^ 31" unfolding abs_mult by (rule mult_mono) (use assms(2,3) that(1) in \<open>simp_all add: abs_le_iff\<close>)
    moreover have "\<bar>dy * b\<bar> \<le> (2 ^ 15 - 1) * 2 ^ 31" unfolding abs_mult by (rule mult_mono) (use assms(4,5) that(2) in \<open>simp_all add: abs_le_iff\<close>)
    ultimately show ?thesis using that(3) by (simp add: abs_le_iff)
  qed
  have q: "s64 (v * 2 ^ 16) sdiv 2 ^ 16 = v" if "\<bar>v\<bar> \<le> 2 ^ 47 - 1" for v :: int
  proof -
    have "s64 (v * 2 ^ 16) = v * 2 ^ 16" using that by (intro narrow_id) (simp_all add: abs_le_iff)
    then show ?thesis by (simp add: signed_divide_int_def sgn_mult abs_mult sgn_mult_abs mult_sgn_abs)
  qed
  have r: "- (2 ^ 31) \<le> M ! i \<and> M ! i < 2 ^ 31" if "i < 6" for i using assms(6) [OF that] .
  have "\<bar>dx * M ! 0 + dy * M ! 1 + M ! 2\<bar> \<le> 2 ^ 47 - 1" "\<bar>dx * M ! 3 + dy * M ! 4 + M ! 5\<bar> \<le> 2 ^ 47 - 1"
    by (rule bound; rule r; simp)+
  from q [OF this(1)] q [OF this(2)] assms(1) show ?thesis
    by (simp add: perspective_dst2src_def affine_dst2src_def is_perspective_def MAT_ACC_def Let_def mult.commute)
qed

end
