(* ===== verification/MdlBst.thy ===== *)
theory MdlBst
  imports MdlPixel
begin

text \<open>
  The T part of the software model of the T40 scaler (\<open>bscaler/source/model/bscaler_mdl.c\<close>): colour conversion,
  copies, and the rearrangement of an image into the windows of a convolution (virtual
  channels), as \<open>bst_mdl\<close> does them for a \<open>bst_hw_once_cfg_s\<close>. Memory is one map of bytes; a C
  index is added to its base modulo 2^32. The check sums are counters of the program.
\<close>

section \<open>State\<close>

datatype mdl_stop = Assertion_fails | Div_by_zero | Endless_loop | Null_pointer | Out_of_bounds

record mdl =
  mm :: mem
  bst_isum :: u32
  bst_osum :: u32
  bsc_isum :: u32
  bsc_osum :: u32

text \<open>\<open>memcpy\<close> of \<open>n\<close> bytes that do not overlap.\<close>

definition memcpy :: "u32 \<Rightarrow> u32 \<Rightarrow> nat \<Rightarrow> mem \<Rightarrow> mem" where
  "memcpy dst src n m = fold (\<lambda>i m. m(dst + of_nat i := m (src + of_nat i))) [0 ..< n] m"

definition put_bytes :: "u32 \<Rightarrow> u8 list \<Rightarrow> mem \<Rightarrow> mem" where
  "put_bytes p bs m = fold (\<lambda>(i, b) m. m(p + of_nat i := b)) (enumerate 0 bs) m"

section \<open>Colour\<close>

definition BS_CSCA :: nat where "BS_CSCA = 20"

definition csc :: "int \<Rightarrow> u8" where
  "csc v = word_of_int (clip v 0 (2 ^ (BS_CSCA + 8) - 1) div 2 ^ BS_CSCA)"

text \<open>The bytes of a pixel in the order that is asked for; other orders are refused with a message.\<close>

definition rgb_bytes :: "nat \<Rightarrow> u8 \<Rightarrow> u8 \<Rightarrow> u8 \<Rightarrow> u8 \<Rightarrow> u8 list option" where
  "rgb_bytes order b g r a =
     (if order = 0 then Some [b, g, r, a] else if order = 1 then Some [g, b, r, a]
      else if order = 2 then Some [r, b, g, a] else if order = 3 then Some [b, r, g, a]
      else if order = 4 then Some [g, r, b, a] else if order = 5 then Some [r, g, b, a]
      else if order = 8 then Some [a, b, g, r] else if order = 9 then Some [a, g, b, r]
      else if order = 10 then Some [a, r, b, g] else if order = 11 then Some [a, b, r, g]
      else if order = 12 then Some [a, g, r, b] else if order = 13 then Some [a, r, g, b] else None)"

definition yuv_pixel :: "u8 \<Rightarrow> u8 \<Rightarrow> u8 \<Rightarrow> u32 list \<Rightarrow> u8 list \<Rightarrow> u8 \<Rightarrow> nat \<Rightarrow> u8 list option" where
  "yuv_pixel y u v coef ofst nv2bgr_alpha order =
     (let y_m = uint y - uint (ofst ! 0); u_m = uint u - uint (ofst ! 1); v_m = uint v - uint (ofst ! 1);
          c = (\<lambda>i. uint (coef ! i));
          b32 = c 0 * y_m + c 1 * u_m + c 2 * v_m + 2 ^ (BS_CSCA - 1);
          g32 = c 3 * y_m - c 4 * u_m - c 5 * v_m + 2 ^ (BS_CSCA - 1);
          r32 = c 6 * y_m + c 7 * u_m + c 8 * v_m + 2 ^ (BS_CSCA - 1)
      in rgb_bytes order (csc b32) (csc g32) (csc r32) nv2bgr_alpha)"

definition yuv2rgb :: "u8 \<Rightarrow> u8 \<Rightarrow> u8 \<Rightarrow> u32 list \<Rightarrow> u8 list \<Rightarrow> u8 \<Rightarrow> nat \<Rightarrow> u32 \<Rightarrow> mem \<Rightarrow> mem" where
  "yuv2rgb y u v coef ofst nv2bgr_alpha order rgba m =
     (case yuv_pixel y u v coef ofst nv2bgr_alpha order of None \<Rightarrow> m | Some bs \<Rightarrow> put_bytes rgba bs m)"

text \<open>The place of the pair of chroma bytes, computed modulo 2^32.\<close>

definition chroma_at :: "u32 \<Rightarrow> int \<Rightarrow> int \<Rightarrow> int" where
  "chroma_at src_s y x = (uint src_s * y) mod 2 ^ 32 div 2 + x"

text \<open>One round of \<open>bst_nv2bgr\<close>: the four pixels that share a pair of chroma bytes.\<close>

definition nv2bgr_quad :: "u32 \<Rightarrow> u32 \<Rightarrow> u32 \<Rightarrow> u32 \<Rightarrow> u32 \<Rightarrow> nat \<Rightarrow> u32 list \<Rightarrow> u8 list \<Rightarrow> u8 \<Rightarrow> int \<times> int \<Rightarrow> mem \<Rightarrow> mem" where
  "nv2bgr_quad src_y src_c src_s dst dst_s order coef ofst alpha = (\<lambda>(y, x) m.
     let s = uint src_s;
         pix_y0 = m (at src_y (s * y + x)); pix_y1 = m (at src_y (s * y + x + 1));
         pix_y2 = m (at src_y (s * (y + 1) + x)); pix_y3 = m (at src_y (s * (y + 1) + (x + 1)));
         c = chroma_at src_s y x;
         pix_u = m (at src_c c); pix_v = m (at src_c (c + 1));
         dst_ptr = at dst (uint dst_s * y + x * 4);
         m = yuv2rgb pix_y0 pix_u pix_v coef ofst alpha order dst_ptr m;
         m = yuv2rgb pix_y1 pix_u pix_v coef ofst alpha order (dst_ptr + 4) m;
         m = yuv2rgb pix_y2 pix_u pix_v coef ofst alpha order (dst_ptr + dst_s) m
     in yuv2rgb pix_y3 pix_u pix_v coef ofst alpha order (dst_ptr + dst_s + 4) m)"

definition evens :: "int \<Rightarrow> int list" where
  "evens n = map (\<lambda>i. 2 * int i) [0 ..< nat ((n + 1) div 2)]"

definition bst_nv2bgr :: "u32 \<Rightarrow> u32 \<Rightarrow> u32 \<Rightarrow> u32 \<Rightarrow> u32 \<Rightarrow> int \<Rightarrow> int \<Rightarrow> nat \<Rightarrow> u32 list \<Rightarrow> u8 list \<Rightarrow> u8 \<Rightarrow> mem \<Rightarrow> mem" where
  "bst_nv2bgr src_y src_c src_s dst dst_s width height order coef ofst alpha m =
     fold (nv2bgr_quad src_y src_c src_s dst dst_s order coef ofst alpha) (List.product (evens height) (evens width)) m"

section \<open>Copies\<close>

definition bst_nv12_to_nv12 :: "u32 \<Rightarrow> u32 \<Rightarrow> u32 \<Rightarrow> u32 \<Rightarrow> u32 \<Rightarrow> u32 \<Rightarrow> u32 \<Rightarrow> u32 \<Rightarrow> mem \<Rightarrow> mem" where
  "bst_nv12_to_nv12 src_y src_c src_s dst_y dst_c dst_s width height m =
     fold (\<lambda>i m.
       let m = fold (\<lambda>l m. memcpy (dst_y + of_nat (2 * i + l) * dst_s) (src_y + of_nat (2 * i + l) * src_s) (unat width) m) [0, 1] m
       in memcpy (dst_c + of_nat i * dst_s) (src_c + of_nat i * src_s) (unat width) m)
     [0 ..< unat height div 2] m"

definition bgr_byte :: "u32 \<Rightarrow> u32 \<Rightarrow> u32 \<Rightarrow> u32 \<Rightarrow> nat \<Rightarrow> u8 \<Rightarrow> nat \<times> nat \<times> nat \<Rightarrow> mem \<Rightarrow> mem" where
  "bgr_byte src src_s dst dst_s order alpha = (\<lambda>(y, x, k) m.
     let src_idx = of_nat y * src_s + of_nat (x * 4 + k); dst_idx = of_nat y * dst_s + of_nat (x * 4 + k)
     in if bit order 3
        then m(dst + dst_idx := if k = 0 then alpha else m (src + src_idx))
        else m(dst + dst_idx := if k = 3 then alpha else m (src + src_idx)))"

definition bst_bgr_to_bgr :: "u32 \<Rightarrow> u32 \<Rightarrow> u32 \<Rightarrow> u32 \<Rightarrow> u32 \<Rightarrow> u32 \<Rightarrow> nat \<Rightarrow> u8 \<Rightarrow> mem \<Rightarrow> mem" where
  "bst_bgr_to_bgr src src_s dst dst_s width height order alpha m =
     fold (bgr_byte src src_s dst dst_s order alpha)
       (List.product [0 ..< unat height] (List.product [0 ..< unat width] [0 ..< 4])) m"

section \<open>Virtual channels\<close>

text \<open>\<open>normal2kernel\<close>: every place of the window becomes a pixel of \<open>chn_num\<close> bytes, the three colours of
  the window's pixels one after the other, in planes of 32 bytes. Bytes beyond the window get
  the last byte of \<open>zero_point\<close>, places outside of the image its first three.\<close>

definition kernel_width :: "nat \<Rightarrow> int" where
  "kernel_width kernel_size = (if kernel_size = 3 then 7 else if kernel_size = 2 then 5 else if kernel_size = 1 then 3 else 1)"

record kernel_cfg =
  k_w :: u32
  k_h :: u32
  k_size :: nat
  k_xstride :: u8
  k_ystride :: u8
  k_zero :: u32
  k_left :: u8
  k_right :: u8
  k_top :: u8
  k_bottom :: u8
  k_src :: u32
  k_src_stride :: u32
  k_dst :: u32
  k_line :: u32
  k_plane :: u32

definition kernel_dst_w :: "kernel_cfg \<Rightarrow> int" where
  "kernel_dst_w k = s32 ((uint (k_w k) + uint (k_left k) + uint (k_right k) - kernel_width (k_size k)) mod 2 ^ 32 div uint (k_xstride k) + 1)"

definition kernel_dst_h :: "kernel_cfg \<Rightarrow> int" where
  "kernel_dst_h k = s32 ((uint (k_h k) + uint (k_top k) + uint (k_bottom k) - kernel_width (k_size k)) mod 2 ^ 32 div uint (k_ystride k) + 1)"

definition kernel_chn_valid :: "kernel_cfg \<Rightarrow> int" where
  "kernel_chn_valid k = kernel_width (k_size k) * kernel_width (k_size k) * 3"

definition kernel_planes :: "kernel_cfg \<Rightarrow> int" where
  "kernel_planes k = (kernel_chn_valid k + 31) div 32"

definition zero_byte :: "kernel_cfg \<Rightarrow> nat \<Rightarrow> u8" where
  "zero_byte k i = ucast (drop_bit (8 * i) (k_zero k))"

definition kernel_out :: "kernel_cfg \<Rightarrow> int \<times> int \<times> int \<Rightarrow> u32" where
  "kernel_out k = (\<lambda>(y, x, c). at (k_dst k) (c div 32 * uint (k_plane k) + y * uint (k_line k) + x * 32 + c mod 32))"

definition kernel_pos :: "kernel_cfg \<Rightarrow> int \<times> int \<times> int \<Rightarrow> int \<times> int" where
  "kernel_pos k = (\<lambda>(y, x, c). let i = c div 3; kw = kernel_width (k_size k) in
     (x * uint (k_xstride k) + i mod kw - uint (k_left k), y * uint (k_ystride k) + i div kw - uint (k_top k)))"

definition kernel_byte :: "kernel_cfg \<Rightarrow> int \<times> int \<times> int \<Rightarrow> mem \<Rightarrow> mem" where
  "kernel_byte k = (\<lambda>(y, x, c) m.
     let chn = c mod 3; (x1, y1) = kernel_pos k (y, x, c);
         i1 = y1 * (uint (k_src_stride k) div 4) + x1;
         edge = (x1 < 0 \<or> x1 \<ge> uint (k_w k) \<or> y1 < 0 \<or> y1 \<ge> uint (k_h k))
     in m(kernel_out k (y, x, c) :=
          if c \<ge> kernel_chn_valid k then zero_byte k 3
          else if edge then zero_byte k (nat chn)
          else m (at (k_src k) (i1 * 4 + chn))))"

definition kernel_rounds :: "kernel_cfg \<Rightarrow> (int \<times> int \<times> int) list" where
  "kernel_rounds k = List.product [0 .. kernel_dst_h k - 1] (List.product [0 .. kernel_dst_w k - 1] [0 .. kernel_planes k * 32 - 1])"

definition normal2kernel :: "kernel_cfg \<Rightarrow> mdl \<Rightarrow> mdl_stop + mdl" where
  "normal2kernel k s =
     (if k_xstride k = 0 \<or> k_ystride k = 0 then Inl Div_by_zero
      else Inr (fold (\<lambda>c s. let m = kernel_byte k c (mm s) in
          s\<lparr>mm := m, bst_osum := bst_osum s + ucast (m (kernel_out k c))\<rparr>) (kernel_rounds k) s))"

text \<open>\<open>rgba2virchn\<close>: the same rearrangement plane by plane, with a fixed distance of the planes and one
  value for all that is missing. Its sizes are 16 bits wide.\<close>

definition virchn_byte :: "u32 \<Rightarrow> u32 \<Rightarrow> int \<Rightarrow> int \<Rightarrow> int \<Rightarrow> int \<Rightarrow> int \<Rightarrow> int \<Rightarrow> u8 \<Rightarrow> int \<Rightarrow> int \<Rightarrow> u32 \<Rightarrow> u32 \<Rightarrow> int \<Rightarrow>
    int \<times> int \<times> int \<times> int \<Rightarrow> mem \<Rightarrow> mem" where
  "virchn_byte src src_stride width height knl_w knl_h stride_w stride_h zero pad_top pad_left dst dst_stride dst_h =
     (\<lambda>(cg, y, x, c) m.
        let i = cg * 32 + c; knl_x = i div 3 mod knl_w; knl_y = i div 3 div knl_w; chn = i mod 3;
            src_st_x = x * stride_w - pad_left; src_st_y = y * stride_h - pad_top;
            src_idx = (src_st_y + knl_y) * uint src_stride + (src_st_x + knl_x) * 4 + chn;
            dst_idx = c + x * 32 + y * uint dst_stride + cg * uint dst_stride * dst_h
        in m(at dst dst_idx :=
             if i \<ge> knl_w * knl_h * 3 \<or> src_st_x + knl_x < 0 \<or> src_st_y + knl_y < 0 \<or>
                src_st_x + knl_x \<ge> width \<or> src_st_y + knl_y \<ge> height
             then zero else m (at src src_idx)))"

definition rgba2virchn :: "u32 \<Rightarrow> u32 \<Rightarrow> int \<Rightarrow> int \<Rightarrow> int \<Rightarrow> int \<Rightarrow> int \<Rightarrow> int \<Rightarrow> u8 \<Rightarrow> int \<Rightarrow> int \<Rightarrow> int \<Rightarrow> int \<Rightarrow> u32 \<Rightarrow> u32 \<Rightarrow>
    mem \<Rightarrow> mdl_stop + mem" where
  "rgba2virchn src src_stride width height knl_w knl_h stride_w stride_h zero pad_top pad_bottom pad_left pad_right dst dst_stride m =
     (if stride_w = 0 \<or> stride_h = 0 then Inl Div_by_zero
      else let chn_group_num = (knl_w * knl_h * 3 + 31) div 32;
               dst_w = (width + pad_left + pad_right - knl_w) sdiv stride_w + 1;
               dst_h = (height + pad_top + pad_bottom - knl_h) sdiv stride_h + 1
           in Inr (fold (virchn_byte src src_stride width height knl_w knl_h stride_w stride_h zero pad_top pad_left dst dst_stride dst_h)
                (List.product [0 .. chn_group_num - 1] (List.product [0 .. dst_h - 1] (List.product [0 .. dst_w - 1] [0 .. 31]))) m))"

section \<open>Check sums\<close>

definition sum_bytes :: "u32 \<Rightarrow> nat \<Rightarrow> nat \<Rightarrow> u32 \<Rightarrow> mem \<Rightarrow> u32" where
  "sum_bytes base n h stride m = sum_list (map (\<lambda>(y, x). ucast (m (base + of_nat y * stride + of_nat x))) (List.product [0 ..< h] [0 ..< n]))"

definition bst_nv12_isum :: "u32 \<Rightarrow> u32 \<Rightarrow> nat \<Rightarrow> nat \<Rightarrow> u32 \<Rightarrow> mdl \<Rightarrow> mdl" where
  "bst_nv12_isum y_base c_base w h stride s =
     s\<lparr>bst_isum := bst_isum s + sum_bytes y_base w h stride (mm s) + sum_bytes c_base w (h div 2) stride (mm s)\<rparr>"

definition bst_bgr_isum :: "u32 \<Rightarrow> nat \<Rightarrow> nat \<Rightarrow> u32 \<Rightarrow> mdl \<Rightarrow> mdl" where
  "bst_bgr_isum base w h stride s = s\<lparr>bst_isum := bst_isum s + sum_bytes base (w * 4) h stride (mm s)\<rparr>"

definition bst_nv12_osum :: "u32 \<Rightarrow> u32 \<Rightarrow> nat \<Rightarrow> nat \<Rightarrow> u32 \<Rightarrow> mdl \<Rightarrow> mdl" where
  "bst_nv12_osum y_base c_base w h stride s =
     s\<lparr>bst_osum := bst_osum s + sum_bytes y_base w h stride (mm s) + sum_bytes c_base w (h div 2) stride (mm s)\<rparr>"

definition bst_bgr_osum :: "u32 \<Rightarrow> nat \<Rightarrow> nat \<Rightarrow> u32 \<Rightarrow> mdl \<Rightarrow> mdl" where
  "bst_bgr_osum base w h stride s = s\<lparr>bst_osum := bst_osum s + sum_bytes base (w * 4) h stride (mm s)\<rparr>"

section \<open>One job\<close>

record bst_cfg =
  bt_src_format :: nat
  bt_src_w :: "16 word"
  bt_src_h :: "16 word"
  bt_src_base0 :: u32
  bt_src_base1 :: u32
  bt_src_line_stride :: u32
  bt_dst_format :: nat
  bt_dst_w :: "16 word"
  bt_dst_h :: "16 word"
  bt_dst_base0 :: u32
  bt_dst_base1 :: u32
  bt_dst_line_stride :: u32
  bt_dst_plane_stride :: u32
  bt_kernel_size :: u8
  bt_kernel_xstride :: u8
  bt_kernel_ystride :: u8
  bt_zero_point :: u32
  bt_pad_left :: u8
  bt_pad_right :: u8
  bt_pad_top :: u8
  bt_pad_bottom :: u8
  bt_ibuft_bus :: u8
  bt_obuft_bus :: u8
  bt_nv2bgr_alpha :: u8
  bt_nv2bgr_coef :: "u32 list"
  bt_nv2bgr_ofst :: "u8 list"
  bt_irq_mask :: u32

definition BST_HW_DATA_FM_NV12 :: nat where "BST_HW_DATA_FM_NV12 = 0"
definition BST_HW_DATA_FM_VBGR :: nat where "BST_HW_DATA_FM_VBGR = 0x03"
definition BST_HW_DATA_FM_VRGB :: nat where "BST_HW_DATA_FM_VRGB = 0x53"

definition bst_format_is_bgr :: "nat \<Rightarrow> bool" where
  "bst_format_is_bgr format \<longleftrightarrow> format mod 4 = 1"

definition bst_order :: "bst_cfg \<Rightarrow> nat" where
  "bst_order cfg = bt_dst_format cfg div 16 mod 16"

definition bst_kernel :: "bst_cfg \<Rightarrow> u32 \<Rightarrow> u32 \<Rightarrow> kernel_cfg" where
  "bst_kernel cfg src stride = \<lparr>k_w = ucast (bt_src_w cfg), k_h = ucast (bt_src_h cfg), k_size = unat (bt_kernel_size cfg),
     k_xstride = bt_kernel_xstride cfg, k_ystride = bt_kernel_ystride cfg, k_zero = bt_zero_point cfg,
     k_left = bt_pad_left cfg, k_right = bt_pad_right cfg, k_top = bt_pad_top cfg, k_bottom = bt_pad_bottom cfg,
     k_src = src, k_src_stride = stride, k_dst = bt_dst_base0 cfg, k_line = bt_dst_line_stride cfg,
     k_plane = bt_dst_plane_stride cfg\<rparr>"

text \<open>The input is summed, the job done, the output summed. \<open>tmp\<close> is what \<open>malloc\<close> answers for the image
  between NV12 and windows.\<close>

definition bst_sum_input :: "bst_cfg \<Rightarrow> mdl \<Rightarrow> mdl_stop + mdl" where
  "bst_sum_input cfg s =
     (if bt_src_format cfg = BST_HW_DATA_FM_NV12
      then Inr (bst_nv12_isum (bt_src_base0 cfg) (bt_src_base1 cfg) (unat (bt_src_w cfg)) (unat (bt_src_h cfg)) (bt_src_line_stride cfg) s)
      else if bst_format_is_bgr (bt_src_format cfg)
      then Inr (bst_bgr_isum (bt_src_base0 cfg) (unat (bt_src_w cfg)) (unat (bt_src_h cfg)) (bt_src_line_stride cfg) s)
      else Inl Assertion_fails)"

definition bst_nv_job :: "bst_cfg \<Rightarrow> u32 \<Rightarrow> u32 \<Rightarrow> mdl \<Rightarrow> mdl" where
  "bst_nv_job cfg dst dst_s s = s\<lparr>mm := bst_nv2bgr (bt_src_base0 cfg) (bt_src_base1 cfg) (bt_src_line_stride cfg) dst dst_s
     (uint (bt_src_w cfg)) (uint (bt_src_h cfg)) (bst_order cfg) (bt_nv2bgr_coef cfg) (bt_nv2bgr_ofst cfg) (bt_nv2bgr_alpha cfg) (mm s)\<rparr>"

definition bst_select :: "u32 option \<Rightarrow> bst_cfg \<Rightarrow> mdl \<Rightarrow> mdl_stop + mdl" where
  "bst_select tmp cfg s =
     (let sf = bt_src_format cfg; df = bt_dst_format cfg in
      if sf = BST_HW_DATA_FM_NV12 \<and> df = BST_HW_DATA_FM_NV12
      then Inr (s\<lparr>mm := bst_nv12_to_nv12 (bt_src_base0 cfg) (bt_src_base1 cfg) (bt_src_line_stride cfg) (bt_dst_base0 cfg)
             (bt_dst_base1 cfg) (bt_dst_line_stride cfg) (ucast (bt_src_w cfg)) (ucast (bt_src_h cfg)) (mm s)\<rparr>)
      else if bst_format_is_bgr sf \<and> bst_format_is_bgr df
      then Inr (s\<lparr>mm := bst_bgr_to_bgr (bt_src_base0 cfg) (bt_src_line_stride cfg) (bt_dst_base0 cfg) (bt_dst_line_stride cfg)
             (ucast (bt_src_w cfg)) (ucast (bt_src_h cfg)) (bst_order cfg) (bt_nv2bgr_alpha cfg) (mm s)\<rparr>)
      else if sf = BST_HW_DATA_FM_NV12 \<and> bst_format_is_bgr df
      then Inr (bst_nv_job cfg (bt_dst_base0 cfg) (bt_dst_line_stride cfg) s)
      else if df = BST_HW_DATA_FM_VBGR \<or> df = BST_HW_DATA_FM_VRGB
      then if bst_format_is_bgr sf
           then normal2kernel (bst_kernel cfg (bt_src_base0 cfg) (bt_src_line_stride cfg)) s
           else case tmp of
                  None \<Rightarrow> Inl Null_pointer
                | Some t \<Rightarrow> normal2kernel (bst_kernel cfg t (ucast (bt_src_w cfg) * 4)) (bst_nv_job cfg t (ucast (bt_src_w cfg) * 4) s)
      else Inr s)"

definition bst_sum_output :: "bst_cfg \<Rightarrow> mdl \<Rightarrow> mdl" where
  "bst_sum_output cfg s =
     (if bt_dst_format cfg = BST_HW_DATA_FM_NV12
      then bst_nv12_osum (bt_dst_base0 cfg) (bt_dst_base1 cfg) (unat (bt_dst_w cfg)) (unat (bt_dst_h cfg)) (bt_dst_line_stride cfg) s
      else if odd (bt_dst_format cfg)
      then bst_bgr_osum (bt_dst_base0 cfg) (unat (bt_dst_w cfg)) (unat (bt_dst_h cfg)) (bt_dst_line_stride cfg) s
      else s)"

definition bst_mdl :: "u32 option \<Rightarrow> bst_cfg \<Rightarrow> mdl \<Rightarrow> mdl_stop + mdl" where
  "bst_mdl tmp cfg s = res_bind (bst_sum_input cfg s) (\<lambda>s. res_bind (bst_select tmp cfg s) (\<lambda>s. Inr (bst_sum_output cfg s)))"

section \<open>The two rearrangements agree\<close>

text \<open>The bytes a round reads.\<close>

definition kernel_in :: "kernel_cfg \<Rightarrow> int \<times> int \<times> int \<Rightarrow> u32 set" where
  "kernel_in k = (\<lambda>(y, x, c). let (x1, y1) = kernel_pos k (y, x, c) in
     if c \<ge> kernel_chn_valid k \<or> x1 < 0 \<or> x1 \<ge> uint (k_w k) \<or> y1 < 0 \<or> y1 \<ge> uint (k_h k) then {}
     else {at (k_src k) ((y1 * (uint (k_src_stride k) div 4) + x1) * 4 + c mod 3)})"

interpretation kern: painter "kernel_byte k" "\<lambda>c. {kernel_out k c}" "kernel_in k" for k
proof
  show "a \<notin> {kernel_out k c} \<Longrightarrow> kernel_byte k c m a = m a" for a c m
    by (auto simp: kernel_byte_def Let_def split: prod.splits)
  show "kernel_byte k c m a = kernel_byte k c m' a"
    if "\<And>b. b \<in> kernel_in k c \<Longrightarrow> m b = m' b" "a \<in> {kernel_out k c}" for c m m' a
    using that by (auto simp: kernel_byte_def kernel_in_def Let_def split: prod.splits if_splits)
qed

text \<open>A configuration whose windows and planes fit, and whose output lies beside its input.\<close>

definition kernel_fits :: "kernel_cfg \<Rightarrow> bool" where
  "kernel_fits k \<longleftrightarrow> 0 < k_xstride k \<and> 0 < k_ystride k \<and> uint (k_w k) < 2 ^ 16 \<and> uint (k_h k) < 2 ^ 16 \<and>
     kernel_width (k_size k) \<le> uint (k_w k) + uint (k_left k) + uint (k_right k) \<and>
     kernel_width (k_size k) \<le> uint (k_h k) + uint (k_top k) + uint (k_bottom k) \<and>
     32 * kernel_dst_w k \<le> uint (k_line k) \<and> uint (k_plane k) = uint (k_line k) * kernel_dst_h k \<and>
     kernel_planes k * uint (k_plane k) \<le> 2 ^ 32 \<and>
     4 * uint (k_w k) \<le> uint (k_src_stride k) \<and> uint (k_src_stride k) mod 4 = 0 \<and>
     area (k_src k) (uint (k_h k) * uint (k_src_stride k)) \<inter> area (k_dst k) (kernel_planes k * uint (k_plane k)) = {}"

lemma kernel_sizes:
  assumes "kernel_fits k"
  shows "kernel_dst_w k = (uint (k_w k) + uint (k_left k) + uint (k_right k) - kernel_width (k_size k)) sdiv uint (k_xstride k) + 1"
    "kernel_dst_h k = (uint (k_h k) + uint (k_top k) + uint (k_bottom k) - kernel_width (k_size k)) sdiv uint (k_ystride k) + 1"
proof -
  have gen: "s32 (n mod 2 ^ 32 div uint st + 1) = n sdiv uint st + 1" if "0 \<le> n" "n < 2 ^ 31 - 1" "0 < st" for n and st :: u8
  proof -
    have st: "1 \<le> uint st" using that(3) by (simp add: word_less_def)
    have d: "n div uint st \<le> n" using that(1) st by (metis div_by_1 zdiv_mono2 zero_less_one)
    have "0 \<le> n div uint st" using that(1) st by (simp add: pos_imp_zdiv_nonneg_iff)
    moreover have "n sdiv uint st = n div uint st" using that(1) st by (simp add: signed_divide_int_def sgn_if)
    moreover have "n mod 2 ^ 32 = n" using that(1,2) by simp
    ultimately show ?thesis using d that(2) by (simp add: narrow_id)
  qed
  have kw: "1 \<le> kernel_width (k_size k)" by (simp add: kernel_width_def)
  have b: "uint w < 2 ^ 8" for w :: u8 using uint_lt2p [of w] by simp
  show "kernel_dst_w k = (uint (k_w k) + uint (k_left k) + uint (k_right k) - kernel_width (k_size k)) sdiv uint (k_xstride k) + 1"
    unfolding kernel_dst_w_def by (rule gen) (use assms kw b [of "k_left k"] b [of "k_right k"] in \<open>simp_all add: kernel_fits_def\<close>)
  show "kernel_dst_h k = (uint (k_h k) + uint (k_top k) + uint (k_bottom k) - kernel_width (k_size k)) sdiv uint (k_ystride k) + 1"
    unfolding kernel_dst_h_def by (rule gen) (use assms kw b [of "k_top k"] b [of "k_bottom k"] in \<open>simp_all add: kernel_fits_def\<close>)
qed

definition kernel_index :: "kernel_cfg \<Rightarrow> int \<times> int \<times> int \<Rightarrow> int" where
  "kernel_index k = (\<lambda>(y, x, c). (c div 32 * kernel_dst_h k + y) * uint (k_line k) + (x * 32 + c mod 32))"

lemma kernel_index:
  assumes "kernel_fits k" "r \<in> set (kernel_rounds k)"
  shows "kernel_out k r = at (k_dst k) (kernel_index k r)" "0 \<le> kernel_index k r" "kernel_index k r < kernel_planes k * uint (k_plane k)"
proof -
  obtain y x c where r: "r = (y, x, c)" "0 \<le> y" "y < kernel_dst_h k" "0 \<le> x" "x < kernel_dst_w k" "0 \<le> c" "c < kernel_planes k * 32"
    using assms(2) by (auto simp: kernel_rounds_def)
  let ?h = "kernel_dst_h k" and ?l = "uint (k_line k)"
  have f: "32 * kernel_dst_w k \<le> ?l" "uint (k_plane k) = ?l * ?h" using assms(1) by (simp_all add: kernel_fits_def)
  show "kernel_out k r = at (k_dst k) (kernel_index k r)"
    unfolding r(1) kernel_out_def kernel_index_def prod.case f(2) by (rule arg_cong [of _ _ "at (k_dst k)"]) algebra
  have c: "0 \<le> c div 32" "c div 32 \<le> kernel_planes k - 1" using r(6,7) by (simp_all add: div_pos_pos_trivial)
  have i: "0 \<le> x * 32 + c mod 32" "x * 32 + c mod 32 < ?l" using r(4,5) f(1) by (simp_all add: add_nonneg_nonneg)
  have row: "0 \<le> c div 32 * ?h + y" "c div 32 * ?h + y < kernel_planes k * ?h"
  proof -
    show "0 \<le> c div 32 * ?h + y" using c(1) r(2,3) by simp
    have "c div 32 * ?h \<le> (kernel_planes k - 1) * ?h" by (rule mult_right_mono) (use c r(2,3) in simp_all)
    then show "c div 32 * ?h + y < kernel_planes k * ?h" using r(3) by (simp add: algebra_simps)
  qed
  show "0 \<le> kernel_index k r" using row(1) i(1) r(1) by (simp add: kernel_index_def)
  have "(c div 32 * ?h + y) * ?l \<le> (kernel_planes k * ?h - 1) * ?l" by (rule mult_right_mono) (use row in simp_all)
  then show "kernel_index k r < kernel_planes k * uint (k_plane k)" using i(2) r(1) f(2)
    by (simp add: kernel_index_def algebra_simps)
qed

lemma kernel_index_inj:
  assumes "kernel_fits k" "r \<in> set (kernel_rounds k)" "q \<in> set (kernel_rounds k)" "kernel_index k r = kernel_index k q"
  shows "r = q"
proof -
  obtain y x c where r: "r = (y, x, c)" "0 \<le> y" "y < kernel_dst_h k" "0 \<le> x" "x < kernel_dst_w k"
    using assms(2) by (auto simp: kernel_rounds_def)
  obtain y' x' c' where q: "q = (y', x', c')" "0 \<le> y'" "y' < kernel_dst_h k" "0 \<le> x'" "x' < kernel_dst_w k"
    using assms(3) by (auto simp: kernel_rounds_def)
  have f: "32 * kernel_dst_w k \<le> uint (k_line k)" using assms(1) by (simp add: kernel_fits_def)
  have i: "0 \<le> x * 32 + c mod 32" "x * 32 + c mod 32 < uint (k_line k)" "0 \<le> x' * 32 + c' mod 32" "x' * 32 + c' mod 32 < uint (k_line k)"
    using r(4,5) q(4,5) f by (simp_all add: add_nonneg_nonneg)
  have "c div 32 * kernel_dst_h k + y = c' div 32 * kernel_dst_h k + y' \<and> x * 32 + c mod 32 = x' * 32 + c' mod 32"
    by (rule row_col_inj [OF _ i]) (use assms(4) r(1) q(1) in \<open>simp add: kernel_index_def\<close>)
  then have "c div 32 = c' div 32 \<and> y = y'" "x = x' \<and> c mod 32 = c' mod 32"
    using row_col_inj [of "c div 32" "kernel_dst_h k" y "c' div 32" y'] row_col_inj [of x 32 "c mod 32" x' "c' mod 32"] r q by simp_all
  then show ?thesis using r(1) q(1) by (metis div_mult_mod_eq)
qed

lemma kernel_in_src:
  assumes "kernel_fits k" "r \<in> set (kernel_rounds k)" "a \<in> kernel_in k r"
  shows "a \<in> area (k_src k) (uint (k_h k) * uint (k_src_stride k))"
proof -
  obtain y x c where r: "r = (y, x, c)" by (cases r)
  obtain x1 y1 where p: "kernel_pos k (y, x, c) = (x1, y1)" by (cases "kernel_pos k (y, x, c)")
  have a: "a = at (k_src k) ((y1 * (uint (k_src_stride k) div 4) + x1) * 4 + c mod 3)" "0 \<le> x1" "x1 < uint (k_w k)" "0 \<le> y1" "y1 < uint (k_h k)"
    using assms(3) r p by (auto simp: kernel_in_def split: if_splits)
  have st: "uint (k_src_stride k) div 4 * 4 = uint (k_src_stride k)" "4 * uint (k_w k) \<le> uint (k_src_stride k)"
    using assms(1) by (auto simp: kernel_fits_def)
  have e: "(y1 * (uint (k_src_stride k) div 4) + x1) * 4 + c mod 3 = y1 * uint (k_src_stride k) + (x1 * 4 + c mod 3)"
    using st(1) by (metis (no_types) add.assoc distrib_right mult.assoc)
  have m3: "0 \<le> c mod 3" "c mod 3 < 3" by simp_all
  have "y1 * uint (k_src_stride k) \<le> (uint (k_h k) - 1) * uint (k_src_stride k)" by (rule mult_right_mono) (use a(5) in simp_all)
  moreover have "x1 * 4 + c mod 3 < uint (k_src_stride k)" using a(3) st(2) m3 by simp
  ultimately have "y1 * uint (k_src_stride k) + (x1 * 4 + c mod 3) < uint (k_h k) * uint (k_src_stride k)" by (simp add: algebra_simps)
  moreover have "0 \<le> y1 * uint (k_src_stride k) + (x1 * 4 + c mod 3)" using a(2,4) m3 by simp
  ultimately show ?thesis unfolding area_def a(1) e by blast
qed

lemma kernel_apart:
  assumes "kernel_fits k"
  shows "rounds_apart (\<lambda>c. {kernel_out k c}) (kernel_in k) (set (kernel_rounds k))"
  unfolding rounds_apart_def
proof (intro conjI ballI impI)
  have top: "kernel_planes k * uint (k_plane k) \<le> 2 ^ 32" using assms unfolding kernel_fits_def by blast
  have dis: "area (k_src k) (uint (k_h k) * uint (k_src_stride k)) \<inter> area (k_dst k) (kernel_planes k * uint (k_plane k)) = {}"
    using assms unfolding kernel_fits_def by blast
  fix c d assume cd: "c \<in> set (kernel_rounds k)" "d \<in> set (kernel_rounds k)"
  note ic = kernel_index [OF assms cd(1)] and id = kernel_index [OF assms cd(2)]
  show "{kernel_out k c} \<inter> {kernel_out k d} = {}" if "c \<noteq> d"
  proof -
    have "kernel_index k c \<noteq> kernel_index k d" using kernel_index_inj [OF assms cd] that by blast
    then have "kernel_out k c \<noteq> kernel_out k d" using at_inj [of "k_dst k" "kernel_index k c" "kernel_index k d"] ic id top by auto
    then show ?thesis by simp
  qed
  have "kernel_out k d \<in> area (k_dst k) (kernel_planes k * uint (k_plane k))" unfolding area_def id(1) using id(2,3) by blast
  then show "kernel_in k c \<inter> {kernel_out k d} = {}" using kernel_in_src [OF assms cd(1)] dis by blast
qed

text \<open>A round of the reference writes the byte of one round of \<open>normal2kernel\<close>.\<close>

definition regroup :: "int \<times> int \<times> int \<times> int \<Rightarrow> int \<times> int \<times> int" where
  "regroup = (\<lambda>(cg, y, x, c). (y, x, cg * 32 + c))"

lemma virchn_byte_regroup:
  assumes "kernel_fits k" "\<And>i. i < 4 \<Longrightarrow> zero_byte k i = zero" "0 \<le> c" "c < 32"
  shows "virchn_byte (k_src k) (k_src_stride k) (uint (k_w k)) (uint (k_h k)) (kernel_width (k_size k)) (kernel_width (k_size k))
      (uint (k_xstride k)) (uint (k_ystride k)) zero (uint (k_top k)) (uint (k_left k)) (k_dst k) (k_line k) (kernel_dst_h k) (cg, y, x, c) m =
    kernel_byte k (regroup (cg, y, x, c)) m"
proof -
  define i where "i = cg * 32 + c"
  define x1 where "x1 = x * uint (k_xstride k) + i div 3 mod kernel_width (k_size k) - uint (k_left k)"
  define y1 where "y1 = y * uint (k_ystride k) + i div 3 div kernel_width (k_size k) - uint (k_top k)"
  have d: "i div 32 = cg" "i mod 32 = c" using assms(3,4) by (simp_all add: i_def)
  have o: "kernel_out k (y, x, i) = at (k_dst k) (c + x * 32 + y * uint (k_line k) + cg * uint (k_line k) * kernel_dst_h k)"
    using assms(1) by (simp add: kernel_out_def d kernel_fits_def algebra_simps)
  have p: "kernel_pos k (y, x, i) = (x1, y1)" by (simp add: kernel_pos_def x1_def y1_def Let_def)
  have st: "uint (k_src_stride k) div 4 * 4 = uint (k_src_stride k)" using assms(1) by (auto simp: kernel_fits_def)
  have e: "(y1 * (uint (k_src_stride k) div 4) + x1) * 4 + i mod 3 = y1 * uint (k_src_stride k) + x1 * 4 + i mod 3"
    using st by (metis (no_types) distrib_right mult.assoc)
  have z: "zero_byte k 3 = zero" "zero_byte k (nat (i mod 3)) = zero" using assms(2) by (simp_all add: nat_less_iff)
  have xy: "x * uint (k_xstride k) - uint (k_left k) + i div 3 mod kernel_width (k_size k) = x1"
    "y * uint (k_ystride k) - uint (k_top k) + i div 3 div kernel_width (k_size k) = y1" by (simp_all add: x1_def y1_def)
  show ?thesis unfolding virchn_byte_def kernel_byte_def regroup_def prod.case i_def [symmetric] Let_def p o e z xy
    by (auto simp: kernel_chn_valid_def)
qed

lemma mm_normal2kernel:
  "mm (fold (\<lambda>c s. let m = kernel_byte k c (mm s) in
     s\<lparr>mm := m, bst_osum := bst_osum s + ucast (m (kernel_out k c))\<rparr>) cs s) = fold (kernel_byte k) cs (mm s)"
  by (induction cs arbitrary: s) (simp_all add: Let_def)

lemma regrouped_rounds:
  assumes "kernel_fits k"
  defines "L \<equiv> List.product [0 .. kernel_planes k - 1] (List.product [0 .. kernel_dst_h k - 1] (List.product [0 .. kernel_dst_w k - 1] [0 .. 31]))"
  shows "distinct (map regroup L)" "set (map regroup L) = set (kernel_rounds k)"
proof -
  have "inj_on regroup (set L)"
  proof (rule inj_onI)
    fix p q assume pq: "p \<in> set L" "q \<in> set L" "regroup p = regroup q"
    obtain cg y x c cg' y' x' c' where "p = (cg, y, x, c)" "q = (cg', y', x', c')" by (metis prod.collapse)
    with pq row_col_inj [of cg 32 c cg' c'] show "p = q" by (auto simp: L_def regroup_def)
  qed
  then show "distinct (map regroup L)" by (simp add: distinct_map L_def distinct_product)
  have split: "\<exists>cg c. i = cg * 32 + c \<and> 0 \<le> cg \<and> cg < n \<and> 0 \<le> c \<and> c \<le> 31" if "0 \<le> i" "i < n * 32" for i n :: int
  proof (rule exI [of _ "i div 32"], rule exI [of _ "i mod 32"], intro conjI)
    show "i div 32 < n"
    proof (rule ccontr)
      assume "\<not> i div 32 < n"
      then have "n * 32 \<le> i div 32 * 32" by simp
      moreover have "i div 32 * 32 + i mod 32 = i" "0 \<le> i mod 32" by simp_all
      ultimately show False using that(2) by linarith
    qed
    show "i mod 32 \<le> 31" using pos_mod_bound [of 32 i] by linarith
  qed (use that(1) in simp_all)
  show "set (map regroup L) = set (kernel_rounds k)"
  proof (intro set_eqI iffI)
    fix r assume "r \<in> set (map regroup L)"
    then show "r \<in> set (kernel_rounds k)" by (auto simp: L_def regroup_def kernel_rounds_def)
  next
    fix r assume r: "r \<in> set (kernel_rounds k)"
    obtain y x i where yxi: "r = (y, x, i)" by (cases r)
    then have "0 \<le> i" "i < kernel_planes k * 32" using r by (auto simp: kernel_rounds_def)
    from split [OF this] obtain cg c where "i = cg * 32 + c" "0 \<le> cg" "cg < kernel_planes k" "0 \<le> c" "c \<le> 31" by blast
    then have "(cg, y, x, c) \<in> set L" "r = regroup (cg, y, x, c)" using r yxi by (auto simp: L_def kernel_rounds_def regroup_def)
    then show "r \<in> set (map regroup L)" by auto
  qed
qed

text \<open>C21. C17. \<open>normal2kernel\<close> and the reference \<open>rgba2virchn\<close> leave the same memory, when the planes are one after
  the other and all missing bytes are the same.\<close>

theorem normal2kernel_is_rgba2virchn:
  assumes "kernel_fits k" "\<And>i. i < 4 \<Longrightarrow> zero_byte k i = zero"
  shows "\<exists>s'. normal2kernel k s = Inr s' \<and>
    rgba2virchn (k_src k) (k_src_stride k) (uint (k_w k)) (uint (k_h k)) (kernel_width (k_size k)) (kernel_width (k_size k))
      (uint (k_xstride k)) (uint (k_ystride k)) zero (uint (k_top k)) (uint (k_bottom k)) (uint (k_left k)) (uint (k_right k))
      (k_dst k) (k_line k) (mm s) = Inr (mm s')"
proof -
  let ?V = "virchn_byte (k_src k) (k_src_stride k) (uint (k_w k)) (uint (k_h k)) (kernel_width (k_size k)) (kernel_width (k_size k))
      (uint (k_xstride k)) (uint (k_ystride k)) zero (uint (k_top k)) (uint (k_left k)) (k_dst k) (k_line k) (kernel_dst_h k)"
  let ?L = "List.product [0 .. kernel_planes k - 1] (List.product [0 .. kernel_dst_h k - 1] (List.product [0 .. kernel_dst_w k - 1] [0 .. 31]))"
  have st: "k_xstride k \<noteq> 0" "k_ystride k \<noteq> 0" using assms(1) by (auto simp: kernel_fits_def)
  have pl: "(kernel_width (k_size k) * kernel_width (k_size k) * 3 + 31) div 32 = kernel_planes k"
    by (simp add: kernel_planes_def kernel_chn_valid_def)
  note reg = regrouped_rounds [OF assms(1)]
  have "fold ?V ?L (mm s) = fold (\<lambda>q. kernel_byte k (regroup q)) ?L (mm s)"
    by (rule fold_paint_cong) (auto intro: virchn_byte_regroup [OF assms])
  also have "\<dots> = fold (kernel_byte k) (map regroup ?L) (mm s)" by (simp add: fold_map comp_def)
  also have "\<dots> = fold (kernel_byte k) (kernel_rounds k) (mm s)"
    by (rule kern.paint_order [OF reg(1) _ reg(2)]) (use kernel_apart [OF assms(1)] reg(2) in \<open>simp_all add: kernel_rounds_def distinct_product\<close>)
  finally have "fold ?V ?L (mm s) = fold (kernel_byte k) (kernel_rounds k) (mm s)" .
  moreover obtain s' where "normal2kernel k s = Inr s'" "mm s' = fold (kernel_byte k) (kernel_rounds k) (mm s)"
    using st mm_normal2kernel by (auto simp: normal2kernel_def)
  moreover have "uint (k_xstride k) \<noteq> 0" "uint (k_ystride k) \<noteq> 0" using st by (simp_all add: word_uint_eq_iff)
  ultimately show ?thesis using kernel_sizes [OF assms(1), symmetric] pl
    by (intro exI [of _ s'] conjI) (simp_all add: rgba2virchn_def Let_def)
qed

definition sample_kernel :: kernel_cfg where
  "sample_kernel = \<lparr>k_w = 2, k_h = 2, k_size = 0, k_xstride = 1, k_ystride = 1, k_zero = 0x07070707, k_left = 0, k_right = 0,
     k_top = 0, k_bottom = 0, k_src = 0x1000, k_src_stride = 8, k_dst = 0x2000, k_line = 64, k_plane = 128\<rparr>"

lemma sample_kernel_fits: "kernel_fits sample_kernel" "i < 4 \<Longrightarrow> zero_byte sample_kernel i = 7"
proof -
  have "area 0x1000 16 \<inter> area 0x2000 128 = {}" by (rule area_disjoint) simp_all
  then show "kernel_fits sample_kernel"
    by (simp add: kernel_fits_def sample_kernel_def kernel_width_def kernel_dst_w_def kernel_dst_h_def kernel_planes_def
        kernel_chn_valid_def narrow_id)
  show "zero_byte sample_kernel i = 7" if "i < 4"
  proof -
    have "i = 0 \<or> i = 1 \<or> i = 2 \<or> i = 3" using that by linarith
    then show ?thesis by (auto simp: zero_byte_def sample_kernel_def drop_bit_eq_div)
  qed
qed

theorem normal2kernel_is_rgba2virchn_witness:
  "\<exists>s'. normal2kernel sample_kernel \<lparr>mm = (\<lambda>a. ucast a), bst_isum = 0, bst_osum = 0, bsc_isum = 0, bsc_osum = 0\<rparr> = Inr s' \<and>
    rgba2virchn 0x1000 8 2 2 1 1 1 1 7 0 0 0 0 0x2000 64 (\<lambda>a. ucast a) = Inr (mm s')"
  using normal2kernel_is_rgba2virchn [OF sample_kernel_fits, of "\<lparr>mm = (\<lambda>a. ucast a), bst_isum = 0, bst_osum = 0, bsc_isum = 0, bsc_osum = 0\<rparr>"]
  by (simp add: sample_kernel_def kernel_width_def)

section \<open>The conversion covers the image\<close>

lemma area4: "area p 4 = {p, p + 1, p + 2, p + 3}"
proof -
  have "{i. 0 \<le> i \<and> i < 4} = {0, 1, 2, 3 :: int}" by auto
  moreover have "area p 4 = at p ` {i. 0 \<le> i \<and> i < 4}" by (auto simp: area_def)
  ultimately show ?thesis by (simp add: at_def)
qed

lemma put_bytes4:
  assumes "length bs = 4"
  shows "a \<notin> area p 4 \<Longrightarrow> put_bytes p bs m a = m a" "a \<in> area p 4 \<Longrightarrow> put_bytes p bs m a = put_bytes p bs m' a"
    "k < 4 \<Longrightarrow> put_bytes p bs m (at p (int k)) = bs ! k"
proof -
  obtain b0 b1 b2 b3 where bs: "bs = [b0, b1, b2, b3]"
    using assms by (auto simp: length_Suc_conv numeral_eq_Suc)
  show "a \<notin> area p 4 \<Longrightarrow> put_bytes p bs m a = m a" "a \<in> area p 4 \<Longrightarrow> put_bytes p bs m a = put_bytes p bs m' a"
    by (auto simp: bs put_bytes_def area4)
  show "put_bytes p bs m (at p (int k)) = bs ! k" if "k < 4"
  proof -
    consider "k = 0" | "k = 1" | "k = 2" | "k = 3" using \<open>k < 4\<close> by linarith
    then show ?thesis by cases (auto simp: bs put_bytes_def at_def)
  qed
qed

definition order_ok :: "nat \<Rightarrow> bool" where
  "order_ok order \<longleftrightarrow> rgb_bytes order 0 0 0 0 \<noteq> None"

lemma rgb_bytes_ok: "rgb_bytes order b g r a = None \<longleftrightarrow> \<not> order_ok order" "rgb_bytes order b g r a = Some bs \<Longrightarrow> length bs = 4"
  by (auto simp: rgb_bytes_def order_ok_def split: if_splits)

lemma yuv_pixel_ok:
  assumes "order_ok order"
  obtains bs where "yuv_pixel y u v coef ofst alpha order = Some bs" "length bs = 4"
  using assms rgb_bytes_ok unfolding yuv_pixel_def Let_def by (metis not_None_eq)

lemma yuv2rgb_frame:
  assumes "a \<notin> area p 4 \<or> \<not> order_ok order"
  shows "yuv2rgb y u v coef ofst alpha order p m a = m a"
proof (cases "order_ok order")
  case True
  then obtain bs where "yuv_pixel y u v coef ofst alpha order = Some bs" "length bs = 4" by (rule yuv_pixel_ok)
  then show ?thesis using put_bytes4(1) assms True by (simp add: yuv2rgb_def)
next
  case False
  then have "yuv_pixel y u v coef ofst alpha order = None" by (simp add: yuv_pixel_def Let_def rgb_bytes_ok(1))
  then show ?thesis by (simp add: yuv2rgb_def)
qed

lemma yuv2rgb_cong:
  "order_ok order \<Longrightarrow> a \<in> area p 4 \<or> m a = m' a \<Longrightarrow> yuv2rgb y u v coef ofst alpha order p m a = yuv2rgb y u v coef ofst alpha order p m' a"
  by (elim yuv_pixel_ok [of order y u v coef ofst alpha]) (metis option.simps(5) put_bytes4(1,2) yuv2rgb_def)

lemma yuv2rgb_at:
  "order_ok order \<Longrightarrow> k < 4 \<Longrightarrow> yuv2rgb y u v coef ofst alpha order p m (at p (int k)) = the (yuv_pixel y u v coef ofst alpha order) ! k"
  by (elim yuv_pixel_ok [of order y u v coef ofst alpha]) (simp add: yuv2rgb_def put_bytes4(3))

text \<open>The bytes a round writes and reads.\<close>

definition quad_spot :: "u32 \<Rightarrow> u32 \<Rightarrow> int \<Rightarrow> int \<Rightarrow> u32" where
  "quad_spot dst dst_s y x = at dst (y * uint dst_s + x * 4)"

definition quad_out :: "u32 \<Rightarrow> u32 \<Rightarrow> nat \<Rightarrow> int \<times> int \<Rightarrow> u32 set" where
  "quad_out dst dst_s order = (\<lambda>(y, x). if order_ok order then
     area (quad_spot dst dst_s y x) 4 \<union> area (quad_spot dst dst_s y (x + 1)) 4 \<union>
     area (quad_spot dst dst_s (y + 1) x) 4 \<union> area (quad_spot dst dst_s (y + 1) (x + 1)) 4 else {})"

definition quad_in :: "u32 \<Rightarrow> u32 \<Rightarrow> u32 \<Rightarrow> int \<times> int \<Rightarrow> u32 set" where
  "quad_in src_y src_c src_s = (\<lambda>(y, x). let s = uint src_s; c = chroma_at src_s y x in
     {at src_y (s * y + x), at src_y (s * y + x + 1), at src_y (s * (y + 1) + x), at src_y (s * (y + 1) + (x + 1)),
      at src_c c, at src_c (c + 1)})"

lemma quad_run:
  "nv2bgr_quad src_y src_c src_s dst dst_s order coef ofst alpha (y, x) m =
     (let Y = (\<lambda>j i. m (at src_y (uint src_s * (y + j) + (x + i)))); c = chroma_at src_s y x;
          px = (\<lambda>j i. yuv2rgb (Y j i) (m (at src_c c)) (m (at src_c (c + 1))) coef ofst alpha order (quad_spot dst dst_s (y + j) (x + i)))
      in px 1 1 (px 1 0 (px 0 1 (px 0 0 m))))"
proof -
  have "at dst (uint dst_s * y + x * 4) = quad_spot dst dst_s y x"
    "quad_spot dst dst_s y x + 4 = quad_spot dst dst_s y (x + 1)" "quad_spot dst dst_s y x + dst_s = quad_spot dst dst_s (y + 1) x"
    "quad_spot dst dst_s (y + 1) x + 4 = quad_spot dst dst_s (y + 1) (x + 1)"
    by (simp_all add: quad_spot_def at_def algebra_simps)
  note spots = this
  have "uint src_s * y + x + 1 = uint src_s * y + (x + 1)" by simp
  then show ?thesis unfolding nv2bgr_quad_def Let_def prod.case by (simp only: spots add_0_right)
qed

interpretation quad: painter "nv2bgr_quad src_y src_c src_s dst dst_s order coef ofst alpha" "quad_out dst dst_s order"
    "quad_in src_y src_c src_s" for src_y src_c src_s dst dst_s order coef ofst alpha
proof
  show "nv2bgr_quad src_y src_c src_s dst dst_s order coef ofst alpha c m a = m a" if "a \<notin> quad_out dst dst_s order c" for a c m
    using that by (cases c) (auto simp: quad_run Let_def yuv2rgb_frame quad_out_def split: if_splits)
  show "nv2bgr_quad src_y src_c src_s dst dst_s order coef ofst alpha c m a = nv2bgr_quad src_y src_c src_s dst dst_s order coef ofst alpha c m' a"
    if r: "\<And>b. b \<in> quad_in src_y src_c src_s c \<Longrightarrow> m b = m' b" and w: "a \<in> quad_out dst dst_s order c" for c m m' a
  proof -
    obtain y x where c: "c = (y, x)" by (cases c)
    have ok: "order_ok order" using w c by (auto simp: quad_out_def split: if_splits)
    let ?c = "chroma_at src_s y x"
    have eq: "m (at src_y (uint src_s * y + x)) = m' (at src_y (uint src_s * y + x))"
      "m (at src_y (uint src_s * y + (x + 1))) = m' (at src_y (uint src_s * y + (x + 1)))"
      "m (at src_y (uint src_s * (y + 1) + x)) = m' (at src_y (uint src_s * (y + 1) + x))"
      "m (at src_y (uint src_s * (y + 1) + (x + 1))) = m' (at src_y (uint src_s * (y + 1) + (x + 1)))"
      "m (at src_c ?c) = m' (at src_c ?c)" "m (at src_c (?c + 1)) = m' (at src_c (?c + 1))"
      using r by (simp_all add: c quad_in_def Let_def add.assoc)
    show ?thesis using w ok unfolding c quad_run Let_def
      by (simp add: eq quad_out_def) (auto intro!: yuv2rgb_cong)
  qed
qed

lemma quad_out_iff:
  "a \<in> quad_out dst dst_s order (y, x) \<longleftrightarrow> order_ok order \<and> (\<exists>j \<in> {0, 1}. \<exists>i \<in> {0, 1}. a \<in> area (quad_spot dst dst_s (y + j) (x + i)) 4)"
  by (auto simp: quad_out_def)

text \<open>Images with an even number of rows and columns whose bytes are addressed without wrapping around.\<close>

definition nv2bgr_fits :: "u32 \<Rightarrow> u32 \<Rightarrow> u32 \<Rightarrow> u32 \<Rightarrow> u32 \<Rightarrow> int \<Rightarrow> int \<Rightarrow> bool" where
  "nv2bgr_fits src_y src_c src_s dst dst_s width height \<longleftrightarrow>
     even width \<and> even height \<and> width \<le> uint src_s \<and> 4 * width \<le> uint dst_s \<and>
     height * uint src_s \<le> 2 ^ 32 \<and> height * uint dst_s \<le> 2 ^ 32 \<and>
     area src_y (height * uint src_s) \<inter> area dst (height * uint dst_s) = {} \<and>
     area src_c (height div 2 * uint src_s) \<inter> area dst (height * uint dst_s) = {}"

lemma evens_mem: "even n \<Longrightarrow> e \<in> set (evens n) \<longleftrightarrow> even e \<and> 0 \<le> e \<and> e < n"
proof
  assume n: "even n" and e: "e \<in> set (evens n)"
  then obtain i where i: "e = 2 * int i" "i < nat ((n + 1) div 2)" by (auto simp: evens_def)
  then have "int i < (n + 1) div 2" by simp
  then show "even e \<and> 0 \<le> e \<and> e < n" using i(1) n by (auto elim!: evenE)
next
  assume n: "even n" and e: "even e \<and> 0 \<le> e \<and> e < n"
  then have "e = 2 * int (nat (e div 2))" "nat (e div 2) \<in> {0 ..< nat ((n + 1) div 2)}" by (auto elim!: evenE)
  then show "e \<in> set (evens n)" unfolding evens_def set_map set_upt by (rule image_eqI)
qed

lemma evens_distinct: "distinct (evens n)"
  by (simp add: evens_def distinct_map inj_on_def)

lemma chroma_place:
  assumes fits: "nv2bgr_fits src_y src_c src_s dst dst_s width height" and "even y" "0 \<le> y" "y < height"
  shows "chroma_at src_s y x = y div 2 * uint src_s + x"
proof -
  have "y * uint src_s \<le> (height - 1) * uint src_s" by (rule mult_right_mono) (use assms(4) in simp_all)
  moreover have "height * uint src_s \<le> 2 ^ 32" using fits by (simp add: nv2bgr_fits_def)
  moreover have "uint src_s = 0 \<or> 0 < uint src_s" by (metis order_le_less uint_ge_0)
  ultimately have "uint src_s * y < 2 ^ 32" by (auto simp: algebra_simps)
  moreover have "0 \<le> uint src_s * y" using assms(3) by simp
  ultimately have "(uint src_s * y) mod 2 ^ 32 = uint src_s * y" by simp
  moreover have "uint src_s * y div 2 = y div 2 * uint src_s" using assms(2) by (metis dvd_div_mult mult.commute)
  ultimately show ?thesis by (simp add: chroma_at_def)
qed

lemma spot_disjoint:
  assumes fits: "nv2bgr_fits src_y src_c src_s dst dst_s width height"
    and "(x, y) \<noteq> (x', y')" "0 \<le> x" "x < width" "0 \<le> x'" "x' < width" "0 \<le> y" "y < height" "0 \<le> y'" "y' < height"
  shows "area (quad_spot dst dst_s y x) 4 \<inter> area (quad_spot dst dst_s y' x') 4 = {}"
  unfolding quad_spot_def by (rule pixel_disjoint [OF assms(2-)]) (use fits in \<open>simp_all add: nv2bgr_fits_def\<close>)

lemma quad_out_area:
  assumes fits: "nv2bgr_fits src_y src_c src_s dst dst_s width height"
    and "(y, x) \<in> set (List.product (evens height) (evens width))"
  shows "quad_out dst dst_s order (y, x) \<subseteq> area dst (height * uint dst_s)"
proof -
  have e: "even y" "0 \<le> y" "y < height" "even x" "0 \<le> x" "x < width" "even height" "even width"
    using assms fits by (auto simp: evens_mem nv2bgr_fits_def)
  have "area (quad_spot dst dst_s (y + j) (x + i)) 4 \<subseteq> area dst (height * uint dst_s)" if "j \<in> {0, 1}" "i \<in> {0, 1}" for j i
  proof -
    have "x + i < width" "y + j < height" "0 \<le> x + i" "0 \<le> y + j" using e that by (auto elim!: evenE)
    note room = pixel_room [OF this(3,1,4,2), of 4 "uint dst_s"]
    show ?thesis unfolding quad_spot_def by (rule area_sub) (use room fits in \<open>simp_all add: nv2bgr_fits_def\<close>)
  qed
  then have "a \<in> area dst (height * uint dst_s)" if "a \<in> quad_out dst dst_s order (y, x)" for a
    using that unfolding quad_out_iff by blast
  then show ?thesis by blast
qed

lemma quad_in_area:
  assumes fits: "nv2bgr_fits src_y src_c src_s dst dst_s width height"
    and "(y, x) \<in> set (List.product (evens height) (evens width))"
  shows "quad_in src_y src_c src_s (y, x) \<subseteq> area src_y (height * uint src_s) \<union> area src_c (height div 2 * uint src_s)"
proof -
  have e: "even y" "0 \<le> y" "y < height" "even x" "0 \<le> x" "x < width" "even height" "even width"
    using assms fits by (auto simp: evens_mem nv2bgr_fits_def)
  have w: "width \<le> uint src_s" using fits by (simp add: nv2bgr_fits_def)
  have x: "x + 1 < width" "y + 1 < height" "y div 2 < height div 2" "0 \<le> y div 2" using e by (auto elim!: evenE)
  have Y: "at src_y (uint src_s * u + v) \<in> area src_y (height * uint src_s)" if "0 \<le> u" "u < height" "0 \<le> v" "v < width" for u v
    using pixel_room [of v width u height 1 "uint src_s"] that w unfolding area_def by (auto simp: mult.commute)
  have C: "at src_c (y div 2 * uint src_s + v) \<in> area src_c (height div 2 * uint src_s)" if "0 \<le> v" "v < width" for v
    using pixel_room [of v width "y div 2" "height div 2" 1 "uint src_s"] that w x unfolding area_def by auto
  have "at src_c (y div 2 * uint src_s + (x + 1)) \<in> area src_c (height div 2 * uint src_s)" by (rule C) (use e x in simp_all)
  then show ?thesis unfolding quad_in_def prod.case Let_def chroma_place [OF fits e(1-3)]
    using Y [of y x] Y [of y "x + 1"] Y [of "y + 1" x] Y [of "y + 1" "x + 1"] C [of x] e x by (simp add: add.assoc)
qed

lemma quad_apart:
  assumes fits: "nv2bgr_fits src_y src_c src_s dst dst_s width height"
  shows "rounds_apart (quad_out dst dst_s order) (quad_in src_y src_c src_s) (set (List.product (evens height) (evens width)))"
  unfolding rounds_apart_def
proof (intro conjI ballI impI)
  fix c d assume cd: "c \<in> set (List.product (evens height) (evens width))" "d \<in> set (List.product (evens height) (evens width))"
  obtain y x y' x' where c: "c = (y, x)" and d: "d = (y', x')" by (cases c, cases d)
  have e: "even y" "0 \<le> y" "y < height" "even x" "0 \<le> x" "x < width" "even y'" "0 \<le> y'" "y' < height" "even x'" "0 \<le> x'" "x' < width"
    "even height" "even width"
    using cd c d fits by (auto simp: evens_mem nv2bgr_fits_def)
  show "quad_in src_y src_c src_s c \<inter> quad_out dst dst_s order d = {}"
    using quad_in_area [OF fits cd(1) [unfolded c]] quad_out_area [OF fits cd(2) [unfolded d]] fits unfolding c d nv2bgr_fits_def by blast
  show "quad_out dst dst_s order c \<inter> quad_out dst dst_s order d = {}" if "c \<noteq> d"
  proof -
    have "area (quad_spot dst dst_s (y + j) (x + i)) 4 \<inter> area (quad_spot dst dst_s (y' + j') (x' + i')) 4 = {}"
      if ji: "j \<in> {0, 1}" "i \<in> {0, 1}" "j' \<in> {0, 1}" "i' \<in> {0, 1}" for j i j' i'
    proof (rule spot_disjoint [OF fits])
      show "(x + i, y + j) \<noteq> (x' + i', y' + j')" using \<open>c \<noteq> d\<close> e ji unfolding c d by (auto elim!: evenE) presburger+
    qed (use e ji in \<open>auto elim!: evenE\<close>)
    then have "a \<notin> quad_out dst dst_s order d" if "a \<in> quad_out dst dst_s order c" for a
      using that unfolding c d quad_out_iff by blast
    then show ?thesis by blast
  qed
qed

lemma quad_value:
  assumes fits: "nv2bgr_fits src_y src_c src_s dst dst_s width height" and ok: "order_ok order"
    and e: "even y" "0 \<le> y" "y < height" "even x" "0 \<le> x" "x < width" and ji: "j \<in> {0, 1}" "i \<in> {0, 1}" and k: "k < 4"
  shows "nv2bgr_quad src_y src_c src_s dst dst_s order coef ofst alpha (y, x) m (at (quad_spot dst dst_s (y + j) (x + i)) (int k)) =
    the (yuv_pixel (m (at src_y (uint src_s * (y + j) + (x + i)))) (m (at src_c (chroma_at src_s y x))) (m (at src_c (chroma_at src_s y x + 1)))
      coef ofst alpha order) ! k"
proof -
  have even: "even height" "even width" using fits by (simp_all add: nv2bgr_fits_def)
  have k4: "at p (int k) \<in> area p 4" for p using k by (auto simp: area_def)
  have dis: "at (quad_spot dst dst_s (y + u) (x + v)) (int k) \<notin> area (quad_spot dst dst_s (y + u') (x + v')) 4"
    if "(u, v) \<noteq> (u', v')" "u \<in> {0, 1}" "v \<in> {0, 1}" "u' \<in> {0, 1}" "v' \<in> {0, 1}" for u v u' v'
  proof -
    have "area (quad_spot dst dst_s (y + u) (x + v)) 4 \<inter> area (quad_spot dst dst_s (y + u') (x + v')) 4 = {}"
      by (rule spot_disjoint [OF fits]) (use that e even in \<open>auto elim!: evenE\<close>)
    then show ?thesis using k4 by blast
  qed
  consider "j = 0" "i = 0" | "j = 0" "i = 1" | "j = 1" "i = 0" | "j = 1" "i = 1" using ji by auto
  then show ?thesis
  proof cases
    case 1
    show ?thesis unfolding quad_run Let_def 1 using dis [of 0 0 1 1] dis [of 0 0 1 0] dis [of 0 0 0 1]
      by (simp only: yuv2rgb_frame yuv2rgb_at [OF ok k] ok simp_thms insert_iff prod.inject zero_neq_one zero_neq_one [symmetric])
  next
    case 2
    show ?thesis unfolding quad_run Let_def 2 using dis [of 0 1 1 1] dis [of 0 1 1 0]
      by (simp only: yuv2rgb_frame yuv2rgb_at [OF ok k] ok simp_thms insert_iff prod.inject zero_neq_one zero_neq_one [symmetric])
  next
    case 3
    show ?thesis unfolding quad_run Let_def 3 using dis [of 1 0 1 1]
      by (simp only: yuv2rgb_frame yuv2rgb_at [OF ok k] ok simp_thms insert_iff prod.inject zero_neq_one zero_neq_one [symmetric])
  next
    case 4
    show ?thesis unfolding quad_run Let_def 4 by (simp only: yuv2rgb_at [OF ok k])
  qed
qed

text \<open>C24. The conversion fills the whole image: every pixel is made from its own brightness and the chroma
  pair of its square of four, and nothing else is written.\<close>

theorem bst_nv2bgr_pixels:
  assumes fits: "nv2bgr_fits src_y src_c src_s dst dst_s width height" and ok: "order_ok order"
  shows "(\<forall>y x k. 0 \<le> y \<and> y < height \<and> 0 \<le> x \<and> x < width \<and> k < 4 \<longrightarrow>
      bst_nv2bgr src_y src_c src_s dst dst_s width height order coef ofst alpha m (at dst (y * uint dst_s + x * 4 + int k)) =
      the (yuv_pixel (m (at src_y (y * uint src_s + x)))
        (m (at src_c (y div 2 * uint src_s + x div 2 * 2))) (m (at src_c (y div 2 * uint src_s + x div 2 * 2 + 1))) coef ofst alpha order) ! k) \<and>
    (\<forall>a. a \<notin> area dst (height * uint dst_s) \<longrightarrow> bst_nv2bgr src_y src_c src_s dst dst_s width height order coef ofst alpha m a = m a)"
proof (intro conjI allI impI)
  let ?L = "List.product (evens height) (evens width)"
  fix y x :: int and k :: nat
  assume yxk: "0 \<le> y \<and> y < height \<and> 0 \<le> x \<and> x < width \<and> k < 4"
  let ?y = "y div 2 * 2" and ?x = "x div 2 * 2" and ?j = "y mod 2" and ?i = "x mod 2"
  have even: "even height" "even width" using fits by (simp_all add: nv2bgr_fits_def)
  have e: "even ?y" "0 \<le> ?y" "?y < height" "even ?x" "0 \<le> ?x" "?x < width" "?j \<in> {0, 1}" "?i \<in> {0, 1}"
    using yxk by (auto simp: minus_mod_eq_div_mult [symmetric] zmod_le_nonneg_dividend)
  have a: "at dst (y * uint dst_s + x * 4 + int k) = at (quad_spot dst dst_s (?y + ?j) (?x + ?i)) (int k)"
    by (simp add: quad_spot_def at_at)
  have c: "(?y, ?x) \<in> set ?L" using e even by (simp add: evens_mem)
  have "at (quad_spot dst dst_s (?y + ?j) (?x + ?i)) (int k) \<in> area (quad_spot dst dst_s (?y + ?j) (?x + ?i)) 4"
    using yxk by (auto simp: area_def)
  then have w: "at (quad_spot dst dst_s (?y + ?j) (?x + ?i)) (int k) \<in> quad_out dst dst_s order (?y, ?x)"
    using ok e(7,8) unfolding quad_out_iff by (intro conjI bexI [of _ ?j] bexI [of _ ?i])
  have "bst_nv2bgr src_y src_c src_s dst dst_s width height order coef ofst alpha m (at dst (y * uint dst_s + x * 4 + int k)) =
      nv2bgr_quad src_y src_c src_s dst dst_s order coef ofst alpha (?y, ?x) m (at (quad_spot dst dst_s (?y + ?j) (?x + ?i)) (int k))"
    unfolding bst_nv2bgr_def a
    by (rule quad.paint_value [OF _ quad_apart [OF fits] c w]) (simp add: distinct_product evens_distinct)
  also have "\<dots> = the (yuv_pixel (m (at src_y (uint src_s * (?y + ?j) + (?x + ?i)))) (m (at src_c (chroma_at src_s ?y ?x)))
      (m (at src_c (chroma_at src_s ?y ?x + 1))) coef ofst alpha order) ! k"
    by (rule quad_value [OF fits ok e]) (use yxk in simp)
  finally show "bst_nv2bgr src_y src_c src_s dst dst_s width height order coef ofst alpha m (at dst (y * uint dst_s + x * 4 + int k)) =
      the (yuv_pixel (m (at src_y (y * uint src_s + x))) (m (at src_c (y div 2 * uint src_s + x div 2 * 2)))
        (m (at src_c (y div 2 * uint src_s + x div 2 * 2 + 1))) coef ofst alpha order) ! k"
    using chroma_place [OF fits e(1-3)] by (simp add: mult.commute)
next
  fix a assume a: "a \<notin> area dst (height * uint dst_s)"
  have "a \<notin> quad_out dst dst_s order c" if "c \<in> set (List.product (evens height) (evens width))" for c
    using quad_out_area [OF fits, of "fst c" "snd c" order] that a by auto
  then show "bst_nv2bgr src_y src_c src_s dst dst_s width height order coef ofst alpha m a = m a"
    unfolding bst_nv2bgr_def by (rule quad.paint_frame)
qed

theorem bst_nv2bgr_pixels_witness:
  "bst_nv2bgr 0x1000 0x1010 2 0x2000 8 2 2 0 [1220542, 2116026, 0, 1220542, 409993, 852492, 1220542, 0, 1673527] [16, 128] 0xFF
    (\<lambda>a. if a < 0x1010 then 235 else 128) (at 0x2000 (1 * 8 + 1 * 4 + int 2)) = 255"
proof -
  have "area 0x1000 4 \<inter> area 0x2000 16 = {}" "area 0x1010 2 \<inter> area 0x2000 16 = {}" by (rule area_disjoint; simp)+
  then have fits: "nv2bgr_fits 0x1000 0x1010 2 0x2000 8 2 2" by (simp add: nv2bgr_fits_def)
  have "order_ok 0" by (simp add: order_ok_def rgb_bytes_def)
  note pix = bst_nv2bgr_pixels [OF fits this, THEN conjunct1, rule_format, of 1 1 2, simplified]
  show ?thesis using pix by (simp add: at_def yuv_pixel_def rgb_bytes_def csc_def clip_def BS_CSCA_def)
qed

end
