(* ===== verification/MdlWarp.thy ===== *)
theory MdlWarp
  imports MdlBst
begin

text \<open>
  Resizing and warping of one box in the software model of the T40 scaler
  (\<open>bscaler/source/model/bscaler_mdl.c\<close>): every pixel of the destination box is mapped to a place of the
  source box and interpolated from its four neighbours; neighbours outside of the source box
  are \<open>zero_point\<close>. Memory holds both images.
\<close>

section \<open>Boxes\<close>

record bs_box =
  base0 :: u32
  base1 :: u32
  stride0 :: int
  stride1 :: int
  sbox_x :: int
  sbox_y :: int
  sbox_w :: int
  sbox_h :: int
  bx_format :: int
  bx_chn :: int

text \<open>The counters of the loops are 16 bits wide. With a limit of type \<open>int\<close> above 65535 such a loop does
  not end; a limit of 16 bits wraps around.\<close>

definition u16_range :: "int \<Rightarrow> int \<Rightarrow> int list option" where
  "u16_range start lim = (if lim > 65535 then None else Some [u16 start .. lim - 1])"

definition for_yx :: "bs_box \<Rightarrow> (int \<times> int) list option" where
  "for_yx dst = (case u16_range (sbox_y dst) (sbox_h dst + sbox_y dst) of
     None \<Rightarrow> None
   | Some ys \<Rightarrow> if ys = [] then Some []
       else (case u16_range (sbox_x dst) (sbox_w dst + sbox_x dst) of None \<Rightarrow> None | Some xs \<Rightarrow> Some (List.product ys xs)))"

section \<open>One pixel\<close>

text \<open>The offset of the left upper neighbour, and a neighbour's byte.\<close>

definition p00_idx :: "bs_box \<Rightarrow> int \<Rightarrow> int \<Rightarrow> int \<Rightarrow> int" where
  "p00_idx src bpp sx_p sy_p = (sy_p - sbox_y src) * stride0 src + (sx_p - sbox_x src) * bpp"

definition neighbour :: "bs_box \<Rightarrow> u8 \<Rightarrow> bool \<Rightarrow> int \<Rightarrow> mem \<Rightarrow> u8" where
  "neighbour src zero_point out idx m = (if out then zero_point else m (at (base0 src) idx))"

definition box_bound_check :: "bs_box \<Rightarrow> int \<Rightarrow> int \<Rightarrow> bool \<times> bool \<times> bool \<times> bool" where
  "box_bound_check src sx_p sy_p = bilinear_bound_check (u16 (sbox_x src)) (u16 (sbox_y src)) (u16 (sbox_w src)) (u16 (sbox_h src)) sx_p sy_p"

text \<open>The byte that is written for byte \<open>k\<close> of a pixel. The alpha byte is not interpolated.\<close>

definition sample :: "bs_box \<Rightarrow> u8 \<Rightarrow> (u8 \<Rightarrow> u8 \<Rightarrow> u8 \<Rightarrow> u8 \<Rightarrow> int \<Rightarrow> int \<Rightarrow> u8) \<Rightarrow> int \<Rightarrow> int \<times> int \<times> int \<times> int \<Rightarrow> int \<Rightarrow> mem \<Rightarrow> u8" where
  "sample src zero_point bilinear bpp = (\<lambda>(sx_p, sy_p, sx_w, sy_w) k m.
     let (o0, o1, o2, o3) = box_bound_check src sx_p sy_p;
         p00 = p00_idx src bpp sx_p sy_p + k
     in bilinear (neighbour src zero_point o0 p00 m) (neighbour src zero_point o1 (p00 + bpp) m)
          (neighbour src zero_point o2 (p00 + stride0 src) m) (neighbour src zero_point o3 (p00 + stride0 src + bpp) m) sx_w sy_w)"

definition is_alpha :: "bool \<Rightarrow> int \<Rightarrow> bool" where
  "is_alpha is_abgr_order k \<longleftrightarrow> (if is_abgr_order then k = 0 else k = 3)"

definition dst_idx :: "bs_box \<Rightarrow> int \<Rightarrow> int \<Rightarrow> int \<Rightarrow> int" where
  "dst_idx dst bpp dx dy = (dy - sbox_y dst) * stride0 dst + (dx - sbox_x dst) * bpp"

text \<open>The rounds over the bytes of a pixel of four bytes, for a place that does not depend on memory.\<close>

definition rgb_byte :: "bs_box \<Rightarrow> bs_box \<Rightarrow> u8 \<Rightarrow> bool \<Rightarrow> u8 \<Rightarrow> (int \<Rightarrow> int \<Rightarrow> int \<times> int \<times> int \<times> int) \<Rightarrow> (int \<times> int) \<times> int \<Rightarrow> mem \<Rightarrow> mem" where
  "rgb_byte src dst zero_point is_abgr_order nv2bgr_alpha place = (\<lambda>((dy, dx), k) m.
     m(at (base0 dst) (dst_idx dst 4 dx dy + k) :=
       if is_alpha is_abgr_order k then nv2bgr_alpha else sample src zero_point bilinear_u8 4 (place dx dy) k m))"

section \<open>The routines\<close>

text \<open>\<open>bs_resize_chn_base\<close>: the place is a 32-bit product; the bytes of a pixel are interpolated as bytes,
  as pairs of two bits or as pairs of four bits, by the number of bytes of a pixel.\<close>

definition resize_place :: "int list \<Rightarrow> int \<Rightarrow> int \<Rightarrow> int \<times> int \<times> int \<times> int" where
  "resize_place coef dx dy = split_pos (s32 (dx * coef ! 0 + coef ! 2)) (s32 (dy * coef ! 1 + coef ! 3))"

definition bilinear_bpp :: "int \<Rightarrow> u8 \<Rightarrow> u8 \<Rightarrow> u8 \<Rightarrow> u8 \<Rightarrow> int \<Rightarrow> int \<Rightarrow> u8" where
  "bilinear_bpp bpp p0 p1 p2 p3 xw yw =
     (if bpp = 4 \<or> bpp = 32 then bilinear_u8 p0 p1 p2 p3 xw yw
      else if bpp = 8 then bilinear_u2 p0 p1 p2 p3 xw yw
      else if bpp = 16 then bilinear_u4 p0 p1 p2 p3 xw yw else 0)"

definition resize_byte :: "bs_box \<Rightarrow> bs_box \<Rightarrow> int \<Rightarrow> int list \<Rightarrow> u8 \<Rightarrow> bool \<Rightarrow> u8 \<Rightarrow> (int \<times> int) \<times> int \<Rightarrow> mem \<Rightarrow> mem" where
  "resize_byte src dst bpp coef zero_point is_abgr_order nv2bgr_alpha = (\<lambda>((dy, dx), k) m.
     m(at (base0 dst) (dst_idx dst bpp dx dy + k) :=
       if bpp = 4 \<and> is_alpha is_abgr_order k then nv2bgr_alpha
       else sample src zero_point (bilinear_bpp bpp) bpp (resize_place coef dx dy) k m))"

definition bs_resize_chn_base :: "bs_box \<Rightarrow> bs_box \<Rightarrow> int \<Rightarrow> int list \<Rightarrow> u8 \<Rightarrow> bool \<Rightarrow> u8 \<Rightarrow> mem \<Rightarrow> mdl_stop + mem" where
  "bs_resize_chn_base src dst bpp coef zero_point is_abgr_order nv2bgr_alpha m =
     (case for_yx dst of
        None \<Rightarrow> Inl Endless_loop
      | Some cs \<Rightarrow> Inr (fold (resize_byte src dst bpp coef zero_point is_abgr_order nv2bgr_alpha) (List.product cs [0 .. bpp - 1]) m))"

definition bs_perspective_box_rgb_simple :: "bs_box \<Rightarrow> bs_box \<Rightarrow> int list \<Rightarrow> u8 \<Rightarrow> bool \<Rightarrow> u8 \<Rightarrow> mem \<Rightarrow> mdl_stop + mem" where
  "bs_perspective_box_rgb_simple src dst matrix zero_point is_abgr_order nv2bgr_alpha m =
     (case for_yx dst of
        None \<Rightarrow> Inl Endless_loop
      | Some cs \<Rightarrow> Inr (fold (rgb_byte src dst zero_point is_abgr_order nv2bgr_alpha (perspective_dst2src matrix)) (List.product cs [0 .. 3]) m))"

text \<open>\<open>bs_affine_box_rgb\<close> goes through the columns first.\<close>

definition affine_rounds :: "bs_box \<Rightarrow> ((int \<times> int) \<times> int) list" where
  "affine_rounds dst = map (\<lambda>((dx, dy), k). ((dy, dx), k))
     (List.product (List.product [u16 (sbox_x dst) .. u16 (sbox_w dst + sbox_x dst) - 1] [u16 (sbox_y dst) .. u16 (sbox_h dst + sbox_y dst) - 1]) [0 .. 3])"

definition bs_affine_box_rgb :: "bs_box \<Rightarrow> bs_box \<Rightarrow> int list \<Rightarrow> u8 \<Rightarrow> bool \<Rightarrow> u8 \<Rightarrow> mem \<Rightarrow> mem" where
  "bs_affine_box_rgb src dst matrix zero_point is_abgr_order nv2bgr_alpha m =
     fold (rgb_byte src dst zero_point is_abgr_order nv2bgr_alpha (affine_dst2src matrix)) (affine_rounds dst) m"

section \<open>Rounds of a box\<close>

text \<open>A destination box whose bytes are addressed without wrapping around, and a source beside it.\<close>

definition box_ok :: "bs_box \<Rightarrow> int \<Rightarrow> bool" where
  "box_ok b bpp \<longleftrightarrow> 0 \<le> sbox_x b \<and> 0 \<le> sbox_y b \<and> 0 < sbox_w b \<and> 0 < sbox_h b \<and>
     sbox_x b + sbox_w b \<le> 2 ^ 15 \<and> sbox_y b + sbox_h b \<le> 2 ^ 15 \<and>
     bpp * sbox_w b \<le> stride0 b \<and> sbox_h b * stride0 b \<le> 2 ^ 32"

definition box_area :: "bs_box \<Rightarrow> u32 set" where
  "box_area b = area (base0 b) (sbox_h b * stride0 b)"

definition boxes_ok :: "bs_box \<Rightarrow> bs_box \<Rightarrow> int \<Rightarrow> bool" where
  "boxes_ok src dst bpp \<longleftrightarrow> box_ok src bpp \<and> box_ok dst bpp \<and> box_area src \<inter> box_area dst = {}"

definition box_rounds :: "bs_box \<Rightarrow> int \<Rightarrow> ((int \<times> int) \<times> int) set" where
  "box_rounds dst bpp = {((dy, dx), k). sbox_y dst \<le> dy \<and> dy < sbox_y dst + sbox_h dst \<and>
     sbox_x dst \<le> dx \<and> dx < sbox_x dst + sbox_w dst \<and> 0 \<le> k \<and> k < bpp}"

lemma u16_id: "0 \<le> x \<Longrightarrow> x \<le> 2 ^ 15 \<Longrightarrow> u16 x = x"
  by (rule narrow_id) simp_all

lemma for_yx_ok:
  assumes "box_ok dst bpp"
  shows "for_yx dst = Some (List.product [sbox_y dst .. sbox_h dst + sbox_y dst - 1] [sbox_x dst .. sbox_w dst + sbox_x dst - 1])"
proof -
  have "u16 (sbox_y dst) = sbox_y dst" "u16 (sbox_x dst) = sbox_x dst" using assms by (auto simp: box_ok_def intro!: u16_id)
  then show ?thesis using assms by (auto simp: for_yx_def u16_range_def box_ok_def)
qed

lemma yx_rounds:
  assumes "box_ok dst bpp" "for_yx dst = Some cs"
  shows "set (List.product cs [0 .. n - 1]) = box_rounds dst n" "distinct (List.product cs [0 .. n - 1])"
  using assms by (auto simp: for_yx_ok box_rounds_def distinct_product)

lemma affine_rounds_ok:
  assumes "box_ok dst bpp"
  shows "set (affine_rounds dst) = box_rounds dst 4" "distinct (affine_rounds dst)"
proof -
  have "u16 (sbox_y dst) = sbox_y dst" "u16 (sbox_x dst) = sbox_x dst" "u16 (sbox_w dst + sbox_x dst) = sbox_w dst + sbox_x dst"
    "u16 (sbox_h dst + sbox_y dst) = sbox_h dst + sbox_y dst" using assms by (auto simp: box_ok_def intro!: u16_id)
  then show "set (affine_rounds dst) = box_rounds dst 4" by (force simp: affine_rounds_def box_rounds_def)
  show "distinct (affine_rounds dst)" by (auto simp: affine_rounds_def distinct_map distinct_product inj_on_def)
qed

text \<open>What a byte reads: its four neighbours inside the box.\<close>

definition sample_in :: "bs_box \<Rightarrow> int \<Rightarrow> int \<times> int \<times> int \<times> int \<Rightarrow> int \<Rightarrow> u32 set" where
  "sample_in src bpp = (\<lambda>(sx_p, sy_p, sx_w, sy_w) k.
     let (o0, o1, o2, o3) = box_bound_check src sx_p sy_p; p00 = p00_idx src bpp sx_p sy_p + k
     in (if o0 then {} else {at (base0 src) p00}) \<union> (if o1 then {} else {at (base0 src) (p00 + bpp)}) \<union>
        (if o2 then {} else {at (base0 src) (p00 + stride0 src)}) \<union> (if o3 then {} else {at (base0 src) (p00 + stride0 src + bpp)}))"

lemma sample_cong:
  "(\<And>b. b \<in> sample_in src bpp pl k \<Longrightarrow> m b = m' b) \<Longrightarrow> sample src z bil bpp pl k m = sample src z bil bpp pl k m'"
  by (cases pl) (auto simp: sample_def sample_in_def neighbour_def Let_def split: prod.splits if_splits)

definition byte_out :: "bs_box \<Rightarrow> int \<Rightarrow> (int \<times> int) \<times> int \<Rightarrow> u32 set" where
  "byte_out dst bpp = (\<lambda>((dy, dx), k). {at (base0 dst) (dst_idx dst bpp dx dy + k)})"

definition byte_in :: "bs_box \<Rightarrow> int \<Rightarrow> (int \<Rightarrow> int \<Rightarrow> int \<times> int \<times> int \<times> int) \<Rightarrow> (int \<times> int) \<times> int \<Rightarrow> u32 set" where
  "byte_in src bpp place = (\<lambda>((dy, dx), k). sample_in src bpp (place dx dy) k)"

interpretation rgb: painter "rgb_byte src dst z abgr al place" "byte_out dst 4" "byte_in src 4 place"
  for src dst z abgr al place
proof
  fix c :: "(int \<times> int) \<times> int" and m m' :: mem and a
  obtain dy dx k where c: "c = ((dy, dx), k)" by (metis prod.collapse)
  show "a \<notin> byte_out dst 4 c \<Longrightarrow> rgb_byte src dst z abgr al place c m a = m a" by (simp add: c rgb_byte_def byte_out_def)
  assume "\<And>b. b \<in> byte_in src 4 place c \<Longrightarrow> m b = m' b" "a \<in> byte_out dst 4 c"
  then show "rgb_byte src dst z abgr al place c m a = rgb_byte src dst z abgr al place c m' a"
    using sample_cong [of src 4 "place dx dy" k m m' z bilinear_u8] by (simp add: c rgb_byte_def byte_out_def byte_in_def)
qed

interpretation resz: painter "resize_byte src dst bpp coef z abgr al" "byte_out dst bpp" "byte_in src bpp (resize_place coef)"
  for src dst bpp coef z abgr al
proof
  fix c :: "(int \<times> int) \<times> int" and m m' :: mem and a
  obtain dy dx k where c: "c = ((dy, dx), k)" by (metis prod.collapse)
  show "a \<notin> byte_out dst bpp c \<Longrightarrow> resize_byte src dst bpp coef z abgr al c m a = m a" by (simp add: c resize_byte_def byte_out_def)
  assume "\<And>b. b \<in> byte_in src bpp (resize_place coef) c \<Longrightarrow> m b = m' b" "a \<in> byte_out dst bpp c"
  then show "resize_byte src dst bpp coef z abgr al c m a = resize_byte src dst bpp coef z abgr al c m' a"
    using sample_cong [of src bpp "resize_place coef dx dy" k m m' z "bilinear_bpp bpp"] by (simp add: c resize_byte_def byte_out_def byte_in_def)
qed

lemma byte_index:
  assumes "box_ok dst bpp" "0 < bpp" "((dy, dx), k) \<in> box_rounds dst bpp"
  shows "0 \<le> dst_idx dst bpp dx dy + k" "dst_idx dst bpp dx dy + k < sbox_h dst * stride0 dst"
    "at (base0 dst) (dst_idx dst bpp dx dy + k) \<in> box_area dst"
proof -
  have r: "0 \<le> dx - sbox_x dst" "dx - sbox_x dst < sbox_w dst" "0 \<le> dy - sbox_y dst" "dy - sbox_y dst < sbox_h dst" "0 \<le> k" "k < bpp"
    using assms(3) by (auto simp: box_rounds_def)
  from pixel_room [OF r(1-4) _ assms(2), of "stride0 dst"] assms(1) r(5,6)
  show "0 \<le> dst_idx dst bpp dx dy + k" "dst_idx dst bpp dx dy + k < sbox_h dst * stride0 dst"
    by (auto simp: dst_idx_def box_ok_def)
  then show "at (base0 dst) (dst_idx dst bpp dx dy + k) \<in> box_area dst" unfolding box_area_def area_def by blast
qed

lemma byte_index_inj:
  assumes "box_ok dst bpp" "0 < bpp" "((dy, dx), k) \<in> box_rounds dst bpp" "((dy', dx'), k') \<in> box_rounds dst bpp"
    "dst_idx dst bpp dx dy + k = dst_idx dst bpp dx' dy' + k'"
  shows "((dy, dx), k) = ((dy', dx'), k')"
proof -
  have r: "0 \<le> dx - sbox_x dst" "dx - sbox_x dst < sbox_w dst" "0 \<le> k" "k < bpp"
    "0 \<le> dx' - sbox_x dst" "dx' - sbox_x dst < sbox_w dst" "0 \<le> k'" "k' < bpp"
    using assms(3,4) by (auto simp: box_rounds_def)
  have "bpp * sbox_w dst \<le> stride0 dst" using assms(1) by (simp add: box_ok_def)
  then have "(dx, dy) = (dx', dy')"
    using pixel_gap [of "dx - sbox_x dst" "dy - sbox_y dst" "dx' - sbox_x dst" "dy' - sbox_y dst" "sbox_w dst" bpp "stride0 dst"]
      r assms(2,5) by (fastforce simp: dst_idx_def)
  then show ?thesis using assms(5) by simp
qed

text \<open>The positions the transforms deliver are 16 bits wide, the weights are below 2^16.\<close>

definition place_ok :: "int \<times> int \<times> int \<times> int \<Rightarrow> bool" where
  "place_ok = (\<lambda>(px, py, xw, yw). - (2 ^ 15) \<le> px \<and> px < 2 ^ 15 \<and> - (2 ^ 15) \<le> py \<and> py < 2 ^ 15 \<and>
     0 \<le> xw \<and> xw < 2 ^ 16 \<and> 0 \<le> yw \<and> yw < 2 ^ 16)"

lemma s16_range: "- (2 ^ 15) \<le> s16 v" "s16 v < 2 ^ 15"
  unfolding s16_def using signed_take_bit_int_less_exp [of 15 v] signed_take_bit_int_greater_eq_minus_exp [of 15 v] by simp_all

lemma split_pos_ok [simp]: "place_ok (split_pos sx sy)"
  using s16_range by (simp add: place_ok_def split_pos_def MAT_ACC_def)

lemma places_ok [simp]:
  "place_ok (perspective_dst2src M dx dy)" "place_ok (affine_dst2src M dx dy)" "place_ok (resize_place coef dx dy)"
  by (simp_all add: perspective_dst2src_def affine_dst2src_def resize_place_def Let_def) (simp add: place_ok_def)

lemma next_in_range: "- (2 ^ 15) \<le> p \<Longrightarrow> p < 2 ^ 15 \<Longrightarrow> 0 \<le> x \<Longrightarrow> x \<le> s16 (p + 1) \<Longrightarrow> s16 (p + 1) = p + 1"
proof -
  assume a: "- (2 ^ 15) \<le> p" "p < 2 ^ 15" "0 \<le> x" "x \<le> s16 (p + 1)"
  have "p \<noteq> 2 ^ 15 - 1" using a(3,4) by (auto simp: s16_def signed_take_bit_eq_take_bit_minus)
  then show ?thesis using a by (intro narrow_id) simp_all
qed

lemma sample_in_area:
  assumes "box_ok src bpp" "0 < bpp" "place_ok pl" "0 \<le> k" "k < bpp" "a \<in> sample_in src bpp pl k"
  shows "a \<in> box_area src"
proof -
  obtain px py xw yw where pl: "pl = (px, py, xw, yw)" by (cases pl)
  let ?x = "sbox_x src" and ?y = "sbox_y src" and ?w = "sbox_w src" and ?h = "sbox_h src"
  have u: "u16 ?x = ?x" "u16 ?y = ?y" "u16 ?w = ?w" "u16 ?h = ?h" "u16 (?w + ?x - 1) = ?w + ?x - 1" "u16 (?h + ?y - 1) = ?h + ?y - 1"
    using assms(1) by (auto simp: box_ok_def intro!: u16_id)
  have p: "- (2 ^ 15) \<le> px" "px < 2 ^ 15" "- (2 ^ 15) \<le> py" "py < 2 ^ 15" "0 \<le> ?x" "0 \<le> ?y"
    using assms(1,3) pl by (auto simp: place_ok_def box_ok_def)
  have inside: "at (base0 src) ((qy - ?y) * stride0 src + (qx - ?x) * bpp + k) \<in> box_area src"
    if "?x \<le> qx" "qx \<le> ?w + ?x - 1" "?y \<le> qy" "qy \<le> ?h + ?y - 1" for qx qy
  proof -
    from pixel_room [of "qx - ?x" ?w "qy - ?y" ?h bpp "stride0 src"] assms(1,2) that
    have "0 \<le> (qy - ?y) * stride0 src + (qx - ?x) * bpp" "(qy - ?y) * stride0 src + (qx - ?x) * bpp + bpp \<le> ?h * stride0 src"
      by (auto simp: box_ok_def)
    then have "0 \<le> (qy - ?y) * stride0 src + (qx - ?x) * bpp + k" "(qy - ?y) * stride0 src + (qx - ?x) * bpp + k < ?h * stride0 src"
      using assms(4,5) by simp_all
    then show ?thesis unfolding box_area_def area_def by blast
  qed
  have nx: "s16 (px + 1) = px + 1" if "?x \<le> s16 (px + 1)" using next_in_range [OF p(1,2,5) that] .
  have ny: "s16 (py + 1) = py + 1" if "?y \<le> s16 (py + 1)" using next_in_range [OF p(3,4,6) that] .
  have idx: "p00_idx src bpp px py + k + bpp = (py - ?y) * stride0 src + (px + 1 - ?x) * bpp + k"
    "p00_idx src bpp px py + k + stride0 src = (py + 1 - ?y) * stride0 src + (px - ?x) * bpp + k"
    "p00_idx src bpp px py + k + stride0 src + bpp = (py + 1 - ?y) * stride0 src + (px + 1 - ?x) * bpp + k"
    by (simp_all add: p00_idx_def algebra_simps)
  have i0: "at (base0 src) (p00_idx src bpp px py + k) \<in> box_area src" if "?x \<le> px" "px \<le> ?w + ?x - 1" "?y \<le> py" "py \<le> ?h + ?y - 1"
    using inside [OF that] by (simp add: p00_idx_def)
  have i1: "at (base0 src) (p00_idx src bpp px py + k + bpp) \<in> box_area src"
    if "?x \<le> s16 (px + 1)" "s16 (px + 1) \<le> ?w + ?x - 1" "?y \<le> py" "py \<le> ?h + ?y - 1"
    unfolding idx using inside [of "px + 1" py] that nx by simp
  have i2: "at (base0 src) (p00_idx src bpp px py + k + stride0 src) \<in> box_area src"
    if "?x \<le> px" "px \<le> ?w + ?x - 1" "?y \<le> s16 (py + 1)" "s16 (py + 1) \<le> ?h + ?y - 1"
    unfolding idx using inside [of px "py + 1"] that ny by simp
  have i3: "at (base0 src) (p00_idx src bpp px py + k + stride0 src + bpp) \<in> box_area src"
    if "?x \<le> s16 (px + 1)" "s16 (px + 1) \<le> ?w + ?x - 1" "?y \<le> s16 (py + 1)" "s16 (py + 1) \<le> ?h + ?y - 1"
    unfolding idx(3) using inside [of "px + 1" "py + 1"] that nx ny by simp
  show ?thesis using assms(6) unfolding pl sample_in_def box_bound_check_def bilinear_bound_check_def prod.case Let_def u
    using i0 i1 i2 i3 by (auto simp: not_less split: if_splits)
qed

lemma byte_apart:
  assumes "boxes_ok src dst bpp" "0 < bpp" "\<And>dx dy. place_ok (place dx dy)"
  shows "rounds_apart (byte_out dst bpp) (byte_in src bpp place) (box_rounds dst bpp)"
  unfolding rounds_apart_def
proof (intro conjI ballI impI)
  have b: "box_ok src bpp" "box_ok dst bpp" "box_area src \<inter> box_area dst = {}" "sbox_h dst * stride0 dst \<le> 2 ^ 32"
    using assms(1) by (simp_all add: boxes_ok_def box_ok_def)
  fix c d assume cd: "c \<in> box_rounds dst bpp" "d \<in> box_rounds dst bpp"
  obtain dy dx k dy' dx' k' where c: "c = ((dy, dx), k)" and d: "d = ((dy', dx'), k')" by (metis prod.collapse)
  note ic = byte_index [OF b(2) assms(2) cd(1) [unfolded c]] and id = byte_index [OF b(2) assms(2) cd(2) [unfolded d]]
  show "byte_out dst bpp c \<inter> byte_out dst bpp d = {}" if "c \<noteq> d"
  proof -
    have "dst_idx dst bpp dx dy + k \<noteq> dst_idx dst bpp dx' dy' + k'"
      using byte_index_inj [OF b(2) assms(2) cd [unfolded c d]] that unfolding c d by blast
    moreover have "dst_idx dst bpp dx dy + k < 2 ^ 32" "dst_idx dst bpp dx' dy' + k' < 2 ^ 32" using ic(2) id(2) b(4) by linarith+
    ultimately have "at (base0 dst) (dst_idx dst bpp dx dy + k) \<noteq> at (base0 dst) (dst_idx dst bpp dx' dy' + k')"
      using at_inj ic(1) id(1) by blast
    then show ?thesis unfolding c d by (simp add: byte_out_def)
  qed
  have "0 \<le> k" "k < bpp" using cd(1) c by (auto simp: box_rounds_def)
  then have "byte_in src bpp place c \<subseteq> box_area src"
    using sample_in_area [OF b(1) assms(2,3)] unfolding c by (auto simp: byte_in_def)
  then show "byte_in src bpp place c \<inter> byte_out dst bpp d = {}" using id(3) b(3) unfolding d by (auto simp: byte_out_def)
qed

section \<open>What the routines write\<close>

text \<open>All bytes of the box, each from the memory before; nothing else.\<close>

definition filled :: "bs_box \<Rightarrow> bs_box \<Rightarrow> u8 \<Rightarrow> bool \<Rightarrow> u8 \<Rightarrow> (int \<Rightarrow> int \<Rightarrow> int \<times> int \<times> int \<times> int) \<Rightarrow> mem \<Rightarrow> mem \<Rightarrow> bool" where
  "filled src dst zero_point is_abgr_order nv2bgr_alpha place m m' \<longleftrightarrow>
     (\<forall>dy dx k. ((dy, dx), k) \<in> box_rounds dst 4 \<longrightarrow> m' (at (base0 dst) (dst_idx dst 4 dx dy + k)) =
        (if is_alpha is_abgr_order k then nv2bgr_alpha else sample src zero_point bilinear_u8 4 (place dx dy) k m)) \<and>
     (\<forall>a. a \<notin> box_area dst \<longrightarrow> m' a = m a)"

lemma rgb_filled:
  assumes "boxes_ok src dst 4" "\<And>dx dy. place_ok (place dx dy)" "set cs = box_rounds dst 4" "distinct cs"
  shows "filled src dst z abgr al place m (fold (rgb_byte src dst z abgr al place) cs m)"
  unfolding filled_def
proof (intro conjI allI impI)
  have ap: "rounds_apart (byte_out dst 4) (byte_in src 4 place) (set cs)" unfolding assms(3) by (rule byte_apart [OF assms(1) _ assms(2)]) simp
  fix dy dx k assume r: "((dy, dx), k) \<in> box_rounds dst 4"
  have "fold (rgb_byte src dst z abgr al place) cs m (at (base0 dst) (dst_idx dst 4 dx dy + k)) =
      rgb_byte src dst z abgr al place ((dy, dx), k) m (at (base0 dst) (dst_idx dst 4 dx dy + k))"
    by (rule rgb.paint_value [OF assms(4) ap]) (use r assms(3) in \<open>simp_all add: byte_out_def\<close>)
  then show "fold (rgb_byte src dst z abgr al place) cs m (at (base0 dst) (dst_idx dst 4 dx dy + k)) =
      (if is_alpha abgr k then al else sample src z bilinear_u8 4 (place dx dy) k m)" by (simp add: rgb_byte_def)
next
  fix a assume a: "a \<notin> box_area dst"
  have "box_ok dst 4" using assms(1) by (simp add: boxes_ok_def)
  then have "a \<notin> byte_out dst 4 c" if "c \<in> set cs" for c
    using byte_index(3) [of dst 4 "fst (fst c)" "snd (fst c)" "snd c"] that assms(3) a by (cases c) (auto simp: byte_out_def)
  then show "fold (rgb_byte src dst z abgr al place) cs m a = m a" by (rule rgb.paint_frame)
qed

text \<open>The two orders of the loops do not matter, and on an affine matrix the perspective routine does
  the same as the affine one.\<close>

theorem affine_is_perspective:
  assumes "boxes_ok src dst 4" "\<not> is_perspective M" "\<And>i. i < 6 \<Longrightarrow> - (2 ^ 31) \<le> M ! i \<and> M ! i < 2 ^ 31"
  shows "bs_perspective_box_rgb_simple src dst M z abgr al m = Inr (bs_affine_box_rgb src dst M z abgr al m)"
proof -
  have b: "box_ok dst 4" using assms(1) by (simp add: boxes_ok_def)
  obtain cs where cs: "for_yx dst = Some cs" using for_yx_ok [OF b] by blast
  have rounds: "set (List.product cs [0 .. 3]) = box_rounds dst 4" "distinct (List.product cs [0 .. 3])"
    using yx_rounds [OF b cs, of 4] by simp_all
  have "fold (rgb_byte src dst z abgr al (perspective_dst2src M)) (List.product cs [0 .. 3]) m =
      fold (rgb_byte src dst z abgr al (affine_dst2src M)) (List.product cs [0 .. 3]) m"
  proof (rule fold_paint_cong)
    fix c m' assume c: "c \<in> set (List.product cs [0 .. 3])"
    obtain dy dx k where c': "c = ((dy, dx), k)" by (metis prod.collapse)
    have "0 \<le> dx" "dx < 2 ^ 15" "0 \<le> dy" "dy < 2 ^ 15"
      using c b unfolding rounds(1) c' by (auto simp: box_rounds_def box_ok_def)
    from perspective_affine [OF assms(2) this assms(3)]
    show "rgb_byte src dst z abgr al (perspective_dst2src M) c m' = rgb_byte src dst z abgr al (affine_dst2src M) c m'"
      by (simp add: c' rgb_byte_def)
  qed
  also have "\<dots> = bs_affine_box_rgb src dst M z abgr al m" unfolding bs_affine_box_rgb_def
  proof (rule rgb.paint_order)
    show "rounds_apart (byte_out dst 4) (byte_in src 4 (affine_dst2src M)) (set (List.product cs [0 .. 3]))"
      unfolding rounds(1) by (rule byte_apart [OF assms(1)]) simp_all
  qed (use rounds affine_rounds_ok [OF b] in simp_all)
  finally show ?thesis by (simp add: bs_perspective_box_rgb_simple_def cs)
qed

text \<open>A resize of four-byte pixels is the affine warp by a diagonal matrix, as long as its 32-bit products
  do not overflow.\<close>

theorem resize_is_affine:
  assumes "boxes_ok src dst 4"
    "\<And>d. sbox_x dst \<le> d \<and> d < sbox_x dst + sbox_w dst \<Longrightarrow> - (2 ^ 31) \<le> d * cx + tx \<and> d * cx + tx < 2 ^ 31"
    "\<And>d. sbox_y dst \<le> d \<and> d < sbox_y dst + sbox_h dst \<Longrightarrow> - (2 ^ 31) \<le> d * cy + ty \<and> d * cy + ty < 2 ^ 31"
  shows "bs_resize_chn_base src dst 4 [cx, cy, tx, ty] z abgr al m =
    Inr (bs_affine_box_rgb src dst [cx, 0, tx, 0, cy, ty, 0, 0, 2 ^ 16] z abgr al m)"
proof -
  let ?M = "[cx, 0, tx, 0, cy, ty, 0, 0, 2 ^ 16]"
  have b: "box_ok dst 4" using assms(1) by (simp add: boxes_ok_def)
  obtain cs where cs: "for_yx dst = Some cs" using for_yx_ok [OF b] by blast
  have rounds: "set (List.product cs [0 .. 3]) = box_rounds dst 4" "distinct (List.product cs [0 .. 3])"
    using yx_rounds [OF b cs, of 4] by simp_all
  have "fold (resize_byte src dst 4 [cx, cy, tx, ty] z abgr al) (List.product cs [0 .. 3]) m =
      fold (rgb_byte src dst z abgr al (affine_dst2src ?M)) (List.product cs [0 .. 3]) m"
  proof (rule fold_paint_cong)
    fix c m' assume c: "c \<in> set (List.product cs [0 .. 3])"
    obtain dy dx k where c': "c = ((dy, dx), k)" by (metis prod.collapse)
    have d: "sbox_x dst \<le> dx \<and> dx < sbox_x dst + sbox_w dst" "sbox_y dst \<le> dy \<and> dy < sbox_y dst + sbox_h dst"
      using c unfolding rounds(1) c' by (auto simp: box_rounds_def)
    note rx = assms(2) [OF d(1)] and ry = assms(3) [OF d(2)]
    have "resize_place [cx, cy, tx, ty] dx dy = affine_dst2src ?M dx dy"
      using rx ry by (simp add: resize_place_def affine_dst2src_def narrow_id clip_s32_id mult.commute)
    moreover have "bilinear_bpp 4 = bilinear_u8" by (simp add: bilinear_bpp_def fun_eq_iff)
    ultimately show "resize_byte src dst 4 [cx, cy, tx, ty] z abgr al c m' = rgb_byte src dst z abgr al (affine_dst2src ?M) c m'"
      by (simp add: c' rgb_byte_def resize_byte_def)
  qed
  also have "\<dots> = bs_affine_box_rgb src dst ?M z abgr al m" unfolding bs_affine_box_rgb_def
  proof (rule rgb.paint_order)
    show "rounds_apart (byte_out dst 4) (byte_in src 4 (affine_dst2src ?M)) (set (List.product cs [0 .. 3]))"
      unfolding rounds(1) by (rule byte_apart [OF assms(1)]) simp_all
  qed (use rounds affine_rounds_ok [OF b] in simp_all)
  finally show ?thesis by (simp add: bs_resize_chn_base_def cs)
qed

definition sample_box :: "u32 \<Rightarrow> bs_box" where
  "sample_box b = \<lparr>base0 = b, base1 = 0, stride0 = 16, stride1 = 0, sbox_x = 0, sbox_y = 0, sbox_w = 4, sbox_h = 2, bx_format = 1, bx_chn = 4\<rparr>"

lemma sample_boxes: "boxes_ok (sample_box 0x1000) (sample_box 0x2000) 4"
proof -
  have "area 0x1000 32 \<inter> area 0x2000 32 = {}" by (rule area_disjoint) simp_all
  then show ?thesis by (simp add: boxes_ok_def box_ok_def box_area_def sample_box_def)
qed

theorem affine_is_perspective_witness:
  "bs_perspective_box_rgb_simple (sample_box 0x1000) (sample_box 0x2000) [2 ^ 16, 0, 0, 0, 2 ^ 16, 0, 0, 0, 2 ^ 16] 0 False 0xFF (\<lambda>a. ucast a) =
   Inr (bs_affine_box_rgb (sample_box 0x1000) (sample_box 0x2000) [2 ^ 16, 0, 0, 0, 2 ^ 16, 0, 0, 0, 2 ^ 16] 0 False 0xFF (\<lambda>a. ucast a))"
proof (rule affine_is_perspective [OF sample_boxes])
  fix i :: nat assume "i < 6"
  then have "i = 0 \<or> i = 1 \<or> i = 2 \<or> i = 3 \<or> i = 4 \<or> i = 5" by linarith
  then show "- (2 ^ 31) \<le> [2 ^ 16, 0, 0, 0, 2 ^ 16, 0, 0, 0, 2 ^ 16 :: int] ! i \<and> [2 ^ 16, 0, 0, 0, 2 ^ 16, 0, 0, 0, 2 ^ 16 :: int] ! i < 2 ^ 31"
    by auto
qed (simp add: is_perspective_def MAT_ACC_def)

theorem resize_is_affine_witness:
  "bs_resize_chn_base (sample_box 0x1000) (sample_box 0x2000) 4 [2 ^ 15, 2 ^ 16, 0, 0] 0 False 0xFF (\<lambda>a. ucast a) =
   Inr (bs_affine_box_rgb (sample_box 0x1000) (sample_box 0x2000) [2 ^ 15, 0, 0, 0, 2 ^ 16, 0, 0, 0, 2 ^ 16] 0 False 0xFF (\<lambda>a. ucast a))"
  by (rule resize_is_affine [OF sample_boxes]) (auto simp: sample_box_def)

lemma inside_box:
  assumes "box_ok src bpp" "sbox_x src \<le> px" "px < sbox_x src + sbox_w src" "sbox_y src \<le> py" "py < sbox_y src + sbox_h src"
  shows "fst (box_bound_check src px py) = False"
proof -
  have "u16 (sbox_x src) = sbox_x src" "u16 (sbox_y src) = sbox_y src" "u16 (sbox_w src) = sbox_w src" "u16 (sbox_h src) = sbox_h src"
    "u16 (sbox_w src + sbox_x src - 1) = sbox_w src + sbox_x src - 1" "u16 (sbox_h src + sbox_y src - 1) = sbox_h src + sbox_y src - 1"
    using assms(1) by (auto simp: box_ok_def intro!: u16_id)
  then show ?thesis using assms(2-5) by (simp add: box_bound_check_def bilinear_bound_check_def Let_def)
qed

lemma identity_copied:
  assumes "boxes_ok src dst 4" "sbox_x src = sbox_x dst + ox" "sbox_y src = sbox_y dst + oy" "sbox_w src = sbox_w dst" "sbox_h src = sbox_h dst"
    "((dy, dx), k) \<in> box_rounds dst 4" "\<not> is_alpha abgr k"
  shows "bs_affine_box_rgb src dst [2 ^ 16, 0, ox * 2 ^ 16, 0, 2 ^ 16, oy * 2 ^ 16, 0, 0, 2 ^ 16] z abgr al m
      (at (base0 dst) (dst_idx dst 4 dx dy + k)) = m (at (base0 src) (dst_idx src 4 (dx + ox) (dy + oy) + k))"
proof -
  let ?M = "[2 ^ 16, 0, ox * 2 ^ 16, 0, 2 ^ 16, oy * 2 ^ 16, 0, 0, 2 ^ 16]"
  have b: "box_ok src 4" "box_ok dst 4" using assms(1) by (simp_all add: boxes_ok_def)
  have d: "sbox_x src \<le> dx + ox" "dx + ox < sbox_x src + sbox_w src" "sbox_y src \<le> dy + oy" "dy + oy < sbox_y src + sbox_h src"
    using assms(2-6) by (auto simp: box_rounds_def)
  then have r: "0 \<le> dx + ox" "dx + ox < 2 ^ 15" "0 \<le> dy + oy" "dy + oy < 2 ^ 15" using b(1) by (simp_all add: box_ok_def)
  have "affine_dst2src ?M dx dy = split_pos (clip_s32 ((dx + ox) * 2 ^ 16)) (clip_s32 ((dy + oy) * 2 ^ 16))"
    by (simp add: affine_dst2src_def Let_def algebra_simps)
  also have "\<dots> = (dx + ox, dy + oy, 0, 0)" using r by (simp add: clip_s32_id split_pos_def MAT_ACC_def narrow_id)
  finally have pl: "affine_dst2src ?M dx dy = (dx + ox, dy + oy, 0, 0)" .
  obtain o0 o1 o2 o3 where o: "box_bound_check src (dx + ox) (dy + oy) = (o0, o1, o2, o3)" by (metis prod.collapse)
  then have "\<not> o0" using inside_box [OF b(1) d] by simp
  then have s: "sample src z bilinear_u8 4 (affine_dst2src ?M dx dy) k m = m (at (base0 src) (p00_idx src 4 (dx + ox) (dy + oy) + k))"
    unfolding pl by (simp add: sample_def o neighbour_def Let_def)
  have "filled src dst z abgr al (affine_dst2src ?M) m (bs_affine_box_rgb src dst ?M z abgr al m)"
    unfolding bs_affine_box_rgb_def by (rule rgb_filled [OF assms(1)]) (use affine_rounds_ok [OF b(2)] in simp_all)
  then show ?thesis using assms(6,7) s by (simp add: filled_def p00_idx_def dst_idx_def)
qed

text \<open>The identity matrix, moved by whole pixels, copies the box.\<close>

theorem warp_identity_copies:
  assumes "boxes_ok src dst 4" "sbox_x src = sbox_x dst + ox" "sbox_y src = sbox_y dst + oy" "sbox_w src = sbox_w dst" "sbox_h src = sbox_h dst"
    "((dy, dx), k) \<in> box_rounds dst 4" "\<not> is_alpha abgr k"
  shows "bs_affine_box_rgb src dst [2 ^ 16, 0, ox * 2 ^ 16, 0, 2 ^ 16, oy * 2 ^ 16, 0, 0, 2 ^ 16] z abgr al m
      (at (base0 dst) (dst_idx dst 4 dx dy + k)) = m (at (base0 src) (dst_idx src 4 (dx + ox) (dy + oy) + k))"
  using assms by (rule identity_copied)

theorem warp_identity_copies_witness:
  "bs_affine_box_rgb (sample_box 0x1000) (sample_box 0x2000) [2 ^ 16, 0, 0, 0, 2 ^ 16, 0, 0, 0, 2 ^ 16] 0 False 0xFF (\<lambda>a. ucast a)
    (at 0x2000 (1 * 16 + 3 * 4 + 2)) = ucast (at 0x1000 (1 * 16 + 3 * 4 + 2) :: u32)"
  using warp_identity_copies [OF sample_boxes, of 0 0 1 3 2 False 0 "0xFF" "\<lambda>a. ucast a"]
  by (simp add: sample_box_def dst_idx_def box_rounds_def is_alpha_def)

end
