(* ===== verification/MdlWalk.thy ===== *)
theory MdlWalk
  imports MdlWarp "HOL-Library.Multiset" "HOL-Library.Sublist"
begin

text \<open>
  The order in which the scaler's hardware fills a box, as the software model follows it
  (\<open>bs_affine_box_rgb_complex\<close> of \<open>bscaler/source/model/bscaler_mdl.c\<close>): up to 64 columns, each with a current
  pixel; the next pixel is the one whose source place comes first, row before column. The code counts
  how often each pixel is filled and complains unless it is once.
\<close>

section \<open>The columns\<close>

definition OBOX_SIZE :: nat where "OBOX_SIZE = 64"

type_synonym point = "int \<times> int"

text \<open>\<open>point_min\<close>: whether the first of the two is taken.\<close>

definition point_min :: "point \<Rightarrow> point \<Rightarrow> bool \<Rightarrow> bool \<Rightarrow> bool" where
  "point_min p0 p1 x_mono y_mono =
     (let y0 = snd p0 div 2 ^ MAT_ACC; y1 = snd p1 div 2 ^ MAT_ACC;
          x0 = fst p0 div 2 ^ MAT_ACC; x1 = fst p1 div 2 ^ MAT_ACC;
          inverse_x0 = if x_mono \<noteq> y_mono then - x0 else x0;
          inverse_x1 = if x_mono \<noteq> y_mono then - x1 else x1
      in if y0 > y1 then False else if y0 < y1 then True else inverse_x0 < inverse_x1)"

text \<open>\<open>get_min_point\<close>: the first component is the column of \<open>min\<close>, if one was found.\<close>

definition min_round :: "point list \<Rightarrow> bool list \<Rightarrow> bool \<Rightarrow> bool \<Rightarrow> nat \<Rightarrow> nat option \<times> nat \<Rightarrow> nat option \<times> nat" where
  "min_round points msk x_mono y_mono i = (\<lambda>(mn, idx).
     let mn = (if \<not> msk ! i
               then case mn of None \<Rightarrow> Some i
                    | Some j \<Rightarrow> if point_min (points ! i) (points ! j) x_mono y_mono then Some i else Some j
               else mn)
     in (mn, if mn = Some i then i else idx))"

definition get_min_point :: "point list \<Rightarrow> bool list \<Rightarrow> bool \<Rightarrow> bool \<Rightarrow> nat" where
  "get_min_point points msk x_mono y_mono = snd (fold (min_round points msk x_mono y_mono) [0 ..< OBOX_SIZE] (None, 0))"

lemma get_min_point_unmasked:
  assumes "i < OBOX_SIZE" "\<not> msk ! i"
  shows "get_min_point points msk x_mono y_mono < OBOX_SIZE" "\<not> msk ! get_min_point points msk x_mono y_mono"
proof -
  let ?r = "\<lambda>n. fold (min_round points msk x_mono y_mono) [0 ..< n] (None, 0)"
  have inv: "(case fst (?r n) of None \<Rightarrow> (\<forall>j < n. msk ! j) | Some j \<Rightarrow> snd (?r n) = j \<and> j < n \<and> \<not> msk ! j)" for n
  proof (induction n)
    case (Suc n)
    obtain mn idx where r: "?r n = (mn, idx)" by (cases "?r n")
    then have "?r (Suc n) = min_round points msk x_mono y_mono n (mn, idx)" by simp
    with Suc [unfolded r] show ?case unfolding fst_conv snd_conv
      by (simp only:) (auto simp: min_round_def Let_def less_Suc_eq split: option.splits if_splits)
  qed simp
  from inv [of OBOX_SIZE] assms show "get_min_point points msk x_mono y_mono < OBOX_SIZE" "\<not> msk ! get_min_point points msk x_mono y_mono"
    by (auto simp: get_min_point_def split: option.splits)
qed

section \<open>The affine walk\<close>

text \<open>\<open>dst_col_point_init_affine\<close>: where column \<open>i\<close> begins, and which columns there are.\<close>

definition affine_col_point :: "bool \<Rightarrow> bool \<Rightarrow> bs_box \<Rightarrow> nat \<Rightarrow> point" where
  "affine_col_point x_increase y_increase dst i =
     (let x = sbox_x dst; y = sbox_y dst; w = sbox_w dst; h = sbox_h dst; i = int i in
      if i < w
      then (if x_increase then i + x else w - 1 - i + x, if y_increase then y else h - 1 + y)
      else (x, if y_increase then int OBOX_SIZE - 1 + y else y))"

definition affine_dst2src_64 :: "int list \<Rightarrow> point \<Rightarrow> point" where
  "affine_dst2src_64 M = (\<lambda>(dx, dy). (clip_s32 (M ! 0 * dx + M ! 1 * dy + M ! 2), clip_s32 (M ! 3 * dx + M ! 4 * dy + M ! 5)))"

record walk =
  wk_dst :: "point list"
  wk_src :: "point list"
  wk_mask :: "bool list"
  wk_hit :: "int \<Rightarrow> int \<Rightarrow> nat"
  wk_mem :: mem

text \<open>The bytes of the pixel at hand, with a test of which neighbours lie outside. The affine walk tests the box as it is,
  not 16 bits of it.\<close>

definition affine_check :: "bs_box \<Rightarrow> int \<Rightarrow> int \<Rightarrow> bool \<times> bool \<times> bool \<times> bool" where
  "affine_check src sx_p sy_p = bilinear_bound_check (sbox_x src) (sbox_y src) (sbox_w src) (sbox_h src) sx_p sy_p"

definition walk_byte :: "(int \<Rightarrow> int \<Rightarrow> bool \<times> bool \<times> bool \<times> bool) \<Rightarrow> bs_box \<Rightarrow> bs_box \<Rightarrow> u8 \<Rightarrow> bool \<Rightarrow> u8 \<Rightarrow> point \<Rightarrow> point \<Rightarrow> int \<Rightarrow> mem \<Rightarrow> mem" where
  "walk_byte check src dst zero_point is_abgr_order nv2bgr_alpha = (\<lambda>(dx, dy) (sx, sy) k m.
     let (sx_p, sy_p, sx_w, sy_w) = split_pos sx sy;
         (o0, o1, o2, o3) = check sx_p sy_p;
         p00 = p00_idx src 4 sx_p sy_p + k;
         val = bilinear_u8 (neighbour src zero_point o0 p00 m) (neighbour src zero_point o1 (p00 + 4) m)
           (neighbour src zero_point o2 (p00 + stride0 src) m) (neighbour src zero_point o3 (p00 + stride0 src + 4) m) sx_w sy_w
     in m(at (base0 dst) (dst_idx dst 4 dx dy + k) := if is_alpha is_abgr_order k then nv2bgr_alpha else val))"

definition col_point_update_affine :: "bs_box \<Rightarrow> int list \<Rightarrow> nat \<Rightarrow> walk \<Rightarrow> walk" where
  "col_point_update_affine dst M idx s =
     (let y_increase = M ! 4 > 0; (x, y) = wk_dst s ! idx; masked = wk_mask s ! idx;
          y = (if \<not> masked then if y_increase then y + 1 else y - 1 else y);
          masked = (masked \<or> (if y_increase then y = sbox_y dst + sbox_h dst else y = sbox_y dst - 1))
      in s\<lparr>wk_dst := (wk_dst s)[idx := (x, y)], wk_mask := (wk_mask s)[idx := masked],
           wk_src := (if masked then wk_src s else (wk_src s)[idx := affine_dst2src_64 M (x, y)])\<rparr>)"

definition affine_walk_round :: "bs_box \<Rightarrow> bs_box \<Rightarrow> int list \<Rightarrow> u8 \<Rightarrow> bool \<Rightarrow> u8 \<Rightarrow> walk \<Rightarrow> walk" where
  "affine_walk_round src dst M zero_point is_abgr_order nv2bgr_alpha s =
     (let idx = get_min_point (wk_src s) (wk_mask s) (M ! 1 > 0) (M ! 4 > 0);
          (dx, dy) = wk_dst s ! idx;
          hit_x = dx - sbox_x dst; hit_y = dy - sbox_y dst;
          m = fold (walk_byte (affine_check src) src dst zero_point is_abgr_order nv2bgr_alpha (dx, dy) (wk_src s ! idx)) [0 .. 3] (wk_mem s)
      in col_point_update_affine dst M idx
           (s\<lparr>wk_hit := (wk_hit s)(hit_x := (wk_hit s hit_x)(hit_y := Suc (wk_hit s hit_x hit_y))), wk_mem := m\<rparr>))"

definition affine_walk_start :: "bs_box \<Rightarrow> int list \<Rightarrow> mem \<Rightarrow> walk" where
  "affine_walk_start dst M m =
     (let ds = map (affine_col_point (M ! 1 > 0) (M ! 4 > 0) dst) [0 ..< OBOX_SIZE]
      in \<lparr>wk_dst = ds, wk_src = map (affine_dst2src_64 M) ds,
          wk_mask = map (\<lambda>i. int i \<ge> sbox_w dst) [0 ..< OBOX_SIZE], wk_hit = (\<lambda>_ _. 0), wk_mem = m\<rparr>)"

text \<open>The pixels the final check complains about.\<close>

definition bad_hits :: "bs_box \<Rightarrow> (int \<Rightarrow> int \<Rightarrow> nat) \<Rightarrow> (int \<times> int) list" where
  "bad_hits dst hit = filter (\<lambda>(y, x). hit x y \<noteq> 1) (List.product [0 .. sbox_h dst - 1] [0 .. sbox_w dst - 1])"

text \<open>The walk of one box. What it prints on the way (that source places come in the wrong order, or that a hit lies outside) is
  left out; it changes nothing else. The pixels its last check complains about are a result.\<close>

definition bs_affine_box_rgb_complex :: "bs_box \<Rightarrow> bs_box \<Rightarrow> int list \<Rightarrow> u8 \<Rightarrow> bool \<Rightarrow> u8 \<Rightarrow> mem \<Rightarrow> mdl_stop + ((int \<times> int) list \<times> mem)" where
  "bs_affine_box_rgb_complex src dst M zero_point is_abgr_order nv2bgr_alpha m =
     (if sbox_w dst > 64 \<or> sbox_h dst > 64 then Inl Assertion_fails
      else let s = (affine_walk_round src dst M zero_point is_abgr_order nv2bgr_alpha ^^ nat (sbox_w dst * sbox_h dst)) (affine_walk_start dst M m)
           in Inr (bad_hits dst (wk_hit s), wk_mem s))"

section \<open>Columns that are emptied one pixel at a time\<close>

text \<open>Every round takes the first of the remaining rows of some column that has one. After as many rounds as
  there are pixels every pixel was taken once, whatever the choice of columns.\<close>

definition col_pixels :: "('i \<Rightarrow> 'x) \<Rightarrow> 'i set \<Rightarrow> ('i \<Rightarrow> 'y list) \<Rightarrow> ('y \<times> 'x) multiset" where
  "col_pixels X S rem = (\<Sum>i \<in> S. image_mset (\<lambda>y. (y, X i)) (mset (rem i)))"

lemma col_pixels_take:
  assumes "finite S" "i \<in> S" "rem i = y # ys"
  shows "col_pixels X S rem = add_mset (y, X i) (col_pixels X S (rem(i := ys)))"
proof -
  have a: "col_pixels X S r = image_mset (\<lambda>y. (y, X i)) (mset (r i)) + col_pixels X (S - {i}) r" for r :: "'a \<Rightarrow> 'b list"
    unfolding col_pixels_def by (rule sum.remove [OF assms(1,2)])
  have "col_pixels X (S - {i}) (rem(i := ys)) = col_pixels X (S - {i}) rem"
    unfolding col_pixels_def by (rule sum.cong) auto
  then show ?thesis using assms(3) a [of rem] a [of "rem(i := ys)"] by simp
qed

lemma col_pixels_size: "size (col_pixels X S rem) = (\<Sum>i \<in> S. length (rem i))"
  by (cases "finite S") (simp_all add: col_pixels_def size_multiset_sum)

fun walk_rounds :: "nat \<Rightarrow> ('s \<Rightarrow> mdl_stop + 's) \<Rightarrow> 's \<Rightarrow> mdl_stop + 's" where
  "walk_rounds 0 f s = Inr s"
| "walk_rounds (Suc n) f s = (case f s of Inl e \<Rightarrow> Inl e | Inr s' \<Rightarrow> walk_rounds n f s')"

lemma walk_rounds_total: "walk_rounds n (\<lambda>s. Inr (g s)) s = Inr ((g ^^ n) s)"
  by (induction n arbitrary: s) (simp_all add: funpow_swap1)

lemma walk_all:
  assumes "finite S"
    and step: "\<And>s rem vs. Rel s rem vs \<Longrightarrow> \<exists>i \<in> S. rem i \<noteq> [] \<Longrightarrow>
      \<exists>s' i y ys. i \<in> S \<and> rem i = y # ys \<and> f s = Inr s' \<and> Rel s' (rem(i := ys)) (vs @ [(y, X i)])"
    and "Rel s rem vs" "n = size (col_pixels X S rem)"
  shows "\<exists>s' rem' vs'. walk_rounds n f s = Inr s' \<and> Rel s' rem' vs' \<and> mset vs' = mset vs + col_pixels X S rem \<and>
    (\<forall>i \<in> S. rem' i = []) \<and> (\<forall>i. i \<notin> S \<longrightarrow> rem' i = rem i)"
  using assms(3,4)
proof (induction n arbitrary: s rem vs)
  case 0
  then have "col_pixels X S rem = {#}" by simp
  moreover have "\<forall>i \<in> S. rem i = []" using 0 assms(1) by (simp add: col_pixels_size)
  ultimately show ?case using 0(1) by (intro exI [of _ s] exI [of _ rem] exI [of _ vs]) simp
next
  case (Suc n)
  have "\<exists>i \<in> S. rem i \<noteq> []"
  proof (rule ccontr)
    assume "\<not> (\<exists>i \<in> S. rem i \<noteq> [])"
    then have "size (col_pixels X S rem) = 0" by (simp add: col_pixels_size)
    then show False using Suc.prems(2) by simp
  qed
  from step [OF Suc.prems(1) this] obtain s1 i y ys where i: "i \<in> S" "rem i = y # ys" "f s = Inr s1" "Rel s1 (rem(i := ys)) (vs @ [(y, X i)])" by blast
  have t: "col_pixels X S rem = add_mset (y, X i) (col_pixels X S (rem(i := ys)))"
    by (rule col_pixels_take) (use assms(1) i in simp_all)
  then have "n = size (col_pixels X S (rem(i := ys)))" using Suc.prems(2) by simp
  from Suc.IH [OF i(4) this] obtain s' rem' vs' where r: "walk_rounds n f s1 = Inr s'" "Rel s' rem' vs'"
    "mset vs' = mset (vs @ [(y, X i)]) + col_pixels X S (rem(i := ys))" "\<forall>j \<in> S. rem' j = []" "\<forall>j. j \<notin> S \<longrightarrow> rem' j = (rem(i := ys)) j" by blast
  have "\<forall>j. j \<notin> S \<longrightarrow> rem' j = rem j" using r(5) i(1) by auto
  with r t i(3) show ?case by (intro exI [of _ s'] exI [of _ rem'] exI [of _ vs']) simp
qed

lemma col_pixels_list:
  "col_pixels X {..<n} (\<lambda>i. if i < n then rows i else []) = mset (concat (map (\<lambda>i. map (\<lambda>y. (y, X i)) (rows i)) [0 ..< n]))"
proof -
  have "(\<Sum>i < m. image_mset (\<lambda>y. (y, X i)) (mset (rows i))) = mset (concat (map (\<lambda>i. map (\<lambda>y. (y, X i)) (rows i)) [0 ..< m]))" for m
    by (induction m) (simp_all add: add.commute)
  then show ?thesis by (simp add: col_pixels_def)
qed

lemma product_append: "List.product (xs @ ys) zs = List.product xs zs @ List.product ys zs"
  by (induction xs) simp_all

lemma fold_product_last: "fold f (List.product (vs @ [v]) ks) m = fold (\<lambda>k. f (v, k)) ks (fold f (List.product vs ks) m)"
  by (simp add: product_append fold_map comp_def)

lemma last_upto_id: "a \<le> b \<Longrightarrow> List.last [a .. b] = b"
  by (simp add: upto_rec2)

lemma hd_upto: "a \<le> b \<Longrightarrow> hd [a .. b] = (a :: int)"
  by (simp add: upto_rec1)

text \<open>Rows in rising or falling order, and what comes after one of them.\<close>

lemma rising_next:
  assumes "suffix (y # ys) [a .. b]"
  shows "ys = [] \<longleftrightarrow> y = b" "ys \<noteq> [] \<Longrightarrow> hd ys = y + 1"
proof -
  obtain zs where z: "[a .. b] = zs @ y # ys" using assms by (auto simp: suffix_def)
  have l: "length [a .. b] = Suc (length zs + length ys)" unfolding z by simp
  have "[a .. b] ! length zs = y" unfolding z by simp
  then have y: "y = a + int (length zs)" using l by (simp add: nth_upto)
  have "int (length zs) + int (length ys) + 1 = b - a + 1" using l by simp
  then show "ys = [] \<longleftrightarrow> y = b" using y by auto
  assume ys: "ys \<noteq> []"
  have "[a .. b] ! Suc (length zs) = hd ys" unfolding z using ys by (simp add: nth_append hd_conv_nth)
  moreover have "Suc (length zs) < length [a .. b]" using l ys by simp
  ultimately show "hd ys = y + 1" using y l ys by (simp add: nth_upto)
qed

lemma falling_next:
  assumes "suffix (y # ys) (rev [a .. b])"
  shows "ys = [] \<longleftrightarrow> y = a" "ys \<noteq> [] \<Longrightarrow> hd ys = y - 1"
proof -
  obtain zs where "rev [a .. b] = zs @ y # ys" using assms by (auto simp: suffix_def)
  then have z: "[a .. b] = rev ys @ y # rev zs" by (simp add: rev_swap)
  have l: "length [a .. b] = Suc (length zs + length ys)" unfolding z by simp
  have "[a .. b] ! length ys = y" unfolding z by (simp add: nth_append)
  then have y: "y = a + int (length ys)" using l by (simp add: nth_upto)
  then show "ys = [] \<longleftrightarrow> y = a" by auto
  assume ys: "ys \<noteq> []"
  have "[a .. b] ! (length ys - 1) = hd ys" unfolding z using ys by (simp add: nth_append rev_nth hd_conv_nth)
  moreover have "length ys - 1 < length [a .. b]" using l by simp
  moreover have "int (length ys - 1) = int (length ys) - 1" using ys by (cases ys) simp_all
  ultimately show "hd ys = y - 1" using y l ys by (simp add: nth_upto)
qed

section \<open>The affine walk fills the box\<close>

lemma affine_check_box: "box_ok src 4 \<Longrightarrow> affine_check src = box_bound_check src"
  by (simp add: affine_check_def box_bound_check_def box_ok_def u16_id fun_eq_iff)

lemma walk_byte_rgb:
  assumes "split_pos (fst p) (snd p) = place dx dy"
  shows "walk_byte (box_bound_check src) src dst z abgr al (dx, dy) p = (\<lambda>k. rgb_byte src dst z abgr al place ((dy, dx), k))"
proof
  fix k
  obtain sx sy where s: "p = (sx, sy)" by (cases p)
  obtain sx_p sy_p sx_w sy_w where p: "split_pos sx sy = (sx_p, sy_p, sx_w, sy_w)" by (cases "split_pos sx sy")
  have a: "place dx dy = (sx_p, sy_p, sx_w, sy_w)" using assms s p by simp
  obtain o0 o1 o2 o3 where o: "box_bound_check src sx_p sy_p = (o0, o1, o2, o3)" by (cases "box_bound_check src sx_p sy_p")
  show "walk_byte (box_bound_check src) src dst z abgr al (dx, dy) p k = rgb_byte src dst z abgr al place ((dy, dx), k)"
    unfolding walk_byte_def rgb_byte_def sample_def s a split p o Let_def by (rule refl)
qed

definition affine_rows :: "bs_box \<Rightarrow> int list \<Rightarrow> int list" where
  "affine_rows dst M = (let ys = [sbox_y dst .. sbox_h dst + sbox_y dst - 1] in if M ! 4 > 0 then ys else rev ys)"

definition affine_col :: "bs_box \<Rightarrow> int list \<Rightarrow> nat \<Rightarrow> int" where
  "affine_col dst M i = (if M ! 1 > 0 then int i + sbox_x dst else sbox_w dst - 1 - int i + sbox_x dst)"

text \<open>A state of a walk, the rows each column still has, and the pixels that were filled: \<open>X\<close> is the place of a column,
  \<open>P\<close> the source place of a pixel, \<open>rows\<close> the rows of a column in its order, \<open>fill\<close> writes a byte.\<close>

definition walk_rel :: "(nat \<Rightarrow> int) \<Rightarrow> (point \<Rightarrow> point) \<Rightarrow> (nat \<Rightarrow> int list) \<Rightarrow> ((int \<times> int) \<times> int \<Rightarrow> mem \<Rightarrow> mem) \<Rightarrow> bs_box \<Rightarrow> mem \<Rightarrow>
    walk \<Rightarrow> (nat \<Rightarrow> int list) \<Rightarrow> (int \<times> int) list \<Rightarrow> bool" where
  "walk_rel X P rows fill dst m s rem vs \<longleftrightarrow>
     length (wk_dst s) = OBOX_SIZE \<and> length (wk_src s) = OBOX_SIZE \<and> length (wk_mask s) = OBOX_SIZE \<and>
     (\<forall>i < OBOX_SIZE. wk_mask s ! i \<longleftrightarrow> rem i = []) \<and>
     (\<forall>i < OBOX_SIZE. rem i \<noteq> [] \<longrightarrow> wk_dst s ! i = (X i, hd (rem i)) \<and> wk_src s ! i = P (X i, hd (rem i))) \<and>
     (\<forall>i. suffix (rem i) (rows i)) \<and> (\<forall>i. nat (sbox_w dst) \<le> i \<longrightarrow> rem i = []) \<and>
     wk_mem s = fold fill (List.product vs [0 .. 3]) m \<and>
     (\<forall>x y. wk_hit s x y = count (mset vs) (y + sbox_y dst, x + sbox_x dst))"

text \<open>What a round does to the column it chooses: the pixel \<open>(x, y)\<close> is filled, \<open>y'\<close> is next unless the column is finished.\<close>

definition walk_after :: "(point \<Rightarrow> point) \<Rightarrow> ((int \<times> int) \<times> int \<Rightarrow> mem \<Rightarrow> mem) \<Rightarrow> bs_box \<Rightarrow> nat \<Rightarrow> int \<Rightarrow> int \<Rightarrow> int \<Rightarrow> bool \<Rightarrow> walk \<Rightarrow> walk" where
  "walk_after P fill dst idx x y y' fin s =
     (let hit = wk_hit s; hit_x = x - sbox_x dst; hit_y = y - sbox_y dst
      in \<lparr>wk_dst = (wk_dst s)[idx := (x, y')], wk_src = (if fin then wk_src s else (wk_src s)[idx := P (x, y')]),
          wk_mask = (wk_mask s)[idx := fin], wk_hit = hit(hit_x := (hit hit_x)(hit_y := Suc (hit hit_x hit_y))),
          wk_mem = fold (\<lambda>k. fill ((y, x), k)) [0 .. 3] (wk_mem s)\<rparr>)"

lemma walk_rel_step:
  assumes r: "walk_rel X P rows fill dst m s rem vs" and i: "idx < OBOX_SIZE" "rem idx = y # ys"
    and nxt: "fin \<longleftrightarrow> ys = []" "ys \<noteq> [] \<Longrightarrow> hd ys = y'"
  shows "walk_rel X P rows fill dst m (walk_after P fill dst idx (X idx) y y' fin s) (rem(idx := ys)) (vs @ [(y, X idx)])"
proof -
  have iw: "idx < nat (sbox_w dst)" using r i(2) unfolding walk_rel_def by (metis list.distinct(1) not_le)
  have sf: "suffix (y # ys) (rows idx)" using r i(2) unfolding walk_rel_def by metis
  have sf': "suffix ys (rows idx)" by (rule suffix_ConsD [OF sf])
  have len: "length (wk_dst s) = OBOX_SIZE" "length (wk_src s) = OBOX_SIZE" "length (wk_mask s) = OBOX_SIZE"
    and inv: "\<And>i. i < OBOX_SIZE \<Longrightarrow> wk_mask s ! i \<longleftrightarrow> rem i = []"
      "\<And>i. i < OBOX_SIZE \<Longrightarrow> rem i \<noteq> [] \<Longrightarrow> wk_dst s ! i = (X i, hd (rem i))"
      "\<And>i. i < OBOX_SIZE \<Longrightarrow> rem i \<noteq> [] \<Longrightarrow> wk_src s ! i = P (X i, hd (rem i))"
      "\<And>i. suffix (rem i) (rows i)" "\<And>i. nat (sbox_w dst) \<le> i \<Longrightarrow> rem i = []"
      "wk_mem s = fold fill (List.product vs [0 .. 3]) m"
      "\<And>x y. wk_hit s x y = count (mset vs) (y + sbox_y dst, x + sbox_x dst)"
    using r unfolding walk_rel_def by blast+
  show ?thesis unfolding walk_after_def Let_def nxt(1) walk_rel_def fold_product_last
    using i(1) iw sf' nxt(2) by (auto simp: len inv nth_list_update)
qed

text \<open>The column that is chosen is one that has rows left.\<close>

lemma walk_rel_chosen:
  assumes "walk_rel X P rows fill dst m s rem vs" "idx < OBOX_SIZE" "\<not> wk_mask s ! idx"
  obtains y ys where "rem idx = y # ys" "wk_dst s ! idx = (X idx, y)" "wk_src s ! idx = P (X idx, y)"
    "suffix (y # ys) (rows idx)" "idx < nat (sbox_w dst)"
proof -
  have "rem idx \<noteq> []" using assms by (simp add: walk_rel_def)
  then obtain y ys where y: "rem idx = y # ys" by (cases "rem idx") simp_all
  show thesis
  proof (rule that [OF y])
    show "wk_dst s ! idx = (X idx, y)" "wk_src s ! idx = P (X idx, y)" using assms(1,2) y by (simp_all add: walk_rel_def)
    show "suffix (y # ys) (rows idx)" using assms(1) y unfolding walk_rel_def by metis
    show "idx < nat (sbox_w dst)" using assms(1) y unfolding walk_rel_def by (metis list.distinct(1) not_le)
  qed
qed

definition affine_rel :: "bs_box \<Rightarrow> bs_box \<Rightarrow> int list \<Rightarrow> u8 \<Rightarrow> bool \<Rightarrow> u8 \<Rightarrow> mem \<Rightarrow> walk \<Rightarrow> (nat \<Rightarrow> int list) \<Rightarrow> (int \<times> int) list \<Rightarrow> bool" where
  "affine_rel src dst M z abgr al m = walk_rel (affine_col dst M) (affine_dst2src_64 M) (\<lambda>_. affine_rows dst M)
     (rgb_byte src dst z abgr al (affine_dst2src M)) dst m"

lemma affine_rel_start:
  assumes "box_ok dst 4" "sbox_w dst \<le> 64"
  shows "affine_rel src dst M z abgr al m (affine_walk_start dst M m) (\<lambda>i. if i < nat (sbox_w dst) then affine_rows dst M else []) []"
proof -
  have h: "0 < sbox_h dst" "0 < sbox_w dst" using assms(1) by (simp_all add: box_ok_def)
  then have ne: "affine_rows dst M \<noteq> []" "hd (affine_rows dst M) = (if M ! 4 > 0 then sbox_y dst else sbox_h dst - 1 + sbox_y dst)"
    by (simp_all add: affine_rows_def Let_def hd_rev last_upto_id hd_upto)
  show ?thesis using h ne assms(2)
    by (auto simp: affine_rel_def walk_rel_def affine_walk_start_def Let_def affine_col_point_def affine_col_def OBOX_SIZE_def)
qed


lemma affine_rows_next:
  assumes "suffix (y # ys) (affine_rows dst M)"
  shows "(if M ! 4 > 0 then y + 1 = sbox_y dst + sbox_h dst else y - 1 = sbox_y dst - 1) \<longleftrightarrow> ys = []"
    "ys \<noteq> [] \<Longrightarrow> hd ys = (if M ! 4 > 0 then y + 1 else y - 1)"
proof -
  note r = rising_next [of y ys "sbox_y dst" "sbox_h dst + sbox_y dst - 1"] and f = falling_next [of y ys "sbox_y dst" "sbox_h dst + sbox_y dst - 1"]
  show "(if M ! 4 > 0 then y + 1 = sbox_y dst + sbox_h dst else y - 1 = sbox_y dst - 1) \<longleftrightarrow> ys = []"
    using assms r(1) f(1) by (auto simp: affine_rows_def Let_def split: if_splits)
  show "ys \<noteq> [] \<Longrightarrow> hd ys = (if M ! 4 > 0 then y + 1 else y - 1)"
    using assms r(2) f(2) by (auto simp: affine_rows_def Let_def split: if_splits)
qed

lemma affine_round_eq:
  assumes "box_ok src 4" "idx = get_min_point (wk_src s) (wk_mask s) (M ! 1 > 0) (M ! 4 > 0)"
    "wk_dst s ! idx = (x, y)" "wk_src s ! idx = affine_dst2src_64 M (x, y)" "\<not> wk_mask s ! idx"
  shows "affine_walk_round src dst M z abgr al s =
    walk_after (affine_dst2src_64 M) (rgb_byte src dst z abgr al (affine_dst2src M)) dst idx x y
      (if M ! 4 > 0 then y + 1 else y - 1) (if M ! 4 > 0 then y + 1 = sbox_y dst + sbox_h dst else y - 1 = sbox_y dst - 1) s"
proof -
  have "walk_byte (affine_check src) src dst z abgr al (x, y) (affine_dst2src_64 M (x, y)) = (\<lambda>k. rgb_byte src dst z abgr al (affine_dst2src M) ((y, x), k))"
    unfolding affine_check_box [OF assms(1)] by (rule walk_byte_rgb) (simp add: affine_dst2src_def affine_dst2src_64_def Let_def)
  then show ?thesis using assms(3-5) unfolding affine_walk_round_def assms(2) [symmetric]
    by (simp add: Let_def col_point_update_affine_def walk_after_def)
qed

lemma affine_step:
  assumes b: "box_ok src 4" and w: "sbox_w dst \<le> 64"
    and r: "affine_rel src dst M z abgr al m s rem vs" and ne: "\<exists>i \<in> {..<nat (sbox_w dst)}. rem i \<noteq> []"
  shows "\<exists>i y ys. i \<in> {..<nat (sbox_w dst)} \<and> rem i = y # ys \<and>
    affine_rel src dst M z abgr al m (affine_walk_round src dst M z abgr al s) (rem(i := ys)) (vs @ [(y, affine_col dst M i)])"
proof -
  define idx where "idx = get_min_point (wk_src s) (wk_mask s) (M ! 1 > 0) (M ! 4 > 0)"
  note r' = r [unfolded affine_rel_def]
  from ne obtain j where j: "j < nat (sbox_w dst)" "rem j \<noteq> []" by auto
  then have "j < OBOX_SIZE" "\<not> wk_mask s ! j" using w r' by (auto simp: OBOX_SIZE_def walk_rel_def)
  from get_min_point_unmasked [OF this] have i: "idx < OBOX_SIZE" "\<not> wk_mask s ! idx" unfolding idx_def by blast+
  from walk_rel_chosen [OF r' i] obtain y ys where y: "rem idx = y # ys" and
    d: "wk_dst s ! idx = (affine_col dst M idx, y)" "wk_src s ! idx = affine_dst2src_64 M (affine_col dst M idx, y)"
    and sf: "suffix (y # ys) (affine_rows dst M)" and iw: "idx < nat (sbox_w dst)" by metis
  have "affine_rel src dst M z abgr al m (affine_walk_round src dst M z abgr al s) (rem(idx := ys)) (vs @ [(y, affine_col dst M idx)])"
    unfolding affine_round_eq [OF b idx_def d i(2)] affine_rel_def
    by (rule walk_rel_step [where ys = ys, OF r' i(1) y]) (rule affine_rows_next [OF sf])+
  with iw y show ?thesis by blast
qed

text \<open>All columns with all their rows are the pixels of the box.\<close>

lemma columns_pixels:
  assumes "vs = concat (map (\<lambda>i. map (\<lambda>y. (y, X i)) (rows i)) [0 ..< n])" "inj_on X {..<n}"
    "\<And>i. i < n \<Longrightarrow> distinct (rows i) \<and> set (rows i) = Y"
  shows "distinct vs" "set vs = Y \<times> X ` {..<n}"
proof -
  have "distinct (concat (map (\<lambda>i. map (\<lambda>y. (y, X i)) (rows i)) [0 ..< k]))" if "k \<le> n" for k
    using that
  proof (induction k)
    case (Suc k)
    have ne: False if "i < k" "X k = X i" for i using inj_onD [OF assms(2), of k i] that Suc.prems by auto
    with Suc assms(3) [of k] show ?case by (auto simp: distinct_map inj_on_def dest: ne)
  qed simp
  then show "distinct vs" unfolding assms(1) by simp
  show "set vs = Y \<times> X ` {..<n}" unfolding assms(1) using assms(3) by (auto simp: image_iff)
qed

lemma affine_pixels:
  assumes "vs = concat (map (\<lambda>i. map (\<lambda>y. (y, affine_col dst M i)) (affine_rows dst M)) [0 ..< nat (sbox_w dst)])"
  shows "distinct vs" "set vs = {sbox_y dst .. sbox_h dst + sbox_y dst - 1} \<times> {sbox_x dst .. sbox_w dst + sbox_x dst - 1}"
proof -
  let ?X = "affine_col dst M" and ?n = "nat (sbox_w dst)"
  have rows: "distinct (affine_rows dst M) \<and> set (affine_rows dst M) = {sbox_y dst .. sbox_h dst + sbox_y dst - 1}"
    by (simp add: affine_rows_def Let_def)
  have inj: "inj_on ?X {..<?n}" by (auto simp: inj_on_def affine_col_def)
  have "x \<in> ?X ` {..<?n} \<longleftrightarrow> x \<in> {sbox_x dst .. sbox_w dst + sbox_x dst - 1}" for x
  proof
    assume x: "x \<in> {sbox_x dst .. sbox_w dst + sbox_x dst - 1}"
    then have "x = ?X (nat (if M ! 1 > 0 then x - sbox_x dst else sbox_w dst - 1 - x + sbox_x dst))"
      by (auto simp: affine_col_def)
    moreover have "nat (if M ! 1 > 0 then x - sbox_x dst else sbox_w dst - 1 - x + sbox_x dst) \<in> {..<?n}"
      using x by auto
    ultimately show "x \<in> ?X ` {..<?n}" by (rule image_eqI)
  qed (auto simp: affine_col_def split: if_splits)
  then have "?X ` {..<?n} = {sbox_x dst .. sbox_w dst + sbox_x dst - 1}" by blast
  then show "distinct vs" "set vs = {sbox_y dst .. sbox_h dst + sbox_y dst - 1} \<times> {sbox_x dst .. sbox_w dst + sbox_x dst - 1}"
    using columns_pixels [OF assms inj, of "{sbox_y dst .. sbox_h dst + sbox_y dst - 1}"] rows by simp_all
qed

lemma affine_walk_end:
  assumes b: "box_ok src 4" "box_ok dst 4" and w: "sbox_w dst \<le> 64"
  shows "\<exists>rem vs. affine_rel src dst M z abgr al m ((affine_walk_round src dst M z abgr al ^^ nat (sbox_w dst * sbox_h dst)) (affine_walk_start dst M m)) rem vs \<and>
    distinct vs \<and> set vs = {sbox_y dst .. sbox_h dst + sbox_y dst - 1} \<times> {sbox_x dst .. sbox_w dst + sbox_x dst - 1}"
proof -
  let ?rem = "\<lambda>i. if i < nat (sbox_w dst) then affine_rows dst M else []"
  let ?S = "{..<nat (sbox_w dst)}" and ?X = "affine_col dst M"
  define ps where "ps = concat (map (\<lambda>i. map (\<lambda>y. (y, ?X i)) (affine_rows dst M)) [0 ..< nat (sbox_w dst)])"
  have cp: "col_pixels ?X ?S ?rem = mset ps" unfolding ps_def by (rule col_pixels_list)
  have "length (affine_rows dst M) = nat (sbox_h dst)" by (simp add: affine_rows_def Let_def)
  then have n: "nat (sbox_w dst * sbox_h dst) = size (col_pixels ?X ?S ?rem)"
    using b(2) by (simp add: col_pixels_size box_ok_def nat_mult_distrib)
  have "\<exists>s' rem' vs'. walk_rounds (nat (sbox_w dst * sbox_h dst)) (\<lambda>s. Inr (affine_walk_round src dst M z abgr al s)) (affine_walk_start dst M m) = Inr s' \<and>
      affine_rel src dst M z abgr al m s' rem' vs' \<and>
      mset vs' = mset [] + col_pixels ?X ?S ?rem \<and> (\<forall>i \<in> ?S. rem' i = []) \<and> (\<forall>i. i \<notin> ?S \<longrightarrow> rem' i = ?rem i)"
    by (rule walk_all [where Rel = "affine_rel src dst M z abgr al m"], simp, unfold sum.inject ex_simps,
        drule (1) affine_step [OF b(1) w], blast)
      (use affine_rel_start [OF b(2) w] n in simp_all)
  then obtain rem' vs' where r: "affine_rel src dst M z abgr al m ((affine_walk_round src dst M z abgr al ^^ nat (sbox_w dst * sbox_h dst)) (affine_walk_start dst M m)) rem' vs'"
    "mset vs' = mset ps" unfolding cp walk_rounds_total by auto
  show ?thesis using r mset_eq_imp_distinct_iff [OF r(2)] mset_eq_setD [OF r(2)] affine_pixels [OF ps_def] by auto
qed

text \<open>Pixels taken once each, in any order, fill the box like any loop over it; and the check is content.\<close>

lemma box_order:
  assumes "boxes_ok src dst 4" "\<And>dx dy. place_ok (place dx dy)" "distinct vs"
    "set vs = {sbox_y dst .. sbox_h dst + sbox_y dst - 1} \<times> {sbox_x dst .. sbox_w dst + sbox_x dst - 1}"
    "set cs = box_rounds dst 4" "distinct cs"
  shows "fold (rgb_byte src dst z abgr al place) (List.product vs [0 .. 3]) m = fold (rgb_byte src dst z abgr al place) cs m"
proof (rule rgb.paint_order)
  have rounds: "set (List.product vs [0 .. 3]) = box_rounds dst 4" by (auto simp: assms(4) box_rounds_def)
  show "distinct (List.product vs [0 .. 3 :: int])" by (rule distinct_product) (simp_all add: assms(3))
  show "rounds_apart (byte_out dst 4) (byte_in src 4 place) (set (List.product vs [0 .. 3]))"
    unfolding rounds by (rule byte_apart [OF assms(1)]) (simp_all add: assms(2))
  show "set (List.product vs [0 .. 3]) = set cs" by (simp only: rounds assms(5))
qed (rule assms(6))

lemma no_bad_hits:
  assumes "\<And>x y. hit x y = count (mset vs) (y + sbox_y dst, x + sbox_x dst)" "distinct vs"
    "set vs = {sbox_y dst .. sbox_h dst + sbox_y dst - 1} \<times> {sbox_x dst .. sbox_w dst + sbox_x dst - 1}"
  shows "bad_hits dst hit = []"
proof -
  have "hit x y = 1" if "y \<in> {0 .. sbox_h dst - 1}" "x \<in> {0 .. sbox_w dst - 1}" for x y
    using assms(2,3) that by (simp add: assms(1) distinct_count_atmost_1)
  then show ?thesis by (auto simp: bad_hits_def filter_empty_conv)
qed

lemma affine_walk_result:
  assumes "boxes_ok src dst 4" "sbox_w dst \<le> 64" "sbox_h dst \<le> 64"
  shows "bs_affine_box_rgb_complex src dst M z abgr al m = Inr ([], bs_affine_box_rgb src dst M z abgr al m)"
proof -
  have b: "box_ok src 4" "box_ok dst 4" using assms(1) by (simp_all add: boxes_ok_def)
  let ?s = "(affine_walk_round src dst M z abgr al ^^ nat (sbox_w dst * sbox_h dst)) (affine_walk_start dst M m)"
  obtain rem vs where r: "affine_rel src dst M z abgr al m ?s rem vs" and vs: "distinct vs"
    "set vs = {sbox_y dst .. sbox_h dst + sbox_y dst - 1} \<times> {sbox_x dst .. sbox_w dst + sbox_x dst - 1}"
    using affine_walk_end [OF b assms(2)] by blast
  have "wk_mem ?s = bs_affine_box_rgb src dst M z abgr al m"
    using r box_order [OF assms(1) _ vs, of "affine_dst2src M"] affine_rounds_ok [OF b(2)]
    by (simp add: affine_rel_def walk_rel_def bs_affine_box_rgb_def)
  moreover have "bad_hits dst (wk_hit ?s) = []" by (rule no_bad_hits [OF _ vs]) (use r in \<open>simp add: affine_rel_def walk_rel_def\<close>)
  ultimately show ?thesis using assms(2,3) by (simp add: bs_affine_box_rgb_complex_def Let_def)
qed

text \<open>C14. The walk that follows the hardware's order of pixels, with its up to 64 columns, fills every pixel of
  the box once, complains about none, and leaves in memory what the plain loop over the box leaves.\<close>

theorem affine_walk_is_affine:
  assumes "boxes_ok src dst 4" "sbox_w dst \<le> 64" "sbox_h dst \<le> 64"
  shows "bs_affine_box_rgb_complex src dst M z abgr al m = Inr ([], bs_affine_box_rgb src dst M z abgr al m)"
  using assms by (rule affine_walk_result)

theorem affine_walk_is_affine_witness:
  "bs_affine_box_rgb_complex (sample_box 0x1000) (sample_box 0x2000) [2 ^ 16, 300, 0, - 300, - (2 ^ 16), 2 ^ 17, 0, 0, 2 ^ 16] 0 False 0xFF (\<lambda>a. ucast a) =
   Inr ([], bs_affine_box_rgb (sample_box 0x1000) (sample_box 0x2000) [2 ^ 16, 300, 0, - 300, - (2 ^ 16), 2 ^ 17, 0, 0, 2 ^ 16] 0 False 0xFF (\<lambda>a. ucast a))"
  by (rule affine_walk_is_affine [OF sample_boxes]) (simp_all add: sample_box_def)

end
