(* ===== verification/MdlPersp.thy ===== *)
theory MdlPersp
  imports MdlWalk
begin

text \<open>
  The walk for a perspective matrix (\<open>bs_perspective_box_rgb_complex\<close> of
  \<open>bscaler/source/model/bscaler_mdl.c\<close>): every column has its own direction and may begin
  in its middle, at the row where the source place turns back. First the columns whose two directions are
  equal are emptied, then the others. The program compiles it but calls the plain loop instead.
\<close>

section \<open>Columns\<close>

definition INCREASE :: nat where "INCREASE = 0"

text \<open>\<open>mono\<close>: bit 0 is the direction of the rows, bit 1 that of the columns. The caller gives one value that changes at
  a column.\<close>

definition mono_bit :: "u8 \<Rightarrow> nat \<Rightarrow> nat" where
  "mono_bit v i = (let pos = unat (v AND 0x7F); init = unat (drop_bit 7 v) in if i \<ge> pos then init else if init = 0 then 1 else 0)"

definition x_mono :: "nat \<Rightarrow> bool" where "x_mono dirs \<longleftrightarrow> dirs div 2 mod 2 = INCREASE"
definition y_mono :: "nat \<Rightarrow> bool" where "y_mono dirs \<longleftrightarrow> dirs mod 2 = INCREASE"

text \<open>\<open>get_min_point_unified\<close> and \<open>get_min_point_ununified\<close>: the columns with equal and with different directions.
  \<open>None\<close> is the index -1.\<close>

definition mono_round :: "(nat \<Rightarrow> bool) \<Rightarrow> point list \<Rightarrow> bool list \<Rightarrow> nat list \<Rightarrow> nat \<Rightarrow> nat option \<times> nat option \<Rightarrow> nat option \<times> nat option" where
  "mono_round sel points msk dirs i = (\<lambda>(mn, idx).
     if sel (dirs ! i)
     then let mn = (if \<not> msk ! i
                    then case mn of None \<Rightarrow> Some i
                         | Some j \<Rightarrow> if point_min (points ! i) (points ! j) (x_mono (dirs ! i)) (y_mono (dirs ! i)) then Some i else Some j
                    else mn)
          in (mn, if mn = Some i then Some i else idx)
     else (mn, idx))"

definition get_min_point_unified :: "point list \<Rightarrow> bool list \<Rightarrow> nat list \<Rightarrow> nat option" where
  "get_min_point_unified points msk dirs =
     snd (fold (mono_round (\<lambda>v. x_mono v = y_mono v) points msk dirs) [0 ..< OBOX_SIZE] (None, None))"

definition get_min_point_ununified :: "point list \<Rightarrow> bool list \<Rightarrow> nat list \<Rightarrow> nat option" where
  "get_min_point_ununified points msk dirs =
     snd (fold (mono_round (\<lambda>v. x_mono v \<noteq> y_mono v) points msk dirs) [0 ..< OBOX_SIZE] (None, None))"

lemma mono_round_unmasked:
  assumes "i < OBOX_SIZE" "\<not> msk ! i" "sel (dirs ! i)"
  shows "\<exists>j. snd (fold (mono_round sel points msk dirs) [0 ..< OBOX_SIZE] (None, None)) = Some j \<and>
    j < OBOX_SIZE \<and> \<not> msk ! j \<and> sel (dirs ! j)"
proof -
  let ?r = "\<lambda>n. fold (mono_round sel points msk dirs) [0 ..< n] (None, None)"
  have inv: "(case fst (?r n) of None \<Rightarrow> (\<forall>j < n. sel (dirs ! j) \<longrightarrow> msk ! j)
     | Some j \<Rightarrow> snd (?r n) = Some j \<and> j < n \<and> \<not> msk ! j \<and> sel (dirs ! j))" for n
  proof (induction n)
    case (Suc n)
    obtain mn idx where r: "?r n = (mn, idx)" by (cases "?r n")
    then have "?r (Suc n) = mono_round sel points msk dirs n (mn, idx)" by simp
    with Suc [unfolded r] show ?case unfolding fst_conv snd_conv
      by (simp only:) (auto simp: mono_round_def Let_def less_Suc_eq split: option.splits if_splits)
  qed simp
  from inv [of OBOX_SIZE] assms show ?thesis by (auto split: option.splits)
qed

section \<open>The walk\<close>

definition inside_rows :: "bs_box \<Rightarrow> int \<Rightarrow> bool" where
  "inside_rows dst l \<longleftrightarrow> sbox_y dst \<le> l \<and> l < sbox_y dst + sbox_h dst"

text \<open>\<open>dst_col_point_init\<close>: direction, limit and first pixel of every column of the box; the other entries stay 0
  and are masked.\<close>

definition col_mono :: "bs_box \<Rightarrow> u8 \<Rightarrow> u8 \<Rightarrow> nat \<Rightarrow> nat" where
  "col_mono dst mono_x mono_y i = (if int i < sbox_w dst then 2 * mono_bit mono_x i + mono_bit mono_y i else 0)"

definition col_limit :: "bs_box \<Rightarrow> u8 list \<Rightarrow> nat \<Rightarrow> int" where
  "col_limit dst extreme_point i = (if int i < sbox_w dst then sint (extreme_point ! i) + sbox_y dst else 0)"

definition col_start :: "bs_box \<Rightarrow> u8 \<Rightarrow> u8 \<Rightarrow> u8 list \<Rightarrow> nat \<Rightarrow> point" where
  "col_start dst mono_x mono_y extreme_point i =
     (if int i < sbox_w dst
      then (int i + sbox_x dst,
            let l = col_limit dst extreme_point i
            in if inside_rows dst l then l
               else if col_mono dst mono_x mono_y i mod 2 = INCREASE then sbox_y dst else sbox_h dst - 1 + sbox_y dst)
      else (0, 0))"

text \<open>A place is kept in 32 bits: 16 of position and 16 of weight. The transform asserts that the coordinates are
  below 65536.\<close>

definition coord_ok :: "point \<Rightarrow> bool" where
  "coord_ok p \<longleftrightarrow> fst p < 65536 \<and> snd p < 65536"

definition perspective_point :: "int list \<Rightarrow> point \<Rightarrow> point" where
  "perspective_point M = (\<lambda>(dx, dy). let (sx_p, sy_p, sx_w, sy_w) = perspective_dst2src M dx dy
     in (sx_p * 2 ^ MAT_ACC + sx_w, sy_p * 2 ^ MAT_ACC + sy_w))"

text \<open>\<open>col_point_update\<close>: the next row of a column, turning at the edge of the box if the limit lies inside, and whether the
  column is finished.\<close>

definition limit_overflow :: "bs_box \<Rightarrow> int \<Rightarrow> bool" where
  "limit_overflow dst l \<longleftrightarrow> l > sbox_y dst + sbox_h dst - 1 \<or> l < sbox_y dst"

definition next_row :: "bs_box \<Rightarrow> bool \<Rightarrow> int \<Rightarrow> int \<Rightarrow> int" where
  "next_row dst y_increase l y =
     (if y_increase then (if \<not> limit_overflow dst l \<and> y + 1 = sbox_y dst + sbox_h dst then sbox_y dst else y + 1)
      else (if \<not> limit_overflow dst l \<and> y - 1 = sbox_y dst - 1 then sbox_y dst + sbox_h dst - 1 else y - 1))"

definition column_done :: "bs_box \<Rightarrow> bool \<Rightarrow> int \<Rightarrow> int \<Rightarrow> bool" where
  "column_done dst y_increase l y \<longleftrightarrow>
     (if y_increase then (if \<not> limit_overflow dst l then y = l else y = sbox_y dst + sbox_h dst)
      else (if \<not> limit_overflow dst l then y = l else y = sbox_y dst - 1))"

definition col_point_update :: "bs_box \<Rightarrow> int list \<Rightarrow> nat \<Rightarrow> nat \<Rightarrow> int list \<Rightarrow> walk \<Rightarrow> mdl_stop + walk" where
  "col_point_update dst M idx dirs limit s =
     (let y_increase = dirs mod 2 = INCREASE; (x, y) = wk_dst s ! idx; masked = wk_mask s ! idx;
          y = (if masked then y else next_row dst y_increase (limit ! idx) y);
          masked = (masked \<or> column_done dst y_increase (limit ! idx) y)
      in if \<not> masked \<and> \<not> coord_ok (x, y) then Inl Assertion_fails
         else Inr (s\<lparr>wk_dst := (wk_dst s)[idx := (x, y)], wk_mask := (wk_mask s)[idx := masked],
           wk_src := (if masked then wk_src s else (wk_src s)[idx := perspective_point M (x, y)])\<rparr>))"

text \<open>One round. The clip of a 16-bit position to 16 bits changes nothing; what the loop prints about the order of the
  source places is left out. Without a column the index of the first phase fails its assertion, that of the second
  is used.\<close>

definition persp_walk_round :: "(nat \<Rightarrow> bool) \<Rightarrow> (point list \<Rightarrow> bool list \<Rightarrow> nat list \<Rightarrow> nat option) \<Rightarrow> mdl_stop \<Rightarrow>
    bs_box \<Rightarrow> bs_box \<Rightarrow> int list \<Rightarrow> u8 \<Rightarrow> bool \<Rightarrow> u8 \<Rightarrow> nat list \<Rightarrow> int list \<Rightarrow> walk \<Rightarrow> mdl_stop + walk" where
  "persp_walk_round phase get_min none src dst M zero_point is_abgr_order nv2bgr_alpha dirs limit s =
     (case get_min (wk_src s) (wk_mask s) dirs of
        None \<Rightarrow> Inl none
      | Some idx \<Rightarrow>
          if \<not> phase (dirs ! idx) then Inl Assertion_fails
          else let (dx, dy) = wk_dst s ! idx;
                   hit_x = dx - sbox_x dst; hit_y = dy - sbox_y dst;
                   m = fold (walk_byte (box_bound_check src) src dst zero_point is_abgr_order nv2bgr_alpha (dx, dy) (wk_src s ! idx)) [0 .. 3] (wk_mem s)
               in col_point_update dst M idx (dirs ! idx) limit
                    (s\<lparr>wk_hit := (wk_hit s)(hit_x := (wk_hit s hit_x)(hit_y := Suc (wk_hit s hit_x hit_y))), wk_mem := m\<rparr>))"

definition persp_walk_start :: "bs_box \<Rightarrow> int list \<Rightarrow> u8 \<Rightarrow> u8 \<Rightarrow> u8 list \<Rightarrow> mem \<Rightarrow> mdl_stop + walk" where
  "persp_walk_start dst M mono_x mono_y extreme_point m =
     (let ds = map (col_start dst mono_x mono_y extreme_point) [0 ..< OBOX_SIZE];
          msk = map (\<lambda>i. int i \<ge> sbox_w dst) [0 ..< OBOX_SIZE]
      in if list_ex (\<lambda>i. \<not> msk ! i \<and> \<not> coord_ok (ds ! i)) [0 ..< OBOX_SIZE] then Inl Assertion_fails
         else Inr \<lparr>wk_dst = ds, wk_src = map (\<lambda>i. if msk ! i then (0, 0) else perspective_point M (ds ! i)) [0 ..< OBOX_SIZE],
          wk_mask = msk, wk_hit = (\<lambda>_ _. 0), wk_mem = m\<rparr>)"

text \<open>The pixels of the columns of each phase.\<close>

definition phase_size :: "bs_box \<Rightarrow> (nat \<Rightarrow> bool) \<Rightarrow> nat list \<Rightarrow> nat" where
  "phase_size dst phase dirs = sum_list (map (\<lambda>i. if phase (dirs ! i) then nat (sbox_h dst) else 0) [0 ..< nat (sbox_w dst)])"

definition bs_perspective_box_rgb_complex :: "bs_box \<Rightarrow> bs_box \<Rightarrow> int list \<Rightarrow> u8 \<Rightarrow> bool \<Rightarrow> u8 \<Rightarrow> u8 \<Rightarrow> u8 \<Rightarrow> u8 list \<Rightarrow> mem \<Rightarrow>
    mdl_stop + ((int \<times> int) list \<times> mem)" where
  "bs_perspective_box_rgb_complex src dst M zero_point is_abgr_order nv2bgr_alpha mono_x mono_y extreme_point m =
     (if sbox_w dst > 64 \<or> sbox_h dst > 64 \<or> base0 dst = 0 \<or> base0 src = 0 then Inl Assertion_fails
      else let dirs = map (col_mono dst mono_x mono_y) [0 ..< OBOX_SIZE];
               limit = map (col_limit dst extreme_point) [0 ..< OBOX_SIZE];
               unified = (\<lambda>v. v = 0 \<or> v = 3); ununified = (\<lambda>v. v = 1 \<or> v = 2)
           in res_bind (persp_walk_start dst M mono_x mono_y extreme_point m) (\<lambda>s.
              res_bind (walk_rounds (phase_size dst unified dirs)
                (persp_walk_round unified get_min_point_unified Assertion_fails src dst M zero_point is_abgr_order nv2bgr_alpha dirs limit) s) (\<lambda>s.
              res_bind (walk_rounds (phase_size dst (\<lambda>v. \<not> unified v) dirs)
                (persp_walk_round ununified get_min_point_ununified Out_of_bounds src dst M zero_point is_abgr_order nv2bgr_alpha dirs limit) s) (\<lambda>s.
              Inr (bad_hits dst (wk_hit s), wk_mem s)))))"

section \<open>Turning columns\<close>

text \<open>The rows of a column: all of them, beginning anywhere, up or down, around the box.\<close>

definition turn :: "int \<Rightarrow> int \<Rightarrow> int \<Rightarrow> int \<Rightarrow> int \<Rightarrow> int" where
  "turn a n l d p = a + (l - a + d * p) mod n"

definition turn_rows :: "int \<Rightarrow> int \<Rightarrow> int \<Rightarrow> int \<Rightarrow> int list" where
  "turn_rows a n l d = map (\<lambda>p. turn a n l d (int p)) [0 ..< nat n]"

lemma turn_back:
  assumes "0 < n" "d = 1 \<or> d = - 1" "0 \<le> p" "p \<le> n" "0 \<le> q" "q < p" "turn a n l d p = turn a n l d q"
  shows "p = n \<and> q = 0"
proof -
  have "(l - a + d * p) mod n = (l - a + d * q) mod n" using assms(7) by (simp add: turn_def)
  then have "n dvd (l - a + d * p) - (l - a + d * q)" by (simp add: mod_eq_dvd_iff)
  then have "n dvd d * (p - q)" by (simp add: algebra_simps)
  then have "n dvd p - q" using assms(2) dvd_minus_iff [of n "p - q"] by auto
  then have "n \<le> p - q" using assms(6) by (simp add: zdvd_imp_le)
  then show ?thesis using assms(4,5) by simp
qed

lemma turn_rows_all:
  assumes "0 < n" "d = 1 \<or> d = - 1"
  shows "distinct (turn_rows a n l d)" "set (turn_rows a n l d) = {a .. n + a - 1}"
proof -
  show d: "distinct (turn_rows a n l d)" unfolding turn_rows_def distinct_map
  proof (intro conjI inj_onI)
    fix p q assume pq: "p \<in> set [0 ..< nat n]" "q \<in> set [0 ..< nat n]" "turn a n l d (int p) = turn a n l d (int q)"
    show "p = q"
    proof (rule ccontr)
      assume "p \<noteq> q"
      moreover have "int p < n" "int q < n" using pq(1,2) by auto
      ultimately show False using turn_back [OF assms, of "int p" "int q" a l] turn_back [OF assms, of "int q" "int p" a l] pq(3) by (cases "p < q") simp_all
    qed
  qed simp
  have sub: "set (turn_rows a n l d) \<subseteq> {a .. n + a - 1}"
    using assms(1) pos_mod_bound [of n] pos_mod_sign [of n] by (auto simp: turn_rows_def turn_def add.commute zle_diff1_eq)
  have "card (set (turn_rows a n l d)) = card {a .. n + a - 1}" using distinct_card [OF d] by (simp add: turn_rows_def)
  with sub show "set (turn_rows a n l d) = {a .. n + a - 1}" by (simp add: card_subset_eq)
qed

lemma turn_rows_at:
  assumes "suffix (y # ys) (turn_rows a n l d)"
  obtains p where "0 \<le> p" "p < n" "y = turn a n l d p" "ys = [] \<longleftrightarrow> p + 1 = n" "ys \<noteq> [] \<longrightarrow> hd ys = turn a n l d (p + 1)"
proof -
  obtain zs where z: "turn_rows a n l d = zs @ y # ys" using assms by (auto simp: suffix_def)
  have len: "nat n = Suc (length zs + length ys)" using arg_cong [OF z, of length] by (simp add: turn_rows_def)
  have n: "n = 1 + int (length zs) + int (length ys)" using len by linarith
  have at: "(zs @ y # ys) ! i = turn a n l d (int i)" if "i < nat n" for i using that by (simp flip: z add: turn_rows_def)
  show thesis
  proof (rule that [of "int (length zs)"])
    show "y = turn a n l d (int (length zs))" using at [of "length zs"] len by simp
    show "ys \<noteq> [] \<longrightarrow> hd ys = turn a n l d (int (length zs) + 1)"
      using at [of "Suc (length zs)"] len by (simp add: nth_append hd_conv_nth algebra_simps)
  qed (use n in auto)
qed

lemma turn_step:
  assumes "0 < n"
  shows "turn a n l 1 (p + 1) = (if turn a n l 1 p + 1 = a + n then a else turn a n l 1 p + 1)"
    "turn a n l (- 1) (p + 1) = (if turn a n l (- 1) p - 1 = a - 1 then a + n - 1 else turn a n l (- 1) p - 1)"
proof -
  have up: "(x + 1) mod n = (if x mod n + 1 = n then 0 else x mod n + 1)" for x
  proof -
    have "(x + 1) mod n = (x mod n + 1) mod n" by (simp add: mod_add_left_eq)
    then show ?thesis using pos_mod_bound [OF assms, of x] pos_mod_sign [OF assms, of x] by auto
  qed
  have down: "(x - 1) mod n = (if x mod n = 0 then n - 1 else x mod n - 1)" for x
  proof -
    have e: "(x - 1) mod n = (x mod n - 1) mod n" by (simp add: mod_diff_left_eq)
    have "(- 1) mod n = n - 1" using assms by (simp add: zmod_minus1)
    then show ?thesis unfolding e using pos_mod_bound [OF assms, of x] pos_mod_sign [OF assms, of x] by auto
  qed
  show "turn a n l 1 (p + 1) = (if turn a n l 1 p + 1 = a + n then a else turn a n l 1 p + 1)"
    using up [of "l - a + p"] by (auto simp: turn_def algebra_simps)
  show "turn a n l (- 1) (p + 1) = (if turn a n l (- 1) p - 1 = a - 1 then a + n - 1 else turn a n l (- 1) p - 1)"
    using down [of "l - a - p"] by (auto simp: turn_def algebra_simps)
qed

section \<open>The walk fills the box\<close>

lemma perspective_point_split: "split_pos (fst (perspective_point M (x, y))) (snd (perspective_point M (x, y))) = perspective_dst2src M x y"
proof -
  obtain px py xw yw where p: "perspective_dst2src M x y = (px, py, xw, yw)" by (cases "perspective_dst2src M x y")
  then have "place_ok (px, py, xw, yw)" using places_ok(1) [of M x y] by simp
  then have r: "- (2 ^ 15) \<le> px" "px < 2 ^ 15" "- (2 ^ 15) \<le> py" "py < 2 ^ 15" "0 \<le> xw" "xw < 2 ^ 16" "0 \<le> yw" "yw < 2 ^ 16"
    by (simp_all add: place_ok_def)
  then have "s16 px = px" "s16 py = py" by (auto intro!: narrow_id)
  then show ?thesis using r by (simp add: perspective_point_def p split_pos_def MAT_ACC_def)
qed

definition col_first :: "bs_box \<Rightarrow> u8 \<Rightarrow> u8 \<Rightarrow> u8 list \<Rightarrow> nat \<Rightarrow> int" where
  "col_first dst mono_x mono_y ep i = snd (col_start dst mono_x mono_y ep i)"

definition persp_rows :: "bs_box \<Rightarrow> u8 \<Rightarrow> u8 \<Rightarrow> u8 list \<Rightarrow> nat \<Rightarrow> int list" where
  "persp_rows dst mono_x mono_y ep i = turn_rows (sbox_y dst) (sbox_h dst) (col_first dst mono_x mono_y ep i)
     (if col_mono dst mono_x mono_y i mod 2 = INCREASE then 1 else - 1)"

definition persp_rel :: "bs_box \<Rightarrow> bs_box \<Rightarrow> int list \<Rightarrow> u8 \<Rightarrow> bool \<Rightarrow> u8 \<Rightarrow> u8 \<Rightarrow> u8 \<Rightarrow> u8 list \<Rightarrow> mem \<Rightarrow>
    walk \<Rightarrow> (nat \<Rightarrow> int list) \<Rightarrow> (int \<times> int) list \<Rightarrow> bool" where
  "persp_rel src dst M z abgr al mono_x mono_y ep m = walk_rel (\<lambda>i. int i + sbox_x dst) (perspective_point M) (persp_rows dst mono_x mono_y ep)
     (rgb_byte src dst z abgr al (perspective_dst2src M)) dst m"

text \<open>The rows of a column in the code's own words.\<close>

lemma persp_rows_next:
  assumes "box_ok dst 4" "int i < sbox_w dst" "suffix (y # ys) (persp_rows dst mono_x mono_y ep i)"
    and "l = col_limit dst ep i" "up \<longleftrightarrow> col_mono dst mono_x mono_y i mod 2 = INCREASE"
  shows "column_done dst up l (next_row dst up l y) \<longleftrightarrow> ys = []" "ys \<noteq> [] \<Longrightarrow> hd ys = next_row dst up l y"
proof -
  let ?a = "sbox_y dst" and ?n = "sbox_h dst"
  define over where "over \<longleftrightarrow> limit_overflow dst l"
  define y' where "y' = next_row dst up l y"
  note nr = y'_def [unfolded next_row_def, folded over_def]
  have cd: "column_done dst up l y' \<longleftrightarrow> (if \<not> over then y' = l else if up then y' = ?a + ?n else y' = ?a - 1)"
    by (simp add: column_done_def over_def)
  have oi: "over \<longleftrightarrow> \<not> inside_rows dst l" by (auto simp: over_def limit_overflow_def inside_rows_def)
  define f where "f = col_first dst mono_x mono_y ep i"
  define d where "d = (if up then 1 else - 1 :: int)"
  have n: "0 < ?n" using assms(1) by (simp add: box_ok_def)
  have d: "d = 1 \<or> d = - 1" by (simp add: d_def)
  have f: "f = (if over then if up then ?a else ?n - 1 + ?a else l)"
    using assms(2,4,5) oi by (simp add: f_def col_first_def col_start_def Let_def)
  have "suffix (y # ys) (turn_rows ?a ?n f d)" using assms(3,5) by (simp add: persp_rows_def f_def d_def)
  then obtain p where p: "0 \<le> p" "p < ?n" "y = turn ?a ?n f d p" "ys = [] \<longleftrightarrow> p + 1 = ?n" "ys \<noteq> [] \<longrightarrow> hd ys = turn ?a ?n f d (p + 1)"
    by (rule turn_rows_at)
  have nxt: "turn ?a ?n f d (p + 1) = (if up then (if y + 1 = ?a + ?n then ?a else y + 1) else (if y - 1 = ?a - 1 then ?a + ?n - 1 else y - 1))"
    using turn_step [OF n, of ?a f p] p(3) by (auto simp: d_def)
  have key: "((if \<not> over then y' = l else if up then y' = ?a + ?n else y' = ?a - 1) \<longleftrightarrow> p + 1 = ?n) \<and> (p + 1 \<noteq> ?n \<longrightarrow> y' = turn ?a ?n f d (p + 1))"
  proof (cases over)
    case False
    then have l: "f = l" "?a \<le> l" "l < ?a + ?n" using f oi by (simp_all add: inside_rows_def)
    have y': "y' = turn ?a ?n f d (p + 1)" using nxt nr False by simp
    have "turn ?a ?n f d 0 = l" using l by (simp add: turn_def)
    moreover have "turn ?a ?n f d ?n = l" using l d by (auto simp: turn_def)
    moreover have "p + 1 = ?n" if "turn ?a ?n f d (p + 1) = turn ?a ?n f d 0"
      using turn_back [OF n d, of "p + 1" 0 ?a f] that p(1,2) by simp
    ultimately show ?thesis using False y' by auto
  next
    case True
    have "y = (if up then ?a + p else ?a + ?n - 1 - p)" using f True p(1-3) by (auto simp: turn_def d_def)
    then show ?thesis using nxt nr True p(1,2) by auto
  qed
  then show "column_done dst up l (next_row dst up l y) \<longleftrightarrow> ys = []" using p(4) cd unfolding y'_def by blast
  show "ys \<noteq> [] \<Longrightarrow> hd ys = next_row dst up l y" using key p(4,5) unfolding y'_def by metis
qed

lemma persp_rows_all:
  assumes "box_ok dst 4"
  shows "distinct (persp_rows dst mono_x mono_y ep i)"
    "set (persp_rows dst mono_x mono_y ep i) = {sbox_y dst .. sbox_h dst + sbox_y dst - 1}"
  using assms turn_rows_all [of "sbox_h dst"] by (simp_all add: persp_rows_def box_ok_def)

text \<open>A round of either phase, on the column it chooses.\<close>

lemma persp_round_eq:
  assumes b: "box_ok src 4" "box_ok dst 4" and w: "sbox_w dst \<le> 64"
    and c: "dirs = map (col_mono dst mono_x mono_y) [0 ..< OBOX_SIZE]" "limit = map (col_limit dst ep) [0 ..< OBOX_SIZE]"
    and g: "get_min (wk_src s) (wk_mask s) dirs = Some idx" "phase (dirs ! idx)"
    and i: "int idx < sbox_w dst" "\<not> wk_mask s ! idx"
    and d: "wk_dst s ! idx = (int idx + sbox_x dst, y)" "wk_src s ! idx = perspective_point M (int idx + sbox_x dst, y)"
    and sf: "suffix (y # ys) (persp_rows dst mono_x mono_y ep idx)"
  shows "\<exists>y' fin. persp_walk_round phase get_min none src dst M z abgr al dirs limit s =
      Inr (walk_after (perspective_point M) (rgb_byte src dst z abgr al (perspective_dst2src M)) dst idx (int idx + sbox_x dst) y y' fin s) \<and>
    (fin \<longleftrightarrow> ys = []) \<and> (ys \<noteq> [] \<longrightarrow> hd ys = y')"
proof -
  define up where "up \<longleftrightarrow> col_mono dst mono_x mono_y idx mod 2 = INCREASE"
  define l where "l = col_limit dst ep idx"
  define y' where "y' = next_row dst up l y"
  define fin where "fin = column_done dst up l y'"
  note nxt = persp_rows_next [OF b(2) i(1) sf l_def up_def, folded y'_def, folded fin_def]
  have ix: "idx < OBOX_SIZE" using i(1) w by (simp add: OBOX_SIZE_def)
  have at: "dirs ! idx = col_mono dst mono_x mono_y idx" "limit ! idx = l" using ix by (simp_all add: c l_def)
  have bytes: "walk_byte (box_bound_check src) src dst z abgr al (int idx + sbox_x dst, y) (perspective_point M (int idx + sbox_x dst, y)) =
      (\<lambda>k. rgb_byte src dst z abgr al (perspective_dst2src M) ((y, int idx + sbox_x dst), k))"
    by (rule walk_byte_rgb) (rule perspective_point_split)
  have "coord_ok (int idx + sbox_x dst, y')" if "\<not> fin"
  proof -
    have "ys \<noteq> []" "hd ys = y'" using nxt that by auto
    then have "y' \<in> set (persp_rows dst mono_x mono_y ep idx)" using set_mono_suffix [OF sf] hd_in_set [of ys] by auto
    then show ?thesis using persp_rows_all(2) [OF b(2)] b(2) i(1) by (simp add: coord_ok_def box_ok_def)
  qed
  then have "fin \<or> coord_ok (int idx + sbox_x dst, y')" by blast
  then have "persp_walk_round phase get_min none src dst M z abgr al dirs limit s =
      Inr (walk_after (perspective_point M) (rgb_byte src dst z abgr al (perspective_dst2src M)) dst idx (int idx + sbox_x dst) y y' fin s)"
    using g d i(2) unfolding persp_walk_round_def
    by (simp add: Let_def col_point_update_def at bytes walk_after_def flip: up_def y'_def fin_def)
  with nxt show ?thesis by blast
qed

lemma persp_step:
  assumes b: "box_ok src 4" "box_ok dst 4" and w: "sbox_w dst \<le> 64"
    and c: "dirs = map (col_mono dst mono_x mono_y) [0 ..< OBOX_SIZE]" "limit = map (col_limit dst ep) [0 ..< OBOX_SIZE]"
    and g: "get_min = (\<lambda>points msk dirs. snd (fold (mono_round sel points msk dirs) [0 ..< OBOX_SIZE] (None, None)))"
      "\<And>i. i < OBOX_SIZE \<Longrightarrow> sel (dirs ! i) \<longleftrightarrow> phase (dirs ! i)"
    and r: "persp_rel src dst M z abgr al mono_x mono_y ep m s rem vs"
    and ne: "\<exists>i \<in> {i. i < nat (sbox_w dst) \<and> phase (dirs ! i)}. rem i \<noteq> []"
  shows "\<exists>s' i y ys. i \<in> {i. i < nat (sbox_w dst) \<and> phase (dirs ! i)} \<and> rem i = y # ys \<and>
    persp_walk_round phase get_min none src dst M z abgr al dirs limit s = Inr s' \<and>
    persp_rel src dst M z abgr al mono_x mono_y ep m s' (rem(i := ys)) (vs @ [(y, int i + sbox_x dst)])"
proof -
  note r' = r [unfolded persp_rel_def]
  from ne obtain j where j: "j < nat (sbox_w dst)" "phase (dirs ! j)" "rem j \<noteq> []" by auto
  then have jo: "j < OBOX_SIZE" using w by (simp add: OBOX_SIZE_def)
  then have "\<not> wk_mask s ! j" "sel (dirs ! j)" using j r' g(2) by (auto simp: walk_rel_def)
  from mono_round_unmasked [where msk = "wk_mask s" and sel = sel and dirs = dirs and points = "wk_src s", OF jo this] obtain idx where i: "get_min (wk_src s) (wk_mask s) dirs = Some idx" "idx < OBOX_SIZE" "\<not> wk_mask s ! idx" "sel (dirs ! idx)"
    unfolding g(1) by blast
  then have ph: "phase (dirs ! idx)" using g(2) by blast
  from walk_rel_chosen [OF r' i(2,3)] obtain y ys where y: "rem idx = y # ys" and
    d: "wk_dst s ! idx = (int idx + sbox_x dst, y)" "wk_src s ! idx = perspective_point M (int idx + sbox_x dst, y)"
    and sf: "suffix (y # ys) (persp_rows dst mono_x mono_y ep idx)" and iw: "idx < nat (sbox_w dst)" by metis
  from iw have "int idx < sbox_w dst" by simp
  from persp_round_eq [where phase = phase and get_min = get_min and s = s, OF b w c i(1) ph this i(3) d sf] obtain y' fin where
    p: "persp_walk_round phase get_min none src dst M z abgr al dirs limit s =
      Inr (walk_after (perspective_point M) (rgb_byte src dst z abgr al (perspective_dst2src M)) dst idx (int idx + sbox_x dst) y y' fin s)"
    "fin \<longleftrightarrow> ys = []" "ys \<noteq> [] \<longrightarrow> hd ys = y'" by blast
  have "persp_rel src dst M z abgr al mono_x mono_y ep m
      (walk_after (perspective_point M) (rgb_byte src dst z abgr al (perspective_dst2src M)) dst idx (int idx + sbox_x dst) y y' fin s)
      (rem(idx := ys)) (vs @ [(y, int idx + sbox_x dst)])"
    unfolding persp_rel_def by (rule walk_rel_step [where ys = ys, OF r' i(2) y]) (use p in auto)
  with p(1) y iw ph show ?thesis by blast
qed

lemma persp_start:
  assumes b: "box_ok dst 4" and w: "sbox_w dst \<le> 64"
  shows "\<exists>s. persp_walk_start dst M mono_x mono_y ep m = Inr s \<and>
    persp_rel src dst M z abgr al mono_x mono_y ep m s (\<lambda>i. if i < nat (sbox_w dst) then persp_rows dst mono_x mono_y ep i else []) []"
proof -
  have n: "0 < sbox_h dst" using b by (simp add: box_ok_def)
  have first: "sbox_y dst \<le> col_first dst mono_x mono_y ep i \<and> col_first dst mono_x mono_y ep i < sbox_y dst + sbox_h dst" if "int i < sbox_w dst" for i
    using that n by (auto simp: col_first_def col_start_def Let_def inside_rows_def)
  have start: "col_start dst mono_x mono_y ep i = (int i + sbox_x dst, col_first dst mono_x mono_y ep i)" if "int i < sbox_w dst" for i
    using that by (simp add: col_first_def col_start_def)
  have hd: "hd (persp_rows dst mono_x mono_y ep i) = col_first dst mono_x mono_y ep i \<and> persp_rows dst mono_x mono_y ep i \<noteq> []" if "int i < sbox_w dst" for i
  proof -
    have "[0 ..< nat (sbox_h dst)] = 0 # [Suc 0 ..< nat (sbox_h dst)]" using n by (simp add: upt_rec)
    then show ?thesis using first [OF that] by (simp add: persp_rows_def turn_rows_def turn_def)
  qed
  have ok: "coord_ok (col_start dst mono_x mono_y ep i)" if "int i < sbox_w dst" for i
    using first [OF that] that b by (simp add: start coord_ok_def box_ok_def)
  have msk: "list_ex (\<lambda>i. \<not> map (\<lambda>i. int i \<ge> sbox_w dst) [0 ..< OBOX_SIZE] ! i \<and>
      \<not> coord_ok (map (col_start dst mono_x mono_y ep) [0 ..< OBOX_SIZE] ! i)) [0 ..< OBOX_SIZE] = False"
    using ok by (auto simp: list_ex_iff) (meson not_le)
  show ?thesis unfolding persp_walk_start_def Let_def msk if_False persp_rel_def
    using w start hd by (intro exI conjI [OF refl]) (auto simp: walk_rel_def OBOX_SIZE_def)
qed

lemma col_mono_cases: "col_mono dst mono_x mono_y i \<in> {0, 1, 2, 3}"
proof -
  have "unat (drop_bit 7 v) < 2" for v :: u8
  proof -
    have "unat (drop_bit 7 v) = unat v div 128" unfolding unat_drop_bit_eq by (simp add: drop_bit_eq_div)
    moreover have "unat v < 256" by (rule order_less_le_trans [OF unsigned_less]) simp
    ultimately show ?thesis by simp
  qed
  then have "mono_bit v i < 2" for v by (simp add: mono_bit_def Let_def)
  from this [of mono_x] this [of mono_y] show ?thesis by (auto simp: col_mono_def)
qed

text \<open>The two phases empty the columns of each kind.\<close>

lemma phase_columns:
  assumes "0 < sbox_h dst" "\<And>i. i < nat (sbox_w dst) \<Longrightarrow> phase (dirs ! i) \<Longrightarrow> length (rem i) = nat (sbox_h dst)"
  shows "phase_size dst phase dirs = size (col_pixels X {i. i < nat (sbox_w dst) \<and> phase (dirs ! i)} rem)"
proof -
  have "phase_size dst phase dirs = (\<Sum>i \<in> {..<nat (sbox_w dst)}. if phase (dirs ! i) then nat (sbox_h dst) else 0)"
    by (simp add: phase_size_def interv_sum_list_conv_sum_set_nat atLeast0LessThan)
  also have "\<dots> = (\<Sum>i \<in> {..<nat (sbox_w dst)} \<inter> {i. phase (dirs ! i)}. nat (sbox_h dst))" by (subst sum.inter_restrict) simp_all
  also have "\<dots> = (\<Sum>i \<in> {i. i < nat (sbox_w dst) \<and> phase (dirs ! i)}. length (rem i))"
    by (rule sum.cong) (use assms(2) in auto)
  finally show ?thesis by (simp add: col_pixels_size)
qed

lemma col_pixels_disjoint:
  assumes "finite S" "finite T" "S \<inter> T = {}"
  shows "col_pixels X S rem + col_pixels X T rem = col_pixels X (S \<union> T) rem"
  using assms by (simp add: col_pixels_def sum.union_disjoint)

lemma col_pixels_cong: "(\<And>i. i \<in> S \<Longrightarrow> rem i = rem' i) \<Longrightarrow> col_pixels X S rem = col_pixels X S rem'"
  unfolding col_pixels_def by (rule sum.cong) simp_all

text \<open>The columns of the first phase are those whose two directions are equal.\<close>

lemma phase_sel:
  assumes "v \<in> {0, 1, 2, 3 :: nat}"
  shows "x_mono v = y_mono v \<longleftrightarrow> v = 0 \<or> v = 3" "x_mono v \<noteq> y_mono v \<longleftrightarrow> v = 1 \<or> v = 2" "\<not> (v = 0 \<or> v = 3) \<longleftrightarrow> v = 1 \<or> v = 2"
  using assms by (auto simp: x_mono_def y_mono_def INCREASE_def)

text \<open>Both phases together: the columns of one kind, then those of the other.\<close>

lemma persp_phases:
  assumes b: "box_ok src 4" "box_ok dst 4" and w: "sbox_w dst \<le> 64"
    and c: "dirs = map (col_mono dst mono_x mono_y) [0 ..< OBOX_SIZE]" "limit = map (col_limit dst ep) [0 ..< OBOX_SIZE]"
    and rem: "rem = (\<lambda>i. if i < nat (sbox_w dst) then persp_rows dst mono_x mono_y ep i else [])"
    and s0: "persp_rel src dst M z abgr al mono_x mono_y ep m s0 rem []"
  shows "\<exists>s1 s2 rem2 vs.
    walk_rounds (phase_size dst (\<lambda>v. v = 0 \<or> v = 3) dirs)
      (persp_walk_round (\<lambda>v. v = 0 \<or> v = 3) get_min_point_unified Assertion_fails src dst M z abgr al dirs limit) s0 = Inr s1 \<and>
    walk_rounds (phase_size dst (\<lambda>v. \<not> (v = 0 \<or> v = 3)) dirs)
      (persp_walk_round (\<lambda>v. v = 1 \<or> v = 2) get_min_point_ununified Out_of_bounds src dst M z abgr al dirs limit) s1 = Inr s2 \<and>
    persp_rel src dst M z abgr al mono_x mono_y ep m s2 rem2 vs \<and>
    mset vs = col_pixels (\<lambda>i. int i + sbox_x dst) {..<nat (sbox_w dst)} rem"
proof -
  let ?n = "nat (sbox_w dst)" and ?X = "\<lambda>i. int i + sbox_x dst"
  let ?P = "\<lambda>v :: nat. v = 0 \<or> v = 3" and ?Q = "\<lambda>v :: nat. v = 1 \<or> v = 2"
  let ?S = "{i. i < ?n \<and> ?P (dirs ! i)}" and ?T = "{i. i < ?n \<and> ?Q (dirs ! i)}"
  let ?R = "persp_rel src dst M z abgr al mono_x mono_y ep m"
  let ?f = "persp_walk_round ?P get_min_point_unified Assertion_fails src dst M z abgr al dirs limit"
  let ?g = "persp_walk_round ?Q get_min_point_ununified Out_of_bounds src dst M z abgr al dirs limit"
  have sel: "dirs ! i \<in> {0, 1, 2, 3}" if "i < OBOX_SIZE" for i
    using that col_mono_cases [of dst mono_x mono_y i] by (simp add: c(1))
  have "\<not> ?P (dirs ! i) \<longleftrightarrow> ?Q (dirs ! i)" if "i < ?n" for i
    by (rule phase_sel(3) [OF sel]) (use that w in \<open>simp add: OBOX_SIZE_def\<close>)
  then have T: "{i. i < ?n \<and> \<not> ?P (dirs ! i)} = ?T" by blast
  have h: "0 < sbox_h dst" using b(2) by (simp add: box_ok_def)
  have len: "length (persp_rows dst mono_x mono_y ep i) = nat (sbox_h dst)" for i by (simp add: persp_rows_def turn_rows_def)
  have gm: "get_min_point_unified = (\<lambda>points msk dirs. snd (fold (mono_round (\<lambda>v. x_mono v = y_mono v) points msk dirs) [0 ..< OBOX_SIZE] (None, None)))"
    "get_min_point_ununified = (\<lambda>points msk dirs. snd (fold (mono_round (\<lambda>v. x_mono v \<noteq> y_mono v) points msk dirs) [0 ..< OBOX_SIZE] (None, None)))"
    by (simp_all add: get_min_point_unified_def get_min_point_ununified_def fun_eq_iff)
  have n1: "phase_size dst ?P dirs = size (col_pixels ?X ?S rem)" by (rule phase_columns [OF h]) (simp add: rem len)
  have "\<exists>s' rem' vs'. walk_rounds (phase_size dst ?P dirs) ?f s0 = Inr s' \<and> ?R s' rem' vs' \<and> mset vs' = mset [] + col_pixels ?X ?S rem \<and>
      (\<forall>i \<in> ?S. rem' i = []) \<and> (\<forall>i. i \<notin> ?S \<longrightarrow> rem' i = rem i)"
    by (rule walk_all [where Rel = ?R, OF _ persp_step [OF b w c gm(1) phase_sel(1) [OF sel]] s0 n1]) simp_all
  then obtain s1 rem1 vs1 where p1: "walk_rounds (phase_size dst ?P dirs) ?f s0 = Inr s1" "?R s1 rem1 vs1"
    "mset vs1 = col_pixels ?X ?S rem" "\<forall>i. i \<notin> ?S \<longrightarrow> rem1 i = rem i" by auto
  have same: "col_pixels ?X ?T rem1 = col_pixels ?X ?T rem" by (rule col_pixels_cong) (use p1(4) in auto)
  have n2: "phase_size dst (\<lambda>v. \<not> ?P v) dirs = size (col_pixels ?X ?T rem1)" unfolding T [symmetric]
    by (rule phase_columns [OF h]) (use p1(4) len in \<open>auto simp: rem\<close>)
  have "\<exists>s' rem' vs'. walk_rounds (phase_size dst (\<lambda>v. \<not> ?P v) dirs) ?g s1 = Inr s' \<and> ?R s' rem' vs' \<and> mset vs' = mset vs1 + col_pixels ?X ?T rem1 \<and>
      (\<forall>i \<in> ?T. rem' i = []) \<and> (\<forall>i. i \<notin> ?T \<longrightarrow> rem' i = rem1 i)"
    by (rule walk_all [where Rel = ?R, OF _ persp_step [OF b w c gm(2) phase_sel(2) [OF sel]] p1(2) n2]) simp_all
  then obtain s2 rem2 vs2 where p2: "walk_rounds (phase_size dst (\<lambda>v. \<not> ?P v) dirs) ?g s1 = Inr s2" "?R s2 rem2 vs2"
    "mset vs2 = col_pixels ?X ?S rem + col_pixels ?X ?T rem" unfolding same p1(3) by auto
  have "?S \<union> ?T = {..<?n}" unfolding T [symmetric] by auto
  moreover have "col_pixels ?X ?S rem + col_pixels ?X ?T rem = col_pixels ?X (?S \<union> ?T) rem" by (rule col_pixels_disjoint) auto
  ultimately have "mset vs2 = col_pixels ?X {..<?n} rem" using p2(3) by simp
  with p1(1) p2(1,2) show ?thesis by blast
qed

lemma persp_pixels:
  assumes b: "box_ok dst 4"
    and vs: "mset vs = col_pixels (\<lambda>i. int i + sbox_x dst) {..<nat (sbox_w dst)}
      (\<lambda>i. if i < nat (sbox_w dst) then persp_rows dst mono_x mono_y ep i else [])"
  shows "distinct vs" "set vs = {sbox_y dst .. sbox_h dst + sbox_y dst - 1} \<times> {sbox_x dst .. sbox_w dst + sbox_x dst - 1}"
proof -
  let ?n = "nat (sbox_w dst)" and ?X = "\<lambda>i. int i + sbox_x dst"
  define ps where "ps = concat (map (\<lambda>i. map (\<lambda>y. (y, ?X i)) (persp_rows dst mono_x mono_y ep i)) [0 ..< ?n])"
  have mps: "mset vs = mset ps" unfolding vs ps_def by (rule col_pixels_list)
  have inj: "inj_on ?X {..<?n}" by (auto simp: inj_on_def)
  have "x \<in> ?X ` {..<?n}" if "x \<in> {sbox_x dst .. sbox_w dst + sbox_x dst - 1}" for x
    using that by (intro image_eqI [of _ _ "nat (x - sbox_x dst)"]) auto
  moreover have "x \<in> {sbox_x dst .. sbox_w dst + sbox_x dst - 1}" if "x \<in> ?X ` {..<?n}" for x using that by auto
  ultimately have X: "?X ` {..<?n} = {sbox_x dst .. sbox_w dst + sbox_x dst - 1}" by blast
  show "distinct vs" "set vs = {sbox_y dst .. sbox_h dst + sbox_y dst - 1} \<times> {sbox_x dst .. sbox_w dst + sbox_x dst - 1}"
    using columns_pixels [OF ps_def inj, of "{sbox_y dst .. sbox_h dst + sbox_y dst - 1}"] persp_rows_all [OF b]
      mset_eq_imp_distinct_iff [OF mps] mset_eq_setD [OF mps] X by simp_all
qed

text \<open>C15. The walk of a perspective matrix fills every pixel of the box once and leaves in memory what
  the plain loop leaves. The order of the phases is the one of the code (first the columns whose two
  directions agree, then the others); the directions and turning rows of the columns may be any. The
  box has at most 64 columns and 64 rows of four-byte pixels and its areas do not overlap.\<close>

theorem persp_walk_is_simple:
  assumes "boxes_ok src dst 4" "sbox_w dst \<le> 64" "sbox_h dst \<le> 64" "base0 src \<noteq> 0" "base0 dst \<noteq> 0"
  shows "bs_perspective_box_rgb_complex src dst M z abgr al mono_x mono_y ep m =
    res_bind (bs_perspective_box_rgb_simple src dst M z abgr al m) (\<lambda>m'. Inr ([], m'))"
proof -
  have b: "box_ok src 4" "box_ok dst 4" using assms(1) by (simp_all add: boxes_ok_def)
  define dirs where "dirs = map (col_mono dst mono_x mono_y) [0 ..< OBOX_SIZE]"
  define limit where "limit = map (col_limit dst ep) [0 ..< OBOX_SIZE]"
  obtain s0 where s0: "persp_walk_start dst M mono_x mono_y ep m = Inr s0"
    "persp_rel src dst M z abgr al mono_x mono_y ep m s0 (\<lambda>i. if i < nat (sbox_w dst) then persp_rows dst mono_x mono_y ep i else []) []"
    using persp_start [OF b(2) assms(2)] by metis
  from persp_phases [OF b assms(2) dirs_def limit_def refl s0(2)] obtain s1 s2 rem2 vs where
    p: "walk_rounds (phase_size dst (\<lambda>v. v = 0 \<or> v = 3) dirs)
      (persp_walk_round (\<lambda>v. v = 0 \<or> v = 3) get_min_point_unified Assertion_fails src dst M z abgr al dirs limit) s0 = Inr s1"
    "walk_rounds (phase_size dst (\<lambda>v. \<not> (v = 0 \<or> v = 3)) dirs)
      (persp_walk_round (\<lambda>v. v = 1 \<or> v = 2) get_min_point_ununified Out_of_bounds src dst M z abgr al dirs limit) s1 = Inr s2"
    and r: "persp_rel src dst M z abgr al mono_x mono_y ep m s2 rem2 vs"
    and vs: "mset vs = col_pixels (\<lambda>i. int i + sbox_x dst) {..<nat (sbox_w dst)} (\<lambda>i. if i < nat (sbox_w dst) then persp_rows dst mono_x mono_y ep i else [])"
    by blast
  note px = persp_pixels [OF b(2) vs]
  obtain cs where cs: "for_yx dst = Some cs" using for_yx_ok [OF b(2)] by blast
  have "wk_mem s2 = fold (rgb_byte src dst z abgr al (perspective_dst2src M)) (List.product cs [0 .. 3]) m"
    using r box_order [OF assms(1) _ px, of "perspective_dst2src M"] yx_rounds [OF b(2) cs, of 4]
    by (simp add: persp_rel_def walk_rel_def)
  moreover have "bad_hits dst (wk_hit s2) = []" by (rule no_bad_hits [OF _ px]) (use r in \<open>simp add: persp_rel_def walk_rel_def\<close>)
  ultimately show ?thesis using assms(2-5) s0(1) p
    by (simp add: bs_perspective_box_rgb_complex_def bs_perspective_box_rgb_simple_def cs Let_def flip: dirs_def limit_def)
qed

theorem persp_walk_is_simple_witness:
  "bs_perspective_box_rgb_complex (sample_box 0x1000) (sample_box 0x2000) [2 ^ 16, 300, 0, - 300, - (2 ^ 16), 2 ^ 17, 5, 7, 2 ^ 16] 0 False 0xFF 0x82 0x01 [0, 1, 2, 0x80] (\<lambda>a. ucast a) =
   res_bind (bs_perspective_box_rgb_simple (sample_box 0x1000) (sample_box 0x2000) [2 ^ 16, 300, 0, - 300, - (2 ^ 16), 2 ^ 17, 5, 7, 2 ^ 16] 0 False 0xFF (\<lambda>a. ucast a)) (\<lambda>m. Inr ([], m))"
  by (rule persp_walk_is_simple [OF sample_boxes]) (simp_all add: sample_box_def)

end
