(* ===== verification/MdlBsc.thy ===== *)
theory MdlBsc
  imports MdlPersp
begin

text \<open>
  The C part of the software model of the T40 scaler (\<open>bscaler/source/model/bscaler_mdl.c\<close>): one job of resizing or
  warping (\<open>bsc_mdl\<close> on a \<open>bsc_hw_once_cfg_s\<close>), with colour conversion before it, the vertical enlargement
  before a resize, many boxes of one source (line mode), and the check sums.
  Buffers from \<open>malloc\<close> are arguments: \<open>None\<close> is NULL, which the program only reports before
  it uses the buffer. A vertical enlargement is by 2 to the power of at most 16.
\<close>

section \<open>NV12 to RGB\<close>

text \<open>\<open>nv12_to_rgb\<close> computes offsets in \<open>int\<close>, where \<open>bst_nv2bgr\<close> computes them unsigned.\<close>

definition nv12_quad :: "bs_box \<Rightarrow> bs_box \<Rightarrow> nat \<Rightarrow> u32 list \<Rightarrow> u8 list \<Rightarrow> u8 \<Rightarrow> int \<times> int \<Rightarrow> mem \<Rightarrow> mem" where
  "nv12_quad src dst rgb_order coef ofst nv2bgr_alpha = (\<lambda>(y, x) m.
     let s = stride0 src;
         pix_y0 = m (at (base0 src) (s * y + x)); pix_y1 = m (at (base0 src) (s * y + x + 1));
         pix_y2 = m (at (base0 src) (s * (y + 1) + x)); pix_y3 = m (at (base0 src) (s * (y + 1) + (x + 1)));
         c = s32 (stride1 src * y) sdiv 2 + x;
         pix_u = m (at (base1 src) c); pix_v = m (at (base1 src) (c + 1));
         dst_ptr = at (base0 dst) (stride0 dst * y + x * 4);
         m = yuv2rgb pix_y0 pix_u pix_v coef ofst nv2bgr_alpha rgb_order dst_ptr m;
         m = yuv2rgb pix_y1 pix_u pix_v coef ofst nv2bgr_alpha rgb_order (dst_ptr + 4) m;
         m = yuv2rgb pix_y2 pix_u pix_v coef ofst nv2bgr_alpha rgb_order (at dst_ptr (stride0 dst)) m
     in yuv2rgb pix_y3 pix_u pix_v coef ofst nv2bgr_alpha rgb_order (at dst_ptr (stride0 dst) + 4) m)"

definition nv12_to_rgb :: "bs_box \<Rightarrow> bs_box \<Rightarrow> nat \<Rightarrow> u32 list \<Rightarrow> u8 list \<Rightarrow> u8 \<Rightarrow> mem \<Rightarrow> mdl_stop + mem" where
  "nv12_to_rgb src dst rgb_order coef ofst nv2bgr_alpha m =
     (if stride0 src \<noteq> stride1 src then Inl Assertion_fails
      else Inr (fold (nv12_quad src dst rgb_order coef ofst nv2bgr_alpha)
        (List.product (evens (sbox_h src)) (evens (sbox_w src))) m))"

section \<open>Resizing one box of a line\<close>

text \<open>Besides the box, the frame it was cut from bounds what may be read.\<close>

definition line_out :: "bs_box \<Rightarrow> int \<Rightarrow> int \<Rightarrow> int \<Rightarrow> int \<Rightarrow> bool" where
  "line_out src wbox_w wbox_h px py \<longleftrightarrow>
     px < 0 \<or> px > u16 (sbox_w src + 0 - 1) \<or> px + sbox_x src > wbox_w - 1 \<or> px + sbox_x src < 0 \<or>
     py < 0 \<or> py > u16 (sbox_h src + 0 - 1) \<or> py + sbox_y src > wbox_h - 1 \<or> py + sbox_y src < 0"

definition line_sample :: "bs_box \<Rightarrow> int \<Rightarrow> int \<Rightarrow> int \<Rightarrow> u8 \<Rightarrow> int \<times> int \<times> int \<times> int \<Rightarrow> int \<Rightarrow> mem \<Rightarrow> u8" where
  "line_sample src bpp wbox_w wbox_h zero_point = (\<lambda>(sx_p, sy_p, sx_w, sy_w) k m.
     let sx_p1 = s16 (sx_p + 1); sy_p1 = s16 (sy_p + 1);
         out = line_out src wbox_w wbox_h;
         p00 = (sy_p + sbox_y src) * stride0 src + (sx_p + sbox_x src) * bpp + k
     in bilinear_bpp bpp (neighbour src zero_point (out sx_p sy_p) p00 m) (neighbour src zero_point (out sx_p1 sy_p) (p00 + bpp) m)
          (neighbour src zero_point (out sx_p sy_p1) (p00 + stride0 src) m)
          (neighbour src zero_point (out sx_p1 sy_p1) (p00 + stride0 src + bpp) m) sx_w sy_w)"

definition line_byte :: "bs_box \<Rightarrow> bs_box \<Rightarrow> int \<Rightarrow> int list \<Rightarrow> int \<Rightarrow> int \<Rightarrow> u8 \<Rightarrow> bool \<Rightarrow> u8 \<Rightarrow> (int \<times> int) \<times> int \<Rightarrow> mem \<Rightarrow> mem" where
  "line_byte src dst bpp coef wbox_w wbox_h zero_point is_abgr_order nv2bgr_alpha = (\<lambda>((dy, dx), k) m.
     m(at (base0 dst) (dst_idx dst bpp dx dy + k) :=
       if bpp = 4 \<and> is_alpha is_abgr_order k then nv2bgr_alpha
       else line_sample src bpp wbox_w wbox_h zero_point (resize_place coef dx dy) k m))"

definition bs_resize_line_chn_base :: "bs_box \<Rightarrow> bs_box \<Rightarrow> int \<Rightarrow> int list \<Rightarrow> int \<Rightarrow> int \<Rightarrow> u8 \<Rightarrow> bool \<Rightarrow> u8 \<Rightarrow> mem \<Rightarrow> mdl_stop + mem" where
  "bs_resize_line_chn_base src dst bpp coef wbox_w wbox_h zero_point is_abgr_order nv2bgr_alpha m =
     (if base0 src = 0 \<or> base0 dst = 0 then Inl Assertion_fails
      else case for_yx dst of
        None \<Rightarrow> Inl Endless_loop
      | Some cs \<Rightarrow> Inr (fold (line_byte src dst bpp coef wbox_w wbox_h zero_point is_abgr_order nv2bgr_alpha)
          (List.product cs [0 .. bpp - 1]) m))"

section \<open>Vertical enlargement\<close>

text \<open>The rounds of \<open>bs_amplify_height\<close> and of its variant for lines. The latter tests a row against 0, and still subtracts the
  box's place from it.\<close>

definition amplify_byte :: "bs_box \<Rightarrow> bs_box \<Rightarrow> nat \<Rightarrow> int \<Rightarrow> u8 \<Rightarrow> int \<Rightarrow> (int \<times> int) \<times> int \<Rightarrow> int \<Rightarrow> mem \<Rightarrow> mem" where
  "amplify_byte src dst y_gain_exp bpp zero_point first_row = (\<lambda>((dy, dx), k) di m.
     let sx_p = s16 dx; sy_p = s16 (dy div 2 ^ y_gain_exp); sy_w = u16 (dy * 2 ^ (MAT_ACC - y_gain_exp));
         sy_p1 = s16 (sy_p + 1);
         last_row = u16 (sbox_h src + sbox_y src - 1);
         p00_over = (sy_p < first_row \<or> sy_p > last_row); p10_over = (sy_p1 < first_row \<or> sy_p1 > last_row);
         p00_idx = p00_idx src bpp sx_p sy_p + k
     in m(at (base0 dst) (di + k) :=
          bilinear_bpp bpp (neighbour src zero_point p00_over p00_idx m) 0
            (neighbour src zero_point p10_over (p00_idx + stride0 src) m) 0 0 sy_w))"

definition bs_amplify_height :: "bs_box \<Rightarrow> bs_box \<Rightarrow> nat \<Rightarrow> int \<Rightarrow> u8 \<Rightarrow> mem \<Rightarrow> mem" where
  "bs_amplify_height src dst y_gain_exp bpp zero_point m =
     fold (\<lambda>((dy, dx), k). amplify_byte src dst y_gain_exp bpp zero_point (sbox_y src) ((dy, dx), k) (dst_idx dst bpp dx dy))
       (List.product (List.product [u16 (sbox_y dst) .. u16 (sbox_h dst + sbox_y dst) - 1] [u16 (sbox_x dst) .. u16 (sbox_w dst + sbox_x dst) - 1])
          [0 .. bpp - 1]) m"

definition bs_amplify_height_line :: "bs_box \<Rightarrow> bs_box \<Rightarrow> nat \<Rightarrow> int \<Rightarrow> u8 \<Rightarrow> mem \<Rightarrow> mdl_stop + mem" where
  "bs_amplify_height_line src dst y_gain_exp bpp zero_point m =
     (case for_yx (dst\<lparr>sbox_x := 0, sbox_y := 0\<rparr>) of
        None \<Rightarrow> Inl Endless_loop
      | Some cs \<Rightarrow> Inr (fold (\<lambda>((dy, dx), k). amplify_byte src dst y_gain_exp bpp zero_point 0 ((dy, dx), k) (dy * stride0 dst + dx * bpp))
          (List.product cs [0 .. bpp - 1]) m))"

section \<open>Resizing\<close>

definition mem_zero :: "u32 \<Rightarrow> nat \<Rightarrow> mem \<Rightarrow> mem" where
  "mem_zero p n m = fold (\<lambda>i m. m(p + of_nat i := 0)) [0 ..< n] m"

definition buffer :: "u32 option \<Rightarrow> (u32 \<Rightarrow> mdl_stop + 'a) \<Rightarrow> mdl_stop + 'a" where
  "buffer p f = (case p of None \<Rightarrow> Inl Null_pointer | Some a \<Rightarrow> f a)"

definition u32_size :: "int \<Rightarrow> nat" where "u32_size v = nat (v mod 2 ^ 32)"

definition is_abgr :: "nat \<Rightarrow> bool" where "is_abgr nv2bgr_order \<longleftrightarrow> bit nv2bgr_order 3"

definition bs_resize_box_chn :: "u32 option \<Rightarrow> bs_box \<Rightarrow> bs_box \<Rightarrow> int list \<Rightarrow> int \<Rightarrow> nat \<Rightarrow> u8 \<Rightarrow> bool \<Rightarrow> u8 \<Rightarrow> mem \<Rightarrow> mdl_stop + mem" where
  "bs_resize_box_chn amplify_buf src dst coef bpp y_gain_exp zero_point is_abgr_order nv2bgr_alpha m =
     (if y_gain_exp = 0 then bs_resize_chn_base src dst bpp coef zero_point is_abgr_order nv2bgr_alpha m
      else buffer amplify_buf (\<lambda>a.
        let y_gain = 2 ^ y_gain_exp;
            m = mem_zero a (u32_size (sbox_w src * bpp * sbox_h src * y_gain)) m;
            tmp = src\<lparr>base0 := a, base1 := 0, stride0 := sbox_w src * bpp, stride1 := sbox_w src * bpp,
              sbox_y := s32 (sbox_y src * y_gain), sbox_h := s32 (sbox_h src * y_gain)\<rparr>;
            m = bs_amplify_height src tmp y_gain_exp bpp zero_point m
        in bs_resize_chn_base tmp dst bpp coef zero_point is_abgr_order nv2bgr_alpha m))"

text \<open>The RGB image of an NV12 box: the same box in a buffer without gaps.\<close>

definition rgb_box :: "bs_box \<Rightarrow> u32 \<Rightarrow> bs_box" where
  "rgb_box src a = src\<lparr>base0 := a, base1 := 0, stride0 := sbox_w src * 4, stride1 := 0, bx_format := 1, bx_chn := 4\<rparr>"

definition bs_resize_box :: "u32 option \<Rightarrow> u32 option \<Rightarrow> bs_box \<Rightarrow> bs_box \<Rightarrow> int list \<Rightarrow> u32 list \<Rightarrow> u8 list \<Rightarrow> u8 \<Rightarrow> nat \<Rightarrow> int \<Rightarrow> nat \<Rightarrow> u8 \<Rightarrow>
    mem \<Rightarrow> mdl_stop + mem" where
  "bs_resize_box rgb_buf amplify_buf src dst scale_coef nv2bgr_coef nv2bgr_ofst nv2bgr_alpha nv2bgr_order bpp y_gain_exp zero_point m =
     (let resize = (\<lambda>b. bs_resize_box_chn amplify_buf b dst scale_coef bpp y_gain_exp zero_point (is_abgr nv2bgr_order) nv2bgr_alpha)
      in if bx_format src = 0
         then buffer rgb_buf (\<lambda>a. res_bind (nv12_to_rgb src (rgb_box src a) nv2bgr_order nv2bgr_coef nv2bgr_ofst nv2bgr_alpha m) (resize (rgb_box src a)))
         else resize src m)"

text \<open>\<open>bs_resize_line\<close>: six words for each box; place and size are in halves of the first two.\<close>

definition line_box :: "bs_box \<Rightarrow> u32 list \<Rightarrow> nat \<Rightarrow> nat \<Rightarrow> bs_box" where
  "line_box src frmc_box y_gain_exp idx =
     (let w0 = frmc_box ! (idx * 6); w1 = frmc_box ! (idx * 6 + 1)
      in src\<lparr>base1 := 0, stride1 := 0,
           sbox_x := uint w0 mod 2 ^ 16, sbox_y := u16 (uint w0 div 2 ^ 16 * 2 ^ y_gain_exp),
           sbox_w := uint w1 mod 2 ^ 16, sbox_h := u16 (uint w1 div 2 ^ 16 * 2 ^ y_gain_exp)\<rparr>)"

definition line_coef :: "u32 list \<Rightarrow> nat \<Rightarrow> int list" where
  "line_coef frmc_box idx = map (\<lambda>i. sint (frmc_box ! (idx * 6 + 2 + i))) [0 ..< 4]"

fun line_boxes :: "nat list \<Rightarrow> bs_box \<Rightarrow> bs_box \<Rightarrow> int \<Rightarrow> nat \<Rightarrow> u32 list \<Rightarrow> u32 list \<Rightarrow> u8 \<Rightarrow> bool \<Rightarrow> u8 \<Rightarrow> mem \<Rightarrow> mdl_stop + mem" where
  "line_boxes [] src dst bpp y_gain_exp frmc_box dst_base zero_point is_abgr_order nv2bgr_alpha m = Inr m"
| "line_boxes (idx # is) src dst bpp y_gain_exp frmc_box dst_base zero_point is_abgr_order nv2bgr_alpha m =
     (if idx * 6 + 5 \<ge> length frmc_box \<or> idx \<ge> length dst_base then Inl Out_of_bounds
      else res_bind (bs_resize_line_chn_base (line_box src frmc_box y_gain_exp idx) (dst\<lparr>base0 := dst_base ! idx\<rparr>) bpp
             (line_coef frmc_box idx) (u16 (sbox_w src)) (u16 (sbox_h src)) zero_point is_abgr_order nv2bgr_alpha m)
           (line_boxes is src dst bpp y_gain_exp frmc_box dst_base zero_point is_abgr_order nv2bgr_alpha))"

definition line_amplified :: "u32 option \<Rightarrow> bs_box \<Rightarrow> bs_box \<Rightarrow> int \<Rightarrow> nat \<Rightarrow> u8 \<Rightarrow> mem \<Rightarrow> mdl_stop + bs_box \<times> mem" where
  "line_amplified amplify_buf src final_src bpp y_gain_exp zero_point m =
     (if y_gain_exp = 0 then Inr (final_src, m)
      else buffer amplify_buf (\<lambda>a.
        let y_gain = 2 ^ y_gain_exp;
            m = mem_zero a (u32_size (sbox_w src * bpp * sbox_h src * y_gain)) m;
            amplify = src\<lparr>base0 := a, base1 := 0, stride0 := sbox_w src * bpp, stride1 := sbox_w src * bpp,
              sbox_x := 0, sbox_y := 0, sbox_h := s32 (sbox_h src * y_gain)\<rparr>
        in res_bind (bs_amplify_height_line final_src amplify y_gain_exp bpp zero_point m) (\<lambda>m. Inr (amplify, m))))"

definition bs_resize_line :: "u32 option \<Rightarrow> u32 option \<Rightarrow> bs_box \<Rightarrow> bs_box \<Rightarrow> u32 list \<Rightarrow> u8 list \<Rightarrow> u8 \<Rightarrow> nat \<Rightarrow> int \<Rightarrow> nat \<Rightarrow> u32 list \<Rightarrow> nat \<Rightarrow>
    u32 list \<Rightarrow> u8 \<Rightarrow> mem \<Rightarrow> mdl_stop + mem" where
  "bs_resize_line rgb_buf amplify_buf src dst nv2bgr_coef nv2bgr_ofst nv2bgr_alpha nv2bgr_order bpp y_gain_exp frmc_box frmc_box_num dst_base zero_point m =
     res_bind
       (if bx_format src = 0
        then buffer rgb_buf (\<lambda>a.
          let rgb_src = (rgb_box src a)\<lparr>sbox_x := 0, sbox_y := 0\<rparr>
          in res_bind (nv12_to_rgb src rgb_src nv2bgr_order nv2bgr_coef nv2bgr_ofst nv2bgr_alpha m) (\<lambda>m. Inr (rgb_src, m)))
        else Inr (src, m)) (\<lambda>(final_src, m).
     res_bind (line_amplified amplify_buf src final_src bpp y_gain_exp zero_point m) (\<lambda>(final_src, m).
     line_boxes [0 ..< frmc_box_num] final_src dst bpp y_gain_exp frmc_box dst_base zero_point (is_abgr nv2bgr_order) nv2bgr_alpha m))"

section \<open>Warping\<close>

text \<open>\<open>bs_affine_box_nv12\<close>: the source has a pair of chroma bytes for each pixel; the pair of a
  destination square is written four times.\<close>

definition nv12_round :: "bs_box \<Rightarrow> bs_box \<Rightarrow> int list \<Rightarrow> u8 list \<Rightarrow> int \<times> int \<Rightarrow> mem \<Rightarrow> mem" where
  "nv12_round src dst matrix ofst = (\<lambda>(dy, dx) m.
     let (sx_p, sy_p, sx_w, sy_w) = (if is_perspective matrix then perspective_dst2src matrix dx dy else affine_dst2src matrix dx dy);
         (o0, o1, o2, o3) = box_bound_check src sx_p sy_p;
         y_idx = (sy_p - sbox_y src) * stride0 src + (sx_p - sbox_x src) * 1;
         c_idx = (sy_p - sbox_y src) * stride1 src + (sx_p - sbox_x src) * 2;
         pix = (\<lambda>base idx d s zero m. bilinear_u8 (if o0 then zero else m (at base idx)) (if o1 then zero else m (at base (idx + d)))
           (if o2 then zero else m (at base (idx + s))) (if o3 then zero else m (at base (idx + s + d))) sx_w sy_w);
         dst_u_idx = (dy - sbox_y dst) sdiv 2 * stride0 dst + (dx - sbox_x dst) sdiv 2 * 2;
         m = m(at (base0 dst) ((dy - sbox_y dst) * stride0 dst + (dx - sbox_x dst)) := pix (base0 src) y_idx 1 (stride0 src) (ofst ! 0) m);
         m = m(at (base1 dst) dst_u_idx := pix (base1 src) c_idx 2 (stride1 src) (ofst ! 1) m)
     in m(at (base1 dst) (dst_u_idx + 1) := pix (base1 src) (c_idx + 1) 2 (stride1 src) (ofst ! 1) m))"

definition bs_affine_box_nv12 :: "bs_box \<Rightarrow> bs_box \<Rightarrow> int list \<Rightarrow> u8 list \<Rightarrow> mem \<Rightarrow> mem" where
  "bs_affine_box_nv12 src dst matrix ofst m =
     fold (nv12_round src dst matrix ofst)
       (List.product [u16 (sbox_y dst) .. u16 (sbox_h dst + sbox_y dst) - 1] [u16 (sbox_x dst) .. u16 (sbox_w dst + sbox_x dst) - 1]) m"

text \<open>\<open>nv12_to_yuv444\<close>: a row of luma, then a pair of chroma bytes for each of its pixels.\<close>

definition yuv444_row :: "bs_box \<Rightarrow> bs_box \<Rightarrow> int \<Rightarrow> mem \<Rightarrow> mem" where
  "yuv444_row src dst y m =
     (let m = memcpy (at (base0 dst) (y * stride0 dst)) (at (base0 src) (y * stride0 src)) (nat (sbox_w src)) m;
          dst_uv_ptr = at (base1 dst) (y * stride1 dst); src_uv_ptr = at (base1 src) (y div 2 * stride0 src)
      in fold (\<lambda>x m. let u = m (at src_uv_ptr (2 * (x div 2))); v = m (at src_uv_ptr (2 * (x div 2) + 1))
           in m(at dst_uv_ptr (2 * x) := u, at dst_uv_ptr (2 * x + 1) := v)) [0 .. sbox_w src - 1] m)"

definition nv12_to_yuv444 :: "bs_box \<Rightarrow> bs_box \<Rightarrow> mem \<Rightarrow> mem" where
  "nv12_to_yuv444 src dst m = fold (yuv444_row src dst) [0 .. sbox_h src - 1] m"

definition bs_affine_box_nv12_to_nv12 :: "u32 option \<Rightarrow> bs_box \<Rightarrow> bs_box \<Rightarrow> int list \<Rightarrow> u8 list \<Rightarrow> mem \<Rightarrow> mdl_stop + mem" where
  "bs_affine_box_nv12_to_nv12 tmp_base src dst matrix ofst m =
     buffer tmp_base (\<lambda>a.
       let tmp = src\<lparr>base0 := a, base1 := at a (sbox_w src * sbox_h src), stride0 := sbox_w src, stride1 := sbox_w src * 2\<rparr>
       in Inr (bs_affine_box_nv12 tmp dst matrix ofst (nv12_to_yuv444 src tmp m)))"

definition bs_affine_box_rgb_to_rgb :: "bs_box \<Rightarrow> bs_box \<Rightarrow> int list \<Rightarrow> u8 \<Rightarrow> bool \<Rightarrow> u8 \<Rightarrow> mem \<Rightarrow> mdl_stop + mem" where
  "bs_affine_box_rgb_to_rgb src dst matrix zero_point is_abgr_order nv2bgr_alpha m =
     (if is_perspective matrix then bs_perspective_box_rgb_simple src dst matrix zero_point is_abgr_order nv2bgr_alpha m
      else Inr (bs_affine_box_rgb src dst matrix zero_point is_abgr_order nv2bgr_alpha m))"

definition bs_affine_box_nv12_to_rgb :: "u32 option \<Rightarrow> bs_box \<Rightarrow> bs_box \<Rightarrow> int list \<Rightarrow> u32 list \<Rightarrow> u8 list \<Rightarrow> u8 \<Rightarrow> nat \<Rightarrow> u8 \<Rightarrow> mem \<Rightarrow> mdl_stop + mem" where
  "bs_affine_box_nv12_to_rgb rgb_buf src dst matrix coef ofst nv2bgr_alpha nv2bgr_order zero_point m =
     buffer rgb_buf (\<lambda>a.
       let src_rgb = (rgb_box src a)\<lparr>bx_format := bx_format src, bx_chn := bx_chn src\<rparr>
       in res_bind (nv12_to_rgb src src_rgb nv2bgr_order coef ofst nv2bgr_alpha m) (\<lambda>m.
          if is_perspective matrix
          then bs_perspective_box_rgb_simple src_rgb dst matrix zero_point (is_abgr nv2bgr_order) nv2bgr_alpha m
          else res_bind (bs_affine_box_rgb_complex src_rgb dst matrix zero_point (is_abgr nv2bgr_order) nv2bgr_alpha m) (\<lambda>(_, m). Inr m)))"

definition bs_affine_box :: "u32 option \<Rightarrow> bs_box \<Rightarrow> bs_box \<Rightarrow> int list \<Rightarrow> u32 list \<Rightarrow> u8 list \<Rightarrow> u8 \<Rightarrow> nat \<Rightarrow> u8 \<Rightarrow> mem \<Rightarrow> mdl_stop + mem" where
  "bs_affine_box buf src dst matrix coef ofst nv2bgr_alpha nv2bgr_order zero_point m =
     (if bx_format src = 0 \<and> bx_format dst = 0 then bs_affine_box_nv12_to_nv12 buf src dst matrix ofst m
      else if bx_format src = 0 \<and> bx_format dst = 1
      then bs_affine_box_nv12_to_rgb buf src dst matrix coef ofst nv2bgr_alpha nv2bgr_order zero_point m
      else if bx_format src = 1 \<and> bx_format dst = 1
      then bs_affine_box_rgb_to_rgb src dst matrix zero_point (is_abgr nv2bgr_order) nv2bgr_alpha m
      else Inl Assertion_fails)"

section \<open>One job\<close>

record bsc_cfg =
  cb_src_base0 :: u32
  cb_src_base1 :: u32
  cb_src_format :: nat
  cb_src_line_stride :: u32
  cb_src_box_x :: u32
  cb_src_box_y :: u32
  cb_src_box_w :: u32
  cb_src_box_h :: u32
  cb_dst_format :: nat
  cb_dst_line_stride :: u32
  cb_dst_box_x :: u32
  cb_dst_box_y :: u32
  cb_dst_box_w :: u32
  cb_dst_box_h :: u32
  cb_affine :: bool
  cb_box_mode :: bool
  cb_y_gain_exp :: nat
  cb_zero_point :: u8
  cb_nv2bgr_alpha :: u8
  cb_coef :: "u32 list"
  cb_offset :: "u8 list"
  cb_matrix :: "u32 list"
  cb_box_num :: nat
  cb_dst_base :: "u32 list"
  cb_boxes_info :: "u32 list option"

text \<open>The check sums. The chroma sum of the input uses the counter the luma loops left at 1, so it begins
  one byte late.\<close>

definition bscaler_frmc_calc_isum :: "u32 \<Rightarrow> u32 \<Rightarrow> nat \<Rightarrow> nat \<Rightarrow> u32 \<Rightarrow> nat \<Rightarrow> nat \<Rightarrow> mdl \<Rightarrow> mdl" where
  "bscaler_frmc_calc_isum ybase cbase w h ps format bpp s =
     (let bpp_sel = (if format = 0 then 1 else bpp); byte_num = bpp_sel;
          luma = sum_list (map (\<lambda>((y, x), b). ucast (mm s (ybase + of_nat y * ps + of_nat (x * bpp_sel + b))))
            (List.product (List.product [0 ..< h] [0 ..< w]) [0 ..< bpp_sel]));
          chroma = (if format = 0
            then sum_list (map (\<lambda>(y, x). ucast (mm s (cbase + of_nat y * ps + of_nat (x * bpp_sel + byte_num)))) (List.product [0 ..< h div 2] [0 ..< w]))
            else 0)
      in s\<lparr>bsc_isum := bsc_isum s + luma + chroma\<rparr>)"

definition bscaler_frmc_calc_osum :: "u32 list \<Rightarrow> nat \<Rightarrow> nat \<Rightarrow> nat \<Rightarrow> u32 \<Rightarrow> nat \<Rightarrow> nat \<Rightarrow> mdl \<Rightarrow> mdl" where
  "bscaler_frmc_calc_osum base_dst box_num w h ps format bpp s =
     s\<lparr>bsc_osum := bsc_osum s +
       (if format = 0 then sum_bytes (base_dst ! 0) w h ps (mm s) + sum_bytes (base_dst ! 1) w (h div 2) ps (mm s)
        else sum_list (map (\<lambda>bid. sum_bytes (base_dst ! bid) (w * bpp) h ps (mm s)) [0 ..< box_num]))\<rparr>"

text \<open>\<open>bsc_cfg_check\<close>; the destination array has 64 entries.\<close>

definition bsc_cfg_check :: "bsc_cfg \<Rightarrow> mdl_stop option" where
  "bsc_cfg_check cfg =
     (if cb_src_base0 cfg = 0 \<or> cb_dst_base cfg ! 0 = 0 then Some Assertion_fails
      else if cb_src_format cfg = 0 \<and> cb_src_base1 cfg = 0 then Some Assertion_fails
      else if cb_dst_format cfg = 0 \<and> cb_dst_base cfg ! 1 = 0 then Some Assertion_fails
      else if \<not> cb_box_mode cfg \<and> (cb_boxes_info cfg = None \<or> list_ex (\<lambda>i. cb_dst_base cfg ! i = 0) [0 ..< min 64 (cb_box_num cfg)]) then Some Assertion_fails
      else if \<not> cb_box_mode cfg \<and> cb_box_num cfg > 64 then Some Out_of_bounds
      else None)"

definition bsc_bpp :: "bsc_cfg \<Rightarrow> nat" where
  "bsc_bpp cfg = 2 ^ (cb_src_format cfg div 32 mod 4 + 2)"

definition bsc_order :: "bsc_cfg \<Rightarrow> nat" where
  "bsc_order cfg = cb_dst_format cfg div 2 mod 16"

definition bsc_src :: "bsc_cfg \<Rightarrow> bs_box" where
  "bsc_src cfg = \<lparr>base0 = cb_src_base0 cfg, base1 = cb_src_base1 cfg,
     stride0 = sint (cb_src_line_stride cfg), stride1 = sint (cb_src_line_stride cfg),
     sbox_x = sint (cb_src_box_x cfg), sbox_y = sint (cb_src_box_y cfg), sbox_w = sint (cb_src_box_w cfg), sbox_h = sint (cb_src_box_h cfg),
     bx_format = int (cb_src_format cfg mod 2), bx_chn = 0\<rparr>"

definition bsc_dst :: "bsc_cfg \<Rightarrow> bs_box" where
  "bsc_dst cfg = \<lparr>base0 = cb_dst_base cfg ! 0, base1 = cb_dst_base cfg ! 1,
     stride0 = sint (cb_dst_line_stride cfg), stride1 = sint (cb_dst_line_stride cfg),
     sbox_x = sint (cb_dst_box_x cfg), sbox_y = sint (cb_dst_box_y cfg), sbox_w = sint (cb_dst_box_w cfg), sbox_h = sint (cb_dst_box_h cfg),
     bx_format = int (cb_dst_format cfg mod 2), bx_chn = 0\<rparr>"

definition bsc_job :: "u32 option \<Rightarrow> u32 option \<Rightarrow> bsc_cfg \<Rightarrow> mem \<Rightarrow> mdl_stop + mem" where
  "bsc_job buf amplify_buf cfg m =
     (let M = map sint (cb_matrix cfg); scale_coef = [M ! 0, M ! 4, M ! 2, M ! 5]; bpp = int (bsc_bpp cfg)
      in if \<not> cb_affine cfg \<and> cb_box_mode cfg
         then bs_resize_box buf amplify_buf (bsc_src cfg) (bsc_dst cfg) scale_coef (cb_coef cfg) (cb_offset cfg) (cb_nv2bgr_alpha cfg)
                (bsc_order cfg) bpp (cb_y_gain_exp cfg) (cb_zero_point cfg) m
         else if \<not> cb_affine cfg
         then bs_resize_line buf amplify_buf (bsc_src cfg) (bsc_dst cfg) (cb_coef cfg) (cb_offset cfg) (cb_nv2bgr_alpha cfg)
                (bsc_order cfg) bpp (cb_y_gain_exp cfg) (the (cb_boxes_info cfg)) (cb_box_num cfg) (cb_dst_base cfg) (cb_zero_point cfg) m
         else bs_affine_box buf (bsc_src cfg) (bsc_dst cfg) M (cb_coef cfg) (cb_offset cfg) (cb_nv2bgr_alpha cfg)
                (bsc_order cfg) (cb_zero_point cfg) m)"

definition bsc_mdl :: "u32 option \<Rightarrow> u32 option \<Rightarrow> bsc_cfg \<Rightarrow> mdl \<Rightarrow> mdl_stop + mdl" where
  "bsc_mdl buf amplify_buf cfg s =
     (case bsc_cfg_check cfg of
        Some e \<Rightarrow> Inl e
      | None \<Rightarrow>
          let s = bscaler_frmc_calc_isum (cb_src_base0 cfg) (cb_src_base1 cfg) (unat (cb_src_box_w cfg)) (unat (cb_src_box_h cfg))
            (cb_src_line_stride cfg) (cb_src_format cfg mod 2) (bsc_bpp cfg) s
          in res_bind (bsc_job buf amplify_buf cfg (mm s)) (\<lambda>m.
             Inr (bscaler_frmc_calc_osum (cb_dst_base cfg) (cb_box_num cfg) (unat (cb_dst_box_w cfg)) (unat (cb_dst_box_h cfg))
               (cb_dst_line_stride cfg) (cb_dst_format cfg mod 2) (bsc_bpp cfg) (s\<lparr>mm := m\<rparr>))))"

section \<open>One conversion, two routines\<close>

lemma sdiv_2: "0 \<le> v \<Longrightarrow> v sdiv 2 = v div (2 :: int)"
  by (cases "v = 0") (simp_all add: signed_divide_int_def)

lemma quad_same:
  assumes "stride1 src = stride0 src" "0 \<le> stride0 src" "0 \<le> y" "stride0 src * y < 2 ^ 31"
  shows "nv12_quad src dst order coef ofst alpha (y, x) =
    nv2bgr_quad (base0 src) (base1 src) (word_of_int (stride0 src)) (base0 dst) (word_of_int (stride0 dst)) order coef ofst alpha (y, x)"
proof -
  have pos: "0 \<le> stride0 src * y" using assms(2,3) by simp
  have u: "at b (uint (word_of_int s :: u32) * v + w) = at b (s * v + w)" for b s v w by (simp add: at_def)
  have "chroma_at (word_of_int (stride0 src)) y x = stride0 src * y div 2 + x"
  proof -
    have "uint (word_of_int (stride0 src) :: u32) * y mod 2 ^ 32 = stride0 src * y mod 2 ^ 32"
      by (simp add: uint_word_of_int mod_mult_left_eq)
    then show ?thesis using pos assms(4) by (simp add: chroma_at_def)
  qed
  moreover have "s32 (stride1 src * y) sdiv 2 + x = stride0 src * y div 2 + x"
  proof -
    have "s32 (stride1 src * y) = stride0 src * y" unfolding assms(1) by (rule narrow_id) (use pos assms(4) in simp_all)
    then show ?thesis using pos by (simp add: sdiv_2)
  qed
  ultimately have c: "chroma_at (word_of_int (stride0 src)) y x = s32 (stride1 src * y) sdiv 2 + x" by simp
  have d: "p + word_of_int (stride0 dst) = at p (stride0 dst)" for p by (simp add: at_def)
  show ?thesis unfolding nv12_quad_def nv2bgr_quad_def prod.case c Let_def
    by (simp add: u d add.assoc fun_eq_iff)
qed

text \<open>\<open>nv12_to_rgb\<close> of the C part and \<open>bst_nv2bgr\<close> of the T part convert alike while the offsets fit an \<open>int\<close>.\<close>

theorem nv12_to_rgb_is_nv2bgr:
  assumes "stride1 src = stride0 src" "0 \<le> stride0 src" "stride0 src * sbox_h src < 2 ^ 31"
  shows "nv12_to_rgb src dst order coef ofst alpha m =
    Inr (bst_nv2bgr (base0 src) (base1 src) (word_of_int (stride0 src)) (base0 dst) (word_of_int (stride0 dst))
      (sbox_w src) (sbox_h src) order coef ofst alpha m)"
proof -
  have "nv12_quad src dst order coef ofst alpha c =
      nv2bgr_quad (base0 src) (base1 src) (word_of_int (stride0 src)) (base0 dst) (word_of_int (stride0 dst)) order coef ofst alpha c"
    if "c \<in> set (List.product (evens (sbox_h src)) (evens (sbox_w src)))" for c
  proof -
    obtain y x where c: "c = (y, x)" by (cases c)
    then have "y \<in> set (evens (sbox_h src))" using that by simp
    then obtain i where "y = 2 * int i" "i < nat ((sbox_h src + 1) div 2)" by (auto simp: evens_def)
    then have y: "0 \<le> y" "y \<le> sbox_h src" by linarith+
    then have "stride0 src * y \<le> stride0 src * sbox_h src" using assms(2) by (intro mult_left_mono)
    then show ?thesis unfolding c using assms y by (intro quad_same) simp_all
  qed
  then show ?thesis using assms(1) unfolding nv12_to_rgb_def bst_nv2bgr_def by (auto intro!: fold_paint_cong)
qed

theorem nv12_to_rgb_is_nv2bgr_witness:
  "nv12_to_rgb ((sample_box 0x1000)\<lparr>base1 := 0x3000, stride1 := 16\<rparr>) (sample_box 0x2000) 0 [1, 2, 3, 4, 5, 6, 7, 8, 9] [16, 128] 0xFF (\<lambda>a. ucast a) =
   Inr (bst_nv2bgr 0x1000 0x3000 16 0x2000 16 4 2 0 [1, 2, 3, 4, 5, 6, 7, 8, 9] [16, 128] 0xFF (\<lambda>a. ucast a))"
  using nv12_to_rgb_is_nv2bgr [of "(sample_box 0x1000)\<lparr>base1 := 0x3000, stride1 := 16\<rparr>" "sample_box 0x2000" 0 "[1, 2, 3, 4, 5, 6, 7, 8, 9]" "[16, 128]" "0xFF" "\<lambda>a. ucast a"]
  by (simp add: sample_box_def)

section \<open>Line mode and box mode\<close>

text \<open>A box of a line is a box of its own when it lies in its frame.\<close>

definition own_box :: "bs_box \<Rightarrow> int \<Rightarrow> bs_box" where
  "own_box b bpp = b\<lparr>base0 := at (base0 b) (sbox_y b * stride0 b + sbox_x b * bpp), sbox_x := 0, sbox_y := 0\<rparr>"

lemma line_out_box:
  assumes "0 \<le> sbox_x src" "0 \<le> sbox_y src" "sbox_x src + sbox_w src \<le> ww" "sbox_y src + sbox_h src \<le> wh"
    "0 < sbox_w src" "0 < sbox_h src" "sbox_w src < 2 ^ 16" "sbox_h src < 2 ^ 16"
  shows "box_bound_check (own_box src bpp) px py =
    (line_out src ww wh px py, line_out src ww wh (s16 (px + 1)) py, line_out src ww wh px (s16 (py + 1)), line_out src ww wh (s16 (px + 1)) (s16 (py + 1)))"
proof -
  have u: "u16 (sbox_w src) = sbox_w src" "u16 (sbox_h src) = sbox_h src" "u16 (sbox_w src - 1) = sbox_w src - 1" "u16 (sbox_h src - 1) = sbox_h src - 1" "u16 0 = 0"
    using assms by (auto intro!: narrow_id)
  show ?thesis using assms by (auto simp: box_bound_check_def bilinear_bound_check_def own_box_def line_out_def Let_def u)
qed

lemma line_is_box:
  assumes "0 \<le> sbox_x src" "0 \<le> sbox_y src" "sbox_x src + sbox_w src \<le> ww" "sbox_y src + sbox_h src \<le> wh"
    "0 < sbox_w src" "0 < sbox_h src" "sbox_w src < 2 ^ 16" "sbox_h src < 2 ^ 16" "base0 src \<noteq> 0" "base0 dst \<noteq> 0"
  shows "bs_resize_line_chn_base src dst bpp coef ww wh z abgr al m = bs_resize_chn_base (own_box src bpp) dst bpp coef z abgr al m"
proof -
  have smp: "line_sample src bpp ww wh z pl k m = sample (own_box src bpp) z (bilinear_bpp bpp) bpp pl k m" for pl k m
  proof -
    obtain px py xw yw where pl: "pl = (px, py, xw, yw)" by (cases pl)
    have ix: "neighbour (own_box src bpp) z o' (p00_idx (own_box src bpp) bpp px py + k + i) m =
        neighbour src z o' ((py + sbox_y src) * stride0 src + (px + sbox_x src) * bpp + k + i) m" for o' i
      by (simp add: neighbour_def own_box_def p00_idx_def at_at algebra_simps)
    have st: "stride0 (own_box src bpp) = stride0 src" by (simp add: own_box_def)
    show ?thesis using ix [of _ 0] ix [of _ bpp] ix [of _ "stride0 src"] ix [of _ "stride0 src + bpp"]
      unfolding pl line_sample_def sample_def prod.case line_out_box [OF assms(1-8)] Let_def st by (simp add: add.assoc)
  qed
  have eq: "line_byte src dst bpp coef ww wh z abgr al = resize_byte (own_box src bpp) dst bpp coef z abgr al"
    unfolding line_byte_def resize_byte_def smp ..
  show ?thesis using assms(9,10) unfolding bs_resize_line_chn_base_def bs_resize_chn_base_def eq by simp
qed

text \<open>A whole line without enlargement: each box in turn as box mode does it.\<close>

fun resize_each :: "nat list \<Rightarrow> bs_box \<Rightarrow> bs_box \<Rightarrow> int \<Rightarrow> u32 list \<Rightarrow> u32 list \<Rightarrow> u8 \<Rightarrow> bool \<Rightarrow> u8 \<Rightarrow> mem \<Rightarrow> mdl_stop + mem" where
  "resize_each [] src dst bpp frmc_box dst_base z abgr al m = Inr m"
| "resize_each (i # is) src dst bpp frmc_box dst_base z abgr al m =
     res_bind (bs_resize_box_chn None (own_box (line_box src frmc_box 0 i) bpp) (dst\<lparr>base0 := dst_base ! i\<rparr>) (line_coef frmc_box i) bpp 0 z abgr al m)
       (resize_each is src dst bpp frmc_box dst_base z abgr al)"

definition line_box_ok :: "bs_box \<Rightarrow> u32 list \<Rightarrow> u32 list \<Rightarrow> nat \<Rightarrow> bool" where
  "line_box_ok src frmc_box dst_base i \<longleftrightarrow>
     (let b = line_box src frmc_box 0 i in
      i * 6 + 5 < length frmc_box \<and> i < length dst_base \<and> dst_base ! i \<noteq> 0 \<and> 0 < sbox_w b \<and> 0 < sbox_h b \<and>
      sbox_x b + sbox_w b \<le> sbox_w src \<and> sbox_y b + sbox_h b \<le> sbox_h src)"

lemma line_boxes_are_boxes:
  assumes "\<And>i. i \<in> set is \<Longrightarrow> line_box_ok src frmc_box dst_base i" "base0 src \<noteq> 0" "sbox_w src < 2 ^ 16" "sbox_h src < 2 ^ 16"
    "0 \<le> sbox_w src" "0 \<le> sbox_h src"
  shows "line_boxes is src dst bpp 0 frmc_box dst_base z abgr al m = resize_each is src dst bpp frmc_box dst_base z abgr al m"
  using assms(1)
proof (induction "is" arbitrary: m)
  case (Cons i "is")
  let ?b = "line_box src frmc_box 0 i"
  have ok: "line_box_ok src frmc_box dst_base i" using Cons.prems by simp
  have pos: "0 \<le> sbox_x ?b" "0 \<le> sbox_y ?b" "sbox_w ?b < 2 ^ 16" "sbox_h ?b < 2 ^ 16" "base0 ?b \<noteq> 0"
    using assms(2) by (simp_all add: line_box_def Let_def u16_def)
  have u: "u16 (sbox_w src) = sbox_w src" "u16 (sbox_h src) = sbox_h src" using assms(3-6) by (auto intro!: narrow_id)
  have "bs_resize_line_chn_base ?b (dst\<lparr>base0 := dst_base ! i\<rparr>) bpp (line_coef frmc_box i) (sbox_w src) (sbox_h src) z abgr al m =
      bs_resize_chn_base (own_box ?b bpp) (dst\<lparr>base0 := dst_base ! i\<rparr>) bpp (line_coef frmc_box i) z abgr al m" for m
    by (rule line_is_box) (use ok pos in \<open>simp_all add: line_box_ok_def Let_def\<close>)
  note eq = this
  have "line_boxes is src dst bpp 0 frmc_box dst_base z abgr al = resize_each is src dst bpp frmc_box dst_base z abgr al"
    by (rule ext) (rule Cons.IH, simp add: Cons.prems)
  then show ?case using ok by (simp add: line_box_ok_def Let_def eq u bs_resize_box_chn_def)
qed simp

text \<open>C20. Without enlargement (\<open>y_gain_exp\<close> 0) and for a source that is not NV12, line mode resizes each
  box of the line as box mode resizes that box alone. With enlargement the two differ: line mode
  interpolates the last row of a box with the next row of the frame, box mode with the padding.\<close>

theorem resize_line_is_resize_boxes:
  assumes "bx_format src \<noteq> 0" "base0 src \<noteq> 0" "0 \<le> sbox_w src" "sbox_w src < 2 ^ 16" "0 \<le> sbox_h src" "sbox_h src < 2 ^ 16"
    "\<And>i. i < n \<Longrightarrow> line_box_ok src frmc_box dst_base i"
  shows "bs_resize_line rgb_buf amplify_buf src dst coef ofst al order bpp 0 frmc_box n dst_base z m =
    resize_each [0 ..< n] src dst bpp frmc_box dst_base z (is_abgr order) al m"
proof -
  have "line_boxes [0 ..< n] src dst bpp 0 frmc_box dst_base z (is_abgr order) al m =
      resize_each [0 ..< n] src dst bpp frmc_box dst_base z (is_abgr order) al m"
    by (rule line_boxes_are_boxes) (use assms in simp_all)
  then show ?thesis using assms(1) by (simp add: bs_resize_line_def line_amplified_def)
qed

theorem resize_line_is_resize_boxes_witness:
  "bs_resize_line None None (sample_box 0x1000) (sample_box 0) [] [] 0xFF 5 4 0
     [0x00000001, 0x00020003, 0x8000, 0x10000, 0, 0, 0, 0x00010004, 0x10000, 0x8000, 5, 0] 2 [0x2000, 0x3000] 0 (\<lambda>a. ucast a) =
   resize_each [0, 1] (sample_box 0x1000) (sample_box 0) 4
     [0x00000001, 0x00020003, 0x8000, 0x10000, 0, 0, 0, 0x00010004, 0x10000, 0x8000, 5, 0] [0x2000, 0x3000] 0 (is_abgr 5) 0xFF (\<lambda>a. ucast a)"
proof -
  have "line_box_ok (sample_box 0x1000) [0x00000001, 0x00020003, 0x8000, 0x10000, 0, 0, 0, 0x00010004, 0x10000, 0x8000, 5, 0] [0x2000, 0x3000] i"
    if "i < 2" for i
  proof -
    have "i = 0 \<or> i = 1" using that by linarith
    then show ?thesis by (auto simp: line_box_ok_def line_box_def sample_box_def u16_def Let_def)
  qed
  from resize_line_is_resize_boxes [where n = 2, OF _ _ _ _ _ _ this, where rgb_buf = None and amplify_buf = None and dst = "sample_box 0" and coef = "[]" and ofst = "[]"
    and al = "0xFF" and order = 5 and bpp = 4 and z = 0 and m = "\<lambda>a. ucast a"]
  show ?thesis by (simp add: sample_box_def upt_rec)
qed

section \<open>The enlargement interpolates rows\<close>

text \<open>Rounds that write one byte each of a box and read only the other box.\<close>

lemma out_apart:
  assumes "boxes_ok src dst bpp" "0 < bpp" "\<And>c. c \<in> box_rounds dst bpp \<Longrightarrow> R c \<subseteq> box_area src"
  shows "rounds_apart (byte_out dst bpp) R (box_rounds dst bpp)"
proof -
  have W: "rounds_apart (byte_out dst bpp) (byte_in src bpp (\<lambda>dx dy. (0, 0, 0, 0))) (box_rounds dst bpp)"
    by (rule byte_apart [OF assms(1,2)]) (simp add: place_ok_def)
  have b: "box_ok dst bpp" "box_area src \<inter> box_area dst = {}" using assms(1) by (simp_all add: boxes_ok_def)
  have "byte_out dst bpp d \<subseteq> box_area dst" if "d \<in> box_rounds dst bpp" for d
    using byte_index(3) [OF b(1) assms(2)] that by (cases d) (auto simp: byte_out_def)
  then have "R c \<inter> byte_out dst bpp d = {}" if "c \<in> box_rounds dst bpp" "d \<in> box_rounds dst bpp" for c d
    using assms(3) [OF that(1)] that(2) b(2) by blast
  then show ?thesis using W unfolding rounds_apart_def by blast
qed

definition amplify_round :: "bs_box \<Rightarrow> bs_box \<Rightarrow> nat \<Rightarrow> int \<Rightarrow> u8 \<Rightarrow> (int \<times> int) \<times> int \<Rightarrow> mem \<Rightarrow> mem" where
  "amplify_round src dst e bpp z = (\<lambda>((dy, dx), k). amplify_byte src dst e bpp z (sbox_y src) ((dy, dx), k) (dst_idx dst bpp dx dy))"

definition amplify_in :: "bs_box \<Rightarrow> nat \<Rightarrow> int \<Rightarrow> (int \<times> int) \<times> int \<Rightarrow> u32 set" where
  "amplify_in src e bpp = (\<lambda>((dy, dx), k).
     let sy = s16 (dy div 2 ^ e); sy1 = s16 (sy + 1); last_row = u16 (sbox_h src + sbox_y src - 1); a = p00_idx src bpp (s16 dx) sy + k in
     (if sy < sbox_y src \<or> sy > last_row then {} else {at (base0 src) a}) \<union>
     (if sy1 < sbox_y src \<or> sy1 > last_row then {} else {at (base0 src) (a + stride0 src)}))"

interpretation ampl: painter "amplify_round src dst e bpp z" "byte_out dst bpp" "amplify_in src e bpp" for src dst e bpp z
proof
  fix c :: "(int \<times> int) \<times> int" and m m' :: mem and a
  obtain dy dx k where c: "c = ((dy, dx), k)" by (metis prod.collapse)
  show "a \<notin> byte_out dst bpp c \<Longrightarrow> amplify_round src dst e bpp z c m a = m a"
    by (simp add: c amplify_round_def amplify_byte_def byte_out_def Let_def)
  assume "\<And>b. b \<in> amplify_in src e bpp c \<Longrightarrow> m b = m' b" "a \<in> byte_out dst bpp c"
  then show "amplify_round src dst e bpp z c m a = amplify_round src dst e bpp z c m' a"
    by (auto simp: c amplify_round_def amplify_byte_def byte_out_def amplify_in_def neighbour_def Let_def split: if_splits)
qed

text \<open>The box an enlargement fills.\<close>

definition amplified :: "bs_box \<Rightarrow> bs_box \<Rightarrow> nat \<Rightarrow> bool" where
  "amplified src dst e \<longleftrightarrow> sbox_x dst = sbox_x src \<and> sbox_w dst = sbox_w src \<and>
     sbox_y dst = sbox_y src * 2 ^ e \<and> sbox_h dst = sbox_h src * 2 ^ e"

lemma amplified_row:
  assumes "amplified src dst e" "((dy, dx), k) \<in> box_rounds dst bpp"
  shows "((dy div 2 ^ e, dx), k) \<in> box_rounds src bpp"
proof -
  have d: "sbox_y src * 2 ^ e \<le> dy" "dy < (sbox_y src + sbox_h src) * 2 ^ e" using assms by (auto simp: amplified_def box_rounds_def algebra_simps)
  have "sbox_y src \<le> dy div 2 ^ e" using d(1) by (simp add: zdiv_mono1 [of "sbox_y src * 2 ^ e" dy "2 ^ e", simplified])
  moreover have "dy div 2 ^ e < sbox_y src + sbox_h src"
  proof (rule ccontr)
    assume "\<not> dy div 2 ^ e < sbox_y src + sbox_h src"
    then have "(sbox_y src + sbox_h src) * 2 ^ e \<le> dy div 2 ^ e * 2 ^ e" by simp
    also have "\<dots> \<le> dy" using minus_mod_eq_div_mult [of dy "2 ^ e", symmetric] pos_mod_sign [of "2 ^ e" dy] by simp
    finally show False using d(2) by simp
  qed
  ultimately show ?thesis using assms by (auto simp: amplified_def box_rounds_def)
qed

lemma amplify_pos:
  assumes "box_ok src bpp" "amplified src dst e" "((dy, dx), k) \<in> box_rounds dst bpp"
  shows "s16 dx = dx" "s16 (dy div 2 ^ e) = dy div 2 ^ e"
    "(dy div 2 ^ e < sbox_y src \<or> dy div 2 ^ e > u16 (sbox_h src + sbox_y src - 1)) = False"
    "(s16 (dy div 2 ^ e + 1) < sbox_y src \<or> s16 (dy div 2 ^ e + 1) > u16 (sbox_h src + sbox_y src - 1)) = (\<not> dy div 2 ^ e + 1 < sbox_y src + sbox_h src)"
proof -
  let ?sy = "dy div 2 ^ e" and ?h = "sbox_y src + sbox_h src"
  have r: "sbox_y src \<le> ?sy" "?sy < ?h" "sbox_x src \<le> dx" "dx < sbox_x src + sbox_w src"
    using amplified_row [OF assms(2,3)] by (auto simp: box_rounds_def)
  have b: "0 \<le> sbox_y src" "?h \<le> 2 ^ 15" "0 \<le> sbox_x src" "sbox_x src + sbox_w src \<le> 2 ^ 15" using assms(1) by (simp_all add: box_ok_def)
  show "s16 dx = dx" "s16 ?sy = ?sy" using r b by (auto intro!: narrow_id(1))
  have l: "u16 (sbox_h src + sbox_y src - 1) = ?h - 1" using r b narrow_id(4) [of "sbox_h src + sbox_y src - 1"] by auto
  show "(?sy < sbox_y src \<or> ?sy > u16 (sbox_h src + sbox_y src - 1)) = False" using r l by simp
  show "(s16 (?sy + 1) < sbox_y src \<or> s16 (?sy + 1) > u16 (sbox_h src + sbox_y src - 1)) = (\<not> ?sy + 1 < ?h)" unfolding l
  proof (cases "?sy + 1 < 2 ^ 15")
    case True
    then have "s16 (?sy + 1) = ?sy + 1" using r b by (intro narrow_id) simp_all
    then show "(s16 (?sy + 1) < sbox_y src \<or> s16 (?sy + 1) > ?h - 1) = (\<not> ?sy + 1 < ?h)" using r by auto
  next
    case False
    then have "?sy + 1 = 2 ^ 15" using r b by simp
    then have "s16 (?sy + 1) = - (2 ^ 15)" by (simp add: s16_def signed_take_bit_eq_take_bit_minus)
    then show "(s16 (?sy + 1) < sbox_y src \<or> s16 (?sy + 1) > ?h - 1) = (\<not> ?sy + 1 < ?h)" using False b by auto
  qed
qed

lemma amplify_index:
  "p00_idx src bpp dx sy = dst_idx src bpp dx sy" "p00_idx src bpp dx sy + k + stride0 src = dst_idx src bpp dx (sy + 1) + k"
  by (simp_all add: p00_idx_def dst_idx_def algebra_simps)

lemma amplify_value:
  assumes "box_ok src bpp" "amplified src dst e" "e \<le> 16" "((dy, dx), k) \<in> box_rounds dst bpp"
  shows "amplify_round src dst e bpp z ((dy, dx), k) m (at (base0 dst) (dst_idx dst bpp dx dy + k)) =
      bilinear_bpp bpp (m (at (base0 src) (dst_idx src bpp dx (dy div 2 ^ e) + k))) 0
        (if dy div 2 ^ e + 1 < sbox_y src + sbox_h src then m (at (base0 src) (dst_idx src bpp dx (dy div 2 ^ e + 1) + k)) else z)
        0 0 (dy mod 2 ^ e * 2 ^ (16 - e))"
proof -
  have w: "u16 (dy * 2 ^ (16 - e)) = dy mod 2 ^ e * 2 ^ (16 - e)"
  proof -
    have "(2 :: int) ^ 16 = 2 ^ e * 2 ^ (16 - e)" using assms(3) by (simp flip: power_add)
    then show ?thesis by (simp only: u16_def mod_mult_mult2)
  qed
  show ?thesis unfolding amplify_round_def amplify_byte_def prod.case Let_def amplify_pos [OF assms(1,2,4)] MAT_ACC_def w
    by (simp add: neighbour_def amplify_index(2) flip: amplify_index(1))
qed

lemma amplify_in_area:
  assumes "box_ok src bpp" "0 < bpp" "amplified src dst e" "c \<in> box_rounds dst bpp"
  shows "amplify_in src e bpp c \<subseteq> box_area src"
proof -
  obtain dy dx k where c: "c = ((dy, dx), k)" by (metis prod.collapse)
  note r = amplified_row [OF assms(3,4) [unfolded c]]
  have "((dy div 2 ^ e + 1, dx), k) \<in> box_rounds src bpp" if "dy div 2 ^ e + 1 < sbox_y src + sbox_h src"
    using r that by (auto simp: box_rounds_def)
  then show ?thesis unfolding c amplify_in_def prod.case Let_def amplify_pos [OF assms(1,3) assms(4) [unfolded c]] amplify_index(2)
    using byte_index(3) [OF assms(1,2) r] byte_index(3) [OF assms(1,2), of "dy div 2 ^ e + 1" dx k]
    by (auto simp: amplify_index(1))
qed

text \<open>C22. Row \<open>dy\<close> of the enlarged box lies between the rows \<open>dy div 2^e\<close> and the next of the source, at its
  share \<open>dy mod 2^e\<close> of \<open>2^e\<close>; below the last row is the padding.\<close>

theorem amplify_interpolates_rows:
  assumes "boxes_ok src dst bpp" "0 < bpp" "amplified src dst e" "e \<le> 16" "((dy, dx), k) \<in> box_rounds dst bpp"
  shows "bs_amplify_height src dst e bpp z m (at (base0 dst) (dst_idx dst bpp dx dy + k)) =
      bilinear_bpp bpp (m (at (base0 src) (dst_idx src bpp dx (dy div 2 ^ e) + k))) 0
        (if dy div 2 ^ e + 1 < sbox_y src + sbox_h src then m (at (base0 src) (dst_idx src bpp dx (dy div 2 ^ e + 1) + k)) else z)
        0 0 (dy mod 2 ^ e * 2 ^ (16 - e))"
proof -
  have b: "box_ok src bpp" "box_ok dst bpp" using assms(1) by (simp_all add: boxes_ok_def)
  let ?cs = "List.product (List.product [u16 (sbox_y dst) .. u16 (sbox_h dst + sbox_y dst) - 1] [u16 (sbox_x dst) .. u16 (sbox_w dst + sbox_x dst) - 1]) [0 .. bpp - 1]"
  have "u16 (sbox_y dst) = sbox_y dst" "u16 (sbox_x dst) = sbox_x dst" "u16 (sbox_w dst + sbox_x dst) = sbox_w dst + sbox_x dst"
    "u16 (sbox_h dst + sbox_y dst) = sbox_h dst + sbox_y dst" using b(2) by (auto simp: box_ok_def intro!: u16_id)
  then have cs: "set ?cs = box_rounds dst bpp" "distinct ?cs" by (auto simp: box_rounds_def distinct_product)
  have "bs_amplify_height src dst e bpp z m = fold (amplify_round src dst e bpp z) ?cs m"
    by (simp add: bs_amplify_height_def amplify_round_def)
  moreover have "fold (amplify_round src dst e bpp z) ?cs m (at (base0 dst) (dst_idx dst bpp dx dy + k)) =
      amplify_round src dst e bpp z ((dy, dx), k) m (at (base0 dst) (dst_idx dst bpp dx dy + k))"
    by (rule ampl.paint_value [OF cs(2)])
      (use out_apart [OF assms(1,2) amplify_in_area [OF b(1) assms(2,3)]] assms(5) cs(1) in \<open>simp_all add: byte_out_def\<close>)
  ultimately show ?thesis by (simp add: amplify_value [OF b(1) assms(3-5)])
qed

theorem amplify_interpolates_rows_witness:
  "bs_amplify_height (sample_box 0x1000) ((sample_box 0x2000)\<lparr>sbox_h := 8\<rparr>) 2 4 0 (\<lambda>a. ucast a) (at 0x2000 (3 * 16 + 2 * 4 + 1)) =
   bilinear_bpp 4 (ucast (at 0x1000 (0 * 16 + 2 * 4 + 1) :: u32)) 0 (ucast (at 0x1000 (1 * 16 + 2 * 4 + 1) :: u32)) 0 0 (3 * 2 ^ 14)"
proof -
  have "area 0x1000 32 \<inter> area 0x2000 128 = {}" by (rule area_disjoint) simp_all
  then have ok: "boxes_ok (sample_box 0x1000) ((sample_box 0x2000)\<lparr>sbox_h := 8\<rparr>) 4"
    by (simp add: boxes_ok_def box_ok_def box_area_def sample_box_def)
  show ?thesis using amplify_interpolates_rows [OF ok, of 2 3 2 1 0 "\<lambda>a. ucast a"]
    by (simp add: amplified_def sample_box_def box_rounds_def dst_idx_def)
qed

section \<open>Whole jobs\<close>

text \<open>The routines do not look at the format of a box.\<close>

lemma format_free:
  "bs_perspective_box_rgb_simple (b\<lparr>bx_format := f, bx_chn := c\<rparr>) dst M z abgr al m = bs_perspective_box_rgb_simple b dst M z abgr al m"
  "bs_affine_box_rgb (b\<lparr>bx_format := f, bx_chn := c\<rparr>) dst M z abgr al m = bs_affine_box_rgb b dst M z abgr al m"
  "boxes_ok (b\<lparr>bx_format := f, bx_chn := c\<rparr>) dst bpp = boxes_ok b dst bpp"
  "nv12_to_rgb src (b\<lparr>bx_format := f, bx_chn := c\<rparr>) order coef ofst al m = nv12_to_rgb src b order coef ofst al m"
proof -
  have parts: "neighbour (b\<lparr>bx_format := f, bx_chn := c\<rparr>) = neighbour b" "box_bound_check (b\<lparr>bx_format := f, bx_chn := c\<rparr>) = box_bound_check b"
    "p00_idx (b\<lparr>bx_format := f, bx_chn := c\<rparr>) = p00_idx b" "stride0 (b\<lparr>bx_format := f, bx_chn := c\<rparr>) = stride0 b"
    by (simp_all add: neighbour_def box_bound_check_def p00_idx_def fun_eq_iff)
  have eq: "rgb_byte (b\<lparr>bx_format := f, bx_chn := c\<rparr>) dst z abgr al place = rgb_byte b dst z abgr al place" for place
    unfolding rgb_byte_def sample_def parts ..
  show "bs_perspective_box_rgb_simple (b\<lparr>bx_format := f, bx_chn := c\<rparr>) dst M z abgr al m = bs_perspective_box_rgb_simple b dst M z abgr al m"
    "bs_affine_box_rgb (b\<lparr>bx_format := f, bx_chn := c\<rparr>) dst M z abgr al m = bs_affine_box_rgb b dst M z abgr al m"
    unfolding bs_perspective_box_rgb_simple_def bs_affine_box_rgb_def eq by (rule refl)+
  show "boxes_ok (b\<lparr>bx_format := f, bx_chn := c\<rparr>) dst bpp = boxes_ok b dst bpp"
    by (simp add: boxes_ok_def box_ok_def box_area_def)
  show "nv12_to_rgb src (b\<lparr>bx_format := f, bx_chn := c\<rparr>) order coef ofst al m = nv12_to_rgb src b order coef ofst al m"
    by (simp add: nv12_to_rgb_def nv12_quad_def)
qed

text \<open>Warping an NV12 box to RGB is converting it into the buffer and warping the RGB box, although the code takes
  the walk in hardware order for an affine matrix in one case and the plain loop in the other.\<close>

theorem affine_box_converts_first:
  assumes "bx_format src = 0" "bx_format dst = 1" "boxes_ok (rgb_box src a) dst 4" "sbox_w dst \<le> 64" "sbox_h dst \<le> 64"
  shows "bs_affine_box (Some a) src dst M coef ofst al order z m =
    res_bind (nv12_to_rgb src (rgb_box src a) order coef ofst al m) (bs_affine_box None (rgb_box src a) dst M coef ofst al order z)"
proof -
  let ?b = "(rgb_box src a)\<lparr>bx_format := bx_format src, bx_chn := bx_chn src\<rparr>"
  have w: "bs_affine_box_rgb_complex ?b dst M z (is_abgr order) al m' = Inr ([], bs_affine_box_rgb (rgb_box src a) dst M z (is_abgr order) al m')" for m'
    using affine_walk_result [of ?b dst] assms(3-5) by (simp only: format_free)
  have f: "bx_format (rgb_box src a) = 1" by (simp add: rgb_box_def)
  have inner: "(if is_perspective M then bs_perspective_box_rgb_simple ?b dst M z (is_abgr order) al m'
      else res_bind (bs_affine_box_rgb_complex ?b dst M z (is_abgr order) al m') (\<lambda>(_, m). Inr m)) =
      bs_affine_box None (rgb_box src a) dst M coef ofst al order z m'" for m'
    using assms(2) f by (simp add: bs_affine_box_def bs_affine_box_rgb_to_rgb_def w format_free)
  have "bs_affine_box (Some a) src dst M coef ofst al order z m = bs_affine_box_nv12_to_rgb (Some a) src dst M coef ofst al order z m"
    using assms(1,2) by (simp add: bs_affine_box_def)
  then show ?thesis unfolding bs_affine_box_nv12_to_rgb_def buffer_def option.case Let_def format_free(4) inner by simp
qed

theorem affine_box_converts_first_witness:
  "bs_affine_box (Some 0x1000) ((sample_box 0x4000)\<lparr>base1 := 0x5000, stride1 := 16, bx_format := 0\<rparr>) (sample_box 0x2000)
     [2 ^ 15, 5, 0, 7, - (2 ^ 16), 2 ^ 17, 0, 0, 2 ^ 16] [1, 2, 3, 4, 5, 6, 7, 8, 9] [16, 128] 0xFF 5 0 (\<lambda>a. ucast a) =
   res_bind (nv12_to_rgb ((sample_box 0x4000)\<lparr>base1 := 0x5000, stride1 := 16, bx_format := 0\<rparr>)
       (rgb_box ((sample_box 0x4000)\<lparr>base1 := 0x5000, stride1 := 16, bx_format := 0\<rparr>) 0x1000) 5 [1, 2, 3, 4, 5, 6, 7, 8, 9] [16, 128] 0xFF (\<lambda>a. ucast a))
     (bs_affine_box None (rgb_box ((sample_box 0x4000)\<lparr>base1 := 0x5000, stride1 := 16, bx_format := 0\<rparr>) 0x1000) (sample_box 0x2000)
       [2 ^ 15, 5, 0, 7, - (2 ^ 16), 2 ^ 17, 0, 0, 2 ^ 16] [1, 2, 3, 4, 5, 6, 7, 8, 9] [16, 128] 0xFF 5 0)"
proof (rule affine_box_converts_first)
  have "area 0x1000 32 \<inter> area 0x2000 32 = {}" by (rule area_disjoint) simp_all
  then show "boxes_ok (rgb_box ((sample_box 0x4000)\<lparr>base1 := 0x5000, stride1 := 16, bx_format := 0\<rparr>) 0x1000) (sample_box 0x2000) 4"
    by (simp add: boxes_ok_def box_ok_def box_area_def sample_box_def rgb_box_def)
qed (simp_all add: sample_box_def)

text \<open>C23. A job of the C part with the identity matrix, moved by whole pixels, checks its configuration, runs to its end and leaves a copy of
  every colour byte of the source box in the destination box.\<close>

theorem bsc_mdl_copies:
  assumes "cb_affine cfg" "cb_box_mode cfg" "odd (cb_src_format cfg)" "odd (cb_dst_format cfg)"
    "cb_src_base0 cfg \<noteq> 0" "cb_dst_base cfg ! 0 \<noteq> 0"
    "map sint (cb_matrix cfg) = [2 ^ 16, 0, ox * 2 ^ 16, 0, 2 ^ 16, oy * 2 ^ 16, 0, 0, 2 ^ 16]"
    "boxes_ok (bsc_src cfg) (bsc_dst cfg) 4"
    "sbox_x (bsc_src cfg) = sbox_x (bsc_dst cfg) + ox" "sbox_y (bsc_src cfg) = sbox_y (bsc_dst cfg) + oy"
    "sbox_w (bsc_src cfg) = sbox_w (bsc_dst cfg)" "sbox_h (bsc_src cfg) = sbox_h (bsc_dst cfg)"
    "((dy, dx), k) \<in> box_rounds (bsc_dst cfg) 4" "\<not> is_alpha (is_abgr (bsc_order cfg)) k"
  shows "\<exists>s'. bsc_mdl buf amplify_buf cfg s = Inr s' \<and>
    mm s' (at (base0 (bsc_dst cfg)) (dst_idx (bsc_dst cfg) 4 dx dy + k)) =
    mm s (at (base0 (bsc_src cfg)) (dst_idx (bsc_src cfg) 4 (dx + ox) (dy + oy) + k))"
proof -
  let ?M = "[2 ^ 16, 0, ox * 2 ^ 16, 0, 2 ^ 16, oy * 2 ^ 16, 0, 0, 2 ^ 16 :: int]"
  have chk: "bsc_cfg_check cfg = None" using assms(2-6) by (auto simp: bsc_cfg_check_def)
  have fm: "bx_format (bsc_src cfg) = 1" "bx_format (bsc_dst cfg) = 1" using assms(3,4) by (simp_all add: bsc_src_def bsc_dst_def odd_iff_mod_2_eq_one)
  have "\<not> is_perspective ?M" by (simp add: is_perspective_def MAT_ACC_def)
  then have job: "bsc_job buf amplify_buf cfg m = Inr (bs_affine_box_rgb (bsc_src cfg) (bsc_dst cfg) ?M (cb_zero_point cfg) (is_abgr (bsc_order cfg)) (cb_nv2bgr_alpha cfg) m)" for m
    using assms(1) fm unfolding bsc_job_def assms(7) by (simp add: bs_affine_box_def bs_affine_box_rgb_to_rgb_def)
  have mem: "mm (bscaler_frmc_calc_isum y c w h ps f b s) = mm s" "mm (bscaler_frmc_calc_osum ds n w h ps f b s) = mm s" for y c w h ps f b s ds n
    by (simp_all add: bscaler_frmc_calc_isum_def bscaler_frmc_calc_osum_def Let_def)
  show ?thesis using identity_copied [OF assms(8-14)]
    by (simp add: bsc_mdl_def chk Let_def job mem)
qed

definition sample_bsc :: bsc_cfg where
  "sample_bsc = \<lparr>cb_src_base0 = 0x1000, cb_src_base1 = 0, cb_src_format = 1, cb_src_line_stride = 16,
     cb_src_box_x = 0, cb_src_box_y = 0, cb_src_box_w = 4, cb_src_box_h = 2, cb_dst_format = 1, cb_dst_line_stride = 16,
     cb_dst_box_x = 0, cb_dst_box_y = 0, cb_dst_box_w = 4, cb_dst_box_h = 2, cb_affine = True, cb_box_mode = True, cb_y_gain_exp = 0,
     cb_zero_point = 0, cb_nv2bgr_alpha = 0xFF, cb_coef = [], cb_offset = [],
     cb_matrix = [0x10000, 0, 0, 0, 0x10000, 0, 0, 0, 0x10000], cb_box_num = 1, cb_dst_base = [0x2000, 0], cb_boxes_info = None\<rparr>"

theorem bsc_mdl_copies_witness:
  "\<exists>s'. bsc_mdl None None sample_bsc \<lparr>mm = (\<lambda>a. ucast a), bst_isum = 0, bst_osum = 0, bsc_isum = 0, bsc_osum = 0\<rparr> = Inr s' \<and>
     mm s' (at 0x2000 (1 * 16 + 3 * 4 + 2)) = ucast (at 0x1000 (1 * 16 + 3 * 4 + 2) :: u32)"
proof -
  have "area 0x1000 32 \<inter> area 0x2000 32 = {}" by (rule area_disjoint) simp_all
  then have ok: "boxes_ok (bsc_src sample_bsc) (bsc_dst sample_bsc) 4"
    by (simp add: boxes_ok_def box_ok_def box_area_def sample_bsc_def bsc_src_def bsc_dst_def)
  show ?thesis
    using bsc_mdl_copies [OF _ _ _ _ _ _ _ ok, of 0 0 1 3 2 None None "\<lparr>mm = (\<lambda>a. ucast a), bst_isum = 0, bst_osum = 0, bsc_isum = 0, bsc_osum = 0\<rparr>"]
    by (simp add: sample_bsc_def bsc_src_def bsc_dst_def box_rounds_def dst_idx_def is_alpha_def is_abgr_def bsc_order_def)
qed

end
