(* ===== verification/BscHal.thy ===== *)
theory BscHal
  imports HalNodes MdlBsc
begin

text \<open>
  The register layer of the T40's b-scaler, \<open>bscaler/source/api/hal/bscaler_hal.c\<close>: jobs of the T part are
  written to registers, jobs of the C part to registers or to a chain of (value, register) pairs in memory,
  whose last pair carries a mark. The addresses are translated for the environment the code is built for. A register is named
  by its offset in the window of the engine. The configurations are those of the software model (\<open>MdlBst\<close>,
  \<open>MdlBsc\<close>): what is shown here is that the registers hold the job the model computes, and that a chain
  programs what the registers would be given.
\<close>

named_theorems bsc_regs "register offsets"

section \<open>Registers\<close>

definition BSCALER_FRMC_CTRL :: u32 where [bsc_regs]: "BSCALER_FRMC_CTRL = 0 * 4"
definition BSCALER_FRMC_MODE :: u32 where [bsc_regs]: "BSCALER_FRMC_MODE = 1 * 4"
definition BSCALER_FRMC_YBASE_SRC :: u32 where [bsc_regs]: "BSCALER_FRMC_YBASE_SRC = 2 * 4"
definition BSCALER_FRMC_CBASE_SRC :: u32 where [bsc_regs]: "BSCALER_FRMC_CBASE_SRC = 3 * 4"
definition BSCALER_FRMC_WH_SRC :: u32 where [bsc_regs]: "BSCALER_FRMC_WH_SRC = 4 * 4"
definition BSCALER_FRMC_PS_SRC :: u32 where [bsc_regs]: "BSCALER_FRMC_PS_SRC = 5 * 4"
definition BSCALER_FRMC_BASE_DST :: u32 where [bsc_regs]: "BSCALER_FRMC_BASE_DST = 6 * 4"
definition BSCALER_FRMC_WH_DST :: u32 where [bsc_regs]: "BSCALER_FRMC_WH_DST = 7 * 4"
definition BSCALER_FRMC_PS_DST :: u32 where [bsc_regs]: "BSCALER_FRMC_PS_DST = 8 * 4"
definition BSCALER_FRMC_BOX_BASE :: u32 where [bsc_regs]: "BSCALER_FRMC_BOX_BASE = 9 * 4"
definition BSCALER_FRMC_MONO :: u32 where [bsc_regs]: "BSCALER_FRMC_MONO = 10 * 4"
definition BSCALER_FRMC_EXTREME_Y :: u32 where [bsc_regs]: "BSCALER_FRMC_EXTREME_Y = 11 * 4"
definition BSCALER_FRMC_CHAIN_CTRL :: u32 where [bsc_regs]: "BSCALER_FRMC_CHAIN_CTRL = 12 * 4"
definition BSCALER_FRMC_CHAIN_BASE :: u32 where [bsc_regs]: "BSCALER_FRMC_CHAIN_BASE = 13 * 4"
definition BSCALER_FRMC_CHAIN_LEN :: u32 where [bsc_regs]: "BSCALER_FRMC_CHAIN_LEN = 14 * 4"
definition BSCALER_FRMC_TIMEOUT :: u32 where [bsc_regs]: "BSCALER_FRMC_TIMEOUT = 15 * 4"
definition BSCALER_FRMC_BOX0 :: u32 where [bsc_regs]: "BSCALER_FRMC_BOX0 = 16 * 4"
definition BSCALER_FRMC_BOX1 :: u32 where [bsc_regs]: "BSCALER_FRMC_BOX1 = 17 * 4"
definition BSCALER_FRMC_BOX2 :: u32 where [bsc_regs]: "BSCALER_FRMC_BOX2 = 18 * 4"
definition BSCALER_FRMC_BOX3 :: u32 where [bsc_regs]: "BSCALER_FRMC_BOX3 = 19 * 4"
definition BSCALER_FRMC_BOX4 :: u32 where [bsc_regs]: "BSCALER_FRMC_BOX4 = 20 * 4"
definition BSCALER_FRMC_BOX5 :: u32 where [bsc_regs]: "BSCALER_FRMC_BOX5 = 21 * 4"
definition BSCALER_FRMC_BOX6 :: u32 where [bsc_regs]: "BSCALER_FRMC_BOX6 = 22 * 4"
definition BSCALER_FRMC_BOX7 :: u32 where [bsc_regs]: "BSCALER_FRMC_BOX7 = 23 * 4"
definition BSCALER_FRMC_BOX8 :: u32 where [bsc_regs]: "BSCALER_FRMC_BOX8 = 24 * 4"
definition BSCALER_FRMC_BOX9 :: u32 where [bsc_regs]: "BSCALER_FRMC_BOX9 = 25 * 4"
definition BSCALER_FRMC_BOX10 :: u32 where [bsc_regs]: "BSCALER_FRMC_BOX10 = 26 * 4"
definition BSCALER_FRMT_CTRL :: u32 where [bsc_regs]: "BSCALER_FRMT_CTRL = 32 * 4"
definition BSCALER_FRMT_YBASE_SRC :: u32 where [bsc_regs]: "BSCALER_FRMT_YBASE_SRC = 34 * 4"
definition BSCALER_FRMT_CBASE_SRC :: u32 where [bsc_regs]: "BSCALER_FRMT_CBASE_SRC = 35 * 4"
definition BSCALER_FRMT_WH_SRC :: u32 where [bsc_regs]: "BSCALER_FRMT_WH_SRC = 36 * 4"
definition BSCALER_FRMT_PS_SRC :: u32 where [bsc_regs]: "BSCALER_FRMT_PS_SRC = 37 * 4"
definition BSCALER_FRMT_YBASE_DST :: u32 where [bsc_regs]: "BSCALER_FRMT_YBASE_DST = 38 * 4"
definition BSCALER_FRMT_CBASE_DST :: u32 where [bsc_regs]: "BSCALER_FRMT_CBASE_DST = 39 * 4"
definition BSCALER_FRMT_FS_DST :: u32 where [bsc_regs]: "BSCALER_FRMT_FS_DST = 40 * 4"
definition BSCALER_FRMT_PS_DST :: u32 where [bsc_regs]: "BSCALER_FRMT_PS_DST = 41 * 4"
definition BSCALER_FRMT_DUMMY :: u32 where [bsc_regs]: "BSCALER_FRMT_DUMMY = 42 * 4"
definition BSCALER_FRMT_FORMAT :: u32 where [bsc_regs]: "BSCALER_FRMT_FORMAT = 43 * 4"
definition BSCALER_FRMT_CHAIN_CTRL :: u32 where [bsc_regs]: "BSCALER_FRMT_CHAIN_CTRL = 44 * 4"
definition BSCALER_FRMT_TIMEOUT :: u32 where [bsc_regs]: "BSCALER_FRMT_TIMEOUT = 47 * 4"
definition BSCALER_PARAM0 :: u32 where [bsc_regs]: "BSCALER_PARAM0 = 48 * 4"
definition BSCALER_PARAM1 :: u32 where [bsc_regs]: "BSCALER_PARAM1 = 49 * 4"
definition BSCALER_PARAM2 :: u32 where [bsc_regs]: "BSCALER_PARAM2 = 50 * 4"
definition BSCALER_PARAM3 :: u32 where [bsc_regs]: "BSCALER_PARAM3 = 51 * 4"
definition BSCALER_PARAM4 :: u32 where [bsc_regs]: "BSCALER_PARAM4 = 52 * 4"
definition BSCALER_PARAM5 :: u32 where [bsc_regs]: "BSCALER_PARAM5 = 53 * 4"
definition BSCALER_PARAM6 :: u32 where [bsc_regs]: "BSCALER_PARAM6 = 54 * 4"
definition BSCALER_PARAM7 :: u32 where [bsc_regs]: "BSCALER_PARAM7 = 55 * 4"
definition BSCALER_PARAM8 :: u32 where [bsc_regs]: "BSCALER_PARAM8 = 56 * 4"
definition BSCALER_PARAM9 :: u32 where [bsc_regs]: "BSCALER_PARAM9 = 57 * 4"
definition BSCALER_FRMT_ISUM :: u32 where [bsc_regs]: "BSCALER_FRMT_ISUM = 60 * 4"
definition BSCALER_FRMT_OSUM :: u32 where [bsc_regs]: "BSCALER_FRMT_OSUM = 61 * 4"
definition BSCALER_FRMC_ISUM :: u32 where [bsc_regs]: "BSCALER_FRMC_ISUM = 62 * 4"
definition BSCALER_FRMC_OSUM :: u32 where [bsc_regs]: "BSCALER_FRMC_OSUM = 63 * 4"

section \<open>Environments\<close>

text \<open>\<open>EYER_SIM_ENV\<close>, \<open>CSE_SIM_ENV\<close> with the windows of \<open>aie_mmap.h\<close>, \<open>CHIP_SIM_ENV\<close> on the real CPU or with a
  translation of its own. \<open>cm_junk\<close> is what a variable holds that no branch sets.\<close>

record cse_map =
  cm_oram_vbase :: u32
  cm_ddr_vbase :: u32
  cm_ddr_pbase :: u32
  cm_junk :: u32

datatype sim_env = Eyer_sim | Cse_sim cse_map | Chip_sim "(u32 \<Rightarrow> u32) option"

definition ORAM_BASE :: u32 where "ORAM_BASE = 0x12600000 + 128 * 1024"

definition get_ddr_paddr :: "cse_map \<Rightarrow> u32 \<Rightarrow> u32" where
  "get_ddr_paddr m v = cm_ddr_pbase m + (v - cm_ddr_vbase m)"

definition get_oram_paddr :: "cse_map \<Rightarrow> u32 \<Rightarrow> u32" where
  "get_oram_paddr m v = ORAM_BASE + (v - cm_oram_vbase m)"

definition pf_va_2_pa :: "(u32 \<Rightarrow> u32) option \<Rightarrow> u32 \<Rightarrow> u32" where
  "pf_va_2_pa t v = (case t of None \<Rightarrow> v AND 0x1FFFFFFF | Some f \<Rightarrow> f v)"

text \<open>A source, whose bus is 0 for DDR, 1 for on-chip RAM and 2 for a physical address, and anything else, whose bus is
  0 or not.\<close>

definition phy_src :: "sim_env \<Rightarrow> u8 \<Rightarrow> u32 \<Rightarrow> u32" where
  "phy_src env b v = (case env of Eyer_sim \<Rightarrow> v
   | Cse_sim m \<Rightarrow> if b = 1 then get_oram_paddr m v else if b = 0 then get_ddr_paddr m v else if b = 2 then v else cm_junk m
   | Chip_sim t \<Rightarrow> pf_va_2_pa t v)"

definition phy_other :: "sim_env \<Rightarrow> u8 \<Rightarrow> u32 \<Rightarrow> u32" where
  "phy_other env b v = (case env of Eyer_sim \<Rightarrow> v
   | Cse_sim m \<Rightarrow> if b \<noteq> 0 then get_oram_paddr m v else get_ddr_paddr m v
   | Chip_sim t \<Rightarrow> pf_va_2_pa t v)"

section \<open>Reset, clocks and shared parameters\<close>

definition bscaler_frmt_soft_reset :: "soc \<Rightarrow> io \<Rightarrow> fault + io" where
  "bscaler_frmt_soft_reset soc s =
     poll soc (\<lambda>r. r BSCALER_FRMT_CHAIN_CTRL AND 0x10000 = 0) (writel soc BSCALER_FRMT_CHAIN_CTRL (push_bit 16 1) s)"

definition bscaler_frmc_soft_reset :: "soc \<Rightarrow> io \<Rightarrow> fault + io" where
  "bscaler_frmc_soft_reset soc s =
     poll soc (\<lambda>r. r BSCALER_FRMC_CHAIN_CTRL AND 0x10000 = 0) (writel soc BSCALER_FRMC_CHAIN_CTRL (push_bit 16 1) s)"

definition clkgate_mask :: "soc \<Rightarrow> u32 \<Rightarrow> u8 \<Rightarrow> io \<Rightarrow> io" where
  "clkgate_mask soc reg c s =
     (let ctrl = readl s reg in writel soc reg (if c \<noteq> 0 then ctrl OR 0x40000 else ctrl AND 0xfffbffff) s)"

definition bscaler_frmt_clkgate_mask_set :: "soc \<Rightarrow> u8 \<Rightarrow> io \<Rightarrow> io" where
  "bscaler_frmt_clkgate_mask_set soc t = clkgate_mask soc BSCALER_FRMT_CHAIN_CTRL t"

definition bscaler_frmc_clkgate_mask_set :: "soc \<Rightarrow> u8 \<Rightarrow> io \<Rightarrow> io" where
  "bscaler_frmc_clkgate_mask_set soc c = clkgate_mask soc BSCALER_FRMC_CHAIN_CTRL c"

definition common_writes :: "u32 list \<Rightarrow> u8 list \<Rightarrow> u8 \<Rightarrow> (u32 \<times> u32) list" where
  "common_writes coef ofst al =
     [(BSCALER_PARAM0, coef ! 0), (BSCALER_PARAM1, coef ! 1), (BSCALER_PARAM2, coef ! 2), (BSCALER_PARAM3, coef ! 3),
      (BSCALER_PARAM4, coef ! 4), (BSCALER_PARAM5, coef ! 5), (BSCALER_PARAM6, coef ! 6), (BSCALER_PARAM7, coef ! 7),
      (BSCALER_PARAM8, coef ! 8),
      (BSCALER_PARAM9, push_bit 16 (ucast (ofst ! 0)) OR push_bit 24 (ucast (ofst ! 1)) OR push_bit 8 (ucast al))]"

definition bscaler_common_param_cfg :: "soc \<Rightarrow> u32 list \<Rightarrow> u8 list \<Rightarrow> u8 \<Rightarrow> io \<Rightarrow> io" where
  "bscaler_common_param_cfg soc coef ofst al s = writel_all soc (common_writes coef ofst al) s"

text \<open>The order of the colours is put into the register without taking out what is there.\<close>

definition bst_order_cfg :: "soc \<Rightarrow> nat \<Rightarrow> io \<Rightarrow> io" where
  "bst_order_cfg soc ord s = writel soc BSCALER_PARAM9 (readl s BSCALER_PARAM9 OR (of_nat ord AND 0xF)) s"

definition bsc_order_cfg :: "soc \<Rightarrow> nat \<Rightarrow> io \<Rightarrow> io" where
  "bsc_order_cfg soc ord s = writel soc BSCALER_PARAM9 (readl s BSCALER_PARAM9 OR push_bit 4 (of_nat ord AND 0xF)) s"

section \<open>The T part\<close>

definition frmt_format :: "bst_cfg \<Rightarrow> u32" where
  "frmt_format cfg = (of_nat (bt_src_format cfg) AND 1) OR push_bit 2 (of_nat (bt_dst_format cfg) AND 3) OR
     push_bit 4 (ucast (bt_kernel_xstride cfg) AND 3) OR push_bit 6 (ucast (bt_kernel_ystride cfg) AND 3) OR
     push_bit 8 (ucast (bt_kernel_size cfg) AND 3) OR push_bit 16 (ucast (bt_pad_left cfg) AND 7) OR
     push_bit 20 (ucast (bt_pad_right cfg) AND 7) OR push_bit 24 (ucast (bt_pad_top cfg) AND 7) OR
     push_bit 28 (ucast (bt_pad_bottom cfg) AND 7)"

definition frmt_writes :: "sim_env \<Rightarrow> bst_cfg \<Rightarrow> (u32 \<times> u32) list" where
  "frmt_writes env cfg =
     [(BSCALER_FRMT_YBASE_SRC, phy_src env (bt_ibuft_bus cfg) (bt_src_base0 cfg)),
      (BSCALER_FRMT_CBASE_SRC, phy_src env (bt_ibuft_bus cfg) (bt_src_base1 cfg)),
      (BSCALER_FRMT_YBASE_DST, phy_other env (bt_obuft_bus cfg) (bt_dst_base0 cfg)),
      (BSCALER_FRMT_CBASE_DST, phy_other env (bt_obuft_bus cfg) (bt_dst_base1 cfg)),
      (BSCALER_FRMT_WH_SRC, push_bit 16 (ucast (bt_src_h cfg)) OR ucast (bt_src_w cfg)),
      (BSCALER_FRMT_PS_SRC, bt_src_line_stride cfg AND 0xFFFF),
      (BSCALER_FRMT_PS_DST, bt_dst_line_stride cfg),
      (BSCALER_FRMT_FS_DST, bt_dst_plane_stride cfg),
      (BSCALER_FRMT_DUMMY, bt_zero_point cfg),
      (BSCALER_FRMT_FORMAT, frmt_format cfg),
      (BSCALER_FRMT_ISUM, 0),
      (BSCALER_FRMT_OSUM, 0),
      (BSCALER_FRMT_TIMEOUT, 0xFFFFFFFF),
      (BSCALER_FRMT_CTRL, push_bit 11 (ucast (bt_obuft_bus cfg) AND 1) OR push_bit 10 (ucast (bt_ibuft_bus cfg) AND 1) OR
         push_bit 9 (bt_irq_mask cfg AND 1) OR 1)]"

definition bscaler_frmt_cfg :: "soc \<Rightarrow> sim_env \<Rightarrow> bst_cfg \<Rightarrow> io \<Rightarrow> io" where
  "bscaler_frmt_cfg soc env cfg s = writel_all soc (frmt_writes env cfg) (bst_order_cfg soc (bst_order cfg) s)"

section \<open>The C part\<close>

text \<open>The members of \<open>bsc_hw_once_cfg_s\<close> that only the hardware uses, and the address of \<open>boxes_info\<close>.\<close>

record bsc_hw = bsc_cfg +
  hw_boxes_info :: u32
  hw_mono_x :: u8
  hw_mono_y :: u8
  hw_extreme_point :: "u8 list"
  hw_box_bus :: u8
  hw_ibufc_bus :: u8
  hw_obufc_bus :: u8
  hw_irq_mask :: u8

definition frmc_box_num :: "bsc_hw \<Rightarrow> nat" where
  "frmc_box_num cfg = (if even (cb_dst_format cfg) then 2 else cb_box_num cfg)"

definition frmc_mode :: "nat \<Rightarrow> bsc_hw \<Rightarrow> u32" where
  "frmc_mode y_gain cfg = (of_nat (cb_src_format cfg) AND 1) OR push_bit 1 (of_bool (cb_affine cfg)) OR
     push_bit 2 (of_bool (cb_box_mode cfg)) OR push_bit 3 (of_nat (cb_dst_format cfg) AND 1) OR
     push_bit 4 (of_nat (cb_src_format cfg div 32) AND 3) OR push_bit 8 (ucast (cb_zero_point cfg) AND 0xff) OR
     push_bit 16 (of_nat y_gain AND 7)"

text \<open>The turning points are signed bytes: a negative one fills the bytes above it.\<close>

definition extreme_word :: "u8 list \<Rightarrow> nat \<Rightarrow> u32" where
  "extreme_word ep i = scast (ep ! i) OR push_bit 8 (scast (ep ! (i + 1))) OR push_bit 16 (scast (ep ! (i + 2))) OR
     push_bit 24 (scast (ep ! (i + 3)))"

definition extreme_words :: "bsc_hw \<Rightarrow> u32 list" where
  "extreme_words cfg = map (\<lambda>k. extreme_word (hw_extreme_point cfg) (4 * k)) [0 ..< (unat (cb_dst_box_w cfg) + 3) div 4]"

text \<open>The registers: sources, destinations and boxes, and the rest from the sizes to the turning points. The chain
  has a copy of its own below.\<close>

definition frmc_bases :: "sim_env \<Rightarrow> bsc_hw \<Rightarrow> (u32 \<times> u32) list" where
  "frmc_bases env cfg =
     [(BSCALER_FRMC_YBASE_SRC, phy_src env (hw_ibufc_bus cfg) (cb_src_base0 cfg)),
      (BSCALER_FRMC_CBASE_SRC, phy_src env (hw_ibufc_bus cfg) (cb_src_base1 cfg))] @
     map (\<lambda>i. (BSCALER_FRMC_BASE_DST, phy_other env (hw_obufc_bus cfg) (cb_dst_base cfg ! i))) [0 ..< frmc_box_num cfg] @
     [(BSCALER_FRMC_BOX_BASE, phy_other env (hw_box_bus cfg) (hw_boxes_info cfg))]"

definition frmc_geometry :: "bsc_hw \<Rightarrow> (u32 \<times> u32) list" where
  "frmc_geometry cfg =
     [(BSCALER_FRMC_WH_SRC, push_bit 16 (cb_src_box_h cfg) OR cb_src_box_w cfg),
      (BSCALER_FRMC_PS_SRC, cb_src_line_stride cfg),
      (BSCALER_FRMC_WH_DST, push_bit 16 (cb_dst_box_h cfg) OR cb_dst_box_w cfg),
      (BSCALER_FRMC_PS_DST, cb_dst_line_stride cfg AND 0xffff),
      (BSCALER_FRMC_BOX0, push_bit 16 (cb_src_box_y cfg) OR cb_src_box_x cfg),
      (BSCALER_FRMC_BOX1, push_bit 16 (cb_dst_box_y cfg) OR cb_dst_box_x cfg),
      (BSCALER_FRMC_BOX2, cb_matrix cfg ! 0), (BSCALER_FRMC_BOX3, cb_matrix cfg ! 1), (BSCALER_FRMC_BOX4, cb_matrix cfg ! 2),
      (BSCALER_FRMC_BOX5, cb_matrix cfg ! 3), (BSCALER_FRMC_BOX6, cb_matrix cfg ! 4), (BSCALER_FRMC_BOX7, cb_matrix cfg ! 5),
      (BSCALER_FRMC_BOX8, cb_matrix cfg ! 6), (BSCALER_FRMC_BOX9, cb_matrix cfg ! 7), (BSCALER_FRMC_BOX10, cb_matrix cfg ! 8),
      (BSCALER_FRMC_MONO, ucast (hw_mono_x cfg) OR push_bit 16 (ucast (hw_mono_y cfg)))] @
     map (Pair BSCALER_FRMC_EXTREME_Y) (extreme_words cfg)"

definition frmc_writes :: "sim_env \<Rightarrow> bsc_hw \<Rightarrow> (u32 \<times> u32) list" where
  "frmc_writes env cfg = frmc_bases env cfg @ [(BSCALER_FRMC_MODE, frmc_mode (cb_y_gain_exp cfg) cfg)] @ frmc_geometry cfg @
     [(BSCALER_FRMC_ISUM, 0), (BSCALER_FRMC_OSUM, 0),
      (BSCALER_FRMC_CTRL, push_bit 12 (ucast (hw_obufc_bus cfg)) OR push_bit 11 (ucast (hw_ibufc_bus cfg) AND 1) OR
         push_bit 10 (ucast (hw_box_bus cfg)) OR push_bit 9 (ucast (hw_irq_mask cfg)) OR 1)]"

text \<open>The arrays have 64 entries. (The counter of the loop is signed when the registers are written, so that a count
  from 2^31 on would write no destination; here it is out of bounds too.)\<close>

definition frmc_in_arrays :: "bsc_hw \<Rightarrow> bool" where
  "frmc_in_arrays cfg \<longleftrightarrow> frmc_box_num cfg \<le> 64 \<and> cb_dst_box_w cfg \<le> 64"

definition bscaler_frmc_cfg :: "soc \<Rightarrow> sim_env \<Rightarrow> bsc_hw \<Rightarrow> io \<Rightarrow> mdl_stop + io" where
  "bscaler_frmc_cfg soc env cfg s =
     (if \<not> frmc_in_arrays cfg then Inl Out_of_bounds
      else Inr (writel_all soc (frmc_writes env cfg) (bsc_order_cfg soc (cb_dst_format cfg div 2 mod 16) s)))"

section \<open>Chains\<close>

text \<open>\<open>write_chain\<close>: the value, then the register with the mark \<open>tm\<close>. The state is the address of the next word and
  memory; the return value, 8, is added up by the caller.\<close>

definition write_chain :: "u32 \<Rightarrow> u32 \<Rightarrow> u32 \<Rightarrow> u32 \<times> mem \<Rightarrow> u32 \<times> mem" where
  "write_chain reg val tm = (\<lambda>(addr, m). (addr + 8, store32 (store32 m addr val) (addr + 4) (push_bit 31 tm OR reg)))"

text \<open>The enlargement of rows is left out of a chain for a whole picture that is shrunk at least by half.\<close>

definition skips_gain :: "bsc_hw \<Rightarrow> bool" where
  "skips_gain cfg \<longleftrightarrow> 2 * 65536 \<le> sint (cb_matrix cfg ! 4) \<and> cb_src_box_y cfg = 0 \<and> cb_src_box_x cfg = 0 \<and>
     cb_src_format cfg div 32 mod 4 \<noteq> 0 \<and> cb_dst_box_y cfg = 0 \<and> cb_dst_box_x cfg = 0"

text \<open>The chain's own copy of the number of destinations, the addresses, the mode and the rest, as \<open>bscaler_frmc_chain_cfg\<close> has them.\<close>

definition chain_box_num :: "bsc_hw \<Rightarrow> nat" where
  "chain_box_num cfg = (if cb_dst_format cfg mod 2 = 0 then 2 else cb_box_num cfg)"

definition chain_bases :: "sim_env \<Rightarrow> bsc_hw \<Rightarrow> (u32 \<times> u32) list" where
  "chain_bases env cfg =
     (let phy_dst = phy_other env (hw_obufc_bus cfg) in
      (BSCALER_FRMC_YBASE_SRC, phy_src env (hw_ibufc_bus cfg) (cb_src_base0 cfg)) #
      (BSCALER_FRMC_CBASE_SRC, phy_src env (hw_ibufc_bus cfg) (cb_src_base1 cfg)) #
      map (\<lambda>i. (BSCALER_FRMC_BASE_DST, phy_dst (cb_dst_base cfg ! i))) [0 ..< chain_box_num cfg] @
      [(BSCALER_FRMC_BOX_BASE, phy_other env (hw_box_bus cfg) (hw_boxes_info cfg))])"

definition chain_mode :: "bsc_hw \<Rightarrow> u32" where
  "chain_mode cfg =
     (let src_format = of_nat (cb_src_format cfg) AND 1;
          dst_format = of_nat (cb_dst_format cfg) AND 1;
          bpp_mode = of_nat (cb_src_format cfg div 32) AND 3
      in if skips_gain cfg
         then src_format OR push_bit 1 (of_bool (cb_affine cfg)) OR push_bit 2 (of_bool (cb_box_mode cfg)) OR
           push_bit 3 dst_format OR push_bit 4 bpp_mode OR push_bit 8 (ucast (cb_zero_point cfg) AND 0xff)
         else src_format OR push_bit 1 (of_bool (cb_affine cfg)) OR push_bit 2 (of_bool (cb_box_mode cfg)) OR
           push_bit 3 dst_format OR push_bit 4 bpp_mode OR push_bit 8 (ucast (cb_zero_point cfg) AND 0xff) OR
           push_bit 16 (of_nat (cb_y_gain_exp cfg) AND 7))"

definition chain_extremes :: "bsc_hw \<Rightarrow> u32 list" where
  "chain_extremes cfg =
     (let ep = hw_extreme_point cfg in
      map (\<lambda>k. scast (ep ! (4 * k)) OR push_bit 8 (scast (ep ! (4 * k + 1))) OR push_bit 16 (scast (ep ! (4 * k + 2))) OR
        push_bit 24 (scast (ep ! (4 * k + 3)))) [0 ..< (unat (cb_dst_box_w cfg) + 3) div 4])"

definition chain_geometry :: "bsc_hw \<Rightarrow> (u32 \<times> u32) list" where
  "chain_geometry cfg =
     (BSCALER_FRMC_WH_SRC, push_bit 16 (cb_src_box_h cfg) OR cb_src_box_w cfg) #
     (BSCALER_FRMC_PS_SRC, cb_src_line_stride cfg) #
     (BSCALER_FRMC_WH_DST, push_bit 16 (cb_dst_box_h cfg) OR cb_dst_box_w cfg) #
     (BSCALER_FRMC_PS_DST, cb_dst_line_stride cfg AND 0xffff) #
     (BSCALER_FRMC_BOX0, push_bit 16 (cb_src_box_y cfg) OR cb_src_box_x cfg) #
     (BSCALER_FRMC_BOX1, push_bit 16 (cb_dst_box_y cfg) OR cb_dst_box_x cfg) #
     (BSCALER_FRMC_BOX2, cb_matrix cfg ! 0) # (BSCALER_FRMC_BOX3, cb_matrix cfg ! 1) # (BSCALER_FRMC_BOX4, cb_matrix cfg ! 2) #
     (BSCALER_FRMC_BOX5, cb_matrix cfg ! 3) # (BSCALER_FRMC_BOX6, cb_matrix cfg ! 4) # (BSCALER_FRMC_BOX7, cb_matrix cfg ! 5) #
     (BSCALER_FRMC_BOX8, cb_matrix cfg ! 6) # (BSCALER_FRMC_BOX9, cb_matrix cfg ! 7) # (BSCALER_FRMC_BOX10, cb_matrix cfg ! 8) #
     (BSCALER_FRMC_MONO, ucast (hw_mono_x cfg) OR push_bit 16 (ucast (hw_mono_y cfg))) #
     map (Pair BSCALER_FRMC_EXTREME_Y) (chain_extremes cfg)"

definition chain_entries :: "sim_env \<Rightarrow> bsc_hw \<Rightarrow> (u32 \<times> u32) list" where
  "chain_entries env cfg = chain_bases env cfg @ [(BSCALER_FRMC_MODE, chain_mode cfg)] @ chain_geometry cfg"

definition chain_last :: "bsc_hw \<Rightarrow> u32 \<times> u32" where
  "chain_last cfg = (BSCALER_FRMC_CTRL, push_bit 12 (ucast (hw_obufc_bus cfg) AND 1) OR push_bit 11 (ucast (hw_ibufc_bus cfg) AND 1) OR
     push_bit 10 (ucast (hw_box_bus cfg)) OR push_bit 9 (ucast (hw_irq_mask cfg)) OR 1)"

text \<open>The results are the end of the chain, its length in bytes, and memory.\<close>

definition bscaler_frmc_chain_cfg :: "sim_env \<Rightarrow> bsc_hw \<Rightarrow> u32 \<Rightarrow> mem \<Rightarrow> mdl_stop + u32 \<times> u32 \<times> mem" where
  "bscaler_frmc_chain_cfg env cfg addr m =
     (if \<not> frmc_in_arrays cfg then Inl Out_of_bounds
      else let ((addr, m), len) = fold (\<lambda>(r, v) (s, len). (write_chain r v 0 s, len + 8)) (chain_entries env cfg) ((addr, m), 0);
               ((addr, m), len) = (write_chain (fst (chain_last cfg)) (snd (chain_last cfg)) 1 (addr, m), len + 8)
           in Inr (addr, len, m))"

record bs_chain_cfg =
  bs_chain_base :: u32
  bs_chain_len :: u32
  bs_chain_irq_mask :: u8
  c_timeout_irq_mask :: u8
  chain_bus :: u8

definition bsc_chain_hw_cfg :: "soc \<Rightarrow> sim_env \<Rightarrow> bs_chain_cfg \<Rightarrow> io \<Rightarrow> io" where
  "bsc_chain_hw_cfg soc env cfg s = writel_all soc
     [(BSCALER_FRMC_TIMEOUT, 0xFFFFFFFF),
      (BSCALER_FRMC_CHAIN_BASE, phy_other env (chain_bus cfg) (bs_chain_base cfg)),
      (BSCALER_FRMC_CHAIN_LEN, bs_chain_len cfg),
      (BSCALER_FRMC_CHAIN_CTRL, push_bit 3 (ucast (bs_chain_irq_mask cfg)) OR push_bit 5 (ucast (c_timeout_irq_mask cfg)) OR
         push_bit 1 (ucast (chain_bus cfg)) OR 1)] s"

section \<open>All the jobs of a picture\<close>

text \<open>\<open>bs_chain_stuff\<close> of \<open>bscaler_api.cpp\<close>. What \<open>bscaler_malloc\<close> returns is the parameter \<open>base\<close>; without memory
  a message is printed and the chain is written to address 0 all the same. The results are the state of the
  registers and memory.\<close>

definition ALPHA :: u8 where "ALPHA = 0"

definition chain_loop :: "sim_env \<Rightarrow> bsc_hw list \<Rightarrow> u32 \<times> u32 \<times> mem \<Rightarrow> mdl_stop + u32 \<times> u32 \<times> mem" where
  "chain_loop env cfgs st = fold (\<lambda>cfg r. res_bind r (\<lambda>(ptr, chain_len, m).
     res_bind (bscaler_frmc_chain_cfg env cfg ptr m) (\<lambda>(ptr, len, m). Inr (ptr, chain_len + len, m)))) cfgs (Inr st)"

definition bsc_chain_size :: "nat \<Rightarrow> u32" where
  "bsc_chain_size n = of_nat n * (64 + 64 + 22) * 8"

definition bs_chain_stuff :: "soc \<Rightarrow> sim_env \<Rightarrow> u32 option \<Rightarrow> bsc_hw list \<Rightarrow> io \<times> mem \<Rightarrow> mdl_stop + io \<times> mem" where
  "bs_chain_stuff soc env base cfgs = (\<lambda>(s, m). case cfgs of [] \<Rightarrow> Inl Out_of_bounds | cfg_once # _ \<Rightarrow>
     let s = bscaler_common_param_cfg soc (cb_coef cfg_once) (cb_offset cfg_once) ALPHA s;
         s = bsc_order_cfg soc (cb_dst_format cfg_once div 2 mod 16) s
     in case base of None \<Rightarrow> Inl Null_pointer
        | Some base \<Rightarrow> res_bind (chain_loop env cfgs (base, 0, m)) (\<lambda>(_, chain_len, m).
            Inr (bsc_chain_hw_cfg soc env \<lparr>bs_chain_base = base, bs_chain_len = chain_len, bs_chain_irq_mask = 0,
              c_timeout_irq_mask = 1, chain_bus = 0\<rparr> s, m)))"

section \<open>The job a sequence of writes describes\<close>

text \<open>The registers as the fields of a job: the last value written, for the destinations and the turning points all of
  them. The order of the colours, their offsets and alpha share \<open>PARAM9\<close>. Of the boxes the registers have the
  address alone; what lies there is not part of them.\<close>

definition writes_to :: "u32 \<Rightarrow> (u32 \<times> u32) list \<Rightarrow> u32 list" where
  "writes_to r ws = map snd (filter (\<lambda>(a, v). a = r) ws)"

definition reg_of :: "u32 \<Rightarrow> (u32 \<times> u32) list \<Rightarrow> u32" where
  "reg_of r ws = last (writes_to r ws)"

definition fld :: "nat \<Rightarrow> nat \<Rightarrow> u32 \<Rightarrow> u32" where
  "fld n k w = take_bit k (drop_bit n w)"

definition byte_of_words :: "u32 list \<Rightarrow> nat \<Rightarrow> u8" where
  "byte_of_words ws i = ucast (fld (8 * (i mod 4)) 8 (ws ! (i div 4)))"

definition job_of_writes :: "(u32 \<times> u32) list \<Rightarrow> bsc_hw" where
  "job_of_writes ws =
     (let r = (\<lambda>a. reg_of a ws); lo = (\<lambda>a. fld 0 16 (r a)); hi = (\<lambda>a. fld 16 16 (r a));
          mode = r BSCALER_FRMC_MODE; mono = r BSCALER_FRMC_MONO; ctrl = r BSCALER_FRMC_CTRL; p9 = r BSCALER_PARAM9; bases = writes_to BSCALER_FRMC_BASE_DST ws in
      \<lparr>cb_src_base0 = r BSCALER_FRMC_YBASE_SRC, cb_src_base1 = r BSCALER_FRMC_CBASE_SRC,
       cb_src_format = unat (fld 0 1 mode) + 32 * unat (fld 4 2 mode),
       cb_src_line_stride = r BSCALER_FRMC_PS_SRC,
       cb_src_box_x = lo BSCALER_FRMC_BOX0, cb_src_box_y = hi BSCALER_FRMC_BOX0,
       cb_src_box_w = lo BSCALER_FRMC_WH_SRC, cb_src_box_h = hi BSCALER_FRMC_WH_SRC,
       cb_dst_format = unat (fld 3 1 mode) + 2 * unat (fld 4 4 p9),
       cb_dst_line_stride = r BSCALER_FRMC_PS_DST,
       cb_dst_box_x = lo BSCALER_FRMC_BOX1, cb_dst_box_y = hi BSCALER_FRMC_BOX1,
       cb_dst_box_w = lo BSCALER_FRMC_WH_DST, cb_dst_box_h = hi BSCALER_FRMC_WH_DST,
       cb_affine = (fld 1 1 mode = 1), cb_box_mode = (fld 2 1 mode = 1),
       cb_y_gain_exp = unat (fld 16 3 mode), cb_zero_point = ucast (fld 8 8 mode),
       cb_nv2bgr_alpha = ucast (fld 8 8 p9),
       cb_coef = map r [BSCALER_PARAM0, BSCALER_PARAM1, BSCALER_PARAM2, BSCALER_PARAM3, BSCALER_PARAM4, BSCALER_PARAM5,
         BSCALER_PARAM6, BSCALER_PARAM7, BSCALER_PARAM8],
       cb_offset = [ucast (fld 16 8 p9), ucast (fld 24 8 p9)],
       cb_matrix = map r [BSCALER_FRMC_BOX2, BSCALER_FRMC_BOX3, BSCALER_FRMC_BOX4, BSCALER_FRMC_BOX5, BSCALER_FRMC_BOX6,
         BSCALER_FRMC_BOX7, BSCALER_FRMC_BOX8, BSCALER_FRMC_BOX9, BSCALER_FRMC_BOX10],
       cb_box_num = (if fld 3 1 mode = 1 then length bases else 1),
       cb_dst_base = bases @ replicate (64 - length bases) 0,
       cb_boxes_info = None,
       hw_boxes_info = r BSCALER_FRMC_BOX_BASE, hw_mono_x = ucast (fld 0 8 mono), hw_mono_y = ucast (fld 16 8 mono),
       hw_extreme_point = map (byte_of_words (writes_to BSCALER_FRMC_EXTREME_Y ws)) [0 ..< unat (lo BSCALER_FRMC_WH_DST)],
       hw_box_bus = ucast (fld 10 1 ctrl), hw_ibufc_bus = ucast (fld 11 1 ctrl), hw_obufc_bus = ucast (fld 12 1 ctrl),
       hw_irq_mask = ucast (fld 9 1 ctrl)\<rparr>)"

text \<open>The jobs whose fields fit the registers: the sizes have 16 bits, the buses and the mask of the interrupt one bit, of the
  formats the bits that are programmed. A negative turning point spills into the bytes above it, so those that are not in the
  highest byte of a word are not negative.\<close>

definition fits_registers :: "bsc_hw \<Rightarrow> bool" where
  "fits_registers cfg \<longleftrightarrow> frmc_in_arrays cfg \<and>
     (\<forall>x \<in> {cb_src_box_x cfg, cb_src_box_y cfg, cb_src_box_w cfg, cb_src_box_h cfg, cb_dst_box_x cfg, cb_dst_box_y cfg,
        cb_dst_box_w cfg, cb_dst_box_h cfg, cb_dst_line_stride cfg}. x < 2 ^ 16) \<and>
     (\<forall>x \<in> {hw_box_bus cfg, hw_ibufc_bus cfg, hw_obufc_bus cfg, hw_irq_mask cfg}. x \<le> 1) \<and>
     cb_src_format cfg = cb_src_format cfg mod 2 + 32 * (cb_src_format cfg div 32 mod 4) \<and> cb_dst_format cfg < 32 \<and>
     cb_y_gain_exp cfg < 8 \<and> length (cb_coef cfg) = 9 \<and> length (cb_offset cfg) = 2 \<and> length (cb_matrix cfg) = 9 \<and>
     (even (cb_dst_format cfg) \<longrightarrow> cb_box_num cfg = 1) \<and> length (cb_dst_base cfg) = 64 \<and> length (hw_extreme_point cfg) = 64 \<and>
     list_all (\<lambda>i. i mod 4 = 3 \<or> hw_extreme_point cfg ! i < 128) [0 ..< unat (cb_dst_box_w cfg)]"

text \<open>The job as the engine is to see it: with physical addresses, the destinations and the turning points it uses.\<close>

definition phys_job :: "sim_env \<Rightarrow> bsc_hw \<Rightarrow> bsc_hw" where
  "phys_job env cfg = cfg
     \<lparr>cb_src_base0 := phy_src env (hw_ibufc_bus cfg) (cb_src_base0 cfg), cb_src_base1 := phy_src env (hw_ibufc_bus cfg) (cb_src_base1 cfg),
      cb_dst_base := map (phy_other env (hw_obufc_bus cfg)) (take (frmc_box_num cfg) (cb_dst_base cfg)) @ replicate (64 - frmc_box_num cfg) 0,
      hw_boxes_info := phy_other env (hw_box_bus cfg) (hw_boxes_info cfg), cb_boxes_info := None,
      hw_extreme_point := take (unat (cb_dst_box_w cfg)) (hw_extreme_point cfg)\<rparr>"

section \<open>A chain programs what the registers would be given\<close>

text \<open>What the engine reads: register, value, and whether the pair has the mark.\<close>

definition chain_read :: "nat \<Rightarrow> u32 \<Rightarrow> mem \<Rightarrow> (u32 \<times> u32 \<times> bool) list" where
  "chain_read n base m = map (\<lambda>k. let w = load32 m (word_at base (2 * k + 1)) in (w AND 0x7FFFFFFF, load32 m (word_at base (2 * k)), bit w 31)) [0 ..< n]"

definition marked_words :: "u32 \<times> u32 \<times> u32 \<Rightarrow> (nat \<times> u32) list" where
  "marked_words = (\<lambda>(r, v, tm). [(0, v), (1, push_bit 31 tm OR r)])"

lemma hal_chain_snoc: "hal_chain words w (xs @ [x]) = hal_chain words w xs @ node_words w (words x) (length xs)"
  by (auto simp: hal_chain_def nth_append intro!: arg_cong [where f = concat])

lemma write_chain_words:
  "fold (\<lambda>(r, v, tm). write_chain r v tm) es (base, m) =
     (base + 8 * of_nat (length es), store_words base (hal_chain marked_words 2 es) m)"
proof (induction es rule: rev_induct)
  case (snoc e es)
  obtain r v tm where e: "e = (r, v, tm)" by (cases e) auto
  have "fold (\<lambda>(r, v, tm). write_chain r v tm) (es @ [e]) (base, m) =
      write_chain r v tm (base + 8 * of_nat (length es), store_words base (hal_chain marked_words 2 es) m)"
    by (simp add: e snoc.IH)
  also have "\<dots> = (base + 8 * of_nat (length (es @ [e])), store_words base (hal_chain marked_words 2 (es @ [e])) m)"
    by (simp add: e write_chain_def hal_chain_snoc store_words_append store_words_def node_words_def marked_words_def word_at_def algebra_simps)
  finally show ?case .
qed (simp add: hal_chain_def store_words_def)

lemma take_bit_31:
  fixes r :: u32
  shows "take_bit 31 r = r \<longleftrightarrow> r < 2 ^ 31"
  by (simp add: word_unat_eq_iff unsigned_take_bit_eq take_bit_nat_eq_self_iff word_less_nat_alt)

lemma mark_bits:
  fixes r tm :: u32
  assumes "r < 2 ^ 31" "tm \<le> 1"
  shows "(push_bit 31 tm OR r) AND 0x7FFFFFFF = r" "bit (push_bit 31 tm OR r) 31 \<longleftrightarrow> tm = 1"
proof -
  have r: "take_bit 31 r = r" using assms(1)
    by (simp add: take_bit_31)
  have tm: "tm = 0 \<or> tm = 1" using assms(2) by (auto simp: word_le_nat_alt word_unat_eq_iff)
  have m: "(0x7FFFFFFF :: u32) = mask 31" by (simp add: mask_eq_decr_exp)
  have nb: "\<not> bit r 31" using r by (metis bit_take_bit_iff less_irrefl)
  show "(push_bit 31 tm OR r) AND 0x7FFFFFFF = r" unfolding m take_bit_eq_mask [symmetric] take_bit_or
    using r tm by (auto simp: take_bit_push_bit)
  show "bit (push_bit 31 tm OR r) 31 \<longleftrightarrow> tm = 1" using nb tm by (auto simp: bit_or_iff bit_push_bit_iff)
qed

lemma chain_read_written:
  assumes "length es \<le> 2 ^ 29" "\<forall>(r, v, tm) \<in> set es. r < 2 ^ 31 \<and> tm \<le> 1"
  shows "chain_read (length es) base (store_words base (hal_chain marked_words 2 es) m) = map (\<lambda>(r, v, tm). (r, v, tm = 1)) es"
proof (rule nth_equalityI)
  let ?ws = "hal_chain marked_words 2 es"
  fix k assume "k < length (chain_read (length es) base (store_words base ?ws m))"
  then have k: "k < length es" by (simp add: chain_read_def)
  obtain r v tm where e: "es ! k = (r, v, tm)" by (cases "es ! k") auto
  have rt: "r < 2 ^ 31" "tm \<le> 1" using assms(2) nth_mem [OF k] e by force+
  have b: "\<forall>x \<in> set es. \<forall>(k, v) \<in> set (marked_words x). k < 2" by (auto simp: marked_words_def)
  have all: "\<forall>(k, v) \<in> set ?ws. k < 2 ^ 30" using hal_chain_bound [OF b] assms(1) by fastforce
  have look: "load32 (store_words base ?ws m) (word_at base (2 * k + j)) = the (map_of (rev (marked_words (r, v, tm))) j)" if "j < 2" for j
  proof -
    have "2 * k + j < 2 ^ 30" using k assms(1) that by simp
    moreover have "map_of (rev (marked_words (r, v, tm))) j \<noteq> None" using that by (auto simp: marked_words_def less_2_cases_iff)
    ultimately show ?thesis
      using load32_store_words [OF all, of "2 * k + j" base m] map_of_hal_chain [OF b that, of k] k by (auto simp: e)
  qed
  have "(push_bit 31 tm OR r) AND 0x7FFFFFFF = r" "bit (push_bit 31 tm OR r) 31 \<longleftrightarrow> tm = 1"
    using rt mark_bits by auto
  then show "chain_read (length es) base (store_words base ?ws m) ! k = map (\<lambda>(r, v, tm). (r, v, tm = 1)) es ! k"
    using k look [of 0] look [of 1] by (simp add: chain_read_def e marked_words_def Let_def)
qed (simp add: chain_read_def)

text \<open>The pairs of a job, the last one marked.\<close>

definition job_pairs :: "sim_env \<Rightarrow> bsc_hw \<Rightarrow> (u32 \<times> u32 \<times> u32) list" where
  "job_pairs env cfg = map (\<lambda>(r, v). (r, v, 0)) (chain_entries env cfg) @ [(fst (chain_last cfg), snd (chain_last cfg), 1)]"

lemma chain_fold_len:
  "fold (\<lambda>(r, v) (s, len). (write_chain r v 0 s, len + 8)) es (s, len) =
     (fold (\<lambda>(r, v, tm). write_chain r v tm) (map (\<lambda>(r, v). (r, v, 0)) es) s, len + 8 * of_nat (length es))"
proof (induction es arbitrary: s len)
  case (Cons e es)
  show ?case by (cases e) (simp add: Cons.IH algebra_simps)
qed simp

lemma chain_cfg_pairs:
  assumes "frmc_in_arrays cfg"
  shows "bscaler_frmc_chain_cfg env cfg addr m =
    Inr (addr + 8 * of_nat (length (job_pairs env cfg)), 8 * of_nat (length (job_pairs env cfg)),
         store_words addr (hal_chain marked_words 2 (job_pairs env cfg)) m)"
proof -
  let ?es = "map (\<lambda>(r, v). (r, v, 0 :: u32)) (chain_entries env cfg)"
  have "write_chain (fst (chain_last cfg)) (snd (chain_last cfg)) 1 (fold (\<lambda>(r, v, tm). write_chain r v tm) ?es (addr, m)) =
      fold (\<lambda>(r, v, tm). write_chain r v tm) (job_pairs env cfg) (addr, m)"
    by (simp add: job_pairs_def)
  then have W: "write_chain (fst (chain_last cfg)) (snd (chain_last cfg)) 1
        (addr + 8 * of_nat (length ?es), store_words addr (hal_chain marked_words 2 ?es) m) =
      (addr + 8 * of_nat (length (job_pairs env cfg)), store_words addr (hal_chain marked_words 2 (job_pairs env cfg)) m)"
    by (simp only: write_chain_words)
  have "8 * of_nat (length ?es) + 8 = (8 * of_nat (length (job_pairs env cfg)) :: u32)"
    by (simp add: job_pairs_def algebra_simps)
  then show ?thesis using assms
    unfolding bscaler_frmc_chain_cfg_def chain_fold_len write_chain_words by (simp add: W [simplified])
qed

lemma chain_loop_pairs:
  assumes "\<forall>cfg \<in> set cfgs. frmc_in_arrays cfg"
  shows "chain_loop env cfgs (base, 0, m) =
    Inr (base + 8 * of_nat (length (concat (map (job_pairs env) cfgs))), 8 * of_nat (length (concat (map (job_pairs env) cfgs))),
         store_words base (hal_chain marked_words 2 (concat (map (job_pairs env) cfgs))) m)"
  using assms
proof (induction cfgs rule: rev_induct)
  case (snoc cfg cfgs)
  let ?es = "concat (map (job_pairs env) cfgs)"
  have IH: "chain_loop env cfgs (base, 0, m) =
      Inr (base + 8 * of_nat (length ?es), 8 * of_nat (length ?es), store_words base (hal_chain marked_words 2 ?es) m)"
    using snoc by simp
  have "fold (\<lambda>(r, v, tm). write_chain r v tm) (job_pairs env cfg)
      (base + 8 * of_nat (length ?es), store_words base (hal_chain marked_words 2 ?es) m) =
    (base + 8 * of_nat (length (?es @ job_pairs env cfg)), store_words base (hal_chain marked_words 2 (?es @ job_pairs env cfg)) m)"
    unfolding write_chain_words [symmetric] by simp
  then have "store_words (base + 8 * of_nat (length ?es)) (hal_chain marked_words 2 (job_pairs env cfg)) (store_words base (hal_chain marked_words 2 ?es) m) =
      store_words base (hal_chain marked_words 2 (?es @ job_pairs env cfg)) m"
    by (simp add: write_chain_words)
  moreover have "frmc_in_arrays cfg" using snoc.prems by simp
  moreover have "chain_loop env (cfgs @ [cfg]) (base, 0, m) = res_bind (chain_loop env cfgs (base, 0, m)) (\<lambda>(ptr, chain_len, m).
      res_bind (bscaler_frmc_chain_cfg env cfg ptr m) (\<lambda>(ptr, len, m). Inr (ptr, chain_len + len, m)))"
    by (simp add: chain_loop_def)
  ultimately show ?case by (simp add: IH chain_cfg_pairs algebra_simps)
qed (simp add: chain_loop_def hal_chain_def store_words_def)

text \<open>The two copies agree, but for the gain.\<close>

lemma chain_copies:
  "chain_bases env cfg = frmc_bases env cfg" "chain_geometry cfg = frmc_geometry cfg"
  "chain_mode cfg = frmc_mode (if skips_gain cfg then 0 else cb_y_gain_exp cfg) cfg"
  by (simp_all add: chain_bases_def frmc_bases_def chain_box_num_def frmc_box_num_def chain_geometry_def frmc_geometry_def
      chain_extremes_def extreme_words_def extreme_word_def chain_mode_def frmc_mode_def even_iff_mod_2_eq_zero Let_def)

lemma chain_entries_copies:
  "chain_entries env cfg = frmc_bases env cfg @
     [(BSCALER_FRMC_MODE, frmc_mode (if skips_gain cfg then 0 else cb_y_gain_exp cfg) cfg)] @ frmc_geometry cfg"
  unfolding chain_entries_def chain_copies by (rule refl)

lemma bsc_reg_bound:
  assumes "(r, v) \<in> set (chain_entries env cfg) \<or> (r, v) = chain_last cfg"
  shows "r < 2 ^ 31 \<and> r \<noteq> BSCALER_FRMC_ISUM \<and> r \<noteq> BSCALER_FRMC_OSUM"
  using assms by (auto simp: chain_entries_copies chain_last_def frmc_bases_def frmc_geometry_def bsc_regs)

lemma job_pairs_length:
  assumes "frmc_in_arrays cfg"
  shows "length (job_pairs env cfg) \<le> 64 + 64 + 22"
proof -
  have "unat (cb_dst_box_w cfg) \<le> 64" using assms by (simp add: frmc_in_arrays_def word_le_nat_alt)
  then have "(unat (cb_dst_box_w cfg) + 3) div 4 \<le> 16" by simp
  moreover have "frmc_box_num cfg \<le> 64" using assms by (simp add: frmc_in_arrays_def)
  ultimately show ?thesis
    by (simp add: job_pairs_def chain_entries_copies frmc_bases_def frmc_geometry_def extreme_words_def)
qed

lemma concat_job_pairs_length:
  "\<forall>cfg \<in> set cfgs. frmc_in_arrays cfg \<Longrightarrow> length (concat (map (job_pairs env) cfgs)) \<le> length cfgs * 150"
  by (induction cfgs) (auto dest: job_pairs_length [where env = env])

text \<open>The pairs as the engine reads them.\<close>

definition job_words :: "sim_env \<Rightarrow> bsc_hw \<Rightarrow> (u32 \<times> u32 \<times> bool) list" where
  "job_words env cfg = map (\<lambda>(r, v). (r, v, False)) (chain_entries env cfg) @ [(fst (chain_last cfg), snd (chain_last cfg), True)]"

lemma job_words_pairs: "map (\<lambda>(r, v, tm). (r, v, tm = 1)) (job_pairs env cfg) = job_words env cfg"
  by (simp add: job_words_def job_pairs_def split_beta)

lemma job_pairs_ok: "\<forall>(r, v, tm) \<in> set (job_pairs env cfg). r < 2 ^ 31 \<and> tm \<le> 1"
proof -
  have "\<forall>(r, v) \<in> set (chain_entries env cfg). r < 2 ^ 31" using bsc_reg_bound by blast
  moreover have "fst (chain_last cfg) < 2 ^ 31" using bsc_reg_bound [of "fst (chain_last cfg)" "snd (chain_last cfg)" env cfg] by simp
  ultimately show ?thesis by (auto simp: job_pairs_def)
qed

lemma chain_of_pairs:
  fixes env :: sim_env
  assumes "\<forall>cfg \<in> set cfgs. frmc_in_arrays cfg" "length cfgs \<le> 2 ^ 20"
  defines "es \<equiv> concat (map (job_pairs env) cfgs)"
  shows "chain_read (length es) base (store_words base (hal_chain marked_words 2 es) m) = concat (map (job_words env) cfgs)"
    "1200 * length cfgs \<le> unat (a - base) \<Longrightarrow> store_words base (hal_chain marked_words 2 es) m a = m a"
proof -
  have len: "length es \<le> length cfgs * 150" unfolding es_def by (rule concat_job_pairs_length [OF assms(1)])
  then have l: "length es \<le> 2 ^ 28" using assms(2) by simp
  have ok: "\<forall>(r, v, tm) \<in> set es. r < 2 ^ 31 \<and> tm \<le> 1" unfolding es_def using job_pairs_ok by fastforce
  show "chain_read (length es) base (store_words base (hal_chain marked_words 2 es) m) = concat (map (job_words env) cfgs)"
    using chain_read_written [OF _ ok] l by (simp add: es_def map_concat comp_def job_words_pairs)
  have b: "\<forall>x \<in> set es. \<forall>(k, v) \<in> set (marked_words x). k < 2" by (auto simp: marked_words_def)
  show "store_words base (hal_chain marked_words 2 es) m a = m a" if "1200 * length cfgs \<le> unat (a - base)"
    by (rule store_words_frame [OF hal_chain_bound [OF b]]) (use l len that in simp_all)
qed

lemma filter_id: "\<forall>x \<in> set xs. P x \<Longrightarrow> filter P xs = xs"
  by (induction xs) auto

lemma writes_without_sums:
  assumes "hw_obufc_bus cfg \<le> 1"
  defines "cfg' \<equiv> (if skips_gain cfg then cfg\<lparr>cb_y_gain_exp := 0\<rparr> else cfg)"
  shows "chain_entries env cfg @ [chain_last cfg] =
    filter (\<lambda>(r, v). r \<noteq> BSCALER_FRMC_ISUM \<and> r \<noteq> BSCALER_FRMC_OSUM) (frmc_writes env cfg')"
proof -
  have bus: "ucast (hw_obufc_bus cfg) AND (1 :: u32) = ucast (hw_obufc_bus cfg)"
  proof -
    have "hw_obufc_bus cfg = 0 \<or> hw_obufc_bus cfg = 1" using assms(1) by (auto simp: word_le_nat_alt word_unat_eq_iff)
    then show ?thesis by auto
  qed
  have same: "frmc_bases env cfg' = frmc_bases env cfg" "frmc_geometry cfg' = frmc_geometry cfg" "chain_last cfg' = chain_last cfg"
    "frmc_mode (cb_y_gain_exp cfg') cfg' = frmc_mode (if skips_gain cfg then 0 else cb_y_gain_exp cfg) cfg"
    by (simp_all add: cfg'_def frmc_bases_def frmc_geometry_def chain_last_def frmc_mode_def frmc_box_num_def extreme_words_def)
  have w: "frmc_writes env cfg' = chain_entries env cfg @ [(BSCALER_FRMC_ISUM, 0), (BSCALER_FRMC_OSUM, 0), chain_last cfg]"
    using same by (simp add: frmc_writes_def chain_entries_copies chain_last_def bus) (simp add: cfg'_def bus)
  have in_chain: "\<forall>(r, v) \<in> set (chain_entries env cfg). r \<noteq> BSCALER_FRMC_ISUM \<and> r \<noteq> BSCALER_FRMC_OSUM" using bsc_reg_bound by blast
  have last: "fst (chain_last cfg) \<noteq> BSCALER_FRMC_ISUM \<and> fst (chain_last cfg) \<noteq> BSCALER_FRMC_OSUM"
    using bsc_reg_bound [of "fst (chain_last cfg)" "snd (chain_last cfg)" env cfg] by simp
  show ?thesis unfolding w using last by (simp add: filter_id [OF in_chain] split_beta)
qed

section \<open>The registers hold the job\<close>

lemma writes_to_simps [simp]:
  "writes_to r [] = []"
  "writes_to r ((a, v) # ws) = (if a = r then v # writes_to r ws else writes_to r ws)"
  "writes_to r (xs @ ys) = writes_to r xs @ writes_to r ys"
  by (simp_all add: writes_to_def)

lemma writes_to_map [simp]:
  "writes_to r (map (\<lambda>i. (a, f i)) xs) = (if a = r then map f xs else [])"
  "writes_to r (map (Pair a) ys) = (if a = r then ys else [])"
  by (auto simp: writes_to_def filter_map comp_def)

lemma low_masks:
  "(x :: u32) AND 1 = take_bit 1 x" "x AND 3 = take_bit 2 x" "x AND 7 = take_bit 3 x" "x AND 0xF = take_bit 4 x"
  "x AND 0xff = take_bit 8 x" "x AND 0xffff = take_bit 16 x"
  by (simp_all add: take_bit_eq_mask mask_eq_decr_exp)

lemma fld_or: "fld n k (a OR b) = fld n k a OR fld n k b"
  by (simp add: fld_def take_bit_or drop_bit_or)

text \<open>A field of \<open>k\<close> bits at bit \<open>n\<close>.\<close>

definition put :: "nat \<Rightarrow> nat \<Rightarrow> u32 \<Rightarrow> u32" where
  "put n k x = push_bit n (take_bit k x)"

lemma fld_same: "n + k \<le> 32 \<Longrightarrow> fld n k (put n k x) = take_bit k x"
  by (rule bit_word_eqI) (auto simp: fld_def put_def bit_take_bit_iff bit_drop_bit_eq bit_push_bit_iff)

lemma fld_other: "m + j \<le> n \<or> n + k \<le> m \<Longrightarrow> fld n k (put m j x) = 0"
  by (rule bit_word_eqI) (auto simp: fld_def put_def bit_take_bit_iff bit_drop_bit_eq bit_push_bit_iff)

lemma take_16: "x < 2 ^ 16 \<Longrightarrow> take_bit 16 x = (x :: u32)"
  by (simp add: word_unat_eq_iff unsigned_take_bit_eq take_bit_nat_eq_self_iff word_less_nat_alt)

lemma take_byte: "take_bit 8 (ucast (b :: u8) :: u32) = ucast b"
  by (rule bit_word_eqI) (auto simp: bit_take_bit_iff bit_ucast_iff dest: bit_imp_le_length)

lemma halves:
  assumes "lo < 2 ^ 16" "hi < 2 ^ 16"
  shows "fld 0 16 (push_bit 16 hi OR lo) = lo" "fld 16 16 (push_bit 16 hi OR lo) = hi"
proof -
  have w: "push_bit 16 hi OR lo = put 16 16 hi OR put 0 16 lo" using assms by (simp add: put_def take_16)
  show "fld 0 16 (push_bit 16 hi OR lo) = lo" "fld 16 16 (push_bit 16 hi OR lo) = hi"
    unfolding w fld_or using assms by (simp_all add: fld_same fld_other take_16)
qed

lemma frmc_mode_put:
  "frmc_mode g cfg = put 0 1 (of_nat (cb_src_format cfg)) OR put 1 1 (of_bool (cb_affine cfg)) OR
     put 2 1 (of_bool (cb_box_mode cfg)) OR put 3 1 (of_nat (cb_dst_format cfg)) OR put 4 2 (of_nat (cb_src_format cfg div 32)) OR
     put 8 8 (ucast (cb_zero_point cfg)) OR put 16 3 (of_nat g)"
  unfolding frmc_mode_def low_masks put_def by simp

lemma mode_fields:
  "fld 0 1 (frmc_mode g cfg) = take_bit 1 (of_nat (cb_src_format cfg))"
  "fld 1 1 (frmc_mode g cfg) = of_bool (cb_affine cfg)"
  "fld 2 1 (frmc_mode g cfg) = of_bool (cb_box_mode cfg)"
  "fld 3 1 (frmc_mode g cfg) = take_bit 1 (of_nat (cb_dst_format cfg))"
  "fld 4 2 (frmc_mode g cfg) = take_bit 2 (of_nat (cb_src_format cfg div 32))"
  "fld 8 8 (frmc_mode g cfg) = ucast (cb_zero_point cfg)"
  "fld 16 3 (frmc_mode g cfg) = take_bit 3 (of_nat g)"
  unfolding frmc_mode_put fld_or by (simp_all add: fld_same fld_other take_byte)

lemma param9_fields:
  fixes ord :: u32 and o0 o1 al :: u8
  defines "w \<equiv> (push_bit 16 (ucast o0) OR push_bit 24 (ucast o1) OR push_bit 8 (ucast al)) OR push_bit 4 (ord AND 0xF)"
  shows "fld 4 4 w = take_bit 4 ord" "fld 8 8 w = ucast al" "fld 16 8 w = ucast o0" "fld 24 8 w = ucast o1"
proof -
  have w: "w = put 16 8 (ucast o0) OR put 24 8 (ucast o1) OR put 8 8 (ucast al) OR put 4 4 ord"
    unfolding w_def low_masks put_def take_byte by (simp add: or.assoc)
  show "fld 4 4 w = take_bit 4 ord" "fld 8 8 w = ucast al" "fld 16 8 w = ucast o0" "fld 24 8 w = ucast o1"
    unfolding w fld_or by (simp_all add: fld_same fld_other take_byte)
qed

lemma unat_take_of_nat: "k \<le> 32 \<Longrightarrow> unat (take_bit k (of_nat n :: u32)) = n mod 2 ^ k"
  by (simp add: unsigned_take_bit_eq unsigned_of_nat take_bit_nat_def take_bit_take_bit min_def flip: take_bit_nat_def)

lemma list_of_length:
  "length xs = 2 \<Longrightarrow> [xs ! 0, xs ! Suc 0] = xs"
  "length xs = 9 \<Longrightarrow> [xs ! 0, xs ! Suc 0, xs ! 2, xs ! 3, xs ! 4, xs ! 5, xs ! 6, xs ! 7, xs ! 8] = xs"
  by (auto intro!: nth_equalityI simp: less_Suc_eq numeral_eq_Suc nth_Cons')

text \<open>The turning points.\<close>

lemma byte_of_ucast: "ucast (ucast b :: u32) = (b :: u8)"
  by (rule bit_word_eqI) (auto simp: bit_ucast_iff dest: bit_imp_le_length)

lemma fld_ext:
  "n \<le> 24 \<Longrightarrow> fld n 8 (push_bit n (scast (b :: u8))) = ucast b"
  "n + 8 \<le> m \<Longrightarrow> fld n 8 (push_bit m (scast (b :: u8))) = 0"
  "m + 8 \<le> n \<Longrightarrow> b < 128 \<Longrightarrow> fld n 8 (push_bit m (scast (b :: u8))) = 0"
proof -
  show "fld n 8 (push_bit n (scast b)) = ucast b" if n: "n \<le> 24"
  proof (rule bit_word_eqI)
    fix k assume "k < LENGTH(32)"
    show "bit (fld n 8 (push_bit n (scast b))) k \<longleftrightarrow> bit (ucast b :: u32) k"
    proof (cases "k < 8")
      case True
      then have "k = 7 \<or> k < 7" by linarith
      then show ?thesis using n by (auto simp: fld_def bit_take_bit_iff bit_drop_bit_eq bit_push_bit_iff bit_signed_iff bit_ucast_iff)
    next
      case False
      then have "\<not> bit b k" using bit_imp_le_length [of b k] by auto
      then show ?thesis using False by (simp add: fld_def bit_take_bit_iff bit_ucast_iff)
    qed
  qed
  show "n + 8 \<le> m \<Longrightarrow> fld n 8 (push_bit m (scast b)) = 0"
    by (rule bit_word_eqI) (auto simp: fld_def bit_take_bit_iff bit_drop_bit_eq bit_push_bit_iff)
  assume b: "b < 128" and mn: "m + 8 \<le> n"
  have "take_bit 7 b = b" using b by (simp add: word_unat_eq_iff unsigned_take_bit_eq take_bit_nat_eq_self_iff word_less_nat_alt)
  then have hi: "\<not> bit b k" if "7 \<le> k" for k using that by (metis bit_take_bit_iff not_le)
  show "fld n 8 (push_bit m (scast b)) = 0"
    by (rule bit_word_eqI) (use mn hi in \<open>auto simp: fld_def bit_take_bit_iff bit_drop_bit_eq bit_push_bit_iff bit_signed_iff min_def\<close>)
qed

lemma extreme_bytes:
  assumes "\<And>i. i < n \<Longrightarrow> i mod 4 = 3 \<or> ep ! i < 128" "n \<le> length ep" "i < n"
  shows "byte_of_words (map (\<lambda>k. extreme_word ep (4 * k)) [0 ..< (n + 3) div 4]) i = ep ! i"
proof -
  let ?k = "i div 4"
  have k: "?k < (n + 3) div 4" using assms(3) by linarith
  have i: "i = 4 * ?k + i mod 4" by simp
  have ok: "ep ! (4 * ?k + j) < 128" if "j < i mod 4" for j
  proof -
    have "j < 3" "4 * ?k + j < n" using that i assms(3) by linarith+
    moreover have "(4 * ?k + j) mod 4 = j" using \<open>j < 3\<close> by simp
    ultimately show ?thesis using assms(1) [of "4 * ?k + j"] by simp
  qed
  have "i mod 4 < 4" by simp
  then consider "i mod 4 = 0" | "i mod 4 = 1" | "i mod 4 = 2" | "i mod 4 = 3" by linarith
  then have "fld (8 * (i mod 4)) 8 (extreme_word ep (4 * ?k)) = ucast (ep ! (4 * ?k + i mod 4))"
    unfolding extreme_word_def
    by cases (use ok [of 0] ok [of 1] ok [of 2] fld_ext(1) [of 0] fld_ext(3) [of 0] in \<open>simp_all add: fld_or fld_ext\<close>)
  then show ?thesis using k i by (simp add: byte_of_words_def byte_of_ucast)
qed

lemma ctrl_fields:
  fixes ob ib bb iq :: u8
  assumes "ob \<le> 1" "ib \<le> 1" "bb \<le> 1" "iq \<le> 1"
  defines "w \<equiv> push_bit 12 (ucast ob) OR push_bit 11 (ucast ib AND 1) OR push_bit 10 (ucast bb) OR push_bit 9 (ucast iq) OR 1 :: u32"
  shows "ucast (fld 12 1 w) = ob" "ucast (fld 11 1 w) = ib" "ucast (fld 10 1 w) = bb" "ucast (fld 9 1 w) = iq"
proof -
  have one: "take_bit (Suc 0) (ucast b :: u32) = ucast b" "(ucast b :: u32) mod 2 = ucast b" if "b \<le> (1 :: u8)" for b
  proof -
    have "b = 0 \<or> b = 1" using that by (auto simp: word_le_nat_alt word_unat_eq_iff)
    then show "take_bit (Suc 0) (ucast b :: u32) = ucast b" "(ucast b :: u32) mod 2 = ucast b" by auto
  qed
  have w: "w = put 12 1 (ucast ob) OR put 11 1 (ucast ib) OR put 10 1 (ucast bb) OR put 9 1 (ucast iq) OR put 0 1 1"
    unfolding w_def low_masks put_def by (simp add: one [OF assms(1)] one [OF assms(2)] one [OF assms(3)] one [OF assms(4)])
  show "ucast (fld 12 1 w) = ob" "ucast (fld 11 1 w) = ib" "ucast (fld 10 1 w) = bb" "ucast (fld 9 1 w) = iq"
    unfolding w fld_or by (simp_all add: fld_same fld_other one [OF assms(1)] one [OF assms(2)] one [OF assms(3)] one [OF assms(4)] byte_of_ucast)
qed

lemma mono_fields:
  "ucast (fld 0 8 (ucast x OR push_bit 16 (ucast y))) = (x :: u8)" "ucast (fld 16 8 (ucast x OR push_bit 16 (ucast y))) = (y :: u8)"
proof -
  have w: "(ucast x OR push_bit 16 (ucast y) :: u32) = put 0 8 (ucast x) OR put 16 8 (ucast y)" by (simp add: put_def take_byte)
  show "ucast (fld 0 8 (ucast x OR push_bit 16 (ucast y))) = x" "ucast (fld 16 8 (ucast x OR push_bit 16 (ucast y))) = y"
    unfolding w fld_or by (simp_all add: fld_same fld_other take_byte byte_of_ucast)
qed

definition job_writes :: "sim_env \<Rightarrow> u32 \<Rightarrow> bsc_hw \<Rightarrow> (u32 \<times> u32) list" where
  "job_writes env p9 cfg = common_writes (cb_coef cfg) (cb_offset cfg) (cb_nv2bgr_alpha cfg) @ (BSCALER_PARAM9, p9) # frmc_writes env cfg"

lemma reg_of_job_writes:
  "reg_of BSCALER_FRMC_MODE (job_writes env p9 cfg) = frmc_mode (cb_y_gain_exp cfg) cfg"
  "reg_of BSCALER_PARAM9 (job_writes env p9 cfg) = p9"
  "writes_to BSCALER_FRMC_BASE_DST (job_writes env p9 cfg) =
     map (\<lambda>i. phy_other env (hw_obufc_bus cfg) (cb_dst_base cfg ! i)) [0 ..< frmc_box_num cfg]"
  "writes_to BSCALER_FRMC_EXTREME_Y (job_writes env p9 cfg) = extreme_words cfg"
  "reg_of BSCALER_FRMC_YBASE_SRC (job_writes env p9 cfg) = phy_src env (hw_ibufc_bus cfg) (cb_src_base0 cfg)"
  "reg_of BSCALER_FRMC_CBASE_SRC (job_writes env p9 cfg) = phy_src env (hw_ibufc_bus cfg) (cb_src_base1 cfg)"
  "reg_of BSCALER_FRMC_BOX_BASE (job_writes env p9 cfg) = phy_other env (hw_box_bus cfg) (hw_boxes_info cfg)"
  "reg_of BSCALER_FRMC_PS_SRC (job_writes env p9 cfg) = cb_src_line_stride cfg"
  "reg_of BSCALER_FRMC_PS_DST (job_writes env p9 cfg) = cb_dst_line_stride cfg AND 0xffff"
  "reg_of BSCALER_FRMC_WH_SRC (job_writes env p9 cfg) = push_bit 16 (cb_src_box_h cfg) OR cb_src_box_w cfg"
  "reg_of BSCALER_FRMC_WH_DST (job_writes env p9 cfg) = push_bit 16 (cb_dst_box_h cfg) OR cb_dst_box_w cfg"
  "reg_of BSCALER_FRMC_BOX0 (job_writes env p9 cfg) = push_bit 16 (cb_src_box_y cfg) OR cb_src_box_x cfg"
  "reg_of BSCALER_FRMC_BOX1 (job_writes env p9 cfg) = push_bit 16 (cb_dst_box_y cfg) OR cb_dst_box_x cfg"
  "reg_of BSCALER_FRMC_MONO (job_writes env p9 cfg) = ucast (hw_mono_x cfg) OR push_bit 16 (ucast (hw_mono_y cfg))"
  "reg_of BSCALER_FRMC_CTRL (job_writes env p9 cfg) = push_bit 12 (ucast (hw_obufc_bus cfg)) OR push_bit 11 (ucast (hw_ibufc_bus cfg) AND 1) OR
     push_bit 10 (ucast (hw_box_bus cfg)) OR push_bit 9 (ucast (hw_irq_mask cfg)) OR 1"
  by (simp_all add: job_writes_def reg_of_def frmc_writes_def frmc_bases_def frmc_geometry_def common_writes_def bsc_regs)

lemma params_of_job_writes:
  "map (\<lambda>a. reg_of a (job_writes env p9 cfg)) [BSCALER_PARAM0, BSCALER_PARAM1, BSCALER_PARAM2, BSCALER_PARAM3, BSCALER_PARAM4, BSCALER_PARAM5,
     BSCALER_PARAM6, BSCALER_PARAM7, BSCALER_PARAM8] = map ((!) (cb_coef cfg)) [0, 1, 2, 3, 4, 5, 6, 7, 8]"
  by (simp add: job_writes_def reg_of_def frmc_writes_def frmc_bases_def frmc_geometry_def common_writes_def bsc_regs)

lemma matrix_of_job_writes:
  "map (\<lambda>a. reg_of a (job_writes env p9 cfg)) [BSCALER_FRMC_BOX2, BSCALER_FRMC_BOX3, BSCALER_FRMC_BOX4, BSCALER_FRMC_BOX5, BSCALER_FRMC_BOX6,
     BSCALER_FRMC_BOX7, BSCALER_FRMC_BOX8, BSCALER_FRMC_BOX9, BSCALER_FRMC_BOX10] = map ((!) (cb_matrix cfg)) [0, 1, 2, 3, 4, 5, 6, 7, 8]"
  by (simp add: job_writes_def reg_of_def frmc_writes_def frmc_bases_def frmc_geometry_def common_writes_def bsc_regs)

lemma job_of_job_writes:
  assumes "fits_registers cfg"
  defines "p9 \<equiv> (push_bit 16 (ucast (cb_offset cfg ! 0)) OR push_bit 24 (ucast (cb_offset cfg ! 1)) OR push_bit 8 (ucast (cb_nv2bgr_alpha cfg))) OR
    push_bit 4 (of_nat (cb_dst_format cfg div 2 mod 16) AND 0xF)"
  shows "job_of_writes (job_writes env p9 cfg) = phys_job env cfg"
proof -
  note f = assms(1) [unfolded fits_registers_def]
  have n: "frmc_box_num cfg \<le> 64" and src: "cb_src_format cfg mod 2 + 32 * (cb_src_format cfg div 32 mod 4) = cb_src_format cfg"
    and len: "length (cb_coef cfg) = 9" "length (cb_offset cfg) = 2" "length (cb_matrix cfg) = 9" "length (cb_dst_base cfg) = 64"
    and w: "unat (cb_dst_box_w cfg) \<le> 64"
    using f by (simp_all add: frmc_in_arrays_def word_le_nat_alt)
  have base: "map (\<lambda>i. phy_other env (hw_obufc_bus cfg) (cb_dst_base cfg ! i)) [0 ..< frmc_box_num cfg] =
      map (phy_other env (hw_obufc_bus cfg)) (take (frmc_box_num cfg) (cb_dst_base cfg))"
    using n len(4) by (intro nth_equalityI) simp_all
  have bl: "length (map (phy_other env (hw_obufc_bus cfg)) (take (frmc_box_num cfg) (cb_dst_base cfg))) = frmc_box_num cfg"
    using n len(4) by simp
  have "n mod 2 + 2 * (n div 2 mod 16) = n" if "n < 32" for n :: nat
  proof -
    have "n div 2 mod 16 = n div 2" using that by (simp add: less_mult_imp_div_less)
    then show ?thesis by simp
  qed
  then have dst: "cb_dst_format cfg mod 2 + 2 * (cb_dst_format cfg div 2 mod 16) = cb_dst_format cfg" using f by blast
  have num: "(if take_bit 1 (of_nat (cb_dst_format cfg) :: u32) = 1 then frmc_box_num cfg else 1) = cb_box_num cfg"
    using f unat_take_of_nat [of 1 "cb_dst_format cfg"] by (auto simp: frmc_box_num_def word_unat_eq_iff parity_cases)
  have ps: "cb_dst_line_stride cfg AND 0xffff = cb_dst_line_stride cfg"
    using f by (simp_all add: low_masks take_16)
  have coef: "map ((!) (cb_coef cfg)) [0, 1, 2, 3, 4, 5, 6, 7, 8] = cb_coef cfg" "map ((!) (cb_matrix cfg)) [0, 1, 2, 3, 4, 5, 6, 7, 8] = cb_matrix cfg"
    "[cb_offset cfg ! 0, cb_offset cfg ! 1] = cb_offset cfg"
    using list_of_length len by simp_all
  have unat_fields: "unat (take_bit 1 (of_nat k :: u32)) = k mod 2" "unat (take_bit 2 (of_nat k :: u32)) = k mod 4"
    "unat (take_bit 3 (of_nat k :: u32)) = k mod 8" "unat (take_bit 4 (of_nat k :: u32)) = k mod 16" for k
    using unat_take_of_nat [of 1 k] unat_take_of_nat [of 2 k] unat_take_of_nat [of 3 k] unat_take_of_nat [of 4 k] by simp_all
  have wd: "fld 0 16 (push_bit 16 (cb_dst_box_h cfg) OR cb_dst_box_w cfg) = cb_dst_box_w cfg"
    using f by (simp add: halves)
  have ep: "map (byte_of_words (extreme_words cfg)) [0 ..< unat (cb_dst_box_w cfg)] = take (unat (cb_dst_box_w cfg)) (hw_extreme_point cfg)"
  proof (rule nth_equalityI)
    fix i assume "i < length (map (byte_of_words (extreme_words cfg)) [0 ..< unat (cb_dst_box_w cfg)])"
    then have i: "i < unat (cb_dst_box_w cfg)" by simp
    have "byte_of_words (extreme_words cfg) i = hw_extreme_point cfg ! i"
      unfolding extreme_words_def by (rule extreme_bytes [OF _ _ i]) (use f w in \<open>auto simp: list_all_iff\<close>)
    then show "map (byte_of_words (extreme_words cfg)) [0 ..< unat (cb_dst_box_w cfg)] ! i = take (unat (cb_dst_box_w cfg)) (hw_extreme_point cfg) ! i"
      using i by simp
  qed (use f w in simp)
  have buses: "hw_obufc_bus cfg \<le> 1" "hw_ibufc_bus cfg \<le> 1" "hw_box_bus cfg \<le> 1" "hw_irq_mask cfg \<le> 1" using f by simp_all
  show ?thesis
    unfolding job_of_writes_def Let_def reg_of_job_writes params_of_job_writes matrix_of_job_writes mode_fields coef ps wd ep
      p9_def param9_fields base bl num unat_fields byte_of_ucast mono_fields ctrl_fields [OF buses]
    using f src dst coef(3)
    by (intro bsc_hw.equality) (simp_all add: phys_job_def halves)
qed

text \<open>\<open>PARAM9\<close> keeps what is written to it, and nothing else changes it.\<close>

definition plain_param9 :: "soc \<Rightarrow> bool" where
  "plain_param9 soc \<longleftrightarrow> (\<forall>a v r. on_write soc a v r BSCALER_PARAM9 = (if a = BSCALER_PARAM9 then v else r BSCALER_PARAM9))"

lemma readl_param9:
  assumes "plain_param9 soc"
  shows "readl (writel soc a v s) BSCALER_PARAM9 = (if a = BSCALER_PARAM9 then v else readl s BSCALER_PARAM9)"
  using assms by (simp add: readl_def writel_def plain_param9_def)

lemma readl_param9_all:
  assumes "plain_param9 soc" "\<forall>(a, v) \<in> set ws. a \<noteq> BSCALER_PARAM9"
  shows "readl (writel_all soc ws s) BSCALER_PARAM9 = readl s BSCALER_PARAM9"
  using assms(2) by (induction ws arbitrary: s) (auto simp: writel_all_def readl_param9 [OF assms(1)])

lemma readl_common_param:
  assumes "plain_param9 soc"
  shows "readl (bscaler_common_param_cfg soc coef ofst al s) BSCALER_PARAM9 =
    push_bit 16 (ucast (ofst ! 0)) OR push_bit 24 (ucast (ofst ! 1)) OR push_bit 8 (ucast al)"
  by (simp add: bscaler_common_param_cfg_def common_writes_def writel_all_def readl_param9 [OF assms])

lemma frmt_writes_not_param9: "\<forall>(a, v) \<in> set (frmt_writes env cfg). a \<noteq> BSCALER_PARAM9"
  by (simp add: frmt_writes_def bsc_regs)

definition sample_c :: bsc_hw where
  "sample_c = \<lparr>cb_src_base0 = 0x10000, cb_src_base1 = 0x20000, cb_src_format = 0, cb_src_line_stride = 64,
     cb_src_box_x = 2, cb_src_box_y = 4, cb_src_box_w = 32, cb_src_box_h = 16, cb_dst_format = 11, cb_dst_line_stride = 32,
     cb_dst_box_x = 0, cb_dst_box_y = 0, cb_dst_box_w = 8, cb_dst_box_h = 4, cb_affine = False, cb_box_mode = True,
     cb_y_gain_exp = 3, cb_zero_point = 128, cb_nv2bgr_alpha = 255, cb_coef = [1, 2, 3, 4, 5, 6, 7, 8, 9], cb_offset = [16, 128],
     cb_matrix = [262144, 0, 0, 0, 262144, 0, 0, 0, 0], cb_box_num = 1, cb_dst_base = 0x30000 # replicate 63 0, cb_boxes_info = None,
     hw_boxes_info = 0x40000, hw_mono_x = 3, hw_mono_y = 5, hw_extreme_point = [0, 1, 2, 3] @ replicate 60 4, hw_box_bus = 1, hw_ibufc_bus = 0,
     hw_obufc_bus = 1, hw_irq_mask = 0\<rparr>"

definition plain_soc :: soc where
  "plain_soc = \<lparr>repair_a1 = False, tick = id, on_write = (\<lambda>a v r. r(a := v))\<rparr>"

lemma sample_c_ok: "frmc_in_arrays sample_c" "hw_obufc_bus sample_c \<le> 1" "fits_registers sample_c" "plain_param9 plain_soc"
  by (simp_all add: frmc_in_arrays_def frmc_box_num_def sample_c_def fits_registers_def plain_param9_def plain_soc_def upt_rec)

section \<open>Properties\<close>

text \<open>C17. The chain of a job, as the engine reads it back from memory, holds exactly the registers and values that
  \<open>bscaler_frmc_cfg\<close> would write for it, in the same order, with these exceptions: the clearing of the two check sums is left out, and where
  \<open>skips_gain\<close> holds (a whole picture shrunk at least by half) the register of the mode has no enlargement of rows. The bus of the destination is 0 or 1
  (the chain masks it, the registers do not). The mark is on the last pair and on no other. The length is that of the pairs, and
  at most what the caller allocates for a job.\<close>

theorem chain_programs_registers:
  assumes "frmc_in_arrays cfg" "hw_obufc_bus cfg \<le> 1"
  shows "\<exists>n m'. bscaler_frmc_chain_cfg env cfg addr m = Inr (addr + 8 * of_nat n, 8 * of_nat n, m') \<and> n \<le> 64 + 64 + 22 \<and>
    map (\<lambda>(r, v, last). (r, v)) (chain_read n addr m') =
      filter (\<lambda>(r, v). r \<noteq> BSCALER_FRMC_ISUM \<and> r \<noteq> BSCALER_FRMC_OSUM)
        (frmc_writes env (if skips_gain cfg then cfg\<lparr>cb_y_gain_exp := 0\<rparr> else cfg)) \<and>
    map (\<lambda>(r, v, last). last) (chain_read n addr m') = replicate (n - 1) False @ [True]"
proof -
  let ?es = "job_pairs env cfg"
  let ?m = "store_words addr (hal_chain marked_words 2 ?es) m"
  have read: "chain_read (length ?es) addr ?m = job_words env cfg"
    using chain_of_pairs(1) [where cfgs = "[cfg]" and env = env and base = addr and m = m] assms(1) by simp
  have "map (\<lambda>(r, v, last). (r, v)) (job_words env cfg) = chain_entries env cfg @ [chain_last cfg]"
    by (simp add: job_words_def split_beta comp_def)
  moreover have "map (\<lambda>(r, v, last). last) (job_words env cfg) = replicate (length ?es - 1) False @ [True]"
    by (simp add: job_words_def job_pairs_def split_beta map_replicate_const comp_def)
  ultimately show ?thesis
    using chain_cfg_pairs [OF assms(1), of env addr m] job_pairs_length [OF assms(1), of env] writes_without_sums [OF assms(2), of env]
    by (intro exI [of _ "length ?es"] exI [of _ ?m]) (simp add: read)
qed

theorem chain_programs_registers_witness:
  "\<exists>n m'. bscaler_frmc_chain_cfg Eyer_sim sample_c 0x1000 (\<lambda>_. 0) = Inr (0x1000 + 8 * of_nat n, 8 * of_nat n, m') \<and> n \<le> 64 + 64 + 22 \<and>
    map (\<lambda>(r, v, last). (r, v)) (chain_read n 0x1000 m') =
      filter (\<lambda>(r, v). r \<noteq> BSCALER_FRMC_ISUM \<and> r \<noteq> BSCALER_FRMC_OSUM)
        (frmc_writes Eyer_sim (if skips_gain sample_c then sample_c\<lparr>cb_y_gain_exp := 0\<rparr> else sample_c)) \<and>
    map (\<lambda>(r, v, last). last) (chain_read n 0x1000 m') = replicate (n - 1) False @ [True]"
  by (rule chain_programs_registers [OF sample_c_ok(1,2)])

text \<open>C18. The jobs of a picture are one chain: when the engine is started, it is given the physical address of the buffer and a
  length within the allocation, the buffer holds the pairs of all jobs in order with the last pair of every job marked, and no byte
  outside the buffer has changed.\<close>

theorem picture_is_one_chain:
  assumes "cfgs \<noteq> []" "\<forall>cfg \<in> set cfgs. frmc_in_arrays cfg" "length cfgs \<le> 2 ^ 20"
  shows "\<exists>s' m' n. bs_chain_stuff soc env (Some base) cfgs (s, m) = Inr (s', m') \<and>
    8 * n \<le> unat (bsc_chain_size (length cfgs)) \<and> chain_read n base m' = concat (map (job_words env) cfgs) \<and>
    (\<forall>a. unat (bsc_chain_size (length cfgs)) \<le> unat (a - base) \<longrightarrow> m' a = m a) \<and>
    drop (length (bus s) + 11) (bus s') = [(BSCALER_FRMC_TIMEOUT, 0xFFFFFFFF), (BSCALER_FRMC_CHAIN_BASE, phy_other env 0 base),
      (BSCALER_FRMC_CHAIN_LEN, 8 * of_nat n), (BSCALER_FRMC_CHAIN_CTRL, 0x21)]"
proof -
  obtain cfg rest where cfgs: "cfgs = cfg # rest" using assms(1) by (cases cfgs) auto
  let ?es = "concat (map (job_pairs env) cfgs)"
  have size: "unat (bsc_chain_size (length cfgs)) = 1200 * length cfgs"
  proof -
    have "bsc_chain_size (length cfgs) = of_nat (1200 * length cfgs)" by (simp add: bsc_chain_size_def)
    then show ?thesis using assms(3) by (simp add: unat_of_nat del: of_nat_mult)
  qed
  have "8 * length ?es \<le> 1200 * length cfgs" using concat_job_pairs_length [OF assms(2), of env] by simp
  moreover note chain_of_pairs [OF assms(2,3), where env = env and base = base and m = m] chain_loop_pairs [OF assms(2), of env base m]
  ultimately show ?thesis unfolding size
    by (intro exI [of _ "length ?es"] exI)
      (auto simp: bs_chain_stuff_def cfgs bsc_chain_hw_cfg_def bscaler_common_param_cfg_def bsc_order_cfg_def common_writes_def Let_def)
qed

theorem picture_is_one_chain_witness:
  "\<exists>s' m' n. bs_chain_stuff plain_soc Eyer_sim (Some 0x1000) [sample_c, sample_c] (\<lparr>io_regs = \<lambda>_. 0, bus = []\<rparr>, \<lambda>_. 7) = Inr (s', m') \<and>
    8 * n \<le> unat (bsc_chain_size (length [sample_c, sample_c])) \<and>
    chain_read n 0x1000 m' = concat (map (job_words Eyer_sim) [sample_c, sample_c]) \<and>
    (\<forall>a. unat (bsc_chain_size (length [sample_c, sample_c])) \<le> unat (a - 0x1000) \<longrightarrow> m' a = 7) \<and>
    drop (length (bus \<lparr>io_regs = \<lambda>_. 0, bus = []\<rparr>) + 11) (bus s') =
      [(BSCALER_FRMC_TIMEOUT, 0xFFFFFFFF), (BSCALER_FRMC_CHAIN_BASE, phy_other Eyer_sim 0 0x1000),
       (BSCALER_FRMC_CHAIN_LEN, 8 * of_nat n), (BSCALER_FRMC_CHAIN_CTRL, 0x21)]"
  by (rule picture_is_one_chain) (simp_all add: sample_c_ok)

text \<open>C16. A job whose fields fit the registers can be read back from the writes of \<open>bscaler_common_param_cfg\<close> and
  \<open>bscaler_frmc_cfg\<close>, every member of \<open>bsc_hw_once_cfg_s\<close> of it, the addresses as physical ones: none overlaps another, is
  cut off or goes to the wrong register. Of the boxes it is the address that is read back, not what lies there; of the turning
  points and the destinations those the job uses. To fit, a job has buses 0 or 1 and no negative turning point but in the highest byte of a word.\<close>

theorem registers_hold_job:
  assumes "fits_registers cfg" "plain_param9 soc"
  shows "\<exists>s'. bscaler_frmc_cfg soc env cfg
      (bscaler_common_param_cfg soc (cb_coef cfg) (cb_offset cfg) (cb_nv2bgr_alpha cfg) s) = Inr s' \<and>
    job_of_writes (drop (length (bus s)) (bus s')) = phys_job env cfg"
proof -
  let ?s = "bscaler_common_param_cfg soc (cb_coef cfg) (cb_offset cfg) (cb_nv2bgr_alpha cfg) s"
  let ?s' = "writel_all soc (frmc_writes env cfg) (bsc_order_cfg soc (cb_dst_format cfg div 2 mod 16) ?s)"
  have "bscaler_frmc_cfg soc env cfg ?s = Inr ?s'" using assms(1) by (simp add: bscaler_frmc_cfg_def fits_registers_def)
  moreover have "drop (length (bus s)) (bus ?s') = job_writes env ((push_bit 16 (ucast (cb_offset cfg ! 0)) OR push_bit 24 (ucast (cb_offset cfg ! 1)) OR
      push_bit 8 (ucast (cb_nv2bgr_alpha cfg))) OR push_bit 4 (of_nat (cb_dst_format cfg div 2 mod 16) AND 0xF)) cfg"
    unfolding readl_common_param [OF assms(2), symmetric, where coef = "cb_coef cfg" and s = s]
    by (simp add: job_writes_def bsc_order_cfg_def) (simp add: bscaler_common_param_cfg_def)
  ultimately show ?thesis using job_of_job_writes [OF assms(1)] by metis
qed

theorem registers_hold_job_witness:
  "\<exists>s'. bscaler_frmc_cfg plain_soc Eyer_sim sample_c
      (bscaler_common_param_cfg plain_soc (cb_coef sample_c) (cb_offset sample_c) (cb_nv2bgr_alpha sample_c) \<lparr>io_regs = \<lambda>_. 0, bus = []\<rparr>) = Inr s' \<and>
    job_of_writes (drop (length (bus \<lparr>io_regs = \<lambda>_. 0, bus = []\<rparr>)) (bus s')) = phys_job Eyer_sim sample_c"
  by (rule registers_hold_job [OF sample_c_ok(3,4)])

text \<open>C39. The two parts share the register of the order of the colours, and starting one clears the order of the other: when the
  T part is programmed, the order the C part was given is lost, whatever it was, and the other way round.\<close>

theorem start_clears_other_order:
  assumes "plain_param9 soc"
  shows "fld 4 4 (readl (bscaler_frmt_cfg soc env cfg (bscaler_common_param_cfg soc coef ofst al s)) BSCALER_PARAM9) = 0 \<and>
    fld 0 4 (readl (bsc_order_cfg soc ord (bscaler_common_param_cfg soc coef ofst al s)) BSCALER_PARAM9) = 0"
proof -
  let ?p = "push_bit 16 (ucast (ofst ! 0)) OR push_bit 24 (ucast (ofst ! 1)) OR push_bit 8 (ucast al) :: u32"
  have p: "?p = put 16 8 (ucast (ofst ! 0)) OR put 24 8 (ucast (ofst ! 1)) OR put 8 8 (ucast al)"
    unfolding put_def take_byte by simp
  have "readl (bscaler_frmt_cfg soc env cfg (bscaler_common_param_cfg soc coef ofst al s)) BSCALER_PARAM9 = ?p OR put 0 4 (of_nat (bst_order cfg))"
    unfolding bscaler_frmt_cfg_def readl_param9_all [OF assms frmt_writes_not_param9] bst_order_cfg_def readl_param9 [OF assms]
      readl_common_param [OF assms] low_masks by (simp add: put_def)
  moreover have "readl (bsc_order_cfg soc ord (bscaler_common_param_cfg soc coef ofst al s)) BSCALER_PARAM9 = ?p OR put 4 4 (of_nat ord)"
    unfolding bsc_order_cfg_def readl_param9 [OF assms] readl_common_param [OF assms] low_masks by (simp add: put_def)
  ultimately show ?thesis unfolding p by (simp add: fld_or fld_other)
qed

text \<open>The C part was given order 5.\<close>

definition started_c :: io where
  "started_c = bsc_order_cfg plain_soc 5 (bscaler_common_param_cfg plain_soc [1, 2, 3, 4, 5, 6, 7, 8, 9] [16, 128] 0 \<lparr>io_regs = \<lambda>_. 0, bus = []\<rparr>)"

definition sample_t_cfg :: bst_cfg where
  "sample_t_cfg = \<lparr>bt_src_format = 0, bt_src_w = 16, bt_src_h = 8, bt_src_base0 = 0x10000, bt_src_base1 = 0x20000, bt_src_line_stride = 16,
     bt_dst_format = 0x51, bt_dst_w = 16, bt_dst_h = 8, bt_dst_base0 = 0x30000, bt_dst_base1 = 0, bt_dst_line_stride = 64,
     bt_dst_plane_stride = 0, bt_kernel_size = 1, bt_kernel_xstride = 1, bt_kernel_ystride = 1, bt_zero_point = 0, bt_pad_left = 0,
     bt_pad_right = 0, bt_pad_top = 0, bt_pad_bottom = 0, bt_ibuft_bus = 0, bt_obuft_bus = 0, bt_nv2bgr_alpha = 0,
     bt_nv2bgr_coef = [1, 2, 3, 4, 5, 6, 7, 8, 9], bt_nv2bgr_ofst = [16, 128], bt_irq_mask = 0\<rparr>"

theorem start_clears_other_order_witness:
  "fld 4 4 (readl started_c BSCALER_PARAM9) = 5 \<and>
   fld 4 4 (readl (bscaler_frmt_cfg plain_soc Eyer_sim sample_t_cfg
     (bscaler_common_param_cfg plain_soc (bt_nv2bgr_coef sample_t_cfg) (bt_nv2bgr_ofst sample_t_cfg) 0 started_c)) BSCALER_PARAM9) = 0"
proof -
  have "readl started_c BSCALER_PARAM9 = put 16 8 16 OR put 24 8 128 OR put 8 8 0 OR put 4 4 5"
    unfolding started_c_def bsc_order_cfg_def readl_param9 [OF sample_c_ok(4)] readl_common_param [OF sample_c_ok(4)] put_def by simp
  then have "fld 4 4 (readl started_c BSCALER_PARAM9) = 5" by (simp add: fld_or fld_other fld_same)
  then show ?thesis using start_clears_other_order [OF sample_c_ok(4)] by blast
qed

end
