(* ===== verification/MdlSplit.thy ===== *)
theory MdlSplit
  imports MdlMatrix BscHal
begin

text \<open>
  Affine warps in the API of the T40 (\<open>bs_affine_start\<close> of \<open>bscaler/source/api/bscaler_api.cpp\<close> and
  \<open>bscaler_segmentation.cpp\<close>): the engine has at most 64 columns and rows, so a larger picture is split into sub-boxes of
  the destination, each with the part of the source it needs. The jobs are those of \<open>BscHal\<close>; what is shown is that the
  software model, given them one after the other, draws the picture of the whole warp.
\<close>

section \<open>Data\<close>

record t40_box =
  tb_x :: int
  tb_y :: int
  tb_w :: int
  tb_h :: int

record t40_data =
  td_base :: u32
  td_base1 :: u32
  td_format :: nat
  td_width :: int
  td_height :: int
  td_line_stride :: int
  td_locate :: u8

record t40_affine =
  ta_box :: t40_box
  ta_matrix :: "nat \<Rightarrow> rat"
  ta_zero_point :: u32

definition BS_AFFINE_SIZE :: int where "BS_AFFINE_SIZE = 64"
definition T40_DATA_FMU2 :: nat where "T40_DATA_FMU2 = 33"
definition T40_DATA_FMU4 :: nat where "T40_DATA_FMU4 = 65"
definition T40_DATA_FMU8 :: nat where "T40_DATA_FMU8 = 97"
definition T40_DATA_VBGR :: nat where "T40_DATA_VBGR = 101"
definition T40_DATA_VRGB :: nat where "T40_DATA_VRGB = 102"

section \<open>Sub-boxes\<close>

text \<open>\<open>affine_cac_sub_box\<close>: the corners of the destination box in the source, cut off at 0; per axis the range they span
  with one more neighbour, within the whole box, from an even start and of even length.\<close>

definition sub_corner :: "int list \<Rightarrow> nat \<Rightarrow> int \<Rightarrow> int \<Rightarrow> int" where
  "sub_corner M r x y = clip ((M ! (3 * r) * x + M ! (3 * r + 1) * y + M ! (3 * r + 2)) div 2 ^ MAT_ACC) 0 (2 ^ 31 - 1)"

definition sub_axis :: "int \<Rightarrow> int \<Rightarrow> int \<Rightarrow> int \<times> int" where
  "sub_axis mn mx wbox =
     (let mn = clip mn 0 (wbox - 1); mx = clip (s32 (mx + 1)) 0 (wbox - 1);
          x = (if mn smod 2 \<noteq> 0 then mn - 1 else mn); w = mx + 1 - x
      in (x, if w smod 2 \<noteq> 0 then w + 1 else w))"

definition affine_cac_sub_box :: "t40_box \<Rightarrow> int list \<Rightarrow> t40_box \<Rightarrow> t40_box" where
  "affine_cac_sub_box dst M wbox =
     (let xl = tb_x dst; xr = tb_x dst + tb_w dst - 1; yt = tb_y dst; yb = tb_y dst + tb_h dst - 1;
          axis = (\<lambda>r. let c0 = sub_corner M r xl yt; c1 = sub_corner M r xr yt; c2 = sub_corner M r xl yb; c3 = sub_corner M r xr yb
            in sub_axis (min (min c0 c1) (min c2 c3)) (max (max c0 c1) (max c2 c3)));
          (x, w) = axis 0 (tb_w wbox); (y, h) = axis 1 (tb_h wbox)
      in \<lparr>tb_x = x, tb_y = y, tb_w = w, tb_h = h\<rparr>)"

text \<open>The sub-boxes of the destination, row by row.\<close>

definition sbox_num :: "int \<Rightarrow> int" where
  "sbox_num n = (n + BS_AFFINE_SIZE - 1) sdiv BS_AFFINE_SIZE"

definition sbox_len :: "int \<Rightarrow> int \<Rightarrow> int" where
  "sbox_len n i = (if i = sbox_num n - 1 then (n - 1) smod BS_AFFINE_SIZE + 1 else BS_AFFINE_SIZE)"

definition dst_sboxes :: "int \<Rightarrow> int \<Rightarrow> t40_box list" where
  "dst_sboxes w h = map (\<lambda>(j, i). \<lparr>tb_x = i * BS_AFFINE_SIZE, tb_y = j * BS_AFFINE_SIZE, tb_w = sbox_len w i, tb_h = sbox_len h j\<rparr>)
     (List.product [0 .. sbox_num h - 1] [0 .. sbox_num w - 1])"

section \<open>Jobs\<close>

text \<open>What all affine jobs have in common. \<open>cfg\<close> is a variable on the stack that is not initialised: \<open>junk\<close>; alpha keeps what
  is in it.\<close>

definition affine_common :: "bsc_hw \<Rightarrow> t40_affine \<Rightarrow> int list \<Rightarrow> t40_data \<Rightarrow> t40_data \<Rightarrow> u32 list \<Rightarrow> u32 list \<Rightarrow> bsc_hw" where
  "affine_common junk info M src dst coef ofst = junk
     \<lparr>cb_src_format := td_format src, cb_src_line_stride := of_int (td_line_stride src),
      cb_dst_format := td_format dst, cb_dst_line_stride := of_int (td_line_stride dst),
      cb_affine := True, cb_box_mode := True, cb_y_gain_exp := 0, cb_zero_point := ucast (ta_zero_point info),
      cb_coef := take 9 coef, cb_offset := map ucast (take 2 ofst), cb_matrix := map of_int M,
      cb_box_num := 1, cb_boxes_info := None, hw_boxes_info := 0, hw_box_bus := 0,
      hw_ibufc_bus := td_locate src, hw_obufc_bus := td_locate dst, hw_irq_mask := 1\<rparr>"

definition affine_format_refused :: "nat \<Rightarrow> bool" where
  "affine_format_refused f \<longleftrightarrow> f \<in> {T40_DATA_VBGR, T40_DATA_VRGB, T40_DATA_FMU2, T40_DATA_FMU4, T40_DATA_FMU8}"

text \<open>The address of the source box. The planes of NV12 are at even places.\<close>

definition src_wbox_base0 :: "t40_data \<Rightarrow> t40_box \<Rightarrow> mdl_stop + u32" where
  "src_wbox_base0 src box =
     (if affine_format_refused (td_format src) then Inl Assertion_fails
      else if td_format src = 0 then
        if odd (tb_x box) \<or> odd (tb_y box) \<or> odd (tb_w box) \<or> odd (tb_h box) then Inl Assertion_fails
        else Inr (Paint.at (td_base src) (tb_y box * td_line_stride src + tb_x box))
      else if odd (td_format src) then Inr (Paint.at (td_base src) (tb_y box * td_line_stride src + tb_x box * 4))
      else Inl Assertion_fails)"

definition src_plane1 :: "t40_data \<Rightarrow> t40_box \<Rightarrow> u32" where
  "src_plane1 src box = Paint.at (td_base src) (td_height src * td_line_stride src + tb_y box sdiv 2 * td_line_stride src + tb_x box)"

definition src_wbox_base1 :: "t40_data \<Rightarrow> t40_box \<Rightarrow> u32" where
  "src_wbox_base1 src box = (if td_format src \<noteq> 0 then 0 else if td_base1 src = 0 then src_plane1 src box else td_base1 src)"

text \<open>The matrix of the engine; where the code divides a \<open>float\<close> by 0 the model stops.\<close>

definition engine_matrix :: "fpu \<Rightarrow> (nat \<Rightarrow> rat) \<Rightarrow> mdl_stop + int list" where
  "engine_matrix fp m = (case get_inverse_matrix fp m of None \<Rightarrow> Inl Div_by_zero | Some x \<Rightarrow> Inr (matrix_float_to_s32 fp x))"

text \<open>\<open>bs_affine_cfg_stuff\<close>: one job for a destination of at most 64 columns and rows. The second plane of the source is behind
  the first even if \<open>base1\<close> names another.\<close>

definition bs_affine_cfg_stuff :: "bsc_hw \<Rightarrow> fpu \<Rightarrow> t40_affine \<Rightarrow> t40_data \<Rightarrow> t40_data \<Rightarrow> u32 list \<Rightarrow> u32 list \<Rightarrow> mdl_stop + bsc_hw list" where
  "bs_affine_cfg_stuff junk fp info src dst coef ofst =
     (let box = ta_box info in
      res_bind (src_wbox_base0 src box) (\<lambda>base0.
      res_bind (engine_matrix fp (ta_matrix info)) (\<lambda>M.
      Inr [(affine_common junk info M src dst coef ofst)
        \<lparr>cb_src_base0 := base0, cb_src_base1 := (if td_format src = 0 then src_plane1 src box else 0),
         cb_src_box_x := 0, cb_src_box_y := 0, cb_src_box_w := of_int (tb_w box), cb_src_box_h := of_int (tb_h box),
         cb_dst_base := (let b = (cb_dst_base junk)[0 := td_base dst] in
           if td_format dst = 0 then b[1 := Paint.at (td_base dst) (td_height dst * td_line_stride dst)] else b),
         cb_dst_box_x := 0, cb_dst_box_y := 0, cb_dst_box_w := of_int (td_width dst), cb_dst_box_h := of_int (td_height dst)\<rparr>])))"

text \<open>One sub-box of \<open>affine_box_split\<close>. The second plane of the destination is behind the first even if \<open>base1\<close> names another.\<close>

definition src_pixel :: "nat \<Rightarrow> int" where
  "src_pixel f = (if f = T40_DATA_FMU2 then 8 else if f = T40_DATA_FMU4 then 16 else if f = T40_DATA_FMU8 then 32 else 4)"

definition sub_job :: "bsc_hw \<Rightarrow> u32 \<Rightarrow> u32 \<Rightarrow> t40_data \<Rightarrow> t40_data \<Rightarrow> t40_box \<Rightarrow> t40_box \<Rightarrow> bsc_hw" where
  "sub_job common w0 w1 src dst sb db = common
     \<lparr>cb_src_base0 := (if td_format src = 0 then Paint.at w0 (tb_y sb * td_line_stride src + tb_x sb)
        else Paint.at w0 (tb_y sb * td_line_stride src + tb_x sb * src_pixel (td_format src))),
      cb_src_base1 := (if td_format src = 0 then Paint.at w1 (tb_y sb sdiv 2 * td_line_stride src + tb_x sb) else 0),
      cb_src_box_x := of_int (tb_x sb), cb_src_box_y := of_int (tb_y sb), cb_src_box_w := of_int (tb_w sb), cb_src_box_h := of_int (tb_h sb),
      cb_dst_base := (if td_format dst = 0
        then (cb_dst_base common)[0 := Paint.at (td_base dst) (tb_y db * td_line_stride dst + tb_x db),
          1 := Paint.at (td_base dst) (td_height dst * td_line_stride dst + tb_y db sdiv 2 * td_line_stride dst + tb_x db)]
        else (cb_dst_base common)[0 := (if odd (td_format dst) then Paint.at (td_base dst) (tb_y db * td_line_stride dst + tb_x db * 4) else 0), 1 := 0]),
      cb_dst_box_x := of_int (tb_x db), cb_dst_box_y := of_int (tb_y db), cb_dst_box_w := of_int (tb_w db), cb_dst_box_h := of_int (tb_h db)\<rparr>"

text \<open>\<open>affine_box_split\<close>; \<open>space\<close> says whether the two arrays of boxes could be allocated, which is printed and not acted on.\<close>

definition affine_box_split :: "bool \<Rightarrow> bsc_hw \<Rightarrow> fpu \<Rightarrow> t40_affine \<Rightarrow> t40_data \<Rightarrow> t40_data \<Rightarrow> u32 list \<Rightarrow> u32 list \<Rightarrow> mdl_stop + bsc_hw list" where
  "affine_box_split space junk fp info src dst coef ofst =
     (let box = ta_box info in
      res_bind (src_wbox_base0 src box) (\<lambda>w0.
      res_bind (engine_matrix fp (ta_matrix info)) (\<lambda>M.
      let dbs = dst_sboxes (td_width dst) (td_height dst); wbox = \<lparr>tb_x = 0, tb_y = 0, tb_w = tb_w box, tb_h = tb_h box\<rparr>
      in if dbs \<noteq> [] \<and> \<not> space then Inl Null_pointer
         else if dbs \<noteq> [] \<and> td_format dst = 0 \<and> (odd (tb_x box) \<or> odd (tb_y box) \<or> odd (tb_w box) \<or> odd (tb_h box)) then Inl Assertion_fails
         else Inr (map (\<lambda>db. sub_job (affine_common junk info M src dst coef ofst) w0 (src_wbox_base1 src box) src dst
                (affine_cac_sub_box db M wbox) db) dbs))))"

text \<open>\<open>bs_affine_start\<close> up to the chain: every box is an affine one.\<close>

definition affine_cfgs :: "bool \<Rightarrow> bsc_hw \<Rightarrow> fpu \<Rightarrow> t40_data \<Rightarrow> (t40_affine \<times> t40_data) list \<Rightarrow> u32 list \<Rightarrow> u32 list \<Rightarrow> mdl_stop + bsc_hw list" where
  "affine_cfgs space junk fp src boxes coef ofst = fold (\<lambda>(info, dst) r. res_bind r (\<lambda>cfgs.
     res_bind (if td_width dst > 64 \<or> td_height dst > 64 then affine_box_split space junk fp info src dst coef ofst
               else bs_affine_cfg_stuff junk fp info src dst coef ofst) (\<lambda>new. Inr (cfgs @ new)))) boxes (Inr [])"

text \<open>The software model, job by job.\<close>

definition run_jobs :: "bsc_hw list \<Rightarrow> mem \<Rightarrow> mdl_stop + mem" where
  "run_jobs cfgs m = fold (\<lambda>cfg r. res_bind r (bsc_job None None (bsc_cfg.truncate cfg))) cfgs (Inr m)"

section \<open>A sub-box holds what its pixels read\<close>

lemma smod_pos: "0 \<le> a \<Longrightarrow> 0 < b \<Longrightarrow> a smod b = a mod (b :: int)"
  unfolding signed_modulo_int_def signed_divide_int_def by (cases "a = 0") (simp_all add: minus_div_mult_eq_mod mult.commute)

lemma smod_odd: "0 \<le> a \<Longrightarrow> (a :: int) smod 2 \<noteq> 0 \<longleftrightarrow> odd a"
  by (simp add: smod_pos odd_iff_mod_2_eq_one)

lemma sdiv_pos: "0 \<le> a \<Longrightarrow> 0 < b \<Longrightarrow> a sdiv b = a div (b :: int)"
  by (cases "a = 0") (simp_all add: signed_divide_int_def)

text \<open>The place of a pixel is cut off at 16 bits.\<close>

lemma place_clip: "s16 (clip_s32 v div 2 ^ MAT_ACC) = clip (v div 2 ^ MAT_ACC) (- (2 ^ 15)) (2 ^ 15 - 1)"
proof -
  have "clip_s32 v div 2 ^ 16 = clip (v div 2 ^ 16) (- (2 ^ 15)) (2 ^ 15 - 1)"
    by (auto simp: clip_s32_def clip_def)
  then show ?thesis unfolding MAT_ACC_def div_2_16_range(3) [OF clip_s32_range] .
qed

lemma sub_axis_facts:
  assumes "0 < W" "W \<le> 2 ^ 15" "even W" "0 \<le> mn" "mn \<le> mx" "mx < 2 ^ 31 - 1" "sub_axis mn mx W = (x, w)"
  shows "0 \<le> x" "0 < w" "x + w \<le> W" "x \<le> min mn (W - 1)" "min (mx + 1) (W - 1) \<le> x + w - 1"
proof -
  define mn' mx' where "mn' = min mn (W - 1)" and "mx' = min (mx + 1) (W - 1)"
  have c: "clip mn 0 (W - 1) = mn'" "clip (s32 (mx + 1)) 0 (W - 1) = mx'" "0 \<le> mn'" "mn' \<le> mx'" "mx' \<le> W - 1"
    using assms(1,4,5,6) narrow_id(2) [of "mx + 1"] by (auto simp: clip_def mn'_def mx'_def)
  have "x = (if mn' smod 2 \<noteq> 0 then mn' - 1 else mn')"
    using assms(7) by (simp add: sub_axis_def c(1,2) Let_def)
  then have x: "x = (if odd mn' then mn' - 1 else mn')" unfolding smod_odd [OF c(3)] .
  then have d: "0 \<le> mx' + 1 - x" using c(4) by (simp split: if_splits)
  have "w = (if (mx' + 1 - x) smod 2 \<noteq> 0 then mx' + 1 - x + 1 else mx' + 1 - x)"
    using assms(7) by (auto simp: sub_axis_def c(1,2) Let_def)
  then have w: "w = (if odd (mx' + 1 - x) then mx' + 1 - x + 1 else mx' + 1 - x)" unfolding smod_odd [OF d] .
  have ev: "even x" using x by (simp split: if_splits)
  have "0 < mn'" if "odd mn'" using that c(3) by (cases "mn' = 0") auto
  then show "0 \<le> x" using x c(3) by (simp split: if_splits)
  have xm: "x \<le> mn'" using x by (simp split: if_splits)
  then show "x \<le> min mn (W - 1)" by (simp add: mn'_def)
  have "0 < w \<and> mx' \<le> x + w - 1" using w xm c(4) by (simp split: if_splits)
  then show "0 < w" "min (mx + 1) (W - 1) \<le> x + w - 1" by (simp_all add: mx'_def)
  show "x + w \<le> W"
  proof (cases "odd (mx' + 1 - x)")
    case True
    then have "odd (mx' + 1)" using ev by simp
    then have "mx' + 1 \<noteq> W" using assms(3) by blast
    then show ?thesis using w True c(5) by simp
  qed (use w c(5) in simp)
qed

text \<open>Of the two neighbours of a place on an axis, the sub-box has those the whole box has.\<close>

lemma sub_axis_inside:
  assumes "0 < W" "W \<le> 2 ^ 15" "even W" "0 \<le> mn" "mx < 2 ^ 31 - 1" "sub_axis mn mx W = (x, w)"
    "mn \<le> max 0 p" "max 0 p \<le> mx" "pp = clip p (- (2 ^ 15)) (2 ^ 15 - 1)" "q = pp \<or> q = s16 (pp + 1)"
  shows "x \<le> q \<and> q \<le> x + w - 1 \<longleftrightarrow> 0 \<le> q \<and> q \<le> W - 1"
proof
  have m: "mn \<le> mx" by (rule order_trans [OF assms(7,8)])
  note f = sub_axis_facts [OF assms(1-4) m assms(5,6)]
  show "x \<le> q \<and> q \<le> x + w - 1 \<Longrightarrow> 0 \<le> q \<and> q \<le> W - 1" using f(1,3) by simp
  assume q: "0 \<le> q \<and> q \<le> W - 1"
  have "min mn (W - 1) \<le> q \<and> q \<le> min (mx + 1) (W - 1)"
  proof (cases "q = pp")
    case True
    then show ?thesis using q assms(2,7-9) by (auto simp: clip_def split: if_splits)
  next
    case False
    then have s: "q = s16 (pp + 1)" using assms(10) by simp
    have "pp \<noteq> 2 ^ 15 - 1"
    proof
      assume "pp = 2 ^ 15 - 1"
      then have "q = - (2 ^ 15)" using s by (simp add: s16_def signed_take_bit_eq_take_bit_minus)
      then show False using q by simp
    qed
    moreover have "- (2 ^ 15) \<le> pp" "pp \<le> 2 ^ 15 - 1" using assms(9) by (auto simp: clip_def)
    ultimately have pp: "s16 (pp + 1) = pp + 1" "pp < 2 ^ 15 - 1" by (auto intro!: narrow_id)
    then have "- 1 \<le> pp" using q s by simp
    then have "pp = p" using assms(9) pp(2) by (auto simp: clip_def split: if_splits)
    then show ?thesis using q s pp(1) assms(7,8) by auto
  qed
  then show "x \<le> q \<and> q \<le> x + w - 1" using f(4,5) by linarith
qed

text \<open>Between the corners a linear function takes no other values.\<close>

lemma linear_between:
  fixes a :: int
  assumes "l \<le> x" "x \<le> r"
  shows "min (a * l) (a * r) \<le> a * x" "a * x \<le> max (a * l) (a * r)"
proof -
  have "0 \<le> a \<Longrightarrow> a * l \<le> a * x \<and> a * x \<le> a * r" "a \<le> 0 \<Longrightarrow> a * r \<le> a * x \<and> a * x \<le> a * l"
    using assms by (simp_all add: mult_left_mono mult_left_mono_neg)
  then show "min (a * l) (a * r) \<le> a * x" "a * x \<le> max (a * l) (a * r)" by linarith+
qed

lemma corners_span:
  fixes a b c :: int
  assumes "l \<le> x" "x \<le> r" "t \<le> y" "y \<le> u" "0 < d"
  defines "g \<equiv> \<lambda>x y. (a * x + b * y + c) div d"
  shows "g l t \<le> g x y \<or> g r t \<le> g x y \<or> g l u \<le> g x y \<or> g r u \<le> g x y"
    "g x y \<le> g l t \<or> g x y \<le> g r t \<or> g x y \<le> g l u \<or> g x y \<le> g r u"
proof -
  have ab: "a * l \<le> a * x \<or> a * r \<le> a * x" "a * x \<le> a * l \<or> a * x \<le> a * r" "b * t \<le> b * y \<or> b * u \<le> b * y" "b * y \<le> b * t \<or> b * y \<le> b * u"
    using linear_between [OF assms(1,2), of a] linear_between [OF assms(3,4), of b] by linarith+
  have "g x' y' \<le> g x y" if "a * x' \<le> a * x" "b * y' \<le> b * y" for x' y' unfolding g_def by (rule zdiv_mono1) (use that assms(5) in simp_all)
  then show "g l t \<le> g x y \<or> g r t \<le> g x y \<or> g l u \<le> g x y \<or> g r u \<le> g x y" using ab(1,3) by blast
  have "g x y \<le> g x' y'" if "a * x \<le> a * x'" "b * y \<le> b * y'" for x' y' unfolding g_def by (rule zdiv_mono1) (use that assms(5) in simp_all)
  then show "g x y \<le> g l t \<or> g x y \<le> g r t \<or> g x y \<le> g l u \<or> g x y \<le> g r u" using ab(2,4) by blast
qed

lemma clip_range: "lo \<le> hi \<Longrightarrow> lo \<le> clip v lo hi \<and> clip v lo hi \<le> hi"
  by (auto simp: clip_def)

lemma clip_mono: "v \<le> v' \<Longrightarrow> lo \<le> hi \<Longrightarrow> clip v lo hi \<le> clip v' lo hi"
  by (auto simp: clip_def)

text \<open>A destination below 2^15 has its corners below the limit of the coordinates.\<close>

definition matrix_ok :: "int list \<Rightarrow> bool" where
  "matrix_ok M \<longleftrightarrow> length M = 9 \<and> (\<forall>a \<in> set M. - (2 ^ 31) \<le> a \<and> a < 2 ^ 31) \<and> \<not> is_perspective M"

lemma matrix_coef: "matrix_ok M \<Longrightarrow> i < 9 \<Longrightarrow> - (2 ^ 31) \<le> M ! i \<and> M ! i < 2 ^ 31"
  by (auto simp: matrix_ok_def)

definition src_coord :: "int list \<Rightarrow> nat \<Rightarrow> int \<Rightarrow> int \<Rightarrow> int" where
  "src_coord M r x y = (M ! (3 * r) * x + M ! (3 * r + 1) * y + M ! (3 * r + 2)) div 2 ^ MAT_ACC"

lemma src_coord_below:
  assumes "matrix_ok M" "r < 3" "0 \<le> x" "x < 2 ^ 15" "0 \<le> y" "y < 2 ^ 15"
  shows "src_coord M r x y < 2 ^ 31 - 2 ^ 14"
proof -
  have b: "M ! (3 * r) \<le> 2 ^ 31" "M ! (3 * r + 1) \<le> 2 ^ 31" "M ! (3 * r + 2) \<le> 2 ^ 31"
    using matrix_coef [OF assms(1), of "3 * r"] matrix_coef [OF assms(1), of "3 * r + 1"] matrix_coef [OF assms(1), of "3 * r + 2"] assms(2)
    by linarith+
  have "a * n \<le> 2 ^ 31 * (2 ^ 15 - 1)" if "a \<le> 2 ^ 31" "0 \<le> n" "n < 2 ^ 15" for a n :: int
    using mult_mono [of a "2 ^ 31" n "2 ^ 15 - 1"] that by simp
  from this [OF b(1) assms(3,4)] this [OF b(2) assms(5,6)] b(3)
  have "M ! (3 * r) * x + M ! (3 * r + 1) * y + M ! (3 * r + 2) < (2 ^ 31 - 2 ^ 14) * 2 ^ 16" by simp
  then show ?thesis by (simp add: src_coord_def MAT_ACC_def)
qed

lemma corners_hold_pixel:
  assumes "matrix_ok M" "r < 3" "0 \<le> l" "l \<le> x" "x \<le> rt" "rt < 2 ^ 15" "0 \<le> t" "t \<le> y" "y \<le> u" "u < 2 ^ 15"
  defines "c0 \<equiv> sub_corner M r l t" and "c1 \<equiv> sub_corner M r rt t" and "c2 \<equiv> sub_corner M r l u" and "c3 \<equiv> sub_corner M r rt u"
  shows "0 \<le> min (min c0 c1) (min c2 c3)" "max (max c0 c1) (max c2 c3) < 2 ^ 31 - 1"
    "min (min c0 c1) (min c2 c3) \<le> max 0 (src_coord M r x y)" "max 0 (src_coord M r x y) \<le> max (max c0 c1) (max c2 c3)"
proof -
  have c: "sub_corner M r x' y' = max 0 (src_coord M r x' y')" "sub_corner M r x' y' < 2 ^ 31 - 1"
    if "0 \<le> x'" "x' < 2 ^ 15" "0 \<le> y'" "y' < 2 ^ 15" for x' y'
    unfolding sub_corner_def src_coord_def [symmetric] using src_coord_below [OF assms(1,2) that] by (auto simp: clip_def)
  have d: "0 \<le> rt" "l < 2 ^ 15" "0 \<le> u" "t < 2 ^ 15" using assms(3-10) by linarith+
  have e: "c0 = max 0 (src_coord M r l t)" "c1 = max 0 (src_coord M r rt t)" "c2 = max 0 (src_coord M r l u)" "c3 = max 0 (src_coord M r rt u)"
    unfolding c0_def c1_def c2_def c3_def by (rule c(1); use assms d in simp)+
  have "c0 < 2 ^ 31 - 1" "c1 < 2 ^ 31 - 1" "c2 < 2 ^ 31 - 1" "c3 < 2 ^ 31 - 1"
    unfolding c0_def c1_def c2_def c3_def by (rule c(2); use assms d in simp)+
  then show "max (max c0 c1) (max c2 c3) < 2 ^ 31 - 1" by simp
  show "0 \<le> min (min c0 c1) (min c2 c3)" unfolding e by simp
  have "(0::int) < 2 ^ MAT_ACC" by simp
  note span = corners_span [OF assms(4,5,8,9) this, of "M ! (3 * r)" "M ! (3 * r + 1)" "M ! (3 * r + 2)", unfolded src_coord_def [symmetric]]
  have mono: "a \<le> b \<Longrightarrow> max 0 a \<le> max 0 b" for a b :: int by simp
  have "c0 \<le> max 0 (src_coord M r x y) \<or> c1 \<le> max 0 (src_coord M r x y) \<or> c2 \<le> max 0 (src_coord M r x y) \<or> c3 \<le> max 0 (src_coord M r x y)"
    unfolding e using span(1) mono by blast
  then show "min (min c0 c1) (min c2 c3) \<le> max 0 (src_coord M r x y)" by (simp only: min_le_iff_disj disj_assoc)
  have "max 0 (src_coord M r x y) \<le> c0 \<or> max 0 (src_coord M r x y) \<le> c1 \<or> max 0 (src_coord M r x y) \<le> c2 \<or> max 0 (src_coord M r x y) \<le> c3"
    unfolding e using span(2) mono by blast
  then show "max 0 (src_coord M r x y) \<le> max (max c0 c1) (max c2 c3)" by (simp only: le_max_iff_disj disj_assoc)
qed

text \<open>The source box of a sub-box, inside the whole box at \<open>w0\<close>.\<close>

definition sub_src :: "bs_box \<Rightarrow> t40_box \<Rightarrow> bs_box" where
  "sub_src S sb = S\<lparr>base0 := Paint.at (base0 S) (tb_y sb * stride0 S + tb_x sb * 4), sbox_x := tb_x sb, sbox_y := tb_y sb, sbox_w := tb_w sb, sbox_h := tb_h sb\<rparr>"

lemma sample_sub:
  assumes "sbox_x S = 0" "sbox_y S = 0" "0 < sbox_w S" "sbox_w S \<le> 2 ^ 15" "0 < sbox_h S" "sbox_h S \<le> 2 ^ 15"
    "0 \<le> tb_x sb" "0 < tb_w sb" "tb_x sb + tb_w sb \<le> sbox_w S" "0 \<le> tb_y sb" "0 < tb_h sb" "tb_y sb + tb_h sb \<le> sbox_h S"
    "\<And>q. q = px \<or> q = s16 (px + 1) \<Longrightarrow> tb_x sb \<le> q \<and> q \<le> tb_x sb + tb_w sb - 1 \<longleftrightarrow> 0 \<le> q \<and> q \<le> sbox_w S - 1"
    "\<And>q. q = py \<or> q = s16 (py + 1) \<Longrightarrow> tb_y sb \<le> q \<and> q \<le> tb_y sb + tb_h sb - 1 \<longleftrightarrow> 0 \<le> q \<and> q \<le> sbox_h S - 1"
  shows "sample (sub_src S sb) z bil 4 (px, py, xw, yw) k m = sample S z bil 4 (px, py, xw, yw) k m"
proof -
  have u: "u16 (sbox_x S) = 0" "u16 (sbox_y S) = 0" "u16 (sbox_w S) = sbox_w S" "u16 (sbox_h S) = sbox_h S"
    "u16 (sbox_w S + sbox_x S - 1) = sbox_w S - 1" "u16 (sbox_h S + sbox_y S - 1) = sbox_h S - 1"
    "u16 (tb_x sb) = tb_x sb" "u16 (tb_y sb) = tb_y sb" "u16 (tb_w sb) = tb_w sb" "u16 (tb_h sb) = tb_h sb"
    "u16 (tb_w sb + tb_x sb - 1) = tb_w sb + tb_x sb - 1" "u16 (tb_h sb + tb_y sb - 1) = tb_h sb + tb_y sb - 1"
    using assms(1-12) by (auto intro!: u16_id)
  have fx: "q < tb_x sb \<or> q > tb_w sb + tb_x sb - 1 \<longleftrightarrow> q < 0 \<or> q > sbox_w S - 1" if "q = px \<or> q = s16 (px + 1)" for q
    using assms(13) [OF that] by linarith
  have fy: "q < tb_y sb \<or> q > tb_h sb + tb_y sb - 1 \<longleftrightarrow> q < 0 \<or> q > sbox_h S - 1" if "q = py \<or> q = s16 (py + 1)" for q
    using assms(14) [OF that] by linarith
  have fields: "sbox_x (sub_src S sb) = tb_x sb" "sbox_y (sub_src S sb) = tb_y sb" "sbox_w (sub_src S sb) = tb_w sb" "sbox_h (sub_src S sb) = tb_h sb"
    by (simp_all add: sub_src_def)
  have check: "box_bound_check (sub_src S sb) px py = box_bound_check S px py"
    unfolding box_bound_check_def bilinear_bound_check_def Let_def fields u u(5,6) [unfolded assms(1,2)] prod.inject
    using fx [of px] fx [of "s16 (px + 1)"] fy [of py] fy [of "s16 (py + 1)"] by blast
  have idx: "Paint.at (base0 (sub_src S sb)) (p00_idx (sub_src S sb) 4 px py + i) = Paint.at (base0 S) (p00_idx S 4 px py + i)" for i
    using assms(1,2) by (simp add: sub_src_def p00_idx_def at_at algebra_simps)
  have st: "stride0 (sub_src S sb) = stride0 S" by (simp add: sub_src_def)
  show ?thesis unfolding sample_def prod.case check Let_def neighbour_def st add.assoc idx ..
qed

text \<open>The destination box of a sub-box.\<close>

definition sub_dst :: "bs_box \<Rightarrow> t40_box \<Rightarrow> bs_box" where
  "sub_dst D db = D\<lparr>base0 := Paint.at (base0 D) (tb_y db * stride0 D + tb_x db * 4), sbox_x := tb_x db, sbox_y := tb_y db, sbox_w := tb_w db, sbox_h := tb_h db\<rparr>"

definition whole_box :: "bs_box \<Rightarrow> t40_box" where
  "whole_box S = \<lparr>tb_x = 0, tb_y = 0, tb_w = sbox_w S, tb_h = sbox_h S\<rparr>"

lemma rgb_byte_sub:
  assumes "matrix_ok M" "sbox_x S = 0" "sbox_y S = 0" "0 < sbox_w S" "sbox_w S \<le> 2 ^ 15" "even (sbox_w S)" "0 < sbox_h S" "sbox_h S \<le> 2 ^ 15" "even (sbox_h S)"
    "sbox_x D = 0" "sbox_y D = 0" "0 \<le> tb_x db" "tb_x db + tb_w db \<le> 2 ^ 15" "0 \<le> tb_y db" "tb_y db + tb_h db \<le> 2 ^ 15"
    "((dy, dx), k) \<in> box_rounds (sub_dst D db) 4"
  shows "rgb_byte (sub_src S (affine_cac_sub_box db M (whole_box S))) (sub_dst D db) z abgr al (affine_dst2src M) ((dy, dx), k) m =
    rgb_byte S D z abgr al (affine_dst2src M) ((dy, dx), k) m"
proof -
  have d: "tb_x db \<le> dx" "dx \<le> tb_x db + tb_w db - 1" "tb_y db \<le> dy" "dy \<le> tb_y db + tb_h db - 1"
    using assms(16) by (auto simp: box_rounds_def sub_dst_def)
  let ?mn = "\<lambda>r. min (min (sub_corner M r (tb_x db) (tb_y db)) (sub_corner M r (tb_x db + tb_w db - 1) (tb_y db)))
    (min (sub_corner M r (tb_x db) (tb_y db + tb_h db - 1)) (sub_corner M r (tb_x db + tb_w db - 1) (tb_y db + tb_h db - 1)))"
  let ?mx = "\<lambda>r. max (max (sub_corner M r (tb_x db) (tb_y db)) (sub_corner M r (tb_x db + tb_w db - 1) (tb_y db)))
    (max (sub_corner M r (tb_x db) (tb_y db + tb_h db - 1)) (sub_corner M r (tb_x db + tb_w db - 1) (tb_y db + tb_h db - 1)))"
  obtain x w y h where ax: "sub_axis (?mn 0) (?mx 0) (sbox_w S) = (x, w)" and ay: "sub_axis (?mn 1) (?mx 1) (sbox_h S) = (y, h)" by fastforce
  let ?sb = "\<lparr>tb_x = x, tb_y = y, tb_w = w, tb_h = h\<rparr>"
  have sb: "affine_cac_sub_box db M (whole_box S) = ?sb"
    unfolding affine_cac_sub_box_def whole_box_def Let_def using ax ay by simp
  have c: "0 \<le> ?mn r" "?mx r < 2 ^ 31 - 1" "?mn r \<le> max 0 (src_coord M r dx dy)" "max 0 (src_coord M r dx dy) \<le> ?mx r" if "r < 3" for r
    using corners_hold_pixel [OF assms(1) that assms(12) d(1,2) _ assms(14) d(3,4)] assms(13,15) by simp_all
  have m: "?mn r \<le> ?mx r" if "r < 3" for r using order_trans [OF c(3,4) [OF that]] .
  note fx = sub_axis_facts [OF assms(4-6) c(1) m c(2) ax] and fy = sub_axis_facts [OF assms(7-9) c(1) m c(2) ay]
  define px py xw yw where "px = clip (src_coord M 0 dx dy) (- (2 ^ 15)) (2 ^ 15 - 1)" and "py = clip (src_coord M 1 dx dy) (- (2 ^ 15)) (2 ^ 15 - 1)"
    and "xw = clip_s32 (M ! 0 * dx + M ! 1 * dy + M ! 2) mod 2 ^ MAT_ACC" and "yw = clip_s32 (M ! 3 * dx + M ! 4 * dy + M ! 5) mod 2 ^ MAT_ACC"
  have place: "affine_dst2src M dx dy = (px, py, xw, yw)"
    by (simp add: affine_dst2src_def split_pos_def place_clip px_def py_def xw_def yw_def src_coord_def eval_nat_numeral Let_def)
  have "sample (sub_src S ?sb) z bilinear_u8 4 (px, py, xw, yw) k m = sample S z bilinear_u8 4 (px, py, xw, yw) k m"
  proof (rule sample_sub)
    show "tb_x ?sb \<le> q \<and> q \<le> tb_x ?sb + tb_w ?sb - 1 \<longleftrightarrow> 0 \<le> q \<and> q \<le> sbox_w S - 1" if "q = px \<or> q = s16 (px + 1)" for q
      using sub_axis_inside [OF assms(4-6) c(1,2) ax c(3,4) px_def that] by simp
    show "tb_y ?sb \<le> q \<and> q \<le> tb_y ?sb + tb_h ?sb - 1 \<longleftrightarrow> 0 \<le> q \<and> q \<le> sbox_h S - 1" if "q = py \<or> q = s16 (py + 1)" for q
      using sub_axis_inside [OF assms(7-9) c(1,2) ay c(3,4) py_def that] by simp
  qed (use assms(2-5,7,8) fx(1-3) fy(1-3) in simp_all)
  moreover have "Paint.at (base0 (sub_dst D db)) (dst_idx (sub_dst D db) 4 dx dy + k) = Paint.at (base0 D) (dst_idx D 4 dx dy + k)"
    using assms(10,11) by (simp add: sub_dst_def dst_idx_def at_at algebra_simps)
  ultimately show ?thesis by (simp add: rgb_byte_def sb place)
qed

section \<open>The sub-boxes tile the destination\<close>

lemma sbox_num_pos: "0 < n \<Longrightarrow> sbox_num n = (n - 1) div 64 + 1"
  by (simp add: sbox_num_def BS_AFFINE_SIZE_def sdiv_pos)

lemma sbox_len_min:
  assumes "0 < n" "0 \<le> i" "i \<le> sbox_num n - 1"
  shows "sbox_len n i = min 64 (n - i * 64)" "i * 64 < n"
proof -
  have b: "i \<le> (n - 1) div 64" using assms(1,3) by (simp add: sbox_num_pos)
  define q r where "q = (n - 1) div 64" and "r = (n - 1) mod 64"
  have qr: "q * 64 + r = n - 1" "0 \<le> r" "r < 64" by (simp_all add: q_def r_def)
  have len: "sbox_len n i = (if i = q then r + 1 else 64)"
    using assms(1) unfolding sbox_len_def sbox_num_pos [OF assms(1)] BS_AFFINE_SIZE_def q_def r_def by (simp add: smod_pos)
  have b: "i \<le> q" using b by (simp add: q_def)
  show "i * 64 < n" using b qr by linarith
  show "sbox_len n i = min 64 (n - i * 64)"
  proof (cases "i = q")
    case False
    then have "i + 1 \<le> q" using b by simp
    then have "64 \<le> n - i * 64" using qr by linarith
    then show ?thesis using False by (simp add: len)
  next
    case True
    have "sbox_len n i = r + 1" unfolding len if_P [OF True] ..
    then show ?thesis using True qr by simp
  qed
qed

lemma sbox_covers:
  assumes "0 < n" "0 \<le> x" "x < n"
  shows "x div 64 * 64 \<le> x" "x < x div 64 * 64 + sbox_len n (x div 64)" "0 \<le> x div 64" "x div 64 \<le> sbox_num n - 1"
proof -
  have r: "x div 64 * 64 + x mod 64 = x" "0 \<le> x mod 64" "x mod 64 < 64" by simp_all
  show "x div 64 * 64 \<le> x" using r by linarith
  show i: "0 \<le> x div 64" "x div 64 \<le> sbox_num n - 1"
    using assms by (simp_all add: sbox_num_pos zdiv_mono1 pos_imp_zdiv_nonneg_iff)
  show "x < x div 64 * 64 + sbox_len n (x div 64)" unfolding sbox_len_min(1) [OF assms(1) i] using r assms(3) by linarith
qed

lemma sbox_unique:
  assumes "0 < n" "0 \<le> i" "i \<le> sbox_num n - 1" "i * 64 \<le> x" "x < i * 64 + sbox_len n i"
  shows "i = x div 64"
proof -
  have "x < i * 64 + 64" using assms(5) sbox_len_min(1) [OF assms(1-3)] by linarith
  then have "x div 64 = i" by (intro int_div_pos_eq [of x 64 i "x - i * 64"]) (use assms(4) in simp_all)
  then show ?thesis by simp
qed

definition sbox_at :: "int \<Rightarrow> int \<Rightarrow> int \<times> int \<Rightarrow> t40_box" where
  "sbox_at w h = (\<lambda>(j, i). \<lparr>tb_x = i * 64, tb_y = j * 64, tb_w = sbox_len w i, tb_h = sbox_len h j\<rparr>)"

definition sbox_ixs :: "int \<Rightarrow> int \<Rightarrow> (int \<times> int) list" where
  "sbox_ixs w h = List.product [0 .. sbox_num h - 1] [0 .. sbox_num w - 1]"

lemma dst_sboxes_map: "dst_sboxes w h = map (sbox_at w h) (sbox_ixs w h)"
  by (simp add: dst_sboxes_def sbox_at_def sbox_ixs_def BS_AFFINE_SIZE_def)

lemma sub_dst_ok:
  assumes "box_ok D 4" "sbox_x D = 0" "sbox_y D = 0" "(j, i) \<in> set (sbox_ixs (sbox_w D) (sbox_h D))"
  shows "box_ok (sub_dst D (sbox_at (sbox_w D) (sbox_h D) (j, i))) 4" "sbox_len (sbox_w D) i \<le> 64" "sbox_len (sbox_h D) j \<le> 64"
proof -
  have wh: "0 < sbox_w D" "0 < sbox_h D" "sbox_w D \<le> 2 ^ 15" "sbox_h D \<le> 2 ^ 15" "4 * sbox_w D \<le> stride0 D" "sbox_h D * stride0 D \<le> 2 ^ 32"
    using assms(1-3) by (auto simp: box_ok_def)
  have ij: "0 \<le> i" "i \<le> sbox_num (sbox_w D) - 1" "0 \<le> j" "j \<le> sbox_num (sbox_h D) - 1"
    using assms(4) by (auto simp: sbox_ixs_def)
  note i = sbox_len_min [OF wh(1) ij(1,2)] and j = sbox_len_min [OF wh(2) ij(3,4)]
  show "sbox_len (sbox_w D) i \<le> 64" "sbox_len (sbox_h D) j \<le> 64" using i j by simp_all
  have len: "0 < sbox_len (sbox_w D) i" "0 < sbox_len (sbox_h D) j" "i * 64 + sbox_len (sbox_w D) i \<le> sbox_w D" "j * 64 + sbox_len (sbox_h D) j \<le> sbox_h D"
    "sbox_len (sbox_w D) i \<le> sbox_w D" "sbox_len (sbox_h D) j \<le> sbox_h D"
    using i j ij by linarith+
  have "sbox_len (sbox_h D) j * stride0 D \<le> sbox_h D * stride0 D" by (rule mult_right_mono) (use len wh in simp_all)
  then have "sbox_len (sbox_h D) j * stride0 D \<le> 2 ^ 32" using wh(6) by linarith
  then show "box_ok (sub_dst D (sbox_at (sbox_w D) (sbox_h D) (j, i))) 4"
    using len wh ij by (simp add: box_ok_def sub_dst_def sbox_at_def)
qed

lemma sboxes_tile:
  assumes "box_ok D 4" "sbox_x D = 0" "sbox_y D = 0"
  defines "sub \<equiv> \<lambda>ji. sub_dst D (sbox_at (sbox_w D) (sbox_h D) ji)"
  shows "(\<Union>ji \<in> set (sbox_ixs (sbox_w D) (sbox_h D)). box_rounds (sub ji) 4) = box_rounds D 4"
    "a \<in> set (sbox_ixs (sbox_w D) (sbox_h D)) \<Longrightarrow> b \<in> set (sbox_ixs (sbox_w D) (sbox_h D)) \<Longrightarrow> a \<noteq> b \<Longrightarrow> box_rounds (sub a) 4 \<inter> box_rounds (sub b) 4 = {}"
proof -
  have wh: "0 < sbox_w D" "0 < sbox_h D" using assms(1) by (auto simp: box_ok_def)
  have ix: "(j, i) \<in> set (sbox_ixs (sbox_w D) (sbox_h D)) \<longleftrightarrow> 0 \<le> i \<and> i \<le> sbox_num (sbox_w D) - 1 \<and> 0 \<le> j \<and> j \<le> sbox_num (sbox_h D) - 1" for i j
    by (auto simp: sbox_ixs_def)
  have mem: "((dy, dx), k) \<in> box_rounds (sub (j, i)) 4 \<longleftrightarrow> j * 64 \<le> dy \<and> dy < j * 64 + sbox_len (sbox_h D) j \<and>
      i * 64 \<le> dx \<and> dx < i * 64 + sbox_len (sbox_w D) i \<and> 0 \<le> k \<and> k < 4" for dy dx k i j
    by (auto simp: box_rounds_def sub_def sub_dst_def sbox_at_def)
  show "(\<Union>ji \<in> set (sbox_ixs (sbox_w D) (sbox_h D)). box_rounds (sub ji) 4) = box_rounds D 4"
  proof (intro equalityI subsetI)
    fix c assume "c \<in> (\<Union>ji \<in> set (sbox_ixs (sbox_w D) (sbox_h D)). box_rounds (sub ji) 4)"
    then obtain j i where ji: "(j, i) \<in> set (sbox_ixs (sbox_w D) (sbox_h D))" "c \<in> box_rounds (sub (j, i)) 4" by auto
    obtain dy dx k where c: "c = ((dy, dx), k)" by (metis prod.collapse)
    have b: "0 \<le> i" "i \<le> sbox_num (sbox_w D) - 1" "0 \<le> j" "j \<le> sbox_num (sbox_h D) - 1" using ji(1) ix by auto
    from sbox_len_min [OF wh(1) b(1,2)] sbox_len_min [OF wh(2) b(3,4)] ji(2) b
    show "c \<in> box_rounds D 4" unfolding c mem by (auto simp: box_rounds_def assms(2,3))
  next
    fix c assume c': "c \<in> box_rounds D 4"
    obtain dy dx k where c: "c = ((dy, dx), k)" by (metis prod.collapse)
    have r: "0 \<le> dx" "dx < sbox_w D" "0 \<le> dy" "dy < sbox_h D" "0 \<le> k" "k < 4" using c' unfolding c by (auto simp: box_rounds_def assms(2,3))
    from sbox_covers [OF wh(1) r(1,2)] sbox_covers [OF wh(2) r(3,4)] r(5,6)
    have "((dy, dx), k) \<in> box_rounds (sub (dy div 64, dx div 64)) 4" "(dy div 64, dx div 64) \<in> set (sbox_ixs (sbox_w D) (sbox_h D))"
      unfolding mem ix by simp_all
    then show "c \<in> (\<Union>ji \<in> set (sbox_ixs (sbox_w D) (sbox_h D)). box_rounds (sub ji) 4)" unfolding c by blast
  qed
  show "box_rounds (sub a) 4 \<inter> box_rounds (sub b) 4 = {}"
    if ab: "a \<in> set (sbox_ixs (sbox_w D) (sbox_h D))" "b \<in> set (sbox_ixs (sbox_w D) (sbox_h D))" "a \<noteq> b"
  proof -
    have "ji = (dy div 64, dx div 64)" if ji: "ji \<in> set (sbox_ixs (sbox_w D) (sbox_h D))" "((dy, dx), k) \<in> box_rounds (sub ji) 4" for ji dy dx k
    proof -
      obtain j i where e: "ji = (j, i)" by (cases ji)
      have "i = dx div 64" by (rule sbox_unique [OF wh(1)]) (use ji in \<open>simp_all add: e mem ix\<close>)
      moreover have "j = dy div 64" by (rule sbox_unique [OF wh(2)]) (use ji in \<open>simp_all add: e mem ix\<close>)
      ultimately show ?thesis by (simp add: e)
    qed
    note at = this
    have "a = b" if c: "c \<in> box_rounds (sub a) 4" "c \<in> box_rounds (sub b) 4" for c
    proof -
      obtain dy dx k where e: "c = ((dy, dx), k)" by (metis prod.collapse)
      show ?thesis using at [OF ab(1) c(1) [unfolded e]] at [OF ab(2) c(2) [unfolded e]] by simp
    qed
    then show ?thesis using ab(3) by blast
  qed
qed

section \<open>The whole warp\<close>

lemma distinct_concat_map:
  assumes "distinct xs" "\<And>x. x \<in> set xs \<Longrightarrow> distinct (f x)" "\<And>x y. x \<in> set xs \<Longrightarrow> y \<in> set xs \<Longrightarrow> x \<noteq> y \<Longrightarrow> set (f x) \<inter> set (f y) = {}"
  shows "distinct (concat (map f xs))"
  using assms
proof (induction xs)
  case (Cons x xs)
  have "set (f x) \<inter> set (f y) = {}" if "y \<in> set xs" for y using Cons.prems(1) Cons.prems(3) [of x y] that by auto
  then show ?case using Cons by auto
qed simp

lemma fold_concat_map: "fold (\<lambda>x m. fold g (f x) m) xs m = fold g (concat (map f xs)) m"
  by (induction xs arbitrary: m) simp_all

lemma sub_warps_draw_whole:
  fixes z :: u8 and abgr :: bool and al :: u8
  assumes "matrix_ok M" "boxes_ok S D 4" "sbox_x S = 0" "sbox_y S = 0" "sbox_x D = 0" "sbox_y D = 0" "even (sbox_w S)" "even (sbox_h S)"
  defines "job \<equiv> \<lambda>db m. bs_affine_box_rgb (sub_src S (affine_cac_sub_box db M (whole_box S))) (sub_dst D db) M z abgr al m"
  shows "fold job (dst_sboxes (sbox_w D) (sbox_h D)) m = bs_affine_box_rgb S D M z abgr al m"
proof -
  let ?ixs = "sbox_ixs (sbox_w D) (sbox_h D)" and ?at = "sbox_at (sbox_w D) (sbox_h D)"
  let ?paint = "rgb_byte S D z abgr al (affine_dst2src M)" and ?rounds = "\<lambda>ji. affine_rounds (sub_dst D (?at ji))"
  have ok: "box_ok S 4" "box_ok D 4" using assms(2) by (simp_all add: boxes_ok_def)
  have S: "0 < sbox_w S" "sbox_w S \<le> 2 ^ 15" "0 < sbox_h S" "sbox_h S \<le> 2 ^ 15" using ok(1) assms(3,4) by (auto simp: box_ok_def)
  have sub: "box_ok (sub_dst D (?at ji)) 4" if "ji \<in> set ?ixs" for ji
    using sub_dst_ok(1) [OF ok(2) assms(5,6)] that by (cases ji) simp
  note tile = sboxes_tile [OF ok(2) assms(5,6)]
  have rounds: "set (?rounds ji) = box_rounds (sub_dst D (?at ji)) 4" "distinct (?rounds ji)" if "ji \<in> set ?ixs" for ji
    using affine_rounds_ok [OF sub [OF that]] by simp_all
  have job: "job (?at ji) m = fold ?paint (?rounds ji) m" if ji: "ji \<in> set ?ixs" for ji m
  proof -
    have b: "0 \<le> tb_x (?at ji)" "tb_x (?at ji) + tb_w (?at ji) \<le> 2 ^ 15" "0 \<le> tb_y (?at ji)" "tb_y (?at ji) + tb_h (?at ji) \<le> 2 ^ 15"
      using sub [OF ji] by (auto simp: box_ok_def sub_dst_def)
    show ?thesis unfolding job_def bs_affine_box_rgb_def
    proof (rule fold_paint_cong)
      fix c m assume "c \<in> set (?rounds ji)"
      then have c: "c \<in> box_rounds (sub_dst D (?at ji)) 4" using rounds(1) [OF ji] by simp
      obtain dy dx k where e: "c = ((dy, dx), k)" by (metis prod.collapse)
      show "rgb_byte (sub_src S (affine_cac_sub_box (?at ji) M (whole_box S))) (sub_dst D (?at ji)) z abgr al (affine_dst2src M) c m = ?paint c m"
        unfolding e by (rule rgb_byte_sub [OF assms(1,3,4) S(1,2) assms(7) S(3,4) assms(8,5,6) b c [unfolded e]])
    qed
  qed
  have "fold job (map ?at ?ixs) m = fold (\<lambda>ji m. fold ?paint (?rounds ji) m) ?ixs m"
    unfolding fold_map by (rule fold_paint_cong) (simp add: job)
  also have "\<dots> = fold ?paint (concat (map ?rounds ?ixs)) m" by (rule fold_concat_map)
  also have "\<dots> = fold ?paint (affine_rounds D) m"
  proof (rule rgb.paint_order)
    have "distinct ?ixs" by (simp add: sbox_ixs_def distinct_product)
    then show "distinct (concat (map ?rounds ?ixs))"
      by (rule distinct_concat_map) (use rounds tile(2) in simp_all)
    show "distinct (affine_rounds D)" by (rule affine_rounds_ok [OF ok(2)])
    have s: "set (concat (map ?rounds ?ixs)) = box_rounds D 4" using rounds(1) tile(1) by simp
    then show "set (concat (map ?rounds ?ixs)) = set (affine_rounds D)" using affine_rounds_ok(1) [OF ok(2)] by simp
    show "rounds_apart (byte_out D 4) (byte_in S 4 (affine_dst2src M)) (set (concat (map ?rounds ?ixs)))"
      unfolding s by (rule byte_apart [OF assms(2)]) (simp_all add: places_ok)
  qed
  finally show ?thesis unfolding dst_sboxes_map bs_affine_box_rgb_def .
qed

section \<open>The jobs\<close>

lemma affine_job:
  assumes "cb_affine cfg" "odd (cb_src_format cfg)" "odd (cb_dst_format cfg)" "map sint (cb_matrix cfg) = M" "\<not> is_perspective M"
  shows "bsc_job None None cfg m = Inr (bs_affine_box_rgb (bsc_src cfg) (bsc_dst cfg) M (cb_zero_point cfg) (is_abgr (bsc_order cfg)) (cb_nv2bgr_alpha cfg) m)"
proof -
  have "bx_format (bsc_src cfg) = 1" "bx_format (bsc_dst cfg) = 1" using assms(2,3) by (simp_all add: bsc_src_def bsc_dst_def odd_iff_mod_2_eq_one)
  then show ?thesis using assms(1,5) unfolding bsc_job_def assms(4) by (simp add: bs_affine_box_def bs_affine_box_rgb_to_rgb_def)
qed

text \<open>The picture of a warp does not depend on the second plane of its destination.\<close>

lemma affine_base1: "bs_affine_box_rgb S (D\<lparr>base1 := b\<rparr>) M z abgr al m = bs_affine_box_rgb S D M z abgr al m"
proof -
  have "rgb_byte S (D\<lparr>base1 := b\<rparr>) z abgr al F = rgb_byte S D z abgr al F" for F
    by (intro ext) (simp add: rgb_byte_def dst_idx_def split: prod.split)
  moreover have "affine_rounds (D\<lparr>base1 := b\<rparr>) = affine_rounds D" by (simp add: affine_rounds_def)
  ultimately show ?thesis by (simp add: bs_affine_box_rgb_def)
qed

lemma run_jobs_map:
  assumes "\<And>x m. x \<in> set xs \<Longrightarrow> bsc_job None None (bsc_cfg.truncate (f x)) m = Inr (g x m)"
  shows "run_jobs (map f xs) m = Inr (fold g xs m)"
  using assms
proof (induction xs arbitrary: m)
  case (Cons x xs)
  then show ?case by (simp add: run_jobs_def)
qed (simp add: run_jobs_def)

definition whole_src :: "u32 \<Rightarrow> t40_data \<Rightarrow> t40_box \<Rightarrow> bs_box" where
  "whole_src w0 src box = \<lparr>base0 = w0, base1 = 0, stride0 = td_line_stride src, stride1 = td_line_stride src,
     sbox_x = 0, sbox_y = 0, sbox_w = tb_w box, sbox_h = tb_h box, bx_format = 1, bx_chn = 0\<rparr>"

definition whole_dst :: "t40_data \<Rightarrow> bs_box" where
  "whole_dst dst = \<lparr>base0 = td_base dst, base1 = 0, stride0 = td_line_stride dst, stride1 = td_line_stride dst,
     sbox_x = 0, sbox_y = 0, sbox_w = td_width dst, sbox_h = td_height dst, bx_format = 1, bx_chn = 0\<rparr>"

lemma sint_small: "- (2 ^ 31) \<le> x \<Longrightarrow> x < 2 ^ 31 \<Longrightarrow> sint (of_int x :: u32) = x"
  by (simp add: signed_of_int signed_take_bit_int_eq_self)

lemma box_fits: "0 < x \<Longrightarrow> x \<le> 64 \<Longrightarrow> (of_int x :: u32) \<le> 64" "0 < x \<Longrightarrow> x \<le> 64 \<Longrightarrow> 0 < (of_int x :: u32)"
  by (simp_all add: word_le_def word_less_def unsigned_of_int take_bit_int_eq_self)

text \<open>The engine takes a destination of at most 64 columns and 64 rows, and one of each at least.\<close>

definition engine_fits :: "bsc_hw \<Rightarrow> bool" where
  "engine_fits cfg \<longleftrightarrow> frmc_in_arrays cfg \<and> 0 < cb_dst_box_w cfg \<and> cb_dst_box_w cfg \<le> 64 \<and>
     0 < cb_dst_box_h cfg \<and> cb_dst_box_h cfg \<le> 64"

lemma sint_matrix: "matrix_ok M \<Longrightarrow> map sint (map of_int M :: u32 list) = M"
  by (simp add: matrix_ok_def sint_small map_idI)

lemma cac_sub_box_in:
  assumes "matrix_ok M" "0 < tb_w box" "tb_w box \<le> 2 ^ 15" "even (tb_w box)" "0 < tb_h box" "tb_h box \<le> 2 ^ 15" "even (tb_h box)"
    "0 \<le> tb_x db" "tb_x db + tb_w db \<le> 2 ^ 15" "0 \<le> tb_y db" "tb_y db + tb_h db \<le> 2 ^ 15" "0 < tb_w db" "0 < tb_h db"
  defines "sb \<equiv> affine_cac_sub_box db M box"
  shows "0 \<le> tb_x sb" "0 < tb_w sb" "tb_x sb + tb_w sb \<le> tb_w box" "0 \<le> tb_y sb" "0 < tb_h sb" "tb_y sb + tb_h sb \<le> tb_h box"
proof -
  let ?mn = "\<lambda>r. min (min (sub_corner M r (tb_x db) (tb_y db)) (sub_corner M r (tb_x db + tb_w db - 1) (tb_y db)))
    (min (sub_corner M r (tb_x db) (tb_y db + tb_h db - 1)) (sub_corner M r (tb_x db + tb_w db - 1) (tb_y db + tb_h db - 1)))"
  let ?mx = "\<lambda>r. max (max (sub_corner M r (tb_x db) (tb_y db)) (sub_corner M r (tb_x db + tb_w db - 1) (tb_y db)))
    (max (sub_corner M r (tb_x db) (tb_y db + tb_h db - 1)) (sub_corner M r (tb_x db + tb_w db - 1) (tb_y db + tb_h db - 1)))"
  obtain x w y h where ax: "sub_axis (?mn 0) (?mx 0) (tb_w box) = (x, w)" and ay: "sub_axis (?mn 1) (?mx 1) (tb_h box) = (y, h)" by fastforce
  have sb: "sb = \<lparr>tb_x = x, tb_y = y, tb_w = w, tb_h = h\<rparr>" unfolding sb_def affine_cac_sub_box_def Let_def using ax ay by simp
  have d: "tb_x db \<le> tb_x db" "tb_x db \<le> tb_x db + tb_w db - 1" "tb_y db \<le> tb_y db" "tb_y db \<le> tb_y db + tb_h db - 1" using assms(12,13) by simp_all
  have c: "0 \<le> ?mn r" "?mx r < 2 ^ 31 - 1" "?mn r \<le> max 0 (src_coord M r (tb_x db) (tb_y db))" "max 0 (src_coord M r (tb_x db) (tb_y db)) \<le> ?mx r" if "r < 3" for r
    using corners_hold_pixel [OF assms(1) that assms(8) d(1,2) _ assms(10) d(3,4)] assms(9,11) by simp_all
  have m: "?mn r \<le> ?mx r" if "r < 3" for r using order_trans [OF c(3,4) [OF that]] .
  note fx = sub_axis_facts [OF assms(2-4) c(1) m c(2) ax] and fy = sub_axis_facts [OF assms(5-7) c(1) m c(2) ay]
  show "0 \<le> tb_x sb" "0 < tb_w sb" "tb_x sb + tb_w sb \<le> tb_w box" "0 \<le> tb_y sb" "0 < tb_h sb" "tb_y sb + tb_h sb \<le> tb_h box"
    using fx(1-3) fy(1-3) by (simp_all add: sb)
qed

text \<open>A job draws its sub-box, if the sub-box is a place in the whole box.\<close>

lemma sub_job_draws:
  assumes "matrix_ok M" "odd (td_format src)" "\<not> affine_format_refused (td_format src)" "odd (td_format dst)" "length (cb_dst_base junk) = 64"
    "td_line_stride src < 2 ^ 31" "0 \<le> td_line_stride src" "td_line_stride dst < 2 ^ 31" "0 \<le> td_line_stride dst"
    "0 \<le> tb_x sb" "0 < tb_w sb" "tb_x sb + tb_w sb \<le> 2 ^ 15" "0 \<le> tb_y sb" "0 < tb_h sb" "tb_y sb + tb_h sb \<le> 2 ^ 15"
    "0 \<le> tb_x db" "0 < tb_w db" "tb_x db + tb_w db \<le> 2 ^ 15" "0 \<le> tb_y db" "0 < tb_h db" "tb_y db + tb_h db \<le> 2 ^ 15"
  shows "bsc_job None None (bsc_cfg.truncate (sub_job (affine_common junk info M src dst coef ofst) w0 w1 src dst sb db)) m =
    Inr (bs_affine_box_rgb (sub_src (whole_src w0 src box) sb) (sub_dst (whole_dst dst) db) M (ucast (ta_zero_point info))
      (is_abgr (td_format dst div 2 mod 16)) (cb_nv2bgr_alpha junk) m)"
proof -
  let ?c = "bsc_cfg.truncate (sub_job (affine_common junk info M src dst coef ofst) w0 w1 src dst sb db)"
  have f: "td_format src \<noteq> 0" "td_format dst \<noteq> 0" "src_pixel (td_format src) = 4"
    using assms(2-4) by (auto simp: affine_format_refused_def src_pixel_def odd_pos)
  have s: "bsc_src ?c = sub_src (whole_src w0 src box) sb"
    using assms(2,6,7,10-15) f by (simp add: bsc_src_def bsc_cfg.truncate_def sub_job_def affine_common_def sub_src_def whole_src_def sint_small odd_iff_mod_2_eq_one)
  have d: "bsc_dst ?c = sub_dst (whole_dst dst) db"
    using assms(4,5,8,9,16-21) f by (simp add: bsc_dst_def bsc_cfg.truncate_def sub_job_def affine_common_def sub_dst_def whole_dst_def sint_small odd_iff_mod_2_eq_one)
  have "bsc_job None None ?c m = Inr (bs_affine_box_rgb (bsc_src ?c) (bsc_dst ?c) M (cb_zero_point ?c) (is_abgr (bsc_order ?c)) (cb_nv2bgr_alpha ?c) m)"
  proof (rule affine_job)
    show "\<not> is_perspective M" using assms(1) by (simp add: matrix_ok_def)
    show "map sint (cb_matrix ?c) = M"
      using sint_matrix [OF assms(1)] by (simp add: bsc_cfg.truncate_def sub_job_def affine_common_def)
  qed (use assms(2,4) in \<open>simp_all add: bsc_cfg.truncate_def sub_job_def affine_common_def\<close>)
  then show ?thesis unfolding s d by (simp add: bsc_cfg.truncate_def sub_job_def affine_common_def bsc_order_def)
qed

lemma stuff_job_draws:
  assumes "matrix_ok M" "odd (td_format src)" "odd (td_format dst)" "length (cb_dst_base junk) = 64"
    "td_line_stride src < 2 ^ 31" "td_line_stride dst < 2 ^ 31" "box_ok (whole_src w0 src (ta_box info)) 4" "box_ok (whole_dst dst) 4"
    "src_wbox_base0 src (ta_box info) = Inr w0" "engine_matrix fp (ta_matrix info) = Inr M" "td_width dst \<le> 64" "td_height dst \<le> 64"
  shows "\<exists>cfg. bs_affine_cfg_stuff junk fp info src dst coef ofst = Inr [cfg] \<and> engine_fits cfg \<and>
    (\<forall>m. bsc_job None None (bsc_cfg.truncate cfg) m = Inr (bs_affine_box_rgb (whole_src w0 src (ta_box info)) (whole_dst dst) M
      (ucast (ta_zero_point info)) (is_abgr (td_format dst div 2 mod 16)) (cb_nv2bgr_alpha junk) m))"
proof -
  obtain cfg where cfg: "bs_affine_cfg_stuff junk fp info src dst coef ofst = Inr [cfg]"
    by (simp add: bs_affine_cfg_stuff_def assms(9,10) Let_def)
  have c: "cfg = (affine_common junk info M src dst coef ofst)
     \<lparr>cb_src_base0 := w0, cb_src_base1 := 0, cb_src_box_x := 0, cb_src_box_y := 0,
      cb_src_box_w := of_int (tb_w (ta_box info)), cb_src_box_h := of_int (tb_h (ta_box info)),
      cb_dst_base := (cb_dst_base junk)[0 := td_base dst],
      cb_dst_box_x := 0, cb_dst_box_y := 0, cb_dst_box_w := of_int (td_width dst), cb_dst_box_h := of_int (td_height dst)\<rparr>"
    using cfg assms(2,3) by (auto simp: bs_affine_cfg_stuff_def assms(9,10) Let_def)
  have S: "0 < tb_w (ta_box info)" "tb_w (ta_box info) \<le> 2 ^ 15" "0 < tb_h (ta_box info)" "tb_h (ta_box info) \<le> 2 ^ 15" "0 \<le> td_line_stride src"
    using assms(7) by (auto simp: box_ok_def whole_src_def)
  have D: "0 < td_width dst" "td_width dst \<le> 2 ^ 15" "0 < td_height dst" "td_height dst \<le> 2 ^ 15" "0 \<le> td_line_stride dst"
    using assms(8) by (auto simp: box_ok_def whole_dst_def)
  let ?c = "bsc_cfg.truncate cfg"
  have s: "bsc_src ?c = whole_src w0 src (ta_box info)"
    using assms(2,5) S by (simp add: bsc_src_def bsc_cfg.truncate_def c affine_common_def whole_src_def sint_small odd_iff_mod_2_eq_one)
  have d: "bsc_dst ?c = (whole_dst dst)\<lparr>base1 := cb_dst_base junk ! 1\<rparr>"
    using assms(3,4,6) D by (simp add: bsc_dst_def bsc_cfg.truncate_def c affine_common_def whole_dst_def sint_small odd_iff_mod_2_eq_one)
  have "bsc_job None None ?c m = Inr (bs_affine_box_rgb (bsc_src ?c) (bsc_dst ?c) M (cb_zero_point ?c) (is_abgr (bsc_order ?c)) (cb_nv2bgr_alpha ?c) m)" for m
  proof (rule affine_job)
    show "\<not> is_perspective M" using assms(1) by (simp add: matrix_ok_def)
    show "map sint (cb_matrix ?c) = M" using sint_matrix [OF assms(1)] by (simp add: bsc_cfg.truncate_def c affine_common_def)
  qed (use assms(2,3) in \<open>simp_all add: bsc_cfg.truncate_def c affine_common_def\<close>)
  then have "bsc_job None None ?c m = Inr (bs_affine_box_rgb (whole_src w0 src (ta_box info)) (whole_dst dst) M
      (ucast (ta_zero_point info)) (is_abgr (td_format dst div 2 mod 16)) (cb_nv2bgr_alpha junk) m)" for m
    unfolding s d affine_base1 by (simp add: bsc_cfg.truncate_def c affine_common_def bsc_order_def)
  moreover have "engine_fits cfg"
    using assms(3,11,12) D(1,3) by (simp add: engine_fits_def frmc_in_arrays_def frmc_box_num_def c affine_common_def box_fits)
  ultimately show ?thesis using cfg by blast
qed

text \<open>C19. A request for one affine warp between pictures of four bytes a pixel (odd formats that the library does not refuse; NV12
  is not covered), from a box of the source with even sizes, gives jobs of at most 64 columns and 64 rows each, and the software
  model given these jobs one after the other leaves the memory of the one warp of the whole box, byte for byte. With more than 64 columns
  or rows the picture is split; the part of the source cut out for each sub-box holds every pixel its bilinear reads take, and none
  that the whole box would not have had. (With odd sizes the cut goes one pixel over the edge.)\<close>

theorem affine_start_draws_one_warp:
  assumes "engine_matrix fp (ta_matrix info) = Inr M" "matrix_ok M" "odd (td_format src)" "\<not> affine_format_refused (td_format src)"
    "odd (td_format dst)" "length (cb_dst_base junk) = 64" "td_line_stride src < 2 ^ 31" "td_line_stride dst < 2 ^ 31"
    "even (tb_w (ta_box info))" "even (tb_h (ta_box info))"
    "w0 = Paint.at (td_base src) (tb_y (ta_box info) * td_line_stride src + tb_x (ta_box info) * 4)"
    "boxes_ok (whole_src w0 src (ta_box info)) (whole_dst dst) 4"
  shows "\<exists>cfgs. affine_cfgs True junk fp src [(info, dst)] coef ofst = Inr cfgs \<and> (\<forall>cfg \<in> set cfgs. engine_fits cfg) \<and>
    run_jobs cfgs m = Inr (bs_affine_box_rgb (whole_src w0 src (ta_box info)) (whole_dst dst) M
      (ucast (ta_zero_point info)) (is_abgr (td_format dst div 2 mod 16)) (cb_nv2bgr_alpha junk) m)"
proof -
  let ?S = "whole_src w0 src (ta_box info)" and ?D = "whole_dst dst"
  let ?z = "ucast (ta_zero_point info) :: u8" and ?o = "is_abgr (td_format dst div 2 mod 16)" and ?al = "cb_nv2bgr_alpha junk"
  have ok: "box_ok ?S 4" "box_ok ?D 4" using assms(12) by (simp_all add: boxes_ok_def)
  have f: "td_format src \<noteq> 0" "td_format dst \<noteq> 0" using assms(3,5) by (auto simp: odd_pos)
  have w0: "src_wbox_base0 src (ta_box info) = Inr w0" using assms(3,4,11) f by (simp add: src_wbox_base0_def)
  show ?thesis
  proof (cases "td_width dst > 64 \<or> td_height dst > 64")
    case False
    then have "td_width dst \<le> 64" "td_height dst \<le> 64" by simp_all
    from stuff_job_draws [OF assms(2,3,5-8) ok w0 assms(1) this] obtain cfg where
      c: "bs_affine_cfg_stuff junk fp info src dst coef ofst = Inr [cfg]" "engine_fits cfg"
        "\<And>m. bsc_job None None (bsc_cfg.truncate cfg) m = Inr (bs_affine_box_rgb ?S ?D M ?z ?o ?al m)" by blast
    have "affine_cfgs True junk fp src [(info, dst)] coef ofst = Inr [cfg]" using False c(1) by (simp add: affine_cfgs_def)
    then show ?thesis using c(2,3) by (simp add: run_jobs_def)
  next
    case True
    define dbs where "dbs = dst_sboxes (td_width dst) (td_height dst)"
    define wbox where "wbox = \<lparr>tb_x = 0, tb_y = 0, tb_w = tb_w (ta_box info), tb_h = tb_h (ta_box info)\<rparr>"
    define job where "job = (\<lambda>db. sub_job (affine_common junk info M src dst coef ofst) w0 (src_wbox_base1 src (ta_box info)) src dst (affine_cac_sub_box db M wbox) db)"
    have wb: "whole_box ?S = wbox" by (simp add: whole_box_def whole_src_def wbox_def)
    have cfgs: "affine_cfgs True junk fp src [(info, dst)] coef ofst = Inr (map job dbs)"
      using True f by (simp add: affine_cfgs_def affine_box_split_def w0 assms(1) Let_def dbs_def wbox_def job_def)
    have S: "0 < tb_w wbox" "tb_w wbox \<le> 2 ^ 15" "even (tb_w wbox)" "0 < tb_h wbox" "tb_h wbox \<le> 2 ^ 15" "even (tb_h wbox)" "0 \<le> td_line_stride src"
      using ok(1) assms(9,10) by (auto simp: box_ok_def whole_src_def wbox_def)
    have D: "0 \<le> td_line_stride dst" using ok(2) by (auto simp: box_ok_def whole_dst_def)
    have db: "0 \<le> tb_x db" "0 < tb_w db" "tb_x db + tb_w db \<le> 2 ^ 15" "0 \<le> tb_y db" "0 < tb_h db" "tb_y db + tb_h db \<le> 2 ^ 15" "tb_w db \<le> 64" "tb_h db \<le> 64"
      if "db \<in> set dbs" for db
    proof -
      from that obtain j i where ji: "(j, i) \<in> set (sbox_ixs (sbox_w ?D) (sbox_h ?D))" "db = sbox_at (sbox_w ?D) (sbox_h ?D) (j, i)"
        by (auto simp: dbs_def dst_sboxes_map whole_dst_def)
      from sub_dst_ok [OF ok(2) _ _ ji(1)] show "0 \<le> tb_x db" "0 < tb_w db" "tb_x db + tb_w db \<le> 2 ^ 15" "0 \<le> tb_y db" "0 < tb_h db"
          "tb_y db + tb_h db \<le> 2 ^ 15" "tb_w db \<le> 64" "tb_h db \<le> 64"
        by (auto simp: box_ok_def sub_dst_def ji(2) whole_dst_def sbox_at_def)
    qed
    have draw: "bsc_job None None (bsc_cfg.truncate (job db)) m =
        Inr (bs_affine_box_rgb (sub_src ?S (affine_cac_sub_box db M (whole_box ?S))) (sub_dst ?D db) M ?z ?o ?al m)" if "db \<in> set dbs" for db m
      unfolding job_def wb
    proof (rule sub_job_draws [OF assms(2-6) assms(7) S(7) assms(8) D])
      note sb = cac_sub_box_in [OF assms(2) S(1-6) db(1,3,4,6,2,5) [OF that]]
      show "0 \<le> tb_x (affine_cac_sub_box db M wbox)" "0 < tb_w (affine_cac_sub_box db M wbox)"
        "tb_x (affine_cac_sub_box db M wbox) + tb_w (affine_cac_sub_box db M wbox) \<le> 2 ^ 15"
        "0 \<le> tb_y (affine_cac_sub_box db M wbox)" "0 < tb_h (affine_cac_sub_box db M wbox)"
        "tb_y (affine_cac_sub_box db M wbox) + tb_h (affine_cac_sub_box db M wbox) \<le> 2 ^ 15"
        using sb S(2,5) by linarith+
    qed (use db [OF that] in simp_all)
    have "run_jobs (map job dbs) m = Inr (fold (\<lambda>db. bs_affine_box_rgb (sub_src ?S (affine_cac_sub_box db M (whole_box ?S))) (sub_dst ?D db) M ?z ?o ?al) dbs m)"
      by (rule run_jobs_map) (rule draw)
    also have "\<dots> = Inr (bs_affine_box_rgb ?S ?D M ?z ?o ?al m)"
      using sub_warps_draw_whole [OF assms(2,12), of ?z ?o ?al m] assms(9,10) by (simp add: dbs_def whole_src_def whole_dst_def)
    finally have run: "run_jobs (map job dbs) m = Inr (bs_affine_box_rgb ?S ?D M ?z ?o ?al m)" .
    have "engine_fits (job db)" if "db \<in> set dbs" for db
      using assms(5) db(2,5,7,8) [OF that] by (simp add: job_def sub_job_def engine_fits_def frmc_in_arrays_def frmc_box_num_def affine_common_def box_fits)
    then show ?thesis using cfgs run by auto
  qed
qed

text \<open>A picture of 80 columns, reduced to 66 columns in steps of one and a quarter: two jobs.\<close>

definition sample_picture :: "u32 \<Rightarrow> int \<Rightarrow> t40_data" where
  "sample_picture a w = \<lparr>td_base = a, td_base1 = 0, td_format = 1, td_width = w, td_height = 2, td_line_stride = 512, td_locate = 0\<rparr>"

definition sample_affine :: t40_affine where
  "sample_affine = \<lparr>ta_box = \<lparr>tb_x = 4, tb_y = 0, tb_w = 80, tb_h = 2\<rparr>, ta_matrix = (\<lambda>i. if i = 0 then 4 / 5 else if i = 4 \<or> i = 8 then 1 else 0), ta_zero_point = 0\<rparr>"

definition sample_junk :: bsc_hw where
  "sample_junk = \<lparr>cb_src_base0 = 0, cb_src_base1 = 0, cb_src_format = 0, cb_src_line_stride = 0,
     cb_src_box_x = 0, cb_src_box_y = 0, cb_src_box_w = 0, cb_src_box_h = 0, cb_dst_format = 0, cb_dst_line_stride = 0,
     cb_dst_box_x = 0, cb_dst_box_y = 0, cb_dst_box_w = 0, cb_dst_box_h = 0, cb_affine = False, cb_box_mode = False, cb_y_gain_exp = 0,
     cb_zero_point = 0, cb_nv2bgr_alpha = 0x5A, cb_coef = [], cb_offset = [], cb_matrix = [], cb_box_num = 0,
     cb_dst_base = replicate 64 0xCC, cb_boxes_info = None, hw_boxes_info = 0, hw_mono_x = 0, hw_mono_y = 0, hw_extreme_point = [],
     hw_box_bus = 0, hw_ibufc_bus = 0, hw_obufc_bus = 0, hw_irq_mask = 0\<rparr>"

theorem affine_start_draws_one_warp_witness:
  "\<exists>cfgs. affine_cfgs True sample_junk (exact_fpu (\<lambda>_. 0)) (sample_picture 0x4000 100) [(sample_affine, sample_picture 0x8000 66)] [] [] = Inr cfgs \<and>
    (\<forall>cfg \<in> set cfgs. engine_fits cfg) \<and>
    run_jobs cfgs (\<lambda>a. ucast a) = Inr (bs_affine_box_rgb (whole_src 0x4010 (sample_picture 0x4000 100) (ta_box sample_affine)) (whole_dst (sample_picture 0x8000 66))
      [81920, 0, 0, 0, 65536, 0, 0, 0, 65536] 0 (is_abgr 0) 0x5A (\<lambda>a. ucast a))"
proof -
  have "IS_ZERO (exact_fpu f) 0" "IS_ONE (exact_fpu f) 1" "\<not> IS_ONE (exact_fpu f) (4 / 5)" for f
    by (simp_all add: IS_ZERO_def IS_ONE_def fsub_def)
  moreover have "\<lfloor>163841 / 2 :: rat\<rfloor> = 81920" "\<lfloor>131073 / 2 :: rat\<rfloor> = 65536" "\<lfloor>1 / 2 :: rat\<rfloor> = 0"
    by (simp_all add: floor_eq_iff)
  ultimately have inv: "engine_matrix (exact_fpu (\<lambda>_. 0)) (ta_matrix sample_affine) = Inr [81920, 0, 0, 0, 65536, 0, 0, 0, 65536]"
    by (simp add: engine_matrix_def get_inverse_matrix_def mx_is_identity_def mx_is_scale_trans_def sample_affine_def Let_def
        matrix_float_to_s32_def mx_s32_def fmul_def upt_rec)
  have mat: "matrix_ok [81920, 0, 0, 0, 65536, 0, 0, 0, 65536]" by (simp add: matrix_ok_def is_perspective_def MAT_ACC_def)
  have "area 0x4010 1024 \<inter> area 0x8000 1024 = {}" by (rule area_disjoint) simp_all
  then have ok: "boxes_ok (whole_src 0x4010 (sample_picture 0x4000 100) (ta_box sample_affine)) (whole_dst (sample_picture 0x8000 66)) 4"
    by (simp add: boxes_ok_def box_ok_def box_area_def sample_picture_def sample_affine_def whole_src_def whole_dst_def)
  have "\<exists>cfgs. affine_cfgs True sample_junk (exact_fpu (\<lambda>_. 0)) (sample_picture 0x4000 100) [(sample_affine, sample_picture 0x8000 66)] [] [] = Inr cfgs \<and>
    (\<forall>cfg \<in> set cfgs. engine_fits cfg) \<and>
    run_jobs cfgs (\<lambda>a. ucast a) = Inr (bs_affine_box_rgb (whole_src 0x4010 (sample_picture 0x4000 100) (ta_box sample_affine)) (whole_dst (sample_picture 0x8000 66))
      [81920, 0, 0, 0, 65536, 0, 0, 0, 65536] (ucast (ta_zero_point sample_affine)) (is_abgr (td_format (sample_picture 0x8000 66) div 2 mod 16))
      (cb_nv2bgr_alpha sample_junk) (\<lambda>a. ucast a))"
    by (rule affine_start_draws_one_warp [OF inv mat _ _ _ _ _ _ _ _ _ ok])
      (simp_all add: sample_picture_def sample_affine_def sample_junk_def affine_format_refused_def T40_DATA_VBGR_def T40_DATA_VRGB_def
        T40_DATA_FMU2_def T40_DATA_FMU4_def T40_DATA_FMU8_def Paint.at_def)
  then show ?thesis by (simp add: sample_picture_def sample_affine_def sample_junk_def)
qed

end
